(* ===== verification/Prelude.thy ===== *)
theory Prelude
  imports Complex_Main
begin

text \<open>
  Shared vocabulary of the development.  Money and prices are exact rationals (the code
  computes them with Python's \<open>Decimal\<close>), tables are lists of rows in primary-key order,
  and the two SQL forms the code uses are a lookup (\<open>query.filter_by(...).first()\<close>) and
  a conditional update with its row count (\<open>UPDATE ... WHERE ...\<close>).  The lemmas here say
  how an update acts on membership, on keys, on lookups and on sums over a table; every
  component proof rests on them.
\<close>

named_theorems table_simps "how a conditional UPDATE acts on a table"
named_theorems read_simps "the values the ORM hands back for a row"

subsection \<open>Conditional updates\<close>

definition sql_update :: "('r \<Rightarrow> bool) \<Rightarrow> ('r \<Rightarrow> 'r) \<Rightarrow> 'r list \<Rightarrow> 'r list" where
  "sql_update P f rows = map (\<lambda>r. if P r then f r else r) rows"

definition row_count :: "('r \<Rightarrow> bool) \<Rightarrow> 'r list \<Rightarrow> nat" where
  "row_count P rows = length (filter P rows)"

lemma length_sql_update [table_simps, simp]: "length (sql_update P f rows) = length rows"
  by (simp add: sql_update_def)

lemma sql_update_Nil [table_simps, simp]: "sql_update P f [] = []"
  by (simp add: sql_update_def)

lemma sql_update_Cons [table_simps]:
  "sql_update P f (r # rows) = (if P r then f r else r) # sql_update P f rows"
  by (simp add: sql_update_def)

lemma set_sql_update [table_simps]:
  "set (sql_update P f rows) = {f r | r. r \<in> set rows \<and> P r} \<union> {r \<in> set rows. \<not> P r}"
  by (auto simp: sql_update_def)

lemma sql_update_member: "x \<in> set (sql_update P f rows) \<Longrightarrow> \<exists>r \<in> set rows. x = (if P r then f r else r)"
  by (auto simp: sql_update_def)

lemma sql_update_memberI: "r \<in> set rows \<Longrightarrow> P r \<Longrightarrow> f r \<in> set (sql_update P f rows)"
  by (auto simp: sql_update_def)

lemma map_key_sql_update [table_simps]:
  assumes "\<And>r. P r \<Longrightarrow> key (f r) = key r"
  shows "map key (sql_update P f rows) = map key rows"
  using assms by (induction rows) (auto simp: sql_update_def)

lemma sql_update_no_match: "row_count P rows = 0 \<Longrightarrow> sql_update P f rows = rows"
  by (induction rows) (auto simp: row_count_def sql_update_def split: if_splits)

lemma row_count_pos: "0 < row_count P rows \<longleftrightarrow> (\<exists>r \<in> set rows. P r)"
  by (auto simp: row_count_def filter_empty_conv)

lemma row_count_0 [simp]: "row_count P rows = 0 \<longleftrightarrow> (\<forall>r \<in> set rows. \<not> P r)"
  by (auto simp: row_count_def filter_empty_conv)

lemma row_count_Cons [simp]:
  "row_count P (r # rows) = (if P r then Suc (row_count P rows) else row_count P rows)"
  by (simp add: row_count_def)

lemma row_count_Nil [simp]: "row_count P [] = 0"
  by (simp add: row_count_def)

text \<open>With a unique key a predicate that fixes the key matches at most one row.\<close>

lemma row_count_le_1:
  assumes "distinct (map key rows)" and "\<And>r. P r \<Longrightarrow> key r = k"
  shows "row_count P rows \<le> 1"
  using assms
proof (induction rows)
  case (Cons r rows)
  show ?case
  proof (cases "P r")
    case True
    with Cons.prems have "row_count P rows = 0"
      by (auto simp: image_iff)
    with True show ?thesis by simp
  next
    case False
    with Cons show ?thesis by simp
  qed
qed simp

lemma row_count_eq_1_iff:
  assumes "distinct (map key rows)" and "\<And>r. P r \<Longrightarrow> key r = k"
  shows "row_count P rows = 1 \<longleftrightarrow> (\<exists>r \<in> set rows. P r)"
proof -
  have "row_count P rows \<le> 1"
    using assms by (rule row_count_le_1)
  then have "row_count P rows = 1 \<longleftrightarrow> 0 < row_count P rows"
    by linarith
  then show ?thesis by (simp add: row_count_pos)
qed

subsection \<open>Lookups\<close>

lemma find_SomeD: "find P xs = Some x \<Longrightarrow> x \<in> set xs \<and> P x"
  by (auto simp: find_Some_iff)

lemma find_sql_update:
  assumes "\<And>r. P r \<Longrightarrow> Q (f r) = Q r"
  shows "find Q (sql_update P f rows) =
    map_option (\<lambda>r. if P r then f r else r) (find Q rows)"
  using assms by (induction rows) (auto simp: sql_update_def)

lemma find_unique_key:
  assumes "distinct (map key rows)" and "r \<in> set rows" and "\<And>x. P x \<longleftrightarrow> key x = key r"
  shows "find P rows = Some r"
  using assms
proof (induction rows)
  case (Cons x rows)
  then show ?case by (auto simp: image_iff)
qed simp

lemma find_append: "find P (xs @ ys) = (case find P xs of Some x \<Rightarrow> Some x | None \<Rightarrow> find P ys)"
  by (induction xs) auto

subsection \<open>Sums over the matching rows of a table\<close>

definition sum_rows :: "('r \<Rightarrow> bool) \<Rightarrow> ('r \<Rightarrow> rat) \<Rightarrow> 'r list \<Rightarrow> rat" where
  "sum_rows P g rows = sum_list (map g (filter P rows))"

lemma sum_rows_Nil [simp]: "sum_rows P g [] = 0"
  by (simp add: sum_rows_def)

lemma sum_rows_Cons [simp]:
  "sum_rows P g (r # rows) = (if P r then g r else 0) + sum_rows P g rows"
  by (simp add: sum_rows_def)

lemma sum_rows_append [simp]: "sum_rows P g (xs @ ys) = sum_rows P g xs + sum_rows P g ys"
  by (simp add: sum_rows_def)

lemma sum_rows_nonneg: "(\<And>r. r \<in> set rows \<Longrightarrow> P r \<Longrightarrow> 0 \<le> g r) \<Longrightarrow> 0 \<le> sum_rows P g rows"
  by (induction rows) auto

lemma sum_rows_cong:
  "(\<And>r. r \<in> set rows \<Longrightarrow> P r = Q r) \<Longrightarrow> (\<And>r. r \<in> set rows \<Longrightarrow> P r \<Longrightarrow> g r = h r) \<Longrightarrow>
   sum_rows P g rows = sum_rows Q h rows"
  by (induction rows) auto

subsection \<open>Arithmetic helpers\<close>

text \<open>Values on the grid of \<open>s\<close> decimal places: what a \<open>DECIMAL(p, s)\<close> column can hold.\<close>

definition on_grid :: "nat \<Rightarrow> rat \<Rightarrow> bool" where
  "on_grid s x \<longleftrightarrow> x * 10 ^ s \<in> \<int>"

lemma on_grid_0 [simp, intro]: "on_grid s 0"
  by (simp add: on_grid_def)

lemma on_grid_add [intro]: "on_grid s x \<Longrightarrow> on_grid s y \<Longrightarrow> on_grid s (x + y)"
  by (simp add: on_grid_def distrib_right)

lemma on_grid_diff [intro]: "on_grid s x \<Longrightarrow> on_grid s y \<Longrightarrow> on_grid s (x - y)"
  by (simp add: on_grid_def left_diff_distrib)

lemma on_grid_minus [intro]: "on_grid s x \<Longrightarrow> on_grid s (- x)"
  by (simp add: on_grid_def)

lemma on_grid_of_int [simp, intro]: "on_grid s (of_int n)"
  by (simp add: on_grid_def Ints_power)

lemma on_grid_mult_int [intro]: "on_grid s x \<Longrightarrow> on_grid s (of_int n * x)"
  by (simp add: on_grid_def mult.assoc Ints_mult)

lemma on_grid_sum_rows:
  "(\<And>r. r \<in> set rows \<Longrightarrow> P r \<Longrightarrow> on_grid s (g r)) \<Longrightarrow> on_grid s (sum_rows P g rows)"
  by (induction rows) (auto intro: on_grid_add)

lemma on_grid_numeral [simp]: "on_grid s (numeral n)"
  using on_grid_of_int [of s "numeral n"] by simp

lemma on_grid_one [simp]: "on_grid s 1"
  using on_grid_of_int [of s 1] by simp

end
