(* ===== verification/SandboxDB.thy ===== *)
theory SandboxDB
  imports Prelude
begin

text \<open>
  The sandbox database (\<open>database/sandbox_db.py\<close>) and the rest of the state the sandbox
  keeps: one record per table row, one list per table (rows in primary-key order), the
  configuration table, the master-contract lookup behind \<open>get_symbol_info\<close>, the two process
  globals of the order-id generator and the log of published events.  Columns with a CHECK
  constraint are datatypes.  \<open>DECIMAL\<close> columns hold what was written; what a query hands back
  is that value passed through the ORM's result processor, the parameter \<open>x_read\<close> of the
  record \<open>ext\<close> (the argument is the number of decimal places of the column).

  Times are naive IST wall-clock values in milliseconds from a midnight, so the day is
  \<open>t div 86400000\<close> and the time of day \<open>t mod 86400000\<close>.
\<close>

subsection \<open>Enumerated columns\<close>

datatype action = BUY | SELL
datatype price_type = MARKET | LIMIT | SL | SL_M
datatype product = CNC | NRML | MIS
datatype order_status = Open | Trigger_pending | Complete | Cancelled | Rejected
datatype gtt_status = Active | Triggered | Gtt_cancelled | Expired | Gtt_rejected
datatype leg_status = Pending | Triggering | Leg_triggered | Leg_cancelled
datatype trigger_type = Single | Two_leg
datatype direction = Below | Above

text \<open>Why an order row was rejected: the two causes the sandbox writes.\<close>

datatype rejection =
    Cnc_nothing_to_sell
  | Cnc_sell_exceeds int int int
  | Execution_error

type_synonym time = int
type_synonym orderid = "int \<times> int"

definition ms_per_day :: int where
  "ms_per_day = 86400000"

definition day_of :: "time \<Rightarrow> int" where
  "day_of t = t div ms_per_day"

definition time_of_day :: "time \<Rightarrow> int" where
  "time_of_day t = t mod ms_per_day"

definition hhmm :: "int \<Rightarrow> int \<Rightarrow> int" where
  "hhmm h m = (h * 60 + m) * 60000"

subsection \<open>Rows\<close>

record sandbox_order =
  od_id :: nat
  od_orderid :: orderid
  od_user :: string
  od_strategy :: string
  od_symbol :: string
  od_exchange :: string
  od_action :: action
  od_quantity :: int
  od_price :: "rat option"
  od_trigger_price :: "rat option"
  od_price_type :: price_type
  od_product :: product
  od_status :: order_status
  od_average_price :: "rat option"
  od_filled_quantity :: int
  od_pending_quantity :: int
  od_rejection :: "rejection option"
  od_margin_blocked :: "rat option"
  od_gtt_leg_id :: "nat option"
  od_timestamp :: time

record sandbox_trade =
  tr_tradeid :: "time \<times> nat"
  tr_orderid :: orderid
  tr_user :: string
  tr_symbol :: string
  tr_exchange :: string
  tr_action :: action
  tr_quantity :: int
  tr_price :: rat
  tr_product :: product
  tr_strategy :: string
  tr_timestamp :: time

record sandbox_position =
  po_id :: nat
  po_user :: string
  po_symbol :: string
  po_exchange :: string
  po_product :: product
  po_quantity :: int
  po_average_price :: rat
  po_ltp :: "rat option"
  po_pnl :: rat
  po_pnl_percent :: rat
  po_accumulated_realized_pnl :: rat
  po_today_realized_pnl :: rat
  po_margin_blocked :: rat
  po_created_at :: time
  po_updated_at :: time

record sandbox_holding =
  ho_user :: string
  ho_symbol :: string
  ho_exchange :: string
  ho_quantity :: int
  ho_average_price :: rat
  ho_ltp :: "rat option"
  ho_pnl :: rat
  ho_pnl_percent :: rat
  ho_settlement_date :: int

text \<open>
  The seven money columns of a funds row.  \<open>today_realized_pnl\<close> was added by a migration and
  may be NULL, which the code guards; every writer sets the other six.
\<close>

record money =
  total_capital :: rat
  available_balance :: rat
  used_margin :: rat
  realized_pnl :: rat
  today_realized_pnl :: "rat option"
  unrealized_pnl :: rat
  total_pnl :: rat

record sandbox_funds =
  fu_user :: string
  fu_money :: money
  fu_last_reset_date :: time
  fu_reset_count :: int

record sandbox_gtt =
  gt_gtt_id :: nat
  gt_user :: string
  gt_strategy :: "string option"
  gt_trigger_type :: trigger_type
  gt_symbol :: string
  gt_exchange :: string
  gt_last_price :: rat
  gt_status :: gtt_status
  gt_margin_blocked :: rat
  gt_expires_at :: "time option"

record sandbox_gtt_leg =
  lg_id :: nat
  lg_gtt_id :: nat
  lg_leg_number :: nat
  lg_trigger_price :: rat
  lg_direction :: direction
  lg_action :: action
  lg_quantity :: int
  lg_price :: rat
  lg_pricetype :: price_type
  lg_product :: product
  lg_status :: leg_status
  lg_triggered_order_id :: "orderid option"
  lg_leg_margin :: rat
  lg_claimed_at :: "time option"

subsection \<open>Quotes, master contract, events\<close>

record quote =
  q_ltp :: rat
  q_bid :: rat
  q_ask :: rat
  q_high :: rat
  q_low :: rat

record symbol_info =
  si_lotsize :: "int option"
  si_contract_value :: "rat option"

datatype event =
    Order_update orderid order_status
  | Order_filled orderid "time \<times> nat" int rat
  | Ws_order_placed orderid
  | Ws_gtt_placed nat
  | Gtt_triggered_event nat orderid
  | Gtt_expired_event nat
  | T1_settled string nat
  | Auto_square_off nat nat

subsection \<open>The state and the outside world\<close>

record sandbox =
  orders :: "sandbox_order list"
  trades :: "sandbox_trade list"
  positions :: "sandbox_position list"
  holdings :: "sandbox_holding list"
  funds_rows :: "sandbox_funds list"
  gtts :: "sandbox_gtt list"
  gtt_legs :: "sandbox_gtt_leg list"
  config :: "string \<Rightarrow> string option"
  symtoken :: "string \<Rightarrow> string \<Rightarrow> symbol_info option"
  last_order_day :: "int option"
  last_order_seq :: int
  events :: "event list"

text \<open>
  What the sandbox takes from code that is not its own: the ORM's reading of a decimal column,
  the clock, the broker's quote service (the first argument numbers the attempt, since each
  call may answer differently), whether the WebSocket engine runs, fresh uuids, and whether the
  database raises in the position transaction of a fill or of a T+1 settlement.
\<close>

record ext =
  x_read :: "nat \<Rightarrow> rat \<Rightarrow> rat"
  x_now :: time
  x_quote :: "nat \<Rightarrow> string \<Rightarrow> string \<Rightarrow> quote option"
  x_ws_running :: bool
  x_uuid :: nat
  x_db_error :: bool

text \<open>
  \<open>func.now()\<close>: the database clock is UTC, five and a half hours behind the sandbox's own.
\<close>

definition db_now :: "ext \<Rightarrow> time" where
  "db_now X = x_now X - 19800000"

subsection \<open>Reading rows\<close>

definition read_money :: "ext \<Rightarrow> money \<Rightarrow> money" where
  "read_money X m =
     \<lparr> total_capital = x_read X 2 (total_capital m),
       available_balance = x_read X 2 (available_balance m),
       used_margin = x_read X 2 (used_margin m),
       realized_pnl = x_read X 2 (realized_pnl m),
       today_realized_pnl = map_option (x_read X 2) (today_realized_pnl m),
       unrealized_pnl = x_read X 2 (unrealized_pnl m),
       total_pnl = x_read X 2 (total_pnl m) \<rparr>"

definition read_order :: "ext \<Rightarrow> sandbox_order \<Rightarrow> sandbox_order" where
  "read_order X r = r\<lparr>
     od_price := map_option (x_read X 2) (od_price r),
     od_trigger_price := map_option (x_read X 2) (od_trigger_price r),
     od_average_price := map_option (x_read X 2) (od_average_price r),
     od_margin_blocked := map_option (x_read X 2) (od_margin_blocked r) \<rparr>"

definition read_position :: "ext \<Rightarrow> sandbox_position \<Rightarrow> sandbox_position" where
  "read_position X r = r\<lparr>
     po_average_price := x_read X 2 (po_average_price r),
     po_ltp := map_option (x_read X 2) (po_ltp r),
     po_pnl := x_read X 2 (po_pnl r),
     po_pnl_percent := x_read X 4 (po_pnl_percent r),
     po_accumulated_realized_pnl := x_read X 2 (po_accumulated_realized_pnl r),
     po_today_realized_pnl := x_read X 2 (po_today_realized_pnl r),
     po_margin_blocked := x_read X 2 (po_margin_blocked r) \<rparr>"

definition read_holding :: "ext \<Rightarrow> sandbox_holding \<Rightarrow> sandbox_holding" where
  "read_holding X r = r\<lparr>
     ho_average_price := x_read X 2 (ho_average_price r),
     ho_ltp := map_option (x_read X 2) (ho_ltp r),
     ho_pnl := x_read X 2 (ho_pnl r),
     ho_pnl_percent := x_read X 4 (ho_pnl_percent r) \<rparr>"

definition read_gtt :: "ext \<Rightarrow> sandbox_gtt \<Rightarrow> sandbox_gtt" where
  "read_gtt X r = r\<lparr>
     gt_last_price := x_read X 2 (gt_last_price r),
     gt_margin_blocked := x_read X 2 (gt_margin_blocked r) \<rparr>"

definition read_leg :: "ext \<Rightarrow> sandbox_gtt_leg \<Rightarrow> sandbox_gtt_leg" where
  "read_leg X r = r\<lparr>
     lg_trigger_price := x_read X 2 (lg_trigger_price r),
     lg_price := x_read X 2 (lg_price r),
     lg_leg_margin := x_read X 2 (lg_leg_margin r) \<rparr>"

lemma read_position_keys [read_simps, simp]:
  "po_id (read_position X p) = po_id p" "po_user (read_position X p) = po_user p"
  "po_symbol (read_position X p) = po_symbol p" "po_exchange (read_position X p) = po_exchange p"
  "po_product (read_position X p) = po_product p" "po_quantity (read_position X p) = po_quantity p"
  "po_created_at (read_position X p) = po_created_at p"
  "po_margin_blocked (read_position X p) = x_read X 2 (po_margin_blocked p)"
  "po_average_price (read_position X p) = x_read X 2 (po_average_price p)"
  "po_accumulated_realized_pnl (read_position X p) = x_read X 2 (po_accumulated_realized_pnl p)"
  "po_today_realized_pnl (read_position X p) = x_read X 2 (po_today_realized_pnl p)"
  by (simp_all add: read_position_def)

lemma read_order_keys [read_simps, simp]:
  "od_id (read_order X r) = od_id r" "od_orderid (read_order X r) = od_orderid r"
  "od_user (read_order X r) = od_user r" "od_symbol (read_order X r) = od_symbol r"
  "od_exchange (read_order X r) = od_exchange r" "od_action (read_order X r) = od_action r"
  "od_quantity (read_order X r) = od_quantity r" "od_price_type (read_order X r) = od_price_type r"
  "od_product (read_order X r) = od_product r" "od_status (read_order X r) = od_status r"
  "od_strategy (read_order X r) = od_strategy r" "od_gtt_leg_id (read_order X r) = od_gtt_leg_id r"
  "od_margin_blocked (read_order X r) = map_option (x_read X 2) (od_margin_blocked r)"
  "od_price (read_order X r) = map_option (x_read X 2) (od_price r)"
  "od_trigger_price (read_order X r) = map_option (x_read X 2) (od_trigger_price r)"
  by (simp_all add: read_order_def)

lemma read_gtt_keys [read_simps, simp]:
  "gt_gtt_id (read_gtt X g) = gt_gtt_id g" "gt_user (read_gtt X g) = gt_user g"
  "gt_symbol (read_gtt X g) = gt_symbol g" "gt_exchange (read_gtt X g) = gt_exchange g"
  "gt_status (read_gtt X g) = gt_status g" "gt_trigger_type (read_gtt X g) = gt_trigger_type g"
  "gt_margin_blocked (read_gtt X g) = x_read X 2 (gt_margin_blocked g)"
  "gt_last_price (read_gtt X g) = x_read X 2 (gt_last_price g)"
  "gt_expires_at (read_gtt X g) = gt_expires_at g" "gt_strategy (read_gtt X g) = gt_strategy g"
  by (simp_all add: read_gtt_def)

lemma read_leg_keys [read_simps, simp]:
  "lg_id (read_leg X l) = lg_id l" "lg_gtt_id (read_leg X l) = lg_gtt_id l"
  "lg_action (read_leg X l) = lg_action l" "lg_quantity (read_leg X l) = lg_quantity l"
  "lg_direction (read_leg X l) = lg_direction l" "lg_product (read_leg X l) = lg_product l"
  "lg_pricetype (read_leg X l) = lg_pricetype l" "lg_status (read_leg X l) = lg_status l"
  "lg_leg_number (read_leg X l) = lg_leg_number l"
  "lg_triggered_order_id (read_leg X l) = lg_triggered_order_id l"
  "lg_claimed_at (read_leg X l) = lg_claimed_at l"
  "lg_price (read_leg X l) = x_read X 2 (lg_price l)"
  "lg_trigger_price (read_leg X l) = x_read X 2 (lg_trigger_price l)"
  "lg_leg_margin (read_leg X l) = x_read X 2 (lg_leg_margin l)"
  by (simp_all add: read_leg_def)

subsection \<open>The contract of a decimal column\<close>

text \<open>
  What the code relies on from the ORM: reading a \<open>DECIMAL(p, s)\<close> column yields a value with
  \<open>s\<close> places, leaves a value that already has \<open>s\<close> places alone, and is monotone.  (SQLAlchemy
  formats the stored number to \<open>s\<close> places.)  The contract is stated once, as a locale, and
  instantiated by rounding half up to \<open>s\<close> places.
\<close>

locale decimal_columns =
  fixes rd :: "nat \<Rightarrow> rat \<Rightarrow> rat"
  assumes rd_grid: "on_grid s (rd s x)"
    and rd_id: "on_grid s x \<Longrightarrow> rd s x = x"
    and rd_mono: "x \<le> y \<Longrightarrow> rd s x \<le> rd s y"
begin

lemma rd_idem [simp]: "rd s (rd s x) = rd s x"
  by (rule rd_id) (rule rd_grid)

lemma rd_0 [simp]: "rd s 0 = 0"
  by (rule rd_id) simp

lemma rd_nonneg: "0 \<le> x \<Longrightarrow> 0 \<le> rd s x"
  using rd_mono [of 0 x s] by simp

lemma rd_nonpos: "x \<le> 0 \<Longrightarrow> rd s x \<le> 0"
  using rd_mono [of x 0 s] by simp

lemma rd_pos_imp: "0 < rd s x \<Longrightarrow> 0 < x"
  using rd_nonpos [of x s] by (meson leD not_le_imp_less)

text \<open>What is read is less than one unit of the last place away from what is stored.\<close>

lemma rd_near: "\<bar>rd s x - x\<bar> \<le> 1 / 10 ^ s"
proof -
  let ?u = "(10 :: rat) ^ s"
  have grid: "on_grid s (of_int n / ?u)" for n by (simp add: on_grid_def)
  have lo: "of_int \<lfloor>x * ?u\<rfloor> / ?u \<le> x" by (simp add: pos_divide_le_eq)
  have hi: "x \<le> of_int (\<lfloor>x * ?u\<rfloor> + 1) / ?u"
    using floor_correct [of "x * ?u"] by (simp only: pos_le_divide_eq zero_less_power zero_less_numeral) simp
  have "of_int \<lfloor>x * ?u\<rfloor> / ?u \<le> rd s x" "rd s x \<le> of_int (\<lfloor>x * ?u\<rfloor> + 1) / ?u"
    using rd_mono [OF lo, of s] rd_mono [OF hi, of s] unfolding rd_id [OF grid] .
  with lo hi show ?thesis
    by (simp add: add_divide_distrib)
qed

end

definition round_column :: "nat \<Rightarrow> rat \<Rightarrow> rat" where
  "round_column s x = of_int \<lfloor>x * 10 ^ s + 1 / 2\<rfloor> / 10 ^ s"

lemma round_column_on_grid: "on_grid s x \<Longrightarrow> round_column s x = x"
proof -
  assume "on_grid s x"
  then obtain n :: int where n: "x * 10 ^ s = of_int n"
    by (auto simp: on_grid_def elim: Ints_cases)
  then have "\<lfloor>x * 10 ^ s + 1 / 2\<rfloor> = n"
    by (simp add: floor_eq_iff)
  then show ?thesis
    using n by (simp add: round_column_def field_simps)
qed

interpretation rounded: decimal_columns round_column
proof
  fix s x
  show "on_grid s (round_column s x)"
    by (simp add: on_grid_def round_column_def)
  show "round_column s x = x" if "on_grid s x"
    using that by (rule round_column_on_grid)
next
  fix x y :: rat and s
  assume "x \<le> y"
  then show "round_column s x \<le> round_column s y"
    by (simp add: round_column_def divide_right_mono floor_mono)
qed

subsection \<open>Configuration values and numerals in text\<close>

definition digit_value :: "char \<Rightarrow> int option" where
  "digit_value c = (let n = of_char c :: int in if 48 \<le> n \<and> n \<le> 57 then Some (n - 48) else None)"

fun digits_value :: "int \<Rightarrow> string \<Rightarrow> int option" where
  "digits_value acc [] = Some acc"
| "digits_value acc (c # cs) =
     (case digit_value c of None \<Rightarrow> None | Some d \<Rightarrow> digits_value (10 * acc + d) cs)"

text \<open>\<open>Decimal(text)\<close> and \<open>int(text)\<close> for plain numerals, \<open>None\<close> where they raise.\<close>

definition unsigned_decimal :: "string \<Rightarrow> rat option" where
  "unsigned_decimal cs =
     (let whole = takeWhile (\<lambda>c. c \<noteq> CHR ''.'') cs;
          rest = dropWhile (\<lambda>c. c \<noteq> CHR ''.'') cs
      in if rest = [] then
           (if whole = [] then None else map_option of_int (digits_value 0 whole))
         else let frac = tl rest in
           if whole = [] \<and> frac = [] then None
           else case digits_value 0 (whole @ frac) of
             None \<Rightarrow> None
           | Some n \<Rightarrow> Some (of_int n / 10 ^ length frac))"

definition decimal_of_string :: "string \<Rightarrow> rat option" where
  "decimal_of_string cs =
     (case cs of
        [] \<Rightarrow> None
      | c # rest \<Rightarrow>
          if c = CHR ''-'' then map_option uminus (unsigned_decimal rest)
          else if c = CHR ''+'' then unsigned_decimal rest
          else unsigned_decimal cs)"

definition int_of_string :: "string \<Rightarrow> int option" where
  "int_of_string cs =
     (case cs of
        [] \<Rightarrow> None
      | c # rest \<Rightarrow>
          if c = CHR ''-'' then (if rest = [] then None else map_option uminus (digits_value 0 rest))
          else if c = CHR ''+'' then (if rest = [] then None else digits_value 0 rest)
          else digits_value 0 cs)"

text \<open>\<open>str.upper\<close> and \<open>str.lower\<close> on ASCII text.\<close>

definition char_upper :: "char \<Rightarrow> char" where
  "char_upper c = (let n = of_char c :: nat in if 97 \<le> n \<and> n \<le> 122 then char_of (n - 32) else c)"

definition char_lower :: "char \<Rightarrow> char" where
  "char_lower c = (let n = of_char c :: nat in if 65 \<le> n \<and> n \<le> 90 then char_of (n + 32) else c)"

definition str_upper :: "string \<Rightarrow> string" where
  "str_upper = map char_upper"

definition str_lower :: "string \<Rightarrow> string" where
  "str_lower = map char_lower"

text \<open>\<open>str.strip\<close> on ASCII text.\<close>

definition blank :: "char \<Rightarrow> bool" where
  "blank c \<longleftrightarrow> of_char c \<in> {9 :: nat, 10, 11, 12, 13, 32}"

definition strip :: "string \<Rightarrow> string" where
  "strip s = rev (dropWhile blank (rev (dropWhile blank s)))"

definition get_config :: "sandbox \<Rightarrow> string \<Rightarrow> string \<Rightarrow> string" where
  "get_config db key dflt = (case config db key of Some v \<Rightarrow> v | None \<Rightarrow> dflt)"

definition set_config :: "sandbox \<Rightarrow> string \<Rightarrow> string \<Rightarrow> sandbox" where
  "set_config db key v = db\<lparr>config := (config db)(key \<mapsto> v)\<rparr>"

text \<open>Publishing to the event bus: error-isolated, so it only appends to the log.\<close>

definition publish :: "event \<Rightarrow> sandbox \<Rightarrow> sandbox" where
  "publish e db = db\<lparr>events := events db @ [e]\<rparr>"

lemma publish_simps [simp]:
  "orders (publish e db) = orders db" "trades (publish e db) = trades db"
  "positions (publish e db) = positions db" "holdings (publish e db) = holdings db"
  "funds_rows (publish e db) = funds_rows db" "gtts (publish e db) = gtts db"
  "gtt_legs (publish e db) = gtt_legs db" "config (publish e db) = config db"
  "symtoken (publish e db) = symtoken db" "last_order_day (publish e db) = last_order_day db"
  "last_order_seq (publish e db) = last_order_seq db"
  "events (publish e db) = events db @ [e]"
  by (simp_all add: publish_def)

end
