(* ===== verification/Symbols.thy ===== *)
theory Symbols
  imports SandboxDB "HOL-Library.Sublist"
begin

text \<open>
  Exchange families and symbol classification (\<open>utils/constants.py\<close>,
  \<open>utils/symbol_utils.py\<close>).
\<close>

definition CRYPTO_EXCHANGES :: "string list" where
  "CRYPTO_EXCHANGES = [''CRYPTO'']"

definition FNO_EXCHANGES :: "string list" where
  "FNO_EXCHANGES = [''NFO'', ''BFO'', ''MCX'', ''CDS'', ''BCD'', ''NCDEX'', ''NCO''] @ CRYPTO_EXCHANGES"

definition VALID_EXCHANGES :: "string list" where
  "VALID_EXCHANGES =
     [''NSE'', ''NFO'', ''CDS'', ''BSE'', ''BFO'', ''BCD'', ''MCX'', ''NCDEX'', ''NCO'',
      ''NSE_INDEX'', ''BSE_INDEX'', ''MCX_INDEX'', ''GLOBAL_INDEX'', ''CRYPTO'']"

definition endswith :: "string \<Rightarrow> string \<Rightarrow> bool" where
  "endswith s t = suffix t s"

definition is_option :: "string \<Rightarrow> string \<Rightarrow> bool" where
  "is_option symbol exchange =
     (if exchange \<in> set FNO_EXCHANGES then endswith symbol ''CE'' \<or> endswith symbol ''PE'' else False)"

definition is_future :: "string \<Rightarrow> string \<Rightarrow> bool" where
  "is_future symbol exchange =
     (if exchange \<in> set CRYPTO_EXCHANGES then \<not> (endswith symbol ''CE'' \<or> endswith symbol ''PE'')
      else if exchange \<in> set FNO_EXCHANGES - set CRYPTO_EXCHANGES then endswith symbol ''FUT''
      else False)"

text \<open>No symbol is both an option and a future, whatever its exchange.\<close>

lemma FUT_not_CE_PE:
  "endswith s ''FUT'' \<Longrightarrow> \<not> endswith s ''CE'' \<and> \<not> endswith s ''PE''"
  by (auto simp: endswith_def suffix_def)

lemma option_future_disjoint: "is_option symbol exchange \<Longrightarrow> \<not> is_future symbol exchange"
  using FUT_not_CE_PE by (auto simp: is_option_def is_future_def split: if_splits)

lemma crypto_option_or_future: "is_option symbol ''CRYPTO'' \<longleftrightarrow> \<not> is_future symbol ''CRYPTO''"
  by (simp add: is_option_def is_future_def FNO_EXCHANGES_def CRYPTO_EXCHANGES_def)

end
