(* ===== verification/FundManager.thy ===== *)
theory FundManager
  imports Symbols
begin

text \<open>
  The fund manager (\<open>sandbox/fund_manager.py\<close>): a user's simulated capital and margin.  Every
  balance change is a compare-and-set against a fresh read of the funds row
  (\<open>apply_funds_change\<close>), retried a bounded number of times; the model keeps the interference
  of other writers between the read and the write as an explicit argument, a function that
  says how the state moves before the write of each attempt.  Messages are constructors.
\<close>

subsection \<open>Money columns and snapshots\<close>

datatype money_col =
    Total_capital | Available_balance | Used_margin | Realized_pnl
  | Today_realized_pnl | Unrealized_pnl | Total_pnl

definition MONEY_COLUMNS :: "money_col list" where
  "MONEY_COLUMNS =
     [Total_capital, Available_balance, Used_margin, Realized_pnl,
      Today_realized_pnl, Unrealized_pnl, Total_pnl]"

definition FUNDS_WRITE_ATTEMPTS :: nat where
  "FUNDS_WRITE_ATTEMPTS = 5"

fun col_get :: "money \<Rightarrow> money_col \<Rightarrow> rat option" where
  "col_get m Total_capital = Some (total_capital m)"
| "col_get m Available_balance = Some (available_balance m)"
| "col_get m Used_margin = Some (used_margin m)"
| "col_get m Realized_pnl = Some (realized_pnl m)"
| "col_get m Today_realized_pnl = today_realized_pnl m"
| "col_get m Unrealized_pnl = Some (unrealized_pnl m)"
| "col_get m Total_pnl = Some (total_pnl m)"

fun col_set :: "money_col \<times> rat \<Rightarrow> money \<Rightarrow> money" where
  "col_set (Total_capital, v) m = m\<lparr>total_capital := v\<rparr>"
| "col_set (Available_balance, v) m = m\<lparr>available_balance := v\<rparr>"
| "col_set (Used_margin, v) m = m\<lparr>used_margin := v\<rparr>"
| "col_set (Realized_pnl, v) m = m\<lparr>realized_pnl := v\<rparr>"
| "col_set (Today_realized_pnl, v) m = m\<lparr>today_realized_pnl := Some v\<rparr>"
| "col_set (Unrealized_pnl, v) m = m\<lparr>unrealized_pnl := v\<rparr>"
| "col_set (Total_pnl, v) m = m\<lparr>total_pnl := v\<rparr>"

record funds_snapshot =
  snap_values :: money
  snap_stored :: money

datatype fund_msg =
    Funds_not_initialized | Funds_busy | Funds_initialized | Funds_already_initialized
  | Error_initializing
  | Sufficient_margin | Insufficient_shortage rat rat rat
  | Block_not_positive rat | Insufficient_funds rat rat | Margin_blocked rat
  | Release_negative rat | Release_exceeds rat rat | Margin_released rat rat
  | Transfer_not_positive rat | Transfer_exceeds rat rat | Margin_transferred rat
  | Credit_not_positive rat | Proceeds_credited rat
  | Prior_session_settled rat rat | Unrealized_updated
  | No_change | Insufficient_required rat | Cannot_release_reserved rat | Margin_staged rat
  | Rebased

type_synonym new_values = "(money_col \<times> rat) list"
type_synonym compute = "money \<Rightarrow> bool \<times> fund_msg \<times> new_values"

definition funds_of :: "string \<Rightarrow> sandbox \<Rightarrow> sandbox_funds option" where
  "funds_of uid db = find (\<lambda>f. fu_user f = uid) (funds_rows db)"

definition read_funds_snapshot :: "ext \<Rightarrow> string \<Rightarrow> sandbox \<Rightarrow> funds_snapshot option" where
  "read_funds_snapshot X uid db =
     map_option (\<lambda>f. \<lparr>snap_values = read_money X (fu_money f), snap_stored = fu_money f\<rparr>) (funds_of uid db)"

definition changed_values :: "money \<Rightarrow> new_values \<Rightarrow> new_values" where
  "changed_values vals new = filter (\<lambda>(c, v). col_get vals c \<noteq> Some v) new"

definition unchanged_row :: "string \<Rightarrow> money \<Rightarrow> sandbox_funds \<Rightarrow> bool" where
  "unchanged_row uid m f \<longleftrightarrow>
     fu_user f = uid \<and> list_all (\<lambda>c. col_get (fu_money f) c = col_get m c) MONEY_COLUMNS"

definition write_money :: "new_values \<Rightarrow> sandbox_funds \<Rightarrow> sandbox_funds" where
  "write_money new f = f\<lparr>fu_money := fold col_set new (fu_money f)\<rparr>"

definition write_funds_if_unchanged ::
    "string \<Rightarrow> funds_snapshot \<Rightarrow> new_values \<Rightarrow> sandbox \<Rightarrow> bool \<times> sandbox" where
  "write_funds_if_unchanged uid snap new db =
     (let changes = changed_values (snap_values snap) new in
      if changes = [] then (True, db)
      else if row_count (unchanged_row uid (snap_stored snap)) (funds_rows db) \<noteq> 1 then (False, db)
      else (True, db\<lparr>funds_rows :=
             sql_update (unchanged_row uid (snap_stored snap)) (write_money changes) (funds_rows db)\<rparr>))"

subsection \<open>The read, compute, compare-and-set loop\<close>

text \<open>
  \<open>env n\<close> is what other writers commit between the read and the write of the attempt that has
  \<open>n\<close> further attempts left.
\<close>

primrec apply_attempts ::
    "nat \<Rightarrow> ext \<Rightarrow> (nat \<Rightarrow> sandbox \<Rightarrow> sandbox) \<Rightarrow> string \<Rightarrow> compute \<Rightarrow> (sandbox \<Rightarrow> sandbox) option
     \<Rightarrow> sandbox \<Rightarrow> (bool \<times> fund_msg) \<times> sandbox" where
  "apply_attempts 0 X env uid compute ensure db = ((False, Funds_busy), db)"
| "apply_attempts (Suc n) X env uid compute ensure db =
     (let missing = (read_funds_snapshot X uid db = None);
          db1 = (case ensure of Some e \<Rightarrow> if missing then e db else db | None \<Rightarrow> db);
          ensure1 = (if missing then None else ensure)
      in case read_funds_snapshot X uid db1 of
           None \<Rightarrow> ((False, Funds_not_initialized), db1)
         | Some snap \<Rightarrow>
             (case compute (snap_values snap) of (ok, msg, new) \<Rightarrow>
                if \<not> ok then ((False, msg), db1)
                else (case write_funds_if_unchanged uid snap new (env n db1) of (written, db2) \<Rightarrow>
                        if written then ((True, msg), db2)
                        else apply_attempts n X env uid compute ensure1 db2)))"

definition no_interference :: "nat \<Rightarrow> sandbox \<Rightarrow> sandbox" where
  "no_interference n db = db"

definition apply_funds_change ::
    "ext \<Rightarrow> string \<Rightarrow> compute \<Rightarrow> (sandbox \<Rightarrow> sandbox) option \<Rightarrow> sandbox \<Rightarrow> (bool \<times> fund_msg) \<times> sandbox" where
  "apply_funds_change X = apply_attempts FUNDS_WRITE_ATTEMPTS X no_interference"

subsection \<open>Creating and resetting a funds row\<close>

definition starting_capital :: "sandbox \<Rightarrow> rat option" where
  "starting_capital db = decimal_of_string (get_config db ''starting_capital'' ''10000000.00'')"

definition fresh_money :: "rat \<Rightarrow> money" where
  "fresh_money c =
     \<lparr> total_capital = c, available_balance = c, used_margin = 0, realized_pnl = 0,
       today_realized_pnl = Some 0, unrealized_pnl = 0, total_pnl = 0 \<rparr>"

definition initialize_funds :: "ext \<Rightarrow> string \<Rightarrow> sandbox \<Rightarrow> (bool \<times> fund_msg) \<times> sandbox" where
  "initialize_funds X uid db =
     (case starting_capital db of
        None \<Rightarrow> ((False, Error_initializing), db)
      | Some c \<Rightarrow>
          (case funds_of uid db of
             Some f \<Rightarrow> ((True, Funds_already_initialized), db)
           | None \<Rightarrow> ((True, Funds_initialized),
               db\<lparr>funds_rows := funds_rows db @
                 [\<lparr>fu_user = uid, fu_money = fresh_money c, fu_last_reset_date = x_now X,
                   fu_reset_count = 0\<rparr>]\<rparr>)))"

definition ensure_funds_initialized :: "ext \<Rightarrow> string \<Rightarrow> sandbox \<Rightarrow> sandbox" where
  "ensure_funds_initialized X uid db =
     (case funds_of uid db of Some f \<Rightarrow> db | None \<Rightarrow> snd (initialize_funds X uid db))"

definition reset_row :: "ext \<Rightarrow> rat \<Rightarrow> sandbox_funds \<Rightarrow> sandbox_funds" where
  "reset_row X c f = f\<lparr>fu_money := fresh_money c, fu_last_reset_date := x_now X,
                       fu_reset_count := fu_reset_count f + 1\<rparr>"

definition reset_funds :: "ext \<Rightarrow> string \<Rightarrow> sandbox \<Rightarrow> sandbox" where
  "reset_funds X uid db =
     (case starting_capital db of
        None \<Rightarrow> db
      | Some c \<Rightarrow>
          db\<lparr>funds_rows := sql_update (\<lambda>f. fu_user f = uid) (reset_row X c) (funds_rows db),
             positions := filter (\<lambda>p. po_user p \<noteq> uid) (positions db),
             holdings := filter (\<lambda>h. ho_user h \<noteq> uid) (holdings db)\<rparr>)"

definition parse_hhmm :: "string \<Rightarrow> int option" where
  "parse_hhmm s =
     (let h = takeWhile (\<lambda>c. c \<noteq> CHR '':'') s; r = dropWhile (\<lambda>c. c \<noteq> CHR '':'') s in
      if r = [] then None
      else case (int_of_string h, int_of_string (tl r)) of
             (Some hh, Some mm) \<Rightarrow>
               if 0 \<le> hh \<and> hh < 24 \<and> 0 \<le> mm \<and> mm < 60 then Some (hhmm hh mm) else None
           | _ \<Rightarrow> None)"

definition weekday_name :: "time \<Rightarrow> string" where
  "weekday_name t =
     [''Monday'', ''Tuesday'', ''Wednesday'', ''Thursday'', ''Friday'', ''Saturday'', ''Sunday'']
       ! nat ((day_of t + 3) mod 7)"

definition check_and_reset_funds :: "ext \<Rightarrow> string \<Rightarrow> sandbox \<Rightarrow> sandbox" where
  "check_and_reset_funds X uid db =
     (let reset_day = get_config db ''reset_day'' ''Never'' in
      if str_lower reset_day = ''never'' then db
      else case funds_of uid db of
        None \<Rightarrow> db
      | Some f \<Rightarrow>
          if weekday_name (x_now X) \<noteq> reset_day then db
          else case parse_hhmm (get_config db ''reset_time'' ''00:00'') of
            None \<Rightarrow> db
          | Some t \<Rightarrow>
              (let reset_time_today = day_of (x_now X) * ms_per_day + t in
               if reset_time_today \<le> x_now X \<and> fu_last_reset_date f < reset_time_today
               then reset_funds X uid db else db))"

definition get_funds :: "ext \<Rightarrow> string \<Rightarrow> sandbox \<Rightarrow> money option \<times> sandbox" where
  "get_funds X uid db =
     (let db1 = ensure_funds_initialized X uid db in
      case funds_of uid db1 of
        None \<Rightarrow> (None, db1)
      | Some f \<Rightarrow>
          (let db2 = check_and_reset_funds X uid db1
           in (map_option (\<lambda>g. read_money X (fu_money g)) (funds_of uid db2), db2)))"

primrec reset_each :: "ext \<Rightarrow> string list \<Rightarrow> sandbox \<Rightarrow> sandbox" where
  "reset_each X [] db = db"
| "reset_each X (u # us) db = reset_each X us (reset_funds X u db)"

definition reset_all_user_funds :: "ext \<Rightarrow> sandbox \<Rightarrow> sandbox" where
  "reset_all_user_funds X db = reset_each X (map fu_user (funds_rows db)) db"

subsection \<open>Moving margin\<close>

text \<open>The method \<open>_apply\<close>: create the row when it is missing, then the compare-and-set.\<close>

definition apply_user ::
    "ext \<Rightarrow> string \<Rightarrow> compute \<Rightarrow> sandbox \<Rightarrow> (bool \<times> fund_msg) \<times> sandbox" where
  "apply_user X uid compute db =
     apply_funds_change X uid compute (Some (ensure_funds_initialized X uid)) db"

definition check_margin_available ::
    "ext \<Rightarrow> string \<Rightarrow> rat \<Rightarrow> sandbox \<Rightarrow> (bool \<times> fund_msg) \<times> sandbox" where
  "check_margin_available X uid required db =
     (let db1 = ensure_funds_initialized X uid db in
      case funds_of uid db1 of
        None \<Rightarrow> ((False, Funds_not_initialized), db1)
      | Some f \<Rightarrow>
          (let available = available_balance (read_money X (fu_money f)) in
           if available \<ge> required then ((True, Sufficient_margin), db1)
           else ((False, Insufficient_shortage required available (required - available)), db1)))"

definition can_stage :: "string \<Rightarrow> rat \<Rightarrow> sandbox_funds \<Rightarrow> bool" where
  "can_stage uid delta f \<longleftrightarrow>
     fu_user f = uid \<and>
     (if delta > 0 then available_balance (fu_money f) \<ge> delta
      else used_margin (fu_money f) \<ge> - delta)"

definition add_delta :: "rat \<Rightarrow> sandbox_funds \<Rightarrow> sandbox_funds" where
  "add_delta delta f =
     f\<lparr>fu_money := (fu_money f)\<lparr>available_balance := available_balance (fu_money f) - delta,
                                used_margin := used_margin (fu_money f) + delta\<rparr>\<rparr>"

definition stage_margin_delta ::
    "ext \<Rightarrow> string \<Rightarrow> rat \<Rightarrow> sandbox \<Rightarrow> (bool \<times> fund_msg) \<times> sandbox" where
  "stage_margin_delta X uid delta db =
     (let db1 = ensure_funds_initialized X uid db in
      if funds_of uid db1 = None then ((False, Funds_not_initialized), db1)
      else if delta = 0 then ((True, No_change), db1)
      else if row_count (can_stage uid delta) (funds_rows db1) \<noteq> 1 then
        ((False, if delta > 0 then Insufficient_required delta
                 else Cannot_release_reserved (- delta)), db1)
      else ((True, Margin_staged delta),
            db1\<lparr>funds_rows := sql_update (can_stage uid delta) (add_delta delta) (funds_rows db1)\<rparr>))"

definition block_compute :: "rat \<Rightarrow> compute" where
  "block_compute amount m =
     (if amount \<le> 0 then (False, Block_not_positive amount, [])
      else if available_balance m < amount then
        (False, Insufficient_funds amount (available_balance m), [])
      else (True, Margin_blocked amount,
        [(Available_balance, available_balance m - amount), (Used_margin, used_margin m + amount)]))"

definition block_margin ::
    "ext \<Rightarrow> string \<Rightarrow> rat \<Rightarrow> sandbox \<Rightarrow> (bool \<times> fund_msg) \<times> sandbox" where
  "block_margin X uid amount = apply_user X uid (block_compute amount)"

definition released :: "money \<Rightarrow> rat \<Rightarrow> rat \<Rightarrow> bool \<Rightarrow> new_values" where
  "released m amount pnl count_today =
     (let available = available_balance m + amount + pnl; realized = realized_pnl m + pnl in
      [(Used_margin, used_margin m - amount), (Available_balance, available),
       (Realized_pnl, realized), (Total_pnl, realized + unrealized_pnl m)] @
      (if count_today
       then [(Today_realized_pnl, (case today_realized_pnl m of Some t \<Rightarrow> t | None \<Rightarrow> 0) + pnl)]
       else []))"

definition release_compute :: "rat \<Rightarrow> rat \<Rightarrow> bool \<Rightarrow> compute" where
  "release_compute amount pnl count_today m =
     (if amount < 0 then (False, Release_negative amount, [])
      else if amount > used_margin m then (False, Release_exceeds amount (used_margin m), [])
      else (True, Margin_released amount pnl, released m amount pnl count_today))"

definition stage_release_margin ::
    "ext \<Rightarrow> string \<Rightarrow> rat \<Rightarrow> rat \<Rightarrow> bool \<Rightarrow> sandbox \<Rightarrow> (bool \<times> fund_msg) \<times> sandbox" where
  "stage_release_margin X uid amount pnl count_today =
     apply_user X uid (release_compute amount pnl count_today)"

definition release_margin ::
    "ext \<Rightarrow> string \<Rightarrow> rat \<Rightarrow> rat \<Rightarrow> sandbox \<Rightarrow> (bool \<times> fund_msg) \<times> sandbox" where
  "release_margin X uid amount pnl = stage_release_margin X uid amount pnl True"

definition transfer_compute :: "rat \<Rightarrow> compute" where
  "transfer_compute amount m =
     (if amount \<le> 0 then (False, Transfer_not_positive amount, [])
      else if amount > used_margin m then (False, Transfer_exceeds amount (used_margin m), [])
      else (True, Margin_transferred amount, [(Used_margin, used_margin m - amount)]))"

definition stage_transfer_margin_to_holdings ::
    "ext \<Rightarrow> string \<Rightarrow> rat \<Rightarrow> sandbox \<Rightarrow> (bool \<times> fund_msg) \<times> sandbox" where
  "stage_transfer_margin_to_holdings X uid amount = apply_user X uid (transfer_compute amount)"

definition credit_compute :: "rat \<Rightarrow> compute" where
  "credit_compute amount m =
     (if amount \<le> 0 then (False, Credit_not_positive amount, [])
      else (True, Proceeds_credited amount, [(Available_balance, available_balance m + amount)]))"

definition stage_credit_sale_proceeds ::
    "ext \<Rightarrow> string \<Rightarrow> rat \<Rightarrow> sandbox \<Rightarrow> (bool \<times> fund_msg) \<times> sandbox" where
  "stage_credit_sale_proceeds X uid amount = apply_user X uid (credit_compute amount)"

definition prior_session_compute :: "rat \<Rightarrow> rat \<Rightarrow> compute" where
  "prior_session_compute amount pnl m =
     (let available = available_balance m + (amount + pnl);
          used = used_margin m - amount;
          realized = realized_pnl m + pnl
      in (True, Prior_session_settled amount pnl,
          [(Available_balance, available), (Used_margin, if used < 0 then 0 else used),
           (Realized_pnl, realized), (Total_pnl, realized + unrealized_pnl m)]))"

text \<open>No row is created here: only an existing one is settled.\<close>

definition stage_prior_session_release ::
    "ext \<Rightarrow> string \<Rightarrow> rat \<Rightarrow> rat \<Rightarrow> sandbox \<Rightarrow> (bool \<times> fund_msg) \<times> sandbox" where
  "stage_prior_session_release X uid amount pnl =
     apply_funds_change X uid (prior_session_compute amount pnl) None"

definition unrealized_compute :: "rat \<Rightarrow> compute" where
  "unrealized_compute u m =
     (True, Unrealized_updated, [(Unrealized_pnl, u), (Total_pnl, realized_pnl m + u)])"

definition update_unrealized_pnl ::
    "ext \<Rightarrow> string \<Rightarrow> rat \<Rightarrow> sandbox \<Rightarrow> (bool \<times> fund_msg) \<times> sandbox" where
  "update_unrealized_pnl X uid u = apply_user X uid (unrealized_compute u)"

subsection \<open>Margin requirement\<close>

definition config_leverage :: "sandbox \<Rightarrow> string \<Rightarrow> string \<Rightarrow> rat" where
  "config_leverage db key dflt =
     (case decimal_of_string (get_config db key dflt) of Some v \<Rightarrow> v | None \<Rightarrow> 1)"

definition get_leverage :: "sandbox \<Rightarrow> string \<Rightarrow> product \<Rightarrow> string \<Rightarrow> action option \<Rightarrow> rat" where
  "get_leverage db exchange pr symbol act =
     (if exchange \<in> {''NSE'', ''BSE''} then
        (case pr of
           MIS \<Rightarrow> config_leverage db ''equity_mis_leverage'' ''5''
         | CNC \<Rightarrow> config_leverage db ''equity_cnc_leverage'' ''1''
         | NRML \<Rightarrow> config_leverage db ''equity_cnc_leverage'' ''1'')
      else if is_future symbol exchange then config_leverage db ''futures_leverage'' ''10''
      else if is_option symbol exchange then
        (if act = Some BUY then config_leverage db ''option_buy_leverage'' ''1''
         else config_leverage db ''option_sell_leverage'' ''1'')
      else 1)"

datatype margin_error = Symbol_not_found | Division_by_zero

definition calculate_margin_required ::
    "sandbox \<Rightarrow> string \<Rightarrow> string \<Rightarrow> product \<Rightarrow> int \<Rightarrow> rat \<Rightarrow> action option \<Rightarrow> margin_error + rat" where
  "calculate_margin_required db symbol exchange pr quantity price act =
     (case symtoken db symbol exchange of
        None \<Rightarrow> Inl Symbol_not_found
      | Some info \<Rightarrow>
          (let trade_value = of_int \<bar>quantity\<bar> * price;
               leverage = get_leverage db exchange pr symbol act
           in if leverage = 0 then Inl Division_by_zero else Inr (trade_value / leverage)))"

subsection \<open>Rebasing the capital\<close>

definition rebase_compute :: "rat \<Rightarrow> compute" where
  "rebase_compute new_capital m =
     (True, Rebased,
      [(Total_capital, new_capital),
       (Available_balance, new_capital - used_margin m + total_pnl m)])"

primrec rebase_each :: "ext \<Rightarrow> rat \<Rightarrow> string list \<Rightarrow> sandbox \<Rightarrow> sandbox option" where
  "rebase_each X c [] db = Some db"
| "rebase_each X c (u # us) db =
     (case apply_funds_change X u (rebase_compute c) None db of
        ((ok, msg), db1) \<Rightarrow> if ok then rebase_each X c us db1 else None)"

text \<open>\<open>None\<close>: the \<open>RuntimeError\<close>, with everything rolled back.\<close>

definition rebase_starting_capital :: "ext \<Rightarrow> rat \<Rightarrow> sandbox \<Rightarrow> (nat \<times> sandbox) option" where
  "rebase_starting_capital X c db =
     (let user_ids = map fu_user (funds_rows db)
      in map_option (\<lambda>db1. (length user_ids, db1)) (rebase_each X c user_ids db))"

subsection \<open>Margin reconciliation\<close>

text \<open>What the books say is reserved: the open positions, and the GTTs still armed.\<close>

definition open_position_margin :: "ext \<Rightarrow> string \<Rightarrow> sandbox \<Rightarrow> rat" where
  "open_position_margin X uid db =
     sum_rows (\<lambda>p. po_user p = uid \<and> po_quantity p \<noteq> 0)
       (\<lambda>p. po_margin_blocked (read_position X p)) (positions db)"

definition active_gtt_margin :: "ext \<Rightarrow> string \<Rightarrow> sandbox \<Rightarrow> rat" where
  "active_gtt_margin X uid db =
     sum_rows (\<lambda>g. gt_user g = uid \<and> gt_status g = Active)
       (\<lambda>g. gt_margin_blocked (read_gtt X g)) (gtts db)"

datatype reconcile_msg =
    No_funds_record | No_discrepancy | Not_fixed rat | Reconciled rat | Funds_kept_changing

type_synonym reconcile_outcome = "bool \<times> rat \<times> reconcile_msg"

text \<open>
  One pass.  The funds row is read first; \<open>env1\<close> is what others commit before the positions and
  GTTs are read, \<open>env2\<close> what they commit before the write.  \<open>None\<close> is a lost compare-and-set.
\<close>

definition reconcile_once ::
    "ext \<Rightarrow> (sandbox \<Rightarrow> sandbox) \<Rightarrow> (sandbox \<Rightarrow> sandbox) \<Rightarrow> string \<Rightarrow> bool \<Rightarrow> sandbox
     \<Rightarrow> reconcile_outcome option \<times> sandbox" where
  "reconcile_once X env1 env2 uid auto_fix db =
     (case read_funds_snapshot X uid db of
        None \<Rightarrow> (Some (False, 0, No_funds_record), db)
      | Some snap \<Rightarrow>
          (let db1 = env1 db;
               total = open_position_margin X uid db1 + active_gtt_margin X uid db1;
               discrepancy = used_margin (snap_values snap) - total
           in if discrepancy = 0 then (Some (False, 0, No_discrepancy), db1)
              else if \<not> auto_fix then (Some (True, discrepancy, Not_fixed discrepancy), db1)
              else (case write_funds_if_unchanged uid snap
                           [(Used_margin, total),
                            (Available_balance, available_balance (snap_values snap) + discrepancy)]
                           (env2 db1) of
                      (written, db2) \<Rightarrow>
                        if written then (Some (True, discrepancy, Reconciled discrepancy), db2)
                        else (None, db2))))"

primrec reconcile_attempts ::
    "nat \<Rightarrow> ext \<Rightarrow> (nat \<Rightarrow> sandbox \<Rightarrow> sandbox) \<Rightarrow> (nat \<Rightarrow> sandbox \<Rightarrow> sandbox) \<Rightarrow> string \<Rightarrow> bool
     \<Rightarrow> sandbox \<Rightarrow> reconcile_outcome \<times> sandbox" where
  "reconcile_attempts 0 X env1 env2 uid auto_fix db = ((False, 0, Funds_kept_changing), db)"
| "reconcile_attempts (Suc n) X env1 env2 uid auto_fix db =
     (case reconcile_once X (env1 n) (env2 n) uid auto_fix db of
        (Some outcome, db1) \<Rightarrow> (outcome, db1)
      | (None, db1) \<Rightarrow> reconcile_attempts n X env1 env2 uid auto_fix db1)"

definition reconcile_margin ::
    "ext \<Rightarrow> string \<Rightarrow> bool \<Rightarrow> sandbox \<Rightarrow> reconcile_outcome \<times> sandbox" where
  "reconcile_margin X =
     reconcile_attempts FUNDS_WRITE_ATTEMPTS X no_interference no_interference"

primrec reconcile_each ::
    "ext \<Rightarrow> string list \<Rightarrow> nat \<times> nat \<times> rat \<Rightarrow> sandbox \<Rightarrow> (nat \<times> nat \<times> rat) \<times> sandbox" where
  "reconcile_each X [] acc db = (acc, db)"
| "reconcile_each X (u # us) acc db =
     (case acc of (checked, found, released_total) \<Rightarrow>
       (case reconcile_margin X u True db of ((has, amount, msg), db1) \<Rightarrow>
          reconcile_each X us
            (if has then (Suc checked, Suc found, released_total + amount) else (Suc checked, found, released_total))
            db1))"

definition reconcile_all_users_margin ::
    "ext \<Rightarrow> sandbox \<Rightarrow> (nat \<times> nat \<times> rat) \<times> sandbox" where
  "reconcile_all_users_margin X db = reconcile_each X (map fu_user (funds_rows db)) (0, 0, 0) db"

definition validate_margin_consistency :: "ext \<Rightarrow> string \<Rightarrow> sandbox \<Rightarrow> bool \<times> rat" where
  "validate_margin_consistency X uid db =
     (case funds_of uid db of
        None \<Rightarrow> (True, 0)
      | Some f \<Rightarrow>
          (let discrepancy = used_margin (read_money X (fu_money f)) - open_position_margin X uid db
           in if discrepancy \<noteq> 0 then (False, discrepancy) else (True, 0)))"

end
