(* ===== verification/FundLaws.thy ===== *)
theory FundLaws
  imports FundManager
begin

text \<open>
  The laws of the fund manager: what a compare-and-set write does, the loop as an atomic
  operation under interference, and the ledger invariants of the margin operations.
\<close>

subsection \<open>Rows and columns\<close>

definition funds_wf :: "sandbox \<Rightarrow> bool" where
  "funds_wf db \<longleftrightarrow> distinct (map fu_user (funds_rows db))"

definition set_money :: "string \<Rightarrow> money \<Rightarrow> sandbox \<Rightarrow> sandbox" where
  "set_money uid m db =
     db\<lparr>funds_rows := sql_update (\<lambda>f. fu_user f = uid) (\<lambda>f. f\<lparr>fu_money := m\<rparr>) (funds_rows db)\<rparr>"

lemma set_money_simps [simp]:
  "orders (set_money uid m db) = orders db" "trades (set_money uid m db) = trades db"
  "positions (set_money uid m db) = positions db" "holdings (set_money uid m db) = holdings db"
  "gtts (set_money uid m db) = gtts db" "gtt_legs (set_money uid m db) = gtt_legs db"
  "config (set_money uid m db) = config db" "symtoken (set_money uid m db) = symtoken db"
  "events (set_money uid m db) = events db"
  "last_order_day (set_money uid m db) = last_order_day db"
  "last_order_seq (set_money uid m db) = last_order_seq db"
  by (simp_all add: set_money_def)

lemma funds_wf_set_money [simp]: "funds_wf (set_money uid m db) = funds_wf db"
  by (simp add: funds_wf_def set_money_def map_key_sql_update)

lemma funds_of_set_money:
  "funds_of u (set_money uid m db) =
     (if u = uid then map_option (\<lambda>f. f\<lparr>fu_money := m\<rparr>) (funds_of u db) else funds_of u db)"
proof -
  have "find (\<lambda>f. fu_user f = u) (funds_rows (set_money uid m db)) =
     map_option (\<lambda>f. if fu_user f = uid then f\<lparr>fu_money := m\<rparr> else f) (funds_of u db)"
    by (simp add: set_money_def funds_of_def find_sql_update)
  then show ?thesis
    by (auto simp: funds_of_def option.map_comp map_option_case dest!: find_SomeD
        split: option.splits)
qed

lemma funds_of_SomeD: "funds_of uid db = Some f \<Longrightarrow> f \<in> set (funds_rows db) \<and> fu_user f = uid"
  by (auto simp: funds_of_def dest: find_SomeD)

lemma set_MONEY_COLUMNS [simp]: "set MONEY_COLUMNS = UNIV"
  using money_col.exhaust by (auto simp: MONEY_COLUMNS_def)

lemma money_eqI: "(\<And>c. col_get m c = col_get m' c) \<Longrightarrow> m = m'"
proof -
  assume eq: "\<And>c. col_get m c = col_get m' c"
  note eq [of Total_capital] eq [of Available_balance] eq [of Used_margin] eq [of Realized_pnl]
    eq [of Today_realized_pnl] eq [of Unrealized_pnl] eq [of Total_pnl]
  then show ?thesis by (cases m; cases m') simp
qed

lemma unchanged_row_iff: "unchanged_row uid m f \<longleftrightarrow> fu_user f = uid \<and> fu_money f = m"
  by (auto simp: unchanged_row_def list_all_iff intro!: money_eqI)

lemma col_get_col_set: "col_get (col_set cv m) c = (if c = fst cv then Some (snd cv) else col_get m c)"
  by (cases cv; cases "fst cv"; cases c) auto

lemma col_get_fold:
  "distinct (map fst new) \<Longrightarrow>
   col_get (fold col_set new m) c =
     (case map_of new c of Some v \<Rightarrow> Some v | None \<Rightarrow> col_get m c)"
proof (induction new arbitrary: m)
  case (Cons cv new)
  then have "fst cv \<notin> fst ` set new" by simp
  then have "map_of new (fst cv) = None" by (simp add: map_of_eq_None_iff)
  with Cons show ?case by (cases cv) (auto simp: col_get_col_set split: option.splits)
qed simp

lemma col_get_read_money: "col_get (read_money X m) c = map_option (x_read X 2) (col_get m c)"
  by (cases c) (simp_all add: read_money_def)

lemma distinct_changed: "distinct (map fst new) \<Longrightarrow> distinct (map fst (changed_values V new))"
  by (simp add: changed_values_def distinct_map_filter)

lemma map_of_changed:
  "distinct (map fst new) \<Longrightarrow>
   map_of (changed_values V new) c =
     (case map_of new c of Some v \<Rightarrow> if col_get V c \<noteq> Some v then Some v else None | None \<Rightarrow> None)"
proof (induction new)
  case (Cons cv new)
  then have "fst cv \<notin> fst ` set new" by simp
  then have "map_of new (fst cv) = None" by (simp add: map_of_eq_None_iff)
  with Cons show ?case by (cases cv) (auto simp: changed_values_def split: option.splits)
qed (simp add: changed_values_def)

text \<open>
  Writing only the columns that change and writing all of them leave the same row, as it is
  read.
\<close>

lemma read_changed_values:
  assumes "decimal_columns (x_read X)" and "distinct (map fst new)"
  shows "read_money X (fold col_set (changed_values (read_money X m) new) m) =
         read_money X (fold col_set new (read_money X m))"
proof (rule money_eqI)
  fix c
  have idem: "x_read X 2 (x_read X 2 v) = x_read X 2 v" for v
    using decimal_columns.rd_idem [OF assms(1)] .
  show "col_get (read_money X (fold col_set (changed_values (read_money X m) new) m)) c =
        col_get (read_money X (fold col_set new (read_money X m))) c"
    using assms(2) distinct_changed [OF assms(2)]
    by (auto simp: col_get_read_money col_get_fold map_of_changed idem option.map_comp o_def
        split: option.splits)
qed

subsection \<open>One compare-and-set write\<close>

lemma unchanged_row_count:
  assumes "funds_wf db"
  shows "row_count (unchanged_row uid m) (funds_rows db) = 1 \<longleftrightarrow>
         (\<exists>f. funds_of uid db = Some f \<and> fu_money f = m)"
proof -
  have "row_count (unchanged_row uid m) (funds_rows db) = 1 \<longleftrightarrow>
        (\<exists>r \<in> set (funds_rows db). unchanged_row uid m r)"
    using assms unfolding funds_wf_def
    by (rule row_count_eq_1_iff [where k = uid]) (simp add: unchanged_row_iff)
  also have "\<dots> \<longleftrightarrow> (\<exists>f. funds_of uid db = Some f \<and> fu_money f = m)"
  proof
    assume "\<exists>r \<in> set (funds_rows db). unchanged_row uid m r"
    then obtain r where r: "r \<in> set (funds_rows db)" "fu_user r = uid" "fu_money r = m"
      by (auto simp: unchanged_row_iff)
    have "funds_of uid db = Some r"
      unfolding funds_of_def
      using assms [unfolded funds_wf_def] r(1) by (rule find_unique_key) (simp add: r(2))
    with r show "\<exists>f. funds_of uid db = Some f \<and> fu_money f = m" by blast
  next
    assume "\<exists>f. funds_of uid db = Some f \<and> fu_money f = m"
    then show "\<exists>r \<in> set (funds_rows db). unchanged_row uid m r"
      by (auto simp: unchanged_row_iff dest!: funds_of_SomeD)
  qed
  finally show ?thesis .
qed

lemma write_hit:
  assumes "funds_wf db" and "funds_of uid db = Some f" and "snap_stored snap = fu_money f"
  shows "write_funds_if_unchanged uid snap new db =
    (True, set_money uid (fold col_set (changed_values (snap_values snap) new) (fu_money f)) db)"
proof (cases "changed_values (snap_values snap) new = []")
  case True
  have "g = g\<lparr>fu_money := fu_money f\<rparr>" if "g \<in> set (funds_rows db)" "fu_user g = uid" for g
  proof -
    have "funds_of uid db = Some g"
      unfolding funds_of_def
      using assms(1) [unfolded funds_wf_def] that(1) by (rule find_unique_key) (simp add: that(2))
    with assms(2) show ?thesis by simp
  qed
  then have "sql_update (\<lambda>g. fu_user g = uid) (\<lambda>g. g\<lparr>fu_money := fu_money f\<rparr>) (funds_rows db)
             = funds_rows db"
    unfolding sql_update_def by (intro map_idI) auto
  with True show ?thesis by (simp add: write_funds_if_unchanged_def set_money_def)
next
  case False
  have "sql_update (unchanged_row uid (snap_stored snap))
          (write_money (changed_values (snap_values snap) new)) (funds_rows db) =
        sql_update (\<lambda>g. fu_user g = uid)
          (\<lambda>g. g\<lparr>fu_money := fold col_set (changed_values (snap_values snap) new) (fu_money f)\<rparr>)
          (funds_rows db)"
    unfolding sql_update_def
  proof (rule map_cong [OF refl])
    fix g
    assume g: "g \<in> set (funds_rows db)"
    show "(if unchanged_row uid (snap_stored snap) g
           then write_money (changed_values (snap_values snap) new) g else g) =
          (if fu_user g = uid
           then g\<lparr>fu_money := fold col_set (changed_values (snap_values snap) new) (fu_money f)\<rparr>
           else g)"
    proof (cases "fu_user g = uid")
      case True
      have "funds_of uid db = Some g"
        unfolding funds_of_def
        using assms(1) [unfolded funds_wf_def] g by (rule find_unique_key) (simp add: True)
      with True assms show ?thesis by (simp add: unchanged_row_iff write_money_def)
    qed (simp add: unchanged_row_iff)
  qed
  with False assms unchanged_row_count [OF assms(1), of uid "snap_stored snap"]
  show ?thesis by (simp add: write_funds_if_unchanged_def set_money_def)
qed

lemma write_miss:
  assumes "funds_wf db" and "\<And>f. funds_of uid db = Some f \<Longrightarrow> fu_money f \<noteq> snap_stored snap"
    and "changed_values (snap_values snap) new \<noteq> []"
  shows "write_funds_if_unchanged uid snap new db = (False, db)"
  using assms unchanged_row_count [OF assms(1), of uid "snap_stored snap"]
  by (auto simp: write_funds_if_unchanged_def)

lemma write_nothing:
  "changed_values (snap_values snap) new = [] \<Longrightarrow>
   write_funds_if_unchanged uid snap new db = (True, db)"
  by (simp add: write_funds_if_unchanged_def)

subsection \<open>The atomic specification of a funds change\<close>

text \<open>Read, compute and write in one indivisible step; \<open>None\<close> when it does not apply.\<close>

definition funds_atomic :: "ext \<Rightarrow> string \<Rightarrow> compute \<Rightarrow> sandbox \<Rightarrow> (fund_msg \<times> sandbox) option" where
  "funds_atomic X uid compute db =
     (case funds_of uid db of
        None \<Rightarrow> None
      | Some f \<Rightarrow>
          (case compute (read_money X (fu_money f)) of (ok, msg, new) \<Rightarrow>
             if ok then
               Some (msg, set_money uid
                 (fold col_set (changed_values (read_money X (fu_money f)) new) (fu_money f)) db)
             else None))"

lemma funds_atomic_no_change:
  assumes "funds_wf db" "funds_of uid db = Some f"
    and "compute (read_money X (fu_money f)) = (True, msg, new)"
    and "changed_values (read_money X (fu_money f)) new = []"
  shows "funds_atomic X uid compute db = Some (msg, db)"
  using assms write_hit [OF assms(1,2), of "\<lparr>snap_values = read_money X (fu_money f), snap_stored = fu_money f\<rparr>" new]
  by (simp add: funds_atomic_def write_nothing)

lemma initialize_funds_wf: "funds_wf db \<Longrightarrow> funds_wf (snd (initialize_funds X uid db))"
  by (auto simp: initialize_funds_def funds_wf_def funds_of_def find_None_iff image_iff
      split: option.splits)

lemma ensure_funds_wf [simp]: "funds_wf db \<Longrightarrow> funds_wf (ensure_funds_initialized X uid db)"
  by (simp add: ensure_funds_initialized_def initialize_funds_wf split: option.splits)

text \<open>
  Whatever other writers commit in between, a change takes effect in one step or not at all: the
  steps \<open>gs\<close> of the others (and the creation of a missing row) come before it and \<open>hs\<close> after it.
\<close>

definition others :: "(nat \<Rightarrow> sandbox \<Rightarrow> sandbox) \<Rightarrow> (sandbox \<Rightarrow> sandbox) option \<Rightarrow> (sandbox \<Rightarrow> sandbox) set" where
  "others env ensure = range env \<union> set_option ensure"

definition in_one_step ::
    "ext \<Rightarrow> string \<Rightarrow> compute \<Rightarrow> (sandbox \<Rightarrow> sandbox) set \<Rightarrow> sandbox \<Rightarrow> (bool \<times> fund_msg) \<times> sandbox \<Rightarrow> bool" where
  "in_one_step X uid compute G db res \<longleftrightarrow>
     (case res of ((ok, msg), db') \<Rightarrow>
        \<exists>gs hs. set gs \<subseteq> G \<and> set hs \<subseteq> G \<and>
          (if ok then \<exists>d. funds_atomic X uid compute (fold (\<lambda>g. g) gs db) = Some (msg, d) \<and> db' = fold (\<lambda>g. g) hs d
           else db' = fold (\<lambda>g. g) gs db))"

lemma in_one_step_later:
  assumes "in_one_step X uid compute G' (fold (\<lambda>g. g) gs db) res" "G' \<subseteq> G" "set gs \<subseteq> G"
  shows "in_one_step X uid compute G db res"
proof -
  obtain ok msg db' where res: "res = ((ok, msg), db')" by (metis surj_pair)
  from assms(1) obtain ks hs where k: "set ks \<subseteq> G'" "set hs \<subseteq> G'"
    "if ok then \<exists>d. funds_atomic X uid compute (fold (\<lambda>g. g) ks (fold (\<lambda>g. g) gs db)) = Some (msg, d) \<and> db' = fold (\<lambda>g. g) hs d
     else db' = fold (\<lambda>g. g) ks (fold (\<lambda>g. g) gs db)"
    unfolding in_one_step_def res prod.case by blast
  have "set (gs @ ks) \<subseteq> G" "set hs \<subseteq> G" using k(1,2) assms(2,3) by auto
  moreover have "fold (\<lambda>g. g) (gs @ ks) db = fold (\<lambda>g. g) ks (fold (\<lambda>g. g) gs db)" by simp
  ultimately show ?thesis using k(3) unfolding in_one_step_def res prod.case by metis
qed

text \<open>The write of one attempt, and what it means if it lands.\<close>

lemma write_lands:
  assumes wf: "funds_wf db" "funds_wf (env n db)" and f: "funds_of uid db = Some f"
    and c: "compute (read_money X (fu_money f)) = (True, msg, new)"
    and w: "write_funds_if_unchanged uid \<lparr>snap_values = read_money X (fu_money f), snap_stored = fu_money f\<rparr> new (env n db)
              = (True, db2)"
  shows "in_one_step X uid compute (others env ensure) db ((True, msg), db2)"
proof (cases "changed_values (read_money X (fu_money f)) new = []")
  case True
  have "db2 = env n db" using w True by (simp add: write_nothing)
  moreover have "funds_atomic X uid compute db = Some (msg, db)"
    using funds_atomic_no_change [of db uid f compute X msg new] wf(1) f c True by blast
  ultimately show ?thesis
    unfolding in_one_step_def prod.case others_def by (intro exI [of _ "[]"] exI [of _ "[env n]"]) simp
next
  case False
  let ?snap = "\<lparr>snap_values = read_money X (fu_money f), snap_stored = fu_money f\<rparr>"
  have "\<exists>g. funds_of uid (env n db) = Some g \<and> fu_money g = fu_money f"
  proof (rule ccontr)
    assume "\<not> ?thesis"
    then have "write_funds_if_unchanged uid ?snap new (env n db) = (False, env n db)"
      using wf(2) False by (intro write_miss) auto
    with w show False by simp
  qed
  then obtain g where g: "funds_of uid (env n db) = Some g" "fu_money g = fu_money f" by blast
  have "funds_atomic X uid compute (env n db) = Some (msg, db2)"
    using write_hit [OF wf(2) g(1), of ?snap new] g c w by (simp add: funds_atomic_def)
  then show ?thesis
    unfolding in_one_step_def prod.case others_def by (intro exI [of _ "[env n]"] exI [of _ "[]"]) simp
qed

lemma apply_attempts_linearizable:
  assumes "funds_wf db" and "\<And>g d. g \<in> others env ensure \<Longrightarrow> funds_wf d \<Longrightarrow> funds_wf (g d)"
  shows "in_one_step X uid compute (others env ensure) db (apply_attempts n X env uid compute ensure db)"
  using assms
proof (induction n arbitrary: db ensure)
  case 0
  then show ?case
    unfolding in_one_step_def apply_attempts.simps prod.case
    by (intro exI [of _ "[]"]) simp
next
  case (Suc n)
  define missing where "missing = (read_funds_snapshot X uid db = None)"
  define gs0 where "gs0 = (case ensure of Some e \<Rightarrow> if missing then [e] else [] | None \<Rightarrow> [])"
  define ensure1 where "ensure1 = (if missing then None else ensure)"
  let ?G = "others env ensure"
  define db1 where "db1 = fold (\<lambda>g. g) gs0 db"
  have sub: "set gs0 \<subseteq> ?G" "others env ensure1 \<subseteq> ?G" "env n \<in> ?G"
    by (auto simp: gs0_def ensure1_def others_def split: option.splits if_splits)
  have wf1: "funds_wf db1" using Suc.prems sub(1)
    by (auto simp: db1_def gs0_def split: option.splits if_splits)
  then have wf2: "funds_wf (env n db1)" using Suc.prems(2) [OF sub(3)] by blast
  have db1': "db1 = (case ensure of Some e \<Rightarrow> if missing then e db else db | None \<Rightarrow> db)"
    by (simp add: db1_def gs0_def split: option.splits)
  have step: "apply_attempts (Suc n) X env uid compute ensure db =
    (case read_funds_snapshot X uid db1 of
       None \<Rightarrow> ((False, Funds_not_initialized), db1)
     | Some snap \<Rightarrow>
         (case compute (snap_values snap) of (ok, msg, new) \<Rightarrow>
            if \<not> ok then ((False, msg), db1)
            else (case write_funds_if_unchanged uid snap new (env n db1) of (written, db2) \<Rightarrow>
                    if written then ((True, msg), db2)
                    else apply_attempts n X env uid compute ensure1 db2)))"
    by (simp only: apply_attempts.simps Let_def db1' ensure1_def missing_def)
  have refused: "in_one_step X uid compute ?G db1 ((False, m), db1)" for m
    unfolding in_one_step_def prod.case by (intro exI [of _ "[]"]) simp
  have later: "in_one_step X uid compute ?G db res" if "in_one_step X uid compute ?G db1 res" for res
    using in_one_step_later [OF that [unfolded db1_def] _ sub(1)] by simp
  show ?case
  proof (cases "funds_of uid db1")
    case None
    then show ?thesis unfolding step by (simp add: read_funds_snapshot_def later refused)
  next
    case (Some f)
    let ?snap = "\<lparr>snap_values = read_money X (fu_money f), snap_stored = fu_money f\<rparr>"
    have snap: "read_funds_snapshot X uid db1 = Some ?snap" by (simp add: read_funds_snapshot_def Some)
    obtain ok msg new where c: "compute (read_money X (fu_money f)) = (ok, msg, new)" by (rule prod_cases3)
    obtain w db2 where w: "write_funds_if_unchanged uid ?snap new (env n db1) = (w, db2)" by fastforce
    consider "\<not> ok" | "ok" "w" | "ok" "\<not> w" by blast
    then show ?thesis
    proof cases
      case 1
      then show ?thesis unfolding step by (simp add: snap c later refused)
    next
      case 2
      then have "in_one_step X uid compute ?G db1 ((True, msg), db2)"
        using write_lands [where env = env and n = n, OF wf1 wf2 Some, of compute X msg new] c w by simp
      with 2 show ?thesis unfolding step by (simp add: snap c w later)
    next
      case 3
      have db2: "db2 = env n db1"
        using w 3 by (auto simp: write_funds_if_unchanged_def Let_def split: if_splits)
      have "in_one_step X uid compute (others env ensure1) db2 (apply_attempts n X env uid compute ensure1 db2)"
        using Suc.IH [of db2 ensure1] wf2 Suc.prems(2) sub(2) by (auto simp: db2)
      then have "in_one_step X uid compute ?G db1 (apply_attempts n X env uid compute ensure1 db2)"
        using in_one_step_later [where gs = "[env n]" and db = db1, OF _ sub(2)] sub(3) by (simp add: db2)
      with 3 show ?thesis unfolding step by (simp add: snap c w later)
    qed
  qed
qed

subsection \<open>Sequential behaviour\<close>

lemma apply_funds_change_row:
  assumes "funds_wf db" and "funds_of uid db = Some f"
  shows "apply_funds_change X uid compute ensure db =
    (case compute (read_money X (fu_money f)) of (ok, msg, new) \<Rightarrow>
       if ok then ((True, msg), set_money uid
         (fold col_set (changed_values (read_money X (fu_money f)) new) (fu_money f)) db)
       else ((False, msg), db))"
proof -
  let ?snap = "\<lparr>snap_values = read_money X (fu_money f), snap_stored = fu_money f\<rparr>"
  have five: "FUNDS_WRITE_ATTEMPTS = Suc 4" by (simp add: FUNDS_WRITE_ATTEMPTS_def)
  have snap: "read_funds_snapshot X uid db = Some ?snap"
    by (simp add: read_funds_snapshot_def assms(2))
  then have same: "(case ensure of None \<Rightarrow> db
      | Some e \<Rightarrow> if read_funds_snapshot X uid db = None then e db else db) = db"
    by (simp split: option.splits)
  obtain ok m0 new where c: "compute (read_money X (fu_money f)) = (ok, m0, new)"
    by (rule prod_cases3)
  show ?thesis
    unfolding apply_funds_change_def five apply_attempts.simps Let_def same
    using write_hit [OF assms, of ?snap new] by (simp add: snap c no_interference_def)
qed

end
