(* ===== verification/Samples.thy ===== *)
theory Samples
  imports FundManager
begin

text \<open>
  Concrete worlds and states on which the properties' witnesses evaluate: columns rounded half
  up, a fixed clock, one user with a funds row, and a small master contract.
\<close>

definition sample_ext :: ext where
  "sample_ext =
     \<lparr> x_read = round_column, x_now = 36000000, x_quote = (\<lambda>n s e. None),
       x_ws_running = False, x_uuid = 7, x_db_error = False \<rparr>"

definition sample_money :: money where
  "sample_money =
     \<lparr> total_capital = 1000, available_balance = 900, used_margin = 100, realized_pnl = 0,
       today_realized_pnl = Some 0, unrealized_pnl = 0, total_pnl = 0 \<rparr>"

definition sample_funds :: sandbox_funds where
  "sample_funds =
     \<lparr> fu_user = ''u'', fu_money = sample_money, fu_last_reset_date = 0, fu_reset_count = 0 \<rparr>"

definition sample_db :: sandbox where
  "sample_db =
     \<lparr> orders = [], trades = [], positions = [], holdings = [], funds_rows = [sample_funds],
       gtts = [], gtt_legs = [], config = (\<lambda>k. None),
       symtoken = (\<lambda>s e. Some \<lparr>si_lotsize = Some 1, si_contract_value = None\<rparr>),
       last_order_day = None, last_order_seq = -1, events = [] \<rparr>"

definition sample_order :: sandbox_order where
  "sample_order =
     \<lparr> od_id = 1, od_orderid = (0, 1), od_user = ''u'', od_strategy = [], od_symbol = ''S'',
       od_exchange = ''NSE'', od_action = SELL, od_quantity = 4, od_price = Some 120,
       od_trigger_price = None, od_price_type = LIMIT, od_product = MIS, od_status = Open,
       od_average_price = None, od_filled_quantity = 0, od_pending_quantity = 4,
       od_rejection = None, od_margin_blocked = None, od_gtt_leg_id = None, od_timestamp = 0 \<rparr>"

definition sample_position :: sandbox_position where
  "sample_position =
     \<lparr> po_id = 3, po_user = ''u'', po_symbol = ''S'', po_exchange = ''NSE'', po_product = MIS,
       po_quantity = 10, po_average_price = 100, po_ltp = Some 100, po_pnl = 0,
       po_pnl_percent = 0, po_accumulated_realized_pnl = 0, po_today_realized_pnl = 0,
       po_margin_blocked = 100, po_created_at = 0, po_updated_at = 0 \<rparr>"

definition sample_quote :: quote where
  "sample_quote = \<lparr> q_ltp = 125, q_bid = 124, q_ask = 126, q_high = 130, q_low = 110 \<rparr>"

text \<open>One user long ten units on a reserved margin of 100, with a limit sell of four resting.\<close>

definition sample_market :: sandbox where
  "sample_market = sample_db\<lparr>orders := [sample_order], positions := [sample_position]\<rparr>"

lemma sample_columns: "decimal_columns (x_read sample_ext)"
  by (simp add: sample_ext_def rounded.decimal_columns_axioms)

end
