(* ===== verification/Ledger.thy ===== *)
theory Ledger
  imports FundLaws Samples
begin

text \<open>
  The fund manager as a ledger.  The interface its clients use (\<open>margin_service\<close>) is a locale;
  the staged margin change of the code interprets it.  Then whole sequences of fund operations:
  what they keep of the balance, and that the reserved margin never goes negative.
\<close>

subsection \<open>The interface: reserving and returning margin\<close>

locale margin_service =
  fixes stage :: "rat \<Rightarrow> 's \<Rightarrow> bool \<times> 's"
    and available :: "'s \<Rightarrow> rat"
    and used :: "'s \<Rightarrow> rat"
    and ready :: "'s \<Rightarrow> bool"
  assumes stage_accepts: "ready s \<Longrightarrow>
      fst (stage d s) \<longleftrightarrow> (if d > 0 then d \<le> available s else - d \<le> used s \<or> d = 0)"
    and stage_available: "ready s \<Longrightarrow> fst (stage d s) \<Longrightarrow> available (snd (stage d s)) = available s - d"
    and stage_used: "ready s \<Longrightarrow> fst (stage d s) \<Longrightarrow> used (snd (stage d s)) = used s + d"
    and stage_refused: "ready s \<Longrightarrow> \<not> fst (stage d s) \<Longrightarrow> snd (stage d s) = s"
    and stage_ready: "ready s \<Longrightarrow> ready (snd (stage d s))"
begin

lemma stage_total: "ready s \<Longrightarrow> available (snd (stage d s)) + used (snd (stage d s)) = available s + used s"
  using stage_available [of s d] stage_used [of s d] stage_refused [of s d]
  by (cases "fst (stage d s)") auto

lemma stage_solvent:
  assumes "ready s" "0 \<le> available s" "0 \<le> used s"
  shows "0 \<le> available (snd (stage d s)) \<and> 0 \<le> used (snd (stage d s))"
proof (cases "fst (stage d s)")
  case True
  with assms stage_accepts [of s d] stage_available [of s d] stage_used [of s d]
  show ?thesis by (auto split: if_splits)
qed (use assms stage_refused [of s d] in auto)

text \<open>What was reserved can be returned, and that restores both balances.\<close>

lemma stage_return:
  assumes "ready s" "0 \<le> used s" "0 < d" "fst (stage d s)"
  shows "fst (stage (- d) (snd (stage d s)))"
    and "available (snd (stage (- d) (snd (stage d s)))) = available s"
    and "used (snd (stage (- d) (snd (stage d s)))) = used s"
proof -
  let ?t = "snd (stage d s)"
  have t: "ready ?t" "available ?t = available s - d" "used ?t = used s + d"
    using assms stage_ready stage_available stage_used by auto
  with assms show ok: "fst (stage (- d) ?t)"
    using stage_accepts [of ?t "- d"] by auto
  show "available (snd (stage (- d) ?t)) = available s" "used (snd (stage (- d) ?t)) = used s"
    using stage_available [OF t(1) ok] stage_used [OF t(1) ok] t(2,3) by simp_all
qed

lemma stage_all_total:
  "ready s \<Longrightarrow>
   ready (fold (\<lambda>d s. snd (stage d s)) ds s) \<and>
   available (fold (\<lambda>d s. snd (stage d s)) ds s) + used (fold (\<lambda>d s. snd (stage d s)) ds s) =
   available s + used s"
proof (induction ds arbitrary: s)
  case (Cons d ds)
  then show ?case
    using Cons.IH [OF stage_ready [OF Cons.prems, of d]] stage_total [OF Cons.prems, of d] by simp
qed simp

lemma stage_all_solvent:
  "ready s \<Longrightarrow> 0 \<le> available s \<Longrightarrow> 0 \<le> used s \<Longrightarrow>
   0 \<le> available (fold (\<lambda>d s. snd (stage d s)) ds s) \<and> 0 \<le> used (fold (\<lambda>d s. snd (stage d s)) ds s)"
proof (induction ds arbitrary: s)
  case (Cons d ds)
  then show ?case using stage_solvent [of s d] stage_ready [of s d] by simp
qed simp

end

subsection \<open>The staged change of the code\<close>

definition funds_ready :: "string \<Rightarrow> sandbox \<Rightarrow> bool" where
  "funds_ready uid db \<longleftrightarrow> funds_wf db \<and> funds_of uid db \<noteq> None"

definition stored_money :: "string \<Rightarrow> sandbox \<Rightarrow> money" where
  "stored_money uid db = fu_money (the (funds_of uid db))"

lemma ensure_ready [simp]: "funds_ready uid db \<Longrightarrow> ensure_funds_initialized X uid db = db"
  by (auto simp: funds_ready_def ensure_funds_initialized_def)

lemma funds_ready_set_money [simp]: "funds_ready u (set_money uid m db) = funds_ready u db"
  by (simp add: funds_ready_def funds_of_set_money)

lemma stored_money_set_money:
  "funds_ready uid db \<Longrightarrow> stored_money uid (set_money uid m db) = m"
  by (auto simp: funds_ready_def stored_money_def funds_of_set_money)

lemma stored_money_set_money_other [simp]:
  "u \<noteq> uid \<Longrightarrow> stored_money u (set_money uid m db) = stored_money u db"
  by (simp add: stored_money_def funds_of_set_money)

lemma sql_update_one_funds:
  assumes "funds_wf db" "funds_of uid db = Some f" "P f" "\<And>g. P g \<Longrightarrow> fu_user g = uid"
    and "\<And>g. P g \<Longrightarrow> upd g = g\<lparr>fu_money := F (fu_money g)\<rparr>"
  shows "db\<lparr>funds_rows := sql_update P upd (funds_rows db)\<rparr> = set_money uid (F (fu_money f)) db"
proof -
  have "(if P g then upd g else g) =
        (if fu_user g = uid then g\<lparr>fu_money := F (fu_money f)\<rparr> else g)"
    if "g \<in> set (funds_rows db)" for g
  proof (cases "fu_user g = uid")
    case True
    have "funds_of uid db = Some g"
      unfolding funds_of_def
      using assms(1) [unfolded funds_wf_def] that by (rule find_unique_key) (simp add: True)
    with assms True show ?thesis by simp
  qed (use assms in auto)
  then show ?thesis
    by (simp add: set_money_def sql_update_def cong: map_cong)
qed

lemma stage_margin_delta_row:
  assumes "funds_ready uid db"
  shows "stage_margin_delta X uid d db =
    (let m = stored_money uid db in
     if d = 0 then ((True, No_change), db)
     else if (if d > 0 then d \<le> available_balance m else - d \<le> used_margin m)
     then ((True, Margin_staged d),
           set_money uid (m\<lparr>available_balance := available_balance m - d,
                            used_margin := used_margin m + d\<rparr>) db)
     else ((False, if d > 0 then Insufficient_required d else Cannot_release_reserved (- d)), db))"
proof -
  from assms obtain f where wf: "funds_wf db" and f: "funds_of uid db = Some f"
    by (auto simp: funds_ready_def)
  have m: "stored_money uid db = fu_money f" by (simp add: stored_money_def f)
  have count: "row_count (can_stage uid d) (funds_rows db) = 1 \<longleftrightarrow>
               (if d > 0 then d \<le> available_balance (fu_money f) else - d \<le> used_margin (fu_money f))"
    (is "_ \<longleftrightarrow> ?ok")
  proof -
    have "row_count (can_stage uid d) (funds_rows db) = 1 \<longleftrightarrow>
          (\<exists>r \<in> set (funds_rows db). can_stage uid d r)"
      using wf unfolding funds_wf_def
      by (rule row_count_eq_1_iff [where k = uid]) (simp add: can_stage_def)
    also have "\<dots> \<longleftrightarrow> can_stage uid d f"
    proof
      assume "\<exists>r \<in> set (funds_rows db). can_stage uid d r"
      then obtain r where r: "r \<in> set (funds_rows db)" "can_stage uid d r" by blast
      have "funds_of uid db = Some r"
        unfolding funds_of_def using wf [unfolded funds_wf_def] r(1)
        by (rule find_unique_key) (use r(2) in \<open>simp add: can_stage_def\<close>)
      with f r show "can_stage uid d f" by simp
    qed (use f in \<open>auto dest!: funds_of_SomeD\<close>)
    also have "\<dots> \<longleftrightarrow> ?ok"
      using f by (auto simp: can_stage_def dest!: funds_of_SomeD)
    finally show ?thesis .
  qed
  have upd: "db\<lparr>funds_rows := sql_update (can_stage uid d) (add_delta d) (funds_rows db)\<rparr> =
             set_money uid ((fu_money f)\<lparr>available_balance := available_balance (fu_money f) - d,
                                         used_margin := used_margin (fu_money f) + d\<rparr>) db"
    if ?ok
    using that f
    by (intro sql_update_one_funds [OF wf f, where F = "\<lambda>m. m\<lparr>available_balance := available_balance m - d,
                                         used_margin := used_margin m + d\<rparr>"])
      (auto simp: can_stage_def add_delta_def dest!: funds_of_SomeD)
  show ?thesis
    using assms count upd f by (simp add: stage_margin_delta_def m Let_def)
qed

interpretation stage: margin_service
  "\<lambda>d s. (fst (fst (stage_margin_delta X uid d s)), snd (stage_margin_delta X uid d s))"
  "\<lambda>s. available_balance (stored_money uid s)" "\<lambda>s. used_margin (stored_money uid s)"
  "funds_ready uid"
  for X uid
  by unfold_locales
    (auto simp: stage_margin_delta_row stored_money_set_money Let_def split: if_splits)

subsection \<open>Every operation on one user's funds\<close>

datatype funds_op =
    Op_block rat | Op_release rat rat bool | Op_stage rat | Op_transfer rat | Op_credit rat
  | Op_prior_session rat rat | Op_unrealized rat

primrec run_funds_op ::
    "ext \<Rightarrow> string \<Rightarrow> funds_op \<Rightarrow> sandbox \<Rightarrow> (bool \<times> fund_msg) \<times> sandbox" where
  "run_funds_op X uid (Op_block a) = block_margin X uid a"
| "run_funds_op X uid (Op_release a p t) = stage_release_margin X uid a p t"
| "run_funds_op X uid (Op_stage d) = stage_margin_delta X uid d"
| "run_funds_op X uid (Op_transfer a) = stage_transfer_margin_to_holdings X uid a"
| "run_funds_op X uid (Op_credit a) = stage_credit_sale_proceeds X uid a"
| "run_funds_op X uid (Op_prior_session a p) = stage_prior_session_release X uid a p"
| "run_funds_op X uid (Op_unrealized u) = update_unrealized_pnl X uid u"

definition run_funds_ops :: "ext \<Rightarrow> string \<Rightarrow> funds_op list \<Rightarrow> sandbox \<Rightarrow> sandbox" where
  "run_funds_ops X uid = fold (\<lambda>op db. snd (run_funds_op X uid op db))"

text \<open>The compute step of each operation that goes through the compare-and-set.\<close>

primrec op_compute :: "funds_op \<Rightarrow> compute" where
  "op_compute (Op_block a) = block_compute a"
| "op_compute (Op_release a p t) = release_compute a p t"
| "op_compute (Op_transfer a) = transfer_compute a"
| "op_compute (Op_credit a) = credit_compute a"
| "op_compute (Op_prior_session a p) = prior_session_compute a p"
| "op_compute (Op_unrealized u) = unrealized_compute u"
| "op_compute (Op_stage d) = (\<lambda>m. (False, No_change, []))"

lemmas compute_defs = block_compute_def release_compute_def transfer_compute_def credit_compute_def
  prior_session_compute_def unrealized_compute_def released_def

lemma run_funds_op_row:
  assumes "funds_ready uid db" and "\<And>d. op \<noteq> Op_stage d"
  shows "run_funds_op X uid op db =
    (let m = stored_money uid db; V = read_money X m in
     case op_compute op V of (ok, msg, new) \<Rightarrow>
       if ok then ((True, msg), set_money uid (fold col_set (changed_values V new) m) db)
       else ((False, msg), db))"
proof -
  from assms(1) obtain f where f: "funds_wf db" "funds_of uid db = Some f"
    by (auto simp: funds_ready_def)
  then show ?thesis
    using assms(2)
    by (cases op)
      (auto simp: block_margin_def stage_release_margin_def stage_transfer_margin_to_holdings_def
        stage_credit_sale_proceeds_def stage_prior_session_release_def update_unrealized_pnl_def
        apply_user_def apply_funds_change_row stored_money_def Let_def)
qed

lemma run_funds_op_ready: "funds_ready uid db \<Longrightarrow> funds_ready uid (snd (run_funds_op X uid op db))"
proof (cases "\<exists>d. op = Op_stage d")
  case True
  then show "funds_ready uid db \<Longrightarrow> ?thesis"
    by (auto simp: stage_margin_delta_row Let_def)
next
  case False
  then show "funds_ready uid db \<Longrightarrow> ?thesis"
    by (simp add: run_funds_op_row Let_def split: prod.splits)
qed

lemma run_funds_ops_ready: "funds_ready uid db \<Longrightarrow> funds_ready uid (run_funds_ops X uid ops db)"
  by (induction ops arbitrary: db) (simp_all add: run_funds_ops_def run_funds_op_ready)

lemma run_funds_ops_Cons:
  "run_funds_ops X uid (op # ops) db = run_funds_ops X uid ops (snd (run_funds_op X uid op db))"
  by (simp add: run_funds_ops_def)

lemma run_funds_ops_Nil [simp]: "run_funds_ops X uid [] db = db"
  by (simp add: run_funds_ops_def)

text \<open>What one operation makes of the stored row, written columns only.\<close>

definition money_after :: "ext \<Rightarrow> funds_op \<Rightarrow> money \<Rightarrow> money" where
  "money_after X op m =
     (case op of
        Op_stage d \<Rightarrow>
          (if d \<noteq> 0 \<and> (if d > 0 then d \<le> available_balance m else - d \<le> used_margin m)
           then m\<lparr>available_balance := available_balance m - d, used_margin := used_margin m + d\<rparr>
           else m)
      | _ \<Rightarrow>
          (case op_compute op (read_money X m) of (ok, msg, new) \<Rightarrow>
             if ok then fold col_set (changed_values (read_money X m) new) m else m))"

lemma set_money_same: "funds_ready uid db \<Longrightarrow> set_money uid (stored_money uid db) db = db"
  using write_hit [of db uid "the (funds_of uid db)"
      "\<lparr>snap_values = m, snap_stored = stored_money uid db\<rparr>" "[]" for m]
  by (auto simp: funds_ready_def stored_money_def changed_values_def write_nothing)

lemma run_funds_op_set:
  assumes "funds_ready uid db"
  shows "snd (run_funds_op X uid op db) = set_money uid (money_after X op (stored_money uid db)) db"
proof (cases "\<exists>d. op = Op_stage d")
  case True
  with assms show ?thesis
    by (auto simp: stage_margin_delta_row money_after_def set_money_same Let_def)
next
  case False
  then have "run_funds_op X uid op db =
    (let m = stored_money uid db; V = read_money X m in
     case op_compute op V of (ok, msg, new) \<Rightarrow>
       if ok then ((True, msg), set_money uid (fold col_set (changed_values V new) m) db)
       else ((False, msg), db))"
    using run_funds_op_row [OF assms] by blast
  with False assms show ?thesis
    by (cases op) (auto simp: money_after_def set_money_same Let_def split: prod.splits)
qed

lemma stored_money_run:
  "funds_ready uid db \<Longrightarrow>
   stored_money uid (snd (run_funds_op X uid op db)) = money_after X op (stored_money uid db)"
  by (simp add: run_funds_op_set stored_money_set_money)

subsection \<open>The reserved margin never goes negative\<close>

lemma used_after_nonneg:
  assumes "decimal_columns (x_read X)" "0 \<le> used_margin m"
  shows "0 \<le> used_margin (money_after X op m)"
proof -
  have "0 \<le> x_read X 2 (used_margin m)"
    using decimal_columns.rd_nonneg [OF assms] .
  with assms(2) show ?thesis
    by (cases op)
      (auto simp: money_after_def compute_defs read_money_def changed_values_def Let_def)
qed

lemma used_after_run_nonneg:
  assumes "decimal_columns (x_read X)" and "funds_ready uid db"
    and "0 \<le> used_margin (stored_money uid db)"
  shows "0 \<le> used_margin (stored_money uid (run_funds_ops X uid ops db))"
  using assms(2,3)
proof (induction ops arbitrary: db)
  case (Cons op ops)
  then show ?case
    by (simp add: run_funds_ops_Cons run_funds_op_ready stored_money_run
        used_after_nonneg [OF assms(1)])
qed simp

text \<open>Without losses nothing spends more than the available balance either.\<close>

primrec lossless :: "funds_op \<Rightarrow> bool" where
  "lossless (Op_block a) = True"
| "lossless (Op_release a p t) = (0 \<le> p)"
| "lossless (Op_stage d) = True"
| "lossless (Op_transfer a) = True"
| "lossless (Op_credit a) = True"
| "lossless (Op_prior_session a p) = (0 \<le> a + p)"
| "lossless (Op_unrealized u) = True"

lemma available_after_nonneg:
  assumes "decimal_columns (x_read X)" "0 \<le> available_balance m" "lossless op"
  shows "0 \<le> available_balance (money_after X op m)"
proof -
  have "0 \<le> x_read X 2 (available_balance m)"
    using decimal_columns.rd_nonneg [OF assms(1,2)] .
  with assms(2,3) show ?thesis
    by (cases op)
      (auto simp: money_after_def compute_defs read_money_def changed_values_def Let_def)
qed

lemma available_after_run_nonneg:
  assumes "decimal_columns (x_read X)" and "funds_ready uid db"
    and "0 \<le> available_balance (stored_money uid db)" and "list_all lossless ops"
  shows "0 \<le> available_balance (stored_money uid (run_funds_ops X uid ops db))"
  using assms(2-4)
proof (induction ops arbitrary: db)
  case (Cons op ops)
  then show ?case
    by (simp add: run_funds_ops_Cons run_funds_op_ready stored_money_run
        available_after_nonneg [OF assms(1)])
qed simp

subsection \<open>Conservation\<close>

text \<open>Cash in the account beyond the capital and the profit booked so far.\<close>

definition balance :: "money \<Rightarrow> rat" where
  "balance m = available_balance m + used_margin m - total_capital m - realized_pnl m"

text \<open>
  What an operation brings in or takes out: sale proceeds come in, a transfer to holdings goes
  out, and a prior-session release of more than is reserved brings in the excess, because that
  path floors the reservation at zero instead of refusing.
\<close>

primrec cash_flow :: "funds_op \<Rightarrow> money \<Rightarrow> rat" where
  "cash_flow (Op_block a) m = 0"
| "cash_flow (Op_release a p t) m = 0"
| "cash_flow (Op_stage d) m = 0"
| "cash_flow (Op_transfer a) m = (if 0 < a \<and> a \<le> used_margin m then - a else 0)"
| "cash_flow (Op_credit a) m = (if 0 < a then a else 0)"
| "cash_flow (Op_prior_session a p) m = max 0 (a - used_margin m)"
| "cash_flow (Op_unrealized u) m = 0"

primrec total_cash_flow :: "ext \<Rightarrow> string \<Rightarrow> funds_op list \<Rightarrow> sandbox \<Rightarrow> rat" where
  "total_cash_flow X uid [] db = 0"
| "total_cash_flow X uid (op # ops) db =
     cash_flow op (stored_money uid db) + total_cash_flow X uid ops (snd (run_funds_op X uid op db))"

definition grid_money :: "money \<Rightarrow> bool" where
  "grid_money m \<longleftrightarrow>
     on_grid 2 (total_capital m) \<and> on_grid 2 (available_balance m) \<and> on_grid 2 (used_margin m) \<and>
     on_grid 2 (realized_pnl m) \<and> pred_option (on_grid 2) (today_realized_pnl m) \<and>
     on_grid 2 (unrealized_pnl m) \<and> on_grid 2 (total_pnl m)"

primrec grid_op :: "funds_op \<Rightarrow> bool" where
  "grid_op (Op_block a) = on_grid 2 a"
| "grid_op (Op_release a p t) = (on_grid 2 a \<and> on_grid 2 p)"
| "grid_op (Op_stage d) = on_grid 2 d"
| "grid_op (Op_transfer a) = on_grid 2 a"
| "grid_op (Op_credit a) = on_grid 2 a"
| "grid_op (Op_prior_session a p) = (on_grid 2 a \<and> on_grid 2 p)"
| "grid_op (Op_unrealized u) = on_grid 2 u"

lemma read_grid_money:
  assumes "decimal_columns (x_read X)" "grid_money m"
  shows "read_money X m = m"
proof -
  note rd = decimal_columns.rd_id [OF assms(1)]
  have "map_option (x_read X 2) (today_realized_pnl m) = today_realized_pnl m"
    using assms(2) rd by (cases "today_realized_pnl m") (auto simp: grid_money_def)
  with assms(2) rd show ?thesis by (simp add: read_money_def grid_money_def)
qed

lemma write_changed_same: "distinct (map fst new) \<Longrightarrow> fold col_set (changed_values m new) m = fold col_set new m"
  by (rule money_eqI)
    (auto simp: col_get_fold distinct_changed map_of_changed split: option.splits)

lemma distinct_new:
  "op_compute op m = (ok, msg, new) \<Longrightarrow> distinct (map fst new)"
  by (cases op) (auto simp: compute_defs Let_def split: if_splits)

lemma money_after_grid:
  assumes "decimal_columns (x_read X)" "grid_money m"
  shows "money_after X op m =
    (case op of
       Op_stage d \<Rightarrow>
         (if d \<noteq> 0 \<and> (if d > 0 then d \<le> available_balance m else - d \<le> used_margin m)
          then m\<lparr>available_balance := available_balance m - d, used_margin := used_margin m + d\<rparr>
          else m)
     | _ \<Rightarrow> (case op_compute op m of (ok, msg, new) \<Rightarrow> if ok then fold col_set new m else m))"
  by (cases op)
    (auto simp: money_after_def read_grid_money [OF assms] write_changed_same distinct_new
      simp del: op_compute.simps split: prod.splits)

lemma balance_after:
  assumes "decimal_columns (x_read X)" "grid_money m"
  shows "balance (money_after X op m) = balance m + cash_flow op m"
  by (cases op) (auto simp: money_after_grid [OF assms] compute_defs balance_def Let_def)

lemma grid_after:
  assumes "decimal_columns (x_read X)" "grid_money m" "grid_op op"
  shows "grid_money (money_after X op m)"
  using assms(2,3)
  by (cases op)
    (auto simp: money_after_grid [OF assms(1,2)] compute_defs grid_money_def Let_def
      intro!: on_grid_add on_grid_diff split: option.splits)



text \<open>Whatever amounts are passed (negative, too large, off the grid) and however often an
  operation is refused, the reserved margin of a row never goes negative; and as long as no
  operation books a loss, neither does the available balance.\<close>

theorem margin_never_negative:
  assumes "decimal_columns (x_read X)" and "funds_ready uid db"
    and "0 \<le> used_margin (stored_money uid db)" and "0 \<le> available_balance (stored_money uid db)"
  shows "0 \<le> used_margin (stored_money uid (run_funds_ops X uid ops db)) \<and>
         (list_all lossless ops \<longrightarrow>
          0 \<le> available_balance (stored_money uid (run_funds_ops X uid ops db)))"
  using assms used_after_run_nonneg available_after_run_nonneg by blast

theorem margin_never_negative_witness:
  "0 \<le> used_margin (stored_money ''u''
     (run_funds_ops sample_ext ''u'' [Op_release 500 0 True, Op_block (-3), Op_stage (-101)] sample_db))"
  using margin_never_negative [OF sample_columns, of "''u''" sample_db
      "[Op_release 500 0 True, Op_block (-3), Op_stage (-101)]"]
  by (simp add: funds_ready_def funds_wf_def funds_of_def sample_db_def sample_funds_def
      stored_money_def sample_money_def)

subsection \<open>Reconciliation\<close>

definition booked_margin :: "ext \<Rightarrow> string \<Rightarrow> sandbox \<Rightarrow> rat" where
  "booked_margin X uid db = open_position_margin X uid db + active_gtt_margin X uid db"

lemma booked_margin_grid: "decimal_columns (x_read X) \<Longrightarrow> on_grid 2 (booked_margin X uid db)"
  unfolding booked_margin_def open_position_margin_def active_gtt_margin_def
  by (intro on_grid_add on_grid_sum_rows) (simp_all add: decimal_columns.rd_grid)

lemma booked_margin_set_money [simp]: "booked_margin X uid (set_money u m db) = booked_margin X uid db"
  by (simp add: booked_margin_def open_position_margin_def active_gtt_margin_def)

definition read_funds :: "ext \<Rightarrow> string \<Rightarrow> sandbox \<Rightarrow> money" where
  "read_funds X uid db = read_money X (stored_money uid db)"

lemma read_funds_set_money:
  assumes "decimal_columns (x_read X)" "funds_ready uid db" "distinct (map fst new)"
  shows "read_funds X uid
           (set_money uid (fold col_set (changed_values (read_funds X uid db) new) (stored_money uid db)) db)
       = read_money X (fold col_set new (read_funds X uid db))"
  using read_changed_values [OF assms(1,3)] assms(2)
  by (simp add: read_funds_def stored_money_set_money)

lemma reconcile_once_row:
  assumes "funds_ready uid db"
  shows "reconcile_once X env1 env2 uid auto_fix db =
    (let V = read_funds X uid db; total = booked_margin X uid (env1 db); disc = used_margin V - total in
     if disc = 0 then (Some (False, 0, No_discrepancy), env1 db)
     else if \<not> auto_fix then (Some (True, disc, Not_fixed disc), env1 db)
     else (case write_funds_if_unchanged uid \<lparr>snap_values = V, snap_stored = stored_money uid db\<rparr>
                  [(Used_margin, total), (Available_balance, available_balance V + disc)]
                  (env2 (env1 db)) of
             (written, db2) \<Rightarrow> if written then (Some (True, disc, Reconciled disc), db2) else (None, db2)))"
proof -
  have "read_funds_snapshot X uid db =
        Some \<lparr>snap_values = read_funds X uid db, snap_stored = stored_money uid db\<rparr>"
    using assms
    by (auto simp: read_funds_snapshot_def funds_ready_def read_funds_def stored_money_def)
  then show ?thesis
    by (simp only: reconcile_once_def option.case Let_def booked_margin_def funds_snapshot.select_convs)
qed

lemma write_success_stored:
  assumes "funds_wf db" "changed_values (snap_values snap) new \<noteq> []"
    and "write_funds_if_unchanged uid snap new db = (True, db')"
  shows "funds_ready uid db \<and> stored_money uid db = snap_stored snap"
proof (rule ccontr)
  assume neg: "\<not> ?thesis"
  have "write_funds_if_unchanged uid snap new db = (False, db)"
    using assms(1,2) neg by (intro write_miss) (auto simp: funds_ready_def stored_money_def)
  with assms(3) show False by simp
qed

text \<open>
  One pass under interference.  The assumptions are the discipline the code's comment states:
  other writers keep the funds rows unique, whoever changes the booked margins of the user
  changes the user's funds row with them, and the row does not come back to an earlier value.
\<close>

lemma reconcile_once_under_protocol:
  assumes cols: "decimal_columns (x_read X)" and ready: "funds_ready uid db"
    and wf: "funds_wf (env2 (env1 db))"
    and protocol: "stored_money uid (env2 (env1 db)) = stored_money uid (env1 db) \<Longrightarrow>
        booked_margin X uid (env2 (env1 db)) = booked_margin X uid (env1 db)"
    and no_return: "stored_money uid (env1 db) \<noteq> stored_money uid db \<Longrightarrow>
        stored_money uid (env2 (env1 db)) \<noteq> stored_money uid db"
    and run: "reconcile_once X env1 env2 uid True db = (Some (True, disc, msg), db')"
  shows "used_margin (read_funds X uid db') = booked_margin X uid db'"
proof -
  let ?V = "read_funds X uid db" and ?total = "booked_margin X uid (env1 db)"
  let ?new = "[(Used_margin, ?total), (Available_balance, available_balance ?V + (used_margin ?V - ?total))]"
  let ?snap = "\<lparr>snap_values = ?V, snap_stored = stored_money uid db\<rparr>"
  from run have w: "write_funds_if_unchanged uid ?snap ?new (env2 (env1 db)) = (True, db')"
    and d: "used_margin ?V \<noteq> ?total"
    by (auto simp: reconcile_once_row [OF ready] Let_def split: prod.splits if_splits)
  have ch: "changed_values (snap_values ?snap) ?new \<noteq> []"
    using d by (auto simp: changed_values_def)
  have st: "funds_ready uid (env2 (env1 db))" "stored_money uid (env2 (env1 db)) = stored_money uid db"
    using write_success_stored [OF wf ch w] by simp_all
  have db': "db' = set_money uid (fold col_set (changed_values ?V ?new) (stored_money uid db)) (env2 (env1 db))"
    using write_hit [OF wf, of uid "the (funds_of uid (env2 (env1 db)))" ?snap ?new] w st
    by (auto simp: funds_ready_def stored_money_def)
  have V: "?V = read_funds X uid (env2 (env1 db))"
    using st(2) by (simp add: read_funds_def)
  have "read_funds X uid db' = read_money X (fold col_set ?new ?V)"
    using read_funds_set_money [OF cols st(1), of ?new] st(2) db' V by simp
  then have "used_margin (read_funds X uid db') = x_read X 2 ?total"
    by (simp add: read_money_def)
  moreover have "booked_margin X uid (env2 (env1 db)) = ?total"
    using st(2) protocol no_return by metis
  ultimately show ?thesis
    using decimal_columns.rd_id [OF cols booked_margin_grid [OF cols]] db' by simp
qed

lemma reconcile_margin_row:
  assumes "funds_ready uid db"
  shows "reconcile_margin X uid auto_fix db =
    (let V = read_funds X uid db; total = booked_margin X uid db; disc = used_margin V - total in
     if disc = 0 then ((False, 0, No_discrepancy), db)
     else if \<not> auto_fix then ((True, disc, Not_fixed disc), db)
     else ((True, disc, Reconciled disc),
           set_money uid (fold col_set (changed_values V
              [(Used_margin, total), (Available_balance, available_balance V + disc)])
              (stored_money uid db)) db))"
proof -
  have five: "FUNDS_WRITE_ATTEMPTS = Suc 4" by (simp add: FUNDS_WRITE_ATTEMPTS_def)
  from assms obtain f where f: "funds_wf db" "funds_of uid db = Some f"
    by (auto simp: funds_ready_def)
  have m: "stored_money uid db = fu_money f" by (simp add: stored_money_def f)
  have w: "write_funds_if_unchanged uid \<lparr>snap_values = V, snap_stored = stored_money uid db\<rparr> new db =
    (True, set_money uid (fold col_set (changed_values V new) (stored_money uid db)) db)" for V new
    using write_hit [OF f, of "\<lparr>snap_values = V, snap_stored = stored_money uid db\<rparr>" new] m by simp
  show ?thesis
    unfolding reconcile_margin_def five reconcile_attempts.simps reconcile_once_row [OF assms]
    by (simp add: no_interference_def w Let_def)
qed

text \<open>A reconciliation with auto-fix: the margin it leaves, the balance it keeps, its fixpoint.\<close>

lemma reconcile_margin_effect:
  assumes "decimal_columns (x_read X)" and "funds_ready uid db"
    and "reconcile_margin X uid True db = (outcome, db')"
  shows "used_margin (read_funds X uid db') = booked_margin X uid db' \<and>
         available_balance (read_funds X uid db') + used_margin (read_funds X uid db') =
           available_balance (read_funds X uid db) + used_margin (read_funds X uid db) \<and>
         reconcile_margin X uid True db' = ((False, 0, No_discrepancy), db')"
proof -
  note rd_id = decimal_columns.rd_id [OF assms(1)]
  let ?V = "read_funds X uid db" and ?total = "booked_margin X uid db"
  let ?new = "[(Used_margin, ?total), (Available_balance, available_balance ?V + (used_margin ?V - ?total))]"
  have grid: "on_grid 2 ?total" by (rule booked_margin_grid [OF assms(1)])
  have gridV: "on_grid 2 (available_balance ?V)" "on_grid 2 (used_margin ?V)"
    using decimal_columns.rd_grid [OF assms(1)] by (simp_all add: read_funds_def read_money_def)
  show ?thesis
  proof (cases "used_margin ?V = ?total")
    case True
    with assms(2,3) show ?thesis by (simp add: reconcile_margin_row)
  next
    case False
    then have db': "db' = set_money uid (fold col_set (changed_values ?V ?new) (stored_money uid db)) db"
      using assms(2,3) by (simp add: reconcile_margin_row Let_def)
    have "read_funds X uid db' = read_money X (fold col_set ?new ?V)"
      using read_funds_set_money [OF assms(1,2), of ?new] db' by simp
    moreover have "on_grid 2 (available_balance ?V + (used_margin ?V - ?total))"
      using grid gridV by (intro on_grid_add on_grid_diff)
    ultimately have "used_margin (read_funds X uid db') = ?total"
      "available_balance (read_funds X uid db') = available_balance ?V + (used_margin ?V - ?total)"
      using rd_id grid by (simp_all add: read_money_def)
    with db' assms(2) show ?thesis by (simp add: reconcile_margin_row Let_def)
  qed
qed

lemma reconcile_sets_booked:
  assumes "decimal_columns (x_read X)" and "funds_ready uid db"
  shows "used_margin (read_funds X uid (snd (reconcile_margin X uid True db))) =
         booked_margin X uid (snd (reconcile_margin X uid True db))"
  using reconcile_margin_effect [OF assms surjective_pairing] by simp

text \<open>A reconciliation with auto-fix leaves the reserved margin equal to what the open positions
  and the armed GTTs have booked, moves the difference into the available balance and nowhere
  else, and a second one finds nothing to do.\<close>

theorem reconcile_restores_and_settles:
  assumes "decimal_columns (x_read X)" and "funds_ready uid db"
    and "reconcile_margin X uid True db = (outcome, db')"
  shows "used_margin (read_funds X uid db') = booked_margin X uid db' \<and>
         available_balance (read_funds X uid db') + used_margin (read_funds X uid db') =
           available_balance (read_funds X uid db) + used_margin (read_funds X uid db) \<and>
         reconcile_margin X uid True db' = ((False, 0, No_discrepancy), db')"
  using assms by (rule reconcile_margin_effect)

lemma sample_ready: "funds_ready ''u'' sample_db"
  by (simp add: funds_ready_def funds_wf_def funds_of_def sample_db_def sample_funds_def)

lemma sample_stored: "stored_money ''u'' sample_db = sample_money"
  by (simp add: stored_money_def funds_of_def sample_db_def sample_funds_def)

lemma sample_grid: "grid_money sample_money"
  by (simp add: grid_money_def sample_money_def)

lemma sample_booked: "booked_margin sample_ext ''u'' sample_db = 0"
  by (simp add: booked_margin_def open_position_margin_def active_gtt_margin_def sample_db_def)

theorem reconcile_restores_and_settles_witness:
  "used_margin (read_funds sample_ext ''u'' (snd (reconcile_margin sample_ext ''u'' True sample_db))) = 0"
proof -
  have "booked_margin sample_ext ''u'' (snd (reconcile_margin sample_ext ''u'' True sample_db)) = 0"
    by (simp add: reconcile_margin_row sample_ready sample_booked Let_def)
  then show ?thesis
    using reconcile_restores_and_settles [OF sample_columns sample_ready,
        of "fst (reconcile_margin sample_ext ''u'' True sample_db)"
           "snd (reconcile_margin sample_ext ''u'' True sample_db)"]
    by simp
qed

text \<open>Under interference between its reads and its write, a reconciliation pass that succeeds
  still leaves the reserved margin equal to the booked margin, provided the other writers keep
  the discipline of the comment in \<open>_reconcile_once\<close> (a change of the booked margins moves the
  funds row) and the row does not return to the value it was read with.\<close>

theorem reconcile_under_interference:
  assumes "decimal_columns (x_read X)" and "funds_ready uid db" and "funds_wf (env2 (env1 db))"
    and "stored_money uid (env2 (env1 db)) = stored_money uid (env1 db) \<Longrightarrow>
        booked_margin X uid (env2 (env1 db)) = booked_margin X uid (env1 db)"
    and "stored_money uid (env1 db) \<noteq> stored_money uid db \<Longrightarrow>
        stored_money uid (env2 (env1 db)) \<noteq> stored_money uid db"
    and "reconcile_once X env1 env2 uid True db = (Some (True, disc, msg), db')"
  shows "used_margin (read_funds X uid db') = booked_margin X uid db'"
  using assms by (rule reconcile_once_under_protocol)

text \<open>An order fill that moves a reservation elsewhere does not touch the funds row.\<close>

definition note_fill :: "sandbox \<Rightarrow> sandbox" where
  "note_fill db = publish (Order_filled (0, 0) (0, 0) 1 10) db"

theorem reconcile_under_interference_witness:
  "used_margin (read_funds sample_ext ''u''
     (snd (reconcile_once sample_ext note_fill note_fill ''u'' True sample_db))) = 0"
proof -
  have simps: "funds_of u (note_fill db) = funds_of u db"
    "funds_rows (note_fill db) = funds_rows db"
    "stored_money u (note_fill db) = stored_money u db"
    "booked_margin X u (note_fill db) = booked_margin X u db"
    "funds_wf (note_fill db) = funds_wf db" for u X db
    by (simp_all add: note_fill_def funds_of_def stored_money_def booked_margin_def
        open_position_margin_def active_gtt_margin_def funds_wf_def)
  let ?db2 = "note_fill (note_fill sample_db)"
  let ?snap = "\<lparr>snap_values = read_funds sample_ext ''u'' sample_db,
                 snap_stored = stored_money ''u'' sample_db\<rparr>"
  have wf: "funds_wf ?db2" using sample_ready by (simp add: simps funds_ready_def)
  have row: "funds_of ''u'' ?db2 = Some sample_funds"
    by (simp add: simps funds_of_def sample_db_def sample_funds_def)
  have w: "write_funds_if_unchanged ''u'' ?snap new ?db2 =
    (True, set_money ''u'' (fold col_set (changed_values (read_funds sample_ext ''u'' sample_db) new)
       sample_money) ?db2)" for new
    using write_hit [OF wf row, of ?snap new] by (simp add: sample_stored sample_funds_def)
  have "read_funds sample_ext ''u'' sample_db = sample_money"
    by (simp add: read_funds_def sample_stored read_grid_money [OF sample_columns sample_grid])
  then have used: "used_margin (read_funds sample_ext ''u'' sample_db) = 100"
    by (simp add: sample_money_def)
  obtain msg db' where run: "reconcile_once sample_ext note_fill note_fill ''u'' True sample_db =
      (Some (True, 100, msg), db')"
    and booked: "booked_margin sample_ext ''u'' db' = 0"
    by (simp add: reconcile_once_row [OF sample_ready] w used simps sample_booked Let_def)
  have "used_margin (read_funds sample_ext ''u'' db') = booked_margin sample_ext ''u'' db'"
    using run
    by (intro reconcile_under_interference [where ?env1.0 = note_fill and ?env2.0 = note_fill,
          OF sample_columns sample_ready wf]) (simp_all add: simps)
  with run booked show ?thesis by simp
qed

subsection \<open>Rebasing the capital\<close>

definition rebased :: "rat \<Rightarrow> money \<Rightarrow> money" where
  "rebased c m = m\<lparr>total_capital := c, available_balance := c - used_margin m + total_pnl m\<rparr>"

lemma rebase_step:
  assumes "decimal_columns (x_read X)" "funds_ready u db"
  obtains db1 where "apply_funds_change X u (rebase_compute c) None db = ((True, Rebased), db1)"
    and "read_funds X u db1 = read_money X (rebased c (read_funds X u db))"
    and "\<And>v. funds_ready v db1 = funds_ready v db"
    and "\<And>v. v \<noteq> u \<Longrightarrow> read_funds X v db1 = read_funds X v db"
    and "funds_wf db1 = funds_wf db"
proof -
  let ?V = "read_funds X u db"
  let ?new = "[(Total_capital, c), (Available_balance, c - used_margin ?V + total_pnl ?V)]"
  let ?db1 = "set_money u (fold col_set (changed_values ?V ?new) (stored_money u db)) db"
  from assms(2) obtain f where f: "funds_wf db" "funds_of u db = Some f"
    by (auto simp: funds_ready_def)
  have "apply_funds_change X u (rebase_compute c) None db = ((True, Rebased), ?db1)"
    using f by (simp add: apply_funds_change_row rebase_compute_def read_funds_def stored_money_def)
  moreover have "read_funds X u ?db1 = read_money X (rebased c ?V)"
    using read_funds_set_money [OF assms, of ?new] by (simp add: rebased_def)
  moreover have "funds_ready v ?db1 = funds_ready v db" for v by simp
  moreover have "read_funds X v ?db1 = read_funds X v db" if "v \<noteq> u" for v
    using that by (simp add: read_funds_def)
  moreover have "funds_wf ?db1 = funds_wf db" by simp
  ultimately show thesis by (rule that)
qed

lemma rebase_each_rows:
  assumes "decimal_columns (x_read X)" "\<forall>u \<in> set us. funds_ready u db" "distinct us"
  shows "\<exists>db'. rebase_each X c us db = Some db' \<and>
    (\<forall>v. read_funds X v db' =
       (if v \<in> set us then read_money X (rebased c (read_funds X v db)) else read_funds X v db))"
  using assms(2,3)
proof (induction us arbitrary: db)
  case (Cons u us)
  then have "funds_ready u db" by simp
  then obtain db1 where db1:
    "apply_funds_change X u (rebase_compute c) None db = ((True, Rebased), db1)"
    "read_funds X u db1 = read_money X (rebased c (read_funds X u db))"
    "\<And>v. funds_ready v db1 = funds_ready v db"
    "\<And>v. v \<noteq> u \<Longrightarrow> read_funds X v db1 = read_funds X v db"
    using rebase_step [OF assms(1)] by blast
  obtain db' where db': "rebase_each X c us db1 = Some db'"
    "\<And>v. read_funds X v db' =
       (if v \<in> set us then read_money X (rebased c (read_funds X v db1)) else read_funds X v db1)"
    using Cons.IH [of db1] Cons.prems db1(3) by auto
  have "rebase_each X c (u # us) db = Some db'"
    using db1(1) db'(1) by simp
  moreover have "read_funds X v db' =
      (if v \<in> set (u # us) then read_money X (rebased c (read_funds X v db)) else read_funds X v db)" for v
    using db'(2) [of v] db1(2) db1(4) [of v] Cons.prems(2) by (cases "v = u") auto
  ultimately show ?case by blast
qed simp

lemma funds_ready_rows: "funds_wf db \<Longrightarrow> u \<in> set (map fu_user (funds_rows db)) \<Longrightarrow> funds_ready u db"
  by (auto simp: funds_ready_def funds_of_def find_None_iff)

text \<open>Rebasing the starting capital reaches every funds row in one run and counts them; each row
  keeps its margin and profit, gets the new capital, and its cash plus reserved margin becomes
  the new capital plus the total P&L.\<close>

theorem rebase_reaches_every_row:
  assumes "decimal_columns (x_read X)" and "funds_wf db" and "on_grid 2 c"
  shows "\<exists>db'. rebase_starting_capital X c db = Some (length (funds_rows db), db') \<and>
    (\<forall>u \<in> set (map fu_user (funds_rows db)).
       total_capital (read_funds X u db') = c \<and>
       used_margin (read_funds X u db') = used_margin (read_funds X u db) \<and>
       realized_pnl (read_funds X u db') = realized_pnl (read_funds X u db) \<and>
       available_balance (read_funds X u db') + used_margin (read_funds X u db') =
         c + total_pnl (read_funds X u db))"
proof -
  note rd = decimal_columns.rd_id [OF assms(1)] decimal_columns.rd_grid [OF assms(1)]
  obtain db' where db': "rebase_each X c (map fu_user (funds_rows db)) db = Some db'"
    "\<And>v. v \<in> set (map fu_user (funds_rows db)) \<Longrightarrow>
       read_funds X v db' = read_money X (rebased c (read_funds X v db))"
    using rebase_each_rows [OF assms(1), of "map fu_user (funds_rows db)" db c]
      funds_ready_rows [OF assms(2)] assms(2) by (auto simp: funds_wf_def)
  have "on_grid 2 (c - used_margin (read_funds X u db) + total_pnl (read_funds X u db))" for u
    using assms(3) rd(2) by (intro on_grid_add on_grid_diff) (simp_all add: read_funds_def read_money_def)
  with assms(3) rd have "read_money X (rebased c (read_funds X u db)) = rebased c (read_funds X u db)" for u
    by (simp add: rebased_def read_money_def read_funds_def option.map_comp o_def)
  with db' show ?thesis
    by (simp add: rebase_starting_capital_def rebased_def)
qed

theorem rebase_reaches_every_row_witness:
  "\<exists>db'. rebase_starting_capital sample_ext 5000 sample_db = Some (1, db') \<and>
     available_balance (read_funds sample_ext ''u'' db') + used_margin (read_funds sample_ext ''u'' db') = 5000"
proof -
  have wf: "funds_wf sample_db" using sample_ready by (simp add: funds_ready_def)
  have "total_pnl (read_funds sample_ext ''u'' sample_db) = 0"
    by (simp add: read_funds_def sample_stored read_grid_money [OF sample_columns sample_grid])
      (simp add: sample_money_def)
  then show ?thesis
    using rebase_reaches_every_row [OF sample_columns wf, of 5000]
    by (auto simp: sample_db_def sample_funds_def)
qed

subsection \<open>A funds change among other writers\<close>

text \<open>C3: the optimistic funds change is atomic: whatever other writers commit between each read and
  each write of its five attempts, a change that reports success took effect in one indivisible step
  at a state the others had reached, with its answer worked out from exactly that state, and one that
  reports failure (refused, no row, or overtaken five times) has written nothing.\<close>

theorem funds_change_is_atomic:
  assumes "funds_wf db" and "\<forall>g \<in> others env ensure. \<forall>d. funds_wf d \<longrightarrow> funds_wf (g d)"
  shows "in_one_step X uid compute (others env ensure) db
    (apply_attempts FUNDS_WRITE_ATTEMPTS X env uid compute ensure db)"
  using assms by (intro apply_attempts_linearizable) blast+

text \<open>Another writer spends a hundred during the first attempt.\<close>

definition spending_writer :: "nat \<Rightarrow> sandbox \<Rightarrow> sandbox" where
  "spending_writer n d = (if n = 4 then set_money ''u'' (sample_money\<lparr>available_balance := 800\<rparr>) d else d)"

theorem funds_change_is_atomic_witness:
  "in_one_step sample_ext ''u'' (block_compute 50) (others spending_writer None) sample_db
     (apply_attempts FUNDS_WRITE_ATTEMPTS sample_ext spending_writer ''u'' (block_compute 50) None sample_db)"
proof (rule funds_change_is_atomic)
  show "funds_wf sample_db" using sample_ready by (simp add: funds_ready_def)
  show "\<forall>g \<in> others spending_writer None. \<forall>d. funds_wf d \<longrightarrow> funds_wf (g d)"
    by (auto simp: others_def spending_writer_def funds_wf_set_money)
qed

end
