(* ===== verification/Claims.thy ===== *)
theory Claims
  imports Prelude
begin

text \<open>
  Claims by conditional update.  The sandbox decides every race (two fills of one order, a fill
  and a cancel, two evaluators of one GTT leg, two settlements of one position) by an UPDATE
  whose WHERE clause names the state the claimant expects: the row count says who won.  The
  locale states that contract once; its lemmas are about any interleaving of claims with steps
  of other parties that do not put the claimed thing back.
\<close>

text \<open>
  A step of an interleaving: a claim of one item (with an argument: the fill price, the kind of
  claim, the time), or anything another party does.
\<close>

primrec claim_wins ::
    "('i \<Rightarrow> 'a \<Rightarrow> 's \<Rightarrow> bool \<times> 's) \<Rightarrow> 'i \<Rightarrow> ('i \<times> 'a + ('s \<Rightarrow> 's)) list \<Rightarrow> 's \<Rightarrow> nat" where
  "claim_wins c i [] s = 0"
| "claim_wins c i (st # sts) s =
     (case st of
        Inl (j, a) \<Rightarrow> (if j = i \<and> fst (c j a s) then 1 else 0) + claim_wins c i sts (snd (c j a s))
      | Inr f \<Rightarrow> claim_wins c i sts (f s))"

definition keeps_taken ::
    "('i \<Rightarrow> 's \<Rightarrow> bool) \<Rightarrow> ('s \<Rightarrow> bool) \<Rightarrow> 'i \<Rightarrow> ('i \<times> 'a + ('s \<Rightarrow> 's)) list \<Rightarrow> bool" where
  "keeps_taken claimable ready i sts \<longleftrightarrow>
     (\<forall>f. Inr f \<in> set sts \<longrightarrow>
        (\<forall>s. ready s \<longrightarrow> ready (f s) \<and> (\<not> claimable i s \<longrightarrow> \<not> claimable i (f s))))"

locale conditional_claim =
  fixes claim :: "'i \<Rightarrow> 'a \<Rightarrow> 's \<Rightarrow> bool \<times> 's"
    and claimable :: "'i \<Rightarrow> 's \<Rightarrow> bool"
    and ready :: "'s \<Rightarrow> bool"
  assumes claim_iff: "ready s \<Longrightarrow> fst (claim i a s) \<longleftrightarrow> claimable i s"
    and claim_takes: "ready s \<Longrightarrow> fst (claim i a s) \<Longrightarrow> \<not> claimable i (snd (claim i a s))"
    and claim_loses: "ready s \<Longrightarrow> \<not> fst (claim i a s) \<Longrightarrow> snd (claim i a s) = s"
    and claim_others: "ready s \<Longrightarrow> claimable j (snd (claim i a s)) \<Longrightarrow> claimable j s"
    and claim_ready: "ready s \<Longrightarrow> ready (snd (claim i a s))"
begin

lemma no_win_when_taken:
  "ready s \<Longrightarrow> keeps_taken claimable ready i sts \<Longrightarrow> \<not> claimable i s \<Longrightarrow> claim_wins claim i sts s = 0"
proof (induction sts arbitrary: s)
  case (Cons st sts)
  have keep: "keeps_taken claimable ready i sts"
    using Cons.prems(2) by (auto simp: keeps_taken_def)
  show ?case
  proof (cases st)
    case (Inl ja)
    obtain j a where ja: "ja = (j, a)" by fastforce
    have "\<not> claimable i (snd (claim j a s))"
      using Cons.prems claim_others by blast
    moreover have "\<not> (j = i \<and> fst (claim j a s))"
      using Cons.prems claim_iff by blast
    ultimately show ?thesis
      using Inl ja Cons.IH [OF claim_ready [OF Cons.prems(1)] keep] by auto
  next
    case (Inr f)
    have "ready (f s) \<and> \<not> claimable i (f s)"
      using Cons.prems Inr by (auto simp: keeps_taken_def)
    then show ?thesis using Inr Cons.IH [OF _ keep, of "f s"] by simp
  qed
qed simp

lemma at_most_one_win:
  "ready s \<Longrightarrow> keeps_taken claimable ready i sts \<Longrightarrow> claim_wins claim i sts s \<le> 1"
proof (induction sts arbitrary: s)
  case (Cons st sts)
  have keep: "keeps_taken claimable ready i sts"
    using Cons.prems(2) by (auto simp: keeps_taken_def)
  show ?case
  proof (cases st)
    case (Inl ja)
    obtain j a where ja: "ja = (j, a)" by fastforce
    let ?t = "snd (claim j a s)"
    have t: "ready ?t" using claim_ready [OF Cons.prems(1)] .
    show ?thesis
    proof (cases "j = i \<and> fst (claim j a s)")
      case True
      then have "\<not> claimable i ?t" using claim_takes [OF Cons.prems(1)] by blast
      with True Inl ja no_win_when_taken [OF t keep] show ?thesis by simp
    next
      case False
      then have "claim_wins claim i (st # sts) s = claim_wins claim i sts ?t"
        using Inl ja by auto
      with Cons.IH [OF t keep] show ?thesis by simp
    qed
  next
    case (Inr f)
    have "ready (f s)" using Cons.prems Inr by (auto simp: keeps_taken_def)
    then show ?thesis using Inr Cons.IH [OF _ keep, of "f s"] by simp
  qed
qed simp

lemma first_claim_wins:
  "ready s \<Longrightarrow> claimable i s \<Longrightarrow> keeps_taken claimable ready i sts \<Longrightarrow>
   claim_wins claim i (Inl (i, a) # sts) s = 1"
  using claim_iff [of s i a] claim_takes [of s i a] claim_ready [of s i a]
    no_win_when_taken [of "snd (claim i a s)" i sts]
  by simp

end

subsection \<open>The claim as a conditional update of a keyed table\<close>

text \<open>Every claim of the sandbox has this shape: one row, by key, in an expected state.\<close>

definition claim_row ::
    "('r \<Rightarrow> 'k) \<Rightarrow> ('r \<Rightarrow> bool) \<Rightarrow> ('r \<Rightarrow> 'r) \<Rightarrow> 'k \<Rightarrow> 'r list \<Rightarrow> bool \<times> 'r list" where
  "claim_row key P f k rows =
     (if row_count (\<lambda>r. key r = k \<and> P r) rows = 1
      then (True, sql_update (\<lambda>r. key r = k \<and> P r) f rows) else (False, rows))"

lemma claim_row_iff:
  "distinct (map key rows) \<Longrightarrow>
   fst (claim_row key P f k rows) \<longleftrightarrow> (\<exists>r \<in> set rows. key r = k \<and> P r)"
  using row_count_eq_1_iff [of key rows "\<lambda>r. key r = k \<and> P r" k] by (simp add: claim_row_def)

lemma claim_row_lost: "\<not> fst (claim_row key P f k rows) \<Longrightarrow> snd (claim_row key P f k rows) = rows"
  by (simp add: claim_row_def split: if_splits)

lemma claim_row_keys:
  "(\<And>r. key (f r) = key r) \<Longrightarrow> map key (snd (claim_row key P f k rows)) = map key rows"
  by (simp add: claim_row_def map_key_sql_update)

lemma claim_row_set:
  "r' \<in> set (snd (claim_row key P f k rows)) \<Longrightarrow>
   r' \<in> set rows \<or> (\<exists>r \<in> set rows. key r = k \<and> P r \<and> r' = f r)"
  by (auto simp: claim_row_def set_sql_update split: if_splits)

lemma claim_row_taken:
  assumes "\<And>r. key (f r) = key r" "\<And>r. P r \<Longrightarrow> \<not> P (f r)" "fst (claim_row key P f k rows)"
  shows "\<not> (\<exists>r \<in> set (snd (claim_row key P f k rows)). key r = k \<and> P r)"
  using assms by (auto simp: claim_row_def set_sql_update split: if_splits)

lemma claim_row_others:
  assumes "\<And>r. key (f r) = key r" "\<And>r. P r \<Longrightarrow> \<not> P (f r)"
    and "\<exists>r \<in> set (snd (claim_row key P f k rows)). key r = j \<and> P r"
  shows "\<exists>r \<in> set rows. key r = j \<and> P r"
  using assms by (auto simp: claim_row_def set_sql_update split: if_splits)

end
