(* ===== verification/ExecutionEngine.thy ===== *)
theory ExecutionEngine
  imports FundManager Claims
begin

text \<open>
  The execution engine (\<open>sandbox/execution_engine.py\<close>): when a resting order fills and at what
  price, the fill itself (claim, trade, position, margin), and the polling cycle over all
  resting orders.
\<close>

subsection \<open>Claiming a fill\<close>

definition PENDING_ORDER_STATUSES :: "order_status list" where
  "PENDING_ORDER_STATUSES = [Open, Trigger_pending]"

definition is_pending :: "sandbox_order \<Rightarrow> bool" where
  "is_pending r \<longleftrightarrow> od_status r \<in> set PENDING_ORDER_STATUSES"

definition fill_row :: "rat \<Rightarrow> sandbox_order \<Rightarrow> sandbox_order" where
  "fill_row price r =
     r\<lparr>od_status := Complete, od_average_price := Some price,
       od_filled_quantity := od_quantity r, od_pending_quantity := 0\<rparr>"

definition claim_order_fill :: "rat \<Rightarrow> nat \<Rightarrow> sandbox \<Rightarrow> bool \<times> sandbox" where
  "claim_order_fill price oid db =
     (case claim_row od_id is_pending (fill_row price) oid (orders db) of
        (won, rows) \<Rightarrow> (won, if won then db\<lparr>orders := rows\<rparr> else db))"

definition order_terms ::
    "sandbox_order \<Rightarrow> int \<times> rat option \<times> rat option \<times> price_type \<times> action" where
  "order_terms r = (od_quantity r, od_price r, od_trigger_price r, od_price_type r, od_action r)"

definition order_row :: "ext \<Rightarrow> nat \<Rightarrow> sandbox \<Rightarrow> sandbox_order option" where
  "order_row X oid db = map_option (read_order X) (find (\<lambda>r. od_id r = oid) (orders db))"

definition quote_looks_stale :: "quote \<Rightarrow> bool" where
  "quote_looks_stale q =
     (if q_ltp q \<le> 0 \<or> q_high q \<le> 0 \<or> q_low q \<le> 0 then False
      else \<not> (q_low q \<le> q_ltp q \<and> q_ltp q \<le> q_high q))"

subsection \<open>When an order fills, and at what price\<close>

definition trigger_met :: "action \<Rightarrow> rat \<Rightarrow> rat \<Rightarrow> bool" where
  "trigger_met act trigger ltp = (case act of BUY \<Rightarrow> ltp \<ge> trigger | SELL \<Rightarrow> ltp \<le> trigger)"

definition limit_met :: "action \<Rightarrow> rat \<Rightarrow> rat \<Rightarrow> bool" where
  "limit_met act price ltp = (case act of BUY \<Rightarrow> ltp \<le> price | SELL \<Rightarrow> ltp \<ge> price)"

text \<open>\<open>None\<close> is no fill; a missing price or trigger makes the comparison raise, which is caught.\<close>

definition open_fill_price :: "sandbox_order \<Rightarrow> quote \<Rightarrow> rat option" where
  "open_fill_price r q =
     (let ltp = q_ltp q; bid = q_bid q; ask = q_ask q in
      case od_price_type r of
        MARKET \<Rightarrow>
          (case od_action r of
             BUY \<Rightarrow> Some (if ask > 0 then ask else ltp)
           | SELL \<Rightarrow> Some (if bid > 0 then bid else ltp))
      | LIMIT \<Rightarrow>
          (case od_price r of
             None \<Rightarrow> None
           | Some p \<Rightarrow> if limit_met (od_action r) p ltp then Some p else None)
      | SL \<Rightarrow>
          (case (od_trigger_price r, od_price r) of
             (Some t, Some p) \<Rightarrow>
               if trigger_met (od_action r) t ltp \<and> limit_met (od_action r) p ltp
               then Some ltp else None
           | _ \<Rightarrow> None)
      | SL_M \<Rightarrow>
          (case od_trigger_price r of
             None \<Rightarrow> None
           | Some t \<Rightarrow> if trigger_met (od_action r) t ltp then Some ltp else None))"

subsection \<open>The position after a fill\<close>

definition signed_quantity :: "action \<Rightarrow> int \<Rightarrow> int" where
  "signed_quantity act q = (case act of BUY \<Rightarrow> q | SELL \<Rightarrow> - q)"

definition order_margin :: "sandbox_order \<Rightarrow> rat" where
  "order_margin r = (case od_margin_blocked r of Some m \<Rightarrow> m | None \<Rightarrow> 0)"

definition contract_value :: "sandbox \<Rightarrow> sandbox_order \<Rightarrow> rat" where
  "contract_value db r =
     (case symtoken db (od_symbol r) (od_exchange r) of
        None \<Rightarrow> 1
      | Some info \<Rightarrow>
          (case si_contract_value info of Some c \<Rightarrow> if c = 0 then 1 else c | None \<Rightarrow> 1))"

definition calculate_realized_pnl :: "int \<Rightarrow> rat \<Rightarrow> int \<Rightarrow> rat \<Rightarrow> rat \<Rightarrow> rat" where
  "calculate_realized_pnl old_quantity avg_price close_quantity close_price cv =
     (if old_quantity > 0 then (close_price - avg_price) * of_int close_quantity * cv
      else (avg_price - close_price) * of_int close_quantity * cv)"

definition same_position :: "sandbox_order \<Rightarrow> sandbox_position \<Rightarrow> bool" where
  "same_position r p \<longleftrightarrow>
     po_user p = od_user r \<and> po_symbol p = od_symbol r \<and> po_exchange p = od_exchange r \<and>
     po_product p = od_product r"

definition position_of :: "sandbox_order \<Rightarrow> sandbox \<Rightarrow> sandbox_position option" where
  "position_of r db = find (same_position r) (positions db)"

definition next_id :: "('r \<Rightarrow> nat) \<Rightarrow> 'r list \<Rightarrow> nat" where
  "next_id key rows = Suc (fold (\<lambda>r m. max (key r) m) rows 0)"

definition write_position ::
    "ext \<Rightarrow> nat \<Rightarrow> (sandbox_position \<Rightarrow> sandbox_position) \<Rightarrow> sandbox \<Rightarrow> sandbox" where
  "write_position X pid f db =
     db\<lparr>positions := sql_update (\<lambda>p. po_id p = pid)
          (\<lambda>p. (f p)\<lparr>po_updated_at := db_now X\<rparr>) (positions db)\<rparr>"

definition new_position :: "ext \<Rightarrow> sandbox_order \<Rightarrow> rat \<Rightarrow> sandbox \<Rightarrow> sandbox" where
  "new_position X r price db =
     db\<lparr>positions := positions db @
       [\<lparr> po_id = next_id po_id (positions db), po_user = od_user r, po_symbol = od_symbol r,
          po_exchange = od_exchange r, po_product = od_product r,
          po_quantity = signed_quantity (od_action r) (od_quantity r),
          po_average_price = price, po_ltp = Some price, po_pnl = 0, po_pnl_percent = 0,
          po_accumulated_realized_pnl = 0, po_today_realized_pnl = 0,
          po_margin_blocked = order_margin r,
          po_created_at = x_now X, po_updated_at = db_now X \<rparr>]\<rparr>"

definition reopen_position :: "ext \<Rightarrow> sandbox_order \<Rightarrow> rat \<Rightarrow> sandbox_position \<Rightarrow> sandbox \<Rightarrow> sandbox" where
  "reopen_position X r price p db =
     write_position X (po_id p)
       (\<lambda>row. row\<lparr>po_quantity := signed_quantity (od_action r) (od_quantity r),
                  po_average_price := price, po_ltp := Some price, po_pnl := 0,
                  po_pnl_percent := 0, po_margin_blocked := order_margin r\<rparr>) db"

text \<open>
  Closing: the margin the position holds is released first (in its own commit; its outcome is
  not looked at), then the row is written.
\<close>

definition close_out_position :: "ext \<Rightarrow> sandbox_order \<Rightarrow> rat \<Rightarrow> sandbox_position \<Rightarrow> sandbox \<Rightarrow> sandbox" where
  "close_out_position X r price p db =
     (let realized = calculate_realized_pnl (po_quantity p) (po_average_price p)
                       \<bar>signed_quantity (od_action r) (od_quantity r)\<bar> price (contract_value db r);
          margin = po_margin_blocked p;
          db1 = (if margin > 0 then snd (release_margin X (od_user r) margin realized db) else db)
      in write_position X (po_id p)
           (\<lambda>row. row\<lparr>po_accumulated_realized_pnl := po_accumulated_realized_pnl p + realized,
                      po_today_realized_pnl := po_today_realized_pnl p + realized,
                      po_quantity := 0, po_margin_blocked := 0, po_ltp := Some price,
                      po_pnl := po_today_realized_pnl p + realized, po_pnl_percent := 0\<rparr>) db1)"

definition add_to_position :: "ext \<Rightarrow> sandbox_order \<Rightarrow> rat \<Rightarrow> sandbox_position \<Rightarrow> sandbox \<Rightarrow> sandbox" where
  "add_to_position X r price p db =
     (let new_quantity = signed_quantity (od_action r) (od_quantity r);
          total_value = of_int \<bar>po_quantity p\<bar> * po_average_price p + of_int \<bar>new_quantity\<bar> * price;
          total_quantity = \<bar>po_quantity p\<bar> + \<bar>new_quantity\<bar>
      in write_position X (po_id p)
           (\<lambda>row. row\<lparr>po_quantity := po_quantity p + new_quantity,
                      po_average_price := total_value / of_int total_quantity,
                      po_ltp := Some price,
                      po_margin_blocked := po_margin_blocked p + order_margin r\<rparr>) db)"

text \<open>
  Reducing or reversing: the P&L is put on the row before the release commits, so a refused
  release, which rolls the session back, takes it away again; the rest is written either way.
\<close>

definition reduce_position :: "ext \<Rightarrow> sandbox_order \<Rightarrow> rat \<Rightarrow> sandbox_position \<Rightarrow> sandbox \<Rightarrow> sandbox" where
  "reduce_position X r price p db =
     (let old_quantity = po_quantity p;
          new_quantity = signed_quantity (od_action r) (od_quantity r);
          reduced = min \<bar>old_quantity\<bar> \<bar>new_quantity\<bar>;
          realized = calculate_realized_pnl old_quantity (po_average_price p) reduced price
                       (contract_value db r);
          with_pnl = (\<lambda>row. row\<lparr>
             po_accumulated_realized_pnl := po_accumulated_realized_pnl p + realized,
             po_today_realized_pnl := po_today_realized_pnl p + realized\<rparr>);
          current_margin = po_margin_blocked p;
          margin_to_release =
            (if \<bar>old_quantity\<bar> > 0 then current_margin * (of_int reduced / of_int \<bar>old_quantity\<bar>) else 0);
          db1 = write_position X (po_id p) with_pnl db;
          db2 = (if margin_to_release > 0 then
                   (case release_margin X (od_user r) margin_to_release realized db of
                      ((ok, msg), db') \<Rightarrow>
                        if ok then write_position X (po_id p) with_pnl db' else db')
                 else db1);
          remaining_margin = current_margin - margin_to_release
      in write_position X (po_id p)
           (\<lambda>row. (if \<bar>new_quantity\<bar> > \<bar>old_quantity\<bar> then
              (let remaining = \<bar>new_quantity\<bar> - \<bar>old_quantity\<bar> in
               row\<lparr>po_quantity := signed_quantity (od_action r) remaining,
                   po_average_price := price,
                   po_margin_blocked := order_margin r * (of_int remaining / of_int \<bar>new_quantity\<bar>)\<rparr>)
            else row\<lparr>po_quantity := old_quantity + new_quantity,
                     po_margin_blocked := remaining_margin\<rparr>)\<lparr>po_ltp := Some price\<rparr>) db2)"

text \<open>Netting: which of the five cases a fill is.\<close>

definition net_position :: "ext \<Rightarrow> sandbox_order \<Rightarrow> rat \<Rightarrow> sandbox \<Rightarrow> sandbox" where
  "net_position X r price db =
     (case position_of r db of
        None \<Rightarrow> new_position X r price db
      | Some row \<Rightarrow>
          (let p = read_position X row;
               old_quantity = po_quantity p;
               final_quantity = old_quantity + signed_quantity (od_action r) (od_quantity r)
           in if old_quantity = 0 then reopen_position X r price p db
              else if final_quantity = 0 then close_out_position X r price p db
              else if old_quantity > 0 \<and> final_quantity > old_quantity \<or>
                      old_quantity < 0 \<and> final_quantity < old_quantity
              then add_to_position X r price p db
              else reduce_position X r price p db))"

definition update_position :: "ext \<Rightarrow> sandbox_order \<Rightarrow> rat \<Rightarrow> sandbox \<Rightarrow> sandbox option" where
  "update_position X r price db =
     (if x_db_error X then None
      else let db1 = net_position X r price db in
        Some (if fst (validate_margin_consistency X (od_user r) db1) then db1
              else snd (reconcile_margin X (od_user r) True db1)))"

subsection \<open>Executing an order\<close>

definition new_trade :: "ext \<Rightarrow> sandbox_order \<Rightarrow> rat \<Rightarrow> sandbox_trade" where
  "new_trade X r price =
     \<lparr> tr_tradeid = (x_now X, x_uuid X), tr_orderid = od_orderid r, tr_user = od_user r,
       tr_symbol = od_symbol r, tr_exchange = od_exchange r, tr_action = od_action r,
       tr_quantity = od_quantity r, tr_price = price, tr_product = od_product r,
       tr_strategy = od_strategy r, tr_timestamp = x_now X \<rparr>"

definition reject_row :: "sandbox_order \<Rightarrow> sandbox_order" where
  "reject_row r = r\<lparr>od_status := Rejected, od_rejection := Some Execution_error\<rparr>"

text \<open>
  \<open>r\<close> is the order as the fill was decided on; the row may have moved since.  A lost claim and a
  modified order roll back.  When the position transaction raises, the fill is already committed
  and the order is marked rejected.
\<close>

definition execute_order :: "ext \<Rightarrow> sandbox_order \<Rightarrow> rat \<Rightarrow> sandbox \<Rightarrow> sandbox" where
  "execute_order X r price db =
     (case claim_order_fill price (od_id r) db of
        (won, db1) \<Rightarrow>
          if \<not> won then db
          else (case order_row X (od_id r) db1 of
                  None \<Rightarrow> db
                | Some cur \<Rightarrow>
                    if order_terms cur \<noteq> order_terms r then db
                    else
                      (let trade = new_trade X cur price;
                           db2 = db1\<lparr>trades := trades db1 @ [trade]\<rparr>
                       in case update_position X cur price db2 of
                            Some db3 \<Rightarrow>
                              publish (Order_filled (od_orderid cur) (tr_tradeid trade)
                                         (od_quantity cur) price) db3
                          | None \<Rightarrow>
                              publish (Order_update (od_orderid cur) Rejected)
                                (db2\<lparr>orders := sql_update (\<lambda>o'. od_id o' = od_id cur) reject_row (orders db2)\<rparr>))))"

definition reopen_row :: "sandbox_order \<Rightarrow> sandbox_order" where
  "reopen_row r = r\<lparr>od_status := Open\<rparr>"

definition release_from_stop_book :: "nat \<Rightarrow> sandbox \<Rightarrow> bool \<times> sandbox" where
  "release_from_stop_book oid db =
     (case claim_row od_id (\<lambda>r. od_status r = Trigger_pending) reopen_row oid (orders db) of
        (won, rows) \<Rightarrow> (won, if won then db\<lparr>orders := rows\<rparr> else db))"

definition process_trigger_pending_order :: "ext \<Rightarrow> sandbox_order \<Rightarrow> rat \<Rightarrow> sandbox \<Rightarrow> sandbox" where
  "process_trigger_pending_order X r ltp db =
     (case od_trigger_price r of
        None \<Rightarrow> db
      | Some t \<Rightarrow>
          if \<not> trigger_met (od_action r) t ltp then db
          else if od_price_type r = SL_M then execute_order X r ltp db
          else (case od_price r of
                  None \<Rightarrow> db
                | Some p \<Rightarrow>
                    if limit_met (od_action r) p ltp then execute_order X r ltp db
                    else (case release_from_stop_book (od_id r) db of
                            (reopened, db1) \<Rightarrow>
                              if reopened then publish (Order_update (od_orderid r) Open) db1 else db)))"

text \<open>A trade without a completed order is the trace of an interrupted fill: finish the order.\<close>

definition finish_orphan :: "sandbox_order \<Rightarrow> sandbox_trade \<Rightarrow> sandbox \<Rightarrow> sandbox" where
  "finish_orphan r tr db =
     (if od_status r \<noteq> Open then db
      else (case claim_row od_id (\<lambda>o'. od_status o' = Open) (fill_row (tr_price tr)) (od_id r) (orders db) of
              (cleaned, rows) \<Rightarrow>
                if cleaned then
                  publish (Order_filled (od_orderid r) (tr_tradeid tr) (od_quantity r) (tr_price tr))
                    (db\<lparr>orders := rows\<rparr>)
                else db))"

definition process_order :: "ext \<Rightarrow> sandbox_order \<Rightarrow> quote \<Rightarrow> sandbox \<Rightarrow> sandbox" where
  "process_order X r q db =
     (case find (\<lambda>t. tr_orderid t = od_orderid r) (trades db) of
        Some tr \<Rightarrow> finish_orphan r (tr\<lparr>tr_price := x_read X 2 (tr_price tr)\<rparr>) db
      | None \<Rightarrow>
          if q_ltp q \<le> 0 then db
          else if quote_looks_stale q then db
          else if od_status r = Trigger_pending then process_trigger_pending_order X r (q_ltp q) db
          else (case open_fill_price r q of
                  None \<Rightarrow> db
                | Some price \<Rightarrow> execute_order X r price db))"

subsection \<open>The polling cycle over the resting orders\<close>

primrec process_orders ::
    "ext \<Rightarrow> (string \<Rightarrow> string \<Rightarrow> quote option) \<Rightarrow> nat list \<Rightarrow> sandbox \<Rightarrow> sandbox" where
  "process_orders X quote_cache [] db = db"
| "process_orders X quote_cache (oid # oids) db =
     process_orders X quote_cache oids
       (case order_row X oid db of
          None \<Rightarrow> db
        | Some r \<Rightarrow>
            (case quote_cache (od_symbol r) (od_exchange r) of
               None \<Rightarrow> db
             | Some q \<Rightarrow> process_order X r q db))"

definition execute_pending_orders ::
    "ext \<Rightarrow> (string \<Rightarrow> string \<Rightarrow> quote option) \<Rightarrow> sandbox \<Rightarrow> sandbox" where
  "execute_pending_orders X quote_cache db =
     process_orders X quote_cache (map od_id (filter is_pending (orders db))) db"

end
