(* ===== verification/ExecutionLaws.thy ===== *)
theory ExecutionLaws
  imports Ledger ExecutionEngine
begin

text \<open>
  The laws of the execution engine: what a fund change leaves alone, a fill as a change of one
  order row, the netting of a position, and the polling cycle.
\<close>

subsection \<open>Frames\<close>

text \<open>A view of the state that does not look at the funds table.\<close>

definition beside_funds :: "(sandbox \<Rightarrow> 'v) \<Rightarrow> bool" where
  "beside_funds F \<longleftrightarrow> (\<forall>rows db. F (db\<lparr>funds_rows := rows\<rparr>) = F db)"

lemma beside_fundsI: "(\<And>rows db. F (db\<lparr>funds_rows := rows\<rparr>) = F db) \<Longrightarrow> beside_funds F"
  by (simp add: beside_funds_def)

lemma beside_funds_tables [simp, intro]:
  "beside_funds orders" "beside_funds trades" "beside_funds positions" "beside_funds holdings"
  "beside_funds gtts" "beside_funds gtt_legs" "beside_funds config" "beside_funds symtoken"
  "beside_funds events" "beside_funds last_order_day" "beside_funds last_order_seq"
  by (simp_all add: beside_funds_def)

lemma beside_write: "beside_funds F \<Longrightarrow> F (snd (write_funds_if_unchanged uid snap new db)) = F db"
  by (auto simp: write_funds_if_unchanged_def beside_funds_def Let_def)

lemma beside_ensure: "beside_funds F \<Longrightarrow> F (ensure_funds_initialized X uid db) = F db"
  by (auto simp: ensure_funds_initialized_def initialize_funds_def beside_funds_def split: option.splits)

lemma beside_attempts:
  assumes "beside_funds F"
  shows "ensure = None \<or> ensure = Some (ensure_funds_initialized X uid) \<Longrightarrow>
    F (snd (apply_attempts n X no_interference uid compute ensure db)) = F db"
proof (induction n arbitrary: db ensure)
  case (Suc n)
  define db1 where "db1 = (case ensure of Some e \<Rightarrow>
    if read_funds_snapshot X uid db = None then e db else db | None \<Rightarrow> db)"
  define ensure1 where "ensure1 = (if read_funds_snapshot X uid db = None then None else ensure)"
  have F1: "F db1 = F db"
    using Suc.prems beside_ensure [OF assms] by (auto simp: db1_def)
  have e1: "ensure1 = None \<or> ensure1 = Some (ensure_funds_initialized X uid)"
    using Suc.prems by (auto simp: ensure1_def)
  have fw: "F d' = F d" if "write_funds_if_unchanged uid snap new d = (w, d')" for snap new d w d'
    using beside_write [OF assms, of uid snap new d] that by simp
  have step: "apply_attempts (Suc n) X no_interference uid compute ensure db =
      (case read_funds_snapshot X uid db1 of
           None \<Rightarrow> ((False, Funds_not_initialized), db1)
         | Some snap \<Rightarrow>
             (case compute (snap_values snap) of (ok, msg, new) \<Rightarrow>
                if \<not> ok then ((False, msg), db1)
                else (case write_funds_if_unchanged uid snap new (no_interference n db1) of (written, db2) \<Rightarrow>
                        if written then ((True, msg), db2)
                        else apply_attempts n X no_interference uid compute ensure1 db2)))"
    by (simp only: apply_attempts.simps Let_def db1_def ensure1_def)
  show ?case
    unfolding step
    by (auto simp: F1 no_interference_def [of n] Suc.IH [OF e1] dest!: fw split: option.splits prod.splits)
qed simp

lemma beside_apply_user: "beside_funds F \<Longrightarrow> F (snd (apply_user X uid compute db)) = F db"
  by (simp add: apply_user_def apply_funds_change_def beside_attempts)

lemma beside_release_margin [simp]: "beside_funds F \<Longrightarrow> F (snd (release_margin X uid a p db)) = F db"
  by (simp add: release_margin_def stage_release_margin_def beside_apply_user)

lemma beside_block_margin [simp]: "beside_funds F \<Longrightarrow> F (snd (block_margin X uid a db)) = F db"
  by (simp add: block_margin_def beside_apply_user)

lemma beside_stage [simp]: "beside_funds F \<Longrightarrow> F (snd (stage_margin_delta X uid d db)) = F db"
  using beside_ensure [of F X uid db]
  by (auto simp: stage_margin_delta_def beside_funds_def Let_def)

lemma beside_reconcile_once:
  assumes "beside_funds F"
  shows "F (snd (reconcile_once X (no_interference k) (no_interference k) uid auto_fix db)) = F db"
proof -
  have fw: "F d' = F d" if "write_funds_if_unchanged uid snap new d = (w, d')" for snap new d w d'
    using beside_write [OF assms, of uid snap new d] that by simp
  show ?thesis
    by (auto simp: reconcile_once_def no_interference_def Let_def dest!: fw split: option.splits prod.splits)
qed

lemma beside_reconcile [simp]:
  assumes "beside_funds F"
  shows "F (snd (reconcile_margin X uid auto_fix db)) = F db"
proof -
  have "F (snd (reconcile_attempts n X no_interference no_interference uid auto_fix db)) = F db" for n
  proof (induction n arbitrary: db)
    case (Suc n)
    obtain out d where o: "reconcile_once X (no_interference n) (no_interference n) uid auto_fix db = (out, d)"
      by fastforce
    with beside_reconcile_once [OF assms, of X n uid auto_fix db] have "F d = F db" by simp
    with o Suc.IH show ?case by (simp split: option.splits)
  qed simp
  then show ?thesis by (simp add: reconcile_margin_def)
qed

subsection \<open>Netting\<close>

text \<open>The signed quantity a user holds in one symbol and product.\<close>

definition same_key :: "sandbox_position \<Rightarrow> sandbox_position \<Rightarrow> bool" where
  "same_key p p' \<longleftrightarrow> po_user p' = po_user p \<and> po_symbol p' = po_symbol p \<and>
     po_exchange p' = po_exchange p \<and> po_product p' = po_product p"

definition held :: "sandbox_order \<Rightarrow> sandbox \<Rightarrow> int" where
  "held r db = (case position_of r db of Some p \<Rightarrow> po_quantity p | None \<Rightarrow> 0)"

text \<open>Which position an order nets against does not depend on anything but the table.\<close>

lemma position_of_positions: "positions db' = positions db \<Longrightarrow> position_of r db' = position_of r db"
  by (simp add: position_of_def)

definition positions_wf :: "sandbox \<Rightarrow> bool" where
  "positions_wf db \<longleftrightarrow> distinct (map po_id (positions db))"

text \<open>A write to the row an order nets against, whatever it does to the row's other columns.\<close>

lemma position_of_write:
  assumes "positions_wf db" "position_of r db = Some p" "po_id p = pid"
    and "\<And>q. same_position r (f q) = same_position r q"
  shows "position_of r (write_position X pid f db) = Some ((f p)\<lparr>po_updated_at := db_now X\<rparr>)"
proof -
  have keep: "same_position r ((f q)\<lparr>po_updated_at := t\<rparr>) = same_position r (f q)" for q t
    by (simp add: same_position_def)
  have "find (same_position r) (positions (write_position X pid f db)) =
      map_option (\<lambda>q. if po_id q = pid then (f q)\<lparr>po_updated_at := db_now X\<rparr> else q)
        (find (same_position r) (positions db))"
    by (simp add: write_position_def find_sql_update keep assms(4))
  with assms(2,3) show ?thesis by (simp add: position_of_def)
qed

lemma same_position_read [simp]: "same_position r (read_position X p) = same_position r p"
  by (simp add: same_position_def)

lemma positions_wf_write [simp]:
  "(\<And>q. po_id (f q) = po_id q) \<Longrightarrow> positions_wf (write_position X pid f db) = positions_wf db"
  by (simp add: positions_wf_def write_position_def map_key_sql_update)

lemma positions_wf_release [simp]: "positions_wf (snd (release_margin X uid a p db)) = positions_wf db"
  by (simp add: positions_wf_def)

lemma position_of_release [simp]: "position_of r (snd (release_margin X uid a p db)) = position_of r db"
  by (rule position_of_positions) simp

lemma contract_value_pos: "(\<And>i c. symtoken db s e = Some i \<Longrightarrow> si_contract_value i = Some c \<Longrightarrow> 0 \<le> c) \<Longrightarrow>
   od_symbol r = s \<Longrightarrow> od_exchange r = e \<Longrightarrow> 0 < contract_value db r"
  by (force simp: contract_value_def less_le split: option.splits)

text \<open>The five cases, each as the row the fill leaves.\<close>

lemma new_position_row:
  "position_of r db = None \<Longrightarrow>
   \<exists>p'. position_of r (new_position X r price db) = Some p' \<and>
     po_quantity p' = signed_quantity (od_action r) (od_quantity r) \<and> po_average_price p' = price \<and>
     po_accumulated_realized_pnl p' = 0 \<and> po_today_realized_pnl p' = 0 \<and>
     po_margin_blocked p' = order_margin r"
  by (simp add: position_of_def new_position_def find_append same_position_def)

lemma reopen_position_row:
  assumes "positions_wf db" "position_of r db = Some row"
  shows "\<exists>p'. position_of r (reopen_position X r price (read_position X row) db) = Some p' \<and>
     po_quantity p' = signed_quantity (od_action r) (od_quantity r) \<and> po_average_price p' = price \<and>
     po_accumulated_realized_pnl p' = po_accumulated_realized_pnl row \<and>
     po_today_realized_pnl p' = po_today_realized_pnl row \<and> po_margin_blocked p' = order_margin r"
  using position_of_write [OF assms, of "po_id row"]
  by (simp add: reopen_position_def same_position_def)

lemma close_out_position_row:
  fixes X row r price db
  defines "p \<equiv> read_position X row"
  defines "gain \<equiv> calculate_realized_pnl (po_quantity p) (po_average_price p)
       \<bar>signed_quantity (od_action r) (od_quantity r)\<bar> price (contract_value db r)"
  assumes "positions_wf db" "position_of r db = Some row"
  shows "\<exists>p'. position_of r (close_out_position X r price p db) = Some p' \<and>
     po_quantity p' = 0 \<and> po_average_price p' = po_average_price row \<and>
     po_accumulated_realized_pnl p' = po_accumulated_realized_pnl p + gain \<and>
     po_today_realized_pnl p' = po_today_realized_pnl p + gain \<and> po_margin_blocked p' = 0"
proof -
  let ?db1 = "if 0 < po_margin_blocked p
    then snd (release_margin X (od_user r) (po_margin_blocked p) gain db) else db"
  have "positions_wf ?db1" "position_of r ?db1 = Some row" using assms by auto
  note w = position_of_write [OF this refl]
  show ?thesis
    unfolding close_out_position_def Let_def gain_def [symmetric]
    by (subst w [of _ X, folded read_position_keys(1) [of X row], folded p_def])
      (simp_all add: same_position_def p_def)
qed

lemma add_to_position_row:
  fixes X row r price db
  defines "p \<equiv> read_position X row"
  defines "new \<equiv> signed_quantity (od_action r) (od_quantity r)"
  assumes "positions_wf db" "position_of r db = Some row"
  shows "\<exists>p'. position_of r (add_to_position X r price p db) = Some p' \<and>
     po_quantity p' = po_quantity p + new \<and>
     po_average_price p' = (of_int \<bar>po_quantity p\<bar> * po_average_price p + of_int \<bar>new\<bar> * price) /
                           of_int (\<bar>po_quantity p\<bar> + \<bar>new\<bar>) \<and>
     po_accumulated_realized_pnl p' = po_accumulated_realized_pnl row \<and>
     po_today_realized_pnl p' = po_today_realized_pnl row \<and>
     po_margin_blocked p' = po_margin_blocked p + order_margin r"
  using position_of_write [OF assms(3,4), of "po_id row"]
  by (simp add: add_to_position_def p_def new_def same_position_def Let_def)

text \<open>The share of the position's margin a reducing fill asks the funds to release.\<close>

definition release_share :: "sandbox_position \<Rightarrow> sandbox_order \<Rightarrow> rat" where
  "release_share p r =
     (if po_quantity p = 0 then 0
      else po_margin_blocked p *
        (of_int (min \<bar>po_quantity p\<bar> \<bar>od_quantity r\<bar>) / of_int \<bar>po_quantity p\<bar>))"

lemma abs_signed_quantity [simp]: "\<bar>signed_quantity act q\<bar> = \<bar>q\<bar>"
  by (simp add: signed_quantity_def split: action.splits)

definition close_gain :: "sandbox \<Rightarrow> sandbox_order \<Rightarrow> rat \<Rightarrow> sandbox_position \<Rightarrow> rat" where
  "close_gain db r price p =
     calculate_realized_pnl (po_quantity p) (po_average_price p)
       (min \<bar>po_quantity p\<bar> \<bar>od_quantity r\<bar>) price (contract_value db r)"

definition release_accepted :: "ext \<Rightarrow> sandbox_order \<Rightarrow> rat \<Rightarrow> sandbox \<Rightarrow> sandbox_position \<Rightarrow> bool" where
  "release_accepted X r price db p \<longleftrightarrow>
     (release_share p r > 0 \<longrightarrow>
        fst (fst (release_margin X (od_user r) (release_share p r) (close_gain db r price p) db)))"

lemma release_share_le:
  assumes "0 \<le> po_margin_blocked p"
  shows "0 \<le> release_share p r" "release_share p r \<le> po_margin_blocked p"
proof -
  have f: "of_int (min \<bar>po_quantity p\<bar> \<bar>od_quantity r\<bar>) / of_int \<bar>po_quantity p\<bar> \<le> (1::rat)"
  proof -
    have "of_int (min \<bar>po_quantity p\<bar> \<bar>od_quantity r\<bar>) \<le> (of_int \<bar>po_quantity p\<bar> :: rat)"
      by (simp only: of_int_le_iff min.cobounded1)
    then show ?thesis by (auto simp: divide_le_eq_1)
  qed
  show "0 \<le> release_share p r" using assms by (simp add: release_share_def)
  show "release_share p r \<le> po_margin_blocked p"
    using assms mult_left_mono [OF f assms] by (simp add: release_share_def)
qed

text \<open>The row a reducing fill leaves: a refused release takes the profit away again, and the rest is
  written either way.\<close>

lemma reduce_position_leaves:
  fixes X row r price db
  defines "p \<equiv> read_position X row"
  defines "old \<equiv> po_quantity p" and "new \<equiv> signed_quantity (od_action r) (od_quantity r)"
  assumes "positions_wf db" "position_of r db = Some row"
    and "old \<noteq> 0" "0 < old \<longleftrightarrow> new < 0" "0 < od_quantity r"
  shows "\<exists>p'. position_of r (reduce_position X r price p db) = Some p' \<and>
     po_quantity p' = old + new \<and>
     po_average_price p' = (if \<bar>new\<bar> > \<bar>old\<bar> then price else po_average_price row) \<and>
     po_accumulated_realized_pnl p' =
       (if release_accepted X r price db p then po_accumulated_realized_pnl p + close_gain db r price p
        else po_accumulated_realized_pnl row) \<and>
     po_today_realized_pnl p' =
       (if release_accepted X r price db p then po_today_realized_pnl p + close_gain db r price p
        else po_today_realized_pnl row) \<and>
     po_margin_blocked p' =
       (if \<bar>new\<bar> > \<bar>old\<bar> then order_margin r * (of_int (\<bar>new\<bar> - \<bar>old\<bar>) / of_int \<bar>new\<bar>)
        else po_margin_blocked p - release_share p r)"
proof -
  let ?with = "\<lambda>q. q\<lparr>po_accumulated_realized_pnl := po_accumulated_realized_pnl p + close_gain db r price p,
    po_today_realized_pnl := po_today_realized_pnl p + close_gain db r price p\<rparr>"
  let ?acc = "release_accepted X r price db p"
  let ?rel = "release_margin X (od_user r) (release_share p r) (close_gain db r price p) db"
  let ?base = "if release_share p r > 0 then snd ?rel else db"
  let ?db2 = "if ?acc then write_position X (po_id p) ?with ?base else ?base"
  let ?row2 = "if ?acc then (?with row)\<lparr>po_updated_at := db_now X\<rparr> else row"
  let ?last = "\<lambda>q. (if \<bar>new\<bar> > \<bar>old\<bar> then
      (let remaining = \<bar>new\<bar> - \<bar>old\<bar> in
       q\<lparr>po_quantity := signed_quantity (od_action r) remaining, po_average_price := price,
         po_margin_blocked := order_margin r * (of_int remaining / of_int \<bar>new\<bar>)\<rparr>)
      else q\<lparr>po_quantity := old + new,
             po_margin_blocked := po_margin_blocked p - release_share p r\<rparr>)\<lparr>po_ltp := Some price\<rparr>"
  have share: "(if \<bar>po_quantity p\<bar> > 0 then po_margin_blocked p *
      (of_int (min \<bar>po_quantity p\<bar> \<bar>od_quantity r\<bar>) / of_int \<bar>po_quantity p\<bar>) else 0)
      = release_share p r"
    by (simp add: release_share_def)
  obtain ok msg db1 where rel: "?rel = ((ok, msg), db1)" by (metis surj_pair)
  have red: "reduce_position X r price p db = write_position X (po_id p) ?last ?db2"
    unfolding reduce_position_def Let_def abs_signed_quantity close_gain_def [symmetric] share
      old_def new_def by (simp add: release_accepted_def rel)
  have id: "po_id row = po_id p" by (simp add: p_def)
  have keep: "same_position r (?with q) = same_position r q"
    "same_position r (?last q) = same_position r q" "po_id (?with q) = po_id q" for q
    by (simp_all add: same_position_def Let_def)
  have base: "positions_wf ?base" "position_of r ?base = Some row" using assms(4,5) by simp_all
  have q: "position_of r ?db2 = Some ?row2"
    using position_of_write [where f = ?with, OF base id keep(1)] base(2) by simp
  have wf: "positions_wf ?db2" using base(1) keep(3) by simp
  have res: "position_of r (reduce_position X r price p db) =
      Some ((?last ?row2)\<lparr>po_updated_at := db_now X\<rparr>)"
    unfolding red by (rule position_of_write [OF wf q]) (simp_all add: id keep)
  have sq: "\<bar>new\<bar> > \<bar>old\<bar> \<Longrightarrow> signed_quantity (od_action r) (\<bar>new\<bar> - \<bar>old\<bar>) = old + new"
    using assms(6-8) by (auto simp: new_def signed_quantity_def split: action.splits)
  show ?thesis
    using sq by (simp add: res Let_def)
qed

lemma reduce_position_row:
  fixes X row r price db
  defines "p \<equiv> read_position X row"
  defines "old \<equiv> po_quantity p" and "new \<equiv> signed_quantity (od_action r) (od_quantity r)"
  assumes "positions_wf db" "position_of r db = Some row" "release_accepted X r price db p"
    and "old \<noteq> 0" "0 < old \<longleftrightarrow> new < 0" "0 < od_quantity r"
  shows "\<exists>p'. position_of r (reduce_position X r price p db) = Some p' \<and>
     po_quantity p' = old + new \<and>
     po_average_price p' = (if \<bar>new\<bar> > \<bar>old\<bar> then price else po_average_price row) \<and>
     po_accumulated_realized_pnl p' = po_accumulated_realized_pnl p + close_gain db r price p \<and>
     po_today_realized_pnl p' = po_today_realized_pnl p + close_gain db r price p \<and>
     po_margin_blocked p' =
       (if \<bar>new\<bar> > \<bar>old\<bar> then order_margin r * (of_int (\<bar>new\<bar> - \<bar>old\<bar>) / of_int \<bar>new\<bar>)
        else po_margin_blocked p - release_share p r)"
  using reduce_position_leaves [OF assms(4,5), of X, folded p_def old_def new_def, OF assms(7-9), of price]
    assms(6) by simp

text \<open>
  The money value of a position's book: what it has realised less the cost of what it still
  holds, read as the engine reads the row.  It is the average-cost account a fill has to preserve.
\<close>

definition book_value :: "rat \<Rightarrow> sandbox_position \<Rightarrow> rat" where
  "book_value cv p =
     po_accumulated_realized_pnl p - of_int (po_quantity p) * po_average_price p * cv"

definition value_of_book :: "ext \<Rightarrow> sandbox_order \<Rightarrow> sandbox \<Rightarrow> rat" where
  "value_of_book X r db =
     (case position_of r db of Some row \<Rightarrow> book_value (contract_value db r) (read_position X row) | None \<Rightarrow> 0)"

definition reducing :: "sandbox_order \<Rightarrow> sandbox_position \<Rightarrow> bool" where
  "reducing r p \<longleftrightarrow>
     po_quantity p \<noteq> 0 \<and> po_quantity p + signed_quantity (od_action r) (od_quantity r) \<noteq> 0 \<and>
     (0 < po_quantity p \<longleftrightarrow> signed_quantity (od_action r) (od_quantity r) < 0)"

text \<open>A release that a reducing fill asks for is granted; no other fill depends on one.\<close>

definition fill_accepted :: "ext \<Rightarrow> sandbox_order \<Rightarrow> rat \<Rightarrow> sandbox \<Rightarrow> bool" where
  "fill_accepted X r price db \<longleftrightarrow>
     (\<forall>row. position_of r db = Some row \<longrightarrow> reducing r (read_position X row) \<longrightarrow>
        release_accepted X r price db (read_position X row))"

text \<open>The profit a reducing fill does not book: all of it, when the funds refuse its release.\<close>

definition lost_gain :: "ext \<Rightarrow> sandbox_order \<Rightarrow> rat \<Rightarrow> sandbox \<Rightarrow> rat" where
  "lost_gain X r price db =
     (case position_of r db of
        None \<Rightarrow> 0
      | Some row \<Rightarrow>
          (let p = read_position X row in
           if reducing r p \<and> \<not> release_accepted X r price db p then close_gain db r price p else 0))"

text \<open>The row a fill nets against has two money columns that hold what was written exactly.\<close>

definition row_on_grid :: "sandbox_order \<Rightarrow> sandbox \<Rightarrow> bool" where
  "row_on_grid r db \<longleftrightarrow>
     (\<forall>row. position_of r db = Some row \<longrightarrow>
        on_grid 2 (po_accumulated_realized_pnl row) \<and> on_grid 2 (po_average_price row))"

lemma lost_gain_accepted: "fill_accepted X r price db \<Longrightarrow> lost_gain X r price db = 0"
  by (auto simp: lost_gain_def fill_accepted_def Let_def split: option.splits)

text \<open>Which case a fill is.\<close>

lemma net_position_cases:
  assumes "0 < od_quantity r"
  obtains
    "position_of r db = None" "net_position X r price db = new_position X r price db"
  | row where "position_of r db = Some row" "po_quantity row = 0"
    "net_position X r price db = reopen_position X r price (read_position X row) db"
  | row where "position_of r db = Some row" "po_quantity row \<noteq> 0"
    "po_quantity row + signed_quantity (od_action r) (od_quantity r) = 0"
    "net_position X r price db = close_out_position X r price (read_position X row) db"
  | row where "position_of r db = Some row" "po_quantity row \<noteq> 0"
    "0 < po_quantity row \<longleftrightarrow> 0 < signed_quantity (od_action r) (od_quantity r)"
    "net_position X r price db = add_to_position X r price (read_position X row) db"
  | row where "position_of r db = Some row" "reducing r (read_position X row)"
    "net_position X r price db = reduce_position X r price (read_position X row) db"
proof (cases "position_of r db")
  case None
  then show ?thesis using that(1) by (simp add: net_position_def)
next
  case (Some row)
  let ?new = "signed_quantity (od_action r) (od_quantity r)"
  have new: "?new \<noteq> 0" using assms by (simp add: signed_quantity_def split: action.splits)
  consider "po_quantity row = 0" | "po_quantity row \<noteq> 0" "po_quantity row + ?new = 0"
    | "po_quantity row \<noteq> 0" "po_quantity row + ?new \<noteq> 0" "0 < po_quantity row \<longleftrightarrow> 0 < ?new"
    | "po_quantity row \<noteq> 0" "po_quantity row + ?new \<noteq> 0" "0 < po_quantity row \<longleftrightarrow> ?new < 0"
    using new by linarith
  then show ?thesis
  proof cases
    case 1
    then show ?thesis using that(2) [OF Some] by (simp add: net_position_def Some)
  next
    case 2
    then show ?thesis using that(3) [OF Some] by (simp add: net_position_def Some)
  next
    case 3
    then show ?thesis using that(4) [OF Some] new by (auto simp: net_position_def Some)
  next
    case 4
    then show ?thesis using that(5) [OF Some] new by (auto simp: net_position_def Some reducing_def)
  qed
qed

lemma net_position_held:
  assumes "positions_wf db" "0 < od_quantity r" "fill_accepted X r price db"
  shows "held r (net_position X r price db) = held r db + signed_quantity (od_action r) (od_quantity r)"
  using assms(2)
proof (cases rule: net_position_cases [where X = X and r = r and db = db and price = price])
  case 1
  then show ?thesis using new_position_row [OF 1(1), of X price] by (auto simp: held_def)
next
  case (2 row)
  then show ?thesis using reopen_position_row [OF assms(1) 2(1), of X price] by (auto simp: held_def)
next
  case (3 row)
  then show ?thesis using close_out_position_row [OF assms(1) 3(1), of X price] by (auto simp: held_def)
next
  case (4 row)
  then show ?thesis using add_to_position_row [OF assms(1) 4(1), of X price] by (auto simp: held_def)
next
  case (5 row)
  with assms(3) have "release_accepted X r price db (read_position X row)"
    by (simp add: fill_accepted_def)
  with 5 show ?thesis
    using reduce_position_row [OF assms(1) 5(1), of X price] assms(2)
    by (auto simp: held_def reducing_def)
qed

text \<open>Netting writes positions and funds only.\<close>

definition beside_positions :: "(sandbox \<Rightarrow> 'v) \<Rightarrow> bool" where
  "beside_positions F \<longleftrightarrow> beside_funds F \<and> (\<forall>ps db. F (db\<lparr>positions := ps\<rparr>) = F db)"

lemma beside_positions_tables [simp, intro]:
  "beside_positions orders" "beside_positions trades" "beside_positions holdings"
  "beside_positions gtts" "beside_positions gtt_legs" "beside_positions config"
  "beside_positions symtoken" "beside_positions events" "beside_positions last_order_day"
  "beside_positions last_order_seq"
  by (simp_all add: beside_positions_def)

lemma beside_write_position: "beside_positions F \<Longrightarrow> F (write_position X pid f db) = F db"
  by (simp add: beside_positions_def write_position_def)

lemma beside_net_position [simp]:
  assumes "beside_positions F"
  shows "F (net_position X r price db) = F db"
proof -
  have F: "beside_funds F" "\<And>ps d. F (d\<lparr>positions := ps\<rparr>) = F d"
    using assms unfolding beside_positions_def by blast+
  have rel: "F d' = F d" if "release_margin X uid a g d = (res, d')" for uid a g d res d'
    using beside_release_margin [OF F(1), of X uid a g d] that by simp
  have "F (reduce_position X r price p db) = F db" for p
    unfolding reduce_position_def Let_def
    by (auto simp: beside_write_position [OF assms] dest!: rel split: prod.splits)
  then show ?thesis
    by (auto simp: net_position_def new_position_def reopen_position_def close_out_position_def
        add_to_position_def beside_write_position [OF assms] F Let_def split: option.splits)
qed

lemma beside_update_position:
  assumes "beside_positions F" "update_position X r price db = Some db'"
  shows "F db' = F db"
proof -
  have "beside_funds F" using assms(1) by (simp add: beside_positions_def)
  then show ?thesis
    using assms by (auto simp: update_position_def Let_def split: if_splits)
qed

lemma update_position_positions:
  "update_position X r price db = Some db' \<Longrightarrow> positions db' = positions (net_position X r price db)"
  by (auto simp: update_position_def Let_def split: if_splits)

lemma book_value_split:
  "po_accumulated_realized_pnl p' = a \<Longrightarrow> po_quantity p' = q \<Longrightarrow> po_average_price p' = v \<Longrightarrow>
   book_value cv p' = a - of_int q * v * cv"
  by (simp add: book_value_def)

lemma weighted_total:
  fixes q n :: int and a b :: rat
  assumes "q \<noteq> 0" "0 < q \<longleftrightarrow> 0 < n" "n \<noteq> 0"
  shows "of_int (q + n) * ((of_int \<bar>q\<bar> * a + of_int \<bar>n\<bar> * b) / of_int (\<bar>q\<bar> + \<bar>n\<bar>)) =
         of_int q * a + of_int n * b"
proof -
  have d: "(of_int (\<bar>q\<bar> + \<bar>n\<bar>) :: rat) \<noteq> 0"
    using assms by (simp only: of_int_eq_0_iff)
  consider "0 < q" "0 < n" | "q < 0" "n < 0" using assms by linarith
  then show ?thesis
    using d by cases (simp_all add: divide_eq_eq algebra_simps)
qed

lemma reduced_value:
  fixes q n :: int and a b cv :: rat
  assumes "q \<noteq> 0" "0 < q \<longleftrightarrow> n < 0" "n \<noteq> 0"
  shows "(if 0 < q then b - a else a - b) * of_int (min \<bar>q\<bar> \<bar>n\<bar>) * cv -
         of_int (q + n) * (if \<bar>n\<bar> > \<bar>q\<bar> then b else a) * cv =
         - (of_int q * a * cv) - of_int n * b * cv"
proof -
  consider "0 < q" "n < 0" "\<bar>n\<bar> > \<bar>q\<bar>" | "0 < q" "n < 0" "\<bar>n\<bar> \<le> \<bar>q\<bar>"
    | "q < 0" "0 < n" "\<bar>n\<bar> > \<bar>q\<bar>" | "q < 0" "0 < n" "\<bar>n\<bar> \<le> \<bar>q\<bar>"
    using assms by linarith
  then show ?thesis
    by cases (simp_all add: min_def algebra_simps)
qed

text \<open>A stored column stands for a value: it is the value, or it is what was read when the value was.\<close>

definition stands_for :: "ext \<Rightarrow> rat \<Rightarrow> rat \<Rightarrow> bool" where
  "stands_for X x y \<longleftrightarrow> x = y \<or> x_read X 2 x = y"

lemma stands_for_id [simp]: "stands_for X y y" "stands_for X y (x_read X 2 y)"
  by (simp_all add: stands_for_def)

lemma read_error:
  assumes "decimal_columns (x_read X)" "stands_for X x y"
  shows "\<bar>x_read X 2 x - y\<bar> \<le> 1 / 100" and "on_grid 2 x \<Longrightarrow> x_read X 2 x = y"
proof -
  show "\<bar>x_read X 2 x - y\<bar> \<le> 1 / 100"
    using assms(2) decimal_columns.rd_near [OF assms(1), of 2 x] by (auto simp: stands_for_def)
  show "x_read X 2 x = y" if "on_grid 2 x"
    using assms(2) decimal_columns.rd_id [OF assms(1) that] by (auto simp: stands_for_def)
qed

text \<open>The row netting leaves, on every branch: its quantity, and columns that stand for a realised
  profit and an average whose book differs from the old one by the cash of the trade.\<close>

lemma net_position_row:
  fixes X r price db
  defines "q \<equiv> held r db + signed_quantity (od_action r) (od_quantity r)"
    and "cv \<equiv> contract_value db r"
  assumes "positions_wf db" "0 < od_quantity r" "decimal_columns (x_read X)"
  shows "\<exists>p' a v. position_of r (net_position X r price db) = Some p' \<and> po_quantity p' = q \<and>
    stands_for X (po_accumulated_realized_pnl p') a \<and> stands_for X (po_average_price p') v \<and>
    a - of_int q * v * cv = value_of_book X r db -
      of_int (signed_quantity (od_action r) (od_quantity r)) * price * cv - lost_gain X r price db"
proof -
  let ?new = "signed_quantity (od_action r) (od_quantity r)"
  let ?rd = "x_read X 2"
  have new0: "?new \<noteq> 0" using assms(4) by (simp add: signed_quantity_def split: action.splits)
  from assms(4) show ?thesis
  proof (cases rule: net_position_cases [where X = X and r = r and db = db and price = price])
    case 1
    then show ?thesis
      using new_position_row [OF 1(1), of X price]
      by (intro exI [of _ "the (position_of r (net_position X r price db))"] exI [of _ 0]
          exI [of _ price]) (auto simp: q_def held_def value_of_book_def lost_gain_def)
  next
    case (2 row)
    have old: "value_of_book X r db = ?rd (po_accumulated_realized_pnl row)"
      "lost_gain X r price db = 0" "q = ?new"
      using 2(1,2) by (simp_all add: value_of_book_def book_value_def lost_gain_def reducing_def q_def held_def)
    show ?thesis
      using reopen_position_row [OF assms(3) 2(1), of X price] 2(3)
      by (intro exI [of _ "the (position_of r (net_position X r price db))"] exI [of _ price]
          exI [of _ "?rd (po_accumulated_realized_pnl row)"]) (auto simp: old)
  next
    case (3 row)
    let ?a = "?rd (po_accumulated_realized_pnl row)" and ?v = "?rd (po_average_price row)"
    have old: "value_of_book X r db = ?a - of_int (po_quantity row) * ?v * cv"
      "lost_gain X r price db = 0" "q = 0" and new: "?new = - po_quantity row"
      using 3(1-3) by (simp_all add: value_of_book_def book_value_def lost_gain_def reducing_def q_def
          held_def cv_def)
    have sum: "?a + calculate_realized_pnl (po_quantity row) ?v \<bar>?new\<bar> price cv =
        value_of_book X r db - of_int ?new * price * cv"
      using 3(2) unfolding old new by (auto simp: calculate_realized_pnl_def algebra_simps)
    show ?thesis
      using close_out_position_row [OF assms(3) 3(1), of X price] 3(4) sum
      by (intro exI [of _ "the (position_of r (net_position X r price db))"] exI [of _ ?v]
          exI [of _ "?a + calculate_realized_pnl (po_quantity row) ?v \<bar>?new\<bar> price cv"])
        (auto simp: old(2,3) cv_def)
  next
    case (4 row)
    let ?a = "?rd (po_accumulated_realized_pnl row)" and ?v = "?rd (po_average_price row)"
    have old: "value_of_book X r db = ?a - of_int (po_quantity row) * ?v * cv"
      "lost_gain X r price db = 0" "q = po_quantity row + ?new"
      using 4(1-3) new0 by (auto simp: value_of_book_def book_value_def lost_gain_def reducing_def q_def
          held_def cv_def)
    let ?avg = "(of_int \<bar>po_quantity row\<bar> * ?v + of_int \<bar>?new\<bar> * price) /
      of_int (\<bar>po_quantity row\<bar> + \<bar>?new\<bar>)"
    have "?a - of_int q * ?avg * cv = value_of_book X r db - of_int ?new * price * cv"
      unfolding old weighted_total [OF 4(2,3) new0] by (simp add: algebra_simps)
    then show ?thesis
      using add_to_position_row [OF assms(3) 4(1), of X price] 4(4) old(2,3)
      by (intro exI [of _ "the (position_of r (net_position X r price db))"] exI [of _ ?a] exI [of _ ?avg])
        auto
  next
    case (5 row)
    let ?p = "read_position X row"
    let ?a = "?rd (po_accumulated_realized_pnl row)" and ?v = "?rd (po_average_price row)"
    have side: "po_quantity ?p \<noteq> 0" "0 < po_quantity ?p \<longleftrightarrow> ?new < 0"
      using 5(2) by (simp_all add: reducing_def)
    have old: "value_of_book X r db = ?a - of_int (po_quantity row) * ?v * cv"
      "lost_gain X r price db = (if release_accepted X r price db ?p then 0 else close_gain db r price ?p)"
      "q = po_quantity row + ?new"
      using 5(1,2) by (simp_all add: value_of_book_def book_value_def lost_gain_def q_def held_def cv_def)
    have qn: "\<bar>od_quantity r\<bar> = \<bar>?new\<bar>" by simp
    have gain: "close_gain db r price ?p = (if 0 < po_quantity row then price - ?v else ?v - price) *
          of_int (min \<bar>po_quantity row\<bar> \<bar>?new\<bar>) * cv"
      unfolding close_gain_def qn by (simp add: calculate_realized_pnl_def cv_def)
    let ?avg = "if \<bar>?new\<bar> > \<bar>po_quantity row\<bar> then price else ?v"
    have sum: "?a + close_gain db r price ?p - of_int q * ?avg * cv =
        value_of_book X r db - of_int ?new * price * cv"
      unfolding gain old(1,3)
      using reduced_value [of "po_quantity row" ?new price ?v cv] side new0 by simp
    show ?thesis
      using reduce_position_leaves [OF assms(3) 5(1) side assms(4), of price] 5(3) sum old(2,3)
      by (intro exI [of _ "the (position_of r (net_position X r price db))"] exI [of _ ?avg]
          exI [of _ "if release_accepted X r price db ?p then ?a + close_gain db r price ?p else ?a"])
        auto
  qed
qed

text \<open>Read back, the book is that value up to the rounding of the two columns.\<close>

lemma net_position_book:
  assumes "positions_wf db" "0 < od_quantity r" "decimal_columns (x_read X)"
  shows "\<exists>e. value_of_book X r (net_position X r price db) = value_of_book X r db -
      of_int (signed_quantity (od_action r) (od_quantity r)) * price * contract_value db r -
      lost_gain X r price db + e \<and>
    \<bar>e\<bar> \<le> (1 + of_int \<bar>held r db + signed_quantity (od_action r) (od_quantity r)\<bar> *
      \<bar>contract_value db r\<bar>) / 100 \<and>
    (row_on_grid r (net_position X r price db) \<longrightarrow> e = 0)"
proof -
  let ?cv = "contract_value db r"
  let ?q = "held r db + signed_quantity (od_action r) (od_quantity r)"
  obtain p' a v where p': "position_of r (net_position X r price db) = Some p'" "po_quantity p' = ?q"
      "stands_for X (po_accumulated_realized_pnl p') a" "stands_for X (po_average_price p') v"
    and sum: "a - of_int ?q * v * ?cv = value_of_book X r db -
      of_int (signed_quantity (od_action r) (od_quantity r)) * price * ?cv - lost_gain X r price db"
    using net_position_row [OF assms, of price] by blast
  let ?ea = "x_read X 2 (po_accumulated_realized_pnl p') - a" and ?ev = "x_read X 2 (po_average_price p') - v"
  let ?e = "?ea - of_int ?q * ?cv * ?ev"
  have "value_of_book X r (net_position X r price db) = a - of_int ?q * v * ?cv + ?e"
    using p'(1,2) by (simp add: value_of_book_def book_value_def contract_value_def algebra_simps)
  moreover have "\<bar>?e\<bar> \<le> (1 + of_int \<bar>?q\<bar> * \<bar>?cv\<bar>) / 100"
  proof -
    have "\<bar>of_int ?q * ?cv * ?ev\<bar> \<le> \<bar>of_int ?q * ?cv\<bar> * (1 / 100)"
      unfolding abs_mult [of "of_int ?q * ?cv" ?ev]
      using read_error(1) [OF assms(3) p'(4)] by (intro mult_left_mono) simp_all
    with read_error(1) [OF assms(3) p'(3)] show ?thesis
      using abs_triangle_ineq4 [of ?ea "of_int ?q * ?cv * ?ev"]
      by (simp add: abs_mult add_divide_distrib)
  qed
  moreover have "?e = 0" if "row_on_grid r (net_position X r price db)"
    using that p'(1) read_error(2) [OF assms(3) p'(3)] read_error(2) [OF assms(3) p'(4)]
    by (simp add: row_on_grid_def)
  ultimately show ?thesis
    unfolding sum by (intro exI [of _ ?e]) simp
qed

subsection \<open>A fill touches one position only\<close>

definition other_positions :: "sandbox_order \<Rightarrow> sandbox \<Rightarrow> sandbox_position list" where
  "other_positions r db = filter (\<lambda>p. \<not> same_position r p) (positions db)"

lemma other_positions_write:
  assumes "positions_wf db" "position_of r db = Some row" "po_id row = pid"
    and "\<And>q. same_position r (f q) = same_position r q"
  shows "other_positions r (write_position X pid f db) = other_positions r db"
proof -
  have row: "row \<in> set (positions db)" "same_position r row"
    using assms(2) by (auto simp: position_of_def dest!: find_SomeD)
  have only: "p = row" if "p \<in> set (positions db)" "po_id p = pid" for p
    using assms(1,3) row(1) that by (auto simp: positions_wf_def distinct_map inj_on_def)
  have "filter (\<lambda>p. \<not> same_position r p) (sql_update (\<lambda>p. po_id p = pid) g ps) =
        filter (\<lambda>p. \<not> same_position r p) ps"
    if "set ps \<subseteq> set (positions db)" "\<And>q. same_position r (g q) = same_position r q" for ps g
    using that(1)
    by (induction ps) (use only row(2) that(2) in \<open>auto simp: sql_update_Cons\<close>)
  moreover have "same_position r ((f q)\<lparr>po_updated_at := t\<rparr>) = same_position r q" for q t
    using assms(4) [of q] by (simp add: same_position_def)
  ultimately show ?thesis by (simp add: other_positions_def write_position_def)
qed

lemma other_positions_release [simp]:
  "other_positions r (snd (release_margin X uid a p db)) = other_positions r db"
  by (simp add: other_positions_def)

lemma other_positions_net:
  assumes "positions_wf db" "0 < od_quantity r"
  shows "other_positions r (net_position X r price db) = other_positions r db"
  using assms(2)
proof (cases rule: net_position_cases [where X = X and r = r and db = db and price = price])
  case 1
  then show ?thesis by (simp add: other_positions_def new_position_def same_position_def)
next
  case (2 row)
  then show ?thesis
    by (simp add: reopen_position_def other_positions_write [OF assms(1) 2(1)] same_position_def)
next
  case (3 row)
  define db1 where "db1 g = (if 0 < po_margin_blocked (read_position X row)
    then snd (release_margin X (od_user r) (po_margin_blocked (read_position X row)) g db) else db)" for g
  have ok: "positions_wf (db1 g)" "position_of r (db1 g) = Some row"
    and beside: "other_positions r (db1 g) = other_positions r db" for g
    using assms(1) 3(1) by (auto simp: db1_def)
  note w = other_positions_write [OF ok]
  show ?thesis
    unfolding 3(4) close_out_position_def Let_def db1_def [symmetric]
    by (subst w) (simp_all add: same_position_def beside)
next
  case (4 row)
  then show ?thesis
    by (simp add: add_to_position_def other_positions_write [OF assms(1) 4(1)] same_position_def Let_def)
next
  case (5 row)
  define good where "good d \<longleftrightarrow> positions_wf d \<and> (\<exists>q. position_of r d = Some q \<and> po_id q = po_id row)
    \<and> other_positions r d = other_positions r db" for d
  have start: "good db" using assms(1) 5(1) by (simp add: good_def)
  have rel: "good d'" if "release_margin X (od_user r) a g d = (res, d')" "good d" for a g d res d'
  proof -
    have "d' = snd (release_margin X (od_user r) a g d)" using that(1) by simp
    with that(2) show ?thesis by (simp add: good_def)
  qed
  have wr: "good (write_position X (po_id row) f d)"
    if "good d" "\<And>q. same_position r (f q) = same_position r q" "\<And>q. po_id (f q) = po_id q" for f d
    using that by (fastforce simp: good_def position_of_write other_positions_write)
  have "good (reduce_position X r price (read_position X row) db)"
    unfolding reduce_position_def Let_def read_position_keys(1)
    by (rule wr)
      (auto simp: same_position_def intro!: wr start dest: rel split: prod.splits)
  then show ?thesis by (simp add: 5(3) good_def)
qed

end
