(* ===== verification/Fills.thy ===== *)
theory Fills
  imports ExecutionLaws
begin

text \<open>
  What a fill promises: the netting of the position and its money, the fill of an order that is
  no longer resting, the price a fill may take, and what one polling cycle achieves.
\<close>

subsection \<open>The position and the funds\<close>

lemma update_position_net:
  assumes "update_position X r price db = Some db'"
  shows "held r db' = held r (net_position X r price db)"
    and "other_positions r db' = other_positions r (net_position X r price db)"
    and "value_of_book X r db' = value_of_book X r (net_position X r price db)"
    and "row_on_grid r db' = row_on_grid r (net_position X r price db)"
proof -
  have p: "positions db' = positions (net_position X r price db)"
    using update_position_positions [OF assms] .
  have s: "symtoken db' = symtoken (net_position X r price db)"
    using beside_update_position [OF _ assms, of symtoken] by simp
  show "held r db' = held r (net_position X r price db)"
    "other_positions r db' = other_positions r (net_position X r price db)"
    "value_of_book X r db' = value_of_book X r (net_position X r price db)"
    "row_on_grid r db' = row_on_grid r (net_position X r price db)"
    using p s by (simp_all add: held_def position_of_def other_positions_def value_of_book_def
        row_on_grid_def contract_value_def cong: option.case_cong)
qed

text \<open>Whatever the position before a fill (none, closed, the same side, the other side, smaller or
  larger than the fill), after it the user holds exactly the signed quantity more, every other
  position is as it was, and so are orders, trades and GTTs.\<close>

theorem fill_nets_position:
  assumes "positions_wf db" and "0 < od_quantity r" and "fill_accepted X r price db"
    and "update_position X r price db = Some db'"
  shows "held r db' = held r db + signed_quantity (od_action r) (od_quantity r) \<and>
         other_positions r db' = other_positions r db \<and>
         orders db' = orders db \<and> trades db' = trades db \<and> gtts db' = gtts db"
  using net_position_held [OF assms(1-3)] other_positions_net [OF assms(1,2), of X price]
    update_position_net [OF assms(4)] beside_update_position [OF _ assms(4), of orders]
    beside_update_position [OF _ assms(4), of trades] beside_update_position [OF _ assms(4), of gtts]
  by simp

lemma release_margin_row:
  assumes "funds_ready uid db"
  shows "release_margin X uid a g db =
    (let V = read_funds X uid db in
     if a < 0 then ((False, Release_negative a), db)
     else if a > used_margin V then ((False, Release_exceeds a (used_margin V)), db)
     else ((True, Margin_released a g),
           set_money uid (fold col_set (changed_values V (released V a g True)) (stored_money uid db)) db))"
  using run_funds_op_row [OF assms, of "Op_release a g True" X]
  by (simp add: release_margin_def read_funds_def release_compute_def Let_def)

lemma release_margin_accepted:
  assumes "funds_ready uid db"
  shows "fst (fst (release_margin X uid a g db)) \<longleftrightarrow> 0 \<le> a \<and> a \<le> used_margin (read_funds X uid db)"
  by (simp add: release_margin_row [OF assms] Let_def)

lemma fill_acceptedI:
  assumes "funds_ready (od_user r) db" "decimal_columns (x_read X)"
    and "\<And>row. position_of r db = Some row \<Longrightarrow>
      0 \<le> po_margin_blocked row \<and> x_read X 2 (po_margin_blocked row) \<le> used_margin (read_funds X (od_user r) db)"
  shows "fill_accepted X r price db"
proof -
  have "release_accepted X r price db (read_position X row)" if row: "position_of r db = Some row" for row
  proof -
    have m: "0 \<le> po_margin_blocked (read_position X row)"
      using assms(3) [OF row] decimal_columns.rd_nonneg [OF assms(2)] by simp
    show ?thesis
      using release_share_le [OF m, of r] assms(3) [OF row]
      by (simp add: release_accepted_def release_margin_accepted [OF assms(1)])
  qed
  then show ?thesis by (simp add: fill_accepted_def)
qed

subsection \<open>The sample market\<close>

lemma sample_order_simps [simp]:
  "od_id sample_order = 1" "od_orderid sample_order = (0, 1)" "od_user sample_order = ''u''"
  "od_symbol sample_order = ''S''" "od_exchange sample_order = ''NSE''"
  "od_action sample_order = SELL" "od_quantity sample_order = 4" "od_price sample_order = Some 120"
  "od_price_type sample_order = LIMIT" "od_product sample_order = MIS" "od_status sample_order = Open"
  "od_trigger_price sample_order = None" "od_margin_blocked sample_order = None"
  by (simp_all add: sample_order_def)

lemma sample_position_simps [simp]:
  "po_id sample_position = 3" "po_quantity sample_position = 10"
  "po_average_price sample_position = 100" "po_margin_blocked sample_position = 100"
  "po_accumulated_realized_pnl sample_position = 0" "po_today_realized_pnl sample_position = 0"
  by (simp_all add: sample_position_def)

lemma sample_market_simps:
  "orders sample_market = [sample_order]" "positions sample_market = [sample_position]"
  "funds_rows sample_market = [sample_funds]" "trades sample_market = []" "gtts sample_market = []"
  "symtoken sample_market = symtoken sample_db"
  by (simp_all add: sample_market_def sample_db_def)

lemma sample_market_ready: "funds_ready ''u'' sample_market"
  by (simp add: funds_ready_def funds_wf_def funds_of_def sample_market_simps sample_funds_def)

lemma sample_market_wf: "positions_wf sample_market"
  by (simp add: positions_wf_def sample_market_simps)

lemma sample_market_funds: "read_funds sample_ext ''u'' sample_market = sample_money"
  by (simp add: read_funds_def stored_money_def funds_of_def sample_market_simps sample_funds_def
      read_grid_money [OF sample_columns sample_grid])

lemma sample_market_position: "position_of sample_order sample_market = Some sample_position"
  by (simp add: position_of_def sample_market_simps same_position_def sample_order_def sample_position_def)

lemma sample_read: "x_read sample_ext 2 (numeral n) = numeral n"
  using rounded.rd_id [of 2 "numeral n"] by (simp add: sample_ext_def)

lemma sample_market_accepted: "fill_accepted sample_ext sample_order price sample_market"
proof (rule fill_acceptedI [OF _ sample_columns])
  show "funds_ready (od_user sample_order) sample_market"
    using sample_market_ready by (simp add: sample_order_def)
next
  fix row
  assume "position_of sample_order sample_market = Some row"
  then have "row = sample_position" by (simp add: sample_market_position)
  then show "0 \<le> po_margin_blocked row \<and> x_read sample_ext 2 (po_margin_blocked row) \<le>
      used_margin (read_funds sample_ext (od_user sample_order) sample_market)"
    using sample_market_funds sample_read [of "Num.num.Bit0 (Num.num.Bit0 (num.Bit1 (num.Bit0 (num.Bit0 (num.Bit1 num.One)))))"]
    by (simp add: sample_position_def sample_order_def sample_money_def)
qed

lemma sample_update:
  obtains db' where "update_position sample_ext sample_order 120 sample_market = Some db'"
  by (simp add: update_position_def sample_ext_def Let_def)

theorem fill_nets_position_witness:
  "\<exists>db'. update_position sample_ext sample_order 120 sample_market = Some db' \<and> held sample_order db' = 6"
proof -
  obtain db' where u: "update_position sample_ext sample_order 120 sample_market = Some db'"
    by (rule sample_update)
  have "held sample_order sample_market = 10"
    by (simp add: held_def sample_market_position sample_position_def)
  then have "held sample_order db' = 6"
    using fill_nets_position [OF sample_market_wf _ sample_market_accepted u]
    by (simp add: signed_quantity_def)
  with u show ?thesis by blast
qed

text \<open>A netted fill moves the holding by the signed quantity, accepted or not.\<close>

lemma net_position_held_always:
  assumes "positions_wf db" "0 < od_quantity r" "decimal_columns (x_read X)"
  shows "held r (net_position X r price db) = held r db + signed_quantity (od_action r) (od_quantity r)"
  using net_position_row [OF assms, of price] by (auto simp: held_def)

text \<open>C1: a fill conserves the money of the position's book on every branch: realised profit less the
  cost of the open quantity, as the engine reads the row before and after, changes by exactly the
  cash of the trade, so averaging, closing, reducing and reversing neither create nor lose profit.
  Two exceptions are in the statement. When a fill reduces or reverses a position and the funds
  refuse the release of its margin, the session is rolled back and exactly the profit of the
  closed part is lost. And a column that does not hold two decimals is rounded when it is read, so
  the book may be off by one hundredth on the profit and on the price of each unit held; it is
  exact whenever the row left has two decimals.\<close>

theorem fill_conserves_book_value:
  assumes "positions_wf db" and "0 < od_quantity r" and "decimal_columns (x_read X)"
    and "update_position X r price db = Some db'"
  shows "\<exists>e. value_of_book X r db' = value_of_book X r db -
           of_int (signed_quantity (od_action r) (od_quantity r)) * price * contract_value db r -
           lost_gain X r price db + e \<and>
         \<bar>e\<bar> \<le> (1 + of_int \<bar>held r db'\<bar> * \<bar>contract_value db r\<bar>) / 100 \<and>
         (row_on_grid r db' \<longrightarrow> e = 0)"
  using net_position_book [OF assms(1-3), of price]
  unfolding update_position_net(1) [OF assms(4)] net_position_held_always [OF assms(1-3)]
    update_position_net(3,4) [OF assms(4)] .

theorem fill_conserves_book_value_witness:
  "\<exists>db' e. update_position sample_ext sample_order 120 sample_market = Some db' \<and>
     value_of_book sample_ext sample_order db' =
       value_of_book sample_ext sample_order sample_market + 480 + e \<and> \<bar>e\<bar> \<le> 7 / 100 \<and>
     (row_on_grid sample_order db' \<longrightarrow> e = 0)"
proof -
  obtain db' where u: "update_position sample_ext sample_order 120 sample_market = Some db'"
    by (rule sample_update)
  have cv: "contract_value sample_market sample_order = 1"
    by (simp add: contract_value_def sample_market_simps sample_db_def)
  have "held sample_order sample_market = 10"
    by (simp add: held_def sample_market_position)
  then have h: "held sample_order db' = 6"
    using net_position_held_always [OF sample_market_wf _ sample_columns, of sample_order 120]
    by (simp add: update_position_net(1) [OF u] signed_quantity_def)
  have l: "lost_gain sample_ext sample_order 120 sample_market = 0"
    by (rule lost_gain_accepted [OF sample_market_accepted])
  show ?thesis
    using fill_conserves_book_value [OF sample_market_wf _ sample_columns u] u
    by (auto simp: cv h l signed_quantity_def)
qed

subsection \<open>What the funds book\<close>

definition closing :: "sandbox_order \<Rightarrow> sandbox_position \<Rightarrow> bool" where
  "closing r p \<longleftrightarrow>
     po_quantity p \<noteq> 0 \<and> po_quantity p + signed_quantity (od_action r) (od_quantity r) = 0"

lemma read_funds_cong: "funds_rows d' = funds_rows d \<Longrightarrow> read_funds X uid d' = read_funds X uid d"
  by (simp add: read_funds_def stored_money_def funds_of_def)

lemma funds_rows_write_position [simp]: "funds_rows (write_position X pid f db) = funds_rows db"
  by (simp add: write_position_def)

lemma funds_ready_cong: "funds_rows d' = funds_rows d \<Longrightarrow> funds_ready uid d' = funds_ready uid d"
  by (simp add: funds_ready_def funds_wf_def funds_of_def)

lemma close_out_funds:
  assumes "closing r p"
  shows "funds_rows (close_out_position X r price p db) =
    (if release_share p r > 0
     then funds_rows (snd (release_margin X (od_user r) (release_share p r) (close_gain db r price p) db))
     else funds_rows db)"
proof -
  have eq: "\<bar>od_quantity r\<bar> = \<bar>po_quantity p\<bar>" "po_quantity p \<noteq> 0"
    using assms by (auto simp: closing_def signed_quantity_def split: action.splits)
  have share: "release_share p r = po_margin_blocked p"
    using eq by (simp add: release_share_def)
  have gain: "calculate_realized_pnl (po_quantity p) (po_average_price p)
      \<bar>signed_quantity (od_action r) (od_quantity r)\<bar> price (contract_value db r) = close_gain db r price p"
    using eq by (simp add: close_gain_def)
  show ?thesis
    unfolding close_out_position_def Let_def gain share by simp
qed

lemma reduce_funds:
  assumes "release_accepted X r price db p"
  shows "funds_rows (reduce_position X r price p db) =
    (if release_share p r > 0
     then funds_rows (snd (release_margin X (od_user r) (release_share p r) (close_gain db r price p) db))
     else funds_rows db)"
proof -
  have share: "(if \<bar>po_quantity p\<bar> > 0 then po_margin_blocked p *
      (of_int (min \<bar>po_quantity p\<bar> \<bar>od_quantity r\<bar>) / of_int \<bar>po_quantity p\<bar>) else 0)
      = release_share p r"
    by (simp add: release_share_def)
  show ?thesis
    unfolding reduce_position_def Let_def abs_signed_quantity close_gain_def [symmetric] share
    using assms by (auto simp: release_accepted_def split: prod.splits)
qed

lemma net_position_funds:
  assumes "0 < od_quantity r" "position_of r db = Some row" "p = read_position X row"
    and "reducing r p \<or> closing r p" "release_accepted X r price db p"
  shows "funds_rows (net_position X r price db) =
    (if release_share p r > 0
     then funds_rows (snd (release_margin X (od_user r) (release_share p r) (close_gain db r price p) db))
     else funds_rows db)"
  using assms(1)
proof (cases rule: net_position_cases [where X = X and r = r and db = db and price = price])
  case (3 row')
  with assms show ?thesis by (simp add: close_out_funds closing_def)
next
  case (5 row')
  with assms show ?thesis by (simp add: reduce_funds)
qed (use assms in \<open>auto simp: reducing_def closing_def signed_quantity_def split: action.splits\<close>)

text \<open>Reconciling moves margin and balance, never profit.\<close>

lemma reconcile_keeps_pnl:
  assumes "decimal_columns (x_read X)" "funds_ready uid db"
  shows "realized_pnl (read_funds X uid (snd (reconcile_margin X uid True db))) = realized_pnl (read_funds X uid db)"
    and "today_realized_pnl (read_funds X uid (snd (reconcile_margin X uid True db))) =
         today_realized_pnl (read_funds X uid db)"
proof -
  let ?V = "read_funds X uid db" and ?total = "booked_margin X uid db"
  let ?new = "[(Used_margin, ?total), (Available_balance, available_balance ?V + (used_margin ?V - ?total))]"
  have V: "x_read X 2 (realized_pnl ?V) = realized_pnl ?V"
    "map_option (x_read X 2) (today_realized_pnl ?V) = today_realized_pnl ?V"
    using decimal_columns.rd_idem [OF assms(1)]
    by (simp_all add: read_funds_def read_money_def option.map_comp o_def)
  have "read_funds X uid (set_money uid (fold col_set (changed_values ?V ?new) (stored_money uid db)) db) =
        read_money X (fold col_set ?new ?V)"
    using assms by (intro read_funds_set_money) simp_all
  then show "realized_pnl (read_funds X uid (snd (reconcile_margin X uid True db))) = realized_pnl ?V"
    "today_realized_pnl (read_funds X uid (snd (reconcile_margin X uid True db))) = today_realized_pnl ?V"
    using V by (simp_all add: reconcile_margin_row [OF assms(2)] Let_def)
      (simp_all add: read_money_def)
qed

lemma update_position_pnl:
  assumes "decimal_columns (x_read X)" "funds_ready (od_user r) (net_position X r price db)"
    and "update_position X r price db = Some db'"
  shows "realized_pnl (read_funds X (od_user r) db') =
         realized_pnl (read_funds X (od_user r) (net_position X r price db))"
  using assms reconcile_keeps_pnl(1) [OF assms(1,2)]
  by (auto simp: update_position_def Let_def split: if_splits)

text \<open>A fill that closes or reduces a position books its profit to the funds exactly when the
  position holds margin to release: then the funds' realised profit rises by the profit the
  position's book shows; a position without margin realises its profit in the book only, and
  the funds never see it.\<close>

theorem fill_books_profit_with_margin:
  assumes "decimal_columns (x_read X)" and "funds_ready (od_user r) db" and "0 < od_quantity r"
    and "position_of r db = Some row" and "reducing r (read_position X row) \<or> closing r (read_position X row)"
    and "release_accepted X r price db (read_position X row)"
    and "update_position X r price db = Some db'"
  shows "realized_pnl (read_funds X (od_user r) db') =
    (if release_share (read_position X row) r > 0
     then x_read X 2 (realized_pnl (read_funds X (od_user r) db) + close_gain db r price (read_position X row))
     else realized_pnl (read_funds X (od_user r) db))"
proof -
  let ?p = "read_position X row" and ?uid = "od_user r"
  let ?rel = "snd (release_margin X ?uid (release_share ?p r) (close_gain db r price ?p) db)"
  have rows: "funds_rows (net_position X r price db) =
      (if release_share ?p r > 0 then funds_rows ?rel else funds_rows db)"
    by (rule net_position_funds [OF assms(3,4) refl assms(5,6)])
  have ready_rel: "funds_ready ?uid ?rel"
    using assms(2) by (simp add: release_margin_row [OF assms(2)] Let_def)
  have ready: "funds_ready ?uid (net_position X r price db)"
    using rows assms(2) ready_rel funds_ready_cong by (metis (full_types))
  have "realized_pnl (read_funds X ?uid ?rel) =
      x_read X 2 (realized_pnl (read_funds X ?uid db) + close_gain db r price ?p)"
    if "release_share ?p r > 0"
  proof -
    let ?new = "released (read_funds X ?uid db) (release_share ?p r) (close_gain db r price ?p) True"
    have "?rel = set_money ?uid (fold col_set (changed_values (read_funds X ?uid db) ?new) (stored_money ?uid db)) db"
      using that assms(6) by (auto simp: release_accepted_def release_margin_row [OF assms(2)] Let_def split: if_splits)
    moreover have "distinct (map fst ?new)" by (simp add: released_def Let_def)
    ultimately have "read_funds X ?uid ?rel = read_money X (fold col_set ?new (read_funds X ?uid db))"
      using read_funds_set_money [OF assms(1,2)] by simp
    then show ?thesis by (simp add: released_def Let_def read_money_def)
  qed
  then show ?thesis
    using update_position_pnl [OF assms(1) ready assms(7)] rows read_funds_cong by (metis (full_types))
qed

lemma sample_read_100: "x_read sample_ext 2 100 = 100"
  using sample_read [of "Num.num.Bit0 (Num.num.Bit0 (num.Bit1 (num.Bit0 (num.Bit0 (num.Bit1 num.One)))))"]
  by simp

lemma sample_read_80: "x_read sample_ext 2 80 = 80"
  using sample_read [of "Num.num.Bit0 (Num.num.Bit0 (num.Bit0 (num.Bit0 (num.Bit1 (num.Bit0 num.One)))))"]
  by simp

lemma sample_share: "release_share (read_position sample_ext sample_position) sample_order = 40"
  by (simp add: release_share_def sample_read_100)

lemma sample_gain: "close_gain sample_market sample_order 120 (read_position sample_ext sample_position) = 80"
  by (simp add: close_gain_def calculate_realized_pnl_def contract_value_def sample_market_simps
      sample_db_def sample_read_100)

theorem fill_books_profit_with_margin_witness:
  "\<exists>db'. update_position sample_ext sample_order 120 sample_market = Some db' \<and>
     realized_pnl (read_funds sample_ext ''u'' db') = 80"
proof -
  obtain db' where u: "update_position sample_ext sample_order 120 sample_market = Some db'"
    by (rule sample_update)
  have red: "reducing sample_order (read_position sample_ext sample_position)"
    by (simp add: reducing_def signed_quantity_def)
  have acc: "release_accepted sample_ext sample_order 120 sample_market (read_position sample_ext sample_position)"
    using sample_market_accepted [of 120] red by (simp add: fill_accepted_def sample_market_position)
  have "realized_pnl (read_funds sample_ext ''u'' db') =
      x_read sample_ext 2 (realized_pnl (read_funds sample_ext ''u'' sample_market) + 80)"
    using fill_books_profit_with_margin [OF sample_columns _ _ sample_market_position _ acc u] red
    by (simp add: sample_market_ready sample_share sample_gain)
  also have "\<dots> = 80"
    by (simp add: sample_market_funds sample_money_def sample_read_80)
  finally show ?thesis using u by blast
qed

subsection \<open>Reserved margin after a fill\<close>

lemma update_position_margin:
  assumes "decimal_columns (x_read X)" "funds_ready (od_user r) (net_position X r price db)"
    and "update_position X r price db = Some db'"
  shows "used_margin (read_funds X (od_user r) db') = booked_margin X (od_user r) db' \<or>
         used_margin (read_funds X (od_user r) db') = open_position_margin X (od_user r) db'"
proof -
  let ?net = "net_position X r price db" and ?uid = "od_user r"
  obtain f where f: "funds_of ?uid ?net = Some f" using assms(2) by (auto simp: funds_ready_def)
  then have V: "read_money X (fu_money f) = read_funds X ?uid ?net"
    by (simp add: read_funds_def stored_money_def)
  show ?thesis
  proof (cases "used_margin (read_funds X ?uid ?net) = open_position_margin X ?uid ?net")
    case True
    then have "fst (validate_margin_consistency X ?uid ?net)"
      by (simp add: validate_margin_consistency_def f V)
    with assms(3) True show ?thesis by (auto simp: update_position_def split: if_splits)
  next
    case False
    then have "\<not> fst (validate_margin_consistency X ?uid ?net)"
      by (simp add: validate_margin_consistency_def f V Let_def)
    with assms(3) have "db' = snd (reconcile_margin X ?uid True ?net)"
      by (auto simp: update_position_def split: if_splits)
    moreover have "used_margin (read_funds X ?uid (snd (reconcile_margin X ?uid True ?net))) =
        booked_margin X ?uid (snd (reconcile_margin X ?uid True ?net))"
      using reconcile_sets_booked [OF assms(1,2)] by simp
    ultimately show ?thesis by simp
  qed
qed

lemma funds_ready_net:
  assumes "funds_ready (od_user r) db"
  shows "funds_ready (od_user r) (net_position X r price db)"
proof -
  have rel: "funds_ready (od_user r) (snd (release_margin X (od_user r) a g db))" for a g
    using assms by (simp add: release_margin_row [OF assms] Let_def)
  have rel': "funds_ready (od_user r) d'" if "release_margin X (od_user r) a g db = (res, d')" for a g res d'
    using rel [of a g] that by simp
  have w: "funds_ready (od_user r) (write_position X pid f d) = funds_ready (od_user r) d" for pid f d
    by (rule funds_ready_cong) simp
  have "funds_ready (od_user r) (reduce_position X r price p db)" for p
    unfolding reduce_position_def Let_def w
    using assms by (auto simp: w dest!: rel' split: prod.splits)
  moreover have "funds_ready (od_user r) (new_position X r price db)"
    using assms by (subst funds_ready_cong [of _ db]) (simp_all add: new_position_def)
  ultimately show ?thesis
    using assms rel
    by (auto simp: net_position_def reopen_position_def close_out_position_def add_to_position_def w
        Let_def split: option.splits)
qed

text \<open>After a fill the reserved margin of the user is what the open positions hold, with or
  without the armed GTTs.  The margin of orders that are still resting is not part of either
  sum, so a fill returns it to the available balance while those orders rest.\<close>

theorem fill_leaves_booked_margin:
  assumes "decimal_columns (x_read X)" and "funds_ready (od_user r) db"
    and "update_position X r price db = Some db'"
  shows "used_margin (read_funds X (od_user r) db') = booked_margin X (od_user r) db' \<or>
         used_margin (read_funds X (od_user r) db') = open_position_margin X (od_user r) db'"
  using assms(1) funds_ready_net [OF assms(2)] assms(3) by (rule update_position_margin)

theorem fill_leaves_booked_margin_witness:
  "\<exists>db'. update_position sample_ext sample_order 120 sample_market = Some db' \<and>
     used_margin (read_funds sample_ext ''u'' db') =
       open_position_margin sample_ext ''u'' db' + active_gtt_margin sample_ext ''u'' db'"
proof -
  obtain db' where u: "update_position sample_ext sample_order 120 sample_market = Some db'"
    by (rule sample_update)
  have "gtts db' = []" using beside_update_position [OF _ u, of gtts] by (simp add: sample_market_simps)
  then have "active_gtt_margin sample_ext ''u'' db' = 0" by (simp add: active_gtt_margin_def)
  with fill_leaves_booked_margin [OF sample_columns _ u] u show ?thesis
    by (auto simp: sample_market_ready booked_margin_def)
qed

subsection \<open>Orders that are no longer resting\<close>

definition resting :: "nat \<Rightarrow> sandbox \<Rightarrow> bool" where
  "resting oid db \<longleftrightarrow> (\<exists>r \<in> set (orders db). od_id r = oid \<and> is_pending r)"

definition orders_wf :: "sandbox \<Rightarrow> bool" where
  "orders_wf db \<longleftrightarrow> distinct (map od_id (orders db))"

lemma claim_row_none:
  "\<not> (\<exists>r \<in> set rows. key r = k \<and> P r) \<Longrightarrow> claim_row key P f k rows = (False, rows)"
proof -
  assume "\<not> (\<exists>r \<in> set rows. key r = k \<and> P r)"
  then have "row_count (\<lambda>r. key r = k \<and> P r) rows = 0" by simp
  then show ?thesis by (simp add: claim_row_def del: row_count_0)
qed

lemma claim_order_fill_settled: "\<not> resting oid db \<Longrightarrow> claim_order_fill price oid db = (False, db)"
  by (simp add: claim_order_fill_def claim_row_none resting_def)

lemma execute_order_settled: "\<not> resting (od_id r) db \<Longrightarrow> execute_order X r price db = db"
  by (simp add: execute_order_def claim_order_fill_settled)

lemma release_from_stop_book_settled:
  assumes "\<not> resting oid db"
  shows "release_from_stop_book oid db = (False, db)"
proof -
  have "\<not> (\<exists>r \<in> set (orders db). od_id r = oid \<and> od_status r = Trigger_pending)"
    using assms by (auto simp: resting_def is_pending_def PENDING_ORDER_STATUSES_def)
  then show ?thesis
    using claim_row_none [of "orders db" od_id oid "\<lambda>r. od_status r = Trigger_pending"]
    by (simp add: release_from_stop_book_def)
qed

lemma finish_orphan_settled:
  assumes "\<not> resting (od_id r) db"
  shows "finish_orphan r t db = db"
proof -
  have "\<not> (\<exists>o' \<in> set (orders db). od_id o' = od_id r \<and> od_status o' = Open)"
    using assms by (auto simp: resting_def is_pending_def PENDING_ORDER_STATUSES_def)
  then show ?thesis
    using claim_row_none [of "orders db" od_id "od_id r" "\<lambda>o'. od_status o' = Open"]
    by (simp add: finish_orphan_def)
qed

text \<open>An order that is filled, cancelled or rejected in the database stays exactly as it is, and
  nothing else moves, whatever stale copy of it the engine is still processing and whatever
  quote arrives: no trade, no position, no margin, no status.\<close>

theorem settled_order_is_left_alone:
  assumes "\<not> resting (od_id stale) db"
  shows "process_order X stale q db = db"
  using assms
  by (auto simp: process_order_def process_trigger_pending_order_def execute_order_settled
      release_from_stop_book_settled finish_orphan_settled split: option.splits)

definition cancelled_market :: sandbox where
  "cancelled_market = sample_market\<lparr>orders := [sample_order\<lparr>od_status := Cancelled\<rparr>]\<rparr>"

theorem settled_order_is_left_alone_witness:
  "process_order sample_ext sample_order sample_quote cancelled_market = cancelled_market"
  by (rule settled_order_is_left_alone)
    (simp add: resting_def cancelled_market_def is_pending_def PENDING_ORDER_STATUSES_def)

subsection \<open>The price of a fill\<close>

text \<open>
  What a trade may print, from the order it fills and the quote it was decided on: never outside
  the limit, never before the trigger, and a market order at the touch.
\<close>

definition fair_price :: "sandbox_order \<Rightarrow> quote \<Rightarrow> rat \<Rightarrow> bool" where
  "fair_price r q price \<longleftrightarrow>
     (case od_price_type r of
        MARKET \<Rightarrow> price = q_ltp q \<or> price = (case od_action r of BUY \<Rightarrow> q_ask q | SELL \<Rightarrow> q_bid q)
      | LIMIT \<Rightarrow> od_price r = Some price \<and> limit_met (od_action r) price (q_ltp q)
      | SL \<Rightarrow> price = q_ltp q \<and>
          (\<exists>t p. od_trigger_price r = Some t \<and> od_price r = Some p \<and>
                 trigger_met (od_action r) t price \<and> limit_met (od_action r) p price)
      | SL_M \<Rightarrow> price = q_ltp q \<and>
          (\<exists>t. od_trigger_price r = Some t \<and> trigger_met (od_action r) t price))"

definition live_quote :: "quote \<Rightarrow> bool" where
  "live_quote q \<longleftrightarrow> 0 < q_ltp q \<and> \<not> quote_looks_stale q"

lemma open_fill_price_fair: "open_fill_price r q = Some price \<Longrightarrow> fair_price r q price"
  by (auto simp: open_fill_price_def fair_price_def Let_def
      split: price_type.splits action.splits option.splits if_splits)

text \<open>What one execution does to the trade table.\<close>

lemma execute_order_trades:
  "trades (execute_order X r price db) = trades db \<or>
   (\<exists>cur. trades (execute_order X r price db) = trades db @ [new_trade X cur price] \<and>
      order_terms cur = order_terms r \<and> resting (od_id r) db)"
proof (cases "fst (claim_order_fill price (od_id r) db)")
  case False
  then show ?thesis by (simp add: execute_order_def case_prod_unfold)
next
  case True
  then obtain db1 where c: "claim_order_fill price (od_id r) db = (True, db1)"
    by (metis prod.collapse)
  have t1: "trades db1 = trades db"
    using c by (auto simp: claim_order_fill_def split: prod.splits)
  have rest: "resting (od_id r) db"
    using c claim_order_fill_settled by fastforce
  show ?thesis
  proof (cases "order_row X (od_id r) db1")
    case None
    then show ?thesis by (simp add: execute_order_def c)
  next
    case (Some cur)
    have "trades d' = trades db @ [t]" if "update_position X s p (db1\<lparr>trades := trades db1 @ [t]\<rparr>) = Some d'"
      for s p t d'
      using beside_update_position [OF _ that, of trades] t1 by simp
    with t1 rest show ?thesis
      by (auto simp: execute_order_def c Some Let_def split: option.splits)
  qed
qed

text \<open>C6: whatever the order and the quote, processing prints at most one trade, and only when the quote is
  live (a positive price that its own day range does not contradict) and the order was still
  resting; its price is fair for the order's terms: a limit is never traded through and a stop
  never fills before its trigger.\<close>

theorem processing_trades_fairly:
  assumes "trades (process_order X r q db) \<noteq> trades db" and "od_status r = Trigger_pending \<longrightarrow> od_price_type r \<in> {SL, SL_M}"
  shows "\<exists>cur price. trades (process_order X r q db) = trades db @ [new_trade X cur price] \<and>
           order_terms cur = order_terms r \<and> resting (od_id r) db \<and> live_quote q \<and> fair_price r q price"
proof -
  have none: "find (\<lambda>t. tr_orderid t = od_orderid r) (trades db) = None"
    using assms(1) by (auto simp: process_order_def finish_orphan_def split: option.splits prod.splits if_splits)
  have live: "live_quote q"
    using assms(1) by (auto simp: process_order_def none live_quote_def split: if_splits)
  then have q: "\<not> q_ltp q \<le> 0" "\<not> quote_looks_stale q" by (auto simp: live_quote_def)
  have "\<exists>price. process_order X r q db = execute_order X r price db \<and> fair_price r q price"
  proof (cases "od_status r = Trigger_pending")
    case True
    then have run: "process_order X r q db = process_trigger_pending_order X r (q_ltp q) db"
      by (simp add: process_order_def none q)
    have pt: "od_price_type r = SL \<or> od_price_type r = SL_M" using assms(2) True by auto
    have stop: "trades (snd (release_from_stop_book i db)) = trades db" for i
      by (simp add: release_from_stop_book_def split: prod.splits)
    show ?thesis
      using assms(1) pt stop unfolding run process_trigger_pending_order_def
      by (auto simp: fair_price_def case_prod_unfold split: option.splits if_splits)
  next
    case False
    then show ?thesis
      using assms(1) by (auto simp: process_order_def none q open_fill_price_fair split: option.splits)
  qed
  then obtain price where "process_order X r q db = execute_order X r price db" "fair_price r q price"
    by blast
  with execute_order_trades [of X r price db] assms(1) live show ?thesis by auto
qed

lemma sample_fill_runs:
  "process_order sample_ext sample_order sample_quote sample_market =
     execute_order sample_ext sample_order 120 sample_market"
  by (simp add: process_order_def sample_market_simps sample_quote_def quote_looks_stale_def
      open_fill_price_def limit_met_def Let_def)

lemma sample_fill_trades:
  "trades (execute_order sample_ext sample_order 120 sample_market) \<noteq> []"
proof -
  let ?filled = "fill_row 120 sample_order"
  have claim: "claim_order_fill 120 (Suc 0) sample_market = (True, sample_market\<lparr>orders := [?filled]\<rparr>)"
    by (simp add: claim_order_fill_def claim_row_def sample_market_simps is_pending_def
        PENDING_ORDER_STATUSES_def sql_update_Cons)
  have terms: "order_terms (read_order sample_ext ?filled) = order_terms sample_order"
    using sample_read [of "Num.num.Bit0 (Num.num.Bit0 (num.Bit0 (num.Bit1 (num.Bit1 (num.Bit1 num.One)))))"]
    by (simp add: order_terms_def fill_row_def)
  have "update_position sample_ext r p d \<noteq> None" for r p d
    by (simp add: update_position_def sample_ext_def Let_def)
  then have upd: "update_position sample_ext r p d = Some (the (update_position sample_ext r p d))" for r p d
    by simp
  have ids: "od_id ?filled = Suc 0" by (simp add: fill_row_def)
  let ?db2 = "sample_market\<lparr>orders := [?filled],
      trades := [new_trade sample_ext (read_order sample_ext ?filled) 120]\<rparr>"
  obtain d where d: "update_position sample_ext (read_order sample_ext ?filled) 120 ?db2 = Some d"
    using upd by blast
  have "trades d = trades ?db2"
    using beside_update_position [OF _ d, of trades] by simp
  then show ?thesis
    using d by (simp add: execute_order_def claim order_row_def ids terms sample_market_simps Let_def)
qed

theorem processing_trades_fairly_witness:
  "\<exists>cur price. trades (process_order sample_ext sample_order sample_quote sample_market) =
     [new_trade sample_ext cur price] \<and> price = 120"
proof -
  have "trades (process_order sample_ext sample_order sample_quote sample_market) \<noteq> trades sample_market"
    using sample_fill_trades by (simp add: sample_fill_runs sample_market_simps)
  then obtain cur price where
    "trades (process_order sample_ext sample_order sample_quote sample_market) =
       trades sample_market @ [new_trade sample_ext cur price]"
    "fair_price sample_order sample_quote price"
    using processing_trades_fairly [of sample_ext sample_order sample_quote sample_market] by auto
  then show ?thesis by (auto simp: fair_price_def sample_market_simps)
qed

subsection \<open>One polling cycle\<close>

definition order_keys :: "sandbox \<Rightarrow> (nat \<times> orderid) list" where
  "order_keys db = map (\<lambda>r. (od_id r, od_orderid r)) (orders db)"

text \<open>What the cycle may not disturb while it processes other orders: an order's row and its trades.\<close>

definition order_view :: "nat \<Rightarrow> orderid \<Rightarrow> sandbox \<Rightarrow> sandbox_order option \<times> sandbox_trade list" where
  "order_view i n db =
     (find (\<lambda>r. od_id r = i) (orders db), filter (\<lambda>t. tr_orderid t = n) (trades db))"

definition same_view :: "nat \<Rightarrow> orderid \<Rightarrow> sandbox \<Rightarrow> sandbox \<Rightarrow> bool" where
  "same_view i n db db' \<longleftrightarrow> order_view i n db' = order_view i n db \<and> order_keys db' = order_keys db"

lemma same_view_refl [simp]: "same_view i n db db"
  by (simp add: same_view_def)

lemma same_view_trans: "same_view i n db d \<Longrightarrow> same_view i n d db' \<Longrightarrow> same_view i n db db'"
  by (simp add: same_view_def)

lemma same_view_publish [simp]: "same_view i n db (publish e d) = same_view i n db d"
  by (simp add: same_view_def order_view_def order_keys_def)

lemma find_id_sql_update:
  assumes "\<And>r. P r \<Longrightarrow> od_id r \<noteq> i" "\<And>r. od_id (f r) = od_id r"
  shows "find (\<lambda>r. od_id r = i) (sql_update P f rows) = find (\<lambda>r. od_id r = i) rows"
  using assms by (induction rows) (auto simp: sql_update_def)

lemma same_view_orders:
  assumes "\<And>r. P r \<Longrightarrow> od_id r \<noteq> i" "\<And>r. od_id (f r) = od_id r" "\<And>r. od_orderid (f r) = od_orderid r"
  shows "same_view i n db (db\<lparr>orders := sql_update P f (orders db)\<rparr>)"
proof -
  have "map (\<lambda>r. (od_id r, od_orderid r)) (sql_update P f rows) = map (\<lambda>r. (od_id r, od_orderid r)) rows" for rows
    using assms(2,3) by (intro map_key_sql_update) simp
  then show ?thesis
    using find_id_sql_update [of P i f "orders db", OF assms(1,2)]
    by (simp add: same_view_def order_view_def order_keys_def)
qed

lemma claim_row_view:
  assumes "oid \<noteq> i" "\<And>r. od_id (f r) = od_id r" "\<And>r. od_orderid (f r) = od_orderid r"
    and "claim_row od_id P f oid (orders db) = (won, rows)"
  shows "same_view i n db (if won then db\<lparr>orders := rows\<rparr> else db)"
  using assms(4) same_view_orders [of "\<lambda>r. od_id r = oid \<and> P r" i f n db] assms(1-3)
  by (auto simp: claim_row_def split: if_splits)

lemma claim_fill_view:
  assumes "oid \<noteq> i"
  shows "same_view i n db (snd (claim_order_fill price oid db))"
  using claim_row_view [OF assms, of "fill_row price" is_pending db]
  by (auto simp: claim_order_fill_def fill_row_def split: prod.splits)

lemma update_position_view:
  assumes "update_position X r price db = Some db'"
  shows "same_view i n db db'"
  using beside_update_position [OF _ assms, of orders] beside_update_position [OF _ assms, of trades]
  by (simp add: same_view_def order_view_def order_keys_def)

lemma trade_view:
  "tr_orderid t \<noteq> n \<Longrightarrow> same_view i n db (db\<lparr>trades := trades db @ [t]\<rparr>)"
  by (simp add: same_view_def order_view_def order_keys_def)

lemma order_row_key:
  "order_row X oid db = Some r \<Longrightarrow> (oid, od_orderid r) \<in> set (order_keys db) \<and> od_id r = oid"
  by (auto simp: order_row_def order_keys_def dest!: find_SomeD)

lemma execute_order_view:
  assumes "od_id r \<noteq> i" "\<And>m. (od_id r, m) \<in> set (order_keys db) \<Longrightarrow> m \<noteq> n"
  shows "same_view i n db (execute_order X r price db)"
proof -
  obtain won db1 where c: "claim_order_fill price (od_id r) db = (won, db1)" by fastforce
  have v1: "same_view i n db db1"
    using claim_fill_view [OF assms(1), of n db price] c by simp
  show ?thesis
  proof (cases "order_row X (od_id r) db1")
    case None
    then show ?thesis by (simp add: execute_order_def c)
  next
    case (Some cur)
    have key: "od_id cur = od_id r" "od_orderid cur \<noteq> n"
      using order_row_key [OF Some] assms(2) v1 by (auto simp: same_view_def)
    let ?db2 = "db1\<lparr>trades := trades db1 @ [new_trade X cur price]\<rparr>"
    have "same_view i n db1 ?db2"
      by (rule trade_view) (simp add: new_trade_def key)
    then have v2: "same_view i n db ?db2" by (rule same_view_trans [OF v1])
    have v3: "same_view i n ?db2 (?db2\<lparr>orders := sql_update (\<lambda>o'. od_id o' = od_id cur) reject_row (orders ?db2)\<rparr>)"
      using key assms(1) by (intro same_view_orders) (auto simp: reject_row_def)
    show ?thesis
      using v2 same_view_trans [OF v2 v3] same_view_trans [OF v2 update_position_view]
      by (auto simp: execute_order_def c Some Let_def split: option.splits)
  qed
qed

lemma execute_order_keys: "order_keys (execute_order X r price db) = order_keys db"
proof -
  have "infinite (UNIV :: (int \<times> int) set)"
    using infinite_UNIV_int by (simp add: finite_prod)
  then obtain n where "n \<notin> snd ` set (order_keys db)"
    using ex_new_if_finite [of "snd ` set (order_keys db)"] by auto
  then have n: "m \<noteq> n" if "(od_id r, m) \<in> set (order_keys db)" for m
    using that by force
  have "same_view (Suc (od_id r)) n db (execute_order X r price db)"
    by (rule execute_order_view [OF _ n]) simp
  then show ?thesis by (simp add: same_view_def)
qed

lemma process_order_view:
  assumes "od_id r \<noteq> i" "\<And>m. (od_id r, m) \<in> set (order_keys db) \<Longrightarrow> m \<noteq> n"
  shows "same_view i n db (process_order X r q db)"
proof -
  have stop: "same_view i n db (snd (release_from_stop_book (od_id r) db))"
    using claim_row_view [OF assms(1), where n = n and f = reopen_row
        and P = "\<lambda>r. od_status r = Trigger_pending" and db = db]
    by (auto simp: release_from_stop_book_def reopen_row_def split: prod.splits)
  have orphan: "same_view i n db (finish_orphan r t db)" for t
    using claim_row_view [OF assms(1), where n = n and f = "fill_row (tr_price t)"
        and P = "\<lambda>o'. od_status o' = Open" and db = db]
    by (auto simp: finish_orphan_def fill_row_def split: prod.splits)
  show ?thesis
    using stop orphan execute_order_view [OF assms]
    by (auto simp: process_order_def process_trigger_pending_order_def case_prod_unfold split: option.splits)
qed

lemma process_orders_view:
  assumes "i \<notin> set oids" "\<And>m j. j \<in> set oids \<Longrightarrow> (j, m) \<in> set (order_keys db) \<Longrightarrow> m \<noteq> n"
  shows "same_view i n db (process_orders X cache oids db)"
  using assms
proof (induction oids arbitrary: db)
  case (Cons j oids)
  define d where "d = (case order_row X j db of None \<Rightarrow> db
        | Some r \<Rightarrow> (case cache (od_symbol r) (od_exchange r) of
               None \<Rightarrow> db | Some q \<Rightarrow> process_order X r q db))"
  have v: "same_view i n db d"
  proof (cases "order_row X j db")
    case (Some r)
    have id: "od_id r = j" using order_row_key [OF Some] by simp
    have "same_view i n db (process_order X r q db)" for q
    proof (rule process_order_view)
      show "od_id r \<noteq> i" using Cons.prems(1) id by auto
      show "m \<noteq> n" if "(od_id r, m) \<in> set (order_keys db)" for m
        using Cons.prems(2) [of j m] that id by simp
    qed
    then show ?thesis by (simp add: d_def Some split: option.splits)
  qed (simp add: d_def)
  then have keys: "order_keys d = order_keys db" by (simp add: same_view_def)
  have "same_view i n d (process_orders X cache oids d)"
    using Cons.prems keys by (intro Cons.IH) auto
  with v show ?case by (simp add: d_def [symmetric] same_view_trans)
qed simp

text \<open>The fill itself, when nothing stands in its way.\<close>

lemma find_id_fill:
  assumes "orders_wf db" "row \<in> set (orders db)" "is_pending row"
  shows "claim_order_fill price (od_id row) db =
      (True, db\<lparr>orders := sql_update (\<lambda>o'. od_id o' = od_id row \<and> is_pending o') (fill_row price) (orders db)\<rparr>)"
proof -
  have "row_count (\<lambda>o'. od_id o' = od_id row \<and> is_pending o') (orders db) = 1"
    using assms row_count_eq_1_iff [of od_id "orders db" "\<lambda>o'. od_id o' = od_id row \<and> is_pending o'" "od_id row"]
    by (auto simp: orders_wf_def)
  then show ?thesis by (simp add: claim_order_fill_def claim_row_def)
qed

lemma execute_order_runs:
  fixes X row price db
  defines "cur \<equiv> read_order X (fill_row price row)"
  defines "db2 \<equiv> db\<lparr>orders := sql_update (\<lambda>o'. od_id o' = od_id row \<and> is_pending o') (fill_row price) (orders db),
                    trades := trades db @ [new_trade X cur price]\<rparr>"
  assumes wf: "orders_wf db" and row: "row \<in> set (orders db)" "is_pending row" and calm: "\<not> x_db_error X"
  shows "\<exists>d e. update_position X cur price db2 = Some d \<and> execute_order X (read_order X row) price db = publish e d"
    and "find (\<lambda>r. od_id r = od_id row) (orders db2) = Some (fill_row price row)"
proof -
  let ?db1 = "db\<lparr>orders := sql_update (\<lambda>o'. od_id o' = od_id row \<and> is_pending o') (fill_row price) (orders db)\<rparr>"
  have at: "find (\<lambda>r. od_id r = od_id row) (orders db) = Some row"
    using wf row(1) unfolding orders_wf_def by (rule find_unique_key) simp
  then show at1: "find (\<lambda>r. od_id r = od_id row) (orders db2) = Some (fill_row price row)"
    using row(2) by (simp add: db2_def find_sql_update fill_row_def)
  have at2: "order_row X (od_id row) ?db1 = Some cur"
    using at1 by (simp add: order_row_def db2_def cur_def)
  have terms: "order_terms cur = order_terms (read_order X row)"
    by (simp add: cur_def order_terms_def fill_row_def)
  obtain d where d: "update_position X cur price db2 = Some d"
    using calm by (simp add: update_position_def Let_def)
  moreover have "execute_order X (read_order X row) price db =
      publish (Order_filled (od_orderid cur) (tr_tradeid (new_trade X cur price)) (od_quantity cur) price) d"
    using d by (simp add: execute_order_def find_id_fill [OF wf row] at2 terms Let_def db2_def)
  ultimately show "\<exists>d e. update_position X cur price db2 = Some d \<and> execute_order X (read_order X row) price db = publish e d"
    by blast
qed

lemma execute_order_fills:
  assumes wf: "orders_wf db" and row: "row \<in> set (orders db)" "is_pending row" and calm: "\<not> x_db_error X"
    and fresh: "\<And>t. t \<in> set (trades db) \<Longrightarrow> tr_orderid t \<noteq> od_orderid row"
  shows "\<exists>t. order_view (od_id row) (od_orderid row) (execute_order X (read_order X row) price db) =
      (Some (fill_row price row), [t]) \<and> tr_price t = price \<and> tr_quantity t = od_quantity row"
proof -
  let ?t = "new_trade X (read_order X (fill_row price row)) price"
  have t: "tr_orderid ?t = od_orderid row" "tr_price ?t = price" "tr_quantity ?t = od_quantity row"
    by (simp_all add: new_trade_def fill_row_def)
  have "filter (\<lambda>t. tr_orderid t = od_orderid row) (trades db) = []"
    using fresh by (auto simp: filter_empty_conv)
  moreover obtain d e where d: "update_position X (read_order X (fill_row price row)) price
      (db\<lparr>orders := sql_update (\<lambda>o'. od_id o' = od_id row \<and> is_pending o') (fill_row price) (orders db),
          trades := trades db @ [?t]\<rparr>) = Some d" "execute_order X (read_order X row) price db = publish e d"
    using execute_order_runs(1) [OF wf row calm, of price] by blast
  ultimately have "order_view (od_id row) (od_orderid row) (execute_order X (read_order X row) price db) =
      (Some (fill_row price row), [?t])"
    using execute_order_runs(2) [OF wf row calm, of price] t update_position_view [OF d(1), of "od_id row" "od_orderid row"]
    by (simp add: same_view_def order_view_def publish_def d(2))
  then show ?thesis using t by blast
qed

lemma order_keys_wf: "order_keys db' = order_keys db \<Longrightarrow> orders_wf db' = orders_wf db"
proof -
  have "map od_id (orders d) = map fst (order_keys d)" for d
    by (simp add: order_keys_def o_def)
  then show "order_keys db' = order_keys db \<Longrightarrow> ?thesis" by (simp add: orders_wf_def)
qed

lemma process_orders_append:
  "process_orders X cache (xs @ ys) d = process_orders X cache ys (process_orders X cache xs d)"
  by (induction xs arbitrary: d) simp_all

lemma order_key_owner:
  assumes "distinct (map od_orderid (orders db))" "row \<in> set (orders db)"
    and "(j, m) \<in> set (order_keys db)" "j \<noteq> od_id row"
  shows "m \<noteq> od_orderid row"
proof
  assume "m = od_orderid row"
  with assms(3) obtain o' where o': "o' \<in> set (orders db)" "od_orderid o' = od_orderid row" "od_id o' = j"
    by (auto simp: order_keys_def)
  with assms(1,2) have "o' = row" by (auto simp: distinct_map inj_on_def)
  with o' assms(4) show False by simp
qed

text \<open>An order in the middle of a cycle, still as it was when its turn comes.\<close>

lemma process_order_in_turn:
  assumes wf: "orders_wf d" and calm: "\<not> x_db_error X"
    and at: "find (\<lambda>r. od_id r = od_id row) (orders d) = Some row"
      "filter (\<lambda>t. tr_orderid t = od_orderid row) (trades d) = []" and "od_status row = Open"
    and quoted: "cache (od_symbol row) (od_exchange row) = Some q" "live_quote q"
      "open_fill_price (read_order X row) q = Some price"
  shows "\<exists>d2. process_orders X cache (od_id row # after) d = process_orders X cache after d2 \<and>
    order_keys d2 = order_keys d \<and>
    (\<exists>t. order_view (od_id row) (od_orderid row) d2 = (Some (fill_row price row), [t]) \<and>
         tr_price t = price \<and> tr_quantity t = od_quantity row)"
proof -
  let ?d2 = "execute_order X (read_order X row) price d"
  have none: "find (\<lambda>t. tr_orderid t = od_orderid row) (trades d) = None"
    using at(2) by (auto simp: find_None_iff filter_empty_conv)
  have "process_order X (read_order X row) q d = ?d2"
    using quoted(2,3) none assms(5) by (simp add: process_order_def live_quote_def)
  moreover have "order_row X (od_id row) d = Some (read_order X row)"
    using at(1) by (simp add: order_row_def)
  ultimately have "process_orders X cache (od_id row # after) d = process_orders X cache after ?d2"
    using quoted(1) by simp
  moreover have "\<exists>t. order_view (od_id row) (od_orderid row) ?d2 = (Some (fill_row price row), [t]) \<and>
      tr_price t = price \<and> tr_quantity t = od_quantity row"
    using at assms(5) by (intro execute_order_fills [OF wf _ _ calm])
      (auto dest: find_SomeD simp: filter_empty_conv is_pending_def PENDING_ORDER_STATUSES_def)
  ultimately show ?thesis using execute_order_keys by blast
qed

text \<open>C4: one polling cycle fills every marketable order exactly once: an open order without an earlier
  trade whose live quote gives it a fill price is complete after the cycle, at that price, for
  its whole quantity, with exactly one trade, whatever the other orders of the cycle do.\<close>

theorem cycle_fills_marketable_orders:
  assumes wf: "orders_wf db" "distinct (map od_orderid (orders db))" and calm: "\<not> x_db_error X"
    and row: "row \<in> set (orders db)" "od_status row = Open"
    and fresh: "\<forall>t \<in> set (trades db). tr_orderid t \<noteq> od_orderid row"
    and quoted: "quote_cache (od_symbol row) (od_exchange row) = Some q" "live_quote q"
      "open_fill_price (read_order X row) q = Some price"
  shows "\<exists>t. order_view (od_id row) (od_orderid row) (execute_pending_orders X quote_cache db) =
      (Some (fill_row price row), [t]) \<and> tr_price t = price \<and> tr_quantity t = od_quantity row"
proof -
  let ?i = "od_id row" and ?n = "od_orderid row"
  let ?ids = "map od_id (filter is_pending (orders db))"
  have at: "find (\<lambda>r. od_id r = ?i) (orders db) = Some row"
    using wf(1) row(1) unfolding orders_wf_def by (rule find_unique_key) simp
  note keys = order_key_owner [OF wf(2) row(1)]
  have "is_pending row" using row(2) by (simp add: is_pending_def PENDING_ORDER_STATUSES_def)
  then have "?i \<in> set ?ids" using row(1) by auto
  then obtain before after where ids: "?ids = before @ ?i # after" by (meson split_list)
  moreover have "distinct ?ids" using wf(1) by (simp add: orders_wf_def distinct_map_filter)
  ultimately have out: "?i \<notin> set before" "?i \<notin> set after" by auto
  let ?d1 = "process_orders X quote_cache before db"
  have v1: "same_view ?i ?n db ?d1"
    using out(1) keys by (intro process_orders_view) auto
  then have at1: "find (\<lambda>r. od_id r = ?i) (orders ?d1) = Some row" "filter (\<lambda>t. tr_orderid t = ?n) (trades ?d1) = []"
    and keys1: "order_keys ?d1 = order_keys db"
    using at fresh by (auto simp: same_view_def order_view_def filter_empty_conv)
  have wf1: "orders_wf ?d1" using wf(1) order_keys_wf [OF keys1] by simp
  obtain d2 where d2: "process_orders X quote_cache (?i # after) ?d1 = process_orders X quote_cache after d2"
      "order_keys d2 = order_keys ?d1"
      "\<exists>t. order_view ?i ?n d2 = (Some (fill_row price row), [t]) \<and> tr_price t = price \<and> tr_quantity t = od_quantity row"
    using process_order_in_turn [where cache = quote_cache, OF wf1 calm at1 row(2) quoted] by blast
  have "same_view ?i ?n d2 (process_orders X quote_cache after d2)"
    using out(2) keys keys1 d2(2) by (intro process_orders_view) auto
  with d2(3) show ?thesis
    by (simp add: execute_pending_orders_def ids process_orders_append d2(1) same_view_def
        del: process_orders.simps)
qed

definition one_quote :: "string \<Rightarrow> string \<Rightarrow> quote option" where
  "one_quote s e = (if s = ''S'' \<and> e = ''NSE'' then Some sample_quote else None)"

theorem cycle_fills_marketable_orders_witness:
  "find (\<lambda>r. od_id r = 1) (orders (execute_pending_orders sample_ext one_quote sample_market)) =
     Some (fill_row 120 sample_order)"
proof -
  have p: "open_fill_price (read_order sample_ext sample_order) sample_quote = Some 120"
    using sample_read [of "Num.num.Bit0 (Num.num.Bit0 (num.Bit0 (num.Bit1 (num.Bit1 (num.Bit1 num.One)))))"]
    by (simp add: open_fill_price_def limit_met_def sample_quote_def Let_def)
  have "\<exists>t. order_view (od_id sample_order) (od_orderid sample_order)
        (execute_pending_orders sample_ext one_quote sample_market) =
      (Some (fill_row 120 sample_order), [t]) \<and> tr_price t = 120 \<and> tr_quantity t = od_quantity sample_order"
    by (rule cycle_fills_marketable_orders [where q = sample_quote])
      (use p in \<open>simp_all add: orders_wf_def sample_market_simps one_quote_def live_quote_def
        quote_looks_stale_def sample_quote_def sample_ext_def\<close>)
  then show ?thesis by (auto simp: order_view_def)
qed

end
