(* ===== verification/OrderManager.thy ===== *)
theory OrderManager
  imports ExecutionEngine
begin

text \<open>
  The order manager (\<open>sandbox/order_manager.py\<close>): validation, pricing, the margin an order
  reserves, the order id, placement with immediate execution, modification, cancellation and
  the order book.  An order form's numeric fields arrive as numbers, absent, or unreadable;
  text fields that are missing are empty.  Every response is a constructor with its status code.
\<close>

subsection \<open>The order form and the responses\<close>

datatype field_number = Absent | Number rat | Unreadable

record order_form =
  fm_symbol :: string
  fm_exchange :: string
  fm_action :: string
  fm_quantity :: field_number
  fm_price :: field_number
  fm_trigger_price :: field_number
  fm_price_type :: string
  fm_product :: string
  fm_strategy :: string
  fm_gtt_leg_id :: "nat option"

datatype order_error =
    Missing_required_field string | Invalid_action | Invalid_price_type | Invalid_product
  | Nrml_not_allowed string | Cnc_not_allowed string
  | Quantity_not_positive | Invalid_quantity
  | Price_required | Price_not_positive | Invalid_price
  | Trigger_price_required | Trigger_price_not_positive | Invalid_trigger_price
  | Invalid_exchange
  | Unknown_symbol | Not_lot_multiple int | Mis_after_square_off | No_market_price
  | Invalid_margin_price | Margin_not_calculable margin_error | Margin_refused fund_msg
  | Order_not_found | Order_not_pending order_status
  | Price_not_accepted price_type | Trigger_price_not_accepted price_type
  | Release_refused fund_msg
  | Internal_error

datatype order_response =
    Order_ok orderid
  | Order_error nat order_error
  | Order_rejected orderid rejection

text \<open>The enumerated fields as a form spells them.\<close>

definition price_type_text :: "price_type \<Rightarrow> string" where
  "price_type_text pt = (case pt of MARKET \<Rightarrow> ''MARKET'' | LIMIT \<Rightarrow> ''LIMIT'' | SL \<Rightarrow> ''SL'' | SL_M \<Rightarrow> ''SL-M'')"

definition product_text :: "product \<Rightarrow> string" where
  "product_text pr = (case pr of CNC \<Rightarrow> ''CNC'' | NRML \<Rightarrow> ''NRML'' | MIS \<Rightarrow> ''MIS'')"

definition action_text :: "action \<Rightarrow> string" where
  "action_text a = (case a of BUY \<Rightarrow> ''BUY'' | SELL \<Rightarrow> ''SELL'')"

text \<open>Python's truth value of a numeric field: a zero counts as missing.\<close>

definition truthy :: "field_number \<Rightarrow> bool" where
  "truthy n \<longleftrightarrow> n \<noteq> Absent \<and> n \<noteq> Number 0"

text \<open>\<open>int(x)\<close> truncates towards zero.\<close>

definition int_of_number :: "rat \<Rightarrow> int" where
  "int_of_number x = (if x \<ge> 0 then \<lfloor>x\<rfloor> else \<lceil>x\<rceil>)"

definition parse_action :: "string \<Rightarrow> action option" where
  "parse_action s =
     (if str_upper s = ''BUY'' then Some BUY else if str_upper s = ''SELL'' then Some SELL else None)"

definition parse_price_type :: "string \<Rightarrow> price_type option" where
  "parse_price_type s =
     (if str_upper s = ''MARKET'' then Some MARKET else if str_upper s = ''LIMIT'' then Some LIMIT
      else if str_upper s = ''SL'' then Some SL else if str_upper s = ''SL-M'' then Some SL_M else None)"

definition parse_product :: "string \<Rightarrow> product option" where
  "parse_product s =
     (if str_upper s = ''CNC'' then Some CNC else if str_upper s = ''NRML'' then Some NRML
      else if str_upper s = ''MIS'' then Some MIS else None)"

subsection \<open>Validation\<close>

definition DERIVATIVE_PRODUCT_EXCHANGES :: "string list" where
  "DERIVATIVE_PRODUCT_EXCHANGES = [''NFO'', ''BFO'', ''MCX'', ''CDS'', ''BCD'', ''NCDEX'', ''CRYPTO'']"

definition missing_field :: "order_form \<Rightarrow> string option" where
  "missing_field f =
     (if fm_symbol f = [] then Some ''symbol''
      else if fm_exchange f = [] then Some ''exchange''
      else if fm_action f = [] then Some ''action''
      else if \<not> truthy (fm_quantity f) then Some ''quantity''
      else if fm_price_type f = [] then Some ''price_type''
      else if fm_product f = [] then Some ''product''
      else None)"

definition validate_price :: "order_form \<Rightarrow> order_error option" where
  "validate_price f =
     (if \<not> truthy (fm_price f) then Some Price_required
      else case fm_price f of
             Number p \<Rightarrow> if p \<le> 0 then Some Price_not_positive else None
           | _ \<Rightarrow> Some Invalid_price)"

definition validate_trigger :: "order_form \<Rightarrow> order_error option" where
  "validate_trigger f =
     (if \<not> truthy (fm_trigger_price f) then Some Trigger_price_required
      else case fm_trigger_price f of
             Number p \<Rightarrow> if p \<le> 0 then Some Trigger_price_not_positive else None
           | _ \<Rightarrow> Some Invalid_trigger_price)"

text \<open>The price checks and the exchange check, in the code's order.\<close>

definition validate_prices :: "order_form \<Rightarrow> price_type \<Rightarrow> order_error option" where
  "validate_prices f pt =
     (case (if pt \<in> {LIMIT, SL} then validate_price f else None) of
        Some e \<Rightarrow> Some e
      | None \<Rightarrow>
          (case (if pt \<in> {SL, SL_M} then validate_trigger f else None) of
             Some e \<Rightarrow> Some e
           | None \<Rightarrow>
               if str_upper (fm_exchange f) \<notin> set VALID_EXCHANGES then Some Invalid_exchange
               else None))"

text \<open>\<open>None\<close> is a valid order.\<close>

definition validate_order :: "order_form \<Rightarrow> order_error option" where
  "validate_order f =
     (case missing_field f of
        Some field \<Rightarrow> Some (Missing_required_field field)
      | None \<Rightarrow>
          (case (parse_action (fm_action f), parse_price_type (fm_price_type f), parse_product (fm_product f)) of
             (None, _, _) \<Rightarrow> Some Invalid_action
           | (_, None, _) \<Rightarrow> Some Invalid_price_type
           | (_, _, None) \<Rightarrow> Some Invalid_product
           | (Some act, Some pt, Some pr) \<Rightarrow>
               (let exchange = str_upper (fm_exchange f) in
                if exchange \<in> {''NSE'', ''BSE''} \<and> pr = NRML then Some (Nrml_not_allowed exchange)
                else if exchange \<in> set DERIVATIVE_PRODUCT_EXCHANGES \<and> pr = CNC then
                  Some (Cnc_not_allowed exchange)
                else case fm_quantity f of
                       Number q \<Rightarrow>
                         if int_of_number q \<le> 0 then Some Quantity_not_positive
                         else validate_prices f pt
                     | _ \<Rightarrow> Some Invalid_quantity)))"

subsection \<open>The order as it is placed\<close>

record order_request =
  rq_symbol :: string
  rq_exchange :: string
  rq_action :: action
  rq_quantity :: int
  rq_price :: "rat option"
  rq_trigger_price :: "rat option"
  rq_price_type :: price_type
  rq_product :: product
  rq_strategy :: string
  rq_gtt_leg_id :: "nat option"

text \<open>\<open>None\<close>: \<open>Decimal(str(x))\<close> raises on a field that is not a number.\<close>

definition decimal_field :: "field_number \<Rightarrow> rat option option" where
  "decimal_field n =
     (if \<not> truthy n then Some None
      else case n of Number p \<Rightarrow> Some (Some p) | _ \<Rightarrow> None)"

definition extract_order :: "order_form \<Rightarrow> order_request option" where
  "extract_order f =
     (case (decimal_field (fm_price f), decimal_field (fm_trigger_price f), fm_quantity f,
            parse_action (fm_action f), parse_price_type (fm_price_type f), parse_product (fm_product f)) of
        (Some price, Some trigger, Number q, Some act, Some pt, Some pr) \<Rightarrow>
          Some \<lparr> rq_symbol = fm_symbol f, rq_exchange = str_upper (fm_exchange f), rq_action = act,
                 rq_quantity = int_of_number q,
                 rq_price = (if pt \<in> {MARKET, SL_M} then None else price),
                 rq_trigger_price = (if pt \<in> {MARKET, LIMIT} then None else trigger),
                 rq_price_type = pt, rq_product = pr, rq_strategy = fm_strategy f,
                 rq_gtt_leg_id = fm_gtt_leg_id f \<rparr>
      | _ \<Rightarrow> None)"

definition LOT_SIZE_EXCHANGES :: "string list" where
  "LOT_SIZE_EXCHANGES = [''NFO'', ''BFO'', ''CDS'', ''BCD'', ''MCX'', ''NCDEX'', ''CRYPTO'']"

definition lot_size_of :: "symbol_info \<Rightarrow> int" where
  "lot_size_of info = (case si_lotsize info of Some l \<Rightarrow> if l = 0 then 1 else l | None \<Rightarrow> 1)"

definition bad_lot :: "string \<Rightarrow> symbol_info \<Rightarrow> int \<Rightarrow> bool" where
  "bad_lot exchange info quantity \<longleftrightarrow>
     exchange \<in> set LOT_SIZE_EXCHANGES \<and> quantity mod lot_size_of info \<noteq> 0"

subsection \<open>Square-off times and the blocked window of MIS orders\<close>

definition parse_square_off :: "string \<Rightarrow> int" where
  "parse_square_off s = (case parse_hhmm s of Some t \<Rightarrow> t | None \<Rightarrow> hhmm 15 15)"

definition square_off_time :: "sandbox \<Rightarrow> string \<Rightarrow> int option" where
  "square_off_time db exchange =
     (if exchange \<in> {''NSE'', ''BSE'', ''NFO'', ''BFO''} then
        Some (parse_square_off (get_config db ''nse_bse_square_off_time'' ''15:15''))
      else if exchange \<in> {''CDS'', ''BCD''} then
        Some (parse_square_off (get_config db ''cds_bcd_square_off_time'' ''16:45''))
      else if exchange = ''MCX'' then Some (parse_square_off (get_config db ''mcx_square_off_time'' ''23:30''))
      else if exchange = ''NCDEX'' then Some (parse_square_off (get_config db ''ncdex_square_off_time'' ''17:00''))
      else None)"

definition position_for :: "string \<Rightarrow> string \<Rightarrow> string \<Rightarrow> product \<Rightarrow> sandbox \<Rightarrow> sandbox_position option" where
  "position_for uid symbol exchange pr db =
     find (\<lambda>p. po_user p = uid \<and> po_symbol p = symbol \<and> po_exchange p = exchange \<and> po_product p = pr)
       (positions db)"

definition opposite_side :: "action \<Rightarrow> int \<Rightarrow> bool" where
  "opposite_side act q \<longleftrightarrow> act = BUY \<and> q < 0 \<or> act = SELL \<and> q > 0"

definition mis_blocked :: "ext \<Rightarrow> string \<Rightarrow> order_request \<Rightarrow> sandbox \<Rightarrow> bool" where
  "mis_blocked X uid rq db \<longleftrightarrow>
     rq_product rq = MIS \<and>
     (case square_off_time db (rq_exchange rq) of
        None \<Rightarrow> False
      | Some square_off \<Rightarrow>
          (let current_time = time_of_day (x_now X) in
           (current_time \<ge> square_off \<or> current_time < hhmm 9 0) \<and>
           \<not> (case position_for uid (rq_symbol rq) (rq_exchange rq) MIS db of
                None \<Rightarrow> False
              | Some p \<Rightarrow> po_quantity p \<noteq> 0 \<and> opposite_side (rq_action rq) (po_quantity p))))"

subsection \<open>Delivery sells\<close>

definition holding_for :: "string \<Rightarrow> string \<Rightarrow> string \<Rightarrow> sandbox \<Rightarrow> sandbox_holding option" where
  "holding_for uid symbol exchange db =
     find (\<lambda>h. ho_user h = uid \<and> ho_symbol h = symbol \<and> ho_exchange h = exchange) (holdings db)"

definition position_qty :: "string \<Rightarrow> order_request \<Rightarrow> sandbox \<Rightarrow> int" where
  "position_qty uid rq db =
     (case position_for uid (rq_symbol rq) (rq_exchange rq) (rq_product rq) db of
        Some p \<Rightarrow> po_quantity p | None \<Rightarrow> 0)"

definition holdings_qty :: "string \<Rightarrow> order_request \<Rightarrow> sandbox \<Rightarrow> int" where
  "holdings_qty uid rq db =
     (case holding_for uid (rq_symbol rq) (rq_exchange rq) db of
        Some h \<Rightarrow> if ho_quantity h > 0 then ho_quantity h else 0 | None \<Rightarrow> 0)"

definition cnc_sell_rejection :: "string \<Rightarrow> order_request \<Rightarrow> sandbox \<Rightarrow> rejection option" where
  "cnc_sell_rejection uid rq db =
     (if rq_action rq = SELL \<and> rq_product rq = CNC then
        (let total_available = position_qty uid rq db + holdings_qty uid rq db in
         if total_available \<le> 0 then Some Cnc_nothing_to_sell
         else if rq_quantity rq > total_available then
           Some (Cnc_sell_exceeds (rq_quantity rq) (position_qty uid rq db) (holdings_qty uid rq db))
         else None)
      else None)"

subsection \<open>The price an order's margin is worked out at\<close>

text \<open>What pricing hands on: the margin price, the quote for an immediate fill, the trigger.\<close>

record pricing =
  pr_margin_price :: "rat option"
  pr_cached_quote :: "quote option"
  pr_trigger_met :: bool

definition live :: "quote option \<Rightarrow> quote option" where
  "live q = (case q of Some x \<Rightarrow> if q_ltp x > 0 then Some x else None | None \<Rightarrow> None)"

text \<open>The pre-fetched quote if it has a price, else up to three fetches, the first that has one.\<close>

definition first_live :: "ext \<Rightarrow> order_request \<Rightarrow> quote option \<Rightarrow> quote option" where
  "first_live X rq prefetched =
     (case live prefetched of
        Some q \<Rightarrow> Some q
      | None \<Rightarrow>
          (case live (x_quote X 0 (rq_symbol rq) (rq_exchange rq)) of
             Some q \<Rightarrow> Some q
           | None \<Rightarrow>
               (case live (x_quote X 1 (rq_symbol rq) (rq_exchange rq)) of
                  Some q \<Rightarrow> Some q
                | None \<Rightarrow> live (x_quote X 2 (rq_symbol rq) (rq_exchange rq)))))"

definition market_pricing :: "ext \<Rightarrow> string \<Rightarrow> order_request \<Rightarrow> quote option \<Rightarrow> sandbox \<Rightarrow> pricing" where
  "market_pricing X uid rq prefetched db =
     (case first_live X rq prefetched of
        Some q \<Rightarrow> \<lparr>pr_margin_price = Some (q_ltp q), pr_cached_quote = Some q, pr_trigger_met = False\<rparr>
      | None \<Rightarrow>
          \<lparr>pr_margin_price =
             (case position_for uid (rq_symbol rq) (rq_exchange rq) (rq_product rq) db of
                None \<Rightarrow> None
              | Some row \<Rightarrow>
                  (case po_ltp (read_position X row) of
                     Some l \<Rightarrow> if l > 0 then Some l else None | None \<Rightarrow> None)),
           pr_cached_quote = None, pr_trigger_met = False\<rparr>)"

definition limit_pricing :: "ext \<Rightarrow> order_request \<Rightarrow> quote option \<Rightarrow> pricing" where
  "limit_pricing X rq prefetched =
     \<lparr>pr_margin_price = rq_price rq,
      pr_cached_quote =
        (case (first_live X rq prefetched, rq_price rq) of
           (Some q, Some p) \<Rightarrow> if limit_met (rq_action rq) p (q_ltp q) then Some q else None
         | _ \<Rightarrow> None),
      pr_trigger_met = False\<rparr>"

definition stop_pricing :: "ext \<Rightarrow> order_request \<Rightarrow> quote option \<Rightarrow> pricing" where
  "stop_pricing X rq prefetched =
     (case (first_live X rq prefetched, rq_trigger_price rq) of
        (Some q, Some t) \<Rightarrow>
          (let met = trigger_met (rq_action rq) t (q_ltp q);
               fillable = (rq_price_type rq = SL_M \<or>
                 (case rq_price rq of Some p \<Rightarrow> limit_met (rq_action rq) p (q_ltp q) | None \<Rightarrow> False))
           in \<lparr>pr_margin_price = Some t, pr_cached_quote = (if met \<and> fillable then Some q else None),
               pr_trigger_met = met\<rparr>)
      | (_, t) \<Rightarrow> \<lparr>pr_margin_price = t, pr_cached_quote = None, pr_trigger_met = False\<rparr>)"

definition price_order :: "ext \<Rightarrow> string \<Rightarrow> order_request \<Rightarrow> quote option \<Rightarrow> sandbox \<Rightarrow> order_error + pricing" where
  "price_order X uid rq prefetched db =
     (let pricing =
        (case rq_price_type rq of
           MARKET \<Rightarrow> market_pricing X uid rq prefetched db
         | LIMIT \<Rightarrow> limit_pricing X rq prefetched
         | SL \<Rightarrow> stop_pricing X rq prefetched
         | SL_M \<Rightarrow> stop_pricing X rq prefetched)
      in case pr_margin_price pricing of
           None \<Rightarrow> Inl (if rq_price_type rq = MARKET then No_market_price else Invalid_margin_price)
         | Some p \<Rightarrow> if p \<le> 0 then Inl Invalid_margin_price else Inr pricing)"

subsection \<open>The margin an order reserves\<close>

definition margin_to_block :: "string \<Rightarrow> order_request \<Rightarrow> rat \<Rightarrow> sandbox \<Rightarrow> order_error + rat" where
  "margin_to_block uid rq price db =
     (case calculate_margin_required db (rq_symbol rq) (rq_exchange rq) (rq_product rq) (rq_quantity rq)
             price (Some (rq_action rq)) of
        Inl e \<Rightarrow> Inl (Margin_not_calculable e)
      | Inr margin_required \<Rightarrow>
          (let held_qty = position_qty uid rq db in
           if opposite_side (rq_action rq) held_qty then
             (if rq_quantity rq \<le> \<bar>held_qty\<bar> then Inr 0
              else case calculate_margin_required db (rq_symbol rq) (rq_exchange rq) (rq_product rq)
                          (rq_quantity rq - \<bar>held_qty\<bar>) price (Some (rq_action rq)) of
                     Inl e \<Rightarrow> Inl Internal_error
                   | Inr excess_margin \<Rightarrow> Inr excess_margin)
           else Inr margin_required))"

definition should_block_margin :: "action \<Rightarrow> string \<Rightarrow> string \<Rightarrow> product \<Rightarrow> bool" where
  "should_block_margin act symbol exchange pr \<longleftrightarrow>
     act = BUY \<or> is_option symbol exchange \<or> is_future symbol exchange \<or> pr \<in> {MIS, NRML}"

text \<open>
  The reservation: checked, then staged, so it lands in the order's own commit.  The result is
  the margin the order records.  On a refusal only what the availability check committed (a
  funds row created) remains.
\<close>

definition reserve_margin ::
    "ext \<Rightarrow> string \<Rightarrow> order_request \<Rightarrow> rat \<Rightarrow> sandbox \<Rightarrow> (fund_msg + rat) \<times> sandbox" where
  "reserve_margin X uid rq amount db =
     (if \<not> should_block_margin (rq_action rq) (rq_symbol rq) (rq_exchange rq) (rq_product rq) then (Inr 0, db)
      else if amount > 0 then
        (case check_margin_available X uid amount db of
           ((can_trade, msg), db1) \<Rightarrow>
             if \<not> can_trade then (Inl msg, db1)
             else (case stage_margin_delta X uid amount db1 of
                     ((ok, msg'), db2) \<Rightarrow> if ok then (Inr amount, db2) else (Inl msg', db1)))
      else (Inr amount, db))"

subsection \<open>Order ids\<close>

text \<open>
  The loop of \<open>_generate_order_id\<close>: one past the last sequence number, never below the
  millisecond of the day, until an id that is not stored.
\<close>

function order_id_loop :: "orderid list \<Rightarrow> int \<Rightarrow> int \<Rightarrow> int \<Rightarrow> int" where
  "order_id_loop taken day ms last_seq =
     (let seq = max ms (last_seq + 1) in
      if (day, seq) \<in> set taken then order_id_loop taken day ms seq else seq)"
  by pat_completeness auto

termination
proof (relation "measure (\<lambda>(taken, day, ms, last_seq). card {s. (day, s) \<in> set taken \<and> last_seq < s})")
  fix taken :: "orderid list" and day ms last_seq seq :: int
  assume seq: "seq = max ms (last_seq + 1)" and hit: "(day, seq) \<in> set taken"
  let ?later = "\<lambda>l. {s. (day, s) \<in> set taken \<and> l < s}"
  have "?later last_seq \<subseteq> snd ` set taken" by (auto intro: rev_image_eqI)
  then have "finite (?later last_seq)" by (rule finite_subset) simp
  moreover have "?later seq \<subset> ?later last_seq"
  proof
    show "?later seq \<subseteq> ?later last_seq" using seq by auto
    have "seq \<in> ?later last_seq" "seq \<notin> ?later seq" using seq hit by auto
    then show "?later seq \<noteq> ?later last_seq" by blast
  qed
  ultimately have "card (?later seq) < card (?later last_seq)" by (rule psubset_card_mono)
  then show "((taken, day, ms, seq), taken, day, ms, last_seq) \<in>
      measure (\<lambda>(taken, day, ms, last_seq). card {s. (day, s) \<in> set taken \<and> last_seq < s})"
    by (simp only: in_measure prod.case)
qed simp

declare order_id_loop.simps [simp del]

definition generate_order_id :: "ext \<Rightarrow> sandbox \<Rightarrow> orderid \<times> sandbox" where
  "generate_order_id X db =
     (let day = day_of (x_now X);
          last_seq = (if last_order_day db = Some day then last_order_seq db else -1);
          seq = order_id_loop (map od_orderid (orders db)) day (time_of_day (x_now X)) last_seq
      in ((day, seq), db\<lparr>last_order_day := Some day, last_order_seq := seq\<rparr>))"

subsection \<open>The order row\<close>

definition stored_price :: "order_request \<Rightarrow> pricing \<Rightarrow> rat option" where
  "stored_price rq pricing = (if rq_price_type rq = MARKET then pr_margin_price pricing else rq_price rq)"

definition order_of ::
    "ext \<Rightarrow> string \<Rightarrow> order_request \<Rightarrow> pricing \<Rightarrow> orderid \<Rightarrow> nat \<Rightarrow> sandbox_order" where
  "order_of X uid rq pricing oid rid =
     \<lparr> od_id = rid, od_orderid = oid, od_user = uid, od_strategy = rq_strategy rq,
       od_symbol = rq_symbol rq, od_exchange = rq_exchange rq, od_action = rq_action rq,
       od_quantity = rq_quantity rq, od_price = stored_price rq pricing,
       od_trigger_price = rq_trigger_price rq, od_price_type = rq_price_type rq,
       od_product = rq_product rq, od_status = Open, od_average_price = None,
       od_filled_quantity = 0, od_pending_quantity = rq_quantity rq, od_rejection = None,
       od_margin_blocked = None, od_gtt_leg_id = None, od_timestamp = x_now X \<rparr>"

definition rejected_order ::
    "ext \<Rightarrow> string \<Rightarrow> order_request \<Rightarrow> pricing \<Rightarrow> orderid \<Rightarrow> nat \<Rightarrow> rejection \<Rightarrow> sandbox_order" where
  "rejected_order X uid rq pricing oid rid reason =
     (order_of X uid rq pricing oid rid)\<lparr>od_status := Rejected, od_pending_quantity := 0,
        od_rejection := Some reason, od_margin_blocked := Some 0\<rparr>"

definition initial_order_status :: "order_request \<Rightarrow> pricing \<Rightarrow> order_status" where
  "initial_order_status rq pricing =
     (if rq_price_type rq \<in> {SL, SL_M} \<and> \<not> pr_trigger_met pricing then Trigger_pending else Open)"

text \<open>A zero reservation is stored as NULL.\<close>

definition accepted_order ::
    "ext \<Rightarrow> string \<Rightarrow> order_request \<Rightarrow> pricing \<Rightarrow> orderid \<Rightarrow> nat \<Rightarrow> rat \<Rightarrow> sandbox_order" where
  "accepted_order X uid rq pricing oid rid margin =
     (order_of X uid rq pricing oid rid)\<lparr>od_status := initial_order_status rq pricing,
        od_margin_blocked := (if margin > 0 then Some margin else None),
        od_gtt_leg_id := rq_gtt_leg_id rq\<rparr>"

subsection \<open>Immediate execution\<close>

definition immediate_execution ::
    "ext \<Rightarrow> order_request \<Rightarrow> pricing \<Rightarrow> sandbox_order \<Rightarrow> sandbox \<Rightarrow> sandbox" where
  "immediate_execution X rq pricing r db =
     (case pr_cached_quote pricing of
        None \<Rightarrow> db
      | Some q \<Rightarrow>
          if quote_looks_stale q then db
          else if rq_price_type rq = MARKET then process_order X r q db
          else if q_ltp q > 0 then execute_order X r (q_ltp q) db
          else db)"

definition notify_order_placed :: "ext \<Rightarrow> nat \<Rightarrow> sandbox \<Rightarrow> sandbox" where
  "notify_order_placed X rid db =
     (case order_row X rid db of
        Some r \<Rightarrow> if is_pending r \<and> x_ws_running X then publish (Ws_order_placed (od_orderid r)) db else db
      | None \<Rightarrow> db)"

subsection \<open>Placing an order\<close>

text \<open>
  The insert and what follows.  \<open>db0\<close> is what a failed insert rolls back to (the id counters are
  the process's, not the database's, so they stay); a second order for one GTT leg violates the
  unique column and fails.
\<close>

definition insert_order ::
    "ext \<Rightarrow> string \<Rightarrow> order_request \<Rightarrow> pricing \<Rightarrow> rat \<Rightarrow> sandbox \<Rightarrow> sandbox \<Rightarrow> order_response \<times> sandbox" where
  "insert_order X uid rq pricing margin db0 db =
     (case generate_order_id X db of
        (oid, db1) \<Rightarrow>
          (let rid = next_id od_id (orders db1) in
           case cnc_sell_rejection uid rq db of
             Some reason \<Rightarrow>
               (Order_rejected oid reason,
                publish (Order_update oid Rejected)
                  (db1\<lparr>orders := orders db1 @ [rejected_order X uid rq pricing oid rid reason]\<rparr>))
           | None \<Rightarrow>
               if rq_gtt_leg_id rq \<noteq> None \<and> (\<exists>r \<in> set (orders db1). od_gtt_leg_id r = rq_gtt_leg_id rq) then
                 (Order_error 500 Internal_error,
                  db0\<lparr>last_order_day := last_order_day db1, last_order_seq := last_order_seq db1\<rparr>)
               else
                 (let r = accepted_order X uid rq pricing oid rid margin;
                      db2 = publish (Order_update oid (od_status r)) (db1\<lparr>orders := orders db1 @ [r]\<rparr>);
                      db3 = immediate_execution X rq pricing (read_order X r) db2
                  in (Order_ok oid, notify_order_placed X rid db3))))"

definition place_request ::
    "ext \<Rightarrow> string \<Rightarrow> order_request \<Rightarrow> quote option \<Rightarrow> sandbox \<Rightarrow> order_response \<times> sandbox" where
  "place_request X uid rq prefetched db =
     (case symtoken db (rq_symbol rq) (rq_exchange rq) of
        None \<Rightarrow> (Order_error 400 Unknown_symbol, db)
      | Some info \<Rightarrow>
          if bad_lot (rq_exchange rq) info (rq_quantity rq) then
            (Order_error 400 (Not_lot_multiple (lot_size_of info)), db)
          else if mis_blocked X uid rq db then (Order_error 400 Mis_after_square_off, db)
          else (case price_order X uid rq prefetched db of
                  Inl e \<Rightarrow> (Order_error 400 e, db)
                | Inr pricing \<Rightarrow>
                    (case margin_to_block uid rq (the (pr_margin_price pricing)) db of
                       Inl e \<Rightarrow> (Order_error (if e = Internal_error then 500 else 400) e, db)
                     | Inr amount \<Rightarrow>
                         (case reserve_margin X uid rq amount db of
                            (Inl msg, db1) \<Rightarrow> (Order_error 400 (Margin_refused msg), db1)
                          | (Inr margin, db2) \<Rightarrow>
                              insert_order X uid rq pricing margin 
                                (if margin > 0 then ensure_funds_initialized X uid db else db) db2))))"

definition place_order ::
    "ext \<Rightarrow> string \<Rightarrow> order_form \<Rightarrow> quote option \<Rightarrow> sandbox \<Rightarrow> order_response \<times> sandbox" where
  "place_order X uid f prefetched db =
     (case validate_order f of
        Some e \<Rightarrow> (Order_error 400 e, db)
      | None \<Rightarrow>
          (case extract_order f of
             None \<Rightarrow> (Order_error 500 Internal_error, db)
           | Some rq \<Rightarrow> place_request X uid rq prefetched db))"

subsection \<open>Modifying an order\<close>

record order_changes =
  ch_quantity :: field_number
  ch_price :: field_number
  ch_trigger_price :: field_number

definition find_order :: "string \<Rightarrow> orderid \<Rightarrow> sandbox \<Rightarrow> sandbox_order option" where
  "find_order uid oid db = find (\<lambda>r. od_orderid r = oid \<and> od_user r = uid) (orders db)"

definition allows_price :: "sandbox_order \<Rightarrow> bool" where
  "allows_price r \<longleftrightarrow> od_price_type r \<in> {LIMIT, SL}"

definition allows_trigger :: "sandbox_order \<Rightarrow> bool" where
  "allows_trigger r \<longleftrightarrow> od_price_type r \<in> {SL, SL_M}"

definition new_quantity :: "sandbox \<Rightarrow> sandbox_order \<Rightarrow> field_number \<Rightarrow> order_error + int option" where
  "new_quantity db r n =
     (case n of
        Absent \<Rightarrow> Inr None
      | Unreadable \<Rightarrow> Inl Internal_error
      | Number x \<Rightarrow>
          (case symtoken db (od_symbol r) (od_exchange r) of
             Some info \<Rightarrow>
               if bad_lot (od_exchange r) info (int_of_number x) then Inl (Not_lot_multiple (lot_size_of info))
               else Inr (Some (int_of_number x))
           | None \<Rightarrow> Inr (Some (int_of_number x))))"

definition new_decimal :: "bool \<Rightarrow> order_error \<Rightarrow> field_number \<Rightarrow> order_error + rat option" where
  "new_decimal allowed refusal n =
     (if \<not> truthy n then Inr None
      else if \<not> allowed then Inl refusal
      else case n of Number p \<Rightarrow> Inr (Some p) | _ \<Rightarrow> Inl Internal_error)"

text \<open>Only what differs from the values read is written.\<close>

definition modify_row ::
    "sandbox_order \<Rightarrow> int option \<Rightarrow> rat option \<Rightarrow> rat option \<Rightarrow> sandbox_order \<Rightarrow> sandbox_order" where
  "modify_row r q p t row =
     row\<lparr>od_quantity := (case q of Some n \<Rightarrow> if n \<noteq> od_quantity r then n else od_quantity row
                                  | None \<Rightarrow> od_quantity row),
         od_pending_quantity := (case q of Some n \<Rightarrow> if n \<noteq> od_pending_quantity r then n else od_pending_quantity row
                                         | None \<Rightarrow> od_pending_quantity row),
         od_price := (if p \<noteq> None \<and> p \<noteq> od_price r then p else od_price row),
         od_trigger_price := (if t \<noteq> None \<and> t \<noteq> od_trigger_price r then t else od_trigger_price row)\<rparr>"

definition error_code :: "order_error \<Rightarrow> nat" where
  "error_code e = (if e = Internal_error then 500 else 400)"

definition status_in :: "sandbox \<Rightarrow> nat \<Rightarrow> order_status" where
  "status_in db rid = (case find (\<lambda>o'. od_id o' = rid) (orders db) of Some o' \<Rightarrow> od_status o' | None \<Rightarrow> Cancelled)"

text \<open>\<open>r\<close> is the order as it was read; the write is conditional on the row still resting.\<close>

definition modify_from ::
    "sandbox_order \<Rightarrow> order_changes \<Rightarrow> sandbox \<Rightarrow> order_response \<times> sandbox" where
  "modify_from r ch db =
     (case new_quantity db r (ch_quantity ch) of
        Inl e \<Rightarrow> (Order_error (error_code e) e, db)
      | Inr q \<Rightarrow>
          (case new_decimal (allows_price r) (Price_not_accepted (od_price_type r)) (ch_price ch) of
             Inl e \<Rightarrow> (Order_error (error_code e) e, db)
           | Inr p \<Rightarrow>
               (case new_decimal (allows_trigger r) (Trigger_price_not_accepted (od_price_type r)) (ch_trigger_price ch) of
                  Inl e \<Rightarrow> (Order_error (error_code e) e, db)
                | Inr t \<Rightarrow>
                    (case claim_row od_id is_pending (modify_row r q p t) (od_id r) (orders db) of
                       (modified, rows) \<Rightarrow>
                         if modified then (Order_ok (od_orderid r), db\<lparr>orders := rows\<rparr>)
                         else (Order_error 400 (Order_not_pending (status_in db (od_id r))), db)))))"

definition modify_order ::
    "ext \<Rightarrow> string \<Rightarrow> orderid \<Rightarrow> order_changes \<Rightarrow> sandbox \<Rightarrow> order_response \<times> sandbox" where
  "modify_order X uid oid ch db =
     (case find_order uid oid db of
        None \<Rightarrow> (Order_error 404 Order_not_found, db)
      | Some row \<Rightarrow>
          (let r = read_order X row in
           if \<not> is_pending r then (Order_error 400 (Order_not_pending (od_status r)), db)
           else modify_from r ch db))"

subsection \<open>Cancelling an order\<close>

definition recognised_close :: "string \<Rightarrow> sandbox_order \<Rightarrow> sandbox \<Rightarrow> bool" where
  "recognised_close uid r db \<longleftrightarrow>
     (case position_for uid (od_symbol r) (od_exchange r) (od_product r) db of
        None \<Rightarrow> False
      | Some p \<Rightarrow> po_quantity p \<noteq> 0 \<and> od_quantity r \<le> \<bar>po_quantity p\<bar> \<and> opposite_side (od_action r) (po_quantity p))"

definition has_recorded_margin :: "string \<Rightarrow> sandbox_order \<Rightarrow> sandbox \<Rightarrow> bool" where
  "has_recorded_margin uid r db \<longleftrightarrow>
     (case od_margin_blocked r of
        None \<Rightarrow> True
      | Some m \<Rightarrow> m > 0 \<or> m = 0 \<and> recognised_close uid r db)"

text \<open>Orders from before the column: the margin is worked out again.\<close>

definition fallback_price :: "ext \<Rightarrow> sandbox_order \<Rightarrow> rat" where
  "fallback_price X r =
     (case od_price r of
        Some p \<Rightarrow> if p \<noteq> 0 then p
                   else (case x_quote X 0 (od_symbol r) (od_exchange r) of Some q \<Rightarrow> q_ltp q | None \<Rightarrow> 0)
      | None \<Rightarrow> (case x_quote X 0 (od_symbol r) (od_exchange r) of Some q \<Rightarrow> q_ltp q | None \<Rightarrow> 0))"

definition fallback_release :: "ext \<Rightarrow> sandbox_order \<Rightarrow> sandbox \<Rightarrow> rat option" where
  "fallback_release X r db =
     (if symtoken db (od_symbol r) (od_exchange r) = None then None
      else if \<not> should_block_margin (od_action r) (od_symbol r) (od_exchange r) (od_product r) then None
      else if fallback_price X r > 0 then
        (case calculate_margin_required db (od_symbol r) (od_exchange r) (od_product r) (od_quantity r)
                (fallback_price X r) (Some (od_action r)) of
           Inl e \<Rightarrow> None
         | Inr m \<Rightarrow> if m \<noteq> 0 then Some m else None)
      else None)"

definition release_on_cancel :: "ext \<Rightarrow> string \<Rightarrow> sandbox_order \<Rightarrow> sandbox \<Rightarrow> rat option" where
  "release_on_cancel X uid r db =
     (if has_recorded_margin uid r db then
        (case od_margin_blocked r of Some m \<Rightarrow> if m > 0 then Some m else None | None \<Rightarrow> None)
      else fallback_release X r db)"

definition cancel_row :: "sandbox_order \<Rightarrow> sandbox_order" where
  "cancel_row r = r\<lparr>od_status := Cancelled\<rparr>"

definition claim_order_cancel :: "nat \<Rightarrow> sandbox \<Rightarrow> bool \<times> sandbox" where
  "claim_order_cancel rid db =
     (case claim_row od_id is_pending cancel_row rid (orders db) of
        (won, rows) \<Rightarrow> (won, if won then db\<lparr>orders := rows\<rparr> else db))"

text \<open>
  \<open>r\<close> is the order as it was read.  A refused release rolls the claim back, unless creating a
  missing funds row has already committed it.
\<close>

definition cancel_from :: "ext \<Rightarrow> string \<Rightarrow> sandbox_order \<Rightarrow> sandbox \<Rightarrow> order_response \<times> sandbox" where
  "cancel_from X uid r db =
     (case claim_order_cancel (od_id r) db of
        (cancelled, db1) \<Rightarrow>
          if \<not> cancelled then (Order_error 400 (Order_not_pending (status_in db (od_id r))), db)
          else (case release_on_cancel X uid r db of
                  None \<Rightarrow> (Order_ok (od_orderid r), publish (Order_update (od_orderid r) Cancelled) db1)
                | Some amount \<Rightarrow>
                    (case stage_release_margin X uid amount 0 True db1 of
                       ((ok, msg), db2) \<Rightarrow>
                         if ok then (Order_ok (od_orderid r), publish (Order_update (od_orderid r) Cancelled) db2)
                         else (Order_error 409 (Release_refused msg),
                               if funds_of uid db1 = None then db2 else db))))"

definition cancel_order :: "ext \<Rightarrow> string \<Rightarrow> orderid \<Rightarrow> sandbox \<Rightarrow> order_response \<times> sandbox" where
  "cancel_order X uid oid db =
     (case find_order uid oid db of
        None \<Rightarrow> (Order_error 404 Order_not_found, db)
      | Some row \<Rightarrow>
          (let r = read_order X row in
           if \<not> is_pending r then (Order_error 400 (Order_not_pending (od_status r)), db)
           else cancel_from X uid r db))"

subsection \<open>The order book\<close>

definition session_start :: "int \<Rightarrow> time \<Rightarrow> time" where
  "session_start expiry now =
     (if time_of_day now < expiry then (day_of now - 1) * ms_per_day + expiry
      else day_of now * ms_per_day + expiry)"

record order_statistics =
  total_buy_orders :: nat
  total_sell_orders :: nat
  total_completed_orders :: nat
  total_open_orders :: nat
  total_rejected_orders :: nat
  total_trigger_pending_orders :: nat

definition calculate_order_statistics :: "sandbox_order list \<Rightarrow> order_statistics" where
  "calculate_order_statistics rows =
     \<lparr> total_buy_orders = row_count (\<lambda>r. od_action r = BUY) rows,
       total_sell_orders = row_count (\<lambda>r. od_action r = SELL) rows,
       total_completed_orders = row_count (\<lambda>r. od_status r = Complete) rows,
       total_open_orders = row_count (\<lambda>r. od_status r = Open) rows,
       total_rejected_orders = row_count (\<lambda>r. od_status r = Rejected) rows,
       total_trigger_pending_orders = row_count (\<lambda>r. od_status r = Trigger_pending) rows \<rparr>"

text \<open>The user's orders of the session, newest first (equal times in either order).\<close>

definition get_orderbook ::
    "ext \<Rightarrow> int \<Rightarrow> string \<Rightarrow> sandbox \<Rightarrow> sandbox_order list \<times> order_statistics" where
  "get_orderbook X expiry uid db =
     (let rows = filter (\<lambda>r. od_user r = uid \<and> session_start expiry (x_now X) \<le> od_timestamp r) (orders db);
          sorted_rows = rev (sort_key od_timestamp (map (read_order X) rows))
      in (sorted_rows, calculate_order_statistics sorted_rows))"

definition get_order_status :: "ext \<Rightarrow> string \<Rightarrow> orderid \<Rightarrow> sandbox \<Rightarrow> order_error + sandbox_order" where
  "get_order_status X uid oid db =
     (case find_order uid oid db of
        None \<Rightarrow> Inl Order_not_found
      | Some row \<Rightarrow> Inr (read_order X row))"

end
