(* ===== verification/OrderLaws.thy ===== *)
theory OrderLaws
  imports Fills OrderManager
begin

text \<open>
  The laws of the order manager: fresh ids, well-formed orders, refusals without a trace, the
  race for a resting order, and the reservation an order takes and gives back.
\<close>

subsection \<open>Order ids\<close>

lemma order_id_loop_fresh:
  "(day, order_id_loop taken day ms l) \<notin> set taken \<and> l < order_id_loop taken day ms l \<and>
   ms \<le> order_id_loop taken day ms l"
proof (induction taken day ms l rule: order_id_loop.induct)
  case (1 taken day ms l)
  let ?seq = "max ms (l + 1)"
  show ?case
  proof (cases "(day, ?seq) \<in> set taken")
    case True
    then have "order_id_loop taken day ms l = order_id_loop taken day ms ?seq"
      by (subst order_id_loop.simps) (simp add: Let_def)
    with 1 [OF refl True] show ?thesis by simp
  next
    case False
    then have "order_id_loop taken day ms l = ?seq"
      by (subst order_id_loop.simps) (simp add: Let_def)
    with False show ?thesis by simp
  qed
qed

text \<open>Every sequence number the loop passes over is stored already.\<close>

lemma order_id_loop_skips:
  "max ms (l + 1) \<le> s \<Longrightarrow> s < order_id_loop taken day ms l \<Longrightarrow> (day, s) \<in> set taken"
proof (induction taken day ms l rule: order_id_loop.induct)
  case (1 taken day ms l)
  let ?seq = "max ms (l + 1)"
  show ?case
  proof (cases "(day, ?seq) \<in> set taken")
    case True
    then have loop: "order_id_loop taken day ms l = order_id_loop taken day ms ?seq"
      by (subst order_id_loop.simps) (simp add: Let_def)
    show ?thesis
    proof (cases "s = ?seq")
      case False
      then show ?thesis
        using 1(1) [OF refl True] 1(2,3) by (simp add: loop)
    qed (use True in simp)
  next
    case False
    then have "order_id_loop taken day ms l = ?seq"
      by (subst order_id_loop.simps) (simp add: Let_def)
    with 1(2,3) show ?thesis by linarith
  qed
qed

lemma order_id_loop_bound:
  "order_id_loop taken day ms l \<le> max ms (l + 1) + int (length taken)"
proof (rule ccontr)
  let ?lo = "max ms (l + 1)"
  assume "\<not> ?thesis"
  then have "{?lo ..?lo + int (length taken)} \<subseteq> {s. (day, s) \<in> set taken}"
    using order_id_loop_skips [of ms l _ taken day] by fastforce
  then have "Pair day ` {?lo ..?lo + int (length taken)} \<subseteq> set taken" by auto
  then have "card (Pair day ` {?lo ..?lo + int (length taken)}) \<le> card (set taken)"
    by (intro card_mono) simp_all
  moreover have "card (Pair day ` {?lo ..?lo + int (length taken)}) = Suc (length taken)"
    by (subst card_image) (simp_all add: inj_on_def)
  ultimately show False using card_length [of taken] by linarith
qed

lemma order_ids_fresh:
  "generate_order_id X db = ((day, seq), db') \<Longrightarrow> (day, seq) \<notin> od_orderid ` set (orders db)"
  using order_id_loop_fresh [of _ "map od_orderid (orders db)"] by (auto simp: generate_order_id_def Let_def)

text \<open>C10: the id of an order is new in the table, belongs to the current day, is larger than every id
  this process issued that day and never below the millisecond of the day; it exceeds the larger
  of the two by at most the number of stored orders, so the search for it always ends.\<close>

theorem order_ids_fresh_and_increasing:
  assumes "generate_order_id X db = ((day, seq), db')"
  shows "(day, seq) \<notin> od_orderid ` set (orders db) \<and> day = day_of (x_now X) \<and>
         time_of_day (x_now X) \<le> seq \<and> (last_order_day db = Some day \<longrightarrow> last_order_seq db < seq) \<and>
         seq \<le> max (time_of_day (x_now X)) (max 0 (last_order_seq db + 1)) + int (length (orders db)) \<and>
         last_order_day db' = Some day \<and> last_order_seq db' = seq"
proof -
  let ?l = "if last_order_day db = Some day then last_order_seq db else -1"
  let ?taken = "map od_orderid (orders db)"
  have d: "day = day_of (x_now X)" and s: "seq = order_id_loop ?taken day (time_of_day (x_now X)) ?l"
    and db': "last_order_day db' = Some day" "last_order_seq db' = seq"
    using assms by (auto simp: generate_order_id_def Let_def)
  have "max (time_of_day (x_now X)) (?l + 1) \<le> max (time_of_day (x_now X)) (max 0 (last_order_seq db + 1))"
    by (auto simp: max_def)
  then show ?thesis
    using order_id_loop_fresh [of day ?taken "time_of_day (x_now X)" ?l]
      order_id_loop_bound [of ?taken day "time_of_day (x_now X)" ?l] d s db'
    by auto
qed

theorem order_ids_fresh_and_increasing_witness:
  "\<exists>seq db'. generate_order_id sample_ext sample_market = ((0, seq), db') \<and> seq \<noteq> 1 \<and> 36000000 \<le> seq"
proof -
  obtain day seq db' where g: "generate_order_id sample_ext sample_market = ((day, seq), db')"
    by (metis prod.collapse)
  have "day = 0" "36000000 \<le> seq" "(day, seq) \<noteq> (0, 1)"
    using order_ids_fresh_and_increasing [OF g]
    by (auto simp: sample_ext_def day_of_def time_of_day_def ms_per_day_def sample_market_simps)
  with g show ?thesis by blast
qed

subsection \<open>Orders that pass validation\<close>

definition order_request_ok :: "order_request \<Rightarrow> bool" where
  "order_request_ok rq \<longleftrightarrow>
     rq_quantity rq > 0 \<and> rq_exchange rq \<in> set VALID_EXCHANGES \<and>
     (rq_exchange rq \<in> {''NSE'', ''BSE''} \<longrightarrow> rq_product rq \<noteq> NRML) \<and>
     (rq_exchange rq \<in> set DERIVATIVE_PRODUCT_EXCHANGES \<longrightarrow> rq_product rq \<noteq> CNC) \<and>
     (case rq_price_type rq of
        MARKET \<Rightarrow> rq_price rq = None \<and> rq_trigger_price rq = None
      | LIMIT \<Rightarrow> (\<exists>p > 0. rq_price rq = Some p) \<and> rq_trigger_price rq = None
      | SL \<Rightarrow> (\<exists>p > 0. rq_price rq = Some p) \<and> (\<exists>t > 0. rq_trigger_price rq = Some t)
      | SL_M \<Rightarrow> rq_price rq = None \<and> (\<exists>t > 0. rq_trigger_price rq = Some t))"

lemma validate_price_None: "validate_price f = None \<Longrightarrow> \<exists>p > 0. fm_price f = Number p"
  by (auto simp: validate_price_def truthy_def not_le split: if_splits field_number.splits)

lemma validate_trigger_None: "validate_trigger f = None \<Longrightarrow> \<exists>p > 0. fm_trigger_price f = Number p"
  by (auto simp: validate_trigger_def truthy_def not_le split: if_splits field_number.splits)

lemma validate_prices_None:
  "validate_prices f pt = None \<Longrightarrow>
   (pt \<in> {LIMIT, SL} \<longrightarrow> validate_price f = None) \<and> (pt \<in> {SL, SL_M} \<longrightarrow> validate_trigger f = None) \<and>
   str_upper (fm_exchange f) \<in> set VALID_EXCHANGES"
  by (auto simp: validate_prices_def split: option.splits if_splits)

text \<open>C11: an order form that passes validation and is read without an error is a complete order: a
  positive quantity, a valid exchange, a product that exchange trades, and exactly the prices
  its type calls for, each positive; stale fields of other types are dropped.\<close>

theorem validated_orders_are_complete:
  assumes "validate_order f = None" and "extract_order f = Some rq"
  shows "order_request_ok rq"
proof -
  obtain act pt pr q where p: "parse_action (fm_action f) = Some act" "parse_price_type (fm_price_type f) = Some pt"
    "parse_product (fm_product f) = Some pr" "fm_quantity f = Number q"
    using assms(1) by (auto simp: validate_order_def Let_def split: option.splits field_number.splits if_splits)
  with assms(1) have v: "int_of_number q > 0" "validate_prices f pt = None"
    "str_upper (fm_exchange f) \<in> {''NSE'', ''BSE''} \<longrightarrow> pr \<noteq> NRML"
    "str_upper (fm_exchange f) \<in> set DERIVATIVE_PRODUCT_EXCHANGES \<longrightarrow> pr \<noteq> CNC"
    by (auto simp: validate_order_def Let_def not_le split: option.splits if_splits)
  note prices = validate_prices_None [OF v(2)]
  have price: "\<exists>x > 0. decimal_field (fm_price f) = Some (Some x)" if "pt \<in> {LIMIT, SL}"
    using that prices validate_price_None [of f] by (auto simp: decimal_field_def truthy_def)
  have trigger: "\<exists>x > 0. decimal_field (fm_trigger_price f) = Some (Some x)" if "pt \<in> {SL, SL_M}"
    using that prices validate_trigger_None [of f] by (auto simp: decimal_field_def truthy_def)
  obtain price trig where d: "decimal_field (fm_price f) = Some price" "decimal_field (fm_trigger_price f) = Some trig"
    using assms(2) by (auto simp: extract_order_def split: option.splits)
  then have rq: "rq = \<lparr> rq_symbol = fm_symbol f, rq_exchange = str_upper (fm_exchange f), rq_action = act,
                 rq_quantity = int_of_number q,
                 rq_price = (if pt \<in> {MARKET, SL_M} then None else price),
                 rq_trigger_price = (if pt \<in> {MARKET, LIMIT} then None else trig),
                 rq_price_type = pt, rq_product = pr, rq_strategy = fm_strategy f,
                 rq_gtt_leg_id = fm_gtt_leg_id f \<rparr>"
    using assms(2) p by (simp add: extract_order_def)
  show ?thesis
    unfolding rq order_request_ok_def
    using v(1,3,4) prices price trigger d by (cases pt) simp_all
qed

definition sample_form :: order_form where
  "sample_form =
     \<lparr> fm_symbol = ''S'', fm_exchange = ''nse'', fm_action = ''buy'', fm_quantity = Number 10,
       fm_price = Number 90, fm_trigger_price = Number 5, fm_price_type = ''Limit'', fm_product = ''mis'',
       fm_strategy = [], fm_gtt_leg_id = None \<rparr>"

lemma sample_form_fields:
  "str_upper ''nse'' = ''NSE''" "parse_action ''buy'' = Some BUY" "parse_price_type ''Limit'' = Some LIMIT"
  "parse_product ''mis'' = Some MIS" "''NSE'' \<in> set VALID_EXCHANGES"
  "''NSE'' \<notin> set DERIVATIVE_PRODUCT_EXCHANGES" "''NSE'' \<notin> set LOT_SIZE_EXCHANGES"
  by code_simp+

lemma sample_form_valid: "validate_order sample_form = None"
  by (simp add: validate_order_def missing_field_def truthy_def sample_form_def sample_form_fields
      int_of_number_def validate_prices_def validate_price_def)

definition sample_request :: order_request where
  "sample_request =
     \<lparr> rq_symbol = ''S'', rq_exchange = ''NSE'', rq_action = BUY, rq_quantity = 10, rq_price = Some 90,
       rq_trigger_price = None, rq_price_type = LIMIT, rq_product = MIS, rq_strategy = [],
       rq_gtt_leg_id = None \<rparr>"

lemma sample_request_simps [simp]:
  "rq_symbol sample_request = ''S''" "rq_exchange sample_request = ''NSE''"
  "rq_action sample_request = BUY" "rq_quantity sample_request = 10" "rq_price sample_request = Some 90"
  "rq_trigger_price sample_request = None" "rq_price_type sample_request = LIMIT"
  "rq_product sample_request = MIS" "rq_gtt_leg_id sample_request = None"
  by (simp_all add: sample_request_def)

lemma sample_form_request: "extract_order sample_form = Some sample_request"
  by (simp add: extract_order_def sample_form_def sample_request_def sample_form_fields
      decimal_field_def truthy_def int_of_number_def)

theorem validated_orders_are_complete_witness: "order_request_ok sample_request"
  using sample_form_valid sample_form_request by (rule validated_orders_are_complete)

subsection \<open>The race for a resting order\<close>

datatype settle = By_fill rat | By_cancel

primrec claim_order :: "nat \<Rightarrow> settle \<Rightarrow> sandbox \<Rightarrow> bool \<times> sandbox" where
  "claim_order i (By_fill price) db = claim_order_fill price i db"
| "claim_order i By_cancel db = claim_order_cancel i db"

lemma claim_order_row:
  "\<exists>f. (\<forall>r. od_id (f r) = od_id r) \<and> (\<forall>r. \<not> is_pending (f r)) \<and>
    claim_order i k db = (case claim_row od_id is_pending f i (orders db) of
       (won, rows) \<Rightarrow> (won, if won then db\<lparr>orders := rows\<rparr> else db))"
proof (cases k)
  case (By_fill price)
  then show ?thesis
    by (intro exI [of _ "fill_row price"])
      (simp add: fill_row_def is_pending_def PENDING_ORDER_STATUSES_def claim_order_fill_def)
next
  case By_cancel
  then show ?thesis
    by (intro exI [of _ cancel_row])
      (simp add: cancel_row_def is_pending_def PENDING_ORDER_STATUSES_def claim_order_cancel_def)
qed

lemma map_id_claim:
  "(\<And>r. od_id (f r) = od_id r) \<Longrightarrow> claim_row od_id P f i rows = (w, rows') \<Longrightarrow> map od_id rows' = map od_id rows"
  using claim_row_keys [of od_id f P i rows] by simp

interpretation settlement: conditional_claim claim_order resting orders_wf
proof
  fix s i k j
  assume wf: "orders_wf s"
  obtain f where f: "\<And>r. od_id (f r) = od_id r" "\<And>r. \<not> is_pending (f r)"
    "claim_order i k s = (case claim_row od_id is_pending f i (orders s) of
       (won, rows) \<Rightarrow> (won, if won then s\<lparr>orders := rows\<rparr> else s))"
    using claim_order_row [of i k s] by blast
  obtain won rows where c: "claim_row od_id is_pending f i (orders s) = (won, rows)" by fastforce
  show "fst (claim_order i k s) = resting i s"
    using wf claim_row_iff [of od_id "orders s" is_pending f i]
    by (simp add: f(3) c orders_wf_def resting_def)
  show "\<not> resting i (snd (claim_order i k s))" if "fst (claim_order i k s)"
    using that claim_row_taken [of od_id f is_pending i "orders s"] f(1,2)
    by (simp add: f(3) c resting_def)
  show "snd (claim_order i k s) = s" if "\<not> fst (claim_order i k s)"
    using that by (simp add: f(3) c)
  show "resting j s" if "resting j (snd (claim_order i k s))"
    using that claim_row_others [of od_id f is_pending i "orders s" j] f(1,2)
    by (cases won) (simp_all add: f(3) c resting_def)
  show "orders_wf (snd (claim_order i k s))"
    using wf map_id_claim [OF f(1) c] by (simp add: f(3) c orders_wf_def)
qed

text \<open>What else may happen to orders between two claims.\<close>

datatype race_step =
    Race_claim nat settle
  | Race_modify sandbox_order order_changes
  | Race_stop_book nat
  | Race_position ext sandbox_order rat
  | Race_funds ext string funds_op

definition stepped :: "sandbox option \<Rightarrow> sandbox \<Rightarrow> sandbox" where
  "stepped d db = (case d of Some x \<Rightarrow> x | None \<Rightarrow> db)"

primrec race :: "race_step \<Rightarrow> nat \<times> settle + (sandbox \<Rightarrow> sandbox)" where
  "race (Race_claim i k) = Inl (i, k)"
| "race (Race_modify r ch) = Inr (\<lambda>db. snd (modify_from r ch db))"
| "race (Race_stop_book i) = Inr (\<lambda>db. snd (release_from_stop_book i db))"
| "race (Race_position X r price) = Inr (\<lambda>db. stepped (update_position X r price db) db)"
| "race (Race_funds X uid op) = Inr (\<lambda>db. snd (run_funds_op X uid op db))"

lemma keeps_claim_row:
  assumes "claim_row od_id P f oid (orders db) = (won, rows)"
    and "\<And>r. od_id (f r) = od_id r" "\<And>r. P r \<Longrightarrow> is_pending r"
    and "\<And>r. od_status (f r) = od_status r \<or> od_status (f r) = Open"
    and "orders_wf db"
  shows "orders_wf (db\<lparr>orders := rows\<rparr>) \<and> (\<not> resting i db \<longrightarrow> \<not> resting i (db\<lparr>orders := rows\<rparr>))"
proof
  show "orders_wf (db\<lparr>orders := rows\<rparr>)"
    using assms(5) map_id_claim [OF assms(2,1)] by (simp add: orders_wf_def)
  show "\<not> resting i db \<longrightarrow> \<not> resting i (db\<lparr>orders := rows\<rparr>)"
    using claim_row_set [of _ od_id P f oid "orders db"] assms(1-3)
    by (fastforce simp: resting_def)
qed

lemma run_funds_op_orders [simp]: "orders (snd (run_funds_op X uid op db)) = orders db"
proof (cases op)
  case (Op_prior_session a p)
  then show ?thesis
    using beside_attempts [of orders None X uid FUNDS_WRITE_ATTEMPTS "prior_session_compute a p" db]
    by (simp add: stage_prior_session_release_def apply_funds_change_def)
qed (simp_all add: block_margin_def stage_release_margin_def stage_transfer_margin_to_holdings_def
      stage_credit_sale_proceeds_def update_unrealized_pnl_def beside_apply_user)

lemma race_keeps: "keeps_taken resting orders_wf i (map race sts)"
proof -
  have "orders_wf (f s) \<and> (\<not> resting i s \<longrightarrow> \<not> resting i (f s))"
    if step: "race st = Inr f" and wf: "orders_wf s" for st f s
  proof (cases st)
    case (Race_modify r ch)
    have "modify_from r ch s = (res, d) \<Longrightarrow> orders_wf d \<and> (\<not> resting i s \<longrightarrow> \<not> resting i d)" for res d
      using wf keeps_claim_row [OF _ _ _ _ wf, of is_pending "modify_row r q p t" "od_id r" _ _ i for q p t]
      by (auto simp: modify_from_def modify_row_def split: sum.splits prod.splits if_splits)
    with step Race_modify show ?thesis by (metis race.simps(2) sum.inject(2) prod.collapse)
  next
    case (Race_stop_book j)
    with step wf show ?thesis
      using keeps_claim_row [OF _ _ _ _ wf, of "\<lambda>r. od_status r = Trigger_pending" reopen_row j _ _ i]
      by (auto simp: release_from_stop_book_def reopen_row_def is_pending_def PENDING_ORDER_STATUSES_def
          split: prod.splits if_splits)
  next
    case (Race_position X r price)
    have "orders (stepped (update_position X r price s) s) = orders s"
    proof (cases "update_position X r price s")
      case (Some d)
      then show ?thesis using beside_update_position [of orders X r price s d] by (simp add: stepped_def)
    qed (simp add: stepped_def)
    with Race_position step wf show ?thesis by (auto simp: orders_wf_def resting_def)
  next
    case (Race_funds X uid op)
    with step wf show ?thesis by (auto simp: orders_wf_def resting_def)
  qed (use step in simp)
  then show ?thesis by (auto simp: keeps_taken_def)
qed

text \<open>C7: in every interleaving of fills (at any price), cancels, modifications, stop-book releases,
  position updates and funds changes, one order is settled at most once, by a fill or by a
  cancel, and never once it has left the book; if it rests when the first claim on it runs,
  it is settled exactly once.\<close>

theorem order_settles_at_most_once:
  assumes "orders_wf db"
  shows "claim_wins claim_order i (map race sts) db \<le> 1 \<and>
         (\<not> resting i db \<longrightarrow> claim_wins claim_order i (map race sts) db = 0) \<and>
         (resting i db \<longrightarrow> claim_wins claim_order i (Inl (i, k) # map race sts) db = 1)"
  using settlement.at_most_one_win [OF assms race_keeps] settlement.no_win_when_taken [OF assms race_keeps]
    settlement.first_claim_wins [OF assms _ race_keeps]
  by blast

theorem order_settles_at_most_once_witness:
  "claim_wins claim_order 1 (Inl (1, By_cancel) # map race [Race_claim 1 (By_fill 120), Race_claim 1 By_cancel])
     sample_market = 1"
proof -
  have "orders_wf sample_market" "resting 1 sample_market"
    by (simp_all add: orders_wf_def resting_def sample_market_simps is_pending_def PENDING_ORDER_STATUSES_def)
  with order_settles_at_most_once [of sample_market 1 "[Race_claim 1 (By_fill 120), Race_claim 1 By_cancel]" By_cancel]
  show ?thesis by blast
qed

subsection \<open>Refused orders\<close>

text \<open>What a response of an error leaves: the same tables, and the same funds for an existing account.\<close>

definition untouched :: "string \<Rightarrow> sandbox \<Rightarrow> sandbox \<Rightarrow> bool" where
  "untouched uid db db' \<longleftrightarrow>
     orders db' = orders db \<and> trades db' = trades db \<and> positions db' = positions db \<and>
     holdings db' = holdings db \<and> gtts db' = gtts db \<and> gtt_legs db' = gtt_legs db \<and>
     events db' = events db \<and> (funds_ready uid db \<longrightarrow> funds_rows db' = funds_rows db)"

lemma untouched_refl [simp]: "untouched uid db db"
  by (simp add: untouched_def)

lemma untouched_ensure: "untouched uid db (ensure_funds_initialized X uid db)"
  by (simp add: untouched_def beside_ensure)

lemma check_margin_state: "snd (check_margin_available X uid a db) = ensure_funds_initialized X uid db"
  by (simp add: check_margin_available_def Let_def split: option.splits)

lemma reserve_margin_refused:
  "reserve_margin X uid rq amount db = (Inl msg, db') \<Longrightarrow> untouched uid db db'"
  using check_margin_state [of X uid amount db] untouched_ensure [of uid db X]
  by (auto simp: reserve_margin_def split: if_splits prod.splits)

lemma reserve_margin_granted:
  "reserve_margin X uid rq amount db = (Inr margin, db') \<Longrightarrow>
   (margin = 0 \<or> margin = amount \<and> amount \<le> 0) \<and> db' = db \<or>
   margin = amount \<and> amount > 0 \<and>
   stage_margin_delta X uid amount (ensure_funds_initialized X uid db) = ((True, Margin_staged amount), db')"
  using check_margin_state [of X uid amount db]
  by (auto simp: reserve_margin_def stage_margin_delta_def Let_def split: if_splits prod.splits)

lemma generate_order_id_tables:
  "generate_order_id X db = (oid, db1) \<Longrightarrow>
   \<exists>d s. db1 = db\<lparr>last_order_day := d, last_order_seq := s\<rparr>"
  by (auto simp: generate_order_id_def Let_def)

lemma insert_order_error:
  assumes "insert_order X uid rq pricing margin db0 db = (Order_error c e, db')" "untouched uid db1 db0"
  shows "untouched uid db1 db'"
  using assms by (auto simp: insert_order_def untouched_def Let_def split: prod.splits option.splits if_splits)

lemma place_request_error:
  assumes "place_request X uid rq prefetched db = (Order_error c e, db')"
  shows "untouched uid db db'"
proof -
  have ins: "untouched uid db db'"
    if "insert_order X uid rq pricing margin (if 0 < margin then ensure_funds_initialized X uid db else db) d
        = (Order_error c e, db')" for pricing margin d
    using that by (rule insert_order_error) (simp add: untouched_ensure)
  show ?thesis
    using assms reserve_margin_refused ins
    by (auto simp: place_request_def split: option.splits sum.splits prod.splits if_splits)
qed

lemma place_order_untouched: "place_order X uid f prefetched db = (Order_error c e, db') \<Longrightarrow> untouched uid db db'"
  using place_request_error by (auto simp: place_order_def split: option.splits)

text \<open>
  The other answer without an order is the one to a delivery sell of more than the user has: it
  leaves a rejected row for the audit, which no order book, fill or release looks at, and its
  announcement.
\<close>

definition audit_row_only :: "string \<Rightarrow> orderid \<Rightarrow> rejection \<Rightarrow> sandbox \<Rightarrow> sandbox \<Rightarrow> bool" where
  "audit_row_only uid oid reason db db' \<longleftrightarrow>
     (\<exists>r. orders db' = orders db @ [r] \<and> od_orderid r = oid \<and> od_user r = uid \<and>
        od_status r = Rejected \<and> od_rejection r = Some reason \<and> od_pending_quantity r = 0 \<and>
        od_margin_blocked r = Some 0 \<and> od_gtt_leg_id r = None) \<and>
     events db' = events db @ [Order_update oid Rejected] \<and>
     trades db' = trades db \<and> positions db' = positions db \<and> holdings db' = holdings db \<and>
     gtts db' = gtts db \<and> gtt_legs db' = gtt_legs db"

lemma reserve_margin_tables:
  assumes "reserve_margin X uid rq amount db = (Inr margin, d)" "beside_funds F"
  shows "F d = F db"
  using reserve_margin_granted [OF assms(1)] beside_ensure [OF assms(2), of X uid db]
    beside_stage [OF assms(2)] by (metis snd_conv)

lemma insert_order_rejected:
  assumes "insert_order X uid rq pricing margin db0 d = (Order_rejected oid reason, db')"
  shows "rq_action rq = SELL" "rq_product rq = CNC" "funds_rows db' = funds_rows d"
    "audit_row_only uid oid reason d db'"
  using assms
  by (auto simp: insert_order_def audit_row_only_def cnc_sell_rejection_def rejected_order_def order_of_def
      Let_def dest!: generate_order_id_tables split: prod.splits option.splits if_splits)

lemma audit_row_only_cong:
  assumes "audit_row_only uid oid reason d db'" "orders d = orders db" "events d = events db"
    "trades d = trades db" "positions d = positions db" "holdings d = holdings db"
    "gtts d = gtts db" "gtt_legs d = gtt_legs db"
  shows "audit_row_only uid oid reason db db'"
  using assms by (simp add: audit_row_only_def)

lemma place_request_rejected:
  assumes "place_request X uid rq prefetched db = (Order_rejected oid reason, db')"
  shows "rq_product rq = CNC" "rq_action rq = SELL" "audit_row_only uid oid reason db db'"
    "\<not> should_block_margin (rq_action rq) (rq_symbol rq) (rq_exchange rq) (rq_product rq) \<Longrightarrow>
       funds_rows db' = funds_rows db"
proof -
  obtain amount margin pricing d db0 where
    res: "reserve_margin X uid rq amount db = (Inr margin, d)"
    and ins: "insert_order X uid rq pricing margin db0 d = (Order_rejected oid reason, db')"
    using assms by (auto simp: place_request_def split: option.splits sum.splits prod.splits if_splits)
  note tables = reserve_margin_tables [OF res]
  show "rq_product rq = CNC" "rq_action rq = SELL" using insert_order_rejected(2,1) [OF ins] .
  show "audit_row_only uid oid reason db db'"
    by (rule audit_row_only_cong [OF insert_order_rejected(4) [OF ins]]) (rule tables; simp)+
  show "funds_rows db' = funds_rows db"
    if "\<not> should_block_margin (rq_action rq) (rq_symbol rq) (rq_exchange rq) (rq_product rq)"
    using insert_order_rejected(3) [OF ins] res that by (simp add: reserve_margin_def)
qed

text \<open>No derivatives exchange but NCO lets a delivery order through validation, and only there can a
  delivery sell reserve margin.\<close>

lemma delivery_sell_reserves_nothing:
  assumes "validate_order f = None" "extract_order f = Some rq" "rq_product rq = CNC" "rq_action rq = SELL"
    and "str_upper (fm_exchange f) \<noteq> ''NCO''"
  shows "\<not> should_block_margin (rq_action rq) (rq_symbol rq) (rq_exchange rq) (rq_product rq)"
proof -
  have ex: "rq_exchange rq = str_upper (fm_exchange f)" "parse_product (fm_product f) = Some CNC"
    using assms(2,3) by (auto simp: extract_order_def split: option.splits prod.splits field_number.splits)
  have "str_upper (fm_exchange f) \<notin> set DERIVATIVE_PRODUCT_EXCHANGES"
    using assms(1) ex(2) by (auto simp: validate_order_def Let_def split: option.splits if_splits)
  with assms(3-5) ex(1) show ?thesis
    by (auto simp: should_block_margin_def is_option_def is_future_def FNO_EXCHANGES_def
        CRYPTO_EXCHANGES_def DERIVATIVE_PRODUCT_EXCHANGES_def split: if_splits)
qed

lemma place_order_rejected:
  assumes "place_order X uid f prefetched db = (Order_rejected oid reason, db')"
  shows "audit_row_only uid oid reason db db'"
    and "str_upper (fm_exchange f) \<noteq> ''NCO'' \<Longrightarrow> funds_rows db' = funds_rows db"
proof -
  obtain rq where rq: "validate_order f = None" "extract_order f = Some rq"
    and p: "place_request X uid rq prefetched db = (Order_rejected oid reason, db')"
    using assms by (auto simp: place_order_def split: option.splits)
  show "audit_row_only uid oid reason db db'" using place_request_rejected(3) [OF p] .
  show "funds_rows db' = funds_rows db" if "str_upper (fm_exchange f) \<noteq> ''NCO''"
    using place_request_rejected(1,2,4) [OF p] delivery_sell_reserves_nothing [OF rq _ _ that] by blast
qed


lemma sample_config [simp]: "get_config sample_market key dflt = dflt"
  by (simp add: get_config_def sample_market_def sample_db_def)

lemma sample_numerals:
  "parse_square_off ''15:15'' = hhmm 15 15" "decimal_of_string ''5'' = Some 5"
  by code_simp+

lemma sample_symbol: "symtoken sample_market s e = Some \<lparr>si_lotsize = Some 1, si_contract_value = None\<rparr>"
  by (simp add: sample_market_def sample_db_def)

lemma sample_open_hours: "mis_blocked sample_ext ''u'' (sample_request\<lparr>rq_quantity := q\<rparr>) sample_market = False"
  by (simp add: mis_blocked_def sample_request_def square_off_time_def sample_numerals sample_ext_def
      time_of_day_def ms_per_day_def hhmm_def)

lemma sample_margin:
  "calculate_margin_required sample_market s ''NSE'' MIS q p a = Inr (of_int \<bar>q\<bar> * p / 5)"
  by (simp add: calculate_margin_required_def sample_symbol get_leverage_def config_leverage_def
      sample_numerals Let_def)

lemma sample_position_for: "position_for ''u'' ''S'' ''NSE'' MIS sample_market = Some sample_position"
  by (simp add: position_for_def sample_market_simps sample_position_def)

lemma sample_market_funds_of: "funds_of ''u'' sample_market = Some sample_funds"
  by (simp add: funds_of_def sample_market_simps sample_funds_def)

lemma sample_available: "available_balance (read_money sample_ext (fu_money sample_funds)) = 900"
  using sample_market_funds
  by (simp add: read_funds_def stored_money_def sample_market_funds_of sample_money_def)

definition poor_form :: order_form where
  "poor_form = sample_form\<lparr>fm_quantity := Number 100000\<rparr>"


text \<open>
  The exception is real.  NCO is a derivatives exchange that the product check leaves out, so a
  delivery sell of an option there gets as far as the margin: it is reserved as for any option
  sold, and then the order is rejected with no margin on its row.  Nothing releases it.
\<close>

definition nco_form :: order_form where
  "nco_form = sample_form\<lparr>fm_symbol := ''G1CE'', fm_exchange := ''NCO'', fm_action := ''SELL'',
     fm_product := ''CNC'', fm_quantity := Number 1\<rparr>"

definition nco_sell :: order_request where
  "nco_sell = sample_request\<lparr>rq_symbol := ''G1CE'', rq_exchange := ''NCO'', rq_action := SELL,
     rq_product := CNC, rq_quantity := 1\<rparr>"

lemma nco_form_fields:
  "str_upper ''NCO'' = ''NCO''" "parse_action ''SELL'' = Some SELL" "parse_product ''CNC'' = Some CNC"
  "''NCO'' \<in> set VALID_EXCHANGES" "''NCO'' \<notin> set DERIVATIVE_PRODUCT_EXCHANGES"
  "''NCO'' \<notin> set LOT_SIZE_EXCHANGES" "is_option ''G1CE'' ''NCO''" "\<not> is_future ''G1CE'' ''NCO''"
  "decimal_of_string ''1'' = Some 1"
  by code_simp+

lemma nco_form_order: "validate_order nco_form = None" "extract_order nco_form = Some nco_sell"
  by (simp_all add: validate_order_def missing_field_def truthy_def nco_form_def sample_form_def
      sample_form_fields nco_form_fields int_of_number_def validate_prices_def validate_price_def
      extract_order_def nco_sell_def sample_request_def decimal_field_def)

lemma nco_sell_margin: "margin_to_block ''u'' nco_sell 90 sample_market = Inr 90"
proof -
  have "position_for ''u'' ''G1CE'' ''NCO'' CNC sample_market = None"
    by (simp add: position_for_def sample_market_simps(2) sample_position_def)
  then show ?thesis
    by (simp add: margin_to_block_def calculate_margin_required_def sample_symbol get_leverage_def
        config_leverage_def nco_form_fields nco_sell_def position_qty_def opposite_side_def Let_def)
qed

lemma nco_sell_reserves:
  "\<exists>d. reserve_margin sample_ext ''u'' nco_sell 90 sample_market = (Inr 90, d) \<and>
     available_balance (stored_money ''u'' d) = 810"
proof -
  have stored: "stored_money ''u'' sample_market = sample_money"
    by (simp add: stored_money_def sample_market_funds_of sample_funds_def)
  show ?thesis
    by (simp add: reserve_margin_def should_block_margin_def nco_sell_def nco_form_fields
        check_margin_available_def sample_market_ready sample_market_funds_of sample_available Let_def
        stage_margin_delta_row stored sample_money_def stored_money_set_money)
qed

lemma rejected_nco_sell_keeps_the_margin:
  "\<exists>oid reason db'. place_order sample_ext ''u'' nco_form None sample_market = (Order_rejected oid reason, db') \<and>
     od_margin_blocked (last (orders db')) = Some 0 \<and>
     available_balance (stored_money ''u'' sample_market) = 900 \<and>
     available_balance (stored_money ''u'' db') = 810"
proof -
  obtain d where d: "reserve_margin sample_ext ''u'' nco_sell 90 sample_market = (Inr 90, d)"
    "available_balance (stored_money ''u'' d) = 810"
    using nco_sell_reserves by blast
  have pricing: "price_order sample_ext ''u'' nco_sell None sample_market =
      Inr \<lparr>pr_margin_price = Some 90, pr_cached_quote = None, pr_trigger_met = False\<rparr>"
    by (simp add: price_order_def limit_pricing_def first_live_def live_def sample_ext_def nco_sell_def)
  have tables: "positions d = [sample_position]" "holdings d = []"
    using reserve_margin_tables [OF d(1), of positions] reserve_margin_tables [OF d(1), of holdings]
    by (simp_all add: sample_market_def sample_db_def)
  then have cnc: "cnc_sell_rejection ''u'' nco_sell d = Some Cnc_nothing_to_sell"
    by (simp add: cnc_sell_rejection_def nco_sell_def position_qty_def position_for_def holdings_qty_def
        holding_for_def sample_position_def)
  obtain oid d1 where g: "generate_order_id sample_ext d = (oid, d1)" by fastforce
  have fields: "rq_symbol nco_sell = ''G1CE''" "rq_exchange nco_sell = ''NCO''" "rq_product nco_sell = CNC"
    by (simp_all add: nco_sell_def)
  have "place_request sample_ext ''u'' nco_sell None sample_market = insert_order sample_ext ''u'' nco_sell
      \<lparr>pr_margin_price = Some 90, pr_cached_quote = None, pr_trigger_met = False\<rparr> 90
      (ensure_funds_initialized sample_ext ''u'' sample_market) d"
    by (simp add: place_request_def sample_symbol fields bad_lot_def nco_form_fields mis_blocked_def
        pricing nco_sell_margin d)
  then have "\<exists>db'. place_order sample_ext ''u'' nco_form None sample_market =
      (Order_rejected oid Cnc_nothing_to_sell, db') \<and> od_margin_blocked (last (orders db')) = Some 0 \<and>
      funds_rows db' = funds_rows d"
    using generate_order_id_tables [OF g]
    by (auto simp: place_order_def nco_form_order insert_order_def cnc g rejected_order_def Let_def)
  moreover have "available_balance (stored_money ''u'' sample_market) = 900"
    by (simp add: stored_money_def sample_market_funds_of sample_funds_def sample_money_def)
  ultimately show ?thesis
    using d(2) by (fastforce simp: stored_money_def funds_of_def)
qed

subsection \<open>Cancelling an order\<close>

definition cancelled_orders :: "nat \<Rightarrow> sandbox \<Rightarrow> sandbox" where
  "cancelled_orders rid db =
     db\<lparr>orders := sql_update (\<lambda>o'. od_id o' = rid \<and> is_pending o') cancel_row (orders db)\<rparr>"

lemma find_order_SomeD:
  "find_order uid oid db = Some row \<Longrightarrow> row \<in> set (orders db) \<and> od_orderid row = oid \<and> od_user row = uid"
  by (auto simp: find_order_def dest: find_SomeD)

lemma claim_order_cancel_pending:
  assumes "orders_wf db" "row \<in> set (orders db)" "is_pending row"
  shows "claim_order_cancel (od_id row) db = (True, cancelled_orders (od_id row) db)"
proof -
  have "row_count (\<lambda>o'. od_id o' = od_id row \<and> is_pending o') (orders db) = 1"
    using assms row_count_eq_1_iff [of od_id "orders db" "\<lambda>o'. od_id o' = od_id row \<and> is_pending o'" "od_id row"]
    by (auto simp: orders_wf_def)
  then show ?thesis by (simp add: claim_order_cancel_def claim_row_def cancelled_orders_def)
qed

lemma is_pending_read [simp]: "is_pending (read_order X r) = is_pending r"
  by (simp add: is_pending_def)

lemma cancelled_orders_funds [simp]:
  "funds_rows (cancelled_orders rid db) = funds_rows db"
  "funds_ready u (cancelled_orders rid db) = funds_ready u db"
  "read_funds X u (cancelled_orders rid db) = read_funds X u db"
  "stored_money u (cancelled_orders rid db) = stored_money u db"
  by (simp_all add: cancelled_orders_def funds_ready_def funds_wf_def funds_of_def read_funds_def stored_money_def)

lemma stage_release_row:
  assumes "funds_ready uid db"
  shows "stage_release_margin X uid a g t db =
    (let V = read_funds X uid db in
     if a < 0 then ((False, Release_negative a), db)
     else if a > used_margin V then ((False, Release_exceeds a (used_margin V)), db)
     else ((True, Margin_released a g),
           set_money uid (fold col_set (changed_values V (released V a g t)) (stored_money uid db)) db))"
  using run_funds_op_row [OF assms, of "Op_release a g t" X]
  by (simp add: read_funds_def release_compute_def Let_def)

lemma read_after_release:
  assumes "decimal_columns (x_read X)" "funds_ready uid db"
  shows "read_funds X uid (set_money uid
      (fold col_set (changed_values (read_funds X uid db) (released (read_funds X uid db) a g t)) (stored_money uid db)) db)
    = read_money X (fold col_set (released (read_funds X uid db) a g t) (read_funds X uid db))"
  using assms by (intro read_funds_set_money) (simp_all add: released_def Let_def)

lemma cancel_order_recorded:
  assumes "orders_wf db" "funds_ready uid db" "find_order uid oid db = Some row" "is_pending row"
    and "od_margin_blocked row = Some m" "0 < x_read X 2 m"
  shows "cancel_order X uid oid db =
    (let a = x_read X 2 m; V = read_funds X uid db in
     if a \<le> used_margin V
     then (Order_ok oid, publish (Order_update oid Cancelled)
            (set_money uid (fold col_set (changed_values V (released V a 0 True)) (stored_money uid db))
               (cancelled_orders (od_id row) db)))
     else (Order_error 409 (Release_refused (Release_exceeds a (used_margin V))), db))"
proof -
  have row: "row \<in> set (orders db)" "od_orderid row = oid" using find_order_SomeD [OF assms(3)] by auto
  have rel: "release_on_cancel X uid (read_order X row) db = Some (x_read X 2 m)"
    using assms(5,6) by (simp add: release_on_cancel_def has_recorded_margin_def)
  obtain f where "funds_of uid (cancelled_orders (od_id row) db) = Some f"
    using assms(2) by (auto simp: funds_ready_def funds_of_def cancelled_orders_def)
  then show ?thesis
    using assms(2,4,6) row(2) rel
    by (simp add: cancel_order_def assms(3) cancel_from_def claim_order_cancel_pending [OF assms(1) row(1) assms(4)]
        stage_release_row Let_def)
qed

text \<open>Cancelling a resting order that recorded a reservation returns exactly that reservation, in
  one step with the cancellation, and touches no other order; when the account no longer holds
  that much reserved margin the cancel is refused with 409 and nothing at all changes.\<close>

theorem cancel_returns_the_reservation:
  assumes "decimal_columns (x_read X)" and "orders_wf db" and "funds_ready uid db"
    and "find_order uid oid db = Some row" and "is_pending row"
    and "od_margin_blocked row = Some m" and "0 < x_read X 2 m"
    and "cancel_order X uid oid db = (resp, db')"
  shows "if x_read X 2 m \<le> used_margin (read_funds X uid db)
    then resp = Order_ok oid \<and> orders db' = orders (cancelled_orders (od_id row) db) \<and>
         used_margin (read_funds X uid db') = x_read X 2 (used_margin (read_funds X uid db) - x_read X 2 m) \<and>
         available_balance (read_funds X uid db') = x_read X 2 (available_balance (read_funds X uid db) + x_read X 2 m)
    else (\<exists>e. resp = Order_error 409 e) \<and> db' = db"
proof (cases "x_read X 2 m \<le> used_margin (read_funds X uid db)")
  case True
  let ?V = "read_funds X uid db" and ?d = "cancelled_orders (od_id row) db"
  have db': "resp = Order_ok oid" "db' = publish (Order_update oid Cancelled)
      (set_money uid (fold col_set (changed_values ?V (released ?V (x_read X 2 m) 0 True)) (stored_money uid db)) ?d)"
    using assms(8) True cancel_order_recorded [OF assms(2-7)] by (simp_all add: Let_def)
  have "read_funds X uid db' = read_money X (fold col_set (released ?V (x_read X 2 m) 0 True) ?V)"
    using read_after_release [of X uid ?d "x_read X 2 m" 0 True] assms(1,3)
    by (simp add: db'(2) read_funds_def stored_money_def funds_of_def)
  with True show ?thesis
    by (simp add: db' released_def Let_def read_money_def cancelled_orders_def)
next
  case False
  with assms(8) cancel_order_recorded [OF assms(2-7)] show ?thesis by (auto simp: Let_def)
qed

text \<open>A market with a reservation of 60 behind the resting order.\<close>

definition reserved_market :: sandbox where
  "reserved_market = sample_market\<lparr>orders := [sample_order\<lparr>od_margin_blocked := Some 60\<rparr>]\<rparr>"

lemma reserved_market_simps:
  "orders reserved_market = [sample_order\<lparr>od_margin_blocked := Some 60\<rparr>]"
  "funds_rows reserved_market = funds_rows sample_market"
  by (simp_all add: reserved_market_def)

lemma reserved_market_ready: "funds_ready ''u'' reserved_market"
  using sample_market_ready by (simp add: funds_ready_def funds_wf_def funds_of_def reserved_market_simps)

lemma reserved_market_funds: "read_funds sample_ext ''u'' reserved_market = sample_money"
  using sample_market_funds by (simp add: read_funds_def stored_money_def funds_of_def reserved_market_simps)

lemma sample_read_60: "x_read sample_ext 2 60 = 60"
  using sample_read [of "Num.num.Bit0 (Num.num.Bit0 (num.Bit1 (num.Bit1 (num.Bit1 num.One))))"] by simp

lemma sample_read_40: "x_read sample_ext 2 40 = 40"
  using sample_read [of "Num.num.Bit0 (Num.num.Bit0 (num.Bit0 (num.Bit1 (num.Bit0 num.One))))"] by simp

theorem cancel_returns_the_reservation_witness:
  "\<exists>db'. cancel_order sample_ext ''u'' (0, 1) reserved_market = (Order_ok (0, 1), db') \<and>
     used_margin (read_funds sample_ext ''u'' db') = 40"
proof -
  let ?row = "sample_order\<lparr>od_margin_blocked := Some 60\<rparr>"
  obtain resp db' where c: "cancel_order sample_ext ''u'' (0, 1) reserved_market = (resp, db')" by fastforce
  have "orders_wf reserved_market" by (simp add: orders_wf_def reserved_market_simps)
  moreover have "find_order ''u'' (0, 1) reserved_market = Some ?row"
    by (simp add: find_order_def reserved_market_simps)
  moreover have "is_pending ?row" by (simp add: is_pending_def PENDING_ORDER_STATUSES_def)
  ultimately show ?thesis
    using cancel_returns_the_reservation [OF sample_columns _ reserved_market_ready _ _ _ _ c, of ?row 60] c
    by (simp add: sample_read_60 sample_read_40 reserved_market_funds sample_money_def)
qed

subsection \<open>Placing a resting order\<close>

lemma fold_max_ge: "m \<le> fold (\<lambda>r m. max (key r) m) rows (m :: nat)"
proof (induction rows arbitrary: m)
  case (Cons a rows)
  have "m \<le> max (key a) m" by simp
  also have "\<dots> \<le> fold (\<lambda>r m. max (key r) m) rows (max (key a) m)" by (rule Cons.IH)
  finally show ?case by simp
qed simp

lemma fold_max_member: "r \<in> set rows \<Longrightarrow> key r \<le> fold (\<lambda>r m. max (key r) m) rows (m :: nat)"
proof (induction rows arbitrary: m)
  case (Cons a rows)
  show ?case
  proof (cases "r = a")
    case True
    have "key a \<le> max (key a) m" by simp
    also have "\<dots> \<le> fold (\<lambda>r m. max (key r) m) rows (max (key a) m)" by (rule fold_max_ge)
    finally show ?thesis using True by simp
  qed (use Cons in simp)
qed simp

lemma next_id_fresh: "next_id key rows \<notin> key ` set rows"
proof
  assume "next_id key rows \<in> key ` set rows"
  then obtain r where "r \<in> set rows" "key r = next_id key rows" by auto
  with fold_max_member [of r rows key 0] show False by (simp add: next_id_def)
qed

lemma notify_order_placed_tables [simp]:
  "orders (notify_order_placed X rid db) = orders db" "funds_rows (notify_order_placed X rid db) = funds_rows db"
  "positions (notify_order_placed X rid db) = positions db" "trades (notify_order_placed X rid db) = trades db"
  by (simp_all add: notify_order_placed_def split: option.splits)

text \<open>An order without a quote to fill it on is inserted and left to rest.\<close>

lemma insert_order_rests:
  assumes "insert_order X uid rq pricing margin db0 db = (Order_ok oid, db')" "pr_cached_quote pricing = None"
  shows "\<exists>rid. rid \<notin> od_id ` set (orders db) \<and> oid \<notin> od_orderid ` set (orders db) \<and>
    orders db' = orders db @ [accepted_order X uid rq pricing oid rid margin] \<and>
    funds_rows db' = funds_rows db \<and> positions db' = positions db \<and> trades db' = trades db"
proof -
  obtain o1 db1 where g: "generate_order_id X db = (o1, db1)" by fastforce
  obtain day seq where o1: "o1 = (day, seq)" by fastforce
  have t: "orders db1 = orders db" "funds_rows db1 = funds_rows db" "positions db1 = positions db" "trades db1 = trades db"
    using generate_order_id_tables [OF g] by auto
  have fresh: "o1 \<notin> od_orderid ` set (orders db)"
    using order_ids_fresh [OF g [unfolded o1]] o1 by simp
  show ?thesis
    using assms fresh next_id_fresh [of od_id "orders db"]
    by (intro exI [of _ "next_id od_id (orders db)"])
      (auto simp: insert_order_def g t Let_def immediate_execution_def split: option.splits if_splits)
qed

lemma is_pending_accepted [simp]: "is_pending (accepted_order X uid rq pricing oid rid margin)"
  by (simp add: accepted_order_def is_pending_def PENDING_ORDER_STATUSES_def initial_order_status_def order_of_def)

lemma accepted_order_simps [simp]:
  "od_id (accepted_order X uid rq pricing oid rid margin) = rid"
  "od_orderid (accepted_order X uid rq pricing oid rid margin) = oid"
  "od_user (accepted_order X uid rq pricing oid rid margin) = uid"
  "od_margin_blocked (accepted_order X uid rq pricing oid rid margin) = (if margin > 0 then Some margin else None)"
  "od_quantity (accepted_order X uid rq pricing oid rid margin) = rq_quantity rq"
  by (simp_all add: accepted_order_def order_of_def)

lemma place_request_rests:
  assumes "place_request X uid rq prefetched db = (Order_ok oid, db')"
    and "price_order X uid rq prefetched db = Inr pricing" "pr_cached_quote pricing = None"
    and "margin_to_block uid rq (the (pr_margin_price pricing)) db = Inr amount"
  shows "\<exists>margin rid d. reserve_margin X uid rq amount db = (Inr margin, d) \<and>
    rid \<notin> od_id ` set (orders d) \<and> oid \<notin> od_orderid ` set (orders d) \<and>
    orders db' = orders d @ [accepted_order X uid rq pricing oid rid margin] \<and>
    funds_rows db' = funds_rows d \<and> positions db' = positions d \<and> trades db' = trades d"
proof -
  obtain res d where r: "reserve_margin X uid rq amount db = (res, d)" by fastforce
  obtain margin where res: "res = Inr margin"
    using assms r by (cases res) (auto simp: place_request_def split: option.splits if_splits)
  have "insert_order X uid rq pricing margin (if 0 < margin then ensure_funds_initialized X uid db else db) d
      = (Order_ok oid, db')"
    using assms r res by (auto simp: place_request_def split: option.splits if_splits)
  from insert_order_rests [OF this assms(3)] r res show ?thesis by blast
qed

lemma reserve_margin_effect:
  assumes "reserve_margin X uid rq amount db = (Inr margin, d)" "funds_ready uid db" "0 \<le> amount"
  shows "orders d = orders db \<and> funds_ready uid d \<and> 0 \<le> margin \<and> (margin = 0 \<or> margin = amount) \<and>
    stored_money uid d = (let m = stored_money uid db in
      m\<lparr>available_balance := available_balance m - margin, used_margin := used_margin m + margin\<rparr>)"
proof (cases "amount > 0 \<and> margin = amount")
  case True
  then have "stage_margin_delta X uid amount db = ((True, Margin_staged amount), d)"
    using reserve_margin_granted [OF assms(1)] assms(2) by auto
  with assms(2) True show ?thesis
    by (auto simp: stage_margin_delta_row stored_money_set_money Let_def split: if_splits)
next
  case False
  then have "margin = 0" "d = db" using reserve_margin_granted [OF assms(1)] assms(3) by auto
  with assms(2) show ?thesis by simp
qed

lemma find_order_append:
  assumes "oid \<notin> od_orderid ` set (orders d)" "orders db' = orders d @ [row]" "od_orderid row = oid" "od_user row = uid"
  shows "find_order uid oid db' = Some row"
proof -
  have "find (\<lambda>r. od_orderid r = oid \<and> od_user r = uid) (orders d) = None"
    using assms(1) by (auto simp: find_None_iff image_iff)
  with assms(2-4) show ?thesis by (simp add: find_order_def find_append)
qed

lemma cancel_order_unreserved:
  assumes "orders_wf db" "find_order uid oid db = Some row" "is_pending row" "od_margin_blocked row = None"
  shows "cancel_order X uid oid db =
    (Order_ok oid, publish (Order_update oid Cancelled) (cancelled_orders (od_id row) db))"
proof -
  have row: "row \<in> set (orders db)" "od_orderid row = oid" using find_order_SomeD [OF assms(2)] by auto
  then show ?thesis
    using assms(3,4)
    by (simp add: cancel_order_def assms(2) cancel_from_def claim_order_cancel_pending [OF assms(1) row(1) assms(3)]
        release_on_cancel_def has_recorded_margin_def)
qed

text \<open>Cancelling an order whose recorded margin the account still reserves on top of \<open>m\<close>.\<close>

lemma cancel_returns_margin:
  assumes cols: "decimal_columns (x_read X)" and ready: "funds_ready uid db" and wf: "orders_wf db"
    and row: "find_order uid oid db = Some row" "is_pending row"
      "od_margin_blocked row = (if margin > 0 then Some margin else None)"
    and margin: "0 \<le> margin" "on_grid 2 margin" and m: "grid_money m" "0 \<le> used_margin m"
    and stored: "stored_money uid db = m\<lparr>available_balance := available_balance m - margin,
      used_margin := used_margin m + margin\<rparr>"
  shows "\<exists>db2. cancel_order X uid oid db = (Order_ok oid, db2) \<and>
    available_balance (read_funds X uid db2) = available_balance m \<and>
    used_margin (read_funds X uid db2) = used_margin m \<and> realized_pnl (read_funds X uid db2) = realized_pnl m"
proof -
  let ?V = "read_funds X uid db" and ?d = "cancelled_orders (od_id row) db"
  have rd: "x_read X 2 v = v" if "on_grid 2 v" for v
    using decimal_columns.rd_id [OF cols that] .
  have gs: "on_grid 2 (available_balance m)" "on_grid 2 (used_margin m)" "on_grid 2 (realized_pnl m)"
    using m(1) by (simp_all add: grid_money_def)
  have V: "available_balance ?V = available_balance m - margin" "used_margin ?V = used_margin m + margin"
    "realized_pnl ?V = realized_pnl m"
    using rd gs margin(2) by (simp_all add: read_funds_def stored read_money_def on_grid_add on_grid_diff)
  show ?thesis
  proof (cases "margin > 0")
    case True
    let ?after = "set_money uid (fold col_set (changed_values ?V (released ?V margin 0 True)) (stored_money uid db)) ?d"
    have "x_read X 2 margin \<le> used_margin ?V" using V m(2) rd [OF margin(2)] by simp
    then have "cancel_order X uid oid db = (Order_ok oid, publish (Order_update oid Cancelled) ?after)"
      using cancel_order_recorded [OF wf ready row(1,2), of margin X] row(3) True rd [OF margin(2)]
      by (simp add: Let_def)
    moreover have "read_funds X uid (publish (Order_update oid Cancelled) ?after) =
        read_money X (fold col_set (released ?V margin 0 True) ?V)"
      using read_after_release [of X uid ?d margin 0 True] cols ready
      by (simp add: read_funds_def stored_money_def funds_of_def)
    ultimately show ?thesis
      using V rd gs by (simp add: released_def Let_def read_money_def)
  next
    case False
    then have m0: "margin = 0" using margin(1) by simp
    then have "cancel_order X uid oid db = (Order_ok oid, publish (Order_update oid Cancelled) ?d)"
      using cancel_order_unreserved [OF wf row(1,2)] row(3) by simp
    moreover have "read_funds X uid (publish (Order_update oid Cancelled) ?d) = ?V"
      by (simp add: read_funds_def stored_money_def funds_of_def cancelled_orders_def)
    ultimately show ?thesis using V m0 by simp
  qed
qed


lemma sample_pricing: "price_order sample_ext ''u'' sample_request None sample_market =
    Inr \<lparr>pr_margin_price = Some 90, pr_cached_quote = None, pr_trigger_met = False\<rparr>"
  by (simp add: price_order_def limit_pricing_def first_live_def live_def sample_ext_def)

lemma sample_amount: "margin_to_block ''u'' sample_request 90 sample_market = Inr 180"
  by (simp add: margin_to_block_def sample_margin position_qty_def sample_position_for opposite_side_def)

lemma sample_placed:
  "\<exists>oid db1. place_request sample_ext ''u'' sample_request None sample_market = (Order_ok oid, db1)"
proof -
  have open_hours: "\<not> mis_blocked sample_ext ''u'' sample_request sample_market"
    using sample_open_hours [of 10] by (simp add: sample_request_def)
  have stored: "stored_money ''u'' sample_market = sample_money"
    by (simp add: stored_money_def sample_market_funds_of sample_funds_def)
  obtain d where reserve: "reserve_margin sample_ext ''u'' sample_request 180 sample_market = (Inr 180, d)"
    by (simp add: reserve_margin_def should_block_margin_def check_margin_available_def sample_market_ready
        sample_market_funds_of sample_available Let_def stage_margin_delta_row stored sample_money_def)
  obtain oid d1 where "generate_order_id sample_ext d = (oid, d1)" by fastforce
  then show ?thesis
    by (simp add: place_request_def sample_symbol bad_lot_def sample_form_fields open_hours sample_pricing
        sample_amount reserve insert_order_def cnc_sell_rejection_def Let_def)
qed


subsection \<open>Delivery sells and reversals\<close>

definition sellable :: "string \<Rightarrow> order_request \<Rightarrow> sandbox \<Rightarrow> int" where
  "sellable uid rq db = position_qty uid rq db + holdings_qty uid rq db"

text \<open>A delivery (CNC) sell is accepted only for shares the account has: the signed open position and
  the settled holding together cover it, so shares sold earlier in the session, which show as a
  negative position until they settle, are not sold again.\<close>

theorem delivery_sells_are_covered:
  assumes "place_request X uid rq prefetched db = (Order_ok oid, db')"
    and "rq_action rq = SELL" and "rq_product rq = CNC" and "rq_quantity rq > 0"
    and "funds_ready uid db"
  shows "rq_quantity rq \<le> sellable uid rq db"
proof -
  obtain pricing margin db0 d where ins: "insert_order X uid rq pricing margin db0 d = (Order_ok oid, db')"
    and d: "positions d = positions db" "holdings d = holdings db"
  proof -
    have res: "positions d = positions db \<and> holdings d = holdings db"
      if "reserve_margin X uid rq amount db = (Inr margin, d)" for amount margin d
    proof -
      have "d = db \<or> d = snd (stage_margin_delta X uid amount db)"
        using reserve_margin_granted [OF that] assms(5) by auto
      then show ?thesis by auto
    qed
    show ?thesis
      using assms(1) that res
      by (fastforce simp: place_request_def split: option.splits sum.splits prod.splits if_splits)
  qed
  have "cnc_sell_rejection uid rq d = None"
    using ins by (auto simp: insert_order_def Let_def split: prod.splits option.splits if_splits)
  then show ?thesis
    using assms(2,3) d
    by (auto simp: cnc_sell_rejection_def sellable_def position_qty_def holdings_qty_def position_for_def
        holding_for_def Let_def split: if_splits cong: option.case_cong)
qed

definition delivery_market :: sandbox where
  "delivery_market = sample_market\<lparr>positions := [sample_position\<lparr>po_product := CNC\<rparr>]\<rparr>"

definition delivery_sell :: order_request where
  "delivery_sell = sample_request\<lparr>rq_action := SELL, rq_product := CNC, rq_quantity := 4, rq_price := Some 130\<rparr>"

theorem delivery_sells_are_covered_witness:
  "\<exists>oid db'. place_request sample_ext ''u'' delivery_sell None delivery_market = (Order_ok oid, db') \<and>
     4 \<le> sellable ''u'' delivery_sell delivery_market"
proof -
  have sim: "funds_rows delivery_market = funds_rows sample_market" "holdings delivery_market = []"
    "orders delivery_market = orders sample_market" "symtoken delivery_market = symtoken sample_market"
    "config delivery_market = config sample_market"
    by (simp_all add: delivery_market_def sample_market_def sample_db_def)
  have ready: "funds_ready ''u'' delivery_market"
    using sample_market_ready by (simp add: funds_ready_def funds_wf_def funds_of_def sim)
  have qty: "position_qty ''u'' delivery_sell delivery_market = 10"
    by (simp add: position_qty_def position_for_def delivery_market_def delivery_sell_def sample_position_def)
  have lev: "calculate_margin_required delivery_market s ''NSE'' CNC q p a = Inr (of_int \<bar>q\<bar> * p)"
    for s q p a
  proof -
    have "decimal_of_string ''1'' = Some 1" by code_simp
    then show ?thesis
      by (simp add: calculate_margin_required_def sim sample_symbol get_leverage_def config_leverage_def
          get_config_def sample_market_def sample_db_def Let_def)
  qed
  have pricing: "price_order sample_ext ''u'' delivery_sell None delivery_market =
      Inr \<lparr>pr_margin_price = Some 130, pr_cached_quote = None, pr_trigger_met = False\<rparr>"
    by (simp add: price_order_def limit_pricing_def first_live_def live_def sample_ext_def delivery_sell_def)
  have amount: "margin_to_block ''u'' delivery_sell 130 delivery_market = Inr 0"
    using qty by (simp add: margin_to_block_def lev opposite_side_def delivery_sell_def)
  have reserve: "reserve_margin sample_ext ''u'' delivery_sell 0 delivery_market = (Inr 0, delivery_market)"
    by (simp add: reserve_margin_def should_block_margin_def)
  have cnc: "cnc_sell_rejection ''u'' delivery_sell delivery_market = None"
    using qty by (simp add: cnc_sell_rejection_def holdings_qty_def holding_for_def sim delivery_sell_def Let_def)
  obtain oid d1 where "generate_order_id sample_ext delivery_market = (oid, d1)" by fastforce
  then have "\<exists>oid db'. place_request sample_ext ''u'' delivery_sell None delivery_market = (Order_ok oid, db')"
    using pricing amount reserve cnc
    by (simp add: place_request_def sim sample_symbol bad_lot_def sample_form_fields mis_blocked_def
        delivery_sell_def insert_order_def Let_def)
  then obtain oid db' where p: "place_request sample_ext ''u'' delivery_sell None delivery_market = (Order_ok oid, db')"
    by blast
  have "rq_quantity delivery_sell \<le> sellable ''u'' delivery_sell delivery_market"
    using delivery_sells_are_covered [OF p] ready by (simp add: delivery_sell_def)
  with p show ?thesis by (auto simp: delivery_sell_def)
qed

text \<open>A fill that reverses a position leaves the reversed position recording only the excess share of
  the margin its order reserved, although placement reserves margin for the excess alone: the
  position records strictly less than the account holds reserved for it.\<close>

theorem reversal_records_part_of_the_margin:
  assumes "positions_wf db" and "position_of r db = Some row" and "reducing r (read_position X row)"
    and "release_accepted X r price db (read_position X row)" and "0 < od_quantity r"
    and "\<bar>po_quantity row\<bar> < od_quantity r" and "od_margin_blocked r = Some m" and "0 < m"
  shows "\<exists>p'. position_of r (net_position X r price db) = Some p' \<and>
     po_margin_blocked p' * of_int (od_quantity r) = m * of_int (od_quantity r - \<bar>po_quantity row\<bar>) \<and>
     po_margin_blocked p' < m"
proof -
  have new0: "signed_quantity (od_action r) (od_quantity r) \<noteq> 0"
    using assms(5) by (simp add: signed_quantity_def split: action.splits)
  have run: "net_position X r price db = reduce_position X r price (read_position X row) db"
    using assms(5)
    by (cases rule: net_position_cases [where X = X and r = r and db = db and price = price])
      (use assms(2,3) new0 in \<open>auto simp: reducing_def\<close>)
  let ?new = "signed_quantity (od_action r) (od_quantity r)" and ?old = "po_quantity (read_position X row)"
  have n: "\<bar>?new\<bar> = od_quantity r" using assms(5) by simp
  have big: "\<bar>?new\<bar> > \<bar>?old\<bar>" unfolding n using assms(6) by simp
  have side: "?old \<noteq> 0" "0 < ?old \<longleftrightarrow> ?new < 0" using assms(3) by (simp_all add: reducing_def)
  obtain p' where p': "position_of r (net_position X r price db) = Some p'"
    "po_margin_blocked p' = order_margin r * (of_int (\<bar>?new\<bar> - \<bar>?old\<bar>) / of_int \<bar>?new\<bar>)"
    using reduce_position_row [OF assms(1,2,4) side assms(5)] big unfolding run by auto
  have q: "(of_int (od_quantity r) :: rat) > 0" using assms(5) by simp
  have pm: "po_margin_blocked p' = m * of_int (od_quantity r - \<bar>po_quantity row\<bar>) / of_int (od_quantity r)"
    using p'(2) assms(7) n by (simp add: order_margin_def)
  have "of_int (od_quantity r - \<bar>po_quantity row\<bar>) < (of_int (od_quantity r) :: rat)"
    using side by (simp only: of_int_less_iff) simp
  then have "m * of_int (od_quantity r - \<bar>po_quantity row\<bar>) < m * of_int (od_quantity r)"
    using assms(8) by (simp only: mult_less_cancel_left_pos)
  then have "po_margin_blocked p' < m"
    unfolding pm using q by (simp only: pos_divide_less_eq)
  with p'(1) pm q show ?thesis by simp
qed

definition reversing_order :: sandbox_order where
  "reversing_order = sample_order\<lparr>od_quantity := 15, od_margin_blocked := Some 60\<rparr>"

theorem reversal_records_part_of_the_margin_witness:
  "\<exists>p'. position_of reversing_order (net_position sample_ext reversing_order 120 sample_market) = Some p' \<and>
     po_margin_blocked p' * 15 = 300"
proof -
  have pos: "position_of reversing_order sample_market = Some sample_position"
    by (simp add: position_of_def same_position_def reversing_order_def sample_market_simps sample_position_def)
  have red: "reducing reversing_order (read_position sample_ext sample_position)"
    by (simp add: reducing_def reversing_order_def signed_quantity_def)
  have "fill_accepted sample_ext reversing_order 120 sample_market"
  proof (rule fill_acceptedI [OF _ sample_columns])
    show "funds_ready (od_user reversing_order) sample_market"
      using sample_market_ready by (simp add: reversing_order_def)
    show "0 \<le> po_margin_blocked row \<and> x_read sample_ext 2 (po_margin_blocked row) \<le>
        used_margin (read_funds sample_ext (od_user reversing_order) sample_market)"
      if "position_of reversing_order sample_market = Some row" for row
      using that pos sample_market_funds sample_read_100
      by (simp add: reversing_order_def sample_money_def)
  qed
  with pos red have acc: "release_accepted sample_ext reversing_order 120 sample_market
      (read_position sample_ext sample_position)"
    by (simp add: fill_accepted_def)
  show ?thesis
    using reversal_records_part_of_the_margin [OF sample_market_wf pos red acc, of 60]
    by (auto simp: reversing_order_def)
qed

subsection \<open>Modifying an order\<close>

lemma modify_from_ok:
  assumes "modify_from r ch db = (Order_ok o', db')"
  shows "\<exists>q p t. claim_row od_id is_pending (modify_row r q p t) (od_id r) (orders db) = (True, orders db') \<and>
    db' = db\<lparr>orders := orders db'\<rparr> \<and> (\<forall>x. ch_quantity ch = Number x \<longrightarrow> q = Some (int_of_number x))"
  using assms
  by (auto simp: modify_from_def new_quantity_def
      split: sum.splits prod.splits if_splits field_number.splits option.splits; blast)

text \<open>A modification that succeeds changes the quantity and prices of the one resting order and
  nothing else: it keeps its status and its recorded margin, and no money moves, so a larger
  quantity rests on the reservation of the smaller one.\<close>

theorem modification_keeps_the_reservation:
  assumes "orders_wf db" and "find_order uid oid db = Some row"
    and "modify_order X uid oid ch db = (Order_ok o', db')"
  shows "\<exists>row'. find_order uid oid db' = Some row' \<and> is_pending row \<and> od_status row' = od_status row \<and>
    od_margin_blocked row' = od_margin_blocked row \<and> funds_rows db' = funds_rows db \<and>
    (\<forall>x. ch_quantity ch = Number x \<longrightarrow> od_quantity row' = int_of_number x)"
proof -
  let ?r = "read_order X row"
  have row: "row \<in> set (orders db)" using find_order_SomeD [OF assms(2)] by simp
  have pend: "is_pending row" and m: "modify_from ?r ch db = (Order_ok o', db')"
    using assms(3) by (auto simp: modify_order_def assms(2) Let_def split: if_splits)
  obtain q p t where c: "claim_row od_id is_pending (modify_row ?r q p t) (od_id row) (orders db) = (True, orders db')"
    and db': "db' = db\<lparr>orders := orders db'\<rparr>"
    and q: "\<And>x. ch_quantity ch = Number x \<Longrightarrow> q = Some (int_of_number x)"
    using modify_from_ok [OF m] by auto
  have rows: "orders db' = sql_update (\<lambda>o''. od_id o'' = od_id row \<and> is_pending o'') (modify_row ?r q p t) (orders db)"
    using c by (simp add: claim_row_def split: if_splits)
  let ?row' = "modify_row ?r q p t row"
  have "find (\<lambda>r. od_orderid r = oid \<and> od_user r = uid) (orders db') =
      map_option (\<lambda>o''. if od_id o'' = od_id row \<and> is_pending o'' then modify_row ?r q p t o'' else o'')
        (find (\<lambda>r. od_orderid r = oid \<and> od_user r = uid) (orders db))"
    unfolding rows by (rule find_sql_update) (simp add: modify_row_def)
  then have "find_order uid oid db' = Some ?row'"
    using assms(2) pend by (simp add: find_order_def)
  moreover have "funds_rows db' = funds_rows db" by (subst db') simp
  moreover have "od_quantity ?row' = int_of_number x" if "ch_quantity ch = Number x" for x
    using q [OF that] by (simp add: modify_row_def)
  ultimately show ?thesis using pend by (auto simp: modify_row_def)
qed

definition ten_times :: order_changes where
  "ten_times = \<lparr>ch_quantity = Number 40, ch_price = Absent, ch_trigger_price = Absent\<rparr>"

theorem modification_keeps_the_reservation_witness:
  "\<exists>db' row'. modify_order sample_ext ''u'' (0, 1) ten_times reserved_market = (Order_ok (0, 1), db') \<and>
     find_order ''u'' (0, 1) db' = Some row' \<and> od_quantity row' = 40 \<and> od_margin_blocked row' = Some 60"
proof -
  let ?row = "sample_order\<lparr>od_margin_blocked := Some 60\<rparr>"
  have wf: "orders_wf reserved_market" by (simp add: orders_wf_def reserved_market_simps)
  have find: "find_order ''u'' (0, 1) reserved_market = Some ?row"
    by (simp add: find_order_def reserved_market_simps)
  have pend: "is_pending ?row" by (simp add: is_pending_def PENDING_ORDER_STATUSES_def)
  have sym: "symtoken reserved_market = symtoken sample_market" by (simp add: reserved_market_def)
  have "\<exists>db'. modify_order sample_ext ''u'' (0, 1) ten_times reserved_market = (Order_ok (0, 1), db')"
    using pend
    by (simp add: modify_order_def find modify_from_def new_quantity_def ten_times_def sym sample_symbol
        bad_lot_def sample_form_fields new_decimal_def truthy_def claim_row_def reserved_market_simps Let_def)
  then obtain db' where p: "modify_order sample_ext ''u'' (0, 1) ten_times reserved_market = (Order_ok (0, 1), db')"
    by blast
  then show ?thesis
    using modification_keeps_the_reservation [OF wf find p]
    by (auto simp: ten_times_def int_of_number_def)
qed

end
