(* ===== verification/GttManager.thy ===== *)
theory GttManager
  imports OrderManager
begin

text \<open>
  The GTT manager (\<open>sandbox/gtt_manager.py\<close>): resting triggers of one leg or two mutually
  exclusive legs (OCO), the margin they reserve, the claim that decides which evaluator fires a
  leg, firing, recovery after an interrupted fire, and expiry.  A placement form holds the
  validated payload of the API; absent prices are zero, absent text is empty.
\<close>

subsection \<open>Forms, legs and responses\<close>

record gtt_form =
  gf_trigger_type :: string
  gf_symbol :: string
  gf_exchange :: string
  gf_action :: string
  gf_product :: "product option"
  gf_quantity :: int
  gf_pricetype :: "price_type option"
  gf_price :: rat
  gf_triggerprice_sl :: rat
  gf_triggerprice_tg :: rat
  gf_stoploss :: rat
  gf_target :: rat
  gf_strategy :: "string option"
  gf_expires_at :: "time option"

record leg_spec =
  ls_trigger_price :: rat
  ls_direction :: direction
  ls_action :: "action option"
  ls_quantity :: int
  ls_price :: rat
  ls_pricetype :: price_type

datatype gtt_error =
    Bad_trigger_shape | Gtt_margin margin_error | Gtt_funds fund_msg | Gtt_not_found
  | Action_fixed | Symbol_fixed | Exchange_fixed | Trigger_type_fixed | Gtt_internal_error

datatype gtt_response = Gtt_ok nat | Gtt_error nat gtt_error

definition DEFAULT_EXPIRY_DAYS :: int where
  "DEFAULT_EXPIRY_DAYS = 365"

definition DEFAULT_CLAIM_TIMEOUT_SEC :: int where
  "DEFAULT_CLAIM_TIMEOUT_SEC = 60"

definition claim_timeout_seconds :: "sandbox \<Rightarrow> int" where
  "claim_timeout_seconds db =
     (case config db ''gtt_claim_timeout_sec'' of
        None \<Rightarrow> DEFAULT_CLAIM_TIMEOUT_SEC
      | Some s \<Rightarrow> (case int_of_string s of Some n \<Rightarrow> n | None \<Rightarrow> DEFAULT_CLAIM_TIMEOUT_SEC))"

text \<open>Whether an OCO reserves the larger leg (\<open>max\<close>, the default) or both.\<close>

definition oco_reserves_max :: "sandbox \<Rightarrow> bool" where
  "oco_reserves_max db \<longleftrightarrow> str_lower (strip (get_config db ''gtt_oco_margin_mode'' ''max'')) \<noteq> ''sum''"

definition resolve_expiry :: "ext \<Rightarrow> time option \<Rightarrow> time" where
  "resolve_expiry X supplied =
     (case supplied of Some t \<Rightarrow> t | None \<Rightarrow> x_now X + DEFAULT_EXPIRY_DAYS * ms_per_day)"

definition pricing_basis :: "rat \<Rightarrow> rat \<Rightarrow> rat \<Rightarrow> rat" where
  "pricing_basis price trigger last_price =
     (if price > 0 then price else if trigger > 0 then trigger else last_price)"

definition leg_is_triggered_by :: "direction \<Rightarrow> rat \<Rightarrow> rat \<Rightarrow> bool" where
  "leg_is_triggered_by dir trigger ltp = (case dir of Above \<Rightarrow> ltp \<ge> trigger | Below \<Rightarrow> ltp \<le> trigger)"

definition build_legs :: "gtt_form \<Rightarrow> leg_spec list" where
  "build_legs f =
     (let act = parse_action (gf_action f);
          pt = (case gf_pricetype f of Some p \<Rightarrow> p | None \<Rightarrow> LIMIT);
          sl_trigger = gf_triggerprice_sl f;
          tg_trigger = gf_triggerprice_tg f;
          leg = (\<lambda>trigger dir price. \<lparr> ls_trigger_price = trigger, ls_direction = dir, ls_action = act,
                   ls_quantity = gf_quantity f, ls_price = price, ls_pricetype = pt \<rparr>)
      in if str_upper (gf_trigger_type f) = ''OCO'' then
           (if sl_trigger \<le> 0 \<or> tg_trigger \<le> 0 then []
            else [leg sl_trigger Below (if gf_stoploss f \<noteq> 0 then gf_stoploss f else gf_price f),
                  leg tg_trigger Above (if gf_target f \<noteq> 0 then gf_target f else gf_price f)])
         else let trigger = (if sl_trigger \<noteq> 0 then sl_trigger else tg_trigger) in
           (if trigger \<le> 0 \<or> sl_trigger > 0 \<and> tg_trigger > 0 then []
            else [leg trigger (if sl_trigger > 0 then Below else Above) (gf_price f)]))"

definition leg_margin_required ::
    "sandbox \<Rightarrow> string \<Rightarrow> string \<Rightarrow> product \<Rightarrow> rat \<Rightarrow> leg_spec \<Rightarrow> margin_error + rat" where
  "leg_margin_required db symbol exchange pr last_price l =
     calculate_margin_required db symbol exchange pr (ls_quantity l)
       (pricing_basis (ls_price l) (ls_trigger_price l) last_price) (ls_action l)"

primrec leg_margins ::
    "sandbox \<Rightarrow> string \<Rightarrow> string \<Rightarrow> product \<Rightarrow> rat \<Rightarrow> leg_spec list \<Rightarrow> margin_error + rat list" where
  "leg_margins db symbol exchange pr last_price [] = Inr []"
| "leg_margins db symbol exchange pr last_price (l # ls) =
     (case leg_margin_required db symbol exchange pr last_price l of
        Inl e \<Rightarrow> Inl e
      | Inr m \<Rightarrow>
          (case leg_margins db symbol exchange pr last_price ls of
             Inl e \<Rightarrow> Inl e
           | Inr ms \<Rightarrow> Inr (m # ms)))"

definition blocked_margin :: "sandbox \<Rightarrow> bool \<Rightarrow> rat list \<Rightarrow> rat" where
  "blocked_margin db two_leg margins =
     (if two_leg \<and> oco_reserves_max db then Max (set margins) else sum_list margins)"

subsection \<open>Rows\<close>

definition gtt_row :: "ext \<Rightarrow> nat \<Rightarrow> sandbox \<Rightarrow> sandbox_gtt option" where
  "gtt_row X gid db = map_option (read_gtt X) (find (\<lambda>g. gt_gtt_id g = gid) (gtts db))"

definition leg_row :: "ext \<Rightarrow> nat \<Rightarrow> sandbox \<Rightarrow> sandbox_gtt_leg option" where
  "leg_row X lid db = map_option (read_leg X) (find (\<lambda>l. lg_id l = lid) (gtt_legs db))"

text \<open>The legs of a GTT in the order of their numbers.\<close>

definition legs_of :: "ext \<Rightarrow> nat \<Rightarrow> sandbox \<Rightarrow> sandbox_gtt_leg list" where
  "legs_of X gid db =
     sort_key lg_leg_number (map (read_leg X) (filter (\<lambda>l. lg_gtt_id l = gid) (gtt_legs db)))"

definition get_active_gtt :: "ext \<Rightarrow> string \<Rightarrow> nat \<Rightarrow> sandbox \<Rightarrow> sandbox_gtt option" where
  "get_active_gtt X uid gid db =
     map_option (read_gtt X)
       (find (\<lambda>g. gt_gtt_id g = gid \<and> gt_user g = uid \<and> gt_status g = Active) (gtts db))"

definition set_legs ::
    "(sandbox_gtt_leg \<Rightarrow> bool) \<Rightarrow> (sandbox_gtt_leg \<Rightarrow> sandbox_gtt_leg) \<Rightarrow> sandbox \<Rightarrow> sandbox" where
  "set_legs P f db = db\<lparr>gtt_legs := sql_update P f (gtt_legs db)\<rparr>"

definition set_gtt :: "nat \<Rightarrow> (sandbox_gtt \<Rightarrow> sandbox_gtt) \<Rightarrow> sandbox \<Rightarrow> sandbox" where
  "set_gtt gid f db = db\<lparr>gtts := sql_update (\<lambda>g. gt_gtt_id g = gid) f (gtts db)\<rparr>"

definition cancel_leg :: "sandbox_gtt_leg \<Rightarrow> sandbox_gtt_leg" where
  "cancel_leg l = l\<lparr>lg_status := Leg_cancelled, lg_claimed_at := None\<rparr>"

definition unclaim_leg :: "sandbox_gtt_leg \<Rightarrow> sandbox_gtt_leg" where
  "unclaim_leg l = l\<lparr>lg_status := Pending, lg_claimed_at := None\<rparr>"

text \<open>
  A conditional UPDATE of one GTT that must still be active (and, for the user's own requests,
  the user's).
\<close>

definition claim_gtt ::
    "(sandbox_gtt \<Rightarrow> bool) \<Rightarrow> (sandbox_gtt \<Rightarrow> sandbox_gtt) \<Rightarrow> nat \<Rightarrow> sandbox \<Rightarrow> bool \<times> sandbox" where
  "claim_gtt P f gid db =
     (case claim_row gt_gtt_id (\<lambda>g. gt_status g = Active \<and> P g) f gid (gtts db) of
        (won, rows) \<Rightarrow> (won, if won then db\<lparr>gtts := rows\<rparr> else db))"

text \<open>
  A staged change that is refused rolls back to \<open>db\<close>, unless creating a missing funds row has
  committed what was pending.
\<close>

definition rolled_back :: "string \<Rightarrow> sandbox \<Rightarrow> sandbox \<Rightarrow> sandbox \<Rightarrow> sandbox" where
  "rolled_back uid db pending after = (if funds_of uid pending = None then after else db)"

subsection \<open>Placing a GTT\<close>

definition new_gtt :: "ext \<Rightarrow> string \<Rightarrow> gtt_form \<Rightarrow> nat \<Rightarrow> bool \<Rightarrow> rat \<Rightarrow> rat \<Rightarrow> sandbox_gtt" where
  "new_gtt X uid f gid two_leg last_price blocked =
     \<lparr> gt_gtt_id = gid, gt_user = uid, gt_strategy = gf_strategy f,
       gt_trigger_type = (if two_leg then Two_leg else Single), gt_symbol = gf_symbol f,
       gt_exchange = gf_exchange f, gt_last_price = last_price, gt_status = Active,
       gt_margin_blocked = blocked, gt_expires_at = Some (resolve_expiry X (gf_expires_at f)) \<rparr>"

definition new_leg :: "nat \<Rightarrow> product \<Rightarrow> action \<Rightarrow> nat \<Rightarrow> nat \<Rightarrow> leg_spec \<Rightarrow> rat \<Rightarrow> sandbox_gtt_leg" where
  "new_leg gid pr act lid number l margin =
     \<lparr> lg_id = lid, lg_gtt_id = gid, lg_leg_number = number, lg_trigger_price = ls_trigger_price l,
       lg_direction = ls_direction l, lg_action = act, lg_quantity = ls_quantity l,
       lg_price = ls_price l, lg_pricetype = ls_pricetype l, lg_product = pr, lg_status = Pending,
       lg_triggered_order_id = None, lg_leg_margin = margin, lg_claimed_at = None \<rparr>"

primrec new_legs ::
    "nat \<Rightarrow> product \<Rightarrow> action \<Rightarrow> nat \<Rightarrow> nat \<Rightarrow> (leg_spec \<times> rat) list \<Rightarrow> sandbox_gtt_leg list" where
  "new_legs gid pr act lid number [] = []"
| "new_legs gid pr act lid number (lm # lms) =
     new_leg gid pr act lid number (fst lm) (snd lm) # new_legs gid pr act (Suc lid) (Suc number) lms"

definition notify_gtt_placed :: "ext \<Rightarrow> nat \<Rightarrow> sandbox \<Rightarrow> sandbox" where
  "notify_gtt_placed X gid db = (if x_ws_running X then publish (Ws_gtt_placed gid) db else db)"

text \<open>The insert: a missing action, a missing product or a reused id fails it.\<close>

definition insert_gtt ::
    "ext \<Rightarrow> string \<Rightarrow> gtt_form \<Rightarrow> rat \<Rightarrow> leg_spec list \<Rightarrow> rat list \<Rightarrow> rat \<Rightarrow> sandbox \<Rightarrow> (nat \<times> sandbox) option" where
  "insert_gtt X uid f last_price legs margins blocked db =
     (case (parse_action (gf_action f), gf_product f) of
        (Some act, Some pr) \<Rightarrow>
          (let gid = x_uuid X in
           if \<exists>g \<in> set (gtts db). gt_gtt_id g = gid then None
           else Some (gid, db\<lparr>gtts := gtts db @ [new_gtt X uid f gid (length legs = 2) last_price blocked],
                              gtt_legs := gtt_legs db @
                                new_legs gid pr act (next_id lg_id (gtt_legs db)) 1 (zip legs margins)\<rparr>))
      | _ \<Rightarrow> None)"

definition place_gtt :: "ext \<Rightarrow> string \<Rightarrow> gtt_form \<Rightarrow> rat \<Rightarrow> sandbox \<Rightarrow> gtt_response \<times> sandbox" where
  "place_gtt X uid f last_price db =
     (let legs = build_legs f;
          pr = (case gf_product f of Some p \<Rightarrow> p | None \<Rightarrow> NRML)
      in if legs = [] then (Gtt_error 400 Bad_trigger_shape, db)
         else (case leg_margins db (gf_symbol f) (gf_exchange f) pr last_price legs of
                 Inl e \<Rightarrow> (Gtt_error 400 (Gtt_margin e), db)
               | Inr margins \<Rightarrow>
                   (let blocked = blocked_margin db (length legs = 2) margins in
                    case stage_margin_delta X uid blocked db of
                      ((ok, msg), db1) \<Rightarrow>
                        if \<not> ok then (Gtt_error 400 (Gtt_funds msg), db1)
                        else (case insert_gtt X uid f last_price legs margins blocked db1 of
                                None \<Rightarrow> (Gtt_error 500 Gtt_internal_error, ensure_funds_initialized X uid db)
                              | Some (gid, db2) \<Rightarrow> (Gtt_ok gid, notify_gtt_placed X gid db2)))))"

subsection \<open>Modifying a GTT\<close>

definition immutable_violation :: "sandbox_gtt \<Rightarrow> sandbox_gtt_leg list \<Rightarrow> gtt_form \<Rightarrow> gtt_error option" where
  "immutable_violation g legs f =
     (if gf_action f \<noteq> [] \<and> legs \<noteq> [] \<and> parse_action (gf_action f) \<noteq> Some (lg_action (hd legs)) then Some Action_fixed
      else if gf_symbol f \<noteq> [] \<and> str_upper (gf_symbol f) \<noteq> str_upper (gt_symbol g) then Some Symbol_fixed
      else if gf_exchange f \<noteq> [] \<and> str_upper (gf_exchange f) \<noteq> str_upper (gt_exchange g) then Some Exchange_fixed
      else if gf_trigger_type f \<noteq> [] \<and>
              str_upper (gf_trigger_type f) \<noteq>
                (case gt_trigger_type g of Two_leg \<Rightarrow> ''OCO'' | Single \<Rightarrow> ''SINGLE'')
      then Some Trigger_type_fixed else None)"

definition rewrite_leg :: "leg_spec \<Rightarrow> action \<Rightarrow> rat \<Rightarrow> sandbox_gtt_leg \<Rightarrow> sandbox_gtt_leg" where
  "rewrite_leg l act margin row =
     row\<lparr>lg_trigger_price := ls_trigger_price l, lg_direction := ls_direction l,
         lg_quantity := ls_quantity l, lg_price := ls_price l, lg_pricetype := ls_pricetype l,
         lg_action := act, lg_leg_margin := margin\<rparr>"

primrec rewrite_legs ::
    "sandbox_gtt_leg list \<Rightarrow> action \<Rightarrow> (leg_spec \<times> rat) list \<Rightarrow> sandbox \<Rightarrow> sandbox" where
  "rewrite_legs [] act lms db = db"
| "rewrite_legs (row # rows) act lms db =
     (case lms of
        [] \<Rightarrow> db
      | (l, margin) # rest \<Rightarrow>
          rewrite_legs rows act rest (set_legs (\<lambda>x. lg_id x = lg_id row) (rewrite_leg l act margin) db))"

definition reprice_gtt ::
    "ext \<Rightarrow> string \<Rightarrow> sandbox_gtt \<Rightarrow> sandbox_gtt_leg list \<Rightarrow> gtt_form \<Rightarrow> leg_spec list \<Rightarrow> rat list
     \<Rightarrow> sandbox \<Rightarrow> gtt_response \<times> sandbox" where
  "reprice_gtt X uid g rows f legs margins db =
     (let gid = gt_gtt_id g;
          new_blocked = blocked_margin db (gt_trigger_type g = Two_leg) margins;
          delta = new_blocked - gt_margin_blocked g
      in case claim_gtt (\<lambda>x. gt_user x = uid) (\<lambda>x. x\<lparr>gt_margin_blocked := new_blocked\<rparr>) gid db of
           (claimed, db1) \<Rightarrow>
             if \<not> claimed then (Gtt_error 404 Gtt_not_found, db)
             else (case stage_margin_delta X uid delta db1 of
                     ((staged, msg), db2) \<Rightarrow>
                       if \<not> staged then
                         (Gtt_error (if delta > 0 then 400 else 500) (Gtt_funds msg), rolled_back uid db db1 db2)
                       else (case parse_action (gf_action f) of
                               None \<Rightarrow> (Gtt_error 500 Gtt_internal_error, rolled_back uid db db1 db2)
                             | Some act \<Rightarrow> (Gtt_ok gid, rewrite_legs rows act (zip legs margins) db2))))"

definition modify_gtt :: "ext \<Rightarrow> string \<Rightarrow> nat \<Rightarrow> gtt_form \<Rightarrow> sandbox \<Rightarrow> gtt_response \<times> sandbox" where
  "modify_gtt X uid gid f db =
     (case get_active_gtt X uid gid db of
        None \<Rightarrow> (Gtt_error 404 Gtt_not_found, db)
      | Some g \<Rightarrow>
          (let rows = legs_of X gid db; legs = build_legs f in
           case immutable_violation g rows f of
             Some e \<Rightarrow> (Gtt_error 400 e, db)
           | None \<Rightarrow>
               if legs = [] \<or> length legs \<noteq> length rows then (Gtt_error 400 Bad_trigger_shape, db)
               else (case leg_margins db (gt_symbol g) (gt_exchange g)
                            (case gf_product f of Some p \<Rightarrow> p | None \<Rightarrow> lg_product (hd rows))
                            (gt_last_price g) legs of
                       Inl e \<Rightarrow> (Gtt_error 400 (Gtt_margin e), db)
                     | Inr margins \<Rightarrow> reprice_gtt X uid g rows f legs margins db)))"

subsection \<open>Cancelling and listing\<close>

definition cancel_gtt_row :: "sandbox_gtt \<Rightarrow> sandbox_gtt" where
  "cancel_gtt_row g = g\<lparr>gt_status := Gtt_cancelled, gt_margin_blocked := 0\<rparr>"

text \<open>\<open>g\<close> is the GTT as it was read; the claim decides.\<close>

definition cancel_gtt_from :: "ext \<Rightarrow> string \<Rightarrow> sandbox_gtt \<Rightarrow> sandbox \<Rightarrow> gtt_response \<times> sandbox" where
  "cancel_gtt_from X uid g db =
     (let gid = gt_gtt_id g; amount = gt_margin_blocked g in
      case claim_gtt (\<lambda>x. gt_user x = uid) cancel_gtt_row gid db of
        (won, db1) \<Rightarrow>
          if \<not> won then (Gtt_error 404 Gtt_not_found, db)
          else let db2 = set_legs (\<lambda>l. lg_gtt_id l = gid \<and> lg_status l \<in> {Pending, Triggering}) cancel_leg db1 in
               if amount > 0 then
                 (case stage_margin_delta X uid (- amount) db2 of
                    ((staged, msg), db3) \<Rightarrow>
                      if staged then (Gtt_ok gid, db3)
                      else (Gtt_error 500 (Gtt_funds msg), rolled_back uid db db2 db3))
               else (Gtt_ok gid, db2))"

definition cancel_gtt :: "ext \<Rightarrow> string \<Rightarrow> nat \<Rightarrow> sandbox \<Rightarrow> gtt_response \<times> sandbox" where
  "cancel_gtt X uid gid db =
     (case get_active_gtt X uid gid db of
        None \<Rightarrow> (Gtt_error 404 Gtt_not_found, db)
      | Some g \<Rightarrow> cancel_gtt_from X uid g db)"

text \<open>Newest first: rows are kept in the order they were created.\<close>

definition list_gtts :: "ext \<Rightarrow> string \<Rightarrow> gtt_status option \<Rightarrow> sandbox \<Rightarrow> (sandbox_gtt \<times> sandbox_gtt_leg list) list" where
  "list_gtts X uid status_filter db =
     map (\<lambda>g. (read_gtt X g, legs_of X (gt_gtt_id g) db))
       (rev (filter (\<lambda>g. gt_user g = uid \<and>
          (case status_filter of Some s \<Rightarrow> gt_status g = s | None \<Rightarrow> True)) (gtts db)))"

subsection \<open>Claiming a leg\<close>

text \<open>
  One UPDATE decides: the leg is pending, no other leg of its GTT is being fired or has fired,
  and the GTT is still active.
\<close>

definition sibling_busy :: "sandbox \<Rightarrow> sandbox_gtt_leg \<Rightarrow> bool" where
  "sibling_busy db l \<longleftrightarrow>
     (\<exists>s \<in> set (gtt_legs db). lg_gtt_id s = lg_gtt_id l \<and> lg_id s \<noteq> lg_id l \<and>
        lg_status s \<in> {Triggering, Leg_triggered})"

definition parent_active :: "sandbox \<Rightarrow> sandbox_gtt_leg \<Rightarrow> bool" where
  "parent_active db l \<longleftrightarrow> (\<exists>g \<in> set (gtts db). gt_gtt_id g = lg_gtt_id l \<and> gt_status g = Active)"

definition claimable_leg :: "sandbox \<Rightarrow> sandbox_gtt_leg \<Rightarrow> bool" where
  "claimable_leg db l \<longleftrightarrow> lg_status l = Pending \<and> \<not> sibling_busy db l \<and> parent_active db l"

definition claim_leg_row :: "ext \<Rightarrow> sandbox_gtt_leg \<Rightarrow> sandbox_gtt_leg" where
  "claim_leg_row X l = l\<lparr>lg_status := Triggering, lg_claimed_at := Some (x_now X)\<rparr>"

definition try_claim_trigger :: "ext \<Rightarrow> nat \<Rightarrow> sandbox \<Rightarrow> bool \<times> sandbox" where
  "try_claim_trigger X lid db =
     (case claim_row lg_id (claimable_leg db) (claim_leg_row X) lid (gtt_legs db) of
        (won, rows) \<Rightarrow> (won, if won then db\<lparr>gtt_legs := rows\<rparr> else db))"

subsection \<open>Firing a claimed leg\<close>

definition revert_parent :: "nat \<Rightarrow> sandbox \<Rightarrow> sandbox" where
  "revert_parent gid db =
     db\<lparr>gtts := sql_update (\<lambda>g. gt_gtt_id g = gid \<and> gt_status g = Triggered)
                 (\<lambda>g. g\<lparr>gt_status := Active\<rparr>) (gtts db)\<rparr>"

definition revert_claim :: "nat \<Rightarrow> sandbox \<Rightarrow> sandbox" where
  "revert_claim lid = set_legs (\<lambda>l. lg_id l = lid \<and> lg_status l = Triggering) unclaim_leg"

definition reject_gtt :: "sandbox_gtt \<Rightarrow> sandbox_gtt" where
  "reject_gtt g = g\<lparr>gt_status := Gtt_rejected\<rparr>"

text \<open>
  The undoing of a fire whose order was not placed: \<open>amount\<close> is what the fire released.  When
  it cannot be reserved again the GTT is rejected rather than left armed with nothing behind it.
\<close>

definition compensate_failed_fire :: "ext \<Rightarrow> string \<Rightarrow> nat \<Rightarrow> nat \<Rightarrow> rat \<Rightarrow> sandbox \<Rightarrow> sandbox" where
  "compensate_failed_fire X uid gid lid amount db =
     (if amount > 0 then
        (case block_margin X uid amount db of
           ((restored, reason), db1) \<Rightarrow>
             if restored then
               revert_claim lid (revert_parent gid (set_gtt gid (\<lambda>g. g\<lparr>gt_margin_blocked := amount\<rparr>) db1))
             else
               revert_claim lid (set_gtt gid reject_gtt
                 (set_gtt gid (\<lambda>g. g\<lparr>gt_margin_blocked := 0\<rparr>) db1)))
      else revert_claim lid (revert_parent gid db))"

text \<open>The order a leg places; its row carries the leg's id, written in the same INSERT.\<close>

definition leg_order :: "sandbox_gtt \<Rightarrow> sandbox_gtt_leg \<Rightarrow> order_form" where
  "leg_order g l =
     \<lparr> fm_symbol = gt_symbol g, fm_exchange = gt_exchange g, fm_action = action_text (lg_action l),
       fm_quantity = Number (of_int (lg_quantity l)), fm_price = Number (lg_price l),
       fm_trigger_price = Number 0, fm_price_type = price_type_text (lg_pricetype l),
       fm_product = product_text (lg_product l),
       fm_strategy = (case gt_strategy g of Some s \<Rightarrow> if s = [] then ''GTT'' else s | None \<Rightarrow> ''GTT''),
       fm_gtt_leg_id = Some (lg_id l) \<rparr>"

definition fired_leg :: "orderid \<Rightarrow> sandbox_gtt_leg \<Rightarrow> sandbox_gtt_leg" where
  "fired_leg oid l = l\<lparr>lg_triggered_order_id := Some oid, lg_status := Leg_triggered, lg_claimed_at := None\<rparr>"

definition finish_fire :: "sandbox_gtt \<Rightarrow> nat \<Rightarrow> orderid \<Rightarrow> sandbox \<Rightarrow> sandbox" where
  "finish_fire g lid oid db =
     (let db1 = set_legs (\<lambda>l. lg_id l = lid) (fired_leg oid) db;
          db2 = (if gt_trigger_type g = Two_leg
                 then set_legs (\<lambda>l. lg_gtt_id l = gt_gtt_id g \<and> lg_id l \<noteq> lid \<and>
                                     lg_status l \<in> {Pending, Triggering}) cancel_leg db1
                 else db1)
      in publish (Gtt_triggered_event (gt_gtt_id g) oid) db2)"

text \<open>The reservation's release and the zero that records it: one transaction.\<close>

definition release_reservation :: "ext \<Rightarrow> sandbox_gtt \<Rightarrow> sandbox \<Rightarrow> bool \<times> sandbox" where
  "release_reservation X g db =
     (if gt_margin_blocked g > 0 then
        (case stage_margin_delta X (gt_user g) (- gt_margin_blocked g) db of
           ((staged, reason), db1) \<Rightarrow>
             (staged, if staged then set_gtt (gt_gtt_id g) (\<lambda>x. x\<lparr>gt_margin_blocked := 0\<rparr>) db1 else db1))
      else (True, db))"

definition place_leg_order :: "ext \<Rightarrow> sandbox_gtt \<Rightarrow> sandbox_gtt_leg \<Rightarrow> sandbox \<Rightarrow> bool \<times> sandbox" where
  "place_leg_order X g l db =
     (case place_order X (gt_user g) (leg_order g l) None db of
        (response, db1) \<Rightarrow>
          (case response of
             Order_ok oid \<Rightarrow> (True, finish_fire g (lg_id l) oid db1)
           | _ \<Rightarrow> (False, compensate_failed_fire X (gt_user g) (gt_gtt_id g) (lg_id l)
                           (if gt_margin_blocked g > 0 then gt_margin_blocked g else 0) db1)))"

text \<open>
  Both rows are read again once the parent's claim is committed; a row deleted meanwhile raises
  with the parent left triggered.
\<close>

definition fire_claimed_leg :: "ext \<Rightarrow> nat \<Rightarrow> nat \<Rightarrow> sandbox \<Rightarrow> bool \<times> sandbox" where
  "fire_claimed_leg X gid lid db =
     (case claim_gtt (\<lambda>g. True) (\<lambda>g. g\<lparr>gt_status := Triggered\<rparr>) gid db of
        (claimed_parent, db1) \<Rightarrow>
          if \<not> claimed_parent then (False, revert_claim lid db)
          else (case (gtt_row X gid db1, leg_row X lid db1) of
                  (Some g, Some l) \<Rightarrow>
                    (case release_reservation X g db1 of
                       (True, db2) \<Rightarrow> place_leg_order X g l db2
                     | (False, db2) \<Rightarrow> (False, revert_claim lid (revert_parent gid db2)))
                | _ \<Rightarrow> (False, db1)))"

text \<open>\<open>lock_free\<close>: whether the lock of the position could be taken without waiting.\<close>

definition fire_leg :: "ext \<Rightarrow> bool \<Rightarrow> nat \<Rightarrow> sandbox \<Rightarrow> bool \<times> sandbox" where
  "fire_leg X lock_free lid db =
     (case leg_row X lid db of
        None \<Rightarrow> (False, db)
      | Some l \<Rightarrow>
          (case gtt_row X (lg_gtt_id l) db of
             None \<Rightarrow> (False, revert_claim lid db)
           | Some g \<Rightarrow>
               if lg_status l \<noteq> Triggering then (False, db)
               else if \<not> lock_free then (False, revert_claim lid db)
               else fire_claimed_leg X (gt_gtt_id g) lid db))"

subsection \<open>Recovery after an interrupted fire\<close>

definition rearm_gtt :: "nat \<Rightarrow> rat \<Rightarrow> sandbox \<Rightarrow> sandbox" where
  "rearm_gtt gid margin db =
     set_legs (\<lambda>l. lg_gtt_id l = gid \<and> lg_status l = Triggering) unclaim_leg
       (db\<lparr>gtts := sql_update (\<lambda>g. gt_gtt_id g = gid \<and> gt_status g = Triggered)
                    (\<lambda>g. g\<lparr>gt_status := Active, gt_margin_blocked := margin\<rparr>) (gtts db)\<rparr>)"

text \<open>What the legs say the GTT needs: the largest leg.\<close>

definition required_margin :: "sandbox_gtt_leg list \<Rightarrow> rat" where
  "required_margin legs = (if legs = [] then 0 else Max (set (map lg_leg_margin legs)))"

text \<open>The child order of one of the legs, if one was committed; rejected attempts do not count.\<close>

definition placed_order :: "sandbox_gtt_leg list \<Rightarrow> sandbox \<Rightarrow> sandbox_order option" where
  "placed_order legs db =
     find (\<lambda>r. (\<exists>l \<in> set legs. od_gtt_leg_id r = Some (lg_id l)) \<and> od_status r \<noteq> Rejected) (orders db)"

definition rearm_stranded :: "ext \<Rightarrow> sandbox_gtt \<Rightarrow> sandbox_gtt_leg list \<Rightarrow> sandbox \<Rightarrow> sandbox" where
  "rearm_stranded X g legs db =
     (let gid = gt_gtt_id g;
          still_reserved = gt_margin_blocked g;
          required = (if still_reserved > 0 then 0 else required_margin legs)
      in if required > 0 then
           (case block_margin X (gt_user g) required db of
              ((restored, reason), db1) \<Rightarrow>
                if restored then rearm_gtt gid required db1 else set_gtt gid reject_gtt db1)
         else rearm_gtt gid (if still_reserved > 0 then still_reserved else required) db)"

definition reclaim_stranded_parent :: "ext \<Rightarrow> nat \<Rightarrow> sandbox \<Rightarrow> bool \<times> sandbox" where
  "reclaim_stranded_parent X gid db =
     (case gtt_row X gid db of
        None \<Rightarrow> (False, db)
      | Some g \<Rightarrow>
          (let legs = legs_of X gid db in
           if \<exists>l \<in> set legs. lg_triggered_order_id l \<noteq> None then (False, db)
           else (case placed_order legs db of
                   Some r \<Rightarrow>
                     (True, set_legs (\<lambda>l. od_gtt_leg_id r = Some (lg_id l)) (fired_leg (od_orderid r)) db)
                 | None \<Rightarrow>
                     if \<not> (\<exists>l \<in> set legs. lg_status l \<in> {Pending, Triggering}) then (False, db)
                     else (True, rearm_stranded X g legs db))))"

primrec reclaim_each :: "ext \<Rightarrow> nat list \<Rightarrow> nat \<Rightarrow> sandbox \<Rightarrow> nat \<times> sandbox" where
  "reclaim_each X [] n db = (n, db)"
| "reclaim_each X (gid # gids) n db =
     (case reclaim_stranded_parent X gid db of
        (recovered, db1) \<Rightarrow> reclaim_each X gids (if recovered then Suc n else n) db1)"

definition reclaim_stranded_parents :: "ext \<Rightarrow> sandbox \<Rightarrow> nat \<times> sandbox" where
  "reclaim_stranded_parents X db =
     reclaim_each X (map gt_gtt_id (filter (\<lambda>g. gt_status g = Triggered) (gtts db))) 0 db"

definition stranded_leg :: "ext \<Rightarrow> sandbox \<Rightarrow> sandbox_gtt_leg \<Rightarrow> bool" where
  "stranded_leg X db l \<longleftrightarrow>
     lg_status l = Triggering \<and>
     (case lg_claimed_at l of
        None \<Rightarrow> False | Some t \<Rightarrow> t < x_now X - claim_timeout_seconds db * 1000)"

definition reclaim_stranded_legs :: "ext \<Rightarrow> sandbox \<Rightarrow> nat \<times> sandbox" where
  "reclaim_stranded_legs X db =
     (row_count (stranded_leg X db) (gtt_legs db),
      snd (reclaim_stranded_parents X (set_legs (stranded_leg X db) unclaim_leg db)))"

subsection \<open>The evaluator\<close>

text \<open>Every pending leg of an active GTT, with its GTT.\<close>

definition get_active_legs :: "ext \<Rightarrow> sandbox \<Rightarrow> (sandbox_gtt_leg \<times> sandbox_gtt) list" where
  "get_active_legs X db =
     concat (map (\<lambda>l. map (\<lambda>g. (read_leg X l, read_gtt X g))
                        (filter (\<lambda>g. gt_gtt_id g = lg_gtt_id l \<and> gt_status g = Active) (gtts db)))
               (filter (\<lambda>l. lg_status l = Pending) (gtt_legs db)))"

definition evaluate_leg ::
    "ext \<Rightarrow> (nat \<Rightarrow> bool) \<Rightarrow> (string \<Rightarrow> string \<Rightarrow> quote option) \<Rightarrow> sandbox_gtt_leg \<Rightarrow> sandbox_gtt
     \<Rightarrow> sandbox \<Rightarrow> sandbox" where
  "evaluate_leg X lock_free quote_cache l g db =
     (case quote_cache (gt_symbol g) (gt_exchange g) of
        None \<Rightarrow> db
      | Some q \<Rightarrow>
          if \<not> leg_is_triggered_by (lg_direction l) (lg_trigger_price l) (q_ltp q) then db
          else (case try_claim_trigger X (lg_id l) db of
                  (won, db1) \<Rightarrow> if won then snd (fire_leg X (lock_free (lg_id l)) (lg_id l) db1) else db))"

primrec evaluate_legs ::
    "ext \<Rightarrow> (nat \<Rightarrow> bool) \<Rightarrow> (string \<Rightarrow> string \<Rightarrow> quote option)
     \<Rightarrow> (sandbox_gtt_leg \<times> sandbox_gtt) list \<Rightarrow> sandbox \<Rightarrow> sandbox" where
  "evaluate_legs X lock_free quote_cache [] db = db"
| "evaluate_legs X lock_free quote_cache (lg # lgs) db =
     evaluate_legs X lock_free quote_cache lgs (evaluate_leg X lock_free quote_cache (fst lg) (snd lg) db)"

definition check_pending_gtts ::
    "ext \<Rightarrow> (nat \<Rightarrow> bool) \<Rightarrow> (string \<Rightarrow> string \<Rightarrow> quote option) \<Rightarrow> sandbox \<Rightarrow> sandbox" where
  "check_pending_gtts X lock_free quote_cache db =
     (let db1 = snd (reclaim_stranded_legs X db)
      in evaluate_legs X lock_free quote_cache (get_active_legs X db1) db1)"

subsection \<open>Expiry\<close>

definition expire_gtt_row :: "sandbox_gtt \<Rightarrow> sandbox_gtt" where
  "expire_gtt_row g = g\<lparr>gt_status := Expired, gt_margin_blocked := 0\<rparr>"

definition past_expiry :: "ext \<Rightarrow> sandbox_gtt \<Rightarrow> bool" where
  "past_expiry X g \<longleftrightarrow>
     gt_status g = Active \<and> (case gt_expires_at g of None \<Rightarrow> False | Some t \<Rightarrow> t < x_now X)"

definition self_release :: "ext \<Rightarrow> sandbox_gtt \<Rightarrow> rat \<Rightarrow> sandbox \<Rightarrow> bool \<times> sandbox" where
  "self_release X g amount db =
     (if amount \<le> 0 then (True, db)
      else (case stage_margin_delta X (gt_user g) (- amount) db of ((staged, reason), db1) \<Rightarrow> (staged, db1)))"

text \<open>\<open>g\<close> is the GTT as it was read; a refused release leaves it active, to be tried again.\<close>

definition expire_gtt_from :: "ext \<Rightarrow> sandbox_gtt \<Rightarrow> sandbox \<Rightarrow> bool \<times> sandbox" where
  "expire_gtt_from X g db =
     (let gid = gt_gtt_id g in
      case claim_gtt (\<lambda>x. True) expire_gtt_row gid db of
        (claimed, db1) \<Rightarrow>
          if \<not> claimed then (False, db)
          else let db2 = set_legs (\<lambda>l. lg_gtt_id l = gid \<and> lg_status l = Pending) cancel_leg db1 in
               (case self_release X g (gt_margin_blocked g) db2 of
                  (staged, db3) \<Rightarrow>
                    if staged then (True, publish (Gtt_expired_event gid) db3)
                    else (False, rolled_back (gt_user g) db db2 db3)))"

primrec expire_each :: "ext \<Rightarrow> nat list \<Rightarrow> nat \<Rightarrow> sandbox \<Rightarrow> nat \<times> sandbox" where
  "expire_each X [] n db = (n, db)"
| "expire_each X (gid # gids) n db =
     (case gtt_row X gid db of
        None \<Rightarrow> expire_each X gids n db
      | Some g \<Rightarrow>
          (case expire_gtt_from X g db of
             (expired, db1) \<Rightarrow> expire_each X gids (if expired then Suc n else n) db1))"

definition expire_due_gtts :: "ext \<Rightarrow> sandbox \<Rightarrow> nat \<times> sandbox" where
  "expire_due_gtts X db = expire_each X (map gt_gtt_id (filter (past_expiry X) (gtts db))) 0 db"

end
