(* ===== verification/GttSafety.thy ===== *)
theory GttSafety
  imports OrderLaws GttManager
begin

text \<open>
  The safety of GTTs: which states the evaluators, the user's requests, running and interrupted fires
  and the recovery can lead to, and the invariant that holds in all of them: one GTT never places
  a second child order.
\<close>

subsection \<open>Child orders\<close>

text \<open>The orders placed for legs: the leg's id, whether the order was rejected, and its order id.\<close>

type_synonym child = "nat option \<times> bool \<times> orderid"

definition child_of :: "sandbox_order \<Rightarrow> child" where
  "child_of r = (od_gtt_leg_id r, od_status r = Rejected, od_orderid r)"

definition child_view :: "sandbox_order list \<Rightarrow> child list" where
  "child_view rows = map child_of (filter (\<lambda>r. od_gtt_leg_id r \<noteq> None) rows)"

definition children :: "sandbox \<Rightarrow> child list" where
  "children db = child_view (orders db)"

lemma child_view_append [simp]: "child_view (xs @ ys) = child_view xs @ child_view ys"
  by (simp add: child_view_def)

lemma child_view_update:
  "(\<And>r. r \<in> set rows \<Longrightarrow> P r \<Longrightarrow> child_of (f r) = child_of r) \<Longrightarrow>
   child_view (sql_update P f rows) = child_view rows"
proof (induction rows)
  case (Cons a rows)
  then have "child_view (sql_update P f rows) = child_view rows" by simp
  with Cons.prems [of a] show ?case by (auto simp: child_view_def child_of_def sql_update_Cons)
qed (simp add: child_view_def)

lemma children_claim_row:
  assumes "claim_row od_id P f i (orders db) = (won, rows)"
    and "\<And>r. P r \<Longrightarrow> child_of (f r) = child_of r"
  shows "child_view rows = children db"
  using assms child_view_update [of "orders db" "\<lambda>r. od_id r = i \<and> P r" f]
  by (auto simp: claim_row_def children_def split: if_splits)

text \<open>What placing and filling orders leaves alone: the GTT tables, and the child orders.\<close>

definition gtt_view :: "sandbox \<Rightarrow> sandbox_gtt list \<times> sandbox_gtt_leg list \<times> child list" where
  "gtt_view db = (gtts db, gtt_legs db, children db)"

lemma gtt_view_publish [simp]: "gtt_view (publish e db) = gtt_view db"
  by (simp add: gtt_view_def children_def)

lemma gtt_view_beside [simp, intro]: "beside_positions gtt_view" "beside_funds gtt_view"
  by (simp_all add: beside_positions_def beside_funds_def gtt_view_def children_def)

lemma execute_order_gtt_view:
  assumes "\<not> x_db_error X"
  shows "gtt_view (execute_order X r price db) = gtt_view db"
proof -
  obtain won db1 where c: "claim_order_fill price (od_id r) db = (won, db1)" by fastforce
  have v: "gtt_view db1 = gtt_view db"
  proof -
    have "child_of (fill_row price o') = child_of o'" if "is_pending o'" for o'
      using that by (auto simp: child_of_def fill_row_def is_pending_def PENDING_ORDER_STATUSES_def)
    with c children_claim_row [of is_pending "fill_row price" "od_id r" db] show ?thesis
      by (auto simp: claim_order_fill_def gtt_view_def children_def split: prod.splits if_splits)
  qed
  have t: "gtt_view (db1\<lparr>trades := ts\<rparr>) = gtt_view db1" for ts
    by (simp add: gtt_view_def children_def)
  have u: "gtt_view d' = gtt_view d" if "update_position X cur price d = Some d'" for cur d d'
    using beside_update_position [OF gtt_view_beside(1) that] .
  have no: "update_position X cur price d = Some (the (update_position X cur price d))" for cur d
    using assms by (simp add: update_position_def Let_def)
  show ?thesis
    by (subst execute_order_def, subst no)
      (use v t u [OF no] in \<open>simp add: c Let_def split: option.splits\<close>)
qed

lemma release_from_stop_book_view:
  "gtt_view (snd (release_from_stop_book i db)) = gtt_view db"
  using children_claim_row [of "\<lambda>r. od_status r = Trigger_pending" reopen_row i db]
  by (auto simp: release_from_stop_book_def gtt_view_def children_def child_of_def reopen_row_def split: prod.splits)

lemma process_order_gtt_view:
  assumes "\<not> x_db_error X"
  shows "gtt_view (process_order X r q db) = gtt_view db"
proof -
  have "gtt_view (finish_orphan r tr db) = gtt_view db" for tr
    using children_claim_row [of "\<lambda>o'. od_status o' = Open" "fill_row (tr_price tr)" "od_id r" db]
    by (auto simp: finish_orphan_def gtt_view_def children_def child_of_def fill_row_def split: prod.splits)
  moreover have "gtt_view (process_trigger_pending_order X r ltp db) = gtt_view db" for ltp
    using execute_order_gtt_view [OF assms] release_from_stop_book_view [of "od_id r" db]
    by (auto simp: process_trigger_pending_order_def split: option.splits prod.splits)
  ultimately show ?thesis
    using execute_order_gtt_view [OF assms] by (auto simp: process_order_def split: option.splits)
qed

lemma immediate_execution_gtt_view:
  "\<not> x_db_error X \<Longrightarrow> gtt_view (immediate_execution X rq pricing r db) = gtt_view db"
  by (auto simp: immediate_execution_def process_order_gtt_view execute_order_gtt_view split: option.splits)

lemma notify_order_placed_view [simp]: "gtt_view (notify_order_placed X rid db) = gtt_view db"
  by (simp add: notify_order_placed_def split: option.splits)

lemma generate_order_id_view: "generate_order_id X db = (oid, db1) \<Longrightarrow> gtt_view db1 = gtt_view db"
  by (auto simp: generate_order_id_def gtt_view_def children_def Let_def)

lemma reserve_margin_view:
  assumes "reserve_margin X uid rq amount db = (res, db')"
  shows "gtt_view db' = gtt_view db"
proof -
  have c: "gtt_view d = gtt_view db" if "check_margin_available X uid amount db = (r, d)" for r d
    using check_margin_state [of X uid amount db] that beside_ensure [OF gtt_view_beside(2)] by simp
  have s: "gtt_view d' = gtt_view d" if "stage_margin_delta X uid amount d = (r, d')" for r d d'
    using beside_stage [OF gtt_view_beside(2), of X uid amount d] that by simp
  show ?thesis
    using assms by (auto simp: reserve_margin_def dest!: c s split: if_splits prod.splits)
qed

definition tagged :: "nat option \<Rightarrow> orderid \<Rightarrow> child list" where
  "tagged t oid = (if t = None then [] else [(t, False, oid)])"

lemma child_view_insert:
  "child_view [accepted_order X uid rq pricing oid rid margin] = tagged (rq_gtt_leg_id rq) oid"
  "child_view [rejected_order X uid rq pricing oid rid reason] = []"
  by (auto simp: child_view_def child_of_def accepted_order_def rejected_order_def order_of_def tagged_def
      initial_order_status_def)

lemma gtt_view_insert:
  "gtt_view (db\<lparr>orders := orders db @ rows\<rparr>) = (gtts db, gtt_legs db, children db @ child_view rows)"
  by (simp add: gtt_view_def children_def)

lemma tag_not_child:
  "\<not> (\<exists>r \<in> set rows. od_gtt_leg_id r = t) \<Longrightarrow> t \<noteq> None \<Longrightarrow> t \<notin> fst ` set (child_view rows)"
  by (auto simp: child_view_def child_of_def)

lemma insert_order_gtt_view:
  assumes "insert_order X uid rq pricing margin db0 db = (resp, db')" "\<not> x_db_error X"
    and "gtt_view db0 = gtt_view db"
  shows "case resp of
      Order_ok oid \<Rightarrow> gtt_view db' = (gtts db, gtt_legs db, children db @ tagged (rq_gtt_leg_id rq) oid) \<and>
        (rq_gtt_leg_id rq \<noteq> None \<longrightarrow> rq_gtt_leg_id rq \<notin> fst ` set (children db))
    | _ \<Rightarrow> gtt_view db' = gtt_view db"
proof -
  obtain oid db1 where g: "generate_order_id X db = (oid, db1)" by fastforce
  have v: "gtt_view db1 = gtt_view db" using generate_order_id_view [OF g] .
  let ?dup = "rq_gtt_leg_id rq \<noteq> None \<and> (\<exists>r \<in> set (orders db1). od_gtt_leg_id r = rq_gtt_leg_id rq)"
  show ?thesis
  proof (cases "cnc_sell_rejection uid rq db")
    case (Some reason)
    with assms(1) v show ?thesis
      by (auto simp: insert_order_def g Let_def gtt_view_insert child_view_insert) (simp_all add: gtt_view_def)
  next
    case None
    show ?thesis
    proof (cases ?dup)
      case True
      have "gtt_view (db0\<lparr>last_order_day := d, last_order_seq := s\<rparr>) = gtt_view db0" for d s
        by (simp add: gtt_view_def children_def)
      with assms(1,3) None True show ?thesis by (auto simp: insert_order_def g Let_def)
    next
      case False
      have fresh: "rq_gtt_leg_id rq \<noteq> None \<longrightarrow> rq_gtt_leg_id rq \<notin> fst ` set (children db)"
        using False tag_not_child [of "orders db1" "rq_gtt_leg_id rq"] v
        by (auto simp: gtt_view_def children_def)
      define rid where "rid = next_id od_id (orders db1)"
      define r where "r = accepted_order X uid rq pricing oid rid margin"
      have "resp = Order_ok oid \<and> db' = notify_order_placed X rid
          (immediate_execution X rq pricing (read_order X r)
            (publish (Order_update oid (od_status r)) (db1\<lparr>orders := orders db1 @ [r]\<rparr>)))"
        using assms(1) None False by (auto simp: insert_order_def g Let_def rid_def r_def)
      with fresh v show ?thesis
        by (simp add: immediate_execution_gtt_view [OF assms(2)] gtt_view_insert child_view_insert r_def)
          (simp add: gtt_view_def)
    qed
  qed
qed

lemma place_request_gtt_view:
  assumes "place_request X uid rq prefetched db = (resp, db')" "\<not> x_db_error X"
  shows "case resp of
      Order_ok oid \<Rightarrow> gtt_view db' = (gtts db, gtt_legs db, children db @ tagged (rq_gtt_leg_id rq) oid) \<and>
        (rq_gtt_leg_id rq \<noteq> None \<longrightarrow> rq_gtt_leg_id rq \<notin> fst ` set (children db))
    | _ \<Rightarrow> gtt_view db' = gtt_view db"
proof (cases "\<exists>info pricing amount res d. symtoken db (rq_symbol rq) (rq_exchange rq) = Some info \<and>
    \<not> bad_lot (rq_exchange rq) info (rq_quantity rq) \<and> \<not> mis_blocked X uid rq db \<and>
    price_order X uid rq prefetched db = Inr pricing \<and>
    margin_to_block uid rq (the (pr_margin_price pricing)) db = Inr amount \<and>
    reserve_margin X uid rq amount db = (res, d)")
  case True
  then obtain info pricing amount res d where h: "symtoken db (rq_symbol rq) (rq_exchange rq) = Some info"
    "\<not> bad_lot (rq_exchange rq) info (rq_quantity rq)" "\<not> mis_blocked X uid rq db"
    "price_order X uid rq prefetched db = Inr pricing"
    "margin_to_block uid rq (the (pr_margin_price pricing)) db = Inr amount"
    "reserve_margin X uid rq amount db = (res, d)" by blast
  have v: "gtt_view d = gtt_view db" using reserve_margin_view [OF h(6)] .
  then have parts: "gtts d = gtts db" "gtt_legs d = gtt_legs db" "children d = children db"
    by (simp_all add: gtt_view_def)
  show ?thesis
  proof (cases res)
    case (Inl msg)
    with assms(1) h v show ?thesis by (auto simp: place_request_def)
  next
    case (Inr margin)
    let ?db0 = "if margin > 0 then ensure_funds_initialized X uid db else db"
    have "gtt_view ?db0 = gtt_view d" using v beside_ensure [OF gtt_view_beside(2), of X uid db] by simp
    moreover have "insert_order X uid rq pricing margin ?db0 d = (resp, db')"
      using assms(1) h Inr by (simp add: place_request_def)
    ultimately show ?thesis
      using insert_order_gtt_view [OF _ assms(2), of uid rq pricing margin ?db0 d resp db'] v parts
      by (simp split: order_response.splits)
  qed
next
  case False
  then have "gtt_view db' = gtt_view db \<and> (\<forall>oid. resp \<noteq> Order_ok oid)"
    using assms(1)
    by (auto simp: place_request_def split: option.splits if_splits sum.splits)
  then show ?thesis by (simp split: order_response.splits)
qed

lemma extract_order_leg: "extract_order f = Some rq \<Longrightarrow> rq_gtt_leg_id rq = fm_gtt_leg_id f"
  by (auto simp: extract_order_def split: option.splits field_number.splits)

lemma place_order_gtt_view:
  assumes "place_order X uid f prefetched db = (resp, db')" "\<not> x_db_error X"
  shows "case resp of
      Order_ok oid \<Rightarrow> gtt_view db' = (gtts db, gtt_legs db, children db @ tagged (fm_gtt_leg_id f) oid) \<and>
        (fm_gtt_leg_id f \<noteq> None \<longrightarrow> fm_gtt_leg_id f \<notin> fst ` set (children db))
    | _ \<Rightarrow> gtt_view db' = gtt_view db"
proof (cases "validate_order f")
  case None
  show ?thesis
  proof (cases "extract_order f")
    case (Some rq)
    with None assms(1) have "place_request X uid rq prefetched db = (resp, db')" by (simp add: place_order_def)
    from place_request_gtt_view [OF this assms(2), unfolded extract_order_leg [OF Some]] show ?thesis .
  qed (use None assms(1) in \<open>auto simp: place_order_def\<close>)
qed (use assms(1) in \<open>auto simp: place_order_def\<close>)

subsection \<open>The invariant\<close>

definition has_child :: "child list \<Rightarrow> sandbox_gtt_leg \<Rightarrow> bool" where
  "has_child C l \<longleftrightarrow> Some (lg_id l) \<in> fst ` set C"

text \<open>A leg is engaged when it is being fired or has fired, committed when its order exists.\<close>

definition engaged :: "child list \<Rightarrow> sandbox_gtt_leg \<Rightarrow> bool" where
  "engaged C l \<longleftrightarrow> lg_status l \<in> {Triggering, Leg_triggered} \<or> has_child C l"

definition committed :: "child list \<Rightarrow> sandbox_gtt_leg \<Rightarrow> bool" where
  "committed C l \<longleftrightarrow> lg_status l = Leg_triggered \<or> has_child C l"

definition keyed :: "sandbox_gtt list \<times> sandbox_gtt_leg list \<times> child list \<Rightarrow> bool" where
  "keyed v = (case v of (G, L, C) \<Rightarrow>
     distinct (map gt_gtt_id G) \<and> distinct (map lg_id L) \<and> distinct (map fst C) \<and>
     lg_gtt_id ` set L \<subseteq> gt_gtt_id ` set G \<and> fst ` set C \<subseteq> Some ` lg_id ` set L \<and>
     (\<forall>c \<in> set C. \<not> fst (snd c)))"

definition exclusive :: "sandbox_gtt_leg list \<Rightarrow> child list \<Rightarrow> bool" where
  "exclusive L C \<longleftrightarrow>
     (\<forall>l \<in> set L. \<forall>s \<in> set L. lg_gtt_id s = lg_gtt_id l \<longrightarrow> engaged C l \<longrightarrow> engaged C s \<longrightarrow> lg_id s = lg_id l)"

definition disarmed :: "sandbox_gtt list \<Rightarrow> sandbox_gtt_leg list \<Rightarrow> child list \<Rightarrow> bool" where
  "disarmed G L C \<longleftrightarrow>
     (\<forall>l \<in> set L. committed C l \<longrightarrow> (\<forall>g \<in> set G. gt_gtt_id g = lg_gtt_id l \<longrightarrow> gt_status g \<noteq> Active))"

definition marked :: "sandbox_gtt_leg list \<Rightarrow> bool" where
  "marked L \<longleftrightarrow> (\<forall>l \<in> set L. lg_status l = Leg_triggered \<longrightarrow> lg_triggered_order_id l \<noteq> None)"

definition gtt_inv :: "sandbox_gtt list \<times> sandbox_gtt_leg list \<times> child list \<Rightarrow> bool" where
  "gtt_inv v \<longleftrightarrow> keyed v \<and> (case v of (G, L, C) \<Rightarrow> exclusive L C \<and> disarmed G L C \<and> marked L)"

lemmas gtt_inv_defs = gtt_inv_def keyed_def exclusive_def disarmed_def marked_def

lemma keyed_legs:
  assumes "keyed (G, L, C)" "map lg_id L' = map lg_id L" "lg_gtt_id ` set L' \<subseteq> lg_gtt_id ` set L"
  shows "keyed (G, L', C)"
proof -
  have "lg_id ` set L' = lg_id ` set L" using assms(2) by (metis list.set_map)
  with assms(1,2) subset_trans [OF assms(3)] show ?thesis by (simp add: keyed_def)
qed

lemma exclusiveD:
  "exclusive L C \<Longrightarrow> l \<in> set L \<Longrightarrow> s \<in> set L \<Longrightarrow> lg_gtt_id s = lg_gtt_id l \<Longrightarrow>
   engaged C l \<Longrightarrow> engaged C s \<Longrightarrow> lg_id s = lg_id l"
  unfolding exclusive_def by blast

text \<open>The row changes that keep it: a leg that engages nothing new, a GTT that is not re-armed.\<close>

definition calm :: "child list \<Rightarrow> sandbox_gtt_leg \<Rightarrow> sandbox_gtt_leg \<Rightarrow> bool" where
  "calm C l l' \<longleftrightarrow>
     lg_id l' = lg_id l \<and> lg_gtt_id l' = lg_gtt_id l \<and>
     (lg_status l' = Triggering \<longrightarrow> engaged C l) \<and>
     (lg_status l' = Leg_triggered \<longrightarrow> committed C l \<and> lg_triggered_order_id l' \<noteq> None)"

lemma calm_engaged: "calm C l l' \<Longrightarrow> engaged C l' \<Longrightarrow> engaged C l"
  by (auto simp: calm_def engaged_def committed_def has_child_def)

lemma calm_committed: "calm C l l' \<Longrightarrow> committed C l' \<Longrightarrow> committed C l"
  by (auto simp: calm_def committed_def has_child_def)

lemma calm_refl: "marked L \<Longrightarrow> l \<in> set L \<Longrightarrow> calm C l l"
  by (auto simp: calm_def engaged_def committed_def marked_def)

lemma calm_quiet:
  "lg_id l' = lg_id l \<Longrightarrow> lg_gtt_id l' = lg_gtt_id l \<Longrightarrow> lg_status l' \<in> {Pending, Leg_cancelled} \<Longrightarrow> calm C l l'"
  by (auto simp: calm_def)

lemma inv_legs:
  assumes inv: "gtt_inv (G, L, C)" and calm: "\<And>l. l \<in> set L \<Longrightarrow> P l \<Longrightarrow> calm C l (h l)"
  shows "gtt_inv (G, sql_update P h L, C)"
proof -
  let ?h = "\<lambda>l. if P l then h l else l"
  have m: "marked L" using inv by (simp add: gtt_inv_def)
  have c: "calm C l (?h l)" if "l \<in> set L" for l
    using calm [OF that] calm_refl [OF m that] by simp
  have upd: "sql_update P h L = map ?h L" by (simp add: sql_update_def)
  have ids: "map lg_id (map ?h L) = map lg_id L" and gids: "map lg_gtt_id (map ?h L) = map lg_gtt_id L"
    using c by (auto simp: calm_def)
  have key: "keyed (G, map ?h L, C)"
    using inv gids by (intro keyed_legs [OF _ ids]) (simp add: gtt_inv_def, metis list.set_map subset_refl)
  have exc: "exclusive (map ?h L) C"
    unfolding exclusive_def
  proof (intro ballI impI)
    fix l' s' assume "l' \<in> set (map ?h L)" "s' \<in> set (map ?h L)"
      and same: "lg_gtt_id s' = lg_gtt_id l'" and e: "engaged C l'" "engaged C s'"
    then obtain l s where ls: "l \<in> set L" "l' = ?h l" "s \<in> set L" "s' = ?h s" by auto
    have cl: "calm C l l'" and cs: "calm C s s'" using c ls by auto
    have "engaged C l" "engaged C s" using e calm_engaged cl cs by blast+
    moreover have "lg_gtt_id s = lg_gtt_id l" using same cl cs by (simp add: calm_def)
    moreover have "exclusive L C" using inv by (simp add: gtt_inv_def)
    ultimately have "lg_id s = lg_id l" using exclusiveD ls(1,3) by blast
    then show "lg_id s' = lg_id l'" using cl cs by (simp add: calm_def)
  qed
  have dis: "disarmed G (map ?h L) C"
    unfolding disarmed_def
  proof (intro ballI impI)
    fix l' g assume "l' \<in> set (map ?h L)" "committed C l'" and g: "g \<in> set G" "gt_gtt_id g = lg_gtt_id l'"
    then obtain l where "l \<in> set L" "l' = ?h l" by auto
    with \<open>committed C l'\<close> c have l: "l \<in> set L" "calm C l l'" "committed C l'" by auto
    have "committed C l" "lg_gtt_id l' = lg_gtt_id l" using l(2,3) calm_committed by (auto simp: calm_def)
    with g l(1) inv show "gt_status g \<noteq> Active" by (auto simp: gtt_inv_def disarmed_def)
  qed
  have "marked (map ?h L)"
    unfolding marked_def
  proof (intro ballI impI)
    fix l' assume "l' \<in> set (map ?h L)" "lg_status l' = Leg_triggered"
    then obtain l where "l \<in> set L" "l' = ?h l" by auto
    with c [of l] \<open>lg_status l' = Leg_triggered\<close> show "lg_triggered_order_id l' \<noteq> None" by (simp add: calm_def)
  qed
  with key exc dis show ?thesis by (simp add: gtt_inv_def upd)
qed

lemma inv_gtts:
  assumes inv: "gtt_inv (G, L, C)" and id: "\<And>g. gt_gtt_id (k g) = gt_gtt_id g"
    and arm: "\<And>g. g \<in> set G \<Longrightarrow> P g \<Longrightarrow> gt_status (k g) = Active \<Longrightarrow>
      gt_status g = Active \<or> (\<forall>l \<in> set L. lg_gtt_id l = gt_gtt_id g \<longrightarrow> \<not> committed C l)"
  shows "gtt_inv (sql_update P k G, L, C)"
proof -
  have ids: "map gt_gtt_id (sql_update P k G) = map gt_gtt_id G"
    using id by (intro map_key_sql_update) simp
  then have "gt_gtt_id ` set (sql_update P k G) = gt_gtt_id ` set G"
    by (metis list.set_map)
  with ids inv have "keyed (sql_update P k G, L, C)" by (simp add: gtt_inv_def keyed_def)
  moreover have "disarmed (sql_update P k G) L C"
    unfolding disarmed_def
  proof (intro ballI impI)
    fix l g' assume l: "l \<in> set L" "committed C l" and g': "g' \<in> set (sql_update P k G)" "gt_gtt_id g' = lg_gtt_id l"
    then obtain g where g: "g \<in> set G" "g' = (if P g then k g else g)"
      by (auto simp: set_sql_update)
    have gid: "gt_gtt_id g = lg_gtt_id l" using g(2) g'(2) id by (simp split: if_splits)
    with inv l g(1) have "gt_status g \<noteq> Active" by (auto simp: gtt_inv_def disarmed_def)
    with arm [OF g(1)] g(2) l gid show "gt_status g' \<noteq> Active" by (auto split: if_splits)
  qed
  ultimately show ?thesis using inv by (simp add: gtt_inv_def)
qed

text \<open>The three steps that engage something: a claim, a child order, a new GTT.\<close>

lemma inv_claim:
  assumes inv: "gtt_inv (G, L, C)" and l: "l \<in> set L" "lg_status l = Pending"
    and alone: "\<forall>s \<in> set L. lg_gtt_id s = lg_gtt_id l \<longrightarrow> lg_id s \<noteq> lg_id l \<longrightarrow>
      lg_status s \<notin> {Triggering, Leg_triggered}"
    and active: "\<exists>g \<in> set G. gt_gtt_id g = lg_gtt_id l \<and> gt_status g = Active"
    and h: "lg_id (h l) = lg_id l" "lg_gtt_id (h l) = lg_gtt_id l" "lg_status (h l) = Triggering"
  shows "gtt_inv (G, sql_update (\<lambda>x. lg_id x = lg_id l) h L, C)"
proof -
  let ?L = "sql_update (\<lambda>x. lg_id x = lg_id l) h L"
  have dl: "distinct (map lg_id L)" using inv by (simp add: gtt_inv_def keyed_def)
  have uniq: "x = l" if "x \<in> set L" "lg_id x = lg_id l" for x
    using dl that l(1) by (auto simp: distinct_map inj_on_def)
  have "?L = map (\<lambda>x. if x = l then h l else x) L"
    unfolding sql_update_def by (rule map_cong) (use uniq in auto)
  then have setL: "set ?L = insert (h l) (set L - {l})" using l(1) by auto
  have none: "\<not> committed C s" if "s \<in> set L" "lg_gtt_id s = lg_gtt_id l" for s
    using inv active that by (auto simp: gtt_inv_def disarmed_def)
  have quiet: "\<not> engaged C s" if "s \<in> set L" "lg_gtt_id s = lg_gtt_id l" "lg_id s \<noteq> lg_id l" for s
    using alone that none [OF that(1,2)] by (auto simp: engaged_def committed_def)
  have ids: "map lg_id ?L = map lg_id L"
    using uniq h(1) by (auto simp: sql_update_def)
  have "lg_gtt_id ` set ?L \<subseteq> lg_gtt_id ` set L" unfolding setL using l(1) h(2) by auto
  then have "keyed (G, ?L, C)"
    using inv by (intro keyed_legs [OF _ ids]) (simp_all add: gtt_inv_def)
  moreover have "exclusive ?L C"
    unfolding exclusive_def
  proof (intro ballI impI)
    fix a b assume ab: "a \<in> set ?L" "b \<in> set ?L" "lg_gtt_id b = lg_gtt_id a" "engaged C a" "engaged C b"
    have hl: "lg_id x = lg_id l" if "x \<in> set L" "engaged C x" "lg_gtt_id x = lg_gtt_id l" for x
      using quiet [OF that(1,3)] that(2) by blast
    have "exclusive L C" using inv by (simp add: gtt_inv_def)
    from exclusiveD [OF this] show "lg_id b = lg_id a"
      using ab hl h unfolding setL by (metis Diff_iff insert_iff)
  qed
  moreover have "\<not> committed C (h l)"
    using none [OF l(1) refl] h l(2) by (simp add: committed_def has_child_def)
  then have "disarmed G ?L C"
    using inv setL by (auto simp: gtt_inv_def disarmed_def)
  moreover have "marked ?L" using inv setL h(3) by (auto simp: gtt_inv_def marked_def)
  ultimately show ?thesis by (simp add: gtt_inv_def)
qed

lemma inv_child:
  assumes inv: "gtt_inv (G, L, C)" and l: "l \<in> set L"
    and alone: "\<forall>s \<in> set L. lg_gtt_id s = lg_gtt_id l \<longrightarrow> engaged C s \<longrightarrow> lg_id s = lg_id l"
    and off: "\<forall>g \<in> set G. gt_gtt_id g = lg_gtt_id l \<longrightarrow> gt_status g \<noteq> Active"
    and fresh: "Some (lg_id l) \<notin> fst ` set C"
  shows "gtt_inv (G, L, C @ [(Some (lg_id l), False, oid)])"
proof -
  let ?C = "C @ [(Some (lg_id l), False, oid)]"
  have "distinct (map lg_id L)" using inv by (simp add: gtt_inv_def keyed_def)
  then have uniq: "x = l" if "x \<in> set L" "lg_id x = lg_id l" for x
    using that l(1) by (auto simp: distinct_map inj_on_def)
  have child: "has_child ?C x \<longleftrightarrow> has_child C x \<or> x = l" if "x \<in> set L" for x
    using uniq [OF that] by (auto simp: has_child_def)
  have e: "engaged ?C x \<longleftrightarrow> engaged C x \<or> x = l" and c: "committed ?C x \<longleftrightarrow> committed C x \<or> x = l" if "x \<in> set L" for x
    using child [OF that] by (auto simp: engaged_def committed_def)
  have "keyed (G, L, C)" using inv by (simp add: gtt_inv_def)
  then have "keyed (G, L, ?C)" using l(1) fresh by (simp add: keyed_def)
  moreover have "exclusive L ?C"
    unfolding exclusive_def
  proof (intro ballI impI)
    fix a b assume ab: "a \<in> set L" "b \<in> set L" "lg_gtt_id b = lg_gtt_id a" and eng: "engaged ?C a" "engaged ?C b"
    have "exclusive L C" using inv by (simp add: gtt_inv_def)
    then show "lg_id b = lg_id a" using exclusiveD [OF _ ab] alone ab eng e by metis
  qed
  moreover have "disarmed G L ?C" using inv c off unfolding gtt_inv_def disarmed_def by auto
  ultimately show ?thesis using inv by (simp add: gtt_inv_def)
qed

lemma inv_new:
  assumes inv: "gtt_inv (G, L, C)" and fresh: "gt_gtt_id g \<notin> gt_gtt_id ` set G"
    and new: "\<forall>l \<in> set N. lg_gtt_id l = gt_gtt_id g \<and> lg_status l = Pending \<and> lg_id l \<notin> lg_id ` set L"
    and ids: "distinct (map lg_id N)"
  shows "gtt_inv (G @ [g], L @ N, C)"
proof -
  have old: "lg_gtt_id l \<noteq> gt_gtt_id g" if "l \<in> set L" for l
  proof -
    have "lg_gtt_id l \<in> gt_gtt_id ` set G" using inv that by (auto simp: gtt_inv_def keyed_def)
    with fresh show ?thesis by metis
  qed
  have no: "\<not> engaged C l" "\<not> committed C l" if "l \<in> set N" for l
  proof -
    have "\<not> has_child C l"
    proof
      assume "has_child C l"
      then have "Some (lg_id l) \<in> Some ` lg_id ` set L"
        using inv unfolding gtt_inv_def keyed_def has_child_def prod.case by blast
      with new that show False by auto
    qed
    with new that show "\<not> engaged C l" "\<not> committed C l" by (auto simp: engaged_def committed_def)
  qed
  have "lg_gtt_id ` set N \<subseteq> {gt_gtt_id g}" "lg_id ` set N \<inter> lg_id ` set L = {}" using new by auto
  moreover have "keyed (G, L, C)" using inv by (simp add: gtt_inv_def)
  ultimately have "keyed (G @ [g], L @ N, C)"
    using fresh ids unfolding keyed_def prod.case by (simp add: image_Un) (blast intro: subset_trans)
  moreover have "exclusive (L @ N) C" using inv no by (auto simp: gtt_inv_def exclusive_def)
  moreover have "disarmed (G @ [g]) (L @ N) C" using inv no old by (fastforce simp: gtt_inv_def disarmed_def)
  moreover have "marked (L @ N)" using inv new by (auto simp: gtt_inv_def marked_def)
  ultimately show ?thesis by (simp add: gtt_inv_def)
qed

end
