(* ===== verification/GttSamples.thy ===== *)
theory GttSamples
  imports OrderLaws GttManager
begin

text \<open>
  The concrete GTT the witnesses evaluate on, and the placement that leads to it.
\<close>

text \<open>A protective OCO: sell two, at 90 when the price falls to 95, at 110 when it rises to 105.\<close>

definition sample_oco :: gtt_form where
  "sample_oco =
     \<lparr> gf_trigger_type = ''OCO'', gf_symbol = ''S'', gf_exchange = ''NSE'', gf_action = ''SELL'',
       gf_product = Some MIS, gf_quantity = 2, gf_pricetype = Some LIMIT, gf_price = 0,
       gf_triggerprice_sl = 95, gf_triggerprice_tg = 105, gf_stoploss = 90, gf_target = 110,
       gf_strategy = None, gf_expires_at = None \<rparr>"

lemma sample_oco_texts:
  "str_upper ''OCO'' = ''OCO''" "parse_action ''SELL'' = Some SELL"
  by (simp_all add: str_upper_def char_upper_def parse_action_def)

lemma sample_oco_legs:
  "build_legs sample_oco =
     [\<lparr>ls_trigger_price = 95, ls_direction = Below, ls_action = Some SELL, ls_quantity = 2, ls_price = 90, ls_pricetype = LIMIT\<rparr>,
      \<lparr>ls_trigger_price = 105, ls_direction = Above, ls_action = Some SELL, ls_quantity = 2, ls_price = 110, ls_pricetype = LIMIT\<rparr>]"
  by (simp add: build_legs_def sample_oco_def sample_oco_texts Let_def)

lemma sample_margin_of:
  "calculate_margin_required sample_db ''S'' ''NSE'' MIS q p a = Inr (of_int \<bar>q\<bar> * p / 5)"
  using sample_margin
  by (simp add: calculate_margin_required_def sample_db_def get_leverage_def config_leverage_def get_config_def sample_numerals)

lemma sample_oco_mode: "oco_reserves_max sample_db"
  by (simp add: oco_reserves_max_def get_config_def sample_db_def str_lower_def strip_def blank_def char_lower_def)

lemma sample_oco_margins:
  "leg_margins sample_db ''S'' ''NSE'' MIS l (build_legs sample_oco) = Inr [36, 44]"
  by (simp add: sample_oco_legs leg_margin_required_def pricing_basis_def sample_margin_of)

definition oco_gtt :: sandbox_gtt where
  "oco_gtt =
     \<lparr> gt_gtt_id = 7, gt_user = ''u'', gt_strategy = None, gt_trigger_type = Two_leg, gt_symbol = ''S'',
       gt_exchange = ''NSE'', gt_last_price = 100, gt_status = Active, gt_margin_blocked = 44,
       gt_expires_at = Some 31572000000 \<rparr>"

definition oco_leg :: "nat \<Rightarrow> rat \<Rightarrow> direction \<Rightarrow> rat \<Rightarrow> rat \<Rightarrow> sandbox_gtt_leg" where
  "oco_leg n trigger dir price margin =
     \<lparr> lg_id = n, lg_gtt_id = 7, lg_leg_number = n, lg_trigger_price = trigger, lg_direction = dir,
       lg_action = SELL, lg_quantity = 2, lg_price = price, lg_pricetype = LIMIT, lg_product = MIS,
       lg_status = Pending, lg_triggered_order_id = None, lg_leg_margin = margin, lg_claimed_at = None \<rparr>"

definition oco_money :: money where
  "oco_money = sample_money\<lparr>available_balance := 856, used_margin := 144\<rparr>"

definition oco_db :: sandbox where
  "oco_db = sample_db\<lparr>funds_rows := [sample_funds\<lparr>fu_money := oco_money\<rparr>], gtts := [oco_gtt],
     gtt_legs := [oco_leg 1 95 Below 90 36, oco_leg 2 105 Above 110 44]\<rparr>"

lemma sample_oco_placed: "place_gtt sample_ext ''u'' sample_oco 100 sample_db = (Gtt_ok 7, oco_db)"
proof -
  let ?d = "sample_db\<lparr>funds_rows := [sample_funds\<lparr>fu_money := oco_money\<rparr>]\<rparr>"
  have stage: "stage_margin_delta sample_ext ''u'' 44 sample_db = ((True, Margin_staged 44), ?d)"
    unfolding stage_margin_delta_row [OF sample_ready] sample_stored
    by (simp add: sample_money_def oco_money_def set_money_def sample_db_def sample_funds_def sql_update_Cons)
  have block: "blocked_margin sample_db True [36, 44] = 44"
    by (simp add: blocked_margin_def sample_oco_mode)
  have ins: "insert_gtt sample_ext ''u'' sample_oco 100 (build_legs sample_oco) [36, 44] 44 ?d = Some (7, oco_db)"
    unfolding sample_oco_legs
    by (simp add: insert_gtt_def sample_oco_def sample_oco_texts sample_db_def sample_ext_def oco_db_def
        oco_gtt_def oco_leg_def new_gtt_def new_leg_def next_id_def resolve_expiry_def DEFAULT_EXPIRY_DAYS_def
        ms_per_day_def Let_def)
  have form: "gf_symbol sample_oco = ''S''" "gf_exchange sample_oco = ''NSE''" "gf_product sample_oco = Some MIS"
    by (simp_all add: sample_oco_def)
  have two: "length (build_legs sample_oco) = 2" "build_legs sample_oco \<noteq> []"
    by (simp_all add: sample_oco_legs)
  show ?thesis
    using stage ins block two sample_oco_margins [of 100]
    by (simp add: place_gtt_def form notify_gtt_placed_def sample_ext_def)
qed

end
