(* ===== verification/GttReach.thy ===== *)
theory GttReach
  imports GttSafety GttSamples
begin

text \<open>
  The operations on GTTs keep the invariant of the previous theory: requests of users (also late ones,
  acting on a row read long before), claims of evaluators, fires, the reapers and the expiry sweep.
  What the invariant says of the orders.
\<close>

definition sound :: "sandbox \<Rightarrow> bool" where
  "sound db \<longleftrightarrow> gtt_inv (gtt_view db)"

lemma sound_cong: "gtt_view db' = gtt_view db \<Longrightarrow> sound db' = sound db"
  by (simp add: sound_def)

lemma children_tables [simp]:
  "children (db\<lparr>gtts := G\<rparr>) = children db" "children (db\<lparr>gtt_legs := L\<rparr>) = children db"
  "children (publish e db) = children db"
  by (simp_all add: children_def)

lemma sound_publish [simp]: "sound (publish e db) = sound db"
  by (simp add: sound_def)

lemma set_legs_tables [simp]:
  "gtts (set_legs P h db) = gtts db" "gtt_legs (set_legs P h db) = sql_update P h (gtt_legs db)"
  "children (set_legs P h db) = children db" "orders (set_legs P h db) = orders db"
  "funds_rows (set_legs P h db) = funds_rows db"
  by (simp_all add: set_legs_def)

lemma set_gtt_tables [simp]:
  "gtts (set_gtt gid k db) = sql_update (\<lambda>g. gt_gtt_id g = gid) k (gtts db)"
  "gtt_legs (set_gtt gid k db) = gtt_legs db" "children (set_gtt gid k db) = children db"
  "orders (set_gtt gid k db) = orders db" "funds_rows (set_gtt gid k db) = funds_rows db"
  by (simp_all add: set_gtt_def)

lemma sound_legs:
  "sound db \<Longrightarrow> (\<And>l. l \<in> set (gtt_legs db) \<Longrightarrow> P l \<Longrightarrow> calm (children db) l (h l)) \<Longrightarrow> sound (set_legs P h db)"
  by (simp add: sound_def gtt_view_def inv_legs)

lemma sound_quiet_legs:
  "sound db \<Longrightarrow> (\<And>l. lg_id (h l) = lg_id l \<and> lg_gtt_id (h l) = lg_gtt_id l \<and>
     lg_status (h l) \<in> {Pending, Leg_cancelled}) \<Longrightarrow> sound (set_legs P h db)"
  by (rule sound_legs) (simp_all add: calm_quiet)

lemma sound_leg_terms:
  assumes "sound db" "\<And>l. lg_id (h l) = lg_id l \<and> lg_gtt_id (h l) = lg_gtt_id l \<and>
     lg_status (h l) = lg_status l \<and> lg_triggered_order_id (h l) = lg_triggered_order_id l"
  shows "sound (set_legs P h db)"
proof (rule sound_legs [OF assms(1)])
  fix l assume "l \<in> set (gtt_legs db)"
  moreover have "marked (gtt_legs db)" using assms(1) by (simp add: sound_def gtt_view_def gtt_inv_def)
  ultimately show "calm (children db) l (h l)"
    using assms(2) [of l] calm_refl [of "gtt_legs db" l "children db"] by (simp add: calm_def)
qed

lemma sound_unclaim [simp]: "sound db \<Longrightarrow> sound (set_legs P unclaim_leg db)"
  and sound_cancel_legs [simp]: "sound db \<Longrightarrow> sound (set_legs P cancel_leg db)"
  by (rule sound_quiet_legs; simp add: unclaim_leg_def cancel_leg_def)+

lemma sound_revert_claim [simp]: "sound db \<Longrightarrow> sound (revert_claim lid db)"
  by (simp add: revert_claim_def)

definition uncommitted :: "nat \<Rightarrow> sandbox \<Rightarrow> bool" where
  "uncommitted gid db \<longleftrightarrow> (\<forall>l \<in> set (gtt_legs db). lg_gtt_id l = gid \<longrightarrow> \<not> committed (children db) l)"

lemma sound_gtts:
  assumes "sound db" "\<And>g. gt_gtt_id (k g) = gt_gtt_id g"
    and "\<And>g. g \<in> set (gtts db) \<Longrightarrow> P g \<Longrightarrow> gt_status (k g) = Active \<Longrightarrow>
      gt_status g = Active \<or> uncommitted (gt_gtt_id g) db"
  shows "sound (db\<lparr>gtts := sql_update P k (gtts db)\<rparr>)"
  using assms by (simp add: sound_def gtt_view_def uncommitted_def inv_gtts)

lemma sound_set_gtt:
  "sound db \<Longrightarrow> (\<And>g. gt_gtt_id (k g) = gt_gtt_id g) \<Longrightarrow>
   (\<And>g. gt_status (k g) = Active \<Longrightarrow> gt_status g = Active) \<Longrightarrow> sound (set_gtt gid k db)"
  unfolding set_gtt_def by (rule sound_gtts) auto

lemma sound_stage [simp]: "sound (snd (stage_margin_delta X uid d db)) = sound db"
  by (rule sound_cong) simp

lemma sound_block [simp]: "sound (snd (block_margin X uid d db)) = sound db"
  by (rule sound_cong) simp

lemma sound_ensure [simp]: "sound (ensure_funds_initialized X uid db) = sound db"
  by (rule sound_cong) (rule beside_ensure, simp)

lemma stage_view: "stage_margin_delta X uid d db = (r, db') \<Longrightarrow> gtt_view db' = gtt_view db"
  using beside_stage [OF gtt_view_beside(2), of X uid d db] by simp

lemma block_view: "block_margin X uid d db = (r, db') \<Longrightarrow> gtt_view db' = gtt_view db"
  using beside_block_margin [OF gtt_view_beside(2), of X uid d db] by simp

lemmas stage_sound = sound_cong [OF stage_view]
lemmas block_sound = sound_cong [OF block_view]

subsection \<open>The claim of a GTT\<close>

lemma sound_claim_gtt:
  assumes "claim_gtt P k gid db = (won, db1)" "sound db" "\<And>g. gt_gtt_id (k g) = gt_gtt_id g"
  shows "sound db1"
proof (cases won)
  case True
  then have "db1 = db\<lparr>gtts := sql_update (\<lambda>g. gt_gtt_id g = gid \<and> gt_status g = Active \<and> P g) k (gtts db)\<rparr>"
    using assms(1) by (auto simp: claim_gtt_def claim_row_def split: if_splits)
  moreover have "sound (db\<lparr>gtts := sql_update (\<lambda>g. gt_gtt_id g = gid \<and> gt_status g = Active \<and> P g) k (gtts db)\<rparr>)"
    using assms(2,3) by (rule sound_gtts) simp
  ultimately show ?thesis by simp
qed (use assms in \<open>auto simp: claim_gtt_def split: prod.splits\<close>)

lemma claim_gtt_frame:
  "claim_gtt P k gid db = (won, db1) \<Longrightarrow> gtt_legs db1 = gtt_legs db \<and> children db1 = children db \<and>
     orders db1 = orders db \<and> funds_rows db1 = funds_rows db"
  by (auto simp: claim_gtt_def split: prod.splits if_splits)

lemma sound_disarmed:
  assumes "sound db" "g \<in> set (gtts db)" "gt_status g = Active"
  shows "uncommitted (gt_gtt_id g) db"
proof -
  have "disarmed (gtts db) (gtt_legs db) (children db)"
    using assms(1) by (simp add: sound_def gtt_view_def gtt_inv_def)
  with assms(2,3) show ?thesis by (auto simp: uncommitted_def disarmed_def)
qed

text \<open>Between the claim of the parent and the end of the fire.\<close>

definition mid_fire :: "nat \<Rightarrow> sandbox \<Rightarrow> bool" where
  "mid_fire gid db \<longleftrightarrow> sound db \<and> uncommitted gid db \<and>
     (\<forall>g \<in> set (gtts db). gt_gtt_id g = gid \<longrightarrow> gt_status g \<noteq> Active)"

lemma mid_fire_cong: "gtt_view db' = gtt_view db \<Longrightarrow> mid_fire gid db' = mid_fire gid db"
  by (simp add: mid_fire_def sound_def uncommitted_def gtt_view_def)

lemma claim_parent_mid:
  assumes "claim_gtt P (\<lambda>g. g\<lparr>gt_status := Triggered\<rparr>) gid db = (True, db1)" "sound db"
  shows "mid_fire gid db1"
proof -
  let ?P = "\<lambda>g. gt_gtt_id g = gid \<and> gt_status g = Active \<and> P g"
  have db1: "db1 = db\<lparr>gtts := sql_update ?P (\<lambda>g. g\<lparr>gt_status := Triggered\<rparr>) (gtts db)\<rparr>"
    and one: "row_count ?P (gtts db) = 1"
    using assms(1) by (auto simp: claim_gtt_def claim_row_def split: if_splits)
  from one row_count_pos [of ?P "gtts db"]
  obtain g where g: "g \<in> set (gtts db)" "gt_gtt_id g = gid" "gt_status g = Active" "P g" by auto
  have "distinct (map gt_gtt_id (gtts db))"
    using assms(2) by (simp add: sound_def gtt_view_def gtt_inv_def keyed_def)
  then have uniq: "x = g" if "x \<in> set (gtts db)" "gt_gtt_id x = gid" for x
    using that g(1,2) by (auto simp: distinct_map inj_on_def)
  have "\<forall>x \<in> set (gtts db1). gt_gtt_id x = gid \<longrightarrow> gt_status x \<noteq> Active"
  proof (intro ballI impI)
    fix x assume x: "x \<in> set (gtts db1)" "gt_gtt_id x = gid"
    then have "x \<in> set (sql_update ?P (\<lambda>g. g\<lparr>gt_status := Triggered\<rparr>) (gtts db))" by (simp add: db1)
    from sql_update_member [OF this]
    obtain r where r: "r \<in> set (gtts db)" "x = (if ?P r then r\<lparr>gt_status := Triggered\<rparr> else r)" by blast
    show "gt_status x \<noteq> Active"
    proof (cases "?P r")
      case False
      then have "x = r" using r(2) by presburger
      then have "r = g" using uniq [OF r(1)] x(2) by simp
      with False g show ?thesis by simp
    qed (use r(2) in simp)
  qed
  moreover have "uncommitted gid db1"
    using sound_disarmed [OF assms(2) g(1,3)] g(2) by (simp add: uncommitted_def db1)
  moreover have "sound db1" using sound_claim_gtt [OF assms(1,2)] by simp
  ultimately show ?thesis by (simp add: mid_fire_def)
qed

lemma mid_fire_margin:
  assumes "mid_fire gid db"
  shows "mid_fire gid (set_gtt i (\<lambda>g. g\<lparr>gt_margin_blocked := m\<rparr>) db)"
proof -
  have "sound (set_gtt i (\<lambda>g. g\<lparr>gt_margin_blocked := m\<rparr>) db)"
    using assms by (intro sound_set_gtt) (simp_all add: mid_fire_def)
  moreover have "\<forall>g \<in> set (gtts db). gt_gtt_id g = gid \<longrightarrow> gt_status g \<noteq> Active"
    using assms by (simp add: mid_fire_def)
  then have "\<forall>g \<in> set (sql_update (\<lambda>g. gt_gtt_id g = i) (\<lambda>g. g\<lparr>gt_margin_blocked := m\<rparr>) (gtts db)).
      gt_gtt_id g = gid \<longrightarrow> gt_status g \<noteq> Active"
    by (auto simp: sql_update_def)
  ultimately show ?thesis using assms by (simp add: mid_fire_def uncommitted_def)
qed

lemma mid_fire_revert: "mid_fire gid db \<Longrightarrow> sound (revert_parent gid db)"
  unfolding revert_parent_def mid_fire_def by (intro sound_gtts) auto

lemma mid_fire_release:
  "release_reservation X g db = (ok, db') \<Longrightarrow> mid_fire gid db \<Longrightarrow> mid_fire gid db'"
  by (auto simp: release_reservation_def mid_fire_margin mid_fire_cong [OF stage_view]
      split: if_splits prod.splits)

subsection \<open>Firing\<close>

lemma sound_compensate: "mid_fire gid db \<Longrightarrow> sound (compensate_failed_fire X uid gid lid amount db)"
proof -
  assume m: "mid_fire gid db"
  have "sound (set_gtt gid reject_gtt (set_gtt gid (\<lambda>g. g\<lparr>gt_margin_blocked := 0\<rparr>) d))" if "mid_fire gid d" for d
  proof -
    have "sound (set_gtt gid (\<lambda>g. g\<lparr>gt_margin_blocked := 0\<rparr>) d)"
      using mid_fire_margin [OF that] unfolding mid_fire_def by blast
    then show ?thesis by (rule sound_set_gtt) (simp_all add: reject_gtt_def)
  qed
  then show ?thesis
    using m mid_fire_revert [OF mid_fire_margin] mid_fire_revert [OF m]
    by (auto simp: compensate_failed_fire_def mid_fire_cong [OF block_view] split: prod.splits)
qed

lemma leg_row_SomeD:
  "leg_row X lid db = Some l \<Longrightarrow> \<exists>row \<in> set (gtt_legs db). l = read_leg X row \<and> lg_id row = lid"
  by (auto simp: leg_row_def dest: find_SomeD)

lemma leg_row_cong: "gtt_legs db' = gtt_legs db \<Longrightarrow> leg_row X lid db' = leg_row X lid db"
  by (simp add: leg_row_def)

lemma gtt_row_SomeD:
  "gtt_row X gid db = Some g \<Longrightarrow> \<exists>row \<in> set (gtts db). g = read_gtt X row \<and> gt_gtt_id row = gid"
  by (auto simp: gtt_row_def dest: find_SomeD)

lemma read_leg_engaged [simp]: "engaged C (read_leg X l) = engaged C l"
  by (simp add: engaged_def has_child_def)

lemma placed_child:
  assumes "place_order X uid f prefetched db = (Order_ok oid, db1)" "\<not> x_db_error X"
    and "mid_fire gid db" "row \<in> set (gtt_legs db)" "lg_gtt_id row = gid"
    and "\<forall>s \<in> set (gtt_legs db). lg_gtt_id s = gid \<longrightarrow> lg_status s = Triggering \<longrightarrow> lg_id s = lg_id row"
    and "fm_gtt_leg_id f = Some (lg_id row)"
  shows "sound db1 \<and> gtts db1 = gtts db \<and> gtt_legs db1 = gtt_legs db \<and> has_child (children db1) row"
proof -
  have v: "gtt_view db1 = (gtts db, gtt_legs db, children db @ [(Some (lg_id row), False, oid)])"
    "Some (lg_id row) \<notin> fst ` set (children db)"
    using place_order_gtt_view [OF assms(1,2)] assms(7) by (simp_all add: tagged_def)
  have "\<forall>s \<in> set (gtt_legs db). lg_gtt_id s = lg_gtt_id row \<longrightarrow> engaged (children db) s \<longrightarrow> lg_id s = lg_id row"
    using assms(3,5,6) by (auto simp: mid_fire_def uncommitted_def committed_def engaged_def)
  with assms(3-5) v(2) have "gtt_inv (gtts db, gtt_legs db, children db @ [(Some (lg_id row), False, oid)])"
    by (intro inv_child) (auto simp: mid_fire_def sound_def gtt_view_def)
  with v show ?thesis by (auto simp: sound_def gtt_view_def has_child_def)
qed

lemma place_order_refused_view:
  assumes "place_order X uid f prefetched db = (resp, db1)" "\<not> x_db_error X" "\<forall>oid. resp \<noteq> Order_ok oid"
  shows "gtt_view db1 = gtt_view db"
proof (cases resp)
  case (Order_ok n)
  with assms(3) show ?thesis by blast
qed (use place_order_gtt_view [OF assms(1,2)] in simp_all)

lemma sound_finish_fire:
  assumes "sound db" "\<And>l. l \<in> set (gtt_legs db) \<Longrightarrow> lg_id l = lid \<Longrightarrow> has_child (children db) l"
  shows "sound (finish_fire g lid oid db)"
proof -
  have "sound (set_legs (\<lambda>l. lg_id l = lid) (fired_leg oid) db)"
    using assms by (intro sound_legs) (auto simp: calm_def fired_leg_def committed_def)
  then show ?thesis by (simp add: finish_fire_def Let_def)
qed

subsection \<open>Claims, requests and sweeps\<close>

lemma sound_try_claim:
  assumes "sound db"
  shows "sound (snd (try_claim_trigger X lid db))"
proof -
  let ?P = "\<lambda>l. lg_id l = lid \<and> claimable_leg db l"
  obtain won rows where c: "claim_row lg_id (claimable_leg db) (claim_leg_row X) lid (gtt_legs db) = (won, rows)"
    by fastforce
  show ?thesis
  proof (cases won)
    case True
    then have rows: "rows = sql_update ?P (claim_leg_row X) (gtt_legs db)" "row_count ?P (gtt_legs db) = 1"
      using c by (auto simp: claim_row_def split: if_splits)
    from rows(2) row_count_pos [of ?P "gtt_legs db"]
    obtain l where l: "l \<in> set (gtt_legs db)" "lg_id l = lid" "claimable_leg db l" by auto
    have "distinct (map lg_id (gtt_legs db))"
      using assms by (simp add: sound_def gtt_view_def gtt_inv_def keyed_def)
    then have uniq: "x = l" if "x \<in> set (gtt_legs db)" "lg_id x = lid" for x
      using that l(1,2) by (auto simp: distinct_map inj_on_def)
    have "rows = sql_update (\<lambda>x. lg_id x = lg_id l) (claim_leg_row X) (gtt_legs db)"
      unfolding rows(1) sql_update_def by (intro map_cong refl) (use l uniq in metis)
    moreover have "gtt_inv (gtts db, sql_update (\<lambda>x. lg_id x = lg_id l) (claim_leg_row X) (gtt_legs db), children db)"
      using assms l(1,3)
      by (intro inv_claim)
        (auto simp: sound_def gtt_view_def claimable_leg_def sibling_busy_def parent_active_def claim_leg_row_def)
    ultimately show ?thesis
      using True by (simp add: try_claim_trigger_def c sound_def gtt_view_def)
  qed (use assms in \<open>simp add: try_claim_trigger_def c\<close>)
qed

lemma sound_rewrite_legs: "sound db \<Longrightarrow> sound (rewrite_legs rows act lms db)"
proof (induction rows arbitrary: lms db)
  case (Cons row rows)
  have "sound (set_legs (\<lambda>x. lg_id x = lg_id row) (rewrite_leg l act margin) db)" for l margin
    using Cons.prems by (rule sound_leg_terms) (simp add: rewrite_leg_def)
  with Cons show ?case by (auto split: list.splits)
qed simp

lemma sound_rolled_back: "sound db \<Longrightarrow> sound after \<Longrightarrow> sound (rolled_back uid db pending after)"
  by (simp add: rolled_back_def)

lemma sound_reprice: "sound db \<Longrightarrow> sound (snd (reprice_gtt X uid g rows f legs margins db))"
  using sound_claim_gtt [of _ _ _ db]
  by (auto simp: reprice_gtt_def Let_def stage_sound intro!: sound_rewrite_legs sound_rolled_back
      split: prod.splits option.splits)

lemma sound_cancel_gtt: "sound db \<Longrightarrow> sound (snd (cancel_gtt_from X uid g db))"
  using sound_claim_gtt [of _ _ _ db]
  by (auto simp: cancel_gtt_from_def cancel_gtt_row_def Let_def stage_sound intro!: sound_rolled_back
      split: prod.splits)

lemma sound_expire_gtt: "sound db \<Longrightarrow> sound (snd (expire_gtt_from X g db))"
  using sound_claim_gtt [of _ _ _ db]
  by (auto simp: expire_gtt_from_def expire_gtt_row_def self_release_def Let_def stage_sound intro!: sound_rolled_back
      split: prod.splits if_splits)

lemma new_legs_facts:
  "(\<forall>l \<in> set (new_legs gid pr act lid n lms). lg_gtt_id l = gid \<and> lg_status l = Pending \<and> lid \<le> lg_id l) \<and>
   distinct (map lg_id (new_legs gid pr act lid n lms))"
proof (induction lms arbitrary: lid n)
  case (Cons lm lms)
  from Cons.IH [of "Suc lid" "Suc n"] show ?case by (force simp: new_leg_def)
qed simp

lemma next_id_above: "r \<in> set rows \<Longrightarrow> key r < next_id key rows"
  using fold_max_member [of r rows key 0] by (simp add: next_id_def)

lemma sound_insert_gtt:
  assumes "insert_gtt X uid f last_price legs margins blocked db = Some (gid, db')" "sound db"
  shows "sound db'"
proof -
  obtain act pr where ap: "parse_action (gf_action f) = Some act" "gf_product f = Some pr"
    using assms(1) by (auto simp: insert_gtt_def split: option.splits)
  have ins: "gid \<notin> gt_gtt_id ` set (gtts db)"
    "db' = db\<lparr>gtts := gtts db @ [new_gtt X uid f gid (length legs = 2) last_price blocked],
      gtt_legs := gtt_legs db @ new_legs gid pr act (next_id lg_id (gtt_legs db)) 1 (zip legs margins)\<rparr>"
    using assms(1) by (auto simp: insert_gtt_def Let_def ap split: if_splits)
  let ?N = "new_legs gid pr act (next_id lg_id (gtt_legs db)) 1 (zip legs margins)"
  have "\<forall>l \<in> set ?N. lg_id l \<notin> lg_id ` set (gtt_legs db)"
    using new_legs_facts [of gid pr act "next_id lg_id (gtt_legs db)" 1 "zip legs margins"]
      next_id_above [of _ "gtt_legs db" lg_id] by fastforce
  then have "gtt_inv (gtts db @ [new_gtt X uid f gid (length legs = 2) last_price blocked], gtt_legs db @ ?N, children db)"
    using assms(2) ins(1) new_legs_facts [of gid pr act "next_id lg_id (gtt_legs db)" 1 "zip legs margins"]
    by (intro inv_new) (auto simp: sound_def gtt_view_def new_gtt_def)
  then show ?thesis by (simp add: ins(2) sound_def gtt_view_def children_def)
qed

lemma place_gtt_Ok:
  assumes "place_gtt X uid f last_price db = (resp, db')"
  shows "gtt_view db' = gtt_view db \<or>
    (\<exists>legs margins blocked msg db1 gid db2. stage_margin_delta X uid blocked db = ((True, msg), db1) \<and>
       insert_gtt X uid f last_price legs margins blocked db1 = Some (gid, db2) \<and>
       resp = Gtt_ok gid \<and> db' = notify_gtt_placed X gid db2)"
proof -
  let ?legs = "build_legs f" and ?pr = "case gf_product f of Some p \<Rightarrow> p | None \<Rightarrow> NRML"
  show ?thesis
  proof (cases "leg_margins db (gf_symbol f) (gf_exchange f) ?pr last_price ?legs")
    case (Inl e)
    with assms show ?thesis by (auto simp: place_gtt_def Let_def split: if_splits)
  next
    case (Inr margins)
    let ?b = "blocked_margin db (length ?legs = 2) margins"
    obtain ok msg db1 where s: "stage_margin_delta X uid ?b db = ((ok, msg), db1)" by (metis prod.collapse)
    have e: "gtt_view (ensure_funds_initialized X uid db) = gtt_view db" by (rule beside_ensure) simp
    show ?thesis
    proof (cases "insert_gtt X uid f last_price ?legs margins ?b db1")
      case None
      with assms Inr s stage_view [OF s] e show ?thesis
        by (auto simp: place_gtt_def Let_def split: if_splits)
    next
      case (Some gd)
      obtain gid db2 where gd: "gd = (gid, db2)" by fastforce
      have "gtt_view db' = gtt_view db \<or> ok \<and> resp = Gtt_ok gid \<and> db' = notify_gtt_placed X gid db2"
        using assms Inr s stage_view [OF s] Some gd by (auto simp: place_gtt_def Let_def split: if_splits)
      then show ?thesis
      proof
        assume "ok \<and> resp = Gtt_ok gid \<and> db' = notify_gtt_placed X gid db2"
        with s Some gd show ?thesis by (intro disjI2 exI conjI) auto
      qed blast
    qed
  qed
qed

lemma sound_place_gtt: "sound db \<Longrightarrow> sound (snd (place_gtt X uid f last_price db))"
proof -
  assume db: "sound db"
  obtain resp db' where p: "place_gtt X uid f last_price db = (resp, db')" by fastforce
  have "sound (notify_gtt_placed X gid d) = sound d" for gid d by (simp add: notify_gtt_placed_def)
  moreover have "sound d2" if "stage_margin_delta X uid b db = (r, d1)"
    "insert_gtt X uid f last_price ls ms b d1 = Some (gid, d2)" for r d1 d2 gid b ls ms
    using sound_insert_gtt [OF that(2)] stage_sound [OF that(1)] db by simp
  ultimately show ?thesis
    using place_gtt_Ok [OF p] db sound_cong [of db' db] unfolding p by fastforce
qed

subsection \<open>Recovery\<close>

lemma legs_of_member: "l \<in> set (legs_of X gid db) \<longleftrightarrow>
    (\<exists>row \<in> set (gtt_legs db). lg_gtt_id row = gid \<and> l = read_leg X row)"
  by (auto simp: legs_of_def)

lemma child_in:
  assumes "r \<in> set (orders db)" "od_gtt_leg_id r = Some i"
  shows "child_of r \<in> set (children db)"
proof -
  have "child_of r \<in> child_of ` {r \<in> set (orders db). od_gtt_leg_id r \<noteq> None}"
    using assms by (intro imageI) simp
  then show ?thesis by (simp add: children_def child_view_def)
qed

lemma child_in_tags: "r \<in> set (orders db) \<Longrightarrow> od_gtt_leg_id r = Some i \<Longrightarrow> Some i \<in> fst ` set (children db)"
  using child_in [of r db i] by (force simp: child_of_def)

lemma placed_order_child:
  assumes "placed_order (legs_of X gid db) db = Some r"
  shows "\<exists>row \<in> set (gtt_legs db). lg_gtt_id row = gid \<and> od_gtt_leg_id r = Some (lg_id row)"
    "od_gtt_leg_id r \<in> fst ` set (children db)"
proof -
  have r: "r \<in> set (orders db)" "\<exists>l \<in> set (legs_of X gid db). od_gtt_leg_id r = Some (lg_id l)"
    using find_SomeD [OF assms [unfolded placed_order_def]] by auto
  then show "\<exists>row \<in> set (gtt_legs db). lg_gtt_id row = gid \<and> od_gtt_leg_id r = Some (lg_id row)"
    using legs_of_member [of _ X gid db] by (metis read_leg_keys(1))
  show "od_gtt_leg_id r \<in> fst ` set (children db)"
    using r child_in_tags [of r db] by auto
qed

lemma unplaced_uncommitted:
  assumes "sound db" "placed_order (legs_of X gid db) db = None"
    and "\<not> (\<exists>l \<in> set (legs_of X gid db). lg_triggered_order_id l \<noteq> None)"
  shows "uncommitted gid db"
  unfolding uncommitted_def
proof (intro ballI impI)
  fix row assume row: "row \<in> set (gtt_legs db)" "lg_gtt_id row = gid"
  then have in_legs: "read_leg X row \<in> set (legs_of X gid db)" by (auto simp: legs_of_member)
  have key: "keyed (gtts db, gtt_legs db, children db)" and m: "marked (gtt_legs db)"
    using assms(1) by (simp_all add: sound_def gtt_view_def gtt_inv_def)
  have "lg_triggered_order_id (read_leg X row) = None" using assms(3) in_legs by blast
  then have "lg_triggered_order_id row = None" by simp
  with m row(1) have "lg_status row \<noteq> Leg_triggered" by (auto simp: marked_def)
  moreover have "\<not> has_child (children db) row"
  proof
    assume "has_child (children db) row"
    then obtain c where c: "c \<in> set (children db)" "fst c = Some (lg_id row)" by (auto simp: has_child_def)
    with key have "\<not> fst (snd c)" by (auto simp: keyed_def)
    with c obtain r where "r \<in> set (orders db)" "od_gtt_leg_id r = Some (lg_id row)" "od_status r \<noteq> Rejected"
      by (auto simp: children_def child_view_def child_of_def)
    with assms(2) in_legs show False by (force simp: placed_order_def find_None_iff)
  qed
  ultimately show "\<not> committed (children db) row" by (simp add: committed_def)
qed

lemma sound_rearm_gtt: "sound db \<Longrightarrow> uncommitted gid db \<Longrightarrow> sound (rearm_gtt gid m db)"
  unfolding rearm_gtt_def by (intro sound_unclaim sound_gtts) auto

lemma uncommitted_cong: "gtt_view db' = gtt_view db \<Longrightarrow> uncommitted gid db' = uncommitted gid db"
  by (simp add: uncommitted_def gtt_view_def)

lemma sound_rearm_stranded:
  assumes "sound db" "uncommitted (gt_gtt_id g) db"
  shows "sound (rearm_stranded X g legs db)"
proof -
  obtain ok msg db1 where b: "block_margin X (gt_user g) (required_margin legs) db = ((ok, msg), db1)"
    by (metis prod.collapse)
  have v: "sound db1" "uncommitted (gt_gtt_id g) db1"
    using assms block_sound [OF b] uncommitted_cong [OF block_view [OF b]] by simp_all
  then have "sound (set_gtt (gt_gtt_id g) reject_gtt db1)" by (intro sound_set_gtt) (simp_all add: reject_gtt_def)
  with v assms b show ?thesis by (simp add: rearm_stranded_def Let_def sound_rearm_gtt)
qed

lemma sound_reclaim_parent:
  assumes "sound db"
  shows "sound (snd (reclaim_stranded_parent X gid db))"
proof (cases "gtt_row X gid db")
  case (Some g)
  then have gid: "gt_gtt_id g = gid" using gtt_row_SomeD by fastforce
  let ?legs = "legs_of X gid db"
  show ?thesis
  proof (cases "placed_order ?legs db")
    case None
    show ?thesis
    proof (cases "\<exists>l \<in> set ?legs. lg_triggered_order_id l \<noteq> None")
      case True
      with Some assms show ?thesis by (simp add: reclaim_stranded_parent_def Let_def)
    next
      case False
      then have "sound (rearm_stranded X g ?legs db)"
        using sound_rearm_stranded unplaced_uncommitted [OF assms None] assms gid by simp
      with Some None False assms show ?thesis by (simp add: reclaim_stranded_parent_def Let_def)
    qed
  next
    case (Some r)
    have "sound (set_legs (\<lambda>l. od_gtt_leg_id r = Some (lg_id l)) (fired_leg (od_orderid r)) db)"
      using assms placed_order_child(2) [OF Some]
      by (intro sound_legs) (auto simp: calm_def fired_leg_def committed_def has_child_def)
    with Some \<open>gtt_row X gid db = Some g\<close> assms show ?thesis
      by (simp add: reclaim_stranded_parent_def Let_def)
  qed
qed (use assms in \<open>simp add: reclaim_stranded_parent_def\<close>)

lemma sound_reclaim_each: "sound db \<Longrightarrow> sound (snd (reclaim_each X gids n db))"
proof (induction gids arbitrary: n db)
  case (Cons gid gids)
  obtain ok d where r: "reclaim_stranded_parent X gid db = (ok, d)" by fastforce
  have "sound d" using sound_reclaim_parent [OF Cons.prems, of X gid] r by simp
  then show ?case using Cons.IH [of d] by (simp add: r)
qed simp

lemma sound_reclaim_legs: "sound db \<Longrightarrow> sound (snd (reclaim_stranded_legs X db))"
  by (simp add: reclaim_stranded_legs_def reclaim_stranded_parents_def sound_reclaim_each)

subsection \<open>What the invariant says of the orders\<close>

text \<open>The state the sandbox starts from.\<close>

definition no_gtts :: "sandbox \<Rightarrow> bool" where
  "no_gtts db \<longleftrightarrow> gtts db = [] \<and> gtt_legs db = [] \<and> list_all (\<lambda>r. od_gtt_leg_id r = None) (orders db)"

lemma no_gtts_sound: "no_gtts db \<Longrightarrow> sound db"
proof -
  assume n: "no_gtts db"
  then have "children db = []" by (auto simp: no_gtts_def children_def child_view_def list_all_iff filter_empty_conv)
  with n show ?thesis
    by (simp add: no_gtts_def sound_def gtt_view_def gtt_inv_defs)
qed

text \<open>The orders placed for the legs of one GTT.\<close>

definition gtt_orders :: "nat \<Rightarrow> sandbox \<Rightarrow> sandbox_order list" where
  "gtt_orders gid db =
     filter (\<lambda>r. \<exists>l \<in> set (gtt_legs db). lg_gtt_id l = gid \<and> od_gtt_leg_id r = Some (lg_id l)) (orders db)"

lemma distinct_tags: "distinct (map fst (children db)) \<Longrightarrow> distinct (map od_gtt_leg_id (gtt_orders gid db))"
proof -
  assume d: "distinct (map fst (children db))"
  have "map fst (children db) = map od_gtt_leg_id (filter (\<lambda>r. od_gtt_leg_id r \<noteq> None) (orders db))"
    by (simp add: children_def child_view_def child_of_def)
  with d have tags: "distinct (map od_gtt_leg_id (filter (\<lambda>r. od_gtt_leg_id r \<noteq> None) (orders db)))" by metis
  have "gtt_orders gid db = filter (\<lambda>r. \<exists>l \<in> set (gtt_legs db). lg_gtt_id l = gid \<and> od_gtt_leg_id r = Some (lg_id l))
      (filter (\<lambda>r. od_gtt_leg_id r \<noteq> None) (orders db))"
    unfolding gtt_orders_def filter_filter by (rule filter_cong [OF refl]) (metis option.distinct(1))
  then show ?thesis using distinct_map_filter [OF tags] by simp
qed

lemma sound_one_order:
  assumes "sound db"
  shows "length (gtt_orders gid db) \<le> 1"
proof (rule ccontr)
  assume "\<not> ?thesis"
  then obtain a b rest where ab: "gtt_orders gid db = a # b # rest"
    by (metis One_nat_def length_0_conv length_Cons less_eq_nat.simps(1) not_less_eq_eq neq_Nil_conv Suc_le_mono)
  have inv: "keyed (gtts db, gtt_legs db, children db)" "exclusive (gtt_legs db) (children db)"
    using assms by (simp_all add: sound_def gtt_view_def gtt_inv_def)
  have ne: "od_gtt_leg_id a \<noteq> od_gtt_leg_id b"
    using distinct_tags [of db gid] inv(1) ab by (simp add: keyed_def)
  have leg: "\<exists>l \<in> set (gtt_legs db). lg_gtt_id l = gid \<and> od_gtt_leg_id r = Some (lg_id l) \<and> engaged (children db) l"
    if "r \<in> set (gtt_orders gid db)" for r
  proof -
    from that obtain l where l: "r \<in> set (orders db)" "l \<in> set (gtt_legs db)" "lg_gtt_id l = gid"
      "od_gtt_leg_id r = Some (lg_id l)" by (auto simp: gtt_orders_def)
    have "has_child (children db) l" using child_in_tags [OF l(1,4)] by (simp add: has_child_def)
    with l show ?thesis by (auto simp: engaged_def)
  qed
  from leg [of a] leg [of b] ab obtain l s where ls: "l \<in> set (gtt_legs db)" "s \<in> set (gtt_legs db)"
    "lg_gtt_id l = gid" "lg_gtt_id s = gid" "engaged (children db) l" "engaged (children db) s"
    "od_gtt_leg_id a = Some (lg_id l)" "od_gtt_leg_id b = Some (lg_id s)" by auto
  have "lg_id s = lg_id l" using exclusiveD [OF inv(2) ls(1,2)] ls(3-6) by simp
  with ne ls(7,8) show False by simp
qed

lemma sound_active_unfired:
  assumes "sound db" "g \<in> set (gtts db)" "gt_status g = Active"
  shows "gtt_orders (gt_gtt_id g) db = []"
proof -
  have "uncommitted (gt_gtt_id g) db" using sound_disarmed [OF assms] .
  then show ?thesis
    using child_in_tags [of _ db]
    by (auto simp: uncommitted_def gtt_orders_def committed_def has_child_def filter_empty_conv)
qed

definition claimed_db :: sandbox where
  "claimed_db = oco_db\<lparr>gtt_legs :=
     [(oco_leg 1 95 Below 90 36)\<lparr>lg_status := Triggering, lg_claimed_at := Some 36000000\<rparr>,
      oco_leg 2 105 Above 110 44]\<rparr>"

lemma claimed_db_rows:
  "gtts claimed_db = [oco_gtt]" "map lg_status (gtt_legs claimed_db) = [Triggering, Pending]"
  "gt_gtt_id oco_gtt = 7" "gt_status oco_gtt = Active"
  by (simp_all add: claimed_db_def oco_db_def oco_leg_def oco_gtt_def)

lemma oco_claimed: "try_claim_trigger sample_ext 1 oco_db = (True, claimed_db)"
  by (simp add: try_claim_trigger_def claim_row_def claimable_leg_def sibling_busy_def parent_active_def
      oco_db_def oco_leg_def oco_gtt_def claim_leg_row_def sql_update_Cons sample_ext_def claimed_db_def)

end
