(* ===== verification/GttLaws.thy ===== *)
theory GttLaws
  imports GttReach
begin

text \<open>
  What the GTT manager does with the reservation and with the life of a GTT: who resolves it,
  placing, modifying, cancelling and expiring it, a refused fire, a completed fire, and what
  recovery restores.
\<close>

subsection \<open>The race to resolve a GTT\<close>

datatype resolution = By_fire | By_gtt_cancel | By_expiry

definition resolve_row :: "resolution \<Rightarrow> sandbox_gtt \<Rightarrow> sandbox_gtt" where
  "resolve_row k = (case k of
     By_fire \<Rightarrow> (\<lambda>g. g\<lparr>gt_status := Triggered\<rparr>)
   | By_gtt_cancel \<Rightarrow> cancel_gtt_row
   | By_expiry \<Rightarrow> expire_gtt_row)"

text \<open>A cancel is the owner's, the other two are the engine's.\<close>

definition resolve_claim :: "(nat \<Rightarrow> string) \<Rightarrow> nat \<Rightarrow> resolution \<Rightarrow> sandbox \<Rightarrow> bool \<times> sandbox" where
  "resolve_claim owner gid k db =
     claim_gtt (\<lambda>g. k = By_gtt_cancel \<longrightarrow> gt_user g = owner gid) (resolve_row k) gid db"

definition armed :: "nat \<Rightarrow> sandbox \<Rightarrow> bool" where
  "armed gid db \<longleftrightarrow> (\<exists>g \<in> set (gtts db). gt_gtt_id g = gid \<and> gt_status g = Active)"

definition gtts_wf :: "(nat \<Rightarrow> string) \<Rightarrow> sandbox \<Rightarrow> bool" where
  "gtts_wf owner db \<longleftrightarrow> distinct (map gt_gtt_id (gtts db)) \<and>
     (\<forall>g \<in> set (gtts db). gt_user g = owner (gt_gtt_id g))"

lemma resolve_row_keys [simp]:
  "gt_gtt_id (resolve_row k g) = gt_gtt_id g" "gt_user (resolve_row k g) = gt_user g"
  "gt_status (resolve_row k g) \<noteq> Active"
  by (cases k; simp add: resolve_row_def cancel_gtt_row_def expire_gtt_row_def)+

lemma resolve_claim_rows:
  assumes "gtts_wf owner db"
  shows "resolve_claim owner gid k db =
    (case claim_row gt_gtt_id (\<lambda>g. gt_status g = Active) (resolve_row k) gid (gtts db) of
       (won, rows) \<Rightarrow> (won, if won then db\<lparr>gtts := rows\<rparr> else db))"
proof -
  let ?P = "\<lambda>g. gt_status g = Active \<and> (k = By_gtt_cancel \<longrightarrow> gt_user g = owner gid)"
  have "filter (\<lambda>g. gt_gtt_id g = gid \<and> ?P g) (gtts db) =
      filter (\<lambda>g. gt_gtt_id g = gid \<and> gt_status g = Active) (gtts db)"
    using assms by (intro filter_cong [OF refl]) (auto simp: gtts_wf_def)
  moreover have "sql_update (\<lambda>g. gt_gtt_id g = gid \<and> ?P g) (resolve_row k) (gtts db) =
      sql_update (\<lambda>g. gt_gtt_id g = gid \<and> gt_status g = Active) (resolve_row k) (gtts db)"
    using assms unfolding sql_update_def by (intro map_cong [OF refl]) (auto simp: gtts_wf_def)
  ultimately show ?thesis
    by (simp add: resolve_claim_def claim_gtt_def claim_row_def row_count_def)
qed

interpretation resolving: conditional_claim "resolve_claim owner" armed "gtts_wf owner" for owner
proof
  fix s i k j
  assume wf: "gtts_wf owner s"
  obtain won rows where c: "claim_row gt_gtt_id (\<lambda>g. gt_status g = Active) (resolve_row k) i (gtts s) = (won, rows)"
    by fastforce
  note r = resolve_claim_rows [OF wf, of i k, unfolded c, simplified]
  have d: "distinct (map gt_gtt_id (gtts s))" using wf by (simp add: gtts_wf_def)
  show "fst (resolve_claim owner i k s) = armed i s"
    using claim_row_iff [OF d, of "\<lambda>g. gt_status g = Active" "resolve_row k" i] by (simp add: r c armed_def)
  show "\<not> armed i (snd (resolve_claim owner i k s))" if "fst (resolve_claim owner i k s)"
    using that claim_row_taken [of gt_gtt_id "resolve_row k" "\<lambda>g. gt_status g = Active" i "gtts s"]
    by (simp add: r c armed_def)
  show "snd (resolve_claim owner i k s) = s" if "\<not> fst (resolve_claim owner i k s)"
    using that by (simp add: r)
  show "armed j s" if "armed j (snd (resolve_claim owner i k s))"
    using that claim_row_others [of gt_gtt_id "resolve_row k" "\<lambda>g. gt_status g = Active" i "gtts s" j]
    by (cases won) (simp_all add: r c armed_def)
  have "map gt_gtt_id rows = map gt_gtt_id (gtts s)"
    using claim_row_keys [of gt_gtt_id "resolve_row k" "\<lambda>g. gt_status g = Active" i "gtts s"] c by simp
  moreover have "\<forall>g \<in> set rows. gt_user g = owner (gt_gtt_id g)"
    using wf claim_row_set [of _ gt_gtt_id "\<lambda>g. gt_status g = Active" "resolve_row k" i "gtts s"] c
    by (fastforce simp: gtts_wf_def)
  ultimately show "gtts_wf owner (snd (resolve_claim owner i k s))"
    using wf by (simp add: r gtts_wf_def)
qed

text \<open>What else may happen to GTTs between two claims.\<close>

datatype gtt_race =
    Resolve nat resolution
  | Reprice ext string sandbox_gtt "sandbox_gtt_leg list" gtt_form "leg_spec list" "rat list"
  | Leg_claim ext nat
  | Leg_revert nat
  | Order_request ext string order_form "quote option"

primrec gtt_racing :: "gtt_race \<Rightarrow> nat \<times> resolution + (sandbox \<Rightarrow> sandbox)" where
  "gtt_racing (Resolve gid k) = Inl (gid, k)"
| "gtt_racing (Reprice X uid g rows f legs margins) = Inr (\<lambda>db. snd (reprice_gtt X uid g rows f legs margins db))"
| "gtt_racing (Leg_claim X lid) = Inr (\<lambda>db. snd (try_claim_trigger X lid db))"
| "gtt_racing (Leg_revert lid) = Inr (revert_claim lid)"
| "gtt_racing (Order_request X uid f q) =
     Inr (\<lambda>db. if x_db_error X then db else snd (place_order X uid f q db))"

lemma rewrite_legs_gtts [simp]: "gtts (rewrite_legs rows act lms db) = gtts db"
  by (induction rows arbitrary: lms db) (auto split: list.splits)

lemma reprice_gtts:
  "\<exists>P k. (\<forall>g. gt_gtt_id (k g) = gt_gtt_id g \<and> gt_user (k g) = gt_user g \<and> gt_status (k g) = gt_status g) \<and>
     gtts (snd (reprice_gtt X uid g rows f legs margins db)) = sql_update P k (gtts db)"
proof -
  define nb where "nb = blocked_margin db (gt_trigger_type g = Two_leg) margins"
  let ?k = "\<lambda>x. x\<lparr>gt_margin_blocked := nb\<rparr>"
  let ?Q = "\<lambda>x. gt_gtt_id x = gt_gtt_id g \<and> gt_status x = Active \<and> gt_user x = uid"
  obtain claimed db1 where c: "claim_gtt (\<lambda>x. gt_user x = uid) ?k (gt_gtt_id g) db = (claimed, db1)" by fastforce
  obtain staged msg db2 where s: "stage_margin_delta X uid (nb - gt_margin_blocked g) db1 = ((staged, msg), db2)"
    by (metis prod.collapse)
  have g1: "gtts db1 = sql_update ?Q ?k (gtts db) \<or> gtts db1 = gtts db"
    using c by (auto simp: claim_gtt_def claim_row_def split: if_splits)
  have g2: "gtts db2 = gtts db1" using stage_view [OF s] by (simp add: gtt_view_def)
  have "gtts (snd (reprice_gtt X uid g rows f legs margins db)) \<in> {gtts db, gtts db1}"
    using g2 by (auto simp: reprice_gtt_def Let_def nb_def [symmetric] c s rolled_back_def split: option.splits)
  moreover have "gtts db = sql_update (\<lambda>x. False) ?k (gtts db)" by (simp add: sql_update_def)
  ultimately show ?thesis
    using g1 by (intro exI [of _ "if gtts (snd (reprice_gtt X uid g rows f legs margins db)) = gtts db
        then (\<lambda>x. False) else ?Q"] exI [of _ ?k]) auto
qed

lemma try_claim_gtts [simp]: "gtts (snd (try_claim_trigger X lid db)) = gtts db"
  by (simp add: try_claim_trigger_def split: prod.splits)

lemma revert_claim_gtts [simp]: "gtts (revert_claim lid db) = gtts db"
  by (simp add: revert_claim_def)

lemma place_order_gtts: "\<not> x_db_error X \<Longrightarrow> gtts (snd (place_order X uid f q db)) = gtts db"
proof -
  assume e: "\<not> x_db_error X"
  obtain resp d where p: "place_order X uid f q db = (resp, d)" by fastforce
  show ?thesis
  proof (cases resp)
    case (Order_ok n)
    with place_order_gtt_view [OF p e] p show ?thesis by (simp add: gtt_view_def)
  qed (use place_order_gtt_view [OF p e] p in \<open>simp_all add: gtt_view_def\<close>)
qed

lemma gtt_race_keeps: "keeps_taken armed (gtts_wf owner) i (map gtt_racing sts)"
proof -
  have keep: "gtts_wf owner d \<and> (\<not> armed i s \<longrightarrow> \<not> armed i d)"
    if "gtts_wf owner s" "gtts d = sql_update P k (gtts s)"
      "\<forall>g. gt_gtt_id (k g) = gt_gtt_id g \<and> gt_user (k g) = gt_user g \<and> gt_status (k g) = gt_status g"
    for s d P k
    using that map_key_sql_update [of P gt_gtt_id k "gtts s"]
    by (auto simp: gtts_wf_def armed_def set_sql_update)
  have same: "gtts_wf owner d \<and> (\<not> armed i s \<longrightarrow> \<not> armed i d)" if "gtts_wf owner s" "gtts d = gtts s" for s d
    using that by (simp add: gtts_wf_def armed_def)
  have "gtts_wf owner (f s) \<and> (\<not> armed i s \<longrightarrow> \<not> armed i (f s))"
    if st: "gtt_racing st = Inr f" and wf: "gtts_wf owner s" for st f s
  proof (cases st)
    case (Reprice X uid g rows fm legs margins)
    with st have f: "f s = snd (reprice_gtt X uid g rows fm legs margins s)" by auto
    obtain P k where "\<forall>g. gt_gtt_id (k g) = gt_gtt_id g \<and> gt_user (k g) = gt_user g \<and> gt_status (k g) = gt_status g"
      "gtts (f s) = sql_update P k (gtts s)"
      unfolding f using reprice_gtts by blast
    with keep wf show ?thesis by blast
  next
    case (Order_request X uid fm q)
    with st have "f s = (if x_db_error X then s else snd (place_order X uid fm q s))" by auto
    then have "gtts (f s) = gtts s" using place_order_gtts by simp
    with same wf show ?thesis by blast
  next
    case (Leg_claim X lid)
    with st have "gtts (f s) = gtts s" by auto
    with same wf show ?thesis by blast
  next
    case (Leg_revert lid)
    with st have "gtts (f s) = gtts s" by auto
    with same wf show ?thesis by blast
  qed (use st in simp)
  then show ?thesis by (auto simp: keeps_taken_def)
qed

text \<open>In every interleaving of a fire, the owner's cancel and the expiry of a GTT with modifications,
  leg claims, reverted claims and orders of other parties, exactly one of them resolves an
  active GTT, whichever claims first, and none resolves a GTT that is not active.\<close>

theorem gtt_resolves_at_most_once:
  assumes "gtts_wf owner db"
  shows "claim_wins (resolve_claim owner) i (map gtt_racing sts) db \<le> 1 \<and>
         (\<not> armed i db \<longrightarrow> claim_wins (resolve_claim owner) i (map gtt_racing sts) db = 0) \<and>
         (armed i db \<longrightarrow> claim_wins (resolve_claim owner) i (Inl (i, k) # map gtt_racing sts) db = 1)"
  using resolving.at_most_one_win [OF assms gtt_race_keeps] resolving.no_win_when_taken [OF assms gtt_race_keeps]
    resolving.first_claim_wins [OF assms _ gtt_race_keeps]
  by blast

theorem gtt_resolves_at_most_once_witness:
  "claim_wins (resolve_claim (\<lambda>n. ''u'')) 7
     (Inl (7, By_fire) # map gtt_racing [Leg_claim sample_ext 2, Resolve 7 By_gtt_cancel, Resolve 7 By_expiry]) oco_db = 1"
proof -
  have "gtts_wf (\<lambda>n. ''u'') oco_db" "armed 7 oco_db"
    by (simp_all add: gtts_wf_def armed_def oco_db_def oco_gtt_def)
  with gtt_resolves_at_most_once [of "\<lambda>n. ''u''" oco_db 7
      "[Leg_claim sample_ext 2, Resolve 7 By_gtt_cancel, Resolve 7 By_expiry]" By_fire]
  show ?thesis by blast
qed

subsection \<open>Placing\<close>

lemma leg_margins_length: "leg_margins db s e pr lp legs = Inr ms \<Longrightarrow> length ms = length legs"
  by (induction legs arbitrary: ms) (auto split: sum.splits)

lemma new_legs_columns:
  "map (\<lambda>l. (lg_trigger_price l, lg_direction l)) (new_legs gid pr act lid n lms) =
     map (\<lambda>lm. (ls_trigger_price (fst lm), ls_direction (fst lm))) lms"
  "map lg_leg_margin (new_legs gid pr act lid n lms) = map snd lms"
  "length (new_legs gid pr act lid n lms) = length lms"
  by (induction lms arbitrary: lid n) (simp_all add: new_leg_def)

text \<open>The trigger and side each leg gets: a stop fires on a fall, a target on a rise.\<close>

definition leg_sides :: "gtt_form \<Rightarrow> (rat \<times> direction) list" where
  "leg_sides f =
     (if str_upper (gf_trigger_type f) = ''OCO'' then [(gf_triggerprice_sl f, Below), (gf_triggerprice_tg f, Above)]
      else if gf_triggerprice_sl f > 0 then [(gf_triggerprice_sl f, Below)]
      else [(gf_triggerprice_tg f, Above)])"

lemma build_legs_sides:
  "build_legs f \<noteq> [] \<Longrightarrow> map (\<lambda>l. (ls_trigger_price l, ls_direction l)) (build_legs f) = leg_sides f \<and>
     (\<forall>l \<in> set (build_legs f). 0 < ls_trigger_price l)"
  by (auto simp: build_legs_def leg_sides_def Let_def split: if_splits)

text \<open>Margin moved from the available balance to the reserved margin, back when negative.\<close>

definition moved :: "rat \<Rightarrow> money \<Rightarrow> money" where
  "moved d m = m\<lparr>available_balance := available_balance m - d, used_margin := used_margin m + d\<rparr>"

lemma moved_simps [simp]:
  "moved 0 m = m" "moved a (moved b m) = moved (a + b) m"
  "available_balance (moved d m) = available_balance m - d" "used_margin (moved d m) = used_margin m + d"
  by (simp_all add: moved_def algebra_simps)

lemma stored_money_cong: "funds_rows db' = funds_rows db \<Longrightarrow> stored_money u db' = stored_money u db"
  by (simp add: stored_money_def funds_of_def)

lemma stage_ok_money:
  assumes "funds_ready uid db" "stage_margin_delta X uid d db = ((True, msg), db')"
  shows "stored_money uid db' = moved d (stored_money uid db)" "funds_ready uid db'"
  using assms by (auto simp: stage_margin_delta_row stored_money_set_money moved_def Let_def split: if_splits)

text \<open>What a placed GTT consists of.\<close>

definition gtt_of_form :: "sandbox \<Rightarrow> gtt_form \<Rightarrow> sandbox_gtt \<Rightarrow> sandbox_gtt_leg list \<Rightarrow> bool" where
  "gtt_of_form db f g new \<longleftrightarrow>
     gt_status g = Active \<and> (gt_trigger_type g = Two_leg) = (length new = 2) \<and>
     map (\<lambda>l. (lg_trigger_price l, lg_direction l)) new = leg_sides f \<and>
     (\<forall>l \<in> set new. lg_gtt_id l = gt_gtt_id g \<and> lg_status l = Pending \<and> 0 < lg_trigger_price l) \<and>
     gt_margin_blocked g =
       (if length new = 2 \<and> oco_reserves_max db then Max (set (map lg_leg_margin new))
        else sum_list (map lg_leg_margin new))"

lemma place_gtt_effect:
  assumes "place_gtt X uid f last_price db = (Gtt_ok gid, db')" "funds_ready uid db"
  shows "\<exists>g new. gtts db' = gtts db @ [g] \<and> gtt_legs db' = gtt_legs db @ new \<and> gt_gtt_id g = gid \<and>
    gid \<notin> gt_gtt_id ` set (gtts db) \<and> gt_user g = uid \<and> gtt_of_form db f g new \<and> funds_ready uid db' \<and>
    stored_money uid db' = moved (gt_margin_blocked g) (stored_money uid db)"
proof -
  let ?legs = "build_legs f" and ?pr = "case gf_product f of Some p \<Rightarrow> p | None \<Rightarrow> NRML"
  have legs: "?legs \<noteq> []" using assms(1) by (auto simp: place_gtt_def)
  obtain margins where m: "leg_margins db (gf_symbol f) (gf_exchange f) ?pr last_price ?legs = Inr margins"
    using assms(1) legs by (auto simp: place_gtt_def Let_def split: sum.splits)
  define b where "b = blocked_margin db (length ?legs = 2) margins"
  obtain ok msg db1 where s: "stage_margin_delta X uid b db = ((ok, msg), db1)" by (metis prod.collapse)
  have ok: "ok" using assms(1) legs m s by (auto simp: place_gtt_def Let_def b_def split: if_splits)
  obtain db2 where i: "insert_gtt X uid f last_price ?legs margins b db1 = Some (gid, db2)"
    and db': "db' = notify_gtt_placed X gid db2"
    using assms(1) legs m s ok by (auto simp: place_gtt_def Let_def b_def split: option.splits)
  obtain act pr where ap: "parse_action (gf_action f) = Some act" "gf_product f = Some pr"
    using i by (auto simp: insert_gtt_def split: option.splits)
  have v: "gtts db1 = gtts db" "gtt_legs db1 = gtt_legs db" using stage_view [OF s] by (simp_all add: gtt_view_def)
  let ?g = "new_gtt X uid f gid (length ?legs = 2) last_price b"
  let ?N = "new_legs gid pr act (next_id lg_id (gtt_legs db)) 1 (zip ?legs margins)"
  have ins: "gid \<notin> gt_gtt_id ` set (gtts db)" "gtts db' = gtts db @ [?g]" "gtt_legs db' = gtt_legs db @ ?N"
    "funds_rows db' = funds_rows db1"
    using i v by (auto simp: insert_gtt_def Let_def ap db' notify_gtt_placed_def split: if_splits)
  have len: "length margins = length ?legs" using leg_margins_length [OF m] .
  have cols: "map (\<lambda>l. (lg_trigger_price l, lg_direction l)) ?N = leg_sides f" "map lg_leg_margin ?N = margins"
    "length ?N = length ?legs"
  proof -
    have "map (\<lambda>lm. (ls_trigger_price (fst lm), ls_direction (fst lm))) (zip ?legs margins) =
        map (\<lambda>l. (ls_trigger_price l, ls_direction l)) (map fst (zip ?legs margins))" by simp
    then show "map (\<lambda>l. (lg_trigger_price l, lg_direction l)) ?N = leg_sides f"
      using build_legs_sides [OF legs] len by (simp add: new_legs_columns)
  qed (simp_all add: new_legs_columns len)
  have pos: "0 < lg_trigger_price l" if "l \<in> set ?N" for l
  proof -
    have "(lg_trigger_price l, lg_direction l) \<in> set (leg_sides f)" using that cols(1) by (metis (no_types, lifting) image_eqI list.set_map)
    moreover have "\<forall>x \<in> set (leg_sides f). 0 < fst x"
      using build_legs_sides [OF legs] by (metis (no_types, lifting) fst_conv imageE list.set_map)
    ultimately show ?thesis by force
  qed
  have money: "stored_money uid db' = moved b (stored_money uid db)"
    "funds_ready uid db'"
    using stage_ok_money [OF assms(2), of X b msg db1] s ok ins(4) stored_money_cong [OF ins(4)] funds_ready_cong [OF ins(4)]
    by simp_all
  have "gtt_of_form db f ?g ?N"
    using cols pos new_legs_facts [of gid pr act "next_id lg_id (gtt_legs db)" 1 "zip ?legs margins"]
    by (simp add: gtt_of_form_def new_gtt_def b_def blocked_margin_def)
  with ins money show ?thesis
    by (intro exI [of _ ?g] exI [of _ ?N]) (simp add: new_gtt_def)
qed

text \<open>A placed GTT is exactly what was asked for: one active row with a fresh id, one pending leg, or
  for an OCO two, the stop below firing on a fall and the target above on a rise; and the
  account reserves exactly the margin the row records, which is the larger leg or the sum of
  the legs, as configured.\<close>

theorem gtt_placement_reserves_its_margin:
  assumes "funds_ready uid db" and "place_gtt X uid f last_price db = (Gtt_ok gid, db')"
  shows "\<exists>g new. gtts db' = gtts db @ [g] \<and> gtt_legs db' = gtt_legs db @ new \<and> gt_gtt_id g = gid \<and>
    gid \<notin> gt_gtt_id ` set (gtts db) \<and> gtt_of_form db f g new \<and>
    stored_money uid db' = moved (gt_margin_blocked g) (stored_money uid db)"
  using place_gtt_effect [OF assms(2,1)] by blast

theorem gtt_placement_reserves_its_margin_witness:
  "\<exists>g new. gtts oco_db = [g] \<and> gtt_legs oco_db = new \<and> gt_gtt_id g = 7 \<and> gtt_of_form sample_db sample_oco g new"
proof -
  have "gtts sample_db = []" "gtt_legs sample_db = []" by (simp_all add: sample_db_def)
  with gtt_placement_reserves_its_margin [OF sample_ready sample_oco_placed] show ?thesis by auto
qed

subsection \<open>Cancelling\<close>

lemma claim_gtt_win:
  assumes "distinct (map gt_gtt_id (gtts db))" "row \<in> set (gtts db)" "gt_status row = Active" "P row"
  shows "claim_gtt P k (gt_gtt_id row) db =
    (True, db\<lparr>gtts := sql_update (\<lambda>g. gt_gtt_id g = gt_gtt_id row \<and> gt_status g = Active \<and> P g) k (gtts db)\<rparr>)"
proof -
  let ?Q = "\<lambda>g. gt_gtt_id g = gt_gtt_id row \<and> gt_status g = Active \<and> P g"
  have "row_count ?Q (gtts db) = 1"
    using row_count_eq_1_iff [of gt_gtt_id "gtts db" ?Q "gt_gtt_id row"] assms by auto
  then show ?thesis by (simp add: claim_gtt_def claim_row_def)
qed

text \<open>The state after a cancel's or an expiry's row changes, before the money moves.\<close>

definition gtt_closed ::
    "(sandbox_gtt \<Rightarrow> bool) \<Rightarrow> (sandbox_gtt \<Rightarrow> sandbox_gtt) \<Rightarrow> leg_status set \<Rightarrow> nat \<Rightarrow> sandbox \<Rightarrow> sandbox" where
  "gtt_closed P k S gid db =
     set_legs (\<lambda>l. lg_gtt_id l = gid \<and> lg_status l \<in> S) cancel_leg
       (db\<lparr>gtts := sql_update (\<lambda>g. gt_gtt_id g = gid \<and> gt_status g = Active \<and> P g) k (gtts db)\<rparr>)"

lemma gtt_closed_funds [simp]: "funds_rows (gtt_closed P k S gid db) = funds_rows db"
  by (simp add: gtt_closed_def)

lemma get_active_gtt_SomeD:
  "get_active_gtt X uid gid db = Some g \<Longrightarrow> \<exists>row \<in> set (gtts db). g = read_gtt X row \<and> gt_gtt_id row = gid \<and>
     gt_user row = uid \<and> gt_status row = Active"
  by (auto simp: get_active_gtt_def dest: find_SomeD)

lemma funds_of_ready: "funds_ready uid db \<Longrightarrow> funds_of uid db \<noteq> None"
  by (auto simp: funds_ready_def)

lemma cancel_gtt_effect:
  assumes "funds_ready uid db" "distinct (map gt_gtt_id (gtts db))" "get_active_gtt X uid gid db = Some g"
  shows "cancel_gtt X uid gid db =
    (let a = gt_margin_blocked g; m = stored_money uid db;
         d = gtt_closed (\<lambda>x. gt_user x = uid) cancel_gtt_row {Pending, Triggering} gid db in
     if a \<le> 0 then (Gtt_ok gid, d)
     else if a \<le> used_margin m then
(Gtt_ok gid, set_money uid (moved (- a) m) d)
     else (Gtt_error 500 (Gtt_funds (Cannot_release_reserved a)), db))"
proof -
  obtain row where row: "row \<in> set (gtts db)" "g = read_gtt X row" "gt_gtt_id row = gid" "gt_user row = uid"
    "gt_status row = Active" using get_active_gtt_SomeD [OF assms(3)] by blast
  let ?d = "gtt_closed (\<lambda>x. gt_user x = uid) cancel_gtt_row {Pending, Triggering} gid db"
  have claim: "claim_gtt (\<lambda>x. gt_user x = uid) cancel_gtt_row gid db =
      (True, db\<lparr>gtts := sql_update (\<lambda>g. gt_gtt_id g = gid \<and> gt_status g = Active \<and> gt_user g = uid) cancel_gtt_row (gtts db)\<rparr>)"
    using claim_gtt_win [OF assms(2) row(1,5), of "\<lambda>x. gt_user x = uid" cancel_gtt_row] row(3,4) by simp
  have ready: "funds_ready uid ?d" using funds_ready_cong [OF gtt_closed_funds] assms(1) by metis
  have money: "stored_money uid ?d = stored_money uid db" by (rule stored_money_cong) simp
  have gid: "gt_gtt_id g = gid" using row by simp
  show ?thesis
    unfolding cancel_gtt_def assms(3) option.case cancel_gtt_from_def Let_def gid claim prod.case
      gtt_closed_def [symmetric] if_not_P if_False not_True_eq_False
    using funds_of_ready [OF ready]
    by (auto simp: stage_margin_delta_row [OF ready] money rolled_back_def moved_def Let_def)
qed

lemma gtt_cancel_effect_read:
  assumes "funds_ready uid db" and "distinct (map gt_gtt_id (gtts db))"
    and "get_active_gtt X uid gid db = Some g" and "0 < gt_margin_blocked g"
    and "cancel_gtt X uid gid db = (resp, db')"
  shows "if gt_margin_blocked g \<le> used_margin (stored_money uid db)
    then resp = Gtt_ok gid \<and>
      stored_money uid db' = moved (- gt_margin_blocked g) (stored_money uid db) \<and>
      (\<forall>x \<in> set (gtts db'). gt_gtt_id x = gid \<longrightarrow> gt_status x = Gtt_cancelled \<and> gt_margin_blocked x = 0) \<and>
      (\<forall>l \<in> set (gtt_legs db'). lg_gtt_id l = gid \<longrightarrow> lg_status l \<in> {Leg_triggered, Leg_cancelled})
    else (\<exists>e. resp = Gtt_error 500 e) \<and> db' = db"
proof (cases "gt_margin_blocked g \<le> used_margin (stored_money uid db)")
  case True
  let ?a = "gt_margin_blocked g" and ?m = "stored_money uid db"
  let ?d = "gtt_closed (\<lambda>x. gt_user x = uid) cancel_gtt_row {Pending, Triggering} gid db"
  have r: "resp = Gtt_ok gid" "db' = set_money uid (moved (- ?a) ?m) ?d"
    using assms(4,5) True cancel_gtt_effect [OF assms(1-3)] by (simp_all add: Let_def)
  obtain row where row: "row \<in> set (gtts db)" "gt_gtt_id row = gid" "gt_user row = uid" "gt_status row = Active"
    using get_active_gtt_SomeD [OF assms(3)] by blast
  have uniq: "x = row" if "x \<in> set (gtts db)" "gt_gtt_id x = gid" for x
    using assms(2) that row(1,2) by (auto simp: distinct_map inj_on_def)
  have g: "gt_status x = Gtt_cancelled \<and> gt_margin_blocked x = 0" if x: "x \<in> set (gtts db')" "gt_gtt_id x = gid" for x
  proof -
    let ?Q = "\<lambda>g. gt_gtt_id g = gid \<and> gt_status g = Active \<and> gt_user g = uid"
    have "x \<in> set (sql_update ?Q cancel_gtt_row (gtts db))" using x(1) by (simp add: r gtt_closed_def)
    from sql_update_member [OF this] obtain y where y: "y \<in> set (gtts db)" "x = (if ?Q y then cancel_gtt_row y else y)"
      by blast
    have "gt_gtt_id y = gid" using y(2) x(2) by (auto simp: cancel_gtt_row_def split: if_splits)
    then have "y = row" by (rule uniq [OF y(1)])
    with row y(2) show ?thesis by (simp add: cancel_gtt_row_def)
  qed
  have l: "lg_status x \<in> {Leg_triggered, Leg_cancelled}" if x: "x \<in> set (gtt_legs db')" "lg_gtt_id x = gid" for x
  proof -
    let ?Q = "\<lambda>l. lg_gtt_id l = gid \<and> lg_status l \<in> {Pending, Triggering}"
    have "x \<in> set (sql_update ?Q cancel_leg (gtt_legs db))" using x(1) by (simp add: r gtt_closed_def)
    from sql_update_member [OF this] obtain y where y: "x = (if ?Q y then cancel_leg y else y)" by blast
    show ?thesis
    proof (cases "?Q y")
      case True
      with y have "x = cancel_leg y" by presburger
      then show ?thesis by (simp add: cancel_leg_def)
    next
      case False
      with y have "x = y" by presburger
      with False x(2) show ?thesis by (cases "lg_status y") simp_all
    qed
  qed
  have "stored_money uid ?d = ?m" by (rule stored_money_cong) simp
  moreover have "funds_ready uid ?d" using funds_ready_cong [OF gtt_closed_funds] assms(1) by metis
  ultimately have "stored_money uid db' = moved (- ?a) ?m" by (simp add: r stored_money_set_money)
  with True r(1) g l show ?thesis by simp
next
  case False
  with assms(4,5) cancel_gtt_effect [OF assms(1-3)] show ?thesis by (auto simp: Let_def)
qed

text \<open>Cancelling an active GTT closes it and every leg that has not fired and gives back exactly the
  margin it reserved, in one step; when the account does not hold that much reserved margin the
  cancel is refused with 500 and nothing at all changes.\<close>

theorem gtt_cancel_returns_the_reservation:
  assumes "funds_ready uid db" and "distinct (map gt_gtt_id (gtts db))"
    and "get_active_gtt X uid gid db = Some g" and "0 < gt_margin_blocked g"
    and "cancel_gtt X uid gid db = (resp, db')"
  shows "if gt_margin_blocked g \<le> used_margin (stored_money uid db)
    then resp = Gtt_ok gid \<and>
      stored_money uid db' = moved (- gt_margin_blocked g) (stored_money uid db) \<and>
      (\<forall>x \<in> set (gtts db'). gt_gtt_id x = gid \<longrightarrow> gt_status x = Gtt_cancelled \<and> gt_margin_blocked x = 0) \<and>
      (\<forall>l \<in> set (gtt_legs db'). lg_gtt_id l = gid \<longrightarrow> lg_status l \<in> {Leg_triggered, Leg_cancelled})
    else (\<exists>e. resp = Gtt_error 500 e) \<and> db' = db"
  using assms by (rule gtt_cancel_effect_read)

lemma sample_read_44: "x_read sample_ext 2 44 = 44"
  using sample_read [of "Num.num.Bit0 (Num.num.Bit0 (num.Bit1 (num.Bit1 (num.Bit0 num.One))))"] by simp

lemma oco_ready: "funds_ready ''u'' oco_db"
  by (simp add: funds_ready_def funds_wf_def funds_of_def oco_db_def sample_funds_def)

lemma oco_stored: "stored_money ''u'' oco_db = oco_money"
  by (simp add: stored_money_def funds_of_def oco_db_def sample_funds_def)

lemma oco_active: "get_active_gtt sample_ext ''u'' 7 oco_db = Some oco_gtt"
proof -
  have "read_gtt sample_ext oco_gtt = oco_gtt"
    using sample_read_44 sample_read_100 by (simp add: read_gtt_def oco_gtt_def)
  then show ?thesis by (simp add: get_active_gtt_def oco_db_def) (simp add: oco_gtt_def)
qed

lemma oco_ids: "distinct (map gt_gtt_id (gtts oco_db))" "gt_margin_blocked oco_gtt = 44"
  by (simp_all add: oco_db_def oco_gtt_def)

theorem gtt_cancel_returns_the_reservation_witness:
  "\<exists>db'. cancel_gtt sample_ext ''u'' 7 oco_db = (Gtt_ok 7, db') \<and> stored_money ''u'' db' = sample_money"
proof -
  obtain resp db' where c: "cancel_gtt sample_ext ''u'' 7 oco_db = (resp, db')" by fastforce
  from gtt_cancel_returns_the_reservation [OF oco_ready oco_ids(1) oco_active _ c] c show ?thesis
    by (simp add: oco_ids(2) oco_stored oco_money_def sample_money_def moved_def)
qed

text \<open>Placing a GTT and cancelling it leaves the account's money exactly as it was, and nothing of
  the GTT can fire any more.\<close>

theorem gtt_place_then_cancel_restores:
  assumes cols: "decimal_columns (x_read X)" and ready: "funds_ready uid db"
    and ids: "distinct (map gt_gtt_id (gtts db))" and used: "0 \<le> used_margin (stored_money uid db)"
    and placed: "place_gtt X uid f last_price db = (Gtt_ok gid, db1)"
    and grid: "\<And>g. g \<in> set (gtts db1) \<Longrightarrow> gt_gtt_id g = gid \<Longrightarrow> 0 < gt_margin_blocked g \<and> on_grid 2 (gt_margin_blocked g)"
  shows "\<exists>db2. cancel_gtt X uid gid db1 = (Gtt_ok gid, db2) \<and> stored_money uid db2 = stored_money uid db \<and>
    (\<forall>l \<in> set (gtt_legs db2). lg_gtt_id l = gid \<longrightarrow> lg_status l \<in> {Leg_triggered, Leg_cancelled})"
proof -
  obtain g new where g: "gtts db1 = gtts db @ [g]" "gt_gtt_id g = gid" "gid \<notin> gt_gtt_id ` set (gtts db)"
    "gt_user g = uid" "gtt_of_form db f g new" "funds_ready uid db1"
    "stored_money uid db1 = moved (gt_margin_blocked g) (stored_money uid db)"
    using place_gtt_effect [OF placed ready] by blast
  have ids1: "distinct (map gt_gtt_id (gtts db1))" using ids g(1-3) by simp
  have m: "0 < gt_margin_blocked g" "x_read X 2 (gt_margin_blocked g) = gt_margin_blocked g"
    using grid [of g] g(1,2) decimal_columns.rd_id [OF cols] by auto
  have "gt_status g = Active" using g(5) by (simp add: gtt_of_form_def)
  moreover have "find (\<lambda>x. gt_gtt_id x = gid \<and> gt_user x = uid \<and> gt_status x = Active) (gtts db) = None"
    using g(3) by (auto simp: find_None_iff image_iff)
  ultimately have act: "get_active_gtt X uid gid db1 = Some (read_gtt X g)"
    using g(2,4) by (simp add: get_active_gtt_def g(1) find_append)
  obtain resp db2 where c: "cancel_gtt X uid gid db1 = (resp, db2)" by fastforce
  from gtt_cancel_effect_read [OF g(6) ids1 act _ c] m g(7) used show ?thesis by (simp add: c)
qed

theorem gtt_place_then_cancel_restores_witness:
  "\<exists>db2. cancel_gtt sample_ext ''u'' 7 oco_db = (Gtt_ok 7, db2) \<and> stored_money ''u'' db2 = sample_money"
proof -
  have "0 < gt_margin_blocked g \<and> on_grid 2 (gt_margin_blocked g)" if "g \<in> set (gtts oco_db)" for g
    using that by (simp add: oco_db_def oco_gtt_def)
  moreover have "0 \<le> used_margin sample_money" "distinct (map gt_gtt_id (gtts sample_db))"
    by (simp_all add: sample_money_def sample_db_def)
  ultimately show ?thesis
    using gtt_place_then_cancel_restores [OF sample_columns sample_ready _ _ sample_oco_placed]
    by (auto simp: sample_stored)
qed

end
