(* ===== verification/GttFire.thy ===== *)
theory GttFire
  imports GttLaws
begin

text \<open>
  Firing seen from outside: a fire whose order is refused leaves the GTT, its reservation and
  the account as they were; a fire that succeeds leaves one order, a finished GTT and no leg
  that can fire; expiry and modification move exactly the reservation; recovery re-arms a GTT
  with the margin of its largest leg, also one whose fire is still running.
\<close>

subsection \<open>One row of a table\<close>

lemma split_unique:
  assumes "distinct (map key G)" "row \<in> set G"
  obtains A B where "G = A @ row # B" "\<And>x. x \<in> set A \<union> set B \<Longrightarrow> key x \<noteq> key row"
proof -
  obtain A B where G: "G = A @ row # B" using assms(2) by (auto simp: in_set_conv_decomp)
  moreover have "key x \<noteq> key row" if "x \<in> set A \<union> set B" for x using assms(1) that by (auto simp: G) (metis imageI)+
  ultimately show ?thesis by (rule that)
qed

lemma sql_update_split:
  assumes "\<And>x. x \<in> set A \<union> set B \<Longrightarrow> \<not> P x"
  shows "sql_update P k (A @ r # B) = A @ (if P r then k r else r) # B"
proof -
  have "sql_update P k A = A" "sql_update P k B = B" using assms by (auto simp: sql_update_def intro!: map_idI)
  then show ?thesis by (simp add: sql_update_def)
qed

lemma find_split: "(\<And>x. x \<in> set A \<Longrightarrow> \<not> P x) \<Longrightarrow> P r \<Longrightarrow> find P (A @ r # B) = Some r"
  by (induction A) auto

subsection \<open>Reserving what was released\<close>

lemma block_margin_grid:
  assumes "decimal_columns (x_read X)" "funds_ready uid db" "grid_money (stored_money uid db)"
    and "0 < a" "a \<le> available_balance (stored_money uid db)"
  shows "block_margin X uid a db = ((True, Margin_blocked a), set_money uid (moved a (stored_money uid db)) db)"
proof -
  let ?m = "stored_money uid db"
  have V: "read_money X ?m = ?m" by (rule read_grid_money [OF assms(1,3)])
  have "fold col_set (changed_values ?m [(Available_balance, available_balance ?m - a), (Used_margin, used_margin ?m + a)]) ?m
      = moved a ?m"
    by (subst write_changed_same) (simp_all add: moved_def)
  then show ?thesis
    using run_funds_op_row [OF assms(2), of "Op_block a" X] assms(4,5)
    by (simp add: V block_compute_def Let_def)
qed

lemma grid_moved: "grid_money m \<Longrightarrow> on_grid 2 d \<Longrightarrow> grid_money (moved d m)"
  by (auto simp: grid_money_def moved_def on_grid_add on_grid_diff)

lemma set_money_stored:
  "funds_rows d' = funds_rows d \<Longrightarrow> funds_ready uid d \<Longrightarrow> stored_money uid (set_money uid m d') = m"
  using funds_ready_cong [of d' d uid] by (simp add: stored_money_set_money)

subsection \<open>A refused fire\<close>

text \<open>The GTT, armed, with its leg claimed; the account solvent and on the grid of its columns.\<close>

definition ready_to_fire :: "ext \<Rightarrow> sandbox_gtt \<Rightarrow> sandbox_gtt_leg \<Rightarrow> sandbox \<Rightarrow> bool" where
  "ready_to_fire X g l db \<longleftrightarrow>
     distinct (map gt_gtt_id (gtts db)) \<and> distinct (map lg_id (gtt_legs db)) \<and>
     g \<in> set (gtts db) \<and> gt_status g = Active \<and> l \<in> set (gtt_legs db) \<and> lg_status l = Triggering \<and>
     lg_gtt_id l = gt_gtt_id g \<and> funds_ready (gt_user g) db \<and>
     grid_money (stored_money (gt_user g) db) \<and> on_grid 2 (gt_margin_blocked g) \<and>
     0 < gt_margin_blocked g \<and> gt_margin_blocked g \<le> used_margin (stored_money (gt_user g) db) \<and>
     0 \<le> available_balance (stored_money (gt_user g) db)"

text \<open>What the fire hands to the order manager: the parent claimed, its reservation returned.\<close>

definition released_gtt :: "sandbox_gtt \<Rightarrow> sandbox \<Rightarrow> sandbox" where
  "released_gtt g db =
     set_money (gt_user g) (moved (- gt_margin_blocked g) (stored_money (gt_user g) db))
       (set_gtt (gt_gtt_id g) (\<lambda>x. x\<lparr>gt_status := Triggered, gt_margin_blocked := 0\<rparr>) db)"

lemma fire_reaches_order:
  assumes "ready_to_fire X g l db" "decimal_columns (x_read X)"
  defines "order \<equiv> place_leg_order X (read_gtt X (g\<lparr>gt_status := Triggered\<rparr>)) (read_leg X l)"
  shows "fire_leg X True (lg_id l) db = order (released_gtt g db)"
proof -
  note r = assms(1) [unfolded ready_to_fire_def]
  obtain A B where G: "gtts db = A @ g # B" "\<And>x. x \<in> set A \<union> set B \<Longrightarrow> gt_gtt_id x \<noteq> gt_gtt_id g"
    using split_unique [of gt_gtt_id "gtts db" g] r by blast
  obtain A' B' where L: "gtt_legs db = A' @ l # B'" "\<And>x. x \<in> set A' \<union> set B' \<Longrightarrow> lg_id x \<noteq> lg_id l"
    using split_unique [of lg_id "gtt_legs db" l] r by blast
  let ?gid = "gt_gtt_id g" and ?t = "g\<lparr>gt_status := Triggered\<rparr>" and ?m = "gt_margin_blocked g"
  define db1 where "db1 = db\<lparr>gtts := A @ ?t # B\<rparr>"
  have u: "\<And>P k x. (\<And>y. P y \<Longrightarrow> gt_gtt_id y = ?gid) \<Longrightarrow>
      sql_update P k (A @ x # B) = A @ (if P x then k x else x) # B"
    using G(2) by (intro sql_update_split) blast
  have leg: "leg_row X (lg_id l) d = Some (read_leg X l)" if "gtt_legs d = gtt_legs db" for d
    unfolding leg_row_def that L(1) using L(2) by (subst find_split) auto
  have gtt: "gtt_row X ?gid d = Some (read_gtt X x)" if "gtts d = A @ x # B" "gt_gtt_id x = ?gid" for d x
    unfolding gtt_row_def that(1) using G(2) that(2) by (subst find_split) auto
  have claim: "claim_gtt (\<lambda>g. True) (\<lambda>g. g\<lparr>gt_status := Triggered\<rparr>) ?gid db = (True, db1)"
    using claim_gtt_win [of db g "\<lambda>g. True" "\<lambda>g. g\<lparr>gt_status := Triggered\<rparr>"] r u [of "\<lambda>x. gt_gtt_id x = ?gid \<and> gt_status x = Active"]
    by (simp add: db1_def G(1))
  have m: "x_read X 2 ?m = ?m" using r decimal_columns.rd_id [OF assms(2)] by blast
  have funds: "funds_rows db1 = funds_rows db" by (simp add: db1_def)
  have ready: "funds_ready (gt_user g) db1" using r funds_ready_cong [OF funds] by blast
  have money: "stored_money (gt_user g) db1 = stored_money (gt_user g) db" by (rule stored_money_cong [OF funds])
  have upd: "gtts (set_gtt ?gid k db) = A @ k g # B" for k
    using u [of "\<lambda>x. gt_gtt_id x = ?gid"] by (simp add: G(1))
  have rel: "release_reservation X (read_gtt X ?t) db1 = (True, released_gtt g db)"
  proof -
    have s: "stage_margin_delta X (gt_user g) (- ?m) db1 =
        ((True, Margin_staged (- ?m)), set_money (gt_user g) (moved (- ?m) (stored_money (gt_user g) db)) db1)"
      using r by (simp add: stage_margin_delta_row [OF ready] money moved_def Let_def)
    have "set_gtt ?gid (\<lambda>x. x\<lparr>gt_margin_blocked := 0\<rparr>)
        (set_money (gt_user g) (moved (- ?m) (stored_money (gt_user g) db)) db1) = released_gtt g db"
      using u [of "\<lambda>x. gt_gtt_id x = ?gid"]
      by (simp add: released_gtt_def set_gtt_def set_money_def db1_def G(1))
    with s r m show ?thesis by (simp add: release_reservation_def)
  qed
  have "fire_leg X True (lg_id l) db = fire_claimed_leg X ?gid (lg_id l) db"
    using leg [of db] gtt [of db g] r G(1) by (simp add: fire_leg_def)
  also have "\<dots> = order (released_gtt g db)"
    using claim leg [of db1] gtt [of db1 ?t] rel by (simp add: fire_claimed_leg_def order_def db1_def)
  finally show ?thesis .
qed

lemma released_gtt_rows:
  assumes "ready_to_fire X g l db"
  shows "funds_ready (gt_user g) (released_gtt g db)"
    "stored_money (gt_user g) (released_gtt g db) = moved (- gt_margin_blocked g) (stored_money (gt_user g) db)"
    "gtt_legs (released_gtt g db) = gtt_legs db" "orders (released_gtt g db) = orders db"
    "gtts (released_gtt g db) = sql_update (\<lambda>x. gt_gtt_id x = gt_gtt_id g)
       (\<lambda>x. x\<lparr>gt_status := Triggered, gt_margin_blocked := 0\<rparr>) (gtts db)"
proof -
  let ?d = "set_gtt (gt_gtt_id g) (\<lambda>x. x\<lparr>gt_status := Triggered, gt_margin_blocked := 0\<rparr>) db"
  have "funds_ready (gt_user g) ?d"
    using assms funds_ready_cong [of ?d db "gt_user g"] by (simp add: ready_to_fire_def)
  then show "funds_ready (gt_user g) (released_gtt g db)"
    "stored_money (gt_user g) (released_gtt g db) = moved (- gt_margin_blocked g) (stored_money (gt_user g) db)"
    by (simp_all add: released_gtt_def stored_money_set_money)
qed (simp_all add: released_gtt_def)

lemma compensate_restores:
  assumes rtf: "ready_to_fire X g l db" and cols: "decimal_columns (x_read X)"
    and d: "gtts d = gtts (released_gtt g db)" "gtt_legs d = gtt_legs (released_gtt g db)"
      "funds_rows d = funds_rows (released_gtt g db)"
  shows "let d' = compensate_failed_fire X (gt_user g) (gt_gtt_id g) (lg_id l) (gt_margin_blocked g) d in
    gtts d' = gtts db \<and> gtt_legs d' = sql_update (\<lambda>x. lg_id x = lg_id l) unclaim_leg (gtt_legs db) \<and>
    stored_money (gt_user g) d' = stored_money (gt_user g) db \<and> orders d' = orders d"
proof -
  note r = rtf [unfolded ready_to_fire_def] and rel = released_gtt_rows [OF rtf]
  let ?uid = "gt_user g" and ?gid = "gt_gtt_id g" and ?m = "gt_margin_blocked g" and ?M = "stored_money (gt_user g) db"
  note funds = d(3)
  have ready: "funds_ready ?uid d" using rel(1) funds_ready_cong [OF funds] by blast
  have money: "stored_money ?uid d = moved (- ?m) ?M" using rel(2) stored_money_cong [OF funds] by simp
  have "grid_money (stored_money ?uid d)" using r grid_moved [of ?M "- ?m"] by (auto simp: money)
  then have block: "block_margin X ?uid ?m d = ((True, Margin_blocked ?m), set_money ?uid ?M d)"
    using block_margin_grid [OF cols ready] r by (simp add: money)
  obtain A B where G: "gtts db = A @ g # B" "\<And>x. x \<in> set A \<union> set B \<Longrightarrow> gt_gtt_id x \<noteq> ?gid"
    using split_unique [of gt_gtt_id "gtts db" g] r by blast
  have u: "sql_update P k (A @ x # B) = A @ (if P x then k x else x) # B"
    if "\<And>y. P y \<Longrightarrow> gt_gtt_id y = ?gid" for P k x
    using G(2) that by (intro sql_update_split) blast
  have Gd: "gtts d = A @ g\<lparr>gt_status := Triggered, gt_margin_blocked := 0\<rparr> # B"
    using u [of "\<lambda>x. gt_gtt_id x = ?gid"] by (simp add: d(1) rel(5) G(1))
  let ?d1 = "set_money ?uid ?M d"
  let ?d2 = "revert_parent ?gid (set_gtt ?gid (\<lambda>x. x\<lparr>gt_margin_blocked := ?m\<rparr>) ?d1)"
  have c: "compensate_failed_fire X ?uid ?gid (lg_id l) ?m d = revert_claim (lg_id l) ?d2"
    using r by (simp add: compensate_failed_fire_def block)
  have g: "gtts ?d2 = gtts db"
  proof -
    have "gtts (set_gtt ?gid (\<lambda>x. x\<lparr>gt_margin_blocked := ?m\<rparr>) ?d1) = A @ g\<lparr>gt_status := Triggered\<rparr> # B"
      using u [of "\<lambda>x. gt_gtt_id x = ?gid"] by (simp add: Gd)
    then show ?thesis
      using u [of "\<lambda>x. gt_gtt_id x = ?gid \<and> gt_status x = Triggered"] r by (simp add: revert_parent_def G(1))
  qed
  have legs: "gtt_legs (revert_claim (lg_id l) ?d2) = sql_update (\<lambda>x. lg_id x = lg_id l) unclaim_leg (gtt_legs db)"
  proof -
    have "x = l" if "x \<in> set (gtt_legs db)" "lg_id x = lg_id l" for x
      using r that by (auto simp: distinct_map inj_on_def)
    then have "sql_update (\<lambda>x. lg_id x = lg_id l \<and> lg_status x = Triggering) unclaim_leg (gtt_legs db)
        = sql_update (\<lambda>x. lg_id x = lg_id l) unclaim_leg (gtt_legs db)"
      unfolding sql_update_def using r by (intro map_cong [OF refl]) metis
    then show ?thesis using d(2) rel(3) by (simp add: revert_claim_def revert_parent_def)
  qed
  have f: "funds_rows (revert_claim (lg_id l) ?d2) = funds_rows ?d1" by (simp add: revert_claim_def revert_parent_def)
  have "stored_money ?uid (revert_claim (lg_id l) ?d2) = ?M"
    using stored_money_cong [OF f, of ?uid] ready by (simp add: stored_money_set_money)
  with g legs show ?thesis by (simp add: c Let_def revert_claim_def revert_parent_def)
qed

text \<open>What an order that is not accepted leaves of the order table.\<close>

definition audit_rows :: "order_response \<Rightarrow> sandbox_order list \<Rightarrow> bool" where
  "audit_rows resp rows \<longleftrightarrow>
     (case resp of
        Order_ok oid \<Rightarrow> True
      | Order_error c e \<Rightarrow> rows = []
      | Order_rejected oid reason \<Rightarrow> \<exists>r. rows = [r] \<and> od_orderid r = oid \<and> od_status r = Rejected \<and>
          od_margin_blocked r = Some 0 \<and> od_gtt_leg_id r = None)"

lemma refused_order_tables:
  assumes "place_order X uid f prefetched db = (resp, db')" "\<And>oid. resp \<noteq> Order_ok oid"
    and "funds_ready uid db" "str_upper (fm_exchange f) \<noteq> ''NCO''"
  shows "gtts db' = gtts db" "gtt_legs db' = gtt_legs db" "funds_rows db' = funds_rows db"
    "\<exists>rows. orders db' = orders db @ rows \<and> audit_rows resp rows"
proof -
  have "gtts db' = gtts db \<and> gtt_legs db' = gtt_legs db \<and> funds_rows db' = funds_rows db \<and>
      (\<exists>rows. orders db' = orders db @ rows \<and> audit_rows resp rows)"
  proof (cases resp)
    case (Order_error c e)
    with assms show ?thesis
      using place_order_untouched [of X uid f prefetched db c e db'] by (simp add: untouched_def audit_rows_def)
  next
    case (Order_rejected oid reason)
    with assms show ?thesis
      using place_order_rejected [of X uid f prefetched db oid reason db']
      by (auto simp: audit_row_only_def audit_rows_def)
  qed (use assms(2) in simp)
  then show "gtts db' = gtts db" "gtt_legs db' = gtt_legs db" "funds_rows db' = funds_rows db"
    "\<exists>rows. orders db' = orders db @ rows \<and> audit_rows resp rows" by blast+
qed

text \<open>C13: a fire that runs undisturbed, on an account whose money columns hold two decimals, whose balance
  is not negative and whose reserved margin covers the positive reservation of the GTT, and whose
  order is not accepted, whatever the answer, changes nothing that matters: the GTT is active again with the margin it had, its leg is pending and unclaimed, and the account holds
  exactly the reservation it held before the fire. An error adds no order; the rejection of a
  delivery sell adds only its rejected row, which reserves nothing and does not belong to the
  leg. The one exchange left out is NCO, where such a rejection keeps margin of its own.\<close>

theorem refused_fire_restores:
  assumes "ready_to_fire X g l db" and "decimal_columns (x_read X)"
    and "place_order X (gt_user g) (leg_order (read_gtt X g) (read_leg X l)) None (released_gtt g db) =
      (resp, db3)"
    and "\<And>oid. resp \<noteq> Order_ok oid" and "str_upper (gt_exchange g) \<noteq> ''NCO''"
    and "fire_leg X True (lg_id l) db = (fired, db')"
  shows "\<not> fired \<and> gtts db' = gtts db \<and> stored_money (gt_user g) db' = stored_money (gt_user g) db \<and>
    gtt_legs db' = sql_update (\<lambda>x. lg_id x = lg_id l) unclaim_leg (gtt_legs db) \<and>
    (\<exists>rows. orders db' = orders db @ rows \<and> audit_rows resp rows)"
proof -
  let ?t = "g\<lparr>gt_status := Triggered\<rparr>"
  have m: "x_read X 2 (gt_margin_blocked g) = gt_margin_blocked g" "0 < gt_margin_blocked g"
    using assms(1) decimal_columns.rd_id [OF assms(2)] by (simp_all add: ready_to_fire_def)
  have "leg_order (read_gtt X ?t) (read_leg X l) = leg_order (read_gtt X g) (read_leg X l)"
    by (simp add: leg_order_def)
  then have refused: "place_leg_order X (read_gtt X ?t) (read_leg X l) (released_gtt g db) =
      (False, compensate_failed_fire X (gt_user g) (gt_gtt_id g) (lg_id l) (gt_margin_blocked g) db3)"
  proof (cases resp)
    case (Order_ok oid)
    with assms(4) show ?thesis by blast
  qed (use m in \<open>simp_all add: place_leg_order_def assms(3)\<close>)
  then have f: "\<not> fired" "db' = compensate_failed_fire X (gt_user g) (gt_gtt_id g) (lg_id l) (gt_margin_blocked g) db3"
    using assms(6) fire_reaches_order [OF assms(1,2)] by simp_all
  note rel = released_gtt_rows [OF assms(1)]
  have "str_upper (fm_exchange (leg_order (read_gtt X g) (read_leg X l))) \<noteq> ''NCO''"
    using assms(5) by (simp add: leg_order_def)
  note tables = refused_order_tables [OF assms(3,4) rel(1) this]
  show ?thesis
    using compensate_restores [OF assms(1,2) tables(1-3)] f tables(4) rel(4) by (simp add: Let_def)
qed

text \<open>After the square-off time an intraday order is refused.\<close>

definition evening :: ext where
  "evening = sample_ext\<lparr>x_now := 57600000\<rparr>"

definition claimed_leg :: sandbox_gtt_leg where
  "claimed_leg = (oco_leg 1 95 Below 90 36)\<lparr>lg_status := Triggering, lg_claimed_at := Some 36000000\<rparr>"

lemma evening_columns: "decimal_columns (x_read evening)"
  using sample_columns by (simp add: evening_def)

lemma claimed_ready_to_fire: "ready_to_fire X oco_gtt claimed_leg claimed_db"
proof -
  have "funds_rows claimed_db = funds_rows oco_db" by (simp add: claimed_db_def)
  then have "funds_ready ''u'' claimed_db" "stored_money ''u'' claimed_db = oco_money"
    using oco_ready oco_stored funds_ready_cong stored_money_cong by metis+
  moreover have "gt_user oco_gtt = ''u''" "on_grid 2 (44::rat)" by (simp_all add: oco_gtt_def)
  ultimately show ?thesis
    by (simp add: ready_to_fire_def oco_ids claimed_db_rows)
      (simp add: claimed_db_def claimed_leg_def oco_leg_def oco_gtt_def grid_money_def oco_money_def sample_money_def)
qed

lemma leg_form_texts:
  "str_upper ''SELL'' = ''SELL''" "parse_price_type ''LIMIT'' = Some LIMIT" "parse_product ''MIS'' = Some MIS"
  "str_upper ''NSE'' = ''NSE''"
  by (simp_all add: str_upper_def char_upper_def parse_price_type_def parse_product_def)

definition oco_order :: order_form where
  "oco_order =
     \<lparr> fm_symbol = ''S'', fm_exchange = ''NSE'', fm_action = ''SELL'', fm_quantity = Number 2, fm_price = Number 90,
       fm_trigger_price = Number 0, fm_price_type = ''LIMIT'', fm_product = ''MIS'', fm_strategy = ''GTT'',
       fm_gtt_leg_id = Some 1 \<rparr>"

lemma claimed_leg_order: "leg_order (read_gtt evening oco_gtt) (read_leg evening claimed_leg) = oco_order"
  using sample_read [of "Num.num.Bit0 (num.Bit1 (num.Bit0 (num.Bit1 (num.Bit1 (num.Bit0 num.One)))))"]
  by (simp add: leg_order_def oco_order_def read_leg_def read_gtt_def evening_def claimed_leg_def oco_leg_def
      oco_gtt_def action_text_def price_type_text_def product_text_def)

lemma oco_order_valid: "validate_order oco_order = None"
  by (simp add: validate_order_def oco_order_def missing_field_def truthy_def sample_oco_texts leg_form_texts
      DERIVATIVE_PRODUCT_EXCHANGES_def int_of_number_def validate_prices_def validate_price_def VALID_EXCHANGES_def Let_def)

lemma oco_order_request:
  "extract_order oco_order = Some
     \<lparr> rq_symbol = ''S'', rq_exchange = ''NSE'', rq_action = SELL, rq_quantity = 2, rq_price = Some 90,
       rq_trigger_price = None, rq_price_type = LIMIT, rq_product = MIS, rq_strategy = ''GTT'', rq_gtt_leg_id = Some 1 \<rparr>"
  by (simp add: extract_order_def oco_order_def decimal_field_def truthy_def sample_oco_texts leg_form_texts
      int_of_number_def)

lemma oco_order_refused:
  assumes "symtoken db ''S'' ''NSE'' = Some \<lparr>si_lotsize = Some 1, si_contract_value = None\<rparr>" "positions db = []"
    "config db = (\<lambda>k. None)"
  shows "place_order evening ''u'' oco_order None db = (Order_error 400 Mis_after_square_off, db)"
  using assms
  by (simp add: place_order_def oco_order_valid oco_order_request place_request_def bad_lot_def LOT_SIZE_EXCHANGES_def
      mis_blocked_def square_off_time_def get_config_def sample_numerals evening_def time_of_day_def ms_per_day_def
      hhmm_def position_for_def)

theorem refused_fire_restores_witness:
  "\<exists>db'. fire_leg evening True 1 claimed_db = (False, db') \<and> gtts db' = gtts claimed_db \<and>
     stored_money ''u'' db' = oco_money \<and> orders db' = []"
proof -
  obtain fired db' where f: "fire_leg evening True (lg_id claimed_leg) claimed_db = (fired, db')" by fastforce
  have "place_order evening (gt_user oco_gtt) (leg_order (read_gtt evening oco_gtt) (read_leg evening claimed_leg)) None
      (released_gtt oco_gtt claimed_db) = (Order_error 400 Mis_after_square_off, released_gtt oco_gtt claimed_db)"
    unfolding claimed_leg_order
    using oco_order_refused [of "released_gtt oco_gtt claimed_db"]
    by (simp add: released_gtt_def claimed_db_def oco_db_def oco_gtt_def sample_db_def set_gtt_def)
  moreover have "str_upper (gt_exchange oco_gtt) \<noteq> ''NCO''"
    by (simp add: oco_gtt_def leg_form_texts)
  ultimately have "fire_leg evening True 1 claimed_db = (False, db') \<and> gtts db' = gtts claimed_db \<and> orders db' = orders claimed_db \<and>
      stored_money ''u'' db' = stored_money ''u'' claimed_db"
    using refused_fire_restores [OF claimed_ready_to_fire evening_columns _ _ _ f] f
    by (force simp: audit_rows_def claimed_leg_def oco_leg_def oco_gtt_def)
  moreover have "stored_money ''u'' claimed_db = oco_money" "orders claimed_db = []"
    using oco_stored stored_money_cong [of claimed_db oco_db "''u''"] by (simp_all add: claimed_db_def oco_db_def sample_db_def)
  ultimately show ?thesis by auto
qed

end
