(* ===== verification/GttLife.thy ===== *)
theory GttLife
  imports GttFire
begin

text \<open>
  The other ends of a GTT's life: a completed fire, expiry, modification, and recovery.
\<close>

subsection \<open>A completed fire\<close>

lemma fire_leg_True:
  assumes "fire_leg X lock_free lid db = (True, db')"
  obtains l g db1 db2 n db3 where "leg_row X lid db = Some l" "lg_status l = Triggering"
    "claim_gtt (\<lambda>g. True) (\<lambda>g. g\<lparr>gt_status := Triggered\<rparr>) (lg_gtt_id l) db = (True, db1)"
    "gtt_row X (lg_gtt_id l) db1 = Some g" "release_reservation X g db1 = (True, db2)"
    "place_order X (gt_user g) (leg_order g l) None db2 = (Order_ok n, db3)" "db' = finish_fire g lid n db3"
proof -
  from assms obtain l g0 where l: "leg_row X lid db = Some l" "gtt_row X (lg_gtt_id l) db = Some g0"
    "lg_status l = Triggering" "fire_claimed_leg X (gt_gtt_id g0) lid db = (True, db')"
    by (auto simp: fire_leg_def split: option.splits if_splits)
  have gid: "gt_gtt_id g0 = lg_gtt_id l" using gtt_row_SomeD [OF l(2)] by auto
  obtain won db1 where c: "claim_gtt (\<lambda>g. True) (\<lambda>g. g\<lparr>gt_status := Triggered\<rparr>) (lg_gtt_id l) db = (won, db1)"
    by fastforce
  have won: "won" using l(4) c by (auto simp: fire_claimed_leg_def gid split: if_splits)
  have leg: "leg_row X lid db1 = Some l" using l(1) leg_row_cong claim_gtt_frame [OF c] by metis
  obtain g where g: "gtt_row X (lg_gtt_id l) db1 = Some g"
    using l(4) c won leg by (auto simp: fire_claimed_leg_def gid split: option.splits)
  obtain ok db2 where r: "release_reservation X g db1 = (ok, db2)" by fastforce
  have ok: "ok" using l(4) c won leg g r by (auto simp: fire_claimed_leg_def gid split: bool.splits)
  have p: "place_leg_order X g l db2 = (True, db')" using l(4) c won leg g r ok by (simp add: fire_claimed_leg_def gid)
  obtain resp db3 where o: "place_order X (gt_user g) (leg_order g l) None db2 = (resp, db3)" by fastforce
  have "lg_id l = lid" using leg_row_SomeD [OF l(1)] by auto
  with p o obtain n where n: "resp = Order_ok n" "db' = finish_fire g lid n db3"
    by (cases resp) (auto simp: place_leg_order_def)
  have "claim_gtt (\<lambda>g. True) (\<lambda>g. g\<lparr>gt_status := Triggered\<rparr>) (lg_gtt_id l) db = (True, db1)"
    "release_reservation X g db1 = (True, db2)"
    "place_order X (gt_user g) (leg_order g l) None db2 = (Order_ok n, db3)"
    using c won r ok o n by simp_all
  from that [OF l(1,3) this(1) g this(2,3) n(2)] show ?thesis .
qed

text \<open>What a completed fire of leg \<open>lid\<close> of GTT \<open>gid\<close> with order \<open>n\<close> leaves.\<close>

definition fired_once :: "ext \<Rightarrow> nat \<Rightarrow> nat \<Rightarrow> orderid \<Rightarrow> sandbox \<Rightarrow> bool" where
  "fired_once X gid lid n db \<longleftrightarrow>
     (\<exists>r \<in> set (orders db). od_orderid r = n \<and> od_gtt_leg_id r = Some lid \<and> od_status r \<noteq> Rejected) \<and>
     (\<forall>l \<in> set (gtt_legs db). lg_id l = lid \<longrightarrow>
        lg_status l = Leg_triggered \<and> lg_triggered_order_id l = Some n \<and> lg_claimed_at l = None) \<and>
     (\<forall>g \<in> set (gtts db). gt_gtt_id g = gid \<longrightarrow>
        gt_status g = Triggered \<and> x_read X 2 (gt_margin_blocked g) \<le> 0 \<and>
        (gt_trigger_type g = Two_leg \<longrightarrow> (\<forall>l \<in> set (gtt_legs db). lg_gtt_id l = gid \<and> lg_id l \<noteq> lid \<longrightarrow>
           lg_status l \<in> {Leg_triggered, Leg_cancelled})))"

lemma gtt_row_unique:
  assumes "distinct (map gt_gtt_id (gtts db))" "gtt_row X gid db = Some g" "x \<in> set (gtts db)" "gt_gtt_id x = gid"
  shows "g = read_gtt X x"
proof -
  have "find (\<lambda>g. gt_gtt_id g = gid) (gtts db) = Some x"
    by (rule find_unique_key [OF assms(1,3)]) (simp add: assms(4))
  with assms(2) show ?thesis by (simp add: gtt_row_def)
qed

lemma claim_parent_rows:
  assumes "claim_gtt (\<lambda>g. True) (\<lambda>g. g\<lparr>gt_status := Triggered\<rparr>) gid db = (True, db1)"
    and "distinct (map gt_gtt_id (gtts db))"
  shows "distinct (map gt_gtt_id (gtts db1))" "\<forall>x \<in> set (gtts db1). gt_gtt_id x = gid \<longrightarrow> gt_status x = Triggered"
proof -
  let ?Q = "\<lambda>g. gt_gtt_id g = gid \<and> gt_status g = Active" and ?k = "\<lambda>g. g\<lparr>gt_status := Triggered\<rparr>"
  have db1: "gtts db1 = sql_update ?Q ?k (gtts db)" and one: "row_count ?Q (gtts db) = 1"
    using assms(1) by (auto simp: claim_gtt_def claim_row_def split: if_splits)
  show "distinct (map gt_gtt_id (gtts db1))"
    using assms(2) map_key_sql_update [of ?Q gt_gtt_id ?k "gtts db"] by (simp add: db1)
  obtain g where g: "g \<in> set (gtts db)" "?Q g" using one row_count_pos [of ?Q "gtts db"] by auto
  show "\<forall>x \<in> set (gtts db1). gt_gtt_id x = gid \<longrightarrow> gt_status x = Triggered"
  proof (intro ballI impI)
    fix x assume x: "x \<in> set (gtts db1)" "gt_gtt_id x = gid"
    from sql_update_member [OF x(1) [unfolded db1]] obtain y where y: "y \<in> set (gtts db)" "x = (if ?Q y then ?k y else y)"
      by blast
    have "gt_gtt_id y = gid" using y(2) x(2) by (auto split: if_splits)
    then have "y = g" using assms(2) y(1) g by (auto simp: distinct_map inj_on_def)
    with g(2) y(2) show "gt_status x = Triggered" by simp
  qed
qed

lemma release_reservation_rows:
  assumes "release_reservation X g db1 = (True, db2)" "decimal_columns (x_read X)"
    and "distinct (map gt_gtt_id (gtts db1))" "gtt_row X gid db1 = Some g"
    and "\<forall>x \<in> set (gtts db1). gt_gtt_id x = gid \<longrightarrow> gt_status x = Triggered"
  shows "\<forall>x \<in> set (gtts db2). gt_gtt_id x = gid \<longrightarrow>
      gt_status x = Triggered \<and> x_read X 2 (gt_margin_blocked x) \<le> 0 \<and> gt_trigger_type x = gt_trigger_type g"
proof -
  have gid: "gt_gtt_id g = gid" using gtt_row_SomeD [OF assms(4)] by auto
  have old: "gt_status x = Triggered \<and> g = read_gtt X x" if "x \<in> set (gtts db1)" "gt_gtt_id x = gid" for x
    using assms(5) gtt_row_unique [OF assms(3,4) that] that by blast
  show ?thesis
  proof (cases "gt_margin_blocked g > 0")
    case False
    then have "db2 = db1" using assms(1) by (simp add: release_reservation_def)
    with old False show ?thesis by fastforce
  next
    case True
    obtain staged msg d where s: "stage_margin_delta X (gt_user g) (- gt_margin_blocked g) db1 = ((staged, msg), d)"
      by (metis prod.collapse)
    have "gtts d = gtts db1" using stage_view [OF s] by (simp add: gtt_view_def)
    then have g2: "gtts db2 = sql_update (\<lambda>x. gt_gtt_id x = gid) (\<lambda>x. x\<lparr>gt_margin_blocked := 0\<rparr>) (gtts db1)"
      using assms(1) True s by (auto simp: release_reservation_def gid split: if_splits)
    show ?thesis
    proof (intro ballI impI)
      fix x assume x: "x \<in> set (gtts db2)" "gt_gtt_id x = gid"
      from sql_update_member [OF x(1) [unfolded g2]] obtain y where y: "y \<in> set (gtts db1)"
        "x = (if gt_gtt_id y = gid then y\<lparr>gt_margin_blocked := 0\<rparr> else y)" by blast
      have yg: "gt_gtt_id y = gid" using y(2) x(2) by (auto split: if_splits)
      have "x_read X 2 0 = 0" using decimal_columns.rd_0 [OF assms(2)] .
      with old [OF y(1) yg] y(2) yg
      show "gt_status x = Triggered \<and> x_read X 2 (gt_margin_blocked x) \<le> 0 \<and> gt_trigger_type x = gt_trigger_type g"
        by simp
    qed
  qed
qed

lemma finish_fire_legs:
  "gtt_legs (finish_fire g lid n db) =
     (let L = sql_update (\<lambda>l. lg_id l = lid) (fired_leg n) (gtt_legs db) in
      if gt_trigger_type g = Two_leg
      then sql_update (\<lambda>l. lg_gtt_id l = gt_gtt_id g \<and> lg_id l \<noteq> lid \<and> lg_status l \<in> {Pending, Triggering}) cancel_leg L
      else L)"
  by (simp add: finish_fire_def Let_def)

lemma finish_fire_fired:
  assumes "l \<in> set (gtt_legs (finish_fire g lid n db))" "lg_id l = lid"
  shows "lg_status l = Leg_triggered \<and> lg_triggered_order_id l = Some n \<and> lg_claimed_at l = None"
proof -
  let ?L = "sql_update (\<lambda>l. lg_id l = lid) (fired_leg n) (gtt_legs db)"
  let ?Q = "\<lambda>l. lg_gtt_id l = gt_gtt_id g \<and> lg_id l \<noteq> lid \<and> lg_status l \<in> {Pending, Triggering}"
  have "l \<in> set ?L"
  proof (cases "gt_trigger_type g = Two_leg")
    case True
    with assms(1) have "l \<in> set (sql_update ?Q cancel_leg ?L)" by (simp add: finish_fire_legs Let_def)
    from sql_update_member [OF this] obtain y where y: "y \<in> set ?L" "l = (if ?Q y then cancel_leg y else y)" by blast
    have "\<not> ?Q y"
    proof
      assume "?Q y"
      with y(2) have "l = cancel_leg y" by presburger
      with \<open>?Q y\<close> assms(2) show False by (simp add: cancel_leg_def)
    qed
    with y(2) have "l = y" by presburger
    with y(1) show ?thesis by simp
  qed (use assms(1) in \<open>simp add: finish_fire_legs Let_def\<close>)
  from sql_update_member [OF this] obtain y where "l = (if lg_id y = lid then fired_leg n y else y)" by blast
  with assms(2) show ?thesis by (cases "lg_id y = lid") (simp_all add: fired_leg_def)
qed

lemma finish_fire_siblings:
  assumes "l \<in> set (gtt_legs (finish_fire g lid n db))" "gt_trigger_type g = Two_leg"
    and "lg_gtt_id l = gt_gtt_id g" "lg_id l \<noteq> lid"
  shows "lg_status l \<in> {Leg_triggered, Leg_cancelled}"
proof -
  let ?Q = "\<lambda>l. lg_gtt_id l = gt_gtt_id g \<and> lg_id l \<noteq> lid \<and> lg_status l \<in> {Pending, Triggering}"
  have "l \<in> set (sql_update ?Q cancel_leg (sql_update (\<lambda>l. lg_id l = lid) (fired_leg n) (gtt_legs db)))"
    using assms(1,2) by (simp add: finish_fire_legs Let_def)
  from sql_update_member [OF this] obtain y where y: "l = (if ?Q y then cancel_leg y else y)" by blast
  show ?thesis
  proof (cases "?Q y")
    case True
    with y have "l = cancel_leg y" by presburger
    then show ?thesis by (simp add: cancel_leg_def)
  next
    case False
    with y have "l = y" by presburger
    with False assms(3,4) show ?thesis by (cases "lg_status y") simp_all
  qed
qed

text \<open>A fire that reports success has placed one order that carries the leg's id, has marked the leg with
  that order, has left the GTT triggered with nothing reserved, and has cancelled the other leg
  of an OCO, so that nothing of the GTT can fire again.\<close>

theorem completed_fire_is_final:
  assumes "fire_leg X lock_free lid db = (True, db')" and "\<not> x_db_error X" and "decimal_columns (x_read X)"
    and "distinct (map gt_gtt_id (gtts db))"
  shows "\<exists>gid n. fired_once X gid lid n db' \<and> children db' = children db @ [(Some lid, False, n)] \<and>
    (\<exists>l. leg_row X lid db = Some l \<and> lg_gtt_id l = gid)"
proof -
  from fire_leg_True [OF assms(1)] obtain l g db1 db2 n db3 where f: "leg_row X lid db = Some l" "lg_status l = Triggering"
    "claim_gtt (\<lambda>g. True) (\<lambda>g. g\<lparr>gt_status := Triggered\<rparr>) (lg_gtt_id l) db = (True, db1)"
    "gtt_row X (lg_gtt_id l) db1 = Some g" "release_reservation X g db1 = (True, db2)"
    "place_order X (gt_user g) (leg_order g l) None db2 = (Order_ok n, db3)" "db' = finish_fire g lid n db3" .
  have ids: "lg_id l = lid" "gt_gtt_id g = lg_gtt_id l" using leg_row_SomeD [OF f(1)] gtt_row_SomeD [OF f(4)] by auto
  note c = claim_parent_rows [OF f(3) assms(4)]
  note r = release_reservation_rows [OF f(5) assms(3) c(1) f(4) c(2)]
  have v: "gtt_view db3 = (gtts db2, gtt_legs db2, children db2 @ [(Some lid, False, n)])"
    using place_order_gtt_view [OF f(6) assms(2)] by (simp add: tagged_def leg_order_def ids)
  have "children db2 = children db"
    using claim_gtt_frame [OF f(3)] f(5) stage_view
    by (auto simp: release_reservation_def gtt_view_def split: if_splits prod.splits)
  with v have ch: "children db' = children db @ [(Some lid, False, n)]" and g: "gtts db' = gtts db2"
    by (simp_all add: f(7) finish_fire_def Let_def gtt_view_def)
  have "(Some lid, False, n) \<in> set (children db')" using ch by simp
  then have "\<exists>r \<in> set (orders db'). od_orderid r = n \<and> od_gtt_leg_id r = Some lid \<and> od_status r \<noteq> Rejected"
    by (auto simp: children_def child_view_def child_of_def)
  moreover have "lg_status s \<in> {Leg_triggered, Leg_cancelled}"
    if "gt_trigger_type g = Two_leg" "s \<in> set (gtt_legs db')" "lg_gtt_id s = lg_gtt_id l" "lg_id s \<noteq> lid" for s
    using finish_fire_siblings [of s g lid n db3] that ids f(7) by simp
  moreover have "\<forall>s \<in> set (gtt_legs db'). lg_id s = lid \<longrightarrow>
      lg_status s = Leg_triggered \<and> lg_triggered_order_id s = Some n \<and> lg_claimed_at s = None"
    using finish_fire_fired [of _ g lid n db3, folded f(7)] by blast
  ultimately have "fired_once X (lg_gtt_id l) lid n db'"
    unfolding fired_once_def using r unfolding g [symmetric] by metis
  with ch f(1) show ?thesis by blast
qed

lemma oco_order_accepted:
  assumes "funds_ready ''u'' db" "grid_money (stored_money ''u'' db)" "36 \<le> available_balance (stored_money ''u'' db)"
    and "symtoken db ''S'' ''NSE'' = Some \<lparr>si_lotsize = Some 1, si_contract_value = None\<rparr>"
    and "config db = (\<lambda>k. None)" "positions db = []" "orders db = []"
  shows "\<exists>n d. place_order sample_ext ''u'' oco_order None db = (Order_ok n, d)"
proof -
  define rq :: order_request where "rq =
     \<lparr> rq_symbol = ''S'', rq_exchange = ''NSE'', rq_action = SELL, rq_quantity = 2, rq_price = Some 90,
       rq_trigger_price = None, rq_price_type = LIMIT, rq_product = MIS, rq_strategy = ''GTT'', rq_gtt_leg_id = Some 1 \<rparr>"
  have rq: "extract_order oco_order = Some rq" by (simp add: oco_order_request rq_def)
  have fields: "rq_symbol rq = ''S''" "rq_exchange rq = ''NSE''" "rq_product rq = MIS" "rq_action rq = SELL"
    "rq_quantity rq = 2" "rq_gtt_leg_id rq = Some 1" by (simp_all add: rq_def)
  have hours: "\<not> mis_blocked sample_ext ''u'' rq db"
    by (simp add: mis_blocked_def fields square_off_time_def get_config_def assms(5) sample_numerals sample_ext_def
        time_of_day_def ms_per_day_def hhmm_def)
  have pricing: "price_order sample_ext ''u'' rq None db =
      Inr \<lparr>pr_margin_price = Some 90, pr_cached_quote = None, pr_trigger_met = False\<rparr>"
    by (simp add: price_order_def rq_def limit_pricing_def first_live_def live_def sample_ext_def)
  have margin: "margin_to_block ''u'' rq 90 db = Inr 36"
    by (simp add: margin_to_block_def fields calculate_margin_required_def assms(4-6) get_leverage_def config_leverage_def
        get_config_def sample_numerals position_qty_def position_for_def opposite_side_def)
  obtain f where f: "funds_of ''u'' db = Some f" using assms(1) by (auto simp: funds_ready_def)
  have "read_money sample_ext (fu_money f) = fu_money f"
    using read_grid_money [OF sample_columns assms(2)] f by (simp add: stored_money_def)
  then have check: "check_margin_available sample_ext ''u'' 36 db = ((True, Sufficient_margin), db)"
    using assms(1,3) f by (simp add: check_margin_available_def Let_def stored_money_def)
  obtain d where stage: "stage_margin_delta sample_ext ''u'' 36 db = ((True, Margin_staged 36), d)"
    using assms(3) by (simp add: stage_margin_delta_row [OF assms(1)] Let_def)
  have res: "reserve_margin sample_ext ''u'' rq 36 db = (Inr 36, d)"
    by (simp add: reserve_margin_def should_block_margin_def fields check stage)
  have "gtt_view d = gtt_view db" using stage_view [OF stage] .
  have od: "orders d = []" using beside_stage [of orders sample_ext "''u''" 36 db] stage assms(7) by simp
  obtain n d1 where g: "generate_order_id sample_ext d = (n, d1)" by fastforce
  have "orders d1 = []" using generate_order_id_tables [OF g] od by auto
  then show ?thesis
    by (simp add: place_order_def oco_order_valid rq place_request_def fields assms(4) bad_lot_def
        LOT_SIZE_EXCHANGES_def hours pricing margin res insert_order_def g cnc_sell_rejection_def Let_def)
qed

theorem completed_fire_is_final_witness:
  "\<exists>n db'. fire_leg sample_ext True 1 claimed_db = (True, db') \<and> fired_once sample_ext 7 1 n db'"
proof -
  let ?d = "released_gtt oco_gtt claimed_db" and ?t = "oco_gtt\<lparr>gt_status := Triggered\<rparr>"
  note rel = released_gtt_rows [OF claimed_ready_to_fire]
  have u: "gt_user oco_gtt = ''u''" "gt_margin_blocked oco_gtt = 44" by (simp_all add: oco_gtt_def)
  have "stored_money ''u'' claimed_db = oco_money"
    using oco_stored stored_money_cong [of claimed_db oco_db "''u''"] by (simp add: claimed_db_def)
  then have money: "stored_money ''u'' ?d = moved (- 44) oco_money" using rel(2) u by simp
  have "grid_money (moved (- 44) oco_money)" "36 \<le> available_balance (moved (- 44) oco_money)"
    by (simp_all add: grid_money_def oco_money_def sample_money_def moved_def)
  moreover have "symtoken ?d ''S'' ''NSE'' = Some \<lparr>si_lotsize = Some 1, si_contract_value = None\<rparr>"
    "config ?d = (\<lambda>k. None)" "positions ?d = []" "orders ?d = []"
    by (simp_all add: released_gtt_def set_gtt_def claimed_db_def oco_db_def sample_db_def)
  ultimately obtain n d where p: "place_order sample_ext ''u'' oco_order None ?d = (Order_ok n, d)"
    using oco_order_accepted [of ?d] rel(1) u money by auto
  have "leg_order (read_gtt sample_ext ?t) (read_leg sample_ext claimed_leg) = oco_order"
    using claimed_leg_order by (simp add: leg_order_def evening_def read_leg_def)
  then have fire: "fire_leg sample_ext True 1 claimed_db = (True, finish_fire (read_gtt sample_ext ?t) 1 n d)"
    using fire_reaches_order [OF claimed_ready_to_fire sample_columns] p u
    by (simp add: claimed_leg_def oco_leg_def place_leg_order_def)
  have leg: "leg_row sample_ext 1 claimed_db = Some l \<Longrightarrow> lg_gtt_id l = 7" for l
    by (auto simp: leg_row_def claimed_db_def oco_leg_def)
  have "\<not> x_db_error sample_ext" "distinct (map gt_gtt_id (gtts claimed_db))"
    by (simp_all add: sample_ext_def claimed_db_rows)
  from completed_fire_is_final [OF fire this(1) sample_columns this(2)]
  obtain gid m l where "fired_once sample_ext gid 1 m (finish_fire (read_gtt sample_ext ?t) 1 n d)"
    "leg_row sample_ext 1 claimed_db = Some l" "lg_gtt_id l = gid" by blast
  with leg [of l] have "fired_once sample_ext 7 1 m (finish_fire (read_gtt sample_ext ?t) 1 n d)" by metis
  with fire show ?thesis by blast
qed

subsection \<open>Expiry\<close>

text \<open>\<open>row\<close> is an active GTT past its time; the sweep's step on it.\<close>

lemma expire_gtt_effect:
  assumes "distinct (map gt_gtt_id (gtts db))" "row \<in> set (gtts db)" "gt_status row = Active"
    and "funds_ready (gt_user row) db"
  shows "expire_gtt_from X (read_gtt X row) db =
    (let a = x_read X 2 (gt_margin_blocked row); m = stored_money (gt_user row) db; gid = gt_gtt_id row;
         d = gtt_closed (\<lambda>x. True) expire_gtt_row {Pending} gid db in
     if a \<le> 0 then (True, publish (Gtt_expired_event gid) d)
     else if a \<le> used_margin m then
       (True, publish (Gtt_expired_event gid) (set_money (gt_user row) (moved (- a) m) d))
     else (False, db))"
proof -
  let ?gid = "gt_gtt_id row" and ?uid = "gt_user row"
  let ?d = "gtt_closed (\<lambda>x. True) expire_gtt_row {Pending} ?gid db"
  have claim: "claim_gtt (\<lambda>x. True) expire_gtt_row ?gid db =
      (True, db\<lparr>gtts := sql_update (\<lambda>g. gt_gtt_id g = ?gid \<and> gt_status g = Active \<and> True) expire_gtt_row (gtts db)\<rparr>)"
    using claim_gtt_win [OF assms(1-3), of "\<lambda>x. True" expire_gtt_row] by simp
  have d: "set_legs (\<lambda>l. lg_gtt_id l = ?gid \<and> lg_status l = Pending) cancel_leg
      (db\<lparr>gtts := sql_update (\<lambda>g. gt_gtt_id g = ?gid \<and> gt_status g = Active \<and> True) expire_gtt_row (gtts db)\<rparr>) = ?d"
    by (simp add: gtt_closed_def)
  have ready: "funds_ready ?uid ?d" using funds_ready_cong [OF gtt_closed_funds] assms(4) by metis
  have money: "stored_money ?uid ?d = stored_money ?uid db" by (rule stored_money_cong) simp
  show ?thesis
    unfolding expire_gtt_from_def Let_def read_gtt_keys claim prod.case d if_not_P if_False not_True_eq_False
    using funds_of_ready [OF ready]
    by (auto simp: self_release_def stage_margin_delta_row [OF ready] money rolled_back_def moved_def Let_def)
qed

text \<open>An active GTT past its time is expired in one step with the return of exactly the margin it
  reserved, its pending legs are cancelled, and no later fire can claim it; when the account
  does not hold that margin nothing changes and the next sweep tries again.\<close>

theorem gtt_expiry_returns_the_reservation:
  assumes "distinct (map gt_gtt_id (gtts db))" and "row \<in> set (gtts db)" and "gt_status row = Active"
    and "funds_ready (gt_user row) db" and "0 < x_read X 2 (gt_margin_blocked row)"
    and "expire_gtt_from X (read_gtt X row) db = (expired, db')"
  shows "if x_read X 2 (gt_margin_blocked row) \<le> used_margin (stored_money (gt_user row) db)
    then expired \<and> \<not> armed (gt_gtt_id row) db' \<and>
      stored_money (gt_user row) db' =
        moved (- x_read X 2 (gt_margin_blocked row)) (stored_money (gt_user row) db) \<and>
      (\<forall>l \<in> set (gtt_legs db'). lg_gtt_id l = gt_gtt_id row \<longrightarrow> lg_status l \<noteq> Pending)
    else \<not> expired \<and> db' = db"
proof (cases "x_read X 2 (gt_margin_blocked row) \<le> used_margin (stored_money (gt_user row) db)")
  case True
  let ?gid = "gt_gtt_id row" and ?uid = "gt_user row" and ?a = "x_read X 2 (gt_margin_blocked row)"
  let ?d = "gtt_closed (\<lambda>x. True) expire_gtt_row {Pending} ?gid db"
  have r: "expired" "db' = publish (Gtt_expired_event ?gid) (set_money ?uid (moved (- ?a) (stored_money ?uid db)) ?d)"
    using assms(5,6) True expire_gtt_effect [OF assms(1-4)] by (auto simp: Let_def)
  have armed: "\<not> armed ?gid db'"
  proof
    assume "armed ?gid db'"
    then obtain x where x: "x \<in> set (sql_update (\<lambda>g. gt_gtt_id g = ?gid \<and> gt_status g = Active \<and> True) expire_gtt_row (gtts db))"
      "gt_gtt_id x = ?gid" "gt_status x = Active"
      by (auto simp: armed_def r(2) gtt_closed_def)
    from sql_update_member [OF x(1)] obtain y where
      y: "x = (if gt_gtt_id y = ?gid \<and> gt_status y = Active \<and> True then expire_gtt_row y else y)" by blast
    have "gt_status (expire_gtt_row y) = Expired" by (simp add: expire_gtt_row_def)
    with y x(2,3) show False by (metis gtt_status.distinct(5))
  qed
  have legs: "lg_status x \<noteq> Pending" if x: "x \<in> set (gtt_legs db')" "lg_gtt_id x = ?gid" for x
  proof -
    have "x \<in> set (sql_update (\<lambda>l. lg_gtt_id l = ?gid \<and> lg_status l \<in> {Pending}) cancel_leg (gtt_legs db))"
      using x(1) by (simp add: r gtt_closed_def)
    from sql_update_member [OF this] obtain y where
      y: "x = (if lg_gtt_id y = ?gid \<and> lg_status y \<in> {Pending} then cancel_leg y else y)" by blast
    have "lg_status (cancel_leg y) = Leg_cancelled" by (simp add: cancel_leg_def)
    with y x(2) show ?thesis by (metis leg_status.distinct(5) singletonI)
  qed
  have "funds_ready ?uid ?d" "stored_money ?uid ?d = stored_money ?uid db"
    using funds_ready_cong [OF gtt_closed_funds] assms(4) stored_money_cong [OF gtt_closed_funds] by metis+
  moreover have "stored_money ?uid (publish e d) = stored_money ?uid d" for e d by (rule stored_money_cong) simp
  ultimately show ?thesis using True armed legs by (simp add: r stored_money_set_money)
next
  case False
  with assms(5,6) expire_gtt_effect [OF assms(1-4)] show ?thesis by (auto simp: Let_def)
qed

theorem gtt_expiry_returns_the_reservation_witness:
  "\<exists>db'. expire_gtt_from (sample_ext\<lparr>x_now := 40000000000\<rparr>) oco_gtt oco_db = (True, db') \<and>
     stored_money ''u'' db' = sample_money"
proof -
  let ?X = "sample_ext\<lparr>x_now := 40000000000\<rparr>"
  obtain expired db' where e: "expire_gtt_from ?X (read_gtt ?X oco_gtt) oco_db = (expired, db')" by fastforce
  have read: "read_gtt ?X oco_gtt = oco_gtt"
    using sample_read_44 sample_read_100 by (simp add: read_gtt_def oco_gtt_def)
  have row: "oco_gtt \<in> set (gtts oco_db)" "gt_status oco_gtt = Active" "gt_user oco_gtt = ''u''"
    "x_read ?X 2 (gt_margin_blocked oco_gtt) = 44"
    using sample_read_44 oco_ids(2) by (simp add: oco_db_def, simp_all add: oco_gtt_def)
  from gtt_expiry_returns_the_reservation [OF oco_ids(1) row(1,2) _ _ e] e oco_ready show ?thesis
    unfolding row(3,4) read by (simp add: oco_stored oco_money_def sample_money_def moved_def)
qed

subsection \<open>Modification\<close>

lemma rewrite_legs_funds [simp]: "funds_rows (rewrite_legs rows act lms db) = funds_rows db"
  by (induction rows arbitrary: lms db) (auto split: list.splits)

lemma reprice_effect:
  assumes "funds_ready uid db" "distinct (map gt_gtt_id (gtts db))" "row \<in> set (gtts db)"
    and "gt_status row = Active" "gt_user row = uid" "parse_action (gf_action f) = Some act"
  shows "reprice_gtt X uid (read_gtt X row) rows f legs margins db =
    (let nb = blocked_margin db (gt_trigger_type row = Two_leg) margins;
         delta = nb - x_read X 2 (gt_margin_blocked row); m = stored_money uid db;
         db1 = db\<lparr>gtts := sql_update (\<lambda>g. gt_gtt_id g = gt_gtt_id row \<and> gt_status g = Active \<and> gt_user g = uid)
                            (\<lambda>x. x\<lparr>gt_margin_blocked := nb\<rparr>) (gtts db)\<rparr>
     in if (if delta > 0 then delta \<le> available_balance m else - delta \<le> used_margin m) \<or> delta = 0
        then (Gtt_ok (gt_gtt_id row), rewrite_legs rows act (zip legs margins)
                (if delta = 0 then db1 else set_money uid (moved delta m) db1))
        else (Gtt_error (if delta > 0 then 400 else 500)
               (Gtt_funds (if delta > 0 then Insufficient_required delta else Cannot_release_reserved (- delta))), db))"
proof -
  define nb where "nb = blocked_margin db (gt_trigger_type row = Two_leg) margins"
  let ?db1 = "db\<lparr>gtts := sql_update (\<lambda>g. gt_gtt_id g = gt_gtt_id row \<and> gt_status g = Active \<and> gt_user g = uid)
      (\<lambda>x. x\<lparr>gt_margin_blocked := nb\<rparr>) (gtts db)\<rparr>"
  have claim: "claim_gtt (\<lambda>x. gt_user x = uid) (\<lambda>x. x\<lparr>gt_margin_blocked := nb\<rparr>) (gt_gtt_id row) db = (True, ?db1)"
    using claim_gtt_win [OF assms(2-4), of "\<lambda>x. gt_user x = uid"] assms(5) by simp
  have f: "funds_rows ?db1 = funds_rows db" by simp
  have ready: "funds_ready uid ?db1" using funds_ready_cong [OF f] assms(1) by metis
  have money: "stored_money uid ?db1 = stored_money uid db" by (rule stored_money_cong [OF f])
  show ?thesis
    unfolding reprice_gtt_def Let_def read_gtt_keys nb_def [symmetric] claim prod.case
    using funds_of_ready [OF ready]
    by (auto simp: stage_margin_delta_row [OF ready] money rolled_back_def moved_def assms(6) Let_def)
qed

text \<open>Modifying an active GTT moves exactly the difference between the new and the old reservation,
  the row records the new one and the GTT stays active; when the account cannot fund the
  increase (or does not hold what a decrease would return) nothing at all changes.\<close>

theorem gtt_modification_moves_the_difference:
  assumes "funds_ready uid db" and "distinct (map gt_gtt_id (gtts db))" and "row \<in> set (gtts db)"
    and "gt_status row = Active" and "gt_user row = uid" and "parse_action (gf_action f) = Some act"
    and "reprice_gtt X uid (read_gtt X row) rows f legs margins db = (resp, db')"
  defines "nb \<equiv> blocked_margin db (gt_trigger_type row = Two_leg) margins"
  shows "(resp = Gtt_ok (gt_gtt_id row) \<and>
      stored_money uid db' = moved (nb - x_read X 2 (gt_margin_blocked row)) (stored_money uid db) \<and>
      (\<forall>x \<in> set (gtts db'). gt_gtt_id x = gt_gtt_id row \<longrightarrow> gt_status x = Active \<and> gt_margin_blocked x = nb)) \<or>
    (\<exists>c e. resp = Gtt_error c e) \<and> db' = db"
proof -
  let ?delta = "nb - x_read X 2 (gt_margin_blocked row)" and ?m = "stored_money uid db" and ?gid = "gt_gtt_id row"
  let ?Q = "\<lambda>g. gt_gtt_id g = ?gid \<and> gt_status g = Active \<and> gt_user g = uid"
  let ?db1 = "db\<lparr>gtts := sql_update ?Q (\<lambda>x. x\<lparr>gt_margin_blocked := nb\<rparr>) (gtts db)\<rparr>"
  let ?d = "if ?delta = 0 then ?db1 else set_money uid (moved ?delta ?m) ?db1"
  note e = reprice_effect [OF assms(1-6), of X rows legs margins, folded nb_def, unfolded Let_def assms(7)]
  show ?thesis
  proof (cases "(if ?delta > 0 then ?delta \<le> available_balance ?m else - ?delta \<le> used_margin ?m) \<or> ?delta = 0")
    case True
    with e have r: "resp = Gtt_ok ?gid" "db' = rewrite_legs rows act (zip legs margins) ?d" by simp_all
    have f: "funds_rows ?db1 = funds_rows db" by simp
    have ok: "funds_ready uid ?db1" "stored_money uid ?db1 = ?m"
      using assms(1) funds_ready_cong [OF f, of uid] by blast (rule stored_money_cong [OF f])
    have "stored_money uid ?d = moved ?delta ?m"
    proof (cases "?delta = 0")
      case True
      then have "moved ?delta ?m = ?m" by (metis moved_simps(1))
      then show ?thesis unfolding if_P [OF True] using ok(2) by metis
    qed (use ok(1) in \<open>simp add: stored_money_set_money\<close>)
    then have "stored_money uid db' = moved ?delta ?m"
      using stored_money_cong [OF rewrite_legs_funds, of uid rows act "zip legs margins" ?d] by (simp add: r)
    moreover have "gt_status x = Active \<and> gt_margin_blocked x = nb" if x: "x \<in> set (gtts db')" "gt_gtt_id x = ?gid" for x
    proof -
      have "x \<in> set (sql_update ?Q (\<lambda>x. x\<lparr>gt_margin_blocked := nb\<rparr>) (gtts db))" using x(1) by (simp add: r split: if_splits)
      from sql_update_member [OF this] obtain y where y: "y \<in> set (gtts db)"
        "x = (if ?Q y then y\<lparr>gt_margin_blocked := nb\<rparr> else y)" by blast
      have "gt_gtt_id y = ?gid" using y(2) x(2) by (auto split: if_splits)
      then have "y = row" using assms(2,3) y(1) by (auto simp: distinct_map inj_on_def)
      with y(2) assms(4,5) show ?thesis by simp
    qed
    ultimately show ?thesis using r(1) by blast
  next
    case False
    with e show ?thesis by auto
  qed
qed

theorem gtt_modification_moves_the_difference_witness:
  "\<exists>db'. reprice_gtt sample_ext ''u'' oco_gtt [] sample_oco [] [50, 60] oco_db = (Gtt_ok 7, db') \<and>
     stored_money ''u'' db' = moved 16 oco_money"
proof -
  obtain resp db' where e: "reprice_gtt sample_ext ''u'' (read_gtt sample_ext oco_gtt) [] sample_oco [] [50, 60] oco_db = (resp, db')"
    by fastforce
  have read: "read_gtt sample_ext oco_gtt = oco_gtt"
    using sample_read_44 sample_read_100 by (simp add: read_gtt_def oco_gtt_def)
  have row: "oco_gtt \<in> set (gtts oco_db)" "gt_status oco_gtt = Active" "gt_user oco_gtt = ''u''"
    "parse_action (gf_action sample_oco) = Some SELL" "gt_trigger_type oco_gtt = Two_leg"
    by (simp add: oco_db_def, simp_all add: oco_gtt_def sample_oco_def sample_oco_texts)
  have "config oco_db = config sample_db" by (simp add: oco_db_def)
  then have "blocked_margin oco_db True [50, 60] = 60"
    using sample_oco_mode by (simp add: blocked_margin_def oco_reserves_max_def get_config_def)
  moreover have "resp = Gtt_ok 7"
    using reprice_effect [OF oco_ready oco_ids(1) row(1-4), of sample_ext "[]" "[]" "[50, 60]"] e
      \<open>blocked_margin oco_db True [50, 60] = 60\<close>
    by (simp add: row(5) oco_ids sample_read_44 oco_stored oco_money_def Let_def) (simp add: oco_gtt_def)
  ultimately show ?thesis
    using gtt_modification_moves_the_difference [OF oco_ready oco_ids(1) row(1-4) e] e
    by (simp add: row(5) read oco_ids sample_read_44 oco_stored)
qed

end
