(* ===== verification/GttRecovery.thy ===== *)
theory GttRecovery
  imports GttLife
begin

text \<open>
  Recovery of GTTs left \<open>triggered\<close> without an order: what margin they get back, and what
  happens when the fire they are recovered from is still running.  The evaluator's price test.
\<close>

subsection \<open>Re-arming\<close>

definition unfired :: "ext \<Rightarrow> nat \<Rightarrow> sandbox \<Rightarrow> bool" where
  "unfired X gid db \<longleftrightarrow> placed_order (legs_of X gid db) db = None \<and>
     (\<forall>s \<in> set (gtt_legs db). lg_gtt_id s = gid \<longrightarrow>
        lg_triggered_order_id s = None \<and> lg_status s \<noteq> Leg_triggered) \<and>
     (\<exists>s \<in> set (gtt_legs db). lg_gtt_id s = gid \<and> lg_status s \<in> {Pending, Triggering})"

lemma block_margin_grid_refused:
  assumes "decimal_columns (x_read X)" "funds_ready uid db" "grid_money (stored_money uid db)"
    and "0 < a" "\<not> a \<le> available_balance (stored_money uid db)"
  shows "block_margin X uid a db =
    ((False, Insufficient_funds a (available_balance (stored_money uid db))), db)"
  using run_funds_op_row [OF assms(2), of "Op_block a" X] assms(4,5) read_grid_money [OF assms(1,3)]
  by (simp add: block_compute_def Let_def)

lemma rearm_effect:
  assumes "distinct (map gt_gtt_id (gtts db))" "row \<in> set (gtts db)" "x_read X 2 (gt_margin_blocked row) \<le> 0"
    and "decimal_columns (x_read X)" "funds_ready (gt_user row) db" "grid_money (stored_money (gt_user row) db)"
    and "unfired X (gt_gtt_id row) db" "0 < required_margin (legs_of X (gt_gtt_id row) db)"
  shows "reclaim_stranded_parent X (gt_gtt_id row) db =
    (let req = required_margin (legs_of X (gt_gtt_id row) db); m = stored_money (gt_user row) db in
     (True, if req \<le> available_balance m
            then rearm_gtt (gt_gtt_id row) req (set_money (gt_user row) (moved req m) db)
            else set_gtt (gt_gtt_id row) reject_gtt db))"
proof -
  let ?gid = "gt_gtt_id row" and ?legs = "legs_of X (gt_gtt_id row) db"
  have "find (\<lambda>g. gt_gtt_id g = ?gid) (gtts db) = Some row"
    by (rule find_unique_key [OF assms(1,2)]) simp
  then have g: "gtt_row X ?gid db = Some (read_gtt X row)" by (simp add: gtt_row_def)
  have marker: "\<not> (\<exists>l \<in> set ?legs. lg_triggered_order_id l \<noteq> None)"
    using assms(7) by (auto simp: unfired_def legs_of_member)
  have live: "\<exists>l \<in> set ?legs. lg_status l \<in> {Pending, Triggering}"
  proof -
    from assms(7) obtain s where "s \<in> set (gtt_legs db)" "lg_gtt_id s = ?gid" "lg_status s \<in> {Pending, Triggering}"
      by (auto simp: unfired_def)
    then show ?thesis by (intro bexI [of _ "read_leg X s"]) (auto simp: legs_of_member)
  qed
  have "reclaim_stranded_parent X ?gid db = (True, rearm_stranded X (read_gtt X row) ?legs db)"
    using g marker live assms(7) by (simp add: reclaim_stranded_parent_def unfired_def Let_def)
  also have "rearm_stranded X (read_gtt X row) ?legs db =
      (if required_margin ?legs \<le> available_balance (stored_money (gt_user row) db)
       then rearm_gtt ?gid (required_margin ?legs)
              (set_money (gt_user row) (moved (required_margin ?legs) (stored_money (gt_user row) db)) db)
       else set_gtt ?gid reject_gtt db)"
    using block_margin_grid [OF assms(4-6,8)] block_margin_grid_refused [OF assms(4-6,8)] assms(3,8)
    by (simp add: rearm_stranded_def Let_def)
  finally show ?thesis by (simp add: Let_def)
qed

lemma sum_above_max:
  assumes "length xs = 2" "\<forall>x \<in> set xs. (0 :: rat) < x"
  shows "Max (set xs) < sum_list xs"
proof -
  from assms(1) obtain a b where "xs = [a, b]" by (auto simp: numeral_2_eq_2 length_Suc_conv)
  with assms(2) show ?thesis by (auto simp: max_def)
qed

lemma rearm_gtt_rows:
  assumes "x \<in> set (gtts (rearm_gtt gid margin db))" "gt_gtt_id x = gid"
    and "\<forall>y \<in> set (gtts db). gt_gtt_id y = gid \<longrightarrow> gt_status y = Triggered"
  shows "gt_status x = Active \<and> gt_margin_blocked x = margin"
proof -
  let ?Q = "\<lambda>g. gt_gtt_id g = gid \<and> gt_status g = Triggered" and ?k = "\<lambda>g. g\<lparr>gt_status := Active, gt_margin_blocked := margin\<rparr>"
  have "x \<in> set (sql_update ?Q ?k (gtts db))" using assms(1) by (simp add: rearm_gtt_def)
  from sql_update_member [OF this] obtain y where y: "y \<in> set (gtts db)" "x = (if ?Q y then ?k y else y)" by blast
  have "gt_gtt_id y = gid" using y(2) assms(2) by (auto split: if_splits)
  with assms(3) y show ?thesis by simp
qed

text \<open>A GTT whose fire was cut off after its margin was returned is re-armed with the margin of its
  largest leg, reserved again from the account, or rejected when the account cannot pay; where
  the configuration reserves the sum of both legs of an OCO that is less than the placement
  reserved, so the re-armed GTT is underfunded.\<close>

theorem recovery_reserves_the_largest_leg:
  assumes "distinct (map gt_gtt_id (gtts db))" and "row \<in> set (gtts db)" and "gt_status row = Triggered"
    and "x_read X 2 (gt_margin_blocked row) \<le> 0" and "decimal_columns (x_read X)"
    and "funds_ready (gt_user row) db" and "grid_money (stored_money (gt_user row) db)"
    and "unfired X (gt_gtt_id row) db" and "0 < required_margin (legs_of X (gt_gtt_id row) db)"
    and "reclaim_stranded_parent X (gt_gtt_id row) db = (recovered, db')"
  defines "legs \<equiv> legs_of X (gt_gtt_id row) db"
  shows "recovered \<and>
    (if required_margin legs \<le> available_balance (stored_money (gt_user row) db)
     then stored_money (gt_user row) db' = moved (required_margin legs) (stored_money (gt_user row) db) \<and>
       (\<forall>x \<in> set (gtts db'). gt_gtt_id x = gt_gtt_id row \<longrightarrow>
          gt_status x = Active \<and> gt_margin_blocked x = Max (set (map lg_leg_margin legs)))
     else stored_money (gt_user row) db' = stored_money (gt_user row) db \<and>
       (\<forall>x \<in> set (gtts db'). gt_gtt_id x = gt_gtt_id row \<longrightarrow> gt_status x = Gtt_rejected)) \<and>
    (\<not> oco_reserves_max db \<longrightarrow> length legs = 2 \<longrightarrow> (\<forall>l \<in> set legs. 0 < lg_leg_margin l) \<longrightarrow>
       required_margin legs < blocked_margin db True (map lg_leg_margin legs))"
proof -
  let ?gid = "gt_gtt_id row" and ?uid = "gt_user row" and ?req = "required_margin legs" and ?m = "stored_money (gt_user row) db"
  have ne: "legs \<noteq> []" using assms(9) by (auto simp: required_margin_def legs_def)
  note e = rearm_effect [OF assms(1,2,4-9), folded legs_def, unfolded Let_def assms(10)]
  have only: "y = row" if "y \<in> set (gtts db)" "gt_gtt_id y = ?gid" for y
    using assms(1,2) that by (auto simp: distinct_map inj_on_def)
  have sum: "\<not> oco_reserves_max db \<longrightarrow> length legs = 2 \<longrightarrow> (\<forall>l \<in> set legs. 0 < lg_leg_margin l) \<longrightarrow>
       ?req < blocked_margin db True (map lg_leg_margin legs)"
    using sum_above_max [of "map lg_leg_margin legs"] ne by (simp add: required_margin_def blocked_margin_def)
  show ?thesis
  proof (cases "?req \<le> available_balance ?m")
    case True
    with e have r: "recovered" "db' = rearm_gtt ?gid ?req (set_money ?uid (moved ?req ?m) db)" by simp_all
    have f: "funds_rows db' = funds_rows (set_money ?uid (moved ?req ?m) db)" by (simp add: r rearm_gtt_def)
    have "stored_money ?uid db' = moved ?req ?m"
      using stored_money_cong [OF f] assms(6) by (simp add: stored_money_set_money)
    moreover have "\<forall>y \<in> set (gtts db). gt_gtt_id y = ?gid \<longrightarrow> gt_status y = Triggered"
      using only assms(3) by metis
    then have "gt_status x = Active \<and> gt_margin_blocked x = ?req" if "x \<in> set (gtts db')" "gt_gtt_id x = ?gid" for x
      using rearm_gtt_rows [of x ?gid ?req "set_money ?uid (moved ?req ?m) db"] that by (simp add: r)
    ultimately show ?thesis using True r(1) sum ne by (simp add: required_margin_def)
  next
    case False
    with e have r: "recovered" "db' = set_gtt ?gid reject_gtt db" by simp_all
    have "stored_money ?uid db' = ?m" by (rule stored_money_cong) (simp add: r)
    moreover have "gt_status x = Gtt_rejected" if x: "x \<in> set (gtts db')" "gt_gtt_id x = ?gid" for x
    proof -
      have "x \<in> set (sql_update (\<lambda>g. gt_gtt_id g = ?gid) reject_gtt (gtts db))" using x(1) by (simp add: r)
      from sql_update_member [OF this] obtain y where "x = (if gt_gtt_id y = ?gid then reject_gtt y else y)" by blast
      with x(2) show ?thesis by (cases "gt_gtt_id y = ?gid") (simp_all add: reject_gtt_def)
    qed
    ultimately show ?thesis using False r(1) sum by simp
  qed
qed

lemma released_oco_unfired:
  "legs_of X 7 (released_gtt oco_gtt claimed_db) = legs_of X 7 claimed_db"
  "unfired X 7 (released_gtt oco_gtt claimed_db) = unfired X 7 claimed_db"
  using released_gtt_rows(3,4) [OF claimed_ready_to_fire] by (simp_all add: legs_of_def unfired_def placed_order_def)

lemma claimed_oco_unfired: "unfired X 7 claimed_db"
  by (simp add: unfired_def placed_order_def claimed_db_def oco_db_def oco_leg_def sample_db_def)

lemma claimed_oco_required: "required_margin (legs_of sample_ext 7 claimed_db) = 44"
proof -
  have "set (map lg_leg_margin (legs_of sample_ext 7 claimed_db)) = {36, 44}"
    by (auto simp: legs_of_def claimed_db_def oco_leg_def read_leg_def sample_ext_def round_column_on_grid image_iff)
  moreover have "legs_of sample_ext 7 claimed_db \<noteq> []"
    by (simp add: legs_of_def claimed_db_def oco_leg_def flip: length_0_conv)
  ultimately show ?thesis by (simp add: required_margin_def)
qed

theorem recovery_reserves_the_largest_leg_witness:
  "\<exists>db'. reclaim_stranded_parent sample_ext 7 (released_gtt oco_gtt claimed_db) = (True, db') \<and>
     stored_money ''u'' db' = oco_money"
proof -
  let ?d = "released_gtt oco_gtt claimed_db" and ?row = "oco_gtt\<lparr>gt_status := Triggered, gt_margin_blocked := 0\<rparr>"
  note rel = released_gtt_rows [OF claimed_ready_to_fire]
  obtain recovered db' where e: "reclaim_stranded_parent sample_ext (gt_gtt_id ?row) ?d = (recovered, db')" by fastforce
  have gt: "gtts ?d = [?row]" by (simp add: rel(5) claimed_db_rows sql_update_Cons)
  have u: "gt_user ?row = ''u''" "gt_gtt_id ?row = 7" "gt_user oco_gtt = ''u''" "gt_margin_blocked oco_gtt = 44"
    by (simp_all add: oco_gtt_def)
  have "stored_money ''u'' claimed_db = oco_money"
    using oco_stored stored_money_cong [of claimed_db oco_db "''u''"] by (simp add: claimed_db_def)
  then have money: "stored_money ''u'' ?d = moved (- 44) oco_money" using rel(2) u by simp
  have "x_read sample_ext 2 0 = 0" using decimal_columns.rd_0 [OF sample_columns] .
  moreover have "grid_money (moved (- 44) oco_money)"
    by (simp add: grid_money_def oco_money_def sample_money_def moved_def)
  moreover have "44 \<le> available_balance oco_money + 44" by (simp add: oco_money_def)
  ultimately show ?thesis
    using recovery_reserves_the_largest_leg [OF _ _ _ _ sample_columns _ _ _ _ e] rel(1) e
    by (simp add: u gt money released_oco_unfired claimed_oco_unfired claimed_oco_required)
qed

subsection \<open>Recovery of a fire that is still running\<close>

text \<open>What a re-arm leaves of the legs, and that a leg it hands back can be claimed.\<close>

lemma handed_back:
  assumes "x \<in> set (sql_update (\<lambda>x. lg_gtt_id x = gid \<and> lg_status x = Triggering) unclaim_leg legs)" "lg_gtt_id x = gid"
    and "\<And>y. y \<in> set legs \<Longrightarrow> lg_gtt_id y = gid \<Longrightarrow> lg_status y \<noteq> Leg_triggered"
  shows "lg_status x \<notin> {Triggering, Leg_triggered}"
proof -
  let ?Q = "\<lambda>x. lg_gtt_id x = gid \<and> lg_status x = Triggering"
  from sql_update_member [OF assms(1)] obtain y where y: "y \<in> set legs" "x = (if ?Q y then unclaim_leg y else y)"
    by blast
  show ?thesis
  proof (cases "?Q y")
    case True
    with y(2) have "x = unclaim_leg y" by presburger
    then show ?thesis by (simp add: unclaim_leg_def)
  next
    case False
    with y(2) have "x = y" by presburger
    with False assms(2,3) y(1) show ?thesis by auto
  qed
qed

lemma claimable_is_claimed:
  assumes "distinct (map lg_id (gtt_legs db))" "l \<in> set (gtt_legs db)" "claimable_leg db l"
  shows "fst (try_claim_trigger X (lg_id l) db)"
proof -
  have "fst (claim_row lg_id (claimable_leg db) (claim_leg_row X) (lg_id l) (gtt_legs db))"
    using claim_row_iff [OF assms(1), of "claimable_leg db" "claim_leg_row X" "lg_id l"] assms(2,3) by auto
  then show ?thesis by (simp add: try_claim_trigger_def case_prod_beta)
qed

text \<open>Recovery does not wait for a fire to be over: between the release of a fire's reservation and the
  insert of its order, another thread's recovery pass takes the GTT for stranded, re-arms it
  with a reservation of its own and hands its leg back, so that a second evaluator can claim
  and fire the leg that is already being fired.\<close>

theorem recovery_overtakes_a_running_fire:
  assumes "ready_to_fire X g l db" and "decimal_columns (x_read X)" and "unfired X (gt_gtt_id g) db"
    and "0 < required_margin (legs_of X (gt_gtt_id g) db)"
    and "required_margin (legs_of X (gt_gtt_id g) db) \<le> gt_margin_blocked g"
    and "reclaim_stranded_parent X (gt_gtt_id g) (released_gtt g db) = (recovered, db')"
  shows "recovered \<and> armed (gt_gtt_id g) db' \<and> fst (try_claim_trigger X' (lg_id l) db')"
proof -
  note r = assms(1) [unfolded ready_to_fire_def] and rel = released_gtt_rows [OF assms(1)]
  let ?gid = "gt_gtt_id g" and ?d = "released_gtt g db" and ?row = "g\<lparr>gt_status := Triggered, gt_margin_blocked := 0\<rparr>"
  let ?k = "\<lambda>x. x\<lparr>gt_status := Triggered, gt_margin_blocked := 0\<rparr>"
  let ?M = "stored_money (gt_user g) db" and ?a = "gt_margin_blocked g" and ?req = "required_margin (legs_of X (gt_gtt_id g) db)"
  have ids: "distinct (map gt_gtt_id (gtts ?d))"
    using r map_key_sql_update [of "\<lambda>x. gt_gtt_id x = ?gid" gt_gtt_id ?k "gtts db"] by (simp add: rel(5))
  have row: "?row \<in> set (gtts ?d)" "gt_gtt_id ?row = ?gid" "gt_user ?row = gt_user g"
    using r by (auto simp: rel(5) set_sql_update)
  have legs: "legs_of X ?gid ?d = legs_of X ?gid db" by (simp add: legs_of_def rel(3))
  have unf: "unfired X ?gid ?d" using assms(3) by (simp add: unfired_def legs placed_order_def rel(3,4))
  have grid: "grid_money (stored_money (gt_user g) ?d)" using r grid_moved [of ?M "- ?a"] by (auto simp: rel(2))
  have zero: "x_read X 2 (gt_margin_blocked ?row) \<le> 0" using decimal_columns.rd_0 [OF assms(2)] by simp
  have avail: "?req \<le> available_balance (stored_money (gt_user g) ?d)" using assms(5) r by (simp add: rel(2))
  have e: "recovered \<and> db' = rearm_gtt ?gid ?req (set_money (gt_user g) (moved ?req (stored_money (gt_user g) ?d)) ?d)"
    using rearm_effect [OF ids row(1) zero assms(2), unfolded row(2,3) legs, OF rel(1) grid unf assms(4)] avail assms(6)
    by (simp add: Let_def)
  then have G: "gtts db' = sql_update (\<lambda>x. gt_gtt_id x = ?gid \<and> gt_status x = Triggered)
      (\<lambda>x. x\<lparr>gt_status := Active, gt_margin_blocked := ?req\<rparr>) (gtts ?d)"
    and L: "gtt_legs db' = sql_update (\<lambda>x. lg_gtt_id x = ?gid \<and> lg_status x = Triggering) unclaim_leg (gtt_legs db)"
    by (simp_all add: rearm_gtt_def rel(3))
  have "?row\<lparr>gt_status := Active, gt_margin_blocked := ?req\<rparr> \<in> set (gtts db')"
    using sql_update_memberI [OF row(1), of "\<lambda>x. gt_gtt_id x = ?gid \<and> gt_status x = Triggered"
        "\<lambda>x. x\<lparr>gt_status := Active, gt_margin_blocked := ?req\<rparr>"] by (simp add: G)
  then have armed: "armed ?gid db'" unfolding armed_def
    by (intro bexI [of _ "?row\<lparr>gt_status := Active, gt_margin_blocked := ?req\<rparr>"]) simp_all
  have mine: "unclaim_leg l \<in> set (gtt_legs db')" using r by (auto simp: L set_sql_update)
  have fired: "lg_status y \<noteq> Leg_triggered" if "y \<in> set (gtt_legs db)" "lg_gtt_id y = ?gid" for y
    using that assms(3) by (auto simp: unfired_def)
  have lids: "distinct (map lg_id (gtt_legs db'))"
    using r map_key_sql_update [of "\<lambda>x. lg_gtt_id x = ?gid \<and> lg_status x = Triggering" lg_id unclaim_leg "gtt_legs db"]
    by (simp add: L unclaim_leg_def)
  have status: "lg_status x \<notin> {Triggering, Leg_triggered}" if "x \<in> set (gtt_legs db')" "lg_gtt_id x = ?gid" for x
    using that(1) [unfolded L] that(2) fired by (rule handed_back)
  have "claimable_leg db' (unclaim_leg l)"
    using status armed r
    by (auto simp: claimable_leg_def sibling_busy_def parent_active_def unclaim_leg_def armed_def)
  then have "fst (try_claim_trigger X' (lg_id l) db')"
    using claimable_is_claimed [OF lids mine, of X'] by (simp add: unclaim_leg_def)
  with e armed show ?thesis by blast
qed

theorem recovery_overtakes_a_running_fire_witness:
  "\<exists>db'. reclaim_stranded_parent sample_ext 7 (released_gtt oco_gtt claimed_db) = (True, db') \<and>
     fst (try_claim_trigger sample_ext 1 db')"
proof -
  obtain recovered db' where e: "reclaim_stranded_parent sample_ext (gt_gtt_id oco_gtt) (released_gtt oco_gtt claimed_db) = (recovered, db')"
    by fastforce
  have "gt_gtt_id oco_gtt = 7" "gt_margin_blocked oco_gtt = 44" "lg_id claimed_leg = 1"
    by (simp_all add: oco_gtt_def claimed_leg_def oco_leg_def)
  with recovery_overtakes_a_running_fire [OF claimed_ready_to_fire sample_columns _ _ _ e, of sample_ext] e show ?thesis
    by (simp add: claimed_oco_unfired claimed_oco_required)
qed

subsection \<open>The evaluator's price test\<close>

text \<open>A quote without a price fires a stop: where the last traded price is zero every resting order is
  left alone, but the evaluator claims and fires every pending leg that waits for a fall,
  whatever its trigger.\<close>

theorem missing_price_fires_stops:
  assumes "quotes (gt_symbol g) (gt_exchange g) = Some q" and "q_ltp q = 0"
    and "lg_direction l = Below" and "0 \<le> lg_trigger_price l"
    and "try_claim_trigger X (lg_id l) db = (True, db1)"
  shows "evaluate_leg X lock_free quotes l g db = snd (fire_leg X (lock_free (lg_id l)) (lg_id l) db1) \<and>
    (\<forall>r. find (\<lambda>t. tr_orderid t = od_orderid r) (trades db) = None \<longrightarrow> process_order X r q db = db)"
  using assms by (simp add: evaluate_leg_def leg_is_triggered_by_def process_order_def)

theorem missing_price_fires_stops_witness:
  "evaluate_leg sample_ext (\<lambda>n. True) (\<lambda>s e. Some (sample_quote\<lparr>q_ltp := 0\<rparr>)) (oco_leg 1 95 Below 90 36) oco_gtt oco_db =
     snd (fire_leg sample_ext True 1 claimed_db)"
proof -
  have "lg_direction (oco_leg 1 95 Below 90 36) = Below" "0 \<le> lg_trigger_price (oco_leg 1 95 Below 90 36)"
    "lg_id (oco_leg 1 95 Below 90 36) = 1"
    by (simp_all add: oco_leg_def)
  with missing_price_fires_stops [of "\<lambda>s e. Some (sample_quote\<lparr>q_ltp := 0\<rparr>)" oco_gtt "sample_quote\<lparr>q_ltp := 0\<rparr>"
      "oco_leg 1 95 Below 90 36" sample_ext oco_db claimed_db "\<lambda>n. True"] oco_claimed
  show ?thesis by simp
qed

end
