(* ===== verification/GttFlights.thy ===== *)
theory GttFlights
  imports GttReach
begin

text \<open>
  What can happen to GTTs, as a step relation over the tables and the fires that are running: each commit
  of a fire is a step, and between two of them come the commits of other fires, requests of users (also
  late ones, acting on a row read long before), claims of evaluators, the expiry sweep and any other
  trading; a fire may be cut off after any of its commits.  Recovery passes run while no fire is running.
\<close>

subsection \<open>What leaves a GTT alone\<close>

definition asleep :: "nat \<Rightarrow> sandbox \<Rightarrow> bool" where
  "asleep gid db \<longleftrightarrow> (\<forall>g \<in> set (gtts db). gt_gtt_id g = gid \<longrightarrow> gt_status g \<noteq> Active)"

text \<open>A leg that is not being fired or fired anew.\<close>

definition leg_kept :: "sandbox_gtt_leg \<Rightarrow> sandbox_gtt_leg \<Rightarrow> bool" where
  "leg_kept l l' \<longleftrightarrow> lg_id l' = lg_id l \<and> lg_gtt_id l' = lg_gtt_id l \<and>
     (lg_status l' \<in> {Triggering, Leg_triggered} \<longrightarrow> lg_status l' = lg_status l)"

lemma leg_kept_refl [simp]: "leg_kept l l"
  by (simp add: leg_kept_def)

lemma leg_kept_trans: "leg_kept a b \<Longrightarrow> leg_kept b c \<Longrightarrow> leg_kept a c"
  by (auto simp: leg_kept_def)

lemma leg_kept_child: "leg_kept l l' \<Longrightarrow> has_child C l' = has_child C l"
  by (simp add: leg_kept_def has_child_def)

definition spares :: "nat \<Rightarrow> sandbox \<Rightarrow> sandbox \<Rightarrow> bool" where
  "spares gid db db' \<longleftrightarrow> asleep gid db' \<and>
     (\<forall>l \<in> set (gtt_legs db). lg_gtt_id l = gid \<longrightarrow> (\<exists>l' \<in> set (gtt_legs db'). leg_kept l l')) \<and>
     (\<forall>l' \<in> set (gtt_legs db'). lg_gtt_id l' = gid \<longrightarrow> (\<exists>l \<in> set (gtt_legs db). leg_kept l l')) \<and>
     (\<forall>l \<in> set (gtt_legs db). lg_gtt_id l = gid \<longrightarrow> has_child (children db') l = has_child (children db) l)"

lemma spares_asleep: "spares gid db db' \<Longrightarrow> asleep gid db'"
  by (simp add: spares_def)

lemma spares_trans:
  assumes "spares gid a b" "spares gid b c"
  shows "spares gid a c"
proof -
  have up: "\<exists>l' \<in> set (gtt_legs c). leg_kept l l'" and child: "has_child (children c) l = has_child (children a) l"
    if l: "l \<in> set (gtt_legs a)" "lg_gtt_id l = gid" for l
  proof -
    from assms(1) l obtain m where m: "m \<in> set (gtt_legs b)" "leg_kept l m" unfolding spares_def by blast
    then have gid: "lg_gtt_id m = gid" using l(2) by (simp add: leg_kept_def)
    with assms(2) m(1) obtain k where "k \<in> set (gtt_legs c)" "leg_kept m k" unfolding spares_def by blast
    then show "\<exists>l' \<in> set (gtt_legs c). leg_kept l l'" using leg_kept_trans [OF m(2)] by blast
    have "has_child (children c) m = has_child (children b) m" using assms(2) m(1) gid unfolding spares_def by blast
    moreover have "has_child (children b) l = has_child (children a) l" using assms(1) l unfolding spares_def by blast
    ultimately show "has_child (children c) l = has_child (children a) l" using leg_kept_child [OF m(2)] by metis
  qed
  have down: "\<exists>l \<in> set (gtt_legs a). leg_kept l k" if k: "k \<in> set (gtt_legs c)" "lg_gtt_id k = gid" for k
  proof -
    from assms(2) k obtain m where m: "m \<in> set (gtt_legs b)" "leg_kept m k" unfolding spares_def by blast
    then have "lg_gtt_id m = gid" using k(2) by (simp add: leg_kept_def)
    with assms(1) m(1) obtain l where "l \<in> set (gtt_legs a)" "leg_kept l m" unfolding spares_def by blast
    then show ?thesis using leg_kept_trans [OF _ m(2)] by blast
  qed
  from up down child spares_asleep [OF assms(2)] show ?thesis unfolding spares_def by blast
qed

lemma spares_same_legs:
  "asleep gid db' \<Longrightarrow> gtt_legs db' = gtt_legs db \<Longrightarrow> children db' = children db \<Longrightarrow> spares gid db db'"
  unfolding spares_def by (metis leg_kept_refl)

lemma spares_view: "gtt_view db' = gtt_view db \<Longrightarrow> asleep gid db \<Longrightarrow> spares gid db db'"
  by (rule spares_same_legs) (simp_all add: asleep_def gtt_view_def)

lemma spares_refl: "asleep gid db \<Longrightarrow> spares gid db db"
  by (simp add: spares_view)

lemma spares_gtts:
  assumes "asleep gid db" "\<And>g. gt_gtt_id (k g) = gt_gtt_id g"
    and "\<And>g. g \<in> set (gtts db) \<Longrightarrow> P g \<Longrightarrow> gt_gtt_id g = gid \<Longrightarrow> gt_status g \<noteq> Active \<Longrightarrow> gt_status (k g) \<noteq> Active"
  shows "spares gid db (db\<lparr>gtts := sql_update P k (gtts db)\<rparr>)"
proof -
  have "gt_status g \<noteq> Active" if "g \<in> set (sql_update P k (gtts db))" "gt_gtt_id g = gid" for g
  proof -
    from sql_update_member [OF that(1)] obtain x where x: "x \<in> set (gtts db)" "g = (if P x then k x else x)" by blast
    then have "gt_gtt_id x = gid" using that(2) assms(2) by (auto split: if_splits)
    with x assms(1,3) show ?thesis by (auto simp: asleep_def)
  qed
  then have "asleep gid (db\<lparr>gtts := sql_update P k (gtts db)\<rparr>)" by (simp add: asleep_def)
  then show ?thesis by (rule spares_same_legs) simp_all
qed

lemma spares_legs:
  assumes "asleep gid db" "\<And>l. P l \<Longrightarrow> lg_gtt_id (h l) = lg_gtt_id l"
    and "\<And>l. l \<in> set (gtt_legs db) \<Longrightarrow> P l \<Longrightarrow> lg_gtt_id l = gid \<Longrightarrow> leg_kept l (h l)"
  shows "spares gid db (set_legs P h db)"
proof -
  have "\<exists>l' \<in> set (gtt_legs (set_legs P h db)). leg_kept l l'" if "l \<in> set (gtt_legs db)" "lg_gtt_id l = gid" for l
    using that assms(3) [of l] by (intro bexI [of _ "if P l then h l else l"]) (auto simp: sql_update_def)
  moreover have "\<exists>l \<in> set (gtt_legs db). leg_kept l l'" if "l' \<in> set (gtt_legs (set_legs P h db))" "lg_gtt_id l' = gid" for l'
  proof -
    have "l' \<in> set (sql_update P h (gtt_legs db))" using that(1) by simp
    from sql_update_member [OF this] obtain l where l: "l \<in> set (gtt_legs db)" "l' = (if P l then h l else l)" by blast
    then have "lg_gtt_id l = gid" using that(2) assms(2) by (auto split: if_splits)
    with l assms(3) show ?thesis by (intro bexI [of _ l]) auto
  qed
  ultimately show ?thesis using assms(1) by (auto simp: spares_def asleep_def)
qed

subsection \<open>The operations leave a GTT alone that is not active\<close>

lemma kept_changes:
  "leg_kept l (cancel_leg l)" "leg_kept l (unclaim_leg l)" "leg_kept l (rewrite_leg s act m l)"
  by (simp_all add: leg_kept_def cancel_leg_def unclaim_leg_def rewrite_leg_def)

lemma spares_kept:
  assumes "asleep gid db" "\<And>l. leg_kept l (h l)"
  shows "spares gid db (set_legs P h db)"
  using assms(1)
proof (rule spares_legs)
  show "lg_gtt_id (h l) = lg_gtt_id l" for l using assms(2) [of l] by (simp add: leg_kept_def)
qed (rule assms(2))

lemma spares_cancel_legs: "asleep gid db \<Longrightarrow> spares gid db (set_legs P cancel_leg db)"
  and spares_unclaim_legs: "asleep gid db \<Longrightarrow> spares gid db (set_legs P unclaim_leg db)"
  and spares_rewrite_leg: "asleep gid db \<Longrightarrow> spares gid db (set_legs P (rewrite_leg sp act m) db)"
  by (erule spares_kept, rule kept_changes)+

lemma spares_revert_claim: "asleep gid db \<Longrightarrow> spares gid db (revert_claim lid db)"
  unfolding revert_claim_def by (rule spares_unclaim_legs)

lemma spares_rewrite_legs: "asleep gid db \<Longrightarrow> spares gid db (rewrite_legs rows act lms db)"
proof (induction rows arbitrary: lms db)
  case Nil
  then show ?case by (simp add: spares_refl)
next
  case (Cons row rows)
  have step: "spares gid db (rewrite_legs rows act rest (set_legs P (rewrite_leg sp act m) db))" for P sp m rest
    using spares_rewrite_leg [OF Cons.prems] Cons.IH spares_asleep spares_trans by blast
  show ?case using Cons.prems by (auto simp: spares_refl step split: list.splits)
qed

lemma spares_claim_gtt:
  assumes "claim_gtt P k i db = (won, db1)" "asleep gid db" "\<And>g. gt_gtt_id (k g) = gt_gtt_id g"
  shows "spares gid db db1"
proof (cases won)
  case True
  then have "db1 = db\<lparr>gtts := sql_update (\<lambda>g. gt_gtt_id g = i \<and> gt_status g = Active \<and> P g) k (gtts db)\<rparr>"
    using assms(1) by (auto simp: claim_gtt_def claim_row_def split: if_splits)
  moreover have "spares gid db (db\<lparr>gtts := sql_update (\<lambda>g. gt_gtt_id g = i \<and> gt_status g = Active \<and> P g) k (gtts db)\<rparr>)"
    using assms(2,3) by (rule spares_gtts) simp
  ultimately show ?thesis by simp
next
  case False
  then show ?thesis using assms(1,2) by (auto simp: claim_gtt_def spares_refl split: prod.splits)
qed

lemma spares_after: "spares gid db db1 \<Longrightarrow> gtt_view db2 = gtt_view db1 \<Longrightarrow> spares gid db db2"
  using spares_trans spares_view spares_asleep by blast

lemma spares_rolled_back: "asleep gid db \<Longrightarrow> spares gid db after \<Longrightarrow> spares gid db (rolled_back uid db pending after)"
  by (simp add: rolled_back_def spares_refl)

lemma spares_reprice:
  assumes "asleep gid db"
  shows "spares gid db (snd (reprice_gtt X uid g rows f legs margins db))"
proof -
  obtain won db1 where c: "claim_gtt (\<lambda>x. gt_user x = uid)
      (\<lambda>x. x\<lparr>gt_margin_blocked := blocked_margin db (gt_trigger_type g = Two_leg) margins\<rparr>) (gt_gtt_id g) db = (won, db1)" by fastforce
  have one: "spares gid db db1" using spares_claim_gtt [OF c assms] by simp
  have two: "spares gid db db2" if "stage_margin_delta X uid d db1 = (r, db2)" for d r db2
    using spares_after [OF one stage_view [OF that]] .
  then show ?thesis
    using c spares_rolled_back [OF assms two] spares_trans [OF two spares_rewrite_legs [OF spares_asleep [OF two]]] assms
    by (auto simp: reprice_gtt_def Let_def spares_refl split: prod.splits option.splits)
qed

lemma spares_cancel_gtt:
  assumes "asleep gid db"
  shows "spares gid db (snd (cancel_gtt_from X uid g db))"
proof -
  obtain won db1 where c: "claim_gtt (\<lambda>x. gt_user x = uid) cancel_gtt_row (gt_gtt_id g) db = (won, db1)" by fastforce
  have one: "spares gid db db1" using spares_claim_gtt [OF c assms] by (simp add: cancel_gtt_row_def)
  have two: "spares gid db (set_legs P cancel_leg db1)" for P
    using spares_trans [OF one spares_cancel_legs [OF spares_asleep [OF one]]] .
  have three: "spares gid db db3" if "stage_margin_delta X uid d (set_legs P cancel_leg db1) = (r, db3)" for d r db3 P
    using spares_after [OF two stage_view [OF that]] .
  then show ?thesis
    using c two spares_rolled_back [OF assms three] assms
    by (auto simp: cancel_gtt_from_def Let_def spares_refl split: prod.splits)
qed

lemma spares_expire_gtt:
  assumes "asleep gid db"
  shows "spares gid db (snd (expire_gtt_from X g db))"
proof -
  obtain won db1 where c: "claim_gtt (\<lambda>x. True) expire_gtt_row (gt_gtt_id g) db = (won, db1)" by fastforce
  have one: "spares gid db db1" using spares_claim_gtt [OF c assms] by (simp add: expire_gtt_row_def)
  have two: "spares gid db (set_legs P cancel_leg db1)" for P
    using spares_trans [OF one spares_cancel_legs [OF spares_asleep [OF one]]] .
  have three: "spares gid db db3" if "self_release X g m (set_legs P cancel_leg db1) = (r, db3)" for m r db3 P
    using two that spares_after [OF two stage_view] by (auto simp: self_release_def split: if_splits prod.splits)
  then show ?thesis
    using c two spares_rolled_back [OF assms three] spares_after [OF three gtt_view_publish] assms
    by (auto simp: expire_gtt_from_def Let_def spares_refl split: prod.splits)
qed

lemma spares_insert_gtt:
  assumes "insert_gtt X uid f last_price legs margins blocked db = Some (i, db')" "asleep gid db" "gid \<in> gt_gtt_id ` set (gtts db)"
  shows "spares gid db db'"
proof -
  obtain act pr where ap: "parse_action (gf_action f) = Some act" "gf_product f = Some pr"
    using assms(1) by (auto simp: insert_gtt_def split: option.splits)
  let ?N = "new_legs i pr act (next_id lg_id (gtt_legs db)) 1 (zip legs margins)"
  have ins: "i \<notin> gt_gtt_id ` set (gtts db)"
    "db' = db\<lparr>gtts := gtts db @ [new_gtt X uid f i (length legs = 2) last_price blocked], gtt_legs := gtt_legs db @ ?N\<rparr>"
    using assms(1) by (auto simp: insert_gtt_def Let_def ap split: if_splits)
  have i: "i \<noteq> gid" using ins(1) assms(3) by blast
  then have new: "lg_gtt_id l \<noteq> gid" if "l \<in> set ?N" for l
    using that new_legs_facts [of i pr act "next_id lg_id (gtt_legs db)" 1 "zip legs margins"] by auto
  have "asleep gid db'" using assms(2) i by (auto simp: asleep_def ins(2) new_gtt_def)
  moreover have "gtt_legs db' = gtt_legs db @ ?N" "children db' = children db" by (simp_all add: ins(2) children_def)
  ultimately show ?thesis using new leg_kept_refl unfolding spares_def by (metis Un_iff set_append)
qed

lemma spares_place_gtt:
  assumes "asleep gid db" "gid \<in> gt_gtt_id ` set (gtts db)"
  shows "spares gid db (snd (place_gtt X uid f last_price db))"
proof -
  obtain resp db' where p: "place_gtt X uid f last_price db = (resp, db')" by fastforce
  from place_gtt_Ok [OF p] show ?thesis
  proof
    assume "gtt_view db' = gtt_view db"
    with p assms(1) show ?thesis by (simp add: spares_view)
  next
    assume "\<exists>legs margins blocked msg db1 i db2. stage_margin_delta X uid blocked db = ((True, msg), db1) \<and>
       insert_gtt X uid f last_price legs margins blocked db1 = Some (i, db2) \<and> resp = Gtt_ok i \<and> db' = notify_gtt_placed X i db2"
    then obtain legs margins blocked msg db1 i db2 where h: "stage_margin_delta X uid blocked db = ((True, msg), db1)"
      "insert_gtt X uid f last_price legs margins blocked db1 = Some (i, db2)" "db' = notify_gtt_placed X i db2" by blast
    have v: "gtt_view db1 = gtt_view db" using stage_view [OF h(1)] .
    then have one: "spares gid db db1" using spares_view assms(1) by blast
    have "gid \<in> gt_gtt_id ` set (gtts db1)" using v assms(2) by (simp add: gtt_view_def)
    from spares_trans [OF one spares_insert_gtt [OF h(2) spares_asleep [OF one] this]]
    have "spares gid db db2" .
    moreover have "gtt_view db' = gtt_view db2" by (simp add: h(3) notify_gtt_placed_def)
    ultimately show ?thesis using p spares_after by simp
  qed
qed

lemma spares_try_claim:
  assumes "asleep gid db"
  shows "spares gid db (snd (try_claim_trigger X lid db))"
proof -
  let ?P = "\<lambda>l. lg_id l = lid \<and> claimable_leg db l"
  have "spares gid db (set_legs ?P (claim_leg_row X) db)"
    using assms
  proof (rule spares_legs)
    fix l assume "?P l" "lg_gtt_id l = gid"
    then show "leg_kept l (claim_leg_row X l)" using assms by (auto simp: claimable_leg_def parent_active_def asleep_def)
  qed (simp add: claim_leg_row_def)
  then show ?thesis
    using assms by (simp add: try_claim_trigger_def claim_row_def set_legs_def spares_refl split: prod.split)
qed

subsection \<open>The parts of a fire leave the other GTTs alone\<close>

lemma spares_set_gtt:
  "asleep gid db \<Longrightarrow> (\<And>g. gt_gtt_id (k g) = gt_gtt_id g) \<Longrightarrow> (\<And>g. gt_status (k g) = Active \<Longrightarrow> gt_status g = Active) \<Longrightarrow>
   spares gid db (set_gtt i k db)"
  unfolding set_gtt_def by (rule spares_gtts) auto

lemma spares_margin: "asleep gid db \<Longrightarrow> spares gid db (set_gtt i (\<lambda>g. g\<lparr>gt_margin_blocked := m\<rparr>) db)"
  and spares_reject: "asleep gid db \<Longrightarrow> spares gid db (set_gtt i reject_gtt db)"
  by (erule spares_set_gtt; simp add: reject_gtt_def)+

lemma spares_release:
  assumes "release_reservation X g db = (ok, db')" "asleep gid db"
  shows "spares gid db db'"
proof -
  have "spares gid db (set_gtt i (\<lambda>x. x\<lparr>gt_margin_blocked := 0\<rparr>) db1)" if "stage_margin_delta X u d db = (r, db1)" for i u d r db1
  proof -
    have one: "spares gid db db1" using spares_view [OF stage_view [OF that] assms(2)] .
    show ?thesis using spares_trans [OF one spares_margin [OF spares_asleep [OF one]]] .
  qed
  moreover have "spares gid db db1" if "stage_margin_delta X u d db = (r, db1)" for u d r db1
    using spares_view [OF stage_view [OF that] assms(2)] .
  ultimately show ?thesis using assms by (auto simp: release_reservation_def spares_refl split: if_splits prod.splits)
qed

lemma spares_revert_parent: "asleep gid db \<Longrightarrow> i \<noteq> gid \<Longrightarrow> spares gid db (revert_parent i db)"
  unfolding revert_parent_def by (rule spares_gtts) auto

lemma spares_revert: "asleep gid db \<Longrightarrow> i \<noteq> gid \<Longrightarrow> spares gid db (revert_claim lid (revert_parent i db))"
  using spares_trans spares_revert_parent spares_revert_claim spares_asleep by blast

lemma spares_compensate:
  assumes "asleep gid db" "i \<noteq> gid"
  shows "spares gid db (compensate_failed_fire X uid i lid amount db)"
proof -
  have "spares gid db (revert_claim lid (revert_parent i (set_gtt i (\<lambda>g. g\<lparr>gt_margin_blocked := amount\<rparr>) d)))"
    "spares gid db (revert_claim lid (set_gtt i reject_gtt (set_gtt i (\<lambda>g. g\<lparr>gt_margin_blocked := 0\<rparr>) d)))"
    if "block_margin X uid amount db = (r, d)" for r d
  proof -
    have one: "spares gid db d" using spares_view [OF block_view [OF that] assms(1)] .
    note two = spares_trans [OF one spares_margin [OF spares_asleep [OF one]]]
    show "spares gid db (revert_claim lid (revert_parent i (set_gtt i (\<lambda>g. g\<lparr>gt_margin_blocked := amount\<rparr>) d)))"
      using spares_trans [OF two spares_revert [OF spares_asleep [OF two] assms(2)]] .
    note three = spares_trans [OF two spares_reject [OF spares_asleep [OF two]]]
    show "spares gid db (revert_claim lid (set_gtt i reject_gtt (set_gtt i (\<lambda>g. g\<lparr>gt_margin_blocked := 0\<rparr>) d)))"
      using spares_trans [OF three spares_revert_claim [OF spares_asleep [OF three]]] .
  qed
  then show ?thesis
    using spares_revert [OF assms] by (auto simp: compensate_failed_fire_def split: prod.splits)
qed

lemma spares_place_order:
  assumes "place_order X uid f prefetched db = (resp, db')" "\<not> x_db_error X" "asleep gid db"
    and "fm_gtt_leg_id f = Some lid" "\<forall>l \<in> set (gtt_legs db). lg_gtt_id l = gid \<longrightarrow> lg_id l \<noteq> lid"
  shows "spares gid db db'"
proof (cases resp)
  case (Order_ok oid)
  with place_order_gtt_view [OF assms(1,2)] assms(4)
  have v: "gtts db' = gtts db" "gtt_legs db' = gtt_legs db" "children db' = children db @ [(Some lid, False, oid)]"
    by (simp_all add: gtt_view_def tagged_def)
  have "has_child (children db') l = has_child (children db) l" if "l \<in> set (gtt_legs db)" "lg_gtt_id l = gid" for l
    using assms(5) that by (auto simp: v(3) has_child_def)
  then show ?thesis using assms(3) leg_kept_refl by (simp add: spares_def asleep_def v(1,2)) (metis leg_kept_refl)
qed (use place_order_gtt_view [OF assms(1,2)] spares_view assms(3) in simp_all)

lemma spares_finish_fire:
  assumes "asleep gid db" "\<forall>l \<in> set (gtt_legs db). lg_gtt_id l = gid \<longrightarrow> lg_id l \<noteq> lid"
  shows "spares gid db (finish_fire g lid oid db)"
proof -
  have one: "spares gid db (set_legs (\<lambda>l. lg_id l = lid) (fired_leg oid) db)"
    using assms(1) by (rule spares_legs) (use assms(2) in \<open>auto simp: fired_leg_def\<close>)
  have "spares gid db (set_legs P cancel_leg (set_legs (\<lambda>l. lg_id l = lid) (fired_leg oid) db))" for P
    using spares_trans [OF one spares_cancel_legs [OF spares_asleep [OF one]]] .
  with one spares_after [OF one gtt_view_publish] spares_after [OF _ gtt_view_publish] show ?thesis
    by (simp add: finish_fire_def Let_def)
qed

subsection \<open>A fire that is running\<close>

text \<open>How far it is, with the rows it has read: the GTT is claimed, its reservation released, its order refused or placed.\<close>

datatype fire_stage =
    Gtt_claimed
  | Reserve_returned sandbox_gtt sandbox_gtt_leg
  | Leg_order_refused sandbox_gtt
  | Leg_order_placed sandbox_gtt orderid

definition ordered :: "fire_stage \<Rightarrow> bool" where
  "ordered st \<longleftrightarrow> (case st of Leg_order_placed g oid \<Rightarrow> True | _ \<Rightarrow> False)"

definition rows_of_fire :: "nat \<Rightarrow> nat \<Rightarrow> fire_stage \<Rightarrow> bool" where
  "rows_of_fire gid lid st \<longleftrightarrow>
     (case st of
        Gtt_claimed \<Rightarrow> True
      | Reserve_returned g l \<Rightarrow> gt_gtt_id g = gid \<and> lg_id l = lid
      | Leg_order_refused g \<Rightarrow> gt_gtt_id g = gid
      | Leg_order_placed g oid \<Rightarrow> gt_gtt_id g = gid)"

lemmas stage_defs = ordered_def rows_of_fire_def

text \<open>The fires that are running: the GTT, the leg that is fired and how far the fire is.\<close>

type_synonym fires = "nat \<rightharpoonup> nat \<times> fire_stage"

definition alone_in :: "nat \<Rightarrow> nat \<Rightarrow> sandbox \<Rightarrow> bool" where
  "alone_in gid lid db \<longleftrightarrow>
     (\<forall>l \<in> set (gtt_legs db). lg_gtt_id l = gid \<longrightarrow> lg_status l = Triggering \<longrightarrow> lg_id l = lid)"

definition in_flight :: "nat \<Rightarrow> nat \<Rightarrow> bool \<Rightarrow> sandbox \<Rightarrow> bool" where
  "in_flight gid lid placed db \<longleftrightarrow> asleep gid db \<and>
     (\<exists>l \<in> set (gtt_legs db). lg_id l = lid \<and> lg_gtt_id l = gid \<and> has_child (children db) l = placed) \<and>
     (\<not> placed \<longrightarrow> uncommitted gid db \<and> alone_in gid lid db)"

lemma spares_uncommitted:
  assumes "spares gid db db'" "uncommitted gid db"
  shows "uncommitted gid db'"
  unfolding uncommitted_def
proof (intro ballI impI)
  fix l' assume l': "l' \<in> set (gtt_legs db')" "lg_gtt_id l' = gid"
  with assms(1) obtain l where l: "l \<in> set (gtt_legs db)" "leg_kept l l'" unfolding spares_def by blast
  then have gid: "lg_gtt_id l = gid" using l'(2) by (simp add: leg_kept_def)
  then have "has_child (children db') l' = has_child (children db) l"
    using assms(1) l leg_kept_child [OF l(2)] unfolding spares_def by metis
  moreover have "lg_status l' = Leg_triggered \<Longrightarrow> lg_status l = Leg_triggered" using l(2) by (simp add: leg_kept_def)
  moreover have "\<not> committed (children db) l" using assms(2) l(1) gid by (simp add: uncommitted_def)
  ultimately show "\<not> committed (children db') l'" by (auto simp: committed_def)
qed

lemma spares_alone: "spares gid db db' \<Longrightarrow> alone_in gid lid db \<Longrightarrow> alone_in gid lid db'"
  unfolding spares_def alone_in_def leg_kept_def by (metis insertI1)

lemma spares_in_flight:
  assumes "spares gid db db'" "in_flight gid lid placed db"
  shows "in_flight gid lid placed db'"
proof -
  from assms(2) obtain l where l: "l \<in> set (gtt_legs db)" "lg_id l = lid" "lg_gtt_id l = gid"
    "has_child (children db) l = placed" by (auto simp: in_flight_def)
  with assms(1) obtain l' where l': "l' \<in> set (gtt_legs db')" "leg_kept l l'" unfolding spares_def by blast
  have "has_child (children db') l' = placed"
    using assms(1) l leg_kept_child [OF l'(2)] unfolding spares_def by metis
  moreover have "lg_id l' = lid" "lg_gtt_id l' = gid" using l'(2) l(2,3) by (simp_all add: leg_kept_def)
  ultimately show ?thesis
    using assms l'(1) spares_uncommitted [OF assms(1)] spares_alone [OF assms(1), of lid] spares_asleep [OF assms(1)]
    unfolding in_flight_def by blast
qed

lemma in_flight_mid: "sound db \<Longrightarrow> in_flight gid lid False db \<Longrightarrow> mid_fire gid db"
  by (simp add: in_flight_def mid_fire_def asleep_def)

subsection \<open>The steps\<close>

text \<open>\<open>F\<close> are the fires that are running.  A GTT whose claim was won is not active, so the fire it is entered for is its
  only one.  A fire that cannot take its lock, or that loses the claim of the GTT, only lets go of the leg.\<close>

inductive gtt_step :: "fires \<times> sandbox \<Rightarrow> fires \<times> sandbox \<Rightarrow> bool" where
  step_place: "gtt_step (F, db) (F, snd (place_gtt X uid f last_price db))"
| step_modify: "gtt_step (F, db) (F, snd (reprice_gtt X uid g rows f legs margins db))"
| step_cancel: "gtt_step (F, db) (F, snd (cancel_gtt_from X uid g db))"
| step_expire: "gtt_step (F, db) (F, snd (expire_gtt_from X g db))"
| step_claim: "gtt_step (F, db) (F, snd (try_claim_trigger X lid db))"
| step_let_go: "gtt_step (F, db) (F, revert_claim lid db)"
| step_fire:
    "\<lbrakk>leg_row X lid db = Some l; lg_status l = Triggering; lg_gtt_id l = gid;
      claim_gtt (\<lambda>g. True) (\<lambda>g. g\<lparr>gt_status := Triggered\<rparr>) gid db = (True, db1)\<rbrakk>
     \<Longrightarrow> gtt_step (F, db) (F(gid \<mapsto> (lid, Gtt_claimed)), db1)"
| step_release:
    "\<lbrakk>F gid = Some (lid, Gtt_claimed); gtt_row X gid db = Some g; leg_row X lid db = Some l;
      release_reservation X g db = (True, db1)\<rbrakk>
     \<Longrightarrow> gtt_step (F, db) (F(gid \<mapsto> (lid, Reserve_returned g l)), db1)"
| step_not_released:
    "\<lbrakk>F gid = Some (lid, Gtt_claimed); gtt_row X gid db = Some g; release_reservation X g db = (False, db1)\<rbrakk>
     \<Longrightarrow> gtt_step (F, db) (F(gid := None), revert_claim lid (revert_parent gid db1))"
| step_order:
    "\<lbrakk>F gid = Some (lid, Reserve_returned g l); place_order X (gt_user g) (leg_order g l) None db = (Order_ok oid, db1);
      \<not> x_db_error X\<rbrakk>
     \<Longrightarrow> gtt_step (F, db) (F(gid \<mapsto> (lid, Leg_order_placed g oid)), db1)"
| step_refused:
    "\<lbrakk>F gid = Some (lid, Reserve_returned g l); place_order X (gt_user g) (leg_order g l) None db = (resp, db1);
      \<not> x_db_error X; \<forall>oid. resp \<noteq> Order_ok oid\<rbrakk>
     \<Longrightarrow> gtt_step (F, db) (F(gid \<mapsto> (lid, Leg_order_refused g)), db1)"
| step_compensate:
    "F gid = Some (lid, Leg_order_refused g) \<Longrightarrow>
     gtt_step (F, db) (F(gid := None), compensate_failed_fire X (gt_user g) (gt_gtt_id g) lid
       (if gt_margin_blocked g > 0 then gt_margin_blocked g else 0) db)"
| step_finish:
    "F gid = Some (lid, Leg_order_placed g oid) \<Longrightarrow> gtt_step (F, db) (F(gid := None), finish_fire g lid oid db)"
| step_cut_off: "gtt_step (F, db) (F(gid := None), db)"
| step_reap: "gtt_step (Map.empty, db) (Map.empty, snd (reclaim_stranded_legs X db))"
| step_trade: "gtt_view db' = gtt_view db \<Longrightarrow> gtt_step (F, db) (F, db')"

inductive gtt_reachable :: "sandbox \<Rightarrow> fires \<times> sandbox \<Rightarrow> bool" for start where
  reach_start: "gtt_reachable start (Map.empty, start)"
| reach_step: "gtt_reachable start s \<Longrightarrow> gtt_step s s' \<Longrightarrow> gtt_reachable start s'"

text \<open>The invariant: that of the tables, and what every running fire relies on.\<close>

definition flying :: "fires \<times> sandbox \<Rightarrow> bool" where
  "flying s \<longleftrightarrow> (case s of (F, db) \<Rightarrow> sound db \<and>
     (\<forall>gid lid st. F gid = Some (lid, st) \<longrightarrow> in_flight gid lid (ordered st) db \<and> rows_of_fire gid lid st))"

lemma flying_fire:
  assumes "flying (F, db)" "F gid = Some (lid, st)"
  shows "in_flight gid lid (ordered st) db" "rows_of_fire gid lid st" "asleep gid db" "gid \<in> gt_gtt_id ` set (gtts db)"
proof -
  show f: "in_flight gid lid (ordered st) db" "rows_of_fire gid lid st" using assms by (auto simp: flying_def)
  then show "asleep gid db" by (simp add: in_flight_def)
  from f obtain l where "l \<in> set (gtt_legs db)" "lg_gtt_id l = gid" by (auto simp: in_flight_def)
  moreover have "lg_gtt_id ` set (gtt_legs db) \<subseteq> gt_gtt_id ` set (gtts db)"
    using assms(1) by (simp add: flying_def sound_def gtt_view_def gtt_inv_def keyed_def)
  ultimately show "gid \<in> gt_gtt_id ` set (gtts db)" by auto
qed

text \<open>The leg of a running fire is no leg of another GTT.\<close>

lemma other_legs:
  assumes "flying (F, db)" "F i = Some (lid, st)" "i \<noteq> gid"
  shows "\<forall>l \<in> set (gtt_legs db). lg_gtt_id l = gid \<longrightarrow> lg_id l \<noteq> lid"
proof -
  from flying_fire(1) [OF assms(1,2)] obtain k where k: "k \<in> set (gtt_legs db)" "lg_id k = lid" "lg_gtt_id k = i"
    by (auto simp: in_flight_def)
  moreover have "distinct (map lg_id (gtt_legs db))"
    using assms(1) by (simp add: flying_def sound_def gtt_view_def gtt_inv_def keyed_def)
  ultimately show ?thesis using assms(3) by (auto simp: distinct_map inj_on_def)
qed

lemma flyingI:
  "sound db \<Longrightarrow> (\<And>gid lid st. F gid = Some (lid, st) \<Longrightarrow> in_flight gid lid (ordered st) db \<and> rows_of_fire gid lid st) \<Longrightarrow> flying (F, db)"
  by (simp add: flying_def)

lemma flying_same:
  assumes "flying (F, db)" "sound db'" "\<And>gid lid st. F gid = Some (lid, st) \<Longrightarrow> spares gid db db'"
  shows "flying (F, db')"
  using assms(2)
proof (rule flyingI)
  fix gid lid st assume f: "F gid = Some (lid, st)"
  show "in_flight gid lid (ordered st) db' \<and> rows_of_fire gid lid st"
    using spares_in_flight [OF assms(3) [OF f]] flying_fire(1,2) [OF assms(1) f] by simp
qed

lemma flying_without:
  assumes "flying (F, db)" "sound db'" "\<And>gid lid st. F gid = Some (lid, st) \<Longrightarrow> i \<noteq> gid \<Longrightarrow> spares gid db db'"
  shows "flying (F(i := None), db')"
  using assms(2)
proof (rule flyingI)
  fix gid lid st assume "(F(i := None)) gid = Some (lid, st)"
  then have f: "F gid = Some (lid, st)" "i \<noteq> gid" by (simp_all split: if_splits)
  show "in_flight gid lid (ordered st) db' \<and> rows_of_fire gid lid st"
    using spares_in_flight [OF assms(3) [OF f]] flying_fire(1,2) [OF assms(1) f(1)] by simp
qed

lemma flying_with:
  assumes "flying (F, db)" "sound db'" "\<And>gid lid st. F gid = Some (lid, st) \<Longrightarrow> i \<noteq> gid \<Longrightarrow> spares gid db db'"
    and "in_flight i k (ordered here) db'" "rows_of_fire i k here"
  shows "flying (F(i \<mapsto> (k, here)), db')"
  using assms(2)
proof (rule flyingI)
  fix gid lid st assume f: "(F(i \<mapsto> (k, here))) gid = Some (lid, st)"
  show "in_flight gid lid (ordered st) db' \<and> rows_of_fire gid lid st"
  proof (cases "i = gid")
    case True
    with f assms(4,5) show ?thesis by auto
  next
    case False
    with f have f: "F gid = Some (lid, st)" by simp
    show ?thesis using spares_in_flight [OF assms(3) [OF f False]] flying_fire(1,2) [OF assms(1) f] by simp
  qed
qed

subsection \<open>Every step keeps the invariant\<close>

lemma fire_starts:
  assumes "flying (F, db)" "leg_row X lid db = Some l" "lg_status l = Triggering" "lg_gtt_id l = gid"
    and c: "claim_gtt (\<lambda>g. True) (\<lambda>g. g\<lparr>gt_status := Triggered\<rparr>) gid db = (True, db1)"
  shows "flying (F(gid \<mapsto> (lid, Gtt_claimed)), db1)"
proof -
  have s: "sound db" using assms(1) by (simp add: flying_def)
  have m: "mid_fire gid db1" using claim_parent_mid [OF c s] .
  obtain row where row: "row \<in> set (gtt_legs db)" "l = read_leg X row" "lg_id row = lid"
    using leg_row_SomeD [OF assms(2)] by blast
  have same: "gtt_legs db1 = gtt_legs db" "children db1 = children db" using claim_gtt_frame [OF c] by simp_all
  have "lg_gtt_id row = gid" "lg_status row = Triggering" using row(2) assms(3,4) by simp_all
  moreover have "exclusive (gtt_legs db) (children db)" using s by (simp add: sound_def gtt_view_def gtt_inv_def)
  ultimately have "alone_in gid lid db1"
    using row(1,3) same(1) by (auto simp: alone_in_def engaged_def dest: exclusiveD)
  moreover have "\<not> has_child (children db1) row"
    using m row(1) \<open>lg_gtt_id row = gid\<close> same(1) by (auto simp: mid_fire_def uncommitted_def committed_def)
  ultimately have "in_flight gid lid False db1"
    using m row(1,3) \<open>lg_gtt_id row = gid\<close> same(1) by (auto simp: in_flight_def mid_fire_def asleep_def)
  moreover have "sound db1" using m by (simp add: mid_fire_def)
  ultimately show ?thesis
    using assms(1) spares_claim_gtt [OF c flying_fire(3) [OF assms(1)]]
    by (intro flying_with [OF assms(1)]) (simp_all add: stage_defs)
qed

lemma fire_released:
  assumes "flying (F, db)" "F gid = Some (lid, Gtt_claimed)" "gtt_row X gid db = Some g" "leg_row X lid db = Some l"
    and r: "release_reservation X g db = (True, db1)"
  shows "flying (F(gid \<mapsto> (lid, Reserve_returned g l)), db1)"
proof -
  note f = flying_fire [OF assms(1,2)]
  have "mid_fire gid db"
    using in_flight_mid [of db gid lid] assms(1) f(1) by (simp add: flying_def stage_defs)
  from mid_fire_release [OF r this] have "sound db1" by (simp add: mid_fire_def)
  moreover have "in_flight gid lid False db1"
    using spares_in_flight [OF spares_release [OF r f(3)] f(1)] by (simp add: stage_defs)
  moreover have "gt_gtt_id g = gid" "lg_id l = lid" using gtt_row_SomeD [OF assms(3)] leg_row_SomeD [OF assms(4)] by auto
  ultimately show ?thesis
    using spares_release [OF r flying_fire(3) [OF assms(1)]]
    by (intro flying_with [OF assms(1)]) (simp_all add: stage_defs)
qed

lemma fire_not_released:
  assumes "flying (F, db)" "F gid = Some (lid, Gtt_claimed)" "release_reservation X g db = (False, db1)"
  shows "flying (F(gid := None), revert_claim lid (revert_parent gid db1))"
proof -
  note f = flying_fire [OF assms(1,2)]
  have "mid_fire gid db"
    using in_flight_mid [of db gid lid] assms(1) f(1) by (simp add: flying_def stage_defs)
  then have "sound (revert_parent gid db1)" using mid_fire_revert mid_fire_release [OF assms(3)] by blast
  then have "sound (revert_claim lid (revert_parent gid db1))" by simp
  then show ?thesis
  proof (rule flying_without [OF assms(1)])
    fix k lk st assume o: "F k = Some (lk, st)" "gid \<noteq> k"
    note one = spares_release [OF assms(3) flying_fire(3) [OF assms(1) o(1)]]
    show "spares k db (revert_claim lid (revert_parent gid db1))"
      using spares_trans [OF one spares_revert [OF spares_asleep [OF one] o(2)]] .
  qed
qed

lemma fire_ordered:
  assumes "flying (F, db)" "F gid = Some (lid, Reserve_returned g l)" "\<not> x_db_error X"
    and p: "place_order X (gt_user g) (leg_order g l) None db = (Order_ok oid, db1)"
  shows "flying (F(gid \<mapsto> (lid, Leg_order_placed g oid)), db1)"
proof -
  note f = flying_fire [OF assms(1,2)]
  have ids: "gt_gtt_id g = gid" "lg_id l = lid" using f(2) by (simp_all add: stage_defs)
  have fl: "in_flight gid lid False db" using f(1) by (simp add: stage_defs)
  have mid: "mid_fire gid db" using in_flight_mid [OF _ fl] assms(1) by (simp add: flying_def)
  from fl obtain row where row: "row \<in> set (gtt_legs db)" "lg_id row = lid" "lg_gtt_id row = gid" by (auto simp: in_flight_def)
  have tag: "fm_gtt_leg_id (leg_order g l) = Some lid" using ids(2) by (simp add: leg_order_def)
  have "\<forall>s \<in> set (gtt_legs db). lg_gtt_id s = gid \<longrightarrow> lg_status s = Triggering \<longrightarrow> lg_id s = lg_id row"
    using fl row(2) by (simp add: in_flight_def alone_in_def)
  from placed_child [OF p assms(3) mid row(1,3) this] tag row(2)
  have o: "sound db1" "gtts db1 = gtts db" "gtt_legs db1 = gtt_legs db" "has_child (children db1) row" by simp_all
  then have "in_flight gid lid True db1" using f(3) row by (auto simp: in_flight_def asleep_def)
  with ids(1) o(1) show ?thesis
    using spares_place_order [OF p assms(3) flying_fire(3) [OF assms(1)] tag other_legs [OF assms(1,2)]]
    by (intro flying_with [OF assms(1)]) (simp_all add: stage_defs)
qed

lemma fire_refused:
  assumes "flying (F, db)" "F gid = Some (lid, Reserve_returned g l)" "\<not> x_db_error X"
    and "place_order X (gt_user g) (leg_order g l) None db = (resp, db1)" "\<forall>oid. resp \<noteq> Order_ok oid"
  shows "flying (F(gid \<mapsto> (lid, Leg_order_refused g)), db1)"
proof -
  note f = flying_fire [OF assms(1,2)]
  have v: "gtt_view db1 = gtt_view db" using place_order_refused_view [OF assms(4,3,5)] .
  have "sound db1" using assms(1) sound_cong [OF v] by (simp add: flying_def)
  moreover have "in_flight gid lid False db1"
    using spares_in_flight [OF spares_view [OF v f(3)] f(1)] by (simp add: stage_defs)
  ultimately show ?thesis
    using f(2) spares_view [OF v flying_fire(3) [OF assms(1)]]
    by (intro flying_with [OF assms(1)]) (simp_all add: stage_defs)
qed

lemma fire_compensated:
  assumes "flying (F, db)" "F gid = Some (lid, Leg_order_refused g)"
  shows "flying (F(gid := None), compensate_failed_fire X uid (gt_gtt_id g) lid amount db)"
proof -
  note f = flying_fire [OF assms]
  have g: "gt_gtt_id g = gid" using f(2) by (simp add: stage_defs)
  have "mid_fire gid db" using in_flight_mid [of db gid lid] assms(1) f(1) by (simp add: flying_def stage_defs)
  from sound_compensate [OF this] show ?thesis
    unfolding g using spares_compensate flying_fire(3) [OF assms(1)] by (intro flying_without [OF assms(1)]) blast+
qed

lemma fire_finished:
  assumes "flying (F, db)" "F gid = Some (lid, Leg_order_placed g oid)"
  shows "flying (F(gid := None), finish_fire g lid oid db)"
proof -
  from flying_fire(1) [OF assms] obtain row where "lg_id row = lid" "has_child (children db) row"
    by (auto simp: in_flight_def stage_defs)
  then have "has_child (children db) l" if "lg_id l = lid" for l using that by (simp add: has_child_def)
  then have "sound (finish_fire g lid oid db)" using assms(1) by (intro sound_finish_fire) (simp_all add: flying_def)
  then show ?thesis
    using spares_finish_fire [OF flying_fire(3) [OF assms(1)] other_legs [OF assms]]
    by (intro flying_without [OF assms(1)])
qed

lemma step_keeps_flying:
  assumes "gtt_step s s'" "flying s"
  shows "flying s'"
  using assms
proof (induction rule: gtt_step.induct)
  case (step_place F db X uid f last_price)
  then show ?case
    using spares_place_gtt [OF flying_fire(3,4) [OF step_place]] by (intro flying_same [OF step_place]) (auto simp: flying_def sound_place_gtt)
next
  case (step_modify F db X uid g rows f legs margins)
  then show ?case
    using spares_reprice [OF flying_fire(3) [OF step_modify]] by (intro flying_same [OF step_modify]) (auto simp: flying_def sound_reprice)
next
  case (step_cancel F db X uid g)
  then show ?case
    using spares_cancel_gtt [OF flying_fire(3) [OF step_cancel]] by (intro flying_same [OF step_cancel]) (auto simp: flying_def sound_cancel_gtt)
next
  case (step_expire F db X g)
  then show ?case
    using spares_expire_gtt [OF flying_fire(3) [OF step_expire]] by (intro flying_same [OF step_expire]) (auto simp: flying_def sound_expire_gtt)
next
  case (step_claim F db X lid)
  then show ?case
    using spares_try_claim [OF flying_fire(3) [OF step_claim]] by (intro flying_same [OF step_claim]) (auto simp: flying_def sound_try_claim)
next
  case (step_let_go F db lid)
  then show ?case
    using spares_revert_claim [OF flying_fire(3) [OF step_let_go]] by (intro flying_same [OF step_let_go]) (auto simp: flying_def)
next
  case (step_cut_off F db gid)
  then show ?case by (auto simp: flying_def)
next
  case (step_reap db X)
  then show ?case by (simp add: flying_def sound_reclaim_legs)
next
  case (step_trade db' db F)
  then show ?case
    using spares_view [OF step_trade(1) flying_fire(3) [OF step_trade(2)]] sound_cong [OF step_trade(1)]
    by (intro flying_same [OF step_trade(2)]) (auto simp: flying_def)
qed (simp_all add: fire_starts fire_released fire_not_released fire_ordered fire_refused fire_compensated fire_finished)

lemma reachable_flying: "gtt_reachable start s \<Longrightarrow> sound start \<Longrightarrow> flying s"
  by (induction rule: gtt_reachable.induct) (auto simp: flying_def [of "(Map.empty, start)"] intro: step_keeps_flying)

text \<open>The fire of the model, which runs to its end at once, is a sequence of these steps.\<close>

lemma placed_leg_is_reachable:
  assumes "gtt_reachable start (F, db)" "F gid = Some (lid, Reserve_returned g l)" "lg_id l = lid" "\<not> x_db_error X"
  shows "\<exists>F1. gtt_reachable start (F1, snd (place_leg_order X g l db))"
proof -
  obtain resp db1 where p: "place_order X (gt_user g) (leg_order g l) None db = (resp, db1)" by fastforce
  show ?thesis
  proof (cases "\<exists>oid. resp = Order_ok oid")
    case True
    then obtain oid where ok: "resp = Order_ok oid" by blast
    from reach_step [OF assms(1) step_order [where F = F and gid = gid, OF assms(2) p [unfolded ok] assms(4)]]
    have "gtt_reachable start (F(gid \<mapsto> (lid, Leg_order_placed g oid)), db1)" .
    from reach_step [OF this step_finish [of _ gid lid g oid]]
    have "gtt_reachable start (F(gid := None), finish_fire g lid oid db1)" by simp
    moreover have "snd (place_leg_order X g l db) = finish_fire g lid oid db1"
      using p ok assms(3) by (simp add: place_leg_order_def)
    ultimately show ?thesis by metis
  next
    case False
    then have no: "\<forall>oid. resp \<noteq> Order_ok oid" by blast
    let ?undone = "compensate_failed_fire X (gt_user g) (gt_gtt_id g) lid (if gt_margin_blocked g > 0 then gt_margin_blocked g else 0) db1"
    from reach_step [OF assms(1) step_refused [where F = F and gid = gid, OF assms(2) p assms(4) no]]
    have "gtt_reachable start (F(gid \<mapsto> (lid, Leg_order_refused g)), db1)" .
    from reach_step [OF this step_compensate [of _ gid lid g _ X]]
    have "gtt_reachable start (F(gid := None), ?undone)" by simp
    moreover have "snd (place_leg_order X g l db) = ?undone"
      using no by (cases resp) (simp_all add: place_leg_order_def p assms(3))
    ultimately show ?thesis by metis
  qed
qed

lemma claimed_fire_is_reachable:
  assumes "gtt_reachable start (F, db)" "leg_row X lid db = Some l" "lg_status l = Triggering" "lg_gtt_id l = gid" "\<not> x_db_error X"
  shows "\<exists>F1. gtt_reachable start (F1, snd (fire_claimed_leg X gid lid db))"
proof -
  obtain won db1 where c: "claim_gtt (\<lambda>g. True) (\<lambda>g. g\<lparr>gt_status := Triggered\<rparr>) gid db = (won, db1)" by fastforce
  show ?thesis
  proof (cases won)
    case False
    with c reach_step [OF assms(1) step_let_go] show ?thesis by (auto simp: fire_claimed_leg_def)
  next
    case True
    with c have "claim_gtt (\<lambda>g. True) (\<lambda>g. g\<lparr>gt_status := Triggered\<rparr>) gid db = (True, db1)" by simp
    from reach_step [OF assms(1) step_fire [OF assms(2-4) this]]
    have one: "gtt_reachable start (F(gid \<mapsto> (lid, Gtt_claimed)), db1)" .
    have leg: "leg_row X lid db1 = Some l" using assms(2) leg_row_cong claim_gtt_frame [OF c] by metis
    show ?thesis
    proof (cases "gtt_row X gid db1")
      case None
      with one c True show ?thesis by (auto simp: fire_claimed_leg_def)
    next
      case (Some g)
      obtain ok db2 where r: "release_reservation X g db1 = (ok, db2)" by fastforce
      show ?thesis
      proof (cases ok)
        case True
        with reach_step [OF one step_release [where F = "F(gid \<mapsto> (lid, Gtt_claimed))" and lid = lid, OF _ Some leg]] r
        have "gtt_reachable start (F(gid \<mapsto> (lid, Reserve_returned g l)), db2)" by simp
        then have "\<exists>F1. gtt_reachable start (F1, snd (place_leg_order X g l db2))"
          using leg_row_SomeD [OF leg] assms(5)
          by (intro placed_leg_is_reachable [where gid = gid and lid = lid and F = "F(gid \<mapsto> (lid, Reserve_returned g l))"]) auto
        then show ?thesis using c \<open>won\<close> Some leg r True by (simp add: fire_claimed_leg_def)
      next
        case False
        with reach_step [OF one step_not_released [where F = "F(gid \<mapsto> (lid, Gtt_claimed))" and lid = lid, OF _ Some]] r c \<open>won\<close> leg Some show ?thesis
          by (auto simp: fire_claimed_leg_def)
      qed
    qed
  qed
qed

lemma whole_fire_is_reachable:
  assumes "gtt_reachable start (F, db)" "\<not> x_db_error X"
  shows "\<exists>F1. gtt_reachable start (F1, snd (fire_leg X lock_free lid db))"
proof (cases "leg_row X lid db")
  case None
  with assms(1) show ?thesis by (auto simp: fire_leg_def)
next
  case (Some l)
  have let_go: "\<exists>F1. gtt_reachable start (F1, revert_claim lid db)" using reach_step [OF assms(1) step_let_go] by blast
  from claimed_fire_is_reachable [OF assms(1) Some _ _ assms(2)] let_go assms(1) Some show ?thesis
    by (auto simp: fire_leg_def dest: gtt_row_SomeD split: option.split)
qed

text \<open>C12: a GTT never places a second child order.  The states are those reached from a sandbox without GTTs by placements,
  late or concurrent cancels, modifications and expiries, claims of any evaluators, fires that run beside all this and
  beside each other, commit by commit, and may be cut off after any of their commits, recovery passes while no fire is
  running (also after one that was cut off), and other trading.  In all of them at most one order exists for the legs
  of one GTT, at most one of its legs is being fired or has fired, and as long as the GTT is active there is no order
  at all.  Left out are a recovery pass in the middle of a running fire, where this fails (a theorem of the recovery
  shows how), and database errors inside a fire, or that make a child order rejected.\<close>

theorem gtt_never_fires_twice:
  assumes "no_gtts start" and "gtt_reachable start (F, db)" and "g \<in> set (gtts db)"
  shows "length (gtt_orders (gt_gtt_id g) db) \<le> 1 \<and>
    (gt_status g = Active \<longrightarrow> gtt_orders (gt_gtt_id g) db = []) \<and>
    (\<forall>l \<in> set (gtt_legs db). \<forall>s \<in> set (gtt_legs db).
       lg_gtt_id l = gt_gtt_id g \<longrightarrow> lg_gtt_id s = gt_gtt_id g \<longrightarrow>
       lg_status l \<in> {Triggering, Leg_triggered} \<longrightarrow> lg_status s \<in> {Triggering, Leg_triggered} \<longrightarrow>
       lg_id l = lg_id s)"
proof -
  have s: "sound db" using reachable_flying [OF assms(2) no_gtts_sound [OF assms(1)]] by (simp add: flying_def)
  then have ex: "exclusive (gtt_legs db) (children db)" by (simp add: sound_def gtt_view_def gtt_inv_def)
  have "\<forall>l \<in> set (gtt_legs db). \<forall>s \<in> set (gtt_legs db).
       lg_gtt_id l = gt_gtt_id g \<longrightarrow> lg_gtt_id s = gt_gtt_id g \<longrightarrow>
       lg_status l \<in> {Triggering, Leg_triggered} \<longrightarrow> lg_status s \<in> {Triggering, Leg_triggered} \<longrightarrow>
       lg_id l = lg_id s"
  proof (intro ballI impI)
    fix l s assume ls: "l \<in> set (gtt_legs db)" "s \<in> set (gtt_legs db)"
      "lg_gtt_id l = gt_gtt_id g" "lg_gtt_id s = gt_gtt_id g"
      and busy: "lg_status l \<in> {Triggering, Leg_triggered}" "lg_status s \<in> {Triggering, Leg_triggered}"
    have "engaged (children db) l" "engaged (children db) s" using busy by (simp_all add: engaged_def)
    with exclusiveD [OF ex ls(1,2)] ls(3,4) show "lg_id l = lg_id s" by simp
  qed
  with sound_one_order [OF s] sound_active_unfired [OF s assms(3)] show ?thesis by blast
qed

theorem gtt_never_fires_twice_witness:
  "\<exists>db. gtt_reachable sample_db (Map.empty, db) \<and> map lg_status (gtt_legs db) = [Triggering, Pending] \<and>
     map gt_status (gtts db) = [Active] \<and> gtt_orders 7 db = []"
proof -
  have "gtt_reachable sample_db (Map.empty, oco_db)"
    using reach_step [OF reach_start step_place, of sample_db sample_ext "''u''" sample_oco 100] sample_oco_placed
    by simp
  then have r: "gtt_reachable sample_db (Map.empty, claimed_db)"
    using reach_step [OF _ step_claim, of sample_db Map.empty oco_db sample_ext 1] oco_claimed by simp
  have "no_gtts sample_db" by (simp add: no_gtts_def sample_db_def)
  from gtt_never_fires_twice [OF this r, of oco_gtt] have "gtt_orders 7 claimed_db = []"
    by (simp add: claimed_db_rows)
  with r show ?thesis by (intro exI [of _ claimed_db]) (simp add: claimed_db_rows)
qed

end
