(* ===== verification/HoldingsManager.thy ===== *)
theory HoldingsManager
  imports ExecutionEngine
begin

text \<open>
  The holdings manager (\<open>sandbox/holdings_manager.py\<close>): the T+1 settlement that moves delivery
  positions of earlier days into holdings, the mark to market of holdings and their summary; and
  the claim (\<open>position_manager.py\<close>) every settlement takes on the position it settles.

  A settlement works on positions it loaded before its transaction began, so each takes the list
  of what was observed, as (row id, quantity), beside the state it then claims in.  The whole run
  commits once.
\<close>

subsection \<open>The claim on a position\<close>

text \<open>
  A no-op UPDATE matched on the observed quantity and the caller's further condition; the row is
  read again on success.  Nothing changes either way.
\<close>

definition claim_position_for_settlement ::
    "ext \<Rightarrow> nat \<Rightarrow> int \<Rightarrow> (sandbox_position \<Rightarrow> bool) \<Rightarrow> sandbox \<Rightarrow> sandbox_position option" where
  "claim_position_for_settlement X pid observed condition db =
     (let P = (\<lambda>p. po_id p = pid \<and> po_quantity p = observed \<and> condition p) in
      if row_count P (positions db) \<noteq> 1 then None
      else map_option (read_position X) (find P (positions db)))"

definition delete_position :: "nat \<Rightarrow> sandbox \<Rightarrow> sandbox" where
  "delete_position pid db = db\<lparr>positions := filter (\<lambda>p. po_id p \<noteq> pid) (positions db)\<rparr>"

subsection \<open>Folding a position into its holding\<close>

definition same_holding :: "string \<Rightarrow> string \<Rightarrow> string \<Rightarrow> sandbox_holding \<Rightarrow> bool" where
  "same_holding uid symbol exchange h \<longleftrightarrow>
     ho_user h = uid \<and> ho_symbol h = symbol \<and> ho_exchange h = exchange"

definition position_cost :: "sandbox_position \<Rightarrow> rat" where
  "position_cost p = of_int \<bar>po_quantity p\<bar> * po_average_price p"

definition settled_average :: "sandbox_holding \<Rightarrow> sandbox_position \<Rightarrow> rat" where
  "settled_average h p =
     (let total_value = of_int \<bar>ho_quantity h\<bar> * ho_average_price h + position_cost p;
          total_quantity = \<bar>ho_quantity h\<bar> + \<bar>po_quantity p\<bar>
      in if total_quantity > 0 then total_value / of_int total_quantity else ho_average_price h)"

text \<open>The row after the fold: \<open>h\<close> as it was read decides, the other columns of \<open>row\<close> stay.\<close>

definition folded_holding :: "sandbox_holding \<Rightarrow> sandbox_position \<Rightarrow> sandbox_holding \<Rightarrow> sandbox_holding" where
  "folded_holding h p row =
     (if po_quantity p > 0
      then row\<lparr>ho_quantity := ho_quantity h + po_quantity p, ho_average_price := settled_average h p\<rparr>
      else row\<lparr>ho_quantity := ho_quantity h + po_quantity p\<rparr>)\<lparr>ho_ltp := po_ltp p\<rparr>"

definition write_holding ::
    "(sandbox_holding \<Rightarrow> bool) \<Rightarrow> (sandbox_holding \<Rightarrow> sandbox_holding) \<Rightarrow> sandbox \<Rightarrow> sandbox" where
  "write_holding P f db =
     db\<lparr>holdings := filter (\<lambda>h. \<not> (P h \<and> ho_quantity h = 0)) (sql_update P f (holdings db))\<rparr>"

text \<open>
  The money side: the cost of a bought position leaves the reserved margin, the proceeds of a
  sold one are credited.  What the fund manager answers is not looked at.
\<close>

definition settle_money :: "ext \<Rightarrow> string \<Rightarrow> sandbox_position \<Rightarrow> sandbox \<Rightarrow> sandbox" where
  "settle_money X uid p db =
     (if po_quantity p > 0 then snd (stage_transfer_margin_to_holdings X uid (position_cost p) db)
      else snd (stage_credit_sale_proceeds X uid (position_cost p) db))"

definition new_holding :: "ext \<Rightarrow> string \<Rightarrow> sandbox_position \<Rightarrow> sandbox_holding" where
  "new_holding X uid p =
     \<lparr> ho_user = uid, ho_symbol = po_symbol p, ho_exchange = po_exchange p,
       ho_quantity = po_quantity p, ho_average_price = po_average_price p,
       ho_ltp = (case po_ltp p of
                   Some l \<Rightarrow> if l = 0 then Some (po_average_price p) else Some l
                 | None \<Rightarrow> Some (po_average_price p)),
       ho_pnl = 0, ho_pnl_percent = 0, ho_settlement_date = day_of (x_now X) \<rparr>"

text \<open>Without a holding the position becomes one as it is, and its cost is always transferred.\<close>

definition fold_into_holding :: "ext \<Rightarrow> string \<Rightarrow> sandbox_position \<Rightarrow> sandbox \<Rightarrow> sandbox" where
  "fold_into_holding X uid p db =
     (let same = same_holding uid (po_symbol p) (po_exchange p) in
      case find same (holdings db) of
        Some row \<Rightarrow> write_holding same (folded_holding (read_holding X row) p) (settle_money X uid p db)
      | None \<Rightarrow>
          (let db1 = snd (stage_transfer_margin_to_holdings X uid (position_cost p) db)
           in db1\<lparr>holdings := holdings db1 @ [new_holding X uid p]\<rparr>))"

subsection \<open>The settlement run\<close>

definition settle_t1 :: "ext \<Rightarrow> string \<Rightarrow> nat \<times> int \<Rightarrow> sandbox \<Rightarrow> nat \<times> sandbox" where
  "settle_t1 X uid obs db =
     (case claim_position_for_settlement X (fst obs) (snd obs) (\<lambda>p. True) db of
        None \<Rightarrow> (0, db)
      | Some p \<Rightarrow>
          if po_quantity p = 0 then (0, delete_position (po_id p) db)
          else (1, delete_position (po_id p) (fold_into_holding X uid p db)))"

primrec settle_each :: "ext \<Rightarrow> string \<Rightarrow> (nat \<times> int) list \<Rightarrow> nat \<Rightarrow> sandbox \<Rightarrow> nat \<times> sandbox" where
  "settle_each X uid [] n db = (n, db)"
| "settle_each X uid (obs # rest) n db =
     (case settle_t1 X uid obs db of (k, db1) \<Rightarrow> settle_each X uid rest (n + k) db1)"

definition due_for_t1 :: "ext \<Rightarrow> string \<Rightarrow> sandbox_position \<Rightarrow> bool" where
  "due_for_t1 X uid p \<longleftrightarrow>
     po_user p = uid \<and> po_product p = CNC \<and> po_created_at p < day_of (x_now X) * ms_per_day"

definition t1_observed :: "ext \<Rightarrow> string \<Rightarrow> sandbox \<Rightarrow> (nat \<times> int) list" where
  "t1_observed X uid db = map (\<lambda>p. (po_id p, po_quantity p)) (filter (due_for_t1 X uid) (positions db))"

datatype t1_result = Nothing_to_settle | Settled nat | Settlement_error

definition process_t1_from :: "ext \<Rightarrow> string \<Rightarrow> (nat \<times> int) list \<Rightarrow> sandbox \<Rightarrow> t1_result \<times> sandbox" where
  "process_t1_from X uid observed db =
     (if observed = [] then (Nothing_to_settle, db)
      else if x_db_error X then (Settlement_error, db)
      else (case settle_each X uid observed 0 db of
              (n, db1) \<Rightarrow> (Settled n, if n > 0 then publish (T1_settled uid n) db1 else db1)))"

definition process_t1_settlement :: "ext \<Rightarrow> string \<Rightarrow> sandbox \<Rightarrow> t1_result \<times> sandbox" where
  "process_t1_settlement X uid db = process_t1_from X uid (t1_observed X uid db) db"

primrec t1_each_user :: "ext \<Rightarrow> string list \<Rightarrow> nat \<Rightarrow> sandbox \<Rightarrow> nat \<times> sandbox" where
  "t1_each_user X [] n db = (n, db)"
| "t1_each_user X (u # us) n db =
     (case process_t1_settlement X u db of
        (res, db1) \<Rightarrow> t1_each_user X us (if res = Settlement_error then n else Suc n) db1)"

definition process_all_t1_settlements :: "ext \<Rightarrow> sandbox \<Rightarrow> nat \<times> sandbox" where
  "process_all_t1_settlements X db =
     t1_each_user X (remdups (map po_user (filter (\<lambda>p. due_for_t1 X (po_user p) p) (positions db)))) 0 db"

subsection \<open>Mark to market\<close>

definition calculate_holding_pnl :: "int \<Rightarrow> rat \<Rightarrow> rat \<Rightarrow> rat" where
  "calculate_holding_pnl quantity avg_price ltp = (ltp - avg_price) * of_int \<bar>quantity\<bar>"

definition holding_pnl_percent :: "rat \<Rightarrow> rat \<Rightarrow> rat" where
  "holding_pnl_percent avg_price ltp =
     (if avg_price \<le> 0 then 0 else (ltp - avg_price) / avg_price * 100)"

definition marked_holding ::
    "ext \<Rightarrow> (string \<Rightarrow> string \<Rightarrow> rat option) \<Rightarrow> sandbox_holding \<Rightarrow> sandbox_holding" where
  "marked_holding X quotes row =
     (let h = read_holding X row in
      case quotes (ho_symbol h) (ho_exchange h) of
        None \<Rightarrow> row
      | Some ltp \<Rightarrow>
          if ltp > 0 then
            row\<lparr>ho_ltp := Some ltp,
                ho_pnl := calculate_holding_pnl (ho_quantity h) (ho_average_price h) ltp,
                ho_pnl_percent := holding_pnl_percent (ho_average_price h) ltp\<rparr>
          else row)"

text \<open>\<open>quotes\<close> holds the last traded prices the batch request answered.\<close>

definition update_holdings_mtm ::
    "ext \<Rightarrow> (string \<Rightarrow> string \<Rightarrow> rat option) \<Rightarrow> string \<Rightarrow> sandbox \<Rightarrow> sandbox" where
  "update_holdings_mtm X quotes uid db =
     db\<lparr>holdings := sql_update (\<lambda>h. ho_user h = uid \<and> ho_quantity h \<noteq> 0) (marked_holding X quotes) (holdings db)\<rparr>"

record holding_statistics =
  hs_value :: rat
  hs_investment :: rat
  hs_pnl :: rat
  hs_pnl_percent :: rat

definition holding_stats :: "sandbox_holding list \<Rightarrow> holding_statistics" where
  "holding_stats rows =
     (let total_pnl = sum_list (map ho_pnl rows);
          value = (\<lambda>h. case ho_ltp h of Some l \<Rightarrow> of_int \<bar>ho_quantity h\<bar> * l | None \<Rightarrow> 0);
          investment = sum_list (map (\<lambda>h. of_int \<bar>ho_quantity h\<bar> * ho_average_price h) rows)
      in \<lparr> hs_value = sum_list (map value rows), hs_investment = investment, hs_pnl = total_pnl,
           hs_pnl_percent = (if investment > 0 then total_pnl / investment * 100 else 0) \<rparr>)"

definition get_holdings ::
    "ext \<Rightarrow> (string \<Rightarrow> string \<Rightarrow> rat option) \<Rightarrow> bool \<Rightarrow> string \<Rightarrow> sandbox
     \<Rightarrow> (sandbox_holding list \<times> holding_statistics) \<times> sandbox" where
  "get_holdings X quotes update_mtm uid db =
     (let db1 = (if update_mtm then update_holdings_mtm X quotes uid db else db);
          rows = map (read_holding X) (filter (\<lambda>h. ho_user h = uid \<and> ho_quantity h \<noteq> 0) (holdings db1))
      in ((rows, holding_stats rows), db1))"

end
