(* ===== verification/HoldingsLaws.thy ===== *)
theory HoldingsLaws
  imports HoldingsManager ExecutionLaws
begin

text \<open>
  The laws of the T+1 settlement: which positions a run takes, that it neither makes nor loses
  shares, that it takes no position twice however stale the list it works on, what it does to the
  account, and the bounds of the averages it stores.
\<close>

subsection \<open>Shares\<close>

definition delivery_position :: "string \<Rightarrow> string \<Rightarrow> string \<Rightarrow> sandbox_position \<Rightarrow> bool" where
  "delivery_position uid symbol exchange p \<longleftrightarrow>
     po_user p = uid \<and> po_product p = CNC \<and> po_symbol p = symbol \<and> po_exchange p = exchange"

definition position_units :: "string \<Rightarrow> string \<Rightarrow> string \<Rightarrow> sandbox \<Rightarrow> int" where
  "position_units uid symbol exchange db =
     sum_list (map po_quantity (filter (delivery_position uid symbol exchange) (positions db)))"

definition holding_units :: "string \<Rightarrow> string \<Rightarrow> string \<Rightarrow> sandbox \<Rightarrow> int" where
  "holding_units uid symbol exchange db =
     sum_list (map ho_quantity (filter (same_holding uid symbol exchange) (holdings db)))"

definition delivery_units :: "string \<Rightarrow> string \<Rightarrow> string \<Rightarrow> sandbox \<Rightarrow> int" where
  "delivery_units uid symbol exchange db =
     position_units uid symbol exchange db + holding_units uid symbol exchange db"

definition holding_key :: "sandbox_holding \<Rightarrow> string \<times> string \<times> string" where
  "holding_key h = (ho_user h, ho_symbol h, ho_exchange h)"

definition holdings_wf :: "sandbox \<Rightarrow> bool" where
  "holdings_wf db \<longleftrightarrow> distinct (map holding_key (holdings db))"

lemma same_holding_key: "same_holding uid s e h \<longleftrightarrow> holding_key h = (uid, s, e)"
  by (auto simp: same_holding_def holding_key_def)

lemma sum_list_delete:
  fixes g :: "'r \<Rightarrow> int"
  assumes "distinct (map key rows)" and "r \<in> set rows"
  shows "sum_list (map g (filter P (filter (\<lambda>x. key x \<noteq> key r) rows))) =
         sum_list (map g (filter P rows)) - (if P r then g r else 0)"
  using assms
proof (induction rows)
  case (Cons x rows)
  show ?case
  proof (cases "x = r")
    case True
    with Cons.prems have "filter (\<lambda>y. key y \<noteq> key r) rows = rows"
      by (auto simp: filter_id_conv image_iff dest: sym)
    with True show ?thesis by simp
  next
    case False
    with Cons.prems have "r \<in> set rows" "key x \<noteq> key r" by auto
    with Cons show ?thesis by auto
  qed
qed simp

lemma sum_list_drop_zeros:
  fixes g :: "'r \<Rightarrow> int"
  shows "sum_list (map g (filter Q (filter (\<lambda>h. \<not> (P h \<and> g h = 0)) rows))) = sum_list (map g (filter Q rows))"
  by (induction rows) auto

lemma sum_list_sql_update:
  fixes g :: "'r \<Rightarrow> int"
  assumes "distinct (map key rows)" and "r \<in> set rows" and "\<And>x. P x \<longleftrightarrow> key x = key r"
    and "\<And>x. key (f x) = key x" and "\<And>x. Q x \<longleftrightarrow> key x = k"
  shows "sum_list (map g (filter Q (sql_update P f rows))) =
         sum_list (map g (filter Q rows)) + (if Q r then g (f r) - g r else 0)"
  using assms(1,2)
proof (induction rows)
  case (Cons x rows)
  show ?case
  proof (cases "x = r")
    case True
    with Cons.prems have "\<forall>y \<in> set rows. \<not> P y" by (auto simp: assms(3) image_iff)
    then have "sql_update P f rows = rows" by (intro sql_update_no_match) simp
    moreover have "P r" using assms(3) by simp
    ultimately show ?thesis using True by (simp add: sql_update_Cons assms(4,5))
  next
    case False
    with Cons.prems have "r \<in> set rows" "\<not> P x" by (auto simp: assms(3) image_iff)
    with Cons show ?thesis by (auto simp: sql_update_Cons)
  qed
qed simp

subsection \<open>The claim\<close>

lemma claim_position_SomeD:
  assumes "claim_position_for_settlement X pid q P db = Some p"
  shows "\<exists>row \<in> set (positions db). po_id row = pid \<and> po_quantity row = q \<and> P row \<and> p = read_position X row"
  using assms
  by (auto simp: claim_position_for_settlement_def Let_def split: if_splits dest!: find_SomeD)

lemma claim_position_row:
  assumes "positions_wf db" and "row \<in> set (positions db)" and "P row"
  shows "claim_position_for_settlement X (po_id row) (po_quantity row) P db = Some (read_position X row)"
proof -
  let ?P = "\<lambda>p. po_id p = po_id row \<and> po_quantity p = po_quantity row \<and> P p"
  have one: "row_count ?P (positions db) = 1"
    using row_count_eq_1_iff [OF assms(1) [unfolded positions_wf_def], of ?P "po_id row"] assms(2,3) by blast
  have "find ?P (positions db) \<noteq> None" using assms(2,3) by (auto simp: find_None_iff)
  then obtain r where r: "find ?P (positions db) = Some r" by blast
  with find_SomeD [OF r] assms(1,2) have "r = row"
    by (auto simp: positions_wf_def inj_on_def distinct_map)
  with one r show ?thesis by (simp add: claim_position_for_settlement_def)
qed

lemma claim_position_none:
  assumes "\<And>row. row \<in> set (positions db) \<Longrightarrow> po_id row = pid \<Longrightarrow> po_quantity row = q \<Longrightarrow> \<not> P row"
  shows "claim_position_for_settlement X pid q P db = None"
  using assms claim_position_SomeD [of X pid q P db] by (cases "claim_position_for_settlement X pid q P db") auto

subsection \<open>One settled position\<close>

lemma beside_transfer [simp]:
  "beside_funds F \<Longrightarrow> F (snd (stage_transfer_margin_to_holdings X uid a db)) = F db"
  by (simp add: stage_transfer_margin_to_holdings_def beside_apply_user)

lemma beside_credit [simp]: "beside_funds F \<Longrightarrow> F (snd (stage_credit_sale_proceeds X uid a db)) = F db"
  by (simp add: stage_credit_sale_proceeds_def beside_apply_user)

lemma beside_settle_money [simp]: "beside_funds F \<Longrightarrow> F (settle_money X uid p db) = F db"
  by (simp add: settle_money_def)

text \<open>A view that looks at neither the funds, nor the positions, nor the holdings.\<close>

definition beside_t1 :: "(sandbox \<Rightarrow> 'v) \<Rightarrow> bool" where
  "beside_t1 F \<longleftrightarrow> beside_funds F \<and> (\<forall>rows db. F (db\<lparr>positions := rows\<rparr>) = F db) \<and>
     (\<forall>rows db. F (db\<lparr>holdings := rows\<rparr>) = F db)"

lemma beside_t1_tables [simp, intro]:
  "beside_t1 orders" "beside_t1 trades" "beside_t1 gtts" "beside_t1 gtt_legs" "beside_t1 config" "beside_t1 events"
  by (simp_all add: beside_t1_def)

lemma fold_positions [simp]: "positions (fold_into_holding X uid p db) = positions db"
  by (simp add: fold_into_holding_def write_holding_def Let_def split: option.splits)

lemma beside_fold: "beside_t1 F \<Longrightarrow> F (fold_into_holding X uid p db) = F db"
  by (auto simp: fold_into_holding_def write_holding_def beside_t1_def Let_def split: option.splits)

lemma read_holding_keys [read_simps, simp]:
  "ho_quantity (read_holding X h) = ho_quantity h" "ho_user (read_holding X h) = ho_user h"
  "ho_symbol (read_holding X h) = ho_symbol h" "ho_exchange (read_holding X h) = ho_exchange h"
  "ho_average_price (read_holding X h) = x_read X 2 (ho_average_price h)"
  by (simp_all add: read_holding_def)

lemma folded_key [simp]: "holding_key (folded_holding h p row) = holding_key row"
  by (simp add: folded_holding_def holding_key_def)

lemma folded_quantity [simp]: "ho_quantity (folded_holding h p row) = ho_quantity h + po_quantity p"
  by (simp add: folded_holding_def)

lemma fold_holdings_wf: "holdings_wf db \<Longrightarrow> holdings_wf (fold_into_holding X uid p db)"
proof (cases "find (same_holding uid (po_symbol p) (po_exchange p)) (holdings db)")
  case None
  then have "(uid, po_symbol p, po_exchange p) \<notin> holding_key ` set (holdings db)"
    by (auto simp: find_None_iff same_holding_key dest: sym)
  moreover assume "holdings_wf db"
  ultimately show ?thesis
    using None by (simp add: fold_into_holding_def holdings_wf_def new_holding_def holding_key_def Let_def)
next
  case (Some row)
  assume "holdings_wf db"
  then show ?thesis
    using Some
    by (simp add: fold_into_holding_def holdings_wf_def write_holding_def Let_def distinct_map_filter map_key_sql_update)
qed

text \<open>The shares of the position are in the holding afterwards, whatever the funds answered.\<close>

lemma fold_units:
  assumes "holdings_wf db"
  shows "holding_units v s e (fold_into_holding X uid p db) =
    holding_units v s e db + (if (v, s, e) = (uid, po_symbol p, po_exchange p) then po_quantity p else 0)"
proof (cases "find (same_holding uid (po_symbol p) (po_exchange p)) (holdings db)")
  case None
  then show ?thesis
    by (auto simp: fold_into_holding_def holding_units_def Let_def new_holding_def same_holding_def)
next
  case (Some row)
  let ?P = "same_holding uid (po_symbol p) (po_exchange p)" and ?f = "folded_holding (read_holding X row) p"
  from find_SomeD [OF Some] have row: "row \<in> set (holdings db)" "?P row" by auto
  then have key: "holding_key row = (uid, po_symbol p, po_exchange p)" by (simp add: same_holding_key)
  have rows: "holdings (fold_into_holding X uid p db) =
      filter (\<lambda>h. \<not> (?P h \<and> ho_quantity h = 0)) (sql_update ?P ?f (holdings db))"
    using Some by (simp add: fold_into_holding_def write_holding_def Let_def)
  have "holding_units v s e (fold_into_holding X uid p db) =
      sum_list (map ho_quantity (filter (same_holding v s e) (sql_update ?P ?f (holdings db))))"
    unfolding holding_units_def rows by (rule sum_list_drop_zeros)
  also have "\<dots> = holding_units v s e db + (if same_holding v s e row then ho_quantity (?f row) - ho_quantity row else 0)"
    unfolding holding_units_def
    using assms row(1)
    by (intro sum_list_sql_update [where key = holding_key and k = "(v, s, e)"])
      (simp_all only: key folded_key same_holding_key holdings_wf_def)
  finally show ?thesis using row(2) by (auto simp: same_holding_key)
qed

lemma delete_position_units:
  assumes "positions_wf db" and "row \<in> set (positions db)"
  shows "position_units v s e (delete_position (po_id row) db) =
    position_units v s e db - (if delivery_position v s e row then po_quantity row else 0)"
  using sum_list_delete [OF assms(1) [unfolded positions_wf_def] assms(2), of po_quantity "delivery_position v s e"]
  by (simp add: position_units_def delete_position_def)

lemma delete_position_simps [simp]:
  "holdings (delete_position pid db) = holdings db" "funds_rows (delete_position pid db) = funds_rows db"
  by (simp_all add: delete_position_def)

lemma beside_delete: "beside_t1 F \<Longrightarrow> F (delete_position pid db) = F db"
  by (simp add: delete_position_def beside_t1_def)

text \<open>What a run does to the tables, for one observed position.\<close>

lemma settle_t1_positions:
  assumes "positions_wf db"
  shows "positions (snd (settle_t1 X uid obs db)) =
    filter (\<lambda>p. (po_id p, po_quantity p) \<noteq> obs) (positions db)"
proof (cases "claim_position_for_settlement X (fst obs) (snd obs) (\<lambda>p. True) db")
  case None
  have "\<not> (p \<in> set (positions db) \<and> (po_id p, po_quantity p) = obs)" for p
    using None claim_position_row [OF assms, of p "\<lambda>p. True" X] by auto
  then have "filter (\<lambda>p. (po_id p, po_quantity p) \<noteq> obs) (positions db) = positions db"
    by (auto simp: filter_id_conv)
  with None show ?thesis by (simp add: settle_t1_def)
next
  case (Some p)
  from claim_position_SomeD [OF Some] obtain row where
    row: "row \<in> set (positions db)" "po_id row = fst obs" "po_quantity row = snd obs" "p = read_position X row" by auto
  have obs: "obs = (po_id row, po_quantity row)" using row(2,3) by (simp add: prod_eq_iff)
  have "x = row" if "x \<in> set (positions db)" "po_id x = po_id row" for x
    using assms row(1) that by (auto simp: positions_wf_def distinct_map inj_on_def)
  then have "po_id x \<noteq> po_id row \<longleftrightarrow> (po_id x, po_quantity x) \<noteq> obs" if "x \<in> set (positions db)" for x
    unfolding obs using that by blast
  then have "filter (\<lambda>x. po_id x \<noteq> po_id row) (positions db) =
      filter (\<lambda>p. (po_id p, po_quantity p) \<noteq> obs) (positions db)"
    by (rule filter_cong [OF refl])
  with Some row show ?thesis by (simp add: settle_t1_def delete_position_def)
qed

lemma settle_t1_wf:
  assumes "positions_wf db" and "holdings_wf db"
  shows "positions_wf (snd (settle_t1 X uid obs db)) \<and> holdings_wf (snd (settle_t1 X uid obs db))"
proof
  show "positions_wf (snd (settle_t1 X uid obs db))"
    using assms(1) by (simp add: positions_wf_def settle_t1_positions [OF assms(1)] distinct_map_filter)
  have del: "holdings_wf (delete_position pid d) = holdings_wf d" for pid d
    by (simp add: holdings_wf_def)
  show "holdings_wf (snd (settle_t1 X uid obs db))"
    using assms(2) fold_holdings_wf by (simp add: settle_t1_def del split: option.splits)
qed

lemma settle_t1_beside: "beside_t1 F \<Longrightarrow> F (snd (settle_t1 X uid obs db)) = F db"
  by (simp add: settle_t1_def beside_delete beside_fold split: option.splits)

lemma settle_t1_units:
  assumes "positions_wf db" and "holdings_wf db"
    and "\<And>p. p \<in> set (positions db) \<Longrightarrow> po_id p = fst obs \<Longrightarrow> po_user p = uid \<and> po_product p = CNC"
  shows "delivery_units v s e (snd (settle_t1 X uid obs db)) = delivery_units v s e db"
proof (cases "claim_position_for_settlement X (fst obs) (snd obs) (\<lambda>p. True) db")
  case (Some p)
  from claim_position_SomeD [OF Some] obtain row where
    row: "row \<in> set (positions db)" "po_id row = fst obs" "po_quantity row = snd obs" "p = read_position X row" by auto
  have kind: "po_user row = uid" "po_product row = CNC" using assms(3) row by auto
  show ?thesis
  proof (cases "po_quantity p = 0")
    case True
    with Some have "snd (settle_t1 X uid obs db) = delete_position (po_id row) db" by (simp add: settle_t1_def row(4))
    with True delete_position_units [OF assms(1) row(1), of v s e] row(4) show ?thesis
      by (simp add: delivery_units_def holding_units_def)
  next
    case False
    let ?d = "fold_into_holding X uid p db"
    have wf: "positions_wf ?d" "row \<in> set (positions ?d)" using assms(1) row(1) by (simp_all add: positions_wf_def)
    have "snd (settle_t1 X uid obs db) = delete_position (po_id row) ?d"
      using Some False row(4) by (simp add: settle_t1_def)
    moreover have "position_units v s e ?d = position_units v s e db" by (simp add: position_units_def)
    ultimately show ?thesis
      using delete_position_units [OF wf, of v s e] fold_units [OF assms(2), of v s e X uid p] row(4) kind
      by (auto simp: delivery_units_def holding_units_def delivery_position_def)
  qed
qed (simp add: settle_t1_def)

subsection \<open>A whole run\<close>

definition observed_nonzero :: "(nat \<times> int) list \<Rightarrow> sandbox \<Rightarrow> nat" where
  "observed_nonzero observed db =
     length (filter (\<lambda>p. (po_id p, po_quantity p) \<in> set observed \<and> po_quantity p \<noteq> 0) (positions db))"

lemma settle_t1_count:
  assumes "positions_wf db"
  shows "fst (settle_t1 X uid obs db) = observed_nonzero [obs] db"
proof (cases "\<exists>row \<in> set (positions db). (po_id row, po_quantity row) = obs")
  case False
  then have "claim_position_for_settlement X (fst obs) (snd obs) (\<lambda>p. True) db = None"
    by (intro claim_position_none) auto
  with False show ?thesis by (auto simp: settle_t1_def observed_nonzero_def filter_empty_conv)
next
  case True
  then obtain row where row: "row \<in> set (positions db)" "(po_id row, po_quantity row) = obs" by blast
  have "row_count (\<lambda>p. (po_id p, po_quantity p) = obs \<and> po_quantity p \<noteq> 0) (positions db) =
      (if po_quantity row \<noteq> 0 then 1 else 0)"
  proof (cases "po_quantity row = 0")
    case False
    have "row_count (\<lambda>p. (po_id p, po_quantity p) = obs \<and> po_quantity p \<noteq> 0) (positions db) = 1 \<longleftrightarrow>
        (\<exists>r \<in> set (positions db). (po_id r, po_quantity r) = obs \<and> po_quantity r \<noteq> 0)"
      using assms unfolding positions_wf_def by (rule row_count_eq_1_iff [where k = "fst obs"]) auto
    with False row show ?thesis by auto
  qed (use row(2) in auto)
  with claim_position_row [OF assms row(1), of "\<lambda>p. True" X] row(2) show ?thesis
    by (auto simp: settle_t1_def observed_nonzero_def row_count_def)
qed

lemma length_filter_observed:
  "length (filter (\<lambda>p. f p \<in> set (y # ys) \<and> Q p) rows) =
   length (filter (\<lambda>p. f p \<in> set [y] \<and> Q p) rows) +
   length (filter (\<lambda>p. f p \<noteq> y \<and> f p \<in> set ys \<and> Q p) rows)"
  by (induction rows) auto

lemma settle_each_run:
  assumes "positions_wf db" and "holdings_wf db"
    and "\<And>p. p \<in> set (positions db) \<Longrightarrow> po_id p \<in> fst ` set observed \<Longrightarrow> po_user p = uid \<and> po_product p = CNC"
    and "settle_each X uid observed n db = (k, db')"
  shows "positions db' = filter (\<lambda>p. (po_id p, po_quantity p) \<notin> set observed) (positions db) \<and>
    positions_wf db' \<and> holdings_wf db' \<and> k = n + observed_nonzero observed db \<and>
    (\<forall>v s e. delivery_units v s e db' = delivery_units v s e db) \<and>
    orders db' = orders db \<and> trades db' = trades db \<and> gtts db' = gtts db \<and> gtt_legs db' = gtt_legs db"
  using assms
proof (induction observed arbitrary: n db)
  case Nil
  then show ?case by (simp add: observed_nonzero_def)
next
  case (Cons obs observed)
  obtain i db1 where s: "settle_t1 X uid obs db = (i, db1)" by fastforce
  with Cons.prems(4) have run: "settle_each X uid observed (n + i) db1 = (k, db')" by simp
  note wf = settle_t1_wf [OF Cons.prems(1,2), of X uid obs, unfolded s snd_conv]
  note pos = settle_t1_positions [OF Cons.prems(1), of X uid obs, unfolded s snd_conv]
  have units: "delivery_units v s' e db1 = delivery_units v s' e db" for v s' e
    using settle_t1_units [OF Cons.prems(1,2), of obs uid v s' e X] Cons.prems(3) s by simp
  have rest: "p \<in> set (positions db1) \<Longrightarrow> po_id p \<in> fst ` set observed \<Longrightarrow> po_user p = uid \<and> po_product p = CNC" for p
    using Cons.prems(3) [of p] by (simp add: pos)
  note IH = Cons.IH [OF wf [THEN conjunct1] wf [THEN conjunct2] rest run]
  have count: "observed_nonzero (obs # observed) db = i + observed_nonzero observed db1"
  proof -
    have "observed_nonzero (obs # observed) db = observed_nonzero [obs] db +
        length (filter (\<lambda>p. (po_id p, po_quantity p) \<noteq> obs \<and> (po_id p, po_quantity p) \<in> set observed \<and> po_quantity p \<noteq> 0) (positions db))"
      unfolding observed_nonzero_def by (rule length_filter_observed)
    then show ?thesis
      using settle_t1_count [OF Cons.prems(1), of X uid obs] s
      by (simp add: observed_nonzero_def pos conj_ac)
  qed
  note b = settle_t1_beside [of _ X uid obs db, unfolded s snd_conv]
  show ?case
    using IH units b [of orders] b [of trades] b [of gtts] b [of gtt_legs]
    by (auto simp: pos count intro!: filter_cong)
qed

lemma t1_observed_iff:
  assumes "positions_wf db" and "p \<in> set (positions db)"
  shows "(po_id p, po_quantity p) \<in> set (t1_observed X uid db) \<longleftrightarrow> due_for_t1 X uid p"
    and "po_id p \<in> fst ` set (t1_observed X uid db) \<longleftrightarrow> due_for_t1 X uid p"
proof -
  have inj: "q = p" if "q \<in> set (positions db)" "po_id q = po_id p" for q
    using assms that by (auto simp: positions_wf_def distinct_map inj_on_def)
  show "(po_id p, po_quantity p) \<in> set (t1_observed X uid db) \<longleftrightarrow> due_for_t1 X uid p"
    using inj assms(2) by (auto simp: t1_observed_def)
  show "po_id p \<in> fst ` set (t1_observed X uid db) \<longleftrightarrow> due_for_t1 X uid p"
    using inj assms(2) by (force simp: t1_observed_def)
qed

lemma t1_run:
  assumes "positions_wf db" and "holdings_wf db" and "\<not> x_db_error X"
    and "process_t1_settlement X uid db = (res, db')"
  shows "positions db' = filter (\<lambda>p. \<not> due_for_t1 X uid p) (positions db) \<and>
    (\<forall>v s e. delivery_units v s e db' = delivery_units v s e db) \<and> positions_wf db' \<and> holdings_wf db' \<and>
    orders db' = orders db \<and> trades db' = trades db \<and> gtts db' = gtts db \<and> gtt_legs db' = gtt_legs db \<and>
    res = (if \<exists>p \<in> set (positions db). due_for_t1 X uid p
           then Settled (row_count (\<lambda>p. due_for_t1 X uid p \<and> po_quantity p \<noteq> 0) (positions db))
           else Nothing_to_settle)"
proof (cases "t1_observed X uid db = []")
  case True
  then have "\<forall>p \<in> set (positions db). \<not> due_for_t1 X uid p" by (auto simp: t1_observed_def filter_empty_conv)
  with True assms show ?thesis
    by (auto simp: process_t1_settlement_def process_t1_from_def filter_id_conv)
next
  case False
  then have due: "\<exists>p \<in> set (positions db). due_for_t1 X uid p" by (auto simp: t1_observed_def filter_empty_conv)
  obtain k db1 where run: "settle_each X uid (t1_observed X uid db) 0 db = (k, db1)" by fastforce
  have own: "p \<in> set (positions db) \<Longrightarrow> po_id p \<in> fst ` set (t1_observed X uid db) \<Longrightarrow> po_user p = uid \<and> po_product p = CNC" for p
    using t1_observed_iff(2) [OF assms(1)] by (auto simp: due_for_t1_def)
  note R = settle_each_run [OF assms(1,2) own run]
  have pos: "filter (\<lambda>p. (po_id p, po_quantity p) \<notin> set (t1_observed X uid db)) (positions db) =
      filter (\<lambda>p. \<not> due_for_t1 X uid p) (positions db)"
    using t1_observed_iff(1) [OF assms(1)] by (intro filter_cong) auto
  have k: "k = row_count (\<lambda>p. due_for_t1 X uid p \<and> po_quantity p \<noteq> 0) (positions db)"
    using R t1_observed_iff(1) [OF assms(1)]
    by (auto simp: observed_nonzero_def row_count_def intro!: arg_cong [where f = length] filter_cong)
  have db': "db' = (if k > 0 then publish (T1_settled uid k) db1 else db1)" "res = Settled k"
    using assms(3,4) False run by (auto simp: process_t1_settlement_def process_t1_from_def)
  have view: "positions_wf db' = positions_wf db1" "holdings_wf db' = holdings_wf db1"
    "delivery_units v s e db' = delivery_units v s e db1" for v s e
    by (simp_all add: db'(1) positions_wf_def holdings_wf_def delivery_units_def position_units_def holding_units_def)
  have tables: "positions db' = positions db1" "orders db' = orders db1" "trades db' = trades db1"
    "gtts db' = gtts db1" "gtt_legs db' = gtt_legs db1"
    by (simp_all add: db'(1))
  show ?thesis unfolding view tables db'(2) using R due by (simp add: pos k [symmetric])
qed

text \<open>A T+1 run settles exactly the delivery positions of earlier days: they leave the position
  book, all others stay as they are, every share is accounted for (position and holding together
  keep their signed quantity, symbol by symbol and user by user, whatever the fund manager answers),
  and the run reports how many it moved.\<close>

theorem t1_moves_every_due_delivery:
  assumes "positions_wf db" and "holdings_wf db" and "\<not> x_db_error X"
    and "process_t1_settlement X uid db = (res, db')"
  shows "positions db' = filter (\<lambda>p. \<not> due_for_t1 X uid p) (positions db) \<and>
    (\<forall>v s e. delivery_units v s e db' = delivery_units v s e db) \<and> positions_wf db' \<and> holdings_wf db' \<and>
    orders db' = orders db \<and> trades db' = trades db \<and> gtts db' = gtts db \<and> gtt_legs db' = gtt_legs db \<and>
    res = (if \<exists>p \<in> set (positions db). due_for_t1 X uid p
           then Settled (row_count (\<lambda>p. due_for_t1 X uid p \<and> po_quantity p \<noteq> 0) (positions db))
           else Nothing_to_settle)"
  by (rule t1_run [OF assms])

text \<open>No delivery is settled twice: after a run the same day's next run finds nothing to settle,
  and a run that works from the list it had loaded before the first one committed claims nothing
  and changes nothing, whoever started it.\<close>

theorem t1_settles_once:
  assumes "positions_wf db" and "holdings_wf db" and "\<not> x_db_error X"
    and "process_t1_settlement X uid db = (res, db')"
  shows "process_t1_settlement X uid db' = (Nothing_to_settle, db') \<and>
    snd (process_t1_from X' uid (t1_observed X uid db) db') = db'"
proof
  note R = t1_run [OF assms]
  show "process_t1_settlement X uid db' = (Nothing_to_settle, db')"
    using R by (simp add: process_t1_settlement_def process_t1_from_def t1_observed_def)
  have gone: "(po_id p, po_quantity p) \<notin> set (t1_observed X uid db)" if "p \<in> set (positions db')" for p
    using that R t1_observed_iff(1) [OF assms(1)] by auto
  have "settle_each X' uid observed n db' = (n, db')" if "set observed \<subseteq> set (t1_observed X uid db)" for observed n
    using that
  proof (induction observed arbitrary: n)
    case (Cons obs observed)
    have "claim_position_for_settlement X' (fst obs) (snd obs) (\<lambda>p. True) db' = None"
      using Cons.prems gone by (cases obs) (auto intro!: claim_position_none)
    with Cons show ?case by (simp add: settle_t1_def)
  qed simp
  then show "snd (process_t1_from X' uid (t1_observed X uid db) db') = db'"
    by (simp add: process_t1_from_def)
qed

subsection \<open>The money of a settlement\<close>

lemma fold_into_holding_money:
  fixes p :: sandbox_position
  assumes "funds_ready uid db" and "decimal_columns (x_read X)" and "grid_money (stored_money uid db)"
  defines "m \<equiv> stored_money uid db"
    and "sold \<equiv> po_quantity p \<le> 0 \<and> find (same_holding uid (po_symbol p) (po_exchange p)) (holdings db) \<noteq> None"
  shows "stored_money uid (fold_into_holding X uid p db) =
    (if position_cost p \<le> 0 then m
     else if sold then m\<lparr>available_balance := available_balance m + position_cost p\<rparr>
     else if position_cost p \<le> used_margin m then m\<lparr>used_margin := used_margin m - position_cost p\<rparr>
     else m)"
proof -
  let ?op = "if sold then Op_credit (position_cost p) else Op_transfer (position_cost p)"
  have "funds_rows (fold_into_holding X uid p db) = funds_rows (snd (run_funds_op X uid ?op db))"
    by (auto simp: fold_into_holding_def sold_def settle_money_def write_holding_def Let_def split: option.splits)
  then have "stored_money uid (fold_into_holding X uid p db) = stored_money uid (snd (run_funds_op X uid ?op db))"
    by (simp add: stored_money_def funds_of_def)
  also have "\<dots> = money_after X ?op m" unfolding m_def by (rule stored_money_run [OF assms(1)])
  finally show ?thesis
    using assms(3) by (auto simp: money_after_grid [OF assms(2)] m_def compute_defs)
qed

text \<open>Settling a bought position takes its cost out of the reserved margin, not the margin the
  position itself recorded, and nothing else moves; when less than the cost is reserved the fund
  manager refuses, the money stays reserved, and the shares become a holding all the same.  A
  sold position credits its proceeds if a holding was there to sell from; without one it turns into a
  negative holding and takes its amount out of the reserved margin like a purchase.\<close>

theorem t1_money_follows_the_cost:
  assumes "positions_wf db" and "row \<in> set (positions db)" and "po_quantity row \<noteq> 0"
    and "funds_ready uid db" and "decimal_columns (x_read X)" and "grid_money (stored_money uid db)"
    and "holdings_wf db" and "0 < x_read X 2 (po_average_price row)"
    and "settle_t1 X uid (po_id row, po_quantity row) db = (n, db')"
  defines "cost \<equiv> of_int \<bar>po_quantity row\<bar> * x_read X 2 (po_average_price row)"
    and "m \<equiv> stored_money uid db"
    and "held_before \<equiv> \<exists>h \<in> set (holdings db). same_holding uid (po_symbol row) (po_exchange row) h"
  shows "stored_money uid db' =
      (if po_quantity row < 0 \<and> held_before then m\<lparr>available_balance := available_balance m + cost\<rparr>
       else if cost \<le> used_margin m then m\<lparr>used_margin := used_margin m - cost\<rparr> else m) \<and>
    holding_units uid (po_symbol row) (po_exchange row) db' =
      holding_units uid (po_symbol row) (po_exchange row) db + po_quantity row \<and> n = 1"
proof -
  let ?p = "read_position X row"
  have s: "settle_t1 X uid (po_id row, po_quantity row) db = (1, delete_position (po_id row) (fold_into_holding X uid ?p db))"
    using claim_position_row [OF assms(1,2), of "\<lambda>p. True" X] assms(3) by (simp add: settle_t1_def)
  then have db': "db' = delete_position (po_id row) (fold_into_holding X uid ?p db)" "n = 1" using assms(9) by simp_all
  have keys: "po_symbol ?p = po_symbol row" "po_exchange ?p = po_exchange row" by simp_all
  have cost: "position_cost ?p = cost" by (simp add: position_cost_def cost_def)
  have pos: "0 < cost" using assms(3,8) by (simp add: cost_def)
  have found: "find (same_holding uid (po_symbol row) (po_exchange row)) (holdings db) \<noteq> None \<longleftrightarrow> held_before"
    by (auto simp: held_before_def find_None_iff)
  have money: "stored_money uid db' = stored_money uid (fold_into_holding X uid ?p db)"
    by (simp add: db' stored_money_def funds_of_def)
  have units: "holding_units uid (po_symbol row) (po_exchange row) db' =
      holding_units uid (po_symbol row) (po_exchange row) (fold_into_holding X uid ?p db)"
    by (simp add: db' holding_units_def)
  have sign: "po_quantity ?p \<le> 0 \<longleftrightarrow> po_quantity row < 0" using assms(3) by auto
  show ?thesis
    unfolding money units fold_into_holding_money [OF assms(4-6)] fold_units [OF assms(7)] keys cost found sign m_def
    using pos db'(2) by simp
qed

subsection \<open>Bounds of the averages\<close>

lemma weighted_mean_bounds:
  fixes a b :: rat and m n :: int
  assumes "0 \<le> m" and "0 \<le> n" and "0 < m + n"
  shows "min a b \<le> (of_int m * a + of_int n * b) / of_int (m + n)"
    and "(of_int m * a + of_int n * b) / of_int (m + n) \<le> max a b"
proof -
  have pos: "(0::rat) < of_int (m + n)" using assms(3) by (simp only: of_int_0_less_iff)
  have w: "(0::rat) \<le> of_int m" "(0::rat) \<le> of_int n" using assms by simp_all
  have "of_int m * min a b \<le> of_int m * a" "of_int n * min a b \<le> of_int n * b"
    using w by (auto intro!: mult_left_mono)
  then have "min a b * of_int (m + n) \<le> of_int m * a + of_int n * b" by (simp add: algebra_simps)
  with pos show "min a b \<le> (of_int m * a + of_int n * b) / of_int (m + n)" by (simp add: le_divide_eq)
  have "of_int m * a \<le> of_int m * max a b" "of_int n * b \<le> of_int n * max a b"
    using w by (auto intro!: mult_left_mono)
  then have "of_int m * a + of_int n * b \<le> max a b * of_int (m + n)" by (simp add: algebra_simps)
  with pos show "(of_int m * a + of_int n * b) / of_int (m + n) \<le> max a b" by (simp add: divide_le_eq)
qed

text \<open>Reading back a value between two grid points stays between them.\<close>

lemma read_between:
  assumes "decimal_columns rd" and "on_grid s lo" and "on_grid s hi" and "lo \<le> x" and "x \<le> hi"
  shows "lo \<le> rd s x \<and> rd s x \<le> hi"
  using decimal_columns.rd_mono [OF assms(1,4), of s] decimal_columns.rd_mono [OF assms(1,5), of s]
    decimal_columns.rd_id [OF assms(1)] assms(2,3) by metis

text \<open>C14: averages stay within the prices they average: what is stored and read back for a holding a
  bought position is folded into, or for a position a fill adds to, lies between the average before and
  the price of the addition, rounding included.\<close>

theorem averages_stay_between:
  assumes "decimal_columns (x_read X)" and "positions_wf db" and "position_of r db = Some row"
    and "on_grid 2 price" and "0 < od_quantity r"
  defines "avg \<equiv> x_read X 2 (po_average_price row)"
  shows "min (x_read X 2 (ho_average_price h)) avg \<le> x_read X 2 (settled_average (read_holding X h) (read_position X row)) \<and>
    x_read X 2 (settled_average (read_holding X h) (read_position X row)) \<le> max (x_read X 2 (ho_average_price h)) avg \<and>
    (\<exists>p'. position_of r (add_to_position X r price (read_position X row) db) = Some p' \<and>
      min avg price \<le> x_read X 2 (po_average_price p') \<and> x_read X 2 (po_average_price p') \<le> max avg price)"
proof -
  let ?a = "x_read X 2 (ho_average_price h)" and ?h = "read_holding X h" and ?p = "read_position X row"
  have grid: "on_grid 2 (min x y)" "on_grid 2 (max x y)" if "on_grid 2 x" "on_grid 2 y" for x y :: rat
    using that by (simp_all add: min_def max_def)
  note rg = decimal_columns.rd_grid [OF assms(1)]
  have g: "on_grid 2 ?a" "on_grid 2 avg" by (simp_all add: rg avg_def)
  have "min ?a avg \<le> settled_average ?h ?p \<and> settled_average ?h ?p \<le> max ?a avg"
  proof (cases "0 < \<bar>ho_quantity h\<bar> + \<bar>po_quantity row\<bar>")
    case True
    with weighted_mean_bounds [of "\<bar>ho_quantity h\<bar>" "\<bar>po_quantity row\<bar>" ?a avg] show ?thesis
      by (simp add: settled_average_def position_cost_def avg_def Let_def)
  next
    case False
    then have "ho_quantity h = 0" "po_quantity row = 0" by linarith+
    then have "settled_average ?h ?p = ?a" by (simp add: settled_average_def)
    then show ?thesis by simp
  qed
  then have t1: "min ?a avg \<le> x_read X 2 (settled_average ?h ?p) \<and> x_read X 2 (settled_average ?h ?p) \<le> max ?a avg"
    using read_between [OF assms(1) grid(1) [OF g] grid(2) [OF g]] by blast
  from add_to_position_row [OF assms(2,3), of X price] obtain p' where
    p': "position_of r (add_to_position X r price ?p db) = Some p'"
    and avg': "po_average_price p' = (of_int \<bar>po_quantity row\<bar> * avg + of_int \<bar>od_quantity r\<bar> * price) /
      of_int (\<bar>po_quantity row\<bar> + \<bar>od_quantity r\<bar>)"
    by (auto simp: avg_def)
  have "0 < \<bar>po_quantity row\<bar> + \<bar>od_quantity r\<bar>" using assms(5) by simp
  with weighted_mean_bounds [of "\<bar>po_quantity row\<bar>" "\<bar>od_quantity r\<bar>" avg price]
  have "min avg price \<le> po_average_price p' \<and> po_average_price p' \<le> max avg price" by (simp add: avg')
  then have "min avg price \<le> x_read X 2 (po_average_price p') \<and> x_read X 2 (po_average_price p') \<le> max avg price"
    using read_between [OF assms(1) grid(1) [OF g(2) assms(4)] grid(2) [OF g(2) assms(4)]] by blast
  with t1 p' show ?thesis by blast
qed

subsection \<open>A settlement at work\<close>

definition delivery_row :: sandbox_position where
  "delivery_row = sample_position\<lparr>po_id := 5, po_product := CNC, po_quantity := 4, po_average_price := 25,
     po_created_at := -1000\<rparr>"

definition sample_holding :: sandbox_holding where
  "sample_holding =
     \<lparr> ho_user = ''u'', ho_symbol = ''S'', ho_exchange = ''NSE'', ho_quantity = 6, ho_average_price = 20,
       ho_ltp = None, ho_pnl = 0, ho_pnl_percent = 0, ho_settlement_date = -3 \<rparr>"

text \<open>Four shares bought yesterday at 25, six in the holding at 20, and an intraday position.\<close>

definition delivery_market :: sandbox where
  "delivery_market = sample_db\<lparr>positions := [sample_position, delivery_row], holdings := [sample_holding]\<rparr>"

lemma delivery_market_wf: "positions_wf delivery_market" "holdings_wf delivery_market" "\<not> x_db_error sample_ext"
  by (simp_all add: positions_wf_def holdings_wf_def delivery_market_def sample_db_def delivery_row_def
      sample_position_def sample_ext_def)

lemma delivery_market_rows:
  "positions delivery_market = [sample_position, delivery_row]" "holdings delivery_market = [sample_holding]"
  "due_for_t1 sample_ext ''u'' delivery_row" "\<not> due_for_t1 sample_ext ''u'' sample_position"
  "po_quantity delivery_row = 4" "po_id delivery_row = 5"
  by (simp_all add: delivery_market_def sample_db_def due_for_t1_def delivery_row_def sample_position_def
      sample_ext_def day_of_def ms_per_day_def)

theorem t1_moves_every_due_delivery_witness:
  "\<exists>db'. process_t1_settlement sample_ext ''u'' delivery_market = (Settled 1, db') \<and>
     positions db' = [sample_position] \<and> delivery_units ''u'' ''S'' ''NSE'' db' = 10"
proof -
  obtain res db' where run: "process_t1_settlement sample_ext ''u'' delivery_market = (res, db')" by fastforce
  note T = t1_moves_every_due_delivery [OF delivery_market_wf run]
  have "delivery_units ''u'' ''S'' ''NSE'' delivery_market = 10"
    by (simp add: delivery_units_def position_units_def holding_units_def delivery_market_def sample_db_def
        delivery_position_def same_holding_def delivery_row_def sample_position_def sample_holding_def)
  with T run show ?thesis by (simp add: delivery_market_rows)
qed

theorem t1_settles_once_witness:
  "\<exists>db'. process_t1_settlement sample_ext ''u'' delivery_market = (Settled 1, db') \<and>
     process_t1_settlement sample_ext ''u'' db' = (Nothing_to_settle, db')"
proof -
  obtain res db' where run: "process_t1_settlement sample_ext ''u'' delivery_market = (res, db')" by fastforce
  have "res = Settled 1" using t1_run [OF delivery_market_wf run] by (simp add: delivery_market_rows)
  with t1_settles_once [OF delivery_market_wf run, of sample_ext] run show ?thesis by simp
qed

theorem t1_money_follows_the_cost_witness:
  "\<exists>db'. snd (settle_t1 sample_ext ''u'' (5, 4) delivery_market) = db' \<and>
     used_margin (stored_money ''u'' db') = 0 \<and> available_balance (stored_money ''u'' db') = 900 \<and>
     holding_units ''u'' ''S'' ''NSE'' db' = 10"
proof -
  obtain n db' where run: "settle_t1 sample_ext ''u'' (po_id delivery_row, po_quantity delivery_row) delivery_market = (n, db')"
    by fastforce
  have "stored_money ''u'' delivery_market = sample_money" "funds_ready ''u'' delivery_market"
    by (simp_all add: stored_money_def funds_ready_def funds_wf_def funds_of_def delivery_market_def sample_db_def sample_funds_def)
  moreover have "x_read sample_ext 2 (po_average_price delivery_row) = 25"
    using decimal_columns.rd_id [OF sample_columns, of 2 25] by (simp add: delivery_row_def)
  moreover have "delivery_row \<in> set (positions delivery_market)" "po_quantity delivery_row \<noteq> 0" by (simp_all add: delivery_market_rows)
  moreover have "holding_units ''u'' ''S'' ''NSE'' delivery_market = 6"
    by (simp add: holding_units_def delivery_market_rows same_holding_def sample_holding_def)
  ultimately show ?thesis
    using t1_money_follows_the_cost [OF delivery_market_wf(1) _ _ _ sample_columns _ delivery_market_wf(2) _ run]
      sample_grid run
    by (simp add: delivery_market_rows delivery_row_def sample_position_def sample_money_def)
qed

theorem averages_stay_between_witness:
  "20 \<le> x_read sample_ext 2 (settled_average (read_holding sample_ext sample_holding) (read_position sample_ext sample_position)) \<and>
   x_read sample_ext 2 (settled_average (read_holding sample_ext sample_holding) (read_position sample_ext sample_position)) \<le> 100"
proof -
  have r: "x_read sample_ext 2 20 = 20" "x_read sample_ext 2 100 = 100"
    using decimal_columns.rd_id [OF sample_columns, of 2] by simp_all
  have "positions_wf sample_market" "position_of sample_order sample_market = Some sample_position" "0 < od_quantity sample_order"
    by (simp_all add: positions_wf_def position_of_def same_position_def sample_market_def sample_db_def
        sample_order_def sample_position_def)
  with averages_stay_between [OF sample_columns this(1,2), of 120 sample_holding] r show ?thesis
    by (simp add: sample_holding_def sample_position_def min_def max_def)
qed

end
