(* ===== verification/Expiry.thy ===== *)
theory Expiry
  imports FundManager
begin

text \<open>
  Contract expiries and session boundaries: the date in a derivative's symbol
  (\<open>position_manager.py\<close>), the moment a contract counts as expired, and the last session
  boundary in the clock of the database (\<open>sandbox/session_boundary.py\<close>).  Days are counted from
  the first of January 1970, as everywhere in the development.
\<close>

subsection \<open>Calendar dates\<close>

definition leap_year :: "int \<Rightarrow> bool" where
  "leap_year y \<longleftrightarrow> y mod 4 = 0 \<and> (y mod 100 \<noteq> 0 \<or> y mod 400 = 0)"

definition month_lengths :: "int \<Rightarrow> int list" where
  "month_lengths y = [31, if leap_year y then 29 else 28, 31, 30, 31, 30, 31, 31, 30, 31, 30, 31]"

text \<open>\<open>date(year, month, day)\<close> as a day number; \<open>None\<close> is the \<open>ValueError\<close>.\<close>

definition day_number :: "int \<Rightarrow> nat \<Rightarrow> int \<Rightarrow> int" where
  "day_number y m d =
     (let p = y - 1 in
      p * 365 + p div 4 - p div 100 + p div 400 + sum_list (take (m - 1) (month_lengths y)) + d - 719163)"

definition date_of :: "int \<Rightarrow> nat \<Rightarrow> int \<Rightarrow> int option" where
  "date_of y m d =
     (if 1 \<le> y \<and> y \<le> 9999 \<and> 1 \<le> m \<and> m \<le> 12 \<and> 1 \<le> d \<and> d \<le> month_lengths y ! (m - 1)
      then Some (day_number y m d) else None)"

subsection \<open>The expiry in a symbol\<close>

definition FO_EXCHANGES :: "string list" where
  "FO_EXCHANGES = [''NFO'', ''BFO'', ''MCX'', ''CDS'', ''BCD'', ''NCDEX'', ''CRYPTO'']"

definition MONTHS :: "string list" where
  "MONTHS = [''JAN'', ''FEB'', ''MAR'', ''APR'', ''MAY'', ''JUN'', ''JUL'', ''AUG'', ''SEP'', ''OCT'', ''NOV'', ''DEC'']"

primrec index_of :: "'a \<Rightarrow> 'a list \<Rightarrow> nat option" where
  "index_of x [] = None"
| "index_of x (y # ys) = (if x = y then Some 0 else map_option Suc (index_of x ys))"

definition is_upper :: "char \<Rightarrow> bool" where
  "is_upper c \<longleftrightarrow> (let n = of_char c :: nat in 65 \<le> n \<and> n \<le> 90)"

definition two_digits :: "char \<Rightarrow> char \<Rightarrow> int option" where
  "two_digits a b =
     (case (digit_value a, digit_value b) of (Some m, Some n) \<Rightarrow> Some (10 * m + n) | _ \<Rightarrow> None)"

text \<open>The pattern (two digits, three capitals, two digits) at the head of a text.\<close>

fun expiry_at :: "string \<Rightarrow> (int \<times> string \<times> int) option" where
  "expiry_at (d1 # d2 # m1 # m2 # m3 # y1 # y2 # rest) =
     (case (two_digits d1 d2, two_digits y1 y2) of
        (Some d, Some y) \<Rightarrow>
          if is_upper m1 \<and> is_upper m2 \<and> is_upper m3 then Some (d, [m1, m2, m3], y) else None
      | _ \<Rightarrow> None)"
| "expiry_at _ = None"

text \<open>\<open>re.search\<close>: the first position at which the pattern matches.\<close>

primrec search_expiry :: "string \<Rightarrow> (int \<times> string \<times> int) option" where
  "search_expiry [] = None"
| "search_expiry (c # cs) = (case expiry_at (c # cs) of Some m \<Rightarrow> Some m | None \<Rightarrow> search_expiry cs)"

definition parse_expiry_from_symbol :: "string \<Rightarrow> string \<Rightarrow> int option" where
  "parse_expiry_from_symbol symbol exchange =
     (if exchange \<notin> set FO_EXCHANGES then None
      else (case search_expiry symbol of
              None \<Rightarrow> None
            | Some (day, month, year) \<Rightarrow>
                (case index_of month MONTHS of
                   None \<Rightarrow> None
                 | Some i \<Rightarrow> date_of (2000 + year) (Suc i) day)))"

text \<open>\<open>db_expiry\<close> is the expiry the symbol-token table of the broker gives, where it gives one.\<close>

definition get_contract_expiry ::
    "(string \<Rightarrow> string \<Rightarrow> int option) \<Rightarrow> string \<Rightarrow> string \<Rightarrow> int option" where
  "get_contract_expiry db_expiry symbol exchange =
     (case parse_expiry_from_symbol symbol exchange of
        Some d \<Rightarrow> Some d | None \<Rightarrow> db_expiry symbol exchange)"

subsection \<open>When a contract has expired\<close>

definition EXCHANGE_CLOSE_TIMES :: "string \<Rightarrow> int option" where
  "EXCHANGE_CLOSE_TIMES =
     map_of [(''NFO'', hhmm 15 40), (''BFO'', hhmm 15 40), (''CDS'', hhmm 17 0), (''BCD'', hhmm 17 0),
             (''MCX'', hhmm 23 30), (''NCDEX'', hhmm 17 0)]"

definition DEFAULT_CLOSE_TIME :: int where
  "DEFAULT_CLOSE_TIME = hhmm 15 30"

definition is_contract_expired_now :: "ext \<Rightarrow> sandbox \<Rightarrow> int option \<Rightarrow> string \<Rightarrow> bool" where
  "is_contract_expired_now X db expiry exchange =
     (case expiry of
        None \<Rightarrow> False
      | Some e \<Rightarrow>
          (let today = day_of (x_now X) in
           if today > e then True
           else if today < e then False
           else if get_config db ''expiry_settlement_timing'' ''expiry_day_close'' \<noteq> ''expiry_day_close'' then False
           else time_of_day (x_now X) \<ge>
             (case EXCHANGE_CLOSE_TIMES exchange of Some t \<Rightarrow> t | None \<Rightarrow> DEFAULT_CLOSE_TIME)))"

definition get_expiry_settlement_price :: "sandbox \<Rightarrow> sandbox_position \<Rightarrow> rat" where
  "get_expiry_settlement_price db p =
     (let is_opt = endswith (po_symbol p) ''CE'' \<or> endswith (po_symbol p) ''PE'';
          ltp = (case po_ltp p of Some l \<Rightarrow> l | None \<Rightarrow> 0)
      in if is_opt then
           (if get_config db ''option_expiry_settlement'' ''ltp'' = ''ltp'' \<and> ltp > 0 then ltp else 0)
         else if ltp > 0 then ltp else po_average_price p)"

subsection \<open>Session boundaries\<close>

text \<open>
  The last boundary before \<open>x_now\<close>, in the clock of the database; a malformed setting counts as
  three o'clock.
\<close>

definition last_session_expiry_utc :: "ext \<Rightarrow> string \<Rightarrow> time" where
  "last_session_expiry_utc X session_expiry =
     (let boundary_today = day_of (x_now X) * ms_per_day +
            (case parse_hhmm session_expiry of Some t \<Rightarrow> t | None \<Rightarrow> hhmm 3 0);
          boundary = (if x_now X \<ge> boundary_today then boundary_today else boundary_today - ms_per_day)
      in boundary - 19800000)"

end
