(* ===== verification/PositionManager.thy ===== *)
theory PositionManager
  imports HoldingsManager OrderManager Expiry
begin

text \<open>
  The position manager (\<open>sandbox/position_manager.py\<close>): the position book with its session filter
  and catch-up reset, mark to market, the settlement of expired contracts from the book and from the
  sweep, closing a position with a market order, and the settlements a restart catches up on.

  Quotes are parameters: \<open>ws\<close> is the streaming cache (price and time of the last update in
  milliseconds), \<open>batch\<close> the prices the batch request answers.  \<open>db_expiry\<close> is the symbol-token
  table's expiry and \<open>session_expiry\<close> the setting \<open>SESSION_EXPIRY_TIME\<close>.
\<close>

subsection \<open>Settling an expired contract\<close>

definition settlement_pnl :: "rat \<Rightarrow> sandbox_position \<Rightarrow> rat" where
  "settlement_pnl price p =
     (if po_quantity p > 0 then (price - po_average_price p) * of_int (po_quantity p)
      else (po_average_price p - price) * of_int \<bar>po_quantity p\<bar>)"

definition settled_row :: "rat \<Rightarrow> sandbox_position \<Rightarrow> sandbox_position \<Rightarrow> sandbox_position" where
  "settled_row price p row =
     (let realized = po_accumulated_realized_pnl p + settlement_pnl price p in
      row\<lparr>po_quantity := 0, po_ltp := Some price, po_pnl := realized,
          po_accumulated_realized_pnl := realized, po_margin_blocked := 0\<rparr>)"

text \<open>The raw UPDATE that hides a settled contract: only the time of the last change moves.\<close>

definition set_updated_at :: "nat \<Rightarrow> time \<Rightarrow> sandbox \<Rightarrow> sandbox" where
  "set_updated_at pid t db =
     db\<lparr>positions := sql_update (\<lambda>p. po_id p = pid) (\<lambda>p. p\<lparr>po_updated_at := t\<rparr>) (positions db)\<rparr>"

text \<open>
  From the book: \<open>observed\<close> is the quantity of the loaded row.  The answer of the fund manager is not
  looked at.
\<close>

definition settle_expired_position ::
    "ext \<Rightarrow> (string \<Rightarrow> string \<Rightarrow> int option) \<Rightarrow> string \<Rightarrow> nat \<Rightarrow> int \<Rightarrow> sandbox \<Rightarrow> sandbox" where
  "settle_expired_position X db_expiry uid pid observed db =
     (case claim_position_for_settlement X pid observed (\<lambda>p. True) db of
        None \<Rightarrow> db
      | Some p \<Rightarrow>
          (let price = get_expiry_settlement_price db p;
               db1 = snd (stage_release_margin X uid (po_margin_blocked p) (settlement_pnl price p) True db);
               db2 = write_position X pid (settled_row price p) db1
           in case get_contract_expiry db_expiry (po_symbol p) (po_exchange p) of
                None \<Rightarrow> db2
              | Some e \<Rightarrow> set_updated_at pid (e * ms_per_day) db2))"

text \<open>From the sweep; a contract without an expiry would be dated today.\<close>

definition cleanup_position ::
    "ext \<Rightarrow> (string \<Rightarrow> string \<Rightarrow> int option) \<Rightarrow> string \<Rightarrow> nat \<Rightarrow> int \<Rightarrow> sandbox \<Rightarrow> sandbox" where
  "cleanup_position X db_expiry uid pid observed db =
     (case claim_position_for_settlement X pid observed (\<lambda>p. True) db of
        None \<Rightarrow> db
      | Some p \<Rightarrow>
          (let price = get_expiry_settlement_price db p;
               db1 = snd (stage_release_margin X uid (po_margin_blocked p) (settlement_pnl price p) True db);
               db2 = write_position X pid (settled_row price p) db1;
               hide = (case get_contract_expiry db_expiry (po_symbol p) (po_exchange p) of
                         Some e \<Rightarrow> e | None \<Rightarrow> day_of (x_now X))
           in set_updated_at pid (hide * ms_per_day) db2))"

definition contract_expired ::
    "ext \<Rightarrow> (string \<Rightarrow> string \<Rightarrow> int option) \<Rightarrow> sandbox \<Rightarrow> sandbox_position \<Rightarrow> bool" where
  "contract_expired X db_expiry db p \<longleftrightarrow>
     is_contract_expired_now X db (get_contract_expiry db_expiry (po_symbol p) (po_exchange p)) (po_exchange p)"

primrec close_expired_each ::
    "ext \<Rightarrow> (string \<Rightarrow> string \<Rightarrow> int option) \<Rightarrow> string \<Rightarrow> sandbox_position list \<Rightarrow> sandbox \<Rightarrow> sandbox" where
  "close_expired_each X db_expiry uid [] db = db"
| "close_expired_each X db_expiry uid (p # ps) db =
     close_expired_each X db_expiry uid ps
       (if po_quantity p \<noteq> 0 \<and> contract_expired X db_expiry db p
        then settle_expired_position X db_expiry uid (po_id p) (po_quantity p) db else db)"

text \<open>Users in the order their first expired position was found.\<close>

definition first_seen :: "'a list \<Rightarrow> 'a list" where
  "first_seen xs = rev (remdups (rev xs))"

primrec cleanup_each ::
    "ext \<Rightarrow> (string \<Rightarrow> string \<Rightarrow> int option) \<Rightarrow> sandbox_position list \<Rightarrow> sandbox \<Rightarrow> sandbox" where
  "cleanup_each X db_expiry [] db = db"
| "cleanup_each X db_expiry (p # ps) db =
     cleanup_each X db_expiry ps (cleanup_position X db_expiry (po_user p) (po_id p) (po_quantity p) db)"

definition expired_fo_positions ::
    "ext \<Rightarrow> (string \<Rightarrow> string \<Rightarrow> int option) \<Rightarrow> sandbox \<Rightarrow> sandbox_position list" where
  "expired_fo_positions X db_expiry db =
     filter (\<lambda>p. po_exchange p \<in> set FO_EXCHANGES \<and> po_quantity p \<noteq> 0 \<and> contract_expired X db_expiry db p)
       (positions db)"

definition cleanup_expired_contracts ::
    "ext \<Rightarrow> (string \<Rightarrow> string \<Rightarrow> int option) \<Rightarrow> sandbox \<Rightarrow> sandbox" where
  "cleanup_expired_contracts X db_expiry db =
     (let expired = expired_fo_positions X db_expiry db;
          by_user = concat (map (\<lambda>u. filter (\<lambda>p. po_user p = u) expired) (first_seen (map po_user expired)))
      in cleanup_each X db_expiry by_user db)"

subsection \<open>Mark to market\<close>

definition WEBSOCKET_DATA_MAX_AGE :: int where
  "WEBSOCKET_DATA_MAX_AGE = 5000"

definition fetch_quotes_from_websocket ::
    "ext \<Rightarrow> (string \<Rightarrow> string \<Rightarrow> (rat \<times> int) option) \<Rightarrow> string \<Rightarrow> string \<Rightarrow> rat option" where
  "fetch_quotes_from_websocket X ws symbol exchange =
     (case ws symbol exchange of
        None \<Rightarrow> None
      | Some (ltp, last_update) \<Rightarrow>
          if x_now X - last_update \<le> WEBSOCKET_DATA_MAX_AGE \<and> ltp > 0 then Some ltp else None)"

definition mtm_quote ::
    "ext \<Rightarrow> (string \<Rightarrow> string \<Rightarrow> (rat \<times> int) option) \<Rightarrow> (string \<Rightarrow> string \<Rightarrow> rat option)
     \<Rightarrow> string \<Rightarrow> string \<Rightarrow> rat option" where
  "mtm_quote X ws batch symbol exchange =
     (case fetch_quotes_from_websocket X ws symbol exchange of
        Some ltp \<Rightarrow> Some ltp | None \<Rightarrow> batch symbol exchange)"

definition get_contract_value :: "sandbox \<Rightarrow> string \<Rightarrow> string \<Rightarrow> rat" where
  "get_contract_value db symbol exchange =
     (case symtoken db symbol exchange of
        None \<Rightarrow> 1
      | Some info \<Rightarrow> (case si_contract_value info of Some c \<Rightarrow> if c = 0 then 1 else c | None \<Rightarrow> 1))"

definition calculate_position_pnl :: "int \<Rightarrow> rat \<Rightarrow> rat \<Rightarrow> rat \<Rightarrow> rat" where
  "calculate_position_pnl quantity avg_price ltp cv =
     (if quantity > 0 then (ltp - avg_price) * of_int quantity * cv
      else (avg_price - ltp) * of_int \<bar>quantity\<bar> * cv)"

definition position_pnl_percent :: "rat \<Rightarrow> rat \<Rightarrow> int \<Rightarrow> rat" where
  "position_pnl_percent avg_price ltp quantity =
     (if avg_price \<le> 0 then 0
      else if quantity > 0 then (ltp - avg_price) / avg_price * 100
      else (avg_price - ltp) / avg_price * 100)"

text \<open>The ORM writes a row, and stamps it, only when a value differs from what was loaded.\<close>

definition marked_position ::
    "ext \<Rightarrow> sandbox \<Rightarrow> (string \<Rightarrow> string \<Rightarrow> rat option) \<Rightarrow> sandbox_position \<Rightarrow> sandbox_position" where
  "marked_position X db quotes row =
     (let p = read_position X row in
      case quotes (po_symbol p) (po_exchange p) of
        None \<Rightarrow> row
      | Some ltp \<Rightarrow>
          if ltp > 0 then
            (let pnl = calculate_position_pnl (po_quantity p) (po_average_price p) ltp
                         (get_contract_value db (po_symbol p) (po_exchange p));
                 pct = position_pnl_percent (po_average_price p) ltp (po_quantity p)
             in if po_ltp p = Some ltp \<and> po_pnl p = pnl \<and> po_pnl_percent p = pct then row
                else row\<lparr>po_ltp := Some ltp, po_pnl := pnl, po_pnl_percent := pct, po_updated_at := db_now X\<rparr>)
          else row)"

definition update_positions_mtm ::
    "ext \<Rightarrow> (string \<Rightarrow> string \<Rightarrow> rat option) \<Rightarrow> nat list \<Rightarrow> sandbox \<Rightarrow> sandbox" where
  "update_positions_mtm X quotes ids db =
     db\<lparr>positions := sql_update (\<lambda>p. po_id p \<in> set ids \<and> po_quantity p \<noteq> 0) (marked_position X db quotes) (positions db)\<rparr>"

subsection \<open>The position book\<close>

definition needs_pnl_reset :: "time \<Rightarrow> sandbox_position \<Rightarrow> bool" where
  "needs_pnl_reset boundary p \<longleftrightarrow>
     po_today_realized_pnl p \<noteq> 0 \<and>
     (day_of (po_updated_at p) < day_of boundary \<or>
      day_of (po_updated_at p) = day_of boundary \<and> po_updated_at p < boundary)"

definition reset_today :: "sandbox_position \<Rightarrow> sandbox_position" where
  "reset_today p = p\<lparr>po_today_realized_pnl := 0\<rparr>"

text \<open>Raw SQL: the reset leaves the time of the last change alone.\<close>

definition reset_stale_pnl :: "ext \<Rightarrow> string \<Rightarrow> time \<Rightarrow> sandbox \<Rightarrow> sandbox" where
  "reset_stale_pnl X uid boundary db =
     db\<lparr>positions := sql_update (\<lambda>p. po_user p = uid \<and> needs_pnl_reset boundary (read_position X p))
          reset_today (positions db)\<rparr>"

definition in_session_book :: "time \<Rightarrow> sandbox_position \<Rightarrow> bool" where
  "in_session_book boundary p \<longleftrightarrow>
     (if po_updated_at p \<ge> boundary then po_quantity p \<noteq> 0 \<or> po_today_realized_pnl p \<noteq> 0
      else po_product p = NRML \<and> po_quantity p \<noteq> 0)"

record book_entry =
  be_position :: sandbox_position
  be_average_price :: rat
  be_unrealized_pnl :: rat
  be_today_realized_pnl :: rat
  be_total_pnl_today :: rat
  be_pnl_percent :: rat

text \<open>The multiplier shown is looked up by symbol alone; the last position with one decides.\<close>

definition book_contract_value :: "sandbox \<Rightarrow> sandbox_position list \<Rightarrow> string \<Rightarrow> rat" where
  "book_contract_value db rows symbol =
     (let cv = (\<lambda>p. case symtoken db (po_symbol p) (po_exchange p) of
                  None \<Rightarrow> None
                | Some info \<Rightarrow> (case si_contract_value info of Some c \<Rightarrow> if c = 0 then None else Some c | None \<Rightarrow> None))
      in case find (\<lambda>p. po_symbol p = symbol \<and> cv p \<noteq> None) (rev rows) of
           Some p \<Rightarrow> the (cv p) | None \<Rightarrow> 1)"

definition book_entry_of :: "(string \<Rightarrow> rat) \<Rightarrow> sandbox_position \<Rightarrow> book_entry" where
  "book_entry_of cv p =
     (let is_open = (po_quantity p \<noteq> 0);
          total = po_today_realized_pnl p + (if is_open then po_pnl p else 0);
          investment = \<bar>po_average_price p * of_int (po_quantity p) * cv (po_symbol p)\<bar>
      in \<lparr> be_position = p, be_average_price = (if is_open then po_average_price p else 0),
           be_unrealized_pnl = po_pnl p, be_today_realized_pnl = po_today_realized_pnl p,
           be_total_pnl_today = total,
           be_pnl_percent = (if is_open \<and> investment > 0 then total / investment * 100 else 0) \<rparr>)"

record position_book =
  pb_entries :: "book_entry list"
  pb_total_unrealized_pnl :: rat
  pb_total_today_realized_pnl :: rat
  pb_total_pnl_today :: rat

definition position_book_of :: "sandbox \<Rightarrow> sandbox_position list \<Rightarrow> position_book" where
  "position_book_of db rows =
     (let entries = map (book_entry_of (book_contract_value db rows)) rows
      in \<lparr> pb_entries = entries,
           pb_total_unrealized_pnl = sum_list (map po_pnl (filter (\<lambda>p. po_quantity p \<noteq> 0) rows)),
           pb_total_today_realized_pnl = sum_list (map po_today_realized_pnl rows),
           pb_total_pnl_today = sum_list (map be_total_pnl_today entries) \<rparr>)"

text \<open>
  One view: reset what a past session left, select, settle what has expired, mark to market, sum up,
  and report the unrealised total to the fund manager.
\<close>

definition get_open_positions ::
    "ext \<Rightarrow> string \<Rightarrow> (string \<Rightarrow> string \<Rightarrow> int option) \<Rightarrow> (string \<Rightarrow> string \<Rightarrow> rat option) \<Rightarrow> bool \<Rightarrow> string
     \<Rightarrow> sandbox \<Rightarrow> position_book \<times> sandbox" where
  "get_open_positions X session_expiry db_expiry quotes update_mtm uid db =
     (let boundary = last_session_expiry_utc X session_expiry;
          db1 = reset_stale_pnl X uid boundary db;
          shown = filter (\<lambda>p. po_user p = uid \<and> in_session_book boundary (read_position X p)) (positions db1);
          ids = map po_id shown;
          db2 = close_expired_each X db_expiry uid shown db1;
          db3 = (if update_mtm then update_positions_mtm X quotes ids db2 else db2);
          book = position_book_of db3
                   (map (read_position X) (filter (\<lambda>p. po_id p \<in> set ids) (positions db3)))
      in (book, if update_mtm then snd (update_unrealized_pnl X uid (pb_total_unrealized_pnl book) db3) else db3))"

subsection \<open>Closing a position\<close>

datatype close_response = Closed orderid | No_position | Position_busy | Close_refused order_response

definition closing_order :: "sandbox_position \<Rightarrow> order_form" where
  "closing_order p =
     \<lparr> fm_symbol = po_symbol p, fm_exchange = po_exchange p,
       fm_action = action_text (if po_quantity p > 0 then SELL else BUY),
       fm_quantity = Number (of_int \<bar>po_quantity p\<bar>), fm_price = Absent, fm_trigger_price = Absent,
       fm_price_type = price_type_text MARKET, fm_product = product_text (po_product p),
       fm_strategy = ''AUTO_SQUARE_OFF'', fm_gtt_leg_id = None \<rparr>"

text \<open>\<open>lock_free\<close>: whether the position's lock came free in time.\<close>

definition close_position ::
    "ext \<Rightarrow> bool \<Rightarrow> string \<Rightarrow> string \<Rightarrow> string \<Rightarrow> product \<Rightarrow> sandbox \<Rightarrow> close_response \<times> sandbox" where
  "close_position X lock_free uid symbol exchange pr db =
     (if \<not> lock_free then (Position_busy, db)
      else (case find (\<lambda>p. po_user p = uid \<and> po_symbol p = symbol \<and> po_exchange p = exchange \<and> po_product p = pr)
                   (positions db) of
              None \<Rightarrow> (No_position, db)
            | Some p \<Rightarrow>
                (case place_order X uid (closing_order p) None db of
                   (Order_ok oid, db1) \<Rightarrow> (Closed oid, db1)
                 | (resp, db1) \<Rightarrow> (Close_refused resp, db1))))"

subsection \<open>The trade book\<close>

text \<open>The user's trades of the session, newest first.\<close>

definition get_tradebook :: "ext \<Rightarrow> int \<Rightarrow> string \<Rightarrow> sandbox \<Rightarrow> sandbox_trade list" where
  "get_tradebook X expiry uid db =
     rev (sort_key tr_timestamp
       (filter (\<lambda>t. tr_user t = uid \<and> tr_timestamp t \<ge> session_start expiry (x_now X)) (trades db)))"

subsection \<open>Every user at once\<close>

primrec mtm_each_user ::
    "ext \<Rightarrow> string \<Rightarrow> (string \<Rightarrow> string \<Rightarrow> int option) \<Rightarrow> (string \<Rightarrow> string \<Rightarrow> rat option) \<Rightarrow> string list
     \<Rightarrow> sandbox \<Rightarrow> sandbox" where
  "mtm_each_user X session_expiry db_expiry quotes [] db = db"
| "mtm_each_user X session_expiry db_expiry quotes (u # us) db =
     mtm_each_user X session_expiry db_expiry quotes us
       (snd (get_open_positions X session_expiry db_expiry quotes True u db))"

definition update_all_positions_mtm ::
    "ext \<Rightarrow> bool \<Rightarrow> string \<Rightarrow> (string \<Rightarrow> string \<Rightarrow> int option) \<Rightarrow> (string \<Rightarrow> string \<Rightarrow> rat option)
     \<Rightarrow> sandbox \<Rightarrow> sandbox" where
  "update_all_positions_mtm X market_open session_expiry db_expiry quotes db =
     (if \<not> market_open then db
      else mtm_each_user X session_expiry db_expiry quotes (remdups (map po_user (positions db))) db)"

definition process_all_users_settlement :: "ext \<Rightarrow> sandbox \<Rightarrow> nat \<times> sandbox" where
  "process_all_users_settlement X db = t1_each_user X (remdups (map po_user (positions db))) 0 db"

definition catchup_missed_settlements ::
    "ext \<Rightarrow> (string \<Rightarrow> string \<Rightarrow> int option) \<Rightarrow> sandbox \<Rightarrow> sandbox" where
  "catchup_missed_settlements X db_expiry db =
     (let db1 = cleanup_expired_contracts X db_expiry db;
          users = remdups (map po_user (filter (\<lambda>p. due_for_t1 X (po_user p) p \<and> po_quantity p \<noteq> 0) (positions db1)))
      in snd (t1_each_user X users 0 db1))"

end
