(* ===== verification/PositionLaws.thy ===== *)
theory PositionLaws
  imports PositionManager HoldingsLaws
begin

text \<open>
  The laws of the position manager: the settlement of an expired contract is taken once and comes to the
  same whoever takes it, what it books, and the expiry a symbol spells.
\<close>

subsection \<open>One settlement, whoever takes it\<close>

datatype settler = From_book | From_sweep

definition settle_by ::
    "(string \<Rightarrow> string \<Rightarrow> int option) \<Rightarrow> string \<Rightarrow> nat \<Rightarrow> int \<Rightarrow> settler \<times> ext \<Rightarrow> sandbox \<Rightarrow> sandbox" where
  "settle_by db_expiry uid pid observed sx =
     (case fst sx of
        From_book \<Rightarrow> settle_expired_position (snd sx) db_expiry uid pid observed
      | From_sweep \<Rightarrow> cleanup_position (snd sx) db_expiry uid pid observed)"

lemma write_position_positions:
  "positions (write_position X pid f db) =
    sql_update (\<lambda>p. po_id p = pid) (\<lambda>p. (f p)\<lparr>po_updated_at := db_now X\<rparr>) (positions db)"
  by (simp add: write_position_def)

lemma set_updated_positions:
  "positions (set_updated_at pid t db) = sql_update (\<lambda>p. po_id p = pid) (\<lambda>p. p\<lparr>po_updated_at := t\<rparr>) (positions db)"
  by (simp add: set_updated_at_def)

lemma beside_stage_release [simp]: "beside_funds F \<Longrightarrow> F (snd (stage_release_margin X uid a p t db)) = F db"
  by (simp add: stage_release_margin_def beside_apply_user)

text \<open>The settled row, for a contract whose expiry is known.\<close>

definition expired_row :: "sandbox \<Rightarrow> int \<Rightarrow> sandbox_position \<Rightarrow> sandbox_position \<Rightarrow> sandbox_position" where
  "expired_row db e p row = (settled_row (get_expiry_settlement_price db p) p row)\<lparr>po_updated_at := e * ms_per_day\<rparr>"

lemma settle_expired_effect:
  fixes X :: ext and row :: sandbox_position and db :: sandbox
  defines "p \<equiv> read_position X row"
  assumes "positions_wf db" and "row \<in> set (positions db)"
    and "get_contract_expiry db_expiry (po_symbol row) (po_exchange row) = Some e"
  defines "price \<equiv> get_expiry_settlement_price db p"
  shows "settle_expired_position X db_expiry uid (po_id row) (po_quantity row) db =
    (snd (stage_release_margin X uid (po_margin_blocked p) (settlement_pnl price p) True db))
      \<lparr>positions := sql_update (\<lambda>x. po_id x = po_id row) (expired_row db e p) (positions db)\<rparr>"
proof -
  let ?d = "snd (stage_release_margin X uid (po_margin_blocked p) (settlement_pnl price p) True db)"
  have twice: "sql_update (\<lambda>x. po_id x = po_id row) (\<lambda>x. x\<lparr>po_updated_at := e * ms_per_day\<rparr>)
      (sql_update (\<lambda>x. po_id x = po_id row) (\<lambda>x. (settled_row price p x)\<lparr>po_updated_at := db_now X\<rparr>) rows) =
      sql_update (\<lambda>x. po_id x = po_id row) (expired_row db e p) rows" for rows
    by (induction rows) (auto simp: sql_update_Cons expired_row_def settled_row_def Let_def price_def)
  show ?thesis
    using claim_position_row [OF assms(2,3), of "\<lambda>p. True" X] assms(4)
    by (simp add: settle_expired_position_def Let_def set_updated_at_def write_position_def
        twice [unfolded p_def price_def] p_def price_def)
qed

lemma settlers_agree:
  assumes "get_contract_expiry db_expiry (po_symbol row) (po_exchange row) = Some e"
    and "positions_wf db" and "row \<in> set (positions db)"
  shows "settle_by db_expiry uid (po_id row) (po_quantity row) (k, X) db =
    settle_expired_position X db_expiry uid (po_id row) (po_quantity row) db"
  using claim_position_row [OF assms(2,3), of "\<lambda>p. True" X] assms(1)
  by (simp add: settle_by_def cleanup_position_def settle_expired_position_def Let_def split: settler.splits)

lemma settle_by_unclaimed:
  assumes "\<And>p. p \<in> set (positions db) \<Longrightarrow> po_id p = pid \<Longrightarrow> po_quantity p \<noteq> q"
  shows "settle_by db_expiry uid pid q sx db = db"
  using claim_position_none [of db pid q "\<lambda>p. True" "snd sx"] assms
  by (auto simp: settle_by_def cleanup_position_def settle_expired_position_def split: settler.splits)

lemma settled_row_quantity [simp]:
  "po_quantity (expired_row db e p x) = 0" "po_id (expired_row db e p x) = po_id x"
  by (simp_all add: expired_row_def settled_row_def Let_def)

text \<open>C15: the book, the sweep and the start-up catch-up settle an expired contract alike and only once:
  any number of them, each working from the same loaded quantity, in any order and at any times, leave
  exactly what the first of them alone would leave, which is what a settlement from the book leaves.\<close>

theorem expired_settlers_agree:
  assumes "positions_wf db" and "row \<in> set (positions db)" and "po_quantity row \<noteq> 0"
    and "get_contract_expiry db_expiry (po_symbol row) (po_exchange row) = Some e"
  shows "fold (settle_by db_expiry uid (po_id row) (po_quantity row)) ((k, X) # settlers) db =
    settle_expired_position X db_expiry uid (po_id row) (po_quantity row) db"
proof -
  let ?d = "settle_expired_position X db_expiry uid (po_id row) (po_quantity row) db"
  have gone: "po_quantity p \<noteq> po_quantity row" if "p \<in> set (positions ?d)" "po_id p = po_id row" for p
    using that assms(3) by (auto simp: settle_expired_effect [OF assms(1,2,4)] set_sql_update)
  have "fold (settle_by db_expiry uid (po_id row) (po_quantity row)) settlers ?d = ?d"
    by (induction settlers) (simp_all add: settle_by_unclaimed [OF gone])
  then show ?thesis by (simp add: settlers_agree [OF assms(4,1,2)])
qed

text \<open>Settling an expired contract closes the position, books its gain on the row and dates the row at
  the expiry; and the account gets the reserved margin back together with the gain, provided it holds
  that much reserved margin.  When it does not, the fund manager refuses, nothing reaches the account,
  and the position is closed all the same.\<close>

theorem expired_contract_is_closed_and_booked:
  fixes X :: ext and row :: sandbox_position and db :: sandbox
  assumes "positions_wf db" and "row \<in> set (positions db)"
    and "get_contract_expiry db_expiry (po_symbol row) (po_exchange row) = Some e"
    and "funds_ready uid db" and "decimal_columns (x_read X)" and "grid_money (stored_money uid db)"
    and "settle_expired_position X db_expiry uid (po_id row) (po_quantity row) db = db'"
  defines "p \<equiv> read_position X row" and "m \<equiv> stored_money uid db"
  defines "gain \<equiv> settlement_pnl (get_expiry_settlement_price db p) p"
  shows "(\<forall>x \<in> set (positions db'). po_id x = po_id row \<longrightarrow>
      po_quantity x = 0 \<and> po_margin_blocked x = 0 \<and> po_updated_at x = e * ms_per_day \<and>
      po_accumulated_realized_pnl x = po_accumulated_realized_pnl p + gain) \<and>
    filter (\<lambda>x. po_id x \<noteq> po_id row) (positions db') = filter (\<lambda>x. po_id x \<noteq> po_id row) (positions db) \<and>
    stored_money uid db' =
      (if 0 \<le> po_margin_blocked p \<and> po_margin_blocked p \<le> used_margin m
       then m\<lparr>used_margin := used_margin m - po_margin_blocked p,
              available_balance := available_balance m + po_margin_blocked p + gain,
              realized_pnl := realized_pnl m + gain, total_pnl := realized_pnl m + gain + unrealized_pnl m,
              today_realized_pnl := Some ((case today_realized_pnl m of Some t \<Rightarrow> t | None \<Rightarrow> 0) + gain)\<rparr>
       else m)"
proof -
  note E = settle_expired_effect [OF assms(1-3), of X uid, folded p_def gain_def, unfolded assms(7)]
  have rows: "positions db' = sql_update (\<lambda>x. po_id x = po_id row) (expired_row db e p) (positions db)"
    by (simp add: E)
  have others: "filter (\<lambda>x. po_id x \<noteq> i) (sql_update (\<lambda>x. po_id x = i) (expired_row db e p) rows) =
      filter (\<lambda>x. po_id x \<noteq> i) rows" for i rows
    by (induction rows) (auto simp: sql_update_Cons)
  have "stored_money uid db' = stored_money uid (snd (run_funds_op X uid (Op_release (po_margin_blocked p) gain True) db))"
    by (simp add: E stored_money_def funds_of_def gain_def)
  also have "\<dots> = money_after X (Op_release (po_margin_blocked p) gain True) m"
    unfolding m_def by (rule stored_money_run [OF assms(4)])
  finally have money: "stored_money uid db' = \<dots>" .
  have "stored_money uid db' =
      (if 0 \<le> po_margin_blocked p \<and> po_margin_blocked p \<le> used_margin m
       then m\<lparr>used_margin := used_margin m - po_margin_blocked p,
              available_balance := available_balance m + po_margin_blocked p + gain,
              realized_pnl := realized_pnl m + gain, total_pnl := realized_pnl m + gain + unrealized_pnl m,
              today_realized_pnl := Some ((case today_realized_pnl m of Some t \<Rightarrow> t | None \<Rightarrow> 0) + gain)\<rparr>
       else m)"
    unfolding money using assms(6)
    by (simp add: money_after_grid [OF assms(5)] m_def release_compute_def released_def Let_def)
  moreover have "po_margin_blocked (expired_row db e p x) = 0" "po_updated_at (expired_row db e p x) = e * ms_per_day"
    "po_accumulated_realized_pnl (expired_row db e p x) = po_accumulated_realized_pnl p + gain" for x
    by (simp_all add: expired_row_def settled_row_def Let_def gain_def)
  ultimately show ?thesis
    unfolding rows others by (auto simp: set_sql_update)
qed

subsection \<open>The expiry a symbol spells\<close>

definition digit_char :: "int \<Rightarrow> char" where
  "digit_char n = char_of (48 + n)"

definition expiry_text :: "int \<Rightarrow> nat \<Rightarrow> int \<Rightarrow> string" where
  "expiry_text d m y = [digit_char (d div 10), digit_char (d mod 10)] @ MONTHS ! (m - 1) @
     [digit_char (y div 10), digit_char (y mod 10)]"

lemma digit_value_char: "0 \<le> n \<Longrightarrow> n \<le> 9 \<Longrightarrow> digit_value (digit_char n) = Some n"
  by (simp add: digit_value_def digit_char_def)

lemma two_digits_text: "0 \<le> n \<Longrightarrow> n \<le> 99 \<Longrightarrow> two_digits (digit_char (n div 10)) (digit_char (n mod 10)) = Some n"
  by (simp add: two_digits_def digit_value_char)

lemma expiry_at_nondigit: "digit_value c = None \<Longrightarrow> expiry_at (c # cs) = None"
  by (cases "c # cs" rule: expiry_at.cases) (simp_all add: two_digits_def)

lemma search_skips_base: "list_all (\<lambda>c. digit_value c = None) base \<Longrightarrow> search_expiry (base @ rest) = search_expiry rest"
  by (induction base) (simp_all add: expiry_at_nondigit)

lemma MONTHS_words:
  "list_all (\<lambda>i. length (MONTHS ! i) = 3 \<and> list_all is_upper (MONTHS ! i) \<and> index_of (MONTHS ! i) MONTHS = Some i) [0..<12]"
  by code_simp

lemma MONTHS_letters:
  assumes "1 \<le> m" and "m \<le> 12"
  shows "\<exists>a b c. MONTHS ! (m - 1) = [a, b, c] \<and> is_upper a \<and> is_upper b \<and> is_upper c \<and>
    index_of [a, b, c] MONTHS = Some (m - 1)"
proof -
  have "m - 1 < 12" using assms by simp
  then have w: "length (MONTHS ! (m - 1)) = 3" "list_all is_upper (MONTHS ! (m - 1))"
    "index_of (MONTHS ! (m - 1)) MONTHS = Some (m - 1)"
    using MONTHS_words by (simp_all add: list_all_iff)
  from w(1) obtain a b c where "MONTHS ! (m - 1) = [a, b, c]"
    by (auto simp: numeral_eq_Suc length_Suc_conv)
  with w(2,3) show ?thesis by simp
qed

lemma search_expiry_text:
  assumes "list_all (\<lambda>c. digit_value c = None) base" and "1 \<le> m" and "m \<le> 12"
    and "0 \<le> d" and "d \<le> 99" and "0 \<le> y" and "y \<le> 99"
  shows "\<exists>w. search_expiry (base @ expiry_text d m y @ rest) = Some (d, w, y) \<and> index_of w MONTHS = Some (m - 1)"
proof -
  obtain a b c where w: "MONTHS ! (m - 1) = [a, b, c]" "is_upper a" "is_upper b" "is_upper c"
    "index_of [a, b, c] MONTHS = Some (m - 1)" using MONTHS_letters [OF assms(2,3)] by blast
  have "search_expiry (expiry_text d m y @ rest) = Some (d, [a, b, c], y)"
    unfolding expiry_text_def w(1) using w(2-4) assms(4-7) by (simp add: two_digits_text)
  with w(5) search_skips_base [OF assms(1), of "expiry_text d m y @ rest"] show ?thesis by simp
qed

text \<open>C16: the expiry printed in a derivative's symbol is read back: an underlying without digits, the day, month and
  two-digit year of a calendar date, and any contract suffix name exactly that date of this century.  The
  first match decides, so an underlying that ends in digits hides its own expiry.\<close>

theorem symbol_expiry_reads_back:
  assumes "exchange \<in> set FO_EXCHANGES" and "list_all (\<lambda>c. digit_value c = None) underlying"
    and "0 \<le> y" and "y \<le> 99" and "date_of (2000 + y) m d = Some e"
  shows "parse_expiry_from_symbol (underlying @ expiry_text d m y @ contract) exchange = Some e \<and>
    parse_expiry_from_symbol (''360ONE'' @ expiry_text 25 12 25 @ ''FUT'') ''NFO'' = None"
proof
  have m: "1 \<le> m" "m \<le> 12" and d: "1 \<le> d" "d \<le> month_lengths (2000 + y) ! (m - 1)"
    using assms(5) by (auto simp: date_of_def split: if_splits)
  have "month_lengths (2000 + y) ! (m - 1) \<le> 31"
    using m by (cases "m - 1") (auto simp: month_lengths_def nth_Cons' numeral_eq_Suc)
  with d have "0 \<le> d" "d \<le> 99" by simp_all
  from search_expiry_text [OF assms(2) m this assms(3,4), of contract] assms(1,5) m
  show "parse_expiry_from_symbol (underlying @ expiry_text d m y @ contract) exchange = Some e"
    by (auto simp: parse_expiry_from_symbol_def)
  show "parse_expiry_from_symbol (''360ONE'' @ expiry_text 25 12 25 @ ''FUT'') ''NFO'' = None"
    by code_simp
qed

subsection \<open>A contract at its expiry\<close>

definition expiry_ext :: ext where
  "expiry_ext = sample_ext\<lparr>x_now := 20431 * ms_per_day + hhmm 16 0\<rparr>"

definition future_row :: sandbox_position where
  "future_row = sample_position\<lparr>po_symbol := ''NIFTY09DEC25FUT'', po_exchange := ''NFO'', po_product := NRML, po_ltp := Some 103\<rparr>"

definition expiry_market :: sandbox where
  "expiry_market = sample_db\<lparr>positions := [future_row]\<rparr>"

lemma future_row_expiry:
  "get_contract_expiry db_expiry (po_symbol future_row) (po_exchange future_row) = Some 20431"
proof -
  have "parse_expiry_from_symbol ''NIFTY09DEC25FUT'' ''NFO'' = Some 20431" by code_simp
  then show ?thesis by (simp add: get_contract_expiry_def future_row_def)
qed

lemma expiry_market_rows:
  "positions_wf expiry_market" "future_row \<in> set (positions expiry_market)" "po_quantity future_row \<noteq> 0"
  "funds_ready ''u'' expiry_market" "grid_money (stored_money ''u'' expiry_market)"
  "stored_money ''u'' expiry_market = sample_money" "decimal_columns (x_read expiry_ext)"
  using sample_grid sample_columns
  by (simp_all add: positions_wf_def expiry_market_def sample_db_def future_row_def sample_position_def funds_ready_def
      funds_wf_def funds_of_def stored_money_def sample_funds_def expiry_ext_def)

theorem expired_settlers_agree_witness:
  "fold (settle_by (\<lambda>s e. None) ''u'' 3 10) [(From_sweep, expiry_ext), (From_book, sample_ext), (From_sweep, sample_ext)] expiry_market =
     settle_expired_position expiry_ext (\<lambda>s e. None) ''u'' 3 10 expiry_market"
proof -
  have "po_id future_row = 3" "po_quantity future_row = 10" by (simp_all add: future_row_def sample_position_def)
  with expired_settlers_agree [OF expiry_market_rows(1-3) future_row_expiry [of "\<lambda>s e. None"],
      of "''u''" From_sweep expiry_ext "[(From_book, sample_ext), (From_sweep, sample_ext)]"]
  show ?thesis by simp
qed

theorem expired_contract_is_closed_and_booked_witness:
  "\<exists>db'. settle_expired_position expiry_ext (\<lambda>s e. None) ''u'' 3 10 expiry_market = db' \<and>
     available_balance (stored_money ''u'' db') = 1030 \<and> used_margin (stored_money ''u'' db') = 0 \<and>
     realized_pnl (stored_money ''u'' db') = 30"
proof -
  have row: "po_id future_row = 3" "po_quantity future_row = 10" "po_symbol future_row = ''NIFTY09DEC25FUT''"
    "po_average_price future_row = 100" "po_margin_blocked future_row = 100"
    by (simp_all add: future_row_def sample_position_def)
  obtain db' where run: "settle_expired_position expiry_ext (\<lambda>s e. None) ''u'' (po_id future_row) (po_quantity future_row) expiry_market = db'"
    by blast
  have r: "x_read expiry_ext 2 100 = 100" "x_read expiry_ext 2 103 = 103" "x_read expiry_ext 2 0 = 0"
    using decimal_columns.rd_id [OF expiry_market_rows(7), of 2] by simp_all
  have read: "po_ltp (read_position expiry_ext future_row) = Some 103"
    by (simp add: read_position_def future_row_def sample_position_def r)
  have "\<not> endswith ''NIFTY09DEC25FUT'' ''CE''" "\<not> endswith ''NIFTY09DEC25FUT'' ''PE''"
    by (simp_all add: endswith_def suffix_def)
  then have "settlement_pnl (get_expiry_settlement_price expiry_market (read_position expiry_ext future_row)) (read_position expiry_ext future_row) = 30"
    by (simp add: get_expiry_settlement_price_def settlement_pnl_def read row r Let_def)
  with expired_contract_is_closed_and_booked [OF expiry_market_rows(1,2) future_row_expiry expiry_market_rows(4,7,5) run] run
  show ?thesis by (simp add: r expiry_market_rows(6) sample_money_def row)
qed

theorem symbol_expiry_reads_back_witness:
  "parse_expiry_from_symbol (''NIFTY'' @ expiry_text 9 12 25 @ ''26000CE'') ''NFO'' = Some 20431"
proof -
  have "date_of (2000 + 25) 12 9 = Some 20431" by code_simp
  moreover have "list_all (\<lambda>c. digit_value c = None) ''NIFTY''" by code_simp
  moreover have "''NFO'' \<in> set FO_EXCHANGES" by (simp add: FO_EXCHANGES_def)
  ultimately show ?thesis using symbol_expiry_reads_back [of "''NFO''" "''NIFTY''" 25 12 9 20431 "''26000CE''"] by simp
qed

end
