(* ===== verification/SquareOff.thy ===== *)
theory SquareOff
  imports PositionManager
begin

text \<open>
  The square-off manager (\<open>sandbox/squareoff_manager.py\<close>): the sweep that cancels resting intraday
  orders past their exchange's time and orders on expired contracts, settles expired positions, and
  closes the intraday positions that are due.  Sweeps run one after another; each works on the
  orders and positions it loaded, and a sweep that found the lock taken for too long does nothing.
\<close>

subsection \<open>Cancelling\<close>

definition past_square_off :: "ext \<Rightarrow> sandbox \<Rightarrow> string \<Rightarrow> bool" where
  "past_square_off X db exchange \<longleftrightarrow>
     (case square_off_time db exchange of None \<Rightarrow> False | Some t \<Rightarrow> time_of_day (x_now X) \<ge> t)"

definition mis_order_due :: "ext \<Rightarrow> sandbox \<Rightarrow> sandbox_order \<Rightarrow> bool" where
  "mis_order_due X db r \<longleftrightarrow> od_product r = MIS \<and> is_pending r \<and> past_square_off X db (od_exchange r)"

definition expired_order ::
    "ext \<Rightarrow> (string \<Rightarrow> string \<Rightarrow> int option) \<Rightarrow> sandbox \<Rightarrow> sandbox_order \<Rightarrow> bool" where
  "expired_order X db_expiry db r \<longleftrightarrow>
     is_pending r \<and>
     is_contract_expired_now X db (get_contract_expiry db_expiry (od_symbol r) (od_exchange r)) (od_exchange r)"

definition order_ok :: "order_response \<Rightarrow> bool" where
  "order_ok resp \<longleftrightarrow> (case resp of Order_ok oid \<Rightarrow> True | _ \<Rightarrow> False)"

primrec cancel_each :: "ext \<Rightarrow> (string \<times> orderid) list \<Rightarrow> nat \<Rightarrow> sandbox \<Rightarrow> nat \<times> sandbox" where
  "cancel_each X [] n db = (n, db)"
| "cancel_each X (u # us) n db =
     (case cancel_order X (fst u) (snd u) db of
        (resp, db1) \<Rightarrow> cancel_each X us (if order_ok resp then Suc n else n) db1)"

definition cancel_selected :: "ext \<Rightarrow> (sandbox_order \<Rightarrow> bool) \<Rightarrow> sandbox \<Rightarrow> nat \<times> sandbox" where
  "cancel_selected X P db = cancel_each X (map (\<lambda>r. (od_user r, od_orderid r)) (filter P (orders db))) 0 db"

definition cancel_open_mis_orders :: "ext \<Rightarrow> sandbox \<Rightarrow> nat \<times> sandbox" where
  "cancel_open_mis_orders X db = cancel_selected X (mis_order_due X db) db"

definition cancel_expired_contract_orders ::
    "ext \<Rightarrow> (string \<Rightarrow> string \<Rightarrow> int option) \<Rightarrow> sandbox \<Rightarrow> nat \<times> sandbox" where
  "cancel_expired_contract_orders X db_expiry db = cancel_selected X (expired_order X db_expiry db) db"

subsection \<open>Closing\<close>

text \<open>\<open>lock_free n\<close>: whether the lock of the position \<open>n\<close> came free in time.\<close>

primrec square_off_positions :: "ext \<Rightarrow> (nat \<Rightarrow> bool) \<Rightarrow> sandbox_position list \<Rightarrow> sandbox \<Rightarrow> sandbox" where
  "square_off_positions X lock_free [] db = db"
| "square_off_positions X lock_free (p # ps) db =
     square_off_positions X lock_free ps
       (snd (close_position X (lock_free (po_id p)) (po_user p) (po_symbol p) (po_exchange p) (po_product p) db))"

definition open_mis :: "sandbox_position \<Rightarrow> bool" where
  "open_mis p \<longleftrightarrow> po_product p = MIS \<and> po_quantity p \<noteq> 0"

definition check_and_square_off ::
    "ext \<Rightarrow> bool \<Rightarrow> (nat \<Rightarrow> bool) \<Rightarrow> (string \<Rightarrow> string \<Rightarrow> int option) \<Rightarrow> sandbox \<Rightarrow> sandbox" where
  "check_and_square_off X sweep_lock_free lock_free db_expiry db =
     (if \<not> sweep_lock_free then db
      else case cancel_open_mis_orders X db of (n1, db1) \<Rightarrow>
        (case cancel_expired_contract_orders X db_expiry db1 of (n2, db2) \<Rightarrow>
          (let db3 = cleanup_expired_contracts X db_expiry db2;
               due = filter (\<lambda>p. open_mis p \<and> past_square_off X db3 (po_exchange p)) (positions db3);
               db4 = square_off_positions X lock_free due db3
           in if n1 + n2 > 0 \<or> due \<noteq> [] then publish (Auto_square_off (n1 + n2) (length due)) db4 else db4)))"

definition force_square_off_all_mis :: "ext \<Rightarrow> (nat \<Rightarrow> bool) \<Rightarrow> sandbox \<Rightarrow> nat \<times> sandbox" where
  "force_square_off_all_mis X lock_free db =
     (let mis = filter open_mis (positions db) in (length mis, square_off_positions X lock_free mis db))"

subsection \<open>Times\<close>

text \<open>Seconds to the square-off; negative once it has passed.\<close>

definition get_time_to_square_off :: "ext \<Rightarrow> sandbox \<Rightarrow> string \<Rightarrow> rat option" where
  "get_time_to_square_off X db exchange =
     map_option (\<lambda>t. of_int (t - time_of_day (x_now X)) / 1000) (square_off_time db exchange)"

end
