(* ===== verification/CatchUp.thy ===== *)
theory CatchUp
  imports SquareOff GttManager
begin

text \<open>
  The catch-up processor (\<open>sandbox/catch_up_processor.py\<close>): what a start or a login does for the jobs
  that were missed: intraday positions left over from a past session, delivery settlement, the daily
  profit reset and snapshot, and GTTs the market crossed meanwhile.

  The column \<open>updated_at\<close> of the funds table is read by the reset alone; it is the parameter
  \<open>funds_updated\<close>.  The snapshot table is passed explicitly.
\<close>

subsection \<open>Intraday positions of past sessions\<close>

definition last_known_price :: "sandbox_position \<Rightarrow> rat" where
  "last_known_price p =
     (case po_ltp p of Some l \<Rightarrow> if l > 0 then l else po_average_price p | None \<Rightarrow> po_average_price p)"

definition stale_gain :: "sandbox \<Rightarrow> sandbox_position \<Rightarrow> rat" where
  "stale_gain db p = settlement_pnl (last_known_price p) p * get_contract_value db (po_symbol p) (po_exchange p)"

definition stale_row :: "rat \<Rightarrow> sandbox_position \<Rightarrow> sandbox_position \<Rightarrow> sandbox_position" where
  "stale_row gain p row =
     row\<lparr>po_quantity := 0, po_margin_blocked := 0, po_pnl := gain,
         po_accumulated_realized_pnl := po_accumulated_realized_pnl p + gain, po_today_realized_pnl := 0\<rparr>"

text \<open>The claim repeats the boundary test, so a position traded since it was loaded is left alone.\<close>

definition settle_stale_mis :: "ext \<Rightarrow> time \<Rightarrow> nat \<Rightarrow> int \<Rightarrow> sandbox \<Rightarrow> sandbox" where
  "settle_stale_mis X boundary pid observed db =
     (case claim_position_for_settlement X pid observed (\<lambda>p. po_updated_at p < boundary) db of
        None \<Rightarrow> db
      | Some p \<Rightarrow>
          (let gain = stale_gain db p;
               db1 = snd (stage_prior_session_release X (po_user p) (po_margin_blocked p) gain db)
           in write_position X pid (stale_row gain p) db1))"

definition stale_mis :: "time \<Rightarrow> sandbox \<Rightarrow> sandbox_position \<Rightarrow> bool" where
  "stale_mis boundary db p \<longleftrightarrow>
     po_product p = MIS \<and> po_quantity p \<noteq> 0 \<and> po_updated_at p < boundary \<and>
     square_off_time db (po_exchange p) \<noteq> None"

primrec settle_stale_each :: "ext \<Rightarrow> time \<Rightarrow> (nat \<times> int) list \<Rightarrow> sandbox \<Rightarrow> sandbox" where
  "settle_stale_each X boundary [] db = db"
| "settle_stale_each X boundary (obs # rest) db =
     settle_stale_each X boundary rest (settle_stale_mis X boundary (fst obs) (snd obs) db)"

definition stale_observed :: "time \<Rightarrow> sandbox \<Rightarrow> (nat \<times> int) list" where
  "stale_observed boundary db = map (\<lambda>p. (po_id p, po_quantity p)) (filter (stale_mis boundary db) (positions db))"

definition catch_up_mis_squareoff :: "ext \<Rightarrow> bool \<Rightarrow> string \<Rightarrow> sandbox \<Rightarrow> sandbox" where
  "catch_up_mis_squareoff X expiry_disabled session_expiry db =
     (let boundary = last_session_expiry_utc X session_expiry in
      if expiry_disabled then db
      else settle_stale_each X boundary (stale_observed boundary db) db)"

subsection \<open>Delivery settlement\<close>

text \<open>The trigger compares in the clock of the database, five and a half hours earlier.\<close>

definition catch_up_t1_settlement :: "ext \<Rightarrow> sandbox \<Rightarrow> sandbox" where
  "catch_up_t1_settlement X db =
     (let cutoff = day_of (x_now X) * ms_per_day - 19800000 in
      if row_count (\<lambda>p. po_product p = CNC \<and> po_created_at p < cutoff) (positions db) > 0
      then snd (process_all_t1_settlements X db) else db)"

subsection \<open>The daily profit\<close>

definition zero_today :: "money \<Rightarrow> money" where
  "zero_today m = m\<lparr>today_realized_pnl := Some 0\<rparr>"

definition catch_up_daily_pnl_reset :: "ext \<Rightarrow> string \<Rightarrow> (string \<Rightarrow> time) \<Rightarrow> sandbox \<Rightarrow> sandbox" where
  "catch_up_daily_pnl_reset X session_expiry funds_updated db =
     (let boundary = last_session_expiry_utc X session_expiry;
          stale_position = (\<lambda>p. po_updated_at p < boundary);
          stale_funds = (\<lambda>f. funds_updated (fu_user f) < boundary);
          nonzero = (\<lambda>t. t \<noteq> None \<and> t \<noteq> Some 0)
      in if (\<exists>p \<in> set (positions db). stale_position p \<and> po_today_realized_pnl p \<noteq> 0) \<or>
            (\<exists>f \<in> set (funds_rows db). stale_funds f \<and> nonzero (today_realized_pnl (fu_money f)))
         then db\<lparr>positions := sql_update stale_position (\<lambda>p. p\<lparr>po_today_realized_pnl := 0, po_updated_at := db_now X\<rparr>) (positions db),
                 funds_rows := sql_update stale_funds (\<lambda>f. f\<lparr>fu_money := zero_today (fu_money f)\<rparr>) (funds_rows db)\<rparr>
         else db)"

record daily_pnl =
  dp_user :: string
  dp_date :: int
  dp_realized_pnl :: rat
  dp_positions_unrealized_pnl :: rat
  dp_holdings_unrealized_pnl :: rat
  dp_total_mtm :: rat
  dp_available_balance :: rat
  dp_used_margin :: rat
  dp_portfolio_value :: rat

definition backfilled_snapshot :: "int \<Rightarrow> string \<Rightarrow> money \<Rightarrow> daily_pnl" where
  "backfilled_snapshot day uid m =
     (let realized = realized_pnl m - (case today_realized_pnl m of Some t \<Rightarrow> t | None \<Rightarrow> 0) in
      \<lparr> dp_user = uid, dp_date = day, dp_realized_pnl = realized, dp_positions_unrealized_pnl = 0,
        dp_holdings_unrealized_pnl = 0, dp_total_mtm = realized,
        dp_available_balance = available_balance m, dp_used_margin = used_margin m,
        dp_portfolio_value = available_balance m + used_margin m \<rparr>)"

text \<open>
  \<open>snapshot_day\<close> is the market calendar's answer for yesterday.  Accounts without any realised profit
  get no row.
\<close>

definition catch_up_daily_pnl_snapshot ::
    "ext \<Rightarrow> bool \<Rightarrow> sandbox \<Rightarrow> daily_pnl list \<Rightarrow> daily_pnl list" where
  "catch_up_daily_pnl_snapshot X snapshot_day db rows =
     (let yesterday = day_of (x_now X) - 1;
          missing = filter (\<lambda>f. \<not> (\<exists>s \<in> set rows. dp_user s = fu_user f \<and> dp_date s = yesterday)) (funds_rows db);
          active = filter (\<lambda>f. let m = read_money X (fu_money f) in
                      dp_realized_pnl (backfilled_snapshot yesterday (fu_user f) m) \<noteq> 0 \<or> realized_pnl m \<noteq> 0) missing
      in if snapshot_day
         then rows @ map (\<lambda>f. backfilled_snapshot yesterday (fu_user f) (read_money X (fu_money f))) active
         else rows)"

subsection \<open>The whole catch-up\<close>

text \<open>A GTT leg is evaluated exactly as the polling engine does it.\<close>

definition catch_up_gtts ::
    "ext \<Rightarrow> (nat \<Rightarrow> bool) \<Rightarrow> (string \<Rightarrow> string \<Rightarrow> quote option) \<Rightarrow> sandbox \<Rightarrow> sandbox" where
  "catch_up_gtts X lock_free quote_cache db =
     (let db1 = snd (reclaim_stranded_legs X db)
      in evaluate_legs X lock_free quote_cache (get_active_legs X db1) db1)"

record catch_up_env =
  ce_expiry_disabled :: bool
  ce_session_expiry :: string
  ce_funds_updated :: "string \<Rightarrow> time"
  ce_snapshot_day :: bool
  ce_lock_free :: "nat \<Rightarrow> bool"
  ce_quotes :: "string \<Rightarrow> string \<Rightarrow> quote option"

text \<open>\<open>run_free\<close>: no catch-up is under way; a trigger that finds one is skipped.\<close>

definition run_catch_up_tasks ::
    "ext \<Rightarrow> bool \<Rightarrow> catch_up_env \<Rightarrow> sandbox \<times> daily_pnl list \<Rightarrow> sandbox \<times> daily_pnl list" where
  "run_catch_up_tasks X run_free C s =
     (if \<not> run_free then s
      else let db1 = catch_up_mis_squareoff X (ce_expiry_disabled C) (ce_session_expiry C) (fst s);
               db2 = catch_up_t1_settlement X db1;
               db3 = catch_up_daily_pnl_reset X (ce_session_expiry C) (ce_funds_updated C) db2;
               rows = catch_up_daily_pnl_snapshot X (ce_snapshot_day C) db3 (snd s)
           in (catch_up_gtts X (ce_lock_free C) (ce_quotes C) db3, rows))"

end
