(* ===== verification/ClosingLaws.thy ===== *)
theory ClosingLaws
  imports CatchUp OrderLaws PositionLaws
begin

text \<open>
  What closing a position achieves, across the position manager, the order manager and the execution
  engine; and the settlement of intraday positions a past session left over.
\<close>

subsection \<open>The closing order is valid\<close>

lemma action_text_parse [simp]: "parse_action (action_text a) = Some a"
  by (cases a) (simp_all add: action_text_def parse_action_def str_upper_def char_upper_def)

lemma price_type_text_parse [simp]: "parse_price_type (price_type_text t) = Some t"
  by (cases t) (simp_all add: price_type_text_def parse_price_type_def str_upper_def char_upper_def)

lemma product_text_parse [simp]: "parse_product (product_text pr) = Some pr"
  by (cases pr) (simp_all add: product_text_def parse_product_def str_upper_def char_upper_def)

lemma texts_nonempty [simp]: "action_text a \<noteq> []" "price_type_text t \<noteq> []" "product_text pr \<noteq> []"
  by (simp_all add: action_text_def price_type_text_def product_text_def split: action.splits price_type.splits product.splits)

lemma valid_exchange_upper: "e \<in> set VALID_EXCHANGES \<Longrightarrow> str_upper e = e"
  by (auto simp: VALID_EXCHANGES_def str_upper_def char_upper_def)

lemma int_of_number_of_int [simp]: "int_of_number (of_int n) = n"
  by (simp add: int_of_number_def)

definition closing_side :: "sandbox_position \<Rightarrow> action" where
  "closing_side p = (if po_quantity p > 0 then SELL else BUY)"

definition closing_request :: "sandbox_position \<Rightarrow> order_request" where
  "closing_request p =
     \<lparr> rq_symbol = po_symbol p, rq_exchange = po_exchange p, rq_action = closing_side p,
       rq_quantity = \<bar>po_quantity p\<bar>, rq_price = None, rq_trigger_price = None, rq_price_type = MARKET,
       rq_product = po_product p, rq_strategy = ''AUTO_SQUARE_OFF'', rq_gtt_leg_id = None \<rparr>"

text \<open>A position a market order can close now: known instrument, whole lots, leverage configured, and a
  live quote, within the three fetches, that is not stale.\<close>

definition closable :: "ext \<Rightarrow> sandbox \<Rightarrow> sandbox_position \<Rightarrow> quote \<Rightarrow> bool" where
  "closable X db p q \<longleftrightarrow>
     po_symbol p \<noteq> [] \<and> po_exchange p \<in> set VALID_EXCHANGES \<and> po_quantity p \<noteq> 0 \<and>
     (po_exchange p \<in> {''NSE'', ''BSE''} \<longrightarrow> po_product p \<noteq> NRML) \<and>
     (po_exchange p \<in> set DERIVATIVE_PRODUCT_EXCHANGES \<longrightarrow> po_product p \<noteq> CNC) \<and>
     (case symtoken db (po_symbol p) (po_exchange p) of
        None \<Rightarrow> False | Some info \<Rightarrow> \<not> bad_lot (po_exchange p) info \<bar>po_quantity p\<bar>) \<and>
     get_leverage db (po_exchange p) (po_product p) (po_symbol p) (Some (closing_side p)) \<noteq> 0 \<and>
     first_live X (closing_request p) None = Some q \<and> \<not> quote_looks_stale q"

lemma first_live_positive: "first_live X rq prefetched = Some q \<Longrightarrow> 0 < q_ltp q"
  by (auto simp: first_live_def live_def split: option.splits if_splits)

lemma closable_fields:
  assumes "closable X db p q"
  shows "po_symbol p \<noteq> []" "po_exchange p \<in> set VALID_EXCHANGES" "po_quantity p \<noteq> 0"
    "\<not> (po_exchange p \<in> {''NSE'', ''BSE''} \<and> po_product p = NRML)"
    "\<not> (po_exchange p \<in> set DERIVATIVE_PRODUCT_EXCHANGES \<and> po_product p = CNC)"
    "\<exists>info. symtoken db (po_symbol p) (po_exchange p) = Some info \<and> \<not> bad_lot (po_exchange p) info \<bar>po_quantity p\<bar>"
    "get_leverage db (po_exchange p) (po_product p) (po_symbol p) (Some (closing_side p)) \<noteq> 0"
    "first_live X (closing_request p) None = Some q" "q_ltp q > 0" "\<not> quote_looks_stale q"
proof -
  note c = assms [unfolded closable_def]
  show "po_symbol p \<noteq> []" using c by (rule conjunct1)
  note c = c [THEN conjunct2]
  show "po_exchange p \<in> set VALID_EXCHANGES" using c by (rule conjunct1)
  note c = c [THEN conjunct2]
  show "po_quantity p \<noteq> 0" using c by (rule conjunct1)
  note c = c [THEN conjunct2]
  show "\<not> (po_exchange p \<in> {''NSE'', ''BSE''} \<and> po_product p = NRML)" using conjunct1 [OF c] by blast
  note c = c [THEN conjunct2]
  show "\<not> (po_exchange p \<in> set DERIVATIVE_PRODUCT_EXCHANGES \<and> po_product p = CNC)" using conjunct1 [OF c] by blast
  note c = c [THEN conjunct2]
  show "\<exists>info. symtoken db (po_symbol p) (po_exchange p) = Some info \<and> \<not> bad_lot (po_exchange p) info \<bar>po_quantity p\<bar>"
    using conjunct1 [OF c] by (cases "symtoken db (po_symbol p) (po_exchange p)") simp_all
  note c = c [THEN conjunct2]
  show "get_leverage db (po_exchange p) (po_product p) (po_symbol p) (Some (closing_side p)) \<noteq> 0"
    using c by (rule conjunct1)
  note c = c [THEN conjunct2]
  show "first_live X (closing_request p) None = Some q" "\<not> quote_looks_stale q"
    using c by blast+
  then show "q_ltp q > 0" by (metis first_live_positive)
qed

lemma closing_order_valid:
  assumes "closable X db p q"
  shows "validate_order (closing_order p) = None" "extract_order (closing_order p) = Some (closing_request p)"
proof -
  note c = closable_fields [OF assms]
  have up: "str_upper (po_exchange p) = po_exchange p" using valid_exchange_upper [OF c(2)] .
  have ex: "po_exchange p \<noteq> []" using c(2) by (auto simp: VALID_EXCHANGES_def)
  have q: "of_int \<bar>po_quantity p\<bar> \<noteq> (0::rat)" "\<not> \<bar>po_quantity p\<bar> \<le> 0" using c(3) by simp_all
  let ?f = "closing_order p"
  have f: "fm_symbol ?f = po_symbol p" "fm_exchange ?f = po_exchange p" "fm_action ?f = action_text (closing_side p)"
    "fm_quantity ?f = Number (of_int \<bar>po_quantity p\<bar>)" "fm_price_type ?f = price_type_text MARKET"
    "fm_product ?f = product_text (po_product p)"
    by (simp_all add: closing_order_def closing_side_def)
  have m: "missing_field ?f = None"
    unfolding missing_field_def f truthy_def using c(1) ex q(1) by simp
  have v: "validate_prices ?f MARKET = None"
    unfolding validate_prices_def f up using c(2) by simp
  show "validate_order ?f = None"
    unfolding validate_order_def m f up Let_def action_text_parse price_type_text_parse product_text_parse
      option.case prod.case field_number.case int_of_number_of_int
    unfolding if_not_P [OF c(4)] if_not_P [OF c(5)] if_not_P [OF q(2)] by (rule v)
  show "extract_order (closing_order p) = Some (closing_request p)"
    by (simp add: extract_order_def closing_order_def closing_request_def closing_side_def decimal_field_def truthy_def up
        del: of_int_abs)
qed

subsection \<open>Where the closing order goes\<close>

definition closing_pricing :: "quote \<Rightarrow> pricing" where
  "closing_pricing q = \<lparr>pr_margin_price = Some (q_ltp q), pr_cached_quote = Some q, pr_trigger_met = False\<rparr>"

definition closing_price :: "sandbox_position \<Rightarrow> quote \<Rightarrow> rat" where
  "closing_price p q =
     (if po_quantity p > 0 then (if q_bid q > 0 then q_bid q else q_ltp q)
      else (if q_ask q > 0 then q_ask q else q_ltp q))"

lemma closing_request_simps [simp]:
  "rq_symbol (closing_request p) = po_symbol p" "rq_exchange (closing_request p) = po_exchange p"
  "rq_action (closing_request p) = closing_side p" "rq_quantity (closing_request p) = \<bar>po_quantity p\<bar>"
  "rq_price_type (closing_request p) = MARKET" "rq_product (closing_request p) = po_product p"
  "rq_gtt_leg_id (closing_request p) = None" "rq_price (closing_request p) = None"
  "rq_trigger_price (closing_request p) = None"
  by (simp_all add: closing_request_def)

lemma closing_opposes: "po_quantity p \<noteq> 0 \<Longrightarrow> opposite_side (closing_side p) (po_quantity p)"
  by (auto simp: opposite_side_def closing_side_def)

lemma closing_cancels: "po_quantity p \<noteq> 0 \<Longrightarrow> po_quantity p + signed_quantity (closing_side p) \<bar>po_quantity p\<bar> = 0"
  by (auto simp: closing_side_def signed_quantity_def)

text \<open>It is never blocked, needs no margin, and no delivery check refuses it.\<close>

lemma closing_order_passes:
  assumes "closable X db p q" and "position_for uid (po_symbol p) (po_exchange p) (po_product p) db = Some p"
  shows "place_order X uid (closing_order p) None db = insert_order X uid (closing_request p) (closing_pricing q) 0 db db"
    and "cnc_sell_rejection uid (closing_request p) db = None"
proof -
  note c = closable_fields [OF assms(1)]
  obtain info where info: "symtoken db (po_symbol p) (po_exchange p) = Some info"
    "\<not> bad_lot (po_exchange p) info \<bar>po_quantity p\<bar>" using c(6) by blast
  have qty: "position_qty uid (closing_request p) db = po_quantity p"
    using assms(2) by (simp add: position_qty_def)
  have open_window: "\<not> mis_blocked X uid (closing_request p) db"
    using assms(2) c(3) closing_opposes [OF c(3)] by (auto simp: mis_blocked_def Let_def split: option.splits)
  note live = c(8)
  have price: "price_order X uid (closing_request p) None db = Inr (closing_pricing q)"
    using c(9) by (simp add: price_order_def market_pricing_def live closing_pricing_def)
  have margin: "margin_to_block uid (closing_request p) (q_ltp q) db = Inr 0"
    using c(7) closing_opposes [OF c(3)] by (simp add: margin_to_block_def calculate_margin_required_def info(1) qty Let_def)
  have reserve: "reserve_margin X uid (closing_request p) 0 db = (Inr 0, db)"
    by (simp add: reserve_margin_def)
  have ltp: "the (pr_margin_price (closing_pricing q)) = q_ltp q" by (simp add: closing_pricing_def)
  have "place_request X uid (closing_request p) None db = insert_order X uid (closing_request p) (closing_pricing q) 0 db db"
    by (simp add: place_request_def info open_window price ltp margin reserve)
  then show "place_order X uid (closing_order p) None db = insert_order X uid (closing_request p) (closing_pricing q) 0 db db"
    by (simp add: place_order_def closing_order_valid [OF assms(1)])
  show "cnc_sell_rejection uid (closing_request p) db = None"
    unfolding cnc_sell_rejection_def qty
    by (auto simp: closing_side_def holdings_qty_def Let_def c(3) split: option.splits)
qed

subsection \<open>A market order fills at once\<close>

definition market_price :: "action \<Rightarrow> quote \<Rightarrow> rat" where
  "market_price act q =
     (case act of BUY \<Rightarrow> (if q_ask q > 0 then q_ask q else q_ltp q)
                | SELL \<Rightarrow> (if q_bid q > 0 then q_bid q else q_ltp q))"

lemma market_open_price: "od_price_type r = MARKET \<Longrightarrow> open_fill_price r q = Some (market_price (od_action r) q)"
  by (simp add: open_fill_price_def market_price_def split: action.splits)

lemma accepted_market_simps:
  assumes "rq_price_type rq = MARKET"
  shows "od_status (accepted_order X uid rq pricing oid rid margin) = Open"
    "od_price_type (accepted_order X uid rq pricing oid rid margin) = MARKET"
    "od_action (accepted_order X uid rq pricing oid rid margin) = rq_action rq"
    "od_symbol (accepted_order X uid rq pricing oid rid margin) = rq_symbol rq"
    "od_exchange (accepted_order X uid rq pricing oid rid margin) = rq_exchange rq"
    "od_product (accepted_order X uid rq pricing oid rid margin) = rq_product rq"
  using assms by (simp_all add: accepted_order_def order_of_def initial_order_status_def)

lemma publish_tables [simp]:
  "orders (publish e d) = orders d" "trades (publish e d) = trades d" "positions (publish e d) = positions d"
  "symtoken (publish e d) = symtoken d" "config (publish e d) = config d"
  by (simp_all add: publish_def)

lemma notify_keeps_market [simp]:
  "symtoken (notify_order_placed X rid db) = symtoken db" "config (notify_order_placed X rid db) = config db"
  by (simp_all add: notify_order_placed_def split: option.splits)

lemma insert_market_order:
  assumes rq: "rq_price_type rq = MARKET" "rq_gtt_leg_id rq = None" "cnc_sell_rejection uid rq db = None"
    and quoted: "pr_cached_quote pricing = Some q" "q_ltp q > 0" "\<not> quote_looks_stale q"
    and wf: "orders_wf db" and known: "\<And>t. t \<in> set (trades db) \<Longrightarrow> tr_orderid t \<in> od_orderid ` set (orders db)"
    and calm: "\<not> x_db_error X"
  obtains oid rid db' d d2 row price cur t where
    "insert_order X uid rq pricing margin db0 db = (Order_ok oid, db')"
    "row = accepted_order X uid rq pricing oid rid margin" "price = market_price (rq_action rq) q"
    "cur = read_order X (fill_row price row)" "update_position X cur price d2 = Some d"
    "positions d2 = positions db" "symtoken d2 = symtoken db" "positions db' = positions d"
    "find (\<lambda>r. od_id r = rid) (orders db') = Some (fill_row price row)"
    "order_keys db' = order_keys db @ [(rid, oid)]" "rid \<notin> od_id ` set (orders db)"
    "trades db' = trades db @ [t]" "tr_orderid t = oid" "symtoken db' = symtoken db" "config db' = config db"
proof -
  obtain oid db1 where g: "generate_order_id X db = (oid, db1)" by fastforce
  obtain day seq where oid: "oid = (day, seq)" by fastforce
  have t: "orders db1 = orders db" "positions db1 = positions db" "trades db1 = trades db" "symtoken db1 = symtoken db"
      "config db1 = config db"
    using generate_order_id_tables [OF g] by auto
  define rid where "rid = next_id od_id (orders db1)"
  define row where "row = accepted_order X uid rq pricing oid rid margin"
  define price where "price = market_price (rq_action rq) q"
  define da where "da = publish (Order_update oid (od_status row)) (db1\<lparr>orders := orders db1 @ [row]\<rparr>)"
  have fresh: "oid \<notin> od_orderid ` set (orders db)" using order_ids_fresh [OF g [unfolded oid]] oid by simp
  have rfresh: "rid \<notin> od_id ` set (orders db)" using next_id_fresh [of od_id "orders db1"] by (simp add: rid_def t(1))
  have da: "orders da = orders db @ [row]" "trades da = trades db" "positions da = positions db" "symtoken da = symtoken db"
      "config da = config db"
    by (simp_all add: da_def t)
  have row: "od_id row = rid" "od_orderid row = oid" "od_status row = Open" "od_price_type row = MARKET" "od_action row = rq_action rq"
    by (simp_all add: row_def accepted_market_simps [OF rq(1)])
  have wfa: "orders_wf da" using wf rfresh by (auto simp: orders_wf_def da(1) row(1))
  have mem: "row \<in> set (orders da)" and pend: "is_pending row"
    by (simp_all add: da(1) is_pending_def PENDING_ORDER_STATUSES_def row(3))
  have none: "find (\<lambda>t. tr_orderid t = oid) (trades da) = None"
    using known fresh by (auto simp: da(2) find_None_iff)
  define cur where "cur = read_order X (fill_row price row)"
  define d2 where "d2 = da\<lparr>orders := sql_update (\<lambda>o'. od_id o' = od_id row \<and> is_pending o') (fill_row price) (orders da),
      trades := trades da @ [new_trade X cur price]\<rparr>"
  obtain d e where run: "update_position X cur price d2 = Some d" "execute_order X (read_order X row) price da = publish e d"
    using execute_order_runs(1) [OF wfa mem pend calm, of price] unfolding cur_def [symmetric] d2_def [symmetric] by blast
  have "process_order X (read_order X row) q da = execute_order X (read_order X row) price da"
    using quoted(2,3) none row by (simp add: process_order_def market_open_price price_def)
  then have imm: "immediate_execution X rq pricing (read_order X row) da = publish e d"
    using quoted rq(1) run(2) by (simp add: immediate_execution_def)
  have ins: "insert_order X uid rq pricing margin db0 db = (Order_ok oid, notify_order_placed X rid (publish e d))"
    using rq(2,3) imm unfolding insert_order_def g Let_def by (simp add: rid_def row_def da_def)
  have kept: "orders d = orders d2" "trades d = trades d2" "symtoken d = symtoken d2" "config d = config d2"
    by (simp_all add: beside_update_position [OF _ run(1)])
  have found: "find (\<lambda>r. od_id r = rid) (orders (notify_order_placed X rid (publish e d))) = Some (fill_row price row)"
    using execute_order_runs(2) [OF wfa mem pend calm, of price] by (simp add: row(1) kept d2_def cur_def)
  have keys: "order_keys (notify_order_placed X rid (publish e d)) = order_keys db @ [(rid, oid)]"
    using map_key_sql_update [of "\<lambda>o'. od_id o' = od_id row \<and> is_pending o'" "\<lambda>r. (od_id r, od_orderid r)" "fill_row price" "orders da"]
    by (simp add: order_keys_def kept d2_def da(1) row fill_row_def)
  show thesis
    by (rule that [OF ins row_def price_def cur_def run(1) _ _ _ found keys rfresh, of "new_trade X cur price"])
      (simp_all add: d2_def da kept new_trade_def cur_def row fill_row_def)
qed

subsection \<open>What closing achieves\<close>

definition at_position :: "string \<Rightarrow> string \<Rightarrow> string \<Rightarrow> product \<Rightarrow> sandbox_position \<Rightarrow> bool" where
  "at_position uid symbol exchange pr p \<longleftrightarrow>
     po_user p = uid \<and> po_symbol p = symbol \<and> po_exchange p = exchange \<and> po_product p = pr"

text \<open>What closing the whole position at \<open>price\<close> realises.\<close>

definition closing_gain :: "ext \<Rightarrow> sandbox \<Rightarrow> sandbox_position \<Rightarrow> rat \<Rightarrow> rat" where
  "closing_gain X db p price =
     calculate_realized_pnl (po_quantity p) (po_average_price (read_position X p)) \<bar>po_quantity p\<bar> price
       (get_contract_value db (po_symbol p) (po_exchange p))"

definition position_key :: "sandbox_position \<Rightarrow> string \<times> string \<times> string \<times> product" where
  "position_key p = (po_user p, po_symbol p, po_exchange p, po_product p)"

text \<open>The unique columns of the tables, and trades that belong to stored orders.\<close>

definition books_wf :: "sandbox \<Rightarrow> bool" where
  "books_wf db \<longleftrightarrow> orders_wf db \<and> positions_wf db \<and> distinct (map position_key (positions db)) \<and>
     (\<forall>t \<in> set (trades db). tr_orderid t \<in> od_orderid ` set (orders db))"

lemma close_out_keys:
  "map po_id (positions (close_out_position X r price p db)) = map po_id (positions db)"
  "map position_key (positions (close_out_position X r price p db)) = map position_key (positions db)"
  by (simp_all add: close_out_position_def write_position_def position_key_def map_key_sql_update Let_def)

lemma at_position_key: "at_position uid s e pr p \<longleftrightarrow> position_key p = (uid, s, e, pr)"
  by (simp add: at_position_def position_key_def)

lemma position_for_key: "position_for uid s e pr db = find (\<lambda>p. position_key p = (uid, s, e, pr)) (positions db)"
  by (simp add: position_for_def position_key_def)

lemma position_for_member:
  assumes "books_wf db" "p \<in> set (positions db)"
  shows "position_for (po_user p) (po_symbol p) (po_exchange p) (po_product p) db = Some p"
proof -
  have d: "distinct (map position_key (positions db))" using assms(1) by (simp add: books_wf_def)
  show ?thesis unfolding position_for_key
    by (rule find_unique_key [OF d assms(2)]) (simp add: position_key_def)
qed

text \<open>The filled row nets the position away.\<close>

lemma closing_fill_closes:
  fixes p q
  defines "price \<equiv> market_price (closing_side p) q"
  assumes "position_of cur d2 = Some p" "positions_wf d2" "po_quantity p \<noteq> 0"
    and cur: "od_action cur = closing_side p" "od_quantity cur = \<bar>po_quantity p\<bar>" "od_symbol cur = po_symbol p"
      "od_exchange cur = po_exchange p"
  shows "\<exists>p'. position_of cur (net_position X cur price d2) = Some p' \<and> po_quantity p' = 0 \<and> po_margin_blocked p' = 0 \<and>
      po_accumulated_realized_pnl p' =
        po_accumulated_realized_pnl (read_position X p) + closing_gain X d2 p (closing_price p q)"
    and "map po_id (positions (net_position X cur price d2)) = map po_id (positions d2)"
    and "map position_key (positions (net_position X cur price d2)) = map position_key (positions d2)"
    and "other_positions cur (net_position X cur price d2) = other_positions cur d2"
proof -
  have price: "price = closing_price p q"
    by (simp add: price_def closing_price_def market_price_def closing_side_def)
  have net: "net_position X cur price d2 = close_out_position X cur price (read_position X p) d2"
    using closing_cancels [OF assms(4)] assms(4) by (simp add: net_position_def assms(2) cur Let_def)
  have gain: "calculate_realized_pnl (po_quantity (read_position X p)) (po_average_price (read_position X p))
      \<bar>signed_quantity (od_action cur) (od_quantity cur)\<bar> price (contract_value d2 cur) = closing_gain X d2 p (closing_price p q)"
    by (simp add: closing_gain_def contract_value_def get_contract_value_def cur price)
  show "\<exists>p'. position_of cur (net_position X cur price d2) = Some p' \<and> po_quantity p' = 0 \<and> po_margin_blocked p' = 0 \<and>
      po_accumulated_realized_pnl p' =
        po_accumulated_realized_pnl (read_position X p) + closing_gain X d2 p (closing_price p q)"
    using close_out_position_row [OF assms(3,2), of X price] unfolding net gain by blast
  show "map po_id (positions (net_position X cur price d2)) = map po_id (positions d2)"
    "map position_key (positions (net_position X cur price d2)) = map position_key (positions d2)"
    unfolding net by (rule close_out_keys)+
  show "other_positions cur (net_position X cur price d2) = other_positions cur d2"
    using other_positions_net [OF assms(3), of cur X price] assms(4) by (simp add: cur)
qed

text \<open>What one close leaves: the position flat, its profit booked, everything else of the book as it was.\<close>

definition flattened :: "ext \<Rightarrow> sandbox_position \<Rightarrow> quote \<Rightarrow> orderid \<Rightarrow> sandbox \<Rightarrow> sandbox \<Rightarrow> bool" where
  "flattened X p q oid db db' \<longleftrightarrow>
     (\<exists>row \<in> set (orders db'). od_orderid row = oid \<and> od_status row = Complete \<and>
        od_average_price row = Some (closing_price p q)) \<and>
     (\<exists>p'. position_for (po_user p) (po_symbol p) (po_exchange p) (po_product p) db' = Some p' \<and>
        po_quantity p' = 0 \<and> po_margin_blocked p' = 0 \<and>
        po_accumulated_realized_pnl p' =
          po_accumulated_realized_pnl (read_position X p) + closing_gain X db p (closing_price p q)) \<and>
     filter (\<lambda>x. position_key x \<noteq> position_key p) (positions db') =
       filter (\<lambda>x. position_key x \<noteq> position_key p) (positions db)"

lemma close_position_runs:
  assumes wf: "books_wf db" and calm: "\<not> x_db_error X" and p: "p \<in> set (positions db)" and cl: "closable X db p q"
  shows "\<exists>oid db'. close_position X True (po_user p) (po_symbol p) (po_exchange p) (po_product p) db = (Closed oid, db') \<and>
    flattened X p q oid db db' \<and> books_wf db' \<and> symtoken db' = symtoken db \<and> config db' = config db \<and>
    map position_key (positions db') = map position_key (positions db)"
proof -
  note c = closable_fields [OF cl] and w = wf [unfolded books_wf_def]
  note at = position_for_member [OF wf p]
  note pass = closing_order_passes [OF cl at]
  have cached: "pr_cached_quote (closing_pricing q) = Some q" by (simp add: closing_pricing_def)
  have known: "tr_orderid t \<in> od_orderid ` set (orders db)" if "t \<in> set (trades db)" for t using w that by blast
  obtain oid rid db' d d2 row price cur t where
    ins: "insert_order X (po_user p) (closing_request p) (closing_pricing q) 0 db db = (Order_ok oid, db')"
    and row: "row = accepted_order X (po_user p) (closing_request p) (closing_pricing q) oid rid 0"
    and price: "price = market_price (rq_action (closing_request p)) q"
    and cur: "cur = read_order X (fill_row price row)" and upd: "update_position X cur price d2 = Some d"
    and d2: "positions d2 = positions db" "symtoken d2 = symtoken db" "positions db' = positions d"
    and found: "find (\<lambda>r. od_id r = rid) (orders db') = Some (fill_row price row)"
    and rest: "order_keys db' = order_keys db @ [(rid, oid)]" "rid \<notin> od_id ` set (orders db)"
      "trades db' = trades db @ [t]" "tr_orderid t = oid" "symtoken db' = symtoken db" "config db' = config db"
    by (rule insert_market_order [OF closing_request_simps(5,7) pass(2) cached c(9,10) _ known calm,
          where margin = 0 and ?db0.0 = db]) (use w in \<open>blast | rule that\<close>)+
  have terms: "od_user cur = po_user p" "od_product cur = po_product p" and terms':
      "od_action cur = closing_side p" "od_quantity cur = \<bar>po_quantity p\<bar>" "od_symbol cur = po_symbol p" "od_exchange cur = po_exchange p"
    by (simp_all add: cur row fill_row_def accepted_market_simps)
  have same: "same_position cur = (\<lambda>x. position_key x = position_key p)"
    by (simp add: fun_eq_iff same_position_def position_key_def terms terms')
  have find_at: "position_of cur x = position_for (po_user p) (po_symbol p) (po_exchange p) (po_product p) x" for x
    by (simp add: position_of_def same position_for_key) (simp add: position_key_def)
  have wf2: "positions_wf d2" using w by (simp add: positions_wf_def d2)
  have at2: "position_of cur d2 = Some p" using at by (simp add: find_at position_for_def d2)
  note net = closing_fill_closes [OF at2 wf2 c(3) terms', of X q, folded price [unfolded closing_request_simps]]
  have pos: "positions db' = positions (net_position X cur price d2)"
    using update_position_positions [OF upd] d2(3) by simp
  have gain: "closing_gain X d2 p = closing_gain X db p"
    by (simp add: fun_eq_iff closing_gain_def get_contract_value_def d2)
  have fl: "flattened X p q oid db db'"
    unfolding flattened_def
  proof (intro conjI)
    have "price = closing_price p q"
      by (simp add: price closing_price_def market_price_def closing_side_def)
    then show "\<exists>row \<in> set (orders db'). od_orderid row = oid \<and> od_status row = Complete \<and> od_average_price row = Some (closing_price p q)"
      using find_SomeD [OF found] by (intro bexI [of _ "fill_row price row"]) (simp_all add: fill_row_def row)
    show "\<exists>p'. position_for (po_user p) (po_symbol p) (po_exchange p) (po_product p) db' = Some p' \<and>
        po_quantity p' = 0 \<and> po_margin_blocked p' = 0 \<and> po_accumulated_realized_pnl p' =
          po_accumulated_realized_pnl (read_position X p) + closing_gain X db p (closing_price p q)"
      using net(1) position_of_positions [OF pos, of cur] by (simp add: find_at gain)
    show "filter (\<lambda>x. position_key x \<noteq> position_key p) (positions db') =
        filter (\<lambda>x. position_key x \<noteq> position_key p) (positions db)"
      using net(4) by (simp add: other_positions_def same pos d2)
  qed
  have ids: "map od_id (orders db') = map od_id (orders db) @ [rid]" "map od_orderid (orders db') = map od_orderid (orders db) @ [oid]"
    using arg_cong [OF rest(1), of "map fst"] arg_cong [OF rest(1), of "map snd"] by (simp_all add: order_keys_def o_def)
  have oids: "od_orderid ` set (orders db') = insert oid (od_orderid ` set (orders db))"
    using arg_cong [OF ids(2), of set] by simp
  have "books_wf db'"
    unfolding books_wf_def orders_wf_def positions_wf_def pos oids
    using w ids rest(2-4) net(2,3) by (auto simp: orders_wf_def positions_wf_def d2)
  moreover have "close_position X True (po_user p) (po_symbol p) (po_exchange p) (po_product p) db = (Closed oid, db')"
    using at pass(1) ins unfolding close_position_def position_for_def by simp
  moreover have "map position_key (positions db') = map position_key (positions db)"
    using net(3) by (simp only: pos d2(1))
  ultimately show ?thesis using fl rest(5,6) by blast
qed

subsection \<open>A sweep over many positions\<close>

lemma closable_cong:
  assumes "symtoken db' = symtoken db" "config db' = config db"
  shows "closable X db' p q = closable X db p q"
proof -
  have "config_leverage db' = config_leverage db" by (simp add: fun_eq_iff config_leverage_def get_config_def assms(2))
  then have "get_leverage db' = get_leverage db" unfolding get_leverage_def [abs_def] by presburger
  then show ?thesis by (simp only: closable_def assms(1))
qed

text \<open>An order whose quote is missing or stale rests: it is a row more, and nothing else.\<close>

lemma insert_resting_order:
  assumes "books_wf db" "rq_gtt_leg_id rq = None" "cnc_sell_rejection uid rq db = None"
    and "case pr_cached_quote pricing of None \<Rightarrow> True | Some q \<Rightarrow> quote_looks_stale q"
    and ins: "insert_order X uid rq pricing margin db0 db = (resp, d)"
  shows "positions d = positions db" "symtoken d = symtoken db" "config d = config db" "books_wf d"
proof -
  obtain oid db1 where g: "generate_order_id X db = (oid, db1)" by fastforce
  obtain day seq where oid: "oid = (day, seq)" by fastforce
  have t: "orders db1 = orders db" "positions db1 = positions db" "trades db1 = trades db" "symtoken db1 = symtoken db"
      "config db1 = config db"
    using generate_order_id_tables [OF g] by auto
  define rid where "rid = next_id od_id (orders db)"
  define r where "r = accepted_order X uid rq pricing oid rid margin"
  have idle: "immediate_execution X rq pricing x y = y" for x y
    using assms(4) by (cases "pr_cached_quote pricing") (simp_all add: immediate_execution_def)
  have d: "d = notify_order_placed X rid (publish (Order_update oid (od_status r)) (db1\<lparr>orders := orders db @ [r]\<rparr>))"
    using ins assms(2,3) unfolding insert_order_def g Let_def by (simp add: idle t(1) r_def rid_def)
  have o: "orders d = orders db @ [r]" "trades d = trades db" "positions d = positions db"
    by (simp_all add: d t)
  then show "positions d = positions db" "symtoken d = symtoken db" "config d = config db"
    by (simp_all add: d t)
  have "oid \<notin> od_orderid ` set (orders db)" "rid \<notin> od_id ` set (orders db)"
    using order_ids_fresh [OF g [unfolded oid]] oid next_id_fresh [of od_id "orders db"] by (simp_all add: rid_def)
  moreover have "od_id r = rid" "od_orderid r = oid"
    by (simp_all add: r_def accepted_order_def order_of_def)
  ultimately show "books_wf d"
    using assms(1) by (auto simp: books_wf_def orders_wf_def positions_wf_def o)
qed

text \<open>What the closing order of an open intraday position that cannot be closed comes to: a refusal, or an
  order that rests.\<close>

lemma closing_order_rests:
  assumes wf: "books_wf db" and p: "p \<in> set (positions db)" "open_mis p"
    and up: "str_upper (po_exchange p) = po_exchange p" and stuck: "\<not> (\<exists>q. closable X db p q)"
    and run: "place_order X (po_user p) (closing_order p) None db = (resp, d)"
  shows "positions d = positions db \<and> symtoken d = symtoken db \<and> config d = config db \<and> books_wf d"
proof -
  let ?rq = "closing_request p"
  have mis: "po_product p = MIS" "po_quantity p \<noteq> 0" using p(2) by (simp_all add: open_mis_def)
  have at: "position_for (po_user p) (po_symbol p) (po_exchange p) (po_product p) db = Some p"
    by (rule position_for_member [OF wf p(1)])
  have req: "extract_order (closing_order p) = Some ?rq"
    by (simp add: extract_order_def closing_order_def closing_request_def closing_side_def decimal_field_def truthy_def up
        del: of_int_abs)
  have open_window: "\<not> mis_blocked X (po_user p) ?rq db"
    using at mis closing_opposes [OF mis(2)] by (auto simp: mis_blocked_def Let_def split: option.splits)
  have qty: "position_qty (po_user p) ?rq db = po_quantity p" using at by (simp add: position_qty_def)
  have cnc: "cnc_sell_rejection (po_user p) ?rq db = None" by (simp add: cnc_sell_rejection_def mis(1))
  have reserve: "reserve_margin X (po_user p) ?rq 0 db = (Inr 0, db)" by (simp add: reserve_margin_def)
  show ?thesis
  proof (cases "validate_order (closing_order p)")
    case (Some e)
    then show ?thesis using run wf by (simp add: place_order_def)
  next
    case None
    then have place: "place_request X (po_user p) ?rq None db = (resp, d)"
      using run by (simp add: place_order_def req)
    have fields: "po_symbol p \<noteq> []" "po_exchange p \<in> set VALID_EXCHANGES"
      using None validate_prices_None [of "closing_order p"]
      by (auto simp: validate_order_def missing_field_def closing_order_def up Let_def
          split: if_splits option.splits field_number.splits)
    show ?thesis
    proof (cases "\<exists>info. symtoken db (po_symbol p) (po_exchange p) = Some info \<and>
        \<not> bad_lot (po_exchange p) info \<bar>po_quantity p\<bar>")
      case False
      then show ?thesis using place wf by (auto simp: place_request_def split: option.splits if_splits)
    next
      case True
      then obtain info where info: "symtoken db (po_symbol p) (po_exchange p) = Some info"
        "\<not> bad_lot (po_exchange p) info \<bar>po_quantity p\<bar>" by blast
      show ?thesis
      proof (cases "price_order X (po_user p) ?rq None db")
        case (Inl e)
        then show ?thesis using place wf info open_window by (simp add: place_request_def)
      next
        case (Inr pricing)
        show ?thesis
        proof (cases "get_leverage db (po_exchange p) (po_product p) (po_symbol p) (Some (closing_side p)) = 0")
          case True
          then have "margin_to_block (po_user p) ?rq m db = Inl (Margin_not_calculable Division_by_zero)" for m
            by (simp add: margin_to_block_def calculate_margin_required_def info Let_def)
          then show ?thesis using place wf info open_window Inr by (simp add: place_request_def)
        next
          case False
          then have margin: "margin_to_block (po_user p) ?rq m db = Inr 0" for m
            using closing_opposes [OF mis(2)]
            by (simp add: margin_to_block_def calculate_margin_required_def info qty Let_def)
          have "closable X db p q" if "first_live X ?rq None = Some q" "\<not> quote_looks_stale q" for q
            unfolding closable_def using fields mis info False that by simp
          with stuck have stale: "quote_looks_stale q" if "first_live X ?rq None = Some q" for q
            using that by blast
          have "pr_cached_quote pricing = first_live X ?rq None"
            using Inr by (auto simp: price_order_def market_pricing_def Let_def split: option.splits if_splits)
          then have quiet: "case pr_cached_quote pricing of None \<Rightarrow> True | Some q \<Rightarrow> quote_looks_stale q"
            using stale by (simp split: option.splits)
          have ins: "insert_order X (po_user p) ?rq pricing 0 db db = (resp, d)"
            using place by (simp add: place_request_def info open_window Inr margin reserve)
          show ?thesis
            using insert_resting_order [OF wf closing_request_simps(7) cnc quiet ins] by blast
        qed
      qed
    qed
  qed
qed

text \<open>Which positions a sweep closes: those that can be closed now and whose lock comes free.\<close>

definition sweep_closes :: "ext \<Rightarrow> (nat \<Rightarrow> bool) \<Rightarrow> sandbox \<Rightarrow> sandbox_position \<Rightarrow> bool" where
  "sweep_closes X lock_free db p \<longleftrightarrow> lock_free (po_id p) \<and> (\<exists>q. closable X db p q)"

lemma sweep_closes_cong:
  assumes "symtoken db' = symtoken db" "config db' = config db"
  shows "sweep_closes X lock_free db' p = sweep_closes X lock_free db p"
  by (simp add: sweep_closes_def closable_cong [OF assms])

lemma same_key_same_row:
  "distinct (map position_key rows) \<Longrightarrow> x \<in> set rows \<Longrightarrow> y \<in> set rows \<Longrightarrow> position_key x = position_key y \<Longrightarrow> x = y"
  by (auto simp: distinct_map inj_on_def)

definition closed_at :: "sandbox_position \<Rightarrow> sandbox \<Rightarrow> bool" where
  "closed_at p db \<longleftrightarrow>
     (\<exists>p' \<in> set (positions db). position_key p' = position_key p \<and> po_quantity p' = 0 \<and> po_margin_blocked p' = 0)"

text \<open>One close of the sweep.\<close>

lemma sweep_step:
  assumes wf: "books_wf db" and calm: "\<not> x_db_error X" and p: "p \<in> set (positions db)" "open_mis p"
    and up: "str_upper (po_exchange p) = po_exchange p"
    and d: "d = snd (close_position X (lock_free (po_id p)) (po_user p) (po_symbol p) (po_exchange p) (po_product p) db)"
  shows "books_wf d" "symtoken d = symtoken db" "config d = config db"
    "map position_key (positions d) = map position_key (positions db)"
    "sweep_closes X lock_free db p \<Longrightarrow> closed_at p d"
    "\<not> sweep_closes X lock_free db p \<Longrightarrow> positions d = positions db"
    "\<And>x. x \<in> set (positions db) \<Longrightarrow> position_key x \<noteq> position_key p \<Longrightarrow> x \<in> set (positions d)"
proof -
  have "books_wf d \<and> symtoken d = symtoken db \<and> config d = config db \<and>
      map position_key (positions d) = map position_key (positions db) \<and>
      (sweep_closes X lock_free db p \<longrightarrow> closed_at p d) \<and>
      (\<not> sweep_closes X lock_free db p \<longrightarrow> positions d = positions db) \<and>
      (\<forall>x \<in> set (positions db). position_key x \<noteq> position_key p \<longrightarrow> x \<in> set (positions d))"
  proof (cases "sweep_closes X lock_free db p")
    case True
    then obtain q where q: "lock_free (po_id p)" "closable X db p q" by (auto simp: sweep_closes_def)
    obtain oid db' where c: "close_position X True (po_user p) (po_symbol p) (po_exchange p) (po_product p) db = (Closed oid, db')"
      "flattened X p q oid db db'" "books_wf db'" "symtoken db' = symtoken db" "config db' = config db"
      "map position_key (positions db') = map position_key (positions db)"
      using close_position_runs [OF wf calm p(1) q(2)] by blast
    have dd: "d = db'" using c(1) q(1) by (simp add: d)
    obtain p' where "position_for (po_user p) (po_symbol p) (po_exchange p) (po_product p) db' = Some p'"
      "po_quantity p' = 0" "po_margin_blocked p' = 0"
      using c(2) by (auto simp: flattened_def)
    then have "closed_at p d"
      unfolding closed_at_def dd using find_SomeD [of _ "positions db'" p']
      by (intro bexI [of _ p']) (auto simp: position_for_key position_key_def)
    moreover have "x \<in> set (positions d)" if "x \<in> set (positions db)" "position_key x \<noteq> position_key p" for x
    proof -
      have "x \<in> set (filter (\<lambda>x. position_key x \<noteq> position_key p) (positions db'))"
        using c(2) that by (simp add: flattened_def)
      then show ?thesis by (simp add: dd)
    qed
    ultimately show ?thesis using c True dd by blast
  next
    case False
    have "books_wf d \<and> symtoken d = symtoken db \<and> config d = config db \<and> positions d = positions db"
    proof (cases "lock_free (po_id p)")
      case True
      with False have stuck: "\<not> (\<exists>q. closable X db p q)" by (simp add: sweep_closes_def)
      obtain resp d1 where r: "place_order X (po_user p) (closing_order p) None db = (resp, d1)" by fastforce
      have "d = d1"
        using position_for_member [OF wf p(1)] r True
        by (simp add: d close_position_def position_for_def split: order_response.splits)
      then show ?thesis using closing_order_rests [OF wf p up stuck r] by blast
    next
      case False
      then show ?thesis using wf by (simp add: d close_position_def)
    qed
    then show ?thesis using False by simp
  qed
  then show "books_wf d" "symtoken d = symtoken db" "config d = config db"
    "map position_key (positions d) = map position_key (positions db)"
    "sweep_closes X lock_free db p \<Longrightarrow> closed_at p d"
    "\<not> sweep_closes X lock_free db p \<Longrightarrow> positions d = positions db"
    "\<And>x. x \<in> set (positions db) \<Longrightarrow> position_key x \<noteq> position_key p \<Longrightarrow> x \<in> set (positions d)"
    by blast+
qed

text \<open>Whether a position can be closed does not depend on the closes before it, and one that cannot be
  closed does not stand in the way of the others.\<close>

lemma square_off_run:
  assumes "books_wf db" "\<not> x_db_error X" "distinct (map position_key ps)" "set ps \<subseteq> set (positions db)"
    and "\<forall>p \<in> set ps. open_mis p \<and> str_upper (po_exchange p) = po_exchange p"
  shows "map position_key (positions (square_off_positions X lock_free ps db)) = map position_key (positions db) \<and>
    (\<forall>p \<in> set ps. sweep_closes X lock_free db p \<longrightarrow> closed_at p (square_off_positions X lock_free ps db)) \<and>
    (\<forall>x \<in> set (positions db). (x \<in> set ps \<longrightarrow> \<not> sweep_closes X lock_free db x) \<longrightarrow>
       x \<in> set (positions (square_off_positions X lock_free ps db)))"
  using assms
proof (induction ps arbitrary: db)
  case (Cons p ps)
  define d where "d = snd (close_position X (lock_free (po_id p)) (po_user p) (po_symbol p) (po_exchange p) (po_product p) db)"
  let ?e = "square_off_positions X lock_free ps d"
  have p: "p \<in> set (positions db)" "open_mis p" "str_upper (po_exchange p) = po_exchange p"
    using Cons.prems(4,5) by simp_all
  note step = sweep_step [where lock_free = lock_free, OF Cons.prems(1,2) p d_def]
  note same = sweep_closes_cong [OF step(2,3), of X lock_free]
  have new: "position_key x \<noteq> position_key p" if "x \<in> set ps" for x
    using Cons.prems(3) that by (metis distinct.simps(2) imageI list.simps(9) set_map)
  have keys: "distinct (map position_key (positions db))" using Cons.prems(1) by (simp add: books_wf_def)
  have "set ps \<subseteq> set (positions d)" using Cons.prems(4) step(7) new by auto
  then have IH: "map position_key (positions ?e) = map position_key (positions d)"
    "\<forall>p \<in> set ps. sweep_closes X lock_free db p \<longrightarrow> closed_at p ?e"
    "\<forall>x \<in> set (positions d). (x \<in> set ps \<longrightarrow> \<not> sweep_closes X lock_free db x) \<longrightarrow> x \<in> set (positions ?e)"
    using Cons.IH [OF step(1) Cons.prems(2)] Cons.prems(3,5) by (simp_all add: same)
  have "closed_at p ?e" if closes: "sweep_closes X lock_free db p"
  proof -
    obtain p' where p': "p' \<in> set (positions d)" "position_key p' = position_key p" "po_quantity p' = 0" "po_margin_blocked p' = 0"
      using step(5) [OF closes] by (auto simp: closed_at_def)
    then have "p' \<notin> set ps" using new by metis
    with IH(3) p'(1) have "p' \<in> set (positions ?e)" by blast
    with p' show ?thesis by (auto simp: closed_at_def)
  qed
  moreover have "x \<in> set (positions ?e)"
    if x: "x \<in> set (positions db)" "x \<in> set (p # ps) \<longrightarrow> \<not> sweep_closes X lock_free db x" for x
  proof (cases "x = p")
    case True
    then have "p \<in> set (positions d)" "p \<notin> set ps" using step(6) x new by auto
    with IH(3) True show ?thesis by blast
  next
    case False
    then have "position_key x \<noteq> position_key p" using same_key_same_row [OF keys x(1) p(1)] by blast
    with step(7) x have "x \<in> set (positions d)" by blast
    with IH(3) x(2) show ?thesis by simp
  qed
  ultimately show ?case using IH(1,2) step(4) by (simp add: d_def [symmetric])
qed simp

text \<open>C17: closing a position that a market order can trade now (known instrument, whole lots, a live
  quote, leverage configured) succeeds and flattens it at once: the order is complete at the bid for
  a long position and at the ask for a short one, the position is zero with no margin and the whole
  difference to its average realised, and no other position moves; the square-off window, the
  margin check and the delivery check never stand in the way of a close.\<close>

theorem closing_flattens_the_position:
  assumes "books_wf db" and "\<not> x_db_error X" and "p \<in> set (positions db)" and "closable X db p q"
  shows "\<exists>oid db'. close_position X True (po_user p) (po_symbol p) (po_exchange p) (po_product p) db = (Closed oid, db') \<and>
    flattened X p q oid db db'"
  using close_position_runs [OF assms] by blast

text \<open>C18: a forced square-off closes exactly the open intraday positions that can be closed when it
  begins (known instrument, whole lots, leverage configured, a live quote) and whose lock comes
  free: each of them ends flat with no margin, whatever became of the others. Every other
  position, an intraday one that has no live quote or whose lock is held included, stays exactly
  as it was, and no position appears. The books are well-formed, exchanges are in upper case as
  the order manager stores them, and no database error occurs during the sweep.\<close>

theorem forced_square_off_closes_what_it_can:
  assumes "books_wf db" and "\<not> x_db_error X"
    and "\<forall>p \<in> set (positions db). str_upper (po_exchange p) = po_exchange p"
    and "force_square_off_all_mis X lock_free db = (n, db')"
  shows "n = length (filter open_mis (positions db)) \<and>
    map position_key (positions db') = map position_key (positions db) \<and>
    (\<forall>p \<in> set (positions db).
       if open_mis p \<and> sweep_closes X lock_free db p then closed_at p db' else p \<in> set (positions db'))"
proof -
  let ?ps = "filter open_mis (positions db)"
  have "distinct (map position_key (positions db))" using assms(1) by (simp add: books_wf_def)
  then have "distinct (map position_key ?ps)" by (simp add: distinct_map_filter)
  note run = square_off_run [OF assms(1,2) this, of lock_free]
  have e: "n = length ?ps" "db' = square_off_positions X lock_free ?ps db"
    using assms(4) by (simp_all add: force_square_off_all_mis_def Let_def)
  have "set ?ps \<subseteq> set (positions db)" "\<forall>p \<in> set ?ps. open_mis p \<and> str_upper (po_exchange p) = po_exchange p"
    using assms(3) by simp_all
  note r = run [OF this, folded e(2)]
  note R = r [THEN conjunct1] r [THEN conjunct2, THEN conjunct1] r [THEN conjunct2, THEN conjunct2]
  show ?thesis
  proof (intro conjI ballI)
    fix p
    assume p: "p \<in> set (positions db)"
    show "if open_mis p \<and> sweep_closes X lock_free db p then closed_at p db' else p \<in> set (positions db')"
    proof (cases "open_mis p \<and> sweep_closes X lock_free db p")
      case True
      with R(2) p show ?thesis by simp
    next
      case False
      with R(3) p have "p \<in> set (positions db')" by simp
      then show ?thesis using False by presburger
    qed
  qed (rule e(1), rule R(1))
qed

subsection \<open>A close on the sample market\<close>

definition quoted_ext :: ext where
  "quoted_ext = sample_ext\<lparr>x_quote := (\<lambda>n s e. Some sample_quote)\<rparr>"

lemma sample_closable: "closable quoted_ext sample_market sample_position sample_quote"
  by (simp add: closable_def first_live_def live_def sample_position_def VALID_EXCHANGES_def DERIVATIVE_PRODUCT_EXCHANGES_def sample_symbol
      bad_lot_def LOT_SIZE_EXCHANGES_def get_leverage_def config_leverage_def sample_numerals quoted_ext_def
      sample_quote_def quote_looks_stale_def)

lemma sample_books: "books_wf sample_market"
  by (simp add: books_wf_def orders_wf_def positions_wf_def sample_market_simps)

theorem closing_flattens_the_position_witness:
  "\<exists>oid db'. close_position quoted_ext True ''u'' ''S'' ''NSE'' MIS sample_market = (Closed oid, db') \<and>
     flattened quoted_ext sample_position sample_quote oid sample_market db'"
  using closing_flattens_the_position [OF sample_books _ _ sample_closable]
  by (simp add: sample_market_simps quoted_ext_def sample_ext_def sample_position_def)

theorem forced_square_off_closes_what_it_can_witness:
  "fst (force_square_off_all_mis quoted_ext (\<lambda>n. True) sample_market) = 1 \<and>
   closed_at sample_position (snd (force_square_off_all_mis quoted_ext (\<lambda>n. True) sample_market)) \<and>
   sample_position \<in> set (positions (snd (force_square_off_all_mis quoted_ext (\<lambda>n. False) sample_market)))"
proof -
  have calm: "\<not> x_db_error quoted_ext" by (simp add: quoted_ext_def sample_ext_def)
  have up: "\<forall>p \<in> set (positions sample_market). str_upper (po_exchange p) = po_exchange p"
    by (simp add: sample_market_simps sample_position_def str_upper_def char_upper_def)
  note run = forced_square_off_closes_what_it_can [OF sample_books calm up prod.collapse [symmetric]]
  have p: "sample_position \<in> set (positions sample_market)" "open_mis sample_position"
    by (simp_all add: sample_market_simps open_mis_def sample_position_def)
  have "sweep_closes quoted_ext (\<lambda>n. True) sample_market sample_position"
    "\<not> sweep_closes quoted_ext (\<lambda>n. False) sample_market sample_position"
    using sample_closable by (auto simp: sweep_closes_def)
  with run [of "\<lambda>n. True"] run [of "\<lambda>n. False"] p show ?thesis
    by (simp add: sample_market_simps)
qed

end
