(* ===== verification/CatchUpLaws.thy ===== *)
theory CatchUpLaws
  imports CatchUp HoldingsLaws
begin

text \<open>
  The settlement of intraday positions a past session left over: every one is closed at its last
  known price, into the profit of all time but never into today's, nothing else moves, and a second
  catch-up finds nothing to do.
\<close>

subsection \<open>The money\<close>

text \<open>Today's profit of each account.\<close>

definition today_of :: "string \<Rightarrow> sandbox \<Rightarrow> rat option option" where
  "today_of uid db = map_option (\<lambda>f. today_realized_pnl (fu_money f)) (funds_of uid db)"

lemma prior_release_today:
  assumes "funds_wf db"
  shows "funds_wf (snd (stage_prior_session_release X uid a g db)) \<and>
    today_of u (snd (stage_prior_session_release X uid a g db)) = today_of u db"
proof (cases "funds_of uid db")
  case None
  have five: "FUNDS_WRITE_ATTEMPTS = Suc 4" by (simp add: FUNDS_WRITE_ATTEMPTS_def)
  have "snd (stage_prior_session_release X uid a g db) = db"
    unfolding stage_prior_session_release_def apply_funds_change_def five apply_attempts.simps
    by (simp add: None read_funds_snapshot_def)
  with assms show ?thesis by simp
next
  case (Some f)
  let ?V = "read_money X (fu_money f)"
  obtain new where c: "prior_session_compute a g ?V = (True, Prior_session_settled a g, new)"
    and new: "distinct (map fst new)" "map_of new Today_realized_pnl = None"
    by (simp add: prior_session_compute_def Let_def)
  let ?m = "fold col_set (changed_values ?V new) (fu_money f)"
  have "col_get ?m Today_realized_pnl = col_get (fu_money f) Today_realized_pnl"
    unfolding col_get_fold [OF distinct_changed [OF new(1)]] map_of_changed [OF new(1)] by (simp add: new(2))
  then have "today_realized_pnl ?m = today_realized_pnl (fu_money f)" by simp
  moreover have "snd (stage_prior_session_release X uid a g db) = set_money uid ?m db"
    by (simp add: stage_prior_session_release_def apply_funds_change_row [OF assms Some] c)
  ultimately show ?thesis
    using assms Some by (auto simp: today_of_def funds_of_set_money option.map_comp o_def)
qed

lemma beside_prior_release [simp]: "beside_funds F \<Longrightarrow> F (snd (stage_prior_session_release X uid a g db)) = F db"
  by (simp add: stage_prior_session_release_def apply_funds_change_def beside_attempts)

subsection \<open>One position\<close>

definition still_stale :: "time \<Rightarrow> (nat \<times> int) list \<Rightarrow> sandbox_position \<Rightarrow> bool" where
  "still_stale boundary obs p \<longleftrightarrow> (po_id p, po_quantity p) \<in> set obs \<and> po_updated_at p < boundary"

definition stale_closed :: "ext \<Rightarrow> sandbox \<Rightarrow> sandbox_position \<Rightarrow> sandbox_position" where
  "stale_closed X db row =
     (stale_row (stale_gain db (read_position X row)) (read_position X row) row)\<lparr>po_updated_at := db_now X\<rparr>"

lemma stale_closed_simps [simp]:
  "po_id (stale_closed X db row) = po_id row" "po_quantity (stale_closed X db row) = 0"
  by (simp_all add: stale_closed_def stale_row_def)

lemma sql_update_single:
  assumes "distinct (map key rows)" "r \<in> set rows"
  shows "sql_update (\<lambda>x. key x = key r) f rows = map (\<lambda>x. if x = r then f x else x) rows"
  unfolding sql_update_def using assms by (intro map_cong [OF refl]) (auto simp: distinct_map inj_on_def)

text \<open>The positions after one step: the observed row is closed if it is still as it was observed.\<close>

lemma settle_stale_positions:
  assumes "positions_wf db"
  shows "positions (settle_stale_mis X boundary pid q db) =
    map (\<lambda>p. if still_stale boundary [(pid, q)] p then stale_closed X db p else p) (positions db)"
proof (cases "\<exists>row \<in> set (positions db). still_stale boundary [(pid, q)] row")
  case True
  then obtain row where row: "row \<in> set (positions db)" "po_id row = pid" "po_quantity row = q" "po_updated_at row < boundary"
    by (auto simp: still_stale_def)
  let ?p = "read_position X row"
  have claim: "claim_position_for_settlement X pid q (\<lambda>p. po_updated_at p < boundary) db = Some ?p"
    using claim_position_row [OF assms row(1), of "\<lambda>p. po_updated_at p < boundary" X] row by simp
  have "positions (settle_stale_mis X boundary pid q db) =
      sql_update (\<lambda>x. po_id x = po_id row) (\<lambda>x. (stale_row (stale_gain db ?p) ?p x)\<lparr>po_updated_at := db_now X\<rparr>) (positions db)"
    by (simp add: settle_stale_mis_def claim Let_def write_position_def row(2))
  also have "\<dots> = map (\<lambda>x. if x = row then stale_closed X db x else x) (positions db)"
    unfolding sql_update_single [OF assms [unfolded positions_wf_def] row(1)]
    by (intro map_cong [OF refl]) (simp add: stale_closed_def)
  also have "\<dots> = map (\<lambda>p. if still_stale boundary [(pid, q)] p then stale_closed X db p else p) (positions db)"
    using row assms by (intro map_cong [OF refl]) (auto simp: still_stale_def positions_wf_def distinct_map inj_on_def)
  finally show ?thesis .
next
  case False
  then have "claim_position_for_settlement X pid q (\<lambda>p. po_updated_at p < boundary) db = None"
    by (intro claim_position_none) (auto simp: still_stale_def)
  moreover have "map (\<lambda>p. if still_stale boundary [(pid, q)] p then stale_closed X db p else p) (positions db) = positions db"
    using False by (intro map_idI) auto
  ultimately show ?thesis by (simp add: settle_stale_mis_def)
qed

lemma settle_stale_rest:
  assumes "funds_wf db"
  shows "funds_wf (settle_stale_mis X boundary pid q db) \<and> today_of u (settle_stale_mis X boundary pid q db) = today_of u db \<and>
    symtoken (settle_stale_mis X boundary pid q db) = symtoken db \<and> config (settle_stale_mis X boundary pid q db) = config db \<and>
    orders (settle_stale_mis X boundary pid q db) = orders db"
proof (cases "claim_position_for_settlement X pid q (\<lambda>p. po_updated_at p < boundary) db")
  case (Some p)
  have cong: "funds_wf (write_position X i f d) = funds_wf d" "today_of u (write_position X i f d) = today_of u d" for i f d
    by (simp_all add: funds_wf_def today_of_def funds_of_def write_position_def)
  show ?thesis
    using prior_release_today [OF assms, of X "po_user p" "po_margin_blocked p" "stale_gain db p" u]
    by (simp add: settle_stale_mis_def Some Let_def cong) (simp add: write_position_def)
qed (simp add: settle_stale_mis_def assms)

subsection \<open>The whole run\<close>

text \<open>Each observed row that is still stale is closed, once; the others are left as they are.\<close>

lemma settle_stale_run:
  assumes "positions_wf db" and "funds_wf db" and "\<And>o'. o' \<in> set obs \<Longrightarrow> snd o' \<noteq> 0"
  shows "positions (settle_stale_each X boundary obs db) =
      map (\<lambda>p. if still_stale boundary obs p then stale_closed X db p else p) (positions db) \<and>
    (\<forall>u. today_of u (settle_stale_each X boundary obs db) = today_of u db) \<and>
    config (settle_stale_each X boundary obs db) = config db \<and> orders (settle_stale_each X boundary obs db) = orders db"
  using assms
proof (induction obs arbitrary: db)
  case Nil
  have "map (\<lambda>p. if still_stale boundary [] p then stale_closed X db p else p) rows = rows" for rows
    by (induction rows) (simp_all add: still_stale_def)
  then show ?case by simp
next
  case (Cons ob obs)
  obtain pid q where ob: "ob = (pid, q)" by fastforce
  let ?d = "settle_stale_mis X boundary pid q db"
  note rest = settle_stale_rest [OF Cons.prems(2), of X boundary pid q]
  have pos: "positions ?d = map (\<lambda>p. if still_stale boundary [(pid, q)] p then stale_closed X db p else p) (positions db)"
    by (rule settle_stale_positions [OF Cons.prems(1)])
  have "map po_id (positions ?d) = map po_id (positions db)" by (simp add: pos)
  then have wf: "positions_wf ?d" using Cons.prems(1) by (simp add: positions_wf_def)
  have gain: "stale_closed X ?d = stale_closed X db"
    using rest by (simp add: fun_eq_iff stale_closed_def stale_gain_def get_contract_value_def)
  have zero: "(po_id p, 0) \<notin> set obs" for p using Cons.prems(3) [of "(po_id p, 0)"] by auto
  have each: "(if still_stale boundary obs (if still_stale boundary [(pid, q)] p then stale_closed X db p else p)
        then stale_closed X db (if still_stale boundary [(pid, q)] p then stale_closed X db p else p)
        else if still_stale boundary [(pid, q)] p then stale_closed X db p else p) =
      (if still_stale boundary (ob # obs) p then stale_closed X db p else p)" for p
    using zero by (auto simp: still_stale_def ob)
  have "map (\<lambda>p. if still_stale boundary obs p then stale_closed X ?d p else p) (positions ?d) =
      map (\<lambda>p. if still_stale boundary (ob # obs) p then stale_closed X db p else p) (positions db)"
    unfolding pos gain map_map by (rule map_cong [OF refl]) (simp only: o_apply each)
  with Cons.IH [of ?d] wf rest Cons.prems(3) show ?case by (simp add: ob)
qed

lemma stale_observed_iff:
  assumes "positions_wf db" and "p \<in> set (positions db)"
  shows "still_stale boundary (stale_observed boundary db) p \<longleftrightarrow> stale_mis boundary db p"
proof
  assume "still_stale boundary (stale_observed boundary db) p"
  then obtain r where r: "r \<in> set (positions db)" "stale_mis boundary db r" "po_id r = po_id p"
    by (auto simp: still_stale_def stale_observed_def)
  with assms have "r = p" by (auto simp: positions_wf_def distinct_map inj_on_def)
  with r show "stale_mis boundary db p" by simp
next
  assume "stale_mis boundary db p"
  with assms(2) show "still_stale boundary (stale_observed boundary db) p"
    by (force simp: still_stale_def stale_observed_def stale_mis_def)
qed

lemma catch_up_mis_run:
  fixes X :: ext and session_expiry :: string and db :: sandbox
  assumes "positions_wf db" and "funds_wf db"
  defines "boundary \<equiv> last_session_expiry_utc X session_expiry"
  defines "db' \<equiv> catch_up_mis_squareoff X False session_expiry db"
  shows "positions db' = map (\<lambda>p. if stale_mis boundary db p then stale_closed X db p else p) (positions db)"
    and "today_of u db' = today_of u db" and "orders db' = orders db" and "stale_observed boundary db' = []"
proof -
  have db': "db' = settle_stale_each X boundary (stale_observed boundary db) db"
    by (simp add: db'_def catch_up_mis_squareoff_def boundary_def Let_def)
  have "snd o' \<noteq> 0" if "o' \<in> set (stale_observed boundary db)" for o'
    using that by (auto simp: stale_observed_def stale_mis_def)
  note run = settle_stale_run [where obs = "stale_observed boundary db" and X = X and boundary = boundary,
    OF assms(1,2) this, folded db']
  have "map (\<lambda>p. if still_stale boundary (stale_observed boundary db) p then stale_closed X db p else p) (positions db) =
      map (\<lambda>p. if stale_mis boundary db p then stale_closed X db p else p) (positions db)"
    by (rule map_cong [OF refl]) (simp add: stale_observed_iff [OF assms(1)])
  with run show pos: "positions db' = map (\<lambda>p. if stale_mis boundary db p then stale_closed X db p else p) (positions db)"
    by simp
  show "today_of u db' = today_of u db" "orders db' = orders db" using run by simp_all
  have cfg: "square_off_time db' = square_off_time db"
    using run by (simp add: fun_eq_iff square_off_time_def get_config_def)
  have "\<not> stale_mis boundary db' x" if "x \<in> set (positions db')" for x
    using that by (auto simp: pos stale_mis_def cfg)
  then show "stale_observed boundary db' = []" by (auto simp: stale_observed_def filter_empty_conv)
qed

text \<open>C19: the catch-up closes every intraday position a past session left over and touches nothing else:
  such a position ends at zero without margin, its profit at the last known price added to what it
  realised, today's profit of position and account untouched; no position of the current session
  moves, and running the catch-up again changes nothing.\<close>

theorem catch_up_closes_stale_intraday:
  assumes "positions_wf db" and "funds_wf db"
    and "catch_up_mis_squareoff X False session_expiry db = db'"
  shows "(\<forall>p \<in> set (positions db). \<not> stale_mis (last_session_expiry_utc X session_expiry) db p \<longrightarrow> p \<in> set (positions db')) \<and>
    (\<forall>p \<in> set (positions db). stale_mis (last_session_expiry_utc X session_expiry) db p \<longrightarrow>
       (\<exists>p' \<in> set (positions db'). po_id p' = po_id p \<and> po_quantity p' = 0 \<and> po_margin_blocked p' = 0 \<and>
          po_today_realized_pnl p' = 0 \<and>
          po_accumulated_realized_pnl p' = po_accumulated_realized_pnl (read_position X p) + stale_gain db (read_position X p))) \<and>
    length (positions db') = length (positions db) \<and> orders db' = orders db \<and>
    (\<forall>uid. today_of uid db' = today_of uid db) \<and>
    catch_up_mis_squareoff X False session_expiry db' = db'"
proof -
  let ?b = "last_session_expiry_utc X session_expiry"
  note run = catch_up_mis_run [OF assms(1,2), where X = X and session_expiry = session_expiry, unfolded assms(3)]
  have again: "catch_up_mis_squareoff X False session_expiry db' = db'"
    by (simp add: catch_up_mis_squareoff_def run(4) Let_def)
  have closed: "stale_closed X db p \<in> set (positions db')" if "p \<in> set (positions db)" "stale_mis ?b db p" for p
    unfolding run(1) using that by force
  have kept: "p \<in> set (positions db')" if "p \<in> set (positions db)" "\<not> stale_mis ?b db p" for p
    unfolding run(1) using that by force
  have shape: "po_id p' = po_id p \<and> po_quantity p' = 0 \<and> po_margin_blocked p' = 0 \<and> po_today_realized_pnl p' = 0 \<and>
      po_accumulated_realized_pnl p' = po_accumulated_realized_pnl (read_position X p) + stale_gain db (read_position X p)"
    if "p' = stale_closed X db p" for p p'
    by (simp add: that stale_closed_def stale_row_def)
  show ?thesis
  proof (intro conjI ballI impI allI)
    fix p assume "p \<in> set (positions db)" "stale_mis ?b db p"
    from closed [OF this] show "\<exists>p' \<in> set (positions db'). po_id p' = po_id p \<and> po_quantity p' = 0 \<and> po_margin_blocked p' = 0 \<and>
        po_today_realized_pnl p' = 0 \<and>
        po_accumulated_realized_pnl p' = po_accumulated_realized_pnl (read_position X p) + stale_gain db (read_position X p)"
      by (rule bexI [rotated]) (rule shape [OF refl])
  qed (use kept run(2,3) again in \<open>simp_all add: run(1)\<close>)
qed

subsection \<open>A position of yesterday\<close>

text \<open>Two days after the epoch, with the sample position last traded on its first day.\<close>

definition next_day_ext :: ext where
  "next_day_ext = sample_ext\<lparr>x_now := 2 * ms_per_day\<rparr>"

lemma sample_is_stale: "stale_mis (last_session_expiry_utc next_day_ext ''03:00'') sample_market sample_position"
proof -
  have "parse_hhmm ''03:00'' = Some (hhmm 3 0)" by code_simp
  then show ?thesis
    by (simp add: stale_mis_def sample_position_def last_session_expiry_utc_def next_day_ext_def
        square_off_time_def day_of_def ms_per_day_def hhmm_def Let_def)
qed

theorem catch_up_closes_stale_intraday_witness:
  "\<exists>p' \<in> set (positions (catch_up_mis_squareoff next_day_ext False ''03:00'' sample_market)).
     po_id p' = 3 \<and> po_quantity p' = 0 \<and> po_margin_blocked p' = 0"
proof -
  have wf: "positions_wf sample_market" "funds_wf sample_market"
    and p: "sample_position \<in> set (positions sample_market)" "po_id sample_position = 3"
    by (simp_all add: positions_wf_def funds_wf_def sample_market_def sample_db_def sample_position_def)
  note C = catch_up_closes_stale_intraday [OF wf refl, of next_day_ext "''03:00''"]
  from C [THEN conjunct2, THEN conjunct1] p(1) sample_is_stale
  have "\<exists>p' \<in> set (positions (catch_up_mis_squareoff next_day_ext False ''03:00'' sample_market)).
      po_id p' = po_id sample_position \<and> po_quantity p' = 0 \<and> po_margin_blocked p' = 0"
    by blast
  then show ?thesis by (simp only: p(2))
qed

end
