(* ===== verification/WebSocketEngine.thy ===== *)
theory WebSocketEngine
  imports PositionManager GttManager "HOL-Library.AList"
begin

text \<open>
  The event-driven execution engine (\<open>sandbox/websocket_execution_engine.py\<close>): the indexes of what
  waits for a tick (orders and GTT legs by symbol, open positions), the reference counts that decide
  which symbols each user's feed carries, the notifications that maintain them, and the processing
  of one tick.

  Dictionaries are association lists in insertion order.  The calls to the feed are recorded in
  \<open>we_feed\<close>; what the feed service answers is not looked at by the engine.  Each operation is one
  section under the engine's lock together with the feed call that follows it.
\<close>

subsection \<open>The state\<close>

datatype feed_call =
    Feed_subscribe string "(string \<times> string) list"
  | Feed_unsubscribe string "(string \<times> string) list"

record ws_engine =
  we_running :: bool
  we_orders :: "(string \<times> orderid list) list"
  we_legs :: "(string \<times> nat list) list"
  we_monitored :: "string set"
  we_refs :: "(string \<times> (string \<times> nat) list) list"
  we_positions :: "(string \<times> string) set"
  we_feed :: "feed_call list"
  we_fallback :: bool

definition idle_engine :: ws_engine where
  "idle_engine =
     \<lparr> we_running = False, we_orders = [], we_legs = [], we_monitored = {}, we_refs = [], we_positions = {},
       we_feed = [], we_fallback = False \<rparr>"

definition symbol_key :: "string \<Rightarrow> string \<Rightarrow> string" where
  "symbol_key exchange symbol = exchange @ CHR '':'' # symbol"

text \<open>\<open>symbol_key.split(":", 1)\<close>, as (symbol, exchange).\<close>

definition split_key :: "string \<Rightarrow> string \<times> string" where
  "split_key key = (drop 1 (dropWhile (\<lambda>c. c \<noteq> CHR '':'') key), takeWhile (\<lambda>c. c \<noteq> CHR '':'') key)"

definition listed :: "('k \<times> 'v list) list \<Rightarrow> 'k \<Rightarrow> 'v list" where
  "listed xs k = (case map_of xs k of Some vs \<Rightarrow> vs | None \<Rightarrow> [])"

definition subscribe_ws_symbols :: "string \<Rightarrow> (string \<times> string) list \<Rightarrow> ws_engine \<Rightarrow> ws_engine" where
  "subscribe_ws_symbols uid symbols e =
     (if symbols = [] then e else e\<lparr>we_feed := we_feed e @ [Feed_subscribe uid symbols]\<rparr>)"

definition unsubscribe_ws_symbols :: "string \<Rightarrow> (string \<times> string) list \<Rightarrow> ws_engine \<Rightarrow> ws_engine" where
  "unsubscribe_ws_symbols uid symbols e =
     (if symbols = [] then e else e\<lparr>we_feed := we_feed e @ [Feed_unsubscribe uid symbols]\<rparr>)"

subsection \<open>Reference counts\<close>

definition refcount :: "ws_engine \<Rightarrow> string \<Rightarrow> string \<Rightarrow> nat" where
  "refcount e uid key = (case map_of (listed (we_refs e) uid) key of Some n \<Rightarrow> n | None \<Rightarrow> 0)"

text \<open>True: the first reference.\<close>

definition increment_user_symbol_refcount :: "string \<Rightarrow> string \<Rightarrow> ws_engine \<Rightarrow> bool \<times> ws_engine" where
  "increment_user_symbol_refcount uid key e =
     (let current = refcount e uid key in
      (current = 0,
       e\<lparr>we_refs := AList.update uid (AList.update key (Suc current) (listed (we_refs e) uid)) (we_refs e)\<rparr>))"

text \<open>True: the count reaches zero, or was there already while the user watches anything at all.\<close>

definition decrement_user_symbol_refcount :: "string \<Rightarrow> string \<Rightarrow> ws_engine \<Rightarrow> bool \<times> ws_engine" where
  "decrement_user_symbol_refcount uid key e =
     (case map_of (we_refs e) uid of
        None \<Rightarrow> (False, e)
      | Some counts \<Rightarrow>
          (let current = refcount e uid key in
           if current \<le> 1 then
             (let rest = AList.delete key counts in
              (True, e\<lparr>we_refs := (if rest = [] then AList.delete uid (we_refs e) else AList.update uid rest (we_refs e))\<rparr>))
           else (False, e\<lparr>we_refs := AList.update uid (AList.update key (current - 1) counts) (we_refs e)\<rparr>)))"

definition gain_reference :: "string \<Rightarrow> string \<Rightarrow> ws_engine \<Rightarrow> ws_engine" where
  "gain_reference uid key e =
     (case increment_user_symbol_refcount uid key e of
        (first, e1) \<Rightarrow> if first then subscribe_ws_symbols uid [split_key key] e1 else e1)"

definition lose_reference :: "string \<Rightarrow> string \<Rightarrow> ws_engine \<Rightarrow> ws_engine" where
  "lose_reference uid key e =
     (case decrement_user_symbol_refcount uid key e of
        (last_one, e1) \<Rightarrow> if last_one then unsubscribe_ws_symbols uid [split_key key] e1 else e1)"

subsection \<open>Orders\<close>

text \<open>The reference is taken whether or not the order was in the index already.\<close>

definition index_order :: "string \<Rightarrow> orderid \<Rightarrow> ws_engine \<Rightarrow> ws_engine" where
  "index_order key oid e =
     (let bucket = listed (we_orders e) key in
      if oid \<in> set bucket then e
      else e\<lparr>we_orders := AList.update key (bucket @ [oid]) (we_orders e), we_monitored := insert key (we_monitored e)\<rparr>)"

definition ws_notify_order_placed :: "sandbox_order \<Rightarrow> ws_engine \<Rightarrow> ws_engine" where
  "ws_notify_order_placed r e =
     (let key = symbol_key (od_exchange r) (od_symbol r); e1 = index_order key (od_orderid r) e
      in if od_user r = [] then snd (increment_user_symbol_refcount (od_user r) key e1)
         else gain_reference (od_user r) key e1)"

definition remove_order_from_index :: "orderid \<Rightarrow> ws_engine \<Rightarrow> ws_engine" where
  "remove_order_from_index oid e =
     (let emptied = (\<lambda>(key, oids). oid \<in> set oids \<and> remove1 oid oids = []) in
      e\<lparr>we_orders := map (\<lambda>(key, oids). (key, remove1 oid oids)) (filter (Not \<circ> emptied) (we_orders e)),
        we_monitored := we_monitored e - fst ` set (filter emptied (we_orders e))\<rparr>)"

definition unindex_order :: "orderid \<Rightarrow> string \<Rightarrow> ws_engine \<Rightarrow> ws_engine" where
  "unindex_order oid key e =
     (if key \<noteq> [] \<and> map_of (we_orders e) key \<noteq> None then
        (let bucket = remove1 oid (listed (we_orders e) key) in
         if bucket = [] then e\<lparr>we_orders := AList.delete key (we_orders e), we_monitored := we_monitored e - {key}\<rparr>
         else e\<lparr>we_orders := AList.update key bucket (we_orders e)\<rparr>)
      else remove_order_from_index oid e)"

definition notify_order_completed :: "orderid \<Rightarrow> string \<Rightarrow> string option \<Rightarrow> ws_engine \<Rightarrow> ws_engine" where
  "notify_order_completed oid key uid e =
     (let e1 = unindex_order oid key e in
      case uid of
        Some u \<Rightarrow> if u \<noteq> [] \<and> key \<noteq> [] then lose_reference u key e1 else e1
      | None \<Rightarrow> e1)"

subsection \<open>Positions\<close>

definition notify_position_opened :: "string \<Rightarrow> string \<Rightarrow> string \<Rightarrow> ws_engine \<Rightarrow> ws_engine" where
  "notify_position_opened uid symbol exchange e =
     (let key = symbol_key exchange symbol in
      if \<not> we_running e then e
      else if (uid, key) \<in> we_positions e then e
      else gain_reference uid key (e\<lparr>we_positions := insert (uid, key) (we_positions e)\<rparr>))"

text \<open>The symbol is flat for the user when no product holds a quantity.\<close>

definition holds_symbol :: "string \<Rightarrow> string \<Rightarrow> string \<Rightarrow> sandbox \<Rightarrow> bool" where
  "holds_symbol uid symbol exchange db \<longleftrightarrow>
     row_count (\<lambda>p. po_user p = uid \<and> po_symbol p = symbol \<and> po_exchange p = exchange \<and> po_quantity p \<noteq> 0) (positions db) > 0"

definition notify_position_closed :: "string \<Rightarrow> string \<Rightarrow> string \<Rightarrow> sandbox \<Rightarrow> ws_engine \<Rightarrow> ws_engine" where
  "notify_position_closed uid symbol exchange db e =
     (let key = symbol_key exchange symbol in
      if \<not> we_running e then e
      else if holds_symbol uid symbol exchange db then e
      else if (uid, key) \<in> we_positions e
      then lose_reference uid key (e\<lparr>we_positions := we_positions e - {(uid, key)}\<rparr>)
      else e)"

text \<open>What a fill tells the engine (\<open>_position_feed_change\<close>, \<open>_apply_position_feed_change\<close>).\<close>

definition position_feed :: "sandbox_order \<Rightarrow> sandbox \<Rightarrow> ws_engine \<Rightarrow> ws_engine" where
  "position_feed r db e =
     (if holds_symbol (od_user r) (od_symbol r) (od_exchange r) db
      then notify_position_opened (od_user r) (od_symbol r) (od_exchange r) e
      else notify_position_closed (od_user r) (od_symbol r) (od_exchange r) db e)"

subsection \<open>GTT legs\<close>

definition index_leg :: "string \<Rightarrow> nat \<Rightarrow> ws_engine \<Rightarrow> ws_engine" where
  "index_leg key lid e =
     (let legs = listed (we_legs e) key in
      e\<lparr>we_legs := AList.update key (if lid \<in> set legs then legs else legs @ [lid]) (we_legs e),
        we_monitored := insert key (we_monitored e)\<rparr>)"

text \<open>One reference for each pending leg; the subscription follows once for all of them.\<close>

primrec watch_legs :: "string \<Rightarrow> string \<Rightarrow> sandbox_gtt_leg list \<Rightarrow> ws_engine \<Rightarrow> bool \<times> ws_engine" where
  "watch_legs uid key [] e = (False, e)"
| "watch_legs uid key (l # ls) e =
     (if lg_status l \<noteq> Pending then watch_legs uid key ls e
      else case increment_user_symbol_refcount uid key (index_leg key (lg_id l) e) of
        (first, e1) \<Rightarrow> (case watch_legs uid key ls e1 of (later, e2) \<Rightarrow> (first \<or> later, e2)))"

definition ws_notify_gtt_placed :: "sandbox_gtt \<Rightarrow> sandbox_gtt_leg list \<Rightarrow> ws_engine \<Rightarrow> ws_engine" where
  "ws_notify_gtt_placed g legs e =
     (let key = symbol_key (gt_exchange g) (gt_symbol g) in
      case watch_legs (gt_user g) key legs e of
        (subscribe, e1) \<Rightarrow> if subscribe then subscribe_ws_symbols (gt_user g) [split_key key] e1 else e1)"

definition unindex_leg :: "string \<Rightarrow> nat \<Rightarrow> ws_engine \<Rightarrow> ws_engine" where
  "unindex_leg key lid e =
     (case map_of (we_legs e) key of
        None \<Rightarrow> e
      | Some legs \<Rightarrow>
          (let rest = remove1 lid legs in
           if rest = [] then
             e\<lparr>we_legs := AList.delete key (we_legs e),
               we_monitored := (if map_of (we_orders e) key = None then we_monitored e - {key} else we_monitored e)\<rparr>
           else e\<lparr>we_legs := AList.update key rest (we_legs e)\<rparr>))"

definition drop_gtt_leg :: "string \<Rightarrow> nat \<Rightarrow> string option \<Rightarrow> ws_engine \<Rightarrow> ws_engine" where
  "drop_gtt_leg key lid uid e =
     (let e1 = unindex_leg key lid e in
      case uid of Some u \<Rightarrow> if u \<noteq> [] then lose_reference u key e1 else e1 | None \<Rightarrow> e1)"

definition leg_user_id :: "ext \<Rightarrow> sandbox_gtt_leg option \<Rightarrow> sandbox \<Rightarrow> string option" where
  "leg_user_id X l db =
     (case l of None \<Rightarrow> None | Some leg \<Rightarrow> map_option gt_user (gtt_row X (lg_gtt_id leg) db))"

subsection \<open>One tick\<close>

text \<open>
  The quote a tick stands for has the last traded price for bid and ask and no day range.
\<close>

definition tick_quote :: "rat \<Rightarrow> quote" where
  "tick_quote ltp = \<lparr>q_ltp = ltp, q_bid = ltp, q_ask = ltp, q_high = 0, q_low = 0\<rparr>"

definition find_orderid :: "orderid \<Rightarrow> sandbox \<Rightarrow> sandbox_order option" where
  "find_orderid oid db = find (\<lambda>r. od_orderid r = oid) (orders db)"

text \<open>
  A trade that appears means the fill reached the position, whose change the engine is told of
  (the book's error raises before that).  The order leaves the index once it no longer rests.
\<close>

definition check_and_execute_order :: "ext \<Rightarrow> orderid \<Rightarrow> rat \<Rightarrow> sandbox \<times> ws_engine \<Rightarrow> sandbox \<times> ws_engine" where
  "check_and_execute_order X oid ltp s =
     (case s of (db, e) \<Rightarrow>
        case find (\<lambda>r. od_orderid r = oid \<and> is_pending r) (orders db) of
          None \<Rightarrow>
            (case find_orderid oid db of
               Some r \<Rightarrow> (db, notify_order_completed oid (symbol_key (od_exchange r) (od_symbol r)) (Some (od_user r)) e)
             | None \<Rightarrow> (db, notify_order_completed oid [] None e))
        | Some row \<Rightarrow>
            (let r = read_order X row;
                 db1 = process_order X r (tick_quote ltp) db;
                 e1 = (if length (trades db1) > length (trades db) \<and> \<not> x_db_error X then position_feed r db1 e else e)
             in case order_row X (od_id r) db1 of
                  Some r1 \<Rightarrow>
                    if is_pending r1 then (db1, e1)
                    else (db1, notify_order_completed oid (symbol_key (od_exchange r1) (od_symbol r1)) (Some (od_user r1)) e1)
                | None \<Rightarrow> (db1, e1)))"

text \<open>
  Firing places an order, which tells the engine of it while it rests and of the position when it
  fills at once: the events of the placement, in their order.
\<close>

definition hear_event :: "sandbox \<Rightarrow> event \<Rightarrow> ws_engine \<Rightarrow> ws_engine" where
  "hear_event db ev e =
     (case ev of
        Ws_order_placed oid \<Rightarrow> (case find_orderid oid db of Some r \<Rightarrow> ws_notify_order_placed r e | None \<Rightarrow> e)
      | Order_filled oid t q p \<Rightarrow> (case find_orderid oid db of Some r \<Rightarrow> position_feed r db e | None \<Rightarrow> e)
      | _ \<Rightarrow> e)"

definition hear :: "sandbox \<Rightarrow> sandbox \<Rightarrow> ws_engine \<Rightarrow> ws_engine" where
  "hear before after e = fold (hear_event after) (drop (length (events before)) (events after)) e"

definition check_gtt_leg ::
    "ext \<Rightarrow> (nat \<Rightarrow> bool) \<Rightarrow> string \<Rightarrow> rat \<Rightarrow> nat \<Rightarrow> sandbox \<times> ws_engine \<Rightarrow> sandbox \<times> ws_engine" where
  "check_gtt_leg X lock_free key ltp lid s =
     (case s of (db, e) \<Rightarrow>
        case leg_row X lid db of
          None \<Rightarrow> (db, drop_gtt_leg key lid None e)
        | Some l \<Rightarrow>
            if lg_status l \<noteq> Pending then (db, drop_gtt_leg key lid (leg_user_id X (Some l) db) e)
            else if \<not> leg_is_triggered_by (lg_direction l) (lg_trigger_price l) ltp then (db, e)
            else (case try_claim_trigger X lid db of
                    (won, db1) \<Rightarrow>
                      if \<not> won then (db, e)
                      else (case fire_leg X (lock_free lid) lid db1 of
                              (fired, db2) \<Rightarrow>
                                if fired then (db2, drop_gtt_leg key lid (leg_user_id X (Some l) db1) (hear db1 db2 e))
                                else (db2, hear db1 db2 e))))"

definition on_market_data ::
    "ext \<Rightarrow> (nat \<Rightarrow> bool) \<Rightarrow> string \<Rightarrow> string \<Rightarrow> rat \<Rightarrow> sandbox \<times> ws_engine \<Rightarrow> sandbox \<times> ws_engine" where
  "on_market_data X lock_free symbol exchange ltp s =
     (let symbol = str_upper symbol; key = symbol_key exchange symbol; e = snd s in
      if \<not> we_running e \<or> ltp = 0 \<or> symbol = [] \<or> exchange = [] then s
      else (let s1 = fold (\<lambda>oid. check_and_execute_order X oid ltp) (listed (we_orders e) key) s
            in fold (check_gtt_leg X lock_free key ltp) (listed (we_legs e) key) s1))"

subsection \<open>Building the index\<close>

text \<open>
  What the index is built from: resting orders and open positions on contracts that have not
  expired (by date alone), and the pending legs of active GTTs.
\<close>

definition past_expiry_date :: "ext \<Rightarrow> (string \<Rightarrow> string \<Rightarrow> int option) \<Rightarrow> string \<Rightarrow> string \<Rightarrow> bool" where
  "past_expiry_date X db_expiry symbol exchange \<longleftrightarrow>
     (case get_contract_expiry db_expiry symbol exchange of None \<Rightarrow> False | Some e \<Rightarrow> day_of (x_now X) > e)"

definition order_entries :: "ext \<Rightarrow> (string \<Rightarrow> string \<Rightarrow> int option) \<Rightarrow> sandbox \<Rightarrow> (string \<times> orderid \<times> string) list" where
  "order_entries X db_expiry db =
     map (\<lambda>r. (symbol_key (od_exchange r) (od_symbol r), od_orderid r, od_user r))
       (filter (\<lambda>r. is_pending r \<and> \<not> past_expiry_date X db_expiry (od_symbol r) (od_exchange r)) (orders db))"

definition gtt_entries :: "ext \<Rightarrow> sandbox \<Rightarrow> (string \<times> nat \<times> string) list" where
  "gtt_entries X db =
     map (\<lambda>(l, g). (symbol_key (gt_exchange g) (gt_symbol g), lg_id l, gt_user g)) (get_active_legs X db)"

definition position_entries :: "ext \<Rightarrow> (string \<Rightarrow> string \<Rightarrow> int option) \<Rightarrow> sandbox \<Rightarrow> (string \<times> string) list" where
  "position_entries X db_expiry db =
     map (\<lambda>p. (po_user p, symbol_key (po_exchange p) (po_symbol p)))
       (filter (\<lambda>p. po_quantity p \<noteq> 0 \<and> \<not> past_expiry_date X db_expiry (po_symbol p) (po_exchange p)) (positions db))"

text \<open>The merge collects the first references of each user; they are subscribed when it is done.\<close>

type_synonym subscriptions = "(string \<times> (string \<times> string) list) list"

definition first_reference :: "string \<Rightarrow> string \<Rightarrow> subscriptions \<times> ws_engine \<Rightarrow> subscriptions \<times> ws_engine" where
  "first_reference uid key s =
     (case increment_user_symbol_refcount uid key (snd s) of
        (first, e1) \<Rightarrow>
          (if first then AList.update uid (listed (fst s) uid @ [split_key key]) (fst s) else fst s, e1))"

definition merge_order :: "string \<times> orderid \<times> string \<Rightarrow> subscriptions \<times> ws_engine \<Rightarrow> subscriptions \<times> ws_engine" where
  "merge_order entry s =
     (case entry of (key, oid, uid) \<Rightarrow>
        (let e = (snd s)\<lparr>we_monitored := insert key (we_monitored (snd s))\<rparr> in
         if oid \<in> set (listed (we_orders e) key) then (fst s, e)
         else first_reference uid key (fst s, index_order key oid e)))"

definition merge_leg :: "string \<times> nat \<times> string \<Rightarrow> subscriptions \<times> ws_engine \<Rightarrow> subscriptions \<times> ws_engine" where
  "merge_leg entry s =
     (case entry of (key, lid, uid) \<Rightarrow>
        (let e = (snd s)\<lparr>we_monitored := insert key (we_monitored (snd s))\<rparr> in
         if lid \<in> set (listed (we_legs e) key) then (fst s, e)
         else first_reference uid key (fst s, index_leg key lid e)))"

definition merge_position :: "string \<times> string \<Rightarrow> subscriptions \<times> ws_engine \<Rightarrow> subscriptions \<times> ws_engine" where
  "merge_position entry s =
     (case entry of (uid, key) \<Rightarrow>
        if (uid, key) \<in> we_positions (snd s) then s
        else first_reference uid key (fst s, (snd s)\<lparr>we_positions := insert (uid, key) (we_positions (snd s))\<rparr>))"

definition cleared_engine :: "ws_engine \<Rightarrow> ws_engine" where
  "cleared_engine e =
     e\<lparr>we_orders := [], we_legs := [], we_monitored := {}, we_refs := [], we_positions := {}\<rparr>"

text \<open>\<open>meanwhile\<close> is what is notified between the clearing and the merge; a failed read leaves just that.\<close>

definition rebuild_order_index ::
    "ext \<Rightarrow> (string \<Rightarrow> string \<Rightarrow> int option) \<Rightarrow> (ws_engine \<Rightarrow> ws_engine) \<Rightarrow> sandbox \<Rightarrow> ws_engine \<Rightarrow> ws_engine" where
  "rebuild_order_index X db_expiry meanwhile db e =
     (if x_db_error X then meanwhile (cleared_engine e)
      else case fold merge_position (position_entries X db_expiry db)
             (fold merge_leg (gtt_entries X db)
               (fold merge_order (order_entries X db_expiry db) ([], meanwhile (cleared_engine e)))) of
        (subs, e1) \<Rightarrow> fold (\<lambda>(uid, symbols). subscribe_ws_symbols uid symbols) subs e1)"

subsection \<open>The polling fallback\<close>

definition start_fallback :: "ws_engine \<Rightarrow> ws_engine" where
  "start_fallback e = (if we_fallback e then e else e\<lparr>we_fallback := True\<rparr>)"

definition stop_fallback :: "ws_engine \<Rightarrow> ws_engine" where
  "stop_fallback e = e\<lparr>we_fallback := False\<rparr>"

text \<open>One round of the health monitor; \<open>enabled\<close> is SANDBOX_ENGINE_FALLBACK.\<close>

definition monitor_health :: "bool \<Rightarrow> bool \<Rightarrow> ws_engine \<Rightarrow> ws_engine" where
  "monitor_health enabled is_fresh e =
     (if \<not> we_running e then e
      else if \<not> is_fresh \<and> enabled \<and> \<not> we_fallback e then start_fallback e
      else if is_fresh \<and> we_fallback e then stop_fallback e
      else e)"

text \<open>One polling cycle, of the resting orders and then of the GTT legs, and one round of the fallback.\<close>

definition run_execution_engine_once ::
    "ext \<Rightarrow> (nat \<Rightarrow> bool) \<Rightarrow> (string \<Rightarrow> string \<Rightarrow> quote option) \<Rightarrow> sandbox \<Rightarrow> sandbox" where
  "run_execution_engine_once X lock_free quote_cache db =
     check_pending_gtts X lock_free quote_cache (execute_pending_orders X quote_cache db)"

definition fallback_round ::
    "ext \<Rightarrow> (nat \<Rightarrow> bool) \<Rightarrow> (string \<Rightarrow> string \<Rightarrow> quote option) \<Rightarrow> ws_engine \<Rightarrow> sandbox \<Rightarrow> sandbox" where
  "fallback_round X lock_free quote_cache e db =
     (if we_fallback e \<and> we_running e then run_execution_engine_once X lock_free quote_cache db else db)"

subsection \<open>Starting and stopping\<close>

text \<open>\<open>subscribed\<close>: whether the market data service took the engine's callback.\<close>

definition start_engine ::
    "ext \<Rightarrow> (string \<Rightarrow> string \<Rightarrow> int option) \<Rightarrow> bool \<Rightarrow> (ws_engine \<Rightarrow> ws_engine) \<Rightarrow> sandbox \<Rightarrow> ws_engine \<Rightarrow> ws_engine" where
  "start_engine X db_expiry subscribed meanwhile db e =
     (if we_running e then e
      else (rebuild_order_index X db_expiry meanwhile db (e\<lparr>we_running := True\<rparr>))\<lparr>we_running := subscribed\<rparr>)"

definition unsubscribe_all_ws :: "ws_engine \<Rightarrow> ws_engine" where
  "unsubscribe_all_ws e =
     fold (\<lambda>(uid, counts). unsubscribe_ws_symbols uid (map (split_key \<circ> fst) counts)) (we_refs e) (e\<lparr>we_refs := []\<rparr>)"

definition stop_engine :: "ws_engine \<Rightarrow> ws_engine" where
  "stop_engine e = (if \<not> we_running e then e else unsubscribe_all_ws (stop_fallback (e\<lparr>we_running := False\<rparr>)))"

text \<open>The one engine of the process: created when first asked for, detached when stopped.\<close>

definition get_websocket_execution_engine :: "ws_engine option \<Rightarrow> ws_engine" where
  "get_websocket_execution_engine current = (case current of Some e \<Rightarrow> e | None \<Rightarrow> idle_engine)"

definition start_websocket_execution_engine ::
    "ext \<Rightarrow> (string \<Rightarrow> string \<Rightarrow> int option) \<Rightarrow> bool \<Rightarrow> (ws_engine \<Rightarrow> ws_engine) \<Rightarrow> sandbox \<Rightarrow> ws_engine option \<Rightarrow> ws_engine option" where
  "start_websocket_execution_engine X db_expiry subscribed meanwhile db current =
     Some (start_engine X db_expiry subscribed meanwhile db (get_websocket_execution_engine current))"

text \<open>The process has no engine afterwards; what is returned beside it is the stopped one.\<close>

definition stop_websocket_execution_engine :: "ws_engine option \<Rightarrow> ws_engine option \<times> ws_engine option" where
  "stop_websocket_execution_engine current = (None, map_option stop_engine current)"

end
