(* ===== verification/WebSocketLaws.thy ===== *)
theory WebSocketLaws
  imports WebSocketEngine GttSamples
begin

text \<open>
  What the event-driven engine keeps: while its notifications come in the order the engine expects,
  a user's feed carries a symbol exactly as long as something of the user's waits for it; and the two
  places where the order of events breaks that.
\<close>

subsection \<open>Association lists and keys\<close>

lemma listed_update [simp]: "listed (AList.update k v xs) j = (if j = k then v else listed xs j)"
  by (simp add: listed_def update_conv')

lemma listed_delete [simp]: "listed (AList.delete k xs) j = (if j = k then [] else listed xs j)"
  by (simp add: listed_def delete_conv')

lemma listed_None: "map_of xs k = None \<Longrightarrow> listed xs k = []"
  by (simp add: listed_def)

lemma listed_Nil [simp]: "listed [] k = []"
  by (simp add: listed_def)

definition proper_key :: "string \<Rightarrow> bool" where
  "proper_key key \<longleftrightarrow> CHR '':'' \<in> set key"

lemma proper_symbol_key [simp]: "proper_key (symbol_key exchange symbol)"
  by (simp add: proper_key_def symbol_key_def)

lemma join_split_key: "proper_key key \<Longrightarrow> snd (split_key key) @ CHR '':'' # fst (split_key key) = key"
proof -
  assume "proper_key key"
  then obtain as bs where "key = as @ CHR '':'' # bs" "CHR '':'' \<notin> set as"
    unfolding proper_key_def by (meson split_list_first)
  then show ?thesis by (simp add: split_key_def takeWhile_append dropWhile_append)
qed

lemma split_key_inj: "proper_key a \<Longrightarrow> proper_key b \<Longrightarrow> split_key a = split_key b \<longleftrightarrow> a = b"
  using join_split_key by metis

text \<open>The feed call names the symbol and the exchange the key was made of.\<close>

lemma split_symbol_key: "CHR '':'' \<notin> set exchange \<Longrightarrow> split_key (symbol_key exchange symbol) = (symbol, exchange)"
  by (simp add: split_key_def symbol_key_def takeWhile_append dropWhile_append)

subsection \<open>Counting references\<close>

lemma refcount_simps [simp]:
  "refcount (e\<lparr>we_orders := o'\<rparr>) = refcount e" "refcount (e\<lparr>we_legs := l\<rparr>) = refcount e"
  "refcount (e\<lparr>we_monitored := m\<rparr>) = refcount e" "refcount (e\<lparr>we_positions := ps\<rparr>) = refcount e"
  "refcount (e\<lparr>we_fallback := b\<rparr>) = refcount e"
  "refcount (e\<lparr>we_feed := f\<rparr>) = refcount e" "refcount (e\<lparr>we_running := b\<rparr>) = refcount e"
  by (simp_all add: fun_eq_iff refcount_def)

lemma refcount_set:
  "refcount (e\<lparr>we_refs := AList.update uid counts (we_refs e)\<rparr>) u k =
     (if u = uid then (case map_of counts k of Some n \<Rightarrow> n | None \<Rightarrow> 0) else refcount e u k)"
  "refcount (e\<lparr>we_refs := AList.delete uid (we_refs e)\<rparr>) u k = (if u = uid then 0 else refcount e u k)"
  by (simp_all add: refcount_def)

lemma increment_refcount:
  "increment_user_symbol_refcount uid key e = (first, e1) \<Longrightarrow>
   first = (refcount e uid key = 0) \<and>
   refcount e1 u k = (if u = uid \<and> k = key then Suc (refcount e u k) else refcount e u k)"
  by (auto simp: increment_user_symbol_refcount_def refcount_def Let_def update_conv')

lemma increment_rest:
  "increment_user_symbol_refcount uid key e = (first, e1) \<Longrightarrow>
   we_orders e1 = we_orders e \<and> we_legs e1 = we_legs e \<and> we_positions e1 = we_positions e \<and>
   we_feed e1 = we_feed e \<and> we_running e1 = we_running e \<and> we_monitored e1 = we_monitored e"
  by (auto simp: increment_user_symbol_refcount_def Let_def)

lemma decrement_refcount:
  assumes "decrement_user_symbol_refcount uid key e = (last_one, e1)" "0 < refcount e uid key"
  shows "last_one = (refcount e uid key = 1) \<and>
    refcount e1 u k = (if u = uid \<and> k = key then refcount e u k - 1 else refcount e u k)"
proof -
  obtain counts where c: "map_of (we_refs e) uid = Some counts"
    using assms(2) by (cases "map_of (we_refs e) uid") (auto simp: refcount_def listed_def)
  have l: "listed (we_refs e) uid = counts" by (simp add: listed_def c)
  show ?thesis
  proof (cases "refcount e uid key \<le> 1")
    case True
    have "map_of counts j = None" if "AList.delete key counts = []" "j \<noteq> key" for j
      using that delete_conv' [of key counts] by (metis fun_upd_other map_of.simps(1))
    with True assms c show ?thesis
      by (auto simp: decrement_user_symbol_refcount_def Let_def refcount_set delete_conv'
          split: if_splits) (simp_all add: refcount_def l)
  next
    case False
    with assms c show ?thesis
      by (auto simp: decrement_user_symbol_refcount_def Let_def refcount_set update_conv')
        (simp_all add: refcount_def l)
  qed
qed

lemma decrement_rest:
  "decrement_user_symbol_refcount uid key e = (last_one, e1) \<Longrightarrow>
   we_orders e1 = we_orders e \<and> we_legs e1 = we_legs e \<and> we_positions e1 = we_positions e \<and>
   we_feed e1 = we_feed e \<and> we_running e1 = we_running e \<and> we_monitored e1 = we_monitored e"
  by (auto simp: decrement_user_symbol_refcount_def Let_def split: option.splits if_splits)

subsection \<open>What the feed carries\<close>

fun feed_effect :: "feed_call \<Rightarrow> (string \<times> string \<times> string) set \<Rightarrow> (string \<times> string \<times> string) set" where
  "feed_effect (Feed_subscribe uid symbols) S = S \<union> {uid} \<times> set symbols"
| "feed_effect (Feed_unsubscribe uid symbols) S = S - {uid} \<times> set symbols"

definition carried :: "ws_engine \<Rightarrow> (string \<times> string \<times> string) set" where
  "carried e = fold feed_effect (we_feed e) {}"

definition carries :: "ws_engine \<Rightarrow> string \<Rightarrow> string \<Rightarrow> bool" where
  "carries e uid key \<longleftrightarrow> (uid, split_key key) \<in> carried e"

lemma carried_simps [simp]:
  "carried (e\<lparr>we_orders := o'\<rparr>) = carried e" "carried (e\<lparr>we_legs := l\<rparr>) = carried e"
  "carried (e\<lparr>we_monitored := m\<rparr>) = carried e" "carried (e\<lparr>we_positions := ps\<rparr>) = carried e"
  "carried (e\<lparr>we_fallback := b\<rparr>) = carried e"
  "carried (e\<lparr>we_refs := f\<rparr>) = carried e" "carried (e\<lparr>we_running := b\<rparr>) = carried e"
  by (simp_all add: carried_def)

lemma carried_subscribe [simp]: "carried (subscribe_ws_symbols uid symbols e) = carried e \<union> {uid} \<times> set symbols"
  by (simp add: carried_def subscribe_ws_symbols_def)

lemma carried_unsubscribe [simp]: "carried (unsubscribe_ws_symbols uid symbols e) = carried e - {uid} \<times> set symbols"
  by (simp add: carried_def unsubscribe_ws_symbols_def)

lemma feed_call_rest [simp]:
  "we_orders (subscribe_ws_symbols uid symbols e) = we_orders e" "we_legs (subscribe_ws_symbols uid symbols e) = we_legs e"
  "we_positions (subscribe_ws_symbols uid symbols e) = we_positions e" "refcount (subscribe_ws_symbols uid symbols e) = refcount e"
  "we_orders (unsubscribe_ws_symbols uid symbols e) = we_orders e" "we_legs (unsubscribe_ws_symbols uid symbols e) = we_legs e"
  "we_positions (unsubscribe_ws_symbols uid symbols e) = we_positions e" "refcount (unsubscribe_ws_symbols uid symbols e) = refcount e"
  by (simp_all add: subscribe_ws_symbols_def unsubscribe_ws_symbols_def)

lemma gain_rest [simp]:
  "we_orders (gain_reference uid key e) = we_orders e" "we_legs (gain_reference uid key e) = we_legs e"
  "we_positions (gain_reference uid key e) = we_positions e"
  using increment_rest by (auto simp: gain_reference_def split: prod.splits)

lemma lose_rest [simp]:
  "we_orders (lose_reference uid key e) = we_orders e" "we_legs (lose_reference uid key e) = we_legs e"
  "we_positions (lose_reference uid key e) = we_positions e"
  using decrement_rest by (auto simp: lose_reference_def split: prod.splits)

text \<open>The feed follows the counts: it carries exactly what has references.\<close>

definition feed_counted :: "ws_engine \<Rightarrow> bool" where
  "feed_counted e \<longleftrightarrow>
     (\<forall>u k. 0 < refcount e u k \<longrightarrow> proper_key k) \<and>
     carried e = {(u, split_key k) | u k. 0 < refcount e u k}"

lemma counted_carries:
  "feed_counted e \<Longrightarrow> proper_key k \<Longrightarrow> carries e u k \<longleftrightarrow> 0 < refcount e u k"
  unfolding feed_counted_def carries_def using split_key_inj by auto

lemma gain_counted:
  assumes "feed_counted e" "proper_key key"
  shows "feed_counted (gain_reference uid key e) \<and>
    refcount (gain_reference uid key e) u k = (if u = uid \<and> k = key then Suc (refcount e u k) else refcount e u k)"
proof -
  obtain first e1 where i: "increment_user_symbol_refcount uid key e = (first, e1)" by fastforce
  have r: "refcount e1 u k = (if u = uid \<and> k = key then Suc (refcount e u k) else refcount e u k)" for u k
    using increment_refcount [OF i] by blast
  have c: "carried e1 = carried e" using increment_rest [OF i] by (simp add: carried_def)
  have "feed_counted (gain_reference uid key e)"
    using assms increment_refcount [OF i]
    by (auto simp: gain_reference_def i feed_counted_def c r split: if_splits)
  then show ?thesis by (simp add: gain_reference_def i r)
qed

lemma lose_counted:
  assumes "feed_counted e" "0 < refcount e uid key"
  shows "feed_counted (lose_reference uid key e) \<and>
    refcount (lose_reference uid key e) u k = (if u = uid \<and> k = key then refcount e u k - 1 else refcount e u k)"
proof -
  obtain last_one e1 where i: "decrement_user_symbol_refcount uid key e = (last_one, e1)" by fastforce
  have r: "refcount e1 u k = (if u = uid \<and> k = key then refcount e u k - 1 else refcount e u k)" for u k
    using decrement_refcount [OF i assms(2)] by blast
  have c: "carried e1 = carried e" using decrement_rest [OF i] by (simp add: carried_def)
  have p: "proper_key key" using assms by (simp add: feed_counted_def)
  have inj: "split_key k = split_key key \<longleftrightarrow> k = key" if "0 < refcount e u k" for u k
    using assms that split_key_inj by (simp add: feed_counted_def)
  have l: "last_one = (refcount e uid key = 1)" using decrement_refcount [OF i assms(2)] by blast
  have "carried (lose_reference uid key e) = {(u, split_key k) | u k. 0 < refcount e1 u k}"
  proof (cases last_one)
    case True
    with assms(1) l show ?thesis
      by (auto simp: lose_reference_def i feed_counted_def c r) (metis inj)+
  next
    case False
    then have "0 < refcount e1 u k \<longleftrightarrow> 0 < refcount e u k" for u k using assms(2) l by (auto simp: r)
    with False assms(1) show ?thesis by (simp add: lose_reference_def i feed_counted_def c)
  qed
  then have "feed_counted (lose_reference uid key e)"
    using assms(1) p by (auto simp: lose_reference_def i feed_counted_def r split: if_splits)
  then show ?thesis by (simp add: lose_reference_def i r)
qed

subsection \<open>What waits for a symbol\<close>

text \<open>
  The number of things of a user that wait for a symbol: orders and GTT legs in the index, by the
  owners they have in the database, and the open position.
\<close>

definition waiting :: "(orderid \<Rightarrow> string) \<Rightarrow> (nat \<Rightarrow> string) \<Rightarrow> ws_engine \<Rightarrow> string \<Rightarrow> string \<Rightarrow> nat" where
  "waiting own leg_own e u k =
     length (filter (\<lambda>oid. own oid = u) (listed (we_orders e) k)) +
     length (filter (\<lambda>lid. leg_own lid = u) (listed (we_legs e) k)) +
     (if (u, k) \<in> we_positions e then 1 else 0)"

definition well_watched :: "(orderid \<Rightarrow> string) \<Rightarrow> (nat \<Rightarrow> string) \<Rightarrow> ws_engine \<Rightarrow> bool" where
  "well_watched own leg_own e \<longleftrightarrow>
     feed_counted e \<and> (\<forall>u k. refcount e u k = waiting own leg_own e u k) \<and>
     (\<forall>k. distinct (listed (we_orders e) k) \<and> distinct (listed (we_legs e) k))"

lemma waiting_cong:
  "we_orders e1 = we_orders e \<Longrightarrow> we_legs e1 = we_legs e \<Longrightarrow> we_positions e1 = we_positions e \<Longrightarrow>
   waiting own leg_own e1 = waiting own leg_own e"
  by (simp add: fun_eq_iff waiting_def)

lemma waiting_references [simp]:
  "waiting own leg_own (gain_reference uid key e) = waiting own leg_own e"
  "waiting own leg_own (lose_reference uid key e) = waiting own leg_own e"
  by (rule waiting_cong; simp)+

lemma feed_counted_cong:
  "refcount e1 = refcount e \<Longrightarrow> carried e1 = carried e \<Longrightarrow> feed_counted e1 = feed_counted e"
  by (simp add: feed_counted_def)

lemma length_filter_remove1:
  "distinct xs \<Longrightarrow> x \<in> set xs \<Longrightarrow>
   length (filter P xs) = length (filter P (remove1 x xs)) + (if P x then 1 else 0)"
  by (induction xs) auto

text \<open>A watcher comes, or goes, together with its reference.\<close>

lemma watcher_comes:
  assumes "well_watched own leg_own e" "proper_key key"
    "refcount e1 = refcount e" "carried e1 = carried e"
    "\<And>u k. waiting own leg_own e1 u k = waiting own leg_own e u k + (if u = uid \<and> k = key then 1 else 0)"
    "\<And>k. distinct (listed (we_orders e1) k) \<and> distinct (listed (we_legs e1) k)"
  shows "well_watched own leg_own (gain_reference uid key e1)"
proof -
  have "feed_counted e1" using assms by (simp add: well_watched_def feed_counted_cong [of e1 e])
  with assms gain_counted show ?thesis by (simp add: well_watched_def)
qed

lemma watcher_goes:
  assumes "well_watched own leg_own e"
    "refcount e1 = refcount e" "carried e1 = carried e"
    "\<And>u k. waiting own leg_own e u k = waiting own leg_own e1 u k + (if u = uid \<and> k = key then 1 else 0)"
    "\<And>k. distinct (listed (we_orders e1) k) \<and> distinct (listed (we_legs e1) k)"
  shows "well_watched own leg_own (lose_reference uid key e1)"
proof -
  have f: "feed_counted e1" using assms by (simp add: well_watched_def feed_counted_cong [of e1 e])
  have "0 < refcount e1 uid key" using assms by (simp add: well_watched_def)
  from lose_counted [OF f this] show ?thesis using assms by (simp add: well_watched_def)
qed

subsection \<open>Orders come and go\<close>

lemma index_order_frame [simp]:
  "refcount (index_order key oid e) = refcount e" "carried (index_order key oid e) = carried e"
  "we_legs (index_order key oid e) = we_legs e" "we_positions (index_order key oid e) = we_positions e"
  "we_running (index_order key oid e) = we_running e"
  by (simp_all add: index_order_def Let_def)

lemma listed_index_order:
  "listed (we_orders (index_order key oid e)) k =
     (if k = key \<and> oid \<notin> set (listed (we_orders e) key) then listed (we_orders e) key @ [oid] else listed (we_orders e) k)"
  by (simp add: index_order_def Let_def)

lemma waiting_index_order:
  "oid \<notin> set (listed (we_orders e) key) \<Longrightarrow>
   waiting own leg_own (index_order key oid e) u k =
     waiting own leg_own e u k + (if u = own oid \<and> k = key then 1 else 0)"
  by (simp add: waiting_def listed_index_order)

lemma order_placed_watched:
  assumes "well_watched own leg_own e" "own (od_orderid r) = od_user r" "od_user r \<noteq> []"
    "od_orderid r \<notin> set (listed (we_orders e) (symbol_key (od_exchange r) (od_symbol r)))"
  shows "well_watched own leg_own (ws_notify_order_placed r e)"
  unfolding ws_notify_order_placed_def Let_def using assms
  by (auto simp: waiting_index_order listed_index_order well_watched_def [of _ _ e] intro!: watcher_comes [OF assms(1)])

lemma unindex_order_listed:
  assumes "oid \<in> set (listed (we_orders e) key)" "key \<noteq> []"
  shows "listed (we_orders (unindex_order oid key e)) k =
    (if k = key then remove1 oid (listed (we_orders e) key) else listed (we_orders e) k)"
proof -
  have "map_of (we_orders e) key \<noteq> None" using assms(1) by (cases "map_of (we_orders e) key") (auto simp: listed_def)
  with assms show ?thesis by (simp add: unindex_order_def Let_def)
qed

lemma unindex_order_frame [simp]:
  "refcount (unindex_order oid key e) = refcount e" "carried (unindex_order oid key e) = carried e"
  "we_legs (unindex_order oid key e) = we_legs e" "we_positions (unindex_order oid key e) = we_positions e"
  by (simp_all add: unindex_order_def remove_order_from_index_def Let_def)

lemma order_completed_watched:
  assumes "well_watched own leg_own e" "oid \<in> set (listed (we_orders e) key)" "key \<noteq> []" "own oid \<noteq> []"
  shows "well_watched own leg_own (notify_order_completed oid key (Some (own oid)) e)"
proof -
  let ?e = "unindex_order oid key e"
  have d: "distinct (listed (we_orders e) k) \<and> distinct (listed (we_legs e) k)" for k
    using assms(1) by (simp add: well_watched_def)
  have "waiting own leg_own e u k = waiting own leg_own ?e u k + (if u = own oid \<and> k = key then 1 else 0)" for u k
    using length_filter_remove1 [OF conjunct1 [OF d] assms(2), of "\<lambda>oid. own oid = u"]
    by (auto simp: waiting_def unindex_order_listed assms)
  then have "well_watched own leg_own (lose_reference (own oid) key ?e)"
    using d by (intro watcher_goes [OF assms(1)]) (auto simp: unindex_order_listed assms)
  then show ?thesis by (simp add: notify_order_completed_def assms)
qed

subsection \<open>Positions come and go\<close>

lemma position_opened_watched:
  assumes "well_watched own leg_own e"
  shows "well_watched own leg_own (notify_position_opened uid symbol exchange e)"
  unfolding notify_position_opened_def Let_def using assms
  by (auto simp: waiting_def well_watched_def [of _ _ e] intro!: watcher_comes [OF assms])

lemma position_closed_watched:
  assumes "well_watched own leg_own e"
  shows "well_watched own leg_own (notify_position_closed uid symbol exchange db e)"
  unfolding notify_position_closed_def Let_def using assms
  by (auto simp: waiting_def well_watched_def [of _ _ e] intro!: watcher_goes [OF assms])

subsection \<open>Legs come and go\<close>

lemma index_leg_frame [simp]:
  "refcount (index_leg key lid e) = refcount e" "carried (index_leg key lid e) = carried e"
  "we_orders (index_leg key lid e) = we_orders e" "we_positions (index_leg key lid e) = we_positions e"
  by (simp_all add: index_leg_def Let_def)

lemma listed_index_leg:
  "listed (we_legs (index_leg key lid e)) k =
     (if k = key \<and> lid \<notin> set (listed (we_legs e) key) then listed (we_legs e) key @ [lid] else listed (we_legs e) k)"
  by (simp add: index_leg_def Let_def)

lemma waiting_index_leg:
  "lid \<notin> set (listed (we_legs e) key) \<Longrightarrow>
   waiting own leg_own (index_leg key lid e) u k =
     waiting own leg_own e u k + (if u = leg_own lid \<and> k = key then 1 else 0)"
  by (simp add: waiting_def listed_index_leg)

text \<open>
  While subscriptions are owed: \<open>owed\<close> is what has a first reference already and is subscribed later.
\<close>

definition watched_but :: "(orderid \<Rightarrow> string) \<Rightarrow> (nat \<Rightarrow> string) \<Rightarrow> (string \<times> string \<times> string) set \<Rightarrow> ws_engine \<Rightarrow> bool" where
  "watched_but own leg_own owed e \<longleftrightarrow>
     (\<forall>u k. 0 < refcount e u k \<longrightarrow> proper_key k) \<and>
     carried e \<union> owed = {(u, split_key k) | u k. 0 < refcount e u k} \<and>
     (\<forall>u k. refcount e u k = waiting own leg_own e u k) \<and>
     (\<forall>k. distinct (listed (we_orders e) k) \<and> distinct (listed (we_legs e) k))"

lemma watched_but_nothing: "watched_but own leg_own {} e = well_watched own leg_own e"
  by (auto simp: watched_but_def well_watched_def feed_counted_def)

text \<open>A watcher comes whose subscription, when it is the first, is owed.\<close>

lemma watcher_comes_owing:
  assumes "watched_but own leg_own owed e" "proper_key key"
    "refcount e1 = refcount e" "carried e1 = carried e"
    "\<And>u k. waiting own leg_own e1 u k = waiting own leg_own e u k + (if u = uid \<and> k = key then 1 else 0)"
    "\<And>k. distinct (listed (we_orders e1) k) \<and> distinct (listed (we_legs e1) k)"
    "increment_user_symbol_refcount uid key e1 = (first, e2)"
  shows "watched_but own leg_own (owed \<union> (if first then {(uid, split_key key)} else {})) e2"
proof -
  note rest = increment_rest [OF assms(7)]
  have r: "refcount e2 u k = (if u = uid \<and> k = key then Suc (refcount e u k) else refcount e u k)" for u k
    using increment_refcount [OF assms(7)] assms(3) by metis
  have f: "first = (refcount e uid key = 0)" using increment_refcount [OF assms(7)] assms(3) by metis
  have w: "waiting own leg_own e2 = waiting own leg_own e1" using rest by (intro waiting_cong) auto
  have c: "carried e2 = carried e" using rest assms(4) by (simp add: carried_def)
  have set: "carried e \<union> owed = {(u, split_key k) | u k. 0 < refcount e u k}"
    using assms(1) by (simp add: watched_but_def)
  have "carried e2 \<union> (owed \<union> (if first then {(uid, split_key key)} else {})) =
    {(u, split_key k) | u k. 0 < refcount e u k} \<union> {(uid, split_key key)}"
    using set f by (auto simp: c)
  also have "\<dots> = {(u, split_key k) | u k. 0 < refcount e2 u k}" by (auto simp: r)
  finally show ?thesis
    using assms rest by (auto simp: watched_but_def r w split: if_splits)
qed

lemma watch_legs_owing:
  assumes "watched_but own leg_own owed e" "proper_key key"
    "distinct (map lg_id ls)" "\<forall>l\<in>set ls. lg_id l \<notin> set (listed (we_legs e) key) \<and> leg_own (lg_id l) = uid"
    "watch_legs uid key ls e = (sub, e2)"
  shows "watched_but own leg_own (owed \<union> (if sub then {(uid, split_key key)} else {})) e2"
  using assms
proof (induction ls arbitrary: e owed sub)
  case Nil
  then show ?case by simp
next
  case (Cons l ls)
  show ?case
  proof (cases "lg_status l = Pending")
    case False
    with Cons show ?thesis by simp
  next
    case True
    obtain first e1 where i: "increment_user_symbol_refcount uid key (index_leg key (lg_id l) e) = (first, e1)"
      by fastforce
    obtain later where later: "watch_legs uid key ls e1 = (later, e2)" "sub = (first \<or> later)"
      using Cons.prems(5) True by (auto simp: i split: prod.splits)
    let ?owed = "owed \<union> (if first then {(uid, split_key key)} else {})"
    have here: "watched_but own leg_own ?owed e1"
      using Cons.prems
      by (intro watcher_comes_owing [OF Cons.prems(1,2) _ _ _ _ i])
        (auto simp: waiting_index_leg listed_index_leg watched_but_def)
    have "listed (we_legs e1) k = listed (we_legs (index_leg key (lg_id l) e)) k" for k
      using increment_rest [OF i] by simp
    then have fresh: "\<forall>l\<in>set ls. lg_id l \<notin> set (listed (we_legs e1) key) \<and> leg_own (lg_id l) = uid"
      using Cons.prems(3,4) by (auto simp: listed_index_leg) (metis imageI)
    have "watched_but own leg_own (?owed \<union> (if later then {(uid, split_key key)} else {})) e2"
      using Cons.prems(3) by (intro Cons.IH [OF here Cons.prems(2) _ fresh later(1)]) simp
    then show ?thesis using later(2) by (cases first; cases later) auto
  qed
qed

lemma subscribe_owed:
  "watched_but own leg_own (owed \<union> {uid} \<times> set symbols) e \<Longrightarrow>
   watched_but own leg_own owed (subscribe_ws_symbols uid symbols e)"
  using waiting_cong [of "subscribe_ws_symbols uid symbols e" e] by (simp add: watched_but_def Un_ac)

lemma gtt_placed_watched:
  assumes "well_watched own leg_own e" "distinct (map lg_id legs)"
    "\<forall>l\<in>set legs. lg_id l \<notin> set (listed (we_legs e) (symbol_key (gt_exchange g) (gt_symbol g))) \<and> leg_own (lg_id l) = gt_user g"
  shows "well_watched own leg_own (ws_notify_gtt_placed g legs e)"
proof -
  let ?key = "symbol_key (gt_exchange g) (gt_symbol g)"
  obtain sub e1 where w: "watch_legs (gt_user g) ?key legs e = (sub, e1)" by fastforce
  have "watched_but own leg_own {} e" using assms(1) by (simp add: watched_but_nothing)
  from watch_legs_owing [OF this _ assms(2,3) w]
  have "watched_but own leg_own ({} \<union> (if sub then {(gt_user g, split_key ?key)} else {})) e1" by simp
  then have "watched_but own leg_own {} (if sub then subscribe_ws_symbols (gt_user g) [split_key ?key] e1 else e1)"
    using subscribe_owed [of own leg_own "{}" "gt_user g" "[split_key ?key]" e1] by (cases sub) simp_all
  then show ?thesis by (simp add: ws_notify_gtt_placed_def Let_def w watched_but_nothing)
qed

lemma unindex_leg_listed:
  "listed (we_legs (unindex_leg key lid e)) k =
    (if k = key then remove1 lid (listed (we_legs e) key) else listed (we_legs e) k)"
  by (auto simp: unindex_leg_def Let_def listed_None split: option.splits) (simp_all add: listed_def)

lemma unindex_leg_frame [simp]:
  "refcount (unindex_leg key lid e) = refcount e" "carried (unindex_leg key lid e) = carried e"
  "we_orders (unindex_leg key lid e) = we_orders e" "we_positions (unindex_leg key lid e) = we_positions e"
  by (simp_all add: unindex_leg_def Let_def split: option.splits)

lemma leg_dropped_watched:
  assumes "well_watched own leg_own e" "lid \<in> set (listed (we_legs e) key)" "leg_own lid \<noteq> []"
  shows "well_watched own leg_own (drop_gtt_leg key lid (Some (leg_own lid)) e)"
proof -
  let ?e = "unindex_leg key lid e"
  have d: "distinct (listed (we_orders e) k) \<and> distinct (listed (we_legs e) k)" for k
    using assms(1) by (simp add: well_watched_def)
  have "waiting own leg_own e u k = waiting own leg_own ?e u k + (if u = leg_own lid \<and> k = key then 1 else 0)" for u k
    using length_filter_remove1 [OF conjunct2 [OF d] assms(2), of "\<lambda>lid. leg_own lid = u"]
    by (auto simp: waiting_def unindex_leg_listed)
  then have "well_watched own leg_own (lose_reference (leg_own lid) key ?e)"
    using d by (intro watcher_goes [OF assms(1)]) (auto simp: unindex_leg_listed)
  then show ?thesis by (simp add: drop_gtt_leg_def assms(3))
qed

subsection \<open>Stopping and rebuilding\<close>

lemma carried_unsubscribe_all:
  "p \<in> carried (fold (\<lambda>(uid, counts). unsubscribe_ws_symbols uid (map (split_key \<circ> fst) counts)) rs e) \<longleftrightarrow>
     p \<in> carried e \<and> (\<forall>(u, counts)\<in>set rs. \<forall>(k, n)\<in>set counts. p \<noteq> (u, split_key k))"
  by (induction rs arbitrary: e) (auto simp: image_iff, force+)

lemma running_unsubscribe_all:
  "we_running (fold (\<lambda>(uid, counts). unsubscribe_ws_symbols uid (map (split_key \<circ> fst) counts)) rs e) = we_running e"
proof -
  have "we_running (unsubscribe_ws_symbols uid symbols e) = we_running e" for uid symbols e
    by (simp add: unsubscribe_ws_symbols_def)
  then show ?thesis by (induction rs arbitrary: e) auto
qed

lemma counted_reference:
  "0 < refcount e u k \<Longrightarrow> \<exists>counts n. (u, counts) \<in> set (we_refs e) \<and> (k, n) \<in> set counts"
  by (auto simp: refcount_def listed_def dest!: map_of_SomeD split: option.splits)

lemma stop_carries_nothing:
  assumes "feed_counted e" "we_running e"
  shows "carried (stop_engine e) = {}"
proof (rule equals0I)
  fix x assume "x \<in> carried (stop_engine e)"
  then have x: "x \<in> carried e" "\<forall>(u, counts)\<in>set (we_refs e). \<forall>(k, n)\<in>set counts. x \<noteq> (u, split_key k)"
    using assms(2) by (simp_all add: stop_engine_def stop_fallback_def unsubscribe_all_ws_def carried_unsubscribe_all)
  from x(1) assms(1) have "x \<in> {(u, split_key k) | u k. 0 < refcount e u k}" by (simp add: feed_counted_def)
  then obtain u k where uk: "x = (u, split_key k)" and n: "0 < refcount e u k" by blast
  from counted_reference [OF n] obtain counts n where "(u, counts) \<in> set (we_refs e)" "(k, n) \<in> set counts" by blast
  with x(2) uk show False by fastforce
qed

lemma cleared_watched: "carried e = {} \<Longrightarrow> well_watched own leg_own (cleared_engine e)"
  by (simp add: cleared_engine_def well_watched_def feed_counted_def refcount_def waiting_def carried_def)

definition owed_by :: "subscriptions \<Rightarrow> (string \<times> string \<times> string) set" where
  "owed_by subs = {(u, p). p \<in> set (listed subs u)}"

definition merging :: "(orderid \<Rightarrow> string) \<Rightarrow> (nat \<Rightarrow> string) \<Rightarrow> subscriptions \<times> ws_engine \<Rightarrow> bool" where
  "merging own leg_own s \<longleftrightarrow> watched_but own leg_own (owed_by (fst s)) (snd s) \<and> distinct (map fst (fst s))"

lemma merging_cong:
  assumes "merging own leg_own (subs, e)" "refcount e1 = refcount e" "carried e1 = carried e"
    "we_orders e1 = we_orders e" "we_legs e1 = we_legs e" "we_positions e1 = we_positions e"
  shows "merging own leg_own (subs, e1)"
  using assms waiting_cong [of e1 e own leg_own] by (simp add: merging_def watched_but_def)

lemma first_reference_merging:
  assumes "merging own leg_own (subs, e)" "proper_key key"
    "refcount e1 = refcount e" "carried e1 = carried e"
    "\<And>u k. waiting own leg_own e1 u k = waiting own leg_own e u k + (if u = uid \<and> k = key then 1 else 0)"
    "\<And>k. distinct (listed (we_orders e1) k) \<and> distinct (listed (we_legs e1) k)"
  shows "merging own leg_own (first_reference uid key (subs, e1))"
proof -
  obtain first e2 where i: "increment_user_symbol_refcount uid key e1 = (first, e2)" by fastforce
  have w: "watched_but own leg_own (owed_by subs) e" using assms(1) by (simp add: merging_def)
  have "owed_by (AList.update uid (listed subs uid @ [split_key key]) subs) = owed_by subs \<union> {(uid, split_key key)}"
    by (auto simp: owed_by_def split: if_splits)
  with watcher_comes_owing [OF w assms(2-6) i] assms(1) show ?thesis
    by (cases first) (simp_all add: first_reference_def i merging_def distinct_update)
qed

lemma merging_distinct:
  "merging own leg_own (subs, e) \<Longrightarrow> distinct (listed (we_orders e) k) \<and> distinct (listed (we_legs e) k)"
  by (simp add: merging_def watched_but_def)

lemma merge_order_merging:
  assumes "merging own leg_own s" "proper_key key" "own oid = uid"
  shows "merging own leg_own (merge_order (key, oid, uid) s)"
proof -
  obtain subs e where s: "s = (subs, e)" by fastforce
  have m: "merging own leg_own (subs, e\<lparr>we_monitored := insert key (we_monitored e)\<rparr>)"
    using assms(1) unfolding s by (rule merging_cong) simp_all
  show ?thesis
    unfolding s merge_order_def using m assms(2,3) merging_distinct [OF m]
    by (auto simp: Let_def waiting_index_order listed_index_order intro!: first_reference_merging [OF m])
qed

lemma merge_leg_merging:
  assumes "merging own leg_own s" "proper_key key" "leg_own lid = uid"
  shows "merging own leg_own (merge_leg (key, lid, uid) s)"
proof -
  obtain subs e where s: "s = (subs, e)" by fastforce
  have m: "merging own leg_own (subs, e\<lparr>we_monitored := insert key (we_monitored e)\<rparr>)"
    using assms(1) unfolding s by (rule merging_cong) simp_all
  show ?thesis
    unfolding s merge_leg_def using m assms(2,3) merging_distinct [OF m]
    by (auto simp: Let_def waiting_index_leg listed_index_leg intro!: first_reference_merging [OF m])
qed

lemma merge_position_merging:
  assumes "merging own leg_own s" "proper_key key"
  shows "merging own leg_own (merge_position (uid, key) s)"
proof -
  obtain subs e where s: "s = (subs, e)" by fastforce
  have m: "merging own leg_own (subs, e)" using assms(1) s by simp
  show ?thesis
    unfolding s merge_position_def using m assms(2) merging_distinct [OF m]
    by (auto simp: waiting_def intro!: first_reference_merging [OF m])
qed

lemma subscribe_merging:
  "distinct (map fst subs) \<Longrightarrow> watched_but own leg_own (owed_by subs) e \<Longrightarrow>
   well_watched own leg_own (fold (\<lambda>(uid, symbols). subscribe_ws_symbols uid symbols) subs e)"
proof (induction subs arbitrary: e)
  case Nil
  then show ?case by (simp add: owed_by_def watched_but_nothing)
next
  case (Cons s subs)
  obtain uid symbols where s: "s = (uid, symbols)" by fastforce
  have "map_of subs uid = None" using Cons.prems(1) s by (simp add: map_of_eq_None_iff)
  then have "owed_by (s # subs) = owed_by subs \<union> {uid} \<times> set symbols"
    by (auto simp: owed_by_def listed_def s split: if_splits)
  with Cons show ?case by (simp add: s subscribe_owed)
qed

text \<open>The owners of the orders and of the legs, as the database has them.\<close>

definition owners :: "ext \<Rightarrow> sandbox \<Rightarrow> (orderid \<Rightarrow> string) \<Rightarrow> (nat \<Rightarrow> string) \<Rightarrow> bool" where
  "owners X db own leg_own \<longleftrightarrow>
     list_all (\<lambda>r. own (od_orderid r) = od_user r) (orders db) \<and>
     list_all (\<lambda>(l, g). leg_own (lg_id l) = gt_user g) (get_active_legs X db)"

lemma fold_merging:
  "merging own leg_own s \<Longrightarrow> (\<And>x s. x \<in> set xs \<Longrightarrow> merging own leg_own s \<Longrightarrow> merging own leg_own (f x s)) \<Longrightarrow>
   merging own leg_own (fold f xs s)"
  by (induction xs arbitrary: s) auto

lemma rebuild_watched:
  assumes "owners X db own leg_own" "well_watched own leg_own (meanwhile (cleared_engine e))"
  shows "well_watched own leg_own (rebuild_order_index X db_expiry meanwhile db e)"
proof (cases "x_db_error X")
  case True
  with assms show ?thesis by (simp add: rebuild_order_index_def)
next
  case False
  have "merging own leg_own ([], meanwhile (cleared_engine e))"
    using assms(2) by (simp add: merging_def owed_by_def watched_but_nothing)
  then have "merging own leg_own (fold merge_position (position_entries X db_expiry db)
    (fold merge_leg (gtt_entries X db)
      (fold merge_order (order_entries X db_expiry db) ([], meanwhile (cleared_engine e)))))"
    using assms(1)
    by (intro fold_merging)
      (auto simp: owners_def list_all_iff order_entries_def gtt_entries_def position_entries_def
        intro!: merge_order_merging merge_leg_merging merge_position_merging)
  then show ?thesis
    using False subscribe_merging by (fastforce simp: rebuild_order_index_def merging_def split: prod.splits)
qed

lemma well_watched_running [simp]: "well_watched own leg_own (e\<lparr>we_running := b\<rparr>) = well_watched own leg_own e"
  using waiting_cong [of "e\<lparr>we_running := b\<rparr>" e] by (simp add: well_watched_def feed_counted_cong [of "e\<lparr>we_running := b\<rparr>" e])

lemma started_watched:
  assumes "owners X db own leg_own" "\<not> we_running e" "carried e = {}"
  shows "well_watched own leg_own (start_engine X db_expiry subscribed id db e)"
  using assms rebuild_watched [of X db own leg_own id "e\<lparr>we_running := True\<rparr>" db_expiry]
  by (simp add: start_engine_def cleared_watched)

subsection \<open>The feed follows what waits\<close>

text \<open>
  What the engine is told, in the order it expects: an order or a leg that comes was not indexed yet,
  one that goes was; positions may be reported at any time; and a running engine may be restarted.
\<close>

inductive engine_step :: "(orderid \<Rightarrow> string) \<Rightarrow> (nat \<Rightarrow> string) \<Rightarrow> ws_engine \<Rightarrow> ws_engine \<Rightarrow> bool"
  for own :: "orderid \<Rightarrow> string" and leg_own :: "nat \<Rightarrow> string" where
  step_order_placed:
    "own (od_orderid r) = od_user r \<Longrightarrow> od_user r \<noteq> [] \<Longrightarrow>
     od_orderid r \<notin> set (listed (we_orders e) (symbol_key (od_exchange r) (od_symbol r))) \<Longrightarrow>
     engine_step own leg_own e (ws_notify_order_placed r e)"
| step_order_completed:
    "oid \<in> set (listed (we_orders e) key) \<Longrightarrow> key \<noteq> [] \<Longrightarrow> own oid \<noteq> [] \<Longrightarrow>
     engine_step own leg_own e (notify_order_completed oid key (Some (own oid)) e)"
| step_gtt_placed:
    "distinct (map lg_id legs) \<Longrightarrow>
     \<forall>l\<in>set legs. lg_id l \<notin> set (listed (we_legs e) (symbol_key (gt_exchange g) (gt_symbol g))) \<and> leg_own (lg_id l) = gt_user g \<Longrightarrow>
     engine_step own leg_own e (ws_notify_gtt_placed g legs e)"
| step_leg_dropped:
    "lid \<in> set (listed (we_legs e) key) \<Longrightarrow> leg_own lid \<noteq> [] \<Longrightarrow>
     engine_step own leg_own e (drop_gtt_leg key lid (Some (leg_own lid)) e)"
| step_position_opened: "engine_step own leg_own e (notify_position_opened uid symbol exchange e)"
| step_position_closed: "engine_step own leg_own e (notify_position_closed uid symbol exchange db e)"
| step_restarted:
    "we_running e \<Longrightarrow> owners X db own leg_own \<Longrightarrow>
     engine_step own leg_own e (start_engine X db_expiry subscribed id db (stop_engine e))"

lemma step_watched: "engine_step own leg_own e e1 \<Longrightarrow> well_watched own leg_own e \<Longrightarrow> well_watched own leg_own e1"
proof (induction rule: engine_step.induct)
  case (step_restarted e X db db_expiry subscribed)
  then have "carried (stop_engine e) = {}" "\<not> we_running (stop_engine e)"
    using stop_carries_nothing [of e]
    by (simp_all add: well_watched_def) (simp add: stop_engine_def stop_fallback_def unsubscribe_all_ws_def running_unsubscribe_all)
  with step_restarted show ?case by (simp add: started_watched)
qed (simp_all add: order_placed_watched order_completed_watched gtt_placed_watched leg_dropped_watched
    position_opened_watched position_closed_watched)

lemma steps_watched:
  assumes "(engine_step own leg_own)\<^sup>*\<^sup>* e e1" "well_watched own leg_own e"
  shows "well_watched own leg_own e1"
  using assms by (induction rule: rtranclp_induct) (auto intro: step_watched)

lemma watched_carries:
  "well_watched own leg_own e \<Longrightarrow> proper_key k \<Longrightarrow> carries e u k \<longleftrightarrow> 0 < waiting own leg_own e u k"
  using counted_carries by (simp add: well_watched_def)

text \<open>C20: as long as the engine is told of orders, GTT legs and positions in the order it expects, a
  user's feed carries a symbol exactly while something of the user's waits for its ticks: from the
  index built at the start, through every notification, and across restarts.\<close>

theorem feed_follows_the_watchers:
  assumes "owners X db own leg_own" "\<not> we_running e" "carried e = {}"
    "(engine_step own leg_own)\<^sup>*\<^sup>* (start_engine X db_expiry subscribed id db e) e1" "proper_key key"
  shows "carries e1 uid key \<longleftrightarrow> 0 < waiting own leg_own e1 uid key"
proof -
  have "well_watched own leg_own e1"
    using assms(4) started_watched [OF assms(1-3)] by (rule steps_watched)
  then show ?thesis using assms(5) by (rule watched_carries)
qed

definition sample_owner :: "orderid \<Rightarrow> string" where
  "sample_owner oid = ''u''"

definition sample_leg_owner :: "nat \<Rightarrow> string" where
  "sample_leg_owner lid = ''u''"

definition no_expiries :: "string \<Rightarrow> string \<Rightarrow> int option" where
  "no_expiries symbol exchange = None"

lemma sample_start: "start_engine sample_ext no_expiries True id sample_db idle_engine = idle_engine\<lparr>we_running := True\<rparr>"
  by (simp add: start_engine_def rebuild_order_index_def sample_ext_def sample_db_def idle_engine_def
      cleared_engine_def order_entries_def gtt_entries_def position_entries_def get_active_legs_def)

lemma idle_carried: "carried idle_engine = {}"
  by (simp add: carried_def idle_engine_def)

lemma idle_watched: "well_watched sample_owner sample_leg_owner idle_engine"
proof -
  have "cleared_engine idle_engine = idle_engine" by (simp add: cleared_engine_def idle_engine_def)
  then show ?thesis using cleared_watched [OF idle_carried] by metis
qed

theorem feed_follows_the_watchers_witness:
  "carries (ws_notify_order_placed sample_order (idle_engine\<lparr>we_running := True\<rparr>)) ''u'' (symbol_key ''NSE'' ''S'')"
proof -
  let ?e = "idle_engine\<lparr>we_running := True\<rparr>"
  have "engine_step sample_owner sample_leg_owner ?e (ws_notify_order_placed sample_order ?e)"
    by (rule step_order_placed) (simp_all add: sample_owner_def sample_order_def idle_engine_def)
  then have "(engine_step sample_owner sample_leg_owner)\<^sup>*\<^sup>*
      (start_engine sample_ext no_expiries True id sample_db idle_engine) (ws_notify_order_placed sample_order ?e)"
    by (simp add: sample_start r_into_rtranclp)
  moreover have "owners sample_ext sample_db sample_owner sample_leg_owner"
    by (simp add: owners_def sample_db_def get_active_legs_def)
  moreover have "0 < waiting sample_owner sample_leg_owner (ws_notify_order_placed sample_order ?e) ''u'' (symbol_key ''NSE'' ''S'')"
    by (simp add: ws_notify_order_placed_def sample_order_def Let_def waiting_def listed_index_order idle_engine_def sample_owner_def)
  ultimately show ?thesis
    using feed_follows_the_watchers [where X = sample_ext and db = sample_db and own = sample_owner and
        leg_own = sample_leg_owner and e = idle_engine and db_expiry = no_expiries and subscribed = True]
      idle_carried by (simp add: idle_engine_def)
qed

subsection \<open>A notification that comes late\<close>

text \<open>An order that the index has already (the rebuild read it from the database) and that is then
  announced takes a second reference, which nothing gives back: once the order has completed nothing of
  the user's waits for the symbol, and the feed still carries it.\<close>

theorem late_notification_leaks_the_feed:
  assumes "well_watched own leg_own e" "own (od_orderid r) = od_user r" "od_user r \<noteq> []"
    and key: "key = symbol_key (od_exchange r) (od_symbol r)"
    and "od_orderid r \<in> set (listed (we_orders e) key)" "waiting own leg_own e (od_user r) key = 1"
  shows "let e1 = notify_order_completed (od_orderid r) key (Some (od_user r)) (ws_notify_order_placed r e)
         in waiting own leg_own e1 (od_user r) key = 0 \<and> carries e1 (od_user r) key"
proof -
  let ?oid = "od_orderid r" and ?u = "od_user r"
  let ?g = "gain_reference ?u key e"
  let ?x = "unindex_order ?oid key ?g"
  have placed: "ws_notify_order_placed r e = ?g"
    using assms(3,5) key by (simp add: ws_notify_order_placed_def index_order_def Let_def)
  have proper: "proper_key key" by (simp add: key)
  then have "key \<noteq> []" by (auto simp: proper_key_def)
  then have done1: "notify_order_completed ?oid key (Some ?u) ?g = lose_reference ?u key ?x"
    using assms(3) by (simp add: notify_order_completed_def)
  have f: "feed_counted e" and one: "refcount e ?u key = 1" and d: "distinct (listed (we_orders e) key)"
    using assms(1,6) by (simp_all add: well_watched_def)
  have "feed_counted ?x" and two: "refcount ?x ?u key = 2"
    using gain_counted [OF f proper] one by (simp_all add: feed_counted_cong [of ?x ?g])
  then have "feed_counted (lose_reference ?u key ?x)" "refcount (lose_reference ?u key ?x) ?u key = 1"
    using lose_counted [of ?x ?u key] by simp_all
  then have "carries (lose_reference ?u key ?x) ?u key" using counted_carries proper by simp
  moreover have "waiting own leg_own ?x ?u key = 0"
    using assms(2,5,6) length_filter_remove1 [OF d assms(5), of "\<lambda>oid. own oid = ?u"] \<open>key \<noteq> []\<close>
    by (auto simp: waiting_def unindex_order_listed)
  ultimately show ?thesis by (simp add: placed done1 Let_def)
qed

definition watching_sample :: ws_engine where
  "watching_sample = ws_notify_order_placed sample_order idle_engine"

lemma watching_sample_order:
  "listed (we_orders watching_sample) k = (if k = symbol_key ''NSE'' ''S'' then [(0, 1)] else [])"
  "listed (we_legs watching_sample) k = []" "we_positions watching_sample = {}"
  by (simp_all add: watching_sample_def ws_notify_order_placed_def sample_order_def Let_def listed_index_order idle_engine_def)

lemma watching_sample_watched: "well_watched sample_owner sample_leg_owner watching_sample"
  unfolding watching_sample_def
  by (rule order_placed_watched [OF idle_watched]) (simp_all add: sample_owner_def sample_order_def idle_engine_def)

theorem late_notification_leaks_the_feed_witness:
  "carries (notify_order_completed (0, 1) (symbol_key ''NSE'' ''S'') (Some ''u'')
     (ws_notify_order_placed sample_order watching_sample)) ''u'' (symbol_key ''NSE'' ''S'')"
  using late_notification_leaks_the_feed [OF watching_sample_watched, of sample_order "symbol_key ''NSE'' ''S''"]
  by (simp add: sample_order_def sample_owner_def waiting_def watching_sample_order Let_def)

subsection \<open>A leg claimed elsewhere\<close>

text \<open>A tick that finds a leg held by another evaluator stops watching it; when that evaluator's fire
  fails and gives the leg back, it is pending in the database, in no list of the engine, and when
  nothing else of the owner's waits for the symbol the feed has dropped it.\<close>

theorem foreign_claim_leaves_the_leg_unwatched:
  assumes "well_watched own leg_own e" "lid \<in> set (listed (we_legs e) key)"
    and row: "find (\<lambda>l. lg_id l = lid) (gtt_legs db) = Some l" "lg_status l = Triggering"
    and parent: "gtt_row X (lg_gtt_id l) db = Some g" "leg_own lid = gt_user g" "gt_user g \<noteq> []"
    and "waiting own leg_own e (gt_user g) key = 1"
  shows "case check_gtt_leg X lock_free key ltp lid (db, e) of (db1, e1) \<Rightarrow>
    map_option lg_status (find (\<lambda>l. lg_id l = lid) (gtt_legs (revert_claim lid db1))) = Some Pending \<and>
    lid \<notin> set (listed (we_legs e1) key) \<and> \<not> carries e1 (gt_user g) key"
proof -
  let ?e = "drop_gtt_leg key lid (Some (leg_own lid)) e"
  have legs: "listed (we_legs ?e) key = remove1 lid (listed (we_legs e) key)"
    using parent by (simp add: drop_gtt_leg_def unindex_leg_listed)
  have d: "distinct (listed (we_legs e) key)" using assms(1) by (simp add: well_watched_def)
  have proper: "proper_key key"
  proof -
    have "0 < refcount e (gt_user g) key" using assms(1,8) by (simp add: well_watched_def)
    then show ?thesis using assms(1) by (simp add: well_watched_def feed_counted_def)
  qed
  have tick: "check_gtt_leg X lock_free key ltp lid (db, e) = (db, ?e)"
    using row parent by (simp add: check_gtt_leg_def leg_row_def leg_user_id_def)
  have "waiting own leg_own ?e (gt_user g) key = 0"
    using assms(2,8) parent length_filter_remove1 [OF d assms(2), of "\<lambda>lid. leg_own lid = gt_user g"]
    by (auto simp: waiting_def drop_gtt_leg_def unindex_leg_listed split: if_splits)
  then have "\<not> carries ?e (gt_user g) key"
    using leg_dropped_watched [OF assms(1,2)] parent watched_carries [OF _ proper] by simp
  moreover have "map_option lg_status (find (\<lambda>l. lg_id l = lid) (gtt_legs (revert_claim lid db))) = Some Pending"
    using row find_SomeD [OF row(1)] by (simp add: revert_claim_def set_legs_def find_sql_update unclaim_leg_def)
  ultimately show ?thesis using d by (simp add: tick legs)
qed

text \<open>The lower leg of the sample OCO, claimed by another evaluator, with the engine watching it alone.\<close>

definition claimed_db :: sandbox where
  "claimed_db = oco_db\<lparr>gtt_legs := [(oco_leg 1 95 Below 90 36)\<lparr>lg_status := Triggering\<rparr>]\<rparr>"

definition watching_leg :: ws_engine where
  "watching_leg = ws_notify_gtt_placed oco_gtt [oco_leg 1 95 Below 90 36] idle_engine"

lemma watching_leg_watched: "well_watched sample_owner sample_leg_owner watching_leg"
  unfolding watching_leg_def
  by (rule gtt_placed_watched [OF idle_watched])
    (simp_all add: oco_gtt_def oco_leg_def sample_leg_owner_def idle_engine_def)

lemma watching_leg_lists:
  "listed (we_legs watching_leg) k = (if k = symbol_key ''NSE'' ''S'' then [1] else [])"
  "listed (we_orders watching_leg) k = []" "we_positions watching_leg = {}"
  by (simp_all add: watching_leg_def ws_notify_gtt_placed_def oco_gtt_def oco_leg_def Let_def listed_index_leg
      idle_engine_def increment_user_symbol_refcount_def)

theorem foreign_claim_leaves_the_leg_unwatched_witness:
  "\<not> carries (snd (check_gtt_leg sample_ext (\<lambda>l. True) (symbol_key ''NSE'' ''S'') 94 1 (claimed_db, watching_leg)))
     ''u'' (symbol_key ''NSE'' ''S'')"
  using foreign_claim_leaves_the_leg_unwatched [OF watching_leg_watched, of 1 "symbol_key ''NSE'' ''S''" claimed_db
      "(oco_leg 1 95 Below 90 36)\<lparr>lg_status := Triggering\<rparr>" sample_ext "read_gtt sample_ext oco_gtt" "\<lambda>l. True" 94]
  by (simp add: watching_leg_lists claimed_db_def oco_db_def oco_leg_def oco_gtt_def gtt_row_def read_gtt_def
      sample_leg_owner_def waiting_def split: prod.splits)

subsection \<open>A tick fills an order\<close>

lemma position_feed_watched: "well_watched own leg_own e \<Longrightarrow> well_watched own leg_own (position_feed r db e)"
  by (simp add: position_feed_def position_opened_watched position_closed_watched)

lemma position_feed_orders [simp]: "we_orders (position_feed r db e) = we_orders e"
  by (simp add: position_feed_def notify_position_opened_def notify_position_closed_def Let_def)

lemma find_unique_key_such:
  "distinct (map key rows) \<Longrightarrow> r \<in> set rows \<Longrightarrow> P r \<Longrightarrow> find (\<lambda>x. key x = key r \<and> P x) rows = Some r"
  by (induction rows) auto

lemma live_tick: "0 < ltp \<Longrightarrow> live_quote (tick_quote ltp)"
  by (simp add: live_quote_def tick_quote_def quote_looks_stale_def)

text \<open>C5: a tick that a watched open order can fill at fills it: the order is complete at its price with
  one trade for its whole quantity, it has left the engine's index, and the feed still follows what
  waits.\<close>

theorem tick_fills_watched_order:
  assumes wf: "orders_wf db" "distinct (map od_orderid (orders db))" and calm: "\<not> x_db_error X"
    and row: "row \<in> set (orders db)" "od_status row = Open" "od_user row \<noteq> []"
    and fresh: "\<And>t. t \<in> set (trades db) \<Longrightarrow> tr_orderid t \<noteq> od_orderid row"
    and quoted: "0 < ltp" "open_fill_price (read_order X row) (tick_quote ltp) = Some price"
    and watched: "well_watched own leg_own e" "own (od_orderid row) = od_user row"
      "od_orderid row \<in> set (listed (we_orders e) (symbol_key (od_exchange row) (od_symbol row)))"
  shows "case check_and_execute_order X (od_orderid row) ltp (db, e) of (db1, e1) \<Rightarrow>
    find (\<lambda>r. od_id r = od_id row) (orders db1) = Some (fill_row price row) \<and>
    map tr_quantity (filter (\<lambda>t. tr_orderid t = od_orderid row) (trades db1)) = [od_quantity row] \<and>
    od_orderid row \<notin> set (listed (we_orders e1) (symbol_key (od_exchange row) (od_symbol row))) \<and>
    well_watched own leg_own e1"
proof -
  let ?key = "symbol_key (od_exchange row) (od_symbol row)" and ?oid = "od_orderid row"
  let ?db1 = "execute_order X (read_order X row) price db"
  let ?e = "if length (trades ?db1) > length (trades db) \<and> \<not> x_db_error X then position_feed (read_order X row) ?db1 e else e"
  have pending: "is_pending row" using row(2) by (simp add: is_pending_def PENDING_ORDER_STATUSES_def)
  have found: "find (\<lambda>r. od_orderid r = ?oid \<and> is_pending r) (orders db) = Some row"
    using wf(2) row(1) pending by (rule find_unique_key_such)
  have none: "find (\<lambda>t. tr_orderid t = ?oid) (trades db) = None" using fresh by (auto simp: find_None_iff)
  have process: "process_order X (read_order X row) (tick_quote ltp) db = ?db1"
    using quoted live_tick [OF quoted(1)] none row(2) by (simp add: process_order_def live_quote_def)
  obtain t where view: "order_view (od_id row) ?oid ?db1 = (Some (fill_row price row), [t])" "tr_quantity t = od_quantity row"
    using execute_order_fills [OF wf(1) row(1) pending calm fresh] by blast
  then have done1: "find (\<lambda>r. od_id r = od_id row) (orders ?db1) = Some (fill_row price row)"
    and traded: "filter (\<lambda>t. tr_orderid t = ?oid) (trades ?db1) = [t]"
    by (simp_all add: order_view_def)
  have settled: "order_row X (od_id row) ?db1 = Some (read_order X (fill_row price row))"
    "\<not> is_pending (read_order X (fill_row price row))" "od_exchange (read_order X (fill_row price row)) = od_exchange row"
    "od_symbol (read_order X (fill_row price row)) = od_symbol row" "od_user (read_order X (fill_row price row)) = od_user row"
    using done1 by (simp_all add: order_row_def fill_row_def is_pending_def PENDING_ORDER_STATUSES_def)
  have tick: "check_and_execute_order X ?oid ltp (db, e) = (?db1, notify_order_completed ?oid ?key (Some (own ?oid)) ?e)"
    using settled watched(2) by (simp add: check_and_execute_order_def found process Let_def)
  have e: "well_watched own leg_own ?e" "listed (we_orders ?e) ?key = listed (we_orders e) ?key"
    using watched(1) by (simp_all add: position_feed_watched)
  have k: "?key \<noteq> []" by (simp add: symbol_key_def)
  have "well_watched own leg_own (notify_order_completed ?oid ?key (Some (own ?oid)) ?e)"
    using e watched(2,3) row(3) k by (intro order_completed_watched) simp_all
  moreover have "?oid \<notin> set (listed (we_orders (notify_order_completed ?oid ?key (Some (own ?oid)) ?e)) ?key)"
    using e watched row(3) k by (simp add: notify_order_completed_def unindex_order_listed well_watched_def)
  ultimately show ?thesis using done1 traded view(2) by (simp add: tick)
qed

theorem tick_fills_watched_order_witness:
  "find (\<lambda>r. od_id r = 1) (orders (fst (check_and_execute_order sample_ext (0, 1) 125 (sample_market, watching_sample)))) =
     Some (fill_row 120 sample_order)"
proof -
  have p: "open_fill_price (read_order sample_ext sample_order) (tick_quote 125) = Some 120"
    using sample_read [of "Num.num.Bit0 (Num.num.Bit0 (num.Bit0 (num.Bit1 (num.Bit1 (num.Bit1 num.One)))))"]
    by (simp add: open_fill_price_def limit_met_def tick_quote_def Let_def)
  have m: "orders_wf sample_market" "distinct (map od_orderid (orders sample_market))" "\<not> x_db_error sample_ext"
    "sample_order \<in> set (orders sample_market)" "trades sample_market = []"
    by (simp_all add: orders_wf_def sample_market_simps sample_ext_def)
  have w: "od_orderid sample_order \<in> set (listed (we_orders watching_sample)
      (symbol_key (od_exchange sample_order) (od_symbol sample_order)))"
    by (simp add: watching_sample_order sample_order_def)
  show ?thesis
    using tick_fills_watched_order [OF m(1-4) _ _ _ _ p watching_sample_watched _ w] m(5)
    by (simp add: sample_owner_def split: prod.splits)
qed

end
