(* ===== verification/KeyedLocks.thy ===== *)
theory KeyedLocks
  imports SandboxDB
begin

text \<open>
  One lock per key (\<open>utils/keyed_locks.py\<close>) and its use for sandbox positions
  (\<open>sandbox/position_locks.py\<close>): the registry that holds an entry for each key in use, the locks, and
  the steps of the context managers \<open>hold\<close> and \<open>try_hold\<close> on any number of threads.

  An entry object is its index in \<open>kl_objects\<close>; the registry maps a key to such an index.  A frame is
  one \<open>with\<close> block a thread has entered and not left, with how far it has come; the frames of all
  threads are one list, the newest first, and only the newest frame of a thread moves.
\<close>

subsection \<open>Entries and locks\<close>

record lock_entry =
  en_refs :: int
  en_owner :: "nat option"
  en_depth :: nat

definition new_entry :: lock_entry where
  "new_entry = \<lparr>en_refs = 0, en_owner = None, en_depth = 0\<rparr>"

record 'k keyed_locks =
  kl_reentrant :: bool
  kl_entries :: "'k \<Rightarrow> nat option"
  kl_objects :: "lock_entry list"

definition new_keyed_locks :: "bool \<Rightarrow> 'k keyed_locks" where
  "new_keyed_locks reentrant = \<lparr>kl_reentrant = reentrant, kl_entries = (\<lambda>k. None), kl_objects = []\<rparr>"

definition add_refs :: "int \<Rightarrow> nat \<Rightarrow> 'k keyed_locks \<Rightarrow> 'k keyed_locks" where
  "add_refs d i kl =
     kl\<lparr>kl_objects := (kl_objects kl)[i := (kl_objects kl ! i)\<lparr>en_refs := en_refs (kl_objects kl ! i) + d\<rparr>]\<rparr>"

definition check_out :: "'k \<Rightarrow> 'k keyed_locks \<Rightarrow> nat \<times> 'k keyed_locks" where
  "check_out key kl =
     (case kl_entries kl key of
        Some i \<Rightarrow> (i, add_refs 1 i kl)
      | None \<Rightarrow>
          (let i = length (kl_objects kl)
           in (i, add_refs 1 i (kl\<lparr>kl_objects := kl_objects kl @ [new_entry],
                                   kl_entries := (kl_entries kl)(key := Some i)\<rparr>))))"

definition check_in :: "'k \<Rightarrow> nat \<Rightarrow> 'k keyed_locks \<Rightarrow> 'k keyed_locks" where
  "check_in key i kl =
     (let kl1 = add_refs (-1) i kl in
      if en_refs (kl_objects kl1 ! i) \<le> 0 \<and> kl_entries kl1 key = Some i
      then kl1\<lparr>kl_entries := (kl_entries kl1)(key := None)\<rparr> else kl1)"

text \<open>What \<open>acquire\<close> does when it need not wait: a lock, or one its owner may take again.\<close>

definition can_acquire :: "bool \<Rightarrow> nat \<Rightarrow> lock_entry \<Rightarrow> bool" where
  "can_acquire reentrant t en \<longleftrightarrow> en_owner en = None \<or> (reentrant \<and> en_owner en = Some t)"

definition take_lock :: "nat \<Rightarrow> nat \<Rightarrow> 'k keyed_locks \<Rightarrow> 'k keyed_locks" where
  "take_lock t i kl =
     kl\<lparr>kl_objects := (kl_objects kl)[i := (kl_objects kl ! i)\<lparr>en_owner := Some t, en_depth := Suc (en_depth (kl_objects kl ! i))\<rparr>]\<rparr>"

definition release_lock :: "nat \<Rightarrow> 'k keyed_locks \<Rightarrow> 'k keyed_locks" where
  "release_lock i kl =
     (let en = kl_objects kl ! i in
      kl\<lparr>kl_objects := (kl_objects kl)[i := en\<lparr>en_owner := (if en_depth en \<le> 1 then None else en_owner en), en_depth := en_depth en - 1\<rparr>]\<rparr>)"

subsection \<open>The context managers\<close>

datatype phase = Waiting | Holding | Finished

record 'k frame =
  fr_thread :: nat
  fr_key :: 'k
  fr_entry :: nat
  fr_timeout :: "rat option"
  fr_phase :: phase

type_synonym 'k lock_state = "'k keyed_locks \<times> 'k frame list"

definition newest :: "nat \<Rightarrow> 'k frame list \<Rightarrow> 'k frame option" where
  "newest t fs = find (\<lambda>f. fr_thread f = t) fs"

primrec on_newest :: "nat \<Rightarrow> ('k frame \<Rightarrow> 'k frame list) \<Rightarrow> 'k frame list \<Rightarrow> 'k frame list" where
  "on_newest t g [] = []"
| "on_newest t g (f # fs) = (if fr_thread f = t then g f @ fs else f # on_newest t g fs)"

definition set_phase :: "phase \<Rightarrow> 'k frame \<Rightarrow> 'k frame list" where
  "set_phase p f = [f\<lparr>fr_phase := p\<rparr>]"

text \<open>Entering a block checks the entry out; the frame then waits.\<close>

definition enter_block :: "nat \<Rightarrow> 'k \<Rightarrow> rat option \<Rightarrow> 'k lock_state \<Rightarrow> 'k lock_state" where
  "enter_block t key timeout s =
     (case check_out key (fst s) of
        (i, kl) \<Rightarrow> (kl, \<lparr>fr_thread = t, fr_key = key, fr_entry = i, fr_timeout = timeout, fr_phase = Waiting\<rparr> # snd s))"

definition acquire_block :: "nat \<Rightarrow> 'k frame \<Rightarrow> 'k lock_state \<Rightarrow> 'k lock_state" where
  "acquire_block t f s = (take_lock t (fr_entry f) (fst s), on_newest t (set_phase Holding) (snd s))"

text \<open>A wait that runs out leaves the lock alone: \<open>hold\<close> raises \<open>LockBusy\<close>, \<open>try_hold\<close> runs its body without it.\<close>

definition give_up_block :: "nat \<Rightarrow> 'k lock_state \<Rightarrow> 'k lock_state" where
  "give_up_block t s = (fst s, on_newest t (set_phase Finished) (snd s))"

definition release_block :: "nat \<Rightarrow> 'k frame \<Rightarrow> 'k lock_state \<Rightarrow> 'k lock_state" where
  "release_block t f s = (release_lock (fr_entry f) (fst s), on_newest t (set_phase Finished) (snd s))"

definition leave_block :: "nat \<Rightarrow> 'k frame \<Rightarrow> 'k lock_state \<Rightarrow> 'k lock_state" where
  "leave_block t f s = (check_in (fr_key f) (fr_entry f) (fst s), on_newest t (\<lambda>f. []) (snd s))"

text \<open>
  A step of the blocks already entered.  A thread waits without end when its timeout is None, and gives
  up only while the lock cannot be had.
\<close>

inductive block_step :: "'k lock_state \<Rightarrow> 'k lock_state \<Rightarrow> bool" where
  step_acquire:
    "newest t (snd s) = Some f \<Longrightarrow> fr_phase f = Waiting \<Longrightarrow>
     can_acquire (kl_reentrant (fst s)) t (kl_objects (fst s) ! fr_entry f) \<Longrightarrow> block_step s (acquire_block t f s)"
| step_give_up:
    "newest t (snd s) = Some f \<Longrightarrow> fr_phase f = Waiting \<Longrightarrow> fr_timeout f \<noteq> None \<Longrightarrow>
     \<not> can_acquire (kl_reentrant (fst s)) t (kl_objects (fst s) ! fr_entry f) \<Longrightarrow> block_step s (give_up_block t s)"
| step_release:
    "newest t (snd s) = Some f \<Longrightarrow> fr_phase f = Holding \<Longrightarrow> block_step s (release_block t f s)"
| step_leave:
    "newest t (snd s) = Some f \<Longrightarrow> fr_phase f = Finished \<Longrightarrow> block_step s (leave_block t f s)"

text \<open>Any step: one of those, or a thread that is not waiting enters another block.\<close>

inductive lock_step :: "'k lock_state \<Rightarrow> 'k lock_state \<Rightarrow> bool" where
  step_enter:
    "\<forall>f. newest t (snd s) = Some f \<longrightarrow> fr_phase f \<noteq> Waiting \<Longrightarrow> lock_step s (enter_block t key timeout s)"
| step_block: "block_step s s1 \<Longrightarrow> lock_step s s1"

inductive_cases block_stepE: "block_step s s1"

definition locked_keys :: "'k keyed_locks \<Rightarrow> 'k set" where
  "locked_keys kl = {k. kl_entries kl k \<noteq> None}"

subsection \<open>Positions\<close>

definition position_lock_key :: "string \<Rightarrow> string option \<Rightarrow> string \<Rightarrow> string option \<Rightarrow> string \<times> string \<times> string \<times> string" where
  "position_lock_key uid exchange symbol product =
     (let text_of = (\<lambda>v. case v of Some s \<Rightarrow> str_upper s | None \<Rightarrow> []) in (uid, symbol, text_of exchange, text_of product))"

definition POSITION_LOCK_WAIT_SECONDS :: rat where
  "POSITION_LOCK_WAIT_SECONDS = 30"

definition position_wait_seconds :: "bool \<Rightarrow> rat option" where
  "position_wait_seconds gthread = (if gthread then Some POSITION_LOCK_WAIT_SECONDS else None)"

definition position_lock ::
    "bool \<Rightarrow> nat \<Rightarrow> string \<Rightarrow> string option \<Rightarrow> string \<Rightarrow> string option
     \<Rightarrow> (string \<times> string \<times> string \<times> string) lock_state \<Rightarrow> (string \<times> string \<times> string \<times> string) lock_state" where
  "position_lock gthread t uid exchange symbol product =
     enter_block t (position_lock_key uid exchange symbol product) (position_wait_seconds gthread)"

definition try_position_lock ::
    "nat \<Rightarrow> string \<Rightarrow> string option \<Rightarrow> string \<Rightarrow> string option
     \<Rightarrow> (string \<times> string \<times> string \<times> string) lock_state \<Rightarrow> (string \<times> string \<times> string \<times> string) lock_state" where
  "try_position_lock t uid exchange symbol product =
     enter_block t (position_lock_key uid exchange symbol product) (Some 0)"

text \<open>
  A method under the lock of the position its arguments name: \<open>had\<close> is whether the lock was had in time.
\<close>

datatype 'a locked_answer = Ran 'a | Position_busy string nat

definition holds_position_lock ::
    "('x \<Rightarrow> (string \<times> string option \<times> string \<times> string option) option) \<Rightarrow>
     (string \<times> string \<times> string \<times> string \<Rightarrow> bool) \<Rightarrow> ('x \<Rightarrow> 'a) \<Rightarrow> 'x \<Rightarrow> 'a locked_answer" where
  "holds_position_lock key_of had method args =
     (case key_of args of
        None \<Rightarrow> Ran (method args)
      | Some (uid, exchange, symbol, product) \<Rightarrow>
          if had (position_lock_key uid exchange symbol product) then Ran (method args)
          else Position_busy symbol 409)"

end
