(* ===== verification/KeyedLocksLaws.thy ===== *)
theory KeyedLocksLaws
  imports KeyedLocks
begin

text \<open>
  What the keyed locks guarantee on any number of threads: mutual exclusion, a registry that holds
  exactly the keys in use, and progress while no thread holds two keys.
\<close>

subsection \<open>The newest frame\<close>

lemma newest_split:
  assumes "newest t fs = Some f"
  obtains as bs where "fs = as @ f # bs" "fr_thread f = t" "\<And>g. on_newest t g fs = as @ g f @ bs"
proof -
  have "\<exists>as bs. fs = as @ f # bs \<and> fr_thread f = t \<and> (\<forall>g. on_newest t g fs = as @ g f @ bs)"
    using assms
  proof (induction fs)
    case Nil
    then show ?case by (simp add: newest_def)
  next
    case (Cons x fs)
    show ?case
    proof (cases "fr_thread x = t")
      case True
      with Cons.prems show ?thesis by (intro exI [of _ "[]"] exI [of _ fs]) (auto simp: newest_def)
    next
      case False
      with Cons obtain as bs where "fs = as @ f # bs" "fr_thread f = t" "\<forall>g. on_newest t g fs = as @ g f @ bs"
        by (auto simp: newest_def)
      with False show ?thesis by (intro exI [of _ "x # as"] exI [of _ bs]) simp
    qed
  qed
  with that show ?thesis by blast
qed

lemma newest_frame: "newest t fs = Some f \<Longrightarrow> f \<in> set fs"
  by (auto simp: newest_def dest: find_SomeD)

lemma thread_has_newest: "f \<in> set fs \<Longrightarrow> \<exists>g. newest (fr_thread f) fs = Some g"
  unfolding newest_def by (cases "find (\<lambda>g. fr_thread g = fr_thread f) fs") (auto simp: find_None_iff)

subsection \<open>The invariant\<close>

definition users_of :: "nat \<Rightarrow> 'k frame list \<Rightarrow> nat" where
  "users_of i fs = length (filter (\<lambda>f. fr_entry f = i) fs)"

definition holders_of :: "nat \<Rightarrow> 'k frame list \<Rightarrow> nat" where
  "holders_of i fs = length (filter (\<lambda>f. fr_entry f = i \<and> fr_phase f = Holding) fs)"

text \<open>An entry object agrees with the frames that use it.\<close>

definition object_wf :: "bool \<Rightarrow> 'k frame list \<Rightarrow> nat \<Rightarrow> lock_entry \<Rightarrow> bool" where
  "object_wf reentrant fs i en \<longleftrightarrow>
     en_refs en = int (users_of i fs) \<and> en_depth en = holders_of i fs \<and>
     (en_owner en = None \<longleftrightarrow> en_depth en = 0) \<and> (reentrant \<or> en_depth en \<le> 1) \<and>
     (\<forall>f\<in>set fs. fr_entry f = i \<and> fr_phase f = Holding \<longrightarrow> en_owner en = Some (fr_thread f))"

definition locks_wf :: "'k lock_state \<Rightarrow> bool" where
  "locks_wf s \<longleftrightarrow>
     (\<forall>f\<in>set (snd s). kl_entries (fst s) (fr_key f) = Some (fr_entry f)) \<and>
     (\<forall>k i. kl_entries (fst s) k = Some i \<longrightarrow> i < length (kl_objects (fst s)) \<and> 0 < users_of i (snd s)) \<and>
     inj_on (kl_entries (fst s)) (locked_keys (fst s)) \<and>
     (\<forall>i < length (kl_objects (fst s)). object_wf (kl_reentrant (fst s)) (snd s) i (kl_objects (fst s) ! i))"

lemma new_locks_wf: "locks_wf (new_keyed_locks reentrant, [])"
  by (simp add: locks_wf_def new_keyed_locks_def locked_keys_def)

lemma users_append [simp]: "users_of i (as @ bs) = users_of i as + users_of i bs" "users_of i [] = 0"
  "users_of i (f # fs) = (if fr_entry f = i then 1 else 0) + users_of i fs"
  by (simp_all add: users_of_def)

lemma holders_append [simp]: "holders_of i (as @ bs) = holders_of i as + holders_of i bs" "holders_of i [] = 0"
  "holders_of i (f # fs) = (if fr_entry f = i \<and> fr_phase f = Holding then 1 else 0) + holders_of i fs"
  by (simp_all add: holders_of_def)

lemma no_holders: "holders_of i fs = 0 \<longleftrightarrow> (\<forall>f\<in>set fs. fr_entry f = i \<longrightarrow> fr_phase f \<noteq> Holding)"
  by (auto simp: holders_of_def filter_empty_conv)

lemma no_users: "users_of i fs = 0 \<longleftrightarrow> (\<forall>f\<in>set fs. fr_entry f \<noteq> i)"
  by (auto simp: users_of_def filter_empty_conv)

lemma frame_object:
  "locks_wf s \<Longrightarrow> f \<in> set (snd s) \<Longrightarrow>
   fr_entry f < length (kl_objects (fst s)) \<and>
   object_wf (kl_reentrant (fst s)) (snd s) (fr_entry f) (kl_objects (fst s) ! fr_entry f)"
  by (auto simp: locks_wf_def)

text \<open>Only the phase of one frame changes, and the lock of its entry.\<close>

lemma phase_change_wf:
  assumes wf: "locks_wf s" and fs: "snd s = as @ f # bs"
    and en: "object_wf (kl_reentrant (fst s)) (as @ f\<lparr>fr_phase := p\<rparr> # bs) (fr_entry f) en"
  shows "locks_wf ((fst s)\<lparr>kl_objects := (kl_objects (fst s))[fr_entry f := en]\<rparr>, as @ f\<lparr>fr_phase := p\<rparr> # bs)"
proof -
  have "object_wf (kl_reentrant (fst s)) (as @ f\<lparr>fr_phase := p\<rparr> # bs) i (kl_objects (fst s) ! i)"
    if "i < length (kl_objects (fst s))" "i \<noteq> fr_entry f" for i
    using wf that fs by (auto simp: locks_wf_def object_wf_def)
  then show ?thesis using wf en fs by (auto simp: locks_wf_def nth_list_update locked_keys_def)
qed

lemma acquire_wf:
  assumes wf: "locks_wf s" and f: "newest t (snd s) = Some f" "fr_phase f = Waiting"
    and free: "can_acquire (kl_reentrant (fst s)) t (kl_objects (fst s) ! fr_entry f)"
  shows "locks_wf (acquire_block t f s)"
proof -
  obtain as bs where fs: "snd s = as @ f # bs" "fr_thread f = t" "\<And>g. on_newest t g (snd s) = as @ g f @ bs"
    using newest_split [OF f(1)] by blast
  let ?en = "kl_objects (fst s) ! fr_entry f"
  have o: "object_wf (kl_reentrant (fst s)) (as @ f # bs) (fr_entry f) ?en"
    using frame_object [OF wf newest_frame [OF f(1)]] fs(1) by simp
  have "object_wf (kl_reentrant (fst s)) (as @ f\<lparr>fr_phase := Holding\<rparr> # bs) (fr_entry f)
      (?en\<lparr>en_owner := Some t, en_depth := Suc (en_depth ?en)\<rparr>)"
    using o f(2) free fs(2) by (auto simp: object_wf_def can_acquire_def no_holders)
  then show ?thesis
    using phase_change_wf [OF wf fs(1)] by (simp add: acquire_block_def take_lock_def set_phase_def fs(3))
qed

lemma give_up_wf:
  assumes wf: "locks_wf s" and f: "newest t (snd s) = Some f" "fr_phase f = Waiting"
  shows "locks_wf (give_up_block t s)"
proof -
  obtain as bs where fs: "snd s = as @ f # bs" "fr_thread f = t" "\<And>g. on_newest t g (snd s) = as @ g f @ bs"
    using newest_split [OF f(1)] by blast
  let ?en = "kl_objects (fst s) ! fr_entry f"
  have o: "object_wf (kl_reentrant (fst s)) (as @ f # bs) (fr_entry f) ?en"
    using frame_object [OF wf newest_frame [OF f(1)]] fs(1) by simp
  then have "object_wf (kl_reentrant (fst s)) (as @ f\<lparr>fr_phase := Finished\<rparr> # bs) (fr_entry f) ?en"
    using f(2) by (auto simp: object_wf_def)
  then have "locks_wf ((fst s)\<lparr>kl_objects := (kl_objects (fst s))[fr_entry f := ?en]\<rparr>, as @ f\<lparr>fr_phase := Finished\<rparr> # bs)"
    by (rule phase_change_wf [OF wf fs(1)])
  moreover have "(fst s)\<lparr>kl_objects := (kl_objects (fst s))[fr_entry f := ?en]\<rparr> = fst s" by (cases "fst s") simp
  ultimately show ?thesis by (simp only: give_up_block_def set_phase_def fs(3) append.simps)
qed

lemma release_wf:
  assumes wf: "locks_wf s" and f: "newest t (snd s) = Some f" "fr_phase f = Holding"
  shows "locks_wf (release_block t f s)"
proof -
  obtain as bs where fs: "snd s = as @ f # bs" "fr_thread f = t" "\<And>g. on_newest t g (snd s) = as @ g f @ bs"
    using newest_split [OF f(1)] by blast
  let ?en = "kl_objects (fst s) ! fr_entry f"
  let ?en1 = "?en\<lparr>en_owner := (if en_depth ?en \<le> 1 then None else en_owner ?en), en_depth := en_depth ?en - 1\<rparr>"
  have o: "object_wf (kl_reentrant (fst s)) (as @ f # bs) (fr_entry f) ?en"
    using frame_object [OF wf newest_frame [OF f(1)]] fs(1) by simp
  have own: "en_owner ?en = Some t" and depth: "en_depth ?en = Suc (holders_of (fr_entry f) (as @ bs))"
    using o f(2) fs(2) by (simp_all add: object_wf_def)
  have refs: "en_refs ?en = int (users_of (fr_entry f) (as @ f # bs))"
    and single: "kl_reentrant (fst s) \<or> en_depth ?en \<le> 1"
    and held: "\<forall>g\<in>set (as @ bs). fr_entry g = fr_entry f \<and> fr_phase g = Holding \<longrightarrow> en_owner ?en = Some (fr_thread g)"
    using o unfolding object_wf_def by (blast, blast, simp)
  have "object_wf (kl_reentrant (fst s)) (as @ f\<lparr>fr_phase := Finished\<rparr> # bs) (fr_entry f) ?en1"
  proof (cases "holders_of (fr_entry f) (as @ bs) = 0")
    case True
    then have none: "\<forall>g\<in>set (as @ bs). fr_entry g = fr_entry f \<longrightarrow> fr_phase g \<noteq> Holding"
      unfolding no_holders .
    show ?thesis unfolding object_wf_def using refs depth True none by simp
  next
    case False
    with depth have "\<not> en_depth ?en \<le> 1" by simp
    then show ?thesis unfolding object_wf_def using refs depth single held own by auto
  qed
  then show ?thesis
    using phase_change_wf [OF wf fs(1)] by (simp add: release_block_def release_lock_def set_phase_def Let_def fs(3))
qed

lemma locks_wfI:
  assumes "\<And>f. f \<in> set fs \<Longrightarrow> kl_entries kl (fr_key f) = Some (fr_entry f)"
    "\<And>k i. kl_entries kl k = Some i \<Longrightarrow> i < length (kl_objects kl) \<and> 0 < users_of i fs"
    "\<And>k k' i. kl_entries kl k = Some i \<Longrightarrow> kl_entries kl k' = Some i \<Longrightarrow> k = k'"
    "\<And>i. i < length (kl_objects kl) \<Longrightarrow> object_wf (kl_reentrant kl) fs i (kl_objects kl ! i)"
  shows "locks_wf (kl, fs)"
  using assms by (auto simp: locks_wf_def inj_on_def locked_keys_def)

lemma locks_wfD:
  assumes "locks_wf (kl, fs)"
  shows "f \<in> set fs \<Longrightarrow> kl_entries kl (fr_key f) = Some (fr_entry f)"
    "kl_entries kl k = Some i \<Longrightarrow> i < length (kl_objects kl) \<and> 0 < users_of i fs"
    "kl_entries kl k = Some i \<Longrightarrow> kl_entries kl k' = Some i \<Longrightarrow> k = k'"
    "i < length (kl_objects kl) \<Longrightarrow> object_wf (kl_reentrant kl) fs i (kl_objects kl ! i)"
  using assms by (auto simp: locks_wf_def inj_on_def locked_keys_def)

lemma enter_wf:
  assumes wf: "locks_wf (kl, fs)"
  shows "locks_wf (enter_block t key timeout (kl, fs))"
proof (cases "kl_entries kl key")
  case (Some i)
  note wf_at = locks_wfD [OF wf]
  let ?f = "\<lparr>fr_thread = t, fr_key = key, fr_entry = i, fr_timeout = timeout, fr_phase = Waiting\<rparr>"
  have "locks_wf (add_refs 1 i kl, ?f # fs)"
  proof (rule locks_wfI)
    fix j assume "j < length (kl_objects (add_refs 1 i kl))"
    then show "object_wf (kl_reentrant (add_refs 1 i kl)) (?f # fs) j (kl_objects (add_refs 1 i kl) ! j)"
      using wf_at(4) [of j]
      by (auto simp: add_refs_def nth_list_update object_wf_def)
  qed (use Some wf_at(1-3) in \<open>auto simp: add_refs_def\<close>)
  with Some show ?thesis by (simp add: enter_block_def check_out_def)
next
  case None
  note wf_at = locks_wfD [OF wf]
  let ?n = "length (kl_objects kl)"
  let ?f = "\<lparr>fr_thread = t, fr_key = key, fr_entry = ?n, fr_timeout = timeout, fr_phase = Waiting\<rparr>"
  let ?kl = "kl\<lparr>kl_entries := (kl_entries kl)(key := Some ?n), kl_objects := kl_objects kl @ [new_entry\<lparr>en_refs := 1\<rparr>]\<rparr>"
  have "\<forall>f\<in>set fs. fr_entry f \<noteq> ?n" using wf_at(1,2) by force
  then have fresh: "users_of ?n fs = 0" "holders_of ?n fs = 0" by (simp_all add: no_users no_holders)
  have "locks_wf (?kl, ?f # fs)"
  proof (rule locks_wfI)
    fix j assume "j < length (kl_objects ?kl)"
    then show "object_wf (kl_reentrant ?kl) (?f # fs) j (kl_objects ?kl ! j)"
      using wf_at(4) [of j] fresh by (cases "j = ?n") (auto simp: nth_append new_entry_def object_wf_def no_holders)
  next
    fix f assume "f \<in> set (?f # fs)"
    then show "kl_entries ?kl (fr_key f) = Some (fr_entry f)" using wf_at(1) None by auto
  next
    fix k i assume "kl_entries ?kl k = Some i"
    then show "i < length (kl_objects ?kl) \<and> 0 < users_of i (?f # fs)"
      using wf_at(2) by (fastforce split: if_splits)
  next
    fix k k' i assume "kl_entries ?kl k = Some i" "kl_entries ?kl k' = Some i"
    then show "k = k'" using wf_at(2,3) by (fastforce split: if_splits)
  qed
  with None show ?thesis by (simp add: enter_block_def check_out_def add_refs_def Let_def new_entry_def)
qed

lemma leave_wf:
  assumes wf: "locks_wf (kl, fs)" and f: "newest t fs = Some f" "fr_phase f = Finished"
  shows "locks_wf (leave_block t f (kl, fs))"
proof -
  note wf_at = locks_wfD [OF wf]
  obtain as bs where fs: "fs = as @ f # bs" "fr_thread f = t" "\<And>g. on_newest t g fs = as @ g f @ bs"
    using newest_split [OF f(1)] by blast
  let ?i = "fr_entry f"
  let ?kl = "add_refs (-1) ?i kl"
  have at: "kl_entries kl (fr_key f) = Some ?i" "?i < length (kl_objects kl)" using wf_at(1,2) fs(1) by auto
  have objects: "object_wf (kl_reentrant kl) (as @ bs) j (kl_objects ?kl ! j)" if "j < length (kl_objects kl)" for j
    using wf_at(4) [OF that] at(2) fs(1) f(2) by (cases "j = ?i") (auto simp: add_refs_def object_wf_def)
  then have refs: "en_refs (kl_objects ?kl ! ?i) = int (users_of ?i (as @ bs))"
    using at(2) by (simp add: object_wf_def)
  have same: "kl_entries ?kl = kl_entries kl" "kl_reentrant ?kl = kl_reentrant kl" "length (kl_objects ?kl) = length (kl_objects kl)"
    by (simp_all add: add_refs_def)
  have leave: "leave_block t f (kl, fs) =
    (if users_of ?i (as @ bs) = 0 then ?kl\<lparr>kl_entries := (kl_entries kl)(fr_key f := None)\<rparr> else ?kl, as @ bs)"
    using refs at(1) by (simp add: leave_block_def check_in_def Let_def same fs(3))
  show ?thesis
  proof (cases "users_of ?i (as @ bs) = 0")
    case True
    have "locks_wf (?kl\<lparr>kl_entries := (kl_entries kl)(fr_key f := None)\<rparr>, as @ bs)"
    proof (rule locks_wfI)
      fix g assume g: "g \<in> set (as @ bs)"
      then have "fr_entry g \<noteq> ?i" using True no_users by blast
      moreover have "kl_entries kl (fr_key g) = Some (fr_entry g)" using g wf_at(1) fs(1) by auto
      ultimately show "kl_entries (?kl\<lparr>kl_entries := (kl_entries kl)(fr_key f := None)\<rparr>) (fr_key g) = Some (fr_entry g)"
        using at(1) by auto
    next
      fix k j assume "kl_entries (?kl\<lparr>kl_entries := (kl_entries kl)(fr_key f := None)\<rparr>) k = Some j"
      then have k: "k \<noteq> fr_key f" "kl_entries kl k = Some j" by (auto split: if_splits)
      then have "j \<noteq> ?i" using wf_at(3) at(1) by blast
      with wf_at(2) [OF k(2)] show "j < length (kl_objects (?kl\<lparr>kl_entries := (kl_entries kl)(fr_key f := None)\<rparr>)) \<and>
          0 < users_of j (as @ bs)" using same fs(1) by simp
    qed (use wf_at(3) objects same in \<open>auto split: if_splits\<close>)
    then show ?thesis unfolding leave if_P [OF True] .
  next
    case False
    have "locks_wf (?kl, as @ bs)"
    proof (rule locks_wfI)
      fix k j assume k: "kl_entries ?kl k = Some j"
      then show "j < length (kl_objects ?kl) \<and> 0 < users_of j (as @ bs)"
        using wf_at(2) [of k j] False same fs(1) by (cases "j = ?i") simp_all
    qed (use wf_at(1,3) objects same fs(1) in auto)
    then show ?thesis unfolding leave if_not_P [OF False] .
  qed
qed

lemma block_step_wf: "block_step s s1 \<Longrightarrow> locks_wf s \<Longrightarrow> locks_wf s1"
  by (induction rule: block_step.induct) (simp_all add: acquire_wf give_up_wf release_wf, metis leave_wf prod.collapse)

lemma lock_step_wf: "lock_step s s1 \<Longrightarrow> locks_wf s \<Longrightarrow> locks_wf s1"
  by (induction rule: lock_step.induct) (metis enter_wf prod.collapse, rule block_step_wf)

lemma lock_steps_wf: "lock_step\<^sup>*\<^sup>* (new_keyed_locks reentrant, []) s \<Longrightarrow> locks_wf s"
  by (induction rule: rtranclp_induct) (auto intro: new_locks_wf lock_step_wf)

lemma keep_reentrant_block: "block_step s s1 \<Longrightarrow> kl_reentrant (fst s1) = kl_reentrant (fst s)"
  by (induction rule: block_step.induct)
    (simp_all add: acquire_block_def take_lock_def give_up_block_def release_block_def release_lock_def
      leave_block_def check_in_def add_refs_def Let_def)

lemma keep_reentrant: "lock_step\<^sup>*\<^sup>* (new_keyed_locks reentrant, []) s \<Longrightarrow> kl_reentrant (fst s) = reentrant"
proof (induction rule: rtranclp_induct)
  case base
  show ?case by (simp add: new_keyed_locks_def)
next
  case (step s s1)
  then show ?case
    by (auto elim!: lock_step.cases dest: keep_reentrant_block
        simp: enter_block_def check_out_def add_refs_def Let_def split: option.splits)
qed

text \<open>A frame's entry is its key's.\<close>

lemma frame_entry_key:
  "locks_wf s \<Longrightarrow> f \<in> set (snd s) \<Longrightarrow> g \<in> set (snd s) \<Longrightarrow> fr_entry f = fr_entry g \<longleftrightarrow> fr_key f = fr_key g"
  by (cases s) (metis locks_wfD(1,3) option.inject snd_conv)

subsection \<open>Mutual exclusion\<close>

text \<open>C21: whatever threads do, in any interleaving, two of them never hold the same key; and when the locks
  are not reentrant a key is held at most once.\<close>

theorem keys_are_held_by_one_thread:
  assumes "lock_step\<^sup>*\<^sup>* (new_keyed_locks reentrant, []) s"
    and "f \<in> set (snd s)" "g \<in> set (snd s)" "fr_phase f = Holding" "fr_phase g = Holding" "fr_key f = fr_key g"
  shows "fr_thread f = fr_thread g \<and>
    (reentrant \<or> length (filter (\<lambda>h. fr_key h = fr_key f \<and> fr_phase h = Holding) (snd s)) = 1)"
proof -
  note wf = lock_steps_wf [OF assms(1)]
  note o = frame_object [OF wf assms(2)]
  have e: "fr_entry g = fr_entry f" using frame_entry_key [OF wf assms(3,2)] assms(6) by simp
  have owner: "en_owner (kl_objects (fst s) ! fr_entry f) = Some (fr_thread h)"
    if "h \<in> set (snd s)" "fr_entry h = fr_entry f" "fr_phase h = Holding" for h
    using o that unfolding object_wf_def by blast
  have "fr_thread f = fr_thread g"
    using owner [OF assms(2) refl assms(4)] owner [OF assms(3) e assms(5)] by simp
  moreover have "filter (\<lambda>h. fr_key h = fr_key f \<and> fr_phase h = Holding) (snd s) =
      filter (\<lambda>h. fr_entry h = fr_entry f \<and> fr_phase h = Holding) (snd s)"
    using frame_entry_key [OF wf _ assms(2)] by (intro filter_cong) auto
  then have "length (filter (\<lambda>h. fr_key h = fr_key f \<and> fr_phase h = Holding) (snd s)) = holders_of (fr_entry f) (snd s)"
    by (simp only: holders_of_def)
  moreover have "holders_of (fr_entry f) (snd s) \<noteq> 0" using assms(2,4) by (auto simp only: no_holders)
  moreover have "reentrant \<or> holders_of (fr_entry f) (snd s) \<le> 1"
    using o keep_reentrant [OF assms(1)] unfolding object_wf_def by force
  ultimately show ?thesis by linarith
qed

text \<open>Two threads ask for one key: the first holds it, the second waits.\<close>

definition contended :: "bool \<Rightarrow> nat lock_state" where
  "contended reentrant =
     enter_block 2 7 None (acquire_block 1 \<lparr>fr_thread = 1, fr_key = 7, fr_entry = 0, fr_timeout = None, fr_phase = Waiting\<rparr>
       (enter_block 1 7 None (new_keyed_locks reentrant, [])))"

lemma contended_reached: "lock_step\<^sup>*\<^sup>* (new_keyed_locks reentrant, []) (contended reentrant)"
proof -
  let ?f = "\<lparr>fr_thread = 1, fr_key = 7, fr_entry = 0, fr_timeout = None, fr_phase = Waiting\<rparr>"
  let ?s = "enter_block 1 (7 :: nat) None (new_keyed_locks reentrant, [])"
  have n: "newest 1 (snd ?s) = Some ?f" "can_acquire (kl_reentrant (fst ?s)) 1 (kl_objects (fst ?s) ! 0)"
    by (simp_all add: enter_block_def check_out_def new_keyed_locks_def add_refs_def newest_def can_acquire_def new_entry_def)
  have "lock_step\<^sup>*\<^sup>* (new_keyed_locks reentrant, []) ?s"
    by (intro r_into_rtranclp step_enter) (simp add: newest_def)
  moreover have "lock_step ?s (acquire_block 1 ?f ?s)"
    using n by (intro step_block step_acquire) simp_all
  moreover have "lock_step (acquire_block 1 ?f ?s) (contended reentrant)"
    unfolding contended_def
    by (rule step_enter) (simp add: acquire_block_def enter_block_def check_out_def new_keyed_locks_def set_phase_def newest_def)
  ultimately show ?thesis by (meson rtranclp.rtrancl_into_rtrancl)
qed

lemma contended_frames:
  "snd (contended reentrant) =
     [\<lparr>fr_thread = 2, fr_key = 7, fr_entry = 0, fr_timeout = None, fr_phase = Waiting\<rparr>,
      \<lparr>fr_thread = 1, fr_key = 7, fr_entry = 0, fr_timeout = None, fr_phase = Holding\<rparr>]"
  by (simp add: contended_def acquire_block_def enter_block_def check_out_def new_keyed_locks_def set_phase_def add_refs_def
      take_lock_def)

theorem keys_are_held_by_one_thread_witness:
  "length (filter (\<lambda>h. fr_key h = 7 \<and> fr_phase h = Holding) (snd (contended False))) = 1"
  using keys_are_held_by_one_thread [OF contended_reached [of False],
      of "\<lparr>fr_thread = 1, fr_key = 7, fr_entry = 0, fr_timeout = None, fr_phase = Holding\<rparr>"
         "\<lparr>fr_thread = 1, fr_key = 7, fr_entry = 0, fr_timeout = None, fr_phase = Holding\<rparr>"]
  by (simp add: contended_frames)

subsection \<open>The registry\<close>

text \<open>The registry has exactly the keys some thread has entered and not left, its reference counts are the
  numbers of those threads' blocks, and once every block is left it is empty.\<close>

theorem registry_holds_the_keys_in_use:
  assumes "lock_step\<^sup>*\<^sup>* (new_keyed_locks reentrant, []) s"
  shows "locked_keys (fst s) = fr_key ` set (snd s) \<and>
    map_option (\<lambda>i. en_refs (kl_objects (fst s) ! i)) (kl_entries (fst s) key) =
      (let n = length (filter (\<lambda>f. fr_key f = key) (snd s)) in if n = 0 then None else Some (int n))"
proof -
  note wf = lock_steps_wf [OF assms]
  obtain kl fs where s: "s = (kl, fs)" by fastforce
  note wf_at = locks_wfD [OF wf [unfolded s]]
  have used: "\<exists>f\<in>set fs. fr_key f = k" if at: "kl_entries kl k = Some i" for k i
  proof -
    from wf_at(2) [OF at] have "users_of i fs \<noteq> 0" by simp
    then obtain f where f: "f \<in> set fs" "fr_entry f = i" unfolding no_users by blast
    then have "kl_entries kl (fr_key f) = Some i" using wf_at(1) by blast
    with f(1) wf_at(3) [OF at] show ?thesis by blast
  qed
  have "locked_keys kl = fr_key ` set fs"
    using used wf_at(1) by (fastforce simp: locked_keys_def)
  moreover have "map_option (\<lambda>i. en_refs (kl_objects kl ! i)) (kl_entries kl key) =
      (let n = length (filter (\<lambda>f. fr_key f = key) fs) in if n = 0 then None else Some (int n))"
  proof (cases "kl_entries kl key")
    case None
    with wf_at(1) have "filter (\<lambda>f. fr_key f = key) fs = []" by (force simp: filter_empty_conv)
    with None show ?thesis by simp
  next
    case (Some i)
    have "fr_key f = key \<longleftrightarrow> fr_entry f = i" if "f \<in> set fs" for f
      using wf_at(1) [OF that] wf_at(3) [OF Some] Some by (metis option.inject)
    then have "filter (\<lambda>f. fr_key f = key) fs = filter (\<lambda>f. fr_entry f = i) fs" by (intro filter_cong) auto
    then have "length (filter (\<lambda>f. fr_key f = key) fs) = users_of i fs" by (simp add: users_of_def)
    moreover have "en_refs (kl_objects kl ! i) = int (users_of i fs)" "0 < users_of i fs"
      using wf_at(2) [OF Some] wf_at(4) [of i] by (auto simp: object_wf_def)
    ultimately show ?thesis using Some by (simp add: Let_def)
  qed
  ultimately show ?thesis by (simp add: s)
qed

theorem registry_holds_the_keys_in_use_witness:
  "locked_keys (fst (contended True)) = {7}"
  using registry_holds_the_keys_in_use [OF contended_reached [of True]] by (simp add: contended_frames)

subsection \<open>Progress\<close>

text \<open>
  What callers must keep to: a thread is in blocks of one key only, and of one block when the locks
  are not reentrant.
\<close>

definition one_key_each :: "bool \<Rightarrow> 'k frame list \<Rightarrow> bool" where
  "one_key_each reentrant fs \<longleftrightarrow>
     single_valued ((\<lambda>f. (fr_thread f, fr_key f)) ` set fs) \<and> (reentrant \<or> distinct (map fr_thread fs))"

definition remaining :: "'k frame list \<Rightarrow> nat" where
  "remaining fs = sum_list (map (\<lambda>f. case fr_phase f of Waiting \<Rightarrow> 3 | Holding \<Rightarrow> 2 | Finished \<Rightarrow> 1) fs)"

lemma remaining_append [simp]: "remaining (as @ bs) = remaining as + remaining bs" "remaining [] = 0"
  "remaining (f # fs) = (case fr_phase f of Waiting \<Rightarrow> 3 | Holding \<Rightarrow> 2 | Finished \<Rightarrow> 1) + remaining fs"
  by (simp_all add: remaining_def)

lemma block_step_remaining: "block_step s s1 \<Longrightarrow> remaining (snd s1) < remaining (snd s)"
  by (induction rule: block_step.induct)
    (erule newest_split; simp add: acquire_block_def give_up_block_def release_block_def leave_block_def set_phase_def)+

lemma one_key_phase: "one_key_each r (as @ f # bs) \<Longrightarrow> one_key_each r (as @ f\<lparr>fr_phase := p\<rparr> # bs)"
  by (simp add: one_key_each_def)

lemma one_key_leave: "one_key_each r (as @ f # bs) \<Longrightarrow> one_key_each r (as @ bs)"
  unfolding one_key_each_def by (auto elim: single_valued_subset [rotated])

lemma block_step_polite:
  assumes "block_step s s1" "one_key_each r (snd s)"
  shows "one_key_each r (snd s1)"
proof -
  have "one_key_each r (on_newest t (set_phase p) fs)" "one_key_each r (on_newest t (\<lambda>f. []) fs)"
    if "newest t fs = Some f" "one_key_each r fs" for t p f and fs :: "'a frame list"
    using that by (auto elim!: newest_split simp: set_phase_def intro: one_key_phase one_key_leave)
  with assms show ?thesis
    by (induction rule: block_step.induct)
      (auto simp: acquire_block_def give_up_block_def release_block_def leave_block_def)
qed

lemma block_can_step:
  assumes wf: "locks_wf s" and polite: "one_key_each (kl_reentrant (fst s)) (snd s)" and some: "snd s \<noteq> []"
  shows "\<exists>s1. block_step s s1"
proof -
  obtain f0 where "f0 \<in> set (snd s)" using some by (cases "snd s") auto
  then obtain f where f: "newest (fr_thread f0) (snd s) = Some f" using thread_has_newest by blast
  obtain as bs where split: "snd s = as @ f # bs" "fr_thread f = fr_thread f0" using newest_split [OF f] by metis
  let ?en = "kl_objects (fst s) ! fr_entry f" and ?r = "kl_reentrant (fst s)"
  have o: "object_wf ?r (snd s) (fr_entry f) ?en" using frame_object [OF wf newest_frame [OF f]] by simp
  show ?thesis
  proof (cases "fr_phase f")
    case Holding
    with f show ?thesis by (blast intro: step_release)
  next
    case Finished
    with f show ?thesis by (blast intro: step_leave)
  next
    case Waiting
    show ?thesis
    proof (cases "can_acquire ?r (fr_thread f0) ?en")
      case True
      with f Waiting show ?thesis by (blast intro: step_acquire)
    next
      case False
      then obtain t where t: "en_owner ?en = Some t" by (auto simp: can_acquire_def)
      then have "holders_of (fr_entry f) (snd s) \<noteq> 0" using o by (auto simp: object_wf_def)
      then obtain h where h: "h \<in> set (snd s)" "fr_entry h = fr_entry f" "fr_phase h = Holding"
        by (auto simp: no_holders)
      then have ht: "fr_thread h = t" using o t by (auto simp: object_wf_def)
      obtain g where g: "newest t (snd s) = Some g" using thread_has_newest [OF h(1)] ht by blast
      obtain cs ds where gs: "snd s = cs @ g # ds" "fr_thread g = t" using newest_split [OF g] by metis
      have "fr_key g = fr_key h"
      proof -
        let ?held = "(\<lambda>f. (fr_thread f, fr_key f)) ` set (snd s)"
        have "(t, fr_key g) \<in> ?held" "(t, fr_key h) \<in> ?held"
          using imageI [OF newest_frame [OF g], of "\<lambda>f. (fr_thread f, fr_key f)"] gs(2)
            imageI [OF h(1), of "\<lambda>f. (fr_thread f, fr_key f)"] ht by auto
        moreover have "single_valued ?held" using polite unfolding one_key_each_def by blast
        ultimately show ?thesis by (rule single_valuedD [rotated])
      qed
      then have ge: "fr_entry g = fr_entry f" using frame_entry_key [OF wf newest_frame [OF g] h(1)] h(2) by simp
      show ?thesis
      proof (cases "fr_phase g")
        case Holding
        with g show ?thesis by (blast intro: step_release)
      next
        case Finished
        with g show ?thesis by (blast intro: step_leave)
      next
        case Waiting
        then have "g \<noteq> h" using h(3) by auto
        have "\<not> distinct (map fr_thread (snd s))"
        proof
          assume "distinct (map fr_thread (snd s))"
          then have "inj_on fr_thread (set (snd s))" by (simp only: distinct_map)
          from inj_onD [OF this _ newest_frame [OF g] h(1)] gs(2) ht \<open>g \<noteq> h\<close> show False by simp
        qed
        then have "?r" using polite unfolding one_key_each_def by blast
        then have "can_acquire ?r t (kl_objects (fst s) ! fr_entry g)" using t ge by (simp add: can_acquire_def)
        with g Waiting show ?thesis by (blast intro: step_acquire)
      qed
    qed
  qed
qed

definition orderly :: "'k lock_state \<Rightarrow> bool" where
  "orderly s \<longleftrightarrow> locks_wf s \<and> one_key_each (kl_reentrant (fst s)) (snd s)"

lemma orderly_step:
  assumes "block_step s s1" "orderly s"
  shows "orderly s1"
  using block_step_wf [OF assms(1)] block_step_polite [OF assms(1), of "kl_reentrant (fst s)"] keep_reentrant_block [OF assms(1)] assms(2)
  by (simp add: orderly_def)

lemma orderly_drains: "orderly s \<Longrightarrow> \<exists>s1. block_step\<^sup>*\<^sup>* s s1 \<and> orderly s1 \<and> snd s1 = []"
proof (induction "remaining (snd s)" arbitrary: s rule: less_induct)
  case less
  show ?case
  proof (cases "snd s = []")
    case True
    with less.prems show ?thesis by blast
  next
    case False
    with less.prems obtain s1 where s1: "block_step s s1" using block_can_step [of s] unfolding orderly_def by blast
    with less.hyps [OF block_step_remaining] orderly_step less.prems show ?thesis
      by (meson converse_rtranclp_into_rtranclp)
  qed
qed

lemma orderly_run: "(block_step ^^ n) s s1 \<Longrightarrow> orderly s \<Longrightarrow> orderly s1 \<and> n + remaining (snd s1) \<le> remaining (snd s)"
proof (induction n arbitrary: s1)
  case 0
  then show ?case by simp
next
  case (Suc n)
  then obtain s2 where s2: "(block_step ^^ n) s s2" "block_step s2 s1" by auto
  with Suc.IH [OF s2(1) Suc.prems(2)] block_step_remaining [OF s2(2)] orderly_step [OF s2(2)] show ?case by simp
qed

lemma remaining_bound: "remaining fs \<le> 3 * length fs"
  by (induction fs) (auto split: phase.splits)

lemma no_frames_no_keys: "locks_wf s \<Longrightarrow> snd s = [] \<Longrightarrow> locked_keys (fst s) = {}"
  by (auto simp: locks_wf_def locked_keys_def users_of_def)

text \<open>While no thread is in blocks of two keys, every reachable state drains: until all blocks are left some
  thread inside can always move, whatever the order at most three steps for each block are taken, and
  the registry is empty at the end.\<close>

theorem blocks_drain:
  assumes "lock_step\<^sup>*\<^sup>* (new_keyed_locks reentrant, []) s" "one_key_each reentrant (snd s)"
  shows "(\<exists>s1. block_step\<^sup>*\<^sup>* s s1 \<and> snd s1 = [] \<and> locked_keys (fst s1) = {}) \<and>
    (\<forall>n s1. (block_step ^^ n) s s1 \<longrightarrow> n \<le> 3 * length (snd s) \<and> (snd s1 = [] \<or> (\<exists>s2. block_step s1 s2)))"
proof -
  have o: "orderly s" using lock_steps_wf [OF assms(1)] keep_reentrant [OF assms(1)] assms(2) by (simp add: orderly_def)
  have "n \<le> 3 * length (snd s) \<and> (snd s1 = [] \<or> (\<exists>s2. block_step s1 s2))" if run: "(block_step ^^ n) s s1" for n s1
    using orderly_run [OF run o] remaining_bound [of "snd s"] block_can_step [of s1] by (auto simp: orderly_def)
  moreover have "\<exists>s1. block_step\<^sup>*\<^sup>* s s1 \<and> snd s1 = [] \<and> locked_keys (fst s1) = {}"
    using orderly_drains [OF o] no_frames_no_keys by (metis orderly_def)
  ultimately show ?thesis by blast
qed

theorem blocks_drain_witness: "\<exists>s1. block_step\<^sup>*\<^sup>* (contended True) s1 \<and> snd s1 = []"
  using blocks_drain [OF contended_reached [of True]]
  by (auto simp: contended_frames one_key_each_def single_valued_def)

subsection \<open>Two keys\<close>

text \<open>Why the rule: two threads that each hold one key and wait for the other's stand still for good.\<close>

definition crossed :: "nat lock_state" where
  "crossed =
     (let f = (\<lambda>t k. \<lparr>fr_thread = t, fr_key = k, fr_entry = k, fr_timeout = None, fr_phase = Waiting\<rparr>)
      in enter_block 2 0 None (enter_block 1 1 None
           (acquire_block 2 (f 2 1) (enter_block 2 1 None
             (acquire_block 1 (f 1 0) (enter_block 1 0 None (new_keyed_locks True, [])))))))"

lemma crossed_state:
  "snd crossed =
     [\<lparr>fr_thread = 2, fr_key = 0, fr_entry = 0, fr_timeout = None, fr_phase = Waiting\<rparr>,
      \<lparr>fr_thread = 1, fr_key = 1, fr_entry = 1, fr_timeout = None, fr_phase = Waiting\<rparr>,
      \<lparr>fr_thread = 2, fr_key = 1, fr_entry = 1, fr_timeout = None, fr_phase = Holding\<rparr>,
      \<lparr>fr_thread = 1, fr_key = 0, fr_entry = 0, fr_timeout = None, fr_phase = Holding\<rparr>]"
  "map en_owner (kl_objects (fst crossed)) = [Some 1, Some 2]"
  by (simp_all add: crossed_def acquire_block_def enter_block_def check_out_def new_keyed_locks_def set_phase_def add_refs_def
      take_lock_def new_entry_def Let_def)

lemma two_keys_deadlock: "\<not> block_step crossed s1"
proof
  assume "block_step crossed s1"
  moreover have "newest t (snd crossed) = Some f \<Longrightarrow> fr_phase f = Waiting \<and> fr_timeout f = None \<and> en_owner (kl_objects (fst crossed) ! fr_entry f) \<noteq> None
      \<and> en_owner (kl_objects (fst crossed) ! fr_entry f) \<noteq> Some t" for t f
    using crossed_state(2) by (auto simp: newest_def crossed_state(1) split: if_splits simp: map_eq_Cons_conv)
  ultimately show False
    by (cases rule: block_step.cases) (fastforce simp: can_acquire_def)+
qed

end
