(* ===== verification/RiskCore.thy ===== *)
theory RiskCore
  imports SandboxDB
begin

text \<open>
  The shared risk core (\<open>services/risk\<close>: \<open>models.py\<close>, \<open>position.py\<close>, \<open>aggregate.py\<close>,
  \<open>adapters.py\<close>): the normalisation of loose input, the stop, target and trailing stop of one position,
  the combined limits of a set of positions.  Everything is a pure function of its arguments.

  Floats are exact rationals, with infinities and NaN as values of loose input only: the typed records
  hold finite numbers, which is what the normalisation lets through.  Detail lines are constructors of
  the numbers they print.
\<close>

subsection \<open>Loose values\<close>

datatype loose = Lnone | Lbool bool | Lint int | Lnum rat | Linfinite | Lnan | Ltext string

text \<open>A dictionary's \<open>get\<close>: a missing key is None.\<close>

type_synonym loose_dict = "string \<Rightarrow> loose"

text \<open>Digits with single underscores between them: their value, their number and the rest.\<close>

fun read_digits :: "int \<Rightarrow> nat \<Rightarrow> string \<Rightarrow> int \<times> nat \<times> string" where
  "read_digits acc n [] = (acc, n, [])"
| "read_digits acc n (c # cs) =
     (case digit_value c of
        Some d \<Rightarrow> read_digits (10 * acc + d) (Suc n) cs
      | None \<Rightarrow>
          if c = CHR ''_'' \<and> n > 0 \<and> (case cs of d # _ \<Rightarrow> digit_value d \<noteq> None | [] \<Rightarrow> False)
          then read_digits acc n cs else (acc, n, c # cs))"

definition read_sign :: "string \<Rightarrow> rat \<times> string" where
  "read_sign s =
     (case s of
        c # cs \<Rightarrow> if c = CHR ''-'' then (-1, cs) else if c = CHR ''+'' then (1, cs) else (1, s)
      | [] \<Rightarrow> (1, []))"

definition read_exponent :: "string \<Rightarrow> rat option" where
  "read_exponent s =
     (case s of
        [] \<Rightarrow> Some 1
      | c # cs \<Rightarrow>
          if c = CHR ''e'' \<or> c = CHR ''E'' then
            (case read_sign cs of (sg, ds) \<Rightarrow>
               case read_digits 0 0 ds of (k, n, rest) \<Rightarrow>
                 if n = 0 \<or> rest \<noteq> [] then None
                 else Some (if sg < 0 then 1 / 10 ^ nat k else 10 ^ nat k))
          else None)"

text \<open>
  \<open>float(text)\<close>, None for text that is no number or no finite one (beyond the largest double): the
  callers treat both alike.
\<close>

definition text_number :: "string \<Rightarrow> rat option" where
  "text_number text =
     (case read_sign (strip text) of (sg, s) \<Rightarrow>
        case read_digits 0 0 s of (whole, n, s1) \<Rightarrow>
          case (case s1 of c # cs \<Rightarrow> if c = CHR ''.'' then read_digits 0 0 cs else (0, 0, s1) | [] \<Rightarrow> (0, 0, [])) of
            (part, m, s2) \<Rightarrow>
              if n = 0 \<and> m = 0 then None
              else case read_exponent s2 of
                None \<Rightarrow> None
              | Some scale \<Rightarrow>
                  (let v = sg * (of_int whole + of_int part / 10 ^ m) * scale
                   in if \<bar>v\<bar> < 2 ^ 1024 - 2 ^ 970 then Some v else None))"

text \<open>The finite number a loose value stands for; truth values stand for none.\<close>

definition finite_number :: "loose \<Rightarrow> rat option" where
  "finite_number v =
     (case v of Lint i \<Rightarrow> Some (of_int i) | Lnum r \<Rightarrow> Some r | Ltext s \<Rightarrow> text_number s | _ \<Rightarrow> None)"

definition truthy :: "loose \<Rightarrow> bool" where
  "truthy v =
     (case v of Lnone \<Rightarrow> False | Lbool b \<Rightarrow> b | Lint i \<Rightarrow> i \<noteq> 0 | Lnum r \<Rightarrow> r \<noteq> 0 | Linfinite \<Rightarrow> True | Lnan \<Rightarrow> True
      | Ltext s \<Rightarrow> s \<noteq> [])"

definition is_price :: "loose \<Rightarrow> bool" where
  "is_price v = (case finite_number v of Some r \<Rightarrow> r > 0 | None \<Rightarrow> False)"

definition as_float :: "loose \<Rightarrow> rat \<Rightarrow> rat" where
  "as_float v dflt = (case finite_number v of Some r \<Rightarrow> r | None \<Rightarrow> dflt)"

definition as_price :: "loose \<Rightarrow> rat option" where
  "as_price v = (case finite_number v of Some r \<Rightarrow> if r > 0 then Some r else None | None \<Rightarrow> None)"

definition optional_float :: "loose \<Rightarrow> rat option" where
  "optional_float v = finite_number v"

text \<open>The same on the typed fields of the records.\<close>

definition usable :: "rat option \<Rightarrow> rat option" where
  "usable v = (case v of Some r \<Rightarrow> if r > 0 then Some r else None | None \<Rightarrow> None)"

definition normalise_side :: "loose \<Rightarrow> action" where
  "normalise_side v =
     (case v of
        Ltext s \<Rightarrow> if str_upper (strip s) \<in> set [''SELL'', ''S'', ''SHORT'', ''-1''] then SELL else BUY
      | Lint i \<Rightarrow> if i = -1 then SELL else BUY
      | _ \<Rightarrow> BUY)"

datatype trail_mode = Continuous | Stepped

definition normalise_trail_mode :: "loose \<Rightarrow> trail_mode" where
  "normalise_trail_mode v =
     (case v of
        Ltext s \<Rightarrow> if str_lower (strip s) \<in> set [''stepped'', ''step'', ''staircase''] then Stepped else Continuous
      | _ \<Rightarrow> Continuous)"

definition stop_from_points :: "action \<Rightarrow> rat \<Rightarrow> rat \<Rightarrow> rat option" where
  "stop_from_points side entry points =
     (if entry \<le> 0 \<or> points \<le> 0 then None
      else usable (Some (case side of BUY \<Rightarrow> entry - points | SELL \<Rightarrow> entry + points)))"

definition target_from_points :: "action \<Rightarrow> rat \<Rightarrow> rat \<Rightarrow> rat option" where
  "target_from_points side entry points =
     (if entry \<le> 0 \<or> points \<le> 0 then None
      else usable (Some (case side of BUY \<Rightarrow> entry + points | SELL \<Rightarrow> entry - points)))"

definition side_from_quantity :: "rat \<Rightarrow> action" where
  "side_from_quantity q = (if q < 0 then SELL else BUY)"

definition DEFAULT_TRAIL_TRIGGER :: rat where
  "DEFAULT_TRAIL_TRIGGER = 1"

text \<open>The first of the names whose value is not None.\<close>

definition first_of :: "loose_dict \<Rightarrow> string list \<Rightarrow> loose" where
  "first_of st names = (case find (\<lambda>n. st n \<noteq> Lnone) names of Some n \<Rightarrow> st n | None \<Rightarrow> Lnone)"

text \<open>\<open>str(value or "")\<close>: identifiers are texts or whole numbers.\<close>

fun nat_text :: "nat \<Rightarrow> string" where
  "nat_text n = (if n < 10 then [char_of (48 + n)] else nat_text (n div 10) @ [char_of (48 + n mod 10)])"

definition identifier_text :: "loose \<Rightarrow> string" where
  "identifier_text v =
     (case v of
        Ltext s \<Rightarrow> s
      | Lint i \<Rightarrow> if i = 0 then [] else if i < 0 then CHR ''-'' # nat_text (nat (- i)) else nat_text (nat i)
      | _ \<Rightarrow> [])"

subsection \<open>One position\<close>

record position_risk =
  pr_identifier :: string
  pr_side :: action
  pr_entry_price :: rat
  pr_quantity :: rat
  pr_stop_price :: "rat option"
  pr_initial_stop_price :: "rat option"
  pr_target_price :: "rat option"
  pr_trailing_enabled :: bool
  pr_trail_step :: rat
  pr_trail_trigger :: rat
  pr_trail_mode :: trail_mode
  pr_highest_price :: "rat option"
  pr_lowest_price :: "rat option"

definition effective_stop :: "position_risk \<Rightarrow> rat option" where
  "effective_stop r =
     (case usable (pr_stop_price r) of Some s \<Rightarrow> Some s | None \<Rightarrow> usable (pr_initial_stop_price r))"

definition position_risk_from_state :: "loose_dict \<Rightarrow> position_risk" where
  "position_risk_from_state st =
     (let entry = as_float (first_of st [''entry_price'', ''entry'', ''entry_avg'', ''average_price'']) 0;
          side = normalise_side (first_of st [''side'', ''action'', ''position'']);
          stop = as_price (first_of st [''stop_price'', ''current_sl'', ''currentSl'']);
          initial = as_price (first_of st [''initial_stop_price'', ''initial_sl'', ''initialSl'']);
          target = as_price (first_of st [''target_price'', ''target'', ''targetPrice'']);
          initial1 = (if stop = None \<and> initial = None
                      then stop_from_points side entry (as_float (first_of st [''sl_points'', ''sl_pts'']) 0) else initial);
          target1 = (if target = None
                     then target_from_points side entry (as_float (first_of st [''target_points'', ''target_pts'']) 0) else target);
          trigger = first_of st [''trail_trigger'', ''trailing_trigger'', ''trail_x'']
      in \<lparr> pr_identifier = identifier_text (first_of st [''identifier'', ''id'', ''symbol'']),
           pr_side = side, pr_entry_price = entry,
           pr_quantity = \<bar>as_float (first_of st [''quantity'', ''qty'']) 0\<bar>,
           pr_stop_price = stop, pr_initial_stop_price = initial1, pr_target_price = target1,
           pr_trailing_enabled = truthy (first_of st [''trailing_enabled'', ''trailingEnabled'']),
           pr_trail_step = as_float (first_of st [''trail_step'', ''trailing_step'', ''trailingStep'', ''trail_y'']) 0,
           pr_trail_trigger = (if trigger \<noteq> Lnone then as_float trigger DEFAULT_TRAIL_TRIGGER else DEFAULT_TRAIL_TRIGGER),
           pr_trail_mode = normalise_trail_mode (first_of st [''trail_mode'', ''trailMode'']),
           pr_highest_price = as_price (first_of st [''highest_price'', ''highestPrice'']),
           pr_lowest_price = as_price (first_of st [''lowest_price'', ''lowestPrice'']) \<rparr>)"

datatype breach_reason = Stop_breach | Target_breach | Combined_stop | Combined_target | Lock_profit

datatype position_detail =
    No_detail
  | Tick_ignored
  | Stop_hit action rat rat
  | Target_hit action rat rat
  | Trail_moved "rat option" rat rat

record position_decision =
  pd_identifier :: string
  pd_evaluated :: bool
  pd_stop_price :: "rat option"
  pd_target_price :: "rat option"
  pd_highest_price :: "rat option"
  pd_lowest_price :: "rat option"
  pd_pnl :: rat
  pd_reason :: "breach_reason option"
  pd_detail :: position_detail
  pd_stop_moved :: bool
  pd_trail_armed :: bool

definition pd_breached :: "position_decision \<Rightarrow> bool" where
  "pd_breached d \<longleftrightarrow> pd_reason d \<noteq> None"

text \<open>The level the trail wants, before the clamp and the ratchet.\<close>

definition trail_candidate :: "position_risk \<Rightarrow> rat \<Rightarrow> rat option \<Rightarrow> rat option \<Rightarrow> rat \<Rightarrow> rat option" where
  "trail_candidate r favourable highest lowest trigger =
     (case pr_trail_mode r of
        Stepped \<Rightarrow>
          if trigger \<le> 0 then None
          else (case (case usable (pr_initial_stop_price r) of Some a \<Rightarrow> Some a | None \<Rightarrow> effective_stop r) of
                  None \<Rightarrow> None
                | Some anchor \<Rightarrow>
                    (let steps = \<lfloor>favourable / trigger\<rfloor> in
                     if steps \<le> 0 then None
                     else (let advance = of_int steps * pr_trail_step r
                           in Some (case pr_side r of BUY \<Rightarrow> anchor + advance | SELL \<Rightarrow> anchor - advance))))
      | Continuous \<Rightarrow>
          (case pr_side r of
             BUY \<Rightarrow> map_option (\<lambda>h. h - pr_trail_step r) highest
           | SELL \<Rightarrow> map_option (\<lambda>l. l + pr_trail_step r) lowest))"

text \<open>Never a stop beyond the best price the position has seen.\<close>

definition clamp_to_peak :: "rat \<Rightarrow> action \<Rightarrow> rat option \<Rightarrow> rat option \<Rightarrow> rat" where
  "clamp_to_peak candidate side highest lowest =
     (case side of
        BUY \<Rightarrow> (case highest of Some h \<Rightarrow> min candidate h | None \<Rightarrow> candidate)
      | SELL \<Rightarrow> (case lowest of Some l \<Rightarrow> max candidate l | None \<Rightarrow> candidate))"

definition ratchet :: "action \<Rightarrow> rat option \<Rightarrow> rat \<Rightarrow> rat option" where
  "ratchet side stop candidate =
     (case stop of
        None \<Rightarrow> Some candidate
      | Some s \<Rightarrow> if (case side of BUY \<Rightarrow> candidate > s | SELL \<Rightarrow> candidate < s) then Some candidate else stop)"

definition evaluate_position :: "position_risk \<Rightarrow> loose \<Rightarrow> position_decision" where
  "evaluate_position r last_price =
     (case as_price last_price of
        None \<Rightarrow>
          \<lparr> pd_identifier = pr_identifier r, pd_evaluated = False, pd_stop_price = effective_stop r,
            pd_target_price = usable (pr_target_price r), pd_highest_price = pr_highest_price r,
            pd_lowest_price = pr_lowest_price r, pd_pnl = 0, pd_reason = None, pd_detail = Tick_ignored,
            pd_stop_moved = False, pd_trail_armed = False \<rparr>
      | Some ltp \<Rightarrow>
          (let side = pr_side r;
               entry = usable (Some (pr_entry_price r));
               seed = (case entry of Some e \<Rightarrow> e | None \<Rightarrow> ltp);
               highest = (if side = BUY
                          then Some (max (case pr_highest_price r of Some h \<Rightarrow> h | None \<Rightarrow> seed) ltp) else pr_highest_price r);
               lowest = (if side = BUY then pr_lowest_price r
                         else Some (min (case pr_lowest_price r of Some l \<Rightarrow> l | None \<Rightarrow> seed) ltp));
               favourable = (case (entry, if side = BUY then highest else lowest) of
                               (Some e, Some best) \<Rightarrow> max 0 (if side = BUY then best - e else e - best)
                             | _ \<Rightarrow> 0);
               original = effective_stop r;
               trigger = max 0 (pr_trail_trigger r);
               trail_armed = (pr_trailing_enabled r \<and> pr_trail_step r > 0 \<and> entry \<noteq> None \<and>
                              favourable > 0 \<and> favourable \<ge> trigger);
               stop = (if trail_armed
                       then (case trail_candidate r favourable highest lowest trigger of
                               None \<Rightarrow> original
                             | Some c \<Rightarrow> ratchet side original (clamp_to_peak c side highest lowest))
                       else original);
               stop_moved = (stop \<noteq> original);
               target = usable (pr_target_price r);
               stop_hit = (case stop of None \<Rightarrow> False | Some s \<Rightarrow> if side = BUY then ltp \<le> s else ltp \<ge> s);
               target_hit = (case target of None \<Rightarrow> False | Some t \<Rightarrow> if side = BUY then ltp \<ge> t else ltp \<le> t)
           in \<lparr> pd_identifier = pr_identifier r, pd_evaluated = True, pd_stop_price = stop, pd_target_price = target,
                pd_highest_price = highest, pd_lowest_price = lowest,
                pd_pnl = (case entry of
                            None \<Rightarrow> 0
                          | Some e \<Rightarrow> (if side = BUY then ltp - e else e - ltp) * pr_quantity r),
                pd_reason = (if stop_hit then Some Stop_breach else if target_hit then Some Target_breach else None),
                pd_detail = (if stop_hit then Stop_hit side ltp (the stop)
                             else if target_hit then Target_hit side ltp (the target)
                             else if stop_moved then
                               (case stop of None \<Rightarrow> No_detail | Some s \<Rightarrow> Trail_moved original s favourable)
                             else No_detail),
                pd_stop_moved = stop_moved, pd_trail_armed = trail_armed \<rparr>))"

definition evaluate_position_state :: "loose_dict \<Rightarrow> loose \<Rightarrow> position_decision" where
  "evaluate_position_state st last_price = evaluate_position (position_risk_from_state st) last_price"

subsection \<open>Checking a configuration\<close>

datatype problem =
    Entry_missing
  | Stop_beyond action rat rat
  | Target_beyond action rat rat
  | Trail_step_missing
  | Trail_trigger_missing
  | Step_exceeds_trigger

definition validate_position :: "position_risk \<Rightarrow> loose \<Rightarrow> problem list" where
  "validate_position r last_price =
     (let side = pr_side r;
          entry = usable (Some (pr_entry_price r));
          reference = (case as_price last_price of Some p \<Rightarrow> Some p | None \<Rightarrow> entry);
          stop = effective_stop r;
          target = usable (pr_target_price r)
      in (if entry = None then [Entry_missing] else []) @
         (case (stop, reference) of
            (Some s, Some p) \<Rightarrow> if (case side of BUY \<Rightarrow> s \<ge> p | SELL \<Rightarrow> s \<le> p) then [Stop_beyond side s p] else []
          | _ \<Rightarrow> []) @
         (case (target, reference) of
            (Some t, Some p) \<Rightarrow> if (case side of BUY \<Rightarrow> t \<le> p | SELL \<Rightarrow> t \<ge> p) then [Target_beyond side t p] else []
          | _ \<Rightarrow> []) @
         (if pr_trailing_enabled r \<and> \<not> pr_trail_step r > 0 then [Trail_step_missing] else []) @
         (if pr_trailing_enabled r \<and> pr_trail_mode r = Stepped \<and> \<not> pr_trail_trigger r > 0
          then [Trail_trigger_missing] else []) @
         (if pr_trailing_enabled r \<and> pr_trail_mode r = Stepped \<and> pr_trail_step r > pr_trail_trigger r \<and> pr_trail_trigger r > 0
          then [Step_exceeds_trigger] else []))"

subsection \<open>The mark to market of a set\<close>

record position_pnl_row =
  pp_side :: action
  pp_entry_price :: rat
  pp_quantity :: rat
  pp_last_price :: "rat option"
  pp_closed :: bool
  pp_realized :: rat

definition position_pnl_from_state :: "loose_dict \<Rightarrow> position_pnl_row" where
  "position_pnl_from_state st =
     (let quantity = as_float (first_of st [''quantity'', ''qty'']) 0;
          side_value = first_of st [''side'', ''action'']
      in \<lparr> pp_side = (if truthy side_value then normalise_side side_value else side_from_quantity quantity),
           pp_entry_price = as_float (first_of st [''entry_price'', ''average_price'']) 0,
           pp_quantity = \<bar>quantity\<bar>,
           pp_last_price = as_price (first_of st [''last_price'', ''ltp'']),
           pp_closed = (truthy (st ''closed'') \<or>
                        (case st ''status'' of Ltext s \<Rightarrow> str_lower s = ''closed'' | _ \<Rightarrow> False)),
           pp_realized = as_float (first_of st [''realized_pnl'', ''realized'']) 0 \<rparr>)"

definition position_pnl :: "action \<Rightarrow> rat \<Rightarrow> rat \<Rightarrow> rat option \<Rightarrow> rat" where
  "position_pnl side entry quantity last_price =
     (case (usable (Some entry), usable last_price) of
        (Some e, Some ltp) \<Rightarrow> (case side of BUY \<Rightarrow> ltp - e | SELL \<Rightarrow> e - ltp) * \<bar>quantity\<bar>
      | _ \<Rightarrow> 0)"

record pnl_summary =
  ps_realized :: rat
  ps_unrealized :: rat
  ps_total :: rat
  ps_priced :: nat
  ps_unpriced :: nat

definition add_position :: "position_pnl_row \<Rightarrow> rat \<times> rat \<times> nat \<times> nat \<Rightarrow> rat \<times> rat \<times> nat \<times> nat" where
  "add_position p acc =
     (case acc of (realized, unrealized, priced, unpriced) \<Rightarrow>
        (let realized1 = realized + pp_realized p in
         if pp_closed p then (realized1, unrealized, priced, unpriced)
         else if usable (pp_last_price p) = None \<or> pp_entry_price p \<le> 0 then (realized1, unrealized, priced, Suc unpriced)
         else (realized1, unrealized + position_pnl (pp_side p) (pp_entry_price p) (pp_quantity p) (pp_last_price p),
               Suc priced, unpriced)))"

definition aggregate_pnl :: "position_pnl_row list \<Rightarrow> pnl_summary" where
  "aggregate_pnl ps =
     (case fold add_position ps (0, 0, 0, 0) of (realized, unrealized, priced, unpriced) \<Rightarrow>
        \<lparr> ps_realized = realized, ps_unrealized = unrealized, ps_total = realized + unrealized,
          ps_priced = priced, ps_unpriced = unpriced \<rparr>)"

subsection \<open>Combined limits\<close>

record aggregate_risk =
  ar_combined_stoploss :: "rat option"
  ar_combined_target :: "rat option"
  ar_lock_profit_at :: "rat option"
  ar_lock_profit_floor :: "rat option"
  ar_lock_trail_step :: "rat option"
  ar_lock_armed :: bool
  ar_lock_floor :: "rat option"
  ar_peak_pnl :: rat
  ar_trough_pnl :: rat
  ar_stop_bypassed :: bool

definition aggregate_risk_from_state :: "loose_dict \<Rightarrow> aggregate_risk" where
  "aggregate_risk_from_state st =
     \<lparr> ar_combined_stoploss = optional_float (first_of st [''combined_stoploss'', ''overall_sl_mtm'', ''max_loss'']),
       ar_combined_target = optional_float (first_of st [''combined_target'', ''overall_target_mtm'', ''max_profit'']),
       ar_lock_profit_at = optional_float (first_of st [''lock_profit_at'', ''if_profit_reaches'']),
       ar_lock_profit_floor = optional_float (first_of st [''lock_profit_floor'', ''lock_profit'']),
       ar_lock_trail_step = optional_float (first_of st [''lock_trail_step'', ''trail_step'']),
       ar_lock_armed = truthy (st ''lock_armed''),
       ar_lock_floor = optional_float (st ''lock_floor''),
       ar_peak_pnl = as_float (first_of st [''peak_pnl'', ''pnl_peak'']) 0,
       ar_trough_pnl = as_float (first_of st [''trough_pnl'', ''pnl_trough'']) 0,
       ar_stop_bypassed = truthy (first_of st [''stop_bypassed'', ''trail_to_entry_active'']) \<rparr>"

datatype aggregate_detail =
    Quiet
  | Floor_above_threshold rat rat
  | Floor_hit rat rat
  | Combined_stop_hit rat rat
  | Combined_target_hit rat rat
  | Lock_armed rat rat
  | Floor_raised rat rat

record aggregate_decision =
  ad_total :: rat
  ad_realized :: rat
  ad_unrealized :: rat
  ad_peak :: rat
  ad_trough :: rat
  ad_lock_armed :: bool
  ad_lock_floor :: "rat option"
  ad_lock_armed_now :: bool
  ad_lock_floor_raised :: bool
  ad_reason :: "breach_reason option"
  ad_detail :: aggregate_detail

text \<open>The floor: the configured one, whatever it is already, and for a trailing lock the peak less the give back.\<close>

definition next_floor :: "aggregate_risk \<Rightarrow> rat \<Rightarrow> rat" where
  "next_floor r peak =
     (let base = (case ar_lock_profit_floor r of Some f \<Rightarrow> f | None \<Rightarrow> 0);
          kept = (case ar_lock_floor r of Some f \<Rightarrow> max base f | None \<Rightarrow> base)
      in case ar_lock_trail_step r of
           Some step \<Rightarrow> if step > 0 then max kept (peak - step) else kept
         | None \<Rightarrow> kept)"

definition evaluate_aggregate :: "aggregate_risk \<Rightarrow> rat \<Rightarrow> rat \<Rightarrow> aggregate_decision" where
  "evaluate_aggregate r realized unrealized =
     (let total = realized + unrealized;
          peak = max (ar_peak_pnl r) total;
          trough = min (ar_trough_pnl r) total;
          armed_now = (case ar_lock_profit_at r of Some limit \<Rightarrow> \<not> ar_lock_armed r \<and> total \<ge> limit | None \<Rightarrow> False);
          lock_armed = (ar_lock_armed r \<or> armed_now);
          holds = (ar_lock_profit_at r \<noteq> None \<and> lock_armed);
          lock_floor = (if holds then Some (next_floor r peak) else ar_lock_floor r);
          floor_raised = (holds \<and> \<not> armed_now \<and>
                          (case ar_lock_floor r of Some f \<Rightarrow> next_floor r peak > f | None \<Rightarrow> False));
          decide = (\<lambda>reason detail.
            \<lparr> ad_total = total, ad_realized = realized, ad_unrealized = unrealized, ad_peak = peak, ad_trough = trough,
              ad_lock_armed = lock_armed, ad_lock_floor = lock_floor, ad_lock_armed_now = armed_now,
              ad_lock_floor_raised = floor_raised, ad_reason = reason, ad_detail = detail \<rparr>)
      in if holds \<and> total \<le> next_floor r peak then
           decide (Some Lock_profit)
             (if armed_now \<and> next_floor r peak > the (ar_lock_profit_at r)
              then Floor_above_threshold (next_floor r peak) (the (ar_lock_profit_at r))
              else Floor_hit total (next_floor r peak))
         else if \<not> ar_stop_bypassed r \<and> (case ar_combined_stoploss r of Some l \<Rightarrow> total \<le> - \<bar>l\<bar> | None \<Rightarrow> False) then
           decide (Some Combined_stop) (Combined_stop_hit total (- \<bar>the (ar_combined_stoploss r)\<bar>))
         else if (case ar_combined_target r of Some t \<Rightarrow> total \<ge> t | None \<Rightarrow> False) then
           decide (Some Combined_target) (Combined_target_hit total (the (ar_combined_target r)))
         else decide None
           (if armed_now then Lock_armed total (next_floor r peak)
            else if floor_raised then Floor_raised (next_floor r peak) peak
            else Quiet))"

definition evaluate_aggregate_state :: "loose_dict \<Rightarrow> rat \<Rightarrow> rat \<Rightarrow> aggregate_decision" where
  "evaluate_aggregate_state st = evaluate_aggregate (aggregate_risk_from_state st)"

subsection \<open>Trail to entry\<close>

record stop_move =
  sm_identifier :: string
  sm_previous_stop :: "rat option"
  sm_new_stop :: rat

datatype entry_move = Move stop_move | Not_improving string | Through_price string | No_entry string

text \<open>What becomes of one position's stop; the positions excluded are passed over.\<close>

definition move_to_entry :: "(string \<Rightarrow> loose) \<Rightarrow> position_risk \<Rightarrow> entry_move" where
  "move_to_entry last_prices r =
     (let entry = pr_entry_price r; current = effective_stop r; side = pr_side r in
      if entry \<le> 0 then No_entry (pr_identifier r)
      else if (case current of Some c \<Rightarrow> (case side of BUY \<Rightarrow> entry \<le> c | SELL \<Rightarrow> entry \<ge> c) | None \<Rightarrow> False)
      then Not_improving (pr_identifier r)
      else if (case as_price (last_prices (pr_identifier r)) of
                 Some p \<Rightarrow> (case side of BUY \<Rightarrow> entry \<ge> p | SELL \<Rightarrow> entry \<le> p) | None \<Rightarrow> False)
      then Through_price (pr_identifier r)
      else Move \<lparr>sm_identifier = pr_identifier r, sm_previous_stop = current, sm_new_stop = entry\<rparr>)"

record trail_to_entry_decision =
  te_moves :: "stop_move list"
  te_not_improving :: "string list"
  te_through_price :: "string list"
  te_no_entry :: "string list"

definition trail_stops_to_entry :: "position_risk list \<Rightarrow> string list \<Rightarrow> (string \<Rightarrow> loose) \<Rightarrow> trail_to_entry_decision" where
  "trail_stops_to_entry rs excluded last_prices =
     (let ms = map (move_to_entry last_prices) (filter (\<lambda>r. pr_identifier r \<notin> set excluded) rs)
      in \<lparr> te_moves = List.map_filter (\<lambda>m. case m of Move s \<Rightarrow> Some s | _ \<Rightarrow> None) ms,
           te_not_improving = List.map_filter (\<lambda>m. case m of Not_improving i \<Rightarrow> Some i | _ \<Rightarrow> None) ms,
           te_through_price = List.map_filter (\<lambda>m. case m of Through_price i \<Rightarrow> Some i | _ \<Rightarrow> None) ms,
           te_no_entry = List.map_filter (\<lambda>m. case m of No_entry i \<Rightarrow> Some i | _ \<Rightarrow> None) ms \<rparr>)"

subsection \<open>The legacy shape\<close>

record trail_state =
  ts_highest_price :: loose
  ts_lowest_price :: loose
  ts_current_sl :: loose
  ts_reason :: "breach_reason option"

definition loose_of :: "rat option \<Rightarrow> loose" where
  "loose_of v = (case v of Some r \<Rightarrow> Lnum r | None \<Rightarrow> Lnone)"

definition core_evaluate_trail :: "loose_dict \<Rightarrow> loose \<Rightarrow> trail_state" where
  "core_evaluate_trail st last_price =
     (let d = evaluate_position (position_risk_from_state st) last_price in
      if \<not> pd_evaluated d then
        \<lparr> ts_highest_price = st ''highest_price'', ts_lowest_price = st ''lowest_price'',
          ts_current_sl = st ''current_sl'', ts_reason = None \<rparr>
      else
        \<lparr> ts_highest_price = loose_of (pd_highest_price d), ts_lowest_price = loose_of (pd_lowest_price d),
          ts_current_sl = loose_of (pd_stop_price d), ts_reason = pd_reason d \<rparr>)"

end
