(* ===== verification/RiskLaws.thy ===== *)
theory RiskLaws
  imports RiskCore
begin

text \<open>
  What the risk core guarantees of stops, targets and trails: over any run of ticks the trailing stop is
  a function of the best price seen, stops only tighten, and a rule fires exactly when its level is
  reached.
\<close>

subsection \<open>Prices\<close>

lemma usable_Some [simp]: "usable (Some r) = (if r > 0 then Some r else None)"
  by (simp add: usable_def)

lemma usable_None [simp]: "usable None = None"
  by (simp add: usable_def)

lemma usable_pos: "usable v = Some r \<Longrightarrow> r > 0 \<and> v = Some r"
  by (auto simp: usable_def split: option.splits if_splits)

lemma as_price_Lnum [simp]: "as_price (Lnum r) = (if r > 0 then Some r else None)"
  by (simp add: as_price_def finite_number_def)

lemma as_price_pos: "as_price v = Some r \<Longrightarrow> r > 0"
  by (auto simp: as_price_def split: option.splits if_splits)

lemma effective_stop_pos: "effective_stop r = Some s \<Longrightarrow> s > 0"
  by (auto simp: effective_stop_def dest: usable_pos split: option.splits)

subsection \<open>Better and tighter\<close>

text \<open>
  A price is better when the position gains more at it; a stop is tighter when it is nearer to the better
  prices.  For a long position both mean higher, for a short one lower.
\<close>

definition beats :: "action \<Rightarrow> rat \<Rightarrow> rat \<Rightarrow> bool" where
  "beats side a b \<longleftrightarrow> (case side of BUY \<Rightarrow> a \<ge> b | SELL \<Rightarrow> a \<le> b)"

definition better :: "action \<Rightarrow> rat \<Rightarrow> rat \<Rightarrow> rat" where
  "better side a b = (case side of BUY \<Rightarrow> max a b | SELL \<Rightarrow> min a b)"

definition best :: "action \<Rightarrow> rat list \<Rightarrow> rat \<Rightarrow> rat" where
  "best side ps seed = fold (\<lambda>p b. better side b p) ps seed"

definition gain_at :: "action \<Rightarrow> rat \<Rightarrow> rat \<Rightarrow> rat" where
  "gain_at side entry p = (case side of BUY \<Rightarrow> p - entry | SELL \<Rightarrow> entry - p)"

lemma beats_refl [simp]: "beats side a a"
  by (simp add: beats_def split: action.split)

lemma beats_trans: "beats side a b \<Longrightarrow> beats side b c \<Longrightarrow> beats side a c"
  by (auto simp: beats_def split: action.splits)

lemma beats_antisym: "beats side a b \<Longrightarrow> beats side b a \<Longrightarrow> a = b"
  by (auto simp: beats_def split: action.splits)

lemma better_beats [simp]: "beats side (better side a b) a" "beats side (better side a b) b"
  by (simp_all add: beats_def better_def split: action.split)

lemma best_snoc [simp]: "best side (ps @ [p]) seed = better side (best side ps seed) p" "best side [] seed = seed"
  by (simp_all add: best_def)

subsection \<open>The level of the trail\<close>

text \<open>The extreme on the position's own side, seeded from the entry.\<close>

definition seed_price :: "position_risk \<Rightarrow> rat" where
  "seed_price r =
     (case (case pr_side r of BUY \<Rightarrow> pr_highest_price r | SELL \<Rightarrow> pr_lowest_price r) of
        Some p \<Rightarrow> p | None \<Rightarrow> pr_entry_price r)"

definition trail_level :: "position_risk \<Rightarrow> rat \<Rightarrow> rat option" where
  "trail_level r b =
     (let favourable = max 0 (gain_at (pr_side r) (pr_entry_price r) b); trigger = max 0 (pr_trail_trigger r) in
      if pr_trailing_enabled r \<and> pr_trail_step r > 0 \<and> favourable > 0 \<and> favourable \<ge> trigger
      then map_option (\<lambda>c. clamp_to_peak c (pr_side r) (Some b) (Some b)) (trail_candidate r favourable (Some b) (Some b) trigger)
      else None)"

text \<open>The reference: the stop that the best price alone determines.\<close>

definition trailed_stop :: "position_risk \<Rightarrow> rat \<Rightarrow> rat option" where
  "trailed_stop r b =
     (case trail_level r b of None \<Rightarrow> effective_stop r | Some c \<Rightarrow> ratchet (pr_side r) (effective_stop r) c)"

lemma ratchet_tightens: "ratchet side (Some s) c = Some (better side s c)"
  by (auto simp: ratchet_def better_def split: action.splits)

lemma ratchet_None [simp]: "ratchet side None c = Some c"
  by (simp add: ratchet_def)

lemma trail_candidate_side:
  "pr_side r = BUY \<Longrightarrow> trail_candidate r f h l t = trail_candidate r f h l' t"
  "pr_side r = SELL \<Longrightarrow> trail_candidate r f h l t = trail_candidate r f h' l t"
  by (simp_all add: trail_candidate_def split: trail_mode.split)

lemma clamp_side:
  "clamp_to_peak c BUY h l = clamp_to_peak c BUY h l'" "clamp_to_peak c SELL h l = clamp_to_peak c SELL h' l"
  by (simp_all add: clamp_to_peak_def)

lemma map_option_case: "(case map_option f v of None \<Rightarrow> a | Some c \<Rightarrow> g c) = (case v of None \<Rightarrow> a | Some c \<Rightarrow> g (f c))"
  by (cases v) simp_all

lemma case_if_option: "(case if A then v else None of None \<Rightarrow> a | Some c \<Rightarrow> g c) = (if A then case v of None \<Rightarrow> a | Some c \<Rightarrow> g c else a)"
  by simp

lemma evaluate_tick:
  assumes "pr_entry_price r > 0" "p > 0"
  defines "b \<equiv> better (pr_side r) (seed_price r) p"
  defines "d \<equiv> evaluate_position r (Lnum p)"
  shows "pd_evaluated d" "pd_stop_price d = trailed_stop r b" "pd_target_price d = usable (pr_target_price r)"
    "pd_highest_price d = (case pr_side r of BUY \<Rightarrow> Some b | SELL \<Rightarrow> pr_highest_price r)"
    "pd_lowest_price d = (case pr_side r of BUY \<Rightarrow> pr_lowest_price r | SELL \<Rightarrow> Some b)"
proof -
  let ?t = "max 0 (pr_trail_trigger r)" and ?f = "max 0 (gain_at (pr_side r) (pr_entry_price r) b)"
  have "pd_evaluated d \<and> pd_stop_price d = trailed_stop r b \<and> pd_target_price d = usable (pr_target_price r) \<and>
    pd_highest_price d = (case pr_side r of BUY \<Rightarrow> Some b | SELL \<Rightarrow> pr_highest_price r) \<and>
    pd_lowest_price d = (case pr_side r of BUY \<Rightarrow> pr_lowest_price r | SELL \<Rightarrow> Some b)"
  proof (cases "pr_side r")
    case BUY
    have hb: "max (case pr_highest_price r of None \<Rightarrow> pr_entry_price r | Some h \<Rightarrow> h) p = b"
      by (simp add: b_def seed_price_def better_def BUY)
    have f: "max 0 (b - pr_entry_price r) = ?f" by (simp add: gain_at_def BUY)
    have c: "trail_candidate r x (Some b) (pr_lowest_price r) t = trail_candidate r x (Some b) (Some b) t"
      "clamp_to_peak c BUY (Some b) (pr_lowest_price r) = clamp_to_peak c BUY (Some b) (Some b)" for c x t
      using trail_candidate_side(1) [OF BUY] by (blast, simp add: clamp_to_peak_def)
    show ?thesis
      using assms(1,2) unfolding d_def evaluate_position_def Let_def trailed_stop_def trail_level_def map_option_case case_if_option
      by (simp add: BUY hb f c cong: option.case_cong) (auto simp: max_def split: if_splits)
  next
    case SELL
    have hb: "min (case pr_lowest_price r of None \<Rightarrow> pr_entry_price r | Some h \<Rightarrow> h) p = b"
      by (simp add: b_def seed_price_def better_def SELL)
    have f: "max 0 (pr_entry_price r - b) = ?f" by (simp add: gain_at_def SELL)
    have c: "trail_candidate r x (pr_highest_price r) (Some b) t = trail_candidate r x (Some b) (Some b) t"
      "clamp_to_peak c SELL (pr_highest_price r) (Some b) = clamp_to_peak c SELL (Some b) (Some b)" for c x t
      using trail_candidate_side(2) [OF SELL] by (blast, simp add: clamp_to_peak_def)
    show ?thesis
      using assms(1,2) unfolding d_def evaluate_position_def Let_def trailed_stop_def trail_level_def map_option_case case_if_option
      by (simp add: SELL hb f c cong: option.case_cong) (auto simp: max_def split: if_splits)
  qed
  then show "pd_evaluated d" "pd_stop_price d = trailed_stop r b" "pd_target_price d = usable (pr_target_price r)"
    "pd_highest_price d = (case pr_side r of BUY \<Rightarrow> Some b | SELL \<Rightarrow> pr_highest_price r)"
    "pd_lowest_price d = (case pr_side r of BUY \<Rightarrow> pr_lowest_price r | SELL \<Rightarrow> Some b)" by blast+
qed

subsection \<open>The level follows the best price\<close>

lemma beats_gain: "beats side a b \<Longrightarrow> gain_at side e b \<le> gain_at side e a"
  by (auto simp: beats_def gain_at_def split: action.splits)

lemma beats_clamp:
  "beats side c' c \<Longrightarrow> beats side b' b \<Longrightarrow>
   beats side (clamp_to_peak c' side (Some b') (Some b')) (clamp_to_peak c side (Some b) (Some b))"
  by (auto simp: beats_def clamp_to_peak_def split: action.splits)

text \<open>Where the trail stands at a price it stands at every better one, no less tight.\<close>

lemma candidate_follows:
  assumes "trail_candidate r f (Some b) (Some b) t = Some c" "beats (pr_side r) b' b" "f \<le> f'" "0 \<le> t" "pr_trail_step r > 0"
  shows "\<exists>c'. trail_candidate r f' (Some b') (Some b') t = Some c' \<and> beats (pr_side r) c' c"
proof (cases "pr_trail_mode r")
  case Continuous
  with assms(1,2) show ?thesis by (auto simp: trail_candidate_def beats_def split: action.splits)
next
  case Stepped
  let ?a = "case usable (pr_initial_stop_price r) of Some a \<Rightarrow> Some a | None \<Rightarrow> effective_stop r"
  from assms(1) Stepped obtain anchor where t: "t > 0" and a: "?a = Some anchor" and n: "\<lfloor>f / t\<rfloor> > 0"
    and c: "c = (case pr_side r of BUY \<Rightarrow> anchor + of_int \<lfloor>f / t\<rfloor> * pr_trail_step r | SELL \<Rightarrow> anchor - of_int \<lfloor>f / t\<rfloor> * pr_trail_step r)"
    by (auto simp: trail_candidate_def Let_def split: if_splits option.splits)
  have m: "\<lfloor>f / t\<rfloor> \<le> \<lfloor>f' / t\<rfloor>" using assms(3) t by (intro floor_mono) (simp add: divide_right_mono)
  then have "(of_int \<lfloor>f / t\<rfloor> :: rat) * pr_trail_step r \<le> of_int \<lfloor>f' / t\<rfloor> * pr_trail_step r"
    using assms(5) by (intro mult_right_mono) simp_all
  then have "beats (pr_side r)
      (case pr_side r of BUY \<Rightarrow> anchor + of_int \<lfloor>f' / t\<rfloor> * pr_trail_step r | SELL \<Rightarrow> anchor - of_int \<lfloor>f' / t\<rfloor> * pr_trail_step r) c"
    unfolding c by (simp add: beats_def split: action.split)
  moreover have "\<not> \<lfloor>f' / t\<rfloor> \<le> 0" using m n by linarith
  ultimately show ?thesis
    using t Stepped a by (simp add: trail_candidate_def Let_def del: floor_le_zero zero_less_floor)
qed

lemma level_follows:
  assumes "trail_level r b = Some c" "beats (pr_side r) b' b"
  shows "\<exists>c'. trail_level r b' = Some c' \<and> beats (pr_side r) c' c"
proof -
  let ?f = "\<lambda>b. max 0 (gain_at (pr_side r) (pr_entry_price r) b)" and ?t = "max 0 (pr_trail_trigger r)"
  have mono: "?f b \<le> ?f b'" using beats_gain [OF assms(2), of "pr_entry_price r"] by simp
  from assms(1) obtain k where on: "pr_trailing_enabled r" "pr_trail_step r > 0" "?f b > 0" "?f b \<ge> ?t"
    and k: "trail_candidate r (?f b) (Some b) (Some b) ?t = Some k" "c = clamp_to_peak k (pr_side r) (Some b) (Some b)"
    unfolding trail_level_def Let_def by (auto simp only: map_option_eq_Some option.simps split: if_splits)
  from candidate_follows [OF k(1) assms(2) mono _ on(2)] obtain k' where
    k': "trail_candidate r (?f b') (Some b') (Some b') ?t = Some k'" "beats (pr_side r) k' k" by auto
  have "?f b' > 0" "?f b' \<ge> ?t" using mono on by linarith+
  then have "trail_level r b' = Some (clamp_to_peak k' (pr_side r) (Some b') (Some b'))"
    unfolding trail_level_def Let_def using on k'(1) by simp
  then show ?thesis using beats_clamp [OF k'(2) assms(2)] k(2) by auto
qed

subsection \<open>Carrying a decision to the next tick\<close>

definition carry_decision :: "position_risk \<Rightarrow> position_decision \<Rightarrow> position_risk" where
  "carry_decision r d =
     r\<lparr>pr_stop_price := pd_stop_price d, pr_highest_price := pd_highest_price d, pr_lowest_price := pd_lowest_price d\<rparr>"

primrec run_ticks :: "loose list \<Rightarrow> position_risk \<Rightarrow> position_risk" where
  "run_ticks [] r = r"
| "run_ticks (p # ps) r = run_ticks ps (carry_decision r (evaluate_position r p))"

lemma run_ticks_append: "run_ticks (ps @ qs) r = run_ticks qs (run_ticks ps r)"
  by (induction ps arbitrary: r) simp_all

text \<open>A stepped trail counts its steps from the configured stop, which has to be there.\<close>

definition anchored :: "position_risk \<Rightarrow> bool" where
  "anchored r \<longleftrightarrow> pr_trail_mode r = Continuous \<or> usable (pr_initial_stop_price r) \<noteq> None"

lemma carry_simps [simp]:
  "pr_side (carry_decision r d) = pr_side r" "pr_entry_price (carry_decision r d) = pr_entry_price r"
  "pr_trailing_enabled (carry_decision r d) = pr_trailing_enabled r" "pr_trail_step (carry_decision r d) = pr_trail_step r"
  "pr_trail_trigger (carry_decision r d) = pr_trail_trigger r" "pr_trail_mode (carry_decision r d) = pr_trail_mode r"
  "pr_initial_stop_price (carry_decision r d) = pr_initial_stop_price r" "anchored (carry_decision r d) = anchored r"
  "pr_target_price (carry_decision r d) = pr_target_price r"
  by (simp_all add: carry_decision_def anchored_def)

lemma candidate_of_carry: "anchored r \<Longrightarrow> trail_candidate (carry_decision r d) = trail_candidate r"
  by (cases "pr_trail_mode r"; cases "pr_side r") (auto simp: fun_eq_iff trail_candidate_def anchored_def)

lemma level_of_carry: "anchored r \<Longrightarrow> trail_level (carry_decision r d) b = trail_level r b"
  unfolding trail_level_def candidate_of_carry carry_simps ..

text \<open>A trail never stands beyond the best price.\<close>

lemma level_within: "trail_level r b = Some c \<Longrightarrow> beats (pr_side r) b c"
  by (auto simp: trail_level_def Let_def beats_def clamp_to_peak_def split: action.splits if_splits)

lemma effective_of_carry:
  "effective_stop (carry_decision r d) =
     (case usable (pd_stop_price d) of Some s \<Rightarrow> Some s | None \<Rightarrow> usable (pr_initial_stop_price r))"
  by (cases "usable (pd_stop_price d)") (simp_all add: effective_stop_def carry_decision_def)

lemma effective_None: "effective_stop r = None \<Longrightarrow> usable (pr_initial_stop_price r) = None"
  by (auto simp: effective_stop_def split: option.splits)

text \<open>The stop after a tick is as good a starting point for better prices as the stop before it.\<close>

lemma better_beaten: "beats side c' c \<Longrightarrow> better side (better side s c) c' = better side s c'"
  by (auto simp: better_def beats_def split: action.splits)

lemma trailed_stop_again:
  assumes "anchored r" "pd_stop_price d = trailed_stop r b" "beats (pr_side r) b' b" "b > 0"
  shows "trailed_stop (carry_decision r d) b' = trailed_stop r b'"
proof (cases "trail_level r b")
  case None
  have "effective_stop (carry_decision r d) = effective_stop r"
  proof (cases "effective_stop r")
    case (Some s)
    with None assms(2) effective_stop_pos [OF Some] show ?thesis by (simp add: effective_of_carry trailed_stop_def)
  next
    case n: None
    with None assms(2) effective_None [OF n] show ?thesis by (simp add: effective_of_carry trailed_stop_def)
  qed
  then show ?thesis by (cases "trail_level r b'") (simp_all add: trailed_stop_def level_of_carry [OF assms(1)])
next
  case level: (Some c)
  from level_follows [OF level assms(3)] obtain c' where c': "trail_level r b' = Some c'" "beats (pr_side r) c' c" by blast
  have "ratchet (pr_side r) (effective_stop (carry_decision r d)) c' = ratchet (pr_side r) (effective_stop r) c'"
  proof (cases "effective_stop r")
    case None
    with level assms(2) have "effective_stop (carry_decision r d) = usable (Some c)"
      using effective_None [OF None] by (simp add: effective_of_carry trailed_stop_def ratchet_def)
    moreover have "better (pr_side r) c c' = c'" using c'(2) by (auto simp: better_def beats_def split: action.splits)
    ultimately show ?thesis using None by (cases "c > 0") (simp_all add: ratchet_tightens)
  next
    case (Some s)
    have "better (pr_side r) s c > 0"
      using effective_stop_pos [OF Some] level_within [OF level] assms(4)
      by (auto simp: better_def beats_def split: action.splits)
    with level assms(2) Some have "effective_stop (carry_decision r d) = Some (better (pr_side r) s c)"
      by (simp add: effective_of_carry trailed_stop_def ratchet_tightens)
    with Some c'(2) show ?thesis by (simp add: ratchet_tightens better_beaten)
  qed
  then show ?thesis by (simp add: trailed_stop_def level_of_carry [OF assms(1)] c'(1))
qed

subsection \<open>A run of ticks\<close>

lemma seed_of_carry:
  assumes "pr_entry_price r > 0" "p > 0"
  shows "seed_price (carry_decision r (evaluate_position r (Lnum p))) = better (pr_side r) (seed_price r) p"
  using evaluate_tick [OF assms] by (cases "pr_side r") (simp_all add: seed_price_def carry_decision_def)

text \<open>A rule fires exactly when its level is reached; the stop goes before the target.\<close>

lemma decision_reason:
  fixes r
  assumes "as_price v = Some p"
  defines "d \<equiv> evaluate_position r v"
  shows "pd_reason d =
    (if (case pd_stop_price d of None \<Rightarrow> False | Some s \<Rightarrow> beats (pr_side r) s p) then Some Stop_breach
     else if (case pd_target_price d of None \<Rightarrow> False | Some t \<Rightarrow> beats (pr_side r) p t) then Some Target_breach else None)"
proof -
  have side: "(if pr_side r = BUY then p \<le> x else x \<le> p) = beats (pr_side r) x p"
    "(if pr_side r = BUY then x \<le> p else p \<le> x) = beats (pr_side r) p x" for x
    by (cases "pr_side r"; simp add: beats_def)+
  show ?thesis
    unfolding d_def evaluate_position_def Let_def assms(1) option.case position_decision.select_convs side ..
qed

lemma best_pos: "s > 0 \<Longrightarrow> \<forall>p\<in>set ps. p > 0 \<Longrightarrow> best side ps s > 0"
proof (induction ps rule: rev_induct)
  case (snoc p ps)
  then show ?case by (auto simp: better_def split: action.split)
qed simp

lemma run_ticks_state:
  assumes "pr_entry_price r > 0" "anchored r" "seed_price r > 0" "\<forall>p\<in>set ps. p > 0"
  defines "r1 \<equiv> run_ticks (map Lnum ps) r"
  shows "seed_price r1 = best (pr_side r) ps (seed_price r) \<and> pr_side r1 = pr_side r \<and> pr_entry_price r1 = pr_entry_price r \<and>
    anchored r1 \<and> pr_target_price r1 = pr_target_price r \<and>
    (\<forall>b. beats (pr_side r) b (best (pr_side r) ps (seed_price r)) \<longrightarrow> trailed_stop r1 b = trailed_stop r b)"
  using assms(4) unfolding r1_def
proof (induction ps rule: rev_induct)
  case Nil
  then show ?case using assms by simp
next
  case (snoc p ps)
  let ?r = "run_ticks (map Lnum ps) r" and ?b = "best (pr_side r) ps (seed_price r)"
  have p: "p > 0" and pos: "?b > 0" using snoc.prems best_pos [OF assms(3), of ps] by auto
  have ih: "seed_price ?r = ?b" "pr_side ?r = pr_side r" "pr_entry_price ?r = pr_entry_price r" "anchored ?r"
    "pr_target_price ?r = pr_target_price r"
    "\<And>b. beats (pr_side r) b ?b \<Longrightarrow> trailed_stop ?r b = trailed_stop r b"
    using snoc by auto
  let ?d = "evaluate_position ?r (Lnum p)" and ?b1 = "better (pr_side r) ?b p"
  have b1: "?b1 > 0" using p pos by (auto simp: better_def split: action.split)
  have stop: "pd_stop_price ?d = trailed_stop ?r ?b1"
    using evaluate_tick(2) [of ?r p] ih assms(1) p by simp
  have "trailed_stop (carry_decision ?r ?d) b = trailed_stop r b" if "beats (pr_side r) b ?b1" for b
    using trailed_stop_again [OF ih(4) stop _ b1, of b] that ih(2,6) beats_trans [OF that better_beats(1)] by simp
  moreover have "seed_price (carry_decision ?r ?d) = ?b1"
    using seed_of_carry [of ?r p] ih assms(1) p by simp
  ultimately show ?case using ih by (simp add: run_ticks_append)
qed

lemma run_ticks_extreme:
  assumes "pr_entry_price r > 0" "\<forall>p\<in>set ps. p > 0"
  defines "r1 \<equiv> run_ticks (map Lnum ps) r"
  shows "seed_price r1 = best (pr_side r) ps (seed_price r) \<and> pr_side r1 = pr_side r \<and> pr_entry_price r1 = pr_entry_price r"
  using assms(2) unfolding r1_def
proof (induction ps rule: rev_induct)
  case (snoc p ps)
  then show ?case using assms(1) seed_of_carry [of "run_ticks (map Lnum ps) r" p] by (simp add: run_ticks_append)
qed simp

text \<open>C22: for a position with an entry price whose trail is anchored, that is, a continuous trail or a
  stepped one with a usable initial stop, and over any run of ticks with positive prices (a tick
  without one is ignored), the stop in force is the one the best price seen determines: the order
  of the ticks, the ticks in between and a restart from the stored state make no difference. A
  stepped trail without an initial stop is left out because there it fails: it counts its steps
  from the live stop, so each tick at one price moves the stop again.\<close>

theorem trail_is_a_function_of_the_best_price:
  assumes "pr_entry_price r > 0" "anchored r" "seed_price r > 0" "\<forall>p\<in>set (ps @ [p]). p > 0"
  shows "pd_stop_price (evaluate_position (run_ticks (map Lnum ps) r) (Lnum p)) =
    trailed_stop r (best (pr_side r) (ps @ [p]) (seed_price r))"
proof -
  have ps: "\<forall>p\<in>set ps. p > 0" and p: "p > 0" using assms(4) by auto
  note run = run_ticks_state [OF assms(1-3) ps]
  show ?thesis
    using run evaluate_tick(2) [of "run_ticks (map Lnum ps) r" p] assms(1) p by simp
qed

text \<open>A long position bought at 100 with its stop at 90, trailed by 5 once it is 2 in front.\<close>

definition sample_risk :: position_risk where
  "sample_risk =
     \<lparr> pr_identifier = ''a'', pr_side = BUY, pr_entry_price = 100, pr_quantity = 10, pr_stop_price = None,
       pr_initial_stop_price = Some 90, pr_target_price = Some 130, pr_trailing_enabled = True, pr_trail_step = 5,
       pr_trail_trigger = 2, pr_trail_mode = Continuous, pr_highest_price = None, pr_lowest_price = None \<rparr>"

theorem trail_is_a_function_of_the_best_price_witness:
  "pd_stop_price (evaluate_position (run_ticks (map Lnum [101, 110, 103]) sample_risk) (Lnum 107)) = Some 105"
proof -
  have "pd_stop_price (evaluate_position (run_ticks (map Lnum [101, 110, 103]) sample_risk) (Lnum 107)) =
    trailed_stop sample_risk (best (pr_side sample_risk) ([101, 110, 103] @ [107]) (seed_price sample_risk))"
    by (rule trail_is_a_function_of_the_best_price) (simp_all add: sample_risk_def anchored_def seed_price_def)
  also have "\<dots> = Some 105"
    by (simp add: sample_risk_def seed_price_def best_def better_def trailed_stop_def trail_level_def gain_at_def Let_def
        trail_candidate_def clamp_to_peak_def effective_stop_def ratchet_def)
  finally show ?thesis .
qed

subsection \<open>Stops only tighten\<close>

lemma tick_tightens:
  assumes "pr_entry_price r > 0" "p > 0" "effective_stop r = Some s" "seed_price r > 0"
  defines "b \<equiv> better (pr_side r) (seed_price r) p"
  shows "\<exists>s1. effective_stop (carry_decision r (evaluate_position r (Lnum p))) = Some s1 \<and> beats (pr_side r) s1 s \<and>
    (s1 = s \<or> beats (pr_side r) b s1)"
proof -
  let ?d = "evaluate_position r (Lnum p)"
  have s: "s > 0" using effective_stop_pos [OF assms(3)] .
  have b: "b > 0" using assms(2,4) by (auto simp: b_def better_def split: action.split)
  have stop: "pd_stop_price ?d = trailed_stop r b" using evaluate_tick(2) [OF assms(1,2)] by (simp add: b_def)
  show ?thesis
  proof (cases "trail_level r b")
    case None
    with stop s assms(3) show ?thesis by (simp add: effective_of_carry trailed_stop_def)
  next
    case (Some c)
    then have "pd_stop_price ?d = Some (better (pr_side r) s c)"
      using stop assms(3) by (simp add: trailed_stop_def ratchet_tightens)
    moreover have "better (pr_side r) s c > 0" "better (pr_side r) s c = s \<or> beats (pr_side r) b (better (pr_side r) s c)"
      using s b level_within [OF Some] by (auto simp: better_def beats_def split: action.splits)
    ultimately show ?thesis by (simp add: effective_of_carry)
  qed
qed

text \<open>Over any run of ticks a stop only tightens, and a trail never moves it beyond the best price seen.\<close>

theorem stops_only_tighten:
  assumes "pr_entry_price r > 0" "seed_price r > 0" "effective_stop r = Some s" "\<forall>p\<in>set ps. p > 0"
  shows "\<exists>s1. effective_stop (run_ticks (map Lnum ps) r) = Some s1 \<and> beats (pr_side r) s1 s \<and>
    (s1 = s \<or> beats (pr_side r) (best (pr_side r) ps (seed_price r)) s1)"
  using assms(4)
proof (induction ps rule: rev_induct)
  case Nil
  then show ?case using assms(3) by simp
next
  case (snoc p ps)
  let ?r = "run_ticks (map Lnum ps) r" and ?b = "best (pr_side r) ps (seed_price r)"
  have p: "p > 0" and pos: "\<forall>p\<in>set ps. p > 0" "?b > 0" using snoc.prems best_pos [OF assms(2), of ps] by auto
  have same: "seed_price ?r = ?b" "pr_side ?r = pr_side r" "pr_entry_price ?r = pr_entry_price r"
    using run_ticks_extreme [OF assms(1) pos(1)] by simp_all
  from snoc pos obtain s1 where s1: "effective_stop ?r = Some s1" "beats (pr_side r) s1 s" "s1 = s \<or> beats (pr_side r) ?b s1"
    by auto
  have "\<exists>s2. effective_stop (carry_decision ?r (evaluate_position ?r (Lnum p))) = Some s2 \<and> beats (pr_side r) s2 s1 \<and>
      (s2 = s1 \<or> beats (pr_side r) (better (pr_side r) ?b p) s2)"
    using tick_tightens [OF _ p s1(1)] same assms(1) pos(2) by simp
  then obtain s2 where s2: "effective_stop (carry_decision ?r (evaluate_position ?r (Lnum p))) = Some s2"
    "beats (pr_side r) s2 s1" "s2 = s1 \<or> beats (pr_side r) (better (pr_side r) ?b p) s2" by blast
  have "s2 = s \<or> beats (pr_side r) (better (pr_side r) ?b p) s2"
    using s2(3) s1(3) beats_trans [OF better_beats(1)] by blast
  with s2 beats_trans [OF s2(2) s1(2)] show ?case by (simp add: run_ticks_append)
qed

theorem stops_only_tighten_witness:
  "\<exists>s1. effective_stop (run_ticks (map Lnum [101, 110, 103]) sample_risk) = Some s1 \<and> s1 \<ge> 90"
  using stops_only_tighten [of sample_risk 90 "[101, 110, 103]"]
  by (auto simp: sample_risk_def seed_price_def effective_stop_def beats_def)

subsection \<open>A configuration that passes the check\<close>

definition fresh_position :: "position_risk \<Rightarrow> bool" where
  "fresh_position r \<longleftrightarrow> (case pr_side r of BUY \<Rightarrow> pr_highest_price r | SELL \<Rightarrow> pr_lowest_price r) = None"

text \<open>The anchor of a stepped trail is on the losing side of the entry.\<close>

definition anchor_behind_entry :: "position_risk \<Rightarrow> bool" where
  "anchor_behind_entry r \<longleftrightarrow>
     (case (case usable (pr_initial_stop_price r) of Some a \<Rightarrow> Some a | None \<Rightarrow> effective_stop r) of
        None \<Rightarrow> True | Some a \<Rightarrow> beats (pr_side r) (pr_entry_price r) a \<and> a \<noteq> pr_entry_price r)"

text \<open>At the price it was checked at, a trail that passed the check stands strictly behind that price.\<close>

lemma steps_within_favourable:
  fixes f t y :: rat
  assumes "0 < t" "0 \<le> y" "y \<le> t" "0 \<le> f"
  shows "of_int \<lfloor>f / t\<rfloor> * y \<le> f"
proof -
  have "of_int \<lfloor>f / t\<rfloor> * y \<le> (f / t) * y" using assms(2) by (intro mult_right_mono) simp_all
  also have "\<dots> \<le> (f / t) * t" using assms by (intro mult_left_mono) simp_all
  finally show ?thesis using assms(1) by simp
qed

lemma candidate_behind_price:
  assumes "pr_trail_mode r = Stepped \<Longrightarrow> pr_trail_step r \<le> pr_trail_trigger r \<and> anchor_behind_entry r" "pr_trail_step r > 0"
    and "gain_at (pr_side r) (pr_entry_price r) p > 0"
    and c: "trail_candidate r (gain_at (pr_side r) (pr_entry_price r) p) (Some p) (Some p) (max 0 (pr_trail_trigger r)) = Some c"
  shows "beats (pr_side r) p c \<and> c \<noteq> p"
proof (cases "pr_trail_mode r")
  case Continuous
  with c assms(2) show ?thesis by (auto simp: trail_candidate_def beats_def split: action.splits)
next
  case Stepped
  let ?f = "gain_at (pr_side r) (pr_entry_price r) p" and ?t = "max 0 (pr_trail_trigger r)"
  let ?a = "case usable (pr_initial_stop_price r) of Some a \<Rightarrow> Some a | None \<Rightarrow> effective_stop r"
  from c Stepped obtain a where t: "?t > 0" and a: "?a = Some a"
    and ca: "c = (case pr_side r of BUY \<Rightarrow> a + of_int \<lfloor>?f / ?t\<rfloor> * pr_trail_step r | SELL \<Rightarrow> a - of_int \<lfloor>?f / ?t\<rfloor> * pr_trail_step r)"
    by (auto simp: trail_candidate_def Let_def split: if_splits option.splits)
  have "of_int \<lfloor>?f / ?t\<rfloor> * pr_trail_step r \<le> ?f"
    using assms(1) [OF Stepped] assms(2,3) t by (intro steps_within_favourable) auto
  moreover have "beats (pr_side r) (pr_entry_price r) a" "a \<noteq> pr_entry_price r"
    using assms(1) [OF Stepped] a by (simp_all add: anchor_behind_entry_def)
  ultimately show ?thesis unfolding ca by (auto simp: beats_def gain_at_def split: action.splits)
qed

text \<open>A fresh position whose configuration passes the check against a last price does not exit on that
  price: neither its stop nor its target nor a trail that arms there fires.\<close>

theorem checked_configuration_does_not_exit_at_once:
  assumes valid: "validate_position r (Lnum p) = []" and "p > 0" "fresh_position r"
    and behind: "pr_trailing_enabled r \<Longrightarrow> pr_trail_mode r = Stepped \<Longrightarrow> anchor_behind_entry r"
  shows "pd_reason (evaluate_position r (Lnum p)) = None"
proof -
  let ?side = "pr_side r" and ?e = "pr_entry_price r"
  have e: "?e > 0" using valid by (auto simp: validate_position_def Let_def split: if_splits)
  have stop: "beats ?side p s \<and> s \<noteq> p" if "effective_stop r = Some s" for s
    using valid that assms(2) by (auto simp: validate_position_def Let_def beats_def split: if_splits action.splits)
  have target: "beats ?side t p \<and> t \<noteq> p" if "usable (pr_target_price r) = Some t" for t
    using valid that assms(2)
    by (auto simp: validate_position_def Let_def beats_def split: if_splits action.splits)
  have trail: "pr_trail_mode r = Stepped \<Longrightarrow> pr_trail_step r \<le> pr_trail_trigger r" "pr_trail_step r > 0"
    if "pr_trailing_enabled r"
    using valid that by (auto simp: validate_position_def Let_def split: if_splits option.splits)
  let ?b = "better ?side (seed_price r) p"
  have seed: "seed_price r = ?e" using assms(3) by (simp add: fresh_position_def seed_price_def)
  have level: "beats ?side p c \<and> c \<noteq> p" if at: "trail_level r ?b = Some c" for c
  proof -
    from at obtain k where on: "pr_trailing_enabled r" "max 0 (gain_at ?side ?e ?b) > 0"
      and k: "trail_candidate r (max 0 (gain_at ?side ?e ?b)) (Some ?b) (Some ?b) (max 0 (pr_trail_trigger r)) = Some k"
        "c = clamp_to_peak k ?side (Some ?b) (Some ?b)"
      unfolding trail_level_def Let_def by (auto simp only: map_option_eq_Some option.simps split: if_splits)
    then have b: "?b = p" "gain_at ?side ?e p > 0" "max 0 (gain_at ?side ?e p) = gain_at ?side ?e p"
      using seed by (auto simp: better_def gain_at_def max_def min_def split: action.splits if_splits)
    have "beats ?side p k \<and> k \<noteq> p"
      using candidate_behind_price [of r p k] trail [OF on(1)] behind [OF on(1)] b k(1) by simp
    then show ?thesis using k(2) b(1) by (auto simp: clamp_to_peak_def beats_def split: action.splits)
  qed
  have "beats ?side p s \<and> s \<noteq> p" if "trailed_stop r ?b = Some s" for s
  proof (cases "trail_level r ?b")
    case None
    with that stop show ?thesis by (simp add: trailed_stop_def)
  next
    case (Some c)
    with that level [OF Some] stop show ?thesis
      by (cases "effective_stop r") (auto simp: trailed_stop_def ratchet_tightens better_def max_def min_def split: action.splits if_splits)
  qed
  then have "\<not> beats ?side s p" if "trailed_stop r ?b = Some s" for s using that beats_antisym by blast
  moreover have "\<not> beats ?side p t" if "usable (pr_target_price r) = Some t" for t using target [OF that] beats_antisym by blast
  ultimately show ?thesis
    using decision_reason [of "Lnum p" p r] evaluate_tick(2,3) [OF e assms(2)] assms(2) by (auto split: option.splits)
qed

theorem checked_configuration_does_not_exit_at_once_witness: "pd_reason (evaluate_position sample_risk (Lnum 104)) = None"
  by (rule checked_configuration_does_not_exit_at_once)
    (simp_all add: sample_risk_def validate_position_def fresh_position_def effective_stop_def Let_def)

text \<open>Without the last condition: a stepped trail from a stop already in profit lands on the price itself.\<close>

lemma checked_configuration_can_exit_at_once:
  defines "r \<equiv> sample_risk\<lparr>pr_initial_stop_price := Some 115, pr_target_price := None, pr_trail_step := 2,
    pr_trail_mode := Stepped\<rparr>"
  shows "validate_position r (Lnum 120) = []" "pd_reason (evaluate_position r (Lnum 120)) = Some Stop_breach"
  unfolding r_def
  by (simp_all add: sample_risk_def validate_position_def effective_stop_def Let_def evaluate_position_def
      trail_candidate_def clamp_to_peak_def ratchet_def)

end
