(* ===== verification/AggregateLaws.thy ===== *)
theory AggregateLaws
  imports RiskLaws
begin

text \<open>
  What the risk core guarantees of a set of positions: the profit lock is a function of the totals seen,
  moving stops to entry moves exactly the stops it may move, and the mark to market counts every
  position once.
\<close>

subsection \<open>The profit lock\<close>

text \<open>A decision's ratchets, carried to the next evaluation.\<close>

definition carry_aggregate :: "aggregate_risk \<Rightarrow> aggregate_decision \<Rightarrow> aggregate_risk" where
  "carry_aggregate r d =
     r\<lparr>ar_lock_armed := ad_lock_armed d, ar_lock_floor := ad_lock_floor d, ar_peak_pnl := ad_peak d, ar_trough_pnl := ad_trough d\<rparr>"

primrec run_marks :: "(rat \<times> rat) list \<Rightarrow> aggregate_risk \<Rightarrow> aggregate_risk" where
  "run_marks [] r = r"
| "run_marks (m # ms) r = run_marks ms (carry_aggregate r (evaluate_aggregate r (fst m) (snd m)))"

lemma run_marks_append: "run_marks (ms @ ns) r = run_marks ns (run_marks ms r)"
  by (induction ms arbitrary: r) simp_all

definition mark_total :: "rat \<times> rat \<Rightarrow> rat" where
  "mark_total m = fst m + snd m"

definition peak_after :: "(rat \<times> rat) list \<Rightarrow> rat \<Rightarrow> rat" where
  "peak_after ms seed = fold (\<lambda>m b. max b (mark_total m)) ms seed"

lemma peak_after_snoc [simp]: "peak_after (ms @ [m]) p = max (peak_after ms p) (mark_total m)" "peak_after [] p = p"
  by (simp_all add: peak_after_def)

text \<open>The reference: the floor the peak alone determines.\<close>

definition locked_floor :: "aggregate_risk \<Rightarrow> rat \<Rightarrow> rat" where
  "locked_floor r peak =
     (let base = (case ar_lock_profit_floor r of Some f \<Rightarrow> f | None \<Rightarrow> 0)
      in case ar_lock_trail_step r of
           Some step \<Rightarrow> if step > 0 then max base (peak - step) else base
         | None \<Rightarrow> base)"

definition reached :: "rat \<Rightarrow> (rat \<times> rat) list \<Rightarrow> bool" where
  "reached limit ms \<longleftrightarrow> (\<exists>m\<in>set ms. mark_total m \<ge> limit)"

lemma reached_snoc [simp]: "reached l (ms @ [m]) \<longleftrightarrow> reached l ms \<or> mark_total m \<ge> l" "\<not> reached l []"
  by (auto simp: reached_def)

lemma decision_state:
  fixes r x y
  defines "d \<equiv> evaluate_aggregate r x y"
  assumes "ar_lock_profit_at r = Some l"
  shows "ad_peak d = max (ar_peak_pnl r) (x + y)" "ad_lock_armed d \<longleftrightarrow> ar_lock_armed r \<or> x + y \<ge> l"
    "ad_lock_floor d = (if ad_lock_armed d then Some (next_floor r (ad_peak d)) else ar_lock_floor r)"
    "ad_reason d = Some Lock_profit \<longleftrightarrow> ad_lock_armed d \<and> x + y \<le> next_floor r (ad_peak d)"
  unfolding d_def by (auto simp: evaluate_aggregate_def Let_def assms(2))

lemma carry_aggregate_simps [simp]:
  "ar_lock_profit_at (carry_aggregate r d) = ar_lock_profit_at r"
  "ar_lock_profit_floor (carry_aggregate r d) = ar_lock_profit_floor r"
  "ar_lock_trail_step (carry_aggregate r d) = ar_lock_trail_step r"
  "ar_lock_armed (carry_aggregate r d) = ad_lock_armed d" "ar_lock_floor (carry_aggregate r d) = ad_lock_floor d"
  "ar_peak_pnl (carry_aggregate r d) = ad_peak d"
  by (simp_all add: carry_aggregate_def)

lemma locked_floor_mono: "p \<le> q \<Longrightarrow> locked_floor r p \<le> locked_floor r q"
  by (auto simp: locked_floor_def Let_def split: option.split)

lemma next_floor_locked:
  assumes "case ar_lock_floor r of None \<Rightarrow> True | Some f \<Rightarrow> f \<le> locked_floor r peak"
  shows "next_floor r peak = locked_floor r peak"
  using assms by (auto simp: next_floor_def locked_floor_def Let_def max_def split: option.splits if_splits)

lemma floor_is_locked:
  assumes "locked_floor r1 = locked_floor r" "ar_lock_floor r1 \<in> {None, Some (locked_floor r p)}" "p \<le> q"
  shows "next_floor r1 q = locked_floor r q"
proof -
  have "locked_floor r p \<le> locked_floor r q" using assms(3) by (rule locked_floor_mono)
  then have "case ar_lock_floor r1 of None \<Rightarrow> True | Some f \<Rightarrow> f \<le> locked_floor r1 q"
    using assms(2) unfolding assms(1) by auto
  then show ?thesis unfolding assms(1) [symmetric] by (rule next_floor_locked)
qed

lemma locked_floor_cong:
  "ar_lock_profit_floor r' = ar_lock_profit_floor r \<Longrightarrow> ar_lock_trail_step r' = ar_lock_trail_step r \<Longrightarrow>
   locked_floor r' = locked_floor r"
  by (simp add: locked_floor_def fun_eq_iff)

lemma run_marks_state:
  assumes "ar_lock_profit_at r = Some l" "\<not> ar_lock_armed r" "ar_lock_floor r = None"
  shows "let r1 = run_marks ms r in
    ar_lock_profit_at r1 = Some l \<and> locked_floor r1 = locked_floor r \<and> ar_peak_pnl r1 = peak_after ms (ar_peak_pnl r) \<and>
    (ar_lock_armed r1 \<longleftrightarrow> reached l ms) \<and>
    ar_lock_floor r1 = (if reached l ms then Some (locked_floor r (ar_peak_pnl r1)) else None)"
proof (induction ms rule: rev_induct)
  case Nil
  with assms show ?case by simp
next
  case (snoc m ms)
  let ?r = "run_marks ms r" and ?d = "evaluate_aggregate (run_marks ms r) (fst m) (snd m)"
  let ?p = "max (ar_peak_pnl ?r) (mark_total m)"
  have ih: "ar_lock_profit_at ?r = Some l" "locked_floor ?r = locked_floor r" "ar_peak_pnl ?r = peak_after ms (ar_peak_pnl r)"
    "ar_lock_armed ?r \<longleftrightarrow> reached l ms" "ar_lock_floor ?r = (if reached l ms then Some (locked_floor r (ar_peak_pnl ?r)) else None)"
    using snoc.IH by (auto simp: Let_def)
  note d = decision_state [OF ih(1), of "fst m" "snd m", folded mark_total_def]
  have "next_floor ?r ?p = locked_floor r ?p"
    using floor_is_locked [OF ih(2) _ max.cobounded1] ih(5) by (cases "reached l ms") simp_all
  moreover have "locked_floor (carry_aggregate ?r ?d) = locked_floor r"
    unfolding ih(2) [symmetric] by (rule locked_floor_cong) simp_all
  moreover have "reached l (ms @ [m]) \<longleftrightarrow> ad_lock_armed ?d" using d(2) ih(4) by simp
  moreover have "ad_lock_floor ?d = (if ad_lock_armed ?d then Some (locked_floor r ?p) else None)"
  proof (cases "ad_lock_armed ?d")
    case True
    with d(1,3) calculation(1) show ?thesis by simp
  next
    case False
    with d(2,3) ih(4,5) show ?thesis by auto
  qed
  ultimately show ?case
    using ih(1,3) d(1) unfolding Let_def run_marks_append run_marks.simps carry_aggregate_simps by (simp only: peak_after_snoc)
qed

text \<open>C23: with a profit lock and a fresh ratchet, an evaluation ends the run for the lock exactly when some total
  so far has reached the threshold and the present one is at or below the floor the peak determines.\<close>

theorem lock_profit_is_a_function_of_the_totals:
  assumes "ar_lock_profit_at r = Some l" "\<not> ar_lock_armed r" "ar_lock_floor r = None"
  shows "ad_reason (evaluate_aggregate (run_marks ms r) x y) = Some Lock_profit \<longleftrightarrow>
    reached l (ms @ [(x, y)]) \<and> x + y \<le> locked_floor r (peak_after (ms @ [(x, y)]) (ar_peak_pnl r))"
proof -
  let ?r = "run_marks ms r" and ?p = "max (ar_peak_pnl (run_marks ms r)) (x + y)"
  have run: "ar_lock_profit_at ?r = Some l" "locked_floor ?r = locked_floor r" "ar_peak_pnl ?r = peak_after ms (ar_peak_pnl r)"
    "ar_lock_armed ?r \<longleftrightarrow> reached l ms" "ar_lock_floor ?r = (if reached l ms then Some (locked_floor r (ar_peak_pnl ?r)) else None)"
    using run_marks_state [OF assms, of ms] by (auto simp: Let_def)
  have "next_floor ?r ?p = locked_floor r ?p"
    using floor_is_locked [OF run(2) _ max.cobounded1] run(5) by (cases "reached l ms") simp_all
  with decision_state [OF run(1), of x y] run show ?thesis by (simp add: mark_total_def)
qed

definition sample_limits :: aggregate_risk where
  "sample_limits =
     \<lparr> ar_combined_stoploss = Some 5000, ar_combined_target = None, ar_lock_profit_at = Some 1000,
       ar_lock_profit_floor = Some 500, ar_lock_trail_step = Some 300, ar_lock_armed = False, ar_lock_floor = None,
       ar_peak_pnl = 0, ar_trough_pnl = 0, ar_stop_bypassed = False \<rparr>"

theorem lock_profit_is_a_function_of_the_totals_witness:
  "ad_reason (evaluate_aggregate (run_marks [(0, 1000), (200, 1300)] sample_limits) 200 1000) = Some Lock_profit"
proof -
  have "ad_reason (evaluate_aggregate (run_marks [(0, 1000), (200, 1300)] sample_limits) 200 1000) = Some Lock_profit \<longleftrightarrow>
    reached 1000 ([(0, 1000), (200, 1300)] @ [(200, 1000)]) \<and>
    200 + 1000 \<le> locked_floor sample_limits (peak_after ([(0, 1000), (200, 1300)] @ [(200, 1000)]) (ar_peak_pnl sample_limits))"
    by (rule lock_profit_is_a_function_of_the_totals) (simp_all add: sample_limits_def)
  also have "\<dots>" by (simp add: reached_def mark_total_def locked_floor_def sample_limits_def peak_after_def)
  finally show ?thesis .
qed

subsection \<open>Stops to entry\<close>

lemma map_filter_set: "set (List.map_filter f xs) = {y. \<exists>x\<in>set xs. f x = Some y}"
  by (force simp: List.map_filter_def)

lemma in_moves:
  "m \<in> set (List.map_filter (\<lambda>m. case m of Move s \<Rightarrow> Some s | _ \<Rightarrow> None) ms) \<longleftrightarrow> Move m \<in> set ms"
  unfolding map_filter_set mem_Collect_eq by (metis (no_types, lifting) entry_move.case entry_move.exhaust option.distinct(1) option.inject)

lemma listed_once:
  "length (List.map_filter (\<lambda>m. case m of Move s \<Rightarrow> Some s | _ \<Rightarrow> None) ms) +
   length (List.map_filter (\<lambda>m. case m of Not_improving i \<Rightarrow> Some i | _ \<Rightarrow> None) ms) +
   length (List.map_filter (\<lambda>m. case m of Through_price i \<Rightarrow> Some i | _ \<Rightarrow> None) ms) +
   length (List.map_filter (\<lambda>m. case m of No_entry i \<Rightarrow> Some i | _ \<Rightarrow> None) ms) = length ms"
proof (induction ms)
  case (Cons m ms)
  then show ?case by (cases m) (simp_all add: List.map_filter_simps)
qed (simp add: List.map_filter_simps)

definition may_move :: "(string \<Rightarrow> loose) \<Rightarrow> position_risk \<Rightarrow> bool" where
  "may_move last_prices r \<longleftrightarrow>
     pr_entry_price r > 0 \<and>
     (\<forall>s. effective_stop r = Some s \<longrightarrow> beats (pr_side r) (pr_entry_price r) s \<and> pr_entry_price r \<noteq> s) \<and>
     (\<forall>p. as_price (last_prices (pr_identifier r)) = Some p \<longrightarrow>
        beats (pr_side r) p (pr_entry_price r) \<and> p \<noteq> pr_entry_price r)"

lemma move_to_entry_Move:
  "move_to_entry last_prices r = Move m \<longleftrightarrow>
     may_move last_prices r \<and>
     m = \<lparr>sm_identifier = pr_identifier r, sm_previous_stop = effective_stop r, sm_new_stop = pr_entry_price r\<rparr>"
proof -
  have "\<not> (case v of None \<Rightarrow> False | Some c \<Rightarrow> case pr_side r of BUY \<Rightarrow> e \<le> c | SELL \<Rightarrow> c \<le> e) \<longleftrightarrow>
      (\<forall>c. v = Some c \<longrightarrow> beats (pr_side r) e c \<and> e \<noteq> c)"
    "\<not> (case v of None \<Rightarrow> False | Some c \<Rightarrow> case pr_side r of BUY \<Rightarrow> c \<le> e | SELL \<Rightarrow> e \<le> c) \<longleftrightarrow>
      (\<forall>c. v = Some c \<longrightarrow> beats (pr_side r) c e \<and> c \<noteq> e)" for v e
    by (cases v; cases "pr_side r"; auto simp: beats_def)+
  note stop = this(1) [where v = "effective_stop r" and e = "pr_entry_price r"] and price = this(2) [where v = "as_price (last_prices (pr_identifier r))" and e = "pr_entry_price r"]
  show ?thesis
    unfolding may_move_def stop [symmetric] price [symmetric]
    by (auto simp: move_to_entry_def Let_def)
qed

text \<open>Moving stops to entry moves exactly the stops of the positions not excluded that have an entry, that the
  move tightens and whose price is not already through the entry; a moved stop then does not fire at that price,
  and every position not excluded is listed once.\<close>

theorem stops_to_entry_move_what_they_may:
  fixes rs excluded last_prices
  defines "d \<equiv> trail_stops_to_entry rs excluded last_prices"
  shows "(\<forall>m. m \<in> set (te_moves d) \<longleftrightarrow>
      (\<exists>r\<in>set rs. pr_identifier r \<notin> set excluded \<and> may_move last_prices r \<and>
         m = \<lparr>sm_identifier = pr_identifier r, sm_previous_stop = effective_stop r, sm_new_stop = pr_entry_price r\<rparr>)) \<and>
    (\<forall>r p. may_move last_prices r \<and> \<not> pr_trailing_enabled r \<and> as_price (last_prices (pr_identifier r)) = Some p \<longrightarrow>
       pd_reason (evaluate_position (r\<lparr>pr_stop_price := Some (pr_entry_price r)\<rparr>) (last_prices (pr_identifier r))) \<noteq> Some Stop_breach) \<and>
    length (te_moves d) + length (te_not_improving d) + length (te_through_price d) + length (te_no_entry d) =
      length (filter (\<lambda>r. pr_identifier r \<notin> set excluded) rs)"
proof (intro conjI allI impI)
  fix m
  show "m \<in> set (te_moves d) \<longleftrightarrow>
      (\<exists>r\<in>set rs. pr_identifier r \<notin> set excluded \<and> may_move last_prices r \<and>
         m = \<lparr>sm_identifier = pr_identifier r, sm_previous_stop = effective_stop r, sm_new_stop = pr_entry_price r\<rparr>)"
    unfolding d_def trail_stops_to_entry_def Let_def trail_to_entry_decision.select_convs in_moves
    by (simp add: image_iff eq_commute [of "Move m"] move_to_entry_Move) blast
next
  fix r p
  assume "may_move last_prices r \<and> \<not> pr_trailing_enabled r \<and> as_price (last_prices (pr_identifier r)) = Some p"
  then show "pd_reason (evaluate_position (r\<lparr>pr_stop_price := Some (pr_entry_price r)\<rparr>) (last_prices (pr_identifier r))) \<noteq> Some Stop_breach"
    by (cases "pr_side r") (auto simp: may_move_def evaluate_position_def Let_def effective_stop_def beats_def)
next
  show "length (te_moves d) + length (te_not_improving d) + length (te_through_price d) + length (te_no_entry d) =
      length (filter (\<lambda>r. pr_identifier r \<notin> set excluded) rs)"
    unfolding d_def trail_stops_to_entry_def Let_def trail_to_entry_decision.select_convs listed_once by simp
qed

theorem stops_to_entry_move_what_they_may_witness:
  "pd_reason (evaluate_position (sample_risk\<lparr>pr_trailing_enabled := False, pr_stop_price := Some 100\<rparr>) (Lnum 104)) \<noteq> Some Stop_breach"
proof -
  let ?r = "sample_risk\<lparr>pr_trailing_enabled := False\<rparr>"
  have "may_move (\<lambda>i. Lnum 104) ?r \<and> \<not> pr_trailing_enabled ?r \<and> as_price (Lnum 104) = Some 104"
    by (simp add: may_move_def sample_risk_def effective_stop_def beats_def)
  then have "pd_reason (evaluate_position (?r\<lparr>pr_stop_price := Some (pr_entry_price ?r)\<rparr>) (Lnum 104)) \<noteq> Some Stop_breach"
    using stops_to_entry_move_what_they_may [of "[]" "[]" "\<lambda>i. Lnum 104"] by blast
  then show ?thesis by (simp add: sample_risk_def)
qed

end
