(* ===== verification/StrategyRisk.thy ===== *)
theory StrategyRisk
  imports RiskCore "HOL-Library.AList"
begin

text \<open>
  The live state of a strategy run (the dictionaries of \<open>strategy_module/state.py\<close>, as records) and its
  bridge to the risk core (\<open>strategy_module/risk_adapter.py\<close>): one leg as a position, a run as a set of
  positions with combined limits, and what an evaluation writes back.

  A leg's configured numbers are loose, what the engine writes is typed.  A side is BUY for the code's
  B and SELL for its S; no other side gets into a leg.  The legs of a run are in the order they were
  added, each under its id.
\<close>

subsection \<open>Legs and runs\<close>

datatype lg_status = Configured | Open_leg | Closed_leg | Rejected_leg
datatype entry_status = Entry_pending | Entry_open | Entry_complete | Entry_rejected | Entry_cancelled

text \<open>A position a flip has sent an exit for and not yet seen closed.\<close>

record outgoing =
  og_exit_order_id :: "nat option"
  og_exit_claim_token :: "string option"
  og_exit_kind :: "string option"
  og_entry_order_id :: "nat option"
  og_position_ref :: "string option"
  og_position :: action
  og_entry_avg :: rat
  og_qty :: int

record leg =
  lg_id :: string
  lg_position :: action
  lg_symbol :: string
  lg_exchange :: string
  lg_qty :: int
  lg_position_ref :: "string option"
  lg_entry_order_id :: "nat option"
  lg_entry_status :: entry_status
  lg_entry_filled_qty :: int
  lg_entry_avg :: rat
  lg_exit_order_id :: "nat option"
  lg_exit_claim_token :: "string option"
  lg_exit_kind :: "string option"
  lg_exit_avg :: "rat option"
  lg_ltp :: "rat option"
  lg_mtm :: rat
  lg_realized_pnl :: rat
  lg_status :: lg_status
  lg_risk_unit :: "string option"
  lg_sl_pts :: loose
  lg_target_pts :: loose
  lg_trail_x :: loose
  lg_trail_y :: loose
  lg_effective_sl :: "rat option"
  lg_effective_target :: "rat option"
  lg_trail_active :: bool
  lg_highest_price :: "rat option"
  lg_lowest_price :: "rat option"
  lg_superseded :: "outgoing option"

record entry_claim =
  ec_token :: string
  ec_position_ref :: string
  ec_position :: action
  ec_held_position :: "action option"
  ec_expected_ref :: "string option"

record run_state =
  rs_run_id :: nat
  rs_strategy_id :: nat
  rs_pnl_realized :: rat
  rs_pnl_unrealized :: rat
  rs_pnl_total :: rat
  rs_pnl_peak :: rat
  rs_pnl_trough :: rat
  rs_lock_armed :: bool
  rs_lock_floor :: "rat option"
  rs_trail_to_entry_active :: bool
  rs_stopping :: bool
  rs_claims :: "(string \<times> entry_claim) list"
  rs_legs :: "leg list"

definition find_leg :: "string \<Rightarrow> run_state \<Rightarrow> leg option" where
  "find_leg lid s = find (\<lambda>l. lg_id l = lid) (rs_legs s)"

definition change_leg :: "string \<Rightarrow> (leg \<Rightarrow> leg) \<Rightarrow> run_state \<Rightarrow> run_state" where
  "change_leg lid f s = s\<lparr>rs_legs := map (\<lambda>l. if lg_id l = lid then f l else l) (rs_legs s)\<rparr>"

subsection \<open>A leg as a position\<close>

definition points_per_unit :: "leg \<Rightarrow> rat \<Rightarrow> rat" where
  "points_per_unit leg entry =
     (let risk_unit = (case lg_risk_unit leg of Some u \<Rightarrow> if u \<noteq> [] then u else ''points'' | None \<Rightarrow> ''points'')
      in if str_lower risk_unit \<noteq> ''percent'' then 1
         else if entry > 0 then entry / 100 else 0)"

text \<open>
  \<open>float(value)\<close> reads a truth value as a number here.  An infinite number, which would lead to no level
  and to a trail that never arms, is read as absent.
\<close>

definition in_points :: "loose \<Rightarrow> rat \<Rightarrow> rat option" where
  "in_points v scale =
     (case (case v of Lbool b \<Rightarrow> Some (if b then 1 else 0) | _ \<Rightarrow> finite_number v) of
        None \<Rightarrow> None
      | Some r \<Rightarrow> if r * scale > 0 then Some (r * scale) else None)"

definition leg_to_position_risk :: "leg \<Rightarrow> position_risk" where
  "leg_to_position_risk leg =
     (let side = lg_position leg;
          entry = lg_entry_avg leg;
          scale = points_per_unit leg entry;
          initial_stop = (case in_points (lg_sl_pts leg) scale of Some p \<Rightarrow> stop_from_points side entry p | None \<Rightarrow> None);
          configured_target = (case in_points (lg_target_pts leg) scale of Some p \<Rightarrow> target_from_points side entry p | None \<Rightarrow> None);
          trail_x = (case in_points (lg_trail_x leg) scale of Some x \<Rightarrow> x | None \<Rightarrow> 0);
          trail_y = (case in_points (lg_trail_y leg) scale of Some y \<Rightarrow> y | None \<Rightarrow> 0)
      in \<lparr> pr_identifier = lg_id leg, pr_side = side, pr_entry_price = entry, pr_quantity = of_int (lg_qty leg),
           pr_stop_price = (if lg_effective_sl leg \<noteq> None then lg_effective_sl leg else initial_stop),
           pr_initial_stop_price = initial_stop,
           pr_target_price = (if lg_effective_target leg \<noteq> None then lg_effective_target leg else configured_target),
           pr_trailing_enabled = (trail_x > 0),
           pr_trail_step = (if trail_y > 0 then trail_y else trail_x),
           pr_trail_trigger = trail_x,
           pr_trail_mode = (if trail_y > 0 then Stepped else Continuous),
           pr_highest_price = lg_highest_price leg, pr_lowest_price = lg_lowest_price leg \<rparr>)"

definition apply_leg_decision :: "position_decision \<Rightarrow> leg \<Rightarrow> leg" where
  "apply_leg_decision d leg =
     leg\<lparr>lg_effective_sl := pd_stop_price d, lg_effective_target := pd_target_price d,
         lg_highest_price := pd_highest_price d, lg_lowest_price := pd_lowest_price d, lg_mtm := pd_pnl d,
         lg_trail_active := (pd_trail_armed d \<or> lg_trail_active leg)\<rparr>"

definition evaluate_strategy_leg :: "leg \<Rightarrow> loose \<Rightarrow> position_decision \<times> leg" where
  "evaluate_strategy_leg leg last_price =
     (let d = evaluate_position (leg_to_position_risk leg) last_price;
          leg1 = (if pd_evaluated d then leg\<lparr>lg_ltp := finite_number last_price\<rparr> else leg)
      in (d, apply_leg_decision d leg1))"

subsection \<open>The profit of a run\<close>

definition side_text :: "action \<Rightarrow> string" where
  "side_text a = (case a of BUY \<Rightarrow> ''B'' | SELL \<Rightarrow> ''S'')"

definition leg_pnl_row :: "leg \<Rightarrow> loose_dict" where
  "leg_pnl_row leg =
     (\<lambda>k. Lnone)
       (''identifier'' := Ltext (lg_id leg), ''side'' := Ltext (side_text (lg_position leg)),
        ''entry_price'' := Lnum (lg_entry_avg leg), ''quantity'' := Lint (lg_qty leg),
        ''last_price'' := loose_of (lg_ltp leg), ''closed'' := Lbool (lg_status leg \<noteq> Open_leg),
        ''realized_pnl'' := Lnum (lg_realized_pnl leg))"

definition run_pnl :: "run_state \<Rightarrow> rat \<times> rat" where
  "run_pnl s =
     (let sm = aggregate_pnl (map (position_pnl_from_state \<circ> leg_pnl_row)
                  (filter (\<lambda>l. lg_status l = Open_leg \<or> lg_realized_pnl l \<noteq> 0) (rs_legs s)))
      in (ps_realized sm, ps_unrealized sm))"

subsection \<open>A run's combined limits\<close>

record lock_profit =
  lk_mode :: "string option"
  lk_if_profit_reaches :: "rat option"
  lk_lock_profit :: "rat option"
  lk_trail_step :: "rat option"

record strategy_limits =
  sl_overall_sl_mtm :: "rat option"
  sl_overall_target_mtm :: "rat option"
  sl_lock_profit :: "lock_profit option"

definition no_lock :: lock_profit where
  "no_lock = \<lparr>lk_mode = None, lk_if_profit_reaches = None, lk_lock_profit = None, lk_trail_step = None\<rparr>"

definition run_to_aggregate_risk :: "run_state \<Rightarrow> strategy_limits \<Rightarrow> aggregate_risk" where
  "run_to_aggregate_risk s st =
     (let lock = (case sl_lock_profit st of Some l \<Rightarrow> l | None \<Rightarrow> no_lock)
      in \<lparr> ar_combined_stoploss = sl_overall_sl_mtm st, ar_combined_target = sl_overall_target_mtm st,
           ar_lock_profit_at = lk_if_profit_reaches lock, ar_lock_profit_floor = lk_lock_profit lock,
           ar_lock_trail_step = (if lk_mode lock = Some ''lock_and_trail'' then lk_trail_step lock else None),
           ar_lock_armed = rs_lock_armed s, ar_lock_floor = rs_lock_floor s, ar_peak_pnl = rs_pnl_peak s,
           ar_trough_pnl = rs_pnl_trough s, ar_stop_bypassed = rs_trail_to_entry_active s \<rparr>)"

definition apply_run_decision :: "aggregate_decision \<Rightarrow> run_state \<Rightarrow> run_state" where
  "apply_run_decision d s =
     s\<lparr>rs_pnl_realized := ad_realized d, rs_pnl_unrealized := ad_unrealized d, rs_pnl_total := ad_total d,
       rs_pnl_peak := ad_peak d, rs_pnl_trough := ad_trough d, rs_lock_armed := ad_lock_armed d,
       rs_lock_floor := ad_lock_floor d\<rparr>"

definition evaluate_run :: "strategy_limits \<Rightarrow> run_state \<Rightarrow> aggregate_decision \<times> run_state" where
  "evaluate_run st s =
     (case run_pnl s of (realized, unrealized) \<Rightarrow>
        (let d = evaluate_aggregate (run_to_aggregate_risk s st) realized unrealized in (d, apply_run_decision d s)))"

subsection \<open>Stops to entry\<close>

definition open_legs :: "run_state \<Rightarrow> leg list" where
  "open_legs s = filter (\<lambda>l. lg_status l = Open_leg) (rs_legs s)"

definition apply_stop_move :: "stop_move \<Rightarrow> run_state \<Rightarrow> run_state" where
  "apply_stop_move m s = change_leg (sm_identifier m) (\<lambda>l. l\<lparr>lg_effective_sl := Some (sm_new_stop m)\<rparr>) s"

definition trail_open_legs_to_entry :: "string \<Rightarrow> run_state \<Rightarrow> string list \<times> run_state" where
  "trail_open_legs_to_entry triggering s =
     (let legs = open_legs s;
          d = trail_stops_to_entry (map leg_to_position_risk legs) [triggering]
                (\<lambda>i. case find (\<lambda>l. lg_id l = i) legs of Some l \<Rightarrow> loose_of (lg_ltp l) | None \<Rightarrow> Lnone);
          s1 = fold apply_stop_move (te_moves d) s;
          moved = map sm_identifier (te_moves d)
      in (moved, if moved \<noteq> [] then s1\<lparr>rs_trail_to_entry_active := True\<rparr> else s1))"

end
