(* ===== verification/StrategyDB.thy ===== *)
theory StrategyDB
  imports SandboxDB "HOL-Library.Product_Lexorder"
begin

text \<open>
  The tables of the strategy module (\<open>database/strategy_module_db.py\<close>): strategies, their runs and the
  orders the engine places, with every operation that changes a run or an order.  Each is a conditional
  UPDATE that says whether it won; where the code reads first and writes later, what other connections
  commit in between is an argument.

  A database error rolls back and answers as a lost update does; it is left out.  Money columns keep what
  is written; the price column of an order is read back through \<open>rd\<close>, the rounding of its scale.
\<close>

subsection \<open>Rows\<close>

datatype sm_status = Stopped | Running | Paused | Errored
datatype strategy_kind = Batch | Signal
datatype run_mode = Live_run | Sandbox_run
datatype so_status = So_pending | So_open | So_complete | So_cancelled | So_rejected
datatype so_kind = Entry | Exit string

record sm_strategy =
  st_id :: nat
  st_user :: string
  st_kind :: strategy_kind
  st_status :: sm_status
  st_current_run :: "nat option"

record sm_run =
  sr_id :: nat
  sr_strategy :: nat
  sr_mode :: run_mode
  sr_broker :: string
  sr_account :: "string option"
  sr_stopped_at :: "time option"
  sr_stop_reason :: "string option"
  sr_stop_requested_at :: "time option"
  sr_stop_requested_reason :: "string option"
  sr_pnl_realized :: rat
  sr_pnl_peak :: rat
  sr_pnl_trough :: rat

record sm_order =
  so_id :: nat
  so_run :: nat
  so_leg :: nat
  so_kind :: so_kind
  so_position_ref :: "string option"
  so_broker_id :: "string option"
  so_action :: action
  so_qty :: int
  so_status :: so_status
  so_placed_at :: time
  so_filled_at :: "time option"
  so_avg_price :: "rat option"
  so_filled_qty :: "int option"
  so_reject_reason :: "string option"

record sm_db =
  sm_strategies :: "sm_strategy list"
  sm_runs :: "sm_run list"
  sm_orders :: "sm_order list"

definition find_run :: "nat \<Rightarrow> sm_db \<Rightarrow> sm_run option" where
  "find_run rid db = find (\<lambda>r. sr_id r = rid) (sm_runs db)"

definition find_sm_order :: "nat \<Rightarrow> sm_db \<Rightarrow> sm_order option" where
  "find_sm_order oid db = find (\<lambda>r. so_id r = oid) (sm_orders db)"

text \<open>The \<open>UPDATE\<close>s of one table; the answer is whether exactly one row matched.\<close>

definition update_strategies :: "(sm_strategy \<Rightarrow> bool) \<Rightarrow> (sm_strategy \<Rightarrow> sm_strategy) \<Rightarrow> sm_db \<Rightarrow> bool \<times> sm_db" where
  "update_strategies P f db =
     (row_count P (sm_strategies db) = 1, db\<lparr>sm_strategies := sql_update P f (sm_strategies db)\<rparr>)"

definition update_runs :: "(sm_run \<Rightarrow> bool) \<Rightarrow> (sm_run \<Rightarrow> sm_run) \<Rightarrow> sm_db \<Rightarrow> bool \<times> sm_db" where
  "update_runs P f db = (row_count P (sm_runs db) = 1, db\<lparr>sm_runs := sql_update P f (sm_runs db)\<rparr>)"

definition update_orders :: "(sm_order \<Rightarrow> bool) \<Rightarrow> (sm_order \<Rightarrow> sm_order) \<Rightarrow> sm_db \<Rightarrow> bool \<times> sm_db" where
  "update_orders P f db = (row_count P (sm_orders db) = 1, db\<lparr>sm_orders := sql_update P f (sm_orders db)\<rparr>)"

subsection \<open>Starting a run\<close>

definition set_strategy_status :: "nat \<Rightarrow> sm_status \<Rightarrow> nat option \<Rightarrow> sm_db \<Rightarrow> bool \<times> sm_db" where
  "set_strategy_status sid status rid =
     update_strategies (\<lambda>s. st_id s = sid) (\<lambda>s. s\<lparr>st_status := status, st_current_run := rid\<rparr>)"

definition claim_strategy_for_run :: "nat \<Rightarrow> sm_db \<Rightarrow> bool \<times> sm_db" where
  "claim_strategy_for_run sid =
     update_strategies (\<lambda>s. st_id s = sid \<and> st_status s = Stopped) (\<lambda>s. s\<lparr>st_status := Running\<rparr>)"

definition release_row :: "sm_strategy \<Rightarrow> sm_strategy" where
  "release_row s = s\<lparr>st_status := Stopped, st_current_run := None\<rparr>"

definition release_strategy :: "nat \<Rightarrow> sm_db \<Rightarrow> bool \<times> sm_db" where
  "release_strategy sid db = (True, snd (update_strategies (\<lambda>s. st_id s = sid) release_row db))"

definition create_run :: "nat \<Rightarrow> run_mode \<Rightarrow> string \<Rightarrow> string option \<Rightarrow> sm_db \<Rightarrow> nat \<times> sm_db" where
  "create_run sid mode broker account db =
     (let rid = Suc (fold (\<lambda>r n. max (sr_id r) n) (sm_runs db) 0) in
      (rid, db\<lparr>sm_runs := sm_runs db @
         [\<lparr> sr_id = rid, sr_strategy = sid, sr_mode = mode, sr_broker = broker, sr_account = account,
            sr_stopped_at = None, sr_stop_reason = None, sr_stop_requested_at = None, sr_stop_requested_reason = None,
            sr_pnl_realized = 0, sr_pnl_peak = 0, sr_pnl_trough = 0 \<rparr>]\<rparr>))"

definition UNBOUND_RUN_BROKERS :: "string list" where
  "UNBOUND_RUN_BROKERS = [[], ''live'']"

definition bind_run_broker :: "nat \<Rightarrow> string \<Rightarrow> string option \<Rightarrow> sm_db \<Rightarrow> bool \<times> sm_db" where
  "bind_run_broker rid broker account db =
     (if broker = [] then (False, db)
      else update_runs
             (\<lambda>r. sr_id r = rid \<and> sr_mode r = Live_run \<and> sr_stopped_at r = None \<and> sr_broker r \<in> set UNBOUND_RUN_BROKERS)
             (\<lambda>r. r\<lparr>sr_broker := broker, sr_account := (if account = Some [] then None else account)\<rparr>) db)"

subsection \<open>Finishing a run\<close>

type_synonym run_figures = "rat \<times> rat \<times> rat"

definition close_row :: "time \<Rightarrow> string \<Rightarrow> run_figures \<Rightarrow> sm_run \<Rightarrow> sm_run" where
  "close_row now reason figures r =
     (case figures of (realized, peak, trough) \<Rightarrow>
        r\<lparr>sr_stopped_at := Some now, sr_stop_reason := Some reason, sr_stop_requested_at := None,
          sr_stop_requested_reason := None, sr_pnl_realized := realized, sr_pnl_peak := peak, sr_pnl_trough := trough\<rparr>)"

definition finish_run :: "time \<Rightarrow> nat \<Rightarrow> string \<Rightarrow> run_figures \<Rightarrow> sm_db \<Rightarrow> bool \<times> sm_db" where
  "finish_run now rid reason figures db =
     (if find_run rid db = None then (False, db)
      else update_runs (\<lambda>r. sr_id r = rid \<and> sr_stopped_at r = None) (close_row now reason figures) db)"

text \<open>Two updates in one transaction: both or neither.\<close>

definition both_updates :: "(sm_db \<Rightarrow> bool \<times> sm_db) \<Rightarrow> (sm_db \<Rightarrow> bool \<times> sm_db) \<Rightarrow> sm_db \<Rightarrow> bool \<times> sm_db" where
  "both_updates u v db =
     (case u db of (ok, db1) \<Rightarrow>
        if \<not> ok then (False, db) else (case v db1 of (ok2, db2) \<Rightarrow> if ok2 then (True, db2) else (False, db)))"

definition finish_run_and_release_strategy :: "time \<Rightarrow> nat \<Rightarrow> nat \<Rightarrow> string \<Rightarrow> run_figures \<Rightarrow> sm_db \<Rightarrow> bool \<times> sm_db" where
  "finish_run_and_release_strategy now rid sid reason figures =
     both_updates
       (update_runs (\<lambda>r. sr_id r = rid \<and> sr_strategy r = sid \<and> sr_stopped_at r = None) (close_row now reason figures))
       (update_strategies (\<lambda>s. st_id s = sid \<and> st_current_run s = Some rid) release_row)"

definition finish_detached_run :: "time \<Rightarrow> nat \<Rightarrow> nat \<Rightarrow> string \<Rightarrow> run_figures \<Rightarrow> sm_db \<Rightarrow> bool \<times> sm_db" where
  "finish_detached_run now rid sid reason figures db =
     (let current_owner = (\<exists>s\<in>set (sm_strategies db). st_id s = sid \<and> st_current_run s = Some rid);
          P = (\<lambda>r. sr_id r = rid \<and> sr_strategy r = sid \<and> sr_stopped_at r = None \<and> \<not> current_owner)
      in if row_count P (sm_runs db) = 1 then update_runs P (close_row now reason figures) db else (False, db))"

text \<open>A strategy that is claimed and points at no run.\<close>

definition empty_claim :: "nat \<Rightarrow> sm_strategy \<Rightarrow> bool" where
  "empty_claim sid s \<longleftrightarrow> st_id s = sid \<and> st_status s = Running \<and> st_current_run s = None"

definition finish_empty_unlinked_run_and_release_claim ::
    "time \<Rightarrow> nat \<Rightarrow> nat \<Rightarrow> string \<Rightarrow> run_figures \<Rightarrow> sm_db \<Rightarrow> bool \<times> sm_db" where
  "finish_empty_unlinked_run_and_release_claim now rid sid reason figures db =
     (let claimed = (\<exists>s\<in>set (sm_strategies db). empty_claim sid s);
          no_orders = (\<forall>o1\<in>set (sm_orders db). so_run o1 \<noteq> rid)
      in both_updates
           (update_runs (\<lambda>r. sr_id r = rid \<and> sr_strategy r = sid \<and> sr_stopped_at r = None \<and> claimed \<and> no_orders)
              (close_row now reason figures))
           (update_strategies (empty_claim sid) release_row) db)"

definition finish_unlinked_run_and_release_claim :: "time \<Rightarrow> nat \<Rightarrow> nat \<Rightarrow> string \<Rightarrow> sm_db \<Rightarrow> bool \<times> sm_db" where
  "finish_unlinked_run_and_release_claim now rid sid reason db =
     (case finish_detached_run now rid sid reason (0, 0, 0) db of (ok, db1) \<Rightarrow>
        if \<not> ok then (False, db1) else update_strategies (empty_claim sid) release_row db1)"

subsection \<open>Stop requests and late fills\<close>

datatype stop_request = New_request | Existing_request | Not_recorded

definition record_run_stop_request :: "time \<Rightarrow> nat \<Rightarrow> string \<Rightarrow> sm_db \<Rightarrow> stop_request \<times> sm_db" where
  "record_run_stop_request now rid reason db =
     (case update_runs
             (\<lambda>r. sr_id r = rid \<and> sr_stopped_at r = None \<and> sr_stop_requested_at r = None \<and> sr_stop_requested_reason r = None)
             (\<lambda>r. r\<lparr>sr_stop_requested_at := Some now, sr_stop_requested_reason := Some reason\<rparr>) db of
        (won, db1) \<Rightarrow>
          (if won then New_request
           else if \<exists>r\<in>set (sm_runs db1). sr_id r = rid \<and> sr_stopped_at r = None \<and> sr_stop_requested_at r \<noteq> None \<and>
                     sr_stop_requested_reason r \<noteq> None
           then Existing_request else Not_recorded, db1))"

definition reopen_run_row :: "time \<Rightarrow> string \<Rightarrow> sm_run \<Rightarrow> sm_run" where
  "reopen_run_row now reason r =
     r\<lparr>sr_stopped_at := None, sr_stop_reason := None, sr_stop_requested_at := Some now, sr_stop_requested_reason := Some reason\<rparr>"

text \<open>
  Reopening a finished run whose entry turns out to have filled.  \<open>env\<close> is what others commit between
  the read and the update.
\<close>

definition reopen_run_for_late_entry_fill :: "time \<Rightarrow> (sm_db \<Rightarrow> sm_db) \<Rightarrow> nat \<Rightarrow> sm_db \<Rightarrow> bool \<times> sm_db" where
  "reopen_run_for_late_entry_fill now env rid db =
     (case find_run rid db of
        None \<Rightarrow> (False, db)
      | Some run \<Rightarrow>
          if sr_stopped_at run = None then (sr_stop_requested_reason run \<noteq> None, db)
          else
            (let reason = (case sr_stop_reason run of Some r \<Rightarrow> if r \<noteq> [] then r else ''manual'' | None \<Rightarrow> ''manual'');
                 db1 = env db
             in case update_runs (\<lambda>r. sr_id r = rid \<and> sr_stopped_at r = sr_stopped_at run) (reopen_run_row now reason) db1 of
                  (won, db2) \<Rightarrow>
                    if \<not> won then
                      (case find_run rid db1 of
                         None \<Rightarrow> False
                       | Some r \<Rightarrow> sr_stopped_at r = None \<and> sr_stop_requested_reason r \<noteq> None, db1)
                    else
                      (True, snd (update_strategies
                         (\<lambda>s. st_id s = sr_strategy run \<and> st_current_run s = None \<and> st_status s = Stopped)
                         (\<lambda>s. s\<lparr>st_status := Running, st_current_run := Some rid\<rparr>) db2))))"

definition list_open_run_ids_after :: "int \<Rightarrow> int \<Rightarrow> sm_db \<Rightarrow> nat list" where
  "list_open_run_ids_after after page db =
     take (nat (max 1 (min page 100)))
       (sort (map sr_id (filter (\<lambda>r. sr_stopped_at r = None \<and> int (sr_id r) > max 0 after) (sm_runs db))))"

subsection \<open>Folding a broker's frame into an order\<close>

record order_frame =
  bf_status :: string
  bf_price :: "rat option"
  bf_qty :: "int option"
  bf_reject :: "string option"

record order_fold =
  ff_previous_status :: so_status
  ff_status :: so_status
  ff_previous_qty :: int
  ff_cumulative_qty :: int
  ff_delta :: int
  ff_previous_price :: "rat option"
  ff_price :: "rat option"
  ff_changed :: bool

definition terminal_status :: "so_status \<Rightarrow> bool" where
  "terminal_status s \<longleftrightarrow> s \<in> {So_complete, So_cancelled, So_rejected}"

definition frame_status :: "string \<Rightarrow> so_status" where
  "frame_status status =
     (let s = str_lower (strip status) in
      if s = ''complete'' then So_complete else if s = ''cancelled'' then So_cancelled
      else if s = ''rejected'' then So_rejected else So_open)"

definition stored_qty :: "sm_order \<Rightarrow> int" where
  "stored_qty row = max 0 (case so_filled_qty row of Some q \<Rightarrow> q | None \<Rightarrow> 0)"

text \<open>The cumulative quantity a frame is evidence of: a complete order without a quantity traded whole.\<close>

definition evidence_qty :: "sm_order \<Rightarrow> order_frame \<Rightarrow> int" where
  "evidence_qty row fr =
     (let q = max 0 (case bf_qty fr of Some q \<Rightarrow> q | None \<Rightarrow> 0) in
      if frame_status (bf_status fr) = So_complete \<and> q \<le> 0 then max 0 (so_qty row) else q)"

definition folded_status :: "so_status \<Rightarrow> so_status \<Rightarrow> int \<Rightarrow> so_status" where
  "folded_status previous incoming fill_delta =
     (if previous = So_complete then So_complete
      else if previous \<in> {So_cancelled, So_rejected} then
        (if incoming = So_complete \<and> fill_delta > 0 then So_complete else previous)
      else if terminal_status incoming then incoming
      else So_open)"

definition fold_facts :: "(rat \<Rightarrow> rat) \<Rightarrow> sm_order \<Rightarrow> order_frame \<Rightarrow> order_fold" where
  "fold_facts rd row fr =
     (let previous = stored_qty row;
          cumulative = max previous (evidence_qty row fr);
          fill_delta = cumulative - previous;
          next_status = folded_status (so_status row) (frame_status (bf_status fr)) fill_delta;
          price = map_option rd (so_avg_price row)
      in \<lparr> ff_previous_status = so_status row, ff_status = next_status, ff_previous_qty = previous,
           ff_cumulative_qty = cumulative, ff_delta = fill_delta, ff_previous_price = price,
           ff_price = (if fill_delta > 0 then bf_price fr else price),
           ff_changed = (next_status \<noteq> so_status row \<or> fill_delta > 0) \<rparr>)"

definition fold_row :: "time \<Rightarrow> order_frame \<Rightarrow> order_fold \<Rightarrow> sm_order \<Rightarrow> sm_order" where
  "fold_row now fr d r =
     (let r1 = r\<lparr>so_status := ff_status d\<rparr>;
          r2 = (if ff_delta d > 0 then r1\<lparr>so_filled_qty := Some (ff_cumulative_qty d), so_avg_price := bf_price fr\<rparr> else r1);
          r3 = (if ff_status d = So_complete \<and> ff_previous_status d \<noteq> So_complete then r2\<lparr>so_filled_at := Some now\<rparr> else r2)
      in if bf_reject fr \<noteq> None \<and> ff_status d \<in> {So_cancelled, So_rejected} then r3\<lparr>so_reject_reason := bf_reject fr\<rparr> else r3)"

text \<open>The condition of the update: the row still has the status and the quantity that were read.\<close>

definition unchanged_order :: "nat \<Rightarrow> sm_order \<Rightarrow> sm_order \<Rightarrow> bool" where
  "unchanged_order oid row r \<longleftrightarrow> so_id r = oid \<and> so_status r = so_status row \<and> so_filled_qty r = so_filled_qty row"

text \<open>\<open>env n\<close> is what others commit between the read and the write of the attempt with \<open>n\<close> more to go.\<close>

primrec fold_attempts ::
    "nat \<Rightarrow> (rat \<Rightarrow> rat) \<Rightarrow> time \<Rightarrow> (nat \<Rightarrow> sm_db \<Rightarrow> sm_db) \<Rightarrow> nat \<Rightarrow> order_frame \<Rightarrow> sm_db \<Rightarrow> order_fold option \<times> sm_db" where
  "fold_attempts 0 rd now env oid fr db = (None, db)"
| "fold_attempts (Suc n) rd now env oid fr db =
     (case find_sm_order oid db of
        None \<Rightarrow> (None, db)
      | Some row \<Rightarrow>
          (let d = fold_facts rd row fr in
           if \<not> ff_changed d then (Some d, db)
           else (case update_orders (unchanged_order oid row) (fold_row now fr d) (env n db) of
                   (won, db1) \<Rightarrow> if won then (Some d, db1) else fold_attempts n rd now env oid fr (env n db))))"

definition FOLD_ATTEMPTS :: nat where
  "FOLD_ATTEMPTS = 8"

definition fold_order_broker_frame :: "(rat \<Rightarrow> rat) \<Rightarrow> time \<Rightarrow> nat \<Rightarrow> order_frame \<Rightarrow> sm_db \<Rightarrow> order_fold option \<times> sm_db" where
  "fold_order_broker_frame rd now = fold_attempts FOLD_ATTEMPTS rd now (\<lambda>n db. db)"

subsection \<open>Other writes to an order\<close>

text \<open>The row number is the table's next one; the row's other columns are given.\<close>

definition record_sm_order :: "sm_order \<Rightarrow> sm_db \<Rightarrow> nat \<times> sm_db" where
  "record_sm_order row db =
     (let oid = Suc (fold (\<lambda>r n. max (so_id r) n) (sm_orders db) 0) in
      (oid, db\<lparr>sm_orders := sm_orders db @ [row\<lparr>so_id := oid\<rparr>]\<rparr>))"

text \<open>What the broker reports on it, each field only when given.\<close>

definition update_sm_order ::
    "time \<Rightarrow> nat \<Rightarrow> so_status option \<Rightarrow> string option \<Rightarrow> rat option \<Rightarrow> int option \<Rightarrow> string option \<Rightarrow> sm_db \<Rightarrow> bool \<times> sm_db" where
  "update_sm_order now oid status broker_id price qty reject db =
     (case find_sm_order oid db of
        None \<Rightarrow> (False, db)
      | Some row \<Rightarrow>
          (True, snd (update_orders (\<lambda>r. so_id r = oid)
             (\<lambda>r. r\<lparr>so_status := (case status of Some s \<Rightarrow> s | None \<Rightarrow> so_status r),
                      so_filled_at := (if status = Some So_complete \<and> so_filled_at r = None then Some now else so_filled_at r),
                      so_broker_id := (if broker_id \<noteq> None then broker_id else so_broker_id r),
                      so_avg_price := (if price \<noteq> None then price else so_avg_price r),
                      so_filled_qty := (if qty \<noteq> None then qty else so_filled_qty r),
                      so_reject_reason := (if reject \<noteq> None then reject else so_reject_reason r)\<rparr>) db)))"

definition transition_order_terminal ::
    "time \<Rightarrow> nat \<Rightarrow> so_status \<Rightarrow> rat option \<Rightarrow> int option \<Rightarrow> string option \<Rightarrow> sm_db \<Rightarrow> bool \<times> sm_db" where
  "transition_order_terminal now oid status price qty reject db =
     (if \<not> terminal_status status then (False, db)
      else update_orders (\<lambda>r. so_id r = oid \<and> \<not> terminal_status (so_status r))
             (\<lambda>r. r\<lparr>so_status := status,
                      so_filled_at := (if status = So_complete then Some now else so_filled_at r),
                      so_avg_price := (if price \<noteq> None then price else so_avg_price r),
                      so_filled_qty := (if qty \<noteq> None then qty else so_filled_qty r),
                      so_reject_reason := (if reject \<noteq> None then reject else so_reject_reason r)\<rparr>) db)"

definition get_order_by_broker_id :: "string \<Rightarrow> sm_db \<Rightarrow> sm_order option" where
  "get_order_by_broker_id bid db =
     (if bid = [] then None else find (\<lambda>r. so_broker_id r = Some bid) (sm_orders db))"

subsection \<open>Binding a lost acknowledgement\<close>

datatype ack_outcome = Repaired | Already_bound | Conflict | Missing

text \<open>\<open>str(value).strip()\<close>, None for an empty value.\<close>

definition stripped_id :: "string option \<Rightarrow> string option" where
  "stripped_id v = (case v of Some s \<Rightarrow> if s = [] then None else Some (strip s) | None \<Rightarrow> None)"

definition nonempty :: "string option \<Rightarrow> bool" where
  "nonempty v \<longleftrightarrow> (case v of Some s \<Rightarrow> s \<noteq> [] | None \<Rightarrow> False)"

definition carried_elsewhere :: "nat \<Rightarrow> string option \<Rightarrow> sm_db \<Rightarrow> bool" where
  "carried_elsewhere oid bid db \<longleftrightarrow> (\<exists>r\<in>set (sm_orders db). so_id r \<noteq> oid \<and> so_broker_id r = bid)"

definition ack_row :: "so_status \<Rightarrow> string option \<Rightarrow> string option \<Rightarrow> sm_order \<Rightarrow> sm_order" where
  "ack_row status bid reject r =
     r\<lparr>so_status := status, so_broker_id := (if nonempty bid then bid else so_broker_id r),
       so_reject_reason := (if status = So_rejected then reject else so_reject_reason r)\<rparr>"

primrec bind_attempts ::
    "nat \<Rightarrow> (nat \<Rightarrow> sm_db \<Rightarrow> sm_db) \<Rightarrow> nat \<Rightarrow> nat \<Rightarrow> nat \<Rightarrow> string option \<Rightarrow> so_status \<Rightarrow> string option \<Rightarrow> sm_db
     \<Rightarrow> ack_outcome \<times> sm_db" where
  "bind_attempts 0 env oid rid lid bid status reject db = (Conflict, db)"
| "bind_attempts (Suc n) env oid rid lid bid status reject db =
     (case find (\<lambda>r. so_id r = oid \<and> so_run r = rid \<and> so_leg r = lid) (sm_orders db) of
        None \<Rightarrow> (Missing, db)
      | Some row \<Rightarrow>
          (let current = stripped_id (so_broker_id row) in
           if nonempty current \<and> current \<noteq> bid then (Conflict, db)
           else if nonempty bid \<and> carried_elsewhere oid bid db then (Conflict, db)
           else if so_status row \<noteq> So_pending then
             (if status = So_open \<and> current = bid then (Already_bound, db)
              else if status = So_rejected \<and> so_status row = So_rejected \<and> current = bid then (Already_bound, db)
              else (Conflict, db))
           else
             (let db1 = env n db in
              case update_orders
                     (\<lambda>r. so_id r = oid \<and> so_run r = rid \<and> so_leg r = lid \<and> so_status r = so_status row \<and>
                          so_broker_id r = so_broker_id row \<and> \<not> (nonempty bid \<and> carried_elsewhere oid bid db1))
                     (ack_row status bid reject) db1 of
                (won, db2) \<Rightarrow>
                  if won then (Repaired, db2) else bind_attempts n env oid rid lid bid status reject db1)))"

definition bind_order_acknowledgement ::
    "nat \<Rightarrow> nat \<Rightarrow> nat \<Rightarrow> string option \<Rightarrow> string \<Rightarrow> string option \<Rightarrow> sm_db \<Rightarrow> ack_outcome \<times> sm_db" where
  "bind_order_acknowledgement oid rid lid broker_id status reject db =
     (let s = str_lower (strip status); bid = stripped_id broker_id in
      if s \<noteq> ''open'' \<and> s \<noteq> ''rejected'' then (Conflict, db)
      else if s = ''open'' \<and> \<not> nonempty bid then (Conflict, db)
      else bind_attempts 4 (\<lambda>n db. db) oid rid lid bid (if s = ''open'' then So_open else So_rejected) reject db)"

subsection \<open>The realised profit of a run, from its orders\<close>

record pnl_fact =
  pf_order :: nat
  pf_placed_at :: time
  pf_kind :: so_kind
  pf_action :: action
  pf_quantity :: int
  pf_price :: "rat option"

definition pnl_fill_fact :: "(rat \<Rightarrow> rat) \<Rightarrow> sm_order \<Rightarrow> pnl_fact option" where
  "pnl_fill_fact rd r =
     (let filled = (case so_filled_qty r of Some q \<Rightarrow> q | None \<Rightarrow> 0);
          quantity = (if so_status r = So_complete then (if filled \<noteq> 0 then filled else so_qty r) else filled);
          price = (case so_avg_price r of Some p \<Rightarrow> rd p | None \<Rightarrow> 0)
      in if \<not> terminal_status (so_status r) \<or> quantity \<le> 0 then None
         else Some \<lparr> pf_order = so_id r, pf_placed_at = so_placed_at r, pf_kind = so_kind r, pf_action = so_action r,
                     pf_quantity = quantity, pf_price = (if price > 0 then Some price else None) \<rparr>)"

record lot =
  lt_action :: action
  lt_price :: rat
  lt_remaining :: int

definition opposite :: "action \<Rightarrow> action" where
  "opposite a = (case a of BUY \<Rightarrow> SELL | SELL \<Rightarrow> BUY)"

definition lot_gain :: "lot \<Rightarrow> rat \<Rightarrow> int \<Rightarrow> rat" where
  "lot_gain l price n = (price - lt_price l) * of_int n * (case lt_action l of BUY \<Rightarrow> 1 | SELL \<Rightarrow> -1)"

text \<open>
  An exit of \<open>q\<close> against the open lots, first in first out: the lots after it, the gain and the quantity
  matched; None when a lot of the other direction is met.
\<close>

fun consume_lots :: "action \<Rightarrow> rat \<Rightarrow> int \<Rightarrow> lot list \<Rightarrow> (lot list \<times> rat \<times> int) option" where
  "consume_lots a price q [] = Some ([], 0, 0)"
| "consume_lots a price q (l # ls) =
     (if lt_remaining l \<le> 0 then
        map_option (\<lambda>(ls1, g, m). (l # ls1, g, m)) (consume_lots a price q ls)
      else if a \<noteq> opposite (lt_action l) then None
      else
        (let applied = min q (lt_remaining l);
             l1 = l\<lparr>lt_remaining := lt_remaining l - applied\<rparr>;
             gain = lot_gain l price applied
         in if q - applied \<le> 0 then Some (l1 # ls, gain, applied)
            else map_option (\<lambda>(ls1, g, m). (l1 # ls1, gain + g, applied + m)) (consume_lots a price (q - applied) ls)))"

record owner_pnl =
  ow_lots :: "lot list"
  ow_action :: "action option"
  ow_realized :: rat
  ow_settled :: nat

definition fold_fact :: "bool \<Rightarrow> pnl_fact \<Rightarrow> owner_pnl \<Rightarrow> owner_pnl option" where
  "fold_fact referenced f w =
     (let open_lots = filter (\<lambda>l. lt_remaining l > 0) (ow_lots w); price = (case pf_price f of Some p \<Rightarrow> p | None \<Rightarrow> 0) in
      case pf_kind f of
        Entry \<Rightarrow>
          if referenced \<and> ow_action w \<notin> {None, Some (pf_action f)} then None
          else if \<not> referenced \<and> open_lots \<noteq> [] \<and> pf_action f \<notin> lt_action ` set open_lots then None
          else Some (w\<lparr>ow_lots := ow_lots w @ [\<lparr>lt_action = pf_action f, lt_price = price, lt_remaining = pf_quantity f\<rparr>],
                       ow_action := (if referenced then Some (pf_action f) else ow_action w)\<rparr>)
      | Exit k \<Rightarrow>
          (case open_lots of
             [] \<Rightarrow> None
           | l # _ \<Rightarrow>
               if pf_action f \<noteq> opposite (lt_action l) then None
               else (case consume_lots (pf_action f) price (pf_quantity f) (ow_lots w) of
                       None \<Rightarrow> None
                     | Some (ls, g, m) \<Rightarrow>
                         Some (w\<lparr>ow_lots := ls, ow_realized := ow_realized w + g,
                                 ow_settled := (if m \<noteq> 0 then Suc (ow_settled w) else ow_settled w)\<rparr>))))"

primrec fold_facts_of :: "bool \<Rightarrow> pnl_fact list \<Rightarrow> owner_pnl \<Rightarrow> owner_pnl option" where
  "fold_facts_of referenced [] w = Some w"
| "fold_facts_of referenced (f # fs) w =
     (case fold_fact referenced f w of None \<Rightarrow> None | Some w1 \<Rightarrow> fold_facts_of referenced fs w1)"

definition no_pnl :: owner_pnl where
  "no_pnl = \<lparr>ow_lots = [], ow_action = None, ow_realized = 0, ow_settled = 0\<rparr>"

definition fold_owner_pnl :: "bool \<Rightarrow> pnl_fact list \<Rightarrow> (rat \<times> nat) option" where
  "fold_owner_pnl referenced fs =
     (if \<exists>f\<in>set fs. pf_price f = None then Some (0, 0)
      else map_option (\<lambda>w. (ow_realized w, ow_settled w))
             (fold_facts_of referenced (sort_key (\<lambda>f. (pf_placed_at f, pf_order f)) fs) no_pnl))"

text \<open>Which position an order belongs to: its reference, or the leg for rows without one.\<close>

datatype pnl_owner = Referenced nat string | Legacy nat

definition owner_of :: "sm_order \<Rightarrow> pnl_owner" where
  "owner_of r = (case so_position_ref r of Some p \<Rightarrow> if p \<noteq> [] then Referenced (so_leg r) p else Legacy (so_leg r) | None \<Rightarrow> Legacy (so_leg r))"

definition owner_facts :: "(rat \<Rightarrow> rat) \<Rightarrow> sm_order list \<Rightarrow> (pnl_owner \<times> pnl_fact list) list" where
  "owner_facts rd rows =
     (let facts = List.map_filter (\<lambda>r. map_option (\<lambda>f. (owner_of r, f)) (pnl_fill_fact rd r)) rows
      in map (\<lambda>w. (w, map snd (filter (\<lambda>x. fst x = w) facts))) (remdups (map fst facts)))"

primrec sum_owners :: "(pnl_owner \<times> pnl_fact list) list \<Rightarrow> (rat \<times> nat) option" where
  "sum_owners [] = Some (0, 0)"
| "sum_owners (x # xs) =
     (case fold_owner_pnl (case fst x of Referenced l p \<Rightarrow> True | Legacy l \<Rightarrow> False) (snd x) of
        None \<Rightarrow> None
      | Some (r, n) \<Rightarrow> map_option (\<lambda>(r1, n1). (r + r1, n + n1)) (sum_owners xs))"

definition reconcile_run_pnl :: "(rat \<Rightarrow> rat) \<Rightarrow> nat \<Rightarrow> sm_db \<Rightarrow> rat option \<times> sm_db" where
  "reconcile_run_pnl rd rid db =
     (if find_run rid db = None then (None, db)
      else case sum_owners (owner_facts rd (filter (\<lambda>r. so_run r = rid) (sm_orders db))) of
             None \<Rightarrow> (None, db)
           | Some (realized, settled) \<Rightarrow>
               if settled = 0 then (None, db)
               else (Some realized, snd (update_runs (\<lambda>r. sr_id r = rid) (\<lambda>r. r\<lparr>sr_pnl_realized := realized\<rparr>) db)))"

end
