(* ===== verification/StrategyState.thy ===== *)
theory StrategyState
  imports StrategyRisk StrategyDB
begin

text \<open>
  The operations on a run's live state (\<open>strategy_module/state.py\<close>): claims of an exit or of a signal
  entry, their binding to order rows, their release, and the legs a flip installs.  Each runs under the
  run's lock, so it is one step from a state to an answer and a state.

  A new position reference or claim token (\<open>new_position_ref\<close>) is an argument: what the code relies on
  is that it is fresh.  The registry maps a run to its state; a run without one has no lock either.
\<close>

subsection \<open>The registry\<close>

type_synonym run_registry = "nat \<Rightarrow> run_state option"

text \<open>An operation on a run, with the answer for a run that has no state.\<close>

definition on_run :: "nat \<Rightarrow> 'a \<Rightarrow> (run_state \<Rightarrow> 'a \<times> run_state) \<Rightarrow> run_registry \<Rightarrow> 'a \<times> run_registry" where
  "on_run rid absent f runs =
     (case runs rid of None \<Rightarrow> (absent, runs) | Some s \<Rightarrow> (case f s of (a, s1) \<Rightarrow> (a, runs(rid := Some s1))))"

text \<open>What a leg is started from: its configuration, resolved to a contract.\<close>

record leg_seed =
  ls_leg_id :: string
  ls_position :: loose
  ls_symbol :: string
  ls_exchange :: string
  ls_quantity :: int
  ls_position_ref :: "string option"
  ls_risk_unit :: "string option"
  ls_sl_pts :: loose
  ls_target_pts :: loose
  ls_trail :: "(loose \<times> loose) option"

definition side_of_text :: "loose \<Rightarrow> action option" where
  "side_of_text v =
     (case v of
        Ltext s \<Rightarrow> if str_upper s = ''B'' then Some BUY else if str_upper s = ''S'' then Some SELL else None
      | _ \<Rightarrow> None)"

definition or_zero :: "loose \<Rightarrow> loose" where
  "or_zero v = (if truthy v then v else Lint 0)"

definition new_leg_state :: "leg_seed \<Rightarrow> leg option" where
  "new_leg_state sp =
     (case side_of_text (ls_position sp) of
        None \<Rightarrow> None
      | Some side \<Rightarrow> Some
          \<lparr> lg_id = ls_leg_id sp, lg_position = side, lg_symbol = ls_symbol sp, lg_exchange = ls_exchange sp,
            lg_qty = ls_quantity sp, lg_position_ref = ls_position_ref sp, lg_entry_order_id = None,
            lg_entry_status = Entry_pending, lg_entry_filled_qty = 0, lg_entry_avg = 0, lg_exit_order_id = None,
            lg_exit_claim_token = None, lg_exit_kind = None, lg_exit_avg = None, lg_ltp = None, lg_mtm = 0,
            lg_realized_pnl = 0, lg_status = Configured,
            lg_risk_unit = (case ls_risk_unit sp of Some u \<Rightarrow> if u \<noteq> [] then Some u else Some ''points'' | None \<Rightarrow> Some ''points''),
            lg_sl_pts = ls_sl_pts sp, lg_target_pts = ls_target_pts sp,
            lg_trail_x = (case ls_trail sp of Some (x, y) \<Rightarrow> or_zero x | None \<Rightarrow> Lint 0),
            lg_trail_y = (case ls_trail sp of Some (x, y) \<Rightarrow> or_zero y | None \<Rightarrow> Lint 0),
            lg_effective_sl = None, lg_effective_target = None, lg_trail_active = False, lg_highest_price = None,
            lg_lowest_price = None, lg_superseded = None \<rparr>)"

text \<open>A leg put under its id: in the place of the one that was there, or at the end.\<close>

definition put_leg :: "leg \<Rightarrow> run_state \<Rightarrow> run_state" where
  "put_leg l s =
     (if find_leg (lg_id l) s \<noteq> None then change_leg (lg_id l) (\<lambda>x. l) s else s\<lparr>rs_legs := rs_legs s @ [l]\<rparr>)"

definition new_run_state :: "nat \<Rightarrow> nat \<Rightarrow> run_state" where
  "new_run_state rid sid =
     \<lparr> rs_run_id = rid, rs_strategy_id = sid, rs_pnl_realized = 0, rs_pnl_unrealized = 0, rs_pnl_total = 0,
       rs_pnl_peak = 0, rs_pnl_trough = 0, rs_lock_armed = False, rs_lock_floor = None,
       rs_trail_to_entry_active = False, rs_stopping = False, rs_claims = [], rs_legs = [] \<rparr>"

text \<open>None when a leg has no usable side: the call raises before anything is stored.\<close>

definition init_run_state :: "nat \<Rightarrow> nat \<Rightarrow> leg_seed list \<Rightarrow> run_registry \<Rightarrow> run_registry option" where
  "init_run_state rid sid specs runs =
     (if \<exists>sp\<in>set specs. new_leg_state sp = None then None
      else Some (runs(rid \<mapsto> fold put_leg (List.map_filter new_leg_state specs) (new_run_state rid sid))))"

definition hydrate_run_state :: "nat \<Rightarrow> run_state \<Rightarrow> run_registry \<Rightarrow> run_registry" where
  "hydrate_run_state rid s runs = runs(rid \<mapsto> s)"

definition clear_run_state :: "nat \<Rightarrow> run_registry \<Rightarrow> run_registry" where
  "clear_run_state rid runs = runs(rid := None)"

subsection \<open>Claiming an exit\<close>

definition exit_in_flight :: "leg \<Rightarrow> bool" where
  "exit_in_flight l \<longleftrightarrow> lg_exit_kind l \<noteq> None \<or> lg_exit_claim_token l \<noteq> None \<or> lg_exit_order_id l \<noteq> None"

definition claim_exit_row :: "string \<Rightarrow> string \<Rightarrow> leg \<Rightarrow> leg" where
  "claim_exit_row tok kind l = l\<lparr>lg_exit_kind := Some kind, lg_exit_claim_token := Some tok\<rparr>"

definition claim_leg_exit :: "string \<Rightarrow> string \<Rightarrow> string \<Rightarrow> run_state \<Rightarrow> leg option \<times> run_state" where
  "claim_leg_exit tok lid kind s =
     (case find_leg lid s of
        None \<Rightarrow> (None, s)
      | Some l \<Rightarrow>
          if lg_status l \<noteq> Open_leg then (None, s)
          else if lg_entry_status l \<noteq> Entry_complete then (None, s)
          else if exit_in_flight l then (None, s)
          else (Some (claim_exit_row tok kind l), change_leg lid (claim_exit_row tok kind) s))"

text \<open>One pass over the legs named, each with a token of its own: those claimed and those not yet filled.\<close>

primrec claim_legs_for_exit :: "(string \<times> string) list \<Rightarrow> string \<Rightarrow> run_state \<Rightarrow> (leg list \<times> leg list) \<times> run_state" where
  "claim_legs_for_exit [] kind s = (([], []), s)"
| "claim_legs_for_exit (x # xs) kind s =
     (case find_leg (fst x) s of
        None \<Rightarrow> claim_legs_for_exit xs kind s
      | Some l \<Rightarrow>
          if lg_status l \<noteq> Open_leg \<or> exit_in_flight l then claim_legs_for_exit xs kind s
          else if lg_entry_status l \<noteq> Entry_complete then
            (case claim_legs_for_exit xs kind s of ((claimed, unfilled), s1) \<Rightarrow> ((claimed, l # unfilled), s1))
          else
            (case claim_legs_for_exit xs kind (change_leg (fst x) (claim_exit_row (snd x) kind) s) of
               ((claimed, unfilled), s1) \<Rightarrow> ((claim_exit_row (snd x) kind l # claimed, unfilled), s1)))"

text \<open>A claim is named by its token or, once it is bound, by its order row.\<close>

datatype claim_ref = Token string | Row nat

definition names_claim :: "claim_ref \<Rightarrow> string option \<Rightarrow> nat option \<Rightarrow> bool" where
  "names_claim c tok row \<longleftrightarrow> (case c of Token t \<Rightarrow> tok = Some t | Row n \<Rightarrow> row = Some n)"

definition clear_exit :: "leg \<Rightarrow> leg" where
  "clear_exit l = l\<lparr>lg_exit_order_id := None, lg_exit_claim_token := None, lg_exit_kind := None\<rparr>"

definition clear_outgoing_exit :: "outgoing \<Rightarrow> outgoing" where
  "clear_outgoing_exit og = og\<lparr>og_exit_order_id := None, og_exit_claim_token := None, og_exit_kind := None\<rparr>"

definition change_outgoing :: "(outgoing \<Rightarrow> outgoing) \<Rightarrow> leg \<Rightarrow> leg" where
  "change_outgoing f l = l\<lparr>lg_superseded := map_option f (lg_superseded l)\<rparr>"

definition release_leg_exit :: "string \<Rightarrow> claim_ref option \<Rightarrow> run_state \<Rightarrow> bool \<times> run_state" where
  "release_leg_exit lid claim s =
     (case (claim, find_leg lid s) of
        (Some c, Some l) \<Rightarrow>
          if names_claim c (lg_exit_claim_token l) (lg_exit_order_id l) then (True, change_leg lid clear_exit s) else (False, s)
      | _ \<Rightarrow> (False, s))"

definition bind_live_exit :: "string \<Rightarrow> string option \<Rightarrow> nat \<Rightarrow> string option \<Rightarrow> run_state \<Rightarrow> bool \<times> run_state" where
  "bind_live_exit lid tok row ref s =
     (case find_leg lid s of
        None \<Rightarrow> (False, s)
      | Some l \<Rightarrow>
          if tok = None \<or> lg_exit_claim_token l \<noteq> tok \<or> lg_exit_order_id l \<noteq> None \<or>
             (ref \<noteq> None \<and> lg_position_ref l \<noteq> ref) then (False, s)
          else (True, change_leg lid (\<lambda>l. l\<lparr>lg_exit_order_id := Some row\<rparr>) s))"

datatype exit_owner = Superseded_owner | Live_owner

text \<open>Whose exit an order row is: the outgoing position's, the live one's or nobody's.\<close>

definition exit_owner_of :: "nat \<Rightarrow> string option \<Rightarrow> leg \<Rightarrow> exit_owner option" where
  "exit_owner_of row ref l =
     (if (case lg_superseded l of None \<Rightarrow> False
          | Some og \<Rightarrow> og_exit_order_id og = Some row \<and> (ref = None \<or> og_position_ref og = ref)) then Some Superseded_owner
      else if lg_exit_order_id l = Some row \<and> (ref = None \<or> lg_position_ref l = ref) then Some Live_owner
      else None)"

definition release_order_exit :: "string \<Rightarrow> nat \<Rightarrow> string option \<Rightarrow> run_state \<Rightarrow> exit_owner option \<times> run_state" where
  "release_order_exit lid row ref s =
     (case find_leg lid s of
        None \<Rightarrow> (None, s)
      | Some l \<Rightarrow>
          (case exit_owner_of row ref l of
             None \<Rightarrow> (None, s)
           | Some Superseded_owner \<Rightarrow> (Some Superseded_owner, change_leg lid (change_outgoing clear_outgoing_exit) s)
           | Some Live_owner \<Rightarrow> (Some Live_owner, change_leg lid clear_exit s)))"

subsection \<open>The outgoing side of a flip\<close>

definition outgoing_of :: "string \<Rightarrow> run_state \<Rightarrow> outgoing option" where
  "outgoing_of lid s = (case find_leg lid s of Some l \<Rightarrow> lg_superseded l | None \<Rightarrow> None)"

definition release_superseded_exit :: "string \<Rightarrow> claim_ref option \<Rightarrow> run_state \<Rightarrow> bool \<times> run_state" where
  "release_superseded_exit lid claim s =
     (case (claim, outgoing_of lid s) of
        (Some c, Some og) \<Rightarrow>
          if names_claim c (og_exit_claim_token og) (og_exit_order_id og)
          then (True, change_leg lid (change_outgoing clear_outgoing_exit) s) else (False, s)
      | _ \<Rightarrow> (False, s))"

definition bind_superseded_exit :: "string \<Rightarrow> string option \<Rightarrow> nat \<Rightarrow> run_state \<Rightarrow> bool \<times> run_state" where
  "bind_superseded_exit lid tok row s =
     (case outgoing_of lid s of
        None \<Rightarrow> (False, s)
      | Some og \<Rightarrow>
          if tok = None \<or> og_exit_claim_token og \<noteq> tok then (False, s)
          else (True, change_leg lid (change_outgoing (\<lambda>og. og\<lparr>og_exit_order_id := Some row\<rparr>)) s))"

definition claim_superseded_exit :: "string \<Rightarrow> string \<Rightarrow> action \<Rightarrow> run_state \<Rightarrow> outgoing option \<times> run_state" where
  "claim_superseded_exit tok lid side s =
     (case outgoing_of lid s of
        None \<Rightarrow> (None, s)
      | Some og \<Rightarrow>
          if og_exit_claim_token og \<noteq> None \<or> og_exit_order_id og \<noteq> None then (None, s)
          else if og_position og \<noteq> side then (None, s)
          else (Some (og\<lparr>og_exit_claim_token := Some tok\<rparr>),
                change_leg lid (change_outgoing (\<lambda>og. og\<lparr>og_exit_claim_token := Some tok\<rparr>)) s))"

subsection \<open>Signal entries\<close>

datatype signal_note = Run_stopping | Flip_pending | Already_long | Already_short

definition already :: "action \<Rightarrow> signal_note" where
  "already a = (case a of BUY \<Rightarrow> Already_long | SELL \<Rightarrow> Already_short)"

definition claim_signal_entry ::
    "string \<Rightarrow> string \<Rightarrow> string \<Rightarrow> action \<Rightarrow> run_state \<Rightarrow> (signal_note + entry_claim) \<times> run_state" where
  "claim_signal_entry tok ref lid requested s =
     (if rs_stopping s then (Inl Run_stopping, s)
      else if map_of (rs_claims s) lid \<noteq> None then (Inl Flip_pending, s)
      else
        (let l = find_leg lid s;
             live = (case l of Some x \<Rightarrow> if lg_status x = Open_leg then Some (lg_position x) else None | None \<Rightarrow> None);
             og = (case l of Some x \<Rightarrow> lg_superseded x | None \<Rightarrow> None)
         in if live = Some requested then (Inl (already requested), s)
            else if live \<noteq> None \<and> og \<noteq> None then (Inl Flip_pending, s)
            else if (case og of Some x \<Rightarrow> og_position x = requested | None \<Rightarrow> False) then (Inl (already requested), s)
            else if og \<noteq> None then (Inl Flip_pending, s)
            else if live \<noteq> None \<and> (case l of Some x \<Rightarrow> exit_in_flight x | None \<Rightarrow> False) then (Inl Flip_pending, s)
            else
              (let c = \<lparr> ec_token = tok, ec_position_ref = ref, ec_position = requested, ec_held_position = live,
                         ec_expected_ref = (case l of Some x \<Rightarrow> lg_position_ref x | None \<Rightarrow> None) \<rparr>
               in (Inr c, s\<lparr>rs_claims := AList.update lid c (rs_claims s)\<rparr>))))"

definition release_signal_entry_claim :: "string \<Rightarrow> string \<Rightarrow> run_state \<Rightarrow> bool \<times> run_state" where
  "release_signal_entry_claim lid tok s =
     (case map_of (rs_claims s) lid of
        None \<Rightarrow> (False, s)
      | Some c \<Rightarrow> if ec_token c \<noteq> tok then (False, s) else (True, s\<lparr>rs_claims := AList.delete lid (rs_claims s)\<rparr>))"

definition outgoing_from :: "leg \<Rightarrow> outgoing" where
  "outgoing_from l =
     \<lparr> og_exit_order_id = lg_exit_order_id l, og_exit_claim_token = lg_exit_claim_token l, og_exit_kind = lg_exit_kind l,
       og_entry_order_id = lg_entry_order_id l, og_position_ref = lg_position_ref l, og_position = lg_position l,
       og_entry_avg = lg_entry_avg l, og_qty = lg_qty l \<rparr>"

text \<open>None as well when the leg's side is unusable, where the code raises with the state as it was.\<close>

definition add_leg :: "leg_seed \<Rightarrow> string \<Rightarrow> string option \<Rightarrow> nat \<Rightarrow> run_state \<Rightarrow> leg option \<times> run_state" where
  "add_leg sp tok expected_ref row s =
     (if rs_stopping s then (None, s)
      else case map_of (rs_claims s) (ls_leg_id sp) of
        None \<Rightarrow> (None, s)
      | Some c \<Rightarrow>
          if ec_token c \<noteq> tok \<or> Some (ec_position_ref c) \<noteq> ls_position_ref sp \<or> ec_expected_ref c \<noteq> expected_ref then (None, s)
          else
            (let previous = find_leg (ls_leg_id sp) s in
             if (case previous of Some p \<Rightarrow> lg_position_ref p | None \<Rightarrow> None) \<noteq> expected_ref then (None, s)
             else if (case previous of Some p \<Rightarrow> lg_superseded p \<noteq> None | None \<Rightarrow> False) then (None, s)
             else case new_leg_state sp of
               None \<Rightarrow> (None, s)
             | Some l \<Rightarrow>
                 (let l1 = l\<lparr>lg_entry_order_id := Some row\<rparr> in
                  case previous of
                    None \<Rightarrow> (Some l1, put_leg l1 s)
                  | Some p \<Rightarrow>
                      if ec_held_position c \<noteq> None \<and> lg_status p = Open_leg \<and>
                         (lg_exit_kind p = None \<or> lg_exit_claim_token p = None) then (None, s)
                      else
                        (let l2 = l1\<lparr>lg_superseded := (if ec_held_position c \<noteq> None \<and> lg_status p = Open_leg
                                                        then Some (outgoing_from p) else None),
                                     lg_realized_pnl := lg_realized_pnl p\<rparr>
                         in (Some l2, put_leg l2 s)))))"

definition finish_signal_entry :: "string \<Rightarrow> string \<Rightarrow> string \<Rightarrow> bool \<Rightarrow> run_state \<Rightarrow> bool \<times> run_state" where
  "finish_signal_entry lid ref tok accepted s =
     (case (find_leg lid s, map_of (rs_claims s) lid) of
        (Some l, Some c) \<Rightarrow>
          if lg_position_ref l \<noteq> Some ref \<or> ec_token c \<noteq> tok then (False, s)
          else
            (True, (if lg_entry_status l = Entry_pending
                    then change_leg lid (\<lambda>l. l\<lparr>lg_entry_status := (if accepted then Entry_open else Entry_rejected),
                                               lg_status := (if accepted then Open_leg else Rejected_leg)\<rparr>) s
                    else s)\<lparr>rs_claims := AList.delete lid (rs_claims s)\<rparr>)
      | _ \<Rightarrow> (False, s))"

definition reject_entry_intent :: "string \<Rightarrow> string option \<Rightarrow> run_state \<Rightarrow> bool \<times> run_state" where
  "reject_entry_intent lid ref s =
     (case find_leg lid s of
        None \<Rightarrow> (False, s)
      | Some l \<Rightarrow>
          if lg_position_ref l \<noteq> ref \<or> lg_entry_status l = Entry_complete then (False, s)
          else (True, change_leg lid (\<lambda>l. l\<lparr>lg_entry_order_id := None, lg_entry_status := Entry_rejected, lg_status := Rejected_leg\<rparr>) s))"

definition mark_stopping :: "run_state \<Rightarrow> bool \<times> run_state" where
  "mark_stopping s = (True, s\<lparr>rs_stopping := True\<rparr>)"

subsection \<open>Reading a run\<close>

definition favorable_peak_points :: "leg \<Rightarrow> rat" where
  "favorable_peak_points l =
     (if lg_entry_avg l = 0 then 0
      else case lg_position l of
        BUY \<Rightarrow> (case lg_highest_price l of Some p \<Rightarrow> if p \<noteq> 0 then max 0 (p - lg_entry_avg l) else 0 | None \<Rightarrow> 0)
      | SELL \<Rightarrow> (case lg_lowest_price l of Some p \<Rightarrow> if p \<noteq> 0 then max 0 (lg_entry_avg l - p) else 0 | None \<Rightarrow> 0))"

definition legs_for_symbol :: "run_state \<Rightarrow> string \<Rightarrow> string \<Rightarrow> leg list" where
  "legs_for_symbol s symbol exchange =
     filter (\<lambda>l. lg_status l = Open_leg \<and> lg_symbol l = symbol \<and> lg_exchange l = exchange) (rs_legs s)"

definition subscribed_symbols :: "run_state \<Rightarrow> (string \<times> string) set" where
  "subscribed_symbols s =
     set (map (\<lambda>l. (lg_symbol l, lg_exchange l)) (filter (\<lambda>l. lg_status l = Configured \<or> lg_status l = Open_leg) (rs_legs s)))"

end
