(* ===== verification/StrategyFill.thy ===== *)
theory StrategyFill
  imports StrategyState
begin

text \<open>
  Fills and the run they belong to: what a fill does to a leg (\<open>engine._apply_fill\<close>), when a run has
  nothing left to manage and is finished (\<open>engine._finalise\<close>), and how a broker's frame reaches it through
  the order row (\<open>order_events._apply_frame\<close>).

  The live runs and the tables are one pair.  What a frame hands on to parts that are not modelled
  (retrying a pending stop, recovering a run, cancelling a retry at the broker, audit rows) is a list of
  requests.
\<close>

subsection \<open>What still needs managing\<close>

definition leg_requires_management :: "leg \<Rightarrow> bool" where
  "leg_requires_management l \<longleftrightarrow>
     (if lg_superseded l \<noteq> None then True
      else if lg_exit_order_id l \<noteq> None \<or> lg_exit_claim_token l \<noteq> None then True
      else if lg_status l = Open_leg then True
      else lg_entry_status l \<in> {Entry_pending, Entry_open})"

definition managed_leg_ids :: "run_state \<Rightarrow> string list" where
  "managed_leg_ids s = map lg_id (filter leg_requires_management (rs_legs s))"

definition run_requires_management :: "run_state \<Rightarrow> bool" where
  "run_requires_management s \<longleftrightarrow> rs_claims s \<noteq> [] \<or> (\<exists>l\<in>set (rs_legs s). leg_requires_management l)"

subsection \<open>One fill\<close>

definition exit_fill_quantities :: "int option \<Rightarrow> int \<Rightarrow> int \<times> int" where
  "exit_fill_quantities filled held =
     (let h = max 0 held;
          applied = (case filled of None \<Rightarrow> h | Some q \<Rightarrow> min (max 0 q) h)
      in (applied, h - applied))"

record fill =
  fl_price :: "rat option"
  fl_is_entry :: bool
  fl_qty :: "int option"
  fl_row :: "nat option"
  fl_ref :: "string option"
  fl_cumulative :: "int option"
  fl_terminal :: bool
  fl_correction :: bool

definition side_sign :: "action \<Rightarrow> rat" where
  "side_sign a = (case a of BUY \<Rightarrow> 1 | SELL \<Rightarrow> -1)"

definition settles_superseded :: "fill \<Rightarrow> leg \<Rightarrow> bool" where
  "settles_superseded fl l \<longleftrightarrow>
     (case lg_superseded l of
        None \<Rightarrow> False
      | Some og \<Rightarrow>
          \<not> fl_is_entry fl \<and>
          ((fl_ref fl \<noteq> None \<and> og_position_ref og = fl_ref fl) \<or>
           (fl_ref fl = None \<and> og_exit_order_id og = fl_row fl) \<or>
           (fl_ref fl = None \<and> fl_row fl = None \<and> lg_exit_order_id l = None)))"

definition settle_outgoing :: "fill \<Rightarrow> outgoing \<Rightarrow> leg \<Rightarrow> leg" where
  "settle_outgoing fl og l =
     (case exit_fill_quantities (fl_qty fl) (og_qty og) of
        (applied, remaining) \<Rightarrow>
          (let l1 = (case fl_price fl of
                       Some p \<Rightarrow>
                         if og_entry_avg og > 0
                         then l\<lparr>lg_realized_pnl := lg_realized_pnl l + (p - og_entry_avg og) * of_int applied * side_sign (og_position og)\<rparr>
                         else l
                     | None \<Rightarrow> l);
               owns = (fl_row fl = None \<or> og_exit_order_id og = fl_row fl);
               release = (fl_terminal fl \<and> owns)
           in if remaining > 0 \<or> \<not> release then
                l1\<lparr>lg_superseded := Some (let og1 = og\<lparr>og_qty := remaining\<rparr> in if release then clear_outgoing_exit og1 else og1)\<rparr>
              else l1\<lparr>lg_superseded := None\<rparr>))"

definition fill_entry :: "fill \<Rightarrow> leg \<Rightarrow> leg" where
  "fill_entry fl l =
     (let l1 = (case fl_price fl of Some p \<Rightarrow> l\<lparr>lg_entry_avg := p\<rparr> | None \<Rightarrow> l);
          managed = (if fl_cumulative fl \<noteq> None then fl_cumulative fl else fl_qty fl);
          l2 = (case managed of Some q \<Rightarrow> l1\<lparr>lg_qty := q\<rparr> | None \<Rightarrow> l1);
          l3 = (case fl_cumulative fl of Some q \<Rightarrow> l2\<lparr>lg_entry_filled_qty := q\<rparr> | None \<Rightarrow> l2)
      in l3\<lparr>lg_entry_status := (if fl_terminal fl then Entry_complete else Entry_open), lg_status := Open_leg\<rparr>)"

definition fill_exit :: "fill \<Rightarrow> leg \<Rightarrow> leg" where
  "fill_exit fl l =
     (case exit_fill_quantities (fl_qty fl) (lg_qty l) of
        (applied, remaining) \<Rightarrow>
          (let l1 = (case fl_price fl of Some p \<Rightarrow> l\<lparr>lg_exit_avg := Some p\<rparr> | None \<Rightarrow> l);
               l2 = (case fl_price fl of
                       Some p \<Rightarrow>
                         if applied > 0 \<and> lg_entry_avg l > 0
                         then l1\<lparr>lg_realized_pnl := lg_realized_pnl l + (p - lg_entry_avg l) * of_int applied * side_sign (lg_position l)\<rparr>
                         else l1
                     | None \<Rightarrow> l1);
               owns = (fl_row fl = None \<or> lg_exit_order_id l = fl_row fl);
               l3 = (if remaining > 0 then l2\<lparr>lg_qty := remaining, lg_status := Open_leg\<rparr>
                     else l2\<lparr>lg_qty := 0, lg_status := Closed_leg, lg_mtm := 0\<rparr>)
           in if fl_terminal fl \<and> owns then clear_exit l3 else l3))"

text \<open>The totals of the run after a change of its legs.\<close>

definition recompute_totals :: "run_state \<Rightarrow> run_state" where
  "recompute_totals s =
     (case run_pnl s of (realized, unrealized) \<Rightarrow>
        s\<lparr>rs_pnl_realized := realized, rs_pnl_unrealized := unrealized, rs_pnl_total := realized + unrealized,
          rs_pnl_peak := max (rs_pnl_peak s) (realized + unrealized),
          rs_pnl_trough := min (rs_pnl_trough s) (realized + unrealized)\<rparr>)"

text \<open>Applied says whether an entry was filled for good, and whether the run has gone flat.\<close>

datatype fill_effect = No_leg | Wrong_position | Waiting_for_another | No_exit_in_flight | Applied bool bool

definition fill_leg :: "string \<Rightarrow> fill \<Rightarrow> run_state \<Rightarrow> fill_effect \<times> run_state" where
  "fill_leg lid fl s =
     (case find_leg lid s of
        None \<Rightarrow> (No_leg, s)
      | Some l \<Rightarrow>
          (let applied = (\<lambda>f. let s1 = recompute_totals (change_leg lid f s)
                              in (Applied (fl_is_entry fl \<and> fl_terminal fl) (\<not> run_requires_management s1), s1));
               expected = (if fl_is_entry fl then lg_entry_order_id l else lg_exit_order_id l)
           in if settles_superseded fl l then
                (case lg_superseded l of Some og \<Rightarrow> applied (settle_outgoing fl og) | None \<Rightarrow> (No_leg, s))
              else if fl_ref fl \<noteq> None \<and> lg_position_ref l \<noteq> fl_ref fl then (Wrong_position, s)
              else if fl_row fl \<noteq> None \<and> expected \<noteq> None \<and> expected \<noteq> fl_row fl \<and> \<not> fl_correction fl then (Waiting_for_another, s)
              else if \<not> fl_is_entry fl \<and> fl_row fl \<noteq> None \<and> lg_exit_kind l = None \<and> lg_exit_order_id l = None \<and> \<not> fl_correction fl
              then (No_exit_in_flight, s)
              else if fl_is_entry fl then applied (fill_entry fl)
              else applied (fill_exit fl)))"

subsection \<open>Finishing a run that has gone flat\<close>

type_synonym engine_state = "run_registry \<times> sm_db"

definition finalise :: "time \<Rightarrow> nat \<Rightarrow> nat \<Rightarrow> string \<Rightarrow> engine_state \<Rightarrow> bool \<times> engine_state" where
  "finalise now rid sid reason es =
     (case es of (runs, db) \<Rightarrow>
        if (case runs rid of Some s \<Rightarrow> run_requires_management s | None \<Rightarrow> False) then (False, es)
        else
          (let figures = (case runs rid of Some s \<Rightarrow> (rs_pnl_realized s, rs_pnl_peak s, rs_pnl_trough s) | None \<Rightarrow> (0, 0, 0));
               first = finish_run_and_release_strategy now rid sid reason figures db;
               second = (if fst first then first else finish_detached_run now rid sid reason figures (snd first))
           in if \<not> fst second then (False, (runs, snd second))
              else (True, (clear_run_state rid runs, snd second))))"

text \<open>What the handlers ask of the parts that are not modelled.\<close>

datatype request =
    Recover_run nat
  | Report_unpriced string int
  | Cancel_retry nat
  | Retry_pending_stop
  | Report_flip_rejected string
  | Report_stop_failed string
  | Report_stranded string

definition apply_fill ::
    "(rat \<Rightarrow> rat) \<Rightarrow> time \<Rightarrow> nat \<Rightarrow> string \<Rightarrow> fill \<Rightarrow> engine_state \<Rightarrow> (bool \<times> request list) \<times> engine_state" where
  "apply_fill rd now rid lid fl es =
     (case es of (runs, db) \<Rightarrow>
        case runs rid of
          None \<Rightarrow> ((False, []), (runs, if fl_is_entry fl then db else snd (reconcile_run_pnl rd rid db)))
        | Some s \<Rightarrow>
            (case fill_leg lid fl s of (eff, s1) \<Rightarrow>
               (let runs1 = runs(rid \<mapsto> s1) in
                case eff of
                  Applied entry_applied went_flat \<Rightarrow>
                    if entry_applied then ((False, [Retry_pending_stop]), (runs1, db))
                    else if \<not> went_flat then ((False, []), (runs1, db))
                    else (case find_run rid db of
                            None \<Rightarrow> ((True, []), (runs1, db))
                          | Some r \<Rightarrow>
                              if sr_stopped_at r \<noteq> None then ((True, []), (runs1, db))
                              else if sr_stop_requested_reason r = None \<and>
                                      (case find (\<lambda>s. st_id s = rs_strategy_id s1) (sm_strategies db) of
                                         Some st \<Rightarrow> st_kind st = Signal | None \<Rightarrow> False)
                              then ((True, []), (runs1, db))
                              else ((True, []), snd (finalise now rid (rs_strategy_id s1)
                                      (case sr_stop_requested_reason r of Some q \<Rightarrow> q | None \<Rightarrow> ''manual'') (runs1, db))))
                | _ \<Rightarrow> ((False, []), (runs1, db)))))"

subsection \<open>A frame from the broker\<close>

definition usable_price :: "loose \<Rightarrow> rat option" where
  "usable_price v =
     (case (case v of Lbool b \<Rightarrow> Some (if b then 1 else 0) | _ \<Rightarrow> finite_number v) of
        Some r \<Rightarrow> if r > 0 then Some r else None | None \<Rightarrow> None)"

text \<open>\<open>int(float(value))\<close>; an infinite value raises out of the call and drops the frame, which None for it is not.\<close>

definition whole_qty :: "loose \<Rightarrow> int option" where
  "whole_qty v =
     (case (case v of Lbool b \<Rightarrow> Some (if b then 1 else 0) | _ \<Rightarrow> finite_number v) of
        None \<Rightarrow> None
      | Some r \<Rightarrow> (let q = (if r \<ge> 0 then \<lfloor>r\<rfloor> else \<lceil>r\<rceil>) in if q > 0 then Some q else None))"

definition FILLED_WORDS :: "string list" where
  "FILLED_WORDS = [''complete'', ''completed'', ''filled'', ''executed'', ''traded'']"

definition CANCELLED_WORDS :: "string list" where
  "CANCELLED_WORDS = [''cancelled'', ''canceled'']"

definition DEAD_WORDS :: "string list" where
  "DEAD_WORDS = [''rejected'', ''cancelled'', ''canceled'']"

definition normalise_words :: "string \<Rightarrow> string" where
  "normalise_words s = map (\<lambda>c. if c = CHR ''_'' then CHR '' '' else c) (str_lower (strip s))"

definition canonical_status :: "string \<Rightarrow> string" where
  "canonical_status s =
     (let w = normalise_words s in
      if w \<in> set FILLED_WORDS then ''complete'' else if w \<in> set CANCELLED_WORDS then ''cancelled''
      else if w \<in> set DEAD_WORDS then ''rejected'' else ''open'')"

definition incremental_fill_price :: "order_fold \<Rightarrow> rat option" where
  "incremental_fill_price d =
     (if ff_delta d \<le> 0 then None
      else case usable (ff_price d) of
        None \<Rightarrow> None
      | Some cumulative \<Rightarrow>
          (case usable (ff_previous_price d) of
             None \<Rightarrow> Some cumulative
           | Some previous \<Rightarrow>
               if ff_previous_qty d \<le> 0 then Some cumulative
               else usable (Some ((cumulative * of_int (ff_cumulative_qty d) - previous * of_int (ff_previous_qty d)) / of_int (ff_delta d)))))"

record order_update =
  ou_status :: string
  ou_filled_quantity :: loose
  ou_average_price :: loose
  ou_rejection :: string

definition frame_of :: "order_update \<Rightarrow> order_frame" where
  "frame_of u =
     \<lparr> bf_status = canonical_status (ou_status u), bf_price = usable_price (ou_average_price u),
       bf_qty = whole_qty (ou_filled_quantity u), bf_reject = (if ou_rejection u = [] then None else Some (ou_rejection u)) \<rparr>"

definition fill_of :: "sm_order \<Rightarrow> order_fold \<Rightarrow> fill" where
  "fill_of row d =
     (let is_entry = (so_kind row = Entry) in
      \<lparr> fl_price = (if is_entry then usable (ff_price d) else incremental_fill_price d),
        fl_is_entry = is_entry, fl_qty = Some (ff_delta d), fl_row = Some (so_id row),
        fl_ref = (case so_position_ref row of Some p \<Rightarrow> if p \<noteq> [] then Some p else None | None \<Rightarrow> None),
        fl_cumulative = (if is_entry \<and> (\<not> terminal_status (ff_status d) \<or> ff_previous_qty d > 0) then Some (ff_cumulative_qty d) else None),
        fl_terminal = terminal_status (ff_status d), fl_correction = terminal_status (ff_previous_status d) \<rparr>)"

text \<open>Another exit row that now owns the position an order row was for.\<close>

definition working_retry :: "string \<Rightarrow> string option \<Rightarrow> nat \<Rightarrow> run_state option \<Rightarrow> nat option" where
  "working_retry lid ref row s =
     (case (ref, (case s of Some s \<Rightarrow> find_leg lid s | None \<Rightarrow> None)) of
        (Some p, Some l) \<Rightarrow>
          (let live = (if lg_position_ref l = Some p then lg_exit_order_id l else None);
               og = (case lg_superseded l of Some og \<Rightarrow> if og_position_ref og = Some p then og_exit_order_id og else None | None \<Rightarrow> None)
           in if live \<noteq> None \<and> live \<noteq> Some row then live else if og \<noteq> None \<and> og \<noteq> Some row then og else None)
      | _ \<Rightarrow> None)"

definition owner_still_held :: "string \<Rightarrow> exit_owner option \<Rightarrow> string option \<Rightarrow> run_state option \<Rightarrow> bool" where
  "owner_still_held lid ow ref s =
     (case (ow, (case s of Some s \<Rightarrow> find_leg lid s | None \<Rightarrow> None)) of
        (Some Live_owner, Some l) \<Rightarrow> (ref = None \<or> lg_position_ref l = ref) \<and> lg_status l = Open_leg \<and> lg_qty l > 0
      | (Some Superseded_owner, Some l) \<Rightarrow>
          (case lg_superseded l of Some og \<Rightarrow> (ref = None \<or> og_position_ref og = ref) \<and> og_qty og > 0 | None \<Rightarrow> False)
      | _ \<Rightarrow> False)"

text \<open>An entry that ended without a fill is no position; a leg that already traded stays.\<close>

definition end_entry :: "string \<Rightarrow> string option \<Rightarrow> so_status \<Rightarrow> run_state \<Rightarrow> run_state" where
  "end_entry lid ref ended s =
     (case find_leg lid s of
        None \<Rightarrow> s
      | Some l \<Rightarrow>
          if (ref = None \<or> lg_position_ref l = ref) \<and> lg_entry_status l \<noteq> Entry_complete
          then change_leg lid (\<lambda>l. l\<lparr>lg_entry_status := (if ended = So_cancelled then Entry_cancelled else Entry_rejected),
                                     lg_status := Rejected_leg\<rparr>) s
          else s)"

text \<open>The fill a fold hands on, with the price it is booked at.\<close>

definition frame_fill ::
    "(rat \<Rightarrow> rat) \<Rightarrow> time \<Rightarrow> nat \<Rightarrow> string \<Rightarrow> sm_order \<Rightarrow> order_fold \<Rightarrow> engine_state \<Rightarrow> request list \<times> engine_state" where
  "frame_fill rd now rid lid row d es =
     (let fl = fill_of row d;
          closed = (fl_is_entry fl \<and> ff_delta d > 0 \<and>
                    (case find_run rid (snd es) of Some r \<Rightarrow> sr_stopped_at r \<noteq> None | None \<Rightarrow> False));
          (rq, es1) = (if closed then ([Recover_run rid], es)
                       else (case apply_fill rd now rid lid fl es of ((b, rq), es1) \<Rightarrow> (rq, es1)));
          unpriced = (if ff_delta d > 0 \<and> fl_price fl = None then [Report_unpriced lid (ff_cumulative_qty d)] else []);
          retry = (if \<not> fl_is_entry fl \<and> fl_correction fl \<and> ff_delta d > 0
                   then (case working_retry lid (fl_ref fl) (so_id row) (fst es1 rid) of Some n \<Rightarrow> [Cancel_retry n] | None \<Rightarrow> [])
                   else [])
      in (rq @ unpriced @ retry, es1))"

text \<open>What an order's end without completion does to the leg it was for.\<close>

definition frame_ended ::
    "nat \<Rightarrow> string \<Rightarrow> sm_order \<Rightarrow> order_fold \<Rightarrow> so_status \<Rightarrow> bool \<Rightarrow> exit_owner option \<Rightarrow> engine_state \<Rightarrow> request list \<times> engine_state" where
  "frame_ended rid lid row d ended applied owner0 es =
     (case es of (runs, db) \<Rightarrow>
        if so_kind row = Entry then
          (if ff_cumulative_qty d \<le> 0
           then ([Retry_pending_stop], (snd (on_run rid () (\<lambda>s. ((), end_entry lid (so_position_ref row) ended s)) runs), db))
           else ([], es))
        else
          (let (ow, runs1) = (if applied then (owner0, runs)
                                 else on_run rid None (release_order_exit lid (so_id row) (so_position_ref row)) runs);
               held = owner_still_held lid ow (so_position_ref row) (runs1 rid)
           in ((if ow = Some Superseded_owner \<and> held then [Report_flip_rejected lid] else []) @
               (if held then [Report_stop_failed lid] else []) @
               (if ff_cumulative_qty d \<le> 0 \<and> ow = None \<and> runs1 rid = None then [Report_stranded lid] else []), (runs1, db))))"

definition apply_frame ::
    "(rat \<Rightarrow> rat) \<Rightarrow> time \<Rightarrow> string \<Rightarrow> sm_order \<Rightarrow> order_update \<Rightarrow> engine_state \<Rightarrow> request list \<times> engine_state" where
  "apply_frame rd now lid row u es =
     (case es of (runs, db) \<Rightarrow>
        case fold_order_broker_frame rd now (so_id row) (frame_of u) db of
          (None, db1) \<Rightarrow> ([], (runs, db1))
        | (Some d, db1) \<Rightarrow>
            if \<not> ff_changed d then ([], (runs, db1))
            else
              (let rid = so_run row;
                   incoming = frame_status (canonical_status (ou_status u));
                   owner0 = (if so_kind row = Entry then None
                             else case runs rid of
                               None \<Rightarrow> None
                             | Some s \<Rightarrow> (case find_leg lid s of None \<Rightarrow> None | Some l \<Rightarrow> exit_owner_of (so_id row) (so_position_ref row) l));
                   should_apply = (ff_delta d > 0 \<or> (terminal_status (ff_status d) \<and> ff_cumulative_qty d > 0));
                   (rq1, es1) = (if should_apply then frame_fill rd now rid lid row d (runs, db1) else ([], (runs, db1)));
                   dead = (incoming \<in> {So_cancelled, So_rejected} \<and> \<not> terminal_status (ff_previous_status d));
                   (rq2, es2) = (if dead then frame_ended rid lid row d incoming should_apply owner0 es1 else ([], es1))
               in (rq1 @ rq2, es2)))"

end
