(* ===== verification/StrategyLegLaws.thy ===== *)
theory StrategyLegLaws
  imports StrategyFill RiskLaws Claims
begin

text \<open>
  What the live state of a run guarantees: a leg evaluated tick by tick is a position of the risk core, an
  exit is claimed once until it is let go, a run that is stopping and flat stays flat, and a flip keeps
  both of its positions until each has settled.
\<close>

subsection \<open>Legs by their id\<close>

lemma find_leg_id: "find_leg lid s = Some l \<Longrightarrow> lg_id l = lid \<and> l \<in> set (rs_legs s)"
  unfolding find_leg_def by (drule find_SomeD) blast

lemma find_leg_None: "find_leg lid s = None \<longleftrightarrow> (\<forall>l\<in>set (rs_legs s). lg_id l \<noteq> lid)"
  by (auto simp: find_leg_def find_None_iff)

lemma find_change_leg:
  assumes "\<And>l. lg_id l = lid \<Longrightarrow> lg_id (f l) = lid"
  shows "find_leg k (change_leg lid f s) = (if k = lid then map_option f (find_leg lid s) else find_leg k s)"
proof -
  have "find (\<lambda>l. lg_id l = k) (map (\<lambda>l. if lg_id l = lid then f l else l) ls) =
      (if k = lid then map_option f (find (\<lambda>l. lg_id l = lid) ls) else find (\<lambda>l. lg_id l = k) ls)" for ls
    using assms by (induction ls) auto
  then show ?thesis by (simp add: find_leg_def change_leg_def)
qed

lemma change_leg_frame [simp]:
  "rs_claims (change_leg lid f s) = rs_claims s" "rs_stopping (change_leg lid f s) = rs_stopping s"
  "rs_run_id (change_leg lid f s) = rs_run_id s" "rs_strategy_id (change_leg lid f s) = rs_strategy_id s"
  by (simp_all add: change_leg_def)

lemma change_leg_set:
  "l' \<in> set (rs_legs (change_leg lid f s)) \<Longrightarrow> \<exists>l\<in>set (rs_legs s). l' = (if lg_id l = lid then f l else l)"
  by (auto simp: change_leg_def)

lemma leg_edits_keep_id [simp]:
  "lg_id (claim_exit_row tok kind l) = lg_id l" "lg_id (clear_exit l) = lg_id l" "lg_id (change_outgoing g l) = lg_id l"
  "lg_id (apply_leg_decision d l) = lg_id l" "lg_id (snd (evaluate_strategy_leg l v)) = lg_id l"
  by (simp_all add: claim_exit_row_def clear_exit_def change_outgoing_def apply_leg_decision_def evaluate_strategy_leg_def Let_def)

lemma fill_edits_keep_id [simp]:
  "lg_id (fill_entry fl l) = lg_id l" "lg_id (fill_exit fl l) = lg_id l" "lg_id (settle_outgoing fl og l) = lg_id l"
  by (simp_all add: fill_entry_def fill_exit_def settle_outgoing_def clear_exit_def Let_def split: option.split prod.split)

lemma find_put_leg:
  "find_leg k (put_leg l s) = (if k = lg_id l then Some l else find_leg k s)"
proof (cases "find_leg (lg_id l) s")
  case None
  then have "find (\<lambda>x. lg_id x = lg_id l) (rs_legs s) = None" by (simp add: find_leg_def)
  then have "find (\<lambda>x. lg_id x = k) (rs_legs s @ [l]) = (if k = lg_id l then Some l else find (\<lambda>x. lg_id x = k) (rs_legs s))"
    by (induction "rs_legs s") (auto simp: find_append split: option.split)
  with None show ?thesis by (simp add: put_leg_def find_leg_def)
next
  case (Some x)
  have "find_leg k (change_leg (lg_id l) (\<lambda>x. l) s) = (if k = lg_id l then map_option (\<lambda>x. l) (find_leg (lg_id l) s) else find_leg k s)"
    by (rule find_change_leg) simp
  with Some show ?thesis by (simp add: put_leg_def)
qed

subsection \<open>A leg is a position of the risk core\<close>

definition tick_leg :: "loose \<Rightarrow> leg \<Rightarrow> leg" where
  "tick_leg p l = snd (evaluate_strategy_leg l p)"

lemma tick_leg_frame [simp]:
  "lg_id (tick_leg p l) = lg_id l" "lg_position (tick_leg p l) = lg_position l" "lg_entry_avg (tick_leg p l) = lg_entry_avg l"
  "lg_qty (tick_leg p l) = lg_qty l" "lg_sl_pts (tick_leg p l) = lg_sl_pts l" "lg_target_pts (tick_leg p l) = lg_target_pts l"
  "lg_trail_x (tick_leg p l) = lg_trail_x l" "lg_trail_y (tick_leg p l) = lg_trail_y l" "lg_risk_unit (tick_leg p l) = lg_risk_unit l"
  by (simp_all add: tick_leg_def evaluate_strategy_leg_def apply_leg_decision_def Let_def)

lemma tick_leg_keeps [simp]:
  "lg_status (tick_leg p l) = lg_status l" "lg_entry_status (tick_leg p l) = lg_entry_status l"
  "lg_exit_kind (tick_leg p l) = lg_exit_kind l" "lg_exit_claim_token (tick_leg p l) = lg_exit_claim_token l"
  "lg_exit_order_id (tick_leg p l) = lg_exit_order_id l" "lg_superseded (tick_leg p l) = lg_superseded l"
  "lg_position_ref (tick_leg p l) = lg_position_ref l" "lg_realized_pnl (tick_leg p l) = lg_realized_pnl l"
  by (simp_all add: tick_leg_def evaluate_strategy_leg_def apply_leg_decision_def Let_def)

lemma ticked_levels:
  fixes l p
  defines "d \<equiv> evaluate_position (leg_to_position_risk l) p"
  shows "lg_effective_sl (tick_leg p l) = pd_stop_price d" "lg_effective_target (tick_leg p l) = pd_target_price d"
    "lg_highest_price (tick_leg p l) = pd_highest_price d" "lg_lowest_price (tick_leg p l) = pd_lowest_price d"
  by (simp_all add: tick_leg_def evaluate_strategy_leg_def apply_leg_decision_def Let_def d_def)

lemma points_per_unit_cong: "lg_risk_unit l' = lg_risk_unit l \<Longrightarrow> points_per_unit l' e = points_per_unit l e"
  by (simp add: points_per_unit_def)

text \<open>The stop a decision carries is gone only when there was none configured either.\<close>

lemma decided_stop_present:
  assumes "pd_stop_price (evaluate_position r v) = None"
  shows "usable (pr_initial_stop_price r) = None"
proof -
  have "effective_stop r = None"
    using assms by (auto simp: evaluate_position_def Let_def ratchet_def split: option.splits if_splits)
  then show ?thesis by (rule effective_None)
qed

lemma decided_target [simp]: "pd_target_price (evaluate_position r v) = usable (pr_target_price r)"
  by (simp add: evaluate_position_def Let_def split: option.split)

lemma usable_again [simp]: "usable (usable v) = usable v"
  by (cases v) simp_all

lemma configured_levels_usable:
  "usable (stop_from_points side e p) = stop_from_points side e p"
  "usable (target_from_points side e p) = target_from_points side e p"
  by (simp_all add: stop_from_points_def target_from_points_def)

text \<open>A level that was written to a leg is a price; before the first tick there is none.\<close>

definition target_ok :: "leg \<Rightarrow> bool" where
  "target_ok l \<longleftrightarrow> usable (lg_effective_target l) = lg_effective_target l"

lemma target_ok_usable: "target_ok l \<Longrightarrow> usable (pr_target_price (leg_to_position_risk l)) = pr_target_price (leg_to_position_risk l)"
  by (auto simp: target_ok_def leg_to_position_risk_def Let_def configured_levels_usable split: option.split)

lemma initial_stop_usable: "usable (pr_initial_stop_price (leg_to_position_risk l)) = pr_initial_stop_price (leg_to_position_risk l)"
  by (simp add: leg_to_position_risk_def Let_def configured_levels_usable split: option.split)

lemma tick_target_ok [simp]: "target_ok (tick_leg v l)"
  by (simp add: target_ok_def ticked_levels)

lemma tick_is_the_core:
  assumes "target_ok l"
  shows "leg_to_position_risk (tick_leg v l) = carry_decision (leg_to_position_risk l) (evaluate_position (leg_to_position_risk l) v)"
    (is "?r1 = carry_decision ?r ?d")
proof -
  have scale: "points_per_unit (tick_leg v l) e = points_per_unit l e" for e
    by (rule points_per_unit_cong) simp
  have same: "pr_identifier ?r1 = pr_identifier ?r" "pr_side ?r1 = pr_side ?r" "pr_entry_price ?r1 = pr_entry_price ?r"
    "pr_quantity ?r1 = pr_quantity ?r" "pr_initial_stop_price ?r1 = pr_initial_stop_price ?r"
    "pr_trailing_enabled ?r1 = pr_trailing_enabled ?r" "pr_trail_step ?r1 = pr_trail_step ?r"
    "pr_trail_trigger ?r1 = pr_trail_trigger ?r" "pr_trail_mode ?r1 = pr_trail_mode ?r"
    by (simp_all add: leg_to_position_risk_def Let_def scale)
  have hi: "pr_highest_price ?r1 = pd_highest_price ?d" "pr_lowest_price ?r1 = pd_lowest_price ?d"
    by (simp_all add: leg_to_position_risk_def Let_def ticked_levels)
  have "pr_stop_price ?r1 = (if pd_stop_price ?d \<noteq> None then pd_stop_price ?d else pr_initial_stop_price ?r)"
    by (simp add: leg_to_position_risk_def Let_def ticked_levels scale)
  then have stop: "pr_stop_price ?r1 = pd_stop_price ?d"
    using decided_stop_present [of ?r v] initial_stop_usable [of l] by auto
  have "pr_target_price ?r1 = (if pr_target_price ?r \<noteq> None then pr_target_price ?r else pr_target_price ?r1)"
    using target_ok_usable [OF assms] by (simp add: leg_to_position_risk_def [of "tick_leg v l"] Let_def ticked_levels scale)
  moreover have "pr_target_price ?r1 = None" if "pr_target_price ?r = None"
    using that by (auto simp: leg_to_position_risk_def Let_def ticked_levels scale split: if_splits option.splits)
  ultimately have target: "pr_target_price ?r1 = pr_target_price ?r" by (auto split: if_splits)
  show ?thesis
    by (rule position_risk.equality) (simp_all add: carry_decision_def same hi stop target)
qed

text \<open>C28: evaluating a leg tick by tick, usable prices or not, with the levels written back to it in between, is
  running the risk core's position over the same ticks.\<close>

theorem legs_trail_as_the_core:
  assumes "target_ok l"
  shows "leg_to_position_risk (fold tick_leg vs l) = run_ticks vs (leg_to_position_risk l)"
  using assms
proof (induction vs arbitrary: l)
  case (Cons v vs)
  from Cons.IH [OF tick_target_ok] tick_is_the_core [OF Cons.prems] show ?case by simp
qed simp

text \<open>A long leg filled at 100: stop and target 10 and 30 points away, trailed continuously by 5.\<close>

definition sample_leg :: leg where
  "sample_leg =
     \<lparr> lg_id = ''1'', lg_position = BUY, lg_symbol = ''X'', lg_exchange = ''NSE'', lg_qty = 10, lg_position_ref = Some ''p'',
       lg_entry_order_id = Some 1, lg_entry_status = Entry_complete, lg_entry_filled_qty = 10, lg_entry_avg = 100,
       lg_exit_order_id = None, lg_exit_claim_token = None, lg_exit_kind = None, lg_exit_avg = None, lg_ltp = None, lg_mtm = 0,
       lg_realized_pnl = 0, lg_status = Open_leg, lg_risk_unit = None, lg_sl_pts = Lint 10, lg_target_pts = Lint 30,
       lg_trail_x = Lint 5, lg_trail_y = Lint 0, lg_effective_sl = None, lg_effective_target = None, lg_trail_active = False,
       lg_highest_price = None, lg_lowest_price = None, lg_superseded = None \<rparr>"

lemma sample_leg_target_ok: "target_ok sample_leg"
  by (simp add: target_ok_def sample_leg_def)

theorem legs_trail_as_the_core_witness:
  "leg_to_position_risk (fold tick_leg [Lnum 104, Lnone, Lnum 112] sample_leg) =
   run_ticks [Lnum 104, Lnone, Lnum 112] (leg_to_position_risk sample_leg) \<and>
   lg_effective_sl (fold tick_leg [Lnum 104, Lnone, Lnum 112] sample_leg) = Some 107"
  using legs_trail_as_the_core [OF sample_leg_target_ok, of "[Lnum 104, Lnone, Lnum 112]"] by code_simp

text \<open>
  Without a configured stop a stepped trail has no anchor, and a stop that was moved to entry takes its
  place: the steps are counted again from the level the last tick left, so that a price that stands still
  brings the stop up to it.
\<close>

lemma stepped_trail_without_stop_compounds:
  fixes l
  defines "l \<equiv> sample_leg\<lparr>lg_sl_pts := Lnone, lg_trail_x := Lint 4, lg_trail_y := Lint 2, lg_effective_sl := Some 100\<rparr>"
  shows "map (\<lambda>n. lg_effective_sl (fold tick_leg (replicate n (Lnum 105)) l)) [0, 1, 2, 3] = [Some 100, Some 102, Some 104, Some 105]"
    and "pd_reason (fst (evaluate_strategy_leg (fold tick_leg [Lnum 105, Lnum 105] l) (Lnum 105))) = Some Stop_breach"
  unfolding l_def by code_simp+

subsection \<open>A run under its operations\<close>

datatype leg_op =
    Claim_exit string string string
  | Release_exit string "claim_ref option"
  | Bind_exit string "string option" nat "string option"
  | Release_order string nat "string option"
  | Claim_outgoing string string action
  | Release_outgoing string "claim_ref option"
  | Bind_outgoing string "string option" nat
  | Claim_entry string string string action
  | Release_entry string string
  | Install_leg leg_seed string "string option" nat
  | Finish_entry string string string bool
  | Reject_entry string "string option"
  | Stop_run
  | Tick string loose
  | Evaluate strategy_limits
  | Stops_to_entry string
  | Leg_fill string fill

primrec exec_op :: "leg_op \<Rightarrow> run_state \<Rightarrow> run_state" where
  "exec_op (Claim_exit tok lid kind) s = snd (claim_leg_exit tok lid kind s)"
| "exec_op (Release_exit lid c) s = snd (release_leg_exit lid c s)"
| "exec_op (Bind_exit lid tok row ref) s = snd (bind_live_exit lid tok row ref s)"
| "exec_op (Release_order lid row ref) s = snd (release_order_exit lid row ref s)"
| "exec_op (Claim_outgoing tok lid side) s = snd (claim_superseded_exit tok lid side s)"
| "exec_op (Release_outgoing lid c) s = snd (release_superseded_exit lid c s)"
| "exec_op (Bind_outgoing lid tok row) s = snd (bind_superseded_exit lid tok row s)"
| "exec_op (Claim_entry tok ref lid side) s = snd (claim_signal_entry tok ref lid side s)"
| "exec_op (Release_entry lid tok) s = snd (release_signal_entry_claim lid tok s)"
| "exec_op (Install_leg sp tok ref row) s = snd (add_leg sp tok ref row s)"
| "exec_op (Finish_entry lid ref tok ok) s = snd (finish_signal_entry lid ref tok ok s)"
| "exec_op (Reject_entry lid ref) s = snd (reject_entry_intent lid ref s)"
| "exec_op Stop_run s = snd (mark_stopping s)"
| "exec_op (Tick lid v) s = change_leg lid (tick_leg v) s"
| "exec_op (Evaluate lm) s = snd (evaluate_run lm s)"
| "exec_op (Stops_to_entry lid) s = snd (trail_open_legs_to_entry lid s)"
| "exec_op (Leg_fill lid fl) s = snd (fill_leg lid fl s)"

lemma run_figures_frame [simp]:
  "rs_legs (recompute_totals s) = rs_legs s" "rs_claims (recompute_totals s) = rs_claims s"
  "rs_stopping (recompute_totals s) = rs_stopping s" "find_leg lid (recompute_totals s) = find_leg lid s"
  "rs_legs (snd (evaluate_run lm s)) = rs_legs s" "rs_claims (snd (evaluate_run lm s)) = rs_claims s"
  "rs_stopping (snd (evaluate_run lm s)) = rs_stopping s" "find_leg lid (snd (evaluate_run lm s)) = find_leg lid s"
  by (simp_all add: recompute_totals_def evaluate_run_def apply_run_decision_def find_leg_def Let_def split: prod.split)

text \<open>Moving the stops to entry writes nothing but stops.\<close>

lemma stop_moves_induct:
  assumes "P s" "\<And>m s. P s \<Longrightarrow> P (apply_stop_move m s)" "\<And>s. P s \<Longrightarrow> P (s\<lparr>rs_trail_to_entry_active := True\<rparr>)"
  shows "P (snd (trail_open_legs_to_entry lid s))"
proof -
  have "P (fold apply_stop_move ms s)" for ms
    using assms(1,2) by (induction ms arbitrary: s) auto
  with assms(1,3) show ?thesis by (simp add: trail_open_legs_to_entry_def Let_def)
qed

subsection \<open>One exit at a time\<close>

definition exit_claimable :: "string \<Rightarrow> run_state \<Rightarrow> bool" where
  "exit_claimable lid s \<longleftrightarrow>
     (\<exists>l. find_leg lid s = Some l \<and> lg_status l = Open_leg \<and> lg_entry_status l = Entry_complete \<and> \<not> exit_in_flight l)"

definition try_exit :: "string \<Rightarrow> string \<times> string \<Rightarrow> run_state \<Rightarrow> bool \<times> run_state" where
  "try_exit lid a s = (case claim_leg_exit (fst a) lid (snd a) s of (l, s1) \<Rightarrow> (l \<noteq> None, s1))"

lemma claim_leg_exit_cases:
  "claim_leg_exit tok lid kind s =
     (if exit_claimable lid s
      then (map_option (claim_exit_row tok kind) (find_leg lid s), change_leg lid (claim_exit_row tok kind) s) else (None, s))"
  by (auto simp: claim_leg_exit_def exit_claimable_def split: option.splits)

lemma claimable_frame:
  assumes "\<And>l. find_leg lid s = Some l \<Longrightarrow> find_leg lid s1 = Some (g l) \<and>
      (lg_status (g l) = Open_leg \<and> lg_entry_status (g l) = Entry_complete \<and> \<not> exit_in_flight (g l) \<longrightarrow>
       lg_status l = Open_leg \<and> lg_entry_status l = Entry_complete \<and> \<not> exit_in_flight l)"
    and "find_leg lid s = None \<Longrightarrow> find_leg lid s1 = None"
  shows "exit_claimable lid s1 \<Longrightarrow> exit_claimable lid s"
  using assms by (cases "find_leg lid s") (auto simp: exit_claimable_def)

lemma claimable_change_leg:
  assumes "\<And>l. lg_id (f l) = lg_id l"
    and "\<And>l. find_leg k s = Some l \<Longrightarrow> lg_status (f l) = Open_leg \<Longrightarrow> lg_entry_status (f l) = Entry_complete \<Longrightarrow> \<not> exit_in_flight (f l) \<Longrightarrow>
       lg_status l = Open_leg \<and> lg_entry_status l = Entry_complete \<and> \<not> exit_in_flight l"
  shows "exit_claimable lid (change_leg k f s) \<Longrightarrow> exit_claimable lid s"
proof -
  assume c: "exit_claimable lid (change_leg k f s)"
  have find: "find_leg lid (change_leg k f s) = (if lid = k then map_option f (find_leg k s) else find_leg lid s)"
    by (rule find_change_leg) (simp add: assms(1))
  show ?thesis
  proof (cases "lid = k")
    case True
    with c find obtain l where "find_leg k s = Some l" "lg_status (f l) = Open_leg" "lg_entry_status (f l) = Entry_complete"
      "\<not> exit_in_flight (f l)" by (auto simp: exit_claimable_def)
    with assms(2) True show ?thesis by (auto simp: exit_claimable_def)
  next
    case False
    with c find show ?thesis by (simp add: exit_claimable_def)
  qed
qed

interpretation leg_exit: conditional_claim try_exit exit_claimable "\<lambda>s. True"
proof (unfold_locales, goal_cases)
  case (1 s lid a)
  then show ?case by (auto simp: try_exit_def claim_leg_exit_cases exit_claimable_def)
next
  case (2 s lid a)
  have "find_leg lid (change_leg lid (claim_exit_row t k) s) = map_option (claim_exit_row t k) (find_leg lid s)" for t k
    using find_change_leg [of lid "claim_exit_row t k" lid s] by simp
  with 2 show ?case
    by (auto simp: try_exit_def claim_leg_exit_cases exit_claimable_def claim_exit_row_def exit_in_flight_def split: if_splits)
next
  case (3 s lid a)
  then show ?case by (auto simp: try_exit_def claim_leg_exit_cases exit_claimable_def split: if_splits)
next
  case (4 s lid k a)
  then show ?case
    by (auto simp: try_exit_def claim_leg_exit_cases split: if_splits
        elim!: claimable_change_leg [rotated -1] simp: claim_exit_row_def exit_in_flight_def)
next
  case 5
  then show ?case by simp
qed

text \<open>A fill of a working order: it names the order's row and the order had not ended before.\<close>

definition ordinary_fill :: "fill \<Rightarrow> bool" where
  "ordinary_fill fl \<longleftrightarrow> fl_row fl \<noteq> None \<and> \<not> fl_correction fl"

text \<open>What lets go of an exit: giving the claim back, the end of its order, a fill that ends an order or follows its end.\<close>

primrec lets_go :: "string \<Rightarrow> leg_op \<Rightarrow> bool" where
  "lets_go k (Claim_exit tok lid kind) \<longleftrightarrow> False"
| "lets_go k (Release_exit lid c) \<longleftrightarrow> lid = k"
| "lets_go k (Bind_exit lid tok row ref) \<longleftrightarrow> False"
| "lets_go k (Release_order lid row ref) \<longleftrightarrow> lid = k"
| "lets_go k (Claim_outgoing tok lid side) \<longleftrightarrow> False"
| "lets_go k (Release_outgoing lid c) \<longleftrightarrow> False"
| "lets_go k (Bind_outgoing lid tok row) \<longleftrightarrow> False"
| "lets_go k (Claim_entry tok ref lid side) \<longleftrightarrow> False"
| "lets_go k (Release_entry lid tok) \<longleftrightarrow> False"
| "lets_go k (Install_leg sp tok ref row) \<longleftrightarrow> False"
| "lets_go k (Finish_entry lid ref tok ok) \<longleftrightarrow> False"
| "lets_go k (Reject_entry lid ref) \<longleftrightarrow> False"
| "lets_go k Stop_run \<longleftrightarrow> False"
| "lets_go k (Tick lid v) \<longleftrightarrow> False"
| "lets_go k (Evaluate lm) \<longleftrightarrow> False"
| "lets_go k (Stops_to_entry lid) \<longleftrightarrow> False"
| "lets_go k (Leg_fill lid fl) \<longleftrightarrow> lid = k \<and> (fl_terminal fl \<or> \<not> ordinary_fill fl)"

lemma claimable_cong: "find_leg lid s1 = find_leg lid s \<Longrightarrow> exit_claimable lid s1 \<longleftrightarrow> exit_claimable lid s"
  by (simp add: exit_claimable_def)

lemma claimable_other:
  assumes "\<And>l. lg_id (f l) = lg_id l" "lid \<noteq> k"
  shows "exit_claimable k (change_leg lid f s) = exit_claimable k s"
proof (rule claimable_cong)
  show "find_leg k (change_leg lid f s) = find_leg k s"
    using find_change_leg [of lid f k s] assms by simp
qed

lemmas leg_op_defs = release_leg_exit_def bind_live_exit_def release_order_exit_def claim_superseded_exit_def
  release_superseded_exit_def bind_superseded_exit_def claim_signal_entry_def release_signal_entry_claim_def
  reject_entry_intent_def mark_stopping_def finish_signal_entry_def

text \<open>No operation makes an exit claimable that was not, but one that lets go of it.\<close>

lemma kept_by_edit:
  assumes "\<And>l. lg_id (f l) = lg_id l"
    and "\<And>l. lg_status (f l) = lg_status l \<and> lg_entry_status (f l) = lg_entry_status l \<and> (exit_in_flight l \<longrightarrow> exit_in_flight (f l)) \<or>
             \<not> (lg_status (f l) = Open_leg \<and> lg_entry_status (f l) = Entry_complete)"
  shows "exit_claimable k (change_leg lid f s) \<Longrightarrow> exit_claimable k s"
  by (erule claimable_change_leg [rotated -1]) (use assms in \<open>simp, metis\<close>)

lemma recompute_claimable [simp]: "exit_claimable k (recompute_totals s) = exit_claimable k s"
  by (rule claimable_cong) simp

lemma unended_edits:
  assumes "\<not> fl_terminal fl"
  shows "lg_entry_status (fill_entry fl l) = Entry_open"
    "lg_status (settle_outgoing fl og l) = lg_status l" "lg_entry_status (settle_outgoing fl og l) = lg_entry_status l"
    "exit_in_flight (settle_outgoing fl og l) = exit_in_flight l" "exit_in_flight (fill_exit fl l) = exit_in_flight l"
  using assms
  by (simp_all add: fill_entry_def settle_outgoing_def fill_exit_def exit_in_flight_def Let_def split: option.split prod.split)

lemma kept_by_fill:
  assumes "lid = k \<Longrightarrow> \<not> fl_terminal fl \<and> ordinary_fill fl"
  shows "exit_claimable k (snd (fill_leg lid fl s)) \<Longrightarrow> exit_claimable k s"
proof (cases "lid = k")
  case False
  then show "exit_claimable k (snd (fill_leg lid fl s)) \<Longrightarrow> exit_claimable k s"
    by (auto simp: fill_leg_def Let_def claimable_other split: option.splits if_splits)
next
  case True
  with assms have fl: "\<not> fl_terminal fl" "ordinary_fill fl" by auto
  note edits = unended_edits [OF fl(1)]
  have entry: "exit_claimable k (change_leg lid (fill_entry fl) s) \<Longrightarrow> exit_claimable k s"
    and settle: "exit_claimable k (change_leg lid (settle_outgoing fl og) s) \<Longrightarrow> exit_claimable k s" for og
    by (erule kept_by_edit [rotated -1]; simp add: edits)+
  have exit_fill: "exit_claimable k (change_leg lid (fill_exit fl) s) \<Longrightarrow> exit_claimable k s"
    if "find_leg lid s = Some l" "exit_in_flight l" for l
    by (erule claimable_change_leg [rotated -1]) (use that edits in auto)
  show "exit_claimable k (snd (fill_leg lid fl s)) \<Longrightarrow> exit_claimable k s"
    using fl(2) entry settle exit_fill
    by (auto simp: fill_leg_def Let_def ordinary_fill_def exit_in_flight_def split: option.splits if_splits)
qed

lemma claimable_rs_claims [simp]: "exit_claimable k (s\<lparr>rs_claims := c\<rparr>) = exit_claimable k s"
  "exit_claimable k (s\<lparr>rs_stopping := b\<rparr>) = exit_claimable k s"
  "exit_claimable k (s\<lparr>rs_trail_to_entry_active := b\<rparr>) = exit_claimable k s"
  by (rule claimable_cong, simp add: find_leg_def)+

lemma new_leg_fresh: "new_leg_state sp = Some l \<Longrightarrow> lg_id l = ls_leg_id sp \<and> lg_status l = Configured \<and> lg_entry_status l = Entry_pending"
  by (auto simp: new_leg_state_def split: option.splits)

lemma kept_by_install: "exit_claimable k (snd (add_leg sp tok ref row s)) \<Longrightarrow> exit_claimable k s"
  by (auto simp: add_leg_def Let_def exit_claimable_def find_put_leg dest!: new_leg_fresh split: option.splits if_splits)

lemma kept_by_stop_move: "exit_claimable k (apply_stop_move m s) \<Longrightarrow> exit_claimable k s"
  unfolding apply_stop_move_def by (erule kept_by_edit [rotated -1]) (simp_all add: exit_in_flight_def)

lemma kept_by_stops: "exit_claimable k (snd (trail_open_legs_to_entry lid s)) \<Longrightarrow> exit_claimable k s"
  by (rule stop_moves_induct [where P = "\<lambda>s1. exit_claimable k s1 \<longrightarrow> exit_claimable k s", THEN mp])
    (auto dest: kept_by_stop_move)

lemma claim_is_kept:
  assumes "\<not> lets_go k op" "exit_claimable k (exec_op op s)"
  shows "exit_claimable k s"
proof (cases op)
  case (Claim_exit tok lid kind)
  then show ?thesis using assms leg_exit.claim_others [where s = s and j = k and i = lid and a = "(tok, kind)"] by (simp add: try_exit_def split_beta)
next
  case (Leg_fill lid fl)
  then show ?thesis using assms kept_by_fill by auto
next
  case (Install_leg sp tok ref row)
  then show ?thesis using assms kept_by_install by auto
next
  case (Stops_to_entry lid)
  then show ?thesis using assms kept_by_stops by auto
next
  case (Evaluate lm)
  then show ?thesis using assms claimable_cong [OF run_figures_frame(8)] by simp
next
  case (Tick lid v)
  then show ?thesis using assms
    by (auto simp: exit_in_flight_def elim!: kept_by_edit [rotated -1])
qed (use assms in \<open>auto simp: leg_op_defs Let_def claimable_other exit_in_flight_def clear_exit_def change_outgoing_def
       split: option.splits prod.splits if_splits exit_owner.splits elim!: kept_by_edit [rotated -1]\<close>)

text \<open>How many of the claims on one leg's exit were granted in a run of operations.\<close>

primrec exits_granted :: "string \<Rightarrow> leg_op list \<Rightarrow> run_state \<Rightarrow> nat" where
  "exits_granted k [] s = 0"
| "exits_granted k (op # ops) s =
     (case op of
        Claim_exit tok lid kind \<Rightarrow> if lid = k \<and> fst (claim_leg_exit tok lid kind s) \<noteq> None then 1 else 0
      | _ \<Rightarrow> 0) + exits_granted k ops (exec_op op s)"

definition claim_step :: "leg_op \<Rightarrow> string \<times> (string \<times> string) + (run_state \<Rightarrow> run_state)" where
  "claim_step op = (case op of Claim_exit tok lid kind \<Rightarrow> Inl (lid, (tok, kind)) | _ \<Rightarrow> Inr (exec_op op))"

lemma granted_as_wins: "exits_granted k ops s = claim_wins try_exit k (map claim_step ops) s"
  by (induction ops arbitrary: s) (auto simp: claim_step_def try_exit_def split_beta split: leg_op.split)

lemma ops_keep_taken:
  assumes "\<forall>op\<in>set ops. \<not> lets_go k op"
  shows "keeps_taken exit_claimable (\<lambda>s. True) k (map claim_step ops)"
proof -
  have "\<not> exit_claimable k (f s)" if "Inr f \<in> set (map claim_step ops)" "\<not> exit_claimable k s" for f s
  proof -
    from that(1) obtain op where op: "op \<in> set ops" "Inr f = claim_step op" by auto
    then have "f = exec_op op" by (simp add: claim_step_def split: leg_op.splits)
    with op assms that(2) claim_is_kept [of k op s] show ?thesis by blast
  qed
  then show ?thesis by (simp add: keeps_taken_def)
qed

text \<open>C26: whatever a run goes through, ticks, fills of orders still working, flips, stops and binds included, at most one
  claim of a leg's exit is granted until one lets go of it: two triggers never send two exits.\<close>

theorem exit_is_granted_once:
  assumes "\<forall>op\<in>set ops. \<not> lets_go k op"
  shows "exits_granted k ops s \<le> 1"
  unfolding granted_as_wins by (rule leg_exit.at_most_one_win) (simp_all add: ops_keep_taken [OF assms])

definition sample_run_state :: run_state where
  "sample_run_state = (new_run_state 4 7)\<lparr>rs_legs := [sample_leg]\<rparr>"

text \<open>The stop and an exit signal on one tick, then the run's stop.\<close>

theorem exit_is_granted_once_witness:
  "exits_granted ''1'' [Tick ''1'' (Lnum 89), Claim_exit ''t'' ''1'' ''sl'', Claim_exit ''u'' ''1'' ''signal'',
     Bind_exit ''1'' (Some ''t'') 9 (Some ''p''), Stop_run, Claim_exit ''v'' ''1'' ''stop''] sample_run_state = 1"
  (is "exits_granted _ ?ops _ = _")
proof -
  have "exits_granted ''1'' ?ops sample_run_state \<le> 1" by (rule exit_is_granted_once) simp
  moreover have "1 \<le> exits_granted ''1'' ?ops sample_run_state" by code_simp
  ultimately show ?thesis by (rule order.antisym)
qed

subsection \<open>A run that is stopping and flat\<close>

definition leg_done :: "leg \<Rightarrow> bool" where
  "leg_done l \<longleftrightarrow> \<not> leg_requires_management l \<and> lg_exit_kind l = None"

definition run_done :: "run_state \<Rightarrow> bool" where
  "run_done s \<longleftrightarrow> rs_stopping s \<and> rs_claims s = [] \<and> (\<forall>l\<in>set (rs_legs s). leg_done l)"

lemma run_done_needs_nothing: "run_done s \<Longrightarrow> \<not> run_requires_management s"
  by (auto simp: run_done_def run_requires_management_def leg_done_def)

lemma leg_done_iff:
  "leg_done l \<longleftrightarrow> lg_superseded l = None \<and> lg_exit_order_id l = None \<and> lg_exit_claim_token l = None \<and> lg_exit_kind l = None \<and>
     lg_status l \<noteq> Open_leg \<and> lg_entry_status l \<notin> {Entry_pending, Entry_open}"
  by (auto simp: leg_done_def leg_requires_management_def)

lemma done_leg:
  assumes "run_done s" "find_leg lid s = Some l"
  shows "lg_superseded l = None \<and> lg_exit_order_id l = None \<and> lg_exit_claim_token l = None \<and> lg_exit_kind l = None \<and>
    lg_status l \<noteq> Open_leg \<and> lg_entry_status l \<notin> {Entry_pending, Entry_open}"
  using assms find_leg_id [OF assms(2)] by (auto simp: run_done_def leg_done_iff)

lemma done_change_leg:
  assumes "run_done s" "\<And>l. leg_done l \<Longrightarrow> leg_done (f l)"
  shows "run_done (change_leg lid f s)"
  using assms by (auto simp: run_done_def dest!: change_leg_set)

lemma done_figures [simp]:
  "run_done (recompute_totals s) = run_done s" "run_done (snd (evaluate_run lm s)) = run_done s"
  "run_done (s\<lparr>rs_trail_to_entry_active := b\<rparr>) = run_done s"
  by (simp_all add: run_done_def)

text \<open>Its entries have ended: the fills that are left are exits, of orders still working.\<close>

primrec late_entry :: "leg_op \<Rightarrow> bool" where
  "late_entry (Claim_exit tok lid kind) \<longleftrightarrow> False"
| "late_entry (Release_exit lid c) \<longleftrightarrow> False"
| "late_entry (Bind_exit lid tok row ref) \<longleftrightarrow> False"
| "late_entry (Release_order lid row ref) \<longleftrightarrow> False"
| "late_entry (Claim_outgoing tok lid side) \<longleftrightarrow> False"
| "late_entry (Release_outgoing lid c) \<longleftrightarrow> False"
| "late_entry (Bind_outgoing lid tok row) \<longleftrightarrow> False"
| "late_entry (Claim_entry tok ref lid side) \<longleftrightarrow> False"
| "late_entry (Release_entry lid tok) \<longleftrightarrow> False"
| "late_entry (Install_leg sp tok ref row) \<longleftrightarrow> False"
| "late_entry (Finish_entry lid ref tok ok) \<longleftrightarrow> False"
| "late_entry (Reject_entry lid ref) \<longleftrightarrow> False"
| "late_entry Stop_run \<longleftrightarrow> False"
| "late_entry (Tick lid v) \<longleftrightarrow> False"
| "late_entry (Evaluate lm) \<longleftrightarrow> False"
| "late_entry (Stops_to_entry lid) \<longleftrightarrow> False"
| "late_entry (Leg_fill lid fl) \<longleftrightarrow> fl_is_entry fl \<or> \<not> ordinary_fill fl"

lemma done_is_kept:
  assumes "run_done s" "\<not> late_entry op"
  shows "run_done (exec_op op s)"
proof (cases op)
  case (Leg_fill lid fl)
  then have "fl_row fl \<noteq> None" "\<not> fl_correction fl" "\<not> fl_is_entry fl" using assms(2) by (auto simp: ordinary_fill_def)
  then have "snd (fill_leg lid fl s) = s"
    using done_leg [OF assms(1)] by (auto simp: fill_leg_def Let_def settles_superseded_def split: option.split)
  with Leg_fill assms(1) show ?thesis by simp
next
  case (Stops_to_entry lid)
  have "run_done (snd (trail_open_legs_to_entry lid s))"
    by (rule stop_moves_induct) (auto simp: assms(1) apply_stop_move_def intro!: done_change_leg, auto simp: leg_done_iff)
  with Stops_to_entry show ?thesis by simp
next
  case (Tick lid v)
  have "run_done (change_leg lid (tick_leg v) s)"
    by (rule done_change_leg [OF assms(1)])
      (simp add: leg_done_iff)
  with Tick show ?thesis by simp
next
  case (Install_leg sp tok ref row)
  then show ?thesis using assms(1) by (simp add: add_leg_def run_done_def)
next
  case (Claim_exit tok lid kind)
  then show ?thesis using assms(1) done_leg [OF assms(1)] by (auto simp: claim_leg_exit_def split: option.split)
next
  case (Claim_entry tok ref lid side)
  then show ?thesis using assms(1) by (simp add: claim_signal_entry_def run_done_def)
next
  case Stop_run
  then show ?thesis using assms(1) by (simp add: mark_stopping_def run_done_def)
next
  case (Evaluate lm)
  then show ?thesis using assms(1) by simp
next
  case (Reject_entry lid ref)
  have "run_done (change_leg lid (\<lambda>l. l\<lparr>lg_entry_order_id := None, lg_entry_status := Entry_rejected, lg_status := Rejected_leg\<rparr>) s)"
    by (rule done_change_leg [OF assms(1)]) (simp add: leg_done_iff)
  with Reject_entry assms(1) show ?thesis by (simp add: reject_entry_intent_def split: option.split)
next
  case (Release_exit lid c)
  then show ?thesis using assms(1) done_leg [OF assms(1)]
    by (auto simp: release_leg_exit_def names_claim_def split: option.split claim_ref.splits)
next
  case (Release_order lid row ref)
  then show ?thesis using assms(1) done_leg [OF assms(1)]
    by (auto simp: release_order_exit_def exit_owner_of_def split: option.split)
qed (use assms(1) done_leg [OF assms(1)] in
      \<open>auto simp: leg_op_defs outgoing_of_def run_done_def split: option.splits\<close>)

text \<open>C27: a run that is stopping and has nothing left to manage stays so, and grants no claim, whatever is tried on it
  once its entries have ended: the check that finishes a run still holds when the run row is closed.\<close>

theorem flat_stopping_run_stays_flat:
  assumes "run_done s" "\<forall>op\<in>set ops. \<not> late_entry op"
  shows "\<not> run_requires_management (fold exec_op ops s) \<and> (\<forall>k. \<not> exit_claimable k (fold exec_op ops s)) \<and>
    (\<forall>tok ref lid side. fst (claim_signal_entry tok ref lid side (fold exec_op ops s)) = Inl Run_stopping)"
proof -
  have "run_done (fold exec_op ops s)"
    using assms
  proof (induction ops arbitrary: s)
    case (Cons op ops)
    then show ?case using done_is_kept [of s op] by simp
  qed simp
  then show ?thesis
    using run_done_needs_nothing done_leg by (fastforce simp: exit_claimable_def claim_signal_entry_def run_done_def)
qed

definition sample_done_run :: run_state where
  "sample_done_run =
     (new_run_state 4 7)\<lparr>rs_stopping := True, rs_legs := [sample_leg\<lparr>lg_status := Closed_leg, lg_qty := 0\<rparr>]\<rparr>"

definition sample_spec :: leg_seed where
  "sample_spec =
     \<lparr> ls_leg_id = ''1'', ls_position = Ltext ''S'', ls_symbol = ''X'', ls_exchange = ''NSE'', ls_quantity = 10,
       ls_position_ref = Some ''q'', ls_risk_unit = None, ls_sl_pts = Lint 10, ls_target_pts = Lint 30, ls_trail = None \<rparr>"

theorem flat_stopping_run_stays_flat_witness:
  "\<not> run_requires_management (fold exec_op
     [Claim_entry ''t'' ''q'' ''1'' SELL, Install_leg sample_spec ''t'' (Some ''p'') 3, Tick ''1'' (Lnum 120), Claim_exit ''u'' ''1'' ''sl'',
      Leg_fill ''1'' \<lparr>fl_price = Some 120, fl_is_entry = False, fl_qty = Some 10, fl_row = Some 9, fl_ref = Some ''p'',
        fl_cumulative = None, fl_terminal = True, fl_correction = False\<rparr>] sample_done_run)"
proof -
  have "run_done sample_done_run"
    by (simp add: run_done_def leg_done_iff sample_done_run_def sample_leg_def new_run_state_def)
  from flat_stopping_run_stays_flat [OF this,
      of "[Claim_entry ''t'' ''q'' ''1'' SELL, Install_leg sample_spec ''t'' (Some ''p'') 3, Tick ''1'' (Lnum 120), Claim_exit ''u'' ''1'' ''sl'',
      Leg_fill ''1'' \<lparr>fl_price = Some 120, fl_is_entry = False, fl_qty = Some 10, fl_row = Some 9, fl_ref = Some ''p'',
        fl_cumulative = None, fl_terminal = True, fl_correction = False\<rparr>]"]
  show ?thesis by (simp add: ordinary_fill_def)
qed

text \<open>
  An entry order reported as ended that turns out to have traded after all is the exception: its fill,
  folded before the run is closed and applied after the check, makes the run hold a position again.
\<close>

lemma late_entry_fill_reopens_done_run:
  fixes fl
  defines "fl \<equiv> \<lparr>fl_price = Some 100, fl_is_entry = True, fl_qty = Some 10, fl_row = Some 1, fl_ref = Some ''p'',
    fl_cumulative = Some 10, fl_terminal = True, fl_correction = True\<rparr>"
    and "s \<equiv> sample_done_run\<lparr>rs_legs := [sample_leg\<lparr>lg_status := Rejected_leg, lg_entry_status := Entry_cancelled\<rparr>]\<rparr>"
  shows "run_requires_management s = False" "run_requires_management (snd (fill_leg ''1'' fl s)) = True"
  unfolding fl_def s_def by code_simp+

subsection \<open>A flip\<close>

text \<open>
  A signal for the other side: its entry is claimed, the exit of the position that is held is claimed and
  bound to its order row.  The new leg is installed after that, before or after the exit has filled.
\<close>

definition prepare_flip :: "string \<times> string \<Rightarrow> string \<Rightarrow> action \<Rightarrow> string \<Rightarrow> nat \<Rightarrow> run_state \<Rightarrow> (entry_claim \<times> run_state) option" where
  "prepare_flip toks lid side ref row s =
     (case claim_signal_entry (fst toks) ref lid side s of
        (Inl n, s1) \<Rightarrow> None
      | (Inr c, s1) \<Rightarrow>
          (case claim_leg_exit (snd toks) lid ''exit_signal'' s1 of
             (None, s2) \<Rightarrow> None
           | (Some l, s2) \<Rightarrow>
               (case bind_live_exit lid (lg_exit_claim_token l) row (lg_position_ref l) s2 of
                  (ok, s3) \<Rightarrow> if ok then Some (c, s3) else None)))"

definition install_leg :: "leg_seed \<Rightarrow> entry_claim \<Rightarrow> nat \<Rightarrow> run_state \<Rightarrow> run_state" where
  "install_leg sp c row s = snd (add_leg sp (ec_token c) (ec_expected_ref c) row s)"

definition fill_of_leg :: "string \<Rightarrow> fill \<Rightarrow> run_state \<Rightarrow> run_state" where
  "fill_of_leg lid fl s = snd (fill_leg lid fl s)"

definition exit_sent :: "string \<Rightarrow> nat \<Rightarrow> leg \<Rightarrow> leg" where
  "exit_sent tok row l = l\<lparr>lg_exit_kind := Some ''exit_signal'', lg_exit_claim_token := Some tok, lg_exit_order_id := Some row\<rparr>"

lemma claim_signal_entryD:
  assumes "claim_signal_entry tok ref lid side s = (Inr c, s1)" "find_leg lid s = Some l" "lg_status l = Open_leg"
  shows "s1 = s\<lparr>rs_claims := AList.update lid c (rs_claims s)\<rparr> \<and> \<not> rs_stopping s \<and> lg_superseded l = None \<and> lg_position l \<noteq> side \<and>
    ec_token c = tok \<and> ec_position_ref c = ref \<and> ec_held_position c = Some (lg_position l) \<and> ec_expected_ref c = lg_position_ref l"
  using assms(1) unfolding claim_signal_entry_def Let_def
  by (simp add: assms(2,3) split: if_splits option.splits) (auto simp: already_def)

lemma claim_signal_entry_result:
  "claim_signal_entry tok ref lid side s = (Inr c, s1) \<Longrightarrow> s1 = s\<lparr>rs_claims := AList.update lid c (rs_claims s)\<rparr>"
  unfolding claim_signal_entry_def Let_def by (simp split: if_splits) blast

lemma prepare_flipD:
  assumes "prepare_flip toks lid side ref row s = Some (c, s1)" "find_leg lid s = Some l"
  shows "lg_status l = Open_leg \<and> lg_entry_status l = Entry_complete \<and> lg_superseded l = None \<and> lg_position l \<noteq> side \<and>
    \<not> rs_stopping s1 \<and> map_of (rs_claims s1) lid = Some c \<and> find_leg lid s1 = Some (exit_sent (snd toks) row l) \<and>
    ec_position_ref c = ref \<and> ec_held_position c = Some (lg_position l) \<and> ec_expected_ref c = lg_position_ref l"
proof -
  define s2 where "s2 = s\<lparr>rs_claims := AList.update lid c (rs_claims s)\<rparr>"
  have find2: "find_leg lid s2 = Some l" using assms(2) by (simp add: s2_def find_leg_def)
  obtain c' s' where sig: "claim_signal_entry (fst toks) ref lid side s = (Inr c', s')"
    using assms(1) by (cases "claim_signal_entry (fst toks) ref lid side s"; cases "fst (claim_signal_entry (fst toks) ref lid side s)")
      (auto simp: prepare_flip_def)
  have "c' = c"
    using assms(1) by (auto simp: prepare_flip_def sig split: option.splits prod.splits if_splits)
  with sig claim_signal_entry_result [OF sig] have claim: "claim_signal_entry (fst toks) ref lid side s = (Inr c, s2)"
    by (simp add: s2_def)
  have exit2: "exit_claimable lid s2"
    using assms(1) by (simp add: prepare_flip_def claim claim_leg_exit_cases split: if_splits)
  let ?x = "claim_exit_row (snd toks) ''exit_signal''"
  have find3: "find_leg lid (change_leg lid ?x s2) = Some (?x l)"
    using find2 find_change_leg [of lid ?x lid s2] by simp
  have s1: "s1 = change_leg lid (\<lambda>l. l\<lparr>lg_exit_order_id := Some row\<rparr>) (change_leg lid ?x s2)"
    using assms(1) by (simp add: prepare_flip_def claim claim_leg_exit_cases exit2 find2 bind_live_exit_def find3 split: if_splits)
  have "find_leg lid s1 = Some (exit_sent (snd toks) row l)"
    using find3 find_change_leg [of lid "\<lambda>l. l\<lparr>lg_exit_order_id := Some row\<rparr>" lid "change_leg lid ?x s2"]
    by (simp add: s1 exit_sent_def claim_exit_row_def)
  moreover have op: "lg_status l = Open_leg \<and> lg_entry_status l = Entry_complete"
    using exit2 find2 by (simp add: exit_claimable_def)
  moreover have "map_of (rs_claims s1) lid = Some c" by (simp add: s1 s2_def update_conv')
  ultimately show ?thesis
    using claim_signal_entryD [OF claim assms(2)] by (simp add: s1 s2_def)
qed

text \<open>The fill that closes the old position, and what it makes.\<close>

definition closes_old :: "fill \<Rightarrow> nat \<Rightarrow> leg \<Rightarrow> bool" where
  "closes_old fx row l \<longleftrightarrow> \<not> fl_is_entry fx \<and> fl_row fx = Some row \<and> fl_ref fx = lg_position_ref l \<and> fl_terminal fx \<and>
     snd (exit_fill_quantities (fl_qty fx) (lg_qty l)) = 0"

definition flip_gain :: "fill \<Rightarrow> leg \<Rightarrow> rat" where
  "flip_gain fx l =
     (case fl_price fx of
        Some p \<Rightarrow> if lg_entry_avg l > 0 then (p - lg_entry_avg l) * of_int (max 0 (lg_qty l)) * side_sign (lg_position l) else 0
      | None \<Rightarrow> 0)"

lemma closed_quantities:
  assumes "snd (exit_fill_quantities q h) = 0"
  shows "exit_fill_quantities q h = (max 0 h, 0)"
  using assms by (simp add: exit_fill_quantities_def Let_def split: option.splits)

lemma fill_exit_closes:
  assumes "closes_old fx row l"
  shows "lg_realized_pnl (fill_exit fx (exit_sent tok row l)) = lg_realized_pnl l + flip_gain fx l"
    "lg_status (fill_exit fx (exit_sent tok row l)) = Closed_leg"
    "lg_position_ref (fill_exit fx (exit_sent tok row l)) = lg_position_ref l"
    "lg_superseded (fill_exit fx (exit_sent tok row l)) = lg_superseded l"
  using assms closed_quantities [of "fl_qty fx" "lg_qty l"]
  by (auto simp: closes_old_def fill_exit_def exit_sent_def flip_gain_def clear_exit_def Let_def split: option.split)

lemma settle_closes:
  assumes "closes_old fx row l"
  shows "settle_outgoing fx (outgoing_from (exit_sent tok row l)) n =
    n\<lparr>lg_realized_pnl := lg_realized_pnl n + flip_gain fx l, lg_superseded := None\<rparr>"
  using assms closed_quantities [of "fl_qty fx" "lg_qty l"]
  by (auto simp: closes_old_def settle_outgoing_def outgoing_from_def exit_sent_def flip_gain_def Let_def split: option.split)

lemma fill_of_leg_entry:
  assumes "find_leg lid s = Some n" "fl_is_entry fe" "fl_ref fe = lg_position_ref n" "fl_row fe = lg_entry_order_id n"
  shows "find_leg lid (fill_of_leg lid fe s) = Some (fill_entry fe n)"
  using assms find_change_leg [of lid "fill_entry fe" lid s]
  by (auto simp: fill_of_leg_def fill_leg_def settles_superseded_def Let_def split: option.split)

lemma fill_of_leg_exit:
  assumes "find_leg lid s = Some x" "\<not> fl_is_entry fx" "fl_ref fx = lg_position_ref x" "fl_row fx = lg_exit_order_id x"
    "fl_row fx \<noteq> None" "lg_superseded x = None"
  shows "find_leg lid (fill_of_leg lid fx s) = Some (fill_exit fx x)" "rs_claims (fill_of_leg lid fx s) = rs_claims s"
    "rs_stopping (fill_of_leg lid fx s) = rs_stopping s"
  using assms find_change_leg [of lid "fill_exit fx" lid s]
  by (auto simp: fill_of_leg_def fill_leg_def settles_superseded_def Let_def split: option.split)

lemma fill_of_leg_outgoing:
  assumes "find_leg lid s = Some n" "lg_superseded n = Some og" "\<not> fl_is_entry fx" "fl_ref fx = og_position_ref og"
    "fl_row fx = og_exit_order_id og"
  shows "find_leg lid (fill_of_leg lid fx s) = Some (settle_outgoing fx og n)"
  using assms find_change_leg [of lid "settle_outgoing fx og" lid s]
  by (cases "fl_ref fx") (auto simp: fill_of_leg_def fill_leg_def settles_superseded_def Let_def split: option.split)

lemma find_install_leg:
  assumes "\<not> rs_stopping s" "map_of (rs_claims s) lid = Some c" "ec_position_ref c = ref" "ec_expected_ref c = lg_position_ref x"
    "find_leg lid s = Some x" "lg_superseded x = None" "new_leg_state sp = Some n" "ls_leg_id sp = lid" "ls_position_ref sp = Some ref"
    "lg_status x = Open_leg \<longrightarrow> lg_exit_kind x \<noteq> None \<and> lg_exit_claim_token x \<noteq> None" "ec_held_position c \<noteq> None"
  shows "find_leg lid (install_leg sp c row s) =
    Some (n\<lparr>lg_entry_order_id := Some row, lg_superseded := (if lg_status x = Open_leg then Some (outgoing_from x) else None),
            lg_realized_pnl := lg_realized_pnl x\<rparr>)"
  using assms new_leg_fresh [OF assms(7)] by (auto simp: install_leg_def add_leg_def Let_def find_put_leg)

text \<open>C25: a flip keeps both positions: whether the fill that closes the old one comes before the new leg is
  installed, between its installation and its fill, or after its fill, the leg ends up with the new position as it
  filled and with the profit of the old one added to what it had realised.\<close>

theorem flip_settles_in_any_order:
  assumes prep: "prepare_flip toks lid side ref row s = Some (c, s1)" and old: "find_leg lid s = Some l"
    and new: "new_leg_state sp = Some n" "ls_leg_id sp = lid" "ls_position_ref sp = Some ref" "lg_position_ref l \<noteq> Some ref"
    and fx: "closes_old fx row l" and fe: "fl_is_entry fe" "fl_ref fe = Some ref" "fl_row fe = Some erow"
  defines "final \<equiv> fill_entry fe (n\<lparr>lg_entry_order_id := Some erow, lg_realized_pnl := lg_realized_pnl l + flip_gain fx l\<rparr>)"
  shows "find_leg lid (fill_of_leg lid fe (install_leg sp c erow (fill_of_leg lid fx s1))) = Some final \<and>
    find_leg lid (fill_of_leg lid fe (fill_of_leg lid fx (install_leg sp c erow s1))) = Some final \<and>
    find_leg lid (fill_of_leg lid fx (fill_of_leg lid fe (install_leg sp c erow s1))) = Some final"
proof -
  let ?x = "exit_sent (snd toks) row l"
  note p = prepare_flipD [OF prep old]
  have n: "lg_superseded n = None" "lg_position_ref n = Some ref"
    using new(1,3) by (auto simp: new_leg_state_def split: option.splits)
  have x: "lg_position_ref ?x = lg_position_ref l" "lg_exit_order_id ?x = Some row" "lg_superseded ?x = None"
    "lg_status ?x = Open_leg" "lg_exit_kind ?x \<noteq> None" "lg_exit_claim_token ?x \<noteq> None" "lg_realized_pnl ?x = lg_realized_pnl l"
    using p by (simp_all add: exit_sent_def)
  have fxs: "\<not> fl_is_entry fx" "fl_ref fx = lg_position_ref l" "fl_row fx = Some row" using fx by (auto simp: closes_old_def)
  let ?n0 = "n\<lparr>lg_entry_order_id := Some erow, lg_superseded := None, lg_realized_pnl := lg_realized_pnl l + flip_gain fx l\<rparr>"
  let ?n1 = "n\<lparr>lg_entry_order_id := Some erow, lg_superseded := Some (outgoing_from ?x), lg_realized_pnl := lg_realized_pnl l\<rparr>"
  have base: "?n0 = n\<lparr>lg_entry_order_id := Some erow, lg_realized_pnl := lg_realized_pnl l + flip_gain fx l\<rparr>"
    using n(1) by (cases n) simp
  have early: "find_leg lid (install_leg sp c erow s1) = Some ?n1"
    using find_install_leg [of s1 lid c ref ?x sp n erow] p x new(1-3) by simp
  have settled: "settle_outgoing fx (outgoing_from ?x) ?n1 = ?n0"
    using settle_closes [OF fx] by simp
  have og: "og_position_ref (outgoing_from ?x) = lg_position_ref l" "og_exit_order_id (outgoing_from ?x) = Some row"
    by (simp_all add: outgoing_from_def exit_sent_def)

  note xf = fill_of_leg_exit [of lid s1 ?x fx] and closes = fill_exit_closes [OF fx, of "snd toks"]
  have "find_leg lid (install_leg sp c erow (fill_of_leg lid fx s1)) = Some ?n0"
    using find_install_leg [of "fill_of_leg lid fx s1" lid c ref "fill_exit fx ?x" sp n erow] xf p x fxs closes new(1-3) by simp
  then have first: "find_leg lid (fill_of_leg lid fe (install_leg sp c erow (fill_of_leg lid fx s1))) = Some final"
    using fill_of_leg_entry [of lid _ ?n0 fe] fe n(2) by (simp add: final_def flip: base)

  have "find_leg lid (fill_of_leg lid fx (install_leg sp c erow s1)) = Some ?n0"
    using fill_of_leg_outgoing [OF early, of "outgoing_from ?x" fx] fxs og settled by simp
  then have second: "find_leg lid (fill_of_leg lid fe (fill_of_leg lid fx (install_leg sp c erow s1))) = Some final"
    using fill_of_leg_entry [of lid _ ?n0 fe] fe n(2) by (simp add: final_def flip: base)

  have filled: "find_leg lid (fill_of_leg lid fe (install_leg sp c erow s1)) = Some (fill_entry fe ?n1)"
    using fill_of_leg_entry [OF early fe(1)] fe n(2) by simp
  have "lg_superseded (fill_entry fe ?n1) = Some (outgoing_from ?x)"
    by (simp add: fill_entry_def Let_def split: option.split)
  moreover have "settle_outgoing fx (outgoing_from ?x) (fill_entry fe ?n1) = fill_entry fe ?n0"
    using settle_closes [OF fx] by (simp add: fill_entry_def Let_def split: option.split)
  ultimately have "find_leg lid (fill_of_leg lid fx (fill_of_leg lid fe (install_leg sp c erow s1))) = Some final"
    using fill_of_leg_outgoing [OF filled, of "outgoing_from ?x" fx] fxs og by (simp add: final_def flip: base)
  with first second show ?thesis by blast
qed

text \<open>A long leg of ten bought at 100 is flipped: sold at 120, and the new leg is short at 119.\<close>

definition sample_fill :: "bool \<Rightarrow> nat \<Rightarrow> string \<Rightarrow> rat \<Rightarrow> fill" where
  "sample_fill is_entry row ref p =
     \<lparr> fl_price = Some p, fl_is_entry = is_entry, fl_qty = Some 10, fl_row = Some row, fl_ref = Some ref, fl_cumulative = None,
       fl_terminal = True, fl_correction = False \<rparr>"

definition sample_claim :: entry_claim where
  "sample_claim = \<lparr>ec_token = ''t'', ec_position_ref = ''q'', ec_position = SELL, ec_held_position = Some BUY, ec_expected_ref = Some ''p''\<rparr>"

definition sample_prepared :: run_state where
  "sample_prepared = snd (the (prepare_flip (''t'', ''u'') ''1'' SELL ''q'' 8 sample_run_state))"

definition sample_new_leg :: leg where
  "sample_new_leg = the (new_leg_state sample_spec)"

theorem flip_settles_in_any_order_witness:
  "map_option (\<lambda>l. (lg_realized_pnl l, lg_position l, lg_entry_avg l, lg_qty l, lg_superseded l))
     (find_leg ''1'' (fill_of_leg ''1'' (sample_fill False 8 ''p'' 120) (fill_of_leg ''1'' (sample_fill True 9 ''q'' 119)
        (install_leg sample_spec sample_claim 9 sample_prepared)))) = Some (200, SELL, 119, 10, None)"
proof -
  have prep: "prepare_flip (''t'', ''u'') ''1'' SELL ''q'' 8 sample_run_state = Some (sample_claim, sample_prepared)" by code_simp
  have old: "find_leg ''1'' sample_run_state = Some sample_leg" by code_simp
  have new: "new_leg_state sample_spec = Some sample_new_leg" by code_simp
  have "closes_old (sample_fill False 8 ''p'' 120) 8 sample_leg" by code_simp
  from flip_settles_in_any_order [OF prep old new _ _ _ this, of "sample_fill True 9 ''q'' 119" 9]
  have "find_leg ''1'' (fill_of_leg ''1'' (sample_fill False 8 ''p'' 120) (fill_of_leg ''1'' (sample_fill True 9 ''q'' 119)
        (install_leg sample_spec sample_claim 9 sample_prepared))) =
      Some (fill_entry (sample_fill True 9 ''q'' 119) (sample_new_leg\<lparr>lg_entry_order_id := Some 9,
        lg_realized_pnl := lg_realized_pnl sample_leg + flip_gain (sample_fill False 8 ''p'' 120) sample_leg\<rparr>))"
    by (simp add: sample_spec_def sample_leg_def sample_fill_def)
  moreover have "(\<lambda>l. (lg_realized_pnl l, lg_position l, lg_entry_avg l, lg_qty l, lg_superseded l))
      (fill_entry (sample_fill True 9 ''q'' 119) (sample_new_leg\<lparr>lg_entry_order_id := Some 9,
        lg_realized_pnl := lg_realized_pnl sample_leg + flip_gain (sample_fill False 8 ''p'' 120) sample_leg\<rparr>)) = (200, SELL, 119, 10, None)"
    by code_simp
  ultimately show ?thesis by (simp only: option.map)
qed

end
