(* ===== verification/StrategyOrderLaws.thy ===== *)
theory StrategyOrderLaws
  imports StrategyDB "HOL-Library.Multiset"
begin

text \<open>
  What the durable order rows of the strategy module guarantee: a frame is folded in one indivisible
  step whatever other connections do, fills are counted once however frames repeat or arrive, and the
  quantity and the end of an order do not depend on their order.
\<close>

subsection \<open>One frame on one row\<close>

definition fold_step :: "(rat \<Rightarrow> rat) \<Rightarrow> time \<Rightarrow> order_frame \<Rightarrow> sm_order \<Rightarrow> sm_order" where
  "fold_step rd now fr row = (let d = fold_facts rd row fr in if ff_changed d then fold_row now fr d row else row)"

lemma fold_row_frame [simp]:
  "so_id (fold_row now fr d r) = so_id r" "so_qty (fold_row now fr d r) = so_qty r"
  "so_status (fold_row now fr d r) = ff_status d"
  "so_filled_qty (fold_row now fr d r) = (if ff_delta d > 0 then Some (ff_cumulative_qty d) else so_filled_qty r)"
  "so_avg_price (fold_row now fr d r) = (if ff_delta d > 0 then bf_price fr else so_avg_price r)"
  by (simp_all add: fold_row_def Let_def)

lemma stored_qty_nonneg [simp]: "stored_qty r \<ge> 0"
  by (simp add: stored_qty_def)

lemma fold_facts_simps [simp]:
  "ff_previous_status (fold_facts rd r fr) = so_status r"
  "ff_previous_qty (fold_facts rd r fr) = stored_qty r"
  "ff_cumulative_qty (fold_facts rd r fr) = max (stored_qty r) (evidence_qty r fr)"
  "ff_delta (fold_facts rd r fr) = max (stored_qty r) (evidence_qty r fr) - stored_qty r"
  "ff_previous_price (fold_facts rd r fr) = map_option rd (so_avg_price r)"
  by (simp_all add: fold_facts_def Let_def)

lemma fold_facts_price:
  "ff_price (fold_facts rd r fr) = (if evidence_qty r fr > stored_qty r then bf_price fr else map_option rd (so_avg_price r))"
  by (auto simp: fold_facts_def Let_def)

lemma fold_facts_status:
  "ff_status (fold_facts rd r fr) =
     folded_status (so_status r) (frame_status (bf_status fr)) (max (stored_qty r) (evidence_qty r fr) - stored_qty r)"
  by (simp add: fold_facts_def Let_def)

lemma fold_facts_changed:
  "ff_changed (fold_facts rd r fr) \<longleftrightarrow> ff_status (fold_facts rd r fr) \<noteq> so_status r \<or> evidence_qty r fr > stored_qty r"
  by (auto simp: fold_facts_def Let_def)

lemma fold_step_frame [simp]:
  "so_id (fold_step rd now fr r) = so_id r" "so_qty (fold_step rd now fr r) = so_qty r"
  by (simp_all add: fold_step_def Let_def)

lemma fold_step_status: "so_status (fold_step rd now fr r) = ff_status (fold_facts rd r fr)"
  by (auto simp: fold_step_def Let_def fold_facts_changed)

lemma fold_step_qty: "stored_qty (fold_step rd now fr r) = max (stored_qty r) (evidence_qty r fr)"
  by (auto simp: fold_step_def Let_def fold_facts_changed) (auto simp: stored_qty_def)

lemma fold_step_price:
  "so_avg_price (fold_step rd now fr r) = (if evidence_qty r fr > stored_qty r then bf_price fr else so_avg_price r)"
  by (auto simp: fold_step_def Let_def fold_facts_changed)

lemma fold_step_filled:
  "so_filled_qty (fold_step rd now fr r) =
     (if evidence_qty r fr > stored_qty r then Some (evidence_qty r fr) else so_filled_qty r)"
  by (auto simp: fold_step_def Let_def fold_facts_changed)

lemma evidence_cong: "so_qty r = so_qty r' \<Longrightarrow> evidence_qty r fr = evidence_qty r' fr"
  by (simp add: evidence_qty_def)

lemma folded_terminal: "terminal_status (folded_status p i d) \<longleftrightarrow> terminal_status p \<or> terminal_status i"
  by (cases p; cases i) (auto simp: folded_status_def terminal_status_def)

lemma fold_step_terminal:
  "terminal_status (so_status (fold_step rd now fr r)) \<longleftrightarrow> terminal_status (so_status r) \<or> terminal_status (frame_status (bf_status fr))"
  by (simp add: fold_step_status fold_facts_status folded_terminal)

subsection \<open>One frame on the table\<close>

definition sm_orders_wf :: "sm_db \<Rightarrow> bool" where
  "sm_orders_wf db \<longleftrightarrow> distinct (map so_id (sm_orders db))"

definition fold_write :: "(rat \<Rightarrow> rat) \<Rightarrow> time \<Rightarrow> nat \<Rightarrow> order_frame \<Rightarrow> sm_db \<Rightarrow> sm_db" where
  "fold_write rd now oid fr db =
     db\<lparr>sm_orders := sql_update (\<lambda>r. so_id r = oid) (fold_step rd now fr) (sm_orders db)\<rparr>"

lemma find_sm_orderD: "find_sm_order oid db = Some row \<Longrightarrow> row \<in> set (sm_orders db) \<and> so_id row = oid"
  unfolding find_sm_order_def by (drule find_SomeD) blast

lemma unique_order: "sm_orders_wf db \<Longrightarrow> r \<in> set (sm_orders db) \<Longrightarrow> r' \<in> set (sm_orders db) \<Longrightarrow> so_id r = so_id r' \<Longrightarrow> r = r'"
  by (auto simp: sm_orders_wf_def distinct_map inj_on_def)

lemma sql_update_eqI: "(\<And>r. r \<in> set rows \<Longrightarrow> (if P r then f r else r) = (if Q r then g r else r)) \<Longrightarrow> sql_update P f rows = sql_update Q g rows"
  by (simp add: sql_update_def)

text \<open>The conditional write on a row that still has what was read is the fold of the row that is there.\<close>

lemma conditional_write:
  assumes "sm_orders_wf db" "find_sm_order oid db = Some row" "unchanged_order oid row0 row"
    and "so_qty row = so_qty row0" "so_avg_price row = so_avg_price row0"
    and "ff_changed (fold_facts rd row0 fr)"
  shows "update_orders (unchanged_order oid row0) (fold_row now fr (fold_facts rd row0 fr)) db = (True, fold_write rd now oid fr db)"
    and "fold_facts rd row fr = fold_facts rd row0 fr"
proof -
  note row = find_sm_orderD [OF assms(2)]
  have same: "so_status row = so_status row0" "so_filled_qty row = so_filled_qty row0" using assms(3) by (simp_all add: unchanged_order_def)
  then have "stored_qty row = stored_qty row0" "evidence_qty row fr = evidence_qty row0 fr"
    using assms(4) by (simp_all add: stored_qty_def evidence_qty_def)
  then show d: "fold_facts rd row fr = fold_facts rd row0 fr"
    using same assms(5) by (simp add: fold_facts_def)
  have only: "unchanged_order oid row0 r \<longleftrightarrow> so_id r = oid" if "r \<in> set (sm_orders db)" for r
    using unique_order [OF assms(1) that, of row] row assms(3) by (auto simp: unchanged_order_def)
  have "row_count (unchanged_order oid row0) (sm_orders db) = 1"
    using row_count_eq_1_iff [of so_id "sm_orders db" "unchanged_order oid row0" oid] assms(1,3) row
    by (auto simp: sm_orders_wf_def unchanged_order_def)
  moreover have "sql_update (unchanged_order oid row0) (fold_row now fr (fold_facts rd row0 fr)) (sm_orders db) =
      sql_update (\<lambda>r. so_id r = oid) (fold_step rd now fr) (sm_orders db)"
  proof (rule sql_update_eqI)
    fix r assume r: "r \<in> set (sm_orders db)"
    show "(if unchanged_order oid row0 r then fold_row now fr (fold_facts rd row0 fr) r else r) =
        (if so_id r = oid then fold_step rd now fr r else r)"
    proof (cases "so_id r = oid")
      case True
      then have "r = row" using unique_order [OF assms(1) r, of row] row by simp
      with only [OF r] True d assms(6) show ?thesis by (simp add: fold_step_def Let_def)
    next
      case False
      with only [OF r] show ?thesis by simp
    qed
  qed
  ultimately show "update_orders (unchanged_order oid row0) (fold_row now fr (fold_facts rd row0 fr)) db = (True, fold_write rd now oid fr db)"
    by (simp add: update_orders_def fold_write_def)
qed

lemma find_fold_write:
  "find_sm_order k (fold_write rd now oid fr db) =
     map_option (\<lambda>r. if so_id r = oid then fold_step rd now fr r else r) (find_sm_order k db)"
  unfolding find_sm_order_def fold_write_def by (simp add: find_sql_update)

lemma sm_orders_wf_fold_write: "sm_orders_wf db \<Longrightarrow> sm_orders_wf (fold_write rd now oid fr db)"
  by (simp add: sm_orders_wf_def fold_write_def map_key_sql_update)

lemma quiet_write:
  assumes "sm_orders_wf db" "find_sm_order oid db = Some row" "\<not> ff_changed (fold_facts rd row fr)"
  shows "fold_write rd now oid fr db = db"
proof -
  note row = find_sm_orderD [OF assms(2)]
  have "(if so_id r = oid then fold_step rd now fr r else r) = r" if "r \<in> set (sm_orders db)" for r
    using unique_order [OF assms(1) that, of row] row assms(3) by (auto simp: fold_step_def Let_def)
  then have "sql_update (\<lambda>r. so_id r = oid) (fold_step rd now fr) (sm_orders db) = sm_orders db"
    by (simp add: sql_update_def map_idI)
  then show ?thesis by (simp add: fold_write_def)
qed

subsection \<open>A fold among other writers\<close>

text \<open>
  What other connections may do to the order between a read and a write: while its status and its
  quantity are as they were, its requested quantity and its price are, too.
\<close>

definition honest_writer :: "nat \<Rightarrow> (sm_db \<Rightarrow> sm_db) \<Rightarrow> bool" where
  "honest_writer oid g \<longleftrightarrow>
     (\<forall>db. sm_orders_wf db \<longrightarrow> sm_orders_wf (g db) \<and>
        (\<forall>r r'. find_sm_order oid db = Some r \<and> find_sm_order oid (g db) = Some r' \<and>
            so_status r' = so_status r \<and> so_filled_qty r' = so_filled_qty r \<longrightarrow>
            so_qty r' = so_qty r \<and> so_avg_price r' = so_avg_price r))"

lemma fold_is_honest: "honest_writer oid (fold_write rd now k fr)"
proof -
  have "evidence_qty r fr > stored_qty r \<longrightarrow> so_filled_qty (fold_step rd now fr r) \<noteq> so_filled_qty r" for r
    by (cases "so_filled_qty r") (auto simp: fold_step_filled stored_qty_def)
  then show ?thesis
    unfolding honest_writer_def find_fold_write
    by (auto simp: sm_orders_wf_fold_write fold_step_price)
qed

text \<open>The states the other writers lead to.\<close>

inductive others_reach :: "(nat \<Rightarrow> sm_db \<Rightarrow> sm_db) \<Rightarrow> sm_db \<Rightarrow> sm_db \<Rightarrow> bool" for env where
  others_refl: "others_reach env db db"
| others_step: "others_reach env (env n db) db1 \<Longrightarrow> others_reach env db db1"

definition fold_in_one_step ::
    "(rat \<Rightarrow> rat) \<Rightarrow> time \<Rightarrow> (nat \<Rightarrow> sm_db \<Rightarrow> sm_db) \<Rightarrow> nat \<Rightarrow> order_frame \<Rightarrow> sm_db \<Rightarrow> order_fold option \<times> sm_db \<Rightarrow> bool" where
  "fold_in_one_step rd now env oid fr db res \<longleftrightarrow>
     (case fst res of
        None \<Rightarrow> others_reach env db (snd res)
      | Some d \<Rightarrow>
          (\<exists>db0 row. others_reach env db db0 \<and> find_sm_order oid db0 = Some row \<and> d = fold_facts rd row fr \<and>
             snd res = fold_write rd now oid fr db0))"

lemma fold_in_one_step_later:
  "fold_in_one_step rd now env oid fr (env n db) res \<Longrightarrow> fold_in_one_step rd now env oid fr db res"
  by (auto simp: fold_in_one_step_def split: option.splits intro: others_step)

lemma fold_attempts_in_one_step:
  assumes "sm_orders_wf db" "\<And>n. honest_writer oid (env n)"
  shows "fold_in_one_step rd now env oid fr db (fold_attempts n rd now env oid fr db)"
  using assms(1)
proof (induction n arbitrary: db)
  case 0
  show ?case by (simp add: fold_in_one_step_def others_refl)
next
  case (Suc n)
  show ?case
  proof (cases "find_sm_order oid db")
    case None
    then show ?thesis by (simp add: fold_in_one_step_def others_refl)
  next
    case (Some row)
    let ?d = "fold_facts rd row fr" and ?db = "env n db"
    have honest: "sm_orders_wf ?db"
      "\<And>r. find_sm_order oid ?db = Some r \<Longrightarrow> so_status r = so_status row \<Longrightarrow> so_filled_qty r = so_filled_qty row \<Longrightarrow>
         so_qty r = so_qty row \<and> so_avg_price r = so_avg_price row"
      using assms(2) [of n] Suc.prems Some unfolding honest_writer_def by blast+
    show ?thesis
    proof (cases "ff_changed ?d")
      case False
      then have "fold_attempts (Suc n) rd now env oid fr db = (Some ?d, db)" using Some by simp
      then show ?thesis
        using quiet_write [OF Suc.prems Some False] Some by (auto simp: fold_in_one_step_def intro: others_refl)
    next
      case changed: True
      show ?thesis
      proof (cases "fst (update_orders (unchanged_order oid row) (fold_row now fr ?d) ?db)")
        case won: True
        then obtain r where r: "r \<in> set (sm_orders ?db)" "unchanged_order oid row r"
          using row_count_pos [of "unchanged_order oid row" "sm_orders ?db"] by (auto simp: update_orders_def)
        then have at_r: "find_sm_order oid ?db = Some r"
          unfolding find_sm_order_def using honest(1) r
          by (intro find_unique_key [where key = so_id]) (auto simp: sm_orders_wf_def unchanged_order_def)
        note wr = conditional_write [OF honest(1) at_r r(2) _ _ changed]
        have res: "fold_attempts (Suc n) rd now env oid fr db = (Some ?d, fold_write rd now oid fr ?db)"
          using Some changed wr(1) [of now] honest(2) [OF at_r] r(2) by (simp add: unchanged_order_def)
        have "?d = fold_facts rd r fr" using wr(2) honest(2) [OF at_r] r(2) by (simp add: unchanged_order_def)
        with at_r others_step [OF others_refl] show ?thesis
          unfolding res fold_in_one_step_def fst_conv snd_conv option.case by blast
      next
        case lost: False
        then have res: "fold_attempts (Suc n) rd now env oid fr db = fold_attempts n rd now env oid fr ?db"
          using Some changed by (simp add: update_orders_def)
        show ?thesis unfolding res by (rule fold_in_one_step_later) (rule Suc.IH [OF honest(1)])
      qed
    qed
  qed
qed

text \<open>C38: whatever other honest writers commit between the read and the write of each of its attempts, the fold of
  a frame takes effect in one step at a state they reached, with its answer worked out from that state's row,
  or, overtaken every time or without a row, not at all.\<close>

theorem order_fold_is_atomic:
  assumes "sm_orders_wf db" "\<forall>n. honest_writer oid (env n)"
  shows "fold_in_one_step rd now env oid fr db (fold_attempts FOLD_ATTEMPTS rd now env oid fr db)"
  using assms by (intro fold_attempts_in_one_step) blast+

definition sample_sm_order :: sm_order where
  "sample_sm_order =
     \<lparr> so_id = 1, so_run = 4, so_leg = 2, so_kind = Entry, so_position_ref = Some ''p'', so_broker_id = Some ''77'',
       so_action = BUY, so_qty = 10, so_status = So_open, so_placed_at = 0, so_filled_at = None, so_avg_price = None,
       so_filled_qty = None, so_reject_reason = None \<rparr>"

definition sample_sm_db :: sm_db where
  "sample_sm_db = \<lparr>sm_strategies = [], sm_runs = [], sm_orders = [sample_sm_order]\<rparr>"

definition sample_frame :: "string \<Rightarrow> int \<Rightarrow> order_frame" where
  "sample_frame s q = \<lparr>bf_status = s, bf_price = Some 100, bf_qty = Some q, bf_reject = None\<rparr>"

lemma sample_orders_wf: "sm_orders_wf sample_sm_db"
  by (simp add: sm_orders_wf_def sample_sm_db_def)

text \<open>Another worker folds a partial fill first.\<close>

theorem order_fold_is_atomic_witness:
  "fold_in_one_step id 5 (\<lambda>n. fold_write id 5 1 (sample_frame ''open'' 4)) 1 (sample_frame ''complete'' 10) sample_sm_db
     (fold_attempts FOLD_ATTEMPTS id 5 (\<lambda>n. fold_write id 5 1 (sample_frame ''open'' 4)) 1 (sample_frame ''complete'' 10) sample_sm_db)"
  by (rule order_fold_is_atomic) (simp_all add: sample_orders_wf fold_is_honest)

subsection \<open>A run of frames\<close>

primrec fold_frames :: "(rat \<Rightarrow> rat) \<Rightarrow> time \<Rightarrow> nat \<Rightarrow> order_frame list \<Rightarrow> sm_db \<Rightarrow> order_fold list \<times> sm_db" where
  "fold_frames rd now oid [] db = ([], db)"
| "fold_frames rd now oid (fr # frs) db =
     (case fold_order_broker_frame rd now oid fr db of (res, db1) \<Rightarrow>
        case fold_frames rd now oid frs db1 of (ds, db2) \<Rightarrow> (case res of Some d \<Rightarrow> d # ds | None \<Rightarrow> ds, db2))"

lemma fold_now:
  assumes "sm_orders_wf db" "find_sm_order oid db = Some row"
  shows "fold_order_broker_frame rd now oid fr db = (Some (fold_facts rd row fr), fold_write rd now oid fr db)"
proof (cases "ff_changed (fold_facts rd row fr)")
  case True
  have "unchanged_order oid row row" using find_sm_orderD [OF assms(2)] by (simp add: unchanged_order_def)
  note wr = conditional_write(1) [OF assms this refl refl True]
  show ?thesis
    using True assms(2) wr [of now]
    by (simp add: fold_order_broker_frame_def FOLD_ATTEMPTS_def eval_nat_numeral)
next
  case False
  then show ?thesis
    using assms(2) quiet_write [OF assms False]
    by (simp add: fold_order_broker_frame_def FOLD_ATTEMPTS_def eval_nat_numeral)
qed

definition folded_row :: "(rat \<Rightarrow> rat) \<Rightarrow> time \<Rightarrow> order_frame list \<Rightarrow> sm_order \<Rightarrow> sm_order" where
  "folded_row rd now frs row = fold (fold_step rd now) frs row"

primrec folded_facts :: "(rat \<Rightarrow> rat) \<Rightarrow> time \<Rightarrow> order_frame list \<Rightarrow> sm_order \<Rightarrow> order_fold list" where
  "folded_facts rd now [] row = []"
| "folded_facts rd now (fr # frs) row = fold_facts rd row fr # folded_facts rd now frs (fold_step rd now fr row)"

lemma fold_frames_rows:
  assumes "sm_orders_wf db" "find_sm_order oid db = Some row"
  shows "fst (fold_frames rd now oid frs db) = folded_facts rd now frs row \<and>
    find_sm_order oid (snd (fold_frames rd now oid frs db)) = Some (folded_row rd now frs row)"
  using assms
proof (induction frs arbitrary: db row)
  case Nil
  then show ?case by (simp add: folded_row_def)
next
  case (Cons fr frs)
  have "find_sm_order oid (fold_write rd now oid fr db) = Some (fold_step rd now fr row)"
    using Cons.prems find_sm_orderD [OF Cons.prems(2)] by (simp add: find_fold_write)
  from Cons.IH [OF sm_orders_wf_fold_write [OF Cons.prems(1)] this] show ?case
    using fold_now [OF Cons.prems]
    by (cases "fold_frames rd now oid frs (fold_write rd now oid fr db)") (simp add: folded_row_def)
qed

lemma folded_qty: "stored_qty (folded_row rd now frs row) = fold (\<lambda>fr q. max q (evidence_qty row fr)) frs (stored_qty row)"
proof (induction frs arbitrary: row)
  case (Cons fr frs)
  have "(\<lambda>f q. max q (evidence_qty (fold_step rd now fr row) f)) = (\<lambda>f q. max q (evidence_qty row f))"
    by (simp add: fun_eq_iff evidence_qty_def)
  with Cons show ?case by (simp add: folded_row_def fold_step_qty)
qed (simp add: folded_row_def)

lemma fold_max_set: "fold (\<lambda>x q. max q (f x)) xs (q::int) = Max (insert q (f ` set xs))"
proof (induction xs arbitrary: q)
  case (Cons x xs)
  have "Max (insert (max q (f x)) (f ` set xs)) = Max (insert q (f ` set (x # xs)))"
    by (cases "set xs = {}") (simp_all add: Max_insert max.assoc max.left_commute)
  with Cons show ?case by simp
qed simp

lemma folded_terminal_iff:
  "terminal_status (so_status (folded_row rd now frs row)) \<longleftrightarrow>
     terminal_status (so_status row) \<or> (\<exists>fr\<in>set frs. terminal_status (frame_status (bf_status fr)))"
  by (induction frs arbitrary: row) (auto simp: folded_row_def fold_step_terminal)

lemma folded_deltas:
  "(\<forall>d\<in>set (folded_facts rd now frs row). ff_delta d \<ge> 0) \<and>
   sum_list (map ff_delta (folded_facts rd now frs row)) = stored_qty (folded_row rd now frs row) - stored_qty row"
  by (induction frs arbitrary: row) (auto simp: folded_row_def fold_step_qty)

text \<open>Over any run of frames of an order, repeated or out of order, the quantities handed on add up to what
  the row gained, which is the largest quantity any frame was evidence of: a fill is counted once.\<close>

theorem fills_are_counted_once:
  assumes "sm_orders_wf db" "find_sm_order oid db = Some row"
  shows "\<exists>row1. find_sm_order oid (snd (fold_frames rd now oid frs db)) = Some row1 \<and>
    stored_qty row1 = Max (insert (stored_qty row) (evidence_qty row ` set frs)) \<and>
    (\<forall>d\<in>set (fst (fold_frames rd now oid frs db)). ff_delta d \<ge> 0) \<and>
    sum_list (map ff_delta (fst (fold_frames rd now oid frs db))) = stored_qty row1 - stored_qty row"
  using fold_frames_rows [OF assms, of rd now frs] folded_deltas [of rd now frs row]
  by (simp add: folded_qty fold_max_set)

theorem fills_are_counted_once_witness:
  "sum_list (map ff_delta (fst (fold_frames id 5 1
     [sample_frame ''open'' 4, sample_frame ''complete'' 10, sample_frame ''open'' 4, sample_frame ''complete'' 10] sample_sm_db))) = 10"
proof -
  have row: "find_sm_order 1 sample_sm_db = Some sample_sm_order"
    by (simp add: find_sm_order_def sample_sm_db_def sample_sm_order_def)
  show ?thesis
    using fills_are_counted_once [OF sample_orders_wf row, of id 5
        "[sample_frame ''open'' 4, sample_frame ''complete'' 10, sample_frame ''open'' 4, sample_frame ''complete'' 10]"]
    by (auto simp: stored_qty_def evidence_qty_def sample_frame_def sample_sm_order_def Let_def)
qed

text \<open>Two runs of frames with the same frames, in whatever order and however often each, leave the same filled
  quantity and agree on whether the order has ended; an order that has ended stays so.\<close>

theorem folds_agree_in_any_order:
  fixes rd now
  assumes "sm_orders_wf db" "find_sm_order oid db = Some row" "set frs = set frs'"
  defines "final \<equiv> \<lambda>fs. the (find_sm_order oid (snd (fold_frames rd now oid fs db)))"
  shows "stored_qty (final frs) = stored_qty (final frs') \<and>
    terminal_status (so_status (final frs)) = terminal_status (so_status (final frs')) \<and>
    (terminal_status (so_status row) \<longrightarrow> terminal_status (so_status (final frs)))"
  using fold_frames_rows [OF assms(1,2)] assms(3)
  by (simp add: final_def folded_qty fold_max_set folded_terminal_iff)

theorem folds_agree_in_any_order_witness:
  "stored_qty (the (find_sm_order 1 (snd (fold_frames id 5 1 [sample_frame ''open'' 4, sample_frame ''complete'' 10] sample_sm_db)))) =
   stored_qty (the (find_sm_order 1 (snd (fold_frames id 5 1 [sample_frame ''complete'' 10, sample_frame ''open'' 4] sample_sm_db))))"
  using folds_agree_in_any_order [OF sample_orders_wf, of 1 sample_sm_order "[sample_frame ''open'' 4, sample_frame ''complete'' 10]"
      "[sample_frame ''complete'' 10, sample_frame ''open'' 4]" id 5]
  by (simp add: find_sm_order_def sample_sm_db_def sample_sm_order_def insert_commute)

text \<open>The kind of end is another matter: a cancellation that carries the whole quantity keeps a completion out.\<close>

lemma folds_disagree_on_the_end:
  "so_status (folded_row id 5 [sample_frame ''cancelled'' 10, sample_frame ''complete'' 10] sample_sm_order) = So_cancelled"
  "so_status (folded_row id 5 [sample_frame ''complete'' 10, sample_frame ''cancelled'' 10] sample_sm_order) = So_complete"
  by code_simp+

end
