(* ===== verification/StrategyFillLaws.thy ===== *)
theory StrategyFillLaws
  imports StrategyLegLaws StrategyOrderLaws
begin

text \<open>
  From the broker's frames to the profit of a leg: the order row, the fills handed on and the leg taken
  together.  The frames of an exit order, however they repeat or arrive, leave the leg with what has not
  been sold and with the profit of what has.
\<close>

subsection \<open>What an exit order has traded\<close>

text \<open>The value traded by the time each quantity had; the average a broker reports is its quotient.\<close>

definition traded_value :: "(int \<Rightarrow> rat) \<Rightarrow> int \<Rightarrow> bool" where
  "traded_value N q \<longleftrightarrow> N 0 = 0 \<and> (\<forall>i j. 0 \<le> i \<and> i < j \<and> j \<le> q \<longrightarrow> N i < N j)"

definition reports :: "(int \<Rightarrow> rat) \<Rightarrow> sm_order \<Rightarrow> order_update \<Rightarrow> bool" where
  "reports N row u \<longleftrightarrow>
     (let ev = evidence_qty row (frame_of u) in ev \<le> so_qty row \<and> (ev > 0 \<longrightarrow> bf_price (frame_of u) = Some (N ev / of_int ev)))"

lemma traded_pos: "traded_value N q \<Longrightarrow> 0 < i \<Longrightarrow> i \<le> q \<Longrightarrow> N i > 0"
  by (metis order.refl traded_value_def)

lemma evidence_nonneg [simp]: "evidence_qty row fr \<ge> 0"
  by (simp add: evidence_qty_def Let_def)

text \<open>The price handed on with a quantity is the average of that quantity alone.\<close>

lemma increment_value:
  fixes N rd r fr
  defines "d \<equiv> fold_facts rd r fr"
  assumes N: "traded_value N q" and Q: "ff_cumulative_qty d \<le> q" "ff_delta d > 0"
    and price: "bf_price fr = Some (N (ff_cumulative_qty d) / of_int (ff_cumulative_qty d))"
    and before: "stored_qty r > 0 \<longrightarrow> map_option rd (so_avg_price r) = Some (N (stored_qty r) / of_int (stored_qty r))"
  shows "\<exists>p. incremental_fill_price d = Some p \<and> p * of_int (ff_delta d) = N (ff_cumulative_qty d) - N (stored_qty r)"
proof -
  let ?Q = "stored_qty r" and ?Q1 = "ff_cumulative_qty d"
  have delta: "ff_delta d = ?Q1 - ?Q" "evidence_qty r fr > ?Q" using Q(2) by (auto simp: d_def)
  have Q1: "?Q1 > 0" "?Q1 > ?Q" using delta Q(2) stored_qty_nonneg [of r] by linarith+
  have cum: "ff_price d = Some (N ?Q1 / of_int ?Q1)" using delta(2) price by (simp add: d_def fold_facts_price)
  have pos: "N ?Q1 / of_int ?Q1 > 0" using traded_pos [OF N Q1(1) Q(1)] Q1(1) by simp
  have whole: "N ?Q1 / of_int ?Q1 * of_int ?Q1 = N ?Q1" using Q1(1) by simp
  have cum_qty: "ff_previous_qty d = ?Q" by (simp add: d_def)
  show ?thesis
  proof (cases "?Q > 0")
    case False
    then have "?Q = 0" using stored_qty_nonneg [of r] by linarith
    moreover have "incremental_fill_price d = Some (N ?Q1 / of_int ?Q1)"
      using Q(2) cum pos \<open>?Q = 0\<close> by (auto simp: incremental_fill_price_def d_def split: option.split)
    ultimately show ?thesis using whole delta(1) N by (simp add: traded_value_def)
  next
    case True
    have less: "N ?Q < N ?Q1" using N True Q1(2) Q(1) by (auto simp: traded_value_def)
    have prev: "ff_previous_price d = Some (N ?Q / of_int ?Q)" "N ?Q / of_int ?Q > 0"
      using before True traded_pos [OF N True] Q1(2) Q(1) by (auto simp: d_def)
    have "incremental_fill_price d = usable (Some ((N ?Q1 - N ?Q) / of_int (ff_delta d)))"
      using Q(2) Q1(1) prev(2) True pos cum_qty unfolding incremental_fill_price_def cum prev(1) usable_Some
      by (simp add: whole)
    moreover have "(N ?Q1 - N ?Q) / of_int (ff_delta d) > 0" using less Q(2) by simp
    ultimately show ?thesis using Q(2) by simp
  qed
qed

subsection \<open>A run that goes flat\<close>

lemma change_leg_others [simp]:
  "filter (\<lambda>x. lg_id x \<noteq> lid) (rs_legs (change_leg lid f s)) = filter (\<lambda>x. lg_id x \<noteq> lid) (rs_legs s)"
  if "\<And>l. lg_id (f l) = lg_id l"
proof -
  have "filter (\<lambda>x. lg_id x \<noteq> lid) (map (\<lambda>l. if lg_id l = lid then f l else l) ls) = filter (\<lambda>x. lg_id x \<noteq> lid) ls" for ls
    using that by (induction ls) auto
  then show ?thesis by (simp add: change_leg_def)
qed

lemma recompute_legs [simp]: "rs_legs (recompute_totals s) = rs_legs s" "rs_strategy_id (recompute_totals s) = rs_strategy_id s"
  "rs_pnl_realized (recompute_totals s) = fst (run_pnl s)"
  by (simp_all add: recompute_totals_def split: prod.split)

text \<open>The row of a run that has been closed, with the profit it was closed with.\<close>

definition run_ended :: "nat \<Rightarrow> time \<Rightarrow> rat \<Rightarrow> engine_state \<Rightarrow> bool" where
  "run_ended rid now realized es \<longleftrightarrow> fst es rid = None \<and>
     (\<exists>rr \<in> set (sm_runs (snd es)). sr_id rr = rid \<and> sr_stopped_at rr = Some now \<and> sr_pnl_realized rr = realized)"

lemma closed_row_written:
  assumes "row_count P (sm_runs db) = 1" "\<And>r. P r \<Longrightarrow> sr_id r = rid"
  shows "\<exists>rr \<in> set (sql_update P (close_row now reason (realized, pk, tr)) (sm_runs db)).
    sr_id rr = rid \<and> sr_stopped_at rr = Some now \<and> sr_pnl_realized rr = realized"
proof -
  obtain r where r: "r \<in> set (sm_runs db)" "P r" using assms(1) row_count_pos [of P "sm_runs db"] by auto
  then have "close_row now reason (realized, pk, tr) r \<in> set (sql_update P (close_row now reason (realized, pk, tr)) (sm_runs db))"
    by (force simp: sql_update_def)
  then show ?thesis using assms(2) [OF r(2)] by (intro bexI [of _ "close_row now reason (realized, pk, tr) r"]) (simp_all add: close_row_def)
qed

lemma finalise_books:
  assumes "runs rid = Some s" "finalise now rid sid reason (runs, db) = (ok, es)"
  shows "sm_orders (snd es) = sm_orders db"
    and "if ok then run_ended rid now (rs_pnl_realized s) es \<and> \<not> run_requires_management s else fst es = runs"
proof -
  let ?fig = "(rs_pnl_realized s, rs_pnl_peak s, rs_pnl_trough s)"
  let ?f1 = "finish_run_and_release_strategy now rid sid reason ?fig db"
  let ?f2 = "finish_detached_run now rid sid reason ?fig (snd ?f1)"
  have one: "sm_orders (snd ?f1) = sm_orders db" "fst ?f1 \<Longrightarrow> run_ended rid now (rs_pnl_realized s) (clear_run_state rid runs, snd ?f1)"
    using closed_row_written [of "\<lambda>r. sr_id r = rid \<and> sr_strategy r = sid \<and> sr_stopped_at r = None" db rid now reason
        "rs_pnl_realized s" "rs_pnl_peak s" "rs_pnl_trough s"]
    by (auto simp: finish_run_and_release_strategy_def both_updates_def update_runs_def update_strategies_def run_ended_def
        clear_run_state_def split: if_splits)
  have two: "sm_orders (snd ?f2) = sm_orders (snd ?f1)"
    "fst ?f2 \<Longrightarrow> run_ended rid now (rs_pnl_realized s) (clear_run_state rid runs, snd ?f2)"
    using closed_row_written [of "\<lambda>r. sr_id r = rid \<and> sr_strategy r = sid \<and> sr_stopped_at r = None \<and>
        \<not> (\<exists>st\<in>set (sm_strategies (snd ?f1)). st_id st = sid \<and> st_current_run st = Some rid)" "snd ?f1" rid now reason
        "rs_pnl_realized s" "rs_pnl_peak s" "rs_pnl_trough s"]
    by (auto simp: finish_detached_run_def update_runs_def run_ended_def clear_run_state_def Let_def split: if_splits)
  have run: "finalise now rid sid reason (runs, db) =
      (if run_requires_management s then (False, (runs, db))
       else if fst ?f1 then (True, (clear_run_state rid runs, snd ?f1))
       else if fst ?f2 then (True, (clear_run_state rid runs, snd ?f2)) else (False, (runs, snd ?f2)))"
    using assms(1) by (simp add: finalise_def Let_def)
  show "sm_orders (snd es) = sm_orders db"
    using assms(2) one(1) two(1) unfolding run by (auto split: if_splits)
  show "if ok then run_ended rid now (rs_pnl_realized s) es \<and> \<not> run_requires_management s else fst es = runs"
    using assms(2) one(2) two(2) unfolding run by (auto split: if_splits)
qed

text \<open>A fill of a leg's exit changes the run's state, or closes a run that it leaves with nothing to manage.\<close>

lemma apply_exit_fill:
  fixes rd now db
  assumes "runs rid = Some s" "fill_leg lid fl s = (Applied False (\<not> run_requires_management s1), s1)" "\<not> fl_is_entry fl"
  defines "es \<equiv> snd (apply_fill rd now rid lid fl (runs, db))"
  shows "sm_orders (snd es) = sm_orders db"
    and "fst es = runs(rid \<mapsto> s1) \<or> run_ended rid now (rs_pnl_realized s1) es \<and> \<not> run_requires_management s1"
proof -
  define stop where "stop = (case find_run rid db of None \<Rightarrow> ''manual'' | Some r \<Rightarrow>
    (case sr_stop_requested_reason r of Some q \<Rightarrow> q | None \<Rightarrow> ''manual''))"
  obtain ok es1 where f: "finalise now rid (rs_strategy_id s1) stop (runs(rid \<mapsto> s1), db) = (ok, es1)" by (metis surj_pair)
  have cases: "es = (runs(rid \<mapsto> s1), db) \<or> es = es1"
  proof (cases "find_run rid db")
    case None
    then show ?thesis using assms(1,2) by (simp add: es_def apply_fill_def Let_def)
  next
    case (Some r)
    have "stop = (case sr_stop_requested_reason r of Some q \<Rightarrow> q | None \<Rightarrow> ''manual'')" by (simp add: stop_def Some)
    then show ?thesis using assms(1,2) f by (simp add: es_def apply_fill_def Let_def Some)
  qed
  have s1: "(runs(rid \<mapsto> s1)) rid = Some s1" by simp
  note fb = finalise_books [OF s1 f]
  show "sm_orders (snd es) = sm_orders db" using cases fb(1) by auto
  show "fst es = runs(rid \<mapsto> s1) \<or> run_ended rid now (rs_pnl_realized s1) es \<and> \<not> run_requires_management s1"
    using cases fb(2) by (cases ok) auto
qed

subsection \<open>The leg an exit order is for\<close>

text \<open>What the row and the leg say of each other while the frames come in: \<open>l0\<close> is the leg when the order was sent.\<close>

definition leg_books :: "(int \<Rightarrow> rat) \<Rightarrow> nat \<Rightarrow> leg \<Rightarrow> sm_order \<Rightarrow> leg \<Rightarrow> bool" where
  "leg_books N oid l0 r l \<longleftrightarrow>
     lg_id l = lg_id l0 \<and> lg_position l = lg_position l0 \<and> lg_entry_avg l = lg_entry_avg l0 \<and>
     lg_position_ref l = lg_position_ref l0 \<and> lg_superseded l = None \<and>
     lg_qty l = lg_qty l0 - stored_qty r \<and>
     lg_realized_pnl l =
       lg_realized_pnl l0 + (N (stored_qty r) - lg_entry_avg l0 * of_int (stored_qty r)) * side_sign (lg_position l0) \<and>
     lg_exit_order_id l \<in> {None, Some oid} \<and> (\<not> terminal_status (so_status r) \<longrightarrow> lg_exit_order_id l = Some oid)"

definition row_books :: "(rat \<Rightarrow> rat) \<Rightarrow> (int \<Rightarrow> rat) \<Rightarrow> int \<Rightarrow> sm_order \<Rightarrow> bool" where
  "row_books rd N q r \<longleftrightarrow> so_qty r = q \<and> stored_qty r \<le> q \<and>
     (stored_qty r > 0 \<longrightarrow> map_option rd (so_avg_price r) = Some (N (stored_qty r) / of_int (stored_qty r)))"

lemma row_books_fold:
  assumes "row_books rd N q r" "reports N r u" "\<forall>i. 0 < i \<and> i \<le> q \<longrightarrow> rd (N i / of_int i) = N i / of_int i"
  shows "row_books rd N q (fold_step rd now (frame_of u) r)"
  using assms by (auto simp: row_books_def reports_def Let_def fold_step_qty fold_step_price max_def)

definition booked_exit :: "fill \<Rightarrow> int \<Rightarrow> int \<Rightarrow> leg \<Rightarrow> leg" where
  "booked_exit fl applied remaining l =
     (let l1 = (case fl_price fl of Some p \<Rightarrow> l\<lparr>lg_exit_avg := Some p\<rparr> | None \<Rightarrow> l);
          l2 = (case fl_price fl of
                  Some p \<Rightarrow>
                    if applied > 0 \<and> lg_entry_avg l > 0
                    then l1\<lparr>lg_realized_pnl := lg_realized_pnl l + (p - lg_entry_avg l) * of_int applied * side_sign (lg_position l)\<rparr>
                    else l1
                | None \<Rightarrow> l1)
      in if remaining > 0 then l2\<lparr>lg_qty := remaining, lg_status := Open_leg\<rparr>
         else l2\<lparr>lg_qty := 0, lg_status := Closed_leg, lg_mtm := 0\<rparr>)"

lemma fill_exit_booked:
  "exit_fill_quantities (fl_qty fl) (lg_qty l) = (applied, remaining) \<Longrightarrow>
   fill_exit fl l =
     (if fl_terminal fl \<and> (fl_row fl = None \<or> lg_exit_order_id l = fl_row fl)
      then clear_exit (booked_exit fl applied remaining l) else booked_exit fl applied remaining l)"
  by (simp only: fill_exit_def booked_exit_def prod.case Let_def)

lemma booked_exit_fields [simp]:
  "lg_qty (booked_exit fl applied remaining l) = max 0 remaining"
  "lg_realized_pnl (booked_exit fl applied remaining l) =
     (case fl_price fl of
        Some p \<Rightarrow> if applied > 0 \<and> lg_entry_avg l > 0
                  then lg_realized_pnl l + (p - lg_entry_avg l) * of_int applied * side_sign (lg_position l) else lg_realized_pnl l
      | None \<Rightarrow> lg_realized_pnl l)"
  "lg_id (booked_exit fl applied remaining l) = lg_id l"
  "lg_position (booked_exit fl applied remaining l) = lg_position l"
  "lg_entry_avg (booked_exit fl applied remaining l) = lg_entry_avg l"
  "lg_position_ref (booked_exit fl applied remaining l) = lg_position_ref l"
  "lg_superseded (booked_exit fl applied remaining l) = lg_superseded l"
  "lg_exit_order_id (booked_exit fl applied remaining l) = lg_exit_order_id l"
  by (auto simp: booked_exit_def Let_def split: option.split)

lemma fill_exit_fields:
  assumes "exit_fill_quantities (fl_qty fl) (lg_qty l) = (applied, remaining)"
  shows "lg_qty (fill_exit fl l) = max 0 remaining"
    "lg_realized_pnl (fill_exit fl l) = lg_realized_pnl (booked_exit fl applied remaining l)"
    "lg_position (fill_exit fl l) = lg_position l" "lg_entry_avg (fill_exit fl l) = lg_entry_avg l"
    "lg_position_ref (fill_exit fl l) = lg_position_ref l" "lg_superseded (fill_exit fl l) = lg_superseded l"
    "lg_exit_order_id (fill_exit fl l) =
       (if fl_terminal fl \<and> (fl_row fl = None \<or> lg_exit_order_id l = fl_row fl) then None else lg_exit_order_id l)"
  unfolding fill_exit_booked [OF assms] by (auto simp: clear_exit_def)

text \<open>A fill of the increment keeps the account.\<close>

lemma leg_books_fill:
  fixes rd r u
  defines "d \<equiv> fold_facts rd r (frame_of u)"
  assumes N: "traded_value N (lg_qty l0)" and e: "lg_entry_avg l0 > 0"
    and row: "row_books rd N (lg_qty l0) r" and u: "reports N r u" and books: "leg_books N oid l0 r l"
    and fl: "fl_price fl = incremental_fill_price d" "fl_qty fl = Some (ff_delta d)" "fl_row fl = Some oid"
      "fl_terminal fl = terminal_status (ff_status d)"
  shows "leg_books N oid l0 (fold_step rd now (frame_of u) r) (fill_exit fl l)"
proof -
  let ?Q = "stored_qty r" and ?Q1 = "ff_cumulative_qty d"
  have Q1: "?Q1 = max ?Q (evidence_qty r (frame_of u))" "ff_delta d = ?Q1 - ?Q" "?Q \<le> ?Q1" "?Q1 \<le> lg_qty l0"
    using row u by (auto simp: d_def row_books_def reports_def Let_def)
  have qty: "exit_fill_quantities (fl_qty fl) (lg_qty l) = (ff_delta d, lg_qty l0 - ?Q1)"
  proof -
    have "lg_qty l = lg_qty l0 - ?Q" using books by (simp add: leg_books_def)
    with Q1(2-4) have "max 0 (lg_qty l) = lg_qty l0 - ?Q" "max 0 (ff_delta d) = ff_delta d" "ff_delta d \<le> lg_qty l0 - ?Q" by linarith+
    then show ?thesis by (simp add: exit_fill_quantities_def fl(2) Let_def Q1(2))
  qed
  have gain: "lg_realized_pnl (fill_exit fl l) =
      lg_realized_pnl l + (N ?Q1 - N ?Q - lg_entry_avg l0 * of_int (ff_delta d)) * side_sign (lg_position l0)"
  proof (cases "ff_delta d > 0")
    case True
    then have ev: "?Q1 = evidence_qty r (frame_of u)" using Q1 by auto
    then have "evidence_qty r (frame_of u) > 0" using True Q1(2) stored_qty_nonneg [of r] by linarith
    then have price: "bf_price (frame_of u) = Some (N ?Q1 / of_int ?Q1)" using u ev by (simp add: reports_def Let_def)
    obtain p where p: "incremental_fill_price d = Some p" "p * of_int (ff_delta d) = N ?Q1 - N ?Q"
      using increment_value [OF N, of rd r "frame_of u"] Q1(4) True price row unfolding d_def row_books_def by blast
    then show ?thesis
      using True e books fl(1) qty
      by (simp add: fill_exit_fields leg_books_def left_diff_distrib)
  next
    case False
    then have z: "ff_delta d = 0" "?Q1 = ?Q" using Q1 by auto
    then have "incremental_fill_price d = None" by (simp add: incremental_fill_price_def)
    then show ?thesis using z qty fl(1) by (simp add: fill_exit_fields)
  qed
  have status: "so_status (fold_step rd now (frame_of u) r) = ff_status d" by (simp add: fold_step_status d_def)
  have stored: "stored_qty (fold_step rd now (frame_of u) r) = ?Q1" by (simp add: fold_step_qty Q1(1))
  have still: "\<not> terminal_status (ff_status d) \<Longrightarrow> \<not> terminal_status (so_status r)"
    using fold_step_terminal [of rd now "frame_of u" r] by (simp add: status)
  have "lg_qty (fill_exit fl l) = lg_qty l0 - ?Q1"
    using qty Q1(4) by (simp add: fill_exit_fields)
  moreover have "lg_realized_pnl (fill_exit fl l) =
      lg_realized_pnl l0 + (N ?Q1 - lg_entry_avg l0 * of_int ?Q1) * side_sign (lg_position l0)"
    using gain books by (simp add: leg_books_def Q1(2) algebra_simps)
  ultimately show ?thesis
    unfolding leg_books_def stored status using books still fl(3,4)
    by (auto simp: leg_books_def fill_exit_fields [OF qty])
qed

subsection \<open>One frame of an exit order\<close>

definition exit_books :: "(rat \<Rightarrow> rat) \<Rightarrow> (int \<Rightarrow> rat) \<Rightarrow> nat \<Rightarrow> leg \<Rightarrow> sm_order \<Rightarrow> sm_order \<Rightarrow> engine_state \<Rightarrow> bool" where
  "exit_books rd N rid l0 row r es \<longleftrightarrow>
     sm_orders_wf (snd es) \<and> find_sm_order (so_id row) (snd es) = Some r \<and> row_books rd N (lg_qty l0) r \<and>
     (\<exists>s l. fst es rid = Some s \<and> find_leg (lg_id l0) s = Some l \<and> leg_books N (so_id row) l0 r l)"

text \<open>The exit order of a leg: its row names the run and the position.\<close>

definition exit_row :: "nat \<Rightarrow> leg \<Rightarrow> sm_order \<Rightarrow> bool" where
  "exit_row rid l0 row \<longleftrightarrow> so_kind row \<noteq> Entry \<and> so_run row = rid \<and> so_position_ref row = lg_position_ref l0 \<and>
     lg_position_ref l0 \<noteq> None \<and> lg_position_ref l0 \<noteq> Some [] \<and> lg_entry_avg l0 > 0"

lemma exit_row_fill:
  assumes "exit_row rid l0 row"
  shows "fl_is_entry (fill_of row d) = False" "fl_row (fill_of row d) = Some (so_id row)" "fl_qty (fill_of row d) = Some (ff_delta d)"
    "fl_ref (fill_of row d) = lg_position_ref l0" "fl_price (fill_of row d) = incremental_fill_price d"
    "fl_terminal (fill_of row d) = terminal_status (ff_status d)" "fl_correction (fill_of row d) = terminal_status (ff_previous_status d)"
  using assms by (auto simp: exit_row_def fill_of_def Let_def split: option.splits)

lemma exit_row_fill_leg:
  assumes "exit_row rid l0 row" "find_leg (lg_id l0) s = Some l" "leg_books N (so_id row) l0 r l"
    and "ff_previous_status d = so_status r"
  defines "s1 \<equiv> recompute_totals (change_leg (lg_id l0) (fill_exit (fill_of row d)) s)"
  shows "fill_leg (lg_id l0) (fill_of row d) s = (Applied False (\<not> run_requires_management s1), s1)"
proof -
  have "lg_superseded l = None" "lg_position_ref l = lg_position_ref l0" "lg_exit_order_id l = None \<or> lg_exit_order_id l = Some (so_id row)"
    "\<not> terminal_status (so_status r) \<Longrightarrow> lg_exit_order_id l = Some (so_id row)"
    using assms(3) by (auto simp: leg_books_def)
  then show ?thesis
    using assms(2,4) by (auto simp: fill_leg_def settles_superseded_def exit_row_fill [OF assms(1)] Let_def s1_def)
qed

lemma fold_write_tables [simp]:
  "sm_runs (fold_write rd now oid fr db) = sm_runs db" "sm_strategies (fold_write rd now oid fr db) = sm_strategies db"
  by (simp_all add: fold_write_def)

text \<open>Letting go of the exit changes nothing that is counted.\<close>

lemma leg_books_release:
  "leg_books N oid l0 r l \<Longrightarrow> terminal_status (so_status r) \<Longrightarrow> leg_books N oid l0 r (clear_exit l)"
  by (simp add: leg_books_def clear_exit_def)

lemma release_order_exit_books:
  assumes "find_leg lid s = Some l" "leg_books N oid l0 r l"
  shows "snd (release_order_exit lid oid ref s) = s \<or> snd (release_order_exit lid oid ref s) = change_leg lid clear_exit s"
  using assms by (auto simp: release_order_exit_def exit_owner_of_def leg_books_def)

lemma frame_ended_books:
  assumes books: "exit_books rd N rid l0 row r es" and row: "exit_row rid l0 row" and ended: "terminal_status (so_status r)"
  shows "exit_books rd N rid l0 row r (snd (frame_ended rid (lg_id l0) row d st applied ow es))"
proof -
  obtain runs db where es: "es = (runs, db)" by fastforce
  obtain s l where s: "runs rid = Some s" "find_leg (lg_id l0) s = Some l" "leg_books N (so_id row) l0 r l"
    using books by (auto simp: exit_books_def es)
  let ?s1 = "snd (release_order_exit (lg_id l0) (so_id row) (so_position_ref row) s)"
  have "snd (frame_ended rid (lg_id l0) row d st applied ow es) = es \<or>
      snd (frame_ended rid (lg_id l0) row d st applied ow es) = (runs(rid \<mapsto> ?s1), db)"
    using row s(1) by (auto simp: frame_ended_def es exit_row_def on_run_def Let_def split: prod.split)
  moreover have "exit_books rd N rid l0 row r (runs(rid \<mapsto> ?s1), db)"
  proof (cases "?s1 = s")
    case True
    then show ?thesis using books s(1) by (simp add: es fun_upd_idem)
  next
    case False
    then have s1: "?s1 = change_leg (lg_id l0) clear_exit s" using release_order_exit_books [OF s(2,3)] by blast
    have "find_leg (lg_id l0) (change_leg (lg_id l0) clear_exit s) = Some (clear_exit l)"
      using s(2) find_change_leg [of "lg_id l0" clear_exit "lg_id l0" s] by simp
    then show ?thesis
      using books leg_books_release [OF s(3) ended] unfolding exit_books_def s1 es by auto
  qed
  ultimately show ?thesis using books by auto
qed

text \<open>What the order has traded is on the leg.\<close>

definition booked :: "(int \<Rightarrow> rat) \<Rightarrow> leg \<Rightarrow> int \<Rightarrow> leg \<Rightarrow> bool" where
  "booked N l0 q l \<longleftrightarrow> lg_qty l = lg_qty l0 - q \<and>
     lg_realized_pnl l = lg_realized_pnl l0 + (N q - lg_entry_avg l0 * of_int q) * side_sign (lg_position l0)"

text \<open>The run was closed over: its last state differs from \<open>s\<close> in the leg alone, which has traded all it
  held, and the figure of the closed row is the profit of that state.\<close>

definition closed_over :: "(int \<Rightarrow> rat) \<Rightarrow> nat \<Rightarrow> time \<Rightarrow> leg \<Rightarrow> run_state \<Rightarrow> engine_state \<Rightarrow> bool" where
  "closed_over N rid now l0 s es \<longleftrightarrow>
     (\<exists>s1 l. find_leg (lg_id l0) s1 = Some l \<and> booked N l0 (lg_qty l0) l \<and>
        filter (\<lambda>x. lg_id x \<noteq> lg_id l0) (rs_legs s1) = filter (\<lambda>x. lg_id x \<noteq> lg_id l0) (rs_legs s) \<and>
        run_ended rid now (fst (run_pnl s1)) es)"

lemma find_leg_member: "find_leg lid s = Some l \<Longrightarrow> l \<in> set (rs_legs s)"
  unfolding find_leg_def by (drule find_SomeD) blast

lemma recompute_pnl [simp]: "run_pnl (recompute_totals s) = run_pnl s"
  by (simp add: run_pnl_def)

lemma fill_exit_id [simp]: "lg_id (fill_exit fl l) = lg_id l"
  by (cases "exit_fill_quantities (fl_qty fl) (lg_qty l)") (simp add: fill_exit_booked clear_exit_def)

text \<open>The fill of one frame.\<close>

lemma frame_fill_books:
  fixes rd now r u
  defines "d \<equiv> fold_facts rd r (frame_of u)"
  assumes books: "exit_books rd N rid l0 row r (runs, db)" and row: "exit_row rid l0 row" and u: "reports N r u"
    and N: "traded_value N (lg_qty l0)" and exact: "\<forall>i. 0 < i \<and> i \<le> lg_qty l0 \<longrightarrow> rd (N i / of_int i) = N i / of_int i"
    and live: "runs rid = Some s"
  defines "es \<equiv> snd (frame_fill rd now rid (lg_id l0) row d (runs, fold_write rd now (so_id row) (frame_of u) db))"
  shows "exit_books rd N rid l0 row (fold_step rd now (frame_of u) r) es \<or>
    closed_over N rid now l0 s es \<and> stored_qty (fold_step rd now (frame_of u) r) = lg_qty l0"
proof -
  let ?r1 = "fold_step rd now (frame_of u) r" and ?db1 = "fold_write rd now (so_id row) (frame_of u) db"
  obtain l where s: "runs rid = Some s" "find_leg (lg_id l0) s = Some l" "leg_books N (so_id row) l0 r l"
    using books live by (auto simp: exit_books_def)
  let ?fl = "fill_of row d"
  let ?s1 = "recompute_totals (change_leg (lg_id l0) (fill_exit ?fl) s)"
  note fl = exit_row_fill [OF row, of d]
  have step: "fill_leg (lg_id l0) ?fl s = (Applied False (\<not> run_requires_management ?s1), ?s1)"
    by (rule exit_row_fill_leg [OF row s(2,3)]) (simp add: d_def)
  note fill = apply_exit_fill [where runs = runs and rid = rid and rd = rd and now = now and db = ?db1, OF s(1) step]
  have es: "es = snd (apply_fill rd now rid (lg_id l0) ?fl (runs, ?db1))"
    using fl(1) by (cases "apply_fill rd now rid (lg_id l0) ?fl (runs, ?db1)"; cases "fst (apply_fill rd now rid (lg_id l0) ?fl (runs, ?db1))")
      (simp add: es_def frame_fill_def Let_def)
  have leg: "leg_books N (so_id row) l0 ?r1 (fill_exit ?fl l)"
    using leg_books_fill [OF N _ _ u s(3), of rd ?fl now] books row fl by (auto simp: exit_books_def exit_row_def d_def)
  have found: "find_leg (lg_id l0) ?s1 = Some (fill_exit ?fl l)"
    using s(2) find_change_leg [of "lg_id l0" "fill_exit ?fl" "lg_id l0" s] by (simp add: find_leg_def)
  have rows: "find_sm_order (so_id row) ?db1 = Some ?r1" "row_books rd N (lg_qty l0) ?r1"
    using books find_sm_orderD [of "so_id row" db r] row_books_fold [OF _ u exact] by (auto simp: exit_books_def find_fold_write)
  have orders: "sm_orders (snd es) = sm_orders ?db1" unfolding es using fill(1) fl(1) by simp
  have "sm_orders_wf ?db1" using books by (simp add: exit_books_def sm_orders_wf_fold_write)
  then have "sm_orders_wf (snd es)" "find_sm_order (so_id row) (snd es) = Some ?r1"
    using orders rows(1) by (simp_all add: sm_orders_wf_def find_sm_order_def)
  note keep = this rows(2)
  from fill(2) fl(1) consider "fst es = runs(rid \<mapsto> ?s1)"
    | "run_ended rid now (rs_pnl_realized ?s1) es" "\<not> run_requires_management ?s1"
    unfolding es by blast
  then show ?thesis
  proof cases
    case 1
    then have "exit_books rd N rid l0 row ?r1 es" using keep found leg by (simp add: exit_books_def)
    then show ?thesis ..
  next
    case 2
    have "\<not> leg_requires_management (fill_exit ?fl l)"
      using 2(2) find_leg_member [OF found] by (auto simp: run_requires_management_def)
    then have flat: "lg_status (fill_exit ?fl l) \<noteq> Open_leg"
      by (auto simp: leg_requires_management_def split: if_splits)
    obtain applied remaining where qty: "exit_fill_quantities (fl_qty ?fl) (lg_qty l) = (applied, remaining)" by fastforce
    have "remaining \<le> 0" using flat unfolding fill_exit_booked [OF qty] by (auto simp: booked_exit_def clear_exit_def Let_def split: if_splits option.splits)
    then have "lg_qty (fill_exit ?fl l) = 0" by (simp add: fill_exit_fields(1) [OF qty])
    then have all: "stored_qty ?r1 = lg_qty l0" using leg by (simp add: leg_books_def)
    then have "booked N l0 (lg_qty l0) (fill_exit ?fl l)" using leg by (simp add: leg_books_def booked_def)
    then have "closed_over N rid now l0 s es"
      unfolding closed_over_def using found 2(1) by (intro exI [of _ ?s1] exI [of _ "fill_exit ?fl l"]) simp
    with all show ?thesis by blast
  qed
qed

lemma quiet_frame_books:
  assumes books: "exit_books rd N rid l0 row r (runs, db)"
    and still: "evidence_qty r (frame_of u) \<le> stored_qty r"
  shows "exit_books rd N rid l0 row (fold_step rd now (frame_of u) r) (runs, fold_write rd now (so_id row) (frame_of u) db)"
proof -
  let ?r1 = "fold_step rd now (frame_of u) r" and ?db1 = "fold_write rd now (so_id row) (frame_of u) db"
  obtain s l where s: "runs rid = Some s" "find_leg (lg_id l0) s = Some l" "leg_books N (so_id row) l0 r l"
    using books by (auto simp: exit_books_def)
  have same: "stored_qty ?r1 = stored_qty r" "so_avg_price ?r1 = so_avg_price r" "so_qty ?r1 = so_qty r"
    using still by (simp_all add: fold_step_qty fold_step_price)
  have ended: "terminal_status (so_status r) \<Longrightarrow> terminal_status (so_status ?r1)" by (simp add: fold_step_terminal)
  have "leg_books N (so_id row) l0 ?r1 l" using s(3) ended by (auto simp: leg_books_def same)
  moreover have "row_books rd N (lg_qty l0) ?r1" using books by (simp add: exit_books_def row_books_def same)
  moreover have "find_sm_order (so_id row) ?db1 = Some ?r1"
    using books find_sm_orderD [of "so_id row" db r] by (auto simp: exit_books_def find_fold_write)
  ultimately show ?thesis using books s by (auto simp: exit_books_def sm_orders_wf_fold_write)
qed

lemma frame_ended_closed:
  assumes "fst es rid = None"
  shows "fst (snd (frame_ended rid lid row d st applied ow es)) rid = None"
    and "snd (snd (frame_ended rid lid row d st applied ow es)) = snd es"
proof -
  obtain runs db where es: "es = (runs, db)" by fastforce
  show "fst (snd (frame_ended rid lid row d st applied ow es)) rid = None"
    "snd (snd (frame_ended rid lid row d st applied ow es)) = snd es"
    using assms by (auto simp: es frame_ended_def on_run_def Let_def split: prod.split)
qed

lemma frame_books:
  fixes rd now r u
  assumes books: "exit_books rd N rid l0 row r es" and row: "exit_row rid l0 row" and u: "reports N r u"
    and N: "traded_value N (lg_qty l0)" and exact: "\<forall>i. 0 < i \<and> i \<le> lg_qty l0 \<longrightarrow> rd (N i / of_int i) = N i / of_int i"
    and live: "fst es rid = Some s"
  defines "r1 \<equiv> fold_step rd now (frame_of u) r" and "es2 \<equiv> snd (apply_frame rd now (lg_id l0) row u es)"
  shows "exit_books rd N rid l0 row r1 es2 \<or> closed_over N rid now l0 s es2 \<and> stored_qty r1 = lg_qty l0"
proof -
  obtain runs db where es: "es = (runs, db)" by fastforce
  let ?db1 = "fold_write rd now (so_id row) (frame_of u) db"
  define d where "d = fold_facts rd r (frame_of u)"
  have fold: "fold_order_broker_frame rd now (so_id row) (frame_of u) db = (Some d, ?db1)"
    unfolding d_def using books by (intro fold_now) (auto simp: exit_books_def es)
  have run: "so_run row = rid" "so_kind row \<noteq> Entry" using row by (auto simp: exit_row_def)
  define applied where "applied = (ff_delta d > 0 \<or> (terminal_status (ff_status d) \<and> ff_cumulative_qty d > 0))"
  define es1 where "es1 = (if applied then snd (frame_fill rd now rid (lg_id l0) row d (runs, ?db1)) else (runs, ?db1))"
  have quiet: "exit_books rd N rid l0 row r1 (runs, ?db1)" if "\<not> ff_delta d > 0"
    unfolding r1_def using books that unfolding es by (intro quiet_frame_books) (auto simp: d_def)
  have es1: "exit_books rd N rid l0 row r1 es1 \<or> closed_over N rid now l0 s es1 \<and> stored_qty r1 = lg_qty l0"
  proof (cases applied)
    case True
    then show ?thesis
      using frame_fill_books [OF books [unfolded es] row u N exact, of s now] live by (simp add: es1_def d_def r1_def es)
  next
    case False
    then have "\<not> ff_delta d > 0" by (simp add: applied_def)
    with False quiet show ?thesis by (simp add: es1_def)
  qed
  show ?thesis
  proof (cases "ff_changed d")
    case False
    then have "\<not> ff_delta d > 0" by (auto simp: d_def fold_facts_changed)
    with False quiet show ?thesis by (simp add: es2_def apply_frame_def es fold)
  next
    case True
    let ?in = "frame_status (canonical_status (ou_status u))"
    define ow where "ow = (case runs rid of None \<Rightarrow> None
      | Some s \<Rightarrow> (case find_leg (lg_id l0) s of None \<Rightarrow> None | Some l \<Rightarrow> exit_owner_of (so_id row) (so_position_ref row) l))"
    have es2: "es2 =
        (if ?in \<in> {So_cancelled, So_rejected} \<and> \<not> terminal_status (ff_previous_status d)
         then snd (frame_ended rid (lg_id l0) row d ?in applied ow es1) else es1)"
      using True run unfolding es2_def apply_frame_def es prod.case fold option.case Let_def
      by (simp add: split_beta es1_def applied_def ow_def)
    from es1 show ?thesis
    proof
      assume "exit_books rd N rid l0 row r1 es1"
      moreover have "terminal_status (so_status r1)" if "?in \<in> {So_cancelled, So_rejected}"
      proof -
        have "terminal_status ?in" using that by (auto simp: terminal_status_def)
        then show ?thesis by (simp add: fold_step_terminal frame_of_def r1_def)
      qed
      ultimately show ?thesis using frame_ended_books [of rd N rid l0 row r1 es1 d ?in applied ow] row es2 by simp
    next
      assume c: "closed_over N rid now l0 s es1 \<and> stored_qty r1 = lg_qty l0"
      then have none: "fst es1 rid = None" by (auto simp: closed_over_def run_ended_def)
      have "closed_over N rid now l0 s es2"
        using c none frame_ended_closed [OF none, of "lg_id l0" row d ?in applied ow]
        unfolding es2 by (auto simp: closed_over_def run_ended_def)
      with c show ?thesis by blast
    qed
  qed
qed

text \<open>A run that is not live stays so.\<close>

lemma frame_of_no_run:
  assumes "fst es rid = None" "so_run row = rid" "so_kind row \<noteq> Entry"
  shows "fst (snd (apply_frame rd now lid row u es)) rid = None"
proof -
  obtain runs db where es: "es = (runs, db)" by fastforce
  obtain x db1 where fold: "fold_order_broker_frame rd now (so_id row) (frame_of u) db = (x, db1)" by fastforce
  have fill: "fst (snd (frame_fill rd now rid lid row d (runs, db1))) = runs" for d
    using assms by (auto simp: es frame_fill_def apply_fill_def Let_def split: prod.split)
  show ?thesis
  proof (cases x)
    case None
    then show ?thesis using assms(1) by (simp add: apply_frame_def es fold)
  next
    case (Some d)
    have step: "fst (snd (frame_ended rid lid row d st ap ow e)) rid = None" if "fst e rid = None" for st ap ow e
      using frame_ended_closed(1) [OF that] .
    show ?thesis
      using assms fill [of d] step
      by (auto simp: apply_frame_def es fold Some Let_def split_beta)
  qed
qed

subsection \<open>All its frames\<close>

definition apply_frames :: "(rat \<Rightarrow> rat) \<Rightarrow> time \<Rightarrow> string \<Rightarrow> sm_order \<Rightarrow> order_update list \<Rightarrow> engine_state \<Rightarrow> engine_state" where
  "apply_frames rd now lid row us es = fold (\<lambda>u es. snd (apply_frame rd now lid row u es)) us es"

lemma apply_frames_append:
  "apply_frames rd now lid row (us @ vs) es = apply_frames rd now lid row vs (apply_frames rd now lid row us es)"
  by (simp add: apply_frames_def)

lemma frames_of_no_run:
  assumes "fst es rid = None" "so_run row = rid" "so_kind row \<noteq> Entry"
  shows "fst (apply_frames rd now lid row us es) rid = None"
  using assms(1)
proof (induction us arbitrary: es)
  case (Cons u us)
  then show ?case using frame_of_no_run [OF Cons.prems assms(2,3)] by (simp add: apply_frames_def)
qed (simp add: apply_frames_def)

text \<open>Some frame of the run of frames closed the run over.\<close>

definition closed_by_frame ::
    "(rat \<Rightarrow> rat) \<Rightarrow> (int \<Rightarrow> rat) \<Rightarrow> nat \<Rightarrow> time \<Rightarrow> leg \<Rightarrow> sm_order \<Rightarrow> order_update list \<Rightarrow> engine_state \<Rightarrow> bool" where
  "closed_by_frame rd N rid now l0 row us es \<longleftrightarrow>
     (\<exists>us1 u us2 s. us = us1 @ u # us2 \<and> fst (apply_frames rd now (lg_id l0) row us1 es) rid = Some s \<and>
        closed_over N rid now l0 s (apply_frames rd now (lg_id l0) row (us1 @ [u]) es))"

lemma frames_book:
  assumes "exit_books rd N rid l0 row r es" "exit_row rid l0 row" "\<forall>u\<in>set us. reports N r u" "traded_value N (lg_qty l0)"
    and "\<forall>i. 0 < i \<and> i \<le> lg_qty l0 \<longrightarrow> rd (N i / of_int i) = N i / of_int i"
  shows "exit_books rd N rid l0 row (folded_row rd now (map frame_of us) r) (apply_frames rd now (lg_id l0) row us es) \<or>
    closed_by_frame rd N rid now l0 row us es \<and> fst (apply_frames rd now (lg_id l0) row us es) rid = None \<and>
    lg_qty l0 \<le> stored_qty (folded_row rd now (map frame_of us) r)"
  using assms(1,3)
proof (induction us rule: rev_induct)
  case (snoc u us)
  let ?es = "apply_frames rd now (lg_id l0) row us es" and ?r = "folded_row rd now (map frame_of us) r"
  have last: "apply_frames rd now (lg_id l0) row (us @ [u]) es = snd (apply_frame rd now (lg_id l0) row u ?es)"
    "folded_row rd now (map frame_of (us @ [u])) r = fold_step rd now (frame_of u) ?r"
    by (simp_all add: apply_frames_def folded_row_def)
  have "so_qty (folded_row rd now fs x) = so_qty x" for fs x
    by (induction fs arbitrary: x) (simp_all add: folded_row_def)
  then have same: "so_qty ?r = so_qty r" .
  have u: "reports N ?r u"
    using same snoc.prems(2) evidence_cong [of ?r r] by (auto simp: reports_def)
  from snoc.IH snoc.prems consider "exit_books rd N rid l0 row ?r ?es"
    | "closed_by_frame rd N rid now l0 row us es" "fst ?es rid = None" "lg_qty l0 \<le> stored_qty ?r" by auto
  then show ?case
  proof cases
    case 1
    then obtain s where s: "fst ?es rid = Some s" by (auto simp: exit_books_def)
    from frame_books [OF 1 assms(2) u assms(4,5) s, of now] show ?thesis
    proof
      assume "exit_books rd N rid l0 row (fold_step rd now (frame_of u) ?r) (snd (apply_frame rd now (lg_id l0) row u ?es))"
      then show ?thesis unfolding last by blast
    next
      assume c: "closed_over N rid now l0 s (snd (apply_frame rd now (lg_id l0) row u ?es)) \<and>
        stored_qty (fold_step rd now (frame_of u) ?r) = lg_qty l0"
      then have "closed_by_frame rd N rid now l0 row (us @ [u]) es"
        unfolding closed_by_frame_def using s last(1) by (intro exI [of _ us] exI [of _ u] exI [of _ "[]"] exI [of _ s]) simp
      moreover have "fst (snd (apply_frame rd now (lg_id l0) row u ?es)) rid = None"
        using c by (auto simp: closed_over_def run_ended_def)
      ultimately show ?thesis unfolding last using c by simp
    qed
  next
    case 2
    obtain us1 v us2 s where "us = us1 @ v # us2" "fst (apply_frames rd now (lg_id l0) row us1 es) rid = Some s"
      "closed_over N rid now l0 s (apply_frames rd now (lg_id l0) row (us1 @ [v]) es)"
      using 2(1) by (auto simp: closed_by_frame_def)
    then have "closed_by_frame rd N rid now l0 row (us @ [u]) es"
      unfolding closed_by_frame_def by (intro exI [of _ us1] exI [of _ v] exI [of _ "us2 @ [u]"] exI [of _ s]) simp
    moreover have "fst (snd (apply_frame rd now (lg_id l0) row u ?es)) rid = None"
      using frame_of_no_run [OF 2(2)] assms(2) by (simp add: exit_row_def)
    moreover have "lg_qty l0 \<le> stored_qty (fold_step rd now (frame_of u) ?r)" using 2(3) by (simp add: fold_step_qty)
    ultimately show ?thesis unfolding last by blast
  qed
qed (simp add: folded_row_def apply_frames_def)

text \<open>C24: a leg with a known entry price whose exit is with the broker and of which nothing was reported
  yet, and any run of frames of that order, taken one after the other, partial or whole,
  repeated, late or out of order, each priced at the average of what was traded up to the quantity
  it reports, as far as it reports any (an unpriced fill books no profit, and is reported), and
  those averages exactly representable. As long as the run is live the leg is left with what has
  not been sold and its realised profit has grown by the value of the largest quantity reported
  less its cost. The run is no longer live only if everything was sold and one of the frames
  closed it; the profit in the closed run's row is then that of a state which differs from the
  run's last one in this leg alone, flat and with all of it booked.\<close>

theorem exits_book_what_was_traded:
  assumes "exit_books rd N rid l0 row r es" "stored_qty r = 0" "exit_row rid l0 row" "\<forall>u\<in>set us. reports N r u"
    and "traded_value N (lg_qty l0)" "\<forall>i. 0 < i \<and> i \<le> lg_qty l0 \<longrightarrow> rd (N i / of_int i) = N i / of_int i"
  defines "q \<equiv> Max (insert 0 ((\<lambda>u. evidence_qty r (frame_of u)) ` set us))"
  shows "case fst (apply_frames rd now (lg_id l0) row us es) rid of
      Some s \<Rightarrow> (\<exists>l. find_leg (lg_id l0) s = Some l \<and> booked N l0 q l)
    | None \<Rightarrow> q = lg_qty l0 \<and> closed_by_frame rd N rid now l0 row us es"
proof -
  have q: "stored_qty (folded_row rd now (map frame_of us) r) = q"
    using assms(2) by (simp add: folded_qty fold_max_set q_def image_image)
  have "evidence_qty r (frame_of u) \<le> lg_qty l0" if "u \<in> set us" for u
    using assms(1,4) that by (auto simp: reports_def exit_books_def row_books_def Let_def)
  moreover have "0 \<le> lg_qty l0" using assms(1,2) by (auto simp: exit_books_def row_books_def)
  ultimately have "q \<le> lg_qty l0" by (simp add: q_def)
  with frames_book [OF assms(1,3-6), of now] q show ?thesis
    by (auto simp: exit_books_def leg_books_def booked_def)
qed

text \<open>Ten bought at 100: four are sold at 110 and six at 120, and the first frame comes again.\<close>

definition sample_exit_row :: sm_order where
  "sample_exit_row =
     \<lparr> so_id = 8, so_run = 4, so_leg = 1, so_kind = Exit ''sl'', so_position_ref = Some ''p'', so_broker_id = Some ''78'',
       so_action = SELL, so_qty = 10, so_status = So_open, so_placed_at = 0, so_filled_at = None, so_avg_price = None,
       so_filled_qty = None, so_reject_reason = None \<rparr>"

definition sample_exit_leg :: leg where
  "sample_exit_leg = sample_leg\<lparr>lg_exit_order_id := Some 8, lg_exit_claim_token := Some ''t'', lg_exit_kind := Some ''sl''\<rparr>"

definition sample_engine :: engine_state where
  "sample_engine =
     (\<lambda>n. if n = 4 then Some (sample_run_state\<lparr>rs_legs := [sample_exit_leg]\<rparr>) else None,
      \<lparr> sm_strategies = [\<lparr>st_id = 7, st_user = ''u'', st_kind = Signal, st_status = Running, st_current_run = Some 4\<rparr>],
        sm_runs = [\<lparr> sr_id = 4, sr_strategy = 7, sr_mode = Sandbox_run, sr_broker = [], sr_account = None, sr_stopped_at = None,
          sr_stop_reason = None, sr_stop_requested_at = None, sr_stop_requested_reason = None, sr_pnl_realized = 0,
          sr_pnl_peak = 0, sr_pnl_trough = 0 \<rparr>],
        sm_orders = [sample_exit_row] \<rparr>)"

definition sample_value :: "int \<Rightarrow> rat" where
  "sample_value i = of_int (if i \<le> 4 then 110 * i else 120 * i - 40)"

definition sample_order_update :: "string \<Rightarrow> int \<Rightarrow> rat \<Rightarrow> order_update" where
  "sample_order_update st q p = \<lparr>ou_status = st, ou_filled_quantity = Lint q, ou_average_price = Lnum p, ou_rejection = []\<rparr>"

lemma sample_value_traded: "traded_value sample_value 10"
  unfolding traded_value_def sample_value_def of_int_less_iff by auto

theorem exits_book_what_was_traded_witness:
  "map_option (map_option (\<lambda>l. (lg_qty l, lg_realized_pnl l)) \<circ> find_leg ''1'')
     (fst (apply_frames id 5 ''1'' sample_exit_row
        [sample_order_update ''open'' 4 110, sample_order_update ''COMPLETE'' 10 116, sample_order_update ''open'' 4 110] sample_engine) 4) =
   Some (Some (0, 160))"
proof -
  let ?us = "[sample_order_update ''open'' 4 110, sample_order_update ''COMPLETE'' 10 116, sample_order_update ''open'' 4 110]"
  have id: "lg_id sample_exit_leg = ''1''" "lg_qty sample_exit_leg = 10" by code_simp+
  have books: "exit_books id sample_value 4 sample_exit_leg sample_exit_row sample_exit_row sample_engine"
    unfolding exit_books_def
    by (simp add: sm_orders_wf_def find_sm_order_def row_books_def leg_books_def sample_engine_def sample_exit_row_def find_run_def
        sample_exit_leg_def sample_leg_def sample_run_state_def find_leg_def new_run_state_def stored_qty_def sample_value_def terminal_status_def)
  have gain: "lg_realized_pnl sample_exit_leg + (sample_value 10 - lg_entry_avg sample_exit_leg * 10) * side_sign (lg_position sample_exit_leg) = 160"
    by code_simp
  have row: "exit_row 4 sample_exit_leg sample_exit_row" by code_simp
  have ev: "map (\<lambda>u. evidence_qty sample_exit_row (frame_of u)) ?us = [4, 10, 4]" by code_simp
  have reports: "\<forall>u\<in>set ?us. reports sample_value sample_exit_row u" by code_simp
  have live: "fst (apply_frames id 5 ''1'' sample_exit_row ?us sample_engine) 4 \<noteq> None" by code_simp
  have "stored_qty sample_exit_row = 0" by code_simp
  note final = exits_book_what_was_traded [OF books this row reports, of 5]
  have q: "Max (insert 0 ((\<lambda>u. evidence_qty sample_exit_row (frame_of u)) ` set ?us)) = 10"
    using ev by simp
  have "booked sample_value sample_exit_leg 10 l \<Longrightarrow> lg_qty l = 0 \<and> lg_realized_pnl l = 160" for l
    using gain by (simp add: booked_def id)
  with final live sample_value_traded show ?thesis
    unfolding q id by (auto simp: id split: option.splits)
qed

text \<open>The same order on a run of another kind: the frame that sells the rest closes the run with the profit.\<close>

lemma exit_closes_the_run:
  fixes es
  defines "es \<equiv> apply_frames id 5 ''1'' sample_exit_row
     [sample_order_update ''open'' 4 110, sample_order_update ''COMPLETE'' 10 116, sample_order_update ''open'' 4 110]
     (fst sample_engine, (snd sample_engine)\<lparr>sm_strategies :=
        [\<lparr>st_id = 7, st_user = ''u'', st_kind = Batch, st_status = Running, st_current_run = Some 4\<rparr>]\<rparr>)"
  shows "fst es 4 = None \<and> map (\<lambda>r. (sr_stopped_at r, sr_pnl_realized r)) (sm_runs (snd es)) = [(Some 5, 160)]"
  unfolding es_def by code_simp

text \<open>
  An entry's later fill is another matter: its cumulative quantity replaces what the leg holds, also when part
  of that has been sold since.  Eight of an entry trade, it is cancelled, the eight are sold, and the broker
  then reports ten: two are held, and the leg says ten.
\<close>

lemma late_entry_fill_forgets_exits:
  fixes sold late
  defines "sold \<equiv> sample_leg\<lparr>lg_qty := 0, lg_entry_filled_qty := 8, lg_status := Closed_leg\<rparr>"
    and "late \<equiv> \<lparr>fl_price = Some 100, fl_is_entry = True, fl_qty = Some 2, fl_row = Some 1, fl_ref = Some ''p'',
      fl_cumulative = Some 10, fl_terminal = True, fl_correction = True\<rparr>"
  shows "map_option (\<lambda>l. (lg_status l, lg_qty l)) (find_leg ''1'' (snd (fill_leg ''1'' late (sample_run_state\<lparr>rs_legs := [sold]\<rparr>)))) =
    Some (Open_leg, 10)"
  unfolding sold_def late_def by code_simp

end
