(* ===== verification/StrategyRunLaws.thy ===== *)
theory StrategyRunLaws
  imports StrategyDB Claims
begin

text \<open>
  What the rows of strategies and runs guarantee: a strategy points only at a run of its own that is
  open, one of the callers that may finish a run finishes it, nobody else's run is touched, and one of
  the triggers that may start a strategy starts it.
\<close>

subsection \<open>The operations as steps\<close>

datatype run_op =
    Claim_start nat
  | Create nat run_mode string "string option"
  | Link nat nat
  | Release nat
  | Bind nat string "string option"
  | Finish_release nat nat string run_figures
  | Finish_detached nat nat string run_figures
  | Finish_empty nat nat string run_figures
  | Finish_unlinked nat nat string
  | Request_stop nat string
  | Reopen nat
  | Reconcile nat

definition do_run_op :: "(rat \<Rightarrow> rat) \<Rightarrow> time \<Rightarrow> run_op \<Rightarrow> sm_db \<Rightarrow> bool \<times> sm_db" where
  "do_run_op rd now op db =
     (case op of
        Claim_start sid \<Rightarrow> claim_strategy_for_run sid db
      | Create sid mode broker account \<Rightarrow> (True, snd (create_run sid mode broker account db))
      | Link sid rid \<Rightarrow> set_strategy_status sid Running (Some rid) db
      | Release sid \<Rightarrow> release_strategy sid db
      | Bind rid broker account \<Rightarrow> bind_run_broker rid broker account db
      | Finish_release rid sid reason figures \<Rightarrow> finish_run_and_release_strategy now rid sid reason figures db
      | Finish_detached rid sid reason figures \<Rightarrow> finish_detached_run now rid sid reason figures db
      | Finish_empty rid sid reason figures \<Rightarrow> finish_empty_unlinked_run_and_release_claim now rid sid reason figures db
      | Finish_unlinked rid sid reason \<Rightarrow> finish_unlinked_run_and_release_claim now rid sid reason db
      | Request_stop rid reason \<Rightarrow> (case record_run_stop_request now rid reason db of (a, db1) \<Rightarrow> (a \<noteq> Not_recorded, db1))
      | Reopen rid \<Rightarrow> reopen_run_for_late_entry_fill now id rid db
      | Reconcile rid \<Rightarrow> (case reconcile_run_pnl rd rid db of (a, db1) \<Rightarrow> (a \<noteq> None, db1)))"

text \<open>
  A start links the run it has just opened to the strategy it has claimed, and gives a claim up only
  before it has linked a run.
\<close>

definition legal :: "run_op \<Rightarrow> sm_db \<Rightarrow> bool" where
  "legal op db =
     (case op of
        Link sid rid \<Rightarrow>
          (\<exists>s\<in>set (sm_strategies db). empty_claim sid s) \<and>
          (\<exists>r\<in>set (sm_runs db). sr_id r = rid \<and> sr_strategy r = sid \<and> sr_stopped_at r = None)
      | Release sid \<Rightarrow> (\<forall>s\<in>set (sm_strategies db). st_id s = sid \<longrightarrow> st_current_run s = None)
      | _ \<Rightarrow> True)"

inductive run_step :: "(rat \<Rightarrow> rat) \<Rightarrow> sm_db \<Rightarrow> sm_db \<Rightarrow> bool" for rd where
  run_step: "legal op db \<Longrightarrow> run_step rd db (snd (do_run_op rd now op db))"

subsection \<open>Pointers\<close>

definition runs_wf :: "sm_db \<Rightarrow> bool" where
  "runs_wf db \<longleftrightarrow>
     distinct (map st_id (sm_strategies db)) \<and> distinct (map sr_id (sm_runs db)) \<and>
     (\<forall>s\<in>set (sm_strategies db). st_status s = Stopped \<longrightarrow> st_current_run s = None) \<and>
     (\<forall>s\<in>set (sm_strategies db). \<forall>rid. st_current_run s = Some rid \<longrightarrow>
        (\<exists>r\<in>set (sm_runs db). sr_id r = rid \<and> sr_strategy r = st_id s \<and> sr_stopped_at r = None)) \<and>
     (\<forall>r\<in>set (sm_runs db). (sr_stop_requested_at r = None) = (sr_stop_requested_reason r = None) \<and>
        (sr_stopped_at r \<noteq> None \<longrightarrow> sr_stop_requested_at r = None))"

text \<open>What an update of the runs has to keep for the pointers to stay good.\<close>

definition tame_run :: "sm_db \<Rightarrow> (sm_run \<Rightarrow> bool) \<Rightarrow> (sm_run \<Rightarrow> sm_run) \<Rightarrow> bool" where
  "tame_run db P f \<longleftrightarrow>
     (\<forall>r\<in>set (sm_runs db). P r \<longrightarrow>
        sr_id (f r) = sr_id r \<and> sr_strategy (f r) = sr_strategy r \<and>
        (sr_stop_requested_at (f r) = None) = (sr_stop_requested_reason (f r) = None) \<and>
        (sr_stopped_at (f r) \<noteq> None \<longrightarrow> sr_stop_requested_at (f r) = None) \<and>
        (sr_stopped_at (f r) \<noteq> None \<longrightarrow> (\<forall>s\<in>set (sm_strategies db). st_id s = sr_strategy r \<longrightarrow> st_current_run s \<noteq> Some (sr_id r))))"

lemma map_key_same:
  assumes "\<And>r. r \<in> set rows \<Longrightarrow> P r \<Longrightarrow> key (f r) = key r"
  shows "map key (sql_update P f rows) = map key rows"
  using assms by (auto simp: sql_update_def)

lemma runs_wf_update_runs:
  assumes "runs_wf db" "tame_run db P f"
  shows "runs_wf (snd (update_runs P f db))"
proof -
  let ?rows = "sql_update P f (sm_runs db)"
  note wf = assms(1) [unfolded runs_wf_def] and tame = assms(2) [unfolded tame_run_def, rule_format]
  have ids: "map sr_id ?rows = map sr_id (sm_runs db)" by (rule map_key_same) (use tame in blast)
  have open_kept: "\<exists>r'\<in>set ?rows. sr_id r' = rid \<and> sr_strategy r' = st_id s \<and> sr_stopped_at r' = None"
    if s: "s \<in> set (sm_strategies db)" "st_current_run s = Some rid" for s rid
  proof -
    from wf s obtain r where r: "r \<in> set (sm_runs db)" "sr_id r = rid" "sr_strategy r = st_id s" "sr_stopped_at r = None" by blast
    let ?r = "if P r then f r else r"
    have "?r \<in> set ?rows" using r(1) by (simp add: sql_update_def)
    moreover have "sr_id ?r = rid \<and> sr_strategy ?r = st_id s \<and> sr_stopped_at ?r = None"
    proof (cases "P r")
      case True
      with tame [OF r(1)] r s show ?thesis by auto
    qed (simp add: r)
    ultimately show ?thesis by blast
  qed
  have rows: "(sr_stop_requested_at r' = None) = (sr_stop_requested_reason r' = None) \<and> (sr_stopped_at r' \<noteq> None \<longrightarrow> sr_stop_requested_at r' = None)"
    if r': "r' \<in> set ?rows" for r'
  proof -
    from sql_update_member [OF r'] obtain r where r: "r \<in> set (sm_runs db)" "r' = (if P r then f r else r)" by blast
    show ?thesis
    proof (cases "P r")
      case True
      with tame [OF r(1)] r(2) show ?thesis by simp
    next
      case False
      with wf r show ?thesis by simp
    qed
  qed
  show ?thesis unfolding runs_wf_def update_runs_def snd_conv
    using wf ids open_kept rows by simp
qed

lemma tame_keep:
  assumes "runs_wf db" "\<And>r. sr_id (f r) = sr_id r" "\<And>r. sr_strategy (f r) = sr_strategy r" "\<And>r. sr_stopped_at (f r) = sr_stopped_at r"
    "\<And>r. sr_stop_requested_at (f r) = sr_stop_requested_at r" "\<And>r. sr_stop_requested_reason (f r) = sr_stop_requested_reason r"
  shows "tame_run db P f"
proof -
  note wf = assms(1) [unfolded runs_wf_def]
  have "st_current_run s \<noteq> Some (sr_id r)"
    if r: "r \<in> set (sm_runs db)" "sr_stopped_at r \<noteq> None" and s: "s \<in> set (sm_strategies db)" for r s
  proof
    assume "st_current_run s = Some (sr_id r)"
    with wf s obtain q where q: "q \<in> set (sm_runs db)" "sr_id q = sr_id r" "sr_stopped_at q = None" by blast
    from wf have "distinct (map sr_id (sm_runs db))" by blast
    with q r have "q = r" by (auto simp: distinct_map inj_on_def)
    with q(3) r(2) show False by simp
  qed
  with wf assms(2-) show ?thesis unfolding tame_run_def by simp
qed

lemma runs_wf_update_strategies:
  assumes "runs_wf db"
    and "\<And>s. s \<in> set (sm_strategies db) \<Longrightarrow> P s \<Longrightarrow> st_id (f s) = st_id s \<and>
      (st_status (f s) = Stopped \<longrightarrow> st_current_run (f s) = None) \<and>
      (\<forall>rid. st_current_run (f s) = Some rid \<longrightarrow>
         (\<exists>r\<in>set (sm_runs db). sr_id r = rid \<and> sr_strategy r = st_id s \<and> sr_stopped_at r = None))"
  shows "runs_wf (snd (update_strategies P f db))"
proof -
  let ?rows = "sql_update P f (sm_strategies db)"
  note wf = assms(1) [unfolded runs_wf_def]
  have ids: "map st_id ?rows = map st_id (sm_strategies db)" by (rule map_key_same) (use assms(2) in blast)
  have rows: "(st_status s' = Stopped \<longrightarrow> st_current_run s' = None) \<and>
      (\<forall>rid. st_current_run s' = Some rid \<longrightarrow>
         (\<exists>r\<in>set (sm_runs db). sr_id r = rid \<and> sr_strategy r = st_id s' \<and> sr_stopped_at r = None))"
    if s': "s' \<in> set ?rows" for s'
  proof -
    from sql_update_member [OF s'] obtain s where s: "s \<in> set (sm_strategies db)" "s' = (if P s then f s else s)" by blast
    show ?thesis
    proof (cases "P s")
      case True
      with assms(2) [OF s(1)] s(2) show ?thesis by simp
    next
      case False
      with wf s show ?thesis by simp
    qed
  qed
  show ?thesis unfolding runs_wf_def update_strategies_def snd_conv
    using wf ids rows by simp
qed

subsection \<open>Each operation\<close>

lemma release_row_simps [simp]:
  "st_id (release_row s) = st_id s" "st_status (release_row s) = Stopped" "st_current_run (release_row s) = None"
  by (simp_all add: release_row_def)

lemma close_row_simps [simp]:
  "sr_id (close_row now reason figures r) = sr_id r" "sr_strategy (close_row now reason figures r) = sr_strategy r"
  "sr_stopped_at (close_row now reason figures r) = Some now" "sr_stop_requested_at (close_row now reason figures r) = None"
  "sr_stop_requested_reason (close_row now reason figures r) = None"
  by (simp_all add: close_row_def split: prod.split)

lemma runs_wf_release: "runs_wf db \<Longrightarrow> runs_wf (snd (update_strategies P release_row db))"
  by (rule runs_wf_update_strategies) simp_all

lemma fold_run_id_ge: "a \<le> fold (\<lambda>r n. max (f r) n) rows (a::nat) \<and> (\<forall>r\<in>set rows. f r \<le> fold (\<lambda>r n. max (f r) n) rows a)"
proof (induction rows arbitrary: a)
  case (Cons r rows)
  from Cons.IH [of "max (f r) a"] show ?case by auto
qed simp

lemma runs_wf_create: "runs_wf db \<Longrightarrow> runs_wf (snd (create_run sid mode broker account db))"
proof -
  assume wf: "runs_wf db"
  let ?rid = "Suc (fold (\<lambda>r n. max (sr_id r) n) (sm_runs db) 0)"
  have "?rid \<notin> sr_id ` set (sm_runs db)" using fold_run_id_ge [of 0 sr_id "sm_runs db"] by (auto simp: not_less_eq_eq)
  with wf show ?thesis unfolding runs_wf_def create_run_def Let_def snd_conv
    by (auto 0 4)
qed

text \<open>Two updates that are done together or not at all.\<close>

lemma both_updates_cases:
  "both_updates u v db = (False, db) \<or>
   (fst (u db) \<and> fst (v (snd (u db))) \<and> both_updates u v db = (True, snd (v (snd (u db)))))"
  by (auto simp: both_updates_def split: prod.splits)

text \<open>Closing a run and releasing the strategy that points at it, whichever way round they are written.\<close>

lemma close_then_release:
  assumes "runs_wf db" "\<forall>r\<in>set (sm_runs db). P r \<longrightarrow> sr_id r = rid \<and> sr_strategy r = sid"
    and "\<forall>s\<in>set (sm_strategies db). st_id s = sid \<and> st_current_run s = Some rid \<longrightarrow> Q s"
  shows "runs_wf (snd (update_strategies Q release_row (snd (update_runs P (close_row now reason figures) db))))"
proof -
  let ?db = "snd (update_strategies Q release_row db)"
  have "runs_wf ?db" by (rule runs_wf_release) (rule assms(1))
  moreover have "tame_run ?db P (close_row now reason figures)"
    unfolding tame_run_def
  proof (intro ballI impI conjI)
    fix r s
    assume "r \<in> set (sm_runs ?db)" "P r" and s: "s \<in> set (sm_strategies ?db)" "st_id s = sr_strategy r"
    then have r: "sr_id r = rid" "sr_strategy r = sid" using assms(2) by (auto simp: update_strategies_def)
    from s(1) have "s \<in> set (sql_update Q release_row (sm_strategies db))" by (simp add: update_strategies_def)
    from sql_update_member [OF this] obtain t where t: "t \<in> set (sm_strategies db)" "s = (if Q t then release_row t else t)" by blast
    show "st_current_run s \<noteq> Some (sr_id r)" using t s(2) r assms(3) by (auto split: if_splits)
  qed simp_all
  ultimately have "runs_wf (snd (update_runs P (close_row now reason figures) ?db))" by (rule runs_wf_update_runs)
  then show ?thesis by (simp add: runs_wf_def update_runs_def update_strategies_def)
qed

lemma detached_cases:
  "finish_detached_run now rid sid reason figures db = (False, db) \<or>
   (let P = (\<lambda>r. sr_id r = rid \<and> sr_strategy r = sid \<and> sr_stopped_at r = None) in
    (\<forall>s\<in>set (sm_strategies db). \<not> (st_id s = sid \<and> st_current_run s = Some rid)) \<and> row_count P (sm_runs db) = 1 \<and>
    finish_detached_run now rid sid reason figures db = (True, snd (update_runs P (close_row now reason figures) db)))"
proof (cases "\<exists>s\<in>set (sm_strategies db). st_id s = sid \<and> st_current_run s = Some rid")
  case True
  then show ?thesis by (simp add: finish_detached_run_def Let_def row_count_def)
next
  case False
  then show ?thesis unfolding finish_detached_run_def Let_def by (simp add: update_runs_def)
qed

lemma runs_wf_close:
  assumes "runs_wf db" "\<forall>r\<in>set (sm_runs db). P r \<longrightarrow> sr_id r = rid \<and> sr_strategy r = sid"
    "\<forall>s\<in>set (sm_strategies db). \<not> (st_id s = sid \<and> st_current_run s = Some rid)"
  shows "runs_wf (snd (update_runs P (close_row now reason figures) db))"
  using assms by (intro runs_wf_update_runs) (auto simp: tame_run_def)

lemma request_stop_update:
  "snd (case record_run_stop_request now rid reason db of (a, db1) \<Rightarrow> (b a, db1)) =
     snd (update_runs (\<lambda>r. sr_id r = rid \<and> sr_stopped_at r = None \<and> sr_stop_requested_at r = None \<and> sr_stop_requested_reason r = None)
       (\<lambda>r. r\<lparr>sr_stop_requested_at := Some now, sr_stop_requested_reason := Some reason\<rparr>) db)"
  by (simp add: record_run_stop_request_def case_prod_beta)

lemma runs_wf_step:
  assumes "runs_wf db" "legal op db"
  shows "runs_wf (snd (do_run_op rd now op db))"
proof (cases op)
  case (Claim_start sid)
  have "runs_wf (snd (update_strategies (\<lambda>s. st_id s = sid \<and> st_status s = Stopped) (\<lambda>s. s\<lparr>st_status := Running\<rparr>) db))"
    by (rule runs_wf_update_strategies [OF assms(1)]) (use assms(1) in \<open>auto simp: runs_wf_def\<close>)
  with Claim_start show ?thesis by (simp add: do_run_op_def claim_strategy_for_run_def)
next
  case (Create sid mode broker account)
  with runs_wf_create [OF assms(1)] show ?thesis by (simp add: do_run_op_def)
next
  case (Link sid rid)
  have "runs_wf (snd (update_strategies (\<lambda>s. st_id s = sid) (\<lambda>s. s\<lparr>st_status := Running, st_current_run := Some rid\<rparr>) db))"
    by (rule runs_wf_update_strategies [OF assms(1)]) (use assms(2) Link in \<open>auto simp: legal_def\<close>)
  with Link show ?thesis by (simp add: do_run_op_def set_strategy_status_def)
next
  case (Release sid)
  with runs_wf_release [OF assms(1)] show ?thesis by (simp add: do_run_op_def release_strategy_def)
next
  case (Bind rid broker account)
  let ?P = "\<lambda>r. sr_id r = rid \<and> sr_mode r = Live_run \<and> sr_stopped_at r = None \<and> sr_broker r \<in> set UNBOUND_RUN_BROKERS"
  have "runs_wf (snd (update_runs ?P (\<lambda>r. r\<lparr>sr_broker := broker, sr_account := a\<rparr>) db))" for a
    using assms(1) by (intro runs_wf_update_runs) (auto simp: tame_run_def runs_wf_def)
  then show ?thesis using assms(1) unfolding Bind do_run_op_def run_op.case bind_run_broker_def by simp
next
  case (Finish_release rid sid reason figures)
  show ?thesis
    unfolding Finish_release do_run_op_def run_op.case finish_run_and_release_strategy_def
    using both_updates_cases assms(1) close_then_release [OF assms(1), where rid = rid and sid = sid]
    by (smt (verit, best) snd_conv)
next
  case (Finish_detached rid sid reason figures)
  then show ?thesis
    using detached_cases [of now rid sid reason figures db] assms(1)
      runs_wf_close [OF assms(1), of "\<lambda>r. sr_id r = rid \<and> sr_strategy r = sid \<and> sr_stopped_at r = None" rid sid now reason figures]
    by (auto simp: do_run_op_def Let_def)
next
  case (Finish_empty rid sid reason figures)
  have "\<not> (st_id s = sid \<and> st_current_run s = Some rid)" if "s \<in> set (sm_strategies db)" "t \<in> set (sm_strategies db)" "empty_claim sid t" for s t
    using that assms(1) by (auto simp: runs_wf_def empty_claim_def distinct_map inj_on_def)
  then have "runs_wf (snd (update_strategies (empty_claim sid) release_row
      (snd (update_runs (\<lambda>r. sr_id r = rid \<and> sr_strategy r = sid \<and> sr_stopped_at r = None \<and> (\<exists>s\<in>set (sm_strategies db). empty_claim sid s) \<and>
         (\<forall>o1\<in>set (sm_orders db). so_run o1 \<noteq> rid)) (close_row now reason figures) db))))"
    by (intro runs_wf_release) (rule runs_wf_update_runs [OF assms(1)], auto simp: tame_run_def)
  then show ?thesis
    unfolding Finish_empty do_run_op_def run_op.case finish_empty_unlinked_run_and_release_claim_def Let_def
    using both_updates_cases assms(1) by (metis (no_types, lifting) snd_conv)
next
  case (Finish_unlinked rid sid reason)
  have "runs_wf (snd (finish_detached_run now rid sid reason (0, 0, 0) db))"
    using detached_cases [of now rid sid reason "(0, 0, 0)" db] assms(1)
      runs_wf_close [OF assms(1), of "\<lambda>r. sr_id r = rid \<and> sr_strategy r = sid \<and> sr_stopped_at r = None" rid sid now reason "(0, 0, 0)"]
    by (auto simp: Let_def)
  with Finish_unlinked assms(1) runs_wf_release show ?thesis
    by (auto simp: do_run_op_def finish_unlinked_run_and_release_claim_def split: prod.split)
next
  case (Request_stop rid reason)
  show ?thesis
    unfolding Request_stop do_run_op_def run_op.case request_stop_update
    by (rule runs_wf_update_runs [OF assms(1)]) (simp add: tame_run_def)
next
  case (Reopen rid)
  show ?thesis
  proof (cases "find_run rid db")
    case None
    with Reopen assms(1) show ?thesis by (simp add: do_run_op_def reopen_run_for_late_entry_fill_def)
  next
    case (Some run)
    then have run: "run \<in> set (sm_runs db)" "sr_id run = rid" unfolding find_run_def by (auto dest: find_SomeD)
    let ?P = "\<lambda>r. sr_id r = rid \<and> sr_stopped_at r = sr_stopped_at run"
    have reopened: "runs_wf (snd (update_strategies (\<lambda>s. st_id s = sr_strategy run \<and> st_current_run s = None \<and> st_status s = Stopped)
        (\<lambda>s. s\<lparr>st_status := Running, st_current_run := Some rid\<rparr>) (snd (update_runs ?P (reopen_run_row now reason) db))))" for reason
    proof (rule runs_wf_update_strategies)
      show "runs_wf (snd (update_runs ?P (reopen_run_row now reason) db))"
        by (rule runs_wf_update_runs [OF assms(1)]) (simp add: tame_run_def reopen_run_row_def)
      have "reopen_run_row now reason run \<in> set (sm_runs (snd (update_runs ?P (reopen_run_row now reason) db)))"
        using run by (auto simp: update_runs_def sql_update_def)
      then have "\<exists>r\<in>set (sm_runs (snd (update_runs ?P (reopen_run_row now reason) db))). sr_id r = rid \<and> sr_strategy r = sr_strategy run \<and> sr_stopped_at r = None"
        by (rule bexI [rotated]) (simp add: reopen_run_row_def run)
      then show "st_id (s\<lparr>st_status := Running, st_current_run := Some rid\<rparr>) = st_id s \<and>
          (st_status (s\<lparr>st_status := Running, st_current_run := Some rid\<rparr>) = Stopped \<longrightarrow> st_current_run (s\<lparr>st_status := Running, st_current_run := Some rid\<rparr>) = None) \<and>
          (\<forall>rid'. st_current_run (s\<lparr>st_status := Running, st_current_run := Some rid\<rparr>) = Some rid' \<longrightarrow>
            (\<exists>r\<in>set (sm_runs (snd (update_runs ?P (reopen_run_row now reason) db))). sr_id r = rid' \<and> sr_strategy r = st_id s \<and> sr_stopped_at r = None))"
        if "st_id s = sr_strategy run \<and> st_current_run s = None \<and> st_status s = Stopped" for s using that by simp
    qed
    show ?thesis
      unfolding Reopen do_run_op_def run_op.case reopen_run_for_late_entry_fill_def Some option.case Let_def id_apply
      using assms(1) reopened by (simp only: case_prod_beta snd_conv if_distrib [of snd] split: if_split) simp
  qed
next
  case (Reconcile rid)
  have "runs_wf (snd (update_runs P (\<lambda>r. r\<lparr>sr_pnl_realized := x\<rparr>) db))" for P x
    by (rule runs_wf_update_runs [OF assms(1)]) (rule tame_keep [OF assms(1)], simp_all)
  with Reconcile assms(1) show ?thesis
    by (auto simp: do_run_op_def reconcile_run_pnl_def split: option.splits prod.splits)
qed

text \<open>C39: whatever sequence of starts, stop requests, finishes and reopenings the tables go through, a strategy points
  only at a run of its own that is open, a stopped one at none, and no finished run keeps a stop request.\<close>

theorem current_runs_are_open:
  assumes "(run_step rd)\<^sup>*\<^sup>* db0 db" "runs_wf db0"
  shows "(\<forall>s\<in>set (sm_strategies db). case st_current_run s of
       None \<Rightarrow> True
     | Some rid \<Rightarrow> st_status s \<noteq> Stopped \<and> (\<exists>r\<in>set (sm_runs db). sr_id r = rid \<and> sr_strategy r = st_id s \<and> sr_stopped_at r = None)) \<and>
    (\<forall>r\<in>set (sm_runs db). sr_stopped_at r \<noteq> None \<longrightarrow> sr_stop_requested_reason r = None)"
proof -
  have "runs_wf db"
    using assms by (induction rule: rtranclp_induct) (auto elim!: run_step.cases intro: runs_wf_step)
  then show ?thesis by (auto simp: runs_wf_def split: option.split)
qed

definition sample_runs :: sm_db where
  "sample_runs =
     \<lparr> sm_strategies = [\<lparr>st_id = 1, st_user = ''u'', st_kind = Batch, st_status = Stopped, st_current_run = None\<rparr>], sm_runs = [], sm_orders = [] \<rparr>"

lemma sample_runs_wf: "runs_wf sample_runs"
  by (simp add: runs_wf_def sample_runs_def)

definition started_runs :: sm_db where
  "started_runs =
     snd (do_run_op id 5 (Link 1 1) (snd (do_run_op id 5 (Create 1 Live_run ''b'' None) (snd (do_run_op id 5 (Claim_start 1) sample_runs)))))"

lemma started_runs_simp:
  "started_runs =
     \<lparr> sm_strategies = [\<lparr>st_id = 1, st_user = ''u'', st_kind = Batch, st_status = Running, st_current_run = Some 1\<rparr>],
       sm_runs = [\<lparr>sr_id = 1, sr_strategy = 1, sr_mode = Live_run, sr_broker = ''b'', sr_account = None, sr_stopped_at = None,
         sr_stop_reason = None, sr_stop_requested_at = None, sr_stop_requested_reason = None, sr_pnl_realized = 0,
         sr_pnl_peak = 0, sr_pnl_trough = 0\<rparr>],
       sm_orders = [] \<rparr>"
  by (simp add: started_runs_def sample_runs_def do_run_op_def claim_strategy_for_run_def update_strategies_def sql_update_def
      create_run_def Let_def set_strategy_status_def)

lemma started_reached: "(run_step id)\<^sup>*\<^sup>* sample_runs started_runs"
proof -
  let ?a = "snd (do_run_op id 5 (Claim_start 1) sample_runs)" and ?op = "Create 1 Live_run ''b'' None"
  have "run_step id sample_runs ?a" by (rule run_step) (simp add: legal_def)
  moreover have "run_step id ?a (snd (do_run_op id 5 ?op ?a))" by (rule run_step) (simp add: legal_def)
  moreover have "run_step id (snd (do_run_op id 5 ?op ?a)) started_runs"
    unfolding started_runs_def
    by (rule run_step) (simp add: legal_def sample_runs_def do_run_op_def claim_strategy_for_run_def update_strategies_def
        sql_update_def create_run_def Let_def empty_claim_def)
  ultimately show ?thesis by (meson converse_rtranclp_into_rtranclp rtranclp.rtrancl_refl)
qed

theorem current_runs_are_open_witness: "\<exists>r\<in>set (sm_runs started_runs). sr_id r = 1 \<and> sr_stopped_at r = None"
  using current_runs_are_open [OF started_reached sample_runs_wf] by (auto simp: started_runs_simp)

subsection \<open>Finishing\<close>

definition finishes :: "run_op \<Rightarrow> nat option" where
  "finishes op =
     (case op of
        Finish_release rid sid reason figures \<Rightarrow> Some rid
      | Finish_detached rid sid reason figures \<Rightarrow> Some rid
      | Finish_empty rid sid reason figures \<Rightarrow> Some rid
      | Finish_unlinked rid sid reason \<Rightarrow> Some rid
      | _ \<Rightarrow> None)"

text \<open>The answers of a sequence of operations, each at a time of its own.\<close>

primrec run_answers :: "(rat \<Rightarrow> rat) \<Rightarrow> (time \<times> run_op) list \<Rightarrow> sm_db \<Rightarrow> (run_op \<times> bool) list" where
  "run_answers rd [] db = []"
| "run_answers rd (x # xs) db =
     (case do_run_op rd (fst x) (snd x) db of (won, db1) \<Rightarrow> (snd x, won) # run_answers rd xs db1)"

definition wins :: "nat \<Rightarrow> (run_op \<times> bool) list \<Rightarrow> nat" where
  "wins rid ans = length (filter (\<lambda>(op, won). won \<and> finishes op = Some rid) ans)"

definition run_open :: "nat \<Rightarrow> sm_db \<Rightarrow> bool" where
  "run_open rid db \<longleftrightarrow> (\<exists>r\<in>set (sm_runs db). sr_id r = rid \<and> sr_stopped_at r = None)"

definition run_known :: "nat \<Rightarrow> sm_db \<Rightarrow> bool" where
  "run_known rid db \<longleftrightarrow> rid \<in> sr_id ` set (sm_runs db)"

text \<open>Updates of runs that keep the id, and reopen only the run they name.\<close>

definition keeps_closed :: "nat \<Rightarrow> sm_db \<Rightarrow> sm_db \<Rightarrow> bool" where
  "keeps_closed rid db db1 \<longleftrightarrow>
     (distinct (map sr_id (sm_runs db)) \<longrightarrow> distinct (map sr_id (sm_runs db1))) \<and>
     (run_known rid db \<longrightarrow> run_known rid db1 \<and> (run_open rid db1 \<longrightarrow> run_open rid db))"

lemma keeps_closed_refl [simp]: "keeps_closed rid db db"
  by (simp add: keeps_closed_def)

lemma keeps_closed_strategies [simp]: "keeps_closed rid db (snd (update_strategies P f db1)) = keeps_closed rid db db1"
  by (simp add: keeps_closed_def run_open_def run_known_def update_strategies_def)

lemma keeps_closed_runs:
  assumes "\<And>r. P r \<Longrightarrow> sr_id (f r) = sr_id r \<and> (sr_id r = rid \<longrightarrow> sr_stopped_at (f r) = None \<longrightarrow> sr_stopped_at r = None)"
  shows "keeps_closed rid db (snd (update_runs P f db))"
proof -
  let ?rows = "sql_update P f (sm_runs db)"
  have keys: "map sr_id ?rows = map sr_id (sm_runs db)" using assms by (intro map_key_sql_update) blast
  then have ids: "sr_id ` set ?rows = sr_id ` set (sm_runs db)" by (metis list.set_map)
  have "run_open rid db" if r': "r' \<in> set ?rows" "sr_id r' = rid" "sr_stopped_at r' = None" for r'
  proof -
    from sql_update_member [OF r'(1)] obtain r where "r \<in> set (sm_runs db)" "r' = (if P r then f r else r)" by blast
    with assms [of r] r' show ?thesis by (auto simp: run_open_def split: if_splits)
  qed
  with ids keys show ?thesis by (auto simp: keeps_closed_def run_open_def run_known_def update_runs_def)
qed

lemma keeps_closed_both:
  "(\<And>db. keeps_closed rid db (snd (u db))) \<Longrightarrow> (\<And>db. keeps_closed rid db (snd (v db))) \<Longrightarrow> keeps_closed rid db (snd (both_updates u v db))"
  unfolding both_updates_def by (auto split: prod.split) (metis keeps_closed_def snd_conv)

lemma keeps_closed_detached: "keeps_closed rid db (snd (finish_detached_run now k sid reason figures db))"
proof -
  have "keeps_closed rid db (snd (update_runs P (close_row now reason figures) db))" for P
    by (rule keeps_closed_runs) simp
  then show ?thesis using detached_cases [of now k sid reason figures db] by (auto simp: Let_def)
qed

lemma keeps_closed_create: "keeps_closed rid db (snd (create_run sid mode broker account db))"
proof -
  have "fold (\<lambda>r n. max (sr_id r) n) (sm_runs db) 0 \<ge> sr_id r" if "r \<in> set (sm_runs db)" for r
    using fold_run_id_ge [of 0 sr_id "sm_runs db"] that by blast
  then show ?thesis
    by (force simp: keeps_closed_def run_open_def run_known_def create_run_def Let_def)
qed

lemma keeps_closed_step:
  assumes "op \<noteq> Reopen rid"
  shows "keeps_closed rid db (snd (do_run_op rd now op db))"
proof (cases op)
  case (Create sid mode broker account)
  then show ?thesis by (simp add: do_run_op_def keeps_closed_create)
next
  case (Bind k broker account)
  then show ?thesis by (simp add: do_run_op_def bind_run_broker_def keeps_closed_runs)
next
  case (Finish_release k sid reason figures)
  then show ?thesis
    unfolding do_run_op_def finish_run_and_release_strategy_def run_op.case
    by (simp only: run_op.case) (intro keeps_closed_both keeps_closed_runs, simp_all)
next
  case (Finish_detached k sid reason figures)
  then show ?thesis by (simp add: do_run_op_def keeps_closed_detached)
next
  case (Finish_empty k sid reason figures)
  then show ?thesis
    unfolding do_run_op_def finish_empty_unlinked_run_and_release_claim_def Let_def
    by (simp only: run_op.case) (intro keeps_closed_both keeps_closed_runs, simp_all)
next
  case (Finish_unlinked k sid reason)
  have "keeps_closed rid db (snd (finish_detached_run now k sid reason (0, 0, 0) db))" by (rule keeps_closed_detached)
  with Finish_unlinked show ?thesis
    by (auto simp: do_run_op_def finish_unlinked_run_and_release_claim_def split: prod.split)
next
  case (Request_stop k reason)
  show ?thesis unfolding Request_stop do_run_op_def run_op.case request_stop_update by (rule keeps_closed_runs) simp
next
  case (Reopen k)
  with assms have k: "k \<noteq> rid" by simp
  have "keeps_closed rid db (snd (update_runs (\<lambda>r. sr_id r = k \<and> sr_stopped_at r = at1) (reopen_run_row now reason) db))" for at1 reason
    using k by (intro keeps_closed_runs) (simp add: reopen_run_row_def)
  then show ?thesis unfolding Reopen do_run_op_def run_op.case reopen_run_for_late_entry_fill_def
    by (auto simp: Let_def case_prod_beta split: option.split)
next
  case (Reconcile k)
  then show ?thesis
    by (auto simp: do_run_op_def reconcile_run_pnl_def keeps_closed_runs split: option.splits prod.splits)
qed (simp_all add: do_run_op_def claim_strategy_for_run_def set_strategy_status_def release_strategy_def)

text \<open>A finish that won has found the run open and left it closed.\<close>

lemma won_close:
  assumes "distinct (map sr_id (sm_runs db))" "row_count P (sm_runs db) = 1" "\<And>r. P r \<Longrightarrow> sr_id r = rid \<and> sr_stopped_at r = None"
  shows "run_open rid db \<and> \<not> run_open rid (snd (update_runs P (close_row now reason figures) db))"
proof -
  obtain r where r: "r \<in> set (sm_runs db)" "P r" using assms(2) row_count_pos [of P "sm_runs db"] by auto
  have "\<not> (sr_id r' = rid \<and> sr_stopped_at r' = None)" if r': "r' \<in> set (sql_update P (close_row now reason figures) (sm_runs db))" for r'
  proof -
    from sql_update_member [OF r'] obtain q where q: "q \<in> set (sm_runs db)" "r' = (if P q then close_row now reason figures q else q)" by blast
    show ?thesis
    proof (cases "P q")
      case False
      have "q = r" if "sr_id q = rid" using assms(1) q(1) r assms(3) [OF r(2)] that by (auto simp: distinct_map inj_on_def)
      with False q r show ?thesis by auto
    qed (simp add: q)
  qed
  then show ?thesis using r assms(3) by (auto simp: run_open_def update_runs_def)
qed

lemma run_open_strategies [simp]: "run_open rid (snd (update_strategies P f db)) = run_open rid db"
  by (simp add: run_open_def update_strategies_def)

lemma won_detached:
  assumes "distinct (map sr_id (sm_runs db))" "fst (finish_detached_run now rid sid reason figures db)"
  shows "run_open rid db \<and> \<not> run_open rid (snd (finish_detached_run now rid sid reason figures db))"
proof -
  let ?P = "\<lambda>r. sr_id r = rid \<and> sr_strategy r = sid \<and> sr_stopped_at r = None"
  have "finish_detached_run now rid sid reason figures db \<noteq> (False, db)"
  proof
    assume "finish_detached_run now rid sid reason figures db = (False, db)"
    with assms(2) show False by simp
  qed
  then have one: "row_count ?P (sm_runs db) = 1 \<and>
      finish_detached_run now rid sid reason figures db = (True, snd (update_runs ?P (close_row now reason figures) db))"
    using detached_cases [of now rid sid reason figures db, unfolded Let_def] by (elim disjE conjE) (erule (1) notE, rule conjI)
  have "run_open rid db \<and> \<not> run_open rid (snd (update_runs ?P (close_row now reason figures) db))"
    by (rule won_close [OF assms(1) one [THEN conjunct1]]) blast
  then show ?thesis unfolding one [THEN conjunct2] snd_conv .
qed

lemma won_both:
  assumes "distinct (map sr_id (sm_runs db))" "\<And>r. P r \<Longrightarrow> sr_id r = rid \<and> sr_stopped_at r = None"
    "fst (both_updates (update_runs P (close_row now reason figures)) (update_strategies Q f) db)"
  shows "run_open rid db \<and> \<not> run_open rid (snd (both_updates (update_runs P (close_row now reason figures)) (update_strategies Q f) db))"
proof -
  have "row_count P (sm_runs db) = 1" using assms(3) by (auto simp: both_updates_def update_runs_def split: if_splits)
  note wc = won_close [OF assms(1) this assms(2), of now reason figures]
  from both_updates_cases [of "update_runs P (close_row now reason figures)" "update_strategies Q f" db] assms(3)
  have "snd (both_updates (update_runs P (close_row now reason figures)) (update_strategies Q f) db) =
      snd (update_strategies Q f (snd (update_runs P (close_row now reason figures) db)))" by auto
  with wc show ?thesis by simp
qed

lemma won_finish:
  assumes "distinct (map sr_id (sm_runs db))" "fst (do_run_op rd now op db)" "finishes op = Some rid"
  shows "run_open rid db \<and> \<not> run_open rid (snd (do_run_op rd now op db))"
proof (cases op)
  case (Finish_release k sid reason figures)
  then have k: "k = rid" using assms(3) by (simp add: finishes_def)
  show ?thesis
    using assms(2) unfolding Finish_release do_run_op_def run_op.case finish_run_and_release_strategy_def k
    by (intro won_both [OF assms(1)]) simp_all
next
  case (Finish_detached k sid reason figures)
  then have k: "k = rid" using assms(3) by (simp add: finishes_def)
  show ?thesis using assms(2) won_detached [OF assms(1)] unfolding Finish_detached do_run_op_def run_op.case k by blast
next
  case (Finish_empty k sid reason figures)
  then have k: "k = rid" using assms(3) by (simp add: finishes_def)
  show ?thesis
    using assms(2) unfolding Finish_empty do_run_op_def run_op.case finish_empty_unlinked_run_and_release_claim_def k Let_def
    by (intro won_both [OF assms(1)]) simp_all
next
  case (Finish_unlinked k sid reason)
  then have k: "k = rid" using assms(3) by (simp add: finishes_def)
  have res: "do_run_op rd now op db =
      (if fst (finish_detached_run now rid sid reason (0, 0, 0) db)
       then update_strategies (empty_claim sid) release_row (snd (finish_detached_run now rid sid reason (0, 0, 0) db))
       else (False, snd (finish_detached_run now rid sid reason (0, 0, 0) db)))"
    by (simp add: Finish_unlinked k do_run_op_def finish_unlinked_run_and_release_claim_def case_prod_beta)
  then have won: "fst (finish_detached_run now rid sid reason (0, 0, 0) db)" using assms(2) by (simp split: if_splits)
  show ?thesis using won_detached [OF assms(1) won] res won by simp
qed (use assms(3) in \<open>simp_all add: finishes_def\<close>)

lemma no_win_when_closed:
  assumes "distinct (map sr_id (sm_runs db))" "run_known rid db" "\<not> run_open rid db" "\<forall>x\<in>set xs. snd x \<noteq> Reopen rid"
  shows "wins rid (run_answers rd xs db) = 0"
  using assms
proof (induction xs arbitrary: db)
  case (Cons x xs)
  let ?db = "snd (do_run_op rd (fst x) (snd x) db)"
  have next_db: "distinct (map sr_id (sm_runs ?db))" "run_known rid ?db" "\<not> run_open rid ?db"
    using keeps_closed_step [where op = "snd x" and rid = rid and rd = rd and now = "fst x" and db = db] Cons.prems by (auto simp: keeps_closed_def)
  have "\<not> (fst (do_run_op rd (fst x) (snd x) db) \<and> finishes (snd x) = Some rid)"
    using won_finish [OF Cons.prems(1)] Cons.prems(3) by blast
  with Cons.IH [OF next_db] Cons.prems(4) show ?case
    by (auto simp: wins_def case_prod_beta)
qed (simp add: wins_def)

text \<open>Of all the callers that try to finish a run, whatever else happens between, at most one is told that it did,
  until the run is reopened.\<close>

theorem run_finishes_once:
  assumes "distinct (map sr_id (sm_runs db))" "run_known rid db" "\<forall>x\<in>set xs. snd x \<noteq> Reopen rid"
  shows "wins rid (run_answers rd xs db) \<le> 1"
  using assms
proof (induction xs arbitrary: db)
  case (Cons x xs)
  let ?db = "snd (do_run_op rd (fst x) (snd x) db)"
  have keys: "distinct (map sr_id (sm_runs ?db))" and known: "run_known rid ?db"
    using keeps_closed_step [where op = "snd x" and rid = rid and rd = rd and now = "fst x" and db = db] Cons.prems by (auto simp: keeps_closed_def)
  show ?case
  proof (cases "fst (do_run_op rd (fst x) (snd x) db) \<and> finishes (snd x) = Some rid")
    case True
    then have "\<not> run_open rid ?db" using won_finish [OF Cons.prems(1)] by blast
    from no_win_when_closed [OF keys known this] Cons.prems(3) True show ?thesis
      by (simp add: wins_def case_prod_beta)
  next
    case False
    with Cons.IH [OF keys known] Cons.prems(3) show ?thesis by (auto simp: wins_def case_prod_beta)
  qed
qed (simp add: wins_def)

theorem run_finishes_once_witness:
  "wins 1 (run_answers id [(6, Finish_release 1 1 ''manual'' (0, 0, 0)), (6, Finish_detached 1 1 ''eod'' (0, 0, 0)),
     (7, Finish_release 1 1 ''eod'' (0, 0, 0))] started_runs) \<le> 1"
  by (rule run_finishes_once) (simp_all add: started_runs_simp run_known_def)

subsection \<open>Starting\<close>

lemma claimed_strategies:
  assumes "s' \<in> set (sm_strategies (snd (claim_strategy_for_run sid db)))" "st_status s' = Stopped"
  shows "s' \<in> set (sm_strategies db) \<and> st_id s' \<noteq> sid"
proof -
  have "s' \<in> set (sql_update (\<lambda>s. st_id s = sid \<and> st_status s = Stopped) (\<lambda>s. s\<lparr>st_status := Running\<rparr>) (sm_strategies db))"
    using assms(1) by (simp add: claim_strategy_for_run_def update_strategies_def)
  from sql_update_member [OF this] obtain s where "s \<in> set (sm_strategies db)"
    "s' = (if st_id s = sid \<and> st_status s = Stopped then s\<lparr>st_status := Running\<rparr> else s)" by blast
  with assms(2) show ?thesis by (simp split: if_splits)
qed

interpretation start: conditional_claim
  "\<lambda>sid (x :: unit). claim_strategy_for_run sid" "\<lambda>sid db. \<exists>s\<in>set (sm_strategies db). st_id s = sid \<and> st_status s = Stopped"
  "\<lambda>db. distinct (map st_id (sm_strategies db))"
proof
  fix db :: sm_db and sid x
  let ?P = "\<lambda>s. st_id s = sid \<and> st_status s = Stopped"
  assume keys: "distinct (map st_id (sm_strategies db))"
  show won: "fst (claim_strategy_for_run sid db) \<longleftrightarrow> (\<exists>s\<in>set (sm_strategies db). ?P s)"
    using row_count_eq_1_iff [OF keys, of ?P sid] by (simp add: claim_strategy_for_run_def update_strategies_def)
  show "\<not> (\<exists>s\<in>set (sm_strategies (snd (claim_strategy_for_run sid db))). ?P s)" using claimed_strategies by blast
  show "snd (claim_strategy_for_run sid db) = db" if "\<not> fst (claim_strategy_for_run sid db)"
    using that won sql_update_no_match [of ?P "sm_strategies db"] by (simp add: claim_strategy_for_run_def update_strategies_def)
  show "\<exists>s\<in>set (sm_strategies db). st_id s = j \<and> st_status s = Stopped"
    if "\<exists>s\<in>set (sm_strategies (snd (claim_strategy_for_run sid db))). st_id s = j \<and> st_status s = Stopped" for j
    using that claimed_strategies by blast
  show "distinct (map st_id (sm_strategies (snd (claim_strategy_for_run sid db))))"
    using keys by (simp add: claim_strategy_for_run_def update_strategies_def map_key_sql_update)
qed

text \<open>Of all triggers that try to start a strategy at once, at most one starts it, whatever else happens that does
  not stop it again; the first of them does if the strategy was stopped.\<close>

theorem one_start_wins:
  assumes "distinct (map st_id (sm_strategies db))"
    and "keeps_taken (\<lambda>sid db. \<exists>s\<in>set (sm_strategies db). st_id s = sid \<and> st_status s = Stopped)
      (\<lambda>db. distinct (map st_id (sm_strategies db))) sid sts"
  shows "claim_wins (\<lambda>sid (x :: unit). claim_strategy_for_run sid) sid sts db \<le> 1 \<and>
    ((\<exists>s\<in>set (sm_strategies db). st_id s = sid \<and> st_status s = Stopped) \<longrightarrow>
       claim_wins (\<lambda>sid (x :: unit). claim_strategy_for_run sid) sid (Inl (sid, ()) # sts) db = 1)"
  using start.at_most_one_win [OF assms] start.first_claim_wins [OF assms(1) _ assms(2)] by blast

theorem one_start_wins_witness:
  "claim_wins (\<lambda>sid (x :: unit). claim_strategy_for_run sid) 1 [Inl (1, ()), Inl (1, ()), Inl (1, ())] sample_runs = 1"
proof -
  let ?stopped = "\<lambda>sid db. \<exists>s\<in>set (sm_strategies db). st_id s = sid \<and> st_status s = Stopped"
  have "keeps_taken ?stopped (\<lambda>db. distinct (map st_id (sm_strategies db))) 1 [Inl (1, ()), Inl (1, ())]"
    by (simp add: keeps_taken_def)
  moreover have "?stopped 1 sample_runs" "distinct (map st_id (sm_strategies sample_runs))" by (simp_all add: sample_runs_def)
  ultimately show ?thesis using one_start_wins [of sample_runs 1 "[Inl (1, ()), Inl (1, ())]"] by blast
qed

end
