(* ===== verification/StrategyPnlLaws.thy ===== *)
theory StrategyPnlLaws
  imports StrategyDB "HOL-Library.Multiset"
begin

text \<open>
  The realised profit a run's orders prove: for a position that was closed again, matching its exits to
  its entries first in first out books exactly the cash the orders moved.
\<close>

definition direction_sign :: "action \<Rightarrow> rat" where
  "direction_sign a = (case a of BUY \<Rightarrow> 1 | SELL \<Rightarrow> -1)"

text \<open>The cash an order moves into the account.\<close>

definition fact_price :: "pnl_fact \<Rightarrow> rat" where
  "fact_price f = (case pf_price f of Some p \<Rightarrow> p | None \<Rightarrow> 0)"

definition fact_cash :: "pnl_fact \<Rightarrow> rat" where
  "fact_cash f = - direction_sign (pf_action f) * fact_price f * of_int (pf_quantity f)"

text \<open>Entries less exits.\<close>

definition fact_quantity :: "pnl_fact \<Rightarrow> int" where
  "fact_quantity f = (case pf_kind f of Entry \<Rightarrow> pf_quantity f | Exit k \<Rightarrow> - pf_quantity f)"

definition lot_value :: "lot \<Rightarrow> rat" where
  "lot_value l = direction_sign (lt_action l) * lt_price l * of_int (lt_remaining l)"

definition lots_held :: "action \<Rightarrow> lot list \<Rightarrow> bool" where
  "lots_held a ls \<longleftrightarrow> (\<forall>l\<in>set ls. lt_action l = a \<and> lt_remaining l \<ge> 0)"

definition lots_quantity :: "lot list \<Rightarrow> int" where
  "lots_quantity ls = sum_list (map lt_remaining ls)"

definition lots_value :: "lot list \<Rightarrow> rat" where
  "lots_value ls = sum_list (map lot_value ls)"

lemma lots_simps [simp]:
  "lots_held a []" "lots_held a (l # ls) \<longleftrightarrow> lt_action l = a \<and> lt_remaining l \<ge> 0 \<and> lots_held a ls"
  "lots_quantity [] = 0" "lots_quantity (l # ls) = lt_remaining l + lots_quantity ls"
  "lots_value [] = 0" "lots_value (l # ls) = lot_value l + lots_value ls"
  by (auto simp: lots_held_def lots_quantity_def lots_value_def)

lemma lots_append [simp]:
  "lots_held a (ls @ ks) \<longleftrightarrow> lots_held a ls \<and> lots_held a ks" "lots_quantity (ls @ ks) = lots_quantity ls + lots_quantity ks"
  "lots_value (ls @ ks) = lots_value ls + lots_value ks"
  by (auto simp: lots_held_def lots_quantity_def lots_value_def)

lemma lots_quantity_nonneg: "lots_held a ls \<Longrightarrow> lots_quantity ls \<ge> 0"
  by (induction ls) auto

lemma no_lots_left: "lots_held a ls \<Longrightarrow> lots_quantity ls = 0 \<Longrightarrow> lots_value ls = 0"
proof (induction ls)
  case (Cons l ls)
  then have "lt_remaining l = 0" "lots_quantity ls = 0" using lots_quantity_nonneg [of a ls] by auto
  with Cons show ?case by (simp add: lot_value_def)
qed simp

lemma lot_gain_value:
  "lot_gain l p n = direction_sign (lt_action l) * p * of_int n - (lot_value l - lot_value (l\<lparr>lt_remaining := lt_remaining l - n\<rparr>))"
  by (cases "lt_action l") (simp_all add: lot_gain_def lot_value_def direction_sign_def field_simps)

lemma consume_lots_matches:
  assumes "lots_held a ls" "0 < q" "q \<le> lots_quantity ls"
  shows "\<exists>ls1 g. consume_lots (opposite a) p q ls = Some (ls1, g, q) \<and> lots_held a ls1 \<and>
    lots_quantity ls1 = lots_quantity ls - q \<and> g = direction_sign a * p * of_int q - (lots_value ls - lots_value ls1)"
  using assms
proof (induction ls arbitrary: q)
  case (Cons l ls)
  show ?case
  proof (cases "lt_remaining l \<le> 0")
    case True
    with Cons.prems have "lots_held a ls" "q \<le> lots_quantity ls" "lt_remaining l = 0" by auto
    from Cons.IH [OF this(1) Cons.prems(2) this(2)] show ?thesis using True Cons.prems by auto
  next
    case False
    let ?n = "min q (lt_remaining l)" and ?l = "l\<lparr>lt_remaining := lt_remaining l - min q (lt_remaining l)\<rparr>"
    have l: "lt_action l = a" "lots_held a ls" using Cons.prems by auto
    show ?thesis
    proof (cases "q - ?n \<le> 0")
      case True
      with False Cons.prems l lot_gain_value [of l p ?n] show ?thesis by (simp add: algebra_simps)
    next
      case more_left: False
      then have "0 < q - ?n" "q - ?n \<le> lots_quantity ls" using Cons.prems by auto
      from Cons.IH [OF l(2) this] obtain ls1 g where
        rest: "consume_lots (opposite a) p (q - ?n) ls = Some (ls1, g, q - ?n)" "lots_held a ls1"
          "lots_quantity ls1 = lots_quantity ls - (q - ?n)"
          "g = direction_sign a * p * of_int (q - ?n) - (lots_value ls - lots_value ls1)" by blast
      have eq: "consume_lots (opposite a) p q (l # ls) = Some (?l # ls1, lot_gain l p ?n + g, q)"
        using False more_left l rest(1) by (simp add: Let_def)
      show ?thesis
        unfolding eq using rest l Cons.prems lot_gain_value [of l p ?n] by (simp add: algebra_simps)
    qed
  qed
qed simp

text \<open>What holds of a position while its orders are gone through.\<close>

definition owner_inv :: "action \<Rightarrow> owner_pnl \<Rightarrow> int \<Rightarrow> rat \<Rightarrow> bool" where
  "owner_inv a w n cash \<longleftrightarrow>
     lots_held a (ow_lots w) \<and> ow_action w \<in> {None, Some a} \<and> lots_quantity (ow_lots w) = n \<and>
     ow_realized w = cash + lots_value (ow_lots w)"

definition owner_fact :: "action \<Rightarrow> pnl_fact \<Rightarrow> bool" where
  "owner_fact a f \<longleftrightarrow> pf_quantity f > 0 \<and> pf_action f = (case pf_kind f of Entry \<Rightarrow> a | Exit k \<Rightarrow> opposite a)"

lemma direction_opposite [simp]: "direction_sign (opposite a) = - direction_sign a"
  by (cases a) (simp_all add: direction_sign_def opposite_def)

lemma fold_fact_inv:
  assumes "owner_inv a w n cash" "owner_fact a f" "n + fact_quantity f \<ge> 0"
  shows "\<exists>w1. fold_fact referenced f w = Some w1 \<and> owner_inv a w1 (n + fact_quantity f) (cash + fact_cash f)"
proof (cases "pf_kind f")
  case Entry
  have "filter (\<lambda>l. lt_remaining l > 0) (ow_lots w) \<noteq> [] \<longrightarrow> a \<in> lt_action ` set (filter (\<lambda>l. lt_remaining l > 0) (ow_lots w))"
    using assms(1) by (auto simp: owner_inv_def lots_held_def filter_empty_conv)
  then show ?thesis
    using assms Entry
    by (auto simp: fold_fact_def Let_def owner_inv_def owner_fact_def fact_quantity_def fact_cash_def fact_price_def lot_value_def
        algebra_simps)
next
  case (Exit k)
  let ?p = "fact_price f" and ?q = "pf_quantity f"
  have held: "lots_held a (ow_lots w)" "lots_quantity (ow_lots w) = n" and f: "?q > 0" "pf_action f = opposite a" "?q \<le> n"
    using assms Exit by (auto simp: owner_inv_def owner_fact_def fact_quantity_def)
  from consume_lots_matches [OF held(1) f(1), of ?p] f(3) held(2) obtain ls1 g where
    c: "consume_lots (opposite a) ?p ?q (ow_lots w) = Some (ls1, g, ?q)" "lots_held a ls1" "lots_quantity ls1 = n - ?q"
      "g = direction_sign a * ?p * of_int ?q - (lots_value (ow_lots w) - lots_value ls1)" by auto
  have "filter (\<lambda>l. lt_remaining l > 0) (ow_lots w) \<noteq> []"
  proof
    assume "filter (\<lambda>l. lt_remaining l > 0) (ow_lots w) = []"
    then have "\<forall>l\<in>set (ow_lots w). lt_remaining l = 0"
      using held(1) by (force simp: lots_held_def filter_empty_conv)
    then have "map lt_remaining (ow_lots w) = map (\<lambda>l. 0) (ow_lots w)" by simp
    then have "lots_quantity (ow_lots w) = 0" unfolding lots_quantity_def by (simp only: sum_list_0)
    with held(2) f show False by simp
  qed
  then obtain l ls where open_lots: "filter (\<lambda>l. lt_remaining l > 0) (ow_lots w) = l # ls" by (cases "filter (\<lambda>l. lt_remaining l > 0) (ow_lots w)") auto
  then have "l \<in> set (filter (\<lambda>l. lt_remaining l > 0) (ow_lots w))" by simp
  then have "lt_action l = a" using held(1) by (simp add: lots_held_def)
  with open_lots c f Exit assms(1) show ?thesis
    by (auto simp: fold_fact_def Let_def owner_inv_def fact_quantity_def fact_cash_def fact_price_def algebra_simps)
qed

lemma fold_facts_inv:
  assumes "owner_inv a w n cash" "\<forall>f\<in>set fs. owner_fact a f" "\<forall>k. n + sum_list (map fact_quantity (take k fs)) \<ge> 0"
  shows "\<exists>w1. fold_facts_of referenced fs w = Some w1 \<and>
    owner_inv a w1 (n + sum_list (map fact_quantity fs)) (cash + sum_list (map fact_cash fs))"
  using assms
proof (induction fs arbitrary: w n cash)
  case (Cons f fs)
  have "n + fact_quantity f \<ge> 0" using spec [OF Cons.prems(3), of 1] by simp
  with fold_fact_inv [OF Cons.prems(1)] Cons.prems(2) obtain w1 where
    w1: "fold_fact referenced f w = Some w1" "owner_inv a w1 (n + fact_quantity f) (cash + fact_cash f)" by fastforce
  have "\<forall>k. n + fact_quantity f + sum_list (map fact_quantity (take k fs)) \<ge> 0"
    using Cons.prems(3) by (metis (no_types, lifting) add.assoc list.simps(9) sum_list.Cons take_Suc_Cons)
  from Cons.IH [OF w1(2) _ this] Cons.prems(2) w1(1) show ?case by (auto simp: add.assoc)
qed simp

definition in_order :: "pnl_fact list \<Rightarrow> pnl_fact list" where
  "in_order fs = sort_key (\<lambda>f. (pf_placed_at f, pf_order f)) fs"

lemma sum_in_order: "sum_list (map g (in_order fs)) = sum_list (map g fs)" for g :: "pnl_fact \<Rightarrow> 'b :: comm_monoid_add"
proof -
  have "mset (map g (in_order fs)) = mset (map g fs)" by (simp add: in_order_def)
  then have "sum_mset (mset (map g (in_order fs))) = sum_mset (mset (map g fs))" by (rule arg_cong)
  then show ?thesis unfolding sum_mset_sum_list .
qed

text \<open>C40: for a position all of whose orders are priced, that never exits more than it holds and ends flat, the profit
  worked out from the order rows is the cash its orders moved.\<close>

theorem flat_owner_makes_its_cash_flow:
  assumes "\<forall>f\<in>set fs. owner_fact a f \<and> pf_price f \<noteq> None"
    and "\<forall>k. sum_list (map fact_quantity (take k (in_order fs))) \<ge> 0" "sum_list (map fact_quantity fs) = 0"
  shows "\<exists>n. fold_owner_pnl referenced fs = Some (sum_list (map fact_cash fs), n)"
proof -
  note same = sum_in_order [of _ fs]
  have "owner_inv a no_pnl 0 0" by (simp add: owner_inv_def no_pnl_def)
  moreover have "\<forall>f\<in>set (in_order fs). owner_fact a f" using assms(1) by (simp add: in_order_def)
  moreover have "\<forall>k. 0 + sum_list (map fact_quantity (take k (in_order fs))) \<ge> 0" using assms(2) by simp
  ultimately obtain w where w: "fold_facts_of referenced (in_order fs) no_pnl = Some w"
    "owner_inv a w (0 + sum_list (map fact_quantity (in_order fs))) (0 + sum_list (map fact_cash (in_order fs)))"
    using fold_facts_inv by blast
  from w(2) have "owner_inv a w 0 (sum_list (map fact_cash fs))" by (simp only: same assms(3) add_0)
  then have "ow_realized w = sum_list (map fact_cash fs)" using no_lots_left by (auto simp: owner_inv_def)
  moreover have "\<not> (\<exists>f\<in>set fs. pf_price f = None)" using assms(1) by blast
  ultimately show ?thesis using w(1) unfolding in_order_def fold_owner_pnl_def by (simp only: if_False option.map simp_thms) simp
qed

definition sample_facts :: "pnl_fact list" where
  "sample_facts =
     (let f = (\<lambda>n k a q p. \<lparr>pf_order = n, pf_placed_at = int n, pf_kind = k, pf_action = a, pf_quantity = q, pf_price = Some p\<rparr>)
      in [f 3 (Exit ''exit_sl'') SELL 5 110, f 1 Entry BUY 4 100, f 2 Entry BUY 1 105])"

theorem flat_owner_makes_its_cash_flow_witness: "\<exists>n. fold_owner_pnl True sample_facts = Some (45, n)"
proof -
  have order: "in_order sample_facts = [sample_facts ! 1, sample_facts ! 2, sample_facts ! 0]"
    by (simp add: in_order_def sample_facts_def Let_def insort_key_def)
  have "\<exists>n. fold_owner_pnl True sample_facts = Some (sum_list (map fact_cash sample_facts), n)"
  proof (rule flat_owner_makes_its_cash_flow [of _ BUY])
    show "\<forall>k. sum_list (map fact_quantity (take k (in_order sample_facts))) \<ge> 0"
      unfolding order by (auto simp: take_Cons' sample_facts_def Let_def fact_quantity_def)
  qed (simp_all add: sample_facts_def Let_def owner_fact_def opposite_def fact_quantity_def)
  then show ?thesis by (simp add: sample_facts_def Let_def fact_cash_def direction_sign_def fact_price_def)
qed

end
