(* ===== verification/StrategyReplay.thy ===== *)
theory StrategyReplay
  imports Prelude "HOL-Library.Multiset"
begin

text \<open>
  Frames that come before their order's row (\<open>order_events._apply_update\<close>, \<open>_stash_until_recorded\<close> and
  \<open>replay_for\<close>): the workers that bring the frames of one order, the thread that records the order and
  then replays what is held, and the replays of other orders, interleaved step by step.

  A step is what happens between two points where other threads can come in: one locked section of the
  cache, one lookup of the row, the application of one frame.  Frames are kept within the two minutes and
  the number of orders the cache holds; what the cap of one order cuts off is kept as \<open>rl_dropped\<close>, which
  the code does not keep.  A frame that is replayed looks its row up again, and finds it.
\<close>

subsection \<open>The threads\<close>

record 'f relay =
  rl_row_there :: bool
  rl_replays :: nat
  rl_held :: "'f list"
  rl_applied :: "'f list"
  rl_dropped :: "'f list"

datatype 'f worker =
    Arrived 'f
  | Counted 'f nat
  | Missed 'f nat
  | Looking_again
  | Taking
  | Applying_frames "'f list"
  | Worker_done

datatype 'f recorder = Placing | Recorded | Replaying "'f list" | Replayed

definition MAX_FRAMES_PER_ORDER :: nat where
  "MAX_FRAMES_PER_ORDER = 16"

text \<open>Holding one more frame: the last ones are kept.\<close>

definition stash_frame :: "'f \<Rightarrow> 'f relay \<Rightarrow> 'f relay" where
  "stash_frame f s =
     (let frames = rl_held s @ [f]; cut = length frames - MAX_FRAMES_PER_ORDER
      in s\<lparr>rl_held := drop cut frames, rl_dropped := rl_dropped s @ take cut frames\<rparr>)"

fun worker_step :: "'f worker \<Rightarrow> 'f relay \<Rightarrow> 'f worker \<times> 'f relay" where
  "worker_step (Arrived f) s = (Counted f (rl_replays s), s)"
| "worker_step (Counted f n) s = (if rl_row_there s then Applying_frames [f] else Missed f n, s)"
| "worker_step (Missed f n) s = (if rl_replays s \<noteq> n then Looking_again else Worker_done, stash_frame f s)"
| "worker_step Looking_again s = (if rl_row_there s then Taking else Worker_done, s)"
| "worker_step Taking s = (if rl_held s = [] then Worker_done else Applying_frames (rl_held s), s\<lparr>rl_held := []\<rparr>)"
| "worker_step (Applying_frames []) s = (Worker_done, s)"
| "worker_step (Applying_frames (f # fs)) s = (Applying_frames fs, s\<lparr>rl_applied := rl_applied s @ [f]\<rparr>)"
| "worker_step Worker_done s = (Worker_done, s)"

text \<open>The count goes up before anything is taken.\<close>

definition replay_for :: "'f relay \<Rightarrow> 'f list \<times> 'f relay" where
  "replay_for s = (rl_held s, s\<lparr>rl_replays := Suc (rl_replays s), rl_held := []\<rparr>)"

fun recorder_step :: "'f recorder \<Rightarrow> 'f relay \<Rightarrow> 'f recorder \<times> 'f relay" where
  "recorder_step Placing s = (Recorded, s\<lparr>rl_row_there := True\<rparr>)"
| "recorder_step Recorded s = (case replay_for s of (fs, s1) \<Rightarrow> (Replaying fs, s1))"
| "recorder_step (Replaying []) s = (Replayed, s)"
| "recorder_step (Replaying (f # fs)) s = (Replaying fs, s\<lparr>rl_applied := rl_applied s @ [f]\<rparr>)"
| "recorder_step Replayed s = (Replayed, s)"

subsection \<open>Their interleavings\<close>

type_synonym 'f relay_config = "'f relay \<times> 'f recorder \<times> 'f worker list"

inductive relay_step :: "'f relay_config \<Rightarrow> 'f relay_config \<Rightarrow> bool" where
  relay_worker:
    "i < length ws \<Longrightarrow> ws ! i \<noteq> Worker_done \<Longrightarrow> worker_step (ws ! i) s = (w, s1) \<Longrightarrow> relay_step (s, r, ws) (s1, r, ws[i := w])"
| relay_recorder: "r \<noteq> Replayed \<Longrightarrow> recorder_step r s = (r1, s1) \<Longrightarrow> relay_step (s, r, ws) (s1, r1, ws)"

inductive_cases relay_stepE: "relay_step c c1"

text \<open>A run with \<open>n\<close> steps of the order's own threads, and any number of replays of other orders.\<close>

inductive relay_run :: "nat \<Rightarrow> 'f relay_config \<Rightarrow> 'f relay_config \<Rightarrow> bool" where
  run_none: "relay_run 0 c c"
| run_own: "relay_run n c c1 \<Longrightarrow> relay_step c1 c2 \<Longrightarrow> relay_run (Suc n) c c2"
| run_other: "relay_run n c (s, r, ws) \<Longrightarrow> relay_run n c (s\<lparr>rl_replays := Suc (rl_replays s)\<rparr>, r, ws)"

definition relay_start :: "'f list \<Rightarrow> 'f relay_config" where
  "relay_start fs =
     (\<lparr>rl_row_there = False, rl_replays = 0, rl_held = [], rl_applied = [], rl_dropped = []\<rparr>, Placing, map Arrived fs)"

definition relay_finished :: "'f relay_config \<Rightarrow> bool" where
  "relay_finished c \<longleftrightarrow> (case c of (s, r, ws) \<Rightarrow> r = Replayed \<and> (\<forall>w\<in>set ws. w = Worker_done))"

subsection \<open>Where the frames are\<close>

fun in_hand :: "'f worker \<Rightarrow> 'f list" where
  "in_hand (Arrived f) = [f]"
| "in_hand (Counted f n) = [f]"
| "in_hand (Missed f n) = [f]"
| "in_hand (Applying_frames fs) = fs"
| "in_hand Looking_again = []"
| "in_hand Taking = []"
| "in_hand Worker_done = []"

fun in_replay :: "'f recorder \<Rightarrow> 'f list" where
  "in_replay (Replaying fs) = fs"
| "in_replay Placing = []"
| "in_replay Recorded = []"
| "in_replay Replayed = []"

definition in_hands :: "'f worker list \<Rightarrow> 'f multiset" where
  "in_hands ws = (\<Sum>w\<leftarrow>ws. mset (in_hand w))"

definition all_frames :: "'f relay_config \<Rightarrow> 'f multiset" where
  "all_frames c = (case c of (s, r, ws) \<Rightarrow>
     mset (rl_applied s) + mset (rl_dropped s) + mset (rl_held s) + mset (in_replay r) + in_hands ws)"

definition past_replay :: "'f recorder \<Rightarrow> bool" where
  "past_replay r \<longleftrightarrow> r \<noteq> Placing \<and> r \<noteq> Recorded"

text \<open>Whoever missed the row before the replay sees that the count has moved, and what is held has a taker.\<close>

definition relay_inv :: "'f relay_config \<Rightarrow> bool" where
  "relay_inv c \<longleftrightarrow> (case c of (s, r, ws) \<Rightarrow>
     (rl_row_there s \<longleftrightarrow> r \<noteq> Placing) \<and>
     (\<forall>f n. Counted f n \<in> set ws \<longrightarrow> n \<le> rl_replays s) \<and>
     (\<forall>f n. Missed f n \<in> set ws \<longrightarrow> n \<le> rl_replays s \<and> (past_replay r \<longrightarrow> n < rl_replays s)) \<and>
     (past_replay r \<and> rl_held s \<noteq> [] \<longrightarrow> Looking_again \<in> set ws \<or> Taking \<in> set ws))"

lemma in_hands_update:
  assumes "i < length ws"
  shows "in_hands (ws[i := w]) + mset (in_hand (ws ! i)) = in_hands ws + mset (in_hand w)"
  using assms
proof (induction ws arbitrary: i)
  case (Cons x xs)
  then show ?case by (cases i) (simp_all add: in_hands_def ac_simps)
qed simp

lemma stash_frames: "mset (rl_dropped (stash_frame f s)) + mset (rl_held (stash_frame f s)) = mset (rl_dropped s) + mset (rl_held s) + {#f#}"
proof -
  have cut: "mset (take k xs) + mset (drop k xs) = mset xs" for k and xs :: "'a list"
    by (metis append_take_drop_id mset_append)
  show ?thesis unfolding stash_frame_def Let_def by (simp add: add.assoc cut del: take_append drop_append)
qed

lemma stash_row_there [simp]: "rl_row_there (stash_frame f s) = rl_row_there s" "rl_replays (stash_frame f s) = rl_replays s"
  "rl_applied (stash_frame f s) = rl_applied s"
  by (simp_all add: stash_frame_def Let_def)

lemma worker_step_frames:
  "worker_step w s = (w1, s1) \<Longrightarrow>
   mset (rl_applied s1) + mset (rl_dropped s1) + mset (rl_held s1) + mset (in_hand w1) =
   mset (rl_applied s) + mset (rl_dropped s) + mset (rl_held s) + mset (in_hand w)"
  by (induction w s rule: worker_step.induct) (auto simp: stash_frames add.assoc split: if_splits)

lemma recorder_step_frames:
  "recorder_step r s = (r1, s1) \<Longrightarrow>
   mset (rl_applied s1) + mset (rl_dropped s1) + mset (rl_held s1) + mset (in_replay r1) =
   mset (rl_applied s) + mset (rl_dropped s) + mset (rl_held s) + mset (in_replay r)"
  by (induction r s rule: recorder_step.induct) (auto simp: replay_for_def)

lemma exchange_frames:
  fixes a b c d h h1 :: "'a multiset"
  assumes "a + h1 = b + h" "c + h = d + h1"
  shows "a + c = b + d"
proof -
  have "(a + h1) + (c + h) = (b + h) + (d + h1)" using assms by simp
  then have "(a + c) + (h1 + h) = (b + d) + (h1 + h)" by (simp only: ac_simps)
  then show ?thesis by simp
qed

lemma relay_step_frames: "relay_step c c1 \<Longrightarrow> all_frames c1 = all_frames c"
proof (induction rule: relay_step.induct)
  case (relay_worker i ws s w s1 r)
  from exchange_frames [OF worker_step_frames [OF relay_worker(3)] in_hands_update [OF relay_worker(1), of w]]
  show ?case by (simp add: all_frames_def ac_simps)
next
  case (relay_recorder r s r1 s1 ws)
  then show ?case using recorder_step_frames [OF relay_recorder(2)] by (simp add: all_frames_def)
qed

subsection \<open>The invariant\<close>

lemma other_worker_stays: "x \<in> set ws \<Longrightarrow> x \<noteq> ws ! i \<Longrightarrow> x \<in> set (ws[i := w])"
  by (metis in_set_conv_nth length_list_update nth_list_update_neq)

lemma new_worker_there: "i < length ws \<Longrightarrow> w \<in> set (ws[i := w])"
  by (rule set_update_memI)

lemma updated_worker: "x \<in> set (ws[i := w]) \<Longrightarrow> x = w \<or> x \<in> set ws"
  using set_update_subset_insert [of ws i w] by auto

lemma worker_step_row: "worker_step w s = (w1, s1) \<Longrightarrow> rl_row_there s1 = rl_row_there s \<and> rl_replays s1 = rl_replays s"
  by (induction w s rule: worker_step.induct) auto

text \<open>What a worker is about to do next, and what it needs for it.\<close>

lemma worker_step_phases:
  assumes "worker_step w s = (w1, s1)"
  shows "w1 = Counted f n \<Longrightarrow> n = rl_replays s" "w1 = Missed f n \<Longrightarrow> w = Counted f n \<and> \<not> rl_row_there s"
    "rl_held s1 \<noteq> [] \<Longrightarrow> rl_held s \<noteq> [] \<or> (\<exists>f n. w = Missed f n)"
    "rl_held s1 \<noteq> [] \<Longrightarrow> w \<noteq> Taking" "w = Looking_again \<Longrightarrow> rl_row_there s \<Longrightarrow> w1 = Taking"
    "w = Missed f n \<Longrightarrow> n < rl_replays s \<Longrightarrow> w1 = Looking_again"
  using assms by (induction w s rule: worker_step.induct) (auto split: if_splits)

lemma relay_inv_worker:
  assumes inv: "relay_inv (s, r, ws)" and i: "i < length ws" and step: "worker_step (ws ! i) s = (w, s1)"
  shows "relay_inv (s1, r, ws[i := w])"
proof -
  have there: "ws ! i \<in> set ws" using i by simp
  note kept = other_worker_stays [of _ ws i w] and new = new_worker_there [OF i, of w]
  note row = worker_step_row [OF step] and ph = worker_step_phases [OF step]
  have counted: "n \<le> rl_replays s" if "Counted f n \<in> set (ws[i := w])" for f n
    using updated_worker [OF that] ph(1) inv by (auto simp: relay_inv_def)
  have missed: "n \<le> rl_replays s \<and> (past_replay r \<longrightarrow> n < rl_replays s)" if "Missed f n \<in> set (ws[i := w])" for f n
  proof (cases "Missed f n \<in> set ws")
    case True
    then show ?thesis using inv by (auto simp: relay_inv_def)
  next
    case False
    with updated_worker [OF that] ph(2) have "Counted f n \<in> set ws" "\<not> rl_row_there s" using there by metis+
    with inv show ?thesis by (auto simp: relay_inv_def past_replay_def)
  qed
  have taker: "Looking_again \<in> set (ws[i := w]) \<or> Taking \<in> set (ws[i := w])" if "past_replay r" "rl_held s1 \<noteq> []"
  proof (cases "\<exists>f n. ws ! i = Missed f n")
    case True
    then have "w = Looking_again" using that(1) there inv ph(6) by (fastforce simp: relay_inv_def)
    with new show ?thesis by simp
  next
    case False
    then have "Looking_again \<in> set ws \<or> Taking \<in> set ws" using that ph(3) inv by (auto simp: relay_inv_def)
    moreover have "w = Taking" if "ws ! i = Looking_again" using ph(5) that inv \<open>past_replay r\<close> by (auto simp: relay_inv_def past_replay_def)
    moreover have "ws ! i \<noteq> Taking" using ph(4) that(2) by blast
    ultimately show ?thesis using kept new by metis
  qed
  show ?thesis using inv row counted missed taker by (simp add: relay_inv_def)
qed

lemma relay_inv_recorder:
  assumes "relay_inv (s, r, ws)" "recorder_step r s = (r1, s1)"
  shows "relay_inv (s1, r1, ws)"
  using assms by (induction r s rule: recorder_step.induct) (auto simp: relay_inv_def past_replay_def replay_for_def le_Suc_eq less_Suc_eq_le)

lemma relay_inv_run: "relay_run n c c1 \<Longrightarrow> relay_inv c \<Longrightarrow> relay_inv c1"
proof (induction rule: relay_run.induct)
  case (run_own n c c1 c2)
  then show ?case by (auto elim!: relay_stepE intro: relay_inv_worker relay_inv_recorder)
next
  case (run_other n c s r ws)
  then have "relay_inv (s, r, ws)" by blast
  then show ?case by (auto simp: relay_inv_def intro: le_SucI less_SucI)
qed

lemma relay_start_inv: "relay_inv (relay_start fs)"
  by (auto simp: relay_inv_def relay_start_def past_replay_def)

lemma relay_run_frames: "relay_run n c c1 \<Longrightarrow> all_frames c1 = all_frames c"
  by (induction rule: relay_run.induct) (auto dest: relay_step_frames simp: all_frames_def)

lemma relay_start_frames: "all_frames (relay_start fs) = mset fs"
proof -
  have "in_hands (map Arrived fs) = mset fs" by (induction fs) (simp_all add: in_hands_def)
  then show ?thesis by (simp add: all_frames_def relay_start_def)
qed

subsection \<open>Nothing is cut off from a short row of frames\<close>

lemma in_hands_ge: "w \<in> set ws \<Longrightarrow> length (in_hand w) \<le> size (in_hands ws)"
  by (induction ws) (auto simp: in_hands_def)

lemma worker_step_drops:
  assumes "worker_step w s = (w1, s1)" "length (rl_held s) + length (in_hand w) \<le> MAX_FRAMES_PER_ORDER"
  shows "rl_dropped s1 = rl_dropped s"
  using assms by (induction w s rule: worker_step.induct) (auto simp: stash_frame_def Let_def split: if_splits)

lemma recorder_step_drops: "recorder_step r s = (r1, s1) \<Longrightarrow> rl_dropped s1 = rl_dropped s"
  by (induction r s rule: recorder_step.induct) (auto simp: replay_for_def)

lemma relay_step_drops:
  assumes "relay_step c c1" "size (all_frames c) \<le> MAX_FRAMES_PER_ORDER"
  shows "rl_dropped (fst c1) = rl_dropped (fst c)"
  using assms
proof (induction rule: relay_step.induct)
  case (relay_worker i ws s w s1 r)
  have "length (in_hand (ws ! i)) \<le> size (in_hands ws)" using relay_worker(1) by (intro in_hands_ge) simp
  with relay_worker(4) have "length (rl_held s) + length (in_hand (ws ! i)) \<le> MAX_FRAMES_PER_ORDER"
    by (simp add: all_frames_def)
  with relay_worker(3) show ?case by (simp add: worker_step_drops)
next
  case (relay_recorder r s r1 s1 ws)
  then show ?case by (simp add: recorder_step_drops)
qed

lemma relay_run_drops:
  "relay_run n c c1 \<Longrightarrow> size (all_frames c) \<le> MAX_FRAMES_PER_ORDER \<Longrightarrow> rl_dropped (fst c) = [] \<Longrightarrow> rl_dropped (fst c1) = []"
proof (induction rule: relay_run.induct)
  case (run_own n c c1 c2)
  then show ?case using relay_step_drops [of c1 c2] relay_run_frames [OF run_own(1)] by simp
qed auto

text \<open>C36: however the workers that bring an order's frames, the thread that records the order and the replays of other
  orders interleave: once they have all ended every frame has been applied exactly once, but those the cap of the
  order cut off, and none is cut off from at most as many as it allows.\<close>

theorem every_frame_is_applied_once:
  assumes "relay_run n (relay_start fs) (s, r, ws)" "relay_finished (s, r, ws)"
  shows "mset (rl_applied s) + mset (rl_dropped s) = mset fs \<and> rl_held s = [] \<and>
    (length fs \<le> MAX_FRAMES_PER_ORDER \<longrightarrow> mset (rl_applied s) = mset fs)"
proof -
  have r: "r = Replayed" and ws: "\<forall>w\<in>set ws. w = Worker_done" using assms(2) by (simp_all add: relay_finished_def)
  have "relay_inv (s, r, ws)" by (rule relay_inv_run [OF assms(1) relay_start_inv])
  with r ws have held: "rl_held s = []" by (auto simp: relay_inv_def past_replay_def)
  have "in_hands ws = {#}" using ws by (induction ws) (simp_all add: in_hands_def)
  with relay_run_frames [OF assms(1)] r held have frames: "mset (rl_applied s) + mset (rl_dropped s) = mset fs"
    unfolding relay_start_frames by (simp add: all_frames_def)
  moreover have "rl_dropped s = []" if "length fs \<le> MAX_FRAMES_PER_ORDER"
    using relay_run_drops [OF assms(1)] that unfolding relay_start_frames by (simp add: relay_start_def)
  ultimately show ?thesis using held by auto
qed

text \<open>A schedule: zero is the recorder, one more than its place a worker.\<close>

fun scheduled_step :: "nat \<Rightarrow> 'f relay_config \<Rightarrow> 'f relay_config" where
  "scheduled_step 0 (s, r, ws) = (case recorder_step r s of (r1, s1) \<Rightarrow> if r = Replayed then (s, r, ws) else (s1, r1, ws))"
| "scheduled_step (Suc i) (s, r, ws) =
     (if i < length ws \<and> ws ! i \<noteq> Worker_done then (case worker_step (ws ! i) s of (w, s1) \<Rightarrow> (s1, r, ws[i := w])) else (s, r, ws))"

lemma scheduled_step_cases: "scheduled_step i c = c \<or> relay_step c (scheduled_step i c)"
  by (induction i c rule: scheduled_step.induct) (auto split: prod.split intro: relay_step.intros)

lemma scheduled_run: "\<exists>n. relay_run n c (fold scheduled_step is c)"
proof (induction "is" rule: rev_induct)
  case Nil
  show ?case by (auto intro: run_none)
next
  case (snoc i xs)
  then obtain n where n: "relay_run n c (fold scheduled_step xs c)" by blast
  show ?case
    using scheduled_step_cases [of i "fold scheduled_step xs c"] n by (auto intro: run_own)
qed

text \<open>The first worker misses the row, which is then recorded and replayed with nothing held; the second finds it.\<close>

definition sample_schedule :: "nat list" where
  "sample_schedule = [1, 1, 0, 0, 2, 2, 2, 1, 1, 0, 1, 1, 2, 1]"

theorem every_frame_is_applied_once_witness:
  "mset (rl_applied (fst (fold scheduled_step sample_schedule (relay_start [10, 20 :: nat])))) = {#10, 20#}"
proof -
  obtain n where run: "relay_run n (relay_start [10, 20 :: nat]) (fold scheduled_step sample_schedule (relay_start [10, 20]))"
    using scheduled_run by blast
  obtain s r ws where c: "fold scheduled_step sample_schedule (relay_start [10, 20 :: nat]) = (s, r, ws)" by (metis prod_cases3)
  have "relay_finished (fold scheduled_step sample_schedule (relay_start [10, 20 :: nat]))" by code_simp
  then show ?thesis
    using every_frame_is_applied_once [of n "[10, 20]" s r ws] run unfolding c by (simp add: MAX_FRAMES_PER_ORDER_def)
qed

subsection \<open>It ends\<close>

fun worker_work :: "'f worker \<Rightarrow> nat" where
  "worker_work (Arrived f) = 7"
| "worker_work (Counted f n) = 6"
| "worker_work (Missed f n) = 5"
| "worker_work Looking_again = 3"
| "worker_work Taking = 2"
| "worker_work (Applying_frames fs) = Suc (length fs)"
| "worker_work Worker_done = 0"

fun recorder_work :: "'f recorder \<Rightarrow> nat" where
  "recorder_work Placing = 3"
| "recorder_work Recorded = 2"
| "recorder_work (Replaying fs) = Suc (length fs)"
| "recorder_work Replayed = 0"

definition relay_work :: "'f relay_config \<Rightarrow> nat" where
  "relay_work c = (case c of (s, r, ws) \<Rightarrow> length (rl_held s) + recorder_work r + sum_list (map worker_work ws))"

lemma worker_step_work:
  "worker_step w s = (w1, s1) \<Longrightarrow> w \<noteq> Worker_done \<Longrightarrow> length (rl_held s1) + worker_work w1 < length (rl_held s) + worker_work w"
  by (induction w s rule: worker_step.induct) (auto simp: stash_frame_def Let_def split: if_splits)

lemma recorder_step_work:
  "recorder_step r s = (r1, s1) \<Longrightarrow> r \<noteq> Replayed \<Longrightarrow> length (rl_held s1) + recorder_work r1 < length (rl_held s) + recorder_work r"
  by (induction r s rule: recorder_step.induct) (auto simp: replay_for_def)

lemma relay_step_work: "relay_step c c1 \<Longrightarrow> relay_work c1 < relay_work c"
proof (induction rule: relay_step.induct)
  case (relay_worker i ws s w s1 r)
  have "sum_list (map worker_work (ws[i := w])) + worker_work (ws ! i) = sum_list (map worker_work ws) + worker_work w"
    using relay_worker(1)
  proof (induction ws arbitrary: i)
    case (Cons x xs)
    then show ?case by (cases i) simp_all
  qed simp
  with worker_step_work [OF relay_worker(3,2)] show ?case by (simp add: relay_work_def)
next
  case (relay_recorder r s r1 s1 ws)
  from recorder_step_work [OF relay_recorder(2,1)] show ?case by (simp add: relay_work_def)
qed

lemma relay_run_work: "relay_run n c c1 \<Longrightarrow> n + relay_work c1 \<le> relay_work c"
proof (induction rule: relay_run.induct)
  case (run_own n c c1 c2)
  then show ?case using relay_step_work [of c1 c2] by simp
qed (simp_all add: relay_work_def)

lemma relay_goes_on:
  assumes "\<not> relay_finished c"
  shows "\<exists>c1. relay_step c c1"
proof -
  obtain s r ws where c: "c = (s, r, ws)" by (cases c) blast
  show ?thesis
  proof (cases "r = Replayed")
    case True
    then obtain w where "w \<in> set ws" "w \<noteq> Worker_done" using assms by (auto simp: relay_finished_def c)
    then obtain i where "i < length ws" "ws ! i \<noteq> Worker_done" by (auto simp: in_set_conv_nth)
    then show ?thesis unfolding c by (metis relay_step.relay_worker surj_pair)
  next
    case False
    then show ?thesis unfolding c by (metis relay_step.relay_recorder surj_pair)
  qed
qed

text \<open>C37: the threads of an order take at most seven steps for each frame and three for the recorder, and until they have
  all ended one of them can go on: no frame waits for ever.\<close>

theorem relay_ends:
  assumes "relay_run n (relay_start fs) c"
  shows "n \<le> 7 * length fs + 3 \<and> (relay_finished c \<or> (\<exists>c1. relay_step c c1))"
proof -
  have "relay_work (relay_start fs) = 7 * length fs + 3"
    by (induction fs) (simp_all add: relay_work_def relay_start_def)
  with relay_run_work [OF assms] relay_goes_on [of c] show ?thesis by auto
qed

theorem relay_ends_witness:
  "\<exists>c1. relay_step (fold scheduled_step [1, 1, 0, 0, 1] (relay_start [10, 20 :: nat])) c1"
proof -
  obtain n where run: "relay_run n (relay_start [10, 20 :: nat]) (fold scheduled_step [1, 1, 0, 0, 1] (relay_start [10, 20]))"
    using scheduled_run by blast
  have "\<not> relay_finished (fold scheduled_step [1, 1, 0, 0, 1] (relay_start [10, 20 :: nat]))" by code_simp
  then show ?thesis using relay_ends [OF run] by blast
qed

end
