(* ===== verification/StrategyBroker.thy ===== *)
theory StrategyBroker
  imports StrategyDB
begin

text \<open>
  Where a run's orders go (\<open>strategy_module/order_dispatch.py\<close> and \<open>broker_binding.py\<close>): the order a decision
  becomes, the broker and account a Live run is held to, and the one place that sends an order, a
  cancellation or a status read, or refuses to.

  The session that is logged in, the login records and what a broker or the sandbox answers are
  arguments: each read of the session is one of its own, so that a login may come in between.  A call
  that is made answers with the place it went to.  A token and a broker that are there are not empty.
\<close>

subsection \<open>The order\<close>

record sent_order =
  sd_symbol :: string
  sd_exchange :: string
  sd_action :: action
  sd_quantity :: int
  sd_product :: string
  sd_pricetype :: string

definition EXIT_PRICETYPE :: string where
  "EXIT_PRICETYPE = ''MARKET''"

definition DERIVATIVE_EXCHANGES_FOR_PRODUCT :: "string list" where
  "DERIVATIVE_EXCHANGES_FOR_PRODUCT = [''NFO'', ''BFO'', ''MCX'', ''CDS'', ''BCD'', ''NCDEX'', ''NCO'']"

definition product_for_exchange :: "string \<Rightarrow> string \<Rightarrow> string" where
  "product_for_exchange prd exchange =
     (if str_upper prd = ''MIS'' then ''MIS''
      else if str_upper exchange \<in> set DERIVATIVE_EXCHANGES_FOR_PRODUCT then ''NRML'' else ''CNC'')"

definition build_order :: "string \<Rightarrow> string \<Rightarrow> action \<Rightarrow> int \<Rightarrow> string \<Rightarrow> string \<Rightarrow> sent_order" where
  "build_order symbol exchange side quantity prd pricetype =
     \<lparr> sd_symbol = symbol, sd_exchange = exchange, sd_action = side, sd_quantity = quantity,
       sd_product = product_for_exchange prd exchange, sd_pricetype = pricetype \<rparr>"

text \<open>From the leg's own side, never from its configuration.\<close>

definition exit_action :: "action \<Rightarrow> action" where
  "exit_action position = (case position of BUY \<Rightarrow> SELL | SELL \<Rightarrow> BUY)"

subsection \<open>The broker of a run\<close>

record broker_binding =
  bb_broker :: string
  bb_account :: "string option"

record broker_session =
  bs_token :: string
  bs_broker :: string
  bs_account :: "string option"

definition broker_key :: "string \<Rightarrow> string" where
  "broker_key broker = str_lower (strip broker)"

definition account_key :: "string option \<Rightarrow> string" where
  "account_key account = (case account of Some a \<Rightarrow> str_upper (strip a) | None \<Rightarrow> [])"

definition UNBOUND_BROKERS :: "string list" where
  "UNBOUND_BROKERS = [[], ''live'']"

definition binding_known :: "broker_binding \<Rightarrow> bool" where
  "binding_known b \<longleftrightarrow> broker_key (bb_broker b) \<notin> set UNBOUND_BROKERS"

datatype refusal =
    Binding_unknown
  | Other_broker string string
  | Account_unconfirmed string "string option"
  | Other_account string "string option" "string option"

definition binding_refusal :: "broker_binding option \<Rightarrow> string \<Rightarrow> string option \<Rightarrow> refusal option" where
  "binding_refusal binding broker account =
     (case binding of
        None \<Rightarrow> Some Binding_unknown
      | Some b \<Rightarrow>
          if \<not> binding_known b then Some Binding_unknown
          else if broker_key (bb_broker b) \<noteq> broker_key broker then Some (Other_broker (broker_key broker) (broker_key (bb_broker b)))
          else if nonempty (bb_account b) \<and> \<not> nonempty account
          then Some (Account_unconfirmed (broker_key (bb_broker b)) (bb_account b))
          else if nonempty (bb_account b) \<and> account_key (bb_account b) \<noteq> account_key account
          then Some (Other_account (broker_key (bb_broker b)) account (bb_account b))
          else None)"

subsection \<open>Sending\<close>

datatype dispatch_error =
    Session_unavailable
  | Session_refused refusal
  | Id_unavailable
  | Call_failed
  | Answered_no "string option"

datatype venue = Sandbox_venue | Broker_venue string string

text \<open>What a pipe answers: success, order id, message; nothing when it raised.\<close>

type_synonym pipe_answer = "(bool \<times> string option \<times> string option) option"

record dispatch_result =
  dr_ok :: bool
  dr_broker_id :: "string option"
  dr_error :: "dispatch_error option"

definition resolve_live_auth :: "broker_session option \<Rightarrow> (string \<times> string) option" where
  "resolve_live_auth session = map_option (\<lambda>s. (bs_token s, bs_broker s)) session"

definition resolve_session :: "broker_session option \<Rightarrow> (string \<times> string \<times> string option) option" where
  "resolve_session session = map_option (\<lambda>s. (bs_token s, bs_broker s, bs_account s)) session"

text \<open>The token and broker to call with.  The account is read, with them, only for a run held to one.\<close>

definition resolve_bound_auth :: "broker_session option \<Rightarrow> broker_binding option \<Rightarrow> dispatch_error + string \<times> string" where
  "resolve_bound_auth session binding =
     (let read = (if (case binding of Some b \<Rightarrow> nonempty (bb_account b) | None \<Rightarrow> False) then resolve_session session
                  else map_option (\<lambda>(token, broker). (token, broker, None)) (resolve_live_auth session))
      in case read of
           None \<Rightarrow> Inl Session_unavailable
         | Some (token, broker, account) \<Rightarrow>
             (case binding_refusal binding broker account of
                Some r \<Rightarrow> Inl (Session_refused r)
              | None \<Rightarrow> Inr (token, broker)))"

definition refused_result :: "string option \<Rightarrow> dispatch_error \<Rightarrow> dispatch_result" where
  "refused_result bid e = \<lparr>dr_ok = False, dr_broker_id = bid, dr_error = Some e\<rparr>"

definition normalise_answer :: "pipe_answer \<Rightarrow> dispatch_result" where
  "normalise_answer a =
     (case a of
        None \<Rightarrow> refused_result None Call_failed
      | Some (ok, bid, msg) \<Rightarrow>
          if ok then \<lparr>dr_ok = True, dr_broker_id = bid, dr_error = None\<rparr> else refused_result bid (Answered_no msg))"

definition dispatch_order ::
    "run_mode \<Rightarrow> broker_session option \<Rightarrow> broker_binding option \<Rightarrow> (venue \<Rightarrow> sent_order \<Rightarrow> pipe_answer) \<Rightarrow> sent_order
     \<Rightarrow> dispatch_result \<times> venue option" where
  "dispatch_order mode session binding place ord =
     (case mode of
        Sandbox_run \<Rightarrow> (normalise_answer (place Sandbox_venue ord), Some Sandbox_venue)
      | Live_run \<Rightarrow>
          (case resolve_bound_auth session binding of
             Inl e \<Rightarrow> (refused_result None e, None)
           | Inr (token, broker) \<Rightarrow> (normalise_answer (place (Broker_venue token broker) ord), Some (Broker_venue token broker))))"

definition or_id :: "string option \<Rightarrow> string \<Rightarrow> string option" where
  "or_id bid broker_order_id = (if nonempty bid then bid else Some broker_order_id)"

text \<open>The broker's module for cancellations may be missing.\<close>

definition cancel_strategy_order ::
    "run_mode \<Rightarrow> broker_session option \<Rightarrow> broker_binding option \<Rightarrow> (string \<Rightarrow> bool) \<Rightarrow> (venue \<Rightarrow> string \<Rightarrow> pipe_answer) \<Rightarrow> string
     \<Rightarrow> dispatch_result \<times> venue option" where
  "cancel_strategy_order mode session binding has_module cancel bid =
     (if bid = [] then (refused_result None Id_unavailable, None)
      else case mode of
        Sandbox_run \<Rightarrow>
          (let r = normalise_answer (cancel Sandbox_venue bid) in (r\<lparr>dr_broker_id := or_id (dr_broker_id r) bid\<rparr>, Some Sandbox_venue))
      | Live_run \<Rightarrow>
          (case resolve_bound_auth session binding of
             Inl e \<Rightarrow> (refused_result (Some bid) e, None)
           | Inr (token, broker) \<Rightarrow>
               if \<not> has_module broker then (refused_result (Some bid) Call_failed, None)
               else ((normalise_answer (cancel (Broker_venue token broker) bid))\<lparr>dr_broker_id := Some bid\<rparr>,
                     Some (Broker_venue token broker))))"

definition fetch_order_status ::
    "run_mode \<Rightarrow> broker_session option \<Rightarrow> broker_binding option \<Rightarrow> (venue \<Rightarrow> string \<Rightarrow> 'f option) \<Rightarrow> string
     \<Rightarrow> 'f option \<times> venue option" where
  "fetch_order_status mode session binding status bid =
     (if bid = [] then (None, None)
      else case mode of
        Sandbox_run \<Rightarrow> (status Sandbox_venue bid, Some Sandbox_venue)
      | Live_run \<Rightarrow>
          (case resolve_bound_auth session binding of
             Inl e \<Rightarrow> (None, None)
           | Inr (token, broker) \<Rightarrow> (status (Broker_venue token broker) bid, Some (Broker_venue token broker))))"

subsection \<open>Reading and making the binding\<close>

definition first_dispatched_at :: "nat \<Rightarrow> sm_db \<Rightarrow> time option" where
  "first_dispatched_at rid db =
     (case map so_placed_at (filter (\<lambda>r. so_run r = rid \<and> nonempty (so_broker_id r)) (sm_orders db)) of
        [] \<Rightarrow> None | t # ts \<Rightarrow> Some (fold min ts t))"

definition run_binding :: "sm_run \<Rightarrow> broker_binding" where
  "run_binding r = \<lparr>bb_broker = sr_broker r, bb_account = sr_account r\<rparr>"

text \<open>
  A run that has sent nothing is bound to the session that is there, an older one to the broker logged in
  at its first order.  The broker and the account of the session are two reads; \<open>env\<close> is what others
  commit before the binding is written.
\<close>

definition read_binding ::
    "(time \<Rightarrow> string option) \<Rightarrow> broker_session option \<Rightarrow> string option \<Rightarrow> (sm_db \<Rightarrow> sm_db) \<Rightarrow> bool \<Rightarrow> nat \<Rightarrow> sm_db
     \<Rightarrow> (run_mode \<times> broker_binding) option \<times> sm_db" where
  "read_binding logged_in_at session account env bind rid db =
     (case find_run rid db of
        None \<Rightarrow> (None, db)
      | Some run \<Rightarrow>
          (let keep = (Some (sr_mode run, run_binding run), db);
               read_back = (\<lambda>db1. (map_option (\<lambda>r. (sr_mode run, run_binding r)) (find_run rid db1), db1))
           in if sr_mode run \<noteq> Live_run \<or> binding_known (run_binding run) then keep
              else case first_dispatched_at rid db of
                Some t \<Rightarrow>
                  (case logged_in_at t of
                     None \<Rightarrow> keep
                   | Some broker \<Rightarrow> if broker = [] then keep else read_back (snd (bind_run_broker rid broker None (env db))))
              | None \<Rightarrow>
                  if \<not> bind then keep
                  else (case resolve_live_auth session of
                    None \<Rightarrow> keep
                  | Some (token, broker) \<Rightarrow>
                      if broker = [] then keep else read_back (snd (bind_run_broker rid broker account (env db))))))"

definition binding_for_run ::
    "(time \<Rightarrow> string option) \<Rightarrow> broker_session option \<Rightarrow> string option \<Rightarrow> (sm_db \<Rightarrow> sm_db) \<Rightarrow> nat \<Rightarrow> sm_db
     \<Rightarrow> broker_binding option \<times> sm_db" where
  "binding_for_run logged_in_at session account env rid db =
     (case read_binding logged_in_at session account env True rid db of (read, db1) \<Rightarrow> (map_option snd read, db1))"

definition refusal_for_run ::
    "(time \<Rightarrow> string option) \<Rightarrow> broker_session option \<Rightarrow> (sm_db \<Rightarrow> sm_db) \<Rightarrow> nat \<Rightarrow> sm_db \<Rightarrow> refusal option \<times> sm_db" where
  "refusal_for_run logged_in_at session env rid db =
     (case read_binding logged_in_at session None env False rid db of
        (read, db1) \<Rightarrow>
          (case read of
             None \<Rightarrow> None
           | Some (mode, b) \<Rightarrow>
               if mode \<noteq> Live_run \<or> \<not> binding_known b \<and> first_dispatched_at rid db1 = None then None
               else if nonempty (bb_account b) then
                 (case resolve_session session of
                    None \<Rightarrow> None | Some (token, broker, account) \<Rightarrow> binding_refusal (Some b) broker account)
               else (case resolve_live_auth session of
                    None \<Rightarrow> None | Some (token, broker) \<Rightarrow> binding_refusal (Some b) broker None), db1))"

text \<open>\<open>engine._binding_for\<close>\<close>

definition binding_for ::
    "(time \<Rightarrow> string option) \<Rightarrow> broker_session option \<Rightarrow> string option \<Rightarrow> (sm_db \<Rightarrow> sm_db) \<Rightarrow> nat \<Rightarrow> run_mode \<Rightarrow> sm_db
     \<Rightarrow> broker_binding option \<times> sm_db" where
  "binding_for logged_in_at session account env rid mode db =
     (if mode \<noteq> Live_run then (None, db) else binding_for_run logged_in_at session account env rid db)"

end
