(* ===== verification/StrategyExit.thy ===== *)
theory StrategyExit
  imports StrategyFill StrategyBroker
begin

text \<open>
  Getting out (\<open>engine._exit_legs\<close>, \<open>stop_run\<close>, \<open>close_leg\<close>): legs are claimed, each exit is recorded, bound to
  its row, sent and acknowledged, and a claim whose order was refused is let go; a stop is recorded first,
  asks what can still be reached, exits what is held and finishes the run only when nothing is.

  What is not code of the engine is an argument, a field of \<open>exit_env\<close>: the sessions that are logged in, the
  answers of the pipes, database errors of the two writes whose failure the engine handles, and what
  other threads do before an exit is bound, while it is sent and when frames held for it are replayed.
  Tokens are given with the legs.  Audit rows are the events answered.
\<close>

subsection \<open>What is exited\<close>

record exit_target =
  xt_leg :: string
  xt_owner :: exit_owner
  xt_position :: action
  xt_symbol :: string
  xt_exchange :: string
  xt_qty :: int
  xt_ref :: "string option"
  xt_token :: "string option"

definition live_target :: "leg \<Rightarrow> exit_target" where
  "live_target l =
     \<lparr> xt_leg = lg_id l, xt_owner = Live_owner, xt_position = lg_position l, xt_symbol = lg_symbol l,
       xt_exchange = lg_exchange l, xt_qty = lg_qty l, xt_ref = lg_position_ref l, xt_token = lg_exit_claim_token l \<rparr>"

definition outgoing_target :: "leg \<Rightarrow> outgoing \<Rightarrow> exit_target" where
  "outgoing_target l og =
     \<lparr> xt_leg = lg_id l, xt_owner = Superseded_owner, xt_position = og_position og, xt_symbol = lg_symbol l,
       xt_exchange = lg_exchange l, xt_qty = og_qty og, xt_ref = og_position_ref og, xt_token = og_exit_claim_token og \<rparr>"

text \<open>The outgoing positions of flips, claimed leg by leg.\<close>

primrec outgoing_targets :: "(string \<times> string) list \<Rightarrow> run_state \<Rightarrow> exit_target list \<times> run_state" where
  "outgoing_targets [] s = ([], s)"
| "outgoing_targets (x # xs) s =
     (case find_leg (fst x) s of
        None \<Rightarrow> outgoing_targets xs s
      | Some l \<Rightarrow>
          (case lg_superseded l of
             None \<Rightarrow> outgoing_targets xs s
           | Some og \<Rightarrow>
               (case claim_superseded_exit (snd x) (fst x) (og_position og) s of
                  (claimed, s1) \<Rightarrow>
                    (case outgoing_targets xs s1 of
                       (ts, s2) \<Rightarrow>
                         ((case claimed of None \<Rightarrow> [] | Some og1 \<Rightarrow> [outgoing_target l og1]) @ ts, s2)))))"

subsection \<open>One exit order\<close>

record exit_env =
  xe_leg_number :: "string \<Rightarrow> nat"
  xe_logins :: "time \<Rightarrow> string option"
  xe_session :: "broker_session option"
  xe_account :: "string option"
  xe_session_for :: "exit_target \<Rightarrow> broker_session option"
  xe_place :: "venue \<Rightarrow> sent_order \<Rightarrow> pipe_answer"
  xe_text :: "dispatch_error \<Rightarrow> string"
  xe_recorded :: "exit_target \<Rightarrow> bool"
  xe_acked :: "exit_target \<Rightarrow> bool"
  xe_before :: "exit_target \<Rightarrow> engine_state \<Rightarrow> engine_state"
  xe_during :: "exit_target \<Rightarrow> engine_state \<Rightarrow> engine_state"
  xe_replay :: "string option \<Rightarrow> engine_state \<Rightarrow> engine_state"

datatype exit_error = Entry_unfilled | Position_changed exit_owner | Not_sent dispatch_error

record exit_outcome =
  xo_leg :: string
  xo_owner :: exit_owner
  xo_ref :: "string option"
  xo_error :: "exit_error option"
  xo_sent :: "(venue \<times> sent_order) option"

definition xo_ok :: "exit_outcome \<Rightarrow> bool" where
  "xo_ok x \<longleftrightarrow> xo_error x = None"

datatype exit_event =
    Exit_unrecorded string
  | Exit_claim_changed string exit_owner
  | Ack_unrecorded nat
  | Outgoing_exit_refused string
  | Exit_placed string string
  | Exit_refused string dispatch_error
  | Close_requested string

text \<open>The row that is written before the order is sent.\<close>

definition exit_row :: "exit_env \<Rightarrow> time \<Rightarrow> nat \<Rightarrow> string \<Rightarrow> exit_target \<Rightarrow> sm_order" where
  "exit_row env now rid kind t =
     \<lparr> so_id = 0, so_run = rid, so_leg = xe_leg_number env (xt_leg t), so_kind = Exit kind, so_position_ref = xt_ref t,
       so_broker_id = None, so_action = exit_action (xt_position t), so_qty = xt_qty t, so_status = So_pending,
       so_placed_at = now, so_filled_at = None, so_avg_price = None, so_filled_qty = None, so_reject_reason = None \<rparr>"

definition bind_exit :: "nat \<Rightarrow> exit_target \<Rightarrow> nat \<Rightarrow> run_registry \<Rightarrow> bool \<times> run_registry" where
  "bind_exit rid t row =
     on_run rid False
       (case xt_owner t of
          Superseded_owner \<Rightarrow> bind_superseded_exit (xt_leg t) (xt_token t) row
        | Live_owner \<Rightarrow> bind_live_exit (xt_leg t) (xt_token t) row (xt_ref t))"

definition release_exit :: "nat \<Rightarrow> exit_target \<Rightarrow> claim_ref option \<Rightarrow> run_registry \<Rightarrow> bool \<times> run_registry" where
  "release_exit rid t claim =
     on_run rid False
       (case xt_owner t of
          Superseded_owner \<Rightarrow> release_superseded_exit (xt_leg t) claim
        | Live_owner \<Rightarrow> release_leg_exit (xt_leg t) claim)"

text \<open>What the broker answered, on the row; when that cannot be written it is kept in an event.\<close>

definition record_acknowledgement ::
    "exit_env \<Rightarrow> time \<Rightarrow> bool \<Rightarrow> nat \<Rightarrow> dispatch_result \<Rightarrow> sm_db \<Rightarrow> exit_event list \<times> sm_db" where
  "record_acknowledgement env now saved row r db =
     (if saved then
        ([], snd (update_sm_order now row (Some (if dr_ok r then So_open else So_rejected)) (dr_broker_id r) None None
                    (if dr_ok r then None else map_option (xe_text env) (dr_error r)) db))
      else ([Ack_unrecorded row], db))"

definition target_outcome :: "exit_target \<Rightarrow> exit_error option \<Rightarrow> (venue \<times> sent_order) option \<Rightarrow> exit_outcome" where
  "target_outcome t e sent = \<lparr>xo_leg = xt_leg t, xo_owner = xt_owner t, xo_ref = xt_ref t, xo_error = e, xo_sent = sent\<rparr>"

text \<open>Sending an exit whose claim is held, under its token or its row.\<close>

definition send_exit ::
    "exit_env \<Rightarrow> time \<Rightarrow> nat \<Rightarrow> run_mode \<Rightarrow> broker_binding option \<Rightarrow> string \<Rightarrow> string \<Rightarrow> exit_target \<Rightarrow> nat option \<Rightarrow> engine_state
     \<Rightarrow> (exit_outcome \<times> exit_event list) \<times> engine_state" where
  "send_exit env now rid mode binding kind prd t row es =
     (let ord = build_order (xt_symbol t) (xt_exchange t) (exit_action (xt_position t)) (xt_qty t) prd EXIT_PRICETYPE;
          claim = (case row of Some n \<Rightarrow> Some (Row n) | None \<Rightarrow> map_option Token (xt_token t));
          (r, v) = dispatch_order mode (xe_session_for env t) binding (xe_place env) ord;
          (runs1, db1) = xe_during env t es;
          (acks, db2) = (case row of Some n \<Rightarrow> record_acknowledgement env now (xe_acked env t) n r db1 | None \<Rightarrow> ([], db1));
          (released, runs2) = (if dr_ok r then (False, runs1) else release_exit rid t claim runs1);
          flip_event = (if released \<and> xt_owner t = Superseded_owner then [Outgoing_exit_refused (xt_leg t)] else []);
          said = (case dr_error r of Some e \<Rightarrow> Exit_refused (xt_leg t) e | None \<Rightarrow> Exit_placed (xt_leg t) kind);
          es1 = (if dr_ok r \<and> row \<noteq> None then xe_replay env (dr_broker_id r) (runs2, db2) else (runs2, db2))
      in ((target_outcome t (map_option Not_sent (dr_error r)) (map_option (\<lambda>v. (v, ord)) v), acks @ flip_event @ [said]), es1))"

definition claim_changed_text :: "exit_owner \<Rightarrow> string" where
  "claim_changed_text ow =
     (case ow of Superseded_owner \<Rightarrow> ''Outgoing position exit claim changed before dispatch''
      | Live_owner \<Rightarrow> ''Live position exit claim changed before dispatch'')"

text \<open>
  The row first, then the binding.  An exit that cannot be recorded is sent all the same; one whose claim
  has changed meanwhile is not.
\<close>

definition exit_one ::
    "exit_env \<Rightarrow> time \<Rightarrow> nat \<Rightarrow> run_mode \<Rightarrow> broker_binding option \<Rightarrow> string \<Rightarrow> string \<Rightarrow> exit_target \<Rightarrow> engine_state
     \<Rightarrow> (exit_outcome \<times> exit_event list) \<times> engine_state" where
  "exit_one env now rid mode binding kind prd t es =
     (if \<not> xe_recorded env t then
        (case send_exit env now rid mode binding kind prd t None (xe_before env t es) of
           ((x, evs), es1) \<Rightarrow> ((x, Exit_unrecorded (xt_leg t) # evs), es1))
      else
        (case record_sm_order (exit_row env now rid kind t) (snd es) of
           (n, db1) \<Rightarrow>
             (case xe_before env t (fst es, db1) of
                (runs1, db2) \<Rightarrow>
                  (case bind_exit rid t n runs1 of
                     (bound, runs2) \<Rightarrow>
                       if bound then send_exit env now rid mode binding kind prd t (Some n) (runs2, db2)
                       else ((target_outcome t (Some (Position_changed (xt_owner t))) None, [Exit_claim_changed (xt_leg t) (xt_owner t)]),
                             (snd (release_exit rid t (map_option Token (xt_token t)) runs2),
                              snd (update_sm_order now n (Some So_rejected) None None None (Some (claim_changed_text (xt_owner t))) db2)))))))"

primrec exit_targets ::
    "exit_env \<Rightarrow> time \<Rightarrow> nat \<Rightarrow> run_mode \<Rightarrow> broker_binding option \<Rightarrow> string \<Rightarrow> string \<Rightarrow> exit_target list \<Rightarrow> engine_state
     \<Rightarrow> (exit_outcome list \<times> exit_event list) \<times> engine_state" where
  "exit_targets env now rid mode binding kind prd [] es = (([], []), es)"
| "exit_targets env now rid mode binding kind prd (t # ts) es =
     (case exit_one env now rid mode binding kind prd t es of
        ((x, evs), es1) \<Rightarrow>
          (case exit_targets env now rid mode binding kind prd ts es1 of
             ((xs, more_evs), es2) \<Rightarrow> ((x # xs, evs @ more_evs), es2)))"

definition unfilled_outcome :: "leg \<Rightarrow> exit_outcome" where
  "unfilled_outcome l =
     \<lparr>xo_leg = lg_id l, xo_owner = Live_owner, xo_ref = lg_position_ref l, xo_error = Some Entry_unfilled, xo_sent = None\<rparr>"

text \<open>Each leg comes with a token for its live position and one for its outgoing one.\<close>

definition exit_legs ::
    "exit_env \<Rightarrow> time \<Rightarrow> nat \<Rightarrow> run_mode \<Rightarrow> string \<Rightarrow> string \<Rightarrow> (string \<times> string \<times> string) list \<Rightarrow> engine_state
     \<Rightarrow> (exit_outcome list \<times> exit_event list) \<times> engine_state" where
  "exit_legs env now rid mode kind prd lids es =
     (case es of (runs, db) \<Rightarrow>
       (let ((claimed, unfilled), runs1) =
              on_run rid ([], []) (claim_legs_for_exit (map (\<lambda>(l, live, old). (l, live)) lids) kind) runs;
            (outs, runs2) = on_run rid [] (outgoing_targets (map (\<lambda>(l, live, old). (l, old)) lids)) runs1;
            targets = map live_target claimed @ outs;
            (binding, db1) =
              (if targets = [] then (None, db)
               else binding_for (xe_logins env) (xe_session env) (xe_account env) id rid mode db)
        in case exit_targets env now rid mode binding kind prd targets (runs2, db1) of
             ((xs, evs), es1) \<Rightarrow> ((xs @ map unfilled_outcome unfilled, evs), es1)))"

subsection \<open>Reconciling what is at the broker\<close>

text \<open>Accepted orders that are still working, in the order they were placed.\<close>

definition working_orders :: "bool \<Rightarrow> nat \<Rightarrow> sm_db \<Rightarrow> string list" where
  "working_orders entries rid db =
     map (\<lambda>r. the (so_broker_id r))
       (sort_key so_placed_at
          (filter (\<lambda>r. so_run r = rid \<and> (so_kind r = Entry \<longleftrightarrow> entries) \<and> so_status r \<in> {So_pending, So_open} \<and> nonempty (so_broker_id r))
             (sm_orders db)))"

record 'f stop_env =
  se_has_key :: bool
  se_strategy_user :: string
  se_acks :: "engine_state \<Rightarrow> bool \<times> engine_state"
  se_race :: "sm_db \<Rightarrow> sm_db"
  se_session_at :: "string \<Rightarrow> broker_session option"
  se_cancel :: "venue \<Rightarrow> string \<Rightarrow> pipe_answer"
  se_has_module :: "string \<Rightarrow> bool"
  se_status :: "venue \<Rightarrow> string \<Rightarrow> 'f option"
  se_snapshot :: "string \<Rightarrow> 'f \<Rightarrow> engine_state \<Rightarrow> engine_state"
  se_cancelled :: "string \<Rightarrow> dispatch_result \<Rightarrow> engine_state \<Rightarrow> engine_state"

definition read_order_fact ::
    "'f stop_env \<Rightarrow> run_mode \<Rightarrow> broker_binding option \<Rightarrow> string \<Rightarrow> engine_state \<Rightarrow> engine_state" where
  "read_order_fact sv mode binding bid es =
     (case fst (fetch_order_status mode (se_session_at sv bid) binding (se_status sv) bid) of
        Some f \<Rightarrow> se_snapshot sv bid f es
      | None \<Rightarrow> es)"

definition reconcile_working_exits :: "'f stop_env \<Rightarrow> nat \<Rightarrow> run_mode \<Rightarrow> broker_binding option \<Rightarrow> engine_state \<Rightarrow> engine_state" where
  "reconcile_working_exits sv rid mode binding es =
     fold (read_order_fact sv mode binding) (working_orders False rid (snd es)) es"

text \<open>A cancellation is only asked for; whether the entry is dead is what its status says.\<close>

definition cancel_working_entry ::
    "'f stop_env \<Rightarrow> run_mode \<Rightarrow> broker_binding option \<Rightarrow> string \<Rightarrow> engine_state \<Rightarrow> engine_state" where
  "cancel_working_entry sv mode binding bid es =
     read_order_fact sv mode binding bid
       (se_cancelled sv bid
          (fst (cancel_strategy_order mode (se_session_at sv bid) binding (se_has_module sv) (se_cancel sv) bid)) es)"

definition cancel_and_reconcile_working_entries ::
    "'f stop_env \<Rightarrow> nat \<Rightarrow> run_mode \<Rightarrow> broker_binding option \<Rightarrow> engine_state \<Rightarrow> engine_state" where
  "cancel_and_reconcile_working_entries sv rid mode binding es =
     fold (cancel_working_entry sv mode binding) (working_orders True rid (snd es)) es"

subsection \<open>Stopping a run\<close>

definition ORDER_KINDS :: "string list" where
  "ORDER_KINDS =
     [''entry'', ''exit_sl'', ''exit_target'', ''exit_trail'', ''exit_overall_sl'', ''exit_overall_target'', ''exit_lock_profit'',
      ''exit_eod'', ''exit_expiry'', ''exit_daily_loss_limit'', ''exit_close_all'', ''exit_leg_manual'', ''exit_recovery'',
      ''exit_signal'']"

definition stop_exit_kind :: "string \<Rightarrow> string" where
  "stop_exit_kind reason =
     (let kind = (if reason = ''manual'' then ''exit_close_all'' else ''exit_'' @ reason)
      in if kind \<in> set ORDER_KINDS then kind else ''exit_close_all'')"

datatype stop_problem =
    Acks_unresolved | State_unavailable | No_api_key | Session_elsewhere refusal | Exits_refused | Finish_failed | Still_held

datatype stop_answer =
    Run_not_active
  | Strategy_not_found
  | Stop_not_persisted
  | Stop_pending stop_problem "exit_outcome list"
  | Run_stopped "exit_outcome list"

datatype stop_event = Stop_requested | Stop_failed stop_problem | Recovered | Of_exit exit_event

definition run_closed :: "nat \<Rightarrow> sm_db \<Rightarrow> bool" where
  "run_closed rid db \<longleftrightarrow> (case find_run rid db of Some r \<Rightarrow> sr_stopped_at r \<noteq> None | None \<Rightarrow> False)"

definition persisted_reason :: "nat \<Rightarrow> string \<Rightarrow> sm_db \<Rightarrow> string" where
  "persisted_reason rid reason db =
     (case find_run rid db of
        None \<Rightarrow> reason
      | Some r \<Rightarrow> (case sr_stop_requested_reason r of Some q \<Rightarrow> if q \<noteq> [] then q else reason | None \<Rightarrow> reason))"

text \<open>Finishing a run that holds nothing; a run that was finished is no longer noted as unable to act.\<close>

definition finish_stop ::
    "time \<Rightarrow> nat \<Rightarrow> nat \<Rightarrow> string \<Rightarrow> exit_outcome list \<Rightarrow> engine_state \<times> nat set \<Rightarrow> stop_answer \<times> engine_state \<times> nat set" where
  "finish_stop now rid sid reason exits st =
     (case st of (es, noted) \<Rightarrow>
        (case finalise now rid sid (persisted_reason rid reason (snd es)) es of
           (ok, es1) \<Rightarrow> if ok then (Run_stopped exits, es1, noted - {rid}) else (Stop_pending Finish_failed exits, es1, noted)))"

text \<open>A run that cannot be reached: finished if it holds nothing, else said once.\<close>

definition stop_unreachable ::
    "time \<Rightarrow> nat \<Rightarrow> nat \<Rightarrow> string \<Rightarrow> bool \<Rightarrow> stop_problem \<Rightarrow> engine_state \<times> nat set
     \<Rightarrow> (stop_answer \<times> stop_event list) \<times> engine_state \<times> nat set" where
  "stop_unreachable now rid sid reason held problem st =
     (if \<not> held then (case finish_stop now rid sid reason [] st of (a, st1) \<Rightarrow> ((a, []), st1))
      else (case st of (es, noted) \<Rightarrow>
              ((Stop_pending problem [], if rid \<in> noted then [] else [Stop_failed problem]), es, insert rid noted)))"

text \<open>The last part of a stop, after its exits were sent.\<close>

definition conclude_stop ::
    "time \<Rightarrow> nat \<Rightarrow> nat \<Rightarrow> string \<Rightarrow> exit_outcome list \<Rightarrow> engine_state \<times> nat set
     \<Rightarrow> (stop_answer \<times> stop_event list) \<times> engine_state \<times> nat set" where
  "conclude_stop now rid sid reason exits st =
     (case st of ((runs, db), noted) \<Rightarrow>
        if run_closed rid db then ((Run_stopped exits, []), st)
        else case runs rid of
          None \<Rightarrow> ((Stop_pending State_unavailable exits, [Stop_failed State_unavailable]), st)
        | Some s \<Rightarrow>
            if run_requires_management s then
              (if \<exists>x\<in>set exits. \<not> xo_ok x then ((Stop_pending Exits_refused exits, [Stop_failed Exits_refused]), st)
               else ((Stop_pending Still_held exits, []), st))
            else (case finish_stop now rid sid reason exits st of (a, st1) \<Rightarrow> ((a, []), st1)))"

text \<open>The exits of a stop, once its broker can be reached.\<close>

definition stop_exits ::
    "exit_env \<Rightarrow> 'f stop_env \<Rightarrow> (string \<Rightarrow> string \<times> string) \<Rightarrow> time \<Rightarrow> nat \<Rightarrow> nat \<Rightarrow> run_mode \<Rightarrow> string \<Rightarrow> string \<Rightarrow> engine_state \<times> nat set
     \<Rightarrow> (stop_answer \<times> stop_event list) \<times> engine_state \<times> nat set" where
  "stop_exits env sv tokens now rid sid mode prd reason st =
     (case st of ((runs, db), noted) \<Rightarrow>
       (let back = (if rid \<in> noted then [Recovered] else []);
            noted1 = noted - {rid};
            (binding, db1) = binding_for (xe_logins env) (xe_session env) (xe_account env) id rid mode db;
            es1 = cancel_and_reconcile_working_entries sv rid mode binding (reconcile_working_exits sv rid mode binding (runs, db1))
        in if run_closed rid (snd es1) then ((Run_stopped [], back), es1, noted1)
           else case fst es1 rid of
             None \<Rightarrow> ((Stop_pending State_unavailable [], back), es1, noted1)
           | Some s \<Rightarrow>
               (case exit_legs env now rid mode (stop_exit_kind reason) prd
                       (map (\<lambda>l. (l, tokens l)) (managed_leg_ids s)) es1 of
                  ((exits, evs), es2) \<Rightarrow>
                    (case conclude_stop now rid sid reason exits (es2, noted1) of
                       ((a, last_evs), st2) \<Rightarrow> ((a, back @ map Of_exit evs @ last_evs), st2)))))"

text \<open>A stop of a run whose live state is there: is the run's broker within reach?\<close>

definition stop_live ::
    "exit_env \<Rightarrow> 'f stop_env \<Rightarrow> (string \<Rightarrow> string \<times> string) \<Rightarrow> time \<Rightarrow> string \<Rightarrow> nat \<Rightarrow> sm_run \<Rightarrow> string \<Rightarrow> run_state \<Rightarrow> engine_state \<times> nat set
     \<Rightarrow> (stop_answer \<times> stop_event list) \<times> engine_state \<times> nat set" where
  "stop_live env sv tokens now prd rid run reason s st =
     (let held = run_requires_management s; sid = sr_strategy run in
      if \<not> se_has_key sv then stop_unreachable now rid sid reason held No_api_key st
      else if sr_mode run \<noteq> Live_run then stop_exits env sv tokens now rid sid (sr_mode run) prd reason st
      else (case st of ((runs, db), noted) \<Rightarrow>
              (case refusal_for_run (xe_logins env) (xe_session env) (se_race sv) rid db of
                 (Some r, db1) \<Rightarrow> stop_unreachable now rid sid reason held (Session_elsewhere r) ((runs, db1), noted)
               | (None, db1) \<Rightarrow> stop_exits env sv tokens now rid sid (sr_mode run) prd reason ((runs, db1), noted))))"

definition stop_run ::
    "exit_env \<Rightarrow> 'f stop_env \<Rightarrow> (string \<Rightarrow> string \<times> string) \<Rightarrow> time \<Rightarrow> string \<Rightarrow> nat \<Rightarrow> string \<Rightarrow> engine_state \<times> nat set
     \<Rightarrow> (stop_answer \<times> stop_event list) \<times> engine_state \<times> nat set" where
  "stop_run env sv tokens now prd rid asked st =
     (case st of ((runs, db), noted) \<Rightarrow>
        case find_run rid db of
          None \<Rightarrow> ((Run_not_active, []), st)
        | Some run \<Rightarrow>
            if sr_stopped_at run \<noteq> None then ((Run_not_active, []), st)
            else if \<not> (\<exists>x\<in>set (sm_strategies db). st_id x = sr_strategy run \<and> st_user x = se_strategy_user sv)
            then ((Strategy_not_found, []), st)
            else
              (case record_run_stop_request now rid asked db of
                 (recorded, db1) \<Rightarrow>
                   if recorded = Not_recorded then ((Stop_not_persisted, []), ((runs, db1), noted))
                   else
                     (let reason = persisted_reason rid asked db1;
                          requested = (if recorded = New_request then [Stop_requested] else [])
                      in case se_acks sv (snd (on_run rid False mark_stopping runs), db1) of
                           (unresolved, es1) \<Rightarrow>
                             if unresolved then
                               ((Stop_pending Acks_unresolved [], requested @ [Stop_failed Acks_unresolved]), (es1, noted))
                             else case fst es1 rid of
                               None \<Rightarrow> ((Stop_pending State_unavailable [], requested @ [Stop_failed State_unavailable]), (es1, noted))
                             | Some s \<Rightarrow>
                                 (case stop_live env sv tokens now prd rid run reason s (es1, noted) of
                                    ((a, evs), st1) \<Rightarrow> ((a, requested @ evs), st1)))))"

text \<open>Going on with a stop that is pending (\<open>engine.reconcile_pending_stop\<close>), in the name of the strategy's owner.\<close>

definition reconcile_pending_stop ::
    "exit_env \<Rightarrow> 'f stop_env \<Rightarrow> (string \<Rightarrow> string \<times> string) \<Rightarrow> time \<Rightarrow> string \<Rightarrow> nat \<Rightarrow> engine_state \<times> nat set
     \<Rightarrow> (stop_answer \<times> stop_event list) option \<times> engine_state \<times> nat set" where
  "reconcile_pending_stop env sv tokens now prd rid st =
     (case find_run rid (snd (fst st)) of
        None \<Rightarrow> (None, st)
      | Some run \<Rightarrow>
          (case sr_stop_requested_reason run of
             None \<Rightarrow> (None, st)
           | Some reason \<Rightarrow>
               if sr_stopped_at run \<noteq> None then (None, st)
               else case find (\<lambda>x. st_id x = sr_strategy run) (sm_strategies (snd (fst st))) of
                 None \<Rightarrow> (Some (Strategy_not_found, []), st)
               | Some x \<Rightarrow>
                   (case stop_run env (sv\<lparr>se_strategy_user := st_user x\<rparr>) tokens now prd rid (if reason = [] then ''manual'' else reason) st of
                      (a, st1) \<Rightarrow> (Some a, st1))))"

subsection \<open>Closing one leg\<close>

datatype close_answer =
    Close_not_active | Close_no_strategy | Close_no_key | Leg_not_open
  | Close_refused "exit_outcome list"
  | Leg_closing "exit_outcome list" bool

definition close_leg ::
    "exit_env \<Rightarrow> string \<Rightarrow> bool \<Rightarrow> (string \<times> string) \<Rightarrow> time \<Rightarrow> string \<Rightarrow> nat \<Rightarrow> string \<Rightarrow> engine_state \<times> nat set
     \<Rightarrow> (close_answer \<times> exit_event list) \<times> engine_state \<times> nat set" where
  "close_leg env user has_key tokens now prd rid lid st =
     (case st of ((runs, db), noted) \<Rightarrow>
        case find_run rid db of
          None \<Rightarrow> ((Close_not_active, []), st)
        | Some run \<Rightarrow>
            if sr_stopped_at run \<noteq> None then ((Close_not_active, []), st)
            else if \<not> (\<exists>x\<in>set (sm_strategies db). st_id x = sr_strategy run \<and> st_user x = user) then ((Close_no_strategy, []), st)
            else if \<not> has_key then ((Close_no_key, []), st)
            else
              (case exit_legs env now rid (sr_mode run) ''exit_leg_manual'' prd [(lid, tokens)] (runs, db) of
                 ((exits, evs), es1) \<Rightarrow>
                   if exits = [] then ((Leg_not_open, evs), (es1, noted))
                   else if \<exists>x\<in>set exits. \<not> xo_ok x then ((Close_refused exits, evs), (es1, noted))
                   else if (case fst es1 rid of Some s \<Rightarrow> open_legs s \<noteq> [] | None \<Rightarrow> False)
                   then ((Leg_closing exits False, evs @ [Close_requested lid]), (es1, noted))
                   else (case finalise now rid (sr_strategy run) ''manual'' es1 of
                           (finished, es2) \<Rightarrow>
                             ((Leg_closing exits True, evs @ [Close_requested lid]), (es2, if finished then noted - {rid} else noted)))))"

end
