(* ===== verification/StrategyTick.thy ===== *)
theory StrategyTick
  imports StrategyExit
begin

text \<open>
  The tick of a strategy run (\<open>engine._process_tick_for_run\<close>): under the run's lock every open leg of the
  instrument is evaluated, stops may move to entry, the run's combined limits and the day's loss are
  judged; then what was decided is carried out, or refused while the run's broker cannot be reached.

  The exits and the stop are those of the theory of exits, with its environment; the risk columns of the
  strategies and what a strategy banked in earlier runs of the session are arguments.  The set beside the
  engine's state holds the runs on record as unable to act (\<open>engine._unactionable_runs\<close>).
\<close>

definition exit_kind_for_reason :: "breach_reason \<Rightarrow> string" where
  "exit_kind_for_reason r =
     (case r of
        Stop_breach \<Rightarrow> ''exit_sl'' | Target_breach \<Rightarrow> ''exit_target'' | Combined_stop \<Rightarrow> ''exit_overall_sl''
      | Combined_target \<Rightarrow> ''exit_overall_target'' | Lock_profit \<Rightarrow> ''exit_lock_profit'')"

definition STOP_DRIVEN_EXITS :: "string list" where
  "STOP_DRIVEN_EXITS = [''exit_sl'']"

definition stop_reason_for_reason :: "breach_reason \<Rightarrow> string option" where
  "stop_reason_for_reason r =
     (case r of
        Combined_stop \<Rightarrow> Some ''overall_sl'' | Combined_target \<Rightarrow> Some ''overall_target'' | Lock_profit \<Rightarrow> Some ''lock_profit''
      | _ \<Rightarrow> None)"

datatype tick_event =
    Trail_armed string "rat option"
  | Leg_stop_hit string position_detail
  | Leg_target_hit string position_detail
  | Stops_moved_to_entry string nat
  | Profit_lock_armed "rat option"
  | Profit_lock_advanced "rat option"
  | Day_limit_hit rat rat
  | Overall_hit string "rat option" aggregate_detail

definition repeating_breach :: "tick_event \<Rightarrow> bool" where
  "repeating_breach e =
     (case e of Leg_stop_hit l d \<Rightarrow> True | Leg_target_hit l d \<Rightarrow> True | Day_limit_hit a b \<Rightarrow> True | Overall_hit r t d \<Rightarrow> True | _ \<Rightarrow> False)"

record tick_strategy =
  ts_limits :: strategy_limits
  ts_trail_sl_to_entry :: bool
  ts_daily_loss_limit :: "rat option"

subsection \<open>The limit of the day\<close>

definition daily_loss_limit :: "tick_strategy \<Rightarrow> rat option" where
  "daily_loss_limit ts = (case ts_daily_loss_limit ts of None \<Rightarrow> None | Some x \<Rightarrow> if x = 0 then None else Some \<bar>x\<bar>)"

definition session_banked_pnl :: "tick_strategy \<Rightarrow> rat \<Rightarrow> rat option" where
  "session_banked_pnl ts earlier = (if daily_loss_limit ts = None then None else Some earlier)"

definition daily_loss_breached :: "tick_strategy \<Rightarrow> rat option \<Rightarrow> run_state \<Rightarrow> (rat \<times> rat) option" where
  "daily_loss_breached ts banked s =
     (case (daily_loss_limit ts, banked) of
        (Some limit, Some b) \<Rightarrow>
          (let day = b + rs_pnl_total s in if day > - limit then None else Some (\<bar>day\<bar>, limit))
      | _ \<Rightarrow> None)"

subsection \<open>What a tick decides\<close>

record tick_plan =
  tp_exits :: "(string \<times> string) list"
  tp_stop :: "string option"
  tp_events :: "tick_event list"

primrec evaluate_run_legs :: "string list \<Rightarrow> loose \<Rightarrow> run_state \<Rightarrow> ((string \<times> string) list \<times> tick_event list) \<times> run_state" where
  "evaluate_run_legs [] ltp s = (([], []), s)"
| "evaluate_run_legs (lid # lids) ltp s =
     (case find_leg lid s of
        None \<Rightarrow> evaluate_run_legs lids ltp s
      | Some l \<Rightarrow>
          (let (d, l1) = evaluate_strategy_leg l ltp;
               armed = (if pd_trail_armed d then [Trail_armed lid (pd_stop_price d)] else []);
               hit = (case pd_reason d of
                        None \<Rightarrow> []
                      | Some Stop_breach \<Rightarrow> [Leg_stop_hit lid (pd_detail d)]
                      | Some r \<Rightarrow> [Leg_target_hit lid (pd_detail d)]);
               exits = (case pd_reason d of None \<Rightarrow> [] | Some r \<Rightarrow> [(lid, exit_kind_for_reason r)])
           in case evaluate_run_legs lids ltp (change_leg lid (\<lambda>x. l1) s) of
                ((more_exits, more_events), s1) \<Rightarrow> ((exits @ more_exits, armed @ hit @ more_events), s1)))"

text \<open>Only the first stop that fired moves the others, and only when some can move is it said.\<close>

definition trail_after_exits :: "tick_strategy \<Rightarrow> (string \<times> string) list \<Rightarrow> run_state \<Rightarrow> tick_event list \<times> run_state" where
  "trail_after_exits ts exits s =
     (if \<not> ts_trail_sl_to_entry ts then ([], s)
      else case find (\<lambda>x. snd x \<in> set STOP_DRIVEN_EXITS) exits of
        None \<Rightarrow> ([], s)
      | Some (lid, kind) \<Rightarrow>
          (case trail_open_legs_to_entry lid s of
             (moved, s1) \<Rightarrow> (if moved \<noteq> [] then [Stops_moved_to_entry lid (length moved)] else [], s1)))"

definition stop_threshold :: "tick_strategy \<Rightarrow> string \<Rightarrow> aggregate_decision \<Rightarrow> rat option" where
  "stop_threshold ts reason d =
     (if reason = ''overall_sl'' then map_option (\<lambda>x. - \<bar>x\<bar>) (sl_overall_sl_mtm (ts_limits ts))
      else if reason = ''overall_target'' then sl_overall_target_mtm (ts_limits ts) else ad_lock_floor d)"

definition tick_decision :: "tick_strategy \<Rightarrow> rat option \<Rightarrow> string \<Rightarrow> string \<Rightarrow> loose \<Rightarrow> run_state \<Rightarrow> tick_plan \<times> run_state" where
  "tick_decision ts banked symbol exchange ltp s =
     (case evaluate_run_legs (map lg_id (legs_for_symbol s symbol exchange)) ltp s of
        ((exits, leg_events), s1) \<Rightarrow>
          (case trail_after_exits ts exits s1 of
             (trail_events, s2) \<Rightarrow>
               (case evaluate_run (ts_limits ts) s2 of
                  (d, s3) \<Rightarrow>
                    (let lock_events =
                           (if ad_lock_armed_now d then [Profit_lock_armed (ad_lock_floor d)]
                            else if ad_lock_floor_raised d then [Profit_lock_advanced (ad_lock_floor d)] else []);
                         (stop, stop_events) =
                           (case daily_loss_breached ts banked s3 of
                              Some (day, limit) \<Rightarrow> (Some ''daily_loss_limit'', [Day_limit_hit day limit])
                            | None \<Rightarrow>
                                (case (case ad_reason d of None \<Rightarrow> None | Some r \<Rightarrow> stop_reason_for_reason r) of
                                   None \<Rightarrow> (None, [])
                                 | Some reason \<Rightarrow> (Some reason, [Overall_hit reason (stop_threshold ts reason d) (ad_detail d)])))
                     in (\<lparr>tp_exits = exits, tp_stop = stop, tp_events = leg_events @ trail_events @ lock_events @ stop_events\<rparr>, s3)))))"

subsection \<open>What it sends\<close>

text \<open>What a tick asks the rest of the program: the environment of exits and stops, and the strategy's columns.\<close>

record 'f tick_world =
  tw_exit :: exit_env
  tw_stop :: "'f stop_env"
  tw_tokens :: "string \<Rightarrow> string \<times> string"
  tw_now :: time
  tw_product :: string
  tw_limits :: "nat \<Rightarrow> tick_strategy"
  tw_earlier :: rat

datatype tick_action =
    Nothing_to_manage
  | Broker_refused refusal
  | No_session
  | Stop_asked stop_answer "stop_event list"
  | Exits_asked "exit_outcome list" "exit_event list"

text \<open>Asked only when the tick has something to send, or when the run waits to act again.\<close>

definition tick_broker_refusal :: "'f tick_world \<Rightarrow> nat \<Rightarrow> run_mode \<Rightarrow> bool \<Rightarrow> bool \<Rightarrow> sm_db \<Rightarrow> refusal option \<times> sm_db" where
  "tick_broker_refusal w rid mode acting unactionable db =
     (if mode \<noteq> Live_run then (None, db)
      else if \<not> acting \<and> \<not> unactionable then (None, db)
      else if \<not> se_has_key (tw_stop w) then (None, db)
      else refusal_for_run (xe_logins (tw_exit w)) (xe_session (tw_exit w)) (se_race (tw_stop w)) rid db)"

text \<open>The runs that risk has fired for and that cannot act: a run is entered once and said once.\<close>

definition note_unactionable :: "nat \<Rightarrow> tick_plan \<Rightarrow> nat set \<Rightarrow> bool \<times> nat set" where
  "note_unactionable rid p noted =
     (if tp_exits p = [] \<and> tp_stop p = None then (False, noted) else (rid \<notin> noted, insert rid noted))"

definition note_actionable_again :: "nat \<Rightarrow> nat set \<Rightarrow> bool \<times> nat set" where
  "note_actionable_again rid noted = (rid \<in> noted, noted - {rid})"

text \<open>A stop that went through, or is on its way with every exit accepted (\<open>ok\<close> of its result).\<close>

definition stop_went_through :: "stop_answer \<Rightarrow> bool" where
  "stop_went_through a \<longleftrightarrow> (case a of Run_stopped xs \<Rightarrow> True | Stop_pending Still_held xs \<Rightarrow> True | _ \<Rightarrow> False)"

text \<open>The legs that fired, each exited on its own and with its own kind.\<close>

primrec tick_exits ::
    "'f tick_world \<Rightarrow> nat \<Rightarrow> run_mode \<Rightarrow> (string \<times> string) list \<Rightarrow> engine_state \<Rightarrow> (exit_outcome list \<times> exit_event list) \<times> engine_state" where
  "tick_exits w rid mode [] es = (([], []), es)"
| "tick_exits w rid mode (x # xs) es =
     (case exit_legs (tw_exit w) (tw_now w) rid mode (snd x) (tw_product w) [(fst x, tw_tokens w (fst x))] es of
        ((outs, evs), es1) \<Rightarrow>
          (case tick_exits w rid mode xs es1 of ((more_outs, more_evs), es2) \<Rightarrow> ((outs @ more_outs, evs @ more_evs), es2)))"

text \<open>What was decided is carried out; the answer says what became of it and whether the run's standing is said to
  have changed.  The stop is asked in the name of the strategy's owner, and writes to the record on its own.\<close>

definition carry_out ::
    "'f tick_world \<Rightarrow> nat \<Rightarrow> run_mode \<Rightarrow> string \<Rightarrow> tick_plan \<Rightarrow> engine_state \<times> nat set \<Rightarrow> (tick_action \<times> bool) \<times> engine_state \<times> nat set" where
  "carry_out w rid mode owner p st =
     (case tp_stop p of
        Some reason \<Rightarrow>
          (case stop_run (tw_exit w) ((tw_stop w)\<lparr>se_strategy_user := owner\<rparr>) (tw_tokens w) (tw_now w) (tw_product w) rid reason st of
             ((a, evs), es1, noted1) \<Rightarrow>
               (case (if stop_went_through a then note_actionable_again rid noted1 else (False, noted1)) of
                  (said, noted2) \<Rightarrow> ((Stop_asked a evs, said), es1, noted2)))
      | None \<Rightarrow>
          (case st of (es, noted) \<Rightarrow>
             if \<not> se_has_key (tw_stop w) then
               (case note_unactionable rid p noted of (said, noted1) \<Rightarrow> ((No_session, said), es, noted1))
             else
               (case note_actionable_again rid noted of
                  (said, noted1) \<Rightarrow>
                    (case tick_exits w rid mode (tp_exits p) es of
                       ((outs, evs), es1) \<Rightarrow> ((Exits_asked outs evs, said), es1, noted1)))))"

definition process_tick_for_run ::
    "'f tick_world \<Rightarrow> nat \<Rightarrow> string \<Rightarrow> string \<Rightarrow> loose \<Rightarrow> engine_state \<times> nat set
     \<Rightarrow> (tick_action \<times> tick_event list \<times> bool) \<times> engine_state \<times> nat set" where
  "process_tick_for_run w rid symbol exchange ltp st =
     (case st of ((runs, db), noted) \<Rightarrow>
        case (case find_run rid db of Some r \<Rightarrow> if sr_stopped_at r \<noteq> None then None else Some r | None \<Rightarrow> None) of
          None \<Rightarrow> ((Nothing_to_manage, [], False), st)
        | Some r \<Rightarrow>
            (case (find (\<lambda>x. st_id x = sr_strategy r) (sm_strategies db), runs rid) of
               (Some x, Some s) \<Rightarrow>
                 (let ts = tw_limits w (sr_strategy r);
                      (p, s1) = tick_decision ts (session_banked_pnl ts (tw_earlier w)) symbol exchange ltp s;
                      runs1 = runs(rid \<mapsto> s1);
                      acting = (tp_exits p \<noteq> [] \<or> tp_stop p \<noteq> None)
                  in case tick_broker_refusal w rid (sr_mode r) acting (rid \<in> noted) db of
                       (Some refused, db1) \<Rightarrow>
                         (case note_unactionable rid p noted of
                            (said, noted1) \<Rightarrow>
                              ((Broker_refused refused,
                                if rid \<in> noted then filter (\<lambda>e. \<not> repeating_breach e) (tp_events p) else tp_events p, said),
                               (runs1, db1), noted1))
                     | (None, db1) \<Rightarrow>
                         (case carry_out w rid (sr_mode r) (st_user x) p ((runs1, db1), noted) of
                            ((a, said), st1) \<Rightarrow> ((a, tp_events p, said), st1)))
             | _ \<Rightarrow> ((Nothing_to_manage, [], False), st)))"

end
