(* ===== verification/StrategyTickLaws.thy ===== *)
theory StrategyTickLaws
  imports StrategyTick StrategyLegLaws AggregateLaws
begin

text \<open>
  What a tick guarantees: it decides the exits of exactly the open legs of its instrument whose stop or
  target the price has reached, and a leg whose exit was not carried out fires again at the next tick of
  that price, whatever the tick has written to the legs in between.
\<close>

subsection \<open>A level that was reached stays reached\<close>

text \<open>The stop or the target of the position is at the price or past it.\<close>

definition level_reached :: "rat \<Rightarrow> position_risk \<Rightarrow> bool" where
  "level_reached p r \<longleftrightarrow>
     (\<exists>s. effective_stop r = Some s \<and> beats (pr_side r) s p) \<or>
     (\<exists>t. usable (pr_target_price r) = Some t \<and> beats (pr_side r) p t)"

lemma breached_iff:
  assumes "p > 0"
  shows "pd_breached (evaluate_position r (Lnum p)) \<longleftrightarrow>
    (\<exists>s. pd_stop_price (evaluate_position r (Lnum p)) = Some s \<and> beats (pr_side r) s p) \<or>
    (\<exists>t. usable (pr_target_price r) = Some t \<and> beats (pr_side r) p t)"
  using assms by (auto simp: pd_breached_def decision_reason split: option.splits)

lemma decided_stop_tightens:
  assumes "effective_stop r = Some s"
  shows "\<exists>s1. pd_stop_price (evaluate_position r v) = Some s1 \<and> beats (pr_side r) s1 s"
  using assms by (simp add: evaluate_position_def Let_def ratchet_tightens split: option.split)

lemma reached_breaches: "level_reached p r \<Longrightarrow> p > 0 \<Longrightarrow> pd_breached (evaluate_position r (Lnum p))"
  unfolding level_reached_def breached_iff by (meson beats_trans decided_stop_tightens)

text \<open>The least price a short position has seen, where it is kept, is a price.\<close>

definition extreme_ok :: "position_risk \<Rightarrow> bool" where
  "extreme_ok r \<longleftrightarrow> (pr_side r = SELL \<longrightarrow> (\<forall>x. pr_lowest_price r = Some x \<longrightarrow> x > 0))"

lemma decided_stop_positive:
  assumes "pd_stop_price (evaluate_position r (Lnum p)) = Some s" "beats (pr_side r) s p" "p > 0" "extreme_ok r"
  shows "s > 0"
proof (cases "pr_side r")
  case BUY
  with assms show ?thesis by (simp add: beats_def)
next
  case SELL
  define l where "l = min (case pr_lowest_price r of Some l \<Rightarrow> l | None \<Rightarrow> case usable (Some (pr_entry_price r)) of Some e \<Rightarrow> e | None \<Rightarrow> p) p"
  have l: "l > 0" using assms(3,4) SELL by (auto simp: l_def extreme_ok_def split: option.split)
  have "effective_stop r = Some s \<or> (\<exists>c. ratchet SELL (effective_stop r) (max c l) = Some s)"
    using assms(1,3) SELL by (auto simp: evaluate_position_def Let_def l_def clamp_to_peak_def split: option.splits if_splits)
  with l show ?thesis
    by (auto simp: ratchet_def dest: effective_stop_pos split: option.splits if_splits)
qed

lemma breached_stays_reached:
  assumes "pd_breached (evaluate_position r (Lnum p))" "p > 0" "extreme_ok r"
  shows "level_reached p (carry_decision r (evaluate_position r (Lnum p)))"
proof -
  consider s where "pd_stop_price (evaluate_position r (Lnum p)) = Some s" "beats (pr_side r) s p"
    | t where "usable (pr_target_price r) = Some t" "beats (pr_side r) p t"
    using assms(1) breached_iff [OF assms(2)] by blast
  then show ?thesis
  proof cases
    case 1
    with decided_stop_positive [OF 1 assms(2,3)] show ?thesis by (simp add: level_reached_def effective_of_carry)
  qed (simp add: level_reached_def)
qed

subsection \<open>The legs of a tick\<close>

definition leg_breached :: "loose \<Rightarrow> leg \<Rightarrow> bool" where
  "leg_breached v l \<longleftrightarrow> pd_breached (evaluate_position (leg_to_position_risk l) v)"

lemma leg_breached_reason: "leg_breached v l \<longleftrightarrow> pd_reason (fst (evaluate_strategy_leg l v)) \<noteq> None"
  by (simp add: leg_breached_def pd_breached_def evaluate_strategy_leg_def Let_def)

lemma change_to_tick:
  assumes "find_leg lid s = Some l" "distinct (map lg_id (rs_legs s))"
  shows "change_leg lid (\<lambda>x. tick_leg v l) s = change_leg lid (tick_leg v) s"
proof -
  have "x = l" if "x \<in> set (rs_legs s)" "lg_id x = lid" for x
    using that find_leg_id [OF assms(1)] assms(2) by (auto simp: distinct_map inj_on_def)
  then have "map (\<lambda>x. if lg_id x = lid then tick_leg v l else x) (rs_legs s) = map (\<lambda>x. if lg_id x = lid then tick_leg v x else x) (rs_legs s)"
    by auto
  then show ?thesis by (simp add: change_leg_def)
qed

text \<open>The legs come one by one, each in the state it had before the tick.\<close>

lemma evaluate_run_legs_all:
  assumes "distinct (map lg_id (rs_legs s))" "distinct lids"
  shows "map fst (fst (fst (evaluate_run_legs lids v s))) =
      filter (\<lambda>lid. \<exists>l. find_leg lid s = Some l \<and> leg_breached v l) lids \<and>
    rs_legs (snd (evaluate_run_legs lids v s)) = map (\<lambda>l. if lg_id l \<in> set lids then tick_leg v l else l) (rs_legs s)"
  using assms
proof (induction lids arbitrary: s)
  case (Cons lid lids)
  show ?case
  proof (cases "find_leg lid s")
    case None
    then have "lg_id l \<noteq> lid" if "l \<in> set (rs_legs s)" for l using that by (simp add: find_leg_None)
    with None Cons show ?thesis by auto
  next
    case (Some l)
    let ?s = "change_leg lid (tick_leg v) s"
    have ids: "map lg_id (rs_legs ?s) = map lg_id (rs_legs s)" by (simp add: change_leg_def)
    have others: "find_leg k ?s = find_leg k s" if "k \<noteq> lid" for k using that by (simp add: find_change_leg)
    obtain x e s1 where rest: "evaluate_run_legs lids v ?s = ((x, e), s1)" by (metis prod.exhaust)
    have IH: "map fst x = filter (\<lambda>k. \<exists>l. find_leg k s = Some l \<and> leg_breached v l) lids"
      "rs_legs s1 = map (\<lambda>l. if lg_id l \<in> set lids then tick_leg v l else l) (rs_legs ?s)"
    proof -
      have "filter (\<lambda>k. \<exists>l. find_leg k ?s = Some l \<and> leg_breached v l) lids = filter (\<lambda>k. \<exists>l. find_leg k s = Some l \<and> leg_breached v l) lids"
      proof (rule filter_cong [OF refl])
        fix k
        assume "k \<in> set lids"
        then have "k \<noteq> lid" using Cons.prems(2) by auto
        then show "(\<exists>l. find_leg k ?s = Some l \<and> leg_breached v l) \<longleftrightarrow> (\<exists>l. find_leg k s = Some l \<and> leg_breached v l)"
          by (simp add: others)
      qed
      with Cons.IH [of ?s] Cons.prems ids rest show "map fst x = filter (\<lambda>k. \<exists>l. find_leg k s = Some l \<and> leg_breached v l) lids"
        "rs_legs s1 = map (\<lambda>l. if lg_id l \<in> set lids then tick_leg v l else l) (rs_legs ?s)" by auto
    qed
    obtain d where d: "evaluate_strategy_leg l v = (d, tick_leg v l)" by (metis tick_leg_def prod.collapse)
    have "map fst (fst (fst (evaluate_run_legs (lid # lids) v s))) = (if pd_reason d = None then [] else [lid]) @ map fst x \<and>
        snd (evaluate_run_legs (lid # lids) v s) = s1"
      using Some d rest change_to_tick [OF Some Cons.prems(1), of v] by (simp split: option.split)
    moreover have "leg_breached v l \<longleftrightarrow> pd_reason d \<noteq> None" using d by (simp add: leg_breached_reason)
    moreover have "rs_legs s1 = map (\<lambda>l. if lg_id l \<in> set (lid # lids) then tick_leg v l else l) (rs_legs s)"
      using IH(2) Cons.prems(2) by (auto simp: change_leg_def)
    ultimately show ?thesis using Some IH(1) by simp
  qed
qed simp

lemma ids_of_symbol:
  assumes "distinct (map lg_id (rs_legs s))"
  shows "distinct (map lg_id (legs_for_symbol s sy ex))"
    "l \<in> set (legs_for_symbol s sy ex) \<Longrightarrow> find_leg (lg_id l) s = Some l"
proof -
  show "distinct (map lg_id (legs_for_symbol s sy ex))" using assms by (simp add: legs_for_symbol_def distinct_map_filter)
  assume "l \<in> set (legs_for_symbol s sy ex)"
  then have l: "l \<in> set (rs_legs s)" by (simp add: legs_for_symbol_def)
  then obtain l1 where l1: "find_leg (lg_id l) s = Some l1" using find_leg_None by (metis not_Some_eq)
  with find_leg_id [OF l1] l assms have "l1 = l" by (auto simp: distinct_map inj_on_def)
  with l1 show "find_leg (lg_id l) s = Some l" by simp
qed

lemma exits_of_symbol:
  assumes "distinct (map lg_id (rs_legs s))"
  shows "map fst (fst (fst (evaluate_run_legs (map lg_id (legs_for_symbol s sy ex)) v s))) =
    map lg_id (filter (leg_breached v) (legs_for_symbol s sy ex))"
proof -
  have "filter (\<lambda>lid. \<exists>l. find_leg lid s = Some l \<and> leg_breached v l) (map lg_id (legs_for_symbol s sy ex)) =
      map lg_id (filter (leg_breached v) (legs_for_symbol s sy ex))"
    unfolding filter_map o_def using ids_of_symbol(2) [OF assms] by (intro arg_cong [where f = "map lg_id"] filter_cong) auto
  with evaluate_run_legs_all [OF assms ids_of_symbol(1) [OF assms]] show ?thesis by simp
qed

subsection \<open>Stops that move to entry\<close>

definition stop_improved :: "leg \<Rightarrow> leg \<Rightarrow> bool" where
  "stop_improved l l1 \<longleftrightarrow> l1 = l \<or>
     (lg_entry_avg l > 0 \<and> (\<forall>c. effective_stop (leg_to_position_risk l) = Some c \<longrightarrow> beats (lg_position l) (lg_entry_avg l) c) \<and>
      l1 = l\<lparr>lg_effective_sl := Some (lg_entry_avg l)\<rparr>)"

lemma risk_of_leg [simp]:
  "pr_identifier (leg_to_position_risk l) = lg_id l" "pr_side (leg_to_position_risk l) = lg_position l"
  "pr_entry_price (leg_to_position_risk l) = lg_entry_avg l" "pr_lowest_price (leg_to_position_risk l) = lg_lowest_price l"
  by (simp_all add: leg_to_position_risk_def Let_def)

lemma risk_of_moved_stop: "leg_to_position_risk (l\<lparr>lg_effective_sl := Some x\<rparr>) = (leg_to_position_risk l)\<lparr>pr_stop_price := Some x\<rparr>"
  by (simp add: leg_to_position_risk_def Let_def points_per_unit_def)

lemma improved_keeps: "stop_improved l l1 \<Longrightarrow> lg_id l1 = lg_id l \<and> lg_status l1 = lg_status l \<and> lg_symbol l1 = lg_symbol l \<and> lg_exchange l1 = lg_exchange l"
  by (auto simp: stop_improved_def)

lemma improved_reached: "stop_improved l l1 \<Longrightarrow> level_reached p (leg_to_position_risk l) \<Longrightarrow> level_reached p (leg_to_position_risk l1)"
  unfolding stop_improved_def level_reached_def
  by (auto simp: risk_of_moved_stop effective_stop_def [of "position_risk.pr_stop_price_update f r" for f r] dest: beats_trans)

lemma stops_to_entry_improve:
  assumes "distinct (map lg_id (rs_legs s))"
  shows "\<exists>f. rs_legs (snd (trail_open_legs_to_entry lid s)) = map f (rs_legs s) \<and> (\<forall>l\<in>set (rs_legs s). stop_improved l (f l))"
proof -
  define moved where "moved m \<longleftrightarrow> (\<exists>l\<in>set (rs_legs s). sm_identifier m = lg_id l \<and> sm_new_stop m = lg_entry_avg l \<and>
    stop_improved l (l\<lparr>lg_effective_sl := Some (lg_entry_avg l)\<rparr>))" for m :: stop_move
  have folded: "\<exists>f. rs_legs (fold apply_stop_move ms s) = map f (rs_legs s) \<and> (\<forall>l\<in>set (rs_legs s). stop_improved l (f l))"
    if "\<forall>m\<in>set ms. moved m" for ms
    using that
  proof (induction ms rule: rev_induct)
    case Nil
    show ?case by (intro exI [of _ "\<lambda>l. l"]) (simp add: stop_improved_def)
  next
    case (snoc m ms)
    then obtain f where f: "rs_legs (fold apply_stop_move ms s) = map f (rs_legs s)" "\<forall>l\<in>set (rs_legs s). stop_improved l (f l)" by auto
    from snoc.prems obtain k where k: "k \<in> set (rs_legs s)" "sm_identifier m = lg_id k" "sm_new_stop m = lg_entry_avg k"
      "stop_improved k (k\<lparr>lg_effective_sl := Some (lg_entry_avg k)\<rparr>)" by (auto simp: moved_def)
    let ?g = "\<lambda>l. if lg_id (f l) = sm_identifier m then (f l)\<lparr>lg_effective_sl := Some (sm_new_stop m)\<rparr> else f l"
    have "stop_improved l (?g l)" if l: "l \<in> set (rs_legs s)" for l
    proof (cases "lg_id l = lg_id k")
      case True
      then have "l = k" using l k(1) assms by (auto simp: distinct_map inj_on_def)
      have "stop_improved k (f k)" using f(2) k(1) by blast
      then consider "f k = k" | "f k = k\<lparr>lg_effective_sl := Some (lg_entry_avg k)\<rparr>" unfolding stop_improved_def by blast
      then have "?g k = k\<lparr>lg_effective_sl := Some (lg_entry_avg k)\<rparr>" using k(2,3) by cases simp_all
      with k(4) \<open>l = k\<close> show ?thesis by (simp only:)
    next
      case False
      moreover have "stop_improved l (f l)" using f(2) l by blast
      moreover from this have "lg_id (f l) = lg_id l" by (simp add: improved_keeps)
      ultimately show ?thesis using k(2) by simp
    qed
    with f(1) show ?case by (intro exI [of _ ?g]) (simp add: apply_stop_move_def [of m] change_leg_def)
  qed
  have "\<forall>m\<in>set (te_moves (trail_stops_to_entry (map leg_to_position_risk (open_legs s)) x prices)). moved m" for x prices
  proof
    fix m
    assume "m \<in> set (te_moves (trail_stops_to_entry (map leg_to_position_risk (open_legs s)) x prices))"
    then obtain l where "l \<in> set (rs_legs s)" "move_to_entry prices (leg_to_position_risk l) = Move m"
      by (auto simp: trail_stops_to_entry_def Let_def in_moves open_legs_def eq_commute [of "Move m"])
    then show "moved m" unfolding moved_def stop_improved_def move_to_entry_Move may_move_def by (intro bexI [of _ l]) auto
  qed
  note moves = folded [OF this]
  define prices where "prices = (\<lambda>i. case find (\<lambda>l. lg_id l = i) (open_legs s) of Some l \<Rightarrow> loose_of (lg_ltp l) | None \<Rightarrow> Lnone)"
  define ms where "ms = te_moves (trail_stops_to_entry (map leg_to_position_risk (open_legs s)) [lid] prices)"
  have "trail_open_legs_to_entry lid s =
      (map sm_identifier ms, if ms \<noteq> [] then (fold apply_stop_move ms s)\<lparr>rs_trail_to_entry_active := True\<rparr> else fold apply_stop_move ms s)"
    by (simp add: trail_open_legs_to_entry_def Let_def ms_def prices_def)
  then have "rs_legs (snd (trail_open_legs_to_entry lid s)) = rs_legs (fold apply_stop_move ms s)" by (simp split: if_split)
  with moves [of "[lid]" prices] show ?thesis by (simp add: ms_def)
qed

lemma trail_after_exits_improves:
  assumes "distinct (map lg_id (rs_legs s))"
  shows "\<exists>f. rs_legs (snd (trail_after_exits ts exits s)) = map f (rs_legs s) \<and> (\<forall>l\<in>set (rs_legs s). stop_improved l (f l))"
proof -
  have same: "\<exists>f. rs_legs s = map f (rs_legs s) \<and> (\<forall>l\<in>set (rs_legs s). stop_improved l (f l))"
    by (intro exI [of _ "\<lambda>l. l"]) (simp add: stop_improved_def)
  have legs: "rs_legs (snd (trail_after_exits ts exits s)) =
      (if \<not> ts_trail_sl_to_entry ts then rs_legs s
       else case find (\<lambda>x. snd x \<in> set STOP_DRIVEN_EXITS) exits of None \<Rightarrow> rs_legs s
         | Some x \<Rightarrow> rs_legs (snd (trail_open_legs_to_entry (fst x) s)))"
    by (simp add: trail_after_exits_def split: option.split prod.split)
  show ?thesis unfolding legs using same stops_to_entry_improve [OF assms] by (simp split: option.split)
qed

subsection \<open>A breach fires until it was acted on\<close>

lemma decision_parts:
  "tp_exits (fst (tick_decision ts banked sy ex v s)) = fst (fst (evaluate_run_legs (map lg_id (legs_for_symbol s sy ex)) v s))"
  "rs_legs (snd (tick_decision ts banked sy ex v s)) =
   rs_legs (snd (trail_after_exits ts (tp_exits (fst (tick_decision ts banked sy ex v s)))
     (snd (evaluate_run_legs (map lg_id (legs_for_symbol s sy ex)) v s))))"
  by (auto simp: tick_decision_def evaluate_run_def apply_run_decision_def Let_def split: prod.split option.split)

lemma ticked_market [simp]: "lg_symbol (tick_leg v l) = lg_symbol l" "lg_exchange (tick_leg v l) = lg_exchange l"
  by (simp_all add: tick_leg_def evaluate_strategy_leg_def apply_leg_decision_def Let_def)

text \<open>What the tick made of each leg: ticked if it is of the instrument, then perhaps with its stop moved to entry.\<close>

lemma decision_legs:
  assumes "distinct (map lg_id (rs_legs s))"
  shows "\<exists>f. rs_legs (snd (tick_decision ts banked sy ex v s)) = map f (rs_legs s) \<and>
    (\<forall>l\<in>set (rs_legs s). stop_improved (if l \<in> set (legs_for_symbol s sy ex) then tick_leg v l else l) (f l))"
proof -
  let ?g = "\<lambda>l. if l \<in> set (legs_for_symbol s sy ex) then tick_leg v l else l"
  let ?s = "snd (evaluate_run_legs (map lg_id (legs_for_symbol s sy ex)) v s)"
  have "lg_id l \<in> set (map lg_id (legs_for_symbol s sy ex)) \<longleftrightarrow> l \<in> set (legs_for_symbol s sy ex)" if "l \<in> set (rs_legs s)" for l
    using that assms by (auto simp: legs_for_symbol_def distinct_map inj_on_def)
  with evaluate_run_legs_all [OF assms ids_of_symbol(1) [OF assms], of sy ex v]
  have legs: "rs_legs ?s = map ?g (rs_legs s)" by auto
  then have "map lg_id (rs_legs ?s) = map lg_id (rs_legs s)" by auto
  with assms have "distinct (map lg_id (rs_legs ?s))" by simp
  from trail_after_exits_improves [OF this, of ts "tp_exits (fst (tick_decision ts banked sy ex v s))"]
  obtain f where "rs_legs (snd (tick_decision ts banked sy ex v s)) = map f (rs_legs ?s)" "\<forall>l\<in>set (rs_legs ?s). stop_improved l (f l)"
    unfolding decision_parts(2) [symmetric] by blast
  with legs show ?thesis by (intro exI [of _ "f \<circ> ?g"]) auto
qed

definition leg_sound :: "leg \<Rightarrow> bool" where
  "leg_sound l \<longleftrightarrow> target_ok l \<and> extreme_ok (leg_to_position_risk l)"

text \<open>C34: a tick decides to exit exactly the open legs of its instrument whose stop or target the price has reached,
  each once and in the order of the run's legs; and as long as those exits were not carried out, the next tick of that
  price decides each of them again, whatever has become of the strategy's limits and although the first tick trailed
  the stops and may have moved them to entry.\<close>

theorem breaches_fire_until_acted_on:
  assumes "distinct (map lg_id (rs_legs s))" "p > 0" "\<forall>l\<in>set (legs_for_symbol s sy ex). leg_sound l"
    "tick_decision ts banked sy ex (Lnum p) s = (plan, s1)" "tick_decision ts1 banked1 sy ex (Lnum p) s1 = (plan1, s2)"
  shows "map fst (tp_exits plan) =
      map lg_id (filter (\<lambda>l. pd_breached (evaluate_position (leg_to_position_risk l) (Lnum p))) (legs_for_symbol s sy ex)) \<and>
    fst ` set (tp_exits plan) \<subseteq> fst ` set (tp_exits plan1)"
proof -
  have plan: "map fst (tp_exits plan) = map lg_id (filter (leg_breached (Lnum p)) (legs_for_symbol s sy ex))"
    using exits_of_symbol [OF assms(1)] decision_parts(1) assms(4) by (metis fst_conv)
  obtain f where f: "rs_legs s1 = map f (rs_legs s)"
    "\<And>l. l \<in> set (rs_legs s) \<Longrightarrow> stop_improved (if l \<in> set (legs_for_symbol s sy ex) then tick_leg (Lnum p) l else l) (f l)"
    using decision_legs [OF assms(1), of ts banked sy ex "Lnum p"] assms(4) by auto
  have same: "lg_id (f l) = lg_id l" if "l \<in> set (rs_legs s)" for l
    using improved_keeps [OF f(2) [OF that]] by simp
  then have "map lg_id (rs_legs s1) = map lg_id (rs_legs s)" using f(1) by simp
  with assms(1) have "distinct (map lg_id (rs_legs s1))" by simp
  from exits_of_symbol [OF this, of sy ex "Lnum p"]
  have plan1: "map fst (tp_exits plan1) = map lg_id (filter (leg_breached (Lnum p)) (legs_for_symbol s1 sy ex))"
    using decision_parts(1) assms(5) by (metis fst_conv)
  have "lg_id l \<in> fst ` set (tp_exits plan1)" if l: "l \<in> set (legs_for_symbol s sy ex)" "leg_breached (Lnum p) l" for l
  proof -
    have in_run: "l \<in> set (rs_legs s)" using l(1) by (simp add: legs_for_symbol_def)
    have moved: "stop_improved (tick_leg (Lnum p) l) (f l)" using f(2) [OF in_run] l(1) by simp
    have "f l \<in> set (legs_for_symbol s1 sy ex)"
      using improved_keeps [OF moved] l(1) in_run f(1) by (simp add: legs_for_symbol_def)
    moreover have "level_reached p (leg_to_position_risk (tick_leg (Lnum p) l))"
      using l assms(2,3) breached_stays_reached [of "leg_to_position_risk l" p] tick_is_the_core [of l "Lnum p"]
      by (simp add: leg_sound_def leg_breached_def)
    then have "leg_breached (Lnum p) (f l)"
      unfolding leg_breached_def using improved_reached [OF moved] reached_breaches assms(2) by blast
    ultimately have "lg_id (f l) \<in> set (map fst (tp_exits plan1))" unfolding plan1 by simp
    with same [OF in_run] show ?thesis by simp
  qed
  moreover have "fst ` set (tp_exits plan) = lg_id ` set (filter (leg_breached (Lnum p)) (legs_for_symbol s sy ex))"
    using plan by (metis list.set_map)
  ultimately show ?thesis using plan unfolding leg_breached_def [abs_def] by auto
qed

text \<open>A long and a short leg, both filled at 100; at 88 the long one is stopped, the short one's stop moves to entry.\<close>

definition sample_ticked_run :: run_state where
  "sample_ticked_run = (new_run_state 1 1)\<lparr>rs_legs := [sample_leg, sample_leg\<lparr>lg_id := ''2'', lg_position := SELL, lg_ltp := Some 95\<rparr>]\<rparr>"

definition sample_tick_strategy :: tick_strategy where
  "sample_tick_strategy =
     \<lparr>ts_limits = \<lparr>sl_overall_sl_mtm = None, sl_overall_target_mtm = None, sl_lock_profit = None\<rparr>,
      ts_trail_sl_to_entry = True, ts_daily_loss_limit = None\<rparr>"

definition sample_decision :: "run_state \<Rightarrow> tick_plan \<times> run_state" where
  "sample_decision = tick_decision sample_tick_strategy None ''X'' ''NSE'' (Lnum 88)"

theorem breaches_fire_until_acted_on_witness:
  "map fst (tp_exits (fst (sample_decision sample_ticked_run))) = [''1''] \<and>
   ''1'' \<in> fst ` set (tp_exits (fst (sample_decision (snd (sample_decision sample_ticked_run)))))"
proof -
  have ok: "distinct (map lg_id (rs_legs sample_ticked_run))" "\<forall>l\<in>set (legs_for_symbol sample_ticked_run ''X'' ''NSE''). leg_sound l"
    by (auto simp: sample_ticked_run_def sample_leg_def legs_for_symbol_def leg_sound_def target_ok_def extreme_ok_def)
  have "map lg_id (filter (\<lambda>l. pd_breached (evaluate_position (leg_to_position_risk l) (Lnum 88)))
      (legs_for_symbol sample_ticked_run ''X'' ''NSE'')) = [''1'']"
    by code_simp
  with breaches_fire_until_acted_on [OF ok(1) _ ok(2) prod.collapse [symmetric] prod.collapse [symmetric], of 88]
  have "map fst (tp_exits (fst (sample_decision sample_ticked_run))) = [''1'']"
    "fst ` set (tp_exits (fst (sample_decision sample_ticked_run))) \<subseteq>
     fst ` set (tp_exits (fst (sample_decision (snd (sample_decision sample_ticked_run)))))"
    unfolding sample_decision_def by simp_all
  then show ?thesis by (metis image_set list.set_intros(1) subsetD)
qed

text \<open>A trail says that it is armed at every tick, not only when it gets armed.\<close>

lemma armed_trail_is_said_again:
  "pd_trail_armed (fst (evaluate_strategy_leg sample_leg (Lnum 106))) \<and>
   pd_trail_armed (fst (evaluate_strategy_leg (tick_leg (Lnum 106) sample_leg) (Lnum 106)))"
  by code_simp

subsection \<open>What is said of a run that cannot act\<close>

text \<open>What is told of a run's standing: that it cannot act, that it can again, and that it is finished.\<close>

datatype standing_note = Unable nat | Able nat | Finished nat

definition stop_note :: "nat \<Rightarrow> stop_event \<Rightarrow> standing_note list" where
  "stop_note rid e =
     (case e of
        Recovered \<Rightarrow> [Able rid]
      | Stop_failed No_api_key \<Rightarrow> [Unable rid]
      | Stop_failed (Session_elsewhere r) \<Rightarrow> [Unable rid]
      | _ \<Rightarrow> [])"

definition stop_notes :: "nat \<Rightarrow> stop_answer \<times> stop_event list \<Rightarrow> standing_note list" where
  "stop_notes rid x =
     concat (map (stop_note rid) (snd x)) @ (case fst x of Run_stopped xs \<Rightarrow> [Finished rid] | _ \<Rightarrow> [])"

definition tick_notes :: "nat \<Rightarrow> tick_action \<times> tick_event list \<times> bool \<Rightarrow> standing_note list" where
  "tick_notes rid x =
     (case x of (a, evs, said) \<Rightarrow>
        (case a of Stop_asked b stop_evs \<Rightarrow> stop_notes rid (b, stop_evs) | _ \<Rightarrow> []) @
        (if \<not> said then [] else case a of Broker_refused r \<Rightarrow> [Unable rid] | No_session \<Rightarrow> [Unable rid] | _ \<Rightarrow> [Able rid]))"

text \<open>What can happen: ticks, stops asked by users and by the engine, legs closed by hand, runs finished by the fill of
  another thread, and whatever else changes the tables and the live states.\<close>

datatype 'f engine_call =
    Tick "'f tick_world" nat string string loose
  | Stop "'f tick_world" string nat string
  | Pending_stop "'f tick_world" nat
  | Close_leg "'f tick_world" string nat string
  | Finish time nat nat string
  | Elsewhere "engine_state \<Rightarrow> engine_state"

definition call_engine :: "'f engine_call \<Rightarrow> engine_state \<times> nat set \<Rightarrow> standing_note list \<times> engine_state \<times> nat set" where
  "call_engine c st =
     (case c of
        Tick w rid sy ex v \<Rightarrow> (case process_tick_for_run w rid sy ex v st of (x, st1) \<Rightarrow> (tick_notes rid x, st1))
      | Stop w user rid reason \<Rightarrow>
          (case stop_run (tw_exit w) ((tw_stop w)\<lparr>se_strategy_user := user\<rparr>) (tw_tokens w) (tw_now w) (tw_product w) rid reason st of
             (x, st1) \<Rightarrow> (stop_notes rid x, st1))
      | Pending_stop w rid \<Rightarrow>
          (case reconcile_pending_stop (tw_exit w) (tw_stop w) (tw_tokens w) (tw_now w) (tw_product w) rid st of
             (x, st1) \<Rightarrow> (case x of None \<Rightarrow> [] | Some y \<Rightarrow> stop_notes rid y, st1))
      | Close_leg w user rid lid \<Rightarrow>
          (case close_leg (tw_exit w) user (se_has_key (tw_stop w)) (tw_tokens w lid) (tw_now w) (tw_product w) rid lid st of
             ((a, evs), st1) \<Rightarrow>
               (case a of Leg_closing xs flat \<Rightarrow> if flat \<and> rid \<notin> snd st1 then [Finished rid] else [] | _ \<Rightarrow> [], st1))
      | Finish now rid sid reason \<Rightarrow>
          (case finalise now rid sid reason (fst st) of
             (ok, es1) \<Rightarrow> if ok then ([Finished rid], es1, snd st - {rid}) else ([], es1, snd st))
      | Elsewhere g \<Rightarrow> ([], g (fst st), snd st))"

primrec call_engines :: "'f engine_call list \<Rightarrow> engine_state \<times> nat set \<Rightarrow> standing_note list \<times> engine_state \<times> nat set" where
  "call_engines [] st = ([], st)"
| "call_engines (c # cs) st =
     (case call_engine c st of (ns, st1) \<Rightarrow> (case call_engines cs st1 of (more_ns, st2) \<Rightarrow> (ns @ more_ns, st2)))"

text \<open>Reading the notes of one run in order, from whether it is on record as unable: it is told unable only while it is
  not, able again only while it is, and being finished takes it off the record without a word.  \<open>None\<close>: told twice.\<close>

fun read_notes :: "nat \<Rightarrow> standing_note list \<Rightarrow> bool \<Rightarrow> bool option" where
  "read_notes rid [] unable = Some unable"
| "read_notes rid (Unable r # ns) unable =
     (if r \<noteq> rid then read_notes rid ns unable else if unable then None else read_notes rid ns True)"
| "read_notes rid (Able r # ns) unable =
     (if r \<noteq> rid then read_notes rid ns unable else if unable then read_notes rid ns False else None)"
| "read_notes rid (Finished r # ns) unable = (if r \<noteq> rid then read_notes rid ns unable else read_notes rid ns False)"

definition told :: "nat set \<Rightarrow> standing_note list \<Rightarrow> nat set \<Rightarrow> bool" where
  "told noted ns noted1 \<longleftrightarrow> (\<forall>rid. read_notes rid ns (rid \<in> noted) = Some (rid \<in> noted1))"

lemma read_notes_append:
  "read_notes rid (xs @ ys) b = (case read_notes rid xs b of None \<Rightarrow> None | Some b1 \<Rightarrow> read_notes rid ys b1)"
  by (induction rid xs b rule: read_notes.induct) auto

lemma told_append: "told a xs b \<Longrightarrow> told b ys c \<Longrightarrow> told a (xs @ ys) c"
  by (simp add: told_def read_notes_append)

lemma told_nothing [simp]: "told a [] b \<longleftrightarrow> a = b"
  by (auto simp: told_def)

lemma told_one [simp]:
  "told a [Unable r] b \<longleftrightarrow> r \<notin> a \<and> b = insert r a"
  "told a [Able r] b \<longleftrightarrow> r \<in> a \<and> b = a - {r}"
  "told a [Finished r] b \<longleftrightarrow> b = a - {r}"
  by (auto simp: told_def split: if_splits)

lemma stop_notes_parts:
  "stop_notes rid (a, []) = (case a of Run_stopped xs \<Rightarrow> [Finished rid] | _ \<Rightarrow> [])"
  "stop_notes rid (a, e # evs) = stop_note rid e @ stop_notes rid (a, evs)"
  "stop_notes rid (a, map Of_exit xs @ evs) = stop_notes rid (a, evs)"
  by (induction xs) (simp_all add: stop_notes_def stop_note_def)

subsection \<open>A stop keeps the record\<close>

lemma finish_stop_told:
  "finish_stop now rid sid reason xs st = (a, st1) \<Longrightarrow> told (snd st) (stop_notes rid (a, [])) (snd st1)"
  by (auto simp: finish_stop_def stop_notes_parts split: prod.splits if_splits)

lemma stop_unreachable_told:
  "stop_unreachable now rid sid reason held problem st = (x, st1) \<Longrightarrow> stop_note rid (Stop_failed problem) = [Unable rid] \<Longrightarrow>
   told (snd st) (stop_notes rid x) (snd st1)"
  using finish_stop_told [of now rid sid reason "[]" st]
  by (auto simp: stop_unreachable_def stop_notes_parts insert_absorb split: prod.splits if_splits)

lemma conclude_stop_told:
  "conclude_stop now rid sid reason xs st = (x, st1) \<Longrightarrow> rid \<notin> snd st \<Longrightarrow> told (snd st) (stop_notes rid x) (snd st1)"
  using finish_stop_told [of now rid sid reason xs st]
  by (auto simp: conclude_stop_def stop_notes_parts stop_note_def split: prod.splits if_splits option.splits)

lemma recovered_told:
  assumes "rid \<in> noted"
  shows "told noted (stop_notes rid (a, Recovered # evs)) b \<longleftrightarrow> told (noted - {rid}) (stop_notes rid (a, evs)) b"
proof -
  have "read_notes r (Able rid # ns) (r \<in> noted) = read_notes r ns (r \<in> noted - {rid})" for r ns
    using assms by (cases "r = rid") auto
  then show ?thesis by (simp add: told_def stop_notes_parts stop_note_def)
qed

lemma stop_exits_told:
  assumes "stop_exits env sv tokens now rid sid mode prd reason st = (x, st1)"
  shows "told (snd st) (stop_notes rid x) (snd st1)"
proof -
  obtain runs db noted where st: "st = ((runs, db), noted)" by (metis prod.exhaust)
  have gone: "told (noted - {rid}) (stop_notes rid (Run_stopped xs, [])) (noted - {rid})" for xs
    by (simp add: stop_notes_parts)
  have evs: "stop_notes rid (a, map Of_exit xs) = stop_notes rid (a, [])" for a xs
    using stop_notes_parts(3) [of rid a xs "[]"] by simp
  show ?thesis
    using assms gone unfolding st stop_exits_def Let_def
    by (cases "rid \<in> noted")
      (auto simp: recovered_told stop_notes_parts(3) evs stop_notes_parts(1) dest!: conclude_stop_told
        split: prod.splits if_splits option.splits)
qed

lemma stop_live_told:
  "stop_live env sv tokens now prd rid run reason s st = (x, st1) \<Longrightarrow> told (snd st) (stop_notes rid x) (snd st1)"
  by (auto simp: stop_live_def Let_def stop_note_def dest: stop_exits_told stop_unreachable_told
      split: prod.splits if_splits option.splits)

lemma stop_run_told:
  "stop_run env sv tokens now prd rid asked st = (x, st1) \<Longrightarrow> told (snd st) (stop_notes rid x) (snd st1)"
  by (auto simp: stop_run_def Let_def stop_notes_parts stop_note_def dest: stop_live_told
      split: prod.splits if_splits option.splits)

lemma pending_stop_told:
  "reconcile_pending_stop env sv tokens now prd rid st = (x, st1) \<Longrightarrow>
   told (snd st) (case x of None \<Rightarrow> [] | Some y \<Rightarrow> stop_notes rid y) (snd st1)"
  by (auto simp: reconcile_pending_stop_def stop_notes_parts dest: stop_run_told split: prod.splits option.splits if_splits)

lemma close_leg_told:
  "close_leg env user has_key tokens now prd rid lid st = ((a, evs), st1) \<Longrightarrow>
   told (snd st) (case a of Leg_closing xs flat \<Rightarrow> if flat \<and> rid \<notin> snd st1 then [Finished rid] else [] | _ \<Rightarrow> []) (snd st1)"
  by (auto simp: close_leg_def split: prod.splits option.splits if_splits)

subsection \<open>A tick keeps the record\<close>

lemma carry_out_told:
  assumes "carry_out w rid mode owner p st = ((a, said), st1)"
  shows "told (snd st) (tick_notes rid (a, evs, said)) (snd st1)"
proof (cases "tp_stop p")
  case None
  with assms show ?thesis
    by (auto simp: carry_out_def tick_notes_def note_unactionable_def note_actionable_again_def insert_absorb
        split: prod.splits if_splits)
next
  case (Some reason)
  obtain b es noted where stop: "stop_run (tw_exit w) ((tw_stop w)\<lparr>se_strategy_user := owner\<rparr>) (tw_tokens w) (tw_now w)
      (tw_product w) rid reason st = (b, es, noted)" by (metis prod.exhaust)
  from stop_run_told [OF stop] have "told (snd st) (stop_notes rid b) noted" by simp
  moreover have "told noted (if said then [Able rid] else []) (snd st1)"
    using assms(1) Some stop
    by (auto simp: carry_out_def note_actionable_again_def split: prod.splits if_splits)
  moreover have "tick_notes rid (a, evs, said) = stop_notes rid b @ (if said then [Able rid] else [])"
    using assms(1) Some stop by (auto simp: carry_out_def tick_notes_def split: prod.splits)
  ultimately show ?thesis by (simp only: told_append)
qed

lemma tick_told:
  assumes "process_tick_for_run w rid sy ex v st = (x, st1)"
  shows "told (snd st) (tick_notes rid x) (snd st1)"
proof -
  have quiet: "told (snd st) (tick_notes rid (Nothing_to_manage, [], False)) (snd st)" by (simp add: tick_notes_def)
  show ?thesis
    using assms quiet unfolding process_tick_for_run_def Let_def
    by (auto simp: note_unactionable_def tick_notes_def insert_absorb dest!: carry_out_told
        split: prod.splits option.splits if_splits)
qed

lemma call_told: "call_engine c st = (ns, st1) \<Longrightarrow> told (snd st) ns (snd st1)"
proof (cases c)
  case (Tick w rid sy ex v)
  moreover assume "call_engine c st = (ns, st1)"
  ultimately show ?thesis by (auto simp: call_engine_def dest: tick_told split: prod.splits)
next
  case (Stop w user rid reason)
  moreover assume "call_engine c st = (ns, st1)"
  ultimately show ?thesis by (auto simp: call_engine_def dest: stop_run_told split: prod.splits)
next
  case (Pending_stop w rid)
  moreover assume "call_engine c st = (ns, st1)"
  ultimately show ?thesis by (auto simp: call_engine_def dest!: pending_stop_told split: prod.splits)
next
  case (Close_leg w user rid lid)
  moreover assume "call_engine c st = (ns, st1)"
  ultimately show ?thesis by (auto simp: call_engine_def dest!: close_leg_told split: prod.splits)
qed (auto simp: call_engine_def split: prod.splits if_splits)

lemma calls_told: "told (snd st) (fst (call_engines cs st)) (snd (snd (call_engines cs st)))"
proof (induction cs arbitrary: st)
  case (Cons c cs)
  obtain ns st1 where step: "call_engine c st = (ns, st1)" by (metis prod.exhaust)
  have "fst (call_engines (c # cs) st) = ns @ fst (call_engines cs st1)"
    "snd (call_engines (c # cs) st) = snd (call_engines cs st1)"
    by (simp_all add: step split: prod.split)
  with told_append [OF call_told [OF step] Cons.IH [of st1]] show ?case by (simp only:)
qed simp

text \<open>C35: over any sequence of ticks, stops, pending stops, legs closed by hand and runs finished by the fills of other
  threads, whatever else changes the tables and the live states in between, a run is told to be unable to act only
  when it is not on record as unable, and able again only when it is; it also leaves the record, with nothing told,
  when it is finished, by a stop that found it flat or by a fill; and at the end it is on record exactly if its last
  note says so.  So each episode is told once, however many ticks and retries it lasts.\<close>

theorem episodes_are_said_once:
  "read_notes rid (fst (call_engines cs st)) (rid \<in> snd st) = Some (rid \<in> snd (snd (call_engines cs st)))"
  using calls_told [of st cs] by (simp add: told_def)

text \<open>A run on record that holds nothing and is stopped with no session is taken off the record by the stop, and nothing
  is told.\<close>

definition episode_world :: "bool \<Rightarrow> unit tick_world" where
  "episode_world key =
     \<lparr>tw_exit =
        \<lparr> xe_leg_number = length, xe_logins = (\<lambda>t. None), xe_session = None, xe_account = None, xe_session_for = (\<lambda>t. None),
          xe_place = (\<lambda>v x. Some (True, Some ''9'', None)), xe_text = (\<lambda>e. ''refused''), xe_recorded = (\<lambda>t. True),
          xe_acked = (\<lambda>t. True), xe_before = (\<lambda>t es. es), xe_during = (\<lambda>t es. es), xe_replay = (\<lambda>b es. es) \<rparr>,
      tw_stop =
        \<lparr> se_has_key = key, se_strategy_user = ''u'', se_acks = (\<lambda>es. (False, es)), se_race = id, se_session_at = (\<lambda>b. None),
          se_cancel = (\<lambda>v b. None), se_has_module = (\<lambda>b. True), se_status = (\<lambda>v b. None), se_snapshot = (\<lambda>b f es. es),
          se_cancelled = (\<lambda>b r es. es) \<rparr>,
      tw_tokens = (\<lambda>l. (''t'', ''u'')), tw_now = 5, tw_product = ''MIS'', tw_limits = (\<lambda>k. sample_tick_strategy), tw_earlier = 0\<rparr>"

definition episode_state :: "run_state \<Rightarrow> nat set \<Rightarrow> engine_state \<times> nat set" where
  "episode_state s noted =
     ((Map.empty(1 \<mapsto> s),
       \<lparr> sm_strategies = [\<lparr>st_id = 1, st_user = ''u'', st_kind = Batch, st_status = Running, st_current_run = Some 1\<rparr>],
         sm_runs =
           [\<lparr> sr_id = 1, sr_strategy = 1, sr_mode = Sandbox_run, sr_broker = ''sandbox'', sr_account = None, sr_stopped_at = None,
              sr_stop_reason = None, sr_stop_requested_at = None, sr_stop_requested_reason = None, sr_pnl_realized = 0,
              sr_pnl_peak = 0, sr_pnl_trough = 0 \<rparr>],
         sm_orders = [] \<rparr>), noted)"

lemma flat_stop_leaves_the_record:
  "fst (call_engines [Stop (episode_world False) ''u'' 1 ''manual''] (episode_state (new_run_state 1 1) {1})) = [Finished 1] \<and>
   snd (snd (call_engines [Stop (episode_world False) ''u'' 1 ''manual''] (episode_state (new_run_state 1 1) {1}))) = {}"
  by code_simp

end
