(* ===== verification/StrategyBrokerLaws.thy ===== *)
theory StrategyBrokerLaws
  imports StrategyBroker StrategyRunLaws
begin

text \<open>
  What holding a run to its broker guarantees: whatever sessions come and go, and whatever is written to
  the tables in between, all that is sent for a run goes to one broker and, where the run names one, to
  one account.
\<close>

subsection \<open>A binding stays\<close>

definition bound_as :: "nat \<Rightarrow> broker_binding \<Rightarrow> sm_db \<Rightarrow> bool" where
  "bound_as rid b db \<longleftrightarrow> (\<exists>r. find_run rid db = Some r \<and> run_binding r = b)"

lemma known_is_not_unbound: "binding_known (run_binding r) \<Longrightarrow> sr_broker r \<notin> set UNBOUND_RUN_BROKERS"
  by (auto simp: binding_known_def run_binding_def broker_key_def UNBOUND_BROKERS_def UNBOUND_RUN_BROKERS_def
    str_lower_def strip_def char_lower_def blank_def)

lemma find_updated:
  assumes "\<And>r. P r \<Longrightarrow> key (f r) = key r" "find (\<lambda>r. key r = k) rs = Some r"
  shows "find (\<lambda>r. key r = k) (sql_update P f rs) = Some (if P r then f r else r)"
  using assms(2)
proof (induction rs)
  case (Cons x xs)
  show ?case
  proof (cases "key x = k")
    case True
    with Cons.prems assms(1) [of x] show ?thesis by (auto simp: sql_update_def)
  next
    case False
    with Cons assms(1) [of x] show ?thesis by (auto simp: sql_update_def)
  qed
qed simp

lemma bound_update_runs:
  assumes "bound_as rid b db" "\<And>r. P r \<Longrightarrow> sr_id (f r) = sr_id r"
    "\<And>r. P r \<Longrightarrow> run_binding r = b \<Longrightarrow> run_binding (f r) = b"
  shows "bound_as rid b (snd (update_runs P f db))"
proof -
  from assms(1) obtain r where r: "find_run rid db = Some r" "run_binding r = b" by (auto simp: bound_as_def)
  then have "find (\<lambda>r. sr_id r = rid) (sm_runs db) = Some r" by (simp add: find_run_def)
  from find_updated [OF assms(2) this] r(2) assms(3) show ?thesis
    by (auto simp: bound_as_def find_run_def update_runs_def)
qed

lemma bound_other_tables:
  "bound_as rid b (snd (update_strategies P f db)) = bound_as rid b db"
  "bound_as rid b (snd (update_orders Q g db)) = bound_as rid b db"
  by (simp_all add: bound_as_def find_run_def update_strategies_def update_orders_def)

lemma bound_closed:
  "bound_as rid b db \<Longrightarrow> bound_as rid b (snd (update_runs P (close_row now reason figures) db))"
  by (rule bound_update_runs) (auto simp: close_row_def run_binding_def split: prod.split)

lemma bound_both:
  assumes "bound_as rid b db" "\<And>db. bound_as rid b db \<Longrightarrow> bound_as rid b (snd (u db))" "\<And>db. bound_as rid b db \<Longrightarrow> bound_as rid b (snd (v db))"
  shows "bound_as rid b (snd (both_updates u v db))"
  using assms by (auto simp: both_updates_def split: prod.split) (metis snd_conv)

lemma bound_detached: "bound_as rid b db \<Longrightarrow> bound_as rid b (snd (finish_detached_run now k sid reason figures db))"
  by (simp add: finish_detached_run_def Let_def bound_closed)

lemma bound_bind:
  assumes "bound_as rid b db" "binding_known b"
  shows "bound_as rid b (snd (bind_run_broker k broker account db))"
proof -
  have "bound_as rid b (snd (update_runs
      (\<lambda>r. sr_id r = k \<and> sr_mode r = Live_run \<and> sr_stopped_at r = None \<and> sr_broker r \<in> set UNBOUND_RUN_BROKERS)
      (\<lambda>r. r\<lparr>sr_broker := broker, sr_account := (if account = Some [] then None else account)\<rparr>) db))"
    using known_is_not_unbound assms(2) by (intro bound_update_runs [OF assms(1)]) auto
  with assms(1) show ?thesis by (simp add: bind_run_broker_def)
qed

lemma bound_reopen: "bound_as rid b db \<Longrightarrow> bound_as rid b (snd (reopen_run_for_late_entry_fill now id k db))"
proof -
  assume b: "bound_as rid b db"
  have runs: "bound_as rid b (snd (update_runs P (reopen_run_row now reason) db))" for P reason
    by (rule bound_update_runs [OF b]) (auto simp: reopen_run_row_def run_binding_def)
  show ?thesis
    unfolding reopen_run_for_late_entry_fill_def Let_def prod.case_eq_if
    by (simp add: b runs bound_other_tables split: option.split)
qed

text \<open>Whatever is done to the tables, a run that knows its broker keeps it, and its account.\<close>

lemma bound_step:
  assumes "bound_as rid b db" "binding_known b"
  shows "bound_as rid b (snd (do_run_op rd now op db))"
proof (cases op)
  case (Create sid mode broker account)
  with assms(1) show ?thesis by (auto simp: do_run_op_def create_run_def Let_def bound_as_def find_run_def find_append)
next
  case (Bind k broker account)
  with bound_bind [OF assms] show ?thesis by (simp add: do_run_op_def)
next
  case (Finish_release k sid reason figures)
  have "bound_as rid b (snd (finish_run_and_release_strategy now k sid reason figures db))"
    unfolding finish_run_and_release_strategy_def
    by (rule bound_both [OF assms(1)]) (simp_all add: bound_closed bound_other_tables)
  with Finish_release show ?thesis by (simp add: do_run_op_def)
next
  case (Finish_empty k sid reason figures)
  have "bound_as rid b (snd (finish_empty_unlinked_run_and_release_claim now k sid reason figures db))"
    unfolding finish_empty_unlinked_run_and_release_claim_def Let_def
    by (rule bound_both [OF assms(1)]) (simp_all add: bound_closed bound_other_tables)
  with Finish_empty show ?thesis by (simp add: do_run_op_def)
next
  case (Request_stop k reason)
  have "bound_as rid b (snd (update_runs P (\<lambda>r. r\<lparr>sr_stop_requested_at := Some now, sr_stop_requested_reason := Some reason\<rparr>) db))" for P
    by (rule bound_update_runs [OF assms(1)]) (auto simp: run_binding_def)
  with Request_stop show ?thesis by (simp add: do_run_op_def record_run_stop_request_def prod.case_eq_if)
next
  case (Reconcile k)
  have "bound_as rid b (snd (update_runs P (\<lambda>r. r\<lparr>sr_pnl_realized := x\<rparr>) db))" for P x
    by (rule bound_update_runs [OF assms(1)]) (auto simp: run_binding_def)
  with Reconcile assms(1) show ?thesis
    by (simp add: do_run_op_def reconcile_run_pnl_def prod.case_eq_if split: option.split)
qed (use assms bound_detached bound_reopen in \<open>simp_all add: do_run_op_def claim_strategy_for_run_def set_strategy_status_def
  release_strategy_def finish_unlinked_run_and_release_claim_def bound_other_tables prod.case_eq_if\<close>)

subsection \<open>The calls of a run\<close>

datatype venue_call = Place_order sent_order | Cancel_order string | Read_status string

record 'f pipes =
  pp_place :: "venue \<Rightarrow> sent_order \<Rightarrow> pipe_answer"
  pp_cancel :: "venue \<Rightarrow> string \<Rightarrow> pipe_answer"
  pp_has_module :: "string \<Rightarrow> bool"
  pp_status :: "venue \<Rightarrow> string \<Rightarrow> 'f option"

definition venue_of_call :: "'f pipes \<Rightarrow> run_mode \<Rightarrow> broker_session option \<Rightarrow> broker_binding option \<Rightarrow> venue_call \<Rightarrow> venue option" where
  "venue_of_call pp mode session binding c =
     (case c of
        Place_order ord \<Rightarrow> snd (dispatch_order mode session binding (pp_place pp) ord)
      | Cancel_order bid \<Rightarrow> snd (cancel_strategy_order mode session binding (pp_has_module pp) (pp_cancel pp) bid)
      | Read_status bid \<Rightarrow> snd (fetch_order_status mode session binding (pp_status pp) bid))"

text \<open>The session is on the broker of the binding and, where it names one, on its account.\<close>

definition reaches :: "broker_session \<Rightarrow> broker_binding \<Rightarrow> bool" where
  "reaches s b \<longleftrightarrow> binding_known b \<and> broker_key (bs_broker s) = broker_key (bb_broker b) \<and>
     (nonempty (bb_account b) \<longrightarrow> nonempty (bs_account s) \<and> account_key (bs_account s) = account_key (bb_account b))"

lemma bound_auth_reaches:
  "resolve_bound_auth session binding = Inr (token, broker) \<Longrightarrow>
   \<exists>s b. session = Some s \<and> binding = Some b \<and> token = bs_token s \<and> broker = bs_broker s \<and> reaches s b"
  by (auto simp: resolve_bound_auth_def Let_def resolve_session_def resolve_live_auth_def binding_refusal_def reaches_def
    split: option.splits if_splits)

lemma venue_of_call_reaches:
  assumes "venue_of_call pp Live_run session binding c = Some v"
  shows "\<exists>s b. session = Some s \<and> binding = Some b \<and> v = Broker_venue (bs_token s) (bs_broker s) \<and> reaches s b"
proof -
  obtain token broker where "resolve_bound_auth session binding = Inr (token, broker)" "v = Broker_venue token broker"
    using assms by (auto simp: venue_of_call_def dispatch_order_def cancel_strategy_order_def fetch_order_status_def
      split: venue_call.splits sum.splits if_splits)
  with bound_auth_reaches [of session binding token broker] show ?thesis by blast
qed

text \<open>
  What happens around a run: writes to the tables, and calls.  A call reads the binding under one session,
  with other writes before it is made, and goes out under another.
\<close>

datatype run_event =
    Store time run_op
  | Call "broker_session option" "string option" "(time \<times> run_op) list" "broker_session option" venue_call

definition store_ops :: "(rat \<Rightarrow> rat) \<Rightarrow> (time \<times> run_op) list \<Rightarrow> sm_db \<Rightarrow> sm_db" where
  "store_ops rd ops = fold (\<lambda>(now, op) db. snd (do_run_op rd now op db)) ops"

fun do_run_event ::
    "(rat \<Rightarrow> rat) \<Rightarrow> (time \<Rightarrow> string option) \<Rightarrow> 'f pipes \<Rightarrow> nat \<Rightarrow> run_event \<Rightarrow> (venue \<times> broker_session option) list \<times> sm_db
     \<Rightarrow> (venue \<times> broker_session option) list \<times> sm_db" where
  "do_run_event rd logins pp rid (Store now op) (calls, db) = (calls, snd (do_run_op rd now op db))"
| "do_run_event rd logins pp rid (Call s1 account ops s2 c) (calls, db) =
     (case find_run rid db of
        None \<Rightarrow> (calls, db)
      | Some r \<Rightarrow>
          (case binding_for logins s1 account (store_ops rd ops) rid (sr_mode r) db of
             (binding, db1) \<Rightarrow>
               (case venue_of_call pp (sr_mode r) s2 binding c of
                  None \<Rightarrow> (calls, db1)
                | Some v \<Rightarrow> (if sr_mode r = Live_run then calls @ [(v, s2)] else calls, db1))))"

lemma bound_store_ops: "bound_as rid b db \<Longrightarrow> binding_known b \<Longrightarrow> bound_as rid b (store_ops rd ops db)"
  unfolding store_ops_def by (induction ops arbitrary: db) (auto simp: bound_step)

lemma read_binding_bound:
  assumes "read_binding logins s1 account env bind rid db = (Some (mode, b), db1)"
  shows "bound_as rid b db1"
  using assms by (auto simp: read_binding_def bound_as_def Let_def split: option.splits if_splits)

lemma read_binding_keeps:
  assumes "bound_as rid b db" "binding_known b"
  shows "bound_as rid b (snd (read_binding logins s1 account env bind rid db))"
  using assms by (auto simp: read_binding_def bound_as_def Let_def)

lemma binding_for_bound:
  assumes "binding_for logins s1 account env rid mode db = (Some b, db1)"
  shows "bound_as rid b db1"
  using assms read_binding_bound [of logins s1 account env True rid db _ b db1]
  by (auto simp: binding_for_def binding_for_run_def split: if_splits prod.splits)

lemma binding_for_keeps:
  assumes "bound_as rid b db" "binding_known b"
  shows "bound_as rid b (snd (binding_for logins s1 account env rid mode db))"
  using read_binding_keeps [OF assms] assms(1)
  by (auto simp: binding_for_def binding_for_run_def prod.case_eq_if)

definition calls_bound :: "nat \<Rightarrow> (venue \<times> broker_session option) list \<times> sm_db \<Rightarrow> bool" where
  "calls_bound rid c \<longleftrightarrow> (\<forall>(v, so)\<in>set (fst c). \<exists>s b. so = Some s \<and> v = Broker_venue (bs_token s) (bs_broker s) \<and>
     bound_as rid b (snd c) \<and> reaches s b)"

lemma calls_bound_keep:
  assumes "calls_bound rid (calls, db)" "\<And>b. bound_as rid b db \<Longrightarrow> binding_known b \<Longrightarrow> bound_as rid b db1"
  shows "calls_bound rid (calls, db1)"
  using assms by (fastforce simp: calls_bound_def reaches_def)

lemma calls_bound_event: "calls_bound rid c \<Longrightarrow> calls_bound rid (do_run_event rd logins pp rid e c)"
proof (induction rd logins pp rid e c rule: do_run_event.induct)
  case (1 rd logins pp rid now op calls db)
  then show ?case by (simp add: calls_bound_keep bound_step)
next
  case (2 rd logins pp rid s1 account ops s2 c calls db)
  show ?case
  proof (cases "find_run rid db")
    case (Some r)
    obtain binding db1 where b: "binding_for logins s1 account (store_ops rd ops) rid (sr_mode r) db = (binding, db1)"
      by (metis prod.exhaust)
    have kept: "calls_bound rid (calls, db1)"
    proof (rule calls_bound_keep [OF 2])
      fix b'
      assume "bound_as rid b' db" "binding_known b'"
      from binding_for_keeps [OF this, of logins s1 account "store_ops rd ops" "sr_mode r"] b
      show "bound_as rid b' db1" by simp
    qed
    show ?thesis
    proof (cases "venue_of_call pp (sr_mode r) s2 binding c")
      case None
      with Some b kept show ?thesis by simp
    next
      case (Some v)
      show ?thesis
      proof (cases "sr_mode r")
        case Live_run
        with venue_of_call_reaches Some obtain s b' where v: "s2 = Some s" "binding = Some b'" "v = Broker_venue (bs_token s) (bs_broker s)" "reaches s b'"
          by metis
        with binding_for_bound b have "bound_as rid b' db1" by metis
        with v kept \<open>find_run rid db = Some r\<close> b Some Live_run show ?thesis by (auto simp: calls_bound_def)
      next
        case Sandbox_run
        with kept \<open>find_run rid db = Some r\<close> b Some show ?thesis by simp
      qed
    qed
  qed (use 2 in simp)
qed

text \<open>C31: whatever sessions are logged in when, and whatever is written to the tables in between, every order,
  cancellation and status read that leaves for a broker on behalf of a Live run goes out with the session's own
  token, on the broker the run's row names from then on and, where the row names an account, on that account.\<close>

theorem calls_reach_the_bound_broker:
  assumes "fold (do_run_event rd logins pp rid) es ([], db0) = (calls, db)" "(v, so) \<in> set calls"
  shows "\<exists>s r. so = Some s \<and> v = Broker_venue (bs_token s) (bs_broker s) \<and> find_run rid db = Some r \<and>
    broker_key (bs_broker s) = broker_key (sr_broker r) \<and>
    (nonempty (sr_account r) \<longrightarrow> account_key (bs_account s) = account_key (sr_account r))"
proof -
  have "calls_bound rid (fold (do_run_event rd logins pp rid) es ([], db0))"
    by (rule fold_invariant [where Q = "\<lambda>x. True"]) (simp_all add: calls_bound_event calls_bound_def [of rid "([], db0)"])
  with assms obtain s b where "so = Some s" "v = Broker_venue (bs_token s) (bs_broker s)" "bound_as rid b db" "reaches s b"
    by (fastforce simp: calls_bound_def)
  then show ?thesis by (auto simp: bound_as_def reaches_def run_binding_def)
qed

text \<open>A run that was opened while nobody was logged in, and two logins.\<close>

definition sample_unbound_db :: sm_db where
  "sample_unbound_db =
     \<lparr> sm_strategies = [\<lparr>st_id = 1, st_user = ''u'', st_kind = Signal, st_status = Running, st_current_run = Some 1\<rparr>],
       sm_runs = [\<lparr>sr_id = 1, sr_strategy = 1, sr_mode = Live_run, sr_broker = ''live'', sr_account = None, sr_stopped_at = None,
                   sr_stop_reason = None, sr_stop_requested_at = None, sr_stop_requested_reason = None, sr_pnl_realized = 0,
                   sr_pnl_peak = 0, sr_pnl_trough = 0\<rparr>],
       sm_orders = [] \<rparr>"

definition session_a :: broker_session where
  "session_a = \<lparr>bs_token = ''t1'', bs_broker = ''zerodha'', bs_account = Some ''AB1''\<rparr>"

definition session_b :: broker_session where
  "session_b = \<lparr>bs_token = ''t2'', bs_broker = ''angel'', bs_account = Some ''C2''\<rparr>"

definition sample_pipes :: "unit pipes" where
  "sample_pipes = \<lparr>pp_place = (\<lambda>v x. Some (True, Some ''1'', None)), pp_cancel = (\<lambda>v b. Some (True, None, None)),
     pp_has_module = (\<lambda>b. True), pp_status = (\<lambda>v b. None)\<rparr>"

definition sample_run_calls :: "(venue \<times> broker_session option) list \<times> sm_db" where
  "sample_run_calls =
     fold (do_run_event id (\<lambda>t. None) sample_pipes 1)
       [Call (Some session_a) (Some ''ab1'') [(5, Request_stop 1 ''manual'')] (Some session_a) (Cancel_order ''9''),
        Store 6 (Bind 1 ''angel'' (Some ''C2'')),
        Call (Some session_b) (Some ''C2'') [] (Some session_b) (Cancel_order ''9'')]
       ([], sample_unbound_db)"

theorem calls_reach_the_bound_broker_witness:
  "map fst (fst sample_run_calls) = [Broker_venue ''t1'' ''zerodha''] \<and>
   (\<exists>r. find_run 1 (snd sample_run_calls) = Some r \<and> broker_key (sr_broker r) = ''zerodha'')"
proof -
  have calls: "fst sample_run_calls = [(Broker_venue ''t1'' ''zerodha'', Some session_a)]" by code_simp
  then have "fold (do_run_event id (\<lambda>t. None) sample_pipes 1)
       [Call (Some session_a) (Some ''ab1'') [(5, Request_stop 1 ''manual'')] (Some session_a) (Cancel_order ''9''),
        Store 6 (Bind 1 ''angel'' (Some ''C2'')),
        Call (Some session_b) (Some ''C2'') [] (Some session_b) (Cancel_order ''9'')]
       ([], sample_unbound_db) = ([(Broker_venue ''t1'' ''zerodha'', Some session_a)], snd sample_run_calls)"
    unfolding sample_run_calls_def by (metis prod.collapse)
  from calls_reach_the_bound_broker [OF this, of "Broker_venue ''t1'' ''zerodha''" "Some session_a"]
  have "\<exists>r. find_run 1 (snd sample_run_calls) = Some r \<and> broker_key ''zerodha'' = broker_key (sr_broker r)"
    by (auto simp: session_a_def)
  moreover have "broker_key ''zerodha'' = ''zerodha''" by code_simp
  ultimately show ?thesis using calls by auto
qed

text \<open>
  The broker and the account a run is bound to are two reads: a login in between binds the run to the one
  broker's name with the other's account, and then neither session is let through.
\<close>

lemma two_reads_bind_two_sessions:
  "(case binding_for (\<lambda>t. None) (Some session_a) (bs_account session_b) id 1 Live_run sample_unbound_db of (b, db1) \<Rightarrow>
      b = Some \<lparr>bb_broker = ''zerodha'', bb_account = Some ''C2''\<rparr> \<and>
      resolve_bound_auth (Some session_a) b = Inl (Session_refused (Other_account ''zerodha'' (Some ''AB1'') (Some ''C2''))) \<and>
      resolve_bound_auth (Some session_b) b = Inl (Session_refused (Other_broker ''angel'' ''zerodha'')))"
  by code_simp

end
