(* ===== verification/StrategyExitLaws.thy ===== *)
theory StrategyExitLaws
  imports StrategyExit StrategyLegLaws StrategyBrokerLaws
begin

text \<open>
  What getting out guarantees: each exit order closes a position that was held, whole and once; and a stop
  whose exits are all refused leaves the run open, managed and able to exit again.
\<close>

subsection \<open>Letting a claim go\<close>

definition let_go :: "exit_target \<Rightarrow> run_state \<Rightarrow> run_state" where
  "let_go t s =
     change_leg (xt_leg t)
       (case xt_owner t of Live_owner \<Rightarrow> clear_exit | Superseded_owner \<Rightarrow> change_outgoing clear_outgoing_exit) s"

text \<open>The target's claim is the one that is held, and not yet bound to a row.\<close>

definition holds_claim :: "exit_target \<Rightarrow> run_state \<Rightarrow> bool" where
  "holds_claim t s \<longleftrightarrow> xt_token t \<noteq> None \<and>
     (case xt_owner t of
        Live_owner \<Rightarrow> (\<exists>l. find_leg (xt_leg t) s = Some l \<and> lg_exit_claim_token l = xt_token t \<and> lg_exit_order_id l = None \<and>
                        lg_position_ref l = xt_ref t)
      | Superseded_owner \<Rightarrow> (\<exists>og. outgoing_of (xt_leg t) s = Some og \<and> og_exit_claim_token og = xt_token t))"

lemma change_leg_twice:
  assumes "\<And>l. lg_id (g l) = lg_id l"
  shows "change_leg k f (change_leg k g s) = change_leg k (f \<circ> g) s"
  using assms by (simp add: change_leg_def)

lemma change_leg_commute:
  assumes "a \<noteq> b \<or> (\<forall>l. f (g l) = g (f l))" "\<And>l. lg_id (f l) = lg_id l" "\<And>l. lg_id (g l) = lg_id l"
  shows "change_leg a f (change_leg b g s) = change_leg b g (change_leg a f s)"
  using assms by (auto simp: change_leg_def)

lemma clears_commute:
  "clear_exit (change_outgoing h l) = change_outgoing h (clear_exit l)"
  by (simp add: clear_exit_def change_outgoing_def)

lemma let_go_commute: "let_go t (let_go u s) = let_go u (let_go t s)"
  unfolding let_go_def
  by (rule change_leg_commute) (auto simp: clears_commute split: exit_owner.split)

lemma fold_let_go: "fold let_go ts (let_go t s) = let_go t (fold let_go ts s)"
  by (induction ts arbitrary: s) (simp_all add: let_go_commute [of _ t])

lemma fold_let_go_commute: "fold let_go ts (fold let_go us s) = fold let_go us (fold let_go ts s)"
  by (induction us arbitrary: s) (simp_all add: fold_let_go)

lemma outgoing_change_leg:
  assumes "\<And>l. lg_id (f l) = lg_id l"
  shows "outgoing_of k (change_leg a f s) = (if k = a then (case find_leg a s of None \<Rightarrow> None | Some l \<Rightarrow> lg_superseded (f l)) else outgoing_of k s)"
  using assms by (simp add: outgoing_of_def find_change_leg split: option.split)

lemma holds_other:
  assumes "holds_claim t s" "(xt_leg u, xt_owner u) \<noteq> (xt_leg t, xt_owner t)"
  shows "holds_claim t (let_go u s)"
  using assms
  by (auto simp: holds_claim_def let_go_def find_change_leg outgoing_change_leg clear_exit_def change_outgoing_def outgoing_of_def
    split: exit_owner.splits option.splits)

subsection \<open>A refused exit\<close>

definition quiet_env :: "exit_env \<Rightarrow> bool" where
  "quiet_env env \<longleftrightarrow> (\<forall>t es. xe_before env t es = es \<and> xe_during env t es = es)"

definition refusing_env :: "exit_env \<Rightarrow> bool" where
  "refusing_env env \<longleftrightarrow> (\<forall>v x. \<not> dr_ok (normalise_answer (xe_place env v x)))"

lemma dispatch_refused: "refusing_env env \<Longrightarrow> \<not> dr_ok (fst (dispatch_order mode session binding (xe_place env) ord))"
  by (auto simp: refusing_env_def dispatch_order_def refused_result_def split: run_mode.split sum.split)

lemma dispatch_error_iff: "dr_error (fst (dispatch_order mode session binding place ord)) = None \<longleftrightarrow>
  dr_ok (fst (dispatch_order mode session binding place ord))"
  by (auto simp: dispatch_order_def refused_result_def normalise_answer_def split: run_mode.split sum.split option.split)

lemma update_order_keeps_runs [simp]:
  "sm_runs (snd (update_sm_order now n st b p q r db)) = sm_runs db"
  "sm_strategies (snd (update_sm_order now n st b p q r db)) = sm_strategies db"
  by (simp_all add: update_sm_order_def update_orders_def split: option.split)

lemma acknowledgement_keeps_runs [simp]:
  "sm_runs (snd (record_acknowledgement env now saved n r db)) = sm_runs db"
  "sm_strategies (snd (record_acknowledgement env now saved n r db)) = sm_strategies db"
  by (simp_all add: record_acknowledgement_def)

lemma release_token:
  assumes "holds_claim t s"
  shows "release_exit rid t (map_option Token (xt_token t)) (runs(rid \<mapsto> s)) = (True, runs(rid \<mapsto> let_go t s))"
  using assms
  by (cases "xt_owner t") (auto simp: holds_claim_def release_exit_def on_run_def release_leg_exit_def release_superseded_exit_def
    names_claim_def let_go_def)

lemma bind_then_release:
  assumes "holds_claim t s"
  shows "\<exists>s1. bind_exit rid t n (runs(rid \<mapsto> s)) = (True, runs(rid \<mapsto> s1)) \<and>
    release_exit rid t (Some (Row n)) (runs(rid \<mapsto> s1)) = (True, runs(rid \<mapsto> let_go t s))"
proof (cases "xt_owner t")
  case Live_owner
  let ?f = "\<lambda>l. l\<lparr>lg_exit_order_id := Some n\<rparr>"
  obtain l where l: "find_leg (xt_leg t) s = Some l" "lg_exit_claim_token l = xt_token t" "lg_exit_order_id l = None"
    "lg_position_ref l = xt_ref t" "xt_token t \<noteq> None"
    using assms Live_owner by (auto simp: holds_claim_def)
  have found: "find_leg (xt_leg t) (change_leg (xt_leg t) ?f s) = Some (?f l)" using l(1) by (simp add: find_change_leg)
  have "clear_exit \<circ> ?f = clear_exit" by (auto simp: clear_exit_def)
  then have "change_leg (xt_leg t) clear_exit (change_leg (xt_leg t) ?f s) = let_go t s"
    by (simp add: change_leg_twice let_go_def Live_owner)
  with l found Live_owner show ?thesis
    by (intro exI [of _ "change_leg (xt_leg t) ?f s"])
      (simp add: bind_exit_def release_exit_def on_run_def bind_live_exit_def release_leg_exit_def names_claim_def)
next
  case Superseded_owner
  let ?g = "\<lambda>og. og\<lparr>og_exit_order_id := Some n\<rparr>"
  let ?f = "change_outgoing ?g"
  obtain og where og: "outgoing_of (xt_leg t) s = Some og" "og_exit_claim_token og = xt_token t" "xt_token t \<noteq> None"
    using assms Superseded_owner by (auto simp: holds_claim_def)
  then obtain l where l: "find_leg (xt_leg t) s = Some l" "lg_superseded l = Some og"
    by (auto simp: outgoing_of_def split: option.splits)
  have found: "outgoing_of (xt_leg t) (change_leg (xt_leg t) ?f s) = Some (?g og)"
    using l by (simp add: outgoing_change_leg change_outgoing_def)
  have "change_outgoing clear_outgoing_exit (?f l) = change_outgoing clear_outgoing_exit l" for l
    by (cases "lg_superseded l") (simp_all add: change_outgoing_def clear_outgoing_exit_def)
  then have "change_outgoing clear_outgoing_exit \<circ> ?f = change_outgoing clear_outgoing_exit"
    by (simp add: fun_eq_iff)
  then have "change_leg (xt_leg t) (change_outgoing clear_outgoing_exit) (change_leg (xt_leg t) ?f s) = let_go t s"
    by (simp add: change_leg_twice let_go_def Superseded_owner)
  with og found Superseded_owner show ?thesis
    by (intro exI [of _ "change_leg (xt_leg t) ?f s"])
      (simp add: bind_exit_def release_exit_def on_run_def bind_superseded_exit_def release_superseded_exit_def names_claim_def)
qed

text \<open>A refused exit leaves a rejected row, and its claim is gone.\<close>

lemma send_refused:
  assumes "quiet_env env" "refusing_env env" "claim = (case row of Some n \<Rightarrow> Some (Row n) | None \<Rightarrow> map_option Token (xt_token t))"
    "release_exit rid t claim runs = (True, runs1)" "send_exit env now rid mode binding kind prd t row (runs, db) = ((x, evs), (runs2, db2))"
  shows "runs2 = runs1 \<and> sm_runs db2 = sm_runs db \<and> sm_strategies db2 = sm_strategies db \<and> \<not> xo_ok x"
proof -
  obtain r v where d: "dispatch_order mode (xe_session_for env t) binding (xe_place env)
      (build_order (xt_symbol t) (xt_exchange t) (exit_action (xt_position t)) (xt_qty t) prd EXIT_PRICETYPE) = (r, v)"
    by (metis prod.exhaust)
  have no: "\<not> dr_ok r" "dr_error r \<noteq> None"
    using dispatch_refused [OF assms(2)] dispatch_error_iff d by (metis fst_conv)+
  obtain acks db3 where a: "(case row of Some n \<Rightarrow> record_acknowledgement env now (xe_acked env t) n r db | None \<Rightarrow> ([], db)) = (acks, db3)"
    by (metis prod.exhaust)
  have "sm_runs db3 = sm_runs db \<and> sm_strategies db3 = sm_strategies db"
  proof (cases row)
    case None
    with a show ?thesis by simp
  next
    case (Some n)
    with a have "db3 = snd (record_acknowledgement env now (xe_acked env t) n r db)" by simp
    then show ?thesis by simp
  qed
  moreover have "xe_during env t (runs, db) = (runs, db)" using assms(1) by (simp add: quiet_env_def)
  ultimately show ?thesis
    using assms(4,5) no d a unfolding send_exit_def Let_def assms(3) [symmetric]
    by (auto simp: target_outcome_def xo_ok_def)
qed

lemma exit_one_refused:
  assumes "quiet_env env" "refusing_env env" "holds_claim t s"
    "exit_one env now rid mode binding kind prd t (runs(rid \<mapsto> s), db) = ((x, evs), (runs2, db2))"
  shows "runs2 = runs(rid \<mapsto> let_go t s) \<and> sm_runs db2 = sm_runs db \<and> sm_strategies db2 = sm_strategies db \<and> \<not> xo_ok x"
proof -
  have before: "xe_before env t es = es" for es using assms(1) by (cases es) (simp add: quiet_env_def)
  show ?thesis
  proof (cases "xe_recorded env t")
    case False
    then obtain evs1 where "send_exit env now rid mode binding kind prd t None (runs(rid \<mapsto> s), db) = ((x, evs1), (runs2, db2))"
      using assms(4) before by (auto simp: exit_one_def split: prod.splits)
    from send_refused [OF assms(1,2) refl _ this] release_token [OF assms(3)] show ?thesis by simp
  next
    case True
    obtain n db1 where n: "record_sm_order (exit_row env now rid kind t) db = (n, db1)" by (metis prod.exhaust)
    then have same: "sm_runs db1 = sm_runs db" "sm_strategies db1 = sm_strategies db"
      by (auto simp: record_sm_order_def Let_def)
    obtain s1 where s1: "bind_exit rid t n (runs(rid \<mapsto> s)) = (True, runs(rid \<mapsto> s1))"
      "release_exit rid t (Some (Row n)) (runs(rid \<mapsto> s1)) = (True, runs(rid \<mapsto> let_go t s))"
      using bind_then_release [OF assms(3)] by blast
    have "send_exit env now rid mode binding kind prd t (Some n) (runs(rid \<mapsto> s1), db1) = ((x, evs), (runs2, db2))"
      using assms(4) True n s1(1) before by (simp add: exit_one_def)
    from send_refused [OF assms(1,2) refl _ this] s1(2) same show ?thesis by simp
  qed
qed

lemma exit_targets_refused:
  assumes "quiet_env env" "refusing_env env" "\<forall>t\<in>set ts. holds_claim t s" "distinct (map (\<lambda>t. (xt_leg t, xt_owner t)) ts)"
    "exit_targets env now rid mode binding kind prd ts (runs(rid \<mapsto> s), db) = ((xs, evs), (runs2, db2))"
  shows "runs2 = runs(rid \<mapsto> fold let_go ts s) \<and> sm_runs db2 = sm_runs db \<and> sm_strategies db2 = sm_strategies db \<and>
    (\<forall>x\<in>set xs. \<not> xo_ok x) \<and> length xs = length ts"
  using assms(3-5)
proof (induction ts arbitrary: s db xs evs)
  case (Cons t ts)
  obtain x evs1 runs1 db1 where one: "exit_one env now rid mode binding kind prd t (runs(rid \<mapsto> s), db) = ((x, evs1), (runs1, db1))"
    by (metis prod.exhaust)
  have x: "runs1 = runs(rid \<mapsto> let_go t s)" "sm_runs db1 = sm_runs db" "sm_strategies db1 = sm_strategies db" "\<not> xo_ok x"
    using exit_one_refused [OF assms(1,2) _ one] Cons.prems(1) by auto
  obtain ys evs2 runs3 db3 where more: "exit_targets env now rid mode binding kind prd ts (runs1, db1) = ((ys, evs2), (runs3, db3))"
    by (metis prod.exhaust)
  from Cons.prems(3) have xs: "xs = x # ys" and final: "runs3 = runs2" "db3 = db2"
    unfolding exit_targets.simps one prod.case more by simp_all
  from more have rest: "exit_targets env now rid mode binding kind prd ts (runs(rid \<mapsto> let_go t s), db1) = ((ys, evs2), (runs2, db2))"
    unfolding final x(1) .
  have "\<forall>u\<in>set ts. holds_claim u (let_go t s)"
    using Cons.prems(1,2) by (auto intro!: holds_other)
  from Cons.IH [OF this _ rest] Cons.prems(2) x xs show ?case by auto
qed simp

subsection \<open>The claims of a call\<close>

lemma in_flight_kept:
  assumes "find_leg k s = Some l" "exit_in_flight l"
  shows "find_leg k (snd (claim_legs_for_exit xs kind s)) = Some l"
  using assms(1)
proof (induction xs arbitrary: s)
  case (Cons x xs)
  have other: "find_leg k (change_leg (fst x) (claim_exit_row (snd x) kind) s) = Some l" if "k \<noteq> fst x"
    using that Cons.prems by (simp add: find_change_leg)
  have step: "snd (claim_legs_for_exit (x # xs) kind s) \<in>
      {snd (claim_legs_for_exit xs kind s)} \<union>
      (if k = fst x then {} else {snd (claim_legs_for_exit xs kind (change_leg (fst x) (claim_exit_row (snd x) kind) s))})"
    using Cons.prems assms(2) by (auto split: option.split prod.split)
  then show ?case using Cons.IH [OF Cons.prems] Cons.IH [OF other] by (auto split: if_splits)
qed simp

lemma claimed_legs:
  assumes "claim_legs_for_exit xs kind s = ((claimed, unfilled), s1)" "distinct (map fst xs)"
  shows "(\<forall>l\<in>set claimed. find_leg (lg_id l) s1 = Some l \<and> lg_exit_claim_token l \<noteq> None \<and> lg_exit_order_id l = None) \<and>
    distinct (map lg_id claimed) \<and> lg_id ` set claimed \<subseteq> fst ` set xs"
  using assms
proof (induction xs arbitrary: s claimed unfilled)
  case (Cons x xs)
  show ?case
  proof (cases "\<exists>l. find_leg (fst x) s = Some l \<and> lg_status l = Open_leg \<and> \<not> exit_in_flight l \<and> lg_entry_status l = Entry_complete")
    case False
    then obtain u where "claim_legs_for_exit xs kind s = ((claimed, u), s1)"
      using Cons.prems(1) by (auto split: option.splits if_splits prod.splits)
    from Cons.IH [OF this] Cons.prems(2) show ?thesis by auto
  next
    case True
    then obtain l where l: "find_leg (fst x) s = Some l" "lg_status l = Open_leg" "\<not> exit_in_flight l" "lg_entry_status l = Entry_complete" by blast
    let ?l = "claim_exit_row (snd x) kind l" and ?s = "change_leg (fst x) (claim_exit_row (snd x) kind) s"
    obtain c where c: "claim_legs_for_exit xs kind ?s = ((c, unfilled), s1)" "claimed = ?l # c"
      using Cons.prems(1) l by (auto split: prod.splits)
    have "find_leg (fst x) ?s = Some ?l" using l(1) by (simp add: find_change_leg)
    moreover have "exit_in_flight ?l" by (simp add: exit_in_flight_def claim_exit_row_def)
    ultimately have "find_leg (fst x) s1 = Some ?l" using in_flight_kept [of "fst x" ?s ?l xs kind] c(1) by simp
    with c(2) Cons.IH [OF c(1)] Cons.prems(2) find_leg_id [OF l(1)] l(3) show ?thesis
      by (auto simp: exit_in_flight_def claim_exit_row_def)
  qed
qed simp

subsection \<open>Letting all claims go again\<close>

definition clean_outgoing :: "run_state \<Rightarrow> bool" where
  "clean_outgoing s \<longleftrightarrow> (\<forall>l\<in>set (rs_legs s). \<forall>og. lg_superseded l = Some og \<longrightarrow>
     og_exit_claim_token og = None \<longrightarrow> og_exit_order_id og = None \<longrightarrow> og_exit_kind og = None)"

lemma change_leg_same: "(\<And>l. l \<in> set (rs_legs s) \<Longrightarrow> lg_id l = k \<Longrightarrow> f l = l) \<Longrightarrow> change_leg k f s = s"
  unfolding change_leg_def by (intro run_state.equality) (auto intro!: map_idI)

lemma change_leg_ids: "(\<And>l. lg_id (f l) = lg_id l) \<Longrightarrow> map lg_id (rs_legs (change_leg k f s)) = map lg_id (rs_legs s)"
  by (simp add: change_leg_def)

lemma only_leg:
  assumes "find_leg k s = Some l" "distinct (map lg_id (rs_legs s))" "x \<in> set (rs_legs s)" "lg_id x = k"
  shows "x = l"
  using assms find_leg_id [OF assms(1)] by (auto simp: distinct_map inj_on_def)

lemma unwind_live:
  assumes "claim_legs_for_exit xs kind s = ((claimed, unfilled), s1)" "distinct (map lg_id (rs_legs s))"
  shows "fold let_go (map live_target claimed) s1 = s"
  using assms
proof (induction xs arbitrary: s claimed unfilled)
  case (Cons x xs)
  show ?case
  proof (cases "\<exists>l. find_leg (fst x) s = Some l \<and> lg_status l = Open_leg \<and> \<not> exit_in_flight l \<and> lg_entry_status l = Entry_complete")
    case False
    then obtain u where "claim_legs_for_exit xs kind s = ((claimed, u), s1)"
      using Cons.prems(1) by (auto split: option.splits if_splits prod.splits)
    from Cons.IH [OF this Cons.prems(2)] show ?thesis .
  next
    case True
    then obtain l where l: "find_leg (fst x) s = Some l" "lg_status l = Open_leg" "\<not> exit_in_flight l" "lg_entry_status l = Entry_complete" by blast
    let ?f = "claim_exit_row (snd x) kind"
    let ?s = "change_leg (fst x) ?f s"
    obtain c where c: "claim_legs_for_exit xs kind ?s = ((c, unfilled), s1)" "claimed = ?f l # c"
      using Cons.prems(1) l by (auto split: prod.splits)
    have ids: "distinct (map lg_id (rs_legs ?s))" using Cons.prems(2) by (simp add: change_leg_ids)
    have lid: "lg_id l = fst x" using find_leg_id [OF l(1)] by simp
    have "fold let_go (map live_target claimed) s1 = let_go (live_target (?f l)) (fold let_go (map live_target c) s1)"
      by (simp add: c(2) fold_let_go)
    also have "\<dots> = change_leg (fst x) clear_exit ?s"
      unfolding Cons.IH [OF c(1) ids] using lid by (simp add: let_go_def live_target_def)
    also have "\<dots> = change_leg (fst x) (clear_exit \<circ> ?f) s" by (rule change_leg_twice) simp
    also have "\<dots> = s"
    proof (rule change_leg_same)
      fix y
      assume "y \<in> set (rs_legs s)" "lg_id y = fst x"
      then have "y = l" by (rule only_leg [OF l(1) Cons.prems(2)])
      with l(3) show "(clear_exit \<circ> ?f) y = y"
        by (auto simp: exit_in_flight_def clear_exit_def claim_exit_row_def intro!: leg.equality)
    qed
    finally show ?thesis .
  qed
qed simp

text \<open>The step of one leg, by cases.\<close>

lemma outgoing_targets_cases:
  obtains "outgoing_targets (x # xs) s = outgoing_targets xs s"
  | l og where "find_leg (fst x) s = Some l" "lg_superseded l = Some og" "og_exit_claim_token og = None" "og_exit_order_id og = None"
    "outgoing_targets (x # xs) s =
      (case outgoing_targets xs (change_leg (fst x) (change_outgoing (\<lambda>og. og\<lparr>og_exit_claim_token := Some (snd x)\<rparr>)) s) of
         (ts, s2) \<Rightarrow> (outgoing_target l (og\<lparr>og_exit_claim_token := Some (snd x)\<rparr>) # ts, s2))"
proof (cases "find_leg (fst x) s")
  case None
  then show ?thesis using that(1) by simp
next
  case (Some l)
  show ?thesis
  proof (cases "lg_superseded l")
    case None
    with Some show ?thesis using that(1) by simp
  next
    case og: (Some og)
    then have of_leg: "outgoing_of (fst x) s = Some og" using Some by (simp add: outgoing_of_def)
    show ?thesis
    proof (cases "og_exit_claim_token og = None \<and> og_exit_order_id og = None")
      case True
      then show ?thesis using that(2) [OF Some og] Some og of_leg by (simp add: claim_superseded_exit_def)
    next
      case False
      then show ?thesis using that(1) Some og of_leg by (simp add: claim_superseded_exit_def prod.case_eq_if)
    qed
  qed
qed

lemma outgoing_kept:
  "outgoing_of k s = Some og \<Longrightarrow> og_exit_claim_token og \<noteq> None \<Longrightarrow> outgoing_of k (snd (outgoing_targets xs s)) = Some og"
proof (induction xs arbitrary: s)
  case (Cons x xs)
  show ?case
  proof (cases rule: outgoing_targets_cases [of x xs s])
    case (2 l og1)
    then have "k \<noteq> fst x" using Cons.prems by (auto simp: outgoing_of_def)
    then have "outgoing_of k (change_leg (fst x) (change_outgoing (\<lambda>og. og\<lparr>og_exit_claim_token := Some (snd x)\<rparr>)) s) = Some og"
      using Cons.prems by (simp add: outgoing_change_leg)
    from Cons.IH [OF this Cons.prems(2)] show ?thesis unfolding 2(5) by (simp split: prod.split) (metis snd_conv)
  qed (use Cons in simp)
qed simp

lemma outgoing_keeps_live:
  assumes "holds_claim t s" "xt_owner t = Live_owner"
  shows "holds_claim t (snd (outgoing_targets xs s))"
  using assms(1)
proof (induction xs arbitrary: s)
  case (Cons x xs)
  show ?case
  proof (cases rule: outgoing_targets_cases [of x xs s])
    case (2 l og1)
    have "holds_claim t (change_leg (fst x) (change_outgoing (\<lambda>og. og\<lparr>og_exit_claim_token := Some (snd x)\<rparr>)) s)"
      using Cons.prems assms(2) by (auto simp: holds_claim_def find_change_leg change_outgoing_def)
    from Cons.IH [OF this] show ?thesis unfolding 2(5) by (simp split: prod.split) (metis snd_conv)
  qed (use Cons in simp)
qed simp

lemma outgoing_claims:
  assumes "outgoing_targets xs s = (ts, s2)" "distinct (map fst xs)"
  shows "(\<forall>t\<in>set ts. holds_claim t s2 \<and> xt_owner t = Superseded_owner) \<and> distinct (map xt_leg ts) \<and> xt_leg ` set ts \<subseteq> fst ` set xs"
  using assms
proof (induction xs arbitrary: s ts)
  case (Cons x xs)
  show ?case
  proof (cases rule: outgoing_targets_cases [of x xs s])
    case (2 l og)
    let ?og = "og\<lparr>og_exit_claim_token := Some (snd x)\<rparr>"
    let ?s = "change_leg (fst x) (change_outgoing (\<lambda>og. og\<lparr>og_exit_claim_token := Some (snd x)\<rparr>)) s"
    obtain us where us: "outgoing_targets xs ?s = (us, s2)" "ts = outgoing_target l ?og # us"
      using Cons.prems(1) 2(5) by (auto split: prod.splits)
    have "outgoing_of (fst x) ?s = Some ?og" using 2(1,2) by (simp add: outgoing_change_leg change_outgoing_def)
    from outgoing_kept [OF this, of xs] us(1) have "outgoing_of (fst x) s2 = Some ?og" by simp
    moreover have "lg_id l = fst x" using find_leg_id [OF 2(1)] by simp
    ultimately have "holds_claim (outgoing_target l ?og) s2" by (simp add: holds_claim_def outgoing_target_def)
    with Cons.IH [OF us(1)] Cons.prems(2) us(2) \<open>lg_id l = fst x\<close> show ?thesis
      by (auto simp: outgoing_target_def)
  qed (use Cons in auto)
qed simp

lemma unwind_outgoing:
  assumes "outgoing_targets xs s = (ts, s2)" "distinct (map lg_id (rs_legs s))" "clean_outgoing s"
  shows "fold let_go ts s2 = s"
  using assms
proof (induction xs arbitrary: s ts)
  case (Cons x xs)
  show ?case
  proof (cases rule: outgoing_targets_cases [of x xs s])
    case (2 l og)
    let ?f = "change_outgoing (\<lambda>og. og\<lparr>og_exit_claim_token := Some (snd x)\<rparr>)"
    let ?s = "change_leg (fst x) ?f s"
    let ?t = "outgoing_target l (og\<lparr>og_exit_claim_token := Some (snd x)\<rparr>)"
    obtain us where us: "outgoing_targets xs ?s = (us, s2)" "ts = ?t # us"
      using Cons.prems(1) 2(5) by (auto split: prod.splits)
    have ids: "distinct (map lg_id (rs_legs ?s))" using Cons.prems(2) by (simp add: change_leg_ids)
    have clean: "clean_outgoing ?s"
      using Cons.prems(3) by (auto simp: clean_outgoing_def change_leg_def change_outgoing_def)
    have lid: "lg_id l = fst x" using find_leg_id [OF 2(1)] by simp
    have "fold let_go ts s2 = let_go ?t (fold let_go us s2)" by (simp add: us(2) fold_let_go)
    also have "\<dots> = change_leg (fst x) (change_outgoing clear_outgoing_exit) ?s"
      unfolding Cons.IH [OF us(1) ids clean] using lid by (simp add: let_go_def outgoing_target_def)
    also have "\<dots> = change_leg (fst x) (change_outgoing clear_outgoing_exit \<circ> ?f) s" by (rule change_leg_twice) simp
    also have "\<dots> = s"
    proof (rule change_leg_same)
      fix y
      assume y: "y \<in> set (rs_legs s)" "lg_id y = fst x"
      then have "y = l" by (rule only_leg [OF 2(1) Cons.prems(2)])
      moreover have "og_exit_kind og = None" using Cons.prems(3) y 2 \<open>y = l\<close> by (auto simp: clean_outgoing_def)
      ultimately show "(change_outgoing clear_outgoing_exit \<circ> ?f) y = y"
        using 2(2-4) by (auto simp: change_outgoing_def clear_outgoing_exit_def intro!: leg.equality outgoing.equality)
    qed
    finally show ?thesis .
  qed (use Cons in auto)
qed simp

subsection \<open>A refused call\<close>

text \<open>The run's row, but for the broker it is bound to.\<close>

definition run_kept :: "nat \<Rightarrow> sm_run \<Rightarrow> sm_db \<Rightarrow> bool" where
  "run_kept rid r db \<longleftrightarrow> (\<exists>r1. find_run rid db = Some r1 \<and> sr_stopped_at r1 = sr_stopped_at r \<and>
     sr_stop_requested_reason r1 = sr_stop_requested_reason r \<and> sr_strategy r1 = sr_strategy r \<and> sr_mode r1 = sr_mode r)"

lemma run_kept_bind: "run_kept rid r db \<Longrightarrow> run_kept rid r (snd (bind_run_broker k broker account db))"
proof -
  assume "run_kept rid r db"
  then obtain r1 where r1: "find (\<lambda>r. sr_id r = rid) (sm_runs db) = Some r1" "sr_stopped_at r1 = sr_stopped_at r"
    "sr_stop_requested_reason r1 = sr_stop_requested_reason r" "sr_strategy r1 = sr_strategy r" "sr_mode r1 = sr_mode r"
    by (auto simp: run_kept_def find_run_def)
  have "run_kept rid r (snd (update_runs P (\<lambda>r. r\<lparr>sr_broker := broker, sr_account := a\<rparr>) db))" for P a
    using find_updated [where P = P and key = sr_id and f = "\<lambda>r. r\<lparr>sr_broker := broker, sr_account := a\<rparr>", OF _ r1(1)] r1(2-)
    by (auto simp: run_kept_def find_run_def update_runs_def)
  with \<open>run_kept rid r db\<close> show ?thesis by (simp add: bind_run_broker_def)
qed

lemma bind_strategies [simp]: "sm_strategies (snd (bind_run_broker k broker account db)) = sm_strategies db"
  by (simp add: bind_run_broker_def update_runs_def)

lemma read_binding_kept:
  assumes "run_kept rid r db"
  shows "run_kept rid r (snd (read_binding logins session account id b k db)) \<and>
    sm_strategies (snd (read_binding logins session account id b k db)) = sm_strategies db"
  using assms run_kept_bind [OF assms] by (auto simp: read_binding_def Let_def split: option.split)

lemma binding_for_kept:
  assumes "run_kept rid r db"
  shows "run_kept rid r (snd (binding_for logins session account id k mode db)) \<and>
    sm_strategies (snd (binding_for logins session account id k mode db)) = sm_strategies db"
  using assms read_binding_kept [OF assms] by (auto simp: binding_for_def binding_for_run_def prod.case_eq_if)

lemma run_kept_runs: "sm_runs db1 = sm_runs db \<Longrightarrow> run_kept rid r db1 = run_kept rid r db"
  by (simp add: run_kept_def find_run_def)

lemma clean_outgoing_cong:
  assumes "map lg_superseded (rs_legs s1) = map lg_superseded (rs_legs s)"
  shows "clean_outgoing s1 = clean_outgoing s"
proof -
  have "clean_outgoing x \<longleftrightarrow> (\<forall>v\<in>set (map lg_superseded (rs_legs x)). \<forall>og. v = Some og \<longrightarrow>
      og_exit_claim_token og = None \<longrightarrow> og_exit_order_id og = None \<longrightarrow> og_exit_kind og = None)" for x
    by (auto simp: clean_outgoing_def)
  with assms show ?thesis by (simp only:)
qed

lemma claim_legs_frame:
  "map lg_id (rs_legs (snd (claim_legs_for_exit xs kind s))) = map lg_id (rs_legs s) \<and>
   clean_outgoing (snd (claim_legs_for_exit xs kind s)) = clean_outgoing s"
proof (induction xs arbitrary: s)
  case (Cons x xs)
  let ?s = "change_leg (fst x) (claim_exit_row (snd x) kind) s"
  have "map lg_id (rs_legs ?s) = map lg_id (rs_legs s)" by (simp add: change_leg_ids)
  moreover have "map lg_superseded (rs_legs ?s) = map lg_superseded (rs_legs s)"
    by (simp add: change_leg_def claim_exit_row_def)
  then have "clean_outgoing ?s = clean_outgoing s" by (rule clean_outgoing_cong)
  ultimately show ?case using Cons.IH [of s] Cons.IH [of ?s] by (simp add: prod.case_eq_if split: option.split)
qed simp

lemma claimed_targets_hold:
  assumes "claim_legs_for_exit xs kind s = ((claimed, unfilled), s1)" "outgoing_targets ys s1 = (outs, s2)"
    "distinct (map fst xs)" "distinct (map fst ys)"
  shows "(\<forall>t\<in>set (map live_target claimed @ outs). holds_claim t s2) \<and>
    distinct (map (\<lambda>t. (xt_leg t, xt_owner t)) (map live_target claimed @ outs))"
proof -
  note live = claimed_legs [OF assms(1,3)] and out = outgoing_claims [OF assms(2,4)]
  have "holds_claim (live_target l) s2" if "l \<in> set claimed" for l
  proof -
    have "holds_claim (live_target l) s1" using live that by (auto simp: holds_claim_def live_target_def)
    from outgoing_keeps_live [OF this, of ys] assms(2) show ?thesis by (simp add: live_target_def)
  qed
  moreover have "distinct (map (\<lambda>t. (xt_leg t, xt_owner t)) (map live_target claimed))"
    using live by (auto simp: live_target_def distinct_map inj_on_def)
  moreover have "distinct (map (\<lambda>t. (xt_leg t, xt_owner t)) outs)"
    using out by (auto simp: distinct_map inj_on_def)
  ultimately show ?thesis using out by (fastforce simp: live_target_def)
qed

lemma exit_legs_refused:
  assumes "quiet_env env" "refusing_env env" "runs rid = Some s" "distinct (map lg_id (rs_legs s))" "clean_outgoing s"
    "distinct (map fst lids)" "run_kept rid r db" "exit_legs env now rid mode kind prd lids (runs, db) = ((xs, evs), (runs1, db1))"
  shows "runs1 = runs \<and> run_kept rid r db1 \<and> sm_strategies db1 = sm_strategies db \<and> (\<forall>x\<in>set xs. \<not> xo_ok x)"
proof -
  let ?live = "map (\<lambda>(l, live, old). (l, live)) lids" and ?old = "map (\<lambda>(l, live, old). (l, old)) lids"
  have ids: "distinct (map fst ?live)" "distinct (map fst ?old)" using assms(6) by (simp_all add: case_prod_beta comp_def)
  obtain claimed unfilled s1 where c: "claim_legs_for_exit ?live kind s = ((claimed, unfilled), s1)" by (metis prod.exhaust)
  obtain outs s2 where outs: "outgoing_targets ?old s1 = (outs, s2)" by (metis prod.exhaust)
  let ?ts = "map live_target claimed @ outs"
  obtain binding db2 where b: "(if ?ts = [] then (None, db)
      else binding_for (xe_logins env) (xe_session env) (xe_account env) id rid mode db) = (binding, db2)" by (metis prod.exhaust)
  obtain ys evs1 runs2 db3 where t: "exit_targets env now rid mode binding kind prd ?ts (runs(rid \<mapsto> s2), db2) = ((ys, evs1), (runs2, db3))"
    by (metis prod.exhaust)
  have res: "xs = ys @ map unfilled_outcome unfilled" "runs1 = runs2" "db1 = db3"
    using assms(8)
    unfolding exit_legs_def prod.case Let_def on_run_def assms(3) option.case c fun_upd_same outs fun_upd_upd b t by simp_all
  have "distinct (map lg_id (rs_legs s1)) \<and> clean_outgoing s1"
    using claim_legs_frame [of ?live kind s] c assms(4,5) by simp
  then have "fold let_go outs s2 = s1" using unwind_outgoing [OF outs] by simp
  then have unwound: "fold let_go ?ts s2 = s"
    using unwind_live [OF c assms(4)] by (simp add: fold_let_go_commute [of outs])
  have "run_kept rid r db2 \<and> sm_strategies db2 = sm_strategies db"
    using b assms(7) binding_for_kept [OF assms(7), of "xe_logins env" "xe_session env" "xe_account env" rid mode]
    by (auto split: if_splits)
  moreover note exit_targets_refused [OF assms(1,2) _ _ t] claimed_targets_hold [OF c outs ids]
  ultimately show ?thesis
    using res unwound run_kept_runs [of db3 db2 rid r] assms(3) by (auto simp: xo_ok_def unfilled_outcome_def fun_upd_idem)
qed

subsection \<open>A refused stop\<close>

text \<open>Nothing is repaired, no order of the run has news, and nobody else writes.\<close>

definition no_news :: "'f stop_env \<Rightarrow> bool" where
  "no_news sv \<longleftrightarrow> (\<forall>runs db. se_acks sv (runs, db) = (False, (runs, db))) \<and> (\<forall>v b. se_status sv v b = None) \<and>
     (\<forall>b r runs db. se_cancelled sv b r (runs, db) = (runs, db)) \<and> se_race sv = id"

lemma no_fact: "no_news sv \<Longrightarrow> read_order_fact sv mode binding b es = es"
  by (auto simp: read_order_fact_def fetch_order_status_def no_news_def split: run_mode.split sum.split option.split)

lemma no_news_reconciles:
  assumes "no_news sv"
  shows "cancel_and_reconcile_working_entries sv rid mode binding (reconcile_working_exits sv rid mode binding es) = es"
proof -
  have "fold (read_order_fact sv mode binding) bs es = es" for bs
    by (induction bs arbitrary: es) (simp_all add: no_fact [OF assms])
  moreover have "cancel_working_entry sv mode binding b es = es" for b
    using assms by (cases es) (simp add: cancel_working_entry_def no_fact no_news_def)
  then have "fold (cancel_working_entry sv mode binding) bs es = es" for bs
    by (induction bs) simp_all
  ultimately show ?thesis by (simp add: cancel_and_reconcile_working_entries_def reconcile_working_exits_def)
qed

lemma request_recorded:
  assumes "distinct (map sr_id (sm_runs db))" "find_run rid db = Some run" "sr_stopped_at run = None"
    "record_run_stop_request now rid asked db = (rec, db1)" "rec \<noteq> Not_recorded"
  shows "\<exists>r. find_run rid db1 = Some r \<and> sr_stopped_at r = None \<and> sr_stop_requested_reason r \<noteq> None \<and> sr_mode r = sr_mode run \<and>
    sr_strategy r = sr_strategy run \<and> sm_strategies db1 = sm_strategies db"
proof -
  let ?P = "\<lambda>r. sr_id r = rid \<and> sr_stopped_at r = None \<and> sr_stop_requested_at r = None \<and> sr_stop_requested_reason r = None"
  let ?f = "\<lambda>r. r\<lparr>sr_stop_requested_at := Some now, sr_stop_requested_reason := Some asked\<rparr>"
  have run: "run \<in> set (sm_runs db)" "sr_id run = rid" using find_SomeD assms(2) unfolding find_run_def by fastforce+
  have db1: "db1 = snd (update_runs ?P ?f db)" using assms(4) by (simp add: record_run_stop_request_def prod.case_eq_if)
  have found: "find_run rid db1 = Some (if ?P run then ?f run else run)"
    using find_updated [where P = ?P and f = ?f and key = sr_id, OF _ assms(2) [unfolded find_run_def]]
    by (simp add: db1 update_runs_def find_run_def)
  have only: "x = y" if "x \<in> set (sm_runs db1)" "y \<in> set (sm_runs db1)" "sr_id x = sr_id y" for x y
  proof -
    have "map sr_id (sm_runs db1) = map sr_id (sm_runs db)" by (auto simp: db1 update_runs_def sql_update_def)
    with assms(1) have "distinct (map sr_id (sm_runs db1))" by simp
    with that show ?thesis by (auto simp: distinct_map inj_on_def)
  qed
  consider "row_count ?P (sm_runs db) = 1"
    | x where "x \<in> set (sm_runs db1)" "sr_id x = rid" "sr_stop_requested_reason x \<noteq> None"
  proof (cases "row_count ?P (sm_runs db) = 1")
    case False
    let ?old = "\<exists>x\<in>set (sm_runs db1). sr_id x = rid \<and> sr_stopped_at x = None \<and> sr_stop_requested_at x \<noteq> None \<and>
        sr_stop_requested_reason x \<noteq> None"
    have "fst (record_run_stop_request now rid asked db) =
        (if row_count ?P (sm_runs db) = 1 then New_request else if ?old then Existing_request else Not_recorded)"
      unfolding record_run_stop_request_def db1 update_runs_def prod.case snd_conv fst_conv ..
    then have "rec = (if ?old then Existing_request else Not_recorded)" unfolding assms(4) fst_conv if_not_P [OF False] .
    with assms(5) have ?old by (cases ?old) (simp_all only: if_False simp_thms)
    with that(2) show thesis by blast
  qed (rule that(1))
  then have "sr_stop_requested_reason (if ?P run then ?f run else run) \<noteq> None"
  proof cases
    case 1
    then obtain x where "x \<in> set (sm_runs db)" "?P x" unfolding row_count_def by (metis (mono_tags, lifting) filter_empty_conv length_0_conv zero_neq_one)
    with run assms(1) have "?P run" by (auto simp: distinct_map inj_on_def)
    then show ?thesis by simp
  next
    case (2 x)
    from find_SomeD [OF found [unfolded find_run_def]]
    have there: "(if ?P run then ?f run else run) \<in> set (sm_runs db1)" "sr_id (if ?P run then ?f run else run) = rid" by simp_all
    have "x = (if ?P run then ?f run else run)" by (rule only [OF 2(1) there(1)]) (simp only: 2(2) there(2))
    with 2(3) show ?thesis by (simp only: simp_thms)
  qed
  with found assms(3) show ?thesis by (auto simp: db1 update_runs_def)
qed

lemma stopping_same [simp]:
  "run_requires_management (s\<lparr>rs_stopping := True\<rparr>) = run_requires_management s" "managed_leg_ids (s\<lparr>rs_stopping := True\<rparr>) = managed_leg_ids s"
  "clean_outgoing (s\<lparr>rs_stopping := True\<rparr>) = clean_outgoing s"
  by (simp_all add: run_requires_management_def managed_leg_ids_def clean_outgoing_def)

lemma stop_exits_refused:
  assumes "quiet_env env" "refusing_env env"
    and bind: "binding_for (xe_logins env) (xe_session env) (xe_account env) id rid mode db = (binding, db2)"
    and es1: "cancel_and_reconcile_working_entries sv rid mode binding (reconcile_working_exits sv rid mode binding (runs, db2)) = (runs1, db1)"
    and "runs1 rid = Some s" "run_requires_management s" "distinct (map lg_id (rs_legs s))" "clean_outgoing s"
    and kept: "run_kept rid r db1" "sr_stopped_at r = None"
    and stop: "stop_exits env sv tokens now rid sid mode prd reason ((runs, db), noted) = ((a, evs), ((runs2, db3), noted1))"
  shows "(\<exists>problem exits. a = Stop_pending problem exits \<and> (\<forall>x\<in>set exits. \<not> xo_ok x)) \<and> runs2 = runs1 \<and> run_kept rid r db3 \<and>
    sm_strategies db3 = sm_strategies db1"
proof -
  have open_run: "\<not> run_closed rid x" if "run_kept rid r x" for x
    using that kept(2) by (auto simp: run_kept_def run_closed_def)
  let ?call = "exit_legs env now rid mode (stop_exit_kind reason) prd (map (\<lambda>l. (l, tokens l)) (managed_leg_ids s)) (runs1, db1)"
  obtain exits evs1 runs4 db4 where e: "?call = ((exits, evs1), (runs4, db4))"
    by (rule that [of "fst (fst ?call)" "snd (fst ?call)" "fst (snd ?call)" "snd (snd ?call)"]) (simp only: prod.collapse)
  have "distinct (map fst (map (\<lambda>l. (l, tokens l)) (managed_leg_ids s)))"
    using assms(7) by (simp add: managed_leg_ids_def distinct_map_filter comp_def)
  from exit_legs_refused [OF assms(1,2,5,7,8) this kept(1) e] assms(5,6) open_run [OF kept(1)] open_run [of db4]
  show ?thesis
    using stop e unfolding stop_exits_def prod.case Let_def bind es1
    by (auto simp: conclude_stop_def split: if_splits)
qed

text \<open>
  What a stop has in front of it when it sends its exits (or gives up before): the state after the
  acknowledgements were repaired, the session was checked, the statuses of the working exits were read
  and the working entries cancelled.
\<close>

definition before_exits :: "exit_env \<Rightarrow> 'f stop_env \<Rightarrow> nat \<Rightarrow> sm_run \<Rightarrow> engine_state \<Rightarrow> engine_state" where
  "before_exits env sv rid run es =
     (case se_acks sv es of (unresolved, runs1, db1) \<Rightarrow>
        if unresolved \<or> runs1 rid = None \<or> \<not> se_has_key sv then (runs1, db1)
        else (case (if sr_mode run = Live_run then refusal_for_run (xe_logins env) (xe_session env) (se_race sv) rid db1
                    else (None, db1)) of
                (Some refused, db2) \<Rightarrow> (runs1, db2)
              | (None, db2) \<Rightarrow>
                  (case binding_for (xe_logins env) (xe_session env) (xe_account env) id rid (sr_mode run) db2 of
                     (binding, db3) \<Rightarrow>
                       cancel_and_reconcile_working_entries sv rid (sr_mode run) binding
                         (reconcile_working_exits sv rid (sr_mode run) binding (runs1, db3)))))"

lemma stop_live_refused:
  assumes "quiet_env env" "refusing_env env"
    and acks: "se_acks sv es = (False, runs, db)" "runs rid = Some s0"
    and seen: "before_exits env sv rid run es = (runs1, db1)" "runs1 rid = Some s" "run_requires_management s"
      "distinct (map lg_id (rs_legs s))" "clean_outgoing s"
    and kept: "run_kept rid r db1" "sr_stopped_at r = None"
    and stop: "stop_live env sv tokens now prd rid run reason s0 ((runs, db), noted) = ((a, evs), ((runs2, db2), noted1))"
  shows "(\<exists>problem exits. a = Stop_pending problem exits \<and> (\<forall>x\<in>set exits. \<not> xo_ok x)) \<and> runs2 = runs1 \<and> run_kept rid r db2 \<and>
    sm_strategies db2 = sm_strategies db1"
proof (cases "se_has_key sv")
  case False
  with seen acks have e: "runs1 = runs" "db1 = db" "s = s0" by (auto simp: before_exits_def)
  with False stop kept seen(3) show ?thesis by (auto simp: stop_live_def Let_def stop_unreachable_def)
next
  case key: True
  define q where "q = (if sr_mode run = Live_run then refusal_for_run (xe_logins env) (xe_session env) (se_race sv) rid db else (None, db))"
  obtain refusal db3 where q3: "q = (refusal, db3)" by fastforce
  have seen1: "(runs1, db1) = (case refusal of Some x \<Rightarrow> (runs, db3) | None \<Rightarrow>
      (case binding_for (xe_logins env) (xe_session env) (xe_account env) id rid (sr_mode run) db3 of
         (binding, db4) \<Rightarrow> cancel_and_reconcile_working_entries sv rid (sr_mode run) binding
                         (reconcile_working_exits sv rid (sr_mode run) binding (runs, db4))))"
    using seen(1) [symmetric] key acks q3 unfolding before_exits_def q_def by (simp split: option.split)
  show ?thesis
  proof (cases refusal)
    case (Some x)
    with seen1 have e: "runs1 = runs" "db1 = db3" by simp_all
    have "sr_mode run = Live_run" using Some q3 by (auto simp: q_def split: if_splits)
    with Some q3 have "refusal_for_run (xe_logins env) (xe_session env) (se_race sv) rid db = (Some x, db3)" by (simp add: q_def)
    then have "stop_live env sv tokens now prd rid run reason s0 ((runs, db), noted) =
        stop_unreachable now rid (sr_strategy run) reason (run_requires_management s0) (Session_elsewhere x) ((runs, db3), noted)"
      using key \<open>sr_mode run = Live_run\<close> by (simp add: stop_live_def Let_def)
    moreover have "s0 = s" using e acks(2) seen(2) by simp
    ultimately show ?thesis using stop kept seen(3) e by (auto simp: stop_unreachable_def)
  next
    case None
    obtain binding db4 where b: "binding_for (xe_logins env) (xe_session env) (xe_account env) id rid (sr_mode run) db3 = (binding, db4)"
      by fastforce
    have "stop_live env sv tokens now prd rid run reason s0 ((runs, db), noted) =
        stop_exits env sv tokens now rid (sr_strategy run) (sr_mode run) prd reason ((runs, db3), noted)"
      using key None q3 by (cases "sr_mode run") (simp_all add: stop_live_def Let_def q_def)
    then have go: "stop_exits env sv tokens now rid (sr_strategy run) (sr_mode run) prd reason ((runs, db3), noted) =
        ((a, evs), ((runs2, db2), noted1))" using stop by simp
    have "cancel_and_reconcile_working_entries sv rid (sr_mode run) binding
        (reconcile_working_exits sv rid (sr_mode run) binding (runs, db4)) = (runs1, db1)"
      using seen1 None b by simp
    from stop_exits_refused [where runs = runs and rid = rid, OF assms(1,2) b this seen(2-5) kept go]
    show ?thesis .
  qed
qed

lemma stop_refused:
  assumes "quiet_env env" "refusing_env env"
    "find_run rid db = Some run" "sr_stopped_at run = None"
    "\<exists>x\<in>set (sm_strategies db). st_id x = sr_strategy run \<and> st_user x = se_strategy_user sv"
    "record_run_stop_request now rid asked db = (rec, db0)" "rec \<noteq> Not_recorded" "runs rid = Some s0"
    and seen: "before_exits env sv rid run (runs(rid \<mapsto> s0\<lparr>rs_stopping := True\<rparr>), db0) = (runs1, db1)" "runs1 rid = Some s"
      "run_requires_management s" "distinct (map lg_id (rs_legs s))" "clean_outgoing s"
    and kept: "run_kept rid r db1" "sr_stopped_at r = None"
    and stop: "stop_run env sv tokens now prd rid asked ((runs, db), noted) = ((a, evs), ((runs2, db2), noted1))"
  shows "(\<exists>problem exits. a = Stop_pending problem exits \<and> (\<forall>x\<in>set exits. \<not> xo_ok x)) \<and> runs2 = runs1 \<and> run_kept rid r db2 \<and>
    sm_strategies db2 = sm_strategies db1"
proof -
  let ?es = "(runs(rid \<mapsto> s0\<lparr>rs_stopping := True\<rparr>), db0)"
  obtain unresolved runs3 db3 where acks: "se_acks sv ?es = (unresolved, runs3, db3)" by (metis prod.exhaust)
  define reason where "reason = persisted_reason rid asked db0"
  define requested where "requested = (if rec = New_request then [Stop_requested] else [])"
  have run: "stop_run env sv tokens now prd rid asked ((runs, db), noted) =
      (if unresolved then
         ((Stop_pending Acks_unresolved [], requested @ [Stop_failed Acks_unresolved]), ((runs3, db3), noted))
       else case runs3 rid of
         None \<Rightarrow> ((Stop_pending State_unavailable [], requested @ [Stop_failed State_unavailable]), ((runs3, db3), noted))
       | Some s \<Rightarrow>
           (case stop_live env sv tokens now prd rid run reason s ((runs3, db3), noted) of
              ((a, evs), st1) \<Rightarrow> ((a, requested @ evs), st1)))"
    using assms(4,5,7)
    unfolding stop_run_def prod.case assms(3) option.case assms(6) Let_def on_run_def assms(8) mark_stopping_def
      reason_def requested_def
    by (simp add: acks split: option.split)
  show ?thesis
  proof (cases unresolved)
    case True
    with seen(1) acks have "runs1 = runs3" "db1 = db3" by (simp_all add: before_exits_def)
    with True run stop kept show ?thesis by auto
  next
    case False
    have "runs3 rid \<noteq> None"
    proof
      assume none: "runs3 rid = None"
      with seen(1) acks have "runs1 = runs3" by (simp add: before_exits_def)
      with none seen(2) show False by simp
    qed
    then obtain s3 where s3: "runs3 rid = Some s3" by blast
    obtain a1 evs1 runs4 db4 noted4 where parts:
      "stop_live env sv tokens now prd rid run reason s3 ((runs3, db3), noted) = ((a1, evs1), ((runs4, db4), noted4))"
      by (metis prod.exhaust)
    have "se_acks sv ?es = (False, runs3, db3)" using acks False by simp
    from stop_live_refused [where rid = rid, OF assms(1,2) this s3 seen kept parts]
    show ?thesis using run stop False s3 parts by auto
  qed
qed

text \<open>C29: a stop that is recorded, whose exits are all refused (or never sent, for want of a session, of the
  right one, or of a confirmed entry), while no other thread acts on the run between its steps, and
  which, after it has repaired acknowledgements, read the statuses of the working exits and
  cancelled the working entries, whatever news that brought, still has the run open and holding
  something (its legs have different ids, and an outgoing position of a flip that nobody claimed
  names no exit), answers that it is pending. The run stays open with the request it then had on it,
  its strategy and the live state are exactly the ones that were left when the exits were sent:
  every claim the stop took has been let go, so that each leg can be exited as before.\<close>

theorem refused_stop_keeps_the_run:
  assumes "quiet_env env" "refusing_env env"
    "find_run rid db = Some run" "sr_stopped_at run = None"
    "\<exists>x\<in>set (sm_strategies db). st_id x = sr_strategy run \<and> st_user x = se_strategy_user sv"
    "record_run_stop_request now rid asked db = (rec, db0)" "rec \<noteq> Not_recorded" "runs rid = Some s0"
    "before_exits env sv rid run (runs(rid \<mapsto> s0\<lparr>rs_stopping := True\<rparr>), db0) = (runs1, db1)" "runs1 rid = Some s"
    "run_requires_management s" "distinct (map lg_id (rs_legs s))" "clean_outgoing s"
    "find_run rid db1 = Some r" "sr_stopped_at r = None"
    "stop_run env sv tokens now prd rid asked ((runs, db), noted) = ((a, evs), ((runs2, db2), noted1))"
  shows "(\<exists>problem exits. a = Stop_pending problem exits \<and> (\<forall>x\<in>set exits. \<not> xo_ok x)) \<and> runs2 = runs1 \<and>
    (\<exists>r2. find_run rid db2 = Some r2 \<and> sr_stopped_at r2 = None \<and> sr_stop_requested_reason r2 = sr_stop_requested_reason r) \<and>
    sm_strategies db2 = sm_strategies db1"
proof -
  have "run_kept rid r db1" using assms(14) by (simp add: run_kept_def)
  from stop_refused [where runs = runs and rid = rid, OF assms(1-13) this assms(15,16)] assms(15) show ?thesis by (auto simp: run_kept_def)
qed

text \<open>When there is no news, what is left when the exits are sent is what there was, but for the flag that
  the run is stopping.\<close>

lemma no_news_before_exits:
  assumes "no_news sv" "runs rid \<noteq> None" "run_kept rid r db"
  shows "\<exists>db1. before_exits env sv rid run (runs, db) = (runs, db1) \<and> run_kept rid r db1 \<and> sm_strategies db1 = sm_strategies db"
proof -
  have acks: "se_acks sv (runs, db) = (False, runs, db)" and race: "se_race sv = id" using assms(1) by (simp_all add: no_news_def)
  define q where "q = (if sr_mode run = Live_run then refusal_for_run (xe_logins env) (xe_session env) (se_race sv) rid db else (None, db))"
  obtain refusal db2 where q2: "q = (refusal, db2)" by fastforce
  have db2: "run_kept rid r db2" "sm_strategies db2 = sm_strategies db"
    using q2 assms(3) read_binding_kept [OF assms(3), of "xe_logins env" "xe_session env" None False rid]
    by (auto simp: q_def refusal_for_run_def race prod.case_eq_if split: if_splits)
  obtain binding db3 where b: "binding_for (xe_logins env) (xe_session env) (xe_account env) id rid (sr_mode run) db2 = (binding, db3)"
    by fastforce
  have "run_kept rid r db3" "sm_strategies db3 = sm_strategies db2"
    using binding_for_kept [OF db2(1), of "xe_logins env" "xe_session env" "xe_account env" rid "sr_mode run"] b by simp_all
  with db2 assms(2,3) q2 b no_news_reconciles [OF assms(1)] show ?thesis
    unfolding before_exits_def acks q_def by (cases refusal) (auto simp: assms(3))
qed

lemma refused_stop_without_news:
  assumes "quiet_env env" "refusing_env env" "no_news sv"
    "find_run rid db = Some run" "sr_stopped_at run = None" "distinct (map sr_id (sm_runs db))"
    "\<exists>x\<in>set (sm_strategies db). st_id x = sr_strategy run \<and> st_user x = se_strategy_user sv"
    "fst (record_run_stop_request now rid asked db) \<noteq> Not_recorded"
    "runs rid = Some s" "run_requires_management s" "distinct (map lg_id (rs_legs s))" "clean_outgoing s"
    "stop_run env sv tokens now prd rid asked ((runs, db), noted) = ((a, evs), ((runs1, db1), noted1))"
  shows "(\<exists>problem exits. a = Stop_pending problem exits \<and> (\<forall>x\<in>set exits. \<not> xo_ok x)) \<and>
    runs1 = runs(rid \<mapsto> s\<lparr>rs_stopping := True\<rparr>) \<and>
    (\<exists>r. find_run rid db1 = Some r \<and> sr_stopped_at r = None \<and> sr_stop_requested_reason r \<noteq> None) \<and>
    sm_strategies db1 = sm_strategies db"
proof -
  let ?runs = "runs(rid \<mapsto> s\<lparr>rs_stopping := True\<rparr>)"
  obtain rec db0 where rec: "record_run_stop_request now rid asked db = (rec, db0)" "rec \<noteq> Not_recorded"
    using assms(8) by (metis prod.exhaust fst_conv)
  obtain r where r: "find_run rid db0 = Some r" "sr_stopped_at r = None" "sr_stop_requested_reason r \<noteq> None"
    "sm_strategies db0 = sm_strategies db" using request_recorded [OF assms(6,4,5) rec] by blast
  then have "run_kept rid r db0" by (simp add: run_kept_def)
  moreover have "?runs rid \<noteq> None" by simp
  ultimately obtain db2 where seen: "before_exits env sv rid run (?runs, db0) = (?runs, db2)" "run_kept rid r db2"
    "sm_strategies db2 = sm_strategies db0" using no_news_before_exits [OF assms(3)] by blast
  from stop_refused [where runs = runs and rid = rid, OF assms(1,2,4,5,7) rec assms(9) seen(1) _ _ _ _ seen(2) r(2) assms(13)]
    assms(10-12) r seen(3) show ?thesis by (auto simp: run_kept_def)
qed

subsection \<open>What is sent\<close>

lemma send_exit_outcome:
  "fst (fst (send_exit env now rid mode binding kind prd t row es)) =
     (let ord = build_order (xt_symbol t) (xt_exchange t) (exit_action (xt_position t)) (xt_qty t) prd EXIT_PRICETYPE;
          x = dispatch_order mode (xe_session_for env t) binding (xe_place env) ord
      in target_outcome t (map_option Not_sent (dr_error (fst x))) (map_option (\<lambda>v. (v, ord)) (snd x)))"
  by (simp add: send_exit_def Let_def prod.case_eq_if)

definition outcome_of :: "string \<Rightarrow> exit_target \<Rightarrow> exit_outcome \<Rightarrow> bool" where
  "outcome_of prd t x \<longleftrightarrow> xo_leg x = xt_leg t \<and> xo_owner x = xt_owner t \<and> (\<forall>v y. xo_sent x = Some (v, y) \<longrightarrow>
     y = build_order (xt_symbol t) (xt_exchange t) (exit_action (xt_position t)) (xt_qty t) prd EXIT_PRICETYPE)"

lemma send_exit_of: "send_exit env now rid mode binding kind prd t row es = ((x, evs), es1) \<Longrightarrow> outcome_of prd t x"
  using send_exit_outcome [of env now rid mode binding kind prd t row es]
  by (auto simp: Let_def target_outcome_def outcome_of_def)

lemma exit_one_outcome: "exit_one env now rid mode binding kind prd t es = ((x, evs), es1) \<Longrightarrow> outcome_of prd t x"
  unfolding exit_one_def
  by (auto dest: send_exit_of simp: target_outcome_def outcome_of_def split: if_splits prod.splits)

lemma exit_targets_outcomes:
  assumes "exit_targets env now rid mode binding kind prd ts es = ((xs, evs), es1)"
  shows "list_all2 (outcome_of prd) ts xs"
  using assms
proof (induction ts arbitrary: es xs evs es1)
  case (Cons t ts)
  obtain x evs1 es2 where one: "exit_one env now rid mode binding kind prd t es = ((x, evs1), es2)" by (metis prod.exhaust)
  obtain ys evs2 es3 where more: "exit_targets env now rid mode binding kind prd ts es2 = ((ys, evs2), es3)" by (metis prod.exhaust)
  from Cons.prems have "xs = x # ys" unfolding exit_targets.simps one prod.case more by simp
  with exit_one_outcome [OF one] Cons.IH [OF more] show ?case by simp
qed simp

text \<open>The claimed legs were open, filled and not on their way out; the outgoing ones had no exit on its way.\<close>

lemma claimed_from:
  assumes "claim_legs_for_exit xs kind s = ((claimed, unfilled), s1)" "l \<in> set claimed"
  shows "\<exists>l0 tok. find_leg (lg_id l) s = Some l0 \<and> l = claim_exit_row tok kind l0 \<and> lg_status l0 = Open_leg \<and>
    lg_entry_status l0 = Entry_complete \<and> \<not> exit_in_flight l0"
  using assms
proof (induction xs arbitrary: s claimed unfilled)
  case (Cons x xs)
  show ?case
  proof (cases "\<exists>l. find_leg (fst x) s = Some l \<and> lg_status l = Open_leg \<and> \<not> exit_in_flight l \<and> lg_entry_status l = Entry_complete")
    case False
    then obtain u where "claim_legs_for_exit xs kind s = ((claimed, u), s1)"
      using Cons.prems(1) by (auto split: option.splits if_splits prod.splits)
    from Cons.IH [OF this Cons.prems(2)] show ?thesis .
  next
    case True
    then obtain k where k: "find_leg (fst x) s = Some k" "lg_status k = Open_leg" "\<not> exit_in_flight k" "lg_entry_status k = Entry_complete" by blast
    let ?f = "claim_exit_row (snd x) kind"
    obtain c where c: "claim_legs_for_exit xs kind (change_leg (fst x) ?f s) = ((c, unfilled), s1)" "claimed = ?f k # c"
      using Cons.prems(1) k by (auto split: prod.splits)
    have kid: "lg_id k = fst x" using find_leg_id [OF k(1)] by simp
    show ?thesis
    proof (cases "l = ?f k")
      case True
      with k kid show ?thesis by auto
    next
      case False
      with Cons.prems(2) c(2) Cons.IH [OF c(1)] obtain l0 tok where l0: "find_leg (lg_id l) (change_leg (fst x) ?f s) = Some l0"
        "l = claim_exit_row tok kind l0" "lg_status l0 = Open_leg" "lg_entry_status l0 = Entry_complete" "\<not> exit_in_flight l0" by auto
      have "lg_id l \<noteq> fst x"
      proof
        assume "lg_id l = fst x"
        then have "l0 = ?f k" using l0(1) k(1) by (simp add: find_change_leg)
        with l0(5) show False by (simp add: exit_in_flight_def claim_exit_row_def)
      qed
      with l0 show ?thesis by (auto simp: find_change_leg)
    qed
  qed
qed simp

lemma outgoing_from_leg:
  assumes "outgoing_targets xs s = (ts, s2)" "t \<in> set ts"
  shows "\<exists>l og. find_leg (xt_leg t) s = Some l \<and> lg_superseded l = Some og \<and> og_exit_claim_token og = None \<and> og_exit_order_id og = None \<and>
    xt_owner t = Superseded_owner \<and> xt_position t = og_position og \<and> xt_qty t = og_qty og \<and> xt_symbol t = lg_symbol l \<and> xt_exchange t = lg_exchange l"
  using assms
proof (induction xs arbitrary: s ts)
  case (Cons x xs)
  show ?case
  proof (cases rule: outgoing_targets_cases [of x xs s])
    case (2 l og)
    let ?f = "change_outgoing (\<lambda>og. og\<lparr>og_exit_claim_token := Some (snd x)\<rparr>)"
    let ?t = "outgoing_target l (og\<lparr>og_exit_claim_token := Some (snd x)\<rparr>)"
    obtain us where us: "outgoing_targets xs (change_leg (fst x) ?f s) = (us, s2)" "ts = ?t # us"
      using Cons.prems(1) 2(5) by (auto split: prod.splits)
    have lid: "lg_id l = fst x" using find_leg_id [OF 2(1)] by simp
    show ?thesis
    proof (cases "t = ?t")
      case True
      with 2 lid show ?thesis by (simp add: outgoing_target_def)
    next
      case False
      with Cons.prems(2) us(2) Cons.IH [OF us(1)] obtain l1 og1 where l1: "find_leg (xt_leg t) (change_leg (fst x) ?f s) = Some l1"
        "lg_superseded l1 = Some og1" "og_exit_claim_token og1 = None" "og_exit_order_id og1 = None" "xt_owner t = Superseded_owner"
        "xt_position t = og_position og1" "xt_qty t = og_qty og1" "xt_symbol t = lg_symbol l1" "xt_exchange t = lg_exchange l1" by auto
      have "xt_leg t \<noteq> fst x"
      proof
        assume "xt_leg t = fst x"
        then have "l1 = ?f l" using l1(1) 2(1) by (simp add: find_change_leg)
        with 2(2) l1(2,3) show False by (auto simp: change_outgoing_def)
      qed
      with l1 show ?thesis by (auto simp: find_change_leg)
    qed
  qed (use Cons in simp)
qed simp

lemma claims_keep_contract:
  "find_leg k (snd (claim_legs_for_exit xs kind s)) = Some l \<Longrightarrow>
   \<exists>l0. find_leg k s = Some l0 \<and> lg_superseded l0 = lg_superseded l \<and> lg_symbol l0 = lg_symbol l \<and> lg_exchange l0 = lg_exchange l"
proof (induction xs arbitrary: s)
  case (Cons x xs)
  let ?s = "change_leg (fst x) (claim_exit_row (snd x) kind) s"
  have "snd (claim_legs_for_exit (x # xs) kind s) = snd (claim_legs_for_exit xs kind s) \<or>
      snd (claim_legs_for_exit (x # xs) kind s) = snd (claim_legs_for_exit xs kind ?s)"
    by (simp add: prod.case_eq_if split: option.split)
  with Cons consider "find_leg k (snd (claim_legs_for_exit xs kind s)) = Some l" | "find_leg k (snd (claim_legs_for_exit xs kind ?s)) = Some l"
    by auto
  then show ?case
  proof cases
    case 2
    from Cons.IH [OF this] obtain l0 where "find_leg k ?s = Some l0" "lg_superseded l0 = lg_superseded l" "lg_symbol l0 = lg_symbol l"
      "lg_exchange l0 = lg_exchange l" by blast
    then show ?thesis by (auto simp: find_change_leg claim_exit_row_def split: if_splits)
  qed (rule Cons.IH)
qed simp

lemma sent_from_targets:
  assumes "list_all2 (outcome_of prd) ts ys"
  shows "map (\<lambda>x. (xo_leg x, xo_owner x)) ys = map (\<lambda>t. (xt_leg t, xt_owner t)) ts"
    "x \<in> set ys \<Longrightarrow> \<exists>t\<in>set ts. outcome_of prd t x"
  using assms by (induction rule: list_all2_induct) (auto simp: outcome_of_def)

lemma exits_sent:
  assumes "runs rid = Some s" "distinct (map fst lids)" "exit_legs env now rid mode kind prd lids (runs, db) = ((xs, evs), es1)"
  shows "distinct (map (\<lambda>x. (xo_leg x, xo_owner x)) (filter (\<lambda>x. xo_sent x \<noteq> None) xs)) \<and>
    (\<forall>x\<in>set xs. \<forall>v y. xo_sent x = Some (v, y) \<longrightarrow> (\<exists>l. find_leg (xo_leg x) s = Some l \<and>
       (case xo_owner x of
          Live_owner \<Rightarrow>
            lg_status l = Open_leg \<and> lg_entry_status l = Entry_complete \<and> \<not> exit_in_flight l \<and>
            y = build_order (lg_symbol l) (lg_exchange l) (exit_action (lg_position l)) (lg_qty l) prd ''MARKET''
        | Superseded_owner \<Rightarrow>
            (\<exists>og. lg_superseded l = Some og \<and> og_exit_claim_token og = None \<and> og_exit_order_id og = None \<and>
               y = build_order (lg_symbol l) (lg_exchange l) (exit_action (og_position og)) (og_qty og) prd ''MARKET''))))"
proof -
  let ?live = "map (\<lambda>(l, live, old). (l, live)) lids" and ?old = "map (\<lambda>(l, live, old). (l, old)) lids"
  have ids: "distinct (map fst ?live)" "distinct (map fst ?old)" using assms(2) by (simp_all add: case_prod_beta comp_def)
  obtain claimed unfilled s1 where c: "claim_legs_for_exit ?live kind s = ((claimed, unfilled), s1)" by (metis prod.exhaust)
  obtain outs s2 where outs: "outgoing_targets ?old s1 = (outs, s2)" by (metis prod.exhaust)
  let ?ts = "map live_target claimed @ outs"
  obtain binding db2 where b: "(if ?ts = [] then (None, db)
      else binding_for (xe_logins env) (xe_session env) (xe_account env) id rid mode db) = (binding, db2)" by (metis prod.exhaust)
  obtain ys evs1 es2 where t: "exit_targets env now rid mode binding kind prd ?ts (runs(rid \<mapsto> s2), db2) = ((ys, evs1), es2)"
    by (metis prod.exhaust)
  have xs: "xs = ys @ map unfilled_outcome unfilled"
    using assms(3)
    unfolding exit_legs_def prod.case Let_def on_run_def assms(1) option.case c fun_upd_same outs fun_upd_upd b t by simp
  note all = exit_targets_outcomes [OF t]
  have "distinct (map (\<lambda>x. (xo_leg x, xo_owner x)) ys)"
    unfolding sent_from_targets(1) [OF all] using claimed_targets_hold [OF c outs ids] by blast
  then have "distinct (map (\<lambda>x. (xo_leg x, xo_owner x)) (filter (\<lambda>x. xo_sent x \<noteq> None) xs))"
    unfolding xs by (simp add: distinct_map_filter filter_False unfilled_outcome_def)
  moreover have "\<exists>l. find_leg (xo_leg x) s = Some l \<and>
       (case xo_owner x of
          Live_owner \<Rightarrow>
            lg_status l = Open_leg \<and> lg_entry_status l = Entry_complete \<and> \<not> exit_in_flight l \<and>
            y = build_order (lg_symbol l) (lg_exchange l) (exit_action (lg_position l)) (lg_qty l) prd ''MARKET''
        | Superseded_owner \<Rightarrow>
            (\<exists>og. lg_superseded l = Some og \<and> og_exit_claim_token og = None \<and> og_exit_order_id og = None \<and>
               y = build_order (lg_symbol l) (lg_exchange l) (exit_action (og_position og)) (og_qty og) prd ''MARKET''))"
    if x: "x \<in> set xs" "xo_sent x = Some (v, y)" for x v y
  proof -
    have "x \<in> set ys" using x by (auto simp: xs unfilled_outcome_def)
    from sent_from_targets(2) [OF all this] obtain u where u: "u \<in> set ?ts" "outcome_of prd u x" by blast
    then have y: "y = build_order (xt_symbol u) (xt_exchange u) (exit_action (xt_position u)) (xt_qty u) prd ''MARKET''"
      "xo_leg x = xt_leg u" "xo_owner x = xt_owner u" using x(2) by (auto simp: outcome_of_def EXIT_PRICETYPE_def)
    from u(1) consider k where "k \<in> set claimed" "u = live_target k" | "u \<in> set outs" by auto
    then show ?thesis
    proof cases
      case 1
      from claimed_from [OF c 1(1)] obtain l0 tok where "find_leg (lg_id k) s = Some l0" "k = claim_exit_row tok kind l0"
        "lg_status l0 = Open_leg" "lg_entry_status l0 = Entry_complete" "\<not> exit_in_flight l0" by blast
      then show ?thesis using y 1(2) by (auto simp: live_target_def claim_exit_row_def)
    next
      case 2
      from outgoing_from_leg [OF outs 2] obtain l og where l: "find_leg (xt_leg u) s1 = Some l" "lg_superseded l = Some og"
        "og_exit_claim_token og = None" "og_exit_order_id og = None" "xt_owner u = Superseded_owner" "xt_position u = og_position og"
        "xt_qty u = og_qty og" "xt_symbol u = lg_symbol l" "xt_exchange u = lg_exchange l" by blast
      with claims_keep_contract [of "xt_leg u" ?live kind s l] c obtain l0 where "find_leg (xt_leg u) s = Some l0"
        "lg_superseded l0 = lg_superseded l" "lg_symbol l0 = lg_symbol l" "lg_exchange l0 = lg_exchange l" by auto
      with l y show ?thesis by auto
    qed
  qed
  ultimately show ?thesis by blast
qed

text \<open>What closing a position takes.\<close>

definition closes :: "action \<Rightarrow> int \<Rightarrow> leg \<Rightarrow> string \<Rightarrow> sent_order \<Rightarrow> bool" where
  "closes position quantity l prd y \<longleftrightarrow>
     sd_symbol y = lg_symbol l \<and> sd_exchange y = lg_exchange l \<and> sd_quantity y = quantity \<and>
     (position = BUY \<longrightarrow> sd_action y = SELL) \<and> (position = SELL \<longrightarrow> sd_action y = BUY) \<and>
     sd_product y = product_for_exchange prd (lg_exchange l) \<and> sd_pricetype y = ''MARKET''"

lemma built_closes:
  "closes position quantity l prd (build_order (lg_symbol l) (lg_exchange l) (exit_action position) quantity prd ''MARKET'')"
  by (simp add: closes_def build_order_def exit_action_def)

text \<open>C30: whatever the broker answers and others do meanwhile, each order a call of the exits sends is a market order for
  the whole quantity, on the opposite side, of a position the run held when the call claimed it (a leg that was open,
  filled and not on its way out, or the outgoing side of a flip without an exit on its way), and no position gets two.\<close>

theorem exits_close_what_is_held:
  assumes "runs rid = Some s" "distinct (map fst lids)" "exit_legs env now rid mode kind prd lids (runs, db) = ((xs, evs), es1)"
  shows "distinct (map (\<lambda>x. (xo_leg x, xo_owner x)) (filter (\<lambda>x. xo_sent x \<noteq> None) xs)) \<and>
    (\<forall>x\<in>set xs. \<forall>v y. xo_sent x = Some (v, y) \<longrightarrow> (\<exists>l. find_leg (xo_leg x) s = Some l \<and>
       (case xo_owner x of
          Live_owner \<Rightarrow>
            lg_status l = Open_leg \<and> lg_entry_status l = Entry_complete \<and> \<not> exit_in_flight l \<and>
            closes (lg_position l) (lg_qty l) l prd y
        | Superseded_owner \<Rightarrow>
            (\<exists>og. lg_superseded l = Some og \<and> og_exit_claim_token og = None \<and> og_exit_order_id og = None \<and>
               closes (og_position og) (og_qty og) l prd y))))"
proof -
  note sent = exits_sent [OF assms]
  have "\<exists>l. find_leg (xo_leg x) s = Some l \<and>
       (case xo_owner x of
          Live_owner \<Rightarrow>
            lg_status l = Open_leg \<and> lg_entry_status l = Entry_complete \<and> \<not> exit_in_flight l \<and>
            closes (lg_position l) (lg_qty l) l prd y
        | Superseded_owner \<Rightarrow>
            (\<exists>og. lg_superseded l = Some og \<and> og_exit_claim_token og = None \<and> og_exit_order_id og = None \<and>
               closes (og_position og) (og_qty og) l prd y))"
    if "x \<in> set xs" "xo_sent x = Some (v, y)" for x v y
    using sent that by (cases "xo_owner x") (fastforce intro: built_closes)+
  with sent show ?thesis by blast
qed

subsection \<open>A paper run with one long leg\<close>

definition sample_exit_env :: "bool \<Rightarrow> exit_env" where
  "sample_exit_env ok =
     \<lparr> xe_leg_number = length, xe_logins = (\<lambda>t. None), xe_session = None, xe_account = None, xe_session_for = (\<lambda>t. None),
       xe_place = (\<lambda>v x. Some (ok, Some ''9'', None)), xe_text = (\<lambda>e. ''refused''), xe_recorded = (\<lambda>t. True), xe_acked = (\<lambda>t. True),
       xe_before = (\<lambda>t es. es), xe_during = (\<lambda>t es. es), xe_replay = (\<lambda>b es. es) \<rparr>"

definition sample_stop_env :: "unit stop_env" where
  "sample_stop_env =
     \<lparr> se_has_key = True, se_strategy_user = ''u'', se_acks = (\<lambda>es. (False, es)), se_race = id, se_session_at = (\<lambda>b. None),
       se_cancel = (\<lambda>v b. None), se_has_module = (\<lambda>b. True), se_status = (\<lambda>v b. None), se_snapshot = (\<lambda>b f es. es),
       se_cancelled = (\<lambda>b r es. es) \<rparr>"

definition sample_stop_row :: sm_run where
  "sample_stop_row =
     \<lparr> sr_id = 4, sr_strategy = 7, sr_mode = Sandbox_run, sr_broker = ''sandbox'', sr_account = None, sr_stopped_at = None,
       sr_stop_reason = None, sr_stop_requested_at = None, sr_stop_requested_reason = None, sr_pnl_realized = 0, sr_pnl_peak = 0,
       sr_pnl_trough = 0 \<rparr>"

definition sample_stop_db :: sm_db where
  "sample_stop_db =
     \<lparr> sm_strategies = [\<lparr>st_id = 7, st_user = ''u'', st_kind = Batch, st_status = Running, st_current_run = Some 4\<rparr>],
       sm_runs = [sample_stop_row], sm_orders = [] \<rparr>"

definition sample_stop :: "(stop_answer \<times> stop_event list) \<times> engine_state \<times> nat set" where
  "sample_stop =
     stop_run (sample_exit_env False) sample_stop_env (\<lambda>l. (''t'', ''u'')) 5 ''MIS'' 4 ''manual''
       ((Map.empty(4 \<mapsto> sample_run_state), sample_stop_db), {})"

definition sample_exits :: "(exit_outcome list \<times> exit_event list) \<times> engine_state" where
  "sample_exits =
     exit_legs (sample_exit_env True) 5 4 Sandbox_run ''exit_sl'' ''MIS'' [(''1'', ''t'', ''u'')]
       (Map.empty(4 \<mapsto> sample_run_state), sample_stop_db)"

theorem refused_stop_keeps_the_run_witness:
  "(\<exists>problem exits. fst (fst sample_stop) = Stop_pending problem exits) \<and>
   fst (fst (snd sample_stop)) 4 = Some (sample_run_state\<lparr>rs_stopping := True\<rparr>) \<and>
   (\<exists>r. find_run 4 (snd (fst (snd sample_stop))) = Some r \<and> sr_stopped_at r = None)"
proof -
  obtain a evs runs1 db1 noted1 where stop: "sample_stop = ((a, evs), ((runs1, db1), noted1))" by (metis prod.exhaust)
  let ?env = "sample_exit_env False" and ?s = sample_run_state and ?runs = "Map.empty(4 \<mapsto> sample_run_state)"
  have env: "quiet_env ?env" "refusing_env ?env" "no_news sample_stop_env"
    by (simp_all add: quiet_env_def refusing_env_def no_news_def sample_exit_env_def sample_stop_env_def normalise_answer_def refused_result_def)
  have db: "find_run 4 sample_stop_db = Some sample_stop_row" "sr_stopped_at sample_stop_row = None"
    "distinct (map sr_id (sm_runs sample_stop_db))"
    "\<exists>x\<in>set (sm_strategies sample_stop_db). st_id x = sr_strategy sample_stop_row \<and> st_user x = se_strategy_user sample_stop_env"
    "fst (record_run_stop_request 5 4 ''manual'' sample_stop_db) \<noteq> Not_recorded"
    by (simp_all add: find_run_def sample_stop_db_def sample_stop_row_def sample_stop_env_def record_run_stop_request_def update_runs_def row_count_def)
  have live: "?runs 4 = Some ?s" "run_requires_management ?s" "distinct (map lg_id (rs_legs ?s))" "clean_outgoing ?s"
    by (simp_all add: run_requires_management_def leg_requires_management_def sample_run_state_def sample_leg_def clean_outgoing_def)
  have result: "stop_run ?env sample_stop_env (\<lambda>l. (''t'', ''u'')) 5 ''MIS'' 4 ''manual'' ((?runs, sample_stop_db), {}) =
      ((a, evs), ((runs1, db1), noted1))" using stop unfolding sample_stop_def .
  let ?stopping = "?runs(4 \<mapsto> ?s\<lparr>rs_stopping := True\<rparr>)"
  obtain rec db0 where rec: "record_run_stop_request 5 4 ''manual'' sample_stop_db = (rec, db0)" "rec \<noteq> Not_recorded"
    using db(5) by (metis prod.exhaust fst_conv)
  obtain r where r: "find_run 4 db0 = Some r" "sr_stopped_at r = None" using request_recorded [OF db(3,1,2) rec] by blast
  then have "run_kept 4 r db0" by (simp add: run_kept_def)
  moreover have "?stopping 4 \<noteq> None" by simp
  ultimately obtain db2 where seen: "before_exits ?env sample_stop_env 4 sample_stop_row (?stopping, db0) = (?stopping, db2)" "run_kept 4 r db2"
    using no_news_before_exits [OF env(3)] by blast
  then obtain r2 where r2: "find_run 4 db2 = Some r2" "sr_stopped_at r2 = None" using r(2) by (auto simp: run_kept_def)
  from refused_stop_keeps_the_run [where runs = ?runs and rid = 4, OF env(1,2) db(1,2,4) rec live(1) seen(1) _ _ _ _ r2 result] live(2-4)
  have "(\<exists>problem exits. a = Stop_pending problem exits) \<and> runs1 = ?stopping \<and>
      (\<exists>r. find_run 4 db1 = Some r \<and> sr_stopped_at r = None)" by auto
  then show ?thesis unfolding stop by auto
qed

theorem exits_close_what_is_held_witness:
  "\<exists>x y. fst (fst sample_exits) = [x] \<and> xo_sent x = Some (Sandbox_venue, y) \<and> sd_symbol y = ''X'' \<and> sd_action y = SELL \<and> sd_quantity y = 10"
proof -
  have "map (\<lambda>x. (xo_leg x, xo_owner x, map_option fst (xo_sent x))) (fst (fst sample_exits)) = [(''1'', Live_owner, Some Sandbox_venue)]"
    by code_simp
  then obtain x y where x: "fst (fst sample_exits) = [x]" "xo_leg x = ''1''" "xo_owner x = Live_owner" "xo_sent x = Some (Sandbox_venue, y)"
    by auto
  have "exit_legs (sample_exit_env True) 5 4 Sandbox_run ''exit_sl'' ''MIS'' [(''1'', ''t'', ''u'')]
      (Map.empty(4 \<mapsto> sample_run_state), sample_stop_db) = (([x], snd (fst sample_exits)), snd sample_exits)"
    unfolding x(1) [symmetric] sample_exits_def by simp
  from exits_close_what_is_held [OF _ _ this, of sample_run_state] x(2-4)
  have "\<exists>l. find_leg ''1'' sample_run_state = Some l \<and>
      closes (lg_position l) (lg_qty l) l ''MIS'' y" by auto
  then have "sd_symbol y = ''X'' \<and> sd_action y = SELL \<and> sd_quantity y = 10"
    by (auto simp: sample_run_state_def sample_leg_def find_leg_def closes_def)
  with x show ?thesis by blast
qed

end
