(* ===== verification/StrategyStart.thy ===== *)
theory StrategyStart
  imports StrategyExit
begin

text \<open>
  Starting a batch run (\<open>engine.start_run\<close>, \<open>_resolve_all_legs\<close>, \<open>_place_entries\<close>, \<open>_manage_failed_start\<close>): the legs
  are resolved to contracts, the strategy is claimed, the run opened, linked and given its live state,
  and each entry is recorded, sent and acknowledged; a start that is cut off rejects what was never sent
  and stops the rest.

  Arguments: the resolver of a leg (\<open>symbol_resolver.resolve_leg\<close>), fresh position references, and the fields
  of \<open>entry_env\<close> and of the environments of a stop: sessions, what the pipes answer, writes that fail, where
  an exception is raised, and what other threads do while a call is out and while held frames are replayed.
  The repair that is tried at once when an acknowledgement could not be recorded is left out: the row then
  waits for the repair of the next stop.
\<close>

subsection \<open>Resolving the legs\<close>

record leg_config =
  lc_id :: "string option"
  lc_leg_id :: "string option"
  lc_position :: "string option"
  lc_sl_pts :: loose
  lc_target_pts :: loose
  lc_trail :: "(loose \<times> loose) option"
  lc_risk_unit :: "string option"

record contract =
  ct_symbol :: string
  ct_exchange :: string
  ct_quantity :: int
  ct_expiry :: "string option"
  ct_fallback :: bool
  ct_rank :: "string option"
  ct_underlying :: "rat option"

record resolved_leg =
  rl_seed :: leg_seed
  rl_fallback :: bool
  rl_expiry :: "string option"
  rl_rank :: "string option"

text \<open>The id configured, under either name, or the leg's place, counted from one.\<close>

definition config_leg_id :: "nat \<Rightarrow> leg_config \<Rightarrow> string" where
  "config_leg_id index c =
     (if nonempty (lc_id c) then the (lc_id c) else if nonempty (lc_leg_id c) then the (lc_leg_id c) else nat_text index)"

definition config_position :: "leg_config \<Rightarrow> string" where
  "config_position c = str_upper (case lc_position c of Some p \<Rightarrow> p | None \<Rightarrow> [])"

definition position_to_action :: "string \<Rightarrow> action" where
  "position_to_action position = (if str_upper position = ''B'' then BUY else SELL)"

definition resolved_from :: "nat \<Rightarrow> leg_config \<Rightarrow> contract \<Rightarrow> resolved_leg" where
  "resolved_from index c ct =
     \<lparr> rl_seed =
         \<lparr> ls_leg_id = config_leg_id index c, ls_position = Ltext (config_position c), ls_symbol = ct_symbol ct,
           ls_exchange = ct_exchange ct, ls_quantity = ct_quantity ct, ls_position_ref = None,
           ls_risk_unit = Some (if nonempty (lc_risk_unit c) then the (lc_risk_unit c) else ''points''),
           ls_sl_pts = lc_sl_pts c, ls_target_pts = lc_target_pts c, ls_trail = lc_trail c \<rparr>,
       rl_fallback = ct_fallback ct, rl_expiry = ct_expiry ct, rl_rank = ct_rank ct \<rparr>"

text \<open>Leg by leg, with the price of the underlying the first one that has a price was resolved at.\<close>

primrec resolve_legs ::
    "(leg_config \<Rightarrow> action \<Rightarrow> rat option \<Rightarrow> string + contract) \<Rightarrow> nat \<Rightarrow> rat option \<Rightarrow> leg_config list
     \<Rightarrow> resolved_leg list \<times> (string option \<times> string) list" where
  "resolve_legs resolve index ltp [] = ([], [])"
| "resolve_legs resolve index ltp (c # cs) =
     (case resolve c (position_to_action (config_position c)) ltp of
        Inl e \<Rightarrow>
          (case resolve_legs resolve (Suc index) ltp cs of
             (ok, failed) \<Rightarrow> (ok, (Some (config_leg_id index c), e) # failed))
      | Inr ct \<Rightarrow>
          (case resolve_legs resolve (Suc index) (if ltp = None then ct_underlying ct else ltp) cs of
             (ok, failed) \<Rightarrow> (resolved_from index c ct # ok, failed)))"

definition resolve_all_legs ::
    "(leg_config \<Rightarrow> action \<Rightarrow> rat option \<Rightarrow> string + contract) \<Rightarrow> leg_config list
     \<Rightarrow> resolved_leg list \<times> (string option \<times> string) list" where
  "resolve_all_legs resolve legs =
     (if legs = [] then ([], [(None, ''The strategy has no legs'')]) else resolve_legs resolve 1 None legs)"

definition ref_text :: "leg_seed \<Rightarrow> string" where
  "ref_text sp = (case ls_position_ref sp of Some r \<Rightarrow> r | None \<Rightarrow> [])"

definition with_refs :: "(nat \<Rightarrow> string) \<Rightarrow> resolved_leg list \<Rightarrow> resolved_leg list" where
  "with_refs refs ls = map (\<lambda>(i, l). l\<lparr>rl_seed := (rl_seed l)\<lparr>ls_position_ref := Some (refs i)\<rparr>\<rparr>) (List.enumerate 0 ls)"

subsection \<open>One entry\<close>

datatype raise_point = Before_send | While_sending

record entry_env =
  ne_has_key :: bool
  ne_session :: "broker_session option"
  ne_account :: "string option"
  ne_opens :: bool
  ne_links :: bool
  ne_session_for :: "string \<Rightarrow> broker_session option"
  ne_place :: "venue \<Rightarrow> sent_order \<Rightarrow> pipe_answer"
  ne_recorded :: "string \<Rightarrow> bool"
  ne_acked :: "string \<Rightarrow> bool"
  ne_raise :: "string \<Rightarrow> raise_point option"
  ne_during :: "string \<Rightarrow> engine_state \<Rightarrow> engine_state"
  ne_replay :: "string option \<Rightarrow> engine_state \<Rightarrow> engine_state"

datatype entry_error = Unrecorded | Not_placed dispatch_error

record entry_outcome =
  eo_leg :: string
  eo_ok :: bool
  eo_symbol :: string
  eo_broker_id :: "string option"
  eo_error :: "entry_error option"
  eo_acknowledged :: bool

datatype entry_event =
    Expiry_fallback string
  | Entry_not_recorded string
  | Ack_event exit_event
  | Entry_placed string
  | Entry_refused string dispatch_error

text \<open>An order that left, or may have left: its leg, its row and the order.\<close>

type_synonym sent_entry = "leg_seed \<times> nat \<times> sent_order"

record entry_progress =
  ep_outcomes :: "entry_outcome list"
  ep_events :: "entry_event list"
  ep_attempted :: "string list"
  ep_sent :: "sent_entry list"
  ep_raised :: bool

definition no_progress :: entry_progress where
  "no_progress = \<lparr>ep_outcomes = [], ep_events = [], ep_attempted = [], ep_sent = [], ep_raised = False\<rparr>"

definition after_progress :: "entry_progress \<Rightarrow> entry_progress \<Rightarrow> entry_progress" where
  "after_progress a b =
     \<lparr> ep_outcomes = ep_outcomes a @ ep_outcomes b, ep_events = ep_events a @ ep_events b, ep_attempted = ep_attempted a @ ep_attempted b,
       ep_sent = ep_sent a @ ep_sent b, ep_raised = ep_raised b \<rparr>"

definition entry_order :: "string \<Rightarrow> string \<Rightarrow> leg_seed \<Rightarrow> sent_order" where
  "entry_order prd pricetype sp =
     build_order (ls_symbol sp) (ls_exchange sp)
       (position_to_action (case ls_position sp of Ltext p \<Rightarrow> p | _ \<Rightarrow> [])) (ls_quantity sp) prd pricetype"

definition entry_row :: "exit_env \<Rightarrow> time \<Rightarrow> nat \<Rightarrow> leg_seed \<Rightarrow> sent_order \<Rightarrow> sm_order" where
  "entry_row env now rid sp ord =
     \<lparr> so_id = 0, so_run = rid, so_leg = xe_leg_number env (ls_leg_id sp), so_kind = Entry, so_position_ref = ls_position_ref sp,
       so_broker_id = None, so_action = sd_action ord, so_qty = ls_quantity sp, so_status = So_pending,
       so_placed_at = now, so_filled_at = None, so_avg_price = None, so_filled_qty = None, so_reject_reason = None \<rparr>"

text \<open>What the answer makes of the leg, unless a fill or a newer position came first.\<close>

definition acknowledge_entry :: "string \<Rightarrow> string option \<Rightarrow> nat \<Rightarrow> bool \<Rightarrow> run_state \<Rightarrow> bool \<times> run_state" where
  "acknowledge_entry lid ref row ok s =
     (case find_leg lid s of
        None \<Rightarrow> (False, s)
      | Some l \<Rightarrow>
          if lg_position_ref l = ref \<and> lg_entry_status l = Entry_pending
          then (True, change_leg lid (\<lambda>l. l\<lparr>lg_entry_order_id := Some row, lg_entry_status := (if ok then Entry_open else Entry_rejected),
                                             lg_status := (if ok then Open_leg else Rejected_leg)\<rparr>) s)
          else (False, s))"

text \<open>
  The row before the call: an entry that cannot be recorded is not sent.  A call that raises counts as
  sent.  A call that is refused here, for want of the run's session, leaves for nowhere.
\<close>

definition place_entry ::
    "exit_env \<Rightarrow> entry_env \<Rightarrow> time \<Rightarrow> nat \<Rightarrow> run_mode \<Rightarrow> broker_binding option \<Rightarrow> string \<Rightarrow> string \<Rightarrow> resolved_leg \<Rightarrow> engine_state
     \<Rightarrow> entry_progress \<times> engine_state" where
  "place_entry env nv now rid mode binding prd pricetype rl es =
     (let sp = rl_seed rl; lid = ls_leg_id sp; ref = ls_position_ref sp; ord = entry_order prd pricetype sp;
          fallback = (if rl_fallback rl then [Expiry_fallback lid] else [])
      in case es of (runs, db) \<Rightarrow>
        if \<not> ne_recorded nv lid then
          (no_progress\<lparr>ep_outcomes := [\<lparr>eo_leg = lid, eo_ok = False, eo_symbol = ls_symbol sp, eo_broker_id = None,
                                          eo_error = Some Unrecorded, eo_acknowledged = False\<rparr>],
                       ep_events := fallback @ [Entry_not_recorded lid]\<rparr>,
           (snd (on_run rid False (reject_entry_intent lid ref) runs), db))
        else
          (case record_sm_order (entry_row env now rid sp ord) db of
             (row, db1) \<Rightarrow>
               (case ne_raise nv lid of
                  Some Before_send \<Rightarrow> (no_progress\<lparr>ep_events := fallback, ep_raised := True\<rparr>, (runs, db1))
                | Some While_sending \<Rightarrow>
                    (no_progress\<lparr>ep_events := fallback, ep_attempted := [ref_text sp], ep_sent := [(sp, row, ord)], ep_raised := True\<rparr>,
                     ne_during nv lid (runs, db1))
                | None \<Rightarrow>
                    (case dispatch_order mode (ne_session_for nv lid) binding (ne_place nv) ord of
                       (r, v) \<Rightarrow>
                         (let (runs2, db2) = (if v = None then (runs, db1) else ne_during nv lid (runs, db1));
                              (acks, db3) = record_acknowledgement env now (ne_acked nv lid) row r db2;
                              runs3 = snd (on_run rid False (acknowledge_entry lid ref row (dr_ok r)) runs2);
                              es3 = (if dr_ok r then ne_replay nv (dr_broker_id r) (runs3, db3) else (runs3, db3));
                              said = (case dr_error r of Some e \<Rightarrow> Entry_refused lid e | None \<Rightarrow> Entry_placed lid)
                          in (\<lparr> ep_outcomes = [\<lparr>eo_leg = lid, eo_ok = dr_ok r, eo_symbol = ls_symbol sp, eo_broker_id = dr_broker_id r,
                                                 eo_error = map_option Not_placed (dr_error r), eo_acknowledged = ne_acked nv lid\<rparr>],
                                ep_events = fallback @ map Ack_event acks @ [said], ep_attempted = [ref_text sp],
                                ep_sent = (if v = None then [] else [(sp, row, ord)]), ep_raised = False \<rparr>, es3))))))"

subsection \<open>All entries\<close>

primrec place_each ::
    "exit_env \<Rightarrow> entry_env \<Rightarrow> time \<Rightarrow> nat \<Rightarrow> run_mode \<Rightarrow> broker_binding option \<Rightarrow> string \<Rightarrow> string \<Rightarrow> resolved_leg list \<Rightarrow> engine_state
     \<Rightarrow> entry_progress \<times> engine_state" where
  "place_each env nv now rid mode binding prd pricetype [] es = (no_progress, es)"
| "place_each env nv now rid mode binding prd pricetype (l # ls) es =
     (case place_entry env nv now rid mode binding prd pricetype l es of
        (p, es1) \<Rightarrow>
          if ep_raised p then (p, es1)
          else (case place_each env nv now rid mode binding prd pricetype ls es1 of
                  (q, es2) \<Rightarrow> (after_progress p q, es2)))"

text \<open>Longs first, otherwise in the order configured.\<close>

definition entry_rank :: "resolved_leg \<Rightarrow> nat" where
  "entry_rank l = (if ls_position (rl_seed l) = Ltext ''B'' then 0 else 1)"

definition place_entries ::
    "exit_env \<Rightarrow> entry_env \<Rightarrow> time \<Rightarrow> nat \<Rightarrow> run_mode \<Rightarrow> string \<Rightarrow> string \<Rightarrow> resolved_leg list \<Rightarrow> engine_state
     \<Rightarrow> entry_progress \<times> engine_state" where
  "place_entries env nv now rid mode prd pricetype ls es =
     (case es of (runs, db) \<Rightarrow>
        case binding_for (xe_logins env) (xe_session env) (xe_account env) id rid mode db of
          (binding, db1) \<Rightarrow> place_each env nv now rid mode binding prd pricetype (sort_key entry_rank ls) (runs, db1))"

subsection \<open>Starting\<close>

record start_config =
  sc_live_enabled :: bool
  sc_legs :: "leg_config list"
  sc_product :: string
  sc_pricetype :: string

datatype start_error =
    No_strategy | Signal_has_no_start | Live_not_enabled | No_key
  | Unresolved "(string option \<times> string) list"
  | Already_running | No_run | Not_linked
  | All_refused "entry_outcome list"
  | Flat_not_finished "entry_outcome list"
  | Start_failed
  | Exposure_managed stop_answer

datatype start_answer = Started nat "entry_outcome list" | Not_started "nat option" start_error

datatype start_event = Run_started | Of_entry entry_event | Of_stop stop_event | Start_exposure_kept

definition broker_for :: "broker_session option \<Rightarrow> run_mode \<Rightarrow> string" where
  "broker_for session mode =
     (case mode of Sandbox_run \<Rightarrow> ''sandbox'' | Live_run \<Rightarrow> (case session of Some s \<Rightarrow> bs_broker s | None \<Rightarrow> []))"

definition broker_account_for :: "string option \<Rightarrow> run_mode \<Rightarrow> string option" where
  "broker_account_for account mode = (case mode of Sandbox_run \<Rightarrow> None | Live_run \<Rightarrow> account)"

text \<open>Finishing, with the note of runs unable to act.\<close>

definition finalise_noted ::
    "time \<Rightarrow> nat \<Rightarrow> nat \<Rightarrow> string \<Rightarrow> engine_state \<times> nat set \<Rightarrow> bool \<times> engine_state \<times> nat set" where
  "finalise_noted now rid sid reason st =
     (case st of (es, noted) \<Rightarrow>
        case finalise now rid sid reason es of (ok, es1) \<Rightarrow> (ok, es1, if ok then noted - {rid} else noted))"

definition reject_leg :: "nat \<Rightarrow> resolved_leg \<Rightarrow> run_registry \<Rightarrow> run_registry" where
  "reject_leg rid l runs = snd (on_run rid False (reject_entry_intent (ls_leg_id (rl_seed l)) (ls_position_ref (rl_seed l))) runs)"

definition reject_unsent :: "string list \<Rightarrow> nat \<Rightarrow> resolved_leg list \<Rightarrow> run_registry \<Rightarrow> run_registry" where
  "reject_unsent attempted rid ls = fold (reject_leg rid) (filter (\<lambda>l. ref_text (rl_seed l) \<notin> set attempted) ls)"

definition manage_failed_start ::
    "exit_env \<Rightarrow> 'f stop_env \<Rightarrow> (string \<Rightarrow> string \<times> string) \<Rightarrow> time \<Rightarrow> string \<Rightarrow> nat \<Rightarrow> nat \<Rightarrow> resolved_leg list \<Rightarrow> string list
     \<Rightarrow> engine_state \<times> nat set \<Rightarrow> (start_answer \<times> start_event list) \<times> engine_state \<times> nat set" where
  "manage_failed_start env sv tokens now prd rid sid ls attempted st =
     (case st of ((runs, db), noted) \<Rightarrow>
       (let runs1 = reject_unsent attempted rid ls runs;
            flat = (case runs1 rid of Some s \<Rightarrow> \<not> run_requires_management s | None \<Rightarrow> False)
        in if attempted = [] \<or> flat then
             ((Not_started (Some rid) Start_failed, []), snd (finalise_noted now rid sid ''error'' ((runs1, db), noted)))
           else
             (case stop_run env sv tokens now prd rid ''error'' ((runs1, db), noted) of
                ((a, evs), ((runs2, db2), noted2)) \<Rightarrow>
                  if run_closed rid db2 then ((Not_started (Some rid) Start_failed, map Of_stop evs), ((runs2, db2), noted2))
                  else ((Not_started (Some rid) (Exposure_managed a), map Of_stop evs @ [Start_exposure_kept]), ((runs2, db2), noted2)))))"

text \<open>A run that is opened and linked: its live state, its entries, and what is left when they were refused or cut off.\<close>

definition enter_run ::
    "exit_env \<Rightarrow> 'f stop_env \<Rightarrow> (string \<Rightarrow> string \<times> string) \<Rightarrow> entry_env \<Rightarrow> time \<Rightarrow> start_config \<Rightarrow> nat \<Rightarrow> nat \<Rightarrow> run_mode \<Rightarrow> resolved_leg list
     \<Rightarrow> engine_state \<times> nat set \<Rightarrow> (start_answer \<times> start_event list \<times> sent_entry list) \<times> engine_state \<times> nat set" where
  "enter_run env sv tokens nv now cfg rid sid mode ls st =
     (case st of ((runs, db), noted) \<Rightarrow>
        case init_run_state rid sid (map rl_seed ls) runs of
          None \<Rightarrow>
            (case manage_failed_start env sv tokens now (sc_product cfg) rid sid ls [] st of
               ((a, evs), st1) \<Rightarrow> ((a, evs, []), st1))
        | Some runs1 \<Rightarrow>
            (case place_entries env nv now rid mode (sc_product cfg) (sc_pricetype cfg) ls (runs1, db) of
               (p, es1) \<Rightarrow>
                 (let evs = Run_started # map Of_entry (ep_events p) in
                  if ep_raised p then
                    (case manage_failed_start env sv tokens now (sc_product cfg) rid sid ls (ep_attempted p) (es1, noted) of
                       ((a, evs1), st1) \<Rightarrow> ((a, evs @ evs1, ep_sent p), st1))
                  else if \<not> (\<exists>x\<in>set (ep_outcomes p). eo_ok x) then
                    (case finalise_noted now rid sid ''error'' (es1, noted) of
                       (ok, st1) \<Rightarrow>
                         ((Not_started (Some rid) ((if ok then All_refused else Flat_not_finished) (ep_outcomes p)), evs, ep_sent p), st1))
                  else ((Started rid (ep_outcomes p), evs, ep_sent p), (es1, noted)))))"

definition start_run ::
    "exit_env \<Rightarrow> 'f stop_env \<Rightarrow> (string \<Rightarrow> string \<times> string) \<Rightarrow> entry_env \<Rightarrow> (nat \<Rightarrow> string)
     \<Rightarrow> (leg_config \<Rightarrow> action \<Rightarrow> rat option \<Rightarrow> string + contract) \<Rightarrow> time \<Rightarrow> start_config \<Rightarrow> nat \<Rightarrow> string \<Rightarrow> run_mode
     \<Rightarrow> engine_state \<times> nat set \<Rightarrow> (start_answer \<times> start_event list \<times> sent_entry list) \<times> engine_state \<times> nat set" where
  "start_run env sv tokens nv refs resolve now cfg sid user mode st =
     (case st of ((runs, db), noted) \<Rightarrow>
        case find (\<lambda>x. st_id x = sid \<and> st_user x = user) (sm_strategies db) of
          None \<Rightarrow> ((Not_started None No_strategy, [], []), st)
        | Some x \<Rightarrow>
            if st_kind x = Signal then ((Not_started None Signal_has_no_start, [], []), st)
            else if mode = Live_run \<and> \<not> sc_live_enabled cfg then ((Not_started None Live_not_enabled, [], []), st)
            else if \<not> ne_has_key nv then ((Not_started None No_key, [], []), st)
            else
              (case resolve_all_legs resolve (sc_legs cfg) of
                 (resolved, failed) \<Rightarrow>
                   if failed \<noteq> [] then ((Not_started None (Unresolved failed), [], []), st)
                   else
                     (case claim_strategy_for_run sid db of
                        (claimed, db1) \<Rightarrow>
                          if \<not> claimed then ((Not_started None Already_running, [], []), ((runs, db1), noted))
                          else if \<not> ne_opens nv then
                            ((Not_started None No_run, [], []), ((runs, snd (release_strategy sid db1)), noted))
                          else
                            (case create_run sid mode (broker_for (ne_session nv) mode) (broker_account_for (ne_account nv) mode) db1 of
                               (rid, db2) \<Rightarrow>
                                 (case (if ne_links nv then set_strategy_status sid Running (Some rid) db2 else (False, db2)) of
                                    (linked, db3) \<Rightarrow>
                                      if \<not> linked then
                                        (case finish_unlinked_run_and_release_claim now rid sid ''error'' db3 of
                                           (cleaned, db4) \<Rightarrow>
                                             ((Not_started (if cleaned then None else Some rid) Not_linked, [], []), ((runs, db4), noted)))
                                      else enter_run env sv tokens nv now cfg rid sid mode (with_refs refs resolved)
                                             ((runs, db3), noted))))))"

end
