(* ===== verification/StrategyStartLaws.thy ===== *)
theory StrategyStartLaws
  imports StrategyStart StrategyExitLaws "HOL-Library.Sublist" "HOL-Library.Multiset"
begin

text \<open>
  What a start leaves behind: an entry is written down before it is sent and longs go first; a start of
  which nothing was sent leaves strategies, open runs and live states as they were.
\<close>

subsection \<open>Entries that were not sent\<close>

text \<open>A run of which nothing was sent: each leg was rejected or waits for one of the entries still to come.\<close>

definition waiting_leg :: "leg_seed set \<Rightarrow> leg \<Rightarrow> bool" where
  "waiting_leg R l \<longleftrightarrow>
     lg_superseded l = None \<and> lg_exit_order_id l = None \<and> lg_exit_claim_token l = None \<and>
     (lg_status l = Rejected_leg \<and> lg_entry_status l = Entry_rejected \<or>
      lg_status l = Configured \<and> lg_entry_status l = Entry_pending \<and>
      (\<exists>sp\<in>R. ls_leg_id sp = lg_id l \<and> ls_position_ref sp = lg_position_ref l))"

definition waiting_run :: "leg_seed set \<Rightarrow> run_state \<Rightarrow> bool" where
  "waiting_run R s \<longleftrightarrow> rs_claims s = [] \<and> distinct (map lg_id (rs_legs s)) \<and> (\<forall>l\<in>set (rs_legs s). waiting_leg R l)"

lemma waiting_mono: "waiting_run R s \<Longrightarrow> R \<subseteq> Q \<Longrightarrow> waiting_run Q s"
  unfolding waiting_run_def waiting_leg_def by blast

lemma waiting_none: "waiting_run {} s \<Longrightarrow> \<not> run_requires_management s"
  by (auto simp: waiting_run_def waiting_leg_def run_requires_management_def leg_requires_management_def)

text \<open>An entry is done with its leg when no leg waits for it any more.\<close>

lemma waiting_change:
  assumes "waiting_run (insert sp R) s" "find_leg (ls_leg_id sp) s = Some l"
    and "waiting_leg R (f l)" "\<And>l. lg_id (f l) = lg_id l"
  shows "waiting_run R (change_leg (ls_leg_id sp) f s)"
proof -
  note run = assms(1) [unfolded waiting_run_def]
  have l: "l \<in> set (rs_legs s)" "lg_id l = ls_leg_id sp" using find_leg_id [OF assms(2)] by simp_all
  have "waiting_leg R (if lg_id x = ls_leg_id sp then f x else x)" if x: "x \<in> set (rs_legs s)" for x
  proof (cases "lg_id x = ls_leg_id sp")
    case True
    with x l run have "x = l" by (auto simp: distinct_map inj_on_def)
    with True assms(3) show ?thesis by simp
  next
    case False
    with x run show ?thesis by (auto simp: waiting_leg_def)
  qed
  then have "waiting_leg R x" if "x \<in> set (rs_legs s)" "lg_id x \<noteq> ls_leg_id sp" for x using that by force
  moreover have "waiting_leg R (f x)" if "x \<in> set (rs_legs s)" "lg_id x = ls_leg_id sp" for x
    using that \<open>\<And>x. x \<in> set (rs_legs s) \<Longrightarrow> waiting_leg R (if lg_id x = ls_leg_id sp then f x else x)\<close> [of x] by simp
  ultimately show ?thesis using run unfolding waiting_run_def by (fastforce simp: change_leg_ids assms(4) dest: change_leg_set)
qed

lemma waiting_skip:
  assumes "waiting_run (insert sp R) s"
    and "\<And>l. find_leg (ls_leg_id sp) s = Some l \<Longrightarrow> lg_position_ref l \<noteq> ls_position_ref sp \<or> lg_entry_status l \<noteq> Entry_pending"
  shows "waiting_run R s"
proof -
  note run = assms(1) [unfolded waiting_run_def]
  have "waiting_leg R l" if l: "l \<in> set (rs_legs s)" for l
  proof (cases "lg_id l = ls_leg_id sp")
    case True
    have "find_leg (ls_leg_id sp) s = Some l"
      unfolding find_leg_def by (rule find_unique_key [where key = lg_id]) (use run l True in auto)
    from assms(2) [OF this] l run show ?thesis by (fastforce simp: waiting_leg_def)
  next
    case False
    with l run show ?thesis by (auto simp: waiting_leg_def)
  qed
  with run show ?thesis by (simp add: waiting_run_def)
qed

lemma waiting_member: "waiting_run R s \<Longrightarrow> find_leg lid s = Some l \<Longrightarrow> waiting_leg R l"
  using find_leg_id by (fastforce simp: waiting_run_def)

lemma waiting_reject:
  assumes "waiting_run (insert sp R) s"
  shows "waiting_run R (snd (reject_entry_intent (ls_leg_id sp) (ls_position_ref sp) s))"
proof (cases "find_leg (ls_leg_id sp) s")
  case None
  with waiting_skip [OF assms] show ?thesis by (simp add: reject_entry_intent_def)
next
  case (Some l)
  note l = waiting_member [OF assms Some]
  show ?thesis
  proof (cases "lg_position_ref l = ls_position_ref sp")
    case True
    with l have "lg_entry_status l \<noteq> Entry_complete" by (auto simp: waiting_leg_def)
    moreover have "waiting_run R (change_leg (ls_leg_id sp)
        (\<lambda>l. l\<lparr>lg_entry_order_id := None, lg_entry_status := Entry_rejected, lg_status := Rejected_leg\<rparr>) s)"
      by (rule waiting_change [OF assms Some]) (use l in \<open>auto simp: waiting_leg_def\<close>)
    ultimately show ?thesis using True Some by (simp add: reject_entry_intent_def)
  next
    case False
    with waiting_skip [OF assms] Some show ?thesis by (simp add: reject_entry_intent_def)
  qed
qed

lemma waiting_acknowledge:
  assumes "waiting_run (insert sp R) s"
  shows "waiting_run R (snd (acknowledge_entry (ls_leg_id sp) (ls_position_ref sp) row False s))"
proof (cases "find_leg (ls_leg_id sp) s")
  case None
  with waiting_skip [OF assms] show ?thesis by (simp add: acknowledge_entry_def)
next
  case (Some l)
  note l = waiting_member [OF assms Some]
  show ?thesis
  proof (cases "lg_position_ref l = ls_position_ref sp \<and> lg_entry_status l = Entry_pending")
    case True
    have "waiting_run R (change_leg (ls_leg_id sp)
        (\<lambda>l. l\<lparr>lg_entry_order_id := Some row, lg_entry_status := Entry_rejected, lg_status := Rejected_leg\<rparr>) s)"
      by (rule waiting_change [OF assms Some]) (use l in \<open>auto simp: waiting_leg_def\<close>)
    with True Some show ?thesis by (simp add: acknowledge_entry_def)
  next
    case False
    with waiting_skip [OF assms] Some show ?thesis by (auto simp: acknowledge_entry_def)
  qed
qed

subsection \<open>The live state of a new run\<close>

lemma put_leg_waits:
  assumes "waiting_run R s" "waiting_leg R l"
  shows "waiting_run R (put_leg l s)"
proof (cases "find_leg (lg_id l) s")
  case None
  with assms show ?thesis by (auto simp: put_leg_def waiting_run_def find_leg_None)
next
  case (Some x)
  have "map lg_id (rs_legs (change_leg (lg_id l) (\<lambda>x. l) s)) = map lg_id (rs_legs s)" by (simp add: change_leg_def)
  moreover have "\<forall>y\<in>set (rs_legs (change_leg (lg_id l) (\<lambda>x. l) s)). waiting_leg R y"
    using assms by (auto simp: waiting_run_def change_leg_def)
  ultimately show ?thesis using Some assms(1) by (simp add: put_leg_def waiting_run_def)
qed

lemma new_leg_waits: "new_leg_state sp = Some l \<Longrightarrow> sp \<in> R \<Longrightarrow> waiting_leg R l"
  by (auto simp: new_leg_state_def waiting_leg_def split: option.splits)

lemma init_waits:
  assumes "init_run_state rid sid specs runs = Some runs1"
  shows "\<exists>s. runs1 = runs(rid \<mapsto> s) \<and> waiting_run (set specs) s"
proof -
  have "waiting_run (set specs) (fold put_leg ls s)"
    if "\<forall>l\<in>set ls. waiting_leg (set specs) l" "waiting_run (set specs) s" for ls s
    using that by (induction ls arbitrary: s) (auto intro: put_leg_waits)
  moreover have "\<forall>l\<in>set (List.map_filter new_leg_state specs). waiting_leg (set specs) l"
    by (auto simp: map_filter_def intro: new_leg_waits)
  moreover have "waiting_run (set specs) (new_run_state rid sid)" by (simp add: waiting_run_def new_run_state_def)
  ultimately show ?thesis using assms by (auto simp: init_run_state_def split: if_splits)
qed

subsection \<open>Placing entries of which none is sent\<close>

definition same_runs :: "sm_db \<Rightarrow> sm_db \<Rightarrow> bool" where
  "same_runs db db1 \<longleftrightarrow> sm_strategies db1 = sm_strategies db \<and> sm_runs db1 = sm_runs db"

lemma same_runs_trans: "same_runs db db1 \<Longrightarrow> same_runs db1 db2 \<Longrightarrow> same_runs db db2"
  by (simp add: same_runs_def)

lemma same_runs_record: "same_runs db (snd (record_sm_order row db))"
  by (simp add: same_runs_def record_sm_order_def Let_def)

lemma same_runs_acknowledge: "same_runs db (snd (record_acknowledgement env now saved row r db))"
  by (auto simp: same_runs_def record_acknowledgement_def update_sm_order_def update_orders_def split: option.split)

lemma dispatch_unsent:
  "dispatch_order mode session binding place ord = (r, None) \<Longrightarrow> \<not> dr_ok r"
  by (auto simp: dispatch_order_def refused_result_def split: run_mode.splits sum.splits)

lemma place_entry_unsent:
  assumes "place_entry env nv now rid mode binding prd pricetype l (runs, db) = (p, es1)" "ep_sent p = []"
    and s: "runs rid = Some s" "waiting_run (insert (rl_seed l) R) s"
  shows "\<exists>s1 db1. es1 = (runs(rid \<mapsto> s1), db1) \<and> same_runs db db1 \<and>
    (if ep_raised p then s1 = s \<and> ep_attempted p = []
     else waiting_run R s1 \<and> set (ep_attempted p) \<subseteq> {ref_text (rl_seed l)}) \<and> (\<forall>x\<in>set (ep_outcomes p). \<not> eo_ok x)"
proof -
  let ?sp = "rl_seed l"
  let ?lid = "ls_leg_id ?sp" and ?ord = "entry_order prd pricetype (rl_seed l)"
  show ?thesis
  proof (cases "ne_recorded nv ?lid")
    case False
    with assms waiting_reject [OF s(2)] show ?thesis
      by (auto simp: place_entry_def Let_def no_progress_def on_run_def same_runs_def prod.case_eq_if)
  next
    case rec: True
    obtain row db1 where row: "record_sm_order (entry_row env now rid ?sp ?ord) db = (row, db1)" by (metis prod.exhaust)
    have same: "same_runs db db1" using same_runs_record [of db "entry_row env now rid ?sp ?ord"] row by simp
    consider "ne_raise nv ?lid = Some Before_send" | "ne_raise nv ?lid = Some While_sending" | "ne_raise nv ?lid = None"
      by (cases "ne_raise nv ?lid") (auto intro: raise_point.exhaust)
    then show ?thesis
    proof cases
      case 1
      with assms rec row same s(1) show ?thesis
        by (auto simp: place_entry_def Let_def no_progress_def fun_upd_idem)
    next
      case 2
      with assms rec row show ?thesis by (auto simp: place_entry_def Let_def no_progress_def)
    next
      case 3
      obtain r v where r: "dispatch_order mode (ne_session_for nv ?lid) binding (ne_place nv) ?ord = (r, v)" by (metis prod.exhaust)
      have v: "v = None" using assms(1,2) rec row 3 r by (auto simp: place_entry_def Let_def split: prod.splits if_splits)
      note bad = dispatch_unsent [OF r [unfolded v]]
      obtain acks db3 where a: "record_acknowledgement env now (ne_acked nv ?lid) row r db1 = (acks, db3)" by (metis prod.exhaust)
      have "same_runs db db3"
        using same_runs_trans [OF same same_runs_acknowledge [of db1 env now "ne_acked nv ?lid" row r]] a by simp
      then show ?thesis
        using assms(1) rec row 3 r v bad a s(1) waiting_acknowledge [OF s(2), of row]
        by (auto simp: place_entry_def Let_def on_run_def prod.case_eq_if)
    qed
  qed
qed

lemma place_each_unsent:
  assumes "place_each env nv now rid mode binding prd pricetype ls (runs, db) = (p, es1)" "ep_sent p = []"
    and "runs rid = Some s" "waiting_run (rl_seed ` set ls) s" "distinct (map (\<lambda>l. ref_text (rl_seed l)) ls)"
  shows "\<exists>s1 db1 rest. es1 = (runs(rid \<mapsto> s1), db1) \<and> same_runs db db1 \<and> waiting_run (rl_seed ` rest) s1 \<and>
    rest \<subseteq> set ls \<and> (\<not> ep_raised p \<longrightarrow> rest = {}) \<and> (\<forall>l\<in>rest. ref_text (rl_seed l) \<notin> set (ep_attempted p)) \<and>
    set (ep_attempted p) \<subseteq> (\<lambda>l. ref_text (rl_seed l)) ` set ls \<and> (\<forall>x\<in>set (ep_outcomes p). \<not> eo_ok x)"
  using assms
proof (induction ls arbitrary: runs db p s es1)
  case Nil
  then have "runs(rid \<mapsto> s) = runs" by (simp add: fun_upd_idem)
  with Nil show ?case by (auto simp: no_progress_def same_runs_def intro!: exI [of _ s] exI [of _ db] exI [of _ "{}"])
next
  case (Cons l ls)
  obtain q es2 where q: "place_entry env nv now rid mode binding prd pricetype l (runs, db) = (q, es2)" by (metis prod.exhaust)
  have first: "waiting_run (insert (rl_seed l) (rl_seed ` set ls)) s" using Cons.prems(4) by simp
  show ?case
  proof (cases "ep_raised q")
    case True
    with Cons.prems(1) q have p: "p = q" "es1 = es2" by simp_all
    from place_entry_unsent [OF q _ Cons.prems(3) first] Cons.prems(2) p True
    obtain db1 where "es1 = (runs(rid \<mapsto> s), db1)" "same_runs db db1" "ep_attempted q = []" "\<forall>x\<in>set (ep_outcomes q). \<not> eo_ok x" by auto
    with Cons.prems(4) p True show ?thesis by (auto intro!: exI [of _ s] exI [of _ db1] exI [of _ "set (l # ls)"])
  next
    case False
    obtain p2 es3 where p2: "place_each env nv now rid mode binding prd pricetype ls es2 = (p2, es3)" by (metis prod.exhaust)
    with Cons.prems(1) q False have p: "p = after_progress q p2" "es1 = es3" by simp_all
    with Cons.prems(2) have sent: "ep_sent q = []" "ep_sent p2 = []" by (simp_all add: after_progress_def)
    from place_entry_unsent [OF q sent(1) Cons.prems(3) first] False
    obtain s1 db1 where s1: "es2 = (runs(rid \<mapsto> s1), db1)" "same_runs db db1" "waiting_run (rl_seed ` set ls) s1"
      "set (ep_attempted q) \<subseteq> {ref_text (rl_seed l)}" "\<forall>x\<in>set (ep_outcomes q). \<not> eo_ok x" by auto
    have later: "(runs(rid \<mapsto> s1)) rid = Some s1" "distinct (map (\<lambda>l. ref_text (rl_seed l)) ls)" using Cons.prems(5) by simp_all
    from Cons.IH [OF p2 [unfolded s1(1)] sent(2) later(1) s1(3) later(2), unfolded fun_upd_upd]
    obtain s2 db2 rest where s2: "es3 = (runs(rid \<mapsto> s2), db2)" "same_runs db1 db2" "waiting_run (rl_seed ` rest) s2" "rest \<subseteq> set ls"
      "\<not> ep_raised p2 \<longrightarrow> rest = {}" "\<forall>l\<in>rest. ref_text (rl_seed l) \<notin> set (ep_attempted p2)"
      "set (ep_attempted p2) \<subseteq> (\<lambda>l. ref_text (rl_seed l)) ` set ls" "\<forall>x\<in>set (ep_outcomes p2). \<not> eo_ok x"
      by blast
    have "ref_text (rl_seed k) \<notin> set (ep_attempted q)" if "k \<in> rest" for k
    proof -
      have "ref_text (rl_seed k) \<in> (\<lambda>l. ref_text (rl_seed l)) ` set ls" using that s2(4) by blast
      with s1(4) Cons.prems(5) show ?thesis by auto
    qed
    with s1 s2 same_runs_trans [OF s1(2) s2(2)] p show ?thesis
      by (intro exI [of _ s2] exI [of _ db2] exI [of _ rest]) (auto simp: after_progress_def)
  qed
qed

text \<open>Whatever was not attempted is rejected, and then the run holds nothing.\<close>

lemma reject_all_waits:
  "runs rid = Some s \<Longrightarrow> waiting_run (rl_seed ` set ks) s \<Longrightarrow>
   \<exists>s1. fold (reject_leg rid) ks runs = runs(rid \<mapsto> s1) \<and> waiting_run {} s1"
proof (induction ks arbitrary: runs s)
  case Nil
  then have "runs(rid \<mapsto> s) = runs" by (simp add: fun_upd_idem)
  with Nil show ?case by (intro exI [of _ s]) simp
next
  case (Cons k ks)
  let ?s = "snd (reject_entry_intent (ls_leg_id (rl_seed k)) (ls_position_ref (rl_seed k)) s)"
  have step: "reject_leg rid k runs = runs(rid \<mapsto> ?s)"
    using Cons.prems(1) by (simp add: reject_leg_def on_run_def prod.case_eq_if)
  have waits: "waiting_run (rl_seed ` set ks) ?s" by (rule waiting_reject) (use Cons.prems(2) in simp)
  have "(runs(rid \<mapsto> ?s)) rid = Some ?s" by simp
  from Cons.IH [where runs = "runs(rid \<mapsto> ?s)" and s = ?s, OF this waits, unfolded fun_upd_upd] show ?case unfolding fold_simps comp_apply step .
qed

lemma reject_unsent_waits:
  assumes "runs rid = Some s" "waiting_run (rl_seed ` rest) s" "rest \<subseteq> set ls" "\<forall>l\<in>rest. ref_text (rl_seed l) \<notin> set attempted"
  shows "\<exists>s1. reject_unsent attempted rid ls runs = runs(rid \<mapsto> s1) \<and> \<not> run_requires_management s1"
proof -
  let ?ks = "filter (\<lambda>l. ref_text (rl_seed l) \<notin> set attempted) ls"
  have "waiting_run (rl_seed ` set ?ks) s" by (rule waiting_mono [OF assms(2)]) (use assms(3,4) in auto)
  from reject_all_waits [where ks = ?ks and runs = runs and s = s and rid = rid, OF assms(1) this] waiting_none
  show ?thesis unfolding reject_unsent_def by blast
qed

subsection \<open>The rows of a run that comes to nothing\<close>

text \<open>The tables as they were, but for one open run that the strategy, idle before, points at.\<close>

definition idle_in :: "nat \<Rightarrow> nat \<Rightarrow> sm_db \<Rightarrow> bool" where
  "idle_in sid rid db \<longleftrightarrow>
     distinct (map st_id (sm_strategies db)) \<and> (\<exists>s\<in>set (sm_strategies db). st_id s = sid) \<and>
     (\<forall>s\<in>set (sm_strategies db). st_id s = sid \<longrightarrow> st_status s = Stopped \<and> st_current_run s = None) \<and>
     (\<forall>r\<in>set (sm_runs db). sr_id r \<noteq> rid)"

definition own_run :: "nat \<Rightarrow> nat \<Rightarrow> sm_run \<Rightarrow> bool" where
  "own_run sid rid r \<longleftrightarrow> sr_id r = rid \<and> sr_strategy r = sid \<and> sr_stopped_at r = None"

definition entered :: "nat \<Rightarrow> nat \<Rightarrow> sm_db \<Rightarrow> sm_db \<Rightarrow> bool" where
  "entered sid rid db0 db \<longleftrightarrow>
     sm_strategies db = sql_update (\<lambda>s. st_id s = sid) (\<lambda>s. s\<lparr>st_status := Running, st_current_run := Some rid\<rparr>) (sm_strategies db0) \<and>
     (\<exists>r. own_run sid rid r \<and> sm_runs db = sm_runs db0 @ [r])"

definition undone :: "sm_db \<Rightarrow> sm_db \<Rightarrow> bool" where
  "undone db0 db \<longleftrightarrow>
     sm_strategies db = sm_strategies db0 \<and>
     (sm_runs db = sm_runs db0 \<or> (\<exists>r. sr_stopped_at r \<noteq> None \<and> sm_runs db = sm_runs db0 @ [r]))"

lemma update_last_run:
  assumes "\<forall>r\<in>set rows. sr_id r \<noteq> rid" "\<And>r. P r \<Longrightarrow> sr_id r = rid"
  shows "sql_update P f (rows @ [r]) = rows @ [if P r then f r else r]" "row_count P (rows @ [r]) = (if P r then 1 else 0)"
proof -
  have "sql_update P f rows = rows" using assms by (intro sql_update_no_match) auto
  then show "sql_update P f (rows @ [r]) = rows @ [if P r then f r else r]" by (simp add: sql_update_def)
  have "filter P rows = []" using assms by (auto simp: filter_empty_conv)
  then show "row_count P (rows @ [r]) = (if P r then 1 else 0)" by (simp add: row_count_def)
qed

lemma entered_same: "entered sid rid db0 db \<Longrightarrow> same_runs db db1 \<Longrightarrow> entered sid rid db0 db1"
  by (simp add: entered_def same_runs_def)

lemma entered_bind:
  assumes "idle_in sid rid db0" "entered sid rid db0 db"
  shows "entered sid rid db0 (snd (bind_run_broker rid broker account db))"
proof -
  obtain r where r: "own_run sid rid r" "sm_runs db = sm_runs db0 @ [r]" using assms(2) by (auto simp: entered_def)
  let ?P = "\<lambda>r. sr_id r = rid \<and> sr_mode r = Live_run \<and> sr_stopped_at r = None \<and> sr_broker r \<in> set UNBOUND_RUN_BROKERS"
  have "\<forall>r\<in>set (sm_runs db0). sr_id r \<noteq> rid" using assms(1) by (simp add: idle_in_def)
  note last = update_last_run(1) [OF this, of ?P _ r]
  have "entered sid rid db0 (snd (update_runs ?P (\<lambda>r. r\<lparr>sr_broker := broker, sr_account := a\<rparr>) db))" for a
    using assms(2) r(1) by (auto simp: entered_def update_runs_def r(2) last own_run_def)
  with assms(2) show ?thesis by (simp add: bind_run_broker_def)
qed

lemma entered_binding_for:
  assumes "idle_in sid rid db0" "entered sid rid db0 db"
  shows "entered sid rid db0 (snd (binding_for logins session account id rid mode db))"
  using assms(2) entered_bind [OF assms]
  by (auto simp: binding_for_def binding_for_run_def read_binding_def Let_def prod.case_eq_if split: option.split)

lemma released_again:
  assumes "\<forall>s\<in>set rows. st_id s = sid \<longrightarrow> st_status s = Stopped \<and> st_current_run s = None"
    and "\<And>s. s \<in> set rows \<Longrightarrow> Q (if st_id s = sid then f s else s) \<longleftrightarrow> st_id s = sid"
    and "\<And>s. release_row (f s) = release_row s"
  shows "sql_update Q release_row (sql_update (\<lambda>s. st_id s = sid) f rows) = rows"
proof -
  have "release_row s = s" if "s \<in> set rows" "st_id s = sid" for s
    using assms(1) that by (auto intro!: sm_strategy.equality simp: release_row_def)
  then show ?thesis unfolding sql_update_def map_map comp_def by (intro map_idI) (use assms(2,3) in auto)
qed

lemma claimed_once:
  assumes "distinct (map st_id rows)" "\<exists>s\<in>set rows. st_id s = sid"
    and "\<And>s. st_id (f s) = st_id s" "\<And>s. Q s \<Longrightarrow> st_id s = sid" "\<And>s. st_id s = sid \<Longrightarrow> Q (f s)"
  shows "row_count Q (sql_update (\<lambda>s. st_id s = sid) f rows) = 1"
proof -
  have "distinct (map st_id (sql_update (\<lambda>s. st_id s = sid) f rows))" using assms(1,3) by (simp add: map_key_sql_update)
  from row_count_eq_1_iff [OF this assms(4)] assms(2,5) show ?thesis by (auto simp: sql_update_def)
qed

lemma finalise_undoes:
  assumes "idle_in sid rid db0" "entered sid rid db0 db" "\<And>s. runs rid = Some s \<Longrightarrow> \<not> run_requires_management s"
  shows "\<exists>db1. finalise now rid sid reason (runs, db) = (True, (runs(rid := None), db1)) \<and> undone db0 db1"
proof -
  note idle = assms(1) [unfolded idle_in_def]
  obtain r where r: "own_run sid rid r" "sm_runs db = sm_runs db0 @ [r]" using assms(2) by (auto simp: entered_def)
  let ?f = "\<lambda>s. s\<lparr>st_status := Running, st_current_run := Some rid\<rparr>" and ?Q = "\<lambda>s. st_id s = sid \<and> st_current_run s = Some rid"
  let ?P = "\<lambda>r. sr_id r = rid \<and> sr_strategy r = sid \<and> sr_stopped_at r = None"
  have rows: "sm_strategies db = sql_update (\<lambda>s. st_id s = sid) ?f (sm_strategies db0)" using assms(2) by (simp add: entered_def)
  have restored: "sql_update ?Q release_row (sm_strategies db) = sm_strategies db0"
    unfolding rows by (rule released_again) (use idle in \<open>auto simp: release_row_def\<close>)
  have one: "row_count ?Q (sm_strategies db) = 1" unfolding rows by (rule claimed_once) (use idle in auto)
  have fresh: "\<forall>r\<in>set (sm_runs db0). sr_id r \<noteq> rid" using idle by blast
  have last: "sql_update ?P (close_row now reason figures) (sm_runs db) = sm_runs db0 @ [close_row now reason figures r]"
    "row_count ?P (sm_runs db) = 1" for figures
    unfolding r(2) using update_last_run(1) [OF fresh, of ?P "close_row now reason figures" r] update_last_run(2) [OF fresh, of ?P r] r(1) by (auto simp: own_run_def)
  have "fst (finish_run_and_release_strategy now rid sid reason figures db) \<and>
      undone db0 (snd (finish_run_and_release_strategy now rid sid reason figures db))" for figures
    unfolding finish_run_and_release_strategy_def both_updates_def update_runs_def update_strategies_def prod.case
    using last one restored by (simp add: undone_def)
  moreover have "\<not> (case runs rid of Some s \<Rightarrow> run_requires_management s | None \<Rightarrow> False)"
    using assms(3) by (simp split: option.split)
  ultimately show ?thesis by (auto simp: finalise_def Let_def clear_run_state_def)
qed

lemma finalise_noted_undoes:
  assumes "idle_in sid rid db0" "entered sid rid db0 db" "\<And>s. runs rid = Some s \<Longrightarrow> \<not> run_requires_management s"
  shows "\<exists>db1. finalise_noted now rid sid reason ((runs, db), noted) = (True, (runs(rid := None), db1), noted - {rid}) \<and> undone db0 db1"
  using finalise_undoes [where runs = runs and now = now and reason = reason, OF assms] by (auto simp: finalise_noted_def)

subsection \<open>A start of which nothing was sent\<close>

lemma init_fails_undone:
  assumes "idle_in sid rid db0" "entered sid rid db0 db" "runs rid = None"
    "manage_failed_start env sv tokens now prd rid sid ls [] ((runs, db), noted) = ((a, evs), ((runs1, db1), noted1))"
  shows "(\<exists>e. a = Not_started (Some rid) e) \<and> runs1 = runs \<and> noted1 = noted - {rid} \<and> undone db0 db1"
proof -
  have "fold (reject_leg rid) ks runs = runs" for ks
    by (induction ks) (simp_all add: reject_leg_def on_run_def assms(3))
  then have "reject_unsent [] rid ls runs = runs" by (simp add: reject_unsent_def)
  moreover have "runs(rid := None) = runs" using assms(3) by (simp add: fun_upd_idem)
  ultimately show ?thesis
    using assms(4) finalise_noted_undoes [where runs = runs and now = now and reason = "''error''" and noted = noted, OF assms(1,2)] assms(3)
    by (auto simp: manage_failed_start_def Let_def)
qed

lemma enter_run_unsent:
  assumes idle: "idle_in sid rid db0" "entered sid rid db0 db" and fresh: "runs rid = None"
    and refs: "distinct (map (\<lambda>l. ref_text (rl_seed l)) ls)"
    and run: "enter_run env sv tokens nv now cfg rid sid mode ls ((runs, db), noted) = ((a, evs, []), ((runs1, db1), noted1))"
  shows "(\<exists>e. a = Not_started (Some rid) e) \<and> runs1 = runs \<and> noted1 = noted - {rid} \<and> undone db0 db1"
proof (cases "init_run_state rid sid (map rl_seed ls) runs")
  case None
  with run obtain evs1 where "manage_failed_start env sv tokens now (sc_product cfg) rid sid ls [] ((runs, db), noted) =
      ((a, evs1), ((runs1, db1), noted1))" by (auto simp: enter_run_def split: prod.splits)
  from init_fails_undone [where runs = runs, OF idle fresh this] show ?thesis .
next
  case (Some runs2)
  from init_waits [OF Some] obtain s where s: "runs2 = runs(rid \<mapsto> s)" "waiting_run (rl_seed ` set ls) s" by auto
  obtain binding db2 where b: "binding_for (xe_logins env) (xe_session env) (xe_account env) id rid mode db = (binding, db2)"
    by (metis prod.exhaust)
  have ent2: "entered sid rid db0 db2" using entered_binding_for [OF idle, of "xe_logins env" "xe_session env" "xe_account env" mode] b by simp
  let ?ls = "sort_key entry_rank ls"
  obtain p es3 where p: "place_each env nv now rid mode binding (sc_product cfg) (sc_pricetype cfg) ?ls (runs2, db2) = (p, es3)"
    by (metis prod.exhaust)
  then have placed: "place_entries env nv now rid mode (sc_product cfg) (sc_pricetype cfg) ls (runs2, db) = (p, es3)"
    using b by (simp add: place_entries_def)
  have sent: "ep_sent p = []"
    using run Some placed by (auto simp: enter_run_def Let_def split: prod.splits if_splits)
  have own: "runs2 rid = Some s" using s(1) by simp
  have dist: "distinct (map (\<lambda>l. ref_text (rl_seed l)) ?ls)" using refs by (simp add: distinct_map)
  have wait: "waiting_run (rl_seed ` set ?ls) s" using s(2) by simp
  from place_each_unsent [where runs = runs2 and s = s and db = db2 and ls = ?ls, OF p sent own wait dist]
  obtain s3 db3 rest where s3: "es3 = (runs2(rid \<mapsto> s3), db3)" "same_runs db2 db3" "waiting_run (rl_seed ` rest) s3" "rest \<subseteq> set ls"
    "\<not> ep_raised p \<longrightarrow> rest = {}" "\<forall>l\<in>rest. ref_text (rl_seed l) \<notin> set (ep_attempted p)" "\<forall>x\<in>set (ep_outcomes p). \<not> eo_ok x" by auto
  have runs3: "es3 = (runs(rid \<mapsto> s3), db3)" using s3(1) s(1) by simp
  have ent3: "entered sid rid db0 db3" by (rule entered_same [OF ent2 s3(2)])
  have gone: "(runs(rid \<mapsto> k))(rid := None) = runs" for k using fresh by (simp add: fun_upd_idem)
  show ?thesis
  proof (cases "ep_raised p")
    case True
    from reject_unsent_waits [where runs = "runs(rid \<mapsto> s3)" and s = s3 and rid = rid and ls = ls, OF _ s3(3,4,6)]
    obtain s4 where s4: "reject_unsent (ep_attempted p) rid ls (runs(rid \<mapsto> s3)) = runs(rid \<mapsto> s4)" "\<not> run_requires_management s4" by auto
    from finalise_noted_undoes [where runs = "runs(rid \<mapsto> s4)" and now = now and reason = "''error''" and noted = noted, OF idle(1) ent3] s4(2)
    obtain db4 where "finalise_noted now rid sid ''error'' ((runs(rid \<mapsto> s4), db3), noted) = (True, (runs, db4), noted - {rid})"
      "undone db0 db4" unfolding gone by auto
    with run Some placed True runs3 s4 show ?thesis
      by (auto simp: enter_run_def Let_def manage_failed_start_def split: prod.splits)
  next
    case False
    with s3(3,5) have "\<not> run_requires_management s3" using waiting_none by simp
    from finalise_noted_undoes [where runs = "runs(rid \<mapsto> s3)" and now = now and reason = "''error''" and noted = noted, OF idle(1) ent3] this
    obtain db4 where "finalise_noted now rid sid ''error'' ((runs(rid \<mapsto> s3), db3), noted) = (True, (runs, db4), noted - {rid})"
      "undone db0 db4" unfolding gone by auto
    moreover have "\<not> (\<exists>x\<in>set (ep_outcomes p). eo_ok x)" using s3(7) by blast
    ultimately show ?thesis using run Some placed False runs3 by (auto simp: enter_run_def Let_def)
  qed
qed

lemma with_refs_distinct: "inj refs \<Longrightarrow> distinct (map (\<lambda>l. ref_text (rl_seed l)) (with_refs refs ls))"
proof -
  assume refs: "inj refs"
  have "map (\<lambda>l. ref_text (rl_seed l)) (with_refs refs ls) = map refs (map fst (List.enumerate 0 ls))"
    unfolding with_refs_def map_map by (intro map_cong) (auto simp: ref_text_def)
  also have "\<dots> = map refs [0..<length ls]" by (simp add: map_fst_enumerate)
  finally show ?thesis using refs by (simp add: distinct_map inj_on_def)
qed

text \<open>A claim is lost without a trace, or it was made of a strategy that was idle.\<close>

lemma claim_lost:
  assumes "runs_wf db" "claim_strategy_for_run sid db = (False, db1)"
  shows "db1 = db"
proof -
  let ?P = "\<lambda>s. st_id s = sid \<and> st_status s = Stopped"
  have "row_count ?P (sm_strategies db) \<le> 1"
    by (rule row_count_le_1 [where key = st_id and k = sid]) (use assms(1) in \<open>auto simp: runs_wf_def\<close>)
  moreover have "row_count ?P (sm_strategies db) \<noteq> 1" using assms(2) by (simp add: claim_strategy_for_run_def update_strategies_def)
  ultimately have "row_count ?P (sm_strategies db) = 0" by linarith
  from sql_update_no_match [OF this] show ?thesis
    using assms(2) by (simp add: claim_strategy_for_run_def update_strategies_def)
qed

lemma claim_won:
  assumes "runs_wf db" "claim_strategy_for_run sid db = (True, db1)" "\<forall>r\<in>set (sm_runs db). sr_id r \<noteq> rid"
  shows "idle_in sid rid db \<and> sm_runs db1 = sm_runs db \<and>
    sm_strategies db1 = sql_update (\<lambda>s. st_id s = sid) (\<lambda>s. s\<lparr>st_status := Running\<rparr>) (sm_strategies db)"
proof -
  let ?P = "\<lambda>s. st_id s = sid \<and> st_status s = Stopped"
  have dist: "distinct (map st_id (sm_strategies db))" using assms(1) by (simp add: runs_wf_def)
  have "row_count ?P (sm_strategies db) = 1" using assms(2) by (simp add: claim_strategy_for_run_def update_strategies_def)
  then have "0 < row_count ?P (sm_strategies db)" by simp
  then obtain x where x: "x \<in> set (sm_strategies db)" "st_id x = sid" "st_status x = Stopped" unfolding row_count_pos by blast
  have only: "y = x" if "y \<in> set (sm_strategies db)" "st_id y = sid" for y
    using that x dist by (auto simp: distinct_map inj_on_def)
  have stopped: "st_status y = Stopped \<and> st_current_run y = None" if "y \<in> set (sm_strategies db)" "st_id y = sid" for y
    using only [OF that] x assms(1) by (auto simp: runs_wf_def)
  have "sql_update ?P f (sm_strategies db) = sql_update (\<lambda>s. st_id s = sid) f (sm_strategies db)" for f
    unfolding sql_update_def by (intro map_cong refl) (use stopped in auto)
  then have "sm_runs db1 = sm_runs db \<and>
      sm_strategies db1 = sql_update (\<lambda>s. st_id s = sid) (\<lambda>s. s\<lparr>st_status := Running\<rparr>) (sm_strategies db)"
    using assms(2) by (simp add: claim_strategy_for_run_def update_strategies_def) auto
  with dist x(1,2) stopped assms(3) show ?thesis unfolding idle_in_def by blast
qed

lemma release_undoes_claim:
  assumes "idle_in sid rid db"
    and "\<And>s. s \<in> set (sm_strategies db) \<Longrightarrow> Q (if st_id s = sid then s\<lparr>st_status := Running\<rparr> else s) \<longleftrightarrow> st_id s = sid"
  shows "sql_update Q release_row (sql_update (\<lambda>s. st_id s = sid) (\<lambda>s. s\<lparr>st_status := Running\<rparr>) (sm_strategies db)) = sm_strategies db"
  by (rule released_again) (use assms in \<open>auto simp: idle_in_def release_row_def\<close>)

text \<open>The run opened under a claim: given up unlinked, or linked and entered.\<close>

lemma created_run:
  "create_run sid mode broker account db = (rid, db1) \<Longrightarrow>
   (\<exists>r. own_run sid rid r \<and> sm_runs db1 = sm_runs db @ [r]) \<and> sm_strategies db1 = sm_strategies db"
  by (auto simp: create_run_def Let_def own_run_def)

lemma unlinked_undone:
  assumes "idle_in sid rid db" "sm_runs db1 = sm_runs db"
    "sm_strategies db1 = sql_update (\<lambda>s. st_id s = sid) (\<lambda>s. s\<lparr>st_status := Running\<rparr>) (sm_strategies db)"
    "create_run sid mode broker account db1 = (rid, db2)"
  shows "\<exists>db3. finish_unlinked_run_and_release_claim now rid sid reason db2 = (True, db3) \<and> undone db db3"
proof -
  note idle = assms(1) [unfolded idle_in_def]
  obtain r where r: "own_run sid rid r" "sm_runs db2 = sm_runs db @ [r]" "sm_strategies db2 = sm_strategies db1"
    using assms(2) created_run [OF assms(4)] by auto
  have fresh: "\<forall>r\<in>set (sm_runs db). sr_id r \<noteq> rid" using idle by blast
  let ?f = "\<lambda>s. s\<lparr>st_status := Running\<rparr>"
  have free: "\<forall>s\<in>set (sm_strategies db2). \<not> (st_id s = sid \<and> st_current_run s = Some rid)"
    unfolding r(3) assms(3) using idle by (auto simp: sql_update_def)
  let ?P = "\<lambda>r. sr_id r = rid \<and> sr_strategy r = sid \<and> sr_stopped_at r = None"
  have "finish_detached_run now rid sid reason (0, 0, 0) db2 = (True, db2\<lparr>sm_runs := sm_runs db @ [close_row now reason (0, 0, 0) r]\<rparr>)"
    using free r(1) update_last_run(1) [OF fresh, of ?P "close_row now reason (0, 0, 0)" r] update_last_run(2) [OF fresh, of ?P r]
    unfolding finish_detached_run_def Let_def update_runs_def r(2) by (auto simp: own_run_def)
  moreover have "sql_update (empty_claim sid) release_row (sm_strategies db2) = sm_strategies db"
    unfolding r(3) assms(3) by (rule release_undoes_claim [OF assms(1)]) (use idle in \<open>auto simp: empty_claim_def\<close>)
  moreover have "row_count (empty_claim sid) (sm_strategies db2) = 1"
    unfolding r(3) assms(3)
  proof -
    have "row_count (empty_claim sid) (sql_update (\<lambda>s. st_id s = sid) ?f (sm_strategies db)) =
        row_count (\<lambda>s. st_id s = sid) (sql_update (\<lambda>s. st_id s = sid) ?f (sm_strategies db))"
      unfolding row_count_def by (intro arg_cong [of _ _ List.length] filter_cong refl)
        (use idle in \<open>auto simp: empty_claim_def sql_update_def\<close>)
    also have "\<dots> = 1" by (rule claimed_once) (use idle in auto)
    finally show "row_count (empty_claim sid) (sql_update (\<lambda>s. st_id s = sid) ?f (sm_strategies db)) = 1" .
  qed
  ultimately show ?thesis
    by (auto simp: finish_unlinked_run_and_release_claim_def update_strategies_def undone_def)
qed

lemma linked_entered:
  assumes "idle_in sid rid db" "sm_runs db1 = sm_runs db"
    "sm_strategies db1 = sql_update (\<lambda>s. st_id s = sid) (\<lambda>s. s\<lparr>st_status := Running\<rparr>) (sm_strategies db)"
    "create_run sid mode broker account db1 = (rid, db2)" "set_strategy_status sid Running (Some rid) db2 = (linked, db3)"
  shows "linked \<and> entered sid rid db db3"
proof -
  note idle = assms(1) [unfolded idle_in_def]
  have db2: "\<exists>r. own_run sid rid r \<and> sm_runs db2 = sm_runs db @ [r]" "sm_strategies db2 = sm_strategies db1"
    using assms(2) created_run [OF assms(4)] by simp_all
  have "row_count (\<lambda>s. st_id s = sid) (sm_strategies db2) = 1"
    unfolding db2(2) assms(3) by (rule claimed_once) (use idle in auto)
  moreover have "sql_update (\<lambda>s. st_id s = sid) (\<lambda>s. s\<lparr>st_status := Running, st_current_run := Some rid\<rparr>) (sm_strategies db2) =
      sql_update (\<lambda>s. st_id s = sid) (\<lambda>s. s\<lparr>st_status := Running, st_current_run := Some rid\<rparr>) (sm_strategies db)"
    unfolding db2(2) assms(3) by (simp add: sql_update_def)
  ultimately show ?thesis
    using assms(5) db2(1) unfolding set_strategy_status_def update_strategies_def entered_def by auto
qed

lemma created_fresh:
  assumes "create_run sid mode broker account db = (rid, db1)"
  shows "\<forall>r\<in>set (sm_runs db). sr_id r \<noteq> rid"
  using assms fold_run_id_ge [of 0 sr_id "sm_runs db"] by (auto simp: create_run_def Let_def not_less_eq_eq)

text \<open>C32: a start of which no order left (refused, unresolved, lost to another start, cut off by an error before
  anything was sent, or refused by the broker's session leg by leg) says that it did not start and leaves things as
  they were: every strategy, every open run, every live state and every note; at most a closed run is added.\<close>

theorem start_without_orders_leaves_nothing:
  assumes "runs_wf db" "inj refs" "\<forall>k. runs k \<noteq> None \<or> k \<in> noted \<longrightarrow> run_known k db"
    "start_run env sv tokens nv refs resolve now cfg sid user mode ((runs, db), noted) = ((a, evs, []), ((runs1, db1), noted1))"
  shows "(\<exists>k e. a = Not_started k e) \<and> runs1 = runs \<and> noted1 = noted \<and> sm_strategies db1 = sm_strategies db \<and>
    (sm_runs db1 = sm_runs db \<or> (\<exists>r. sr_stopped_at r \<noteq> None \<and> sm_runs db1 = sm_runs db @ [r]))"
proof -
  have undone: "?thesis" if "\<exists>k e. a = Not_started k e" "runs1 = runs" "noted1 = noted" "undone db db1"
    using that by (simp add: undone_def)
  obtain resolved failed where res: "resolve_all_legs resolve (sc_legs cfg) = (resolved, failed)" by (metis prod.exhaust)
  obtain claimed db2 where c: "claim_strategy_for_run sid db = (claimed, db2)" by (metis prod.exhaust)
  let ?broker = "broker_for (ne_session nv) mode" and ?account = "broker_account_for (ne_account nv) mode"
  obtain rid db3 where cr: "create_run sid mode ?broker ?account db2 = (rid, db3)" by (metis prod.exhaust)
  obtain linked db4 where li: "set_strategy_status sid Running (Some rid) db3 = (linked, db4)" by (metis prod.exhaust)
  let ?early = "\<exists>x. find (\<lambda>x. st_id x = sid \<and> st_user x = user) (sm_strategies db) = Some x \<and> st_kind x \<noteq> Signal \<and>
    \<not> (mode = Live_run \<and> \<not> sc_live_enabled cfg) \<and> ne_has_key nv \<and> failed = [] \<and> claimed"
  show ?thesis
  proof (cases ?early)
    case False
    with assms(4) res c claim_lost [OF assms(1)] show ?thesis
      by (auto simp: start_run_def split: option.splits if_splits)
  next
    case True
    then have claimed by blast
    with c have claimed: "claim_strategy_for_run sid db = (True, db2)" by simp
    have rid: "\<forall>r\<in>set (sm_runs db). sr_id r \<noteq> rid"
      using created_fresh [OF cr] c by (auto simp: claim_strategy_for_run_def update_strategies_def)
    note won = claim_won [OF assms(1) claimed rid]
    from won have idle: "idle_in sid rid db" and db2: "sm_runs db2 = sm_runs db"
      "sm_strategies db2 = sql_update (\<lambda>s. st_id s = sid) (\<lambda>s. s\<lparr>st_status := Running\<rparr>) (sm_strategies db)" by simp_all
    have free: "runs rid = None" "rid \<notin> noted" using assms(3) rid by (auto simp: run_known_def)
    show ?thesis
    proof (cases "ne_opens nv")
      case False
      have "sql_update (\<lambda>s. st_id s = sid) release_row (sm_strategies db2) = sm_strategies db"
        unfolding db2(2) by (rule release_undoes_claim [OF idle]) auto
      with True False assms(4) res c db2(1) show ?thesis
        by (auto simp: start_run_def release_strategy_def update_strategies_def)
    next
      case opens: True
      show ?thesis
      proof (cases "ne_links nv")
        case False
        from unlinked_undone [OF idle db2 cr, of now "''error''"] obtain db5 where
          "finish_unlinked_run_and_release_claim now rid sid ''error'' db3 = (True, db5)" "undone db db5" by blast
        with True False opens assms(4) res c cr show ?thesis by (intro undone) (auto simp: start_run_def)
      next
        case links: True
        note ent = linked_entered [OF idle db2 cr li]
        then have "enter_run env sv tokens nv now cfg rid sid mode (with_refs refs resolved) ((runs, db4), noted) =
            ((a, evs, []), ((runs1, db1), noted1))"
          using True opens links assms(4) res c cr li by (auto simp: start_run_def)
        from enter_run_unsent [where runs = runs, OF idle conjunct2 [OF ent] free(1) with_refs_distinct [OF assms(2)] this] free(2)
        show ?thesis by (intro undone) auto
      qed
    qed
  qed
qed

subsection \<open>Entries on record\<close>

text \<open>The row of an order says what was to be sent; nobody rewrites that or deletes it.\<close>

definition same_intent :: "sm_order \<Rightarrow> sm_order \<Rightarrow> bool" where
  "same_intent r r1 \<longleftrightarrow>
     so_id r1 = so_id r \<and> so_run r1 = so_run r \<and> so_leg r1 = so_leg r \<and> so_kind r1 = so_kind r \<and>
     so_position_ref r1 = so_position_ref r \<and> so_action r1 = so_action r \<and> so_qty r1 = so_qty r"

definition keeps_intents :: "sm_db \<Rightarrow> sm_db \<Rightarrow> bool" where
  "keeps_intents db db1 \<longleftrightarrow> (\<forall>r\<in>set (sm_orders db). \<exists>r1\<in>set (sm_orders db1). same_intent r r1)"

definition on_record :: "exit_env \<Rightarrow> nat \<Rightarrow> sent_entry \<Rightarrow> sm_db \<Rightarrow> bool" where
  "on_record env rid x db \<longleftrightarrow>
     (case x of (sp, row, ord) \<Rightarrow> \<exists>r\<in>set (sm_orders db). so_id r = row \<and> so_run r = rid \<and> so_kind r = Entry \<and>
        so_leg r = xe_leg_number env (ls_leg_id sp) \<and> so_position_ref r = ls_position_ref sp \<and>
        so_action r = sd_action ord \<and> so_qty r = sd_quantity ord)"

lemma same_intent_refl [simp]: "same_intent r r"
  by (simp add: same_intent_def)

lemma keeps_intents_refl [simp]: "keeps_intents db db"
  unfolding keeps_intents_def using same_intent_refl by blast

lemma keeps_intents_append: "sm_orders db1 = sm_orders db @ rs \<Longrightarrow> keeps_intents db db1"
  unfolding keeps_intents_def using same_intent_refl by fastforce

lemma keeps_intents_update:
  assumes "\<And>r. same_intent r (f r)"
  shows "keeps_intents db (snd (update_orders P f db))"
  unfolding keeps_intents_def
proof
  fix r assume "r \<in> set (sm_orders db)"
  then have "(if P r then f r else r) \<in> set (sm_orders (snd (update_orders P f db)))" by (simp add: update_orders_def sql_update_def)
  moreover have "same_intent r (if P r then f r else r)" using assms by simp
  ultimately show "\<exists>r1\<in>set (sm_orders (snd (update_orders P f db))). same_intent r r1" by blast
qed

lemma keeps_intents_trans: "keeps_intents a b \<Longrightarrow> keeps_intents b c \<Longrightarrow> keeps_intents a c"
  unfolding keeps_intents_def same_intent_def by (metis (no_types, lifting))

lemma on_record_keeps: "keeps_intents db db1 \<Longrightarrow> on_record env rid x db \<Longrightarrow> on_record env rid x db1"
proof -
  assume kept: "keeps_intents db db1" and rec: "on_record env rid x db"
  obtain sp row ord where x: "x = (sp, row, ord)" by (cases x)
  from rec x obtain r where r: "r \<in> set (sm_orders db)" "so_id r = row" "so_run r = rid" "so_kind r = Entry"
    "so_leg r = xe_leg_number env (ls_leg_id sp)" "so_position_ref r = ls_position_ref sp" "so_action r = sd_action ord" "so_qty r = sd_quantity ord"
    by (auto simp: on_record_def)
  from kept r(1) obtain r1 where "r1 \<in> set (sm_orders db1)" "same_intent r r1" by (auto simp: keeps_intents_def)
  with r x show ?thesis unfolding on_record_def same_intent_def by auto
qed

lemma keeps_acknowledge: "keeps_intents db (snd (record_acknowledgement env now saved row r db))"
  by (auto simp: record_acknowledgement_def update_sm_order_def same_intent_def split: option.split intro!: keeps_intents_update)

lemma entry_recorded:
  assumes "record_sm_order (entry_row env now rid sp ord) db = (row, db1)" "sd_quantity ord = ls_quantity sp"
  shows "keeps_intents db db1 \<and> on_record env rid (sp, row, ord) db1"
  using assms by (auto simp: record_sm_order_def Let_def on_record_def entry_row_def intro!: keeps_intents_append)

definition keeps_rows :: "(engine_state \<Rightarrow> engine_state) \<Rightarrow> bool" where
  "keeps_rows f \<longleftrightarrow> (\<forall>es. keeps_intents (snd es) (snd (f es)))"

lemma place_entry_recorded:
  assumes "place_entry env nv now rid mode binding prd pricetype l es = (p, es1)"
    and "\<forall>k. keeps_rows (ne_during nv k)" "\<forall>b. keeps_rows (ne_replay nv b)"
  shows "keeps_intents (snd es) (snd es1) \<and> map fst (ep_sent p) \<in> {[], [rl_seed l]} \<and>
    (\<forall>x\<in>set (ep_sent p). on_record env rid x (snd es1) \<and> snd (snd x) = entry_order prd pricetype (fst x))"
proof -
  let ?sp = "rl_seed l"
  let ?lid = "ls_leg_id ?sp" and ?ord = "entry_order prd pricetype (rl_seed l)"
  obtain runs db where es: "es = (runs, db)" by (cases es)
  obtain row db1 where row: "record_sm_order (entry_row env now rid ?sp ?ord) db = (row, db1)" by (metis prod.exhaust)
  have rec: "keeps_intents db db1" "on_record env rid (?sp, row, ?ord) db1"
    using entry_recorded [OF row] by (simp_all add: entry_order_def build_order_def)
  have during: "keeps_intents db1 (snd (ne_during nv ?lid (runs, db1)))" using assms(2) by (auto simp: keeps_rows_def)
  have kept: "keeps_intents db db2 \<and> on_record env rid (?sp, row, ?ord) db2" if "keeps_intents db1 db2" for db2
    using that rec keeps_intents_trans on_record_keeps by blast
  show ?thesis
  proof (cases "ne_recorded nv ?lid")
    case False
    with assms(1) es show ?thesis by (auto simp: place_entry_def Let_def no_progress_def)
  next
    case True
    show ?thesis
    proof (cases "ne_raise nv ?lid")
      case (Some raised)
      with assms(1) es True row rec kept [OF during] show ?thesis
        by (cases raised) (auto simp: place_entry_def Let_def no_progress_def)
    next
      case None
      obtain r v where r: "dispatch_order mode (ne_session_for nv ?lid) binding (ne_place nv) ?ord = (r, v)" by (metis prod.exhaust)
      obtain runs2 db2 where two: "(if v = None then (runs, db1) else ne_during nv ?lid (runs, db1)) = (runs2, db2)" by (metis prod.exhaust)
      obtain acks db3 where a: "record_acknowledgement env now (ne_acked nv ?lid) row r db2 = (acks, db3)" by (metis prod.exhaust)
      let ?runs3 = "snd (on_run rid False (acknowledge_entry ?lid (ls_position_ref ?sp) row (dr_ok r)) runs2)"
      have es1: "es1 = (if dr_ok r then ne_replay nv (dr_broker_id r) (?runs3, db3) else (?runs3, db3))"
        and sent: "ep_sent p = (if v = None then [] else [(?sp, row, ?ord)])"
        using assms(1) es True row None r two a unfolding place_entry_def Let_def by auto
      have "keeps_intents db1 db2" using two during by (auto split: if_splits)
      moreover have "keeps_intents db2 db3" using keeps_acknowledge [of db2 env now _ row r] a by (metis snd_conv)
      moreover have "keeps_intents db3 (snd es1)" using assms(3) es1 by (auto simp: keeps_rows_def split: if_splits)
      ultimately have "keeps_intents db1 (snd es1)" using keeps_intents_trans by blast
      with kept sent es show ?thesis by auto
    qed
  qed
qed

lemma place_each_recorded:
  assumes "place_each env nv now rid mode binding prd pricetype ls es = (p, es1)"
    and "\<forall>k. keeps_rows (ne_during nv k)" "\<forall>b. keeps_rows (ne_replay nv b)"
  shows "keeps_intents (snd es) (snd es1) \<and> subseq (map fst (ep_sent p)) (map rl_seed ls) \<and>
    (\<forall>x\<in>set (ep_sent p). on_record env rid x (snd es1) \<and> snd (snd x) = entry_order prd pricetype (fst x))"
  using assms(1)
proof (induction ls arbitrary: es p es1)
  case (Cons l ls)
  obtain q es2 where q: "place_entry env nv now rid mode binding prd pricetype l es = (q, es2)" by (metis prod.exhaust)
  note one = place_entry_recorded [OF q assms(2,3)]
  then have front: "subseq (map fst (ep_sent q)) [rl_seed l]" by auto
  show ?case
  proof (cases "ep_raised q")
    case True
    with Cons.prems q have "p = q" "es1 = es2" by simp_all
    moreover have "subseq (map fst (ep_sent q)) (map rl_seed (l # ls))"
      using list_emb_append_mono [OF front, of "[]" "map rl_seed ls"] by simp
    ultimately show ?thesis using one by blast
  next
    case False
    obtain p2 es3 where p2: "place_each env nv now rid mode binding prd pricetype ls es2 = (p2, es3)" by (metis prod.exhaust)
    with Cons.prems q False have p: "p = after_progress q p2" "es1 = es3" by simp_all
    note more = Cons.IH [OF p2]
    have "subseq (map fst (ep_sent q) @ map fst (ep_sent p2)) ([rl_seed l] @ map rl_seed ls)"
      using front more by (intro list_emb_append_mono) blast+
    moreover have "keeps_intents (snd es) (snd es3)" using one more keeps_intents_trans by blast
    moreover have "\<forall>x\<in>set (ep_sent q). on_record env rid x (snd es3)" using one more on_record_keeps by blast
    ultimately show ?thesis using one more p unfolding after_progress_def by simp blast
  qed
qed (simp add: no_progress_def)

lemma longs_first:
  "map rl_seed (sort_key entry_rank ls) =
   filter (\<lambda>sp. ls_position sp = Ltext ''B'') (map rl_seed ls) @ filter (\<lambda>sp. ls_position sp \<noteq> Ltext ''B'') (map rl_seed ls)"
proof -
  let ?long = "\<lambda>l. ls_position (rl_seed l) = Ltext ''B''"
  have rank: "entry_rank l = (if ?long l then 0 else 1)" for l by (simp add: entry_rank_def)
  have const: "(\<And>l. P l \<Longrightarrow> entry_rank l = c) \<Longrightarrow> sorted (map entry_rank (filter P ls))" for P c by (induction ls) auto
  have "sort_key entry_rank ls = filter ?long ls @ filter (\<lambda>l. \<not> ?long l) ls"
  proof (rule properties_for_sort_key)
    show "mset (filter ?long ls @ filter (\<lambda>l. \<not> ?long l) ls) = mset ls" by simp
    show "sorted (map entry_rank (filter ?long ls @ filter (\<lambda>l. \<not> ?long l) ls))"
      using const [of ?long 0] const [of "\<lambda>l. \<not> ?long l" 1] by (auto simp: sorted_append rank)
    show "filter (\<lambda>x. entry_rank k = entry_rank x) (filter ?long ls @ filter (\<lambda>l. \<not> ?long l) ls) =
        filter (\<lambda>x. entry_rank k = entry_rank x) ls" for k
      by (cases "?long k") (auto simp: rank intro!: filter_cong)
  qed
  then show ?thesis by (simp add: filter_map comp_def)
qed

text \<open>C33: whatever the broker answers, others do meanwhile and errors cut in, the entries of a run that leave go out longs
  first and otherwise as configured, at most one for each leg, for the leg's contract, side and quantity, and each has
  an entry row of the run that says so, with the reference of its position.\<close>

theorem entries_are_on_record:
  assumes "place_entries env nv now rid mode prd pricetype ls es = (p, es1)"
    and "\<forall>k. keeps_rows (ne_during nv k)" "\<forall>b. keeps_rows (ne_replay nv b)"
  shows "subseq (map fst (ep_sent p))
      (filter (\<lambda>sp. ls_position sp = Ltext ''B'') (map rl_seed ls) @ filter (\<lambda>sp. ls_position sp \<noteq> Ltext ''B'') (map rl_seed ls)) \<and>
    (\<forall>(sp, row, ord)\<in>set (ep_sent p).
       sd_symbol ord = ls_symbol sp \<and> sd_exchange ord = ls_exchange sp \<and> sd_quantity ord = ls_quantity sp \<and>
       (ls_position sp = Ltext ''B'' \<longrightarrow> sd_action ord = BUY) \<and> (ls_position sp = Ltext ''S'' \<longrightarrow> sd_action ord = SELL) \<and>
       (\<exists>r\<in>set (sm_orders (snd es1)). so_id r = row \<and> so_run r = rid \<and> so_kind r = Entry \<and>
          so_leg r = xe_leg_number env (ls_leg_id sp) \<and> so_position_ref r = ls_position_ref sp \<and>
          so_action r = sd_action ord \<and> so_qty r = sd_quantity ord))"
proof -
  obtain runs db where es: "es = (runs, db)" by (cases es)
  obtain binding db1 where b: "binding_for (xe_logins env) (xe_session env) (xe_account env) id rid mode db = (binding, db1)"
    by (metis prod.exhaust)
  have p: "place_each env nv now rid mode binding prd pricetype (sort_key entry_rank ls) (runs, db1) = (p, es1)"
    using assms(1) es b by (simp add: place_entries_def)
  note all = place_each_recorded [OF p assms(2,3)]
  show ?thesis
  proof (intro conjI ballI)
    show "subseq (map fst (ep_sent p))
        (filter (\<lambda>sp. ls_position sp = Ltext ''B'') (map rl_seed ls) @ filter (\<lambda>sp. ls_position sp \<noteq> Ltext ''B'') (map rl_seed ls))"
      using all unfolding longs_first by blast
    fix x assume "x \<in> set (ep_sent p)"
    then have "on_record env rid x (snd es1)" "snd (snd x) = entry_order prd pricetype (fst x)" using all by blast+
    then show "case x of (sp, row, ord) \<Rightarrow>
       sd_symbol ord = ls_symbol sp \<and> sd_exchange ord = ls_exchange sp \<and> sd_quantity ord = ls_quantity sp \<and>
       (ls_position sp = Ltext ''B'' \<longrightarrow> sd_action ord = BUY) \<and> (ls_position sp = Ltext ''S'' \<longrightarrow> sd_action ord = SELL) \<and>
       (\<exists>r\<in>set (sm_orders (snd es1)). so_id r = row \<and> so_run r = rid \<and> so_kind r = Entry \<and>
          so_leg r = xe_leg_number env (ls_leg_id sp) \<and> so_position_ref r = ls_position_ref sp \<and>
          so_action r = sd_action ord \<and> so_qty r = sd_quantity ord)"
      unfolding on_record_def by (cases x) (simp add: entry_order_def build_order_def position_to_action_def str_upper_def char_upper_def)
  qed
qed

subsection \<open>A start without a session, and a paper run with two legs\<close>

definition sample_leg_config :: leg_config where
  "sample_leg_config =
     \<lparr> lc_id = None, lc_leg_id = None, lc_position = Some ''b'', lc_sl_pts = Lnone, lc_target_pts = Lnone, lc_trail = None, lc_risk_unit = None \<rparr>"

definition sample_contract :: contract where
  "sample_contract =
     \<lparr> ct_symbol = ''X'', ct_exchange = ''NSE'', ct_quantity = 10, ct_expiry = None, ct_fallback = False, ct_rank = None, ct_underlying = None \<rparr>"

definition sample_entry_env :: "raise_point option \<Rightarrow> entry_env" where
  "sample_entry_env raised =
     \<lparr> ne_has_key = True, ne_session = None, ne_account = None, ne_opens = True, ne_links = True, ne_session_for = (\<lambda>l. None),
       ne_place = (\<lambda>v x. Some (True, Some ''9'', None)), ne_recorded = (\<lambda>l. True), ne_acked = (\<lambda>l. True), ne_raise = (\<lambda>l. raised),
       ne_during = (\<lambda>l es. es), ne_replay = (\<lambda>b es. es) \<rparr>"

definition sample_start :: "(start_answer \<times> start_event list \<times> sent_entry list) \<times> engine_state \<times> nat set" where
  "sample_start =
     start_run (sample_exit_env True) sample_stop_env (\<lambda>l. (''t'', ''u'')) (sample_entry_env None) (\<lambda>n. replicate n CHR ''r'')
       (\<lambda>c a ltp. Inr sample_contract) 5
       \<lparr>sc_live_enabled = True, sc_legs = [sample_leg_config], sc_product = ''MIS'', sc_pricetype = ''MARKET''\<rparr> 1 ''u'' Live_run
       ((Map.empty, sample_runs), {})"

theorem start_without_orders_leaves_nothing_witness:
  "sm_strategies (snd (fst (snd sample_start))) = sm_strategies sample_runs \<and> length (sm_runs (snd (fst (snd sample_start)))) = 1 \<and>
   fst (fst (snd sample_start)) = Map.empty"
proof -
  have sent: "snd (snd (fst sample_start)) = []" and one: "length (sm_runs (snd (fst (snd sample_start)))) = 1" by code_simp+
  obtain a evs where x: "fst sample_start = (a, evs, [])" using sent by (metis prod.collapse)
  have refs: "inj (\<lambda>n. replicate n CHR ''r'')" by (rule injI) (metis length_replicate)
  have "start_run (sample_exit_env True) sample_stop_env (\<lambda>l. (''t'', ''u'')) (sample_entry_env None) (\<lambda>n. replicate n CHR ''r'')
       (\<lambda>c a ltp. Inr sample_contract) 5
       \<lparr>sc_live_enabled = True, sc_legs = [sample_leg_config], sc_product = ''MIS'', sc_pricetype = ''MARKET''\<rparr> 1 ''u'' Live_run
       ((Map.empty, sample_runs), {}) =
      ((a, evs, []), ((fst (fst (snd sample_start)), snd (fst (snd sample_start))), snd (snd sample_start)))"
    unfolding sample_start_def [symmetric] using x by (metis prod.collapse)
  from start_without_orders_leaves_nothing [OF sample_runs_wf refs _ this] one show ?thesis by simp
qed

definition sample_resolved :: "string \<Rightarrow> string \<Rightarrow> resolved_leg" where
  "sample_resolved lid side =
     resolved_from 1 (sample_leg_config\<lparr>lc_id := Some lid, lc_position := Some side\<rparr>) sample_contract"

definition sample_entries :: "entry_progress \<times> engine_state" where
  "sample_entries =
     place_entries (sample_exit_env True) (sample_entry_env None) 5 4 Sandbox_run ''MIS'' ''MARKET''
       [sample_resolved ''1'' ''s'', sample_resolved ''2'' ''b''] (Map.empty, sample_stop_db)"

theorem entries_are_on_record_witness:
  "map (\<lambda>x. ls_leg_id (fst x)) (ep_sent (fst sample_entries)) = [''2'', ''1''] \<and>
   (\<exists>r\<in>set (sm_orders (snd (snd sample_entries))). so_kind r = Entry \<and> so_action r = SELL)"
proof -
  have sent: "map (\<lambda>x. (ls_leg_id (fst x), ls_position (fst x))) (ep_sent (fst sample_entries)) = [(''2'', Ltext ''B''), (''1'', Ltext ''S'')]"
    by code_simp
  then obtain x y where xy: "ep_sent (fst sample_entries) = [x, y]" "ls_position (fst y) = Ltext ''S''" by (auto simp: map_eq_Cons_conv)
  obtain sp row ord where y: "y = (sp, row, ord)" by (cases y)
  have quiet: "\<forall>k. keeps_rows (ne_during (sample_entry_env None) k)" "\<forall>b. keeps_rows (ne_replay (sample_entry_env None) b)"
    by (simp_all add: sample_entry_env_def keeps_rows_def)
  have "place_entries (sample_exit_env True) (sample_entry_env None) 5 4 Sandbox_run ''MIS'' ''MARKET''
       [sample_resolved ''1'' ''s'', sample_resolved ''2'' ''b''] (Map.empty, sample_stop_db) = (fst sample_entries, snd sample_entries)"
    unfolding sample_entries_def by simp
  from entries_are_on_record [OF this quiet] xy y
  have "\<exists>r\<in>set (sm_orders (snd (snd sample_entries))). so_kind r = Entry \<and> so_action r = SELL" by auto
  moreover have "map (\<lambda>x. ls_leg_id (fst x)) (ep_sent (fst sample_entries)) = [''2'', ''1'']" by code_simp
  ultimately show ?thesis by blast
qed

end
