(* ===== verification/Spec2Isabelle.thy ===== *)
theory Spec2Isabelle
  imports Ledger Fills OrderLaws GttRecovery GttFlights HoldingsLaws PositionLaws ClosingLaws CatchUpLaws WebSocketLaws
    KeyedLocksLaws AggregateLaws StrategyFillLaws StrategyRunLaws StrategyPnlLaws
    StrategyReplay StrategyTickLaws StrategyBrokerLaws StrategyExitLaws StrategyStartLaws
begin

text \<open>
  The paper-trading engine of OpenAlgo: \<open>src/sandbox\<close> on the tables of \<open>src/database/sandbox_db.py\<close>,
  with the symbol classification of \<open>src/utils/symbol_utils.py\<close> and \<open>src/utils/constants.py\<close>, the locks of
  \<open>src/utils/keyed_locks.py\<close>, and the risk core \<open>src/services/risk\<close> that strategies, scalping and flows share,
  and the core of the strategy module: \<open>src/database/strategy_module_db.py\<close> and, in
  \<open>src/services/strategy_module\<close>, the live state of a run and the fills that reach it.

  The program.  In analyzer mode every order of a user goes to a simulated exchange.  The order
  manager validates and prices an order, reserves margin through the fund manager, stores the row
  and, for a marketable one, hands it to the execution engine at once.  The engine polls resting
  orders against live quotes, claims the order it fills, prints a trade and nets the position,
  which frees or moves margin and books profit.  The GTT manager keeps good-till-triggered orders
  (single or one-cancels-other): it reserves their margin, claims a leg when its trigger is crossed,
  places the leg's order, and repairs claims a crash cut off.  The position manager shows the book,
  marks it to market, settles expired contracts and closes positions; the holdings manager moves
  delivery positions of earlier days into holdings; the square-off manager closes intraday positions
  at their exchange's time; the catch-up processor does after a start what was missed; the event-driven
  engine does on each tick of the market feed what the polling engine does on each cycle.  They share
  one database, in which each operation reads, claims by a conditional UPDATE and commits.
  A strategy has at most one current run; a run has legs, each a position with its risk rules, kept in
  memory under the run's lock and in order rows of the database.  The engine and the signals claim a
  leg's exit or entry, place the order and bind its row to the claim; the broker's frames are folded
  into the row, and what a frame adds is applied to the leg, until the run is flat and is finished.

  The model.  \<open>SandboxDB\<close> has a record per table (\<open>sandbox_order\<close>, \<open>sandbox_trade\<close>,
  \<open>sandbox_position\<close>, \<open>sandbox_holding\<close>, \<open>sandbox_funds\<close>, \<open>sandbox_gtt\<close>, \<open>sandbox_gtt_leg\<close>), the
  record \<open>sandbox\<close> of all tables with the configuration, the instrument lookup and the events
  published, and \<open>sql_update\<close> and \<open>row_count\<close> for the conditional UPDATE every claim rests on.  An
  operation is a function from a state to an answer and a state; a rollback answers the state it
  began with; a refusal is a constructor of the answer.  Decimals are exact rationals; a column is
  read back through \<open>x_read\<close>, the rounding of its scale, of which only the laws of the locale
  \<open>decimal_columns\<close> are used and which \<open>round_column\<close> meets.  Times are milliseconds of the naive
  Indian clock the code stores; \<open>db_now\<close> is the database's own clock, five and a half hours behind.
  Quotes, the time, the outcome of a lock and database errors are the fields of \<open>ext\<close> and arguments:
  they stand for code that is not here (brokers, threads, SQLite).

  Theories, and what their groups of lemmas show.
  \<^item> \<open>Prelude\<close>: the columns, the conditional update, lists and maps.  \<open>Symbols\<close>: exchanges, options and
    futures.  \<open>Samples\<close>, \<open>GttSamples\<close>: the concrete accounts the witnesses run on.
  \<^item> \<open>FundManager\<close> (\<open>fund_manager.py\<close>): leverage and margin, and every change of a funds row as a
    compare-and-set of at most five attempts (\<open>FUNDS_WRITE_ATTEMPTS\<close>), with what other writers do
    between the read and the write as an argument.  \<open>FundLaws\<close>, \<open>Ledger\<close>: one operation on one row;
    conservation of the account identity and non-negative margin over any sequence of operations;
    reconciliation, also under interference.
  \<^item> \<open>ExecutionEngine\<close> (\<open>execution_engine.py\<close>): the claim of an order, the price of a fill, the trade, the
    netting of positions (new, reopened, added to, closed, reduced, reversed), the polling cycle.
    \<open>Claims\<close>: a row claimed by a conditional update is taken at most once.  \<open>ExecutionLaws\<close>, \<open>Fills\<close>:
    what a fill does to quantity, book value (with the profit a refused release of margin
    loses, and the rounding of columns), funds; when an order trades; what a cycle achieves.
  \<^item> \<open>OrderManager\<close> (\<open>order_manager.py\<close>): validation, every refusal, pricing, reservation, the order id
    (a search that ends because ids of a day grow), immediate execution, modification, cancellation,
    the order book.  \<open>OrderLaws\<close>: exactly-once settlement of an order in any interleaving, round trip of
    place and cancel, refusals without a trace (an uncovered delivery sell leaves its rejected row, and on
    NCO its margin), ids.
  \<^item> \<open>GttManager\<close> (\<open>gtt_manager.py\<close>): placement, modification, cancellation, claim, fire, compensation,
    recovery, expiry.  \<open>GttLaws\<close>, \<open>GttLife\<close>, \<open>GttFire\<close>, \<open>GttSafety\<close>, \<open>GttReach\<close>, \<open>GttFlights\<close>,
    \<open>GttRecovery\<close>: what each operation moves; a step relation over all of them, in which fires run commit by
    commit beside everything but a recovery pass, and the invariant that a GTT never fires twice; what a
    recovery pass in the middle of a fire does.
  \<^item> \<open>HoldingsManager\<close> (\<open>holdings_manager.py\<close>), \<open>HoldingsLaws\<close>: the delivery settlement conserves units,
    settles a position once, and what it moves in the account; averages.
  \<^item> \<open>Expiry\<close> (\<open>position_manager.py\<close>, \<open>session_boundary.py\<close>), \<open>PositionManager\<close> (\<open>position_manager.py\<close>),
    \<open>PositionLaws\<close>: expiry dates in symbols, the two settlements of an expired contract, mark to market,
    the position book, closing.
  \<^item> \<open>SquareOff\<close> (\<open>squareoff_manager.py\<close>), \<open>CatchUp\<close> (\<open>catch_up_processor.py\<close>): the sweeps, in the order
    the code runs them.  \<open>ClosingLaws\<close>: closing a position flattens it, and a forced square-off closes
    exactly the intraday positions that can be closed.  \<open>CatchUpLaws\<close>: the catch-up closes what past sessions left over, once.

  \<^item> \<open>WebSocketEngine\<close> (\<open>websocket_execution_engine.py\<close>): the event-driven twin of the polling engine, with
    its indexes of waiting orders, legs and positions, the reference counts behind the calls to the
    feed, the tick and the rebuild.  \<open>WebSocketLaws\<close>: the feed carries a symbol exactly while something
    waits for it, a tick fills and unwatches an order, and the two orders of events that break this.
  \<^item> \<open>KeyedLocks\<close> (\<open>utils/keyed_locks.py\<close>, \<open>sandbox/position_locks.py\<close>): the registry with one lock per key in
    use, and the blocks that hold them, as a step relation over any number of threads.  \<open>KeyedLocksLaws\<close>:
    mutual exclusion, the registry's contents, and that blocks of one key per thread always drain;
    two keys held crosswise stand still.
  \<^item> \<open>RiskCore\<close> (\<open>services/risk\<close>): loose input and its normalisation, the tick of one position (extreme, trail,
    clamp, ratchet, stop, target), the check of a configuration, the mark to market and the combined
    limits of a set, stops to entry.  \<open>RiskLaws\<close>: over any run of ticks the stop is the one the best
    price determines and only tightens; a checked configuration does not exit at once.
    \<open>AggregateLaws\<close>: the profit lock as a function of the totals seen; which stops move to entry.
  \<^item> \<open>StrategyDB\<close> (\<open>strategy_module_db.py\<close>): strategies, runs and orders as records, and every conditional update
    of them; a broker frame is folded in at most eight attempts (\<open>FOLD_ATTEMPTS\<close>), with what others commit
    between read and write as an argument; the profit of a run rebuilt from its orders.
    \<open>StrategyRunLaws\<close>: a strategy points at an open run of its own, a run finishes once, one start wins.
    \<open>StrategyOrderLaws\<close>: a fold is one step among other writers and counts a fill once.
    \<open>StrategyPnlLaws\<close>: first-in first-out profit is the cash of the orders.
  \<^item> \<open>StrategyRisk\<close> (\<open>risk_adapter.py\<close>), \<open>StrategyState\<close> (\<open>state.py\<close>), \<open>StrategyFill\<close> (\<open>engine.py\<close>: fills and finishing;
    \<open>order_events.py\<close>: \<open>_apply_frame\<close>): legs and runs as records, each operation under the run's lock as one
    function from a state to an answer and a state.  \<open>StrategyLegLaws\<close>: a leg trails as the risk core does,
    an exit is granted once, a flat stopping run stays flat, a flip keeps both positions.
    \<open>StrategyFillLaws\<close>: rows and legs together, from any priced frames of an exit order to the profit booked,
    also when the last of them closes the run.
  \<^item> \<open>StrategyTick\<close> (\<open>engine.py\<close>: \<open>_process_tick_for_run\<close>): what a tick decides for a run (exits of legs, stops to
    entry, the combined limits, the limit of the day) and how it is carried out: the exits, the stop of the
    run, or the note that it cannot act.  \<open>StrategyTickLaws\<close>: exactly the breached legs exit, a breach fires
    until it was acted on, and an episode in which a run cannot act is said once, whether ticks, stops or
    fills begin and end it.
  \<^item> \<open>StrategyReplay\<close> (\<open>order_events.py\<close>: \<open>replay_for\<close>, \<open>_stash_until_recorded\<close>): frames that come before their
    order's row, as a step relation over the workers that bring them and the thread that records the
    order; every frame is applied once, and the threads end.
  \<^item> \<open>StrategyBroker\<close> (\<open>order_dispatch.py\<close>, \<open>broker_binding.py\<close>): the broker and account a Live run is held to,
    and the calls that send, cancel and read orders.  \<open>StrategyBrokerLaws\<close>: whatever is logged in when, a call
    leaves only for the broker of the run; the two reads that can bind a run to two sessions at once.
  \<^item> \<open>StrategyExit\<close> (\<open>engine.py\<close>: \<open>_exit_legs\<close>, \<open>stop_run\<close>, \<open>reconcile_pending_stop\<close>, \<open>close_leg\<close>): claim, row, binding,
    order, acknowledgement, release; a stop from its request to the finished run.  \<open>StrategyExitLaws\<close>: an exit
    closes what is held, once; a stop whose exits are refused leaves the run as its reads and cancellations left it.
  \<^item> \<open>StrategyStart\<close> (\<open>engine.py\<close>: \<open>start_run\<close>, \<open>_resolve_all_legs\<close>, \<open>_place_entries\<close>, \<open>_manage_failed_start\<close>): claim,
    run, link, live state and entries, with the errors that can cut a start off.  \<open>StrategyStartLaws\<close>: a start
    of which nothing was sent leaves nothing; every entry that leaves is on record, longs first.

  Not modelled: log lines, the JSON of responses and emulated latency; the threads and schedulers
  that call these functions (\<open>execution_thread.py\<close>, \<open>squareoff_thread.py\<close>; interleavings of their
  database steps are sequences of steps where a property speaks of them);
  what the market feed answers and what threads interleave inside one notification of the event-driven
  engine;
  \<open>process_session_settlement\<close>, which nothing calls; the symbol table's expiry column (a parameter);
  fetching of quotes; decimal contexts of more than 28 digits; the rounding of floats in the risk core,
  which are exact rationals here.  Of the strategy module: the
  resolver of a leg's contract and the repair of acknowledgements (arguments of a start and of a stop), signals,
  recovery, schedules and webhooks; the age of a held
  frame and the number of orders the cache of held frames allows; fresh references and tokens, which are
  arguments.  Of the rest of the program nothing is modelled: broker adapters, REST routes,
  live services, the agent, market data.
\<close>

end
